(* ===== verification/Prelude.thy ===== *)
theory Prelude
  imports Main "HOL-Library.Word" "HOL-Library.Multiset" "HOL-Library.AList" "HOL-Library.Sublist"
begin

text \<open>
  Shared vocabulary of the development: the pieces of the Go language and of its standard
  library that several components use, with the lemmas and the simplification collections
  the component proofs rest on.

  \<^item> 64-bit integers are HOL integers with the wrap-around written out (\<open>wrap64\<close>);
  \<^item> \<open>time.Time\<close> is the number of nanoseconds since Go's zero time and \<open>time.Duration\<close>
    a number of nanoseconds;
  \<^item> a Go map is an association list whose order is the (unspecified) iteration order; a nil
    map reads as the empty one;
  \<^item> \<open>fmt.Sprintf("%d")\<close> on a non-negative number is \<open>itoa\<close>;
  \<^item> \<open>sort.Slice\<close> is an argument of the code that calls it, with what its documentation
    promises as the locale \<open>sort_slice\<close>; \<open>insertion_sort\<close>, the algorithm the library
    runs on short slices, is proved to be an instance.
\<close>

named_theorems gomap_simps "reading and writing Go maps"
named_theorems go_int "64-bit integer arithmetic"

section \<open>Integers and time\<close>

type_synonym go_time = int
type_synonym duration = int

definition wrap64 :: "int \<Rightarrow> int" where
  "wrap64 x = signed_take_bit 63 x"

definition in_int64 :: "int \<Rightarrow> bool" where
  "in_int64 x \<longleftrightarrow> - (2 ^ 63) \<le> x \<and> x < 2 ^ 63"

abbreviation second :: duration where "second \<equiv> 1000000000"
abbreviation minute :: duration where "minute \<equiv> 60000000000"
abbreviation hour :: duration where "hour \<equiv> 3600000000000"

lemma wrap64_id [go_int]: "in_int64 x \<Longrightarrow> wrap64 x = x"
  by (simp add: wrap64_def in_int64_def signed_take_bit_int_eq_self)

lemma wrap64_in_int64: "in_int64 (wrap64 x)"
  using signed_take_bit_int_greater_eq_minus_exp [of 63 x] signed_take_bit_int_less_exp [of 63 x]
  by (simp add: wrap64_def in_int64_def)

lemma in_int64_diff [go_int]:
  "0 \<le> a \<Longrightarrow> 0 \<le> b \<Longrightarrow> in_int64 a \<Longrightarrow> in_int64 b \<Longrightarrow> in_int64 (a - b)"
  by (simp add: in_int64_def)

text \<open>Go's integer division truncates towards zero.\<close>

definition go_div :: "int \<Rightarrow> int \<Rightarrow> int" where
  "go_div a b = sgn a * sgn b * (\<bar>a\<bar> div \<bar>b\<bar>)"

lemma go_div_nonneg: "0 \<le> a \<Longrightarrow> 0 < b \<Longrightarrow> go_div a b = a div b"
  by (cases "a = 0") (simp_all add: go_div_def)

section \<open>Maps\<close>

type_synonym ('k, 'v) gomap = "('k \<times> 'v) list"

definition gomap_ok :: "('k, 'v) gomap \<Rightarrow> bool" where
  "gomap_ok m \<longleftrightarrow> distinct (map fst m)"

definition get :: "('k, 'v) gomap \<Rightarrow> 'k \<Rightarrow> 'v option" where
  "get m k = map_of m k"

definition put :: "('k, 'v) gomap \<Rightarrow> 'k \<Rightarrow> 'v \<Rightarrow> ('k, 'v) gomap" where
  "put m k v = AList.update k v m"

definition del :: "('k, 'v) gomap \<Rightarrow> 'k \<Rightarrow> ('k, 'v) gomap" where
  "del m k = AList.delete k m"

text \<open>\<open>m[k]\<close> used as a value: the zero value \<open>d\<close> when the key is missing.\<close>

definition get_or :: "'v \<Rightarrow> ('k, 'v) gomap \<Rightarrow> 'k \<Rightarrow> 'v" where
  "get_or d m k = (case get m k of None \<Rightarrow> d | Some v \<Rightarrow> v)"

lemma get_Nil [simp, gomap_simps]: "get [] k = None"
  by (simp add: get_def)

lemma get_Cons [simp, gomap_simps]: "get ((k', v) # m) k = (if k = k' then Some v else get m k)"
  by (simp add: get_def)

lemma get_put [simp, gomap_simps]: "get (put m k v) k' = (if k' = k then Some v else get m k')"
  by (simp add: get_def put_def update_conv')

lemma get_del [simp, gomap_simps]: "get (del m k) k' = (if k' = k then None else get m k')"
  by (simp add: get_def del_def delete_conv')

lemma gomap_ok_Nil [simp]: "gomap_ok []"
  by (simp add: gomap_ok_def)

lemma gomap_ok_put [simp, intro]: "gomap_ok m \<Longrightarrow> gomap_ok (put m k v)"
  by (simp add: gomap_ok_def put_def distinct_update)

lemma gomap_ok_del [simp, intro]: "gomap_ok m \<Longrightarrow> gomap_ok (del m k)"
  by (simp add: gomap_ok_def del_def distinct_delete)

lemma get_Some_in_set: "get m k = Some v \<Longrightarrow> (k, v) \<in> set m"
  by (simp add: get_def map_of_SomeD)

lemma get_iff_in_set: "gomap_ok m \<Longrightarrow> get m k = Some v \<longleftrightarrow> (k, v) \<in> set m"
  by (simp add: get_def gomap_ok_def)

lemma get_None_iff: "get m k = None \<longleftrightarrow> k \<notin> fst ` set m"
  by (simp add: get_def map_of_eq_None_iff)

lemma get_put_fun: "get (put m k v) = (get m)(k \<mapsto> v)"
  by (simp add: fun_eq_iff)

lemma get_del_fun: "get (del m k) = (get m)(k := None)"
  by (simp add: fun_eq_iff)

definition keys :: "('k, 'v) gomap \<Rightarrow> 'k set" where
  "keys m = fst ` set m"

lemma in_keys: "k \<in> keys m \<longleftrightarrow> get m k \<noteq> None"
  unfolding keys_def by (simp only: get_None_iff not_not)

lemma keys_put [simp]: "keys (put m k v) = insert k (keys m)"
  by (auto simp: in_keys set_eq_iff)

lemma keys_del [simp]: "keys (del m k) = keys m - {k}"
  by (auto simp: in_keys set_eq_iff)

lemma set_put_subset: "set (put m k v) \<subseteq> insert (k, v) (set m)"
  by (induction m) (auto simp: put_def)

lemma set_del_subset: "set (del m k) \<subseteq> set m"
  by (induction m) (auto simp: del_def)

text \<open>The entries and the values of a map as multisets: what a store and a deletion do to them.\<close>

definition mvals :: "('k, 'v) gomap \<Rightarrow> 'v multiset" where
  "mvals m = image_mset snd (mset m)"

lemma mvals_Nil [simp]: "mvals [] = {#}"
  by (simp add: mvals_def)

lemma size_mvals: "size (mvals m) = length m"
  by (simp add: mvals_def)

lemma put_fresh: "get m k = None \<Longrightarrow> put m k v = m @ [(k, v)]"
  by (induction m) (auto simp: put_def split: if_splits)

lemma mset_put_fresh: "get m k = None \<Longrightarrow> mset (put m k v) = add_mset (k, v) (mset m)"
  by (simp add: put_fresh)

lemma mvals_put_fresh: "get m k = None \<Longrightarrow> mvals (put m k v) = add_mset v (mvals m)"
  by (simp add: mvals_def mset_put_fresh)

lemma del_absent [simp]: "get m k = None \<Longrightarrow> del m k = m"
  by (simp add: get_None_iff del_def delete_id)

lemma mset_del: "gomap_ok m \<Longrightarrow> get m k = Some v \<Longrightarrow> mset m = add_mset (k, v) (mset (del m k))"
proof (induction m)
  case Nil
  then show ?case by simp
next
  case (Cons p m)
  obtain k' v' where p: "p = (k', v')" by (cases p)
  show ?case
  proof (cases "k = k'")
    case True
    with Cons.prems p have "get m k = None"
      by (simp add: get_None_iff gomap_ok_def)
    then have "AList.delete k m = m"
      using del_absent [of m k] by (simp add: del_def)
    with True Cons.prems p show ?thesis
      by (simp add: del_def)
  next
    case False
    with Cons p show ?thesis
      by (simp add: del_def gomap_ok_def add_mset_commute)
  qed
qed

lemma mvals_del: "gomap_ok m \<Longrightarrow> get m k = Some v \<Longrightarrow> mvals m = add_mset v (mvals (del m k))"
  by (simp add: mvals_def mset_del [of m k v])

section \<open>Strings\<close>

text \<open>
  \<open>strings.HasPrefix\<close> is \<open>prefix\<close>, \<open>strings.Contains\<close> is \<open>sublist\<close> (both of
  HOL-Library). Case folding is that of the ASCII letters.
\<close>

definition TrimPrefix :: "string \<Rightarrow> string \<Rightarrow> string" where
  "TrimPrefix s p = (if prefix p s then drop (length p) s else s)"

definition lower_char :: "char \<Rightarrow> char" where
  "lower_char c = (let n = of_char c :: nat in
     if 65 \<le> n \<and> n \<le> 90 then char_of (n + 32) else c)"

definition ToLower :: "string \<Rightarrow> string" where
  "ToLower s = map lower_char s"

definition EqualFold :: "string \<Rightarrow> string \<Rightarrow> bool" where
  "EqualFold s t \<longleftrightarrow> ToLower s = ToLower t"

lemma TrimPrefix_append [simp]: "TrimPrefix (p @ s) p = s"
  by (simp add: TrimPrefix_def)

text \<open>\<open>strings.Split\<close> with a one-character separator.\<close>

fun split_on :: "char \<Rightarrow> string \<Rightarrow> string list" where
  "split_on c [] = [[]]"
| "split_on c (x # xs) =
     (if x = c then [] # split_on c xs
      else case split_on c xs of [] \<Rightarrow> [[x]] | w # ws \<Rightarrow> (x # w) # ws)"

lemma split_on_ne [simp]: "split_on c s \<noteq> []"
  by (cases s) (auto split: list.splits)

lemma split_on_word [simp]: "c \<notin> set s \<Longrightarrow> split_on c s = [s]"
  by (induction s) auto

lemma split_on_append: "split_on c (s @ c # t) = split_on c s @ split_on c t"
  by (induction s) (auto split: list.splits)

lemma split_on_word_append: "c \<notin> set w \<Longrightarrow> split_on c (w @ c # t) = w # split_on c t"
  by (simp add: split_on_append)

text \<open>White space is that of ASCII.\<close>

definition is_space :: "char \<Rightarrow> bool" where
  "is_space c \<longleftrightarrow> c \<in> {CHR '' '', CHR 0x09, CHR 0x0A, CHR 0x0B, CHR 0x0C, CHR 0x0D}"

definition TrimSpace :: "string \<Rightarrow> string" where
  "TrimSpace s = rev (dropWhile is_space (rev (dropWhile is_space s)))"

text \<open>\<open>strings.Fields\<close>: the words between white space.\<close>

definition str_fields :: "string \<Rightarrow> string list" where
  "str_fields s = filter (\<lambda>w. w \<noteq> []) (split_on CHR '' '' (map (\<lambda>c. if is_space c then CHR '' '' else c) s))"

definition is_digit :: "char \<Rightarrow> bool" where
  "is_digit c \<longleftrightarrow> 48 \<le> (of_char c :: nat) \<and> (of_char c :: nat) \<le> 57"

definition upper_char :: "char \<Rightarrow> char" where
  "upper_char c = (let n = of_char c :: nat in
     if 97 \<le> n \<and> n \<le> 122 then char_of (n - 32) else c)"

definition ToUpper :: "string \<Rightarrow> string" where
  "ToUpper s = map upper_char s"

subsection \<open>Decimal numbers\<close>

definition digit_char :: "nat \<Rightarrow> char" where
  "digit_char d = char_of (48 + d)"

fun itoa :: "nat \<Rightarrow> string" where
  "itoa n = (if n < 10 then [digit_char n] else itoa (n div 10) @ [digit_char (n mod 10)])"

declare itoa.simps [simp del]

definition dec_value :: "string \<Rightarrow> nat" where
  "dec_value s = foldl (\<lambda>a c. 10 * a + (of_char c - 48)) 0 s"

lemma of_digit_char: "d < 10 \<Longrightarrow> of_char (digit_char d) = (48 + d :: nat)"
  by (simp add: digit_char_def)

lemma dec_value_snoc: "d < 10 \<Longrightarrow> dec_value (s @ [digit_char d]) = 10 * dec_value s + d"
  by (simp add: dec_value_def of_digit_char)

lemma dec_value_itoa: "dec_value (itoa n) = n"
proof (induction n rule: itoa.induct)
  case (1 n)
  show ?case
  proof (cases "n < 10")
    case True
    then show ?thesis
      using dec_value_snoc [of n "[]"] by (simp add: itoa.simps [of n] dec_value_def)
  next
    case False
    with 1 show ?thesis
      by (simp add: itoa.simps [of n] dec_value_snoc)
  qed
qed

lemma itoa_inj: "itoa m = itoa n \<longleftrightarrow> m = n"
  by (metis dec_value_itoa)

section \<open>Sorting\<close>

locale sort_slice =
  fixes lt :: "'a \<Rightarrow> 'a \<Rightarrow> bool"
    and srt :: "'a list \<Rightarrow> 'a list"
  assumes srt_perm: "mset (srt xs) = mset xs"
    and srt_sorted: "sorted_wrt (\<lambda>a b. \<not> lt b a) (srt xs)"
begin

lemma set_srt: "set (srt xs) = set xs"
  using srt_perm [of xs] by (metis set_mset_mset)

lemma srt_eq_Nil: "srt xs = [] \<longleftrightarrow> xs = []"
  using srt_perm [of xs] by auto

lemma hd_srt_in: "xs \<noteq> [] \<Longrightarrow> hd (srt xs) \<in> set xs"
  using set_srt [of xs] srt_eq_Nil [of xs] by (metis hd_in_set)

text \<open>The first element of the sorted slice is minimal: nothing is less than it.\<close>

lemma hd_srt_minimal: "x \<in> set xs \<Longrightarrow> x \<noteq> hd (srt xs) \<Longrightarrow> \<not> lt x (hd (srt xs))"
proof -
  assume x: "x \<in> set xs" and ne: "x \<noteq> hd (srt xs)"
  from x have "xs \<noteq> []" by auto
  then have "srt xs \<noteq> []" by (simp add: srt_eq_Nil)
  then obtain y ys where eq: "srt xs = y # ys" by (meson neq_Nil_conv)
  with x ne set_srt [of xs] have "x \<in> set ys" by auto
  with eq srt_sorted [of xs] show ?thesis by simp
qed

end

locale strict_weak =
  fixes lt :: "'a \<Rightarrow> 'a \<Rightarrow> bool"
  assumes lt_asym: "lt a b \<Longrightarrow> \<not> lt b a"
    and not_lt_trans: "\<not> lt a b \<Longrightarrow> \<not> lt b c \<Longrightarrow> \<not> lt a c"

text \<open>
  The insertion sort of the standard library: each element in turn moves left while it is less
  than its predecessor.
\<close>

fun insert_by :: "('a \<Rightarrow> 'a \<Rightarrow> bool) \<Rightarrow> 'a \<Rightarrow> 'a list \<Rightarrow> 'a list" where
  "insert_by lt x [] = [x]"
| "insert_by lt x (y # ys) = (if lt x y then x # y # ys else y # insert_by lt x ys)"

definition insertion_sort :: "('a \<Rightarrow> 'a \<Rightarrow> bool) \<Rightarrow> 'a list \<Rightarrow> 'a list" where
  "insertion_sort lt xs = foldl (\<lambda>acc x. insert_by lt x acc) [] xs"

lemma mset_insert_by: "mset (insert_by lt x ys) = add_mset x (mset ys)"
  by (induction ys) auto

lemma mset_foldl_insert_by:
  "mset (foldl (\<lambda>acc x. insert_by lt x acc) acc xs) = mset acc + mset xs"
  by (induction xs arbitrary: acc) (auto simp: mset_insert_by)

lemma mset_insertion_sort: "mset (insertion_sort lt xs) = mset xs"
  by (simp add: insertion_sort_def mset_foldl_insert_by)

context strict_weak
begin

lemma sorted_insert_by:
  "sorted_wrt (\<lambda>a b. \<not> lt b a) ys \<Longrightarrow> sorted_wrt (\<lambda>a b. \<not> lt b a) (insert_by lt x ys)"
proof (induction ys)
  case Nil
  then show ?case by simp
next
  case (Cons y ys)
  have set_ins: "set (insert_by lt x ys) = insert x (set ys)"
    using mset_insert_by [of lt x ys] by (metis set_mset_add_mset_insert set_mset_mset)
  show ?case
  proof (cases "lt x y")
    case True
    then have "\<not> lt y x" by (rule lt_asym)
    moreover have "\<not> lt z x" if "z \<in> set ys" for z
      using that Cons.prems calculation not_lt_trans [of z y x] by auto
    ultimately show ?thesis using True Cons.prems by auto
  next
    case False
    with Cons set_ins show ?thesis by auto
  qed
qed

lemma sorted_foldl_insert_by:
  "sorted_wrt (\<lambda>a b. \<not> lt b a) acc \<Longrightarrow>
   sorted_wrt (\<lambda>a b. \<not> lt b a) (foldl (\<lambda>acc x. insert_by lt x acc) acc xs)"
  by (induction xs arbitrary: acc) (auto intro: sorted_insert_by)

end

sublocale strict_weak \<subseteq> sort_slice lt "insertion_sort lt"
  by unfold_locales (simp_all add: mset_insertion_sort, simp add: insertion_sort_def sorted_foldl_insert_by)

interpretation int_asc: strict_weak "\<lambda>a b. (f a :: int) < f b" for f
  by unfold_locales auto

interpretation int_desc: strict_weak "\<lambda>a b. (f a :: int) > f b" for f
  by unfold_locales auto

section \<open>Lists\<close>

lemma filter_eq_Nil_iff: "filter P xs = [] \<longleftrightarrow> (\<forall>x\<in>set xs. \<not> P x)"
  by (induction xs) auto

lemma distinct_submset: "mset xs \<subseteq># mset ys \<Longrightarrow> distinct ys \<Longrightarrow> distinct xs"
proof -
  assume sub: "mset xs \<subseteq># mset ys" and dist: "distinct ys"
  obtain zs where "mset zs = mset ys - mset xs" using ex_mset by blast
  with sub have "mset ys = mset (xs @ zs)" by simp
  with dist have "distinct (xs @ zs)" by (metis mset_eq_imp_distinct_iff)
  then show ?thesis by simp
qed

section \<open>Encodings\<close>

text \<open>An encoding into texts of some type, such as JSON: a marshaller and its parser, each of which may fail.\<close>

type_synonym ('a, 'v) codec = "('a \<Rightarrow> string + 'v) \<times> ('v \<Rightarrow> string + 'a)"

definition faithful :: "('a, 'v) codec \<Rightarrow> bool" where
  "faithful c \<longleftrightarrow> (\<forall>x. \<exists>t. fst c x = Inr t \<and> snd c t = Inr x)"

lemma faithfulE: "faithful c \<Longrightarrow> (\<And>t. fst c x = Inr t \<Longrightarrow> snd c t = Inr x \<Longrightarrow> thesis) \<Longrightarrow> thesis"
  unfolding faithful_def by blast

end
