(* ===== verification/Domain.thy ===== *)
theory Domain
  imports Prelude
begin

text \<open>
  The data every component exchanges (\<open>src/pkg/domain/types.go\<close>). A Go struct is a record
  with the struct's fields in the struct's order; the short prefix of a field name tells the
  struct. \<open>NodeStatus\<close> embeds \<open>NodeInfo\<close>, which is record extension. Identifiers are
  strings, times and durations are nanoseconds, and a \<open>*int\<close> is an option.
\<close>

type_synonym SandboxID = string
type_synonym TemplateID = string
type_synonym NodeID = string
type_synonym SnapshotID = string
type_synonym PolicyID = string
type_synonym metadata = "(string, string) gomap"

text \<open>The run states, with \<open>RunStatusOther\<close> for any other string a node may report.\<close>

datatype RunStatus =
    RunStatusPending
  | RunStatusScheduled
  | RunStatusRunning
  | RunStatusSucceeded
  | RunStatusFailed
  | RunStatusCanceled
  | RunStatusOther string

record GPURequest =
  gpu_Count :: int
  gpu_Type :: string

record ResourceSpec =
  res_CPU :: int
  res_Mem :: int
  res_GPU :: GPURequest
  res_TTL :: duration
  res_Profile :: string

record NetworkPolicyRef =
  net_ID :: string
  net_Name :: string

record RetentionPolicy =
  ret_MaxAge :: duration
  ret_KeepOutputs :: bool

record SandboxRequest =
  req_ID :: SandboxID
  req_Template :: TemplateID
  req_NodeID :: NodeID
  req_HeatLevel :: string
  req_Command :: "string list"
  req_Args :: "string list"
  req_Env :: metadata
  req_Resources :: ResourceSpec
  req_NetworkRef :: NetworkPolicyRef
  req_Retention :: RetentionPolicy
  req_Secrets :: metadata
  req_Metadata :: metadata
  req_Hardened :: bool
  req_CreatedAt :: go_time

record SandboxRun =
  run_ID :: SandboxID
  run_RequestID :: SandboxID
  run_NodeID :: NodeID
  run_Template :: TemplateID
  run_Status :: RunStatus
  run_ExitCode :: "int option"
  run_Error :: string
  run_StartedAt :: go_time
  run_FinishedAt :: go_time
  run_CreatedAt :: go_time
  run_UpdatedAt :: go_time
  run_MemoryUsage :: int
  run_Metadata :: metadata

record ResourceCapacity =
  cap_CPU :: int
  cap_Mem :: int
  cap_GPU :: int

record NodeInfo =
  node_ID :: NodeID
  node_Address :: string
  node_Labels :: metadata
  node_Capacity :: ResourceCapacity

record NodeStatus = NodeInfo +
  node_Allocated :: ResourceCapacity
  node_Heartbeat :: go_time
  node_ActiveSandboxes :: "SandboxRun list"

record TemplateSpec =
  tpl_ID :: TemplateID
  tpl_Name :: string
  tpl_Description :: string
  tpl_BaseImage :: string
  tpl_KernelImage :: string
  tpl_Resources :: ResourceSpec
  tpl_DefaultEnv :: metadata
  tpl_WarmupCommand :: "string list"

record SnapshotRef =
  snap_ID :: SnapshotID
  snap_Template :: TemplateID
  snap_CreatedAt :: go_time
  snap_Path :: string

record SandboxPolicy =
  pol_ID :: PolicyID
  pol_TemplateID :: TemplateID
  pol_Resources :: ResourceSpec
  pol_NetworkPolicy :: NetworkPolicyRef
  pol_Retention :: RetentionPolicy
  pol_Tags :: metadata
  pol_Version :: int

text \<open>The zero values a composite literal leaves in the fields it does not name.\<close>

definition zero_ResourceSpec :: ResourceSpec where
  "zero_ResourceSpec = \<lparr>res_CPU = 0, res_Mem = 0, res_GPU = \<lparr>gpu_Count = 0, gpu_Type = []\<rparr>,
     res_TTL = 0, res_Profile = []\<rparr>"

definition zero_SandboxRun :: SandboxRun where
  "zero_SandboxRun = \<lparr>run_ID = [], run_RequestID = [], run_NodeID = [], run_Template = [],
     run_Status = RunStatusOther [], run_ExitCode = None, run_Error = [], run_StartedAt = 0,
     run_FinishedAt = 0, run_CreatedAt = 0, run_UpdatedAt = 0, run_MemoryUsage = 0,
     run_Metadata = []\<rparr>"

definition zero_SandboxRequest :: SandboxRequest where
  "zero_SandboxRequest = \<lparr>req_ID = [], req_Template = [], req_NodeID = [], req_HeatLevel = [],
     req_Command = [], req_Args = [], req_Env = [], req_Resources = zero_ResourceSpec,
     req_NetworkRef = \<lparr>net_ID = [], net_Name = []\<rparr>,
     req_Retention = \<lparr>ret_MaxAge = 0, ret_KeepOutputs = False\<rparr>,
     req_Secrets = [], req_Metadata = [], req_Hardened = False, req_CreatedAt = 0\<rparr>"

definition zero_ResourceCapacity :: ResourceCapacity where
  "zero_ResourceCapacity = \<lparr>cap_CPU = 0, cap_Mem = 0, cap_GPU = 0\<rparr>"

end
