(* ===== verification/Hermes.thy ===== *)
theory Hermes
  imports Domain
begin

text \<open>
  The audit log (\<open>src/pkg/hermes/audit\<close>): events, the auditor that records them, and the store
  that chains them by a keyed hash.

  The text that is hashed (JSON of the event without its hash) and the keyed hash itself
  (HMAC-SHA256, in hexadecimal) are arguments, \<open>enc\<close> and \<open>mac\<close>; nothing is assumed of them but what
  a statement says. A theorem on tampering concludes that either the log is the genuine one or two
  different texts have the same keyed hash (\<open>clash\<close>). A detector is a function that may answer
  an error; whether the underlying writer fails is an argument of each write. Metadata values are
  strings.
\<close>

section \<open>Events\<close>

record audit_resource =
  ar_Type :: string
  ar_ID :: string
  ar_Name :: string

record audit_identity =
  ai_ID :: string
  ai_Type :: string
  ai_TenantID :: string

record Event =
  ev_ID :: string
  ev_Timestamp :: go_time
  ev_Action :: string
  ev_Result :: string
  ev_Resource :: audit_resource
  ev_Identity :: "audit_identity option"
  ev_SourceIP :: string
  ev_UserAgent :: string
  ev_RequestID :: string
  ev_Latency :: duration
  ev_ErrorMessage :: string
  ev_Metadata :: metadata
  ev_PreviousHash :: string
  ev_Hash :: string

definition zero_Event :: Event where
  "zero_Event = \<lparr>ev_ID = [], ev_Timestamp = 0, ev_Action = [], ev_Result = [],
     ev_Resource = \<lparr>ar_Type = [], ar_ID = [], ar_Name = []\<rparr>, ev_Identity = None, ev_SourceIP = [], ev_UserAgent = [],
     ev_RequestID = [], ev_Latency = 0, ev_ErrorMessage = [], ev_Metadata = [], ev_PreviousHash = [], ev_Hash = []\<rparr>"

section \<open>The chain\<close>

type_synonym encoder = "Event \<Rightarrow> string option"

datatype chain_error = MarshalFailed string | HashMismatch string | ChainBroken string string

text \<open>The payload of an event is the event without its hash.\<close>

definition hash_payload :: "Event \<Rightarrow> Event" where
  "hash_payload e = e\<lparr>ev_Hash := []\<rparr>"

definition ComputeHash :: "encoder \<Rightarrow> (string \<Rightarrow> string) \<Rightarrow> Event \<Rightarrow> chain_error + string" where
  "ComputeHash enc mac e =
     (case enc (hash_payload e) of None \<Rightarrow> Inl (MarshalFailed (ev_ID e)) | Some data \<Rightarrow> Inr (mac data))"

fun verify_loop :: "encoder \<Rightarrow> (string \<Rightarrow> string) \<Rightarrow> Event option \<Rightarrow> Event list \<Rightarrow> chain_error option" where
  "verify_loop enc mac prev [] = None"
| "verify_loop enc mac prev (e # es) =
     (case ComputeHash enc mac e of
        Inl err \<Rightarrow> Some err
      | Inr expectedHash \<Rightarrow>
          if ev_Hash e \<noteq> expectedHash then Some (HashMismatch (ev_ID e))
          else case prev of
                 None \<Rightarrow> verify_loop enc mac (Some e) es
               | Some p \<Rightarrow>
                   if ev_PreviousHash e \<noteq> ev_Hash p then Some (ChainBroken (ev_ID e) (ev_ID p))
                   else verify_loop enc mac (Some e) es)"

definition VerifyChain :: "encoder \<Rightarrow> (string \<Rightarrow> string) \<Rightarrow> Event list \<Rightarrow> chain_error option" where
  "VerifyChain enc mac events = verify_loop enc mac None events"

section \<open>Stores and the auditor\<close>

definition LogStore_Write :: "string option \<Rightarrow> Event \<Rightarrow> Event list \<Rightarrow> string option \<times> Event list" where
  "LogStore_Write writeErr e log0 =
     (case writeErr of Some err \<Rightarrow> (Some err, log0) | None \<Rightarrow> (None, log0 @ [e]))"

record TamperEvidentStore =
  ts_log :: "Event list"
  ts_lastHash :: string

definition NewTamperEvidentStore :: "Event list \<Rightarrow> TamperEvidentStore" where
  "NewTamperEvidentStore store = \<lparr>ts_log = store, ts_lastHash = []\<rparr>"

definition chain_error_text :: "chain_error \<Rightarrow> string" where
  "chain_error_text e = (case e of
      MarshalFailed _ \<Rightarrow> ''failed to marshal event for hashing''
    | HashMismatch i \<Rightarrow> ''hash mismatch for event '' @ i
    | ChainBroken i _ \<Rightarrow> ''chain broken at event '' @ i)"

definition TamperEvident_Write ::
    "encoder \<Rightarrow> (string \<Rightarrow> string) \<Rightarrow> string option \<Rightarrow> Event \<Rightarrow> TamperEvidentStore
     \<Rightarrow> string option \<times> TamperEvidentStore" where
  "TamperEvident_Write enc mac writeErr event s =
     (let event = event\<lparr>ev_PreviousHash := ts_lastHash s\<rparr>
      in case ComputeHash enc mac event of
           Inl err \<Rightarrow> (Some (chain_error_text err), s)
         | Inr hash \<Rightarrow>
             let event = event\<lparr>ev_Hash := hash\<rparr>;
                 s = s\<lparr>ts_lastHash := hash\<rparr>;
                 (err, store) = LogStore_Write writeErr event (ts_log s)
             in (err, s\<lparr>ts_log := store\<rparr>))"

type_synonym detector = "Event \<Rightarrow> string option"

fun run_detectors :: "detector list \<Rightarrow> Event \<Rightarrow> Event" where
  "run_detectors [] e = e"
| "run_detectors (d # ds) e =
     run_detectors ds (case d e of
        None \<Rightarrow> e
      | Some err \<Rightarrow> e\<lparr>ev_Metadata := put (ev_Metadata e) ''anomaly_error'' err\<rparr>)"

definition Record ::
    "encoder \<Rightarrow> (string \<Rightarrow> string) \<Rightarrow> detector list \<Rightarrow> string \<Rightarrow> go_time \<Rightarrow> string option \<Rightarrow> Event
     \<Rightarrow> TamperEvidentStore \<Rightarrow> string option \<times> TamperEvidentStore" where
  "Record enc mac detectors uuid now writeErr event s =
     (let event = (if ev_ID event = [] then event\<lparr>ev_ID := uuid\<rparr> else event);
          event = (if ev_Timestamp event = 0 then event\<lparr>ev_Timestamp := now\<rparr> else event);
          event = run_detectors detectors event
      in case TamperEvident_Write enc mac writeErr event s of
           (None, s') \<Rightarrow> (None, s')
         | (Some err, s') \<Rightarrow> (Some (''failed to write audit event: '' @ err), s'))"

section \<open>What a verified log is\<close>

definition hash_ok :: "encoder \<Rightarrow> (string \<Rightarrow> string) \<Rightarrow> Event \<Rightarrow> bool" where
  "hash_ok enc mac e \<longleftrightarrow> ComputeHash enc mac e = Inr (ev_Hash e)"

lemma hash_ok_iff: "hash_ok enc mac e \<longleftrightarrow> (\<exists>d. enc (hash_payload e) = Some d \<and> ev_Hash e = mac d)"
  by (auto simp: hash_ok_def ComputeHash_def split: option.splits)

lemma verify_loop_Cons:
  "verify_loop enc mac prev (e # es) = None \<longleftrightarrow>
     hash_ok enc mac e \<and> (\<forall>p. prev = Some p \<longrightarrow> ev_PreviousHash e = ev_Hash p) \<and> verify_loop enc mac (Some e) es = None"
  by (auto simp: hash_ok_def split: sum.splits option.splits)

lemma verify_loop_append:
  "verify_loop enc mac prev (es @ [e]) = None \<longleftrightarrow>
     verify_loop enc mac prev es = None \<and> hash_ok enc mac e \<and>
     (\<forall>p. (if es = [] then prev else Some (last es)) = Some p \<longrightarrow> ev_PreviousHash e = ev_Hash p)"
  by (induction es arbitrary: prev) (auto simp: verify_loop_Cons simp del: verify_loop.simps(2))

lemma VerifyChain_Nil [simp]: "VerifyChain enc mac [] = None"
  by (simp add: VerifyChain_def)

lemma VerifyChain_snoc:
  "VerifyChain enc mac (es @ [e]) = None \<longleftrightarrow>
     VerifyChain enc mac es = None \<and> hash_ok enc mac e \<and> (es \<noteq> [] \<longrightarrow> ev_PreviousHash e = ev_Hash (last es))"
  by (auto simp: VerifyChain_def verify_loop_append)

lemma VerifyChain_drop: "VerifyChain enc mac es = None \<Longrightarrow> VerifyChain enc mac (drop k es) = None"
proof (induction es rule: rev_induct)
  case (snoc e es)
  show ?case
  proof (cases "k \<le> length es")
    case True
    then show ?thesis using snoc by (auto simp: VerifyChain_snoc last_drop)
  qed simp
qed simp

lemma VerifyChain_take: "VerifyChain enc mac es = None \<Longrightarrow> VerifyChain enc mac (take k es) = None"
proof (induction es rule: rev_induct)
  case (snoc e es)
  then show ?case by (cases "k \<le> length es") (auto simp: VerifyChain_snoc)
qed simp

text \<open>Events cut off at either end of a log are not missed by the verification.\<close>

lemma truncation_undetected:
  "VerifyChain enc mac es = None \<Longrightarrow> VerifyChain enc mac (take m (drop k es)) = None"
  by (simp add: VerifyChain_drop VerifyChain_take)

section \<open>Recorded events verify\<close>

text \<open>A run of the store: the events, each with what the writer answered.\<close>

fun write_all :: "encoder \<Rightarrow> (string \<Rightarrow> string) \<Rightarrow> (Event \<times> string option) list \<Rightarrow> TamperEvidentStore \<Rightarrow> TamperEvidentStore" where
  "write_all enc mac [] s = s"
| "write_all enc mac ((e, err) # ws) s = write_all enc mac ws (snd (TamperEvident_Write enc mac err e s))"

definition store_ok :: "encoder \<Rightarrow> (string \<Rightarrow> string) \<Rightarrow> TamperEvidentStore \<Rightarrow> bool" where
  "store_ok enc mac s \<longleftrightarrow> VerifyChain enc mac (ts_log s) = None \<and>
     ts_lastHash s = (if ts_log s = [] then [] else ev_Hash (last (ts_log s))) \<and>
     (ts_log s \<noteq> [] \<longrightarrow> ev_PreviousHash (hd (ts_log s)) = [])"

text \<open>What is logged of an event: the event with its links.\<close>

definition logged_as :: "Event \<Rightarrow> Event \<Rightarrow> bool" where
  "logged_as e l \<longleftrightarrow> l\<lparr>ev_PreviousHash := ev_PreviousHash e, ev_Hash := ev_Hash e\<rparr> = e"

lemma ComputeHash_own: "ComputeHash enc mac (e\<lparr>ev_Hash := h\<rparr>) = ComputeHash enc mac e"
  by (simp add: ComputeHash_def hash_payload_def split: option.split)

lemma write_ok:
  assumes "store_ok enc mac s" "TamperEvident_Write enc mac None e s = (None, s')"
  shows "store_ok enc mac s' \<and> (\<exists>l. ts_log s' = ts_log s @ [l] \<and> logged_as e l)"
proof -
  let ?e = "e\<lparr>ev_PreviousHash := ts_lastHash s\<rparr>"
  obtain h where h: "ComputeHash enc mac ?e = Inr h" and s': "s' = \<lparr>ts_log = ts_log s @ [?e\<lparr>ev_Hash := h\<rparr>], ts_lastHash = h\<rparr>"
    using assms(2) by (cases "ComputeHash enc mac ?e") (auto simp: TamperEvident_Write_def LogStore_Write_def Let_def)
  have "hash_ok enc mac (?e\<lparr>ev_Hash := h\<rparr>)" by (simp add: hash_ok_def ComputeHash_own h)
  then have "store_ok enc mac s'"
    using assms(1) by (auto simp: s' store_ok_def VerifyChain_snoc hd_append)
  moreover have "logged_as e (?e\<lparr>ev_Hash := h\<rparr>)" by (simp add: logged_as_def)
  ultimately show ?thesis by (auto simp: s')
qed

lemma write_total:
  assumes "\<forall>e. enc e \<noteq> None"
  shows "\<exists>s'. TamperEvident_Write enc mac None e s = (None, s')"
proof -
  obtain d where "enc (hash_payload (e\<lparr>ev_PreviousHash := ts_lastHash s\<rparr>)) = Some d" using assms by blast
  then show ?thesis by (simp add: TamperEvident_Write_def ComputeHash_def LogStore_Write_def Let_def)
qed

lemma write_refused: "TamperEvident_Write enc mac None e s = (Some err, s') \<Longrightarrow> s' = s"
  by (auto simp: TamperEvident_Write_def LogStore_Write_def Let_def split: sum.splits)

text \<open>A write either appends the event, or leaves the log as it was and says so; the store is then
  unchanged unless the writer itself failed.\<close>

lemma write_outcome:
  assumes "TamperEvident_Write enc mac writeErr e s = (r, s')"
  shows "(r = None \<longleftrightarrow> writeErr = None \<and> enc (hash_payload (e\<lparr>ev_PreviousHash := ts_lastHash s\<rparr>)) \<noteq> None) \<and>
    (r = None \<longrightarrow> (\<exists>l. ts_log s' = ts_log s @ [l] \<and> logged_as e l)) \<and> (r \<noteq> None \<longrightarrow> ts_log s' = ts_log s)"
  using assms
  by (auto simp: TamperEvident_Write_def LogStore_Write_def ComputeHash_def logged_as_def Let_def
    split: option.splits)

lemma write_keeps_ok:
  assumes "store_ok enc mac s" "TamperEvident_Write enc mac None e s = (r, s')"
  shows "store_ok enc mac s'"
  using write_ok [of enc mac s e s'] write_refused [of enc mac e s _ s'] assms by (cases r) auto

lemma write_all_ok:
  assumes "store_ok enc mac s" "\<forall>(e, err) \<in> set ws. err = None" "\<forall>e. enc e \<noteq> None"
  shows "store_ok enc mac (write_all enc mac ws s) \<and>
    (\<exists>ls. ts_log (write_all enc mac ws s) = ts_log s @ ls \<and> list_all2 logged_as (map fst ws) ls)"
  using assms(1,2)
proof (induction ws arbitrary: s)
  case (Cons w ws)
  obtain e where w: "w = (e, None)" using Cons.prems by (cases w) auto
  obtain s1 where wr: "TamperEvident_Write enc mac None e s = (None, s1)" using write_total [OF assms(3)] by blast
  then obtain l where l: "store_ok enc mac s1" "ts_log s1 = ts_log s @ [l]" "logged_as e l"
    using write_ok [OF Cons.prems(1)] wr by blast
  have "\<forall>(e, err) \<in> set ws. err = None" using Cons.prems(2) by auto
  from Cons.IH [OF l(1) this] obtain ls where
    "store_ok enc mac (write_all enc mac ws s1)" "ts_log (write_all enc mac ws s1) = ts_log s1 @ ls"
    "list_all2 logged_as (map fst ws) ls" by blast
  then show ?case using l w wr by auto
qed auto

text \<open>
  The writes of a fresh store, when neither the encoding nor the writer fails, leave a log that
  verifies, that starts with an event without predecessor, and that holds the written events, in
  order and unchanged but for their links.\<close>

theorem chain_verifies:
  assumes "\<forall>e. enc e \<noteq> None" "\<forall>(e, err) \<in> set ws. err = None"
    and "s = write_all enc mac ws (NewTamperEvidentStore [])"
  shows "VerifyChain enc mac (ts_log s) = None \<and> list_all2 logged_as (map fst ws) (ts_log s) \<and>
    (ws \<noteq> [] \<longrightarrow> ev_PreviousHash (hd (ts_log s)) = [] \<and> ts_lastHash s = ev_Hash (last (ts_log s)))"
proof -
  have "store_ok enc mac (NewTamperEvidentStore [])" by (simp add: store_ok_def NewTamperEvidentStore_def)
  from write_all_ok [OF this assms(2)] assms(1)
  have ok: "store_ok enc mac s" "list_all2 logged_as (map fst ws) (ts_log s)"
    by (auto simp: assms(3) NewTamperEvidentStore_def)
  moreover have "ws \<noteq> [] \<longrightarrow> ts_log s \<noteq> []" using ok(2) by (auto dest: list_all2_lengthD)
  ultimately show ?thesis by (auto simp: store_ok_def)
qed

text \<open>The encoder and keyed hash of the examples: the identifier and the link, and a tagged copy.\<close>

definition toy_enc :: encoder where
  "toy_enc e = Some (ev_ID e @ ''/'' @ ev_PreviousHash e)"

definition toy_mac :: "string \<Rightarrow> string" where
  "toy_mac d = CHR ''h'' # d"

theorem chain_verifies_witness:
  "VerifyChain toy_enc toy_mac (ts_log (write_all toy_enc toy_mac
     [(zero_Event\<lparr>ev_ID := ''a''\<rparr>, None), (zero_Event\<lparr>ev_ID := ''b''\<rparr>, None)] (NewTamperEvidentStore []))) = None"
  using chain_verifies [of toy_enc "[(zero_Event\<lparr>ev_ID := ''a''\<rparr>, None), (zero_Event\<lparr>ev_ID := ''b''\<rparr>, None)]" _ toy_mac]
  by (simp add: toy_enc_def)

section \<open>Tampering shows\<close>

text \<open>The hash a log ends with: the empty one for the empty log.\<close>

definition tip :: "Event list \<Rightarrow> string" where
  "tip es = (if es = [] then [] else ev_Hash (last es))"

definition chained :: "encoder \<Rightarrow> (string \<Rightarrow> string) \<Rightarrow> Event list \<Rightarrow> bool" where
  "chained enc mac es \<longleftrightarrow> VerifyChain enc mac es = None \<and> (es \<noteq> [] \<longrightarrow> ev_PreviousHash (hd es) = [])"

lemma chained_snoc:
  "chained enc mac (es @ [e]) \<longleftrightarrow> chained enc mac es \<and> hash_ok enc mac e \<and> ev_PreviousHash e = tip es"
  by (auto simp: chained_def VerifyChain_snoc tip_def)

lemma chained_tip: "chained enc mac es \<Longrightarrow> \<forall>d. mac d \<noteq> [] \<Longrightarrow> tip es = [] \<longleftrightarrow> es = []"
  by (cases es rule: rev_cases) (simp add: tip_def, simp add: chained_snoc tip_def hash_ok_iff, metis)

text \<open>Two events whose JSON texts, without their own hashes, are different texts with the same keyed
  hash: a collision of the keyed hash itself.\<close>

definition clash :: "encoder \<Rightarrow> (string \<Rightarrow> string) \<Rightarrow> Event \<Rightarrow> Event \<Rightarrow> bool" where
  "clash enc mac e e' \<longleftrightarrow> (\<exists>d d'. enc (e\<lparr>ev_Hash := []\<rparr>) = Some d \<and> enc (e'\<lparr>ev_Hash := []\<rparr>) = Some d' \<and>
     d \<noteq> d' \<and> mac d = mac d')"

text \<open>The encoder tells two events apart: unless they agree in every field but the hash, they have
  different texts.\<close>

definition told_apart :: "encoder \<Rightarrow> Event \<Rightarrow> Event \<Rightarrow> bool" where
  "told_apart enc e e' \<longleftrightarrow> (enc (e\<lparr>ev_Hash := []\<rparr>) = enc (e'\<lparr>ev_Hash := []\<rparr>) \<longrightarrow> e\<lparr>ev_Hash := []\<rparr> = e'\<lparr>ev_Hash := []\<rparr>)"

lemma no_clash_eq:
  assumes "hash_ok enc mac e" "hash_ok enc mac e'" "told_apart enc e e'" "ev_Hash e = ev_Hash e'" "\<not> clash enc mac e e'"
  shows "e = e'"
proof -
  have "e\<lparr>ev_Hash := []\<rparr> = e'\<lparr>ev_Hash := []\<rparr>"
    using assms by (auto simp: hash_ok_iff hash_payload_def clash_def told_apart_def)
  then show ?thesis using assms(4) by (cases e; cases e') simp
qed

lemma chained_unique:
  assumes mac: "\<forall>d. mac d \<noteq> []"
  shows "chained enc mac xs \<Longrightarrow> chained enc mac ys \<Longrightarrow> tip xs = tip ys \<Longrightarrow>
    \<forall>e\<in>set xs. \<forall>e'\<in>set ys. told_apart enc e e' \<Longrightarrow> xs = ys \<or> (\<exists>e\<in>set xs. \<exists>e'\<in>set ys. clash enc mac e e')"
proof (induction xs arbitrary: ys rule: rev_induct)
  case Nil
  then have "ys = []" using chained_tip [OF Nil.prems(2) mac] by (simp add: tip_def)
  then show ?case by simp
next
  case (snoc e xs)
  have "ys \<noteq> []" using chained_tip [OF snoc.prems(1) mac] chained_tip [OF snoc.prems(2) mac] snoc.prems(3) by auto
  then obtain ys' e' where ys: "ys = ys' @ [e']" by (metis rev_exhaust)
  have h: "ev_Hash e = ev_Hash e'" using snoc.prems(3) by (simp add: tip_def ys)
  show ?case
  proof (cases "clash enc mac e e'")
    case False
    then have e: "e' = e" using no_clash_eq [of enc mac e e'] h snoc.prems by (auto simp: chained_snoc ys)
    then have "xs = ys' \<or> (\<exists>e\<in>set xs. \<exists>e'\<in>set ys'. clash enc mac e e')"
      using snoc.prems snoc.IH [of ys'] by (simp add: chained_snoc ys)
    then show ?thesis by (auto simp: ys e)
  qed (auto simp: ys)
qed

text \<open>
  C26: An auditor who knows the last hash detects every change of the log, the change of any field of
  any event included. Two logs that verify, both from a first event without predecessor, and that end
  with the same hash are the same log, or they exhibit a collision of the keyed hash: the JSON texts of
  an event of one and an event of the other, each complete but for its own hash, are different texts
  with the same keyed hash. The hypotheses are that the encoder gives events that differ in a field
  different texts, and that a keyed hash is never empty.\<close>

theorem tamper_evident:
  assumes "VerifyChain enc mac xs = None" "VerifyChain enc mac ys = None" "xs \<noteq> []" "ys \<noteq> []"
    "ev_PreviousHash (hd xs) = []" "ev_PreviousHash (hd ys) = []" "ev_Hash (last xs) = ev_Hash (last ys)"
    "\<forall>d. mac d \<noteq> []"
    "\<forall>e\<in>set xs. \<forall>e'\<in>set ys. enc (e\<lparr>ev_Hash := []\<rparr>) = enc (e'\<lparr>ev_Hash := []\<rparr>) \<longrightarrow>
       e\<lparr>ev_Hash := []\<rparr> = e'\<lparr>ev_Hash := []\<rparr>"
  shows "xs = ys \<or> (\<exists>e\<in>set xs. \<exists>e'\<in>set ys. \<exists>d d'. enc (e\<lparr>ev_Hash := []\<rparr>) = Some d \<and>
    enc (e'\<lparr>ev_Hash := []\<rparr>) = Some d' \<and> d \<noteq> d' \<and> mac d = mac d')"
  using chained_unique [of mac enc xs ys] assms by (auto simp: chained_def tip_def clash_def told_apart_def)

text \<open>Two logs that agree: a run of the store, and the same events written one at a time.\<close>

theorem tamper_evident_witness:
  "let xs = ts_log (write_all toy_enc toy_mac [(zero_Event\<lparr>ev_ID := ''a''\<rparr>, None), (zero_Event\<lparr>ev_ID := ''b''\<rparr>, None)]
              (NewTamperEvidentStore []));
       ys = ts_log (write_all toy_enc toy_mac [(zero_Event\<lparr>ev_ID := ''b''\<rparr>, None)]
              (write_all toy_enc toy_mac [(zero_Event\<lparr>ev_ID := ''a''\<rparr>, None)] (NewTamperEvidentStore [])))
   in xs = ys \<or> (\<exists>e\<in>set xs. \<exists>e'\<in>set ys. \<exists>d d'. toy_enc (e\<lparr>ev_Hash := []\<rparr>) = Some d \<and>
        toy_enc (e'\<lparr>ev_Hash := []\<rparr>) = Some d' \<and> d \<noteq> d' \<and> toy_mac d = toy_mac d')"
  unfolding Let_def
  by (rule tamper_evident [where enc = toy_enc and mac = toy_mac])
    (simp_all add: NewTamperEvidentStore_def TamperEvident_Write_def ComputeHash_def toy_enc_def toy_mac_def
       LogStore_Write_def Let_def VerifyChain_def hash_payload_def zero_Event_def)

text \<open>The last hash moves on before the event is written. After one failed write the next event links
  to an event that is not in the log.\<close>

lemma lost_write_breaks:
  assumes "store_ok enc mac s" "ts_log s \<noteq> []"
    and "TamperEvident_Write enc mac (Some err) e s = (r, s1)" "ts_lastHash s1 \<noteq> ts_lastHash s"
    and "TamperEvident_Write enc mac None e2 s1 = (None, s2)"
  shows "ts_log s1 = ts_log s \<and> VerifyChain enc mac (ts_log s2) \<noteq> None"
proof -
  have s1: "ts_log s1 = ts_log s"
    using assms(3) by (auto simp: TamperEvident_Write_def LogStore_Write_def Let_def split: sum.splits)
  obtain h where s2: "ts_log s2 = ts_log s @ [e2\<lparr>ev_PreviousHash := ts_lastHash s1, ev_Hash := h\<rparr>]"
    using assms(5) s1 by (auto simp: TamperEvident_Write_def LogStore_Write_def Let_def split: sum.splits)
  have "VerifyChain enc mac (ts_log s2) \<noteq> None"
    using assms(1,2,4) unfolding s2 by (simp add: store_ok_def VerifyChain_snoc)
  with s1 show ?thesis by simp
qed

text \<open>A store that reopens a log starts with an empty last hash: its first event does not link to the
  log.\<close>

lemma restart_breaks:
  assumes "chained enc mac es" "es \<noteq> []" "\<forall>d. mac d \<noteq> []"
    and "TamperEvident_Write enc mac None e (NewTamperEvidentStore es) = (None, s)"
  shows "VerifyChain enc mac (ts_log s) \<noteq> None"
proof -
  obtain h where s: "ts_log s = es @ [e\<lparr>ev_PreviousHash := [], ev_Hash := h\<rparr>]"
    using assms(4) by (auto simp: TamperEvident_Write_def LogStore_Write_def NewTamperEvidentStore_def Let_def
      split: sum.splits)
  have "ev_Hash (last es) \<noteq> []" using chained_tip [OF assms(1,3)] assms(2) by (simp add: tip_def)
  then show ?thesis using assms(2) unfolding s by (simp add: VerifyChain_snoc)
qed

end
