(* ===== verification/Cerberus.thy ===== *)
theory Cerberus
  imports Hermes
begin

text \<open>
  The API's gatekeeper (\<open>src/pkg/cerberus\<close>): credentials and identities, the authenticators, the
  role-based authorizer and its policy files, the secret providers with their caches, the auditors,
  the HTTP middleware, and the way \<open>src/cmd/olympus-api/main.go\<close> puts them together.

  What is not in the repository is an argument: the JWS library (\<open>jose\<close>), the YAML and JSON
  decoders, the OpenID verifiers, X.509 chain verification, the environment, and the answers of
  Vault and of the parameter store. Clock readings are arguments. The identity map of an
  authenticator is not written after its construction.
\<close>

section \<open>Identities, resources, errors\<close>

record Identity =
  id_ID :: string
  id_Type :: string
  id_TenantID :: string
  id_DisplayName :: string
  id_Roles :: "string list"
  id_Groups :: "string list"
  id_Attributes :: metadata
  id_AuthTime :: go_time
  id_ExpiresAt :: go_time

record Resource =
  rs_Type :: string
  rs_ID :: string
  rs_TenantID :: string
  rs_Namespace :: string

record Certificate =
  cert_URIs :: "(string \<times> string) list"
  cert_CommonName :: string
  cert_Organization :: "string list"
  cert_SerialNumber :: string
  cert_Issuer :: string
  cert_NotAfter :: go_time

datatype Credentials =
    APIKeyCredential (cr_KeyID: string) (cr_Secret: string)
  | OAuth2Credential (cr_AccessToken: string) (cr_TokenType: string)
  | BearerTokenCredential (cr_Token: string)
  | MTLSCredential (cr_PeerCertificates: "Certificate list")

definition ActionAll :: string where "ActionAll = ''*''"
definition ResourceTypeAll :: string where "ResourceTypeAll = ''*''"

datatype gate_error =
    AuthenticationError string "string option"
  | AuthorizationError string Identity string Resource

definition gate_error_text :: "gate_error \<Rightarrow> string" where
  "gate_error_text e = (case e of
      AuthenticationError msg (Some cause) \<Rightarrow> ''authentication failed: '' @ msg @ '': '' @ cause
    | AuthenticationError msg None \<Rightarrow> ''authentication failed: '' @ msg
    | AuthorizationError msg i action r \<Rightarrow>
        ''authorization denied: '' @ msg @ '' (identity='' @ id_ID i @ '', action='' @ action @ '', resource='' @
        rs_Type r @ ''/'' @ rs_ID r @ '')'')"

section \<open>Authenticators\<close>

type_synonym authenticator = "Credentials \<Rightarrow> gate_error + Identity"

definition expired :: "go_time \<Rightarrow> Identity \<Rightarrow> bool" where
  "expired now i \<longleftrightarrow> id_ExpiresAt i \<noteq> 0 \<and> now > id_ExpiresAt i"

definition APIKey_Authenticate :: "(string, Identity) gomap \<Rightarrow> go_time \<Rightarrow> authenticator" where
  "APIKey_Authenticate validKeys now creds =
     (case creds of
        APIKeyCredential _ secret \<Rightarrow>
          (case get validKeys secret of
             None \<Rightarrow> Inl (AuthenticationError ''invalid API key'' None)
           | Some identity \<Rightarrow>
               if secret \<noteq> secret then Inl (AuthenticationError ''invalid API key'' None)
               else if expired now identity then Inl (AuthenticationError ''API key has expired'' None)
               else Inr (identity\<lparr>id_AuthTime := now\<rparr>))
      | _ \<Rightarrow> Inl (AuthenticationError ''invalid credential type, expected API key'' None))"

definition NewSimpleAPIKeyAuthenticator :: "go_time \<Rightarrow> string \<Rightarrow> (string, Identity) gomap" where
  "NewSimpleAPIKeyAuthenticator now apiKey =
     (if apiKey = [] then []
      else [(apiKey, \<lparr>id_ID = ''api-key-user'', id_Type = ''service'', id_TenantID = ''default'',
              id_DisplayName = ''API Key User'', id_Roles = [''admin''], id_Groups = [], id_Attributes = [],
              id_AuthTime = now, id_ExpiresAt = 0\<rparr>)])"

text \<open>The JWS library: parsing gives the key identifiers of the signatures and the signed object.\<close>

datatype jws_alg = HS256 | RS256 | ES256

record 'o jose =
  js_ParseSigned :: "string \<Rightarrow> jws_alg list \<Rightarrow> string + (string list \<times> 'o)"
  js_Verify :: "'o \<Rightarrow> string \<Rightarrow> string + string"
  js_UnsafePayload :: "'o \<Rightarrow> string"
  js_NewSigner :: "jws_alg \<Rightarrow> string \<Rightarrow> string \<Rightarrow> string option"
  js_Sign :: "jws_alg \<Rightarrow> string \<Rightarrow> string \<Rightarrow> string \<Rightarrow> string + 'o"
  js_CompactSerialize :: "'o \<Rightarrow> string + string"
  js_Marshal :: "Identity \<Rightarrow> string + string"
  js_Unmarshal :: "string \<Rightarrow> string + Identity"

definition SignedAPIKey_Authenticate ::
    "'o jose \<Rightarrow> (string \<Rightarrow> string + string) \<Rightarrow> go_time \<Rightarrow> authenticator" where
  "SignedAPIKey_Authenticate j resolve now creds =
     (case creds of
        APIKeyCredential _ secret \<Rightarrow>
          (case js_ParseSigned j secret [HS256, RS256, ES256] of
             Inl err \<Rightarrow> Inl (AuthenticationError ''invalid API key format'' (Some err))
           | Inr ([], _) \<Rightarrow> Inl (AuthenticationError ''API key has no signature'' None)
           | Inr (kid # _, object) \<Rightarrow>
               if kid = [] then Inl (AuthenticationError ''API key missing key ID (kid)'' None)
               else case resolve (''key:'' @ kid) of
                 Inl err \<Rightarrow> Inl (AuthenticationError (''unknown key ID: '' @ kid) (Some err))
               | Inr keyStr \<Rightarrow>
                   (case js_Verify j object keyStr of
                      Inl err \<Rightarrow> Inl (AuthenticationError ''invalid API key signature'' (Some err))
                    | Inr payload \<Rightarrow>
                        (case js_Unmarshal j payload of
                           Inl err \<Rightarrow> Inl (AuthenticationError ''invalid API key payload'' (Some err))
                         | Inr identity \<Rightarrow>
                             if expired now identity then Inl (AuthenticationError ''API key has expired'' None)
                             else Inr (identity\<lparr>id_AuthTime := now\<rparr>))))
      | _ \<Rightarrow> Inl (AuthenticationError ''invalid credential type, expected API key'' None))"

fun Multi_loop :: "authenticator list \<Rightarrow> gate_error option \<Rightarrow> authenticator" where
  "Multi_loop [] lastErr creds =
     (case lastErr of
        Some err \<Rightarrow> Inl err
      | None \<Rightarrow> Inl (AuthenticationError ''no authenticators configured'' None))"
| "Multi_loop (auth # auths) lastErr creds =
     (case auth creds of
        Inr identity \<Rightarrow> Inr identity
      | Inl err \<Rightarrow> Multi_loop auths (Some err) creds)"

definition Multi_Authenticate :: "authenticator list \<Rightarrow> authenticator" where
  "Multi_Authenticate auths creds = Multi_loop auths None creds"

fun spiffe_id :: "(string \<times> string) list \<Rightarrow> string" where
  "spiffe_id [] = []"
| "spiffe_id ((scheme, uri) # us) = (if scheme = ''spiffe'' then uri else spiffe_id us)"

definition MTLS_Authenticate :: "(Certificate \<Rightarrow> string option) \<Rightarrow> go_time \<Rightarrow> authenticator" where
  "MTLS_Authenticate verify now creds =
     (case creds of
        MTLSCredential [] \<Rightarrow> Inl (AuthenticationError ''no client certificate provided'' None)
      | MTLSCredential (cert # _) \<Rightarrow>
          (case verify cert of
             Some err \<Rightarrow> Inl (AuthenticationError ''failed to verify client certificate'' (Some err))
           | None \<Rightarrow>
               let i = spiffe_id (cert_URIs cert);
                   i = (if i = [] then cert_CommonName cert else i)
               in if i = [] then Inl (AuthenticationError ''client certificate has no identity (CN or SPIFFE URI)'' None)
                  else Inr \<lparr>id_ID = i, id_Type = ''agent'', id_TenantID = ''default'',
                         id_DisplayName = cert_CommonName cert, id_Roles = [''agent''],
                         id_Groups = cert_Organization cert,
                         id_Attributes = [(''serial_number'', cert_SerialNumber cert), (''issuer'', cert_Issuer cert)],
                         id_AuthTime = now, id_ExpiresAt = cert_NotAfter cert\<rparr>)
      | _ \<Rightarrow> Inl (AuthenticationError ''invalid credential type, expected mTLS'' None))"

text \<open>The claims of a verified token, with the times of the token itself.\<close>

record oidc_claims =
  cl_Subject :: string
  cl_Email :: string
  cl_EmailVerified :: bool
  cl_Groups :: "string list"
  cl_Name :: string
  cl_ClientID :: string
  cl_IssuedAt :: go_time
  cl_Expiry :: go_time

definition identityFromToken :: "string + oidc_claims \<Rightarrow> string \<Rightarrow> gate_error + Identity" where
  "identityFromToken token idType =
     (case token of
        Inl err \<Rightarrow> Inl (AuthenticationError ''failed to parse claims'' (Some err))
      | Inr claims \<Rightarrow>
          let displayName = cl_Name claims;
              displayName = (if displayName = [] then
                               if cl_ClientID claims \<noteq> [] then cl_ClientID claims else cl_Subject claims
                             else displayName);
              displayName = (if displayName = [] then cl_Email claims else displayName)
          in Inr \<lparr>id_ID = cl_Subject claims, id_Type = idType, id_TenantID = ''default'', id_DisplayName = displayName,
               id_Roles = [], id_Groups = cl_Groups claims, id_Attributes = [(''email'', cl_Email claims)],
               id_AuthTime = cl_IssuedAt claims, id_ExpiresAt = cl_Expiry claims\<rparr>)"

type_synonym token_verifier = "string \<Rightarrow> string + (string + oidc_claims)"

definition OIDC_Authenticate :: "token_verifier \<Rightarrow> token_verifier option \<Rightarrow> authenticator" where
  "OIDC_Authenticate idTokenVerifier accessTokenVerifier creds =
     (case creds of
        BearerTokenCredential token \<Rightarrow>
          (case idTokenVerifier token of
             Inr idToken \<Rightarrow> identityFromToken idToken ''user''
           | Inl err \<Rightarrow>
               (case accessTokenVerifier of
                  None \<Rightarrow> Inl (AuthenticationError ''invalid token'' (Some err))
                | Some verifier \<Rightarrow>
                    (case verifier token of
                       Inr accessToken \<Rightarrow> identityFromToken accessToken ''service''
                     | Inl _ \<Rightarrow> Inl (AuthenticationError ''invalid token'' (Some err)))))
      | _ \<Rightarrow> Inl (AuthenticationError ''invalid credential type, expected bearer token'' None))"

section \<open>Signed keys\<close>

definition GenerateAPIKey :: "'o jose \<Rightarrow> Identity option \<Rightarrow> string \<Rightarrow> string \<Rightarrow> string + string" where
  "GenerateAPIKey j identity keyID secret =
     (case identity of
        None \<Rightarrow> Inl ''identity cannot be nil''
      | Some i \<Rightarrow>
          if keyID = [] then Inl ''keyID cannot be empty''
          else if length secret < 32 then Inl ''secret must be at least 32 bytes long''
          else case js_NewSigner j HS256 secret keyID of
                 Some err \<Rightarrow> Inl (''failed to create signer: '' @ err)
               | None \<Rightarrow>
                   (case js_Marshal j i of
                      Inl err \<Rightarrow> Inl (''failed to marshal identity: '' @ err)
                    | Inr payload \<Rightarrow>
                        (case js_Sign j HS256 secret keyID payload of
                           Inl err \<Rightarrow> Inl (''failed to sign payload: '' @ err)
                         | Inr object \<Rightarrow>
                             (case js_CompactSerialize j object of
                                Inl err \<Rightarrow> Inl (''failed to serialize token: '' @ err)
                              | Inr token \<Rightarrow> Inr token))))"

definition RotateAPIKey ::
    "'o jose \<Rightarrow> go_time \<Rightarrow> string \<Rightarrow> string \<Rightarrow> string \<Rightarrow> string \<Rightarrow> string \<Rightarrow> duration option \<Rightarrow> string + string" where
  "RotateAPIKey j now oldToken oldKeyID oldSecret newKeyID newSecret extendExpiry =
     (case js_ParseSigned j oldToken [HS256] of
        Inl err \<Rightarrow> Inl (''failed to parse old token: '' @ err)
      | Inr (_, object) \<Rightarrow>
          (case js_Verify j object oldSecret of
             Inl err \<Rightarrow> Inl (''failed to verify old token: '' @ err)
           | Inr payload \<Rightarrow>
               (case js_Unmarshal j payload of
                  Inl err \<Rightarrow> Inl (''failed to unmarshal identity: '' @ err)
                | Inr identity \<Rightarrow>
                    let identity = (case extendExpiry of
                          None \<Rightarrow> identity
                        | Some d \<Rightarrow> identity\<lparr>id_ExpiresAt := now + d\<rparr>)
                    in GenerateAPIKey j (Some identity) newKeyID newSecret)))"

record APIKeyInfo =
  ki_KeyID :: string
  ki_IdentityID :: string
  ki_TenantID :: string
  ki_DisplayName :: string
  ki_Roles :: "string list"
  ki_IssuedAt :: go_time
  ki_ExpiresAt :: go_time

definition InspectAPIKey :: "'o jose \<Rightarrow> string \<Rightarrow> string + APIKeyInfo" where
  "InspectAPIKey j token =
     (case js_ParseSigned j token [HS256, RS256, ES256] of
        Inl err \<Rightarrow> Inl (''failed to parse token: '' @ err)
      | Inr ([], _) \<Rightarrow> Inl ''token has no signatures''
      | Inr (keyID # _, object) \<Rightarrow>
          (case js_Unmarshal j (js_UnsafePayload j object) of
             Inl err \<Rightarrow> Inl (''failed to unmarshal identity: '' @ err)
           | Inr i \<Rightarrow> Inr \<lparr>ki_KeyID = keyID, ki_IdentityID = id_ID i, ki_TenantID = id_TenantID i,
               ki_DisplayName = id_DisplayName i, ki_Roles = id_Roles i, ki_IssuedAt = id_AuthTime i,
               ki_ExpiresAt = id_ExpiresAt i\<rparr>))"

section \<open>The authorizer and its policies\<close>

record Permission =
  pm_Actions :: "string list"
  pm_Resources :: "string list"
  pm_AllowAll :: bool

record RBACPolicy =
  rp_Role :: string
  rp_Permissions :: "Permission list"

fun contains_or_all :: "string list \<Rightarrow> string \<Rightarrow> string \<Rightarrow> bool" where
  "contains_or_all [] all x = False"
| "contains_or_all (a # as) all x = (if a = x \<or> a = all then True else contains_or_all as all x)"

fun perm_loop :: "Permission list \<Rightarrow> string \<Rightarrow> Identity \<Rightarrow> string \<Rightarrow> Resource \<Rightarrow> bool" where
  "perm_loop [] role identity action resource = False"
| "perm_loop (perm # perms) role identity action resource =
     (if pm_AllowAll perm then True
      else if \<not> contains_or_all (pm_Actions perm) ActionAll action
      then perm_loop perms role identity action resource
      else if \<not> contains_or_all (pm_Resources perm) ResourceTypeAll (rs_Type resource)
      then perm_loop perms role identity action resource
      else if rs_TenantID resource = [] then True
      else if role = ''admin'' then True
      else if id_TenantID identity = rs_TenantID resource then True
      else perm_loop perms role identity action resource)"

fun role_loop :: "(string, RBACPolicy) gomap \<Rightarrow> string list \<Rightarrow> Identity \<Rightarrow> string \<Rightarrow> Resource \<Rightarrow> bool" where
  "role_loop policies [] identity action resource = False"
| "role_loop policies (role # roles) identity action resource =
     (case get policies role of
        None \<Rightarrow> role_loop policies roles identity action resource
      | Some policy \<Rightarrow>
          if perm_loop (rp_Permissions policy) role identity action resource then True
          else role_loop policies roles identity action resource)"

type_synonym authorizer = "Identity \<Rightarrow> string \<Rightarrow> Resource \<Rightarrow> gate_error option"

definition RBAC_Authorize :: "(string, RBACPolicy) gomap \<Rightarrow> authorizer" where
  "RBAC_Authorize policies identity action resource =
     (if role_loop policies (id_Roles identity) identity action resource then None
      else Some (AuthorizationError ''insufficient permissions'' identity action resource))"

definition AllowAll_Authorize :: authorizer where
  "AllowAll_Authorize identity action resource = None"

definition DenyAll_Authorize :: authorizer where
  "DenyAll_Authorize identity action resource =
     Some (AuthorizationError ''all access denied (maintenance mode)'' identity action resource)"

text \<open>A policy file: its text or the error of reading it; the YAML decoder is an argument for each of
  the two shapes a file may have.\<close>

definition loadFile ::
    "(string \<Rightarrow> string + RBACPolicy list) \<Rightarrow> (string \<Rightarrow> string + (string, Permission list) gomap) \<Rightarrow>
     string + string \<Rightarrow> string + (string, RBACPolicy) gomap" where
  "loadFile yaml_list yaml_map file =
     (case file of
        Inl err \<Rightarrow> Inl err
      | Inr data \<Rightarrow>
          (case yaml_list data of
             Inr policyList \<Rightarrow>
               Inr (foldl (\<lambda>result p. put result (rp_Role p)
                      \<lparr>rp_Role = rp_Role p, rp_Permissions = rp_Permissions p\<rparr>) [] policyList)
           | Inl err \<Rightarrow>
               (case yaml_map data of
                  Inr policyMap \<Rightarrow>
                    Inr (foldl (\<lambda>result (role, perms). put result role
                           \<lparr>rp_Role = role, rp_Permissions = perms\<rparr>) [] policyMap)
                | Inl _ \<Rightarrow> Inl (''failed to parse policy file: '' @ err))))"

text \<open>\<open>filepath.Ext\<close> of a name: from its last dot.\<close>

definition Ext :: "string \<Rightarrow> string" where
  "Ext name = (if CHR ''.'' \<in> set name then CHR ''.'' # rev (takeWhile (\<lambda>c. c \<noteq> CHR ''.'') (rev name)) else [])"

record dir_entry =
  de_Name :: string
  de_IsDir :: bool
  de_File :: "string + string"

definition merge_policies :: "(string, RBACPolicy) gomap \<Rightarrow> (string, RBACPolicy) gomap \<Rightarrow> (string, RBACPolicy) gomap" where
  "merge_policies policies sub = foldl (\<lambda>m (k, v). put m k v) policies sub"

fun load_entries ::
    "(string + string \<Rightarrow> string + (string, RBACPolicy) gomap) \<Rightarrow> dir_entry list \<Rightarrow> (string, RBACPolicy) gomap
     \<Rightarrow> string + (string, RBACPolicy) gomap" where
  "load_entries load [] policies = Inr policies"
| "load_entries load (entry # entries) policies =
     (if de_IsDir entry then load_entries load entries policies
      else if Ext (de_Name entry) \<notin> {''.yaml'', ''.yml'', ''.json''} then load_entries load entries policies
      else case load (de_File entry) of
             Inl err \<Rightarrow> Inl (''failed to load '' @ de_Name entry @ '': '' @ err)
           | Inr sub \<Rightarrow> load_entries load entries (merge_policies policies sub))"

datatype policy_path = NoSuchPath string | PolicyDir "string + dir_entry list" | PolicyFile "string + string"

definition LoadPolicies ::
    "(string + string \<Rightarrow> string + (string, RBACPolicy) gomap) \<Rightarrow> policy_path \<Rightarrow> string + (string, RBACPolicy) gomap" where
  "LoadPolicies load path =
     (case path of
        NoSuchPath err \<Rightarrow> Inl err
      | PolicyDir (Inl err) \<Rightarrow> Inl err
      | PolicyDir (Inr entries) \<Rightarrow> load_entries load entries []
      | PolicyFile file \<Rightarrow>
          (case load file of
             Inl err \<Rightarrow> Inl err
           | Inr sub \<Rightarrow> Inr (merge_policies [] sub)))"

section \<open>Secret providers\<close>

text \<open>What the providers ask of the outside: environment variables (empty when unset), a request to
  Vault, its decoded answer, and a parameter of the parameter store.\<close>

datatype json_value = JString string | JOther

record vault_request =
  vr_URL :: string
  vr_Token :: string
  vr_Namespace :: "string option"

record outside =
  os_Getenv :: "string \<Rightarrow> string"
  vault_NewRequest :: "string \<Rightarrow> string option"
  vault_Do :: "vault_request \<Rightarrow> string + (int \<times> string)"
  vault_Decode :: "string \<Rightarrow> string + (string, json_value) gomap"
  ssm_GetParameter :: "string \<Rightarrow> string + string option"

definition unsupported :: "string \<Rightarrow> string" where
  "unsupported ref = ''unsupported secret reference format: '' @ ref"

definition Env_Resolve :: "outside \<Rightarrow> string \<Rightarrow> string + string" where
  "Env_Resolve w ref =
     (if length ref > 4 \<and> take 4 ref = ''env:'' then
        let key = drop 4 ref; val = os_Getenv w key
        in if val = [] then Inl (''secret environment variable not found: '' @ key) else Inr val
      else if length ref > 4 \<and> take 4 ref = ''key:'' then
        let envVar = ''CERBERUS_KEY_'' @ drop 4 ref; val = os_Getenv w envVar
        in if val = [] then Inl (''signing key not found in environment: '' @ envVar) else Inr val
      else Inl (unsupported ref))"

definition MockVault_data :: metadata where
  "MockVault_data = [(''secret/myapp:api_key'', ''super-secret-api-key''), (''secret/db:password'', ''db-password-123'')]"

definition MockVault_Resolve :: "metadata \<Rightarrow> string \<Rightarrow> string + string" where
  "MockVault_Resolve data ref =
     (if length ref > 6 \<and> take 6 ref = ''vault:'' then
        case get data (drop 6 ref) of
          None \<Rightarrow> Inl (''secret not found in vault: '' @ drop 6 ref)
        | Some val \<Rightarrow> Inr val
      else Inl (unsupported ref))"

record VaultConfig =
  vc_Address :: string
  vc_Token :: string
  vc_Namespace :: string
  vc_Timeout :: duration

record secret_cache =
  sc_cache :: "(string, string \<times> go_time) gomap"
  sc_ttl :: duration

definition NewRealVaultSecretProvider :: "VaultConfig \<Rightarrow> VaultConfig \<times> secret_cache" where
  "NewRealVaultSecretProvider config =
     (if vc_Timeout config = 0 then config\<lparr>vc_Timeout := 10 * second\<rparr> else config, \<lparr>sc_cache = [], sc_ttl = 15 * minute\<rparr>)"

definition TrimSlash :: "string \<Rightarrow> string" where
  "TrimSlash s = (if s \<noteq> [] \<and> last s = CHR ''/'' then butlast s else s)"

definition fetchSecret :: "outside \<Rightarrow> VaultConfig \<Rightarrow> string \<Rightarrow> string \<Rightarrow> string + string" where
  "fetchSecret w config path key =
     (let url = TrimSlash (vc_Address config) @ ''/v1/'' @ path
      in case vault_NewRequest w url of
           Some err \<Rightarrow> Inl (''failed to create vault request: '' @ err)
         | None \<Rightarrow>
             (case vault_Do w \<lparr>vr_URL = url, vr_Token = vc_Token config,
                  vr_Namespace = (if vc_Namespace config \<noteq> [] then Some (vc_Namespace config) else None)\<rparr> of
                Inl err \<Rightarrow> Inl (''failed to fetch secret from vault: '' @ err)
              | Inr (status, body) \<Rightarrow>
                  if status \<noteq> 200 then Inl (''vault returned status '' @ itoa (nat status) @ '': '' @ body)
                  else case vault_Decode w body of
                         Inl err \<Rightarrow> Inl (''failed to decode vault response: '' @ err)
                       | Inr data \<Rightarrow>
                           (case get data key of
                              None \<Rightarrow> Inl (''key '' @ key @ '' not found in vault secret at path '' @ path)
                            | Some (JString v) \<Rightarrow> Inr v
                            | Some JOther \<Rightarrow> Inl (''secret value for key '' @ key @ '' is not a string''))))"

definition cached :: "secret_cache \<Rightarrow> go_time \<Rightarrow> string \<Rightarrow> string option" where
  "cached c now ref =
     (case get (sc_cache c) ref of
        Some (value, timestamp) \<Rightarrow> if now - timestamp < sc_ttl c then Some value else None
      | None \<Rightarrow> None)"

definition Vault_Resolve :: "VaultConfig \<Rightarrow> outside \<Rightarrow> go_time \<Rightarrow> string \<Rightarrow> secret_cache \<Rightarrow> (string + string) \<times> secret_cache" where
  "Vault_Resolve config w now ref c =
     (if length ref < 7 \<or> take 6 ref \<noteq> ''vault:'' then (Inl (unsupported ref), c)
      else case cached c now ref of
        Some value \<Rightarrow> (Inr value, c)
      | None \<Rightarrow>
          (case split_on CHR '':'' (drop 6 ref) of
             [secretPath, secretKey] \<Rightarrow>
               (case fetchSecret w config secretPath secretKey of
                  Inl err \<Rightarrow> (Inl err, c)
                | Inr value \<Rightarrow> (Inr value, c\<lparr>sc_cache := put (sc_cache c) ref (value, now)\<rparr>))
           | _ \<Rightarrow> (Inl (''invalid vault reference format, expected vault:path:key, got: '' @ ref), c)))"

definition KMS_Resolve :: "outside \<Rightarrow> go_time \<Rightarrow> string \<Rightarrow> secret_cache \<Rightarrow> (string + string) \<times> secret_cache" where
  "KMS_Resolve w now ref c =
     (if length ref < 5 \<or> take 4 ref \<noteq> ''kms:'' then (Inl (unsupported ref), c)
      else case cached c now ref of
        Some value \<Rightarrow> (Inr value, c)
      | None \<Rightarrow>
          let paramName = drop 4 ref
          in case ssm_GetParameter w paramName of
               Inl err \<Rightarrow> (Inl (''failed to fetch parameter '' @ paramName @ '': '' @ err), c)
             | Inr None \<Rightarrow> (Inl (''parameter '' @ paramName @ '' not found or empty''), c)
             | Inr (Some value) \<Rightarrow> (Inr value, c\<lparr>sc_cache := put (sc_cache c) ref (value, now)\<rparr>))"

definition ClearCache :: "secret_cache \<Rightarrow> secret_cache" where
  "ClearCache c = c\<lparr>sc_cache := []\<rparr>"

definition SetTTL :: "duration \<Rightarrow> secret_cache \<Rightarrow> secret_cache" where
  "SetTTL ttl c = c\<lparr>sc_ttl := ttl\<rparr>"

datatype secret_provider =
    EnvProvider
  | MockVaultProvider metadata
  | VaultProvider VaultConfig secret_cache
  | KMSProvider secret_cache

definition provider_Resolve ::
    "outside \<Rightarrow> go_time \<Rightarrow> string \<Rightarrow> secret_provider \<Rightarrow> (string + string) \<times> secret_provider" where
  "provider_Resolve w now ref p = (case p of
      EnvProvider \<Rightarrow> (Env_Resolve w ref, p)
    | MockVaultProvider data \<Rightarrow> (MockVault_Resolve data ref, p)
    | VaultProvider config c \<Rightarrow> (let (r, c') = Vault_Resolve config w now ref c in (r, VaultProvider config c'))
    | KMSProvider c \<Rightarrow> (let (r, c') = KMS_Resolve w now ref c in (r, KMSProvider c')))"

fun Composite_Resolve ::
    "outside \<Rightarrow> go_time \<Rightarrow> string \<Rightarrow> secret_provider list \<Rightarrow> (string + string) \<times> secret_provider list" where
  "Composite_Resolve w now ref [] = (Inl (''failed to resolve secret '' @ ref), [])"
| "Composite_Resolve w now ref (p # ps) =
     (case provider_Resolve w now ref p of
        (Inr val, p') \<Rightarrow> (Inr val, p' # ps)
      | (Inl _, p') \<Rightarrow> (let (r, ps') = Composite_Resolve w now ref ps in (r, p' # ps')))"

section \<open>Auditors\<close>

record AuditEntry =
  ae_Timestamp :: go_time
  ae_RequestID :: string
  ae_Identity :: "Identity option"
  ae_Action :: string
  ae_Resource :: Resource
  ae_Result :: string
  ae_Latency :: duration
  ae_SourceIP :: string
  ae_UserAgent :: string
  ae_ErrorMessage :: string

type_synonym 's auditor = "AuditEntry \<Rightarrow> 's \<Rightarrow> string option \<times> 's"

definition audit_event :: "go_time \<Rightarrow> AuditEntry \<Rightarrow> Event" where
  "audit_event now entry =
     (let event = zero_Event\<lparr>ev_ID := ae_RequestID entry, ev_Timestamp := ae_Timestamp entry,
            ev_Action := ae_Action entry, ev_Result := ae_Result entry,
            ev_Resource := \<lparr>ar_Type = rs_Type (ae_Resource entry), ar_ID = rs_ID (ae_Resource entry),
                            ar_Name = rs_Namespace (ae_Resource entry)\<rparr>,
            ev_SourceIP := ae_SourceIP entry, ev_UserAgent := ae_UserAgent entry, ev_RequestID := ae_RequestID entry,
            ev_Latency := ae_Latency entry, ev_ErrorMessage := ae_ErrorMessage entry\<rparr>;
          event = (case ae_Identity entry of
             None \<Rightarrow> event
           | Some i \<Rightarrow> event\<lparr>ev_Identity := Some \<lparr>ai_ID = id_ID i, ai_Type = id_Type i, ai_TenantID = id_TenantID i\<rparr>\<rparr>)
      in if ev_Timestamp event = 0 then event\<lparr>ev_Timestamp := now\<rparr> else event)"

definition Hermes_RecordAccess ::
    "encoder \<Rightarrow> (string \<Rightarrow> string) \<Rightarrow> detector list \<Rightarrow> string \<Rightarrow> go_time \<Rightarrow> string option \<Rightarrow> TamperEvidentStore auditor" where
  "Hermes_RecordAccess enc mac detectors uuid now writeErr entry s =
     Record enc mac detectors uuid now writeErr (audit_event now entry) s"

datatype metric = IncCounter string "(string \<times> string) list" | ObserveHistogram string duration "(string \<times> string) list"

definition Metrics_RecordAccess :: "metric list auditor" where
  "Metrics_RecordAccess entry ms =
     (let labels = [(''action'', ae_Action entry), (''resource_type'', rs_Type (ae_Resource entry))];
          ms = ms @ [IncCounter ''cerberus_access_total'' ((''result'', ae_Result entry) # labels),
                     ObserveHistogram ''cerberus_access_latency_seconds'' (ae_Latency entry) labels];
          reason = (if ae_ErrorMessage entry \<noteq> [] then
                      if ae_Result entry = ''denied'' then ''denied'' else ''error''
                    else ''unknown'')
      in (None, if ae_Result entry \<noteq> ''success'' then
                  ms @ [IncCounter ''cerberus_auth_failures_total'' [(''reason'', reason)]]
                else ms))"

fun Composite_RecordAccess :: "'s auditor list \<Rightarrow> 's auditor" where
  "Composite_RecordAccess [] entry s = (None, s)"
| "Composite_RecordAccess (a # as) entry s =
     (let (err, s) = a entry s;
          (rest, s) = Composite_RecordAccess as entry s
      in (case err of Some e \<Rightarrow> Some (''audit failed: composite auditor failed: '' @ e) | None \<Rightarrow> rest, s))"

definition Noop_RecordAccess :: "'s auditor" where
  "Noop_RecordAccess entry s = (None, s)"

section \<open>The middleware\<close>

record http_request =
  hr_Method :: string
  hr_Path :: string
  hr_Header :: "string \<Rightarrow> string"
  hr_TLS :: "Certificate list option"
  hr_RemoteAddr :: string

type_synonym extractor = "http_request \<Rightarrow> gate_error + Credentials"
type_synonym resource_mapper = "http_request \<Rightarrow> Identity option \<Rightarrow> string \<times> Resource \<times> string option"

definition SplitN2 :: "char \<Rightarrow> string \<Rightarrow> string list" where
  "SplitN2 c s = (if c \<in> set s then [takeWhile (\<lambda>x. x \<noteq> c) s, tl (dropWhile (\<lambda>x. x \<noteq> c) s)] else [s])"

definition Bearer_Extract :: extractor where
  "Bearer_Extract r =
     (let authHeader = hr_Header r ''Authorization''
      in if authHeader = [] then Inl (AuthenticationError ''missing Authorization header'' None)
         else case SplitN2 CHR '' '' authHeader of
                [scheme, token] \<Rightarrow>
                  if EqualFold scheme ''Bearer'' then Inr (APIKeyCredential [] token)
                  else Inl (AuthenticationError ''invalid Authorization header format'' None)
              | _ \<Rightarrow> Inl (AuthenticationError ''invalid Authorization header format'' None))"

definition MTLS_Extract :: extractor where
  "MTLS_Extract r =
     (case hr_TLS r of
        None \<Rightarrow> Inl (AuthenticationError ''no TLS connection'' None)
      | Some certs \<Rightarrow>
          if certs = [] then Inl (AuthenticationError ''no client certificate provided'' None)
          else Inr (MTLSCredential certs))"

fun extract_loop :: "extractor list \<Rightarrow> gate_error option \<Rightarrow> extractor" where
  "extract_loop [] lastErr r =
     (case lastErr of Some err \<Rightarrow> Inl err | None \<Rightarrow> Inl (AuthenticationError ''no credentials found'' None))"
| "extract_loop (x # xs) lastErr r =
     (case x r of Inr creds \<Rightarrow> Inr creds | Inl err \<Rightarrow> extract_loop xs (Some err) r)"

definition Composite_Extract :: "extractor list \<Rightarrow> extractor" where
  "Composite_Extract xs r = extract_loop xs None r"

definition MapRequest :: resource_mapper where
  "MapRequest r identity =
     (let m = hr_Method r;
          action = (if m = ''GET'' then ''read'' else if m = ''POST'' then ''create''
                    else if m = ''PUT'' \<or> m = ''PATCH'' then ''update'' else if m = ''DELETE'' then ''delete''
                    else ''read'');
          path = hr_Path r;
          (resourceType, resourceID) =
            (if prefix ''/sandboxes'' path then (''sandbox'', hd (split_on CHR ''/'' (TrimPrefix path ''/sandboxes/'')))
             else if prefix ''/templates'' path then (''template'', [])
             else if prefix ''/policies'' path then (''policy'', [])
             else (''sandbox'', []));
          tenantID = (case identity of Some i \<Rightarrow> id_TenantID i | None \<Rightarrow> ''default'')
      in (action, \<lparr>rs_Type = resourceType, rs_ID = resourceID, rs_TenantID = tenantID, rs_Namespace = ''default''\<rparr>, None))"

definition getSourceIP :: "http_request \<Rightarrow> string" where
  "getSourceIP r =
     (let xff = hr_Header r ''X-Forwarded-For''; xri = hr_Header r ''X-Real-IP''
      in if xff \<noteq> [] then TrimSpace (hd (split_on CHR '','' xff))
         else if xri \<noteq> [] then xri
         else hr_RemoteAddr r)"

definition audit_entry ::
    "resource_mapper \<Rightarrow> go_time \<Rightarrow> go_time \<Rightarrow> http_request \<Rightarrow> Identity option \<Rightarrow> string \<Rightarrow> string option \<Rightarrow> AuditEntry" where
  "audit_entry mapper start now r identity result err =
     (let (action, resource, _) = mapper r identity
      in \<lparr>ae_Timestamp = now, ae_RequestID = hr_Header r ''X-Request-ID'', ae_Identity = identity, ae_Action = action,
          ae_Resource = resource, ae_Result = result, ae_Latency = now - start, ae_SourceIP = getSourceIP r,
          ae_UserAgent = hr_Header r ''User-Agent'', ae_ErrorMessage = (case err of None \<Rightarrow> [] | Some e \<Rightarrow> e)\<rparr>)"

record Gateway =
  gw_Authenticate :: authenticator
  gw_Authorize :: authorizer

datatype verdict = Refused int string | Passed Identity

definition recordAndRespond ::
    "'s auditor \<Rightarrow> resource_mapper \<Rightarrow> go_time \<Rightarrow> go_time \<Rightarrow> http_request \<Rightarrow> Identity option \<Rightarrow> string \<Rightarrow> string option \<Rightarrow> 's \<Rightarrow> 's" where
  "recordAndRespond audit mapper start now r identity result err s =
     snd (audit (audit_entry mapper start now r identity result err) s)"

definition Wrap ::
    "Gateway \<Rightarrow> extractor \<Rightarrow> resource_mapper \<Rightarrow> 's auditor \<Rightarrow> go_time \<Rightarrow> go_time \<Rightarrow> http_request \<Rightarrow> 's \<Rightarrow> verdict \<times> 's" where
  "Wrap gw extract mapper audit start now r s =
     (let note_access = recordAndRespond audit mapper start now r
      in case extract r of
           Inl err \<Rightarrow> (Refused 401 (''Unauthorized: '' @ gate_error_text err),
                       note_access None ''denied'' (Some (gate_error_text err)) s)
         | Inr creds \<Rightarrow>
             (case gw_Authenticate gw creds of
                Inl err \<Rightarrow> (Refused 401 ''Unauthorized: Invalid credentials'',
                            note_access None ''denied'' (Some (gate_error_text err)) s)
              | Inr identity \<Rightarrow>
                  (case mapper r (Some identity) of
                     (action, resource, Some err) \<Rightarrow>
                       (Refused 400 (''Bad Request: '' @ err), note_access (Some identity) ''error'' (Some err) s)
                   | (action, resource, None) \<Rightarrow>
                       (case gw_Authorize gw identity action resource of
                          Some err \<Rightarrow> (Refused 403 ''Forbidden: Insufficient permissions'',
                                       note_access (Some identity) ''denied'' (Some (gate_error_text err)) s)
                        | None \<Rightarrow> (Passed identity, note_access (Some identity) ''success'' None s)))))"

section \<open>The gate of the API server\<close>

record api_config =
  ac_APIKey :: string
  ac_VaultAddress :: string
  ac_VaultToken :: string
  ac_VaultNamespace :: string
  ac_KMSRegion :: string
  ac_OIDCIssuerURL :: string
  ac_OIDCClientID :: string
  ac_TLSClientAuth :: string
  ac_TLSCAFile :: string
  ac_RBACPolicyPath :: string

text \<open>What the start-up obtained from outside: whether the parameter store's client could be built, the
  OpenID provider's verifier, the chain verification under the configured CA, and the policies.\<close>

record 'o api_services =
  as_kms :: bool
  as_jose :: "'o jose"
  as_idTokenVerifier :: token_verifier
  as_verify :: "Certificate \<Rightarrow> string option"
  as_policies :: "(string, RBACPolicy) gomap"

definition api_providers :: "api_config \<Rightarrow> 'o api_services \<Rightarrow> secret_provider list" where
  "api_providers cfg sv =
     [EnvProvider] @
     (if ac_VaultAddress cfg \<noteq> [] then
        [case_prod VaultProvider (NewRealVaultSecretProvider
           \<lparr>vc_Address = ac_VaultAddress cfg, vc_Token = ac_VaultToken cfg, vc_Namespace = ac_VaultNamespace cfg, vc_Timeout = 0\<rparr>)]
      else []) @
     (if ac_KMSRegion cfg \<noteq> [] \<and> as_kms sv then [KMSProvider \<lparr>sc_cache = [], sc_ttl = 15 * minute\<rparr>] else [])"

definition api_authenticators ::
    "api_config \<Rightarrow> 'o api_services \<Rightarrow> go_time \<Rightarrow> outside \<Rightarrow> go_time \<Rightarrow> secret_provider list \<Rightarrow> authenticator list" where
  "api_authenticators cfg sv boot w now providers =
     (if ac_APIKey cfg \<noteq> [] then [APIKey_Authenticate (NewSimpleAPIKeyAuthenticator boot (ac_APIKey cfg)) now] else []) @
     [SignedAPIKey_Authenticate (as_jose sv) (\<lambda>ref. fst (Composite_Resolve w now ref providers)) now] @
     (if ac_OIDCIssuerURL cfg \<noteq> [] \<and> ac_OIDCClientID cfg \<noteq> [] then [OIDC_Authenticate (as_idTokenVerifier sv) None] else []) @
     (if ac_TLSClientAuth cfg = ''require-verify'' \<and> ac_TLSCAFile cfg \<noteq> [] then [MTLS_Authenticate (as_verify sv) now] else [])"

definition api_authenticate ::
    "api_config \<Rightarrow> 'o api_services \<Rightarrow> go_time \<Rightarrow> outside \<Rightarrow> go_time \<Rightarrow> secret_provider list \<Rightarrow> authenticator" where
  "api_authenticate cfg sv boot w now providers =
     (case api_authenticators cfg sv boot w now providers of
        [] \<Rightarrow> APIKey_Authenticate (NewSimpleAPIKeyAuthenticator boot []) now
      | [auth] \<Rightarrow> auth
      | auths \<Rightarrow> Multi_Authenticate auths)"

definition api_authorize :: "api_config \<Rightarrow> 'o api_services \<Rightarrow> authorizer" where
  "api_authorize cfg sv = (if ac_RBACPolicyPath cfg \<noteq> [] then RBAC_Authorize (as_policies sv) else AllowAll_Authorize)"

definition api_extract :: "api_config \<Rightarrow> extractor" where
  "api_extract cfg =
     (if ac_TLSClientAuth cfg = ''require-verify'' then Composite_Extract [MTLS_Extract, Bearer_Extract] else Bearer_Extract)"

text \<open>The verdict on a request; \<open>None\<close> stands for a server whose handler is not wrapped.\<close>

definition api_gate ::
    "api_config \<Rightarrow> 'o api_services \<Rightarrow> go_time \<Rightarrow> outside \<Rightarrow> secret_provider list \<Rightarrow> 's auditor \<Rightarrow> go_time \<Rightarrow> go_time
     \<Rightarrow> http_request \<Rightarrow> 's \<Rightarrow> (verdict \<times> 's) option" where
  "api_gate cfg sv boot w providers audit start now r s =
     (if length (api_authenticators cfg sv boot w now providers) > 0
      then Some (Wrap \<lparr>gw_Authenticate = api_authenticate cfg sv boot w now providers, gw_Authorize = api_authorize cfg sv\<rparr>
                   (api_extract cfg) MapRequest audit start now r s)
      else None)"

section \<open>Who may do what\<close>

text \<open>What a permission of a role grants, without the loops.\<close>

definition grants :: "string \<Rightarrow> Identity \<Rightarrow> string \<Rightarrow> Resource \<Rightarrow> Permission \<Rightarrow> bool" where
  "grants role i action r pm \<longleftrightarrow> pm_AllowAll pm \<or>
     {action, ActionAll} \<inter> set (pm_Actions pm) \<noteq> {} \<and> {rs_Type r, ResourceTypeAll} \<inter> set (pm_Resources pm) \<noteq> {} \<and>
     (rs_TenantID r = [] \<or> role = ''admin'' \<or> id_TenantID i = rs_TenantID r)"

lemma contains_or_all_iff [simp]: "contains_or_all as all x \<longleftrightarrow> {x, all} \<inter> set as \<noteq> {}"
  by (induction as) auto

lemma perm_loop_iff: "perm_loop perms role i action r \<longleftrightarrow> (\<exists>pm \<in> set perms. grants role i action r pm)"
  by (induction perms) (auto simp: grants_def simp del: Int_insert_left)

lemma role_loop_iff:
  "role_loop policies roles i action r \<longleftrightarrow>
     (\<exists>role \<in> set roles. \<exists>p. get policies role = Some p \<and> (\<exists>pm \<in> set (rp_Permissions p). grants role i action r pm))"
  by (induction roles) (auto simp: perm_loop_iff split: option.splits)

text \<open>
  C13: The nested loops of the role-based authorizer decide exactly this: some role of the identity has
  a policy with a permission that allows everything, or that names the action and the resource's type
  (or the wildcard) where the resource has no tenant, or the role is \<open>admin\<close>, or the tenants agree.
  A refusal carries the identity, the action and the resource.\<close>

theorem rbac_authorize_iff:
  "RBAC_Authorize policies i action r =
     (if \<exists>role \<in> set (id_Roles i). \<exists>p. get policies role = Some p \<and>
           (\<exists>pm \<in> set (rp_Permissions p). grants role i action r pm)
      then None else Some (AuthorizationError ''insufficient permissions'' i action r))"
  by (simp add: RBAC_Authorize_def role_loop_iff)

section \<open>What the middleware lets through\<close>

lemma Wrap_Passed:
  "Wrap gw extract mapper audit start now r s = (Passed i, s') \<longleftrightarrow>
     (\<exists>creds action resource. extract r = Inr creds \<and> gw_Authenticate gw creds = Inr i \<and>
        mapper r (Some i) = (action, resource, None) \<and> gw_Authorize gw i action resource = None \<and>
        s' = snd (audit (audit_entry mapper start now r (Some i) ''success'' None) s))"
  by (auto simp: Wrap_def recordAndRespond_def Let_def split: sum.splits prod.splits option.splits)

text \<open>The audit record that each verdict leaves.\<close>

definition verdict_logged :: "verdict \<Rightarrow> AuditEntry \<Rightarrow> bool" where
  "verdict_logged v e \<longleftrightarrow> (case v of
      Passed i \<Rightarrow> ae_Result e = ''success'' \<and> ae_Identity e = Some i \<and> ae_ErrorMessage e = []
    | Refused code _ \<Rightarrow>
        (code = 401 \<and> ae_Result e = ''denied'' \<and> ae_Identity e = None \<or>
         code = 403 \<and> ae_Result e = ''denied'' \<and> ae_Identity e \<noteq> None \<or>
         code = 400 \<and> ae_Result e = ''error'' \<and> ae_Identity e \<noteq> None))"

lemma audit_entry_fields [simp]:
  "ae_Result (audit_entry mapper start now r i result err) = result"
  "ae_Identity (audit_entry mapper start now r i result err) = i"
  "ae_RequestID (audit_entry mapper start now r i result err) = hr_Header r ''X-Request-ID''"
  "ae_SourceIP (audit_entry mapper start now r i result err) = getSourceIP r"
  "ae_ErrorMessage (audit_entry mapper start now r i result err) = (case err of None \<Rightarrow> [] | Some e \<Rightarrow> e)"
  by (simp_all add: audit_entry_def split: prod.splits)

lemma Wrap_cases:
  "\<exists>i result err. snd (Wrap gw extract mapper audit start now r s) = snd (audit (audit_entry mapper start now r i result err) s) \<and>
     verdict_logged (fst (Wrap gw extract mapper audit start now r s)) (audit_entry mapper start now r i result err)"
  unfolding Wrap_def recordAndRespond_def Let_def
  by (auto simp: verdict_logged_def split: sum.splits prod.splits option.splits)

lemma Wrap_logged:
  "\<exists>e. verdict_logged (fst (Wrap gw extract mapper audit start now r s)) e \<and>
       snd (Wrap gw extract mapper audit start now r s) = snd (audit e s) \<and>
       ae_RequestID e = hr_Header r ''X-Request-ID'' \<and> ae_SourceIP e = getSourceIP r"
  using Wrap_cases [of gw "extract" mapper audit start now r s] by (metis audit_entry_fields(3,4))

text \<open>
  C9: The middleware hands a request on exactly when credentials were found, authenticated, mapped and
  authorized, with the identity they belong to; and whatever it decides, it makes exactly one audit
  record, whose result, identity and request identifier are those of the decision.\<close>

theorem middleware_guards:
  "(\<forall>i s'. Wrap gw extract mapper audit start now r s = (Passed i, s') \<longrightarrow>
      (\<exists>creds action resource. extract r = Inr creds \<and> gw_Authenticate gw creds = Inr i \<and>
         mapper r (Some i) = (action, resource, None) \<and> gw_Authorize gw i action resource = None)) \<and>
   (\<forall>creds i action resource. extract r = Inr creds \<and> gw_Authenticate gw creds = Inr i \<and>
         mapper r (Some i) = (action, resource, None) \<and> gw_Authorize gw i action resource = None \<longrightarrow>
      fst (Wrap gw extract mapper audit start now r s) = Passed i) \<and>
   (\<exists>e. verdict_logged (fst (Wrap gw extract mapper audit start now r s)) e \<and>
      snd (Wrap gw extract mapper audit start now r s) = snd (audit e s) \<and>
      ae_RequestID e = hr_Header r ''X-Request-ID'' \<and> ae_SourceIP e = getSourceIP r)"
proof (intro conjI allI impI)
  fix i s' assume "Wrap gw extract mapper audit start now r s = (Passed i, s')"
  then show "\<exists>creds action resource. extract r = Inr creds \<and> gw_Authenticate gw creds = Inr i \<and>
      mapper r (Some i) = (action, resource, None) \<and> gw_Authorize gw i action resource = None"
    unfolding Wrap_Passed by blast
next
  fix creds i action resource
  assume "extract r = Inr creds \<and> gw_Authenticate gw creds = Inr i \<and>
    mapper r (Some i) = (action, resource, None) \<and> gw_Authorize gw i action resource = None"
  then show "fst (Wrap gw extract mapper audit start now r s) = Passed i" by (simp add: Wrap_def Let_def)
qed (rule Wrap_logged)

text \<open>A gate that knows one key, for the examples.\<close>

definition demo_identity :: Identity where
  "demo_identity = \<lparr>id_ID = ''u'', id_Type = ''service'', id_TenantID = ''t'', id_DisplayName = [], id_Roles = [''reader''],
     id_Groups = [], id_Attributes = [], id_AuthTime = 0, id_ExpiresAt = 0\<rparr>"

definition demo_policies :: "(string, RBACPolicy) gomap" where
  "demo_policies = [(''reader'', \<lparr>rp_Role = ''reader'',
     rp_Permissions = [\<lparr>pm_Actions = [''read''], pm_Resources = [''sandbox''], pm_AllowAll = False\<rparr>]\<rparr>)]"

definition demo_gateway :: Gateway where
  "demo_gateway = \<lparr>gw_Authenticate = APIKey_Authenticate [(''k'', demo_identity)] 5, gw_Authorize = RBAC_Authorize demo_policies\<rparr>"

definition demo_request :: "string \<Rightarrow> string \<Rightarrow> http_request" where
  "demo_request method path = \<lparr>hr_Method = method, hr_Path = path,
     hr_Header = (\<lambda>h. if h = ''Authorization'' then ''Bearer k'' else []), hr_TLS = None, hr_RemoteAddr = ''10.0.0.9''\<rparr>"

theorem middleware_guards_witness:
  "fst (Wrap demo_gateway Bearer_Extract MapRequest Noop_RecordAccess 1 2 (demo_request ''GET'' ''/sandboxes/a'') ()) =
     Passed (demo_identity\<lparr>id_AuthTime := 5\<rparr>) \<and>
   fst (Wrap demo_gateway Bearer_Extract MapRequest Noop_RecordAccess 1 2 (demo_request ''DELETE'' ''/sandboxes/a'') ()) =
     Refused 403 ''Forbidden: Insufficient permissions''"
proof -
  have "Bearer_Extract (demo_request ''GET'' ''/sandboxes/a'') = Inr (APIKeyCredential [] ''k'')" by code_simp
  moreover have "gw_Authenticate demo_gateway (APIKeyCredential [] ''k'') = Inr (demo_identity\<lparr>id_AuthTime := 5\<rparr>)" by code_simp
  moreover have "MapRequest (demo_request ''GET'' ''/sandboxes/a'') (Some (demo_identity\<lparr>id_AuthTime := 5\<rparr>)) =
    (''read'', \<lparr>rs_Type = ''sandbox'', rs_ID = ''a'', rs_TenantID = ''t'', rs_Namespace = ''default''\<rparr>, None)" by code_simp
  moreover have "gw_Authorize demo_gateway (demo_identity\<lparr>id_AuthTime := 5\<rparr>) ''read''
     \<lparr>rs_Type = ''sandbox'', rs_ID = ''a'', rs_TenantID = ''t'', rs_Namespace = ''default''\<rparr> = None" by code_simp
  ultimately have "fst (Wrap demo_gateway Bearer_Extract MapRequest Noop_RecordAccess 1 2 (demo_request ''GET'' ''/sandboxes/a'') ()) =
     Passed (demo_identity\<lparr>id_AuthTime := 5\<rparr>)"
    using middleware_guards [of demo_gateway Bearer_Extract MapRequest Noop_RecordAccess 1 2 "demo_request ''GET'' ''/sandboxes/a''" "()"]
    by blast
  moreover have "fst (Wrap demo_gateway Bearer_Extract MapRequest Noop_RecordAccess 1 2 (demo_request ''DELETE'' ''/sandboxes/a'') ()) =
     Refused 403 ''Forbidden: Insufficient permissions''" by code_simp
  ultimately show ?thesis by blast
qed

text \<open>The mapper gives every resource the tenant of the caller, so the tenant check decides nothing.\<close>

lemma MapRequest_tenant: "MapRequest r (Some i) = (action, resource, err) \<Longrightarrow> rs_TenantID resource = id_TenantID i \<and> err = None"
  by (auto simp: MapRequest_def Let_def split: prod.splits)

lemma tenant_check_vacuous:
  "MapRequest r (Some i) = (action, resource, err) \<Longrightarrow>
   RBAC_Authorize policies i action resource = None \<longleftrightarrow>
   RBAC_Authorize policies i action (resource\<lparr>rs_TenantID := []\<rparr>) = None"
  using MapRequest_tenant [of r i action resource err] by (simp add: RBAC_Authorize_def role_loop_iff grants_def)

text \<open>
  The interactive shell of a sandbox is reached by a request that the mapper takes for a read. A
  caller whose only permission is to read sandboxes passes the gate for
  \<open>GET /sandboxes/exec/sock/<id>\<close>, whatever the sandbox and whatever its tenant.\<close>

theorem reader_opens_shell:
  assumes "gw_Authorize gw = RBAC_Authorize policies" "get policies role = Some p" "pm \<in> set (rp_Permissions p)"
    and "''read'' \<in> set (pm_Actions pm)" "''sandbox'' \<in> set (pm_Resources pm)"
    and "extract r = Inr creds" "gw_Authenticate gw creds = Inr i" "role \<in> set (id_Roles i)"
    and "hr_Method r = ''GET''" "hr_Path r = ''/sandboxes/exec/sock/'' @ sandbox"
  shows "fst (Wrap gw extract MapRequest audit start now r s) = Passed i"
proof -
  obtain rid where m: "MapRequest r (Some i) =
      (''read'', \<lparr>rs_Type = ''sandbox'', rs_ID = rid, rs_TenantID = id_TenantID i, rs_Namespace = ''default''\<rparr>, None)"
    using assms(9,10) by (auto simp: MapRequest_def Let_def)
  have "RBAC_Authorize policies i ''read''
      \<lparr>rs_Type = ''sandbox'', rs_ID = rid, rs_TenantID = id_TenantID i, rs_Namespace = ''default''\<rparr> = None"
    using assms(2-5,8) by (fastforce simp: RBAC_Authorize_def role_loop_iff grants_def)
  then show ?thesis by (simp add: Wrap_def Let_def assms(1,6,7) m)
qed

theorem reader_opens_shell_witness:
  "fst (Wrap demo_gateway Bearer_Extract MapRequest Noop_RecordAccess 1 2
     (demo_request ''GET'' ''/sandboxes/exec/sock/other-tenants-sandbox'') ()) = Passed (demo_identity\<lparr>id_AuthTime := 5\<rparr>)"
  by (rule reader_opens_shell [where policies = demo_policies and role = "''reader''" and creds = "APIKeyCredential [] ''k''"
        and p = "snd (hd demo_policies)" and pm = "hd (rp_Permissions (snd (hd demo_policies)))" and sandbox = "''other-tenants-sandbox''"])
    (simp add: demo_gateway_def, code_simp+)

section \<open>Who gets in\<close>

lemma Multi_loop_Inr: "Multi_loop auths e creds = Inr i \<Longrightarrow> \<exists>auth \<in> set auths. auth creds = Inr i"
  by (induction auths arbitrary: e) (auto split: option.splits sum.splits)

lemma api_authenticators_ne [simp]: "api_authenticators cfg sv boot w now ps \<noteq> []"
  by (simp add: api_authenticators_def)

lemma api_authenticate_Inr:
  "api_authenticate cfg sv boot w now ps creds = Inr i \<Longrightarrow> \<exists>auth \<in> set (api_authenticators cfg sv boot w now ps). auth creds = Inr i"
  by (auto simp: api_authenticate_def Multi_Authenticate_def dest!: Multi_loop_Inr split: list.splits simp del: Multi_loop.simps)

lemma api_gate_closed: "api_gate cfg sv boot w ps audit start now r s \<noteq> None"
  by (simp add: api_gate_def)

text \<open>Of the configured providers only the environment resolves the name of a signing key.\<close>

lemma Composite_Resolve_key:
  "fst (Composite_Resolve w now (''key:'' @ kid) ps) = Inr v \<Longrightarrow> v = os_Getenv w (''CERBERUS_KEY_'' @ kid) \<and> v \<noteq> []"
proof (induction ps)
  case (Cons p ps)
  have "fst (provider_Resolve w now (''key:'' @ kid) p) = Inr v \<Longrightarrow>
      v = os_Getenv w (''CERBERUS_KEY_'' @ kid) \<and> v \<noteq> []" for v
    by (auto simp: provider_Resolve_def Env_Resolve_def MockVault_Resolve_def Vault_Resolve_def KMS_Resolve_def Let_def
        split: secret_provider.splits if_splits)
  with Cons show ?case by (auto split: prod.splits sum.splits)
qed simp

definition signed_key_holder ::
    "'o jose \<Rightarrow> outside \<Rightarrow> go_time \<Rightarrow> string \<Rightarrow> Identity \<Rightarrow> bool" where
  "signed_key_holder j w now token i \<longleftrightarrow>
     (\<exists>kid kids object payload identity. js_ParseSigned j token [HS256, RS256, ES256] = Inr (kid # kids, object) \<and> kid \<noteq> [] \<and>
        os_Getenv w (''CERBERUS_KEY_'' @ kid) \<noteq> [] \<and>
        js_Verify j object (os_Getenv w (''CERBERUS_KEY_'' @ kid)) = Inr payload \<and>
        js_Unmarshal j payload = Inr identity \<and> \<not> expired now identity \<and> i = identity\<lparr>id_AuthTime := now\<rparr>)"

lemma Signed_Inr:
  assumes "SignedAPIKey_Authenticate j (\<lambda>ref. fst (Composite_Resolve w now ref ps)) now creds = Inr i"
  shows "\<exists>kid' token. creds = APIKeyCredential kid' token \<and> signed_key_holder j w now token i"
proof -
  obtain kid' token where c: "creds = APIKeyCredential kid' token"
    using assms by (auto simp: SignedAPIKey_Authenticate_def split: Credentials.splits)
  obtain kid kids ob key payload idt where
    "js_ParseSigned j token [HS256, RS256, ES256] = Inr (kid # kids, ob)" "kid \<noteq> []"
    and key: "fst (Composite_Resolve w now (''key:'' @ kid) ps) = Inr key"
    and "js_Verify j ob key = Inr payload" "js_Unmarshal j payload = Inr idt" "\<not> expired now idt" "i = idt\<lparr>id_AuthTime := now\<rparr>"
    using assms by (auto simp: c SignedAPIKey_Authenticate_def split: sum.splits prod.splits list.splits if_splits)
  then show ?thesis using Composite_Resolve_key [OF key] c unfolding signed_key_holder_def by blast
qed

lemma api_extract_Inr:
  "api_extract cfg r = Inr creds \<Longrightarrow>
     (\<exists>token. Bearer_Extract r = Inr creds \<and> creds = APIKeyCredential [] token) \<or>
     ac_TLSClientAuth cfg = ''require-verify'' \<and> (\<exists>cert certs. hr_TLS r = Some (cert # certs) \<and> creds = MTLSCredential (cert # certs))"
  by (auto simp: api_extract_def Composite_Extract_def Bearer_Extract_def MTLS_Extract_def Let_def neq_Nil_conv
      split: if_splits option.splits sum.splits list.splits)

lemma gate_passed:
  assumes "api_gate cfg sv boot w ps audit start now r s = None \<or> api_gate cfg sv boot w ps audit start now r s = Some (Passed i, s')"
  shows "(\<exists>token. Bearer_Extract r = Inr (APIKeyCredential [] token) \<and>
      (token = ac_APIKey cfg \<and> token \<noteq> [] \<and> id_Roles i = [''admin''] \<or> signed_key_holder (as_jose sv) w now token i)) \<or>
    ac_TLSClientAuth cfg = ''require-verify'' \<and> ac_TLSCAFile cfg \<noteq> [] \<and>
      (\<exists>cert certs. hr_TLS r = Some (cert # certs) \<and> as_verify sv cert = None \<and> id_Roles i = [''agent''])"
proof -
  obtain creds where x: "api_extract cfg r = Inr creds" and a: "api_authenticate cfg sv boot w now ps creds = Inr i"
    using assms by (auto simp: api_gate_closed api_gate_def Wrap_Passed split: if_splits)
  from api_authenticate_Inr [OF a] obtain auth where
    "auth \<in> set (api_authenticators cfg sv boot w now ps)" and i: "auth creds = Inr i" by blast
  then consider (key) "ac_APIKey cfg \<noteq> []" "auth = APIKey_Authenticate (NewSimpleAPIKeyAuthenticator boot (ac_APIKey cfg)) now"
    | (signed) "auth = SignedAPIKey_Authenticate (as_jose sv) (\<lambda>ref. fst (Composite_Resolve w now ref ps)) now"
    | (oidc) "auth = OIDC_Authenticate (as_idTokenVerifier sv) None"
    | (mtls) "ac_TLSCAFile cfg \<noteq> []" "auth = MTLS_Authenticate (as_verify sv) now"
    by (auto simp: api_authenticators_def split: if_splits)
  then show ?thesis
  proof cases
    case key
    then obtain k where "creds = APIKeyCredential k (ac_APIKey cfg)" "id_Roles i = [''admin'']"
      using i by (auto simp: APIKey_Authenticate_def NewSimpleAPIKeyAuthenticator_def split: Credentials.splits if_splits)
    then show ?thesis using api_extract_Inr [OF x] key by auto
  next
    case signed
    then show ?thesis using Signed_Inr i api_extract_Inr [OF x] by fastforce
  next
    case oidc
    then show ?thesis using i api_extract_Inr [OF x] by (auto simp: OIDC_Authenticate_def)
  next
    case mtls
    then obtain cert certs where "creds = MTLSCredential (cert # certs)" "as_verify sv cert = None" "id_Roles i = [''agent'']"
      using i by (auto simp: MTLS_Authenticate_def Let_def split: Credentials.splits list.splits option.splits if_splits)
    then show ?thesis using api_extract_Inr [OF x] mtls by auto
  qed
qed

text \<open>
  Under every configuration the API's handler is behind the gate, and a request passes only with
  the configured API key (as administrator), with a token that verifies under a signing key of the
  server's environment and has not expired, or with a client certificate that verifies under the
  configured CA (as agent). OpenID tokens, and signing keys kept in Vault or in the parameter store,
  open nothing.\<close>

theorem who_gets_in:
  assumes "api_gate cfg sv boot w ps audit start now r s = None \<or> api_gate cfg sv boot w ps audit start now r s = Some (Passed i, s')"
  shows "(\<exists>token. Bearer_Extract r = Inr (APIKeyCredential [] token) \<and>
      (token = ac_APIKey cfg \<and> token \<noteq> [] \<and> id_Roles i = [''admin''] \<or> signed_key_holder (as_jose sv) w now token i)) \<or>
    ac_TLSClientAuth cfg = ''require-verify'' \<and> ac_TLSCAFile cfg \<noteq> [] \<and>
      (\<exists>cert certs. hr_TLS r = Some (cert # certs) \<and> as_verify sv cert = None \<and> id_Roles i = [''agent''])"
  using assms by (rule gate_passed)

text \<open>The JWS library of the examples: a token is its key identifier, secret and payload, joined.\<close>

definition demo_jose :: "(string \<times> string \<times> string) jose" where
  "demo_jose = \<lparr>
     js_ParseSigned = (\<lambda>t algs. case split_on CHR ''.'' t of
        [kid, secret, payload] \<Rightarrow> Inr ([kid], (kid, secret, payload)) | _ \<Rightarrow> Inl ''compact JWS format must have three parts''),
     js_Verify = (\<lambda>(kid, secret, payload) key. if key = secret then Inr payload else Inl ''error in cryptographic primitive''),
     js_UnsafePayload = (\<lambda>(kid, secret, payload). payload),
     js_NewSigner = (\<lambda>alg secret kid. None),
     js_Sign = (\<lambda>alg secret kid payload. if CHR ''.'' \<in> set (kid @ secret @ payload) then Inl ''not representable''
        else Inr (kid, secret, payload)),
     js_CompactSerialize = (\<lambda>(kid, secret, payload). Inr (kid @ ''.'' @ secret @ ''.'' @ payload)),
     js_Marshal = (\<lambda>i. if i = demo_identity\<lparr>id_ID := id_ID i\<rparr> then Inr (id_ID i) else Inl ''not representable''),
     js_Unmarshal = (\<lambda>p. Inr (demo_identity\<lparr>id_ID := p\<rparr>))\<rparr>"

definition demo_secret :: string where
  "demo_secret = replicate 32 CHR ''s''"

definition demo_outside :: outside where
  "demo_outside = \<lparr>os_Getenv = (\<lambda>v. if v = ''CERBERUS_KEY_v1'' then demo_secret else []),
     vault_NewRequest = (\<lambda>u. None), vault_Do = (\<lambda>q. Inr (200, ''body'')), vault_Decode = (\<lambda>b. Inr [(''password'', JString ''p'')]),
     ssm_GetParameter = (\<lambda>n. Inl ''no such parameter'')\<rparr>"

definition demo_api_config :: api_config where
  "demo_api_config = \<lparr>ac_APIKey = ''k'', ac_VaultAddress = [], ac_VaultToken = [], ac_VaultNamespace = [], ac_KMSRegion = [],
     ac_OIDCIssuerURL = [], ac_OIDCClientID = [], ac_TLSClientAuth = ''none'', ac_TLSCAFile = [], ac_RBACPolicyPath = []\<rparr>"

definition demo_services :: "(string \<times> string \<times> string) api_services" where
  "demo_services = \<lparr>as_kms = False, as_jose = demo_jose, as_idTokenVerifier = (\<lambda>t. Inl ''no provider''), as_verify = (\<lambda>c. None),
     as_policies = []\<rparr>"

theorem who_gets_in_witness:
  "\<exists>i token. api_gate demo_api_config demo_services 0 demo_outside (api_providers demo_api_config demo_services) Noop_RecordAccess 1 2
     (demo_request ''GET'' ''/sandboxes'') () = Some (Passed i, ()) \<and>
   (token = ''k'' \<and> id_Roles i = [''admin''] \<or> signed_key_holder demo_jose demo_outside 2 token i)"
proof -
  let ?i = "\<lparr>id_ID = ''api-key-user'', id_Type = ''service'', id_TenantID = ''default'', id_DisplayName = ''API Key User'',
    id_Roles = [''admin''], id_Groups = [], id_Attributes = [], id_AuthTime = 2, id_ExpiresAt = 0\<rparr>"
  have passed: "api_gate demo_api_config demo_services 0 demo_outside (api_providers demo_api_config demo_services) Noop_RecordAccess 1 2
     (demo_request ''GET'' ''/sandboxes'') () = Some (Passed ?i, ())" by code_simp
  have "ac_TLSClientAuth demo_api_config \<noteq> ''require-verify''" "ac_APIKey demo_api_config = ''k''" "as_jose demo_services = demo_jose"
    by (simp_all add: demo_api_config_def demo_services_def)
  with who_gets_in [OF disjI2 [OF passed]] passed show ?thesis by auto
qed

section \<open>Signed keys\<close>

text \<open>What the JWS library and the JSON encoder promise of a token they made.\<close>

definition jose_faithful :: "'o jose \<Rightarrow> bool" where
  "jose_faithful j \<longleftrightarrow>
     (\<forall>secret kid payload object token algs.
        js_Sign j HS256 secret kid payload = Inr object \<and> js_CompactSerialize j object = Inr token \<and> HS256 \<in> set algs \<longrightarrow>
        (\<exists>object'. js_ParseSigned j token algs = Inr ([kid], object') \<and> js_Verify j object' secret = Inr payload)) \<and>
     (\<forall>i payload. js_Marshal j i = Inr payload \<longrightarrow> js_Unmarshal j payload = Inr i)"

lemma GenerateAPIKey_Inr:
  assumes "jose_faithful j" "GenerateAPIKey j identity kid secret = Inr token" "HS256 \<in> set algs"
  shows "\<exists>i object payload. identity = Some i \<and> kid \<noteq> [] \<and> 32 \<le> length secret \<and>
    js_ParseSigned j token algs = Inr ([kid], object) \<and> js_Verify j object secret = Inr payload \<and> js_Unmarshal j payload = Inr i"
proof -
  obtain i payload object0 where g: "identity = Some i" "kid \<noteq> []" "32 \<le> length secret" "js_Marshal j i = Inr payload"
    "js_Sign j HS256 secret kid payload = Inr object0" "js_CompactSerialize j object0 = Inr token"
    using assms(2) by (auto simp: GenerateAPIKey_def split: option.splits sum.splits if_splits)
  with assms(1,3) obtain object where "js_ParseSigned j token algs = Inr ([kid], object)" "js_Verify j object secret = Inr payload"
    unfolding jose_faithful_def by blast
  moreover have "js_Unmarshal j payload = Inr i" using assms(1) g(4) unfolding jose_faithful_def by blast
  ultimately show ?thesis using g by blast
qed

text \<open>
  A generated key authenticates as the identity it was made for, until that identity expires, where
  the signing secret is the one the server resolves for the key's identifier. Rotation gives a key
  that does the same under the new identifier and secret, with the new expiry when one is asked for.\<close>

theorem generated_key_authenticates:
  assumes "jose_faithful j" "GenerateAPIKey j (Some i) kid secret = Inr token"
    and "resolve (''key:'' @ kid) = Inr secret" "resolve (''key:'' @ kid') = Inr secret'" "\<not> expired now i"
    and "RotateAPIKey j t token kid secret kid' secret' longer = Inr token'"
    and "i' = (case longer of None \<Rightarrow> i | Some d \<Rightarrow> i\<lparr>id_ExpiresAt := t + d\<rparr>)" "\<not> expired now i'"
  shows "SignedAPIKey_Authenticate j resolve now (APIKeyCredential k token) = Inr (i\<lparr>id_AuthTime := now\<rparr>) \<and>
    SignedAPIKey_Authenticate j resolve now (APIKeyCredential k token') = Inr (i'\<lparr>id_AuthTime := now\<rparr>)"
proof -
  have key: "SignedAPIKey_Authenticate j resolve now (APIKeyCredential k token) = Inr (i\<lparr>id_AuthTime := now\<rparr>)"
    if "GenerateAPIKey j (Some i) kid secret = Inr token" "resolve (''key:'' @ kid) = Inr secret" "\<not> expired now i"
    for i kid secret token
    using GenerateAPIKey_Inr [OF assms(1) that(1), of "[HS256, RS256, ES256]"] that(2,3)
    by (auto simp: SignedAPIKey_Authenticate_def)
  have "GenerateAPIKey j (Some i') kid' secret' = Inr token'"
    using GenerateAPIKey_Inr [OF assms(1,2), of "[HS256]"] assms(6) by (auto simp: RotateAPIKey_def assms(7) Let_def)
  then show ?thesis using key assms by blast
qed

lemma demo_jose_faithful: "jose_faithful demo_jose"
proof -
  have "split_on CHR ''.'' (kid @ CHR ''.'' # secret @ CHR ''.'' # payload) = [kid, secret, payload]"
    if "CHR ''.'' \<notin> set kid" "CHR ''.'' \<notin> set secret" "CHR ''.'' \<notin> set payload" for kid secret payload
    using that by (simp add: split_on_word_append)
  then show ?thesis by (auto simp: jose_faithful_def demo_jose_def split: if_splits)
qed

theorem generated_key_authenticates_witness:
  "let token = ''v1.'' @ demo_secret @ ''.u''; token' = ''v2.'' @ demo_secret @ ''.u''
   in SignedAPIKey_Authenticate demo_jose (\<lambda>ref. Inr demo_secret) 9 (APIKeyCredential [] token) = Inr (demo_identity\<lparr>id_AuthTime := 9\<rparr>) \<and>
      SignedAPIKey_Authenticate demo_jose (\<lambda>ref. Inr demo_secret) 9 (APIKeyCredential [] token') = Inr (demo_identity\<lparr>id_AuthTime := 9\<rparr>)"
proof -
  have "GenerateAPIKey demo_jose (Some demo_identity) ''v1'' demo_secret = Inr (''v1.'' @ demo_secret @ ''.u'')" by code_simp
  moreover have "RotateAPIKey demo_jose 3 (''v1.'' @ demo_secret @ ''.u'') ''v1'' demo_secret ''v2'' demo_secret None =
    Inr (''v2.'' @ demo_secret @ ''.u'')" by code_simp
  moreover have "\<not> expired 9 demo_identity" by code_simp
  ultimately show ?thesis
    unfolding Let_def
    by (intro generated_key_authenticates [OF demo_jose_faithful, where longer = None and t = 3 and kid = "''v1''" and
          kid' = "''v2''" and secret = demo_secret and secret' = demo_secret]) simp_all
qed

section \<open>Cached secrets\<close>

text \<open>The cache after a sequence of calls, each with the state of the outside and the clock.\<close>

fun after_calls ::
    "('w \<Rightarrow> go_time \<Rightarrow> string \<Rightarrow> secret_cache \<Rightarrow> (string + string) \<times> secret_cache) \<Rightarrow> ('w \<times> go_time \<times> string) list
     \<Rightarrow> secret_cache \<Rightarrow> secret_cache" where
  "after_calls resolve [] c = c"
| "after_calls resolve ((w, now, ref) # calls) c = after_calls resolve calls (snd (resolve w now ref c))"

text \<open>A provider with a cache: it answers from a fresh entry, and asks, and remembers, otherwise.\<close>

locale cached_source =
  fixes resolve :: "'w \<Rightarrow> go_time \<Rightarrow> string \<Rightarrow> secret_cache \<Rightarrow> (string + string) \<times> secret_cache"
    and asked :: "'w \<Rightarrow> string \<Rightarrow> string + string"
    and supports :: "string \<Rightarrow> bool"
  assumes unsupported_ref: "\<not> supports ref \<Longrightarrow> \<exists>err. resolve w now ref c = (Inl err, c)"
    and hit: "supports ref \<Longrightarrow> cached c now ref = Some v \<Longrightarrow> resolve w now ref c = (Inr v, c)"
    and miss: "supports ref \<Longrightarrow> cached c now ref = None \<Longrightarrow>
      resolve w now ref c = (asked w ref,
        case asked w ref of Inl _ \<Rightarrow> c | Inr v \<Rightarrow> c\<lparr>sc_cache := put (sc_cache c) ref (v, now)\<rparr>)"
begin

definition justified :: "('w \<times> go_time \<times> string) set \<Rightarrow> secret_cache \<Rightarrow> bool" where
  "justified calls c \<longleftrightarrow>
     (\<forall>ref v t. get (sc_cache c) ref = Some (v, t) \<longrightarrow> (\<exists>w. (w, t, ref) \<in> calls \<and> asked w ref = Inr v))"

lemma resolve_effect:
  "snd (resolve w now ref c) = c \<or>
   (\<exists>v. asked w ref = Inr v \<and> snd (resolve w now ref c) = c\<lparr>sc_cache := put (sc_cache c) ref (v, now)\<rparr>)"
proof (cases "supports ref")
  case True
  then show ?thesis
    using hit [OF True, of c now] miss [OF True, of c now w] by (cases "cached c now ref") (auto split: sum.splits)
next
  case False
  then show ?thesis using unsupported_ref [of ref w now c] by auto
qed

lemma resolve_ttl: "sc_ttl (snd (resolve w now ref c)) = sc_ttl c"
  using resolve_effect [of w now ref c] by auto

lemma resolve_justified:
  assumes "justified calls c"
  shows "justified (insert (w, now, ref) calls) (snd (resolve w now ref c))"
proof -
  have "\<exists>w. (w, t, ref) \<in> calls \<and> asked w ref = Inr v" if "get (sc_cache c) ref = Some (v, t)" for ref v t
    using assms that unfolding justified_def by blast
  with resolve_effect [of w now ref c] show ?thesis unfolding justified_def by (fastforce split: if_splits)
qed

lemma after_justified:
  "justified past c \<Longrightarrow> justified (past \<union> set calls) (after_calls resolve calls c) \<and> sc_ttl (after_calls resolve calls c) = sc_ttl c"
proof (induction calls arbitrary: past c)
  case (Cons call calls)
  obtain w now ref where call: "call = (w, now, ref)" by (cases call)
  from Cons.IH [OF resolve_justified [OF Cons.prems]]
  have "justified (insert (w, now, ref) past \<union> set calls) (after_calls resolve calls (snd (resolve w now ref c)))"
    "sc_ttl (after_calls resolve calls (snd (resolve w now ref c))) = sc_ttl c" by (auto simp: resolve_ttl)
  then show ?case by (simp add: call)
qed simp

lemma answer_recent:
  assumes "justified past c" "fst (resolve w now ref c) = Inr v"
  shows "asked w ref = Inr v \<or> (\<exists>w' t. (w', t, ref) \<in> past \<and> asked w' ref = Inr v \<and> now - t < sc_ttl c)"
proof (cases "cached c now ref")
  case None
  then show ?thesis using assms(2) miss unsupported_ref by (metis Inl_Inr_False fst_conv)
next
  case (Some u)
  then have "u = v" using assms(2) hit unsupported_ref by (metis Inl_Inr_False Inr_inject fst_conv)
  moreover obtain t where "get (sc_cache c) ref = Some (u, t)" "now - t < sc_ttl c"
    using Some by (auto simp: cached_def split: option.splits if_splits)
  ultimately show ?thesis using assms(1) unfolding justified_def by blast
qed

lemma answers_recent:
  assumes "fst (resolve w now ref (after_calls resolve calls \<lparr>sc_cache = [], sc_ttl = ttl\<rparr>)) = Inr v"
  shows "asked w ref = Inr v \<or> (\<exists>w' t. (w', t, ref) \<in> set calls \<and> asked w' ref = Inr v \<and> now - t < ttl)"
proof -
  have "justified {} \<lparr>sc_cache = [], sc_ttl = ttl\<rparr>" by (simp add: justified_def)
  from after_justified [OF this, of calls] answer_recent [OF _ assms, of "set calls"] show ?thesis by simp
qed

end

definition vault_asked :: "VaultConfig \<Rightarrow> outside \<Rightarrow> string \<Rightarrow> string + string" where
  "vault_asked config w ref =
     (case split_on CHR '':'' (drop 6 ref) of
        [path, key] \<Rightarrow> fetchSecret w config path key
      | _ \<Rightarrow> Inl (''invalid vault reference format, expected vault:path:key, got: '' @ ref))"

definition kms_asked :: "outside \<Rightarrow> string \<Rightarrow> string + string" where
  "kms_asked w ref =
     (case ssm_GetParameter w (drop 4 ref) of
        Inl err \<Rightarrow> Inl (''failed to fetch parameter '' @ drop 4 ref @ '': '' @ err)
      | Inr None \<Rightarrow> Inl (''parameter '' @ drop 4 ref @ '' not found or empty'')
      | Inr (Some value) \<Rightarrow> Inr value)"

interpretation vault: cached_source "Vault_Resolve config" "vault_asked config"
    "\<lambda>ref. \<not> (length ref < 7 \<or> take 6 ref \<noteq> ''vault:'')" for config
  by unfold_locales (auto simp: Vault_Resolve_def vault_asked_def split: list.splits sum.splits)

interpretation kms: cached_source KMS_Resolve kms_asked "\<lambda>ref. \<not> (length ref < 5 \<or> take 4 ref \<noteq> ''kms:'')"
  by unfold_locales (auto simp: KMS_Resolve_def kms_asked_def Let_def split: sum.splits option.splits)

text \<open>
  A secret that a caching provider returns was given by its store in answer to this call, or to an
  earlier call for the same reference less than the time to live ago: Vault's and the parameter
  store's providers, after any sequence of calls on a new provider.\<close>

theorem secrets_recent:
  "(fst (Vault_Resolve config w now ref (after_calls (Vault_Resolve config) calls \<lparr>sc_cache = [], sc_ttl = ttl\<rparr>)) = Inr v \<longrightarrow>
      vault_asked config w ref = Inr v \<or>
      (\<exists>w' t. (w', t, ref) \<in> set calls \<and> vault_asked config w' ref = Inr v \<and> now - t < ttl)) \<and>
   (fst (KMS_Resolve w now ref (after_calls KMS_Resolve calls \<lparr>sc_cache = [], sc_ttl = ttl\<rparr>)) = Inr v \<longrightarrow>
      kms_asked w ref = Inr v \<or> (\<exists>w' t. (w', t, ref) \<in> set calls \<and> kms_asked w' ref = Inr v \<and> now - t < ttl))"
  using vault.answers_recent kms.answers_recent by blast

definition demo_vault :: VaultConfig where
  "demo_vault = \<lparr>vc_Address = ''http://v/'', vc_Token = ''t'', vc_Namespace = [], vc_Timeout = second\<rparr>"

theorem secrets_recent_witness:
  "vault_asked demo_vault demo_outside ''vault:db:password'' = Inr ''p'' \<or>
   (\<exists>w' t. (w', t, ''vault:db:password'') \<in> set [(demo_outside, 3 :: int, ''vault:db:password'')] \<and>
      vault_asked demo_vault w' ''vault:db:password'' = Inr ''p'' \<and> 9 - t < 10)"
proof -
  have "fst (Vault_Resolve demo_vault demo_outside 9 ''vault:db:password''
      (after_calls (Vault_Resolve demo_vault) [(demo_outside, 3, ''vault:db:password'')] \<lparr>sc_cache = [], sc_ttl = 10\<rparr>)) = Inr ''p''"
    by code_simp
  then show ?thesis
    using secrets_recent [of demo_vault demo_outside 9 "''vault:db:password''" "[(demo_outside, 3, ''vault:db:password'')]" 10 "''p''"]
    by blast
qed

section \<open>Every request is on the chain\<close>

text \<open>A run of the middleware with the auditor that writes to the chained store: one request after the
  other, each with its clock readings, the identifier drawn for it and what the writer below the store
  answers to its record.\<close>

type_synonym served = "http_request \<times> string \<times> go_time \<times> go_time \<times> string option"

fun serve_all ::
    "encoder \<Rightarrow> (string \<Rightarrow> string) \<Rightarrow> detector list \<Rightarrow> Gateway \<Rightarrow> extractor \<Rightarrow> resource_mapper \<Rightarrow>
     served list \<Rightarrow> TamperEvidentStore \<Rightarrow> verdict list \<times> TamperEvidentStore" where
  "serve_all enc mac ds gw ex mapper [] s = ([], s)"
| "serve_all enc mac ds gw ex mapper ((r, uuid, start, now, writeErr) # rs) s =
     (let (v, s) = Wrap gw ex mapper (Hermes_RecordAccess enc mac ds uuid now writeErr) start now r s;
          (vs, s) = serve_all enc mac ds gw ex mapper rs s
      in (v # vs, s))"

definition write_fails :: "served \<Rightarrow> bool" where
  "write_fails q = (case q of (r, uuid, start, now, writeErr) \<Rightarrow> writeErr \<noteq> None)"

text \<open>The verdict of a request on its own, with nothing recorded.\<close>

definition verdict_of :: "Gateway \<Rightarrow> extractor \<Rightarrow> resource_mapper \<Rightarrow> served \<Rightarrow> verdict" where
  "verdict_of gw ex mapper q =
     (case q of (r, uuid, start, now, writeErr) \<Rightarrow> fst (Wrap gw ex mapper Noop_RecordAccess start now r ()))"

lemma Wrap_verdict:
  "fst (Wrap gw ex mapper audit start now r s) = fst (Wrap gw ex mapper Noop_RecordAccess start now r ())"
  by (auto simp: Wrap_def recordAndRespond_def Let_def split: sum.splits prod.splits option.splits)

lemma run_detectors_keeps: "ev_Result (run_detectors ds e) = ev_Result e \<and> ev_RequestID (run_detectors ds e) = ev_RequestID e"
  by (induction ds arbitrary: e) (auto split: option.splits)

lemma audit_event_fields [simp]:
  "ev_Result (audit_event now entry) = ae_Result entry" "ev_RequestID (audit_event now entry) = ae_RequestID entry"
  by (simp_all add: audit_event_def Let_def split: option.split)

lemma Record_writes:
  "\<exists>e. snd (Record enc mac ds uuid now writeErr ev s) = snd (TamperEvident_Write enc mac writeErr e s) \<and>
     ev_Result e = ev_Result ev \<and> ev_RequestID e = ev_RequestID ev"
proof (intro exI conjI)
  let ?e = "if ev_ID ev = [] then ev\<lparr>ev_ID := uuid\<rparr> else ev"
  let ?e' = "run_detectors ds (if ev_Timestamp ?e = 0 then ?e\<lparr>ev_Timestamp := now\<rparr> else ?e)"
  show "snd (Record enc mac ds uuid now writeErr ev s) = snd (TamperEvident_Write enc mac writeErr ?e' s)"
    unfolding Record_def Let_def by (simp split: prod.split option.split)
  show "ev_Result ?e' = ev_Result ev" "ev_RequestID ?e' = ev_RequestID ev" by (simp_all add: run_detectors_keeps)
qed

text \<open>What the chain says of a verdict.\<close>

definition on_record :: "verdict \<Rightarrow> http_request \<Rightarrow> Event \<Rightarrow> bool" where
  "on_record v r e \<longleftrightarrow> ev_RequestID e = hr_Header r ''X-Request-ID'' \<and>
     (ev_Result e = ''success'' \<longleftrightarrow> (\<exists>i. v = Passed i))"

lemma Hermes_records:
  assumes "verdict_logged v entry" "ae_RequestID entry = hr_Header r ''X-Request-ID''"
    and "s' = snd (Hermes_RecordAccess enc mac ds uuid now writeErr entry s)"
  shows "\<exists>kept ls. ts_log s' = ts_log s @ ls \<and> (if kept then \<exists>l. ls = [l] \<and> on_record v r l else ls = []) \<and>
    (writeErr \<noteq> None \<longrightarrow> \<not> kept) \<and> (writeErr = None \<and> (\<forall>e. enc e \<noteq> None) \<longrightarrow> kept) \<and>
    (writeErr = None \<and> store_ok enc mac s \<longrightarrow> store_ok enc mac s')"
proof -
  obtain e where e: "s' = snd (TamperEvident_Write enc mac writeErr e s)"
    and f: "ev_Result e = ae_Result entry" "ev_RequestID e = ae_RequestID entry"
    using Record_writes [of enc mac ds uuid now writeErr "audit_event now entry" s]
    by (auto simp: assms(3) Hermes_RecordAccess_def)
  obtain res where w: "TamperEvident_Write enc mac writeErr e s = (res, s')" using e by (metis prod.collapse)
  have "on_record v r l" if "logged_as e l" for l
  proof -
    have "ev_Result l = ev_Result e" "ev_RequestID l = ev_RequestID e" using that by (cases l; cases e; simp add: logged_as_def)+
    then show ?thesis using assms(1,2) f by (cases v) (auto simp: on_record_def verdict_logged_def)
  qed
  moreover have "writeErr = None \<and> store_ok enc mac s \<longrightarrow> store_ok enc mac s'" using write_keeps_ok w by blast
  ultimately show ?thesis using write_outcome [OF w] by (intro exI [of _ "res = None"]) (auto split: if_splits)
qed

text \<open>The requests whose records were kept, each with its verdict.\<close>

definition kept_of :: "bool list \<Rightarrow> 'a list \<Rightarrow> 'a list" where
  "kept_of kept xs = map fst (filter snd (zip xs kept))"

lemma kept_of_simps [simp]:
  "kept_of [] xs = []" "kept_of kept [] = []"
  "kept_of (b # kept) (x # xs) = (if b then x # kept_of kept xs else kept_of kept xs)"
  by (simp_all add: kept_of_def)

lemma kept_of_length: "length kept = length xs \<Longrightarrow> length (kept_of kept xs) = length (filter (\<lambda>b. b) kept)"
  by (induction kept xs rule: list_induct2) simp_all

lemma verified_longer:
  assumes "store_ok enc mac s" "n \<le> length (q # rs)" "\<not> list_ex write_fails (take n (q # rs))"
    and "\<not> write_fails q \<Longrightarrow> \<forall>n \<le> length rs. \<not> list_ex write_fails (take n rs) \<longrightarrow>
       VerifyChain enc mac ((ts_log s @ l) @ take (length (filter (\<lambda>b. b) (take n kept))) ls) = None"
    and "length l = (if b then 1 else 0)"
  shows "VerifyChain enc mac (ts_log s @ take (length (filter (\<lambda>b. b) (take n (b # kept)))) (l @ ls)) = None"
proof (cases n)
  case 0
  then show ?thesis using assms(1) by (simp add: store_ok_def)
next
  case (Suc m)
  then have "m \<le> length rs" "\<not> list_ex write_fails (take m rs)" "\<not> write_fails q" using assms(2,3) by auto
  then show ?thesis using assms(4) assms(5) by (auto simp: Suc split: if_splits)
qed

lemma serve_all_recorded:
  "serve_all enc mac ds gw ex mapper rs s = (vs, s') \<Longrightarrow>
    \<exists>kept ls. vs = map (verdict_of gw ex mapper) rs \<and> length kept = length rs \<and> ts_log s' = ts_log s @ ls \<and>
      list_all2 (\<lambda>(v, r, _) l. on_record v r l) (kept_of kept (zip vs rs)) ls \<and>
      (\<forall>k < length rs. write_fails (rs ! k) \<longrightarrow> \<not> kept ! k) \<and>
      (\<forall>k < length rs. \<not> write_fails (rs ! k) \<and> (\<forall>e. enc e \<noteq> None) \<longrightarrow> kept ! k) \<and>
      (store_ok enc mac s \<longrightarrow> (\<forall>n \<le> length rs. \<not> list_ex write_fails (take n rs) \<longrightarrow>
         VerifyChain enc mac (ts_log s @ take (length (filter (\<lambda>b. b) (take n kept))) ls) = None))"
proof (induction rs arbitrary: s vs)
  case Nil
  then show ?case by (auto simp: store_ok_def)
next
  case (Cons q rs)
  obtain r uuid start now we where q: "q = (r, uuid, start, now, we)" by (metis prod_cases5)
  let ?rec = "Hermes_RecordAccess enc mac ds uuid now we"
  obtain v s1 where w: "Wrap gw ex mapper ?rec start now r s = (v, s1)" by fastforce
  obtain vs' where vs: "serve_all enc mac ds gw ex mapper rs s1 = (vs', s')" "vs = v # vs'"
    using Cons.prems by (auto simp: q w split: prod.splits)
  have v: "v = verdict_of gw ex mapper q" using Wrap_verdict [of gw ex mapper ?rec start now r s] w by (simp add: q verdict_of_def)
  from Wrap_logged [of gw ex mapper ?rec start now r s] w
  obtain entry where "verdict_logged v entry" "ae_RequestID entry = hr_Header r ''X-Request-ID''"
    "s1 = snd (?rec entry s)" by auto
  from Hermes_records [OF this] obtain b l where b: "ts_log s1 = ts_log s @ l" "if b then \<exists>x. l = [x] \<and> on_record v r x else l = []"
    "we \<noteq> None \<longrightarrow> \<not> b" "we = None \<and> (\<forall>e. enc e \<noteq> None) \<longrightarrow> b" "we = None \<and> store_ok enc mac s \<longrightarrow> store_ok enc mac s1" by blast
  from Cons.IH [OF vs(1)] obtain kept ls where IH: "vs' = map (verdict_of gw ex mapper) rs" "length kept = length rs"
    "ts_log s' = ts_log s1 @ ls" "list_all2 (\<lambda>(v, r, _) l. on_record v r l) (kept_of kept (zip vs' rs)) ls"
    "\<forall>k < length rs. write_fails (rs ! k) \<longrightarrow> \<not> kept ! k"
    "\<forall>k < length rs. \<not> write_fails (rs ! k) \<and> (\<forall>e. enc e \<noteq> None) \<longrightarrow> kept ! k"
    "store_ok enc mac s1 \<longrightarrow> (\<forall>n \<le> length rs. \<not> list_ex write_fails (take n rs) \<longrightarrow>
       VerifyChain enc mac (ts_log s1 @ take (length (filter (\<lambda>b. b) (take n kept))) ls) = None)" by blast
  have wf: "write_fails q \<longleftrightarrow> we \<noteq> None" by (simp add: q write_fails_def)
  have len: "length l = (if b then 1 else 0)" using b(2) by (auto split: if_splits)
  have "VerifyChain enc mac (ts_log s @ take (length (filter (\<lambda>b. b) (take n (b # kept)))) (l @ ls)) = None"
    if "store_ok enc mac s" "n \<le> length (q # rs)" "\<not> list_ex write_fails (take n (q # rs))" for n
    by (rule verified_longer [OF that _ len]) (use IH(7) b(1,5) wf that(1) in auto)
  moreover have "list_all2 (\<lambda>(v, r, _) l. on_record v r l) (kept_of (b # kept) (zip vs (q # rs))) (l @ ls)"
    using IH(4) b(2) by (auto simp: vs(2) q split: if_splits)
  ultimately show ?case
    using IH(1,2,3,5,6) b v vs(2) wf
    by (intro exI [of _ "b # kept"] exI [of _ "l @ ls"]) (simp add: nth_Cons split: nat.split)
qed

text \<open>
  C14: After any sequence of requests, refused or passed, on a fresh chained store, whichever of the
  records the encoder or the writer refuses: every request was answered with the verdict it has on its
  own, and the log has exactly the events of the requests whose record was kept, in order, each with
  its request identifier and \<open>success\<close> exactly where the request passed. A record whose write fails is
  not kept; one whose write does not fail is, where the encoder refuses none. The log verifies up to
  the first failed write, so all of it does when no write failed.\<close>

theorem every_request_on_chain:
  assumes "serve_all enc mac ds gw ex mapper rs (NewTamperEvidentStore []) = (vs, s)"
  shows "vs = map (verdict_of gw ex mapper) rs \<and>
    (\<exists>kept. length kept = length rs \<and>
       list_all2 (\<lambda>(v, r, _) l. on_record v r l) (kept_of kept (zip vs rs)) (ts_log s) \<and>
       (\<forall>k < length rs. write_fails (rs ! k) \<longrightarrow> \<not> kept ! k) \<and>
       (\<forall>k < length rs. \<not> write_fails (rs ! k) \<and> (\<forall>e. enc e \<noteq> None) \<longrightarrow> kept ! k) \<and>
       (\<forall>n \<le> length rs. \<not> list_ex write_fails (take n rs) \<longrightarrow>
          VerifyChain enc mac (take (length (filter (\<lambda>b. b) (take n kept))) (ts_log s)) = None) \<and>
       (\<not> list_ex write_fails rs \<longrightarrow> VerifyChain enc mac (ts_log s) = None))"
proof -
  have ok: "store_ok enc mac (NewTamperEvidentStore [])" "ts_log (NewTamperEvidentStore []) = []"
    by (simp_all add: store_ok_def NewTamperEvidentStore_def)
  from serve_all_recorded [OF assms] ok obtain kept where k:
    "vs = map (verdict_of gw ex mapper) rs" "length kept = length rs"
    "list_all2 (\<lambda>(v, r, _) l. on_record v r l) (kept_of kept (zip vs rs)) (ts_log s)"
    "\<forall>k < length rs. write_fails (rs ! k) \<longrightarrow> \<not> kept ! k"
    "\<forall>k < length rs. \<not> write_fails (rs ! k) \<and> (\<forall>e. enc e \<noteq> None) \<longrightarrow> kept ! k"
    "\<forall>n \<le> length rs. \<not> list_ex write_fails (take n rs) \<longrightarrow>
       VerifyChain enc mac (take (length (filter (\<lambda>b. b) (take n kept))) (ts_log s)) = None" by auto
  have "length (kept_of kept (zip vs rs)) = length (filter (\<lambda>b. b) kept)"
    using k(1,2) by (simp add: kept_of_length)
  then have "take (length (filter (\<lambda>b. b) (take (length rs) kept))) (ts_log s) = ts_log s"
    using k(2,3) by (simp add: list_all2_lengthD)
  then have "\<not> list_ex write_fails rs \<longrightarrow> VerifyChain enc mac (ts_log s) = None" using k(6) by (metis order_refl take_all)
  with k show ?thesis by blast
qed

text \<open>Three requests of which the second's record is lost: its verdict stands, the first and the third
  are on the log, and the part before the loss verifies.\<close>

theorem every_request_on_chain_witness:
  "let rs = [(demo_request ''GET'' ''/sandboxes/a'', ''e1'', 1, 2, None), (demo_request ''DELETE'' ''/sandboxes/a'', ''e2'', 3, 4, Some ''disk full''),
             (demo_request ''GET'' ''/sandboxes/b'', ''e3'', 5, 6, None)];
       (vs, s) = serve_all toy_enc toy_mac [] demo_gateway Bearer_Extract MapRequest rs (NewTamperEvidentStore [])
   in vs = map (verdict_of demo_gateway Bearer_Extract MapRequest) rs \<and> map ev_ID (ts_log s) = [''e1'', ''e3''] \<and>
      VerifyChain toy_enc toy_mac (take 1 (ts_log s)) = None \<and> VerifyChain toy_enc toy_mac (ts_log s) \<noteq> None"
proof -
  let ?rs = "[(demo_request ''GET'' ''/sandboxes/a'', ''e1'', 1, 2, None), (demo_request ''DELETE'' ''/sandboxes/a'', ''e2'', 3, 4, Some ''disk full''),
             (demo_request ''GET'' ''/sandboxes/b'', ''e3'', 5, 6, None)]"
  let ?run = "serve_all toy_enc toy_mac [] demo_gateway Bearer_Extract MapRequest ?rs (NewTamperEvidentStore [])"
  have "fst ?run = map (verdict_of demo_gateway Bearer_Extract MapRequest) ?rs"
    using every_request_on_chain [of toy_enc toy_mac "[]" demo_gateway Bearer_Extract MapRequest ?rs "fst ?run" "snd ?run"] by simp
  moreover have "map ev_ID (ts_log (snd ?run)) = [''e1'', ''e3'']" by code_simp
  moreover have "VerifyChain toy_enc toy_mac (take 1 (ts_log (snd ?run))) = None \<and> VerifyChain toy_enc toy_mac (ts_log (snd ?run)) \<noteq> None"
    by code_simp
  ultimately show ?thesis by (simp only: Let_def case_prod_beta simp_thms)
qed

end
