(* ===== verification/Runtimes.thy ===== *)
theory Runtimes
  imports Domain
begin

text \<open>
  Sandbox runtimes (\<open>src/pkg/tartarus\<close>): the configuration a sandbox is launched with
  (\<open>runtime.go\<close>), the in-memory runtime (\<open>mock_runtime.go\<close>) and the unified runtime that
  chooses among three backends and routes every later operation to the one that has the sandbox
  (\<open>unified_runtime.go\<close>). A backend is a value with a record of operations; the locale
  \<open>sandbox_routing\<close> states what routing relies on; its extension \<open>sandbox_runtime\<close> is
  interpreted on the in-memory runtime.

  Delays and followed log streams are not modelled; a cancelled context is an argument.
\<close>

section \<open>Configuration\<close>

record VMConfig =
  vm_Snapshot :: SnapshotRef
  vm_OverlayFS :: string
  vm_TapDevice :: string
  vm_IP :: "32 word option"
  vm_Gateway :: "32 word option"
  vm_CIDR :: "32 word \<times> nat"
  vm_CPUs :: int
  vm_MemoryMB :: int

section \<open>The in-memory runtime\<close>

text \<open>An entry of \<open>mk_waiters\<close> is an open channel: closing a channel also removes it.\<close>

record MockRuntime =
  mk_runs :: "(SandboxID, SandboxRun) gomap"
  mk_configs :: "(SandboxID, VMConfig) gomap"
  mk_requests :: "(SandboxID, SandboxRequest) gomap"
  mk_paused :: "(SandboxID, bool) gomap"
  mk_waiters :: "(SandboxID, unit) gomap"

definition NewMockRuntime :: MockRuntime where
  "NewMockRuntime = \<lparr>mk_runs = [], mk_configs = [], mk_requests = [], mk_paused = [], mk_waiters = []\<rparr>"

definition sandbox_not_found :: string where
  "sandbox_not_found = ''sandbox not found''"

definition mock_run :: "go_time \<Rightarrow> SandboxRequest \<Rightarrow> SandboxRun" where
  "mock_run now req = zero_SandboxRun\<lparr>run_ID := req_ID req, run_RequestID := req_ID req,
     run_NodeID := ''mock-node'', run_Template := req_Template req, run_Status := RunStatusRunning,
     run_StartedAt := now, run_CreatedAt := now, run_UpdatedAt := now\<rparr>"

definition Mock_Launch ::
    "string option \<Rightarrow> go_time \<Rightarrow> SandboxRequest \<Rightarrow> VMConfig \<Rightarrow> MockRuntime \<Rightarrow> (string + SandboxRun) \<times> MockRuntime" where
  "Mock_Launch ctxErr now req cfg r =
     (case ctxErr of
        Some err \<Rightarrow> (Inl err, r)
      | None \<Rightarrow>
          let run = mock_run now req
          in (Inr run, r\<lparr>mk_runs := put (mk_runs r) (run_ID run) run,
                         mk_configs := put (mk_configs r) (run_ID run) cfg,
                         mk_requests := put (mk_requests r) (run_ID run) req,
                         mk_waiters := put (mk_waiters r) (run_ID run) ()\<rparr>))"

definition Mock_Inspect :: "SandboxID \<Rightarrow> MockRuntime \<Rightarrow> (string + SandboxRun) \<times> MockRuntime" where
  "Mock_Inspect i r =
     (case get (mk_runs r) i of
        None \<Rightarrow> (Inl sandbox_not_found, r)
      | Some run0 \<Rightarrow>
          let run = (case get (mk_configs r) i of
                       Some cfg \<Rightarrow> run0\<lparr>run_MemoryUsage := go_div (vm_MemoryMB cfg) 2\<rparr>
                     | None \<Rightarrow> run0)
          in (Inr run, r\<lparr>mk_runs := put (mk_runs r) i run\<rparr>))"

definition Mock_List :: "MockRuntime \<Rightarrow> SandboxRun list" where
  "Mock_List r = map snd (mk_runs r)"

definition closeWaiter :: "SandboxID \<Rightarrow> MockRuntime \<Rightarrow> MockRuntime" where
  "closeWaiter i r = r\<lparr>mk_waiters := del (mk_waiters r) i\<rparr>"

definition Mock_Kill :: "SandboxID \<Rightarrow> MockRuntime \<Rightarrow> string option \<times> MockRuntime" where
  "Mock_Kill i r =
     (None, (closeWaiter i (r\<lparr>mk_runs := del (mk_runs r) i, mk_configs := del (mk_configs r) i,
              mk_requests := del (mk_requests r) i\<rparr>))\<lparr>mk_paused := del (mk_paused r) i\<rparr>)"

definition Mock_Allocation :: "MockRuntime \<Rightarrow> ResourceCapacity" where
  "Mock_Allocation r =
     \<lparr>cap_CPU = foldl (\<lambda>cpu cfg. cpu + vm_CPUs cfg * 1000) 0 (map snd (mk_configs r)),
      cap_Mem = foldl (\<lambda>mem cfg. mem + vm_MemoryMB cfg) 0 (map snd (mk_configs r)), cap_GPU = 0\<rparr>"

text \<open>Waiting fails for an unknown sandbox and otherwise blocks until the channel is closed.\<close>

datatype wait_result = WaitFailed string | WaitBlocks

definition Mock_Wait :: "SandboxID \<Rightarrow> MockRuntime \<Rightarrow> wait_result" where
  "Mock_Wait i r = (if get (mk_waiters r) i = None then WaitFailed sandbox_not_found else WaitBlocks)"

definition Mock_Exec :: "string option \<Rightarrow> SandboxID \<Rightarrow> MockRuntime \<Rightarrow> string option" where
  "Mock_Exec ctxErr i r = (if get (mk_runs r) i = None then Some sandbox_not_found else ctxErr)"

definition Mock_ExecInteractive :: "SandboxID \<Rightarrow> MockRuntime \<Rightarrow> string option" where
  "Mock_ExecInteractive i r = (if get (mk_runs r) i = None then Some sandbox_not_found else None)"

definition Mock_Pause :: "SandboxID \<Rightarrow> MockRuntime \<Rightarrow> string option \<times> MockRuntime" where
  "Mock_Pause i r =
     (if get (mk_runs r) i = None then (Some sandbox_not_found, r)
      else (None, r\<lparr>mk_paused := put (mk_paused r) i True\<rparr>))"

definition Mock_Resume :: "SandboxID \<Rightarrow> MockRuntime \<Rightarrow> string option \<times> MockRuntime" where
  "Mock_Resume i r =
     (if get (mk_runs r) i = None then (Some sandbox_not_found, r)
      else (None, r\<lparr>mk_paused := del (mk_paused r) i\<rparr>))"

text \<open>A shutdown answers at once; its completion is a later step.\<close>

definition Mock_Shutdown :: "SandboxID \<Rightarrow> MockRuntime \<Rightarrow> string option" where
  "Mock_Shutdown i r = (if get (mk_waiters r) i = None then Some sandbox_not_found else None)"

definition Mock_Shutdown_done :: "go_time \<Rightarrow> SandboxID \<Rightarrow> MockRuntime \<Rightarrow> MockRuntime" where
  "Mock_Shutdown_done now i r =
     closeWaiter i (case get (mk_runs r) i of
        None \<Rightarrow> r
      | Some run \<Rightarrow> r\<lparr>mk_runs := put (mk_runs r) i
          (run\<lparr>run_ExitCode := Some 0, run_Status := RunStatusSucceeded, run_UpdatedAt := now\<rparr>)\<rparr>)"

text \<open>A snapshot's memory and disk contents, with the formatted time; the logs of one call.\<close>

definition Mock_CreateSnapshot :: "string \<Rightarrow> SandboxID \<Rightarrow> MockRuntime \<Rightarrow> string + string \<times> string" where
  "Mock_CreateSnapshot stamp i r =
     (if get (mk_runs r) i = None then Inl sandbox_not_found
      else let content = ''snapshot of '' @ i @ '' at '' @ stamp in Inr (content, content @ ''-disk''))"

definition Mock_StreamLogs :: "SandboxID \<Rightarrow> string" where
  "Mock_StreamLogs i = ''mock logs for '' @ i @ [CHR 0x0A]"

definition Mock_GetConfig :: "SandboxID \<Rightarrow> MockRuntime \<Rightarrow> string + VMConfig \<times> SandboxRequest" where
  "Mock_GetConfig i r =
     (case (get (mk_configs r) i, get (mk_requests r) i) of
        (Some cfg, Some req) \<Rightarrow> Inr (cfg, req)
      | _ \<Rightarrow> Inl sandbox_not_found)"

section \<open>Backends and the unified runtime\<close>

record 'r SandboxRuntime =
  rt_Launch :: "SandboxRequest \<Rightarrow> VMConfig \<Rightarrow> 'r \<Rightarrow> (string + SandboxRun) \<times> 'r"
  rt_Inspect :: "SandboxID \<Rightarrow> 'r \<Rightarrow> (string + SandboxRun) \<times> 'r"
  rt_List :: "'r \<Rightarrow> string + SandboxRun list"
  rt_Kill :: "SandboxID \<Rightarrow> 'r \<Rightarrow> string option \<times> 'r"
  rt_Pause :: "SandboxID \<Rightarrow> 'r \<Rightarrow> string option \<times> 'r"
  rt_Resume :: "SandboxID \<Rightarrow> 'r \<Rightarrow> string option \<times> 'r"
  rt_Shutdown :: "SandboxID \<Rightarrow> 'r \<Rightarrow> string option \<times> 'r"
  rt_GetConfig :: "SandboxID \<Rightarrow> 'r \<Rightarrow> string + VMConfig \<times> SandboxRequest"
  rt_Allocation :: "'r \<Rightarrow> string + ResourceCapacity"

datatype IsolationType = IsolationMicroVM | IsolationWASM | IsolationGVisor | IsolationAuto | IsolationOther string

definition isolation_of :: "string \<Rightarrow> IsolationType" where
  "isolation_of s =
     (if s = ''microvm'' then IsolationMicroVM
      else if s = ''wasm'' then IsolationWASM
      else if s = ''gvisor'' then IsolationGVisor
      else if s = ''auto'' then IsolationAuto
      else IsolationOther s)"

record 'r UnifiedRuntime =
  un_microVM :: "'r option"
  un_wasm :: "'r option"
  un_gvisor :: "'r option"
  un_defaultRuntime :: IsolationType
  un_autoSelect :: bool

text \<open>The three places a backend can be in, and the backend there.\<close>

datatype backend = MicroVM | Wasm | GVisor

definition backend_name :: "backend \<Rightarrow> string" where
  "backend_name b = (case b of MicroVM \<Rightarrow> ''microvm'' | Wasm \<Rightarrow> ''wasm'' | GVisor \<Rightarrow> ''gvisor'')"

definition at :: "'r UnifiedRuntime \<Rightarrow> backend \<Rightarrow> 'r option" where
  "at u b = (case b of MicroVM \<Rightarrow> un_microVM u | Wasm \<Rightarrow> un_wasm u | GVisor \<Rightarrow> un_gvisor u)"

definition put_at :: "backend \<Rightarrow> 'r \<Rightarrow> 'r UnifiedRuntime \<Rightarrow> 'r UnifiedRuntime" where
  "put_at b r u = (case b of MicroVM \<Rightarrow> u\<lparr>un_microVM := Some r\<rparr> | Wasm \<Rightarrow> u\<lparr>un_wasm := Some r\<rparr>
     | GVisor \<Rightarrow> u\<lparr>un_gvisor := Some r\<rparr>)"

definition isLightweight :: "SandboxRequest \<Rightarrow> bool" where
  "isLightweight req =
     (let res = req_Resources req
      in if res_CPU res > 500 then False
         else if res_Mem res > 256 then False
         else if gpu_Count (res_GPU res) > 0 then False
         else if res_TTL res > 0 \<and> res_TTL res < 5 * 60 * 1000000000 then True
         else if res_CPU res \<le> 250 \<and> res_Mem res \<le> 128 then True
         else False)"

definition requiresPrivileged :: "SandboxRequest \<Rightarrow> bool" where
  "requiresPrivileged req =
     (let res = req_Resources req
      in if gpu_Count (res_GPU res) > 0 then True
         else if res_CPU res > 2000 \<or> res_Mem res > 4096 then True
         else if get (req_Metadata req) ''kernel_modules'' \<noteq> None then True
         else if get (req_Metadata req) ''devices'' \<noteq> None then True
         else False)"

definition SelectRuntime :: "SandboxRequest \<Rightarrow> IsolationType" where
  "SelectRuntime req =
     (let hint = get (req_Metadata req) ''preferred_runtime''
      in if hint = Some ''wasm'' then IsolationWASM
         else if hint = Some ''microvm'' then IsolationMicroVM
         else if hint = Some ''gvisor'' then IsolationGVisor
         else if isLightweight req then IsolationWASM
         else if requiresPrivileged req then IsolationMicroVM
         else IsolationMicroVM)"

definition getRuntimeByType :: "'r UnifiedRuntime \<Rightarrow> IsolationType \<Rightarrow> string + backend" where
  "getRuntimeByType u isoType =
     (case isoType of
        IsolationMicroVM \<Rightarrow> if un_microVM u = None then Inl ''microVM runtime not available'' else Inr MicroVM
      | IsolationWASM \<Rightarrow> if un_wasm u = None then Inl ''WASM runtime not available'' else Inr Wasm
      | IsolationGVisor \<Rightarrow> if un_gvisor u = None then Inl ''gVisor runtime not available'' else Inr GVisor
      | IsolationAuto \<Rightarrow> if un_microVM u \<noteq> None then Inr MicroVM else Inl ''no runtime available''
      | IsolationOther s \<Rightarrow> Inl (''unknown isolation type: '' @ s))"

definition selectRuntime :: "'r UnifiedRuntime \<Rightarrow> SandboxRequest \<Rightarrow> string + backend" where
  "selectRuntime u req =
     (case get (req_Metadata req) ''isolation_type'' of
        Some t \<Rightarrow> getRuntimeByType u (isolation_of t)
      | None \<Rightarrow> if \<not> un_autoSelect u then getRuntimeByType u (un_defaultRuntime u)
                else getRuntimeByType u (SelectRuntime req))"

definition with_runtime_type :: "backend \<Rightarrow> SandboxRun \<Rightarrow> SandboxRun" where
  "with_runtime_type b run = run\<lparr>run_Metadata := put (run_Metadata run) ''runtime_type'' (backend_name b)\<rparr>"

definition Unified_Launch ::
    "'r SandboxRuntime \<Rightarrow> SandboxRequest \<Rightarrow> VMConfig \<Rightarrow> 'r UnifiedRuntime \<Rightarrow> (string + SandboxRun) \<times> 'r UnifiedRuntime" where
  "Unified_Launch rt req cfg u =
     (case selectRuntime u req of
        Inl err \<Rightarrow> (Inl (''runtime selection failed: '' @ err), u)
      | Inr b \<Rightarrow>
          (case at u b of
             None \<Rightarrow> (Inl ''no runtime available'', u)
           | Some r \<Rightarrow>
               (case rt_Launch rt req cfg r of
                  (Inl err, r') \<Rightarrow> (Inl err, put_at b r' u)
                | (Inr run, r') \<Rightarrow> (Inr (with_runtime_type b run), put_at b r' u))))"

fun inspect_loop ::
    "'r SandboxRuntime \<Rightarrow> SandboxID \<Rightarrow> backend list \<Rightarrow> 'r UnifiedRuntime \<Rightarrow> (string + backend \<times> SandboxRun) \<times> 'r UnifiedRuntime" where
  "inspect_loop rt i [] u = (Inl (''sandbox not found: '' @ i), u)"
| "inspect_loop rt i (b # bs) u =
     (case at u b of
        None \<Rightarrow> inspect_loop rt i bs u
      | Some r \<Rightarrow>
          (case rt_Inspect rt i r of
             (Inr run, r') \<Rightarrow> (Inr (b, with_runtime_type b run), put_at b r' u)
           | (Inl _, r') \<Rightarrow> inspect_loop rt i bs (put_at b r' u)))"

definition Unified_Inspect ::
    "'r SandboxRuntime \<Rightarrow> SandboxID \<Rightarrow> 'r UnifiedRuntime \<Rightarrow> (string + SandboxRun) \<times> 'r UnifiedRuntime" where
  "Unified_Inspect rt i u =
     (case inspect_loop rt i [MicroVM, Wasm, GVisor] u of
        (Inl err, u') \<Rightarrow> (Inl err, u')
      | (Inr (b, run), u') \<Rightarrow> (Inr run, u'))"

fun list_loop_unified :: "'r SandboxRuntime \<Rightarrow> 'r UnifiedRuntime \<Rightarrow> backend list \<Rightarrow> SandboxRun list" where
  "list_loop_unified rt u [] = []"
| "list_loop_unified rt u (b # bs) =
     (case at u b of
        None \<Rightarrow> list_loop_unified rt u bs
      | Some r \<Rightarrow>
          (case rt_List rt r of
             Inl _ \<Rightarrow> list_loop_unified rt u bs
           | Inr runs \<Rightarrow> map (with_runtime_type b) runs @ list_loop_unified rt u bs))"

definition Unified_List :: "'r SandboxRuntime \<Rightarrow> 'r UnifiedRuntime \<Rightarrow> SandboxRun list" where
  "Unified_List rt u = list_loop_unified rt u [MicroVM, Wasm, GVisor]"

text \<open>
  The backend that owns a sandbox: the type the inspection wrote into the metadata, read back
  (its fallback, inspecting all backends again, is for a type that names no backend).
\<close>

definition delegateToRuntime ::
    "'r SandboxRuntime \<Rightarrow> SandboxID \<Rightarrow> 'r UnifiedRuntime \<Rightarrow> (string + backend) \<times> 'r UnifiedRuntime" where
  "delegateToRuntime rt i u =
     (case Unified_Inspect rt i u of
        (Inl err, u1) \<Rightarrow> (Inl err, u1)
      | (Inr run, u1) \<Rightarrow>
          (case get (run_Metadata run) ''runtime_type'' of
             Some t \<Rightarrow>
               (case getRuntimeByType u1 (isolation_of t) of
                  Inr b \<Rightarrow> (Inr b, u1)
                | Inl _ \<Rightarrow>
                    (case inspect_loop rt i [MicroVM, Wasm, GVisor] u1 of
                       (Inr (b, _), u2) \<Rightarrow> (Inr b, u2)
                     | (Inl _, u2) \<Rightarrow> (Inl (''sandbox not found in any runtime: '' @ i), u2)))
           | None \<Rightarrow>
               (case inspect_loop rt i [MicroVM, Wasm, GVisor] u1 of
                  (Inr (b, _), u2) \<Rightarrow> (Inr b, u2)
                | (Inl _, u2) \<Rightarrow> (Inl (''sandbox not found in any runtime: '' @ i), u2))))"

definition delegate ::
    "(SandboxID \<Rightarrow> 'r \<Rightarrow> string option \<times> 'r) \<Rightarrow> 'r SandboxRuntime \<Rightarrow> SandboxID \<Rightarrow> 'r UnifiedRuntime
     \<Rightarrow> string option \<times> 'r UnifiedRuntime" where
  "delegate operation rt i u =
     (case delegateToRuntime rt i u of
        (Inl err, u1) \<Rightarrow> (Some err, u1)
      | (Inr b, u1) \<Rightarrow>
          (case at u1 b of
             None \<Rightarrow> (None, u1)
           | Some r \<Rightarrow> (case operation i r of (err, r') \<Rightarrow> (err, put_at b r' u1))))"

definition Unified_Kill :: "'r SandboxRuntime \<Rightarrow> SandboxID \<Rightarrow> 'r UnifiedRuntime \<Rightarrow> string option \<times> 'r UnifiedRuntime" where
  "Unified_Kill rt = delegate (rt_Kill rt) rt"

definition Unified_Pause :: "'r SandboxRuntime \<Rightarrow> SandboxID \<Rightarrow> 'r UnifiedRuntime \<Rightarrow> string option \<times> 'r UnifiedRuntime" where
  "Unified_Pause rt = delegate (rt_Pause rt) rt"

definition Unified_Resume :: "'r SandboxRuntime \<Rightarrow> SandboxID \<Rightarrow> 'r UnifiedRuntime \<Rightarrow> string option \<times> 'r UnifiedRuntime" where
  "Unified_Resume rt = delegate (rt_Resume rt) rt"

definition Unified_Shutdown :: "'r SandboxRuntime \<Rightarrow> SandboxID \<Rightarrow> 'r UnifiedRuntime \<Rightarrow> string option \<times> 'r UnifiedRuntime" where
  "Unified_Shutdown rt = delegate (rt_Shutdown rt) rt"

definition Unified_GetConfig ::
    "'r SandboxRuntime \<Rightarrow> SandboxID \<Rightarrow> 'r UnifiedRuntime \<Rightarrow> (string + VMConfig \<times> SandboxRequest) \<times> 'r UnifiedRuntime" where
  "Unified_GetConfig rt i u =
     (case delegateToRuntime rt i u of
        (Inl err, u1) \<Rightarrow> (Inl err, u1)
      | (Inr b, u1) \<Rightarrow> (case at u1 b of None \<Rightarrow> (Inl [], u1) | Some r \<Rightarrow> (rt_GetConfig rt i r, u1)))"

definition add_capacity :: "ResourceCapacity \<Rightarrow> ResourceCapacity \<Rightarrow> ResourceCapacity" where
  "add_capacity a b = \<lparr>cap_CPU = cap_CPU a + cap_CPU b, cap_Mem = cap_Mem a + cap_Mem b, cap_GPU = cap_GPU a + cap_GPU b\<rparr>"

definition Unified_Allocation :: "'r SandboxRuntime \<Rightarrow> 'r UnifiedRuntime \<Rightarrow> ResourceCapacity" where
  "Unified_Allocation rt u =
     foldl (\<lambda>total b. case at u b of None \<Rightarrow> total
               | Some r \<Rightarrow> (case rt_Allocation rt r of Inl _ \<Rightarrow> total | Inr alloc \<Rightarrow> add_capacity total alloc))
       zero_ResourceCapacity [MicroVM, Wasm, GVisor]"

section \<open>Routing\<close>

text \<open>
  What routing relies on: inspection tells the sandboxes a backend has from those it has not, a
  successful launch adds one and a kill removes one. A backend that is also exact about a launch
  that fails is a \<open>sandbox_runtime\<close>.
\<close>

locale sandbox_routing =
  fixes rt :: "'r SandboxRuntime" and has :: "'r \<Rightarrow> SandboxID \<Rightarrow> bool"
  assumes inspect_known: "has r i \<Longrightarrow> \<exists>run r'. rt_Inspect rt i r = (Inr run, r')"
    and inspect_unknown: "\<not> has r i \<Longrightarrow> \<exists>err r'. rt_Inspect rt i r = (Inl err, r')"
    and inspect_keeps: "has (snd (rt_Inspect rt i r)) = has r"
    and launch_ok: "rt_Launch rt req cfg r = (Inr run, r') \<Longrightarrow> has r' j \<longleftrightarrow> has r j \<or> j = req_ID req"
    and kill_known: "has r i \<Longrightarrow> fst (rt_Kill rt i r) = None"
    and kill_removes: "has (snd (rt_Kill rt i r)) j \<longleftrightarrow> has r j \<and> (j = i \<longrightarrow> fst (rt_Kill rt i r) \<noteq> None)"
begin

definition knows :: "'r UnifiedRuntime \<Rightarrow> backend \<Rightarrow> SandboxID \<Rightarrow> bool" where
  "knows u b i \<longleftrightarrow> (\<exists>r. at u b = Some r \<and> has r i)"

lemma at_put_at [simp]: "at (put_at b r u) b' = (if b' = b then Some r else at u b')"
  by (cases b; cases b') (simp_all add: at_def put_at_def)

lemma knows_put_at: "knows (put_at b r u) b' i \<longleftrightarrow> (if b' = b then has r i else knows u b' i)"
  by (simp add: knows_def)

lemma put_at_same: "at u b = Some r \<Longrightarrow> has r' = has r \<Longrightarrow> knows (put_at b r' u) = knows u"
  by (auto simp: knows_put_at knows_def fun_eq_iff)

text \<open>Inspection finds the first backend that knows the sandbox and changes what none knows.\<close>

lemma inspect_loop_finds:
  assumes "inspect_loop rt i bs u = (res, u')"
  shows "knows u' = knows u \<and> (\<forall>b. (at u' b = None) = (at u b = None)) \<and>
    (case res of
       Inl _ \<Rightarrow> \<forall>b\<in>set bs. \<not> knows u b i
     | Inr (b, run) \<Rightarrow> b \<in> set bs \<and> knows u b i \<and> get (run_Metadata run) ''runtime_type'' = Some (backend_name b) \<and>
                      (\<forall>c \<in> set (takeWhile (\<lambda>c. c \<noteq> b) bs). \<not> knows u c i))"
  using assms
proof (induction bs arbitrary: u)
  case Nil
  then show ?case by auto
next
  case (Cons b bs)
  show ?case
  proof (cases "at u b")
    case None
    then have "\<not> knows u b i" by (simp add: knows_def)
    moreover have "inspect_loop rt i bs u = (res, u')" using Cons.prems None by simp
    ultimately show ?thesis using Cons.IH [of u] by (auto split: sum.splits)
  next
    case (Some r)
    obtain out r' where insp: "rt_Inspect rt i r = (out, r')" by (cases "rt_Inspect rt i r")
    have same: "knows (put_at b r' u) = knows u"
      using put_at_same [OF Some] inspect_keeps [of i r] insp by simp
    have present: "(at (put_at b r' u) c = None) = (at u c = None)" for c using Some by simp
    show ?thesis
    proof (cases out)
      case (Inl err)
      then have "\<not> has r i" using inspect_known [of r i] insp by auto
      then have no: "\<not> knows u b i" using Some by (simp add: knows_def)
      have "inspect_loop rt i bs (put_at b r' u) = (res, u')" using Cons.prems Some insp Inl by simp
      from Cons.IH [OF this] no same present show ?thesis by (auto split: sum.splits)
    next
      case (Inr run)
      then have "has r i" using inspect_unknown [of r i] insp by auto
      then have "knows u b i" using Some by (simp add: knows_def)
      then show ?thesis using Cons.prems Some insp Inr same present by (auto simp: with_runtime_type_def)
    qed
  qed
qed

lemma isolation_of_backend: "getRuntimeByType u (isolation_of (backend_name b)) = (if at u b = None then Inl [] else Inr b)
    \<or> at u b = None"
  by (cases b) (auto simp: getRuntimeByType_def isolation_of_def backend_name_def at_def)

lemma delegate_finds:
  assumes "knows u b i" "\<And>c. knows u c i \<Longrightarrow> c = b"
  obtains u' where "delegateToRuntime rt i u = (Inr b, u')" "knows u' = knows u" "at u' b \<noteq> None"
proof -
  obtain res u' where loop: "inspect_loop rt i [MicroVM, Wasm, GVisor] u = (res, u')"
    by (cases "inspect_loop rt i [MicroVM, Wasm, GVisor] u")
  note facts = inspect_loop_finds [OF loop]
  show thesis
  proof (cases res)
    case (Inl err)
    then have "\<not> knows u b i" using facts by (cases b) auto
    then show ?thesis using assms(1) by simp
  next
    case (Inr p)
    obtain c run where p: "p = (c, run)" by (cases p)
    have c: "c = b" using facts Inr p assms(2) by auto
    have at_b: "at u' b \<noteq> None" using facts assms(1) by (auto simp: knows_def)
    have meta: "get (run_Metadata run) ''runtime_type'' = Some (backend_name b)" using facts Inr p c by simp
    have "getRuntimeByType u' (isolation_of (backend_name b)) = Inr b" using isolation_of_backend [of u' b] at_b by simp
    then have "delegateToRuntime rt i u = (Inr b, u')"
      using loop Inr p c meta by (simp add: delegateToRuntime_def Unified_Inspect_def)
    then show ?thesis using that facts at_b by blast
  qed
qed

lemma kill_routed:
  assumes "knows u b i" "\<And>c. knows u c i \<Longrightarrow> c = b"
  shows "\<exists>u'. Unified_Kill rt i u = (None, u') \<and> (\<forall>c j. knows u' c j \<longleftrightarrow> knows u c j \<and> j \<noteq> i)"
proof -
  obtain u1 where del: "delegateToRuntime rt i u = (Inr b, u1)" and same: "knows u1 = knows u" and "at u1 b \<noteq> None"
    using delegate_finds [OF assms] by blast
  then obtain r where r: "at u1 b = Some r" by blast
  have hb: "has r j \<longleftrightarrow> knows u b j" for j unfolding same [symmetric] by (simp add: knows_def r)
  have "has r i" using assms(1) hb by simp
  obtain err r' where kill: "rt_Kill rt i r = (err, r')" by (cases "rt_Kill rt i r")
  have err: "err = None" using kill_known [OF \<open>has r i\<close>] kill by simp
  have "knows (put_at b r' u1) c j \<longleftrightarrow> knows u c j \<and> j \<noteq> i" for c j
    using kill_removes [of i r j] kill err hb [of j] same assms(2) [of c] by (cases "c = b") (auto simp: knows_put_at)
  then show ?thesis using del r kill err by (auto simp: Unified_Kill_def delegate_def)
qed

lemma launch_routed:
  assumes "Unified_Launch rt req cfg u = (Inr run, u')"
  shows "\<exists>b. selectRuntime u req = Inr b \<and> get (run_Metadata run) ''runtime_type'' = Some (backend_name b) \<and>
    (\<forall>c j. knows u' c j \<longleftrightarrow> knows u c j \<or> (c = b \<and> j = req_ID req))"
proof -
  obtain b r where b: "selectRuntime u req = Inr b" "at u b = Some r"
    using assms by (auto simp: Unified_Launch_def split: sum.splits option.splits)
  obtain out r' where launch: "rt_Launch rt req cfg r = (out, r')" by (cases "rt_Launch rt req cfg r")
  obtain run0 where run0: "out = Inr run0" "run = with_runtime_type b run0" "u' = put_at b r' u"
    using assms b launch by (auto simp: Unified_Launch_def split: sum.splits)
  have "knows u' c j \<longleftrightarrow> knows u c j \<or> (c = b \<and> j = req_ID req)" for c j
    using launch_ok [of req cfg r run0 r' j] launch run0 b by (auto simp: knows_put_at knows_def)
  then show ?thesis using b run0 by (auto simp: with_runtime_type_def)
qed

end

locale sandbox_runtime = sandbox_routing +
  assumes launch_err: "rt_Launch rt req cfg r = (Inl err, r') \<Longrightarrow> has r' = has r"

definition mock_ops :: "string option \<Rightarrow> go_time \<Rightarrow> MockRuntime SandboxRuntime" where
  "mock_ops ctxErr now =
     \<lparr>rt_Launch = Mock_Launch ctxErr now, rt_Inspect = Mock_Inspect, rt_List = \<lambda>r. Inr (Mock_List r),
      rt_Kill = Mock_Kill, rt_Pause = Mock_Pause, rt_Resume = Mock_Resume,
      rt_Shutdown = (\<lambda>i r. (Mock_Shutdown i r, r)), rt_GetConfig = Mock_GetConfig,
      rt_Allocation = \<lambda>r. Inr (Mock_Allocation r)\<rparr>"

definition mock_has :: "MockRuntime \<Rightarrow> SandboxID \<Rightarrow> bool" where
  "mock_has r i \<longleftrightarrow> get (mk_runs r) i \<noteq> None"

interpretation mock: sandbox_runtime "mock_ops ctxErr now" mock_has for ctxErr now
proof
  fix r r' :: MockRuntime and i j :: SandboxID and req cfg run err
  show "mock_has r i \<Longrightarrow> \<exists>run r'. rt_Inspect (mock_ops ctxErr now) i r = (Inr run, r')"
    by (auto simp: mock_ops_def Mock_Inspect_def mock_has_def Let_def)
  show "\<not> mock_has r i \<Longrightarrow> \<exists>err r'. rt_Inspect (mock_ops ctxErr now) i r = (Inl err, r')"
    by (auto simp: mock_ops_def Mock_Inspect_def mock_has_def)
  show "mock_has (snd (rt_Inspect (mock_ops ctxErr now) i r)) = mock_has r"
    by (auto simp: mock_ops_def Mock_Inspect_def mock_has_def fun_eq_iff Let_def split: option.splits)
  show "rt_Launch (mock_ops ctxErr now) req cfg r = (Inr run, r') \<Longrightarrow> mock_has r' j = (mock_has r j \<or> j = req_ID req)"
    by (auto simp: mock_ops_def Mock_Launch_def mock_has_def Let_def mock_run_def split: option.splits if_splits)
  show "rt_Launch (mock_ops ctxErr now) req cfg r = (Inl err, r') \<Longrightarrow> mock_has r' = mock_has r"
    by (auto simp: mock_ops_def Mock_Launch_def Let_def split: option.splits)
  show "mock_has r i \<Longrightarrow> fst (rt_Kill (mock_ops ctxErr now) i r) = None"
    by (simp add: mock_ops_def Mock_Kill_def)
  show "mock_has (snd (rt_Kill (mock_ops ctxErr now) i r)) j =
      (mock_has r j \<and> (j = i \<longrightarrow> fst (rt_Kill (mock_ops ctxErr now) i r) \<noteq> None))"
    by (auto simp: mock_ops_def Mock_Kill_def mock_has_def closeWaiter_def)
qed

definition has_sandbox :: "MockRuntime UnifiedRuntime \<Rightarrow> backend \<Rightarrow> SandboxID \<Rightarrow> bool" where
  "has_sandbox u b i \<longleftrightarrow> (\<exists>r. at u b = Some r \<and> mock_has r i)"

text \<open>
  The unified runtime routes to the right backend. A launch puts the sandbox on the backend
  the selection names and on no other, and records that backend in the run; if the sandbox was
  unknown before, killing it afterwards reaches the same backend, succeeds, and leaves every
  backend with exactly the sandboxes it had before the launch.
\<close>

theorem unified_routes:
  assumes "Unified_Launch (mock_ops ctxErr now) req cfg u = (Inr run, u1)"
    and "\<And>b. \<not> has_sandbox u b (req_ID req)"
  shows "\<exists>b u2. selectRuntime u req = Inr b \<and> get (run_Metadata run) ''runtime_type'' = Some (backend_name b) \<and>
    (\<forall>c j. has_sandbox u1 c j \<longleftrightarrow> has_sandbox u c j \<or> (c = b \<and> j = req_ID req)) \<and>
    Unified_Kill (mock_ops ctxErr now) (req_ID req) u1 = (None, u2) \<and>
    (\<forall>c j. has_sandbox u2 c j \<longleftrightarrow> has_sandbox u c j)"
proof -
  have knows: "mock.knows u b i \<longleftrightarrow> has_sandbox u b i" for u b i by (simp add: mock.knows_def has_sandbox_def)
  obtain b where b: "selectRuntime u req = Inr b" "get (run_Metadata run) ''runtime_type'' = Some (backend_name b)"
      "\<forall>c j. has_sandbox u1 c j \<longleftrightarrow> has_sandbox u c j \<or> (c = b \<and> j = req_ID req)"
    using mock.launch_routed [OF assms(1)] unfolding knows by blast
  have "mock.knows u1 b (req_ID req)" "\<And>c. mock.knows u1 c (req_ID req) \<Longrightarrow> c = b"
    unfolding knows using b(3) assms(2) by auto
  from mock.kill_routed [OF this, of ctxErr now] obtain u2 where
    "Unified_Kill (mock_ops ctxErr now) (req_ID req) u1 = (None, u2)"
    "\<forall>c j. has_sandbox u2 c j \<longleftrightarrow> has_sandbox u1 c j \<and> j \<noteq> req_ID req" unfolding knows by blast
  with b assms(2) show ?thesis by blast
qed

definition demo_unified :: "MockRuntime UnifiedRuntime" where
  "demo_unified = \<lparr>un_microVM = Some NewMockRuntime, un_wasm = Some NewMockRuntime, un_gvisor = None,
     un_defaultRuntime = IsolationMicroVM, un_autoSelect = True\<rparr>"

definition demo_config :: VMConfig where
  "demo_config = \<lparr>vm_Snapshot = \<lparr>snap_ID = ''s'', snap_Template = ''py'', snap_CreatedAt = 0, snap_Path = ''/s''\<rparr>,
     vm_OverlayFS = ''/o'', vm_TapDevice = [], vm_IP = None, vm_Gateway = None, vm_CIDR = (0, 24), vm_CPUs = 1, vm_MemoryMB = 64\<rparr>"

theorem unified_routes_witness:
  "\<exists>u2. Unified_Kill (mock_ops None 5) ''x'' (snd (Unified_Launch (mock_ops None 5)
       (zero_SandboxRequest\<lparr>req_ID := ''x''\<rparr>) demo_config demo_unified)) = (None, u2)"
proof -
  let ?req = "zero_SandboxRequest\<lparr>req_ID := ''x''\<rparr>"
  have empty: "\<not> has_sandbox demo_unified b i" for b i
    by (cases b) (simp_all add: has_sandbox_def at_def demo_unified_def NewMockRuntime_def mock_has_def)
  have "\<exists>run u1. Unified_Launch (mock_ops None 5) ?req demo_config demo_unified = (Inr run, u1)"
    by (simp add: Unified_Launch_def selectRuntime_def SelectRuntime_def isLightweight_def getRuntimeByType_def Let_def
        demo_unified_def at_def mock_ops_def Mock_Launch_def zero_SandboxRequest_def zero_ResourceSpec_def)
  then obtain run u1 where "Unified_Launch (mock_ops None 5) ?req demo_config demo_unified = (Inr run, u1)" by blast
  with unified_routes [OF this] empty show ?thesis by auto
qed

text \<open>
  A small workload that needs devices or kernel modules is nevertheless sent to the WASM backend,
  because the test for light workloads comes first.
\<close>

lemma light_privileged_goes_to_wasm:
  assumes "get (req_Metadata req) ''preferred_runtime'' = None" "isLightweight req" "requiresPrivileged req"
  shows "SelectRuntime req = IsolationWASM"
  using assms by (simp add: SelectRuntime_def)

lemma light_privileged_exists:
  "isLightweight (zero_SandboxRequest\<lparr>req_Metadata := [(''devices'', ''/dev/kvm'')]\<rparr>) \<and>
   requiresPrivileged (zero_SandboxRequest\<lparr>req_Metadata := [(''devices'', ''/dev/kvm'')]\<rparr>)"
  by (simp add: isLightweight_def requiresPrivileged_def zero_SandboxRequest_def zero_ResourceSpec_def Let_def)

end
