(* ===== verification/Lethe.thy ===== *)
theory Lethe
  imports Domain
begin

text \<open>
  The overlay pool (\<open>src/pkg/lethe/file_overlay.go\<close>): every sandbox writes to a private copy of
  its snapshot's disk. The file system is a map from paths to contents; which system call fails
  is an argument (\<open>fs_env\<close>), and so is the fresh identifier. The base directory is taken to be a
  clean path, on which \<open>filepath.Join\<close> puts one slash.
\<close>

type_synonym files = "(string, string) gomap"

record fs_env =
  fs_create :: "string option"
  fs_copy :: "(nat \<times> string) option"
  fs_sync :: "string option"
  fs_remove :: "string option"

record Snapshot =
  sn_ID :: SnapshotID
  sn_Template :: TemplateID
  sn_Path :: string
  sn_CreatedAt :: go_time
  sn_Metadata :: metadata

record Overlay =
  ov_ID :: string
  ov_MountPath :: string
  ov_BackingSnapshot :: SnapshotID

definition copyFile :: "fs_env \<Rightarrow> string \<Rightarrow> string \<Rightarrow> files \<Rightarrow> string option \<times> files" where
  "copyFile env src dst fs =
     (if get fs src = None then (Some ''no such file or directory'', fs)
      else case fs_create env of
             Some err \<Rightarrow> (Some err, fs)
           | None \<Rightarrow>
               let fs1 = put fs dst []; bytes = get_or [] fs1 src
               in case fs_copy env of
                    Some (n, err) \<Rightarrow> (Some err, put fs1 dst (take n bytes))
                  | None \<Rightarrow> (fs_sync env, put fs1 dst bytes))"

definition overlay_path :: "string \<Rightarrow> string \<Rightarrow> string" where
  "overlay_path baseDir uuid = baseDir @ ''/'' @ uuid @ ''.img''"

definition Overlay_Create :: "fs_env \<Rightarrow> string \<Rightarrow> string \<Rightarrow> Snapshot \<Rightarrow> files \<Rightarrow> (string + Overlay) \<times> files" where
  "Overlay_Create env baseDir uuid snapshot fs =
     (let overlayPath = overlay_path baseDir uuid
      in case copyFile env (sn_Path snapshot @ ''.disk'') overlayPath fs of
           (Some err, fs') \<Rightarrow> (Inl (''failed to copy snapshot: '' @ err), fs')
         | (None, fs') \<Rightarrow>
             (Inr \<lparr>ov_ID = uuid, ov_MountPath = overlayPath, ov_BackingSnapshot = sn_ID snapshot\<rparr>, fs'))"

definition Overlay_Destroy :: "fs_env \<Rightarrow> Overlay \<Rightarrow> files \<Rightarrow> string option \<times> files" where
  "Overlay_Destroy env overlay fs =
     (if get fs (ov_MountPath overlay) = None then (None, fs)
      else case fs_remove env of
             Some err \<Rightarrow> (Some (''failed to remove overlay file: '' @ err), fs)
           | None \<Rightarrow> (None, del fs (ov_MountPath overlay)))"

section \<open>Overlays are private copies\<close>

lemma disk_not_overlay: "overlay_path baseDir uuid \<noteq> p @ ''.disk''"
proof
  assume "overlay_path baseDir uuid = p @ ''.disk''"
  then have "last (overlay_path baseDir uuid) = last (p @ ''.disk'')" by simp
  then show False by (simp add: overlay_path_def)
qed

lemma overlay_path_inj: "overlay_path b u = overlay_path b u' \<longleftrightarrow> u = u'"
  by (simp add: overlay_path_def)

lemma Create_ok:
  assumes "Overlay_Create env baseDir uuid snapshot fs = (Inr ov, fs')"
  shows "ov_MountPath ov = overlay_path baseDir uuid"
    "\<exists>bytes. get fs (sn_Path snapshot @ ''.disk'') = Some bytes \<and>
       fs' = put (put fs (ov_MountPath ov) []) (ov_MountPath ov) bytes"
  using assms disk_not_overlay [of baseDir uuid "sn_Path snapshot"]
  by (auto simp: Overlay_Create_def copyFile_def Let_def get_or_def split: option.splits if_splits)

lemma Create_files:
  assumes "Overlay_Create env baseDir uuid snapshot fs = (Inr ov, fs')"
  obtains bytes where "get fs (sn_Path snapshot @ ''.disk'') = Some bytes"
    "get fs' = (get fs)(overlay_path baseDir uuid \<mapsto> bytes)"
  using Create_ok [OF assms] by (auto simp: get_put_fun fun_eq_iff)

text \<open>A copy that breaks off leaves what it has written behind: nothing removes it.\<close>

lemma broken_copy_leaks:
  assumes "get fs (sn_Path snapshot @ ''.disk'') = Some bytes" "fs_create env = None" "fs_copy env = Some (n, err)"
  shows "\<exists>e. Overlay_Create env baseDir uuid snapshot fs =
     (Inl e, put (put fs (overlay_path baseDir uuid) []) (overlay_path baseDir uuid) (take n bytes))"
  using assms disk_not_overlay [of baseDir uuid "sn_Path snapshot"]
  by (simp add: Overlay_Create_def copyFile_def Let_def get_or_def)

lemma Create_error_files:
  assumes "Overlay_Create env baseDir uuid snapshot fs = (Inl err, fs')" "fs_copy env = None" "fs_sync env = None"
  shows "fs' = fs"
  using assms by (auto simp: Overlay_Create_def copyFile_def Let_def split: option.splits if_splits)

lemma Destroy_files:
  assumes "fs_remove env = None"
  shows "get (snd (Overlay_Destroy env ov fs)) = (get fs)(ov_MountPath ov := None)"
    "fst (Overlay_Destroy env ov fs) = None"
  using assms by (auto simp: Overlay_Destroy_def get_del_fun fun_eq_iff)

text \<open>
  An overlay starts as a copy of its snapshot and leaves no trace. Creating one gives it the
  bytes of the snapshot's disk and changes no other file; whatever the sandbox then writes to its
  overlay, the snapshot's disk keeps its bytes; and destroying the overlay, once or twice,
  gives back exactly the files there were.
\<close>

theorem overlay_private:
  assumes "Overlay_Create env baseDir uuid snapshot fs = (Inr ov, fs1)"
    and "get fs (ov_MountPath ov) = None" "fs_remove env' = None"
    and "written = put fs1 (ov_MountPath ov) bytes"
    and "Overlay_Destroy env' ov written = (res, fs2)" "Overlay_Destroy env' ov fs2 = (res', fs3)"
  shows "get fs1 (ov_MountPath ov) = get fs (sn_Path snapshot @ ''.disk'') \<and>
    get fs1 (ov_MountPath ov) \<noteq> None \<and>
    (\<forall>p. p \<noteq> ov_MountPath ov \<longrightarrow> get fs1 p = get fs p) \<and>
    get written (sn_Path snapshot @ ''.disk'') = get fs (sn_Path snapshot @ ''.disk'') \<and>
    res = None \<and> res' = None \<and> get fs2 = get fs \<and> get fs3 = get fs"
proof -
  obtain disk where disk: "get fs (sn_Path snapshot @ ''.disk'') = Some disk"
    and fs1: "get fs1 = (get fs)(ov_MountPath ov \<mapsto> disk)"
    using Create_files [OF assms(1)] Create_ok(1) [OF assms(1)] by metis
  have ne: "ov_MountPath ov \<noteq> sn_Path snapshot @ ''.disk''"
    using Create_ok(1) [OF assms(1)] disk_not_overlay by metis
  have fs2: "get fs2 = get fs" "res = None"
    using Destroy_files [OF assms(3), of ov written] assms(2,4,5) fs1 by (auto simp: fun_eq_iff)
  have "get fs3 = get fs" "res' = None"
    using Destroy_files [OF assms(3), of ov fs2] assms(2,6) fs2 by (auto simp: fun_eq_iff)
  then show ?thesis using disk fs1 fs2 ne assms(4) by (simp add: fun_eq_iff)
qed

definition demo_snapshot :: Snapshot where
  "demo_snapshot = \<lparr>sn_ID = ''snap1'', sn_Template = ''py'', sn_Path = ''/s/a'', sn_CreatedAt = 0, sn_Metadata = []\<rparr>"

definition good_fs :: fs_env where
  "good_fs = \<lparr>fs_create = None, fs_copy = None, fs_sync = None, fs_remove = None\<rparr>"

theorem overlay_private_witness:
  "let (created, fs1) = Overlay_Create good_fs ''/o'' ''u'' demo_snapshot [(''/s/a.disk'', ''disk'')]
   in case created of
        Inl _ \<Rightarrow> False
      | Inr ov \<Rightarrow>
          get fs1 (ov_MountPath ov) = Some ''disk'' \<and>
          get (snd (Overlay_Destroy good_fs ov (put fs1 (ov_MountPath ov) ''x''))) = get [(''/s/a.disk'', ''disk'')]"
proof -
  let ?fs = "[(''/s/a.disk'', ''disk'')]" and ?ov = "\<lparr>ov_ID = ''u'', ov_MountPath = ''/o/u.img'', ov_BackingSnapshot = ''snap1''\<rparr>"
  have created: "Overlay_Create good_fs ''/o'' ''u'' demo_snapshot ?fs = (Inr ?ov, ?fs @ [(''/o/u.img'', ''disk'')])"
    by code_simp
  have "get ?fs (ov_MountPath ?ov) = None" "fs_remove good_fs = None" by (simp_all add: good_fs_def)
  note priv = overlay_private [OF created this refl surjective_pairing surjective_pairing]
  show ?thesis unfolding created using priv by simp
qed

end
