(* ===== verification/Hypnos.thy ===== *)
theory Hypnos
  imports Runtimes Lethe
begin

text \<open>
  Hibernation (\<open>src/pkg/hypnos/manager.go\<close>) over the local object store
  (\<open>src/pkg/erebus/local_store.go\<close>): a sleeping sandbox is a compressed memory image and a disk image
  in the store and a record in the manager.

  The runtime is a record of operations on a state of its own; a launch also sees the files staged for
  it. Which system call, hook or store operation fails, the clock and the staging directory are
  arguments (\<open>hypnos_env\<close>); compression and decompression are the arguments \<open>gz\<close> and \<open>unz\<close>. A key of
  the store stands for the path it is joined to. The compression ratio is kept as the pair of the two
  sizes. Metrics, traces and the hooks that run after the work are left out: their errors are dropped
  by the code.
\<close>

section \<open>The object store\<close>

definition LocalStore_Put :: "string option \<Rightarrow> string \<Rightarrow> string \<Rightarrow> files \<Rightarrow> string option \<times> files" where
  "LocalStore_Put fails key bytes store =
     (case fails of Some err \<Rightarrow> (Some err, store) | None \<Rightarrow> (None, put store key bytes))"

definition LocalStore_Get :: "string option \<Rightarrow> string \<Rightarrow> files \<Rightarrow> string + string" where
  "LocalStore_Get fails key store =
     (case fails of
        Some err \<Rightarrow> Inl err
      | None \<Rightarrow> (case get store key of None \<Rightarrow> Inl ''no such file or directory'' | Some bytes \<Rightarrow> Inr bytes))"

definition LocalStore_Exists :: "string option \<Rightarrow> string \<Rightarrow> files \<Rightarrow> string + bool" where
  "LocalStore_Exists statErr key store =
     (case statErr of Some err \<Rightarrow> Inl err | None \<Rightarrow> Inr (get store key \<noteq> None))"

definition LocalStore_Delete :: "string \<Rightarrow> files \<Rightarrow> string option \<times> files" where
  "LocalStore_Delete key store =
     (if get store key = None then (Some ''no such file or directory'', store) else (None, del store key))"

section \<open>The manager\<close>

datatype wait_outcome = WaitDone | WaitDeadline | WaitError string

record 'r sandbox_ops =
  so_GetConfig :: "SandboxID \<Rightarrow> 'r \<Rightarrow> string + VMConfig \<times> SandboxRequest option"
  so_Pause :: "SandboxID \<Rightarrow> 'r \<Rightarrow> string option \<times> 'r"
  so_Resume :: "SandboxID \<Rightarrow> 'r \<Rightarrow> string option \<times> 'r"
  so_CreateSnapshot :: "SandboxID \<Rightarrow> 'r \<Rightarrow> (string + string \<times> string) \<times> 'r"
  so_Shutdown :: "SandboxID \<Rightarrow> 'r \<Rightarrow> string option \<times> 'r"
  so_Kill :: "SandboxID \<Rightarrow> 'r \<Rightarrow> string option \<times> 'r"
  so_Launch :: "files \<Rightarrow> SandboxRequest \<Rightarrow> VMConfig \<Rightarrow> 'r \<Rightarrow> (string + SandboxRun) \<times> 'r"
  so_Wait :: "duration \<Rightarrow> SandboxID \<Rightarrow> 'r \<Rightarrow> wait_outcome \<times> 'r"
  so_Inspect :: "SandboxID \<Rightarrow> 'r \<Rightarrow> string + SandboxRun"
  so_StreamLogs :: "SandboxID \<Rightarrow> 'r \<Rightarrow> string + string"

record SleepRecord =
  sl_SandboxID :: SandboxID
  sl_SnapshotKey :: string
  sl_CreatedAt :: go_time
  sl_Config :: VMConfig
  sl_Request :: SandboxRequest
  sl_CompressionRatio :: "nat \<times> nat"

record 'r hypnos =
  hy_runtime :: 'r
  hy_store :: files
  hy_sleeping :: "(SandboxID, SleepRecord) gomap"

record hypnos_env =
  he_PreSleep :: "string option"
  he_PreWake :: "string option"
  he_MkdirTemp :: "string option"
  he_compress :: "string option"
  he_decompress :: "string option"
  he_Put :: "string \<Rightarrow> string option"
  he_Get :: "string \<Rightarrow> string option"
  he_stage :: "string \<Rightarrow> string option"
  he_UnixNano :: nat
  he_now :: go_time
  he_tmpDir :: string

definition NewManager :: "'r \<Rightarrow> files \<Rightarrow> 'r hypnos" where
  "NewManager runtime store = \<lparr>hy_runtime = runtime, hy_store = store, hy_sleeping = []\<rparr>"

definition keyBase :: "SandboxID \<Rightarrow> nat \<Rightarrow> string" where
  "keyBase i nano = ''sleep/'' @ i @ ''/'' @ itoa nano"

definition compressFile :: "(string \<Rightarrow> string) \<Rightarrow> string option \<Rightarrow> string \<Rightarrow> string + string \<times> nat \<times> nat" where
  "compressFile gz fails src =
     (case fails of
        Some err \<Rightarrow> Inl err
      | None \<Rightarrow> Inr (gz src, if src = [] then (0, 1) else (length (gz src), length src)))"

definition decompressFile :: "(string \<Rightarrow> string + string) \<Rightarrow> string option \<Rightarrow> string \<Rightarrow> string + string" where
  "decompressFile unz fails src =
     (case fails of
        Some err \<Rightarrow> Inl err
      | None \<Rightarrow> (case unz src of Inl err \<Rightarrow> Inl (''failed to decompress file: '' @ err) | Inr bytes \<Rightarrow> Inr bytes))"

definition copyToStore :: "hypnos_env \<Rightarrow> string \<Rightarrow> string \<Rightarrow> 'r hypnos \<Rightarrow> string option \<times> 'r hypnos" where
  "copyToStore env key bytes s =
     (case he_stage env key of
        Some err \<Rightarrow> (Some (''failed to open snapshot: '' @ err), s)
      | None \<Rightarrow>
          (case LocalStore_Put (he_Put env key) key bytes (hy_store s) of
             (Some err, store) \<Rightarrow> (Some (''failed to store '' @ key @ '': '' @ err), s\<lparr>hy_store := store\<rparr>)
           | (None, store) \<Rightarrow> (None, s\<lparr>hy_store := store\<rparr>)))"

definition copyFromStore :: "hypnos_env \<Rightarrow> string \<Rightarrow> string \<Rightarrow> 'r hypnos \<Rightarrow> files \<Rightarrow> string option \<times> files" where
  "copyFromStore env key path s staged =
     (case LocalStore_Get (he_Get env key) key (hy_store s) of
        Inl err \<Rightarrow> (Some (''failed to fetch '' @ key @ '': '' @ err), staged)
      | Inr bytes \<Rightarrow>
          (case he_stage env key of
             Some err \<Rightarrow> (Some (''failed to copy snapshot '' @ key @ '': '' @ err), staged)
           | None \<Rightarrow> (None, put staged path bytes)))"

definition upload_snapshot ::
    "(string \<Rightarrow> string) \<Rightarrow> hypnos_env \<Rightarrow> SandboxID \<Rightarrow> VMConfig \<Rightarrow> SandboxRequest \<Rightarrow> string \<Rightarrow> string \<Rightarrow> 'r hypnos
     \<Rightarrow> (string + SleepRecord) \<times> 'r hypnos" where
  "upload_snapshot gz env i cfg req mem disk s =
     (let key = keyBase i (he_UnixNano env)
      in case compressFile gz (he_compress env) mem of
           Inl err \<Rightarrow> (Inl (''failed to compress memory snapshot: '' @ err), s)
         | Inr (packed, ratio) \<Rightarrow>
             (case copyToStore env (key @ ''.mem.gz'') packed s of
                (Some err, s) \<Rightarrow> (Inl err, s)
              | (None, s) \<Rightarrow>
                  (case copyToStore env (key @ ''.disk'') disk s of
                     (Some err, s) \<Rightarrow> (Inl err, s)
                   | (None, s) \<Rightarrow>
                       let rec = \<lparr>sl_SandboxID = i, sl_SnapshotKey = key, sl_CreatedAt = he_now env, sl_Config = cfg,
                                  sl_Request = req, sl_CompressionRatio = ratio\<rparr>
                       in (Inr rec, s\<lparr>hy_sleeping := put (hy_sleeping s) i rec\<rparr>))))"

definition Sleep ::
    "'r sandbox_ops \<Rightarrow> (string \<Rightarrow> string) \<Rightarrow> hypnos_env \<Rightarrow> SandboxID \<Rightarrow> bool \<Rightarrow> 'r hypnos \<Rightarrow> (string + SleepRecord) \<times> 'r hypnos" where
  "Sleep rt gz env i graceful s =
     (case he_PreSleep env of
        Some err \<Rightarrow> (Inl (''pre-sleep hook failed: '' @ err), s)
      | None \<Rightarrow>
     (case so_GetConfig rt i (hy_runtime s) of
        Inl err \<Rightarrow> (Inl (''failed to fetch sandbox config: '' @ err), s)
      | Inr (cfg, None) \<Rightarrow> (Inl (''sandbox '' @ i @ '' missing request metadata''), s)
      | Inr (cfg, Some req) \<Rightarrow>
     (case he_MkdirTemp env of
        Some err \<Rightarrow> (Inl (''failed to create temp dir: '' @ err), s)
      | None \<Rightarrow>
     (case so_Pause rt i (hy_runtime s) of
        (Some err, r) \<Rightarrow> (Inl (''failed to pause sandbox: '' @ err), s\<lparr>hy_runtime := r\<rparr>)
      | (None, r) \<Rightarrow>
     (case so_CreateSnapshot rt i r of
        (Inl err, r) \<Rightarrow> (Inl (''failed to create snapshot: '' @ err), s\<lparr>hy_runtime := snd (so_Resume rt i r)\<rparr>)
      | (Inr (mem, disk), r) \<Rightarrow>
          let r = (if graceful then snd (so_Shutdown rt i r) else r);
              r = snd (so_Kill rt i r)
          in upload_snapshot gz env i cfg req mem disk (s\<lparr>hy_runtime := r\<rparr>))))))"

definition Wake ::
    "'r sandbox_ops \<Rightarrow> (string \<Rightarrow> string + string) \<Rightarrow> hypnos_env \<Rightarrow> SandboxID \<Rightarrow> 'r hypnos \<Rightarrow> (string + SandboxRun) \<times> 'r hypnos" where
  "Wake rt unz env i s =
     (case get (hy_sleeping s) i of
        None \<Rightarrow> (Inl (''sandbox '' @ i @ '' is not sleeping''), s)
      | Some rec \<Rightarrow>
     (case he_PreWake env of
        Some err \<Rightarrow> (Inl (''pre-wake hook failed: '' @ err), s)
      | None \<Rightarrow>
     (case he_MkdirTemp env of
        Some err \<Rightarrow> (Inl (''failed to create temp dir: '' @ err), s)
      | None \<Rightarrow>
          let base = he_tmpDir env @ ''/snapshot''
          in case copyFromStore env (sl_SnapshotKey rec @ ''.mem.gz'') (base @ ''.mem.gz'') s [] of
               (Some err, _) \<Rightarrow> (Inl err, s)
             | (None, staged) \<Rightarrow>
     (case decompressFile unz (he_decompress env) (get_or [] staged (base @ ''.mem.gz'')) of
        Inl err \<Rightarrow> (Inl (''failed to decompress memory snapshot: '' @ err), s)
      | Inr mem \<Rightarrow>
     (case copyFromStore env (sl_SnapshotKey rec @ ''.disk'') (base @ ''.disk'') s (put staged (base @ ''.mem'') mem) of
        (Some err, _) \<Rightarrow> (Inl err, s)
      | (None, staged) \<Rightarrow>
          let cfg = (sl_Config rec)\<lparr>vm_Snapshot := (vm_Snapshot (sl_Config rec))\<lparr>snap_Path := base\<rparr>\<rparr>
          in case so_Launch rt staged (sl_Request rec) cfg (hy_runtime s) of
               (Inl err, r) \<Rightarrow> (Inl (''failed to wake sandbox: '' @ err), s\<lparr>hy_runtime := r\<rparr>)
             | (Inr run, r) \<Rightarrow> (Inr run, s\<lparr>hy_runtime := r, hy_sleeping := del (hy_sleeping s) i\<rparr>))))))"

definition hypnos_List :: "'r hypnos \<Rightarrow> SleepRecord list" where
  "hypnos_List s = map snd (hy_sleeping s)"

definition IsSleeping :: "SandboxID \<Rightarrow> 'r hypnos \<Rightarrow> bool" where
  "IsSleeping i s \<longleftrightarrow> get (hy_sleeping s) i \<noteq> None"

section \<open>Keys\<close>

lemma itoa_digits: "c \<in> set (itoa n) \<Longrightarrow> \<exists>d < 10. c = digit_char d"
proof (induction n rule: itoa.induct)
  case (1 n)
  then show ?case by (cases "n < 10") (auto simp: itoa.simps [of n] intro: exI [of _ "n mod 10"])
qed

lemma slash_not_in_itoa: "CHR ''/'' \<notin> set (itoa n)"
proof
  assume "CHR ''/'' \<in> set (itoa n)"
  then obtain d where "d < 10" "CHR ''/'' = digit_char d" using itoa_digits by blast
  then have "of_char (CHR ''/'') = (48 + d :: nat)" by (simp add: of_digit_char)
  then show False by simp
qed

lemma last_part_inj:
  assumes "xs @ c # ys = xs' @ c # ys'" "c \<notin> set ys" "c \<notin> set ys'"
  shows "xs = xs' \<and> ys = ys'"
proof -
  have "takeWhile (\<lambda>x. x \<noteq> c) (rev (xs @ c # ys)) = rev ys" "takeWhile (\<lambda>x. x \<noteq> c) (rev (xs' @ c # ys')) = rev ys'"
    using assms(2,3) by (auto simp: takeWhile_append)
  then have "ys = ys'" using assms(1) by (metis rev_rev_ident)
  then show ?thesis using assms(1) by simp
qed

lemma keyBase_inj: "keyBase i m = keyBase j n \<longleftrightarrow> i = j \<and> m = n"
  using last_part_inj [of i "CHR ''/''" "itoa m" j "itoa n"] slash_not_in_itoa by (auto simp: keyBase_def itoa_inj)

lemma suffix_ne [simp]: "a @ ''.mem.gz'' \<noteq> b @ ''.disk''" "b @ ''.disk'' \<noteq> a @ ''.mem.gz''"
proof -
  have "last (a @ ''.mem.gz'') \<noteq> last (b @ ''.disk'')" by simp
  then show "a @ ''.mem.gz'' \<noteq> b @ ''.disk''" "b @ ''.disk'' \<noteq> a @ ''.mem.gz''" by metis+
qed

section \<open>What sleeps can be woken\<close>

record image =
  im_mem :: string
  im_disk :: string
  im_Config :: VMConfig
  im_Request :: SandboxRequest

text \<open>What a sleep captures of a sandbox, when it gets that far.\<close>

definition captured :: "'r sandbox_ops \<Rightarrow> SandboxID \<Rightarrow> 'r \<Rightarrow> image option" where
  "captured rt i r =
     (case so_GetConfig rt i r of
        Inr (cfg, Some req) \<Rightarrow>
          (case so_CreateSnapshot rt i (snd (so_Pause rt i r)) of
             (Inr (mem, disk), _) \<Rightarrow> Some \<lparr>im_mem = mem, im_disk = disk, im_Config = cfg, im_Request = req\<rparr>
           | _ \<Rightarrow> None)
      | _ \<Rightarrow> None)"

text \<open>
  The states of a manager, with the images of the last successful sleeps and a clock that no sleep
  reads twice. Between the operations of the manager the runtime may do anything.
\<close>

inductive hypnos_reach ::
    "'r sandbox_ops \<Rightarrow> (string \<Rightarrow> string) \<Rightarrow> (string \<Rightarrow> string + string) \<Rightarrow> 'r hypnos \<Rightarrow> (SandboxID \<Rightarrow> image option) \<Rightarrow> nat \<Rightarrow> bool"
  for rt gz unz where
  start: "hypnos_reach rt gz unz (NewManager r store) (\<lambda>_. None) t"
| slept: "hypnos_reach rt gz unz s g t \<Longrightarrow> Sleep rt gz env i graceful s = (Inr rec, s') \<Longrightarrow> t < he_UnixNano env \<Longrightarrow>
     hypnos_reach rt gz unz s' (g(i := captured rt i (hy_runtime s))) (he_UnixNano env)"
| not_slept: "hypnos_reach rt gz unz s g t \<Longrightarrow> Sleep rt gz env i graceful s = (Inl err, s') \<Longrightarrow> t < he_UnixNano env \<Longrightarrow>
     hypnos_reach rt gz unz s' g (he_UnixNano env)"
| wake: "hypnos_reach rt gz unz s g t \<Longrightarrow> Wake rt unz env i s = (res, s') \<Longrightarrow> hypnos_reach rt gz unz s' g t"
| other: "hypnos_reach rt gz unz s g t \<Longrightarrow> hypnos_reach rt gz unz (s\<lparr>hy_runtime := r\<rparr>) g t"

definition kept :: "(string \<Rightarrow> string) \<Rightarrow> files \<Rightarrow> nat \<Rightarrow> SandboxID \<Rightarrow> image \<Rightarrow> SleepRecord \<Rightarrow> bool" where
  "kept gz store t i im rec \<longleftrightarrow> sl_SandboxID rec = i \<and> sl_Config rec = im_Config im \<and> sl_Request rec = im_Request im \<and>
     (\<exists>n \<le> t. sl_SnapshotKey rec = keyBase i n) \<and>
     get store (sl_SnapshotKey rec @ ''.mem.gz'') = Some (gz (im_mem im)) \<and>
     get store (sl_SnapshotKey rec @ ''.disk'') = Some (im_disk im)"

definition hypnos_ok :: "(string \<Rightarrow> string) \<Rightarrow> 'r hypnos \<Rightarrow> (SandboxID \<Rightarrow> image option) \<Rightarrow> nat \<Rightarrow> bool" where
  "hypnos_ok gz s g t \<longleftrightarrow>
     (\<forall>i rec. get (hy_sleeping s) i = Some rec \<longrightarrow> (\<exists>im. g i = Some im \<and> kept gz (hy_store s) t i im rec))"

text \<open>A store that changes under a fresh key only keeps what it had.\<close>

definition fresh_change :: "SandboxID \<Rightarrow> nat \<Rightarrow> files \<Rightarrow> files \<Rightarrow> bool" where
  "fresh_change i n store store' \<longleftrightarrow>
     (\<forall>key. key \<noteq> keyBase i n @ ''.mem.gz'' \<longrightarrow> key \<noteq> keyBase i n @ ''.disk'' \<longrightarrow> get store' key = get store key)"

lemma kept_mono:
  assumes "kept gz store t j im rec" "fresh_change i n store store'" "t < n"
  shows "kept gz store' n j im rec"
proof -
  obtain m where m: "m \<le> t" "sl_SnapshotKey rec = keyBase j m" using assms(1) by (auto simp: kept_def)
  have "keyBase j m \<noteq> keyBase i n" using m(1) assms(3) by (simp add: keyBase_inj)
  then have "get store' (sl_SnapshotKey rec @ ''.mem.gz'') = get store (sl_SnapshotKey rec @ ''.mem.gz'')"
    "get store' (sl_SnapshotKey rec @ ''.disk'') = get store (sl_SnapshotKey rec @ ''.disk'')"
    using assms(2) unfolding fresh_change_def m(2) by (auto simp del: append_assoc)
  moreover have "\<exists>k\<le>n. sl_SnapshotKey rec = keyBase j k" using m assms(3) by (intro exI [of _ m]) simp
  ultimately show ?thesis using assms(1) by (simp add: kept_def)
qed

lemma copyToStore_cases:
  "copyToStore env key bytes s = (res, s') \<Longrightarrow>
     s' = s \<and> res \<noteq> None \<or> s' = s\<lparr>hy_store := put (hy_store s) key bytes\<rparr> \<and> res = None"
  by (auto simp: copyToStore_def LocalStore_Put_def split: option.splits)

lemma upload_cases:
  assumes "upload_snapshot gz env i cfg req mem disk s = (res, s')"
  shows "hy_runtime s' = hy_runtime s \<and> fresh_change i (he_UnixNano env) (hy_store s) (hy_store s') \<and>
    (case res of
       Inl _ \<Rightarrow> hy_sleeping s' = hy_sleeping s
     | Inr rec \<Rightarrow> hy_sleeping s' = put (hy_sleeping s) i rec \<and>
         kept gz (hy_store s') (he_UnixNano env) i \<lparr>im_mem = mem, im_disk = disk, im_Config = cfg, im_Request = req\<rparr> rec)"
  using assms
  by (auto simp: upload_snapshot_def compressFile_def Let_def fresh_change_def kept_def
      dest!: copyToStore_cases split: option.splits prod.splits)

lemma Sleep_cases:
  assumes "Sleep rt gz env i graceful s = (res, s')"
  shows "fresh_change i (he_UnixNano env) (hy_store s) (hy_store s') \<and>
    (case res of
       Inl _ \<Rightarrow> hy_sleeping s' = hy_sleeping s
     | Inr rec \<Rightarrow> hy_sleeping s' = put (hy_sleeping s) i rec \<and>
         (\<exists>im. captured rt i (hy_runtime s) = Some im \<and> kept gz (hy_store s') (he_UnixNano env) i im rec))"
proof -
  consider "\<exists>err. res = Inl err" "hy_store s' = hy_store s" "hy_sleeping s' = hy_sleeping s"
    | r cfg req mem disk where "so_GetConfig rt i (hy_runtime s) = Inr (cfg, Some req)"
      "fst (so_CreateSnapshot rt i (snd (so_Pause rt i (hy_runtime s)))) = Inr (mem, disk)"
      "upload_snapshot gz env i cfg req mem disk (s\<lparr>hy_runtime := r\<rparr>) = (res, s')"
    using assms unfolding Sleep_def Let_def
    by (auto split: option.splits sum.splits prod.splits)
  then show ?thesis
  proof cases
    case 1
    then show ?thesis by (auto simp: fresh_change_def)
  next
    case 2
    have "captured rt i (hy_runtime s) = Some \<lparr>im_mem = mem, im_disk = disk, im_Config = cfg, im_Request = req\<rparr>"
      using 2(1,2) by (auto simp: captured_def split: prod.splits)
    then show ?thesis using upload_cases [OF 2(3)] by (auto split: sum.splits)
  qed
qed

lemma Wake_cases:
  "Wake rt unz env i s = (res, s') \<Longrightarrow> hy_store s' = hy_store s \<and>
     (\<forall>j rec. get (hy_sleeping s') j = Some rec \<longrightarrow> get (hy_sleeping s) j = Some rec)"
  by (auto simp: Wake_def Let_def split: option.splits sum.splits prod.splits if_splits)

lemma hypnos_reach_ok: "hypnos_reach rt gz unz s g t \<Longrightarrow> hypnos_ok gz s g t"
proof (induction rule: hypnos_reach.induct)
  case (slept s g t env i graceful rec s')
  note c = Sleep_cases [OF slept.hyps(2)]
  show ?case unfolding hypnos_ok_def
  proof (intro allI impI)
    fix j rec' assume "get (hy_sleeping s') j = Some rec'"
    then show "\<exists>im. (g(i := captured rt i (hy_runtime s))) j = Some im \<and> kept gz (hy_store s') (he_UnixNano env) j im rec'"
    proof (cases "j = i")
      case False
      then have "get (hy_sleeping s) j = Some rec'" using \<open>get (hy_sleeping s') j = Some rec'\<close> c by simp
      then obtain im where "g j = Some im" "kept gz (hy_store s) t j im rec'" using slept.IH unfolding hypnos_ok_def by blast
      then show ?thesis using False kept_mono [OF _ conjunct1 [OF c] slept.hyps(3)] by simp
    qed (use c \<open>get (hy_sleeping s') j = Some rec'\<close> in auto)
  qed
next
  case (not_slept s g t env i graceful err s')
  note c = Sleep_cases [OF not_slept.hyps(2)]
  then show ?case using not_slept.IH kept_mono [OF _ conjunct1 [OF c] not_slept.hyps(3)]
    by (fastforce simp: hypnos_ok_def)
next
  case (wake s g t env i res s')
  then show ?case using Wake_cases [OF wake.hyps(2)] by (auto simp: hypnos_ok_def)
qed (auto simp: hypnos_ok_def NewManager_def)

text \<open>Nothing of what the manager asks of the system fails.\<close>

definition quiet :: "hypnos_env \<Rightarrow> bool" where
  "quiet env \<longleftrightarrow> he_PreSleep env = None \<and> he_PreWake env = None \<and> he_MkdirTemp env = None \<and> he_compress env = None \<and>
     he_decompress env = None \<and> (\<forall>k. he_Put env k = None \<and> he_Get env k = None \<and> he_stage env k = None)"

text \<open>
  C10: Whatever sleeps can be woken as it was. In every state the manager can reach, waking a sleeping
  sandbox, when the system does not fail, launches the request and the configuration its last
  successful sleep captured, from a memory and a disk image with the bytes captured then; the answer is
  that of the launch, and the sandbox stops sleeping exactly when the launch succeeds.\<close>

theorem wake_restores:
  assumes "hypnos_reach rt gz unz s g t" "\<forall>x. unz (gz x) = Inr x" "IsSleeping i s" "quiet env"
  shows "\<exists>im staged cfg. g i = Some im \<and> cfg = (im_Config im)\<lparr>vm_Snapshot := (vm_Snapshot (im_Config im))\<lparr>snap_Path := he_tmpDir env @ ''/snapshot''\<rparr>\<rparr> \<and>
    get staged (he_tmpDir env @ ''/snapshot.mem'') = Some (im_mem im) \<and> get staged (he_tmpDir env @ ''/snapshot.disk'') = Some (im_disk im) \<and>
    (case so_Launch rt staged (im_Request im) cfg (hy_runtime s) of
       (Inr run, r) \<Rightarrow> fst (Wake rt unz env i s) = Inr run \<and> \<not> IsSleeping i (snd (Wake rt unz env i s))
     | (Inl err, r) \<Rightarrow> fst (Wake rt unz env i s) = Inl (''failed to wake sandbox: '' @ err) \<and> IsSleeping i (snd (Wake rt unz env i s)))"
proof -
  obtain rec where rec: "get (hy_sleeping s) i = Some rec" using assms(3) by (auto simp: IsSleeping_def)
  with hypnos_reach_ok [OF assms(1)] obtain im where im: "g i = Some im" "kept gz (hy_store s) t i im rec"
    unfolding hypnos_ok_def by blast
  let ?b = "he_tmpDir env @ ''/snapshot''"
  let ?staged = "put (put (put [] (?b @ ''.mem.gz'') (gz (im_mem im))) (?b @ ''.mem'') (im_mem im)) (?b @ ''.disk'') (im_disk im)"
  have quiet: "copyFromStore env k p s st = (None, put st p bytes)" if "get (hy_store s) k = Some bytes" for k p st bytes
    using assms(4) that by (simp add: copyFromStore_def LocalStore_Get_def quiet_def)
  have "Wake rt unz env i s =
     (case so_Launch rt ?staged (im_Request im)
        ((im_Config im)\<lparr>vm_Snapshot := (vm_Snapshot (im_Config im))\<lparr>snap_Path := ?b\<rparr>\<rparr>) (hy_runtime s) of
        (Inl err, r) \<Rightarrow> (Inl (''failed to wake sandbox: '' @ err), s\<lparr>hy_runtime := r\<rparr>)
      | (Inr run, r) \<Rightarrow> (Inr run, s\<lparr>hy_runtime := r, hy_sleeping := del (hy_sleeping s) i\<rparr>))"
    using im(2) assms(2,4) rec
    by (simp add: Wake_def quiet [of "sl_SnapshotKey rec @ ''.mem.gz''"] quiet [of "sl_SnapshotKey rec @ ''.disk''"]
        kept_def decompressFile_def get_or_def quiet_def Let_def)
  then show ?thesis using rec im(1)
    by (intro exI [of _ im] exI [of _ ?staged]) (auto simp: IsSleeping_def split: prod.splits sum.splits)
qed

lemma upload_fails:
  assumes "he_compress env \<noteq> None \<or> he_Put env (keyBase i (he_UnixNano env) @ ''.mem.gz'') \<noteq> None"
  shows "\<exists>err. upload_snapshot gz env i cfg req mem disk s = (Inl err, s)"
  using assms
  by (cases "he_compress env"; cases "he_stage env (keyBase i (he_UnixNano env) @ ''.mem.gz'')")
    (auto simp: upload_snapshot_def compressFile_def copyToStore_def LocalStore_Put_def Let_def)

text \<open>
  The sandbox is killed before its image is safe. When the compression or an upload fails, the sleep
  reports an error, the runtime no longer has the sandbox and the manager cannot wake it: it is lost.\<close>

theorem failed_upload_loses:
  assumes "so_GetConfig rt i (hy_runtime s) = Inr (cfg, Some req)" "so_Pause rt i (hy_runtime s) = (None, r1)"
    and "so_CreateSnapshot rt i r1 = (Inr (mem, disk), r2)" "he_PreSleep env = None" "he_MkdirTemp env = None"
    and "he_compress env \<noteq> None \<or> he_Put env (keyBase i (he_UnixNano env) @ ''.mem.gz'') \<noteq> None"
    and "\<not> IsSleeping i s"
  shows "\<exists>err s'. Sleep rt gz env i False s = (Inl err, s') \<and> hy_runtime s' = snd (so_Kill rt i r2) \<and> \<not> IsSleeping i s' \<and>
    fst (Wake rt unz env' i s') = Inl (''sandbox '' @ i @ '' is not sleeping'')"
proof -
  obtain err where "upload_snapshot gz env i cfg req mem disk (s\<lparr>hy_runtime := snd (so_Kill rt i r2)\<rparr>) =
      (Inl err, s\<lparr>hy_runtime := snd (so_Kill rt i r2)\<rparr>)" using upload_fails [OF assms(6)] by blast
  then show ?thesis using assms by (simp add: Sleep_def Wake_def IsSleeping_def)
qed

section \<open>On the in-memory runtime\<close>

text \<open>The operations of the in-memory runtime, at one time.\<close>

definition mock_sandbox_ops :: "go_time \<Rightarrow> MockRuntime sandbox_ops" where
  "mock_sandbox_ops now = \<lparr>
     so_GetConfig = (\<lambda>i r. case Mock_GetConfig i r of Inl err \<Rightarrow> Inl err | Inr (cfg, req) \<Rightarrow> Inr (cfg, Some req)),
     so_Pause = Mock_Pause, so_Resume = Mock_Resume,
     so_CreateSnapshot = (\<lambda>i r. (Mock_CreateSnapshot ''12:00'' i r, r)),
     so_Shutdown = (\<lambda>i r. (Mock_Shutdown i r, r)), so_Kill = Mock_Kill,
     so_Launch = (\<lambda>staged. Mock_Launch None now),
     so_Wait = (\<lambda>grace i r. case Mock_Wait i r of
        WaitFailed err \<Rightarrow> (WaitError err, r) | WaitBlocks \<Rightarrow> (WaitDone, Mock_Shutdown_done now i r)),
     so_Inspect = (\<lambda>i r. fst (Mock_Inspect i r)), so_StreamLogs = (\<lambda>i r. Inr (Mock_StreamLogs i))\<rparr>"

definition calm :: "nat \<Rightarrow> hypnos_env" where
  "calm n = \<lparr>he_PreSleep = None, he_PreWake = None, he_MkdirTemp = None, he_compress = None, he_decompress = None,
     he_Put = (\<lambda>k. None), he_Get = (\<lambda>k. None), he_stage = (\<lambda>k. None), he_UnixNano = n, he_now = int n, he_tmpDir = ''/tmp/h''\<rparr>"

definition demo_gz :: "string \<Rightarrow> string" where
  "demo_gz x = CHR ''z'' # x"

definition demo_unz :: "string \<Rightarrow> string + string" where
  "demo_unz x = (case x of c # y \<Rightarrow> if c = CHR ''z'' then Inr y else Inl ''invalid header'' | [] \<Rightarrow> Inl ''EOF'')"

definition demo_awake :: "MockRuntime hypnos" where
  "demo_awake = NewManager (snd (Mock_Launch None 1 (zero_SandboxRequest\<lparr>req_ID := ''x''\<rparr>) demo_config NewMockRuntime)) []"

theorem wake_restores_witness:
  "let s = snd (Sleep (mock_sandbox_ops 5) demo_gz (calm 7) ''x'' True demo_awake)
   in IsSleeping ''x'' s \<and> (\<exists>run. fst (Wake (mock_sandbox_ops 5) demo_unz (calm 8) ''x'' s) = Inr run)"
proof -
  let ?rt = "mock_sandbox_ops 5"
  let ?sl = "Sleep ?rt demo_gz (calm 7) ''x'' True demo_awake"
  have sl: "Sleep ?rt demo_gz (calm 7) ''x'' True demo_awake = (Inr (projr (fst ?sl)), snd ?sl)" by code_simp
  have "hypnos_reach ?rt demo_gz demo_unz demo_awake (\<lambda>_. None) 0" unfolding demo_awake_def by (rule hypnos_reach.start)
  from hypnos_reach.slept [OF this sl]
  have reach: "hypnos_reach ?rt demo_gz demo_unz (snd ?sl) ((\<lambda>_. None)(''x'' := captured ?rt ''x'' (hy_runtime demo_awake))) 7"
    by (simp add: calm_def)
  have sleeping: "IsSleeping ''x'' (snd ?sl)" by code_simp
  have quiet: "quiet (calm 8)" by (simp add: quiet_def calm_def)
  have unz: "\<forall>x. demo_unz (demo_gz x) = Inr x" by (simp add: demo_unz_def demo_gz_def)
  have "so_Launch ?rt staged req cfg r = Mock_Launch None 5 req cfg r" for staged req cfg r by (simp add: mock_sandbox_ops_def)
  then have "\<exists>run. fst (Wake ?rt demo_unz (calm 8) ''x'' (snd ?sl)) = Inr run"
    using wake_restores [OF reach unz sleeping quiet] by (auto simp: Mock_Launch_def Let_def)
  with sleeping show ?thesis unfolding Let_def by blast
qed

theorem failed_upload_loses_witness:
  "\<exists>err s'. Sleep (mock_sandbox_ops 5) demo_gz ((calm 7)\<lparr>he_compress := Some ''disk full''\<rparr>) ''x'' False demo_awake = (Inl err, s') \<and>
     \<not> mock_has (hy_runtime s') ''x'' \<and> \<not> IsSleeping ''x'' s'"
proof -
  let ?rt = "mock_sandbox_ops 5" and ?env = "(calm 7)\<lparr>he_compress := Some ''disk full''\<rparr>"
  let ?r1 = "snd (so_Pause ?rt ''x'' (hy_runtime demo_awake))"
  have "so_GetConfig ?rt ''x'' (hy_runtime demo_awake) = Inr (demo_config, Some (zero_SandboxRequest\<lparr>req_ID := ''x''\<rparr>))" by code_simp
  moreover have "so_Pause ?rt ''x'' (hy_runtime demo_awake) = (None, ?r1)" by code_simp
  moreover have "so_CreateSnapshot ?rt ''x'' ?r1 = (Inr (''snapshot of x at 12:00'', ''snapshot of x at 12:00-disk''), ?r1)" by code_simp
  moreover have "\<not> IsSleeping ''x'' demo_awake" by code_simp
  ultimately obtain err s' where "Sleep ?rt demo_gz ?env ''x'' False demo_awake = (Inl err, s')" "\<not> IsSleeping ''x'' s'"
    "hy_runtime s' = snd (so_Kill ?rt ''x'' ?r1)"
    using failed_upload_loses [of ?rt "''x''" demo_awake demo_config "zero_SandboxRequest\<lparr>req_ID := ''x''\<rparr>" ?r1 "''snapshot of x at 12:00''" "''snapshot of x at 12:00-disk''" ?r1 ?env
        demo_gz demo_unz "calm 8"]
    by (auto simp: calm_def)
  moreover have "\<not> mock_has (snd (so_Kill ?rt ''x'' ?r1)) ''x''"
    by (simp add: mock_sandbox_ops_def Mock_Kill_def mock_has_def closeWaiter_def)
  ultimately show ?thesis by auto
qed

end
