(* ===== verification/Erinyes.thy ===== *)
theory Erinyes
  imports Runtimes
begin

text \<open>
  The watchdog of running sandboxes (\<open>src/pkg/erinyes/poll_fury.go\<close>). Arming starts a watcher
  with a context of its own; a watcher has a number here, and \<open>pf_active\<close> holds the number of the
  watcher whose cancel function the Go map holds. What a tick of a watcher sees of the runtime and
  of the network counters is an argument, and it returns the sandboxes it force-kills.
\<close>

section \<open>State and operations\<close>

record PolicySnapshot =
  ps_MaxRuntime :: duration
  ps_MaxCPU :: int
  ps_MaxMemory :: int
  ps_MaxNetworkEgressBytes :: int
  ps_MaxNetworkIngressBytes :: int
  ps_MaxBannedIPAttempts :: int
  ps_KillOnBreach :: bool

record PollFury =
  pf_active :: "(SandboxID, nat) gomap"
  pf_watchers :: "(nat, SandboxID \<times> PolicySnapshot) gomap"
  pf_cancelled :: "nat list"
  pf_next :: nat

definition NewPollFury :: PollFury where
  "NewPollFury = \<lparr>pf_active = [], pf_watchers = [], pf_cancelled = [], pf_next = 0\<rparr>"

definition Arm :: "SandboxRun \<Rightarrow> PolicySnapshot \<Rightarrow> PollFury \<Rightarrow> PollFury" where
  "Arm run policy p =
     (if \<not> ps_KillOnBreach policy then p
      else p\<lparr>pf_active := put (pf_active p) (run_ID run) (pf_next p),
             pf_watchers := put (pf_watchers p) (pf_next p) (run_ID run, policy),
             pf_next := Suc (pf_next p)\<rparr>)"

definition stopWatching :: "SandboxID \<Rightarrow> PollFury \<Rightarrow> PollFury" where
  "stopWatching i p =
     (case get (pf_active p) i of
        None \<Rightarrow> p
      | Some w \<Rightarrow> p\<lparr>pf_active := del (pf_active p) i, pf_cancelled := w # pf_cancelled p\<rparr>)"

definition Disarm :: "SandboxID \<Rightarrow> PollFury \<Rightarrow> PollFury" where
  "Disarm i p = stopWatching i p"

definition isFinished :: "RunStatus \<Rightarrow> bool" where
  "isFinished s \<longleftrightarrow> s = RunStatusSucceeded \<or> s = RunStatusFailed \<or> s = RunStatusCanceled"

record fury_env =
  fe_now :: go_time
  fe_inspect :: "SandboxID \<Rightarrow> string + SandboxRun"
  fe_config :: "SandboxID \<Rightarrow> string + VMConfig"
  fe_stats :: "string \<Rightarrow> string + int \<times> int"
  fe_drops :: "string \<Rightarrow> string + int"
  fe_hook :: "(SandboxID \<Rightarrow> string \<Rightarrow> bool) option"

definition killForViolation :: "fury_env \<Rightarrow> SandboxID \<Rightarrow> string \<Rightarrow> PollFury \<Rightarrow> SandboxID list \<times> PollFury" where
  "killForViolation env i reason p =
     (case fe_hook env of
        Some hook \<Rightarrow> if hook i reason then ([], stopWatching i p) else ([i], stopWatching i p)
      | None \<Rightarrow> ([i], stopWatching i p))"

text \<open>The network part of a check: the reason of the first breach, if any.\<close>

definition network_breach :: "fury_env \<Rightarrow> string \<Rightarrow> PolicySnapshot \<Rightarrow> string option" where
  "network_breach env tap policy =
     (let drops = (if ps_MaxBannedIPAttempts policy > 0
                   then (case fe_drops env tap of
                           Inl _ \<Rightarrow> None
                         | Inr n \<Rightarrow> if n > ps_MaxBannedIPAttempts policy then Some ''banned_ip_attempts_exceeded'' else None)
                   else None)
      in case fe_stats env tap of
           Inl _ \<Rightarrow> drops
         | Inr (rx, tx) \<Rightarrow>
             if ps_MaxNetworkEgressBytes policy > 0 \<and> rx > ps_MaxNetworkEgressBytes policy
             then Some ''network_egress_exceeded''
             else if ps_MaxNetworkIngressBytes policy > 0 \<and> tx > ps_MaxNetworkIngressBytes policy
             then Some ''network_ingress_exceeded''
             else drops)"

definition checkAndEnforce :: "fury_env \<Rightarrow> SandboxID \<Rightarrow> PolicySnapshot \<Rightarrow> PollFury \<Rightarrow> SandboxID list \<times> PollFury" where
  "checkAndEnforce env i policy p =
     (case fe_inspect env i of
        Inl _ \<Rightarrow> ([], p)
      | Inr run \<Rightarrow>
          if isFinished (run_Status run) then ([], stopWatching i p)
          else if ps_MaxRuntime policy > 0 \<and> fe_now env - run_StartedAt run > ps_MaxRuntime policy
          then killForViolation env i ''runtime_exceeded'' p
          else if ps_MaxMemory policy > 0 \<and> run_MemoryUsage run > ps_MaxMemory policy
          then killForViolation env i ''memory_exceeded'' p
          else (case fe_config env i of
                  Inl _ \<Rightarrow> ([], p)
                | Inr cfg \<Rightarrow>
                    if vm_TapDevice cfg = [] then ([], p)
                    else (case network_breach env (vm_TapDevice cfg) policy of
                            None \<Rightarrow> ([], p)
                          | Some reason \<Rightarrow> killForViolation env i reason p)))"

text \<open>A tick of a watcher; a cancelled one has returned.\<close>

definition watch_tick :: "fury_env \<Rightarrow> nat \<Rightarrow> PollFury \<Rightarrow> SandboxID list \<times> PollFury" where
  "watch_tick env w p =
     (if w \<in> set (pf_cancelled p) then ([], p)
      else case get (pf_watchers p) w of
             None \<Rightarrow> ([], p)
           | Some (i, policy) \<Rightarrow> checkAndEnforce env i policy p)"

section \<open>Enforcement\<close>

text \<open>What it means to breach a policy, with every limit on its own.\<close>

definition breach :: "fury_env \<Rightarrow> PolicySnapshot \<Rightarrow> SandboxRun \<Rightarrow> VMConfig option \<Rightarrow> bool" where
  "breach env policy run cfg \<longleftrightarrow>
     (ps_MaxRuntime policy > 0 \<and> fe_now env - run_StartedAt run > ps_MaxRuntime policy) \<or>
     (ps_MaxMemory policy > 0 \<and> run_MemoryUsage run > ps_MaxMemory policy) \<or>
     (\<exists>c. cfg = Some c \<and> vm_TapDevice c \<noteq> [] \<and>
        ((\<exists>rx tx. fe_stats env (vm_TapDevice c) = Inr (rx, tx) \<and>
            (ps_MaxNetworkEgressBytes policy > 0 \<and> rx > ps_MaxNetworkEgressBytes policy \<or>
             ps_MaxNetworkIngressBytes policy > 0 \<and> tx > ps_MaxNetworkIngressBytes policy)) \<or>
         (\<exists>n. fe_drops env (vm_TapDevice c) = Inr n \<and> ps_MaxBannedIPAttempts policy > 0 \<and> n > ps_MaxBannedIPAttempts policy)))"

definition config_of :: "fury_env \<Rightarrow> SandboxID \<Rightarrow> VMConfig option" where
  "config_of env i = (case fe_config env i of Inl _ \<Rightarrow> None | Inr c \<Rightarrow> Some c)"

lemma network_breach_iff:
  "network_breach env tap policy \<noteq> None \<longleftrightarrow>
     (\<exists>rx tx. fe_stats env tap = Inr (rx, tx) \<and>
        (ps_MaxNetworkEgressBytes policy > 0 \<and> rx > ps_MaxNetworkEgressBytes policy \<or>
         ps_MaxNetworkIngressBytes policy > 0 \<and> tx > ps_MaxNetworkIngressBytes policy)) \<or>
     (\<exists>n. fe_drops env tap = Inr n \<and> ps_MaxBannedIPAttempts policy > 0 \<and> n > ps_MaxBannedIPAttempts policy)"
  by (auto simp: network_breach_def Let_def split: sum.splits)

lemma stopWatching_inactive [simp]: "get (pf_active (stopWatching i p)) i = None"
  by (auto simp: stopWatching_def split: option.split)

lemma killForViolation_cases:
  "killForViolation env i reason p = ((if \<exists>hook. fe_hook env = Some hook \<and> hook i reason then [] else [i]), stopWatching i p)"
  by (simp add: killForViolation_def split: option.split)

lemma checkAndEnforce_running:
  assumes "fe_inspect env i = Inr run" "\<not> isFinished (run_Status run)"
  shows "if breach env policy run (config_of env i)
    then \<exists>reason. checkAndEnforce env i policy p = killForViolation env i reason p
    else checkAndEnforce env i policy p = ([], p)"
proof -
  let ?time = "ps_MaxRuntime policy > 0 \<and> fe_now env - run_StartedAt run > ps_MaxRuntime policy"
  let ?mem = "ps_MaxMemory policy > 0 \<and> run_MemoryUsage run > ps_MaxMemory policy"
  consider "?time" | "\<not> ?time" "?mem" | "\<not> ?time" "\<not> ?mem" by blast
  then show ?thesis
  proof cases
    case 1
    then show ?thesis using assms by (auto simp: breach_def checkAndEnforce_def)
  next
    case 2
    then show ?thesis using assms by (auto simp: breach_def checkAndEnforce_def)
  next
    case 3
    show ?thesis
    proof (cases "fe_config env i")
      case (Inl e)
      then have "\<not> breach env policy run (config_of env i)" using 3 by (auto simp: breach_def config_of_def)
      then show ?thesis using assms 3 Inl by (auto simp: checkAndEnforce_def)
    next
      case (Inr c)
      show ?thesis
      proof (cases "vm_TapDevice c = [] \<or> network_breach env (vm_TapDevice c) policy = None")
        case True
        then have "\<not> breach env policy run (config_of env i)"
          using 3 Inr network_breach_iff [of env "vm_TapDevice c" policy] by (auto simp: breach_def config_of_def)
        then show ?thesis using assms 3 Inr True by (auto simp: checkAndEnforce_def)
      next
        case False
        then have "breach env policy run (config_of env i)"
          using Inr network_breach_iff [of env "vm_TapDevice c" policy] unfolding breach_def config_of_def by simp
        then show ?thesis using assms 3 Inr False by (auto simp: checkAndEnforce_def)
      qed
    qed
  qed
qed

text \<open>
  The watchdog enforces the policy and nothing else. A tick of a live watcher whose sandbox
  is still running ends the sandbox exactly when it breaches one of the limits that are set (by
  the graceful hook if there is one and it succeeds, by a kill otherwise), and stops watching it;
  a finished sandbox is never killed and no longer watched; a sandbox that cannot be inspected or
  is within its limits is left alone; and after it was disarmed, the watcher that was active never
  kills again.
\<close>

theorem fury_enforces:
  assumes "w \<notin> set (pf_cancelled p)" "get (pf_watchers p) w = Some (i, policy)"
  shows "(case fe_inspect env i of
       Inl _ \<Rightarrow> watch_tick env w p = ([], p)
     | Inr run \<Rightarrow>
         if isFinished (run_Status run)
         then fst (watch_tick env w p) = [] \<and> get (pf_active (snd (watch_tick env w p))) i = None
         else if breach env policy run (config_of env i)
         then get (pf_active (snd (watch_tick env w p))) i = None \<and>
              (fst (watch_tick env w p) = [i] \<or>
               fst (watch_tick env w p) = [] \<and> (\<exists>hook reason. fe_hook env = Some hook \<and> hook i reason))
         else watch_tick env w p = ([], p)) \<and>
    (\<forall>j. get (pf_active p) j = Some w \<longrightarrow> watch_tick env w (Disarm j p) = ([], Disarm j p))"
proof (intro conjI allI impI)
  have tick: "watch_tick env w p = checkAndEnforce env i policy p" using assms by (simp add: watch_tick_def)
  show "case fe_inspect env i of
       Inl _ \<Rightarrow> watch_tick env w p = ([], p)
     | Inr run \<Rightarrow>
         if isFinished (run_Status run)
         then fst (watch_tick env w p) = [] \<and> get (pf_active (snd (watch_tick env w p))) i = None
         else if breach env policy run (config_of env i)
         then get (pf_active (snd (watch_tick env w p))) i = None \<and>
              (fst (watch_tick env w p) = [i] \<or>
               fst (watch_tick env w p) = [] \<and> (\<exists>hook reason. fe_hook env = Some hook \<and> hook i reason))
         else watch_tick env w p = ([], p)"
  proof (cases "fe_inspect env i")
    case (Inl e)
    then show ?thesis by (simp add: tick checkAndEnforce_def)
  next
    case (Inr run)
    show ?thesis
    proof (cases "isFinished (run_Status run)")
      case True
      then show ?thesis using Inr by (simp add: tick checkAndEnforce_def)
    next
      case False
      then show ?thesis using checkAndEnforce_running [OF Inr False, of policy p] Inr
        by (auto simp: tick killForViolation_cases split: if_splits)
    qed
  qed
  fix j assume "get (pf_active p) j = Some w"
  then show "watch_tick env w (Disarm j p) = ([], Disarm j p)"
    by (simp add: watch_tick_def Disarm_def stopWatching_def)
qed

definition demo_fury_policy :: PolicySnapshot where
  "demo_fury_policy = \<lparr>ps_MaxRuntime = 10, ps_MaxCPU = 0, ps_MaxMemory = 0, ps_MaxNetworkEgressBytes = 0,
     ps_MaxNetworkIngressBytes = 0, ps_MaxBannedIPAttempts = 0, ps_KillOnBreach = True\<rparr>"

definition demo_fury_env :: fury_env where
  "demo_fury_env = \<lparr>fe_now = 100, fe_inspect = \<lambda>i. Inr (zero_SandboxRun\<lparr>run_ID := i, run_Status := RunStatusRunning\<rparr>),
     fe_config = \<lambda>_. Inl ''no'', fe_stats = \<lambda>_. Inl ''no'', fe_drops = \<lambda>_. Inl ''no'', fe_hook = None\<rparr>"

theorem fury_enforces_witness:
  "fst (watch_tick demo_fury_env 0 (Arm (zero_SandboxRun\<lparr>run_ID := ''x''\<rparr>) demo_fury_policy NewPollFury)) = [''x'']"
proof -
  let ?p = "Arm (zero_SandboxRun\<lparr>run_ID := ''x''\<rparr>) demo_fury_policy NewPollFury"
  have "0 \<notin> set (pf_cancelled ?p)" "get (pf_watchers ?p) 0 = Some (''x'', demo_fury_policy)"
    by (simp_all add: Arm_def NewPollFury_def) (simp_all add: demo_fury_policy_def)
  from fury_enforces [OF this, of demo_fury_env] show ?thesis
    by (simp add: demo_fury_env_def breach_def demo_fury_policy_def isFinished_def zero_SandboxRun_def)
qed

text \<open>
  Arming a sandbox again replaces the cancel function: disarming then stops the new watcher only,
  and the first one goes on.
\<close>

lemma rearm_leaks_watcher:
  assumes "ps_KillOnBreach policy" "ps_KillOnBreach policy'" "pf_next p \<notin> set (pf_cancelled p)"
    and "p2 = Disarm (run_ID run) (Arm run policy' (Arm run policy p))"
  shows "pf_next p \<notin> set (pf_cancelled p2) \<and> get (pf_watchers p2) (pf_next p) = Some (run_ID run, policy) \<and>
    get (pf_active p2) (run_ID run) = None"
  using assms by (simp add: Arm_def Disarm_def stopWatching_def)

end
