(* ===== verification/Thanatos.thy ===== *)
theory Thanatos
  imports Hypnos Erinyes Hermes
begin

text \<open>
  Graceful termination (\<open>src/pkg/thanatos\<close>): grace policies and their resolution (\<open>policy.go\<close>), the
  export of logs (\<open>exporter.go\<close>), the handler and the shutdown controller (\<open>handler.go\<close>,
  \<open>controller.go\<close>), and the scheduler of deferred terminations (\<open>scheduler.go\<close>), whose goroutines are
  steps: the timer of a termination starts it, and its end is a later step.

  The runtime, hibernation and the object stores are those of \<open>Hypnos\<close>; an interface that was left nil is
  \<open>None\<close>, and calling it is the panic that a result of \<open>None\<close> stands for. One runtime serves the
  controller, its exporter and its hibernation manager. Clock readings, the failures
  of file operations and the text of a duration are arguments. Metrics and log lines are left out.
\<close>

section \<open>Grace policies\<close>

definition DefaultGracePeriod :: duration where "DefaultGracePeriod = 5 * second"
definition MaxGracePeriod :: duration where "MaxGracePeriod = 5 * minute"

record GracePolicy =
  gp_ID :: string
  gp_Name :: string
  gp_DefaultGrace :: duration
  gp_MaxGrace :: duration
  gp_CheckpointFirst :: bool
  gp_ExportLogs :: bool
  gp_ExportArtifacts :: bool

definition EffectiveGrace :: "GracePolicy \<Rightarrow> duration \<Rightarrow> duration" where
  "EffectiveGrace p requested =
     (let requested = (if requested \<le> 0 then gp_DefaultGrace p else requested);
          requested = (if requested \<le> 0 then DefaultGracePeriod else requested)
      in if gp_MaxGrace p > 0 \<and> requested > gp_MaxGrace p then gp_MaxGrace p
         else if requested > MaxGracePeriod then MaxGracePeriod
         else requested)"

datatype TerminationReason =
    ReasonUserRequest | ReasonPolicyBreach | ReasonResourceLimit | ReasonTimeLimit | ReasonSystemShutdown
  | ReasonNetworkViolation | ReasonOther string

definition reason_text :: "TerminationReason \<Rightarrow> string" where
  "reason_text r = (case r of
      ReasonUserRequest \<Rightarrow> ''user_request'' | ReasonPolicyBreach \<Rightarrow> ''policy_breach''
    | ReasonResourceLimit \<Rightarrow> ''resource_limit'' | ReasonTimeLimit \<Rightarrow> ''time_limit''
    | ReasonSystemShutdown \<Rightarrow> ''system_shutdown'' | ReasonNetworkViolation \<Rightarrow> ''network_violation''
    | ReasonOther s \<Rightarrow> s)"

record StaticPolicyResolver =
  pr_Default :: GracePolicy
  pr_TemplatePolicy :: "(TemplateID, GracePolicy option) gomap"
  pr_ReasonPolicy :: "(TerminationReason, GracePolicy option) gomap"

definition NewStaticPolicyResolver :: "GracePolicy option \<Rightarrow> StaticPolicyResolver" where
  "NewStaticPolicyResolver defaultPolicy =
     \<lparr>pr_Default = (case defaultPolicy of
         Some p \<Rightarrow> p
       | None \<Rightarrow> \<lparr>gp_ID = ''default'', gp_Name = ''Default Policy'', gp_DefaultGrace = DefaultGracePeriod,
                  gp_MaxGrace = MaxGracePeriod, gp_CheckpointFirst = False, gp_ExportLogs = False, gp_ExportArtifacts = False\<rparr>),
      pr_TemplatePolicy = [], pr_ReasonPolicy = []\<rparr>"

definition SetTemplatePolicy :: "TemplateID \<Rightarrow> GracePolicy option \<Rightarrow> StaticPolicyResolver \<Rightarrow> StaticPolicyResolver" where
  "SetTemplatePolicy templateID policy r = r\<lparr>pr_TemplatePolicy := put (pr_TemplatePolicy r) templateID policy\<rparr>"

definition SetReasonPolicy :: "TerminationReason \<Rightarrow> GracePolicy option \<Rightarrow> StaticPolicyResolver \<Rightarrow> StaticPolicyResolver" where
  "SetReasonPolicy reason policy r = r\<lparr>pr_ReasonPolicy := put (pr_ReasonPolicy r) reason policy\<rparr>"

definition ResolvePolicy :: "StaticPolicyResolver \<Rightarrow> TemplateID \<Rightarrow> TerminationReason \<Rightarrow> GracePolicy" where
  "ResolvePolicy r templateID reason =
     (case get (pr_ReasonPolicy r) reason of
        Some (Some policy) \<Rightarrow> policy
      | _ \<Rightarrow>
          (case get (pr_TemplatePolicy r) templateID of
             Some (Some policy) \<Rightarrow> policy
           | _ \<Rightarrow> pr_Default r))"

section \<open>Export\<close>

record ExportResult =
  er_SandboxID :: SandboxID
  er_LogsKey :: string
  er_ArtifactsKey :: string
  er_ExportedAt :: go_time
  er_LogsSize :: nat
  er_Error :: string

record export_env =
  xe_CreateTemp :: "string option"
  xe_Stat :: bool
  xe_Seek :: "string option"
  xe_Put :: "string option"
  xe_UnixNano :: nat
  xe_now :: go_time

definition ExportLogs ::
    "'r sandbox_ops \<Rightarrow> export_env \<Rightarrow> SandboxID \<Rightarrow> 'r \<Rightarrow> files \<Rightarrow> (ExportResult \<times> string option) \<times> files" where
  "ExportLogs rt env i r store =
     (let result = \<lparr>er_SandboxID = i, er_LogsKey = [], er_ArtifactsKey = [], er_ExportedAt = xe_now env, er_LogsSize = 0, er_Error = []\<rparr>;
          failed = (\<lambda>result msg err. ((result\<lparr>er_Error := msg @ '': '' @ err\<rparr>, Some (msg @ '': '' @ err)), store))
      in case xe_CreateTemp env of
           Some err \<Rightarrow> ((result\<lparr>er_Error := ''failed to create temp file: '' @ err\<rparr>, Some err), store)
         | None \<Rightarrow>
      (case so_StreamLogs rt i r of
         Inl err \<Rightarrow> failed result ''failed to stream logs'' err
       | Inr logs \<Rightarrow>
           let result = (if xe_Stat env then result\<lparr>er_LogsSize := length logs\<rparr> else result)
           in case xe_Seek env of
                Some err \<Rightarrow> failed result ''failed to seek logs file'' err
              | None \<Rightarrow>
                  let key = ''exports/'' @ i @ ''/logs/'' @ itoa (xe_UnixNano env) @ ''.log''
                  in case LocalStore_Put (xe_Put env) key logs store of
                       (Some err, store') \<Rightarrow>
                         ((result\<lparr>er_Error := ''failed to upload logs: '' @ err\<rparr>, Some (''failed to upload logs: '' @ err)), store')
                     | (None, store') \<Rightarrow> ((result\<lparr>er_LogsKey := key\<rparr>, None), store')))"

definition ExportAll ::
    "'r sandbox_ops \<Rightarrow> export_env \<Rightarrow> SandboxID \<Rightarrow> bool \<Rightarrow> bool \<Rightarrow> 'r \<Rightarrow> files \<Rightarrow> (ExportResult \<times> string option) \<times> files" where
  "ExportAll rt env i exportLogs exportArtifacts r store =
     (let result = \<lparr>er_SandboxID = i, er_LogsKey = [], er_ArtifactsKey = [], er_ExportedAt = xe_now env, er_LogsSize = 0, er_Error = []\<rparr>
      in if exportLogs then
           (case ExportLogs rt env i r store of
              ((logsResult, Some err), store') \<Rightarrow> ((result\<lparr>er_Error := er_Error logsResult\<rparr>, None), store')
            | ((logsResult, None), store') \<Rightarrow>
                ((result\<lparr>er_LogsKey := er_LogsKey logsResult, er_LogsSize := er_LogsSize logsResult\<rparr>, None), store'))
         else ((result, None), store))"

definition ExportForTermination ::
    "'r sandbox_ops \<Rightarrow> export_env \<Rightarrow> SandboxID \<Rightarrow> GracePolicy option \<Rightarrow> 'r \<Rightarrow> files \<Rightarrow> (ExportResult \<times> string option) \<times> files" where
  "ExportForTermination rt env i policy r store =
     (case policy of
        None \<Rightarrow> ((\<lparr>er_SandboxID = i, er_LogsKey = [], er_ArtifactsKey = [], er_ExportedAt = xe_now env, er_LogsSize = 0, er_Error = []\<rparr>,
                  None), store)
      | Some p \<Rightarrow> ExportAll rt env i (gp_ExportLogs p) (gp_ExportArtifacts p) r store)"

section \<open>The handler\<close>

datatype Phase = PhaseInitiated | PhaseGraceful | PhaseCheckpointed | PhaseKilled | PhaseCompleted | PhaseFailed

definition phase_text :: "Phase \<Rightarrow> string" where
  "phase_text p = (case p of
      PhaseInitiated \<Rightarrow> ''initiated'' | PhaseGraceful \<Rightarrow> ''graceful_shutdown'' | PhaseCheckpointed \<Rightarrow> ''checkpointed''
    | PhaseKilled \<Rightarrow> ''killed'' | PhaseCompleted \<Rightarrow> ''completed'' | PhaseFailed \<Rightarrow> ''failed'')"

definition grace_exceeded :: string where
  "grace_exceeded = ''grace period exceeded; sandbox killed''"

text \<open>The shutdown both the handler and the controller perform: the phase it ends in, the error, the
  exit code of a sandbox that ended by itself, and the runtime afterwards.\<close>

definition graceful_shutdown ::
    "'r sandbox_ops \<Rightarrow> SandboxID \<Rightarrow> duration \<Rightarrow> 'r \<Rightarrow> (Phase \<times> string option \<times> int option) \<times> 'r" where
  "graceful_shutdown rt i grace r =
     (case so_Shutdown rt i r of
        (Some err, r) \<Rightarrow> ((PhaseFailed, Some err, None), r)
      | (None, r) \<Rightarrow>
          (case so_Wait rt grace i r of
             (WaitDeadline, r) \<Rightarrow> ((PhaseKilled, Some grace_exceeded, None), snd (so_Kill rt i r))
           | (WaitError err, r) \<Rightarrow> ((PhaseFailed, Some err, None), r)
           | (WaitDone, r) \<Rightarrow>
               ((PhaseCompleted, None, case so_Inspect rt i r of Inl _ \<Rightarrow> None | Inr run \<Rightarrow> run_ExitCode run), r)))"

record Options =
  op_GracePeriod :: duration
  op_Reason :: string
  op_CreateCheckpoint :: bool

record handler_result =
  re_SandboxID :: SandboxID
  re_Phase :: Phase
  re_Reason :: string
  re_ExitCode :: "int option"
  re_Checkpoint :: string
  re_ErrorMessage :: string
  re_CompletedAt :: go_time

definition Terminate ::
    "'r sandbox_ops \<Rightarrow> (string \<Rightarrow> string) \<Rightarrow> bool \<Rightarrow> hypnos_env \<Rightarrow> go_time \<Rightarrow> SandboxID \<Rightarrow> Options \<Rightarrow> 'r hypnos
     \<Rightarrow> (handler_result \<times> string option) \<times> 'r hypnos" where
  "Terminate rt gz hypnos env now i opts s =
     (let res = \<lparr>re_SandboxID = i, re_Phase = PhaseInitiated, re_Reason = op_Reason opts, re_ExitCode = None, re_Checkpoint = [],
                 re_ErrorMessage = [], re_CompletedAt = 0\<rparr>;
          grace = (if op_GracePeriod opts = 0 then DefaultGracePeriod else op_GracePeriod opts)
      in if op_CreateCheckpoint opts \<and> hypnos then
           (case Sleep rt gz env i True s of
              (Inl err, s') \<Rightarrow> ((res\<lparr>re_Phase := PhaseFailed, re_ErrorMessage := err\<rparr>, Some err), s')
            | (Inr rec, s') \<Rightarrow>
                ((res\<lparr>re_Phase := PhaseCheckpointed, re_Checkpoint := sl_SnapshotKey rec, re_CompletedAt := now\<rparr>, None), s'))
         else
           (case graceful_shutdown rt i grace (hy_runtime s) of
              ((phase, None, code), r) \<Rightarrow>
                ((res\<lparr>re_Phase := phase, re_ExitCode := code, re_CompletedAt := now\<rparr>, None), s\<lparr>hy_runtime := r\<rparr>)
            | ((phase, Some err, _), r) \<Rightarrow>
                ((res\<lparr>re_Phase := phase, re_ErrorMessage := err\<rparr>, Some err), s\<lparr>hy_runtime := r\<rparr>)))"

section \<open>The controller\<close>

record 'r ShutdownController =
  ct_Runtime :: "'r sandbox_ops option"
  ct_Hypnos :: bool
  ct_PolicyResolver :: "SandboxID \<Rightarrow> TemplateID \<Rightarrow> TerminationReason \<Rightarrow> string + GracePolicy"
  ct_Exporter :: bool
  ct_Auditor :: bool

record TerminationRequest =
  tr_SandboxID :: SandboxID
  tr_TemplateID :: TemplateID
  tr_Reason :: TerminationReason
  tr_RequestedBy :: "audit_identity option"
  tr_ForceTimeout :: duration
  tr_SkipExport :: bool
  tr_SkipCheckpoint :: bool

record ControllerResult =
  cr_SandboxID :: SandboxID
  cr_Phase :: Phase
  cr_Reason :: TerminationReason
  cr_Policy :: "GracePolicy option"
  cr_GraceUsed :: duration
  cr_ExitCode :: "int option"
  cr_Checkpoint :: string
  cr_ExportResult :: "ExportResult option"
  cr_ErrorMessage :: string
  cr_InitiatedAt :: go_time
  cr_CompletedAt :: go_time

record term_env =
  te_hypnos :: hypnos_env
  te_export :: export_env
  te_start :: go_time
  te_end :: go_time
  te_duration :: "duration \<Rightarrow> string"

record 'r thanatos =
  th_hypnos :: "'r hypnos"
  th_exports :: files
  th_events :: "Event list"

definition audit_termination ::
    "term_env \<Rightarrow> TerminationRequest \<Rightarrow> ControllerResult \<Rightarrow> string \<Rightarrow> string option \<Rightarrow> go_time \<Rightarrow> Event" where
  "audit_termination env req result status err now =
     (let md = [(''reason'', reason_text (tr_Reason req)), (''phase'', phase_text (cr_Phase result)), (''status'', status),
                (''grace_used'', te_duration env (cr_GraceUsed result))];
          md = (if cr_Checkpoint result \<noteq> [] then put md ''checkpoint'' (cr_Checkpoint result) else md);
          md = (case cr_ExportResult result of
                  Some x \<Rightarrow> if er_LogsKey x \<noteq> [] then put md ''logs_key'' (er_LogsKey x) else md
                | None \<Rightarrow> md)
      in zero_Event\<lparr>ev_Timestamp := now, ev_Action := ''terminate'', ev_Result := (if err = None then ''success'' else ''error''),
           ev_Resource := \<lparr>ar_Type = ''sandbox'', ar_ID = tr_SandboxID req, ar_Name = []\<rparr>, ev_Identity := tr_RequestedBy req,
           ev_Metadata := md, ev_ErrorMessage := (case err of None \<Rightarrow> [] | Some e \<Rightarrow> e)\<rparr>)"

definition recordAuditEvent ::
    "'r ShutdownController \<Rightarrow> term_env \<Rightarrow> TerminationRequest \<Rightarrow> ControllerResult \<Rightarrow> string \<Rightarrow> string option \<Rightarrow> go_time
     \<Rightarrow> 'r thanatos \<Rightarrow> 'r thanatos" where
  "recordAuditEvent c env req result status err now s =
     (if ct_Auditor c then s\<lparr>th_events := th_events s @ [audit_termination env req result status err now]\<rparr> else s)"

definition fallback_policy :: GracePolicy where
  "fallback_policy = \<lparr>gp_ID = ''fallback'', gp_Name = ''Fallback Policy'', gp_DefaultGrace = DefaultGracePeriod, gp_MaxGrace = 0,
     gp_CheckpointFirst = False, gp_ExportLogs = False, gp_ExportArtifacts = False\<rparr>"

text \<open>The export step: \<open>None\<close> when the exporter would be called on a runtime that is nil.\<close>

definition export_step ::
    "'r ShutdownController \<Rightarrow> term_env \<Rightarrow> TerminationRequest \<Rightarrow> GracePolicy \<Rightarrow> ControllerResult \<Rightarrow> 'r thanatos
     \<Rightarrow> (ControllerResult \<times> 'r thanatos) option" where
  "export_step c env req policy result s =
     (if \<not> tr_SkipExport req \<and> ct_Exporter c \<and> (gp_ExportLogs policy \<or> gp_ExportArtifacts policy) then
        case ct_Runtime c of
          None \<Rightarrow> None
        | Some rt \<Rightarrow>
            (case ExportForTermination rt (te_export env) (tr_SandboxID req) (Some policy) (hy_runtime (th_hypnos s)) (th_exports s) of
               ((exportResult, _), store) \<Rightarrow> Some (result\<lparr>cr_ExportResult := Some exportResult\<rparr>, s\<lparr>th_exports := store\<rparr>))
      else Some (result, s))"

definition shutdown_step ::
    "'r ShutdownController \<Rightarrow> term_env \<Rightarrow> TerminationRequest \<Rightarrow> GracePolicy \<Rightarrow> ControllerResult \<Rightarrow> 'r thanatos
     \<Rightarrow> ((ControllerResult \<times> string option) \<times> 'r thanatos) option" where
  "shutdown_step c env req policy result s =
     (case ct_Runtime c of
        None \<Rightarrow> None
      | Some rt \<Rightarrow>
          (case graceful_shutdown rt (tr_SandboxID req) (EffectiveGrace policy (tr_ForceTimeout req)) (hy_runtime (th_hypnos s)) of
             ((phase, err, code), r) \<Rightarrow>
               let result = result\<lparr>cr_Phase := phase, cr_ExitCode := code,
                     cr_ErrorMessage := (case err of None \<Rightarrow> [] | Some e \<Rightarrow> e), cr_CompletedAt := te_end env,
                     cr_GraceUsed := te_end env - te_start env\<rparr>;
                   s = s\<lparr>th_hypnos := (th_hypnos s)\<lparr>hy_runtime := r\<rparr>\<rparr>
               in Some ((result, err), recordAuditEvent c env req result (phase_text phase) err (te_end env) s)))"

definition checkpoint_step ::
    "'r ShutdownController \<Rightarrow> (string \<Rightarrow> string) \<Rightarrow> term_env \<Rightarrow> TerminationRequest \<Rightarrow> GracePolicy \<Rightarrow> ControllerResult \<Rightarrow> 'r thanatos
     \<Rightarrow> ((ControllerResult \<times> string option) \<times> 'r thanatos) option" where
  "checkpoint_step c gz env req policy result s =
     (if \<not> tr_SkipCheckpoint req \<and> gp_CheckpointFirst policy \<and> ct_Hypnos c then
        case ct_Runtime c of
          None \<Rightarrow> None
        | Some rt \<Rightarrow>
            (case Sleep rt gz (te_hypnos env) (tr_SandboxID req) True (th_hypnos s) of
               (Inl _, h) \<Rightarrow> shutdown_step c env req policy result (s\<lparr>th_hypnos := h\<rparr>)
             | (Inr rec, h) \<Rightarrow>
                 let result = result\<lparr>cr_Phase := PhaseCheckpointed, cr_Checkpoint := sl_SnapshotKey rec,
                       cr_CompletedAt := te_end env, cr_GraceUsed := te_end env - te_start env\<rparr>
                 in Some ((result, None),
                      recordAuditEvent c env req result ''checkpointed'' None (te_end env) (s\<lparr>th_hypnos := h\<rparr>)))
      else shutdown_step c env req policy result s)"

datatype term_answer = NilRequest string | Answer ControllerResult "string option"

definition RequestTermination ::
    "'r ShutdownController \<Rightarrow> (string \<Rightarrow> string) \<Rightarrow> term_env \<Rightarrow> TerminationRequest option \<Rightarrow> 'r thanatos
     \<Rightarrow> (term_answer \<times> 'r thanatos) option" where
  "RequestTermination c gz env request s =
     (case request of
        None \<Rightarrow> Some (NilRequest ''termination request cannot be nil'', s)
      | Some req \<Rightarrow>
          let policy = (case ct_PolicyResolver c (tr_SandboxID req) (tr_TemplateID req) (tr_Reason req) of
                          Inr p \<Rightarrow> p | Inl _ \<Rightarrow> fallback_policy);
              result = \<lparr>cr_SandboxID = tr_SandboxID req, cr_Phase = PhaseInitiated, cr_Reason = tr_Reason req,
                        cr_Policy = Some policy, cr_GraceUsed = 0, cr_ExitCode = None, cr_Checkpoint = [], cr_ExportResult = None,
                        cr_ErrorMessage = [], cr_InitiatedAt = te_start env, cr_CompletedAt = 0\<rparr>;
              s = recordAuditEvent c env req result ''initiated'' None (te_start env) s
          in case export_step c env req policy result s of
               None \<Rightarrow> None
             | Some (result, s) \<Rightarrow>
                 (case checkpoint_step c gz env req policy result s of
                    None \<Rightarrow> None
                  | Some ((result, err), s) \<Rightarrow> Some (Answer result err, s)))"

definition mapToTerminationReason :: "string \<Rightarrow> TerminationReason" where
  "mapToTerminationReason reason =
     (if reason \<in> {''runtime_exceeded'', ''time_limit''} then ReasonTimeLimit
      else if reason \<in> {''memory_exceeded'', ''resource_limit''} then ReasonResourceLimit
      else if reason \<in> {''network_egress_exceeded'', ''network_ingress_exceeded'', ''banned_ip_attempts_exceeded''}
      then ReasonNetworkViolation
      else ReasonPolicyBreach)"

definition GracefulKillHandler ::
    "'r ShutdownController \<Rightarrow> (string \<Rightarrow> string) \<Rightarrow> term_env \<Rightarrow> TemplateID \<Rightarrow> SandboxID \<Rightarrow> string \<Rightarrow> 'r thanatos
     \<Rightarrow> (bool \<times> 'r thanatos) option" where
  "GracefulKillHandler c gz env templateID i reason s =
     (case RequestTermination c gz env (Some \<lparr>tr_SandboxID = i, tr_TemplateID = templateID,
          tr_Reason = mapToTerminationReason reason, tr_RequestedBy = None, tr_ForceTimeout = 0, tr_SkipExport = False,
          tr_SkipCheckpoint = False\<rparr>) s of
        None \<Rightarrow> None
      | Some (Answer result None, s') \<Rightarrow> Some (cr_Phase result = PhaseCompleted \<or> cr_Phase result = PhaseCheckpointed, s')
      | Some (_, s') \<Rightarrow> Some (False, s'))"

section \<open>Deferred terminations\<close>

datatype DeferredStatus = StatusPending | StatusInProgress | StatusCompleted | StatusCancelled | StatusFailed

record DeferredTerminationRequest =
  dr_SandboxID :: SandboxID
  dr_TemplateID :: TemplateID
  dr_Delay :: duration
  dr_GracePeriod :: duration
  dr_CreateCheckpoint :: bool
  dr_Reason :: string
  dr_RequestedBy :: string

record deferredTermination =
  dt_ID :: string
  dt_Request :: DeferredTerminationRequest
  dt_ScheduledAt :: go_time
  dt_Status :: DeferredStatus
  dt_CheckpointID :: string
  dt_Result :: "ControllerResult option"
  dt_Error :: "string option"

record DeferredScheduler =
  ds_terminations :: "(string, deferredTermination) gomap"
  ds_byBandbox :: "(SandboxID, string) gomap"

definition NewDeferredScheduler :: DeferredScheduler where
  "NewDeferredScheduler = \<lparr>ds_terminations = [], ds_byBandbox = []\<rparr>"

record DeferredTerminationResponse =
  rp_TerminationID :: string
  rp_SandboxID :: SandboxID
  rp_ScheduledAt :: go_time
  rp_Status :: DeferredStatus
  rp_CheckpointID :: string
  rp_Result :: "ControllerResult option"
  rp_ErrorMessage :: string

datatype term_error = ErrTerminationNotFound | ErrTerminationAlreadyCancelled | TermError string

definition pending_for :: "DeferredScheduler \<Rightarrow> SandboxID \<Rightarrow> bool" where
  "pending_for s i =
     (case get (ds_byBandbox s) i of
        None \<Rightarrow> False
      | Some existingID \<Rightarrow>
          (case get (ds_terminations s) existingID of
             None \<Rightarrow> False
           | Some existing \<Rightarrow> dt_Status existing = StatusPending))"

definition Schedule ::
    "string \<Rightarrow> go_time \<Rightarrow> DeferredTerminationRequest option \<Rightarrow> DeferredScheduler
     \<Rightarrow> (term_error + DeferredTerminationResponse) \<times> DeferredScheduler" where
  "Schedule uuid now request s =
     (case request of
        None \<Rightarrow> (Inl (TermError ''request cannot be nil''), s)
      | Some req \<Rightarrow>
          let scheduledAt = now + dr_Delay req;
              dt = \<lparr>dt_ID = uuid, dt_Request = req, dt_ScheduledAt = scheduledAt, dt_Status = StatusPending, dt_CheckpointID = [],
                    dt_Result = None, dt_Error = None\<rparr>
          in if pending_for s (dr_SandboxID req) then (Inl (TermError ''termination already scheduled for this sandbox''), s)
             else (Inr \<lparr>rp_TerminationID = uuid, rp_SandboxID = dr_SandboxID req, rp_ScheduledAt = scheduledAt,
                        rp_Status = StatusPending, rp_CheckpointID = [], rp_Result = None, rp_ErrorMessage = []\<rparr>,
                   s\<lparr>ds_terminations := put (ds_terminations s) uuid dt, ds_byBandbox := put (ds_byBandbox s) (dr_SandboxID req) uuid\<rparr>))"

definition mapStringToTerminationReason :: "string \<Rightarrow> TerminationReason" where
  "mapStringToTerminationReason reason =
     (if reason \<in> {''user_request'', ''user''} then ReasonUserRequest
      else if reason \<in> {''policy_breach'', ''policy''} then ReasonPolicyBreach
      else if reason \<in> {''resource_limit'', ''resources''} then ReasonResourceLimit
      else if reason \<in> {''time_limit'', ''timeout''} then ReasonTimeLimit
      else if reason \<in> {''system_shutdown'', ''shutdown''} then ReasonSystemShutdown
      else ReasonUserRequest)"

text \<open>\<open>executeDeferred\<close> in two steps: what happens when the timer fires, with the request that is then
  handed to the controller, and what happens when the controller has answered.\<close>

definition begin_deferred :: "string \<Rightarrow> DeferredScheduler \<Rightarrow> TerminationRequest option \<times> DeferredScheduler" where
  "begin_deferred tid s =
     (case get (ds_terminations s) tid of
        None \<Rightarrow> (None, s)
      | Some dt \<Rightarrow>
          if dt_Status dt \<noteq> StatusPending then (None, s)
          else (Some \<lparr>tr_SandboxID = dr_SandboxID (dt_Request dt), tr_TemplateID = dr_TemplateID (dt_Request dt),
                      tr_Reason = mapStringToTerminationReason (dr_Reason (dt_Request dt)), tr_RequestedBy = None,
                      tr_ForceTimeout = dr_GracePeriod (dt_Request dt), tr_SkipExport = False,
                      tr_SkipCheckpoint = \<not> dr_CreateCheckpoint (dt_Request dt)\<rparr>,
                s\<lparr>ds_terminations := put (ds_terminations s) tid (dt\<lparr>dt_Status := StatusInProgress\<rparr>)\<rparr>))"

definition finish_deferred :: "string \<Rightarrow> ControllerResult option \<Rightarrow> string option \<Rightarrow> DeferredScheduler \<Rightarrow> DeferredScheduler" where
  "finish_deferred tid result err s =
     (case get (ds_terminations s) tid of
        None \<Rightarrow> s
      | Some dt \<Rightarrow>
          let dt = dt\<lparr>dt_Result := result, dt_Error := err\<rparr>;
              dt = (if err \<noteq> None then dt\<lparr>dt_Status := StatusFailed\<rparr>
                    else let dt = dt\<lparr>dt_Status := StatusCompleted\<rparr>
                         in case result of
                              None \<Rightarrow> dt
                            | Some res \<Rightarrow> if cr_Checkpoint res \<noteq> [] then dt\<lparr>dt_CheckpointID := cr_Checkpoint res\<rparr> else dt)
          in s\<lparr>ds_terminations := put (ds_terminations s) tid dt\<rparr>)"

definition executeDeferred ::
    "'r ShutdownController \<Rightarrow> (string \<Rightarrow> string) \<Rightarrow> term_env \<Rightarrow> string \<Rightarrow> DeferredScheduler \<Rightarrow> 'r thanatos
     \<Rightarrow> (DeferredScheduler \<times> 'r thanatos) option" where
  "executeDeferred c gz env tid s th =
     (case begin_deferred tid s of
        (None, s) \<Rightarrow> Some (s, th)
      | (Some req, s) \<Rightarrow>
          (case RequestTermination c gz env (Some req) th of
             None \<Rightarrow> None
           | Some (Answer res err, th) \<Rightarrow> Some (finish_deferred tid (Some res) err s, th)
           | Some (NilRequest msg, th) \<Rightarrow> Some (finish_deferred tid None (Some msg) s, th)))"

definition Cancel :: "string \<Rightarrow> DeferredScheduler \<Rightarrow> term_error option \<times> DeferredScheduler" where
  "Cancel tid s =
     (case get (ds_terminations s) tid of
        None \<Rightarrow> (Some ErrTerminationNotFound, s)
      | Some dt \<Rightarrow>
          if dt_Status dt \<noteq> StatusPending then
            (if dt_Status dt = StatusCancelled then (Some ErrTerminationAlreadyCancelled, s)
             else (Some (TermError ''termination already in progress or completed''), s))
          else (None, s\<lparr>ds_terminations := put (ds_terminations s) tid (dt\<lparr>dt_Status := StatusCancelled\<rparr>)\<rparr>))"

definition sched_Get :: "string \<Rightarrow> DeferredScheduler \<Rightarrow> term_error + DeferredTerminationResponse" where
  "sched_Get tid s =
     (case get (ds_terminations s) tid of
        None \<Rightarrow> Inl ErrTerminationNotFound
      | Some dt \<Rightarrow> Inr \<lparr>rp_TerminationID = dt_ID dt, rp_SandboxID = dr_SandboxID (dt_Request dt), rp_ScheduledAt = dt_ScheduledAt dt,
          rp_Status = dt_Status dt, rp_CheckpointID = dt_CheckpointID dt, rp_Result = dt_Result dt,
          rp_ErrorMessage = (case dt_Error dt of None \<Rightarrow> [] | Some e \<Rightarrow> e)\<rparr>)"

definition GetBySandbox :: "SandboxID \<Rightarrow> DeferredScheduler \<Rightarrow> term_error + DeferredTerminationResponse" where
  "GetBySandbox i s =
     (case get (ds_byBandbox s) i of
        None \<Rightarrow> Inl ErrTerminationNotFound
      | Some tid \<Rightarrow> sched_Get tid s)"

record CheckpointInfo =
  ci_ID :: string
  ci_SandboxID :: SandboxID
  ci_TemplateID :: TemplateID
  ci_CreatedAt :: go_time
  ci_Resumable :: bool

definition ListCheckpoints :: "'r hypnos option \<Rightarrow> SandboxID \<Rightarrow> string + CheckpointInfo list" where
  "ListCheckpoints hypnos i =
     (case hypnos of
        None \<Rightarrow> Inl ''hypnos manager not configured''
      | Some h \<Rightarrow> Inr (map (\<lambda>rec. \<lparr>ci_ID = sl_SnapshotKey rec, ci_SandboxID = sl_SandboxID rec,
                             ci_TemplateID = req_Template (sl_Request rec), ci_CreatedAt = sl_CreatedAt rec, ci_Resumable = True\<rparr>)
                       (filter (\<lambda>rec. \<not> (i \<noteq> [] \<and> sl_SandboxID rec \<noteq> i)) (hypnos_List h))))"

fun find_checkpoint :: "SleepRecord list \<Rightarrow> string \<Rightarrow> SandboxID" where
  "find_checkpoint [] key = []"
| "find_checkpoint (rec # recs) key = (if sl_SnapshotKey rec = key then sl_SandboxID rec else find_checkpoint recs key)"

datatype resume_error = ErrCheckpointNotFound | ResumeError string

definition sched_Resume ::
    "'r sandbox_ops \<Rightarrow> (string \<Rightarrow> string + string) \<Rightarrow> hypnos_env \<Rightarrow> string option \<Rightarrow> 'r hypnos option
     \<Rightarrow> (resume_error + SandboxID \<times> string \<times> NodeID) \<times> 'r hypnos option" where
  "sched_Resume rt unz env request hypnos =
     (case hypnos of
        None \<Rightarrow> (Inl (ResumeError ''hypnos manager not configured''), None)
      | Some h \<Rightarrow>
          (case request of
             None \<Rightarrow> (Inl (ResumeError ''checkpoint ID is required''), Some h)
           | Some key \<Rightarrow>
               if key = [] then (Inl (ResumeError ''checkpoint ID is required''), Some h)
               else let i = find_checkpoint (hypnos_List h) key
                    in if i = [] then (Inl ErrCheckpointNotFound, Some h)
                       else case Wake rt unz env i h of
                              (Inl err, h') \<Rightarrow> (Inl (ResumeError err), Some h')
                            | (Inr run, h') \<Rightarrow> (Inr (run_ID run, key, run_NodeID run), Some h')))"

definition stale :: "go_time \<Rightarrow> deferredTermination \<Rightarrow> bool" where
  "stale cutoff dt \<longleftrightarrow> dt_Status dt \<noteq> StatusPending \<and> dt_Status dt \<noteq> StatusInProgress \<and> dt_ScheduledAt dt < cutoff"

fun cleanup_loop :: "go_time \<Rightarrow> (string \<times> deferredTermination) list \<Rightarrow> nat \<Rightarrow> DeferredScheduler \<Rightarrow> nat \<times> DeferredScheduler" where
  "cleanup_loop cutoff [] removed s = (removed, s)"
| "cleanup_loop cutoff ((tid, dt) # dts) removed s =
     (if stale cutoff dt then
        cleanup_loop cutoff dts (removed + 1)
          (s\<lparr>ds_terminations := del (ds_terminations s) tid, ds_byBandbox := del (ds_byBandbox s) (dr_SandboxID (dt_Request dt))\<rparr>)
      else cleanup_loop cutoff dts removed s)"

definition Cleanup :: "go_time \<Rightarrow> duration \<Rightarrow> DeferredScheduler \<Rightarrow> nat \<times> DeferredScheduler" where
  "Cleanup now maxAge s = cleanup_loop (now - maxAge) (ds_terminations s) 0 s"

section \<open>Grace periods\<close>

text \<open>
  A grace period is always positive; it never exceeds five minutes or the limit of the policy,
  whichever is longer, and under a limit of at most five minutes never the limit. A positive request
  within both limits is granted as it is.\<close>

theorem grace_bounded:
  "0 < EffectiveGrace p d \<and> EffectiveGrace p d \<le> max MaxGracePeriod (gp_MaxGrace p) \<and>
   (0 < gp_MaxGrace p \<and> gp_MaxGrace p \<le> MaxGracePeriod \<longrightarrow> EffectiveGrace p d \<le> gp_MaxGrace p) \<and>
   (0 < d \<and> d \<le> MaxGracePeriod \<and> (0 < gp_MaxGrace p \<longrightarrow> d \<le> gp_MaxGrace p) \<longrightarrow> EffectiveGrace p d = d)"
  by (auto simp: EffectiveGrace_def MaxGracePeriod_def DefaultGracePeriod_def Let_def)

theorem grace_bounded_witness:
  "EffectiveGrace (fallback_policy\<lparr>gp_MaxGrace := minute\<rparr>) (2 * minute) \<le> minute \<and>
   EffectiveGrace (fallback_policy\<lparr>gp_MaxGrace := minute\<rparr>) second = second"
  using grace_bounded [of "fallback_policy\<lparr>gp_MaxGrace := minute\<rparr>" "2 * minute"]
    grace_bounded [of "fallback_policy\<lparr>gp_MaxGrace := minute\<rparr>" second]
  by (simp add: MaxGracePeriod_def)

text \<open>The hard cap gives way to a policy above it, and then a longer request gets a longer period than
  the cap while a shorter one is cut to it.\<close>

lemma hard_cap_exceeded:
  assumes "gp_MaxGrace p = 10 * minute"
  shows "EffectiveGrace p (7 * minute) = MaxGracePeriod \<and> EffectiveGrace p (11 * minute) = 10 * minute"
  using assms by (simp add: EffectiveGrace_def MaxGracePeriod_def)

lemma network_violation_lost: "mapStringToTerminationReason (reason_text ReasonNetworkViolation) = ReasonUserRequest"
  by (simp add: mapStringToTerminationReason_def reason_text_def)

section \<open>What a termination leaves\<close>

definition final_phase :: "Phase \<Rightarrow> bool" where
  "final_phase p \<longleftrightarrow> p \<in> {PhaseCheckpointed, PhaseKilled, PhaseCompleted, PhaseFailed}"

text \<open>An audit event that tells of a phase.\<close>

definition tells :: "TerminationRequest \<Rightarrow> Phase \<Rightarrow> string option \<Rightarrow> Event \<Rightarrow> bool" where
  "tells req p err e \<longleftrightarrow> ev_Action e = ''terminate'' \<and> ar_ID (ev_Resource e) = tr_SandboxID req \<and>
     get (ev_Metadata e) ''phase'' = Some (phase_text p) \<and> (ev_Result e = ''success'' \<longleftrightarrow> err = None)"

lemma audit_tells: "tells req (cr_Phase result) err (audit_termination env req result status err now)"
  by (auto simp: tells_def audit_termination_def Let_def split: option.splits)

lemma shutdown_cases:
  "graceful_shutdown rt i grace r = ((p, err, code), r') \<Longrightarrow> final_phase p \<and> p \<noteq> PhaseCheckpointed \<and> (err = None \<longleftrightarrow> p = PhaseCompleted)"
  by (auto simp: graceful_shutdown_def final_phase_def grace_exceeded_def split: prod.splits option.splits wait_outcome.splits)

lemma shutdown_killed:
  "graceful_shutdown rt i grace r = ((PhaseKilled, err, code), r') \<Longrightarrow> \<exists>r0. r' = snd (so_Kill rt i r0)"
  by (auto simp: graceful_shutdown_def split: prod.splits option.splits wait_outcome.splits)

definition tail_told :: "'r ShutdownController \<Rightarrow> TerminationRequest \<Rightarrow> 'r thanatos \<Rightarrow> Phase \<Rightarrow> string option \<Rightarrow> 'r thanatos \<Rightarrow> bool" where
  "tail_told c req s p err s' \<longleftrightarrow> (if ct_Auditor c then \<exists>e. th_events s' = th_events s @ [e] \<and> tells req p err e else th_events s' = th_events s)"

lemma record_told:
  "tail_told c req s (cr_Phase result) err (recordAuditEvent c env req result status err now (s\<lparr>th_hypnos := h\<rparr>))"
  using audit_tells [of req result err env status now] by (auto simp: tail_told_def recordAuditEvent_def)

lemma record_hypnos [simp]: "th_hypnos (recordAuditEvent c env req result status err now s) = th_hypnos s"
  by (simp add: recordAuditEvent_def)

text \<open>What a termination that has got past its export promises.\<close>

definition accounted ::
    "'r ShutdownController \<Rightarrow> 'r sandbox_ops \<Rightarrow> TerminationRequest \<Rightarrow> ControllerResult \<Rightarrow> string option \<Rightarrow> 'r thanatos \<Rightarrow> bool" where
  "accounted c rt req res err s' \<longleftrightarrow> cr_SandboxID res = tr_SandboxID req \<and> final_phase (cr_Phase res) \<and>
     (err = None \<longleftrightarrow> cr_Phase res = PhaseCompleted \<or> cr_Phase res = PhaseCheckpointed) \<and>
     (cr_Phase res = PhaseCheckpointed \<longrightarrow>
        (\<exists>rec. get (hy_sleeping (th_hypnos s')) (tr_SandboxID req) = Some rec \<and> sl_SnapshotKey rec = cr_Checkpoint res)) \<and>
     (cr_Phase res = PhaseKilled \<longrightarrow> (\<exists>r. hy_runtime (th_hypnos s') = snd (so_Kill rt (tr_SandboxID req) r)))"

lemma shutdown_step_ok:
  assumes "ct_Runtime c = Some rt" "cr_SandboxID result = tr_SandboxID req"
  shows "\<exists>res err s'. shutdown_step c env req policy result (s\<lparr>th_hypnos := h\<rparr>) = Some ((res, err), s') \<and> accounted c rt req res err s' \<and>
    tail_told c req s (cr_Phase res) err s'"
proof -
  obtain p err code r where g: "graceful_shutdown rt (tr_SandboxID req) (EffectiveGrace policy (tr_ForceTimeout req)) (hy_runtime h) =
      ((p, err, code), r)" by (metis prod_cases3 surj_pair)
  let ?res = "result\<lparr>cr_Phase := p, cr_ExitCode := code, cr_ErrorMessage := (case err of None \<Rightarrow> [] | Some e \<Rightarrow> e),
    cr_CompletedAt := te_end env, cr_GraceUsed := te_end env - te_start env\<rparr>"
  let ?s = "recordAuditEvent c env req ?res (phase_text p) err (te_end env) (s\<lparr>th_hypnos := h\<lparr>hy_runtime := r\<rparr>\<rparr>)"
  have "shutdown_step c env req policy result (s\<lparr>th_hypnos := h\<rparr>) = Some ((?res, err), ?s)"
    using assms(1) g by (simp add: shutdown_step_def Let_def)
  moreover have "accounted c rt req ?res err ?s"
    using shutdown_cases [OF g] shutdown_killed [of rt "tr_SandboxID req"] g assms(2) by (auto simp: accounted_def)
  moreover have "tail_told c req s p err ?s" using record_told [of c req s ?res err] by simp
  ultimately show ?thesis by fastforce
qed

lemma Sleep_sleeping: "Sleep rt gz env i graceful s = (Inr rec, s') \<Longrightarrow> get (hy_sleeping s') i = Some rec"
  using Sleep_cases [of rt gz env i graceful s "Inr rec" s'] by simp

lemma checkpoint_step_ok:
  assumes "ct_Runtime c = Some rt" "cr_SandboxID result = tr_SandboxID req"
  shows "\<exists>res err s'. checkpoint_step c gz env req policy result s = Some ((res, err), s') \<and> accounted c rt req res err s' \<and>
    tail_told c req s (cr_Phase res) err s'"
proof (cases "\<not> tr_SkipCheckpoint req \<and> gp_CheckpointFirst policy \<and> ct_Hypnos c")
  case True
  obtain x h where sl: "Sleep rt gz (te_hypnos env) (tr_SandboxID req) True (th_hypnos s) = (x, h)" by fastforce
  show ?thesis
  proof (cases x)
    case (Inl err)
    then show ?thesis using shutdown_step_ok [OF assms, where s = s and h = h] True sl assms(1) by (simp add: checkpoint_step_def)
  next
    case (Inr rec)
    let ?res = "result\<lparr>cr_Phase := PhaseCheckpointed, cr_Checkpoint := sl_SnapshotKey rec,
      cr_CompletedAt := te_end env, cr_GraceUsed := te_end env - te_start env\<rparr>"
    have "accounted c rt req ?res None (recordAuditEvent c env req ?res ''checkpointed'' None (te_end env) (s\<lparr>th_hypnos := h\<rparr>))"
      using Sleep_sleeping [OF sl [unfolded Inr]] assms(2) by (simp add: accounted_def final_phase_def)
    then show ?thesis using True sl Inr assms(1) record_told [of c req s ?res None] by (simp add: checkpoint_step_def Let_def)
  qed
next
  case False
  then have "checkpoint_step c gz env req policy result s = shutdown_step c env req policy result s"
    unfolding checkpoint_step_def by (rule if_not_P)
  then show ?thesis using shutdown_step_ok [OF assms, where s = s and h = "th_hypnos s"] by simp
qed

lemma export_step_ok:
  assumes "ct_Runtime c = Some rt"
  shows "\<exists>r1 s1. export_step c env req policy result s = Some (r1, s1) \<and> cr_SandboxID r1 = cr_SandboxID result \<and> th_events s1 = th_events s"
  using assms by (auto simp: export_step_def split: prod.split)

text \<open>
  C12: With a runtime, a termination request is always answered and accounted for. It ends in one of the
  four final phases, with an error exactly when the sandbox was killed or something failed. A
  checkpointed sandbox is asleep under the key that is answered, and one that outlived its grace period
  was killed. The auditor gets two events, one that tells of the start and one that tells of the phase
  and of the error.\<close>

theorem termination_accounted:
  assumes "ct_Runtime c = Some rt"
  shows "\<exists>res err s'. RequestTermination c gz env (Some req) s = Some (Answer res err, s') \<and> accounted c rt req res err s' \<and>
    (ct_Auditor c \<longrightarrow> (\<exists>e1 e2. th_events s' = th_events s @ [e1, e2] \<and> tells req PhaseInitiated None e1 \<and> tells req (cr_Phase res) err e2))"
proof -
  let ?p = "case ct_PolicyResolver c (tr_SandboxID req) (tr_TemplateID req) (tr_Reason req) of Inr p \<Rightarrow> p | Inl _ \<Rightarrow> fallback_policy"
  let ?r0 = "\<lparr>cr_SandboxID = tr_SandboxID req, cr_Phase = PhaseInitiated, cr_Reason = tr_Reason req, cr_Policy = Some ?p,
    cr_GraceUsed = 0, cr_ExitCode = None, cr_Checkpoint = [], cr_ExportResult = None, cr_ErrorMessage = [],
    cr_InitiatedAt = te_start env, cr_CompletedAt = 0\<rparr>"
  let ?s0 = "recordAuditEvent c env req ?r0 ''initiated'' None (te_start env) s"
  obtain r1 s1 where x: "export_step c env req ?p ?r0 ?s0 = Some (r1, s1)" "cr_SandboxID r1 = tr_SandboxID req" "th_events s1 = th_events ?s0"
    using export_step_ok [OF assms, of env req ?p ?r0 ?s0] by auto
  from checkpoint_step_ok [OF assms x(2), where s = s1 and gz = gz and env = env and policy = ?p] obtain res err s' where
    k: "checkpoint_step c gz env req ?p r1 s1 = Some ((res, err), s')" "accounted c rt req res err s'" "tail_told c req s1 (cr_Phase res) err s'"
    by blast
  have "RequestTermination c gz env (Some req) s = Some (Answer res err, s')"
    using x(1) k(1) by (simp add: RequestTermination_def Let_def)
  moreover have "\<exists>e1 e2. th_events s' = th_events s @ [e1, e2] \<and> tells req PhaseInitiated None e1 \<and> tells req (cr_Phase res) err e2"
    if "ct_Auditor c"
    using k(3) x(3) that audit_tells [of req ?r0 None env "''initiated''" "te_start env"]
    by (auto simp: tail_told_def recordAuditEvent_def)
  ultimately show ?thesis using k(2) by blast
qed

definition demo_controller :: "MockRuntime ShutdownController" where
  "demo_controller = \<lparr>ct_Runtime = Some (mock_sandbox_ops 5), ct_Hypnos = True,
     ct_PolicyResolver = (\<lambda>i t r. Inr (ResolvePolicy (NewStaticPolicyResolver None) t r)), ct_Exporter = False, ct_Auditor = True\<rparr>"

definition demo_term_env :: term_env where
  "demo_term_env = \<lparr>te_hypnos = calm 7, te_export = \<lparr>xe_CreateTemp = None, xe_Stat = True, xe_Seek = None, xe_Put = None, xe_UnixNano = 7, xe_now = 7\<rparr>,
     te_start = 1, te_end = 4, te_duration = (\<lambda>d. itoa (nat d))\<rparr>"

definition demo_request_x :: TerminationRequest where
  "demo_request_x = \<lparr>tr_SandboxID = ''x'', tr_TemplateID = [], tr_Reason = ReasonUserRequest, tr_RequestedBy = None, tr_ForceTimeout = 0,
     tr_SkipExport = False, tr_SkipCheckpoint = True\<rparr>"

theorem termination_accounted_witness:
  "\<exists>res err s'. RequestTermination demo_controller demo_gz demo_term_env (Some demo_request_x)
     \<lparr>th_hypnos = demo_awake, th_exports = [], th_events = []\<rparr> = Some (Answer res err, s') \<and>
   accounted demo_controller (mock_sandbox_ops 5) demo_request_x res err s' \<and> length (th_events s') = 2"
proof -
  have rt: "ct_Runtime demo_controller = Some (mock_sandbox_ops 5)" "ct_Auditor demo_controller" by (simp_all add: demo_controller_def)
  from termination_accounted [OF rt(1), of demo_gz demo_term_env demo_request_x "\<lparr>th_hypnos = demo_awake, th_exports = [], th_events = []\<rparr>"] rt(2)
  show ?thesis by fastforce
qed

section \<open>Deferred terminations run once\<close>

text \<open>
  The states of the scheduler, with the terminations that were started (in the order of their start),
  those whose cancellation was acknowledged, and the identifiers in use. Whether old terminations are
  cleaned up is a parameter.
\<close>

inductive sched_reach :: "bool \<Rightarrow> DeferredScheduler \<Rightarrow> string list \<Rightarrow> string set \<Rightarrow> string set \<Rightarrow> bool" for cleanups where
  start: "sched_reach cleanups NewDeferredScheduler [] {} {}"
| schedule: "sched_reach cleanups s St Ca U \<Longrightarrow> uuid \<notin> U \<Longrightarrow> Schedule uuid now req s = (res, s') \<Longrightarrow> sched_reach cleanups s' St Ca (insert uuid U)"
| begins: "sched_reach cleanups s St Ca U \<Longrightarrow> begin_deferred tid s = (Some req, s') \<Longrightarrow> sched_reach cleanups s' (St @ [tid]) Ca U"
| late: "sched_reach cleanups s St Ca U \<Longrightarrow> begin_deferred tid s = (None, s') \<Longrightarrow> sched_reach cleanups s' St Ca U"
| finish: "sched_reach cleanups s St Ca U \<Longrightarrow> get (ds_terminations s) tid = Some dt \<Longrightarrow> dt_Status dt = StatusInProgress \<Longrightarrow>
     sched_reach cleanups (finish_deferred tid result err s) St Ca U"
| cancel: "sched_reach cleanups s St Ca U \<Longrightarrow> Cancel tid s = (None, s') \<Longrightarrow> sched_reach cleanups s' St (insert tid Ca) U"
| not_cancelled: "sched_reach cleanups s St Ca U \<Longrightarrow> Cancel tid s = (Some err, s') \<Longrightarrow> sched_reach cleanups s' St Ca U"
| cleanup: "sched_reach cleanups s St Ca U \<Longrightarrow> cleanups \<Longrightarrow> Cleanup now maxAge s = (n, s') \<Longrightarrow> sched_reach cleanups s' St Ca U"

definition sched_inv :: "DeferredScheduler \<Rightarrow> string list \<Rightarrow> string set \<Rightarrow> string set \<Rightarrow> bool" where
  "sched_inv s St Ca U \<longleftrightarrow> distinct St \<and> set St \<inter> Ca = {} \<and> set St \<union> Ca \<subseteq> U \<and>
     (\<forall>tid dt. get (ds_terminations s) tid = Some dt \<longrightarrow> tid \<in> U \<and> (dt_Status dt = StatusPending \<longrightarrow> tid \<notin> set St \<union> Ca))"

lemma cleanup_loop_keeps:
  "get (ds_terminations (snd (cleanup_loop cutoff dts n s))) tid = Some dt \<Longrightarrow> get (ds_terminations s) tid = Some dt"
  by (induction cutoff dts n s rule: cleanup_loop.induct) (auto split: if_splits)

lemma finish_status:
  "get (ds_terminations (finish_deferred tid result err s)) j = Some dt \<Longrightarrow>
     (\<exists>dt0. get (ds_terminations s) j = Some dt0 \<and> dt_Request dt = dt_Request dt0 \<and> (j = tid \<and> dt_Status dt \<in> {StatusFailed, StatusCompleted} \<or> dt = dt0))"
  by (auto simp: finish_deferred_def Let_def split: option.splits if_splits)

lemma finish_bySandbox [simp]: "ds_byBandbox (finish_deferred tid result err s) = ds_byBandbox s"
  by (simp add: finish_deferred_def Let_def split: option.split)

lemma sched_reach_inv: "sched_reach cleanups s St Ca U \<Longrightarrow> sched_inv s St Ca U"
proof (induction rule: sched_reach.induct)
  case start
  then show ?case by (simp add: sched_inv_def NewDeferredScheduler_def)
next
  case (schedule s St Ca U uuid now req res s')
  then show ?case by (auto simp: sched_inv_def Schedule_def Let_def split: option.splits if_splits)
next
  case (begins s St Ca U tid req s')
  then show ?case by (auto simp: sched_inv_def begin_deferred_def split: option.splits if_splits)
next
  case (late s St Ca U tid s')
  then show ?case by (auto simp: begin_deferred_def split: option.splits if_splits)
next
  case (finish s St Ca U tid dt result err)
  then show ?case unfolding sched_inv_def by (fastforce dest: finish_status)
next
  case (cancel s St Ca U tid s')
  then show ?case by (auto simp: sched_inv_def Cancel_def split: option.splits if_splits)
next
  case (not_cancelled s St Ca U tid err s')
  then show ?case by (auto simp: Cancel_def split: option.splits if_splits)
next
  case (cleanup s St Ca U now maxAge n s')
  have "get (ds_terminations s') tid = Some dt \<Longrightarrow> get (ds_terminations s) tid = Some dt" for tid dt
    using cleanup_loop_keeps [of "now - maxAge" "ds_terminations s" 0 s tid dt] cleanup.hyps(3) by (simp add: Cleanup_def)
  then show ?case using cleanup.IH unfolding sched_inv_def by blast
qed

text \<open>Without clean-ups the index by sandbox knows every pending termination.\<close>

definition indexed :: "DeferredScheduler \<Rightarrow> bool" where
  "indexed s \<longleftrightarrow> (\<forall>tid dt. get (ds_terminations s) tid = Some dt \<longrightarrow> dt_Status dt = StatusPending \<longrightarrow>
     get (ds_byBandbox s) (dr_SandboxID (dt_Request dt)) = Some tid)"

lemma not_pending:
  assumes "indexed s" "\<not> pending_for s i" "get (ds_terminations s) tid = Some dt" "dt_Status dt = StatusPending"
  shows "dr_SandboxID (dt_Request dt) \<noteq> i"
proof
  assume "dr_SandboxID (dt_Request dt) = i"
  then have "get (ds_byBandbox s) i = Some tid" using assms(1,3,4) by (auto simp: indexed_def)
  then show False using assms(2-4) by (simp add: pending_for_def)
qed

lemma Schedule_indexed:
  assumes "indexed s" "Schedule uuid now req s = (res, s')"
  shows "indexed s'"
  unfolding indexed_def
proof (intro allI impI)
  fix tid dt assume dt: "get (ds_terminations s') tid = Some dt" "dt_Status dt = StatusPending"
  show "get (ds_byBandbox s') (dr_SandboxID (dt_Request dt)) = Some tid"
    using assms(2) dt not_pending [OF assms(1), of _ tid dt] assms(1)
    by (auto simp: Schedule_def Let_def indexed_def split: option.splits if_splits)
qed

lemma sched_reach_indexed: "sched_reach cleanups s St Ca U \<Longrightarrow> \<not> cleanups \<Longrightarrow> indexed s"
proof (induction rule: sched_reach.induct)
  case (schedule s St Ca U uuid now req res s')
  then show ?case using Schedule_indexed by blast
next
  case (finish s St Ca U tid dt result err)
  then show ?case unfolding indexed_def by (fastforce dest: finish_status)
qed (auto simp: indexed_def NewDeferredScheduler_def begin_deferred_def Cancel_def split: option.splits if_splits)

text \<open>
  C25: Whatever the interleaving of requests, timers, ends, cancellations and clean-ups, a deferred
  termination is started at most once, and never once its cancellation was acknowledged. As long as
  nothing is cleaned up, a sandbox has at most one pending termination.\<close>

theorem deferred_once:
  assumes "sched_reach cleanups s St Ca U"
  shows "distinct St \<and> set St \<inter> Ca = {} \<and>
    (\<not> cleanups \<longrightarrow> (\<forall>t1 t2 d1 d2. get (ds_terminations s) t1 = Some d1 \<and> get (ds_terminations s) t2 = Some d2 \<and>
        dt_Status d1 = StatusPending \<and> dt_Status d2 = StatusPending \<and>
        dr_SandboxID (dt_Request d1) = dr_SandboxID (dt_Request d2) \<longrightarrow> t1 = t2))"
proof -
  have "sched_inv s St Ca U" by (rule sched_reach_inv [OF assms])
  moreover have "\<not> cleanups \<longrightarrow> indexed s" using sched_reach_indexed [OF assms] by blast
  ultimately show ?thesis unfolding sched_inv_def indexed_def by (metis option.inject)
qed

definition demo_deferred :: DeferredTerminationRequest where
  "demo_deferred = \<lparr>dr_SandboxID = ''x'', dr_TemplateID = [], dr_Delay = 0, dr_GracePeriod = 0, dr_CreateCheckpoint = False,
     dr_Reason = ''user'', dr_RequestedBy = []\<rparr>"

theorem deferred_once_witness:
  "\<exists>s. sched_reach False s [''t1''] {} {''t1''} \<and> distinct [''t1'']"
proof -
  let ?s1 = "snd (Schedule ''t1'' 3 (Some demo_deferred) NewDeferredScheduler)"
  let ?s2 = "snd (begin_deferred ''t1'' ?s1)"
  have "sched_reach False ?s1 [] {} {''t1''}"
    by (rule sched_reach.schedule [OF sched_reach.start _ surjective_pairing]) simp
  moreover have "\<exists>r. begin_deferred ''t1'' ?s1 = (Some r, ?s2)"
    by (simp add: begin_deferred_def Schedule_def NewDeferredScheduler_def pending_for_def Let_def)
  ultimately have "sched_reach False ?s2 ([] @ [''t1'']) {} {''t1''}" using sched_reach.begins by blast
  then show ?thesis using deferred_once [of False ?s2 "[''t1'']" "{}" "{''t1''}"] by auto
qed

text \<open>A clean-up of an old termination drops the index entry of a newer one; another termination of the
  sandbox can then be scheduled beside it.\<close>

lemma cleanup_admits_second:
  "let s = snd (Schedule ''t1'' 0 (Some demo_deferred) NewDeferredScheduler);
       s = snd (Cancel ''t1'' s);
       s = snd (Schedule ''t2'' 50 (Some demo_deferred) s);
       s = snd (Cleanup 60 20 s);
       (res, s) = Schedule ''t3'' 61 (Some demo_deferred) s
   in isl res = False \<and> map_option dt_Status (get (ds_terminations s) ''t2'') = Some StatusPending \<and>
      map_option dt_Status (get (ds_terminations s) ''t3'') = Some StatusPending"
  by code_simp

end
