(* ===== verification/Phlegethon.thy ===== *)
theory Phlegethon
  imports Domain
begin

text \<open>
  Heat classification (\<open>src/pkg/phlegethon/router.go\<close>): the four heat levels and their
  resource classes, and \<open>HeatClassifier.Classify\<close>. A heat level is a string type in the code,
  and an explicit hint may be any string, so the model keeps it a string. The learning history
  of the classifier has no operation in the code and is kept as data only (its one
  floating-point field as the bits of the number).
\<close>

type_synonym HeatLevel = string

definition HeatCold :: HeatLevel where "HeatCold = ''cold''"
definition HeatWarm :: HeatLevel where "HeatWarm = ''warm''"
definition HeatHot :: HeatLevel where "HeatHot = ''hot''"
definition HeatInferno :: HeatLevel where "HeatInferno = ''inferno''"

lemmas heat_defs = HeatCold_def HeatWarm_def HeatHot_def HeatInferno_def

record ResourceClass =
  rc_Name :: string
  rc_Heat :: HeatLevel
  rc_CPUCores :: int
  rc_MemoryMB :: int
  rc_GPUCount :: int
  rc_MaxDuration :: duration
  rc_NetworkBurst :: int
  rc_DiskIOPS :: int

definition DefaultResourceClasses :: "(HeatLevel, ResourceClass) gomap" where
  "DefaultResourceClasses =
     [(HeatCold, \<lparr>rc_Name = ''ember'', rc_Heat = HeatCold, rc_CPUCores = 1, rc_MemoryMB = 512,
        rc_GPUCount = 0, rc_MaxDuration = 30 * second, rc_NetworkBurst = 0, rc_DiskIOPS = 0\<rparr>),
      (HeatWarm, \<lparr>rc_Name = ''flame'', rc_Heat = HeatWarm, rc_CPUCores = 2, rc_MemoryMB = 2048,
        rc_GPUCount = 0, rc_MaxDuration = 5 * minute, rc_NetworkBurst = 0, rc_DiskIOPS = 0\<rparr>),
      (HeatHot, \<lparr>rc_Name = ''blaze'', rc_Heat = HeatHot, rc_CPUCores = 4, rc_MemoryMB = 8192,
        rc_GPUCount = 0, rc_MaxDuration = 30 * minute, rc_NetworkBurst = 0, rc_DiskIOPS = 0\<rparr>),
      (HeatInferno, \<lparr>rc_Name = ''inferno'', rc_Heat = HeatInferno, rc_CPUCores = 8,
        rc_MemoryMB = 32768, rc_GPUCount = 1, rc_MaxDuration = 24 * hour, rc_NetworkBurst = 0,
        rc_DiskIOPS = 0\<rparr>)]"

text \<open>The request as the classifier sees it (the package's own \<open>SandboxRequest\<close>).\<close>

record HeatRequest =
  hr_TemplateID :: string
  hr_HeatHint :: HeatLevel
  hr_MaxDuration :: duration
  hr_CPUCores :: int
  hr_MemoryMB :: int

record HeatObservation =
  ho_TemplateID :: string
  ho_ActualDuration :: duration
  ho_PeakCPU :: "64 word"
  ho_PeakMemory :: int
  ho_Timestamp :: go_time

record HeatClassifier =
  hc_history :: "(string, HeatObservation list) gomap"
  hc_templateHints :: "(string, HeatLevel) gomap"

definition NewHeatClassifier :: HeatClassifier where
  "NewHeatClassifier = \<lparr>hc_history = [], hc_templateHints = []\<rparr>"

definition Classify :: "HeatClassifier \<Rightarrow> HeatRequest \<Rightarrow> HeatLevel \<times> string" where
  "Classify c req =
     (if hr_HeatHint req \<noteq> [] then (hr_HeatHint req, ''explicit'')
      else case get (hc_templateHints c) (hr_TemplateID req) of
        Some hint \<Rightarrow> (hint, ''template_hint'')
      | None \<Rightarrow>
          if hr_MaxDuration req > 10 * minute \<or> hr_CPUCores req \<ge> 4 then (HeatInferno, ''heuristic'')
          else if hr_MaxDuration req > 2 * minute \<or> hr_CPUCores req \<ge> 2 then (HeatHot, ''heuristic'')
          else if hr_MaxDuration req > 30 * second then (HeatWarm, ''heuristic'')
          else (HeatCold, ''heuristic''))"

definition AddHint :: "HeatClassifier \<Rightarrow> string \<Rightarrow> HeatLevel \<Rightarrow> HeatClassifier" where
  "AddHint c templateID level = c\<lparr>hc_templateHints := put (hc_templateHints c) templateID level\<rparr>"

subsection \<open>The heuristic is monotone, and always yields a level with a class\<close>

definition heat_rank :: "HeatLevel \<Rightarrow> nat" where
  "heat_rank h = (if h = HeatCold then 0 else if h = HeatWarm then 1 else if h = HeatHot then 2
     else if h = HeatInferno then 3 else 4)"

definition no_hint :: "HeatClassifier \<Rightarrow> HeatRequest \<Rightarrow> bool" where
  "no_hint c req \<longleftrightarrow> hr_HeatHint req = [] \<and> get (hc_templateHints c) (hr_TemplateID req) = None"

lemma heat_levels_distinct [simp]:
  "HeatCold \<noteq> HeatWarm" "HeatCold \<noteq> HeatHot" "HeatCold \<noteq> HeatInferno"
  "HeatWarm \<noteq> HeatCold" "HeatWarm \<noteq> HeatHot" "HeatWarm \<noteq> HeatInferno"
  "HeatHot \<noteq> HeatCold" "HeatHot \<noteq> HeatWarm" "HeatHot \<noteq> HeatInferno"
  "HeatInferno \<noteq> HeatCold" "HeatInferno \<noteq> HeatWarm" "HeatInferno \<noteq> HeatHot"
  by (simp_all add: heat_defs)

lemma heat_rank_simps [simp]:
  "heat_rank HeatCold = 0" "heat_rank HeatWarm = 1" "heat_rank HeatHot = 2"
  "heat_rank HeatInferno = 3"
  by (simp_all add: heat_rank_def)

lemma Classify_no_hint:
  "no_hint c req \<Longrightarrow> fst (Classify c req) \<in> {HeatCold, HeatWarm, HeatHot, HeatInferno}"
  by (simp add: Classify_def no_hint_def)

lemma Classify_mono:
  assumes "no_hint c r" "no_hint c r'"
    and "hr_MaxDuration r \<le> hr_MaxDuration r'" "hr_CPUCores r \<le> hr_CPUCores r'"
  shows "heat_rank (fst (Classify c r)) \<le> heat_rank (fst (Classify c r'))"
  using assms by (simp add: Classify_def no_hint_def)

lemma class_of_level:
  "h \<in> {HeatCold, HeatWarm, HeatHot, HeatInferno} \<Longrightarrow>
   \<exists>rc. get DefaultResourceClasses h = Some rc \<and> rc_Heat rc = h"
  by (auto simp: DefaultResourceClasses_def)

lemma AddHint_get [simp]:
  "get (hc_templateHints (AddHint c t h)) t' = (if t' = t then Some h else get (hc_templateHints c) t')"
  by (simp add: AddHint_def)

end
