(* ===== verification/Moirai.thy ===== *)
theory Moirai
  imports Phlegethon
begin

text \<open>
  The schedulers (\<open>src/pkg/moirai\<close>, and \<open>olympus.MemoryScheduler\<close>): affinity and
  anti-affinity rules, quarantine routing, the resource-class filter, and the three placement
  strategies. \<open>time.Now()\<close> is the argument \<open>now\<close>; \<open>sort.Slice\<close> is the argument
  \<open>sortSlice\<close>, of which the lemmas assume the interface \<open>sort_slice\<close>. Logging is not
  modelled.
\<close>

datatype sched_error = ErrNoCapacity | ErrNoTyphonNodes | ErrNoNodes | ErrUnsatisfiable

definition AffinityPrefix :: string where "AffinityPrefix = ''scheduler.affinity.''"
definition AntiAffinityPrefix :: string where "AntiAffinityPrefix = ''scheduler.antiaffinity.''"
definition PoolLabel :: string where "PoolLabel = ''phlegethon.tartarus.io/pool''"

section \<open>Filters\<close>

text \<open>One iteration of the loop over the metadata: \<open>False\<close> is the early return.\<close>

definition affinity_rule_ok :: "metadata \<Rightarrow> string \<Rightarrow> string \<Rightarrow> bool" where
  "affinity_rule_ok labels key val =
     (if prefix AffinityPrefix key \<and>
          (case get labels (TrimPrefix key AffinityPrefix) of
             None \<Rightarrow> True | Some nodeVal \<Rightarrow> nodeVal \<noteq> val) then False
      else if prefix AntiAffinityPrefix key \<and>
          (case get labels (TrimPrefix key AntiAffinityPrefix) of
             None \<Rightarrow> False | Some nodeVal \<Rightarrow> nodeVal = val) then False
      else True)"

fun check_affinity_loop :: "metadata \<Rightarrow> metadata \<Rightarrow> bool" where
  "check_affinity_loop labels [] = True"
| "check_affinity_loop labels ((key, val) # rest) =
     (if affinity_rule_ok labels key val then check_affinity_loop labels rest else False)"

definition CheckAffinity :: "SandboxRequest \<Rightarrow> NodeStatus \<Rightarrow> bool" where
  "CheckAffinity req node = check_affinity_loop (node_Labels node) (req_Metadata req)"

definition IsQuarantineRequest :: "SandboxRequest \<Rightarrow> bool" where
  "IsQuarantineRequest req \<longleftrightarrow> get_or [] (req_Metadata req) ''quarantine'' = ''true''"

definition FilterTyphonNodes :: "NodeStatus list \<Rightarrow> NodeStatus list" where
  "FilterTyphonNodes nodes =
     filter (\<lambda>node. get_or [] (node_Labels node) ''quarantine'' = ''true'') nodes"

definition FilterPhlegethonNodes :: "NodeStatus list \<Rightarrow> string \<Rightarrow> NodeStatus list" where
  "FilterPhlegethonNodes nodes heatLevel =
     (if heatLevel = [] then nodes
      else case get DefaultResourceClasses heatLevel of
        None \<Rightarrow> nodes
      | Some cls \<Rightarrow> filter (\<lambda>node.
          \<not> (rc_GPUCount cls > 0 \<and> cap_GPU (node_Capacity node) < rc_GPUCount cls) \<and>
          (case get (node_Labels node) PoolLabel of None \<Rightarrow> True | Some pool \<Rightarrow> pool = rc_Name cls))
          nodes)"

section \<open>Least-loaded and bin-packing\<close>

type_synonym candidate = "NodeStatus \<times> int"

definition free_mem :: "NodeStatus \<Rightarrow> int" where
  "free_mem node = wrap64 (cap_Mem (node_Capacity node) - cap_Mem (node_Allocated node))"

definition free_cpu :: "NodeStatus \<Rightarrow> int" where
  "free_cpu node = wrap64 (cap_CPU (node_Capacity node) - cap_CPU (node_Allocated node))"

text \<open>The loop that collects the candidates, and the two filters in front of it.\<close>

fun collect_candidates :: "go_time \<Rightarrow> SandboxRequest \<Rightarrow> NodeStatus list \<Rightarrow> candidate list" where
  "collect_candidates now req [] = []"
| "collect_candidates now req (node # rest) =
     (if now - node_Heartbeat node > 10 * second then collect_candidates now req rest
      else if free_mem node \<ge> res_Mem (req_Resources req) \<and> CheckAffinity req node
      then (node, free_mem node) # collect_candidates now req rest
      else collect_candidates now req rest)"

definition choose_first ::
    "(candidate list \<Rightarrow> candidate list) \<Rightarrow> go_time \<Rightarrow> SandboxRequest \<Rightarrow> NodeStatus list
     \<Rightarrow> sched_error + NodeID" where
  "choose_first srt now req nodes =
     (let nodesToConsider = (if IsQuarantineRequest req then FilterTyphonNodes nodes else nodes)
      in if IsQuarantineRequest req \<and> nodesToConsider = [] then Inl ErrNoTyphonNodes
      else let nodesToConsider = FilterPhlegethonNodes nodesToConsider (req_HeatLevel req)
      in if nodesToConsider = [] then Inl ErrNoCapacity
      else case srt (collect_candidates now req nodesToConsider) of
          [] \<Rightarrow> Inl ErrNoCapacity
        | best # _ \<Rightarrow> Inr (node_ID (fst best)))"

definition more_free :: "candidate \<Rightarrow> candidate \<Rightarrow> bool" where
  "more_free a b \<longleftrightarrow> snd a > snd b"

definition less_free :: "candidate \<Rightarrow> candidate \<Rightarrow> bool" where
  "less_free a b \<longleftrightarrow> snd a < snd b"

type_synonym sorter = "(candidate \<Rightarrow> candidate \<Rightarrow> bool) \<Rightarrow> candidate list \<Rightarrow> candidate list"

definition LeastLoaded_ChooseNode ::
    "sorter \<Rightarrow> go_time \<Rightarrow> SandboxRequest \<Rightarrow> NodeStatus list \<Rightarrow> sched_error + NodeID" where
  "LeastLoaded_ChooseNode sortSlice now req nodes = choose_first (sortSlice more_free) now req nodes"

definition BinPacking_ChooseNode ::
    "sorter \<Rightarrow> go_time \<Rightarrow> SandboxRequest \<Rightarrow> NodeStatus list \<Rightarrow> sched_error + NodeID" where
  "BinPacking_ChooseNode sortSlice now req nodes = choose_first (sortSlice less_free) now req nodes"

text \<open>\<open>NewScheduler\<close>: the strategy name picks the scheduler, with least-loaded the default.\<close>

definition NewScheduler ::
    "string \<Rightarrow> sorter \<Rightarrow> go_time \<Rightarrow> SandboxRequest \<Rightarrow> NodeStatus list \<Rightarrow> sched_error + NodeID" where
  "NewScheduler strategy =
     (if strategy = ''bin-packing'' then BinPacking_ChooseNode
      else if strategy = ''least-loaded'' then LeastLoaded_ChooseNode
      else LeastLoaded_ChooseNode)"

section \<open>The memory scheduler of the control plane\<close>

type_synonym mem_candidate = "NodeID \<times> int \<times> int"

definition eligible_candidates :: "SandboxRequest \<Rightarrow> NodeStatus list \<Rightarrow> mem_candidate list" where
  "eligible_candidates req nodes =
     map (\<lambda>node. (node_ID node, free_mem node, free_cpu node))
       (filter (\<lambda>node. free_mem node \<ge> res_Mem (req_Resources req) \<and>
                       free_cpu node \<ge> res_CPU (req_Resources req)) nodes)"

definition better :: "mem_candidate \<Rightarrow> mem_candidate \<Rightarrow> bool" where
  "better c best \<longleftrightarrow> fst (snd c) > fst (snd best) \<or>
     fst (snd c) = fst (snd best) \<and> snd (snd c) > snd (snd best)"

fun best_loop :: "mem_candidate \<Rightarrow> mem_candidate list \<Rightarrow> mem_candidate" where
  "best_loop best [] = best"
| "best_loop best (c # cs) = best_loop (if better c best then c else best) cs"

definition MemoryScheduler_ChooseNode :: "SandboxRequest \<Rightarrow> NodeStatus list \<Rightarrow> sched_error + NodeID" where
  "MemoryScheduler_ChooseNode req nodes =
     (if nodes = [] then Inl ErrNoNodes
      else case eligible_candidates req nodes of
        [] \<Rightarrow> Inl ErrUnsatisfiable
      | c # cs \<Rightarrow> Inr (fst (best_loop c cs)))"

section \<open>What a placement promises\<close>

text \<open>
  The abstract specification, one predicate per rule of the code, over any node and request.
  The affinity rules are stated on the label key that follows the prefix.
\<close>

definition fresh :: "go_time \<Rightarrow> NodeStatus \<Rightarrow> bool" where
  "fresh now n \<longleftrightarrow> now - node_Heartbeat n \<le> 10 * second"

definition affinity_holds :: "metadata \<Rightarrow> metadata \<Rightarrow> bool" where
  "affinity_holds md labels \<longleftrightarrow>
     (\<forall>(k, v)\<in>set md. (\<forall>l. k = AffinityPrefix @ l \<longrightarrow> get labels l = Some v) \<and>
                     (\<forall>l. k = AntiAffinityPrefix @ l \<longrightarrow> get labels l \<noteq> Some v))"

definition quarantine_ok :: "SandboxRequest \<Rightarrow> NodeStatus \<Rightarrow> bool" where
  "quarantine_ok req n \<longleftrightarrow>
     (IsQuarantineRequest req \<longrightarrow> get (node_Labels n) ''quarantine'' = Some ''true'')"

definition pool_ok :: "SandboxRequest \<Rightarrow> NodeStatus \<Rightarrow> bool" where
  "pool_ok req n \<longleftrightarrow>
     (\<forall>cls. get DefaultResourceClasses (req_HeatLevel req) = Some cls \<longrightarrow>
        rc_GPUCount cls \<le> max 0 (cap_GPU (node_Capacity n)) \<and>
        (\<forall>pool. get (node_Labels n) PoolLabel = Some pool \<longrightarrow> pool = rc_Name cls))"

definition schedulable :: "go_time \<Rightarrow> SandboxRequest \<Rightarrow> NodeStatus \<Rightarrow> bool" where
  "schedulable now req n \<longleftrightarrow> fresh now n \<and> res_Mem (req_Resources req) \<le> free_mem n \<and>
     affinity_holds (req_Metadata req) (node_Labels n) \<and> quarantine_ok req n \<and> pool_ok req n"

lemma affinity_rule_ok_iff:
  "affinity_rule_ok labels k v \<longleftrightarrow>
     (\<forall>l. k = AffinityPrefix @ l \<longrightarrow> get labels l = Some v) \<and>
     (\<forall>l. k = AntiAffinityPrefix @ l \<longrightarrow> get labels l \<noteq> Some v)"
  by (auto simp: affinity_rule_ok_def prefix_def split: option.splits)

lemma check_affinity_loop_iff:
  "check_affinity_loop labels md \<longleftrightarrow> affinity_holds md labels"
  by (induction labels md rule: check_affinity_loop.induct)
     (auto simp: affinity_holds_def affinity_rule_ok_iff)

lemma CheckAffinity_iff: "CheckAffinity req n \<longleftrightarrow> affinity_holds (req_Metadata req) (node_Labels n)"
  by (simp add: CheckAffinity_def check_affinity_loop_iff)

lemma affinity_holds_perm: "set md = set md' \<Longrightarrow> affinity_holds md labels = affinity_holds md' labels"
  by (simp add: affinity_holds_def)

lemma set_FilterTyphonNodes:
  "n \<in> set (FilterTyphonNodes nodes) \<longleftrightarrow>
     n \<in> set nodes \<and> get (node_Labels n) ''quarantine'' = Some ''true''"
  by (auto simp: FilterTyphonNodes_def get_or_def split: option.splits)

lemma DefaultResourceClasses_Nil: "get DefaultResourceClasses [] = None"
  by (simp add: DefaultResourceClasses_def heat_defs)

lemma DefaultResourceClasses_GPU:
  "get DefaultResourceClasses h = Some cls \<Longrightarrow> 0 \<le> rc_GPUCount cls"
  by (auto simp: DefaultResourceClasses_def split: if_splits)

lemma set_FilterPhlegethonNodes:
  "n \<in> set (FilterPhlegethonNodes nodes (req_HeatLevel req)) \<longleftrightarrow> n \<in> set nodes \<and> pool_ok req n"
  using DefaultResourceClasses_GPU [of "req_HeatLevel req"]
  by (auto simp: FilterPhlegethonNodes_def pool_ok_def DefaultResourceClasses_Nil
      split: option.splits)

lemma set_collect_candidates:
  "c \<in> set (collect_candidates now req nodes) \<longleftrightarrow>
     fst c \<in> set nodes \<and> snd c = free_mem (fst c) \<and> fresh now (fst c) \<and>
     res_Mem (req_Resources req) \<le> free_mem (fst c) \<and>
     affinity_holds (req_Metadata req) (node_Labels (fst c))"
  by (cases c, induction now req nodes rule: collect_candidates.induct)
     (auto simp: fresh_def CheckAffinity_iff)

text \<open>The nodes both filters leave.\<close>

definition considered :: "SandboxRequest \<Rightarrow> NodeStatus list \<Rightarrow> NodeStatus list" where
  "considered req nodes = FilterPhlegethonNodes
     (if IsQuarantineRequest req then FilterTyphonNodes nodes else nodes) (req_HeatLevel req)"

lemma set_considered:
  "n \<in> set (considered req nodes) \<longleftrightarrow> n \<in> set nodes \<and> quarantine_ok req n \<and> pool_ok req n"
  by (auto simp: considered_def set_FilterPhlegethonNodes set_FilterTyphonNodes quarantine_ok_def)

lemma set_considered_candidates:
  "c \<in> set (collect_candidates now req (considered req nodes)) \<longleftrightarrow>
     fst c \<in> set nodes \<and> snd c = free_mem (fst c) \<and> schedulable now req (fst c)"
  by (auto simp: set_collect_candidates set_considered schedulable_def)

lemma considered_Nil_candidates:
  "considered req nodes = [] \<Longrightarrow> collect_candidates now req (considered req nodes) = []"
  by simp

lemma FilterPhlegethonNodes_Nil [simp]: "FilterPhlegethonNodes [] h = []"
  by (simp add: FilterPhlegethonNodes_def split: option.splits)

lemma choose_first_eq:
  "choose_first srt now req nodes =
     (if IsQuarantineRequest req \<and> FilterTyphonNodes nodes = [] then Inl ErrNoTyphonNodes
      else if considered req nodes = [] then Inl ErrNoCapacity
      else case srt (collect_candidates now req (considered req nodes)) of
          [] \<Rightarrow> Inl ErrNoCapacity
        | best # _ \<Rightarrow> Inr (node_ID (fst best)))"
  by (simp add: choose_first_def considered_def Let_def)

text \<open>
  Any strategy of the shape "sort the candidates, take the first" answers with a node that may
  host the request and that no other such node precedes; and it fails only if there is none.
\<close>

definition placement_spec ::
    "(candidate \<Rightarrow> candidate \<Rightarrow> bool) \<Rightarrow> go_time \<Rightarrow> SandboxRequest \<Rightarrow> NodeStatus list
     \<Rightarrow> sched_error + NodeID \<Rightarrow> bool" where
  "placement_spec lt now req nodes r \<longleftrightarrow>
     (case r of
        Inr nid \<Rightarrow> \<exists>n\<in>set nodes. node_ID n = nid \<and> schedulable now req n \<and>
          (\<forall>m\<in>set nodes. schedulable now req m \<longrightarrow> \<not> lt (m, free_mem m) (n, free_mem n))
      | Inl e \<Rightarrow> (\<forall>m\<in>set nodes. \<not> schedulable now req m) \<and>
          e = (if IsQuarantineRequest req \<and> FilterTyphonNodes nodes = []
               then ErrNoTyphonNodes else ErrNoCapacity))"

context sort_slice
begin

lemma hd_srt_least: "x \<in> set xs \<Longrightarrow> (\<And>y. \<not> lt y y) \<Longrightarrow> \<not> lt x (hd (srt xs))"
  using hd_srt_minimal [of x xs] by metis

end

locale placement = sort_slice lt srt
  for lt :: "candidate \<Rightarrow> candidate \<Rightarrow> bool" and srt +
  assumes lt_irrefl: "\<not> lt c c"
begin

lemma choose_first_placed:
  assumes "choose_first srt now req nodes = Inr nid"
  shows "placement_spec lt now req nodes (Inr nid)"
proof -
  let ?cs = "collect_candidates now req (considered req nodes)"
  from assms have ne: "srt ?cs \<noteq> []" and nid: "nid = node_ID (fst (hd (srt ?cs)))"
    by (auto simp: choose_first_eq split: if_splits list.splits)
  let ?n = "fst (hd (srt ?cs))"
  from ne have "?cs \<noteq> []" by (simp add: srt_eq_Nil)
  then have in_cs: "hd (srt ?cs) \<in> set ?cs" by (rule hd_srt_in)
  then have n: "?n \<in> set nodes" "schedulable now req ?n" "hd (srt ?cs) = (?n, free_mem ?n)"
    by (auto simp: set_considered_candidates intro: prod_eqI)
  have "\<not> lt (m, free_mem m) (?n, free_mem ?n)" if "m \<in> set nodes" "schedulable now req m" for m
  proof -
    from that have "(m, free_mem m) \<in> set ?cs" by (simp add: set_considered_candidates)
    then have "\<not> lt (m, free_mem m) (hd (srt ?cs))" by (rule hd_srt_least) (rule lt_irrefl)
    with n(3) show ?thesis by simp
  qed
  with n nid show ?thesis by (auto simp: placement_spec_def)
qed

lemma choose_first_refused:
  assumes "choose_first srt now req nodes = Inl e"
  shows "placement_spec lt now req nodes (Inl e)"
proof -
  let ?cs = "collect_candidates now req (considered req nodes)"
  from assms have "?cs = []"
    by (auto simp: choose_first_eq considered_def srt_eq_Nil split: if_splits list.splits)
  then have "\<not> schedulable now req m" if "m \<in> set nodes" for m
    using that set_considered_candidates [of "(m, free_mem m)" now req nodes] by auto
  with assms show ?thesis
    by (auto simp: placement_spec_def choose_first_eq split: if_splits list.splits)
qed

lemma choose_first_spec: "placement_spec lt now req nodes (choose_first srt now req nodes)"
  using choose_first_placed choose_first_refused
  by (cases "choose_first srt now req nodes") metis+

end

text \<open>Both comparison functions are strict weak orders, so any library sort places correctly.\<close>

interpretation more_free: strict_weak more_free
  by unfold_locales (auto simp: more_free_def)

interpretation less_free: strict_weak less_free
  by unfold_locales (auto simp: less_free_def)

interpretation ll: placement more_free "insertion_sort more_free"
  by unfold_locales (simp add: more_free_def)

interpretation bp: placement less_free "insertion_sort less_free"
  by unfold_locales (simp add: less_free_def)

lemma placement_more_free: "sort_slice more_free srt \<Longrightarrow> placement more_free srt"
  by (simp add: placement_def placement_axioms_def more_free_def)

lemma placement_less_free: "sort_slice less_free srt \<Longrightarrow> placement less_free srt"
  by (simp add: placement_def placement_axioms_def less_free_def)

section \<open>The memory scheduler picks the lexicographic maximum\<close>

lemma better_trans: "better a b \<Longrightarrow> better b c \<Longrightarrow> better a c"
  by (auto simp: better_def)

lemma not_better_trans: "\<not> better a b \<Longrightarrow> \<not> better b c \<Longrightarrow> \<not> better a c"
  by (auto simp: better_def)

lemma best_loop_in: "best_loop c cs \<in> set (c # cs)"
  by (induction c cs rule: best_loop.induct) auto

lemma best_loop_not_worse: "\<not> better b (best_loop b cs)"
proof (induction b cs rule: best_loop.induct)
  case (1 b)
  then show ?case by (simp add: better_def)
next
  case (2 b c cs)
  then show ?case
    by (cases "better c b") (auto simp: better_def intro: not_better_trans)
qed

lemma best_loop_best: "x \<in> set (c # cs) \<Longrightarrow> \<not> better x (best_loop c cs)"
proof (induction c cs rule: best_loop.induct)
  case (1 b)
  then show ?case by (simp add: better_def)
next
  case (2 b c cs)
  show ?case
  proof (cases "x \<in> set cs \<or> x = (if better c b then c else b)")
    case True
    with 2 show ?thesis by auto
  next
    case False
    with "2.prems" have "\<not> better x (if better c b then c else b)"
      by (auto simp: better_def split: if_splits)
    with best_loop_not_worse [of "if better c b then c else b" cs] show ?thesis
      using not_better_trans by (metis best_loop.simps(2))
  qed
qed

lemma eligible_in:
  "c \<in> set (eligible_candidates req nodes) \<longleftrightarrow>
     (\<exists>n\<in>set nodes. c = (node_ID n, free_mem n, free_cpu n) \<and>
        res_Mem (req_Resources req) \<le> free_mem n \<and> res_CPU (req_Resources req) \<le> free_cpu n)"
  by (auto simp: eligible_candidates_def)

section \<open>Properties\<close>

text \<open>
  C5: A least-loaded placement is sound, complete and optimal. Whatever sorting routine the
  library uses, a chosen node is one of the given nodes, has a heartbeat at most ten seconds old,
  has the requested memory free, satisfies every affinity and anti-affinity rule of the metadata,
  is a quarantine node if the request is quarantined, fits the resource class of the heat level,
  and no other such node has more free memory; an error means that no node qualifies, and it is
  the Typhon error exactly when a quarantined request finds no quarantine node at all.
\<close>

theorem least_loaded_placement:
  assumes "sort_slice more_free (sortSlice more_free)"
  shows "placement_spec more_free now req nodes (LeastLoaded_ChooseNode sortSlice now req nodes)"
  unfolding LeastLoaded_ChooseNode_def
  by (rule placement.choose_first_spec [OF placement_more_free [OF assms]])

text \<open>Two nodes and a request that the witnesses of this theory share.\<close>

definition demo_node :: "string \<Rightarrow> int \<Rightarrow> metadata \<Rightarrow> NodeStatus" where
  "demo_node nid mem labels =
     \<lparr>node_ID = nid, node_Address = [], node_Labels = labels,
      node_Capacity = \<lparr>cap_CPU = 4000, cap_Mem = mem, cap_GPU = 0\<rparr>,
      node_Allocated = zero_ResourceCapacity, node_Heartbeat = 0, node_ActiveSandboxes = []\<rparr>"

definition demo_req :: SandboxRequest where
  "demo_req = zero_SandboxRequest\<lparr>req_ID := ''s1'', req_Template := ''py'',
     req_Resources := zero_ResourceSpec\<lparr>res_Mem := 512, res_CPU := 1000\<rparr>\<rparr>"

lemma demo_simps [simp]:
  "node_ID (demo_node i m l) = i" "node_Labels (demo_node i m l) = l"
  "node_Heartbeat (demo_node i m l) = 0" "req_Metadata demo_req = []" "req_HeatLevel demo_req = []"
  "res_Mem (req_Resources demo_req) = 512" "res_CPU (req_Resources demo_req) = 1000"
  "node_Capacity (demo_node i m l) = \<lparr>cap_CPU = 4000, cap_Mem = m, cap_GPU = 0\<rparr>"
  "node_Allocated (demo_node i m l) = zero_ResourceCapacity"
  by (simp_all add: demo_node_def demo_req_def zero_SandboxRequest_def)

lemma demo_free [simp]:
  "in_int64 m \<Longrightarrow> free_mem (demo_node i m l) = m" "free_cpu (demo_node i m l) = 4000"
  by (simp_all add: free_mem_def free_cpu_def zero_ResourceCapacity_def wrap64_id in_int64_def)

lemma demo_schedulable: "in_int64 m \<Longrightarrow> schedulable 0 demo_req (demo_node i m []) \<longleftrightarrow> 512 \<le> m"
  by (simp add: schedulable_def fresh_def affinity_holds_def quarantine_ok_def pool_ok_def
      IsQuarantineRequest_def get_or_def DefaultResourceClasses_Nil)

theorem least_loaded_placement_witness:
  "placement_spec more_free 0 demo_req [demo_node ''a'' 1024 [], demo_node ''b'' 4096 []]
     (LeastLoaded_ChooseNode insertion_sort 0 demo_req [demo_node ''a'' 1024 [], demo_node ''b'' 4096 []])
   \<and> LeastLoaded_ChooseNode insertion_sort 0 demo_req [demo_node ''a'' 1024 [], demo_node ''b'' 4096 []]
     = Inr ''b''"
proof
  show "placement_spec more_free 0 demo_req [demo_node ''a'' 1024 [], demo_node ''b'' 4096 []]
     (LeastLoaded_ChooseNode insertion_sort 0 demo_req [demo_node ''a'' 1024 [], demo_node ''b'' 4096 []])"
    by (rule least_loaded_placement) (rule more_free.sort_slice_axioms)
  show "LeastLoaded_ChooseNode insertion_sort 0 demo_req
     [demo_node ''a'' 1024 [], demo_node ''b'' 4096 []] = Inr ''b''"
    by (simp add: LeastLoaded_ChooseNode_def choose_first_eq considered_def IsQuarantineRequest_def
        get_or_def FilterPhlegethonNodes_def CheckAffinity_def insertion_sort_def more_free_def
        in_int64_def)
qed

text \<open>
  bin-packing places on the tightest fit: the chosen node satisfies the same rules and no
  other qualifying node has less free memory, and the failure conditions are the same.
\<close>

theorem bin_packing_placement:
  assumes "sort_slice less_free (sortSlice less_free)"
  shows "placement_spec less_free now req nodes (BinPacking_ChooseNode sortSlice now req nodes)"
  unfolding BinPacking_ChooseNode_def
  by (rule placement.choose_first_spec [OF placement_less_free [OF assms]])

theorem bin_packing_placement_witness:
  "placement_spec less_free 0 demo_req [demo_node ''b'' 4096 [], demo_node ''a'' 1024 []]
     (BinPacking_ChooseNode insertion_sort 0 demo_req [demo_node ''b'' 4096 [], demo_node ''a'' 1024 []])
   \<and> BinPacking_ChooseNode insertion_sort 0 demo_req [demo_node ''b'' 4096 [], demo_node ''a'' 1024 []]
     = Inr ''a''"
proof
  show "placement_spec less_free 0 demo_req [demo_node ''b'' 4096 [], demo_node ''a'' 1024 []]
     (BinPacking_ChooseNode insertion_sort 0 demo_req [demo_node ''b'' 4096 [], demo_node ''a'' 1024 []])"
    by (rule bin_packing_placement) (rule less_free.sort_slice_axioms)
  show "BinPacking_ChooseNode insertion_sort 0 demo_req
     [demo_node ''b'' 4096 [], demo_node ''a'' 1024 []] = Inr ''a''"
    by (simp add: BinPacking_ChooseNode_def choose_first_eq considered_def IsQuarantineRequest_def
        get_or_def FilterPhlegethonNodes_def CheckAffinity_def insertion_sort_def less_free_def
        in_int64_def)
qed

text \<open>
  No placement overcommits memory or leaks a quarantined workload, whatever the strategy
  name. With non-negative 64-bit capacities, the memory already allocated on the chosen node plus
  the request fits in its capacity, and a quarantined request lands on a node labelled
  \<open>quarantine=true\<close>.
\<close>

theorem scheduler_safe:
  assumes "sort_slice more_free (sortSlice more_free)" "sort_slice less_free (sortSlice less_free)"
    and range: "\<And>n. n \<in> set nodes \<Longrightarrow> 0 \<le> cap_Mem (node_Capacity n) \<and> in_int64 (cap_Mem (node_Capacity n)) \<and>
        0 \<le> cap_Mem (node_Allocated n) \<and> in_int64 (cap_Mem (node_Allocated n))"
    and placed: "NewScheduler strategy sortSlice now req nodes = Inr nid"
  shows "\<exists>n\<in>set nodes. node_ID n = nid \<and>
     cap_Mem (node_Allocated n) + res_Mem (req_Resources req) \<le> cap_Mem (node_Capacity n) \<and>
     (IsQuarantineRequest req \<longrightarrow> get (node_Labels n) ''quarantine'' = Some ''true'')"
proof -
  obtain lt where "placement_spec lt now req nodes (Inr nid)"
    using placed placement.choose_first_spec [OF placement_more_free [OF assms(1)], of now req nodes]
      placement.choose_first_spec [OF placement_less_free [OF assms(2)], of now req nodes]
    by (auto simp: NewScheduler_def LeastLoaded_ChooseNode_def BinPacking_ChooseNode_def
        split: if_splits)
  then obtain n where n: "n \<in> set nodes" "node_ID n = nid" "schedulable now req n"
    by (auto simp: placement_spec_def)
  with range [OF n(1)] show ?thesis
    by (auto simp: schedulable_def quarantine_ok_def free_mem_def in_int64_diff wrap64_id)
qed

theorem scheduler_safe_witness:
  "\<exists>n\<in>set [demo_node ''a'' 1024 [], demo_node ''b'' 4096 []]. node_ID n = ''b'' \<and>
     cap_Mem (node_Allocated n) + res_Mem (req_Resources demo_req) \<le> cap_Mem (node_Capacity n) \<and>
     (IsQuarantineRequest demo_req \<longrightarrow> get (node_Labels n) ''quarantine'' = Some ''true'')"
proof (rule scheduler_safe [where sortSlice = insertion_sort and now = 0 and strategy = "''x''"])
  show "sort_slice more_free (insertion_sort more_free)" by (rule more_free.sort_slice_axioms)
  show "sort_slice less_free (insertion_sort less_free)" by (rule less_free.sort_slice_axioms)
  show "NewScheduler ''x'' insertion_sort 0 demo_req [demo_node ''a'' 1024 [], demo_node ''b'' 4096 []]
     = Inr ''b''"
    by (simp add: NewScheduler_def LeastLoaded_ChooseNode_def choose_first_eq considered_def
        IsQuarantineRequest_def get_or_def FilterPhlegethonNodes_def CheckAffinity_def
        insertion_sort_def more_free_def in_int64_def)
qed (auto simp: in_int64_def zero_ResourceCapacity_def)

text \<open>
  The memory scheduler of the control plane answers with a node that has both the memory and
  the CPU free, and whose free memory, then free CPU, is the greatest among all such nodes; it
  fails exactly when there are no nodes or none of them qualifies.
\<close>

theorem memory_scheduler_best:
  "case MemoryScheduler_ChooseNode req nodes of
     Inr nid \<Rightarrow> \<exists>n\<in>set nodes. node_ID n = nid \<and> res_Mem (req_Resources req) \<le> free_mem n \<and>
       res_CPU (req_Resources req) \<le> free_cpu n \<and>
       (\<forall>m\<in>set nodes. \<not> (res_Mem (req_Resources req) \<le> free_mem m \<and>
            res_CPU (req_Resources req) \<le> free_cpu m \<and>
            (free_mem m > free_mem n \<or> free_mem m = free_mem n \<and> free_cpu m > free_cpu n)))
   | Inl e \<Rightarrow> if nodes = [] then e = ErrNoNodes else e = ErrUnsatisfiable \<and>
       (\<forall>m\<in>set nodes. \<not> (res_Mem (req_Resources req) \<le> free_mem m \<and>
            res_CPU (req_Resources req) \<le> free_cpu m))"
proof (cases "eligible_candidates req nodes")
  case Nil
  then have "\<not> (res_Mem (req_Resources req) \<le> free_mem m \<and> res_CPU (req_Resources req) \<le> free_cpu m)"
    if "m \<in> set nodes" for m
    using that eligible_in [of "(node_ID m, free_mem m, free_cpu m)" req nodes] by auto
  with Nil show ?thesis by (auto simp: MemoryScheduler_ChooseNode_def)
next
  case (Cons c cs)
  let ?b = "best_loop c cs"
  from best_loop_in [of c cs] Cons have "?b \<in> set (eligible_candidates req nodes)" by metis
  then obtain n where n: "n \<in> set nodes" "?b = (node_ID n, free_mem n, free_cpu n)"
      "res_Mem (req_Resources req) \<le> free_mem n" "res_CPU (req_Resources req) \<le> free_cpu n"
    by (auto simp: eligible_in)
  have best: "\<not> better (node_ID m, free_mem m, free_cpu m) (node_ID n, free_mem n, free_cpu n)"
    if "m \<in> set nodes" "res_Mem (req_Resources req) \<le> free_mem m"
      "res_CPU (req_Resources req) \<le> free_cpu m" for m
  proof -
    from that have "(node_ID m, free_mem m, free_cpu m) \<in> set (c # cs)"
      using eligible_in [of _ req nodes] by (auto simp flip: Cons)
    then show ?thesis using best_loop_best n(2) by metis
  qed
  from n(1) Cons have "MemoryScheduler_ChooseNode req nodes = Inr (node_ID n)"
    using n(2) by (auto simp: MemoryScheduler_ChooseNode_def)
  with n best show ?thesis by (auto simp: better_def)
qed

theorem memory_scheduler_best_witness:
  "MemoryScheduler_ChooseNode demo_req [demo_node ''a'' 1024 [], demo_node ''b'' 4096 []] = Inr ''b'' \<and>
   (case MemoryScheduler_ChooseNode demo_req [] of Inr nid \<Rightarrow> False | Inl e \<Rightarrow> e = ErrNoNodes)"
  using memory_scheduler_best [where req = demo_req and nodes = "[]"]
  by (simp add: MemoryScheduler_ChooseNode_def eligible_candidates_def better_def in_int64_def)

end
