(* ===== verification/Hades.thy ===== *)
theory Hades
  imports Domain
begin

text \<open>
  The cluster registry (\<open>src/pkg/hades/registry.go\<close>, \<open>memory_registry.go\<close>): node
  heartbeats with a time to live, and the persisted runs. The two \<open>sync.Map\<close>s are Go maps;
  \<open>time.Now()\<close> is the argument \<open>now\<close>. Runs are an interface of their own,
  \<open>run_store\<close>, which the control plane relies on.
\<close>

datatype hades_error = ErrNodeNotFound | ErrRunNotFound | ErrNodeExpired

record HeartbeatPayload =
  hb_Node :: NodeInfo
  hb_Load :: ResourceCapacity
  hb_ActiveSandboxes :: "SandboxRun list"
  hb_Time :: go_time

definition NodeTTL :: duration where
  "NodeTTL = 30 * second"

record MemoryRegistry =
  mr_nodes :: "(NodeID, NodeStatus) gomap"
  mr_runs :: "(SandboxID, SandboxRun) gomap"

definition NewMemoryRegistry :: MemoryRegistry where
  "NewMemoryRegistry = \<lparr>mr_nodes = [], mr_runs = []\<rparr>"

definition expired :: "go_time \<Rightarrow> NodeStatus \<Rightarrow> bool" where
  "expired now status \<longleftrightarrow> now - node_Heartbeat status > NodeTTL"

text \<open>\<open>Range\<close> visits the entries of the map it started with; expired ones are deleted on the way.\<close>

fun list_nodes_loop ::
    "go_time \<Rightarrow> (NodeID \<times> NodeStatus) list \<Rightarrow> MemoryRegistry \<Rightarrow> NodeStatus list
     \<Rightarrow> NodeStatus list \<times> MemoryRegistry" where
  "list_nodes_loop now [] r acc = (acc, r)"
| "list_nodes_loop now ((nodeID, status) # rest) r acc =
     (if expired now status
      then list_nodes_loop now rest (r\<lparr>mr_nodes := del (mr_nodes r) nodeID\<rparr>) acc
      else list_nodes_loop now rest r (acc @ [status]))"

definition ListNodes :: "go_time \<Rightarrow> MemoryRegistry \<Rightarrow> NodeStatus list \<times> MemoryRegistry" where
  "ListNodes now r = list_nodes_loop now (mr_nodes r) r []"

definition GetNode :: "go_time \<Rightarrow> MemoryRegistry \<Rightarrow> NodeID \<Rightarrow> (hades_error + NodeStatus) \<times> MemoryRegistry" where
  "GetNode now r i =
     (case get (mr_nodes r) i of
        None \<Rightarrow> (Inl ErrNodeNotFound, r)
      | Some status \<Rightarrow>
          if expired now status then (Inl ErrNodeExpired, r\<lparr>mr_nodes := del (mr_nodes r) i\<rparr>)
          else (Inr status, r))"

definition status_of_payload :: "HeartbeatPayload \<Rightarrow> NodeStatus" where
  "status_of_payload p =
     NodeInfo.extend (hb_Node p)
       \<lparr>node_Allocated = hb_Load p, node_Heartbeat = hb_Time p,
        node_ActiveSandboxes = hb_ActiveSandboxes p\<rparr>"

definition UpdateHeartbeat :: "MemoryRegistry \<Rightarrow> HeartbeatPayload \<Rightarrow> MemoryRegistry" where
  "UpdateHeartbeat r p =
     (let status = status_of_payload p
      in r\<lparr>mr_nodes := put (mr_nodes r) (node_ID status) status\<rparr>)"

definition draining :: "NodeStatus \<Rightarrow> NodeStatus" where
  "draining status = status\<lparr>node_Labels := put (node_Labels status) ''status'' ''draining''\<rparr>"

definition MarkDraining :: "MemoryRegistry \<Rightarrow> NodeID \<Rightarrow> (hades_error + unit) \<times> MemoryRegistry" where
  "MarkDraining r i =
     (case get (mr_nodes r) i of
        None \<Rightarrow> (Inl ErrNodeNotFound, r)
      | Some status \<Rightarrow> (Inr (), r\<lparr>mr_nodes := put (mr_nodes r) i (draining status)\<rparr>))"

definition UpdateRun :: "MemoryRegistry \<Rightarrow> SandboxRun \<Rightarrow> MemoryRegistry" where
  "UpdateRun r run = r\<lparr>mr_runs := put (mr_runs r) (run_ID run) run\<rparr>"

definition GetRun :: "MemoryRegistry \<Rightarrow> SandboxID \<Rightarrow> hades_error + SandboxRun" where
  "GetRun r i = (case get (mr_runs r) i of None \<Rightarrow> Inl ErrRunNotFound | Some run \<Rightarrow> Inr run)"

definition ListRuns :: "MemoryRegistry \<Rightarrow> SandboxRun list" where
  "ListRuns r = map snd (mr_runs r)"

section \<open>Invariant\<close>

definition registry_ok :: "MemoryRegistry \<Rightarrow> bool" where
  "registry_ok r \<longleftrightarrow> gomap_ok (mr_nodes r) \<and> gomap_ok (mr_runs r) \<and>
     (\<forall>i s. get (mr_nodes r) i = Some s \<longrightarrow> node_ID s = i) \<and>
     (\<forall>i s. get (mr_runs r) i = Some s \<longrightarrow> run_ID s = i)"

lemma registry_ok_New: "registry_ok NewMemoryRegistry"
  by (simp add: registry_ok_def NewMemoryRegistry_def)

lemma registry_ok_UpdateHeartbeat: "registry_ok r \<Longrightarrow> registry_ok (UpdateHeartbeat r p)"
  by (auto simp: registry_ok_def UpdateHeartbeat_def Let_def split: if_splits)

lemma registry_ok_MarkDraining: "registry_ok r \<Longrightarrow> registry_ok (snd (MarkDraining r i))"
  by (auto simp: registry_ok_def MarkDraining_def draining_def split: option.splits if_splits)

lemma registry_ok_UpdateRun: "registry_ok r \<Longrightarrow> registry_ok (UpdateRun r run)"
  by (auto simp: registry_ok_def UpdateRun_def split: if_splits)

lemma registry_ok_del_node: "registry_ok r \<Longrightarrow> registry_ok (r\<lparr>mr_nodes := del (mr_nodes r) i\<rparr>)"
  by (auto simp: registry_ok_def split: if_splits)

lemma registry_ok_GetNode: "registry_ok r \<Longrightarrow> registry_ok (snd (GetNode now r i))"
  by (auto simp: GetNode_def registry_ok_del_node split: option.splits)

lemma registry_ok_list_loop:
  "registry_ok r \<Longrightarrow> registry_ok (snd (list_nodes_loop now es r acc))"
  by (induction now es r acc rule: list_nodes_loop.induct) (auto intro: registry_ok_del_node)

lemma registry_ok_ListNodes: "registry_ok r \<Longrightarrow> registry_ok (snd (ListNodes now r))"
  by (simp add: ListNodes_def registry_ok_list_loop)

text \<open>Every operation as a step of the registry; the reachable states satisfy the invariant.\<close>

inductive registry_step :: "MemoryRegistry \<Rightarrow> MemoryRegistry \<Rightarrow> bool" where
  heartbeat: "registry_step r (UpdateHeartbeat r p)"
| drain: "registry_step r (snd (MarkDraining r i))"
| update_run: "registry_step r (UpdateRun r run)"
| get_node: "registry_step r (snd (GetNode now r i))"
| list_nodes: "registry_step r (snd (ListNodes now r))"

inductive registry_reachable :: "MemoryRegistry \<Rightarrow> bool" where
  new: "registry_reachable NewMemoryRegistry"
| step: "registry_reachable r \<Longrightarrow> registry_step r r' \<Longrightarrow> registry_reachable r'"

lemma registry_step_ok: "registry_step r r' \<Longrightarrow> registry_ok r \<Longrightarrow> registry_ok r'"
  by (induction rule: registry_step.induct)
     (auto intro: registry_ok_UpdateHeartbeat registry_ok_MarkDraining registry_ok_UpdateRun
        registry_ok_GetNode registry_ok_ListNodes)

lemma registry_reachable_ok: "registry_reachable r \<Longrightarrow> registry_ok r"
  by (induction rule: registry_reachable.induct) (auto intro: registry_ok_New registry_step_ok)

section \<open>Listing the nodes\<close>

lemma list_loop_result:
  "fst (list_nodes_loop now es r acc) = acc @ map snd (filter (\<lambda>(i, s). \<not> expired now s) es)"
  by (induction now es r acc rule: list_nodes_loop.induct) auto

lemma list_loop_nodes:
  "get (mr_nodes (snd (list_nodes_loop now es r acc))) i =
     (if \<exists>s. (i, s) \<in> set es \<and> expired now s then None else get (mr_nodes r) i)"
  by (induction now es r acc rule: list_nodes_loop.induct) auto

lemma list_loop_runs: "mr_runs (snd (list_nodes_loop now es r acc)) = mr_runs r"
  by (induction now es r acc rule: list_nodes_loop.induct) auto

lemma ListNodes_runs [simp]: "mr_runs (snd (ListNodes now r)) = mr_runs r"
  by (simp add: ListNodes_def list_loop_runs)

lemma ListNodes_set:
  assumes "registry_ok r"
  shows "s \<in> set (fst (ListNodes now r)) \<longleftrightarrow> get (mr_nodes r) (node_ID s) = Some s \<and> \<not> expired now s"
proof -
  from assms have "get (mr_nodes r) (node_ID s) = Some s \<longleftrightarrow> (\<exists>i. (i, s) \<in> set (mr_nodes r))"
    by (auto simp: registry_ok_def simp flip: get_iff_in_set)
  then show ?thesis by (force simp: ListNodes_def list_loop_result)
qed

lemma ListNodes_keeps:
  assumes "registry_ok r"
  shows "get (mr_nodes (snd (ListNodes now r))) i =
     (case get (mr_nodes r) i of Some s \<Rightarrow> if expired now s then None else Some s | None \<Rightarrow> None)"
proof -
  have ok: "gomap_ok (mr_nodes r)" using assms by (simp add: registry_ok_def)
  then show ?thesis
    by (auto simp: ListNodes_def list_loop_nodes get_iff_in_set [OF ok, symmetric]
        split: option.splits)
qed

section \<open>Runs as a store\<close>

locale run_store =
  fixes update_run :: "'s \<Rightarrow> SandboxRun \<Rightarrow> 's"
    and get_run :: "'s \<Rightarrow> SandboxID \<Rightarrow> hades_error + SandboxRun"
    and list_runs :: "'s \<Rightarrow> SandboxRun list"
    and invar :: "'s \<Rightarrow> bool"
  assumes get_update: "invar s \<Longrightarrow>
      get_run (update_run s run) i = (if i = run_ID run then Inr run else get_run s i)"
    and list_get: "invar s \<Longrightarrow> run \<in> set (list_runs s) \<longleftrightarrow> get_run s (run_ID run) = Inr run"
    and invar_update: "invar s \<Longrightarrow> invar (update_run s run)"
begin

lemma invar_updates: "invar s \<Longrightarrow> invar (foldl update_run s runs)"
  by (induction runs arbitrary: s) (auto intro: invar_update)

text \<open>After any sequence of updates a lookup sees the last one written for its identifier.\<close>

lemma get_updates:
  "invar s \<Longrightarrow> get_run (foldl update_run s runs) i =
     (case find (\<lambda>r. run_ID r = i) (rev runs) of Some r \<Rightarrow> Inr r | None \<Rightarrow> get_run s i)"
proof (induction runs arbitrary: s)
  case Nil
  then show ?case by simp
next
  case (Cons r runs)
  have find_app: "find P (xs @ ys) = (case find P xs of Some x \<Rightarrow> Some x | None \<Rightarrow> find P ys)"
    for P :: "SandboxRun \<Rightarrow> bool" and xs ys
    by (induction xs) auto
  from Cons show ?case
    by (simp add: invar_update find_app get_update split: option.splits)
qed

lemma list_updates:
  "invar s \<Longrightarrow> run \<in> set (list_runs (foldl update_run s runs)) \<longleftrightarrow>
     get_run (foldl update_run s runs) (run_ID run) = Inr run"
  by (simp add: list_get invar_updates)

end

lemma ListRuns_iff: "registry_ok r \<Longrightarrow> run \<in> set (ListRuns r) \<longleftrightarrow> GetRun r (run_ID run) = Inr run"
proof -
  assume ok: "registry_ok r"
  have m: "get (mr_runs r) i = Some run \<longleftrightarrow> (i, run) \<in> set (mr_runs r)" for i
    using ok by (intro get_iff_in_set) (simp add: registry_ok_def)
  have "run \<in> set (ListRuns r) \<longleftrightarrow> (\<exists>i. (i, run) \<in> set (mr_runs r))"
    by (force simp: ListRuns_def)
  also have "\<dots> \<longleftrightarrow> get (mr_runs r) (run_ID run) = Some run"
    using ok by (auto simp: registry_ok_def simp flip: m)
  finally show ?thesis by (auto simp: GetRun_def split: option.splits)
qed

interpretation memory_runs: run_store UpdateRun GetRun ListRuns registry_ok
proof
  fix s run i
  show "GetRun (UpdateRun s run) i = (if i = run_ID run then Inr run else GetRun s i)"
    by (simp add: GetRun_def UpdateRun_def)
qed (auto simp: ListRuns_iff registry_ok_UpdateRun)

section \<open>Properties\<close>

text \<open>
  The registry's view of the nodes is consistent. In every reachable state, listing the nodes
  returns exactly the statuses of the nodes whose last heartbeat is at most the time to live old,
  forgets every other node and keeps these and all runs; looking one node up agrees with the
  list.
\<close>

theorem registry_live_nodes:
  assumes "registry_reachable r"
  shows "(\<forall>s. s \<in> set (fst (ListNodes now r)) \<longleftrightarrow> fst (GetNode now r (node_ID s)) = Inr s)
    \<and> (\<forall>i. get (mr_nodes (snd (ListNodes now r))) i =
          (case fst (GetNode now r i) of Inr s \<Rightarrow> Some s | Inl _ \<Rightarrow> None))
    \<and> (\<forall>s. s \<in> set (fst (ListNodes now r)) \<longrightarrow> now - node_Heartbeat s \<le> NodeTTL)
    \<and> mr_runs (snd (ListNodes now r)) = mr_runs r"
proof -
  have ok: "registry_ok r" using assms by (rule registry_reachable_ok)
  show ?thesis
    by (auto simp: ListNodes_set [OF ok] ListNodes_keeps [OF ok] GetNode_def expired_def
        split: option.splits if_splits)
qed

definition demo_info :: NodeInfo where
  "demo_info = \<lparr>node_ID = ''n1'', node_Address = ''10.0.0.1'', node_Labels = [],
     node_Capacity = \<lparr>cap_CPU = 4000, cap_Mem = 8192, cap_GPU = 0\<rparr>\<rparr>"

definition demo_heartbeat :: "go_time \<Rightarrow> HeartbeatPayload" where
  "demo_heartbeat t = \<lparr>hb_Node = demo_info, hb_Load = zero_ResourceCapacity,
     hb_ActiveSandboxes = [], hb_Time = t\<rparr>"

theorem registry_live_nodes_witness:
  "fst (ListNodes (31 * second) (UpdateHeartbeat NewMemoryRegistry (demo_heartbeat 0))) = [] \<and>
   mr_runs (snd (ListNodes (31 * second) (UpdateHeartbeat NewMemoryRegistry (demo_heartbeat 0)))) = []"
proof -
  have "registry_reachable (UpdateHeartbeat NewMemoryRegistry (demo_heartbeat 0))"
    by (rule registry_reachable.step [OF registry_reachable.new registry_step.heartbeat])
  from registry_live_nodes [OF this, of "31 * second"] show ?thesis
    by (simp add: ListNodes_def UpdateHeartbeat_def NewMemoryRegistry_def expired_def NodeTTL_def
        status_of_payload_def demo_heartbeat_def demo_info_def NodeInfo.extend_def put_def Let_def)
qed

text \<open>
  A draining mark does not survive the node's next heartbeat. The registry after marking a
  node and receiving its heartbeat is, for every lookup, the registry that received the heartbeat
  alone: the labels are those the agent reports.
\<close>

theorem heartbeat_erases_draining:
  assumes "node_ID (hb_Node p) = i"
  shows "get (mr_nodes (UpdateHeartbeat (snd (MarkDraining r i)) p)) j =
         get (mr_nodes (UpdateHeartbeat r p)) j"
  using assms
  by (simp add: UpdateHeartbeat_def MarkDraining_def Let_def status_of_payload_def
      NodeInfo.extend_def split: option.splits)

theorem heartbeat_erases_draining_witness:
  "get (mr_nodes (snd (MarkDraining
      (UpdateHeartbeat NewMemoryRegistry (demo_heartbeat 0)) ''n1''))) ''n1''
   = Some (draining (status_of_payload (demo_heartbeat 0)))
   \<and> get (mr_nodes (UpdateHeartbeat (snd (MarkDraining
      (UpdateHeartbeat NewMemoryRegistry (demo_heartbeat 0)) ''n1'')) (demo_heartbeat 5))) ''n1''
   = Some (status_of_payload (demo_heartbeat 5))"
proof
  have i: "node_ID (hb_Node (demo_heartbeat 5)) = ''n1''"
    by (simp add: demo_heartbeat_def demo_info_def)
  show "get (mr_nodes (UpdateHeartbeat (snd (MarkDraining
      (UpdateHeartbeat NewMemoryRegistry (demo_heartbeat 0)) ''n1'')) (demo_heartbeat 5))) ''n1''
   = Some (status_of_payload (demo_heartbeat 5))"
    unfolding heartbeat_erases_draining [OF i]
    by (simp add: UpdateHeartbeat_def status_of_payload_def demo_heartbeat_def demo_info_def
        NodeInfo.extend_def Let_def)
qed (simp add: MarkDraining_def UpdateHeartbeat_def status_of_payload_def demo_heartbeat_def
    demo_info_def NodeInfo.extend_def Let_def)

end
