(* ===== verification/Acheron.thy ===== *)
theory Acheron
  imports Domain
begin

text \<open>
  The job queue (\<open>src/pkg/acheron/queue.go\<close>, \<open>memory_queue.go\<close>): waiting requests, and
  the requests in processing under the receipt a consumer holds. Each operation runs under the
  queue's mutex, so an interleaving of producers and consumers is a sequence of operations.
  \<open>Dequeue\<close> waits on an empty queue; the model returns \<open>Blocked\<close> and an unchanged queue
  there, and the cancellation of the context is its boolean argument.

  The contract of the interface is the locale \<open>work_queue\<close>. Its lemmas follow a whole
  sequence of operations: every job that went in is waiting, in processing or acknowledged, jobs
  leave in the order they arrived, and a receipt is issued once.
\<close>

record MemoryQueue =
  mq_items :: "SandboxRequest list"
  mq_processing :: "(string, SandboxRequest) gomap"
  mq_nextID :: nat

datatype dequeue_result = Blocked | Cancelled | Delivered SandboxRequest string

definition NewMemoryQueue :: MemoryQueue where
  "NewMemoryQueue = \<lparr>mq_items = [], mq_processing = [], mq_nextID = 0\<rparr>"

definition Enqueue :: "MemoryQueue \<Rightarrow> SandboxRequest \<Rightarrow> MemoryQueue" where
  "Enqueue q req = q\<lparr>mq_items := mq_items q @ [req]\<rparr>"

definition receipt :: "nat \<Rightarrow> string" where
  "receipt n = ''receipt-'' @ itoa n"

definition Dequeue :: "bool \<Rightarrow> MemoryQueue \<Rightarrow> dequeue_result \<times> MemoryQueue" where
  "Dequeue cancelled q =
     (case mq_items q of
        [] \<Rightarrow> if cancelled then (Cancelled, q) else (Blocked, q)
      | item # rest \<Rightarrow>
          if cancelled then (Cancelled, q)
          else let n = mq_nextID q + 1 in
            (Delivered item (receipt n),
             q\<lparr>mq_items := rest, mq_nextID := n,
               mq_processing := put (mq_processing q) (receipt n) item\<rparr>))"

definition Ack :: "MemoryQueue \<Rightarrow> string \<Rightarrow> MemoryQueue" where
  "Ack q rcpt =
     (case get (mq_processing q) rcpt of
        None \<Rightarrow> q
      | Some _ \<Rightarrow> q\<lparr>mq_processing := del (mq_processing q) rcpt\<rparr>)"

definition Nack :: "MemoryQueue \<Rightarrow> string \<Rightarrow> MemoryQueue" where
  "Nack q rcpt =
     (case get (mq_processing q) rcpt of
        None \<Rightarrow> q
      | Some item \<Rightarrow> q\<lparr>mq_items := mq_items q @ [item],
                       mq_processing := del (mq_processing q) rcpt\<rparr>)"

definition Len :: "MemoryQueue \<Rightarrow> nat" where
  "Len q = length (mq_items q) + length (mq_processing q)"

section \<open>The contract of a work queue\<close>

datatype 'a queue_op = EnqOp 'a | DeqOp | AckOp string | NackOp string

text \<open>What one operation did, as its caller and an observer see it.\<close>

datatype 'a queue_event =
    Arrived 'a | Handed 'a string | Acked 'a string | Requeued 'a string | Nothing

fun arrivals :: "'a queue_event list \<Rightarrow> 'a list" where
  "arrivals [] = []"
| "arrivals (Arrived x # es) = x # arrivals es"
| "arrivals (Requeued x r # es) = x # arrivals es"
| "arrivals (_ # es) = arrivals es"

fun entered :: "'a queue_event list \<Rightarrow> 'a list" where
  "entered [] = []"
| "entered (Arrived x # es) = x # entered es"
| "entered (_ # es) = entered es"

fun handed :: "'a queue_event list \<Rightarrow> 'a list" where
  "handed [] = []"
| "handed (Handed x r # es) = x # handed es"
| "handed (_ # es) = handed es"

fun issued :: "'a queue_event list \<Rightarrow> (string \<times> 'a) list" where
  "issued [] = []"
| "issued (Handed x r # es) = (r, x) # issued es"
| "issued (_ # es) = issued es"

fun settled :: "'a queue_event list \<Rightarrow> (string \<times> 'a) list" where
  "settled [] = []"
| "settled (Acked x r # es) = (r, x) # settled es"
| "settled (Requeued x r # es) = (r, x) # settled es"
| "settled (_ # es) = settled es"

fun acked :: "'a queue_event list \<Rightarrow> 'a list" where
  "acked [] = []"
| "acked (Acked x r # es) = x # acked es"
| "acked (_ # es) = acked es"

text \<open>
  One operation and a sequence of them, over the operations of any queue (\<open>holds\<close> tells what a
  receipt stands for).
\<close>

fun qstep ::
    "('q \<Rightarrow> string \<Rightarrow> 'a option) \<Rightarrow> ('q \<Rightarrow> 'a \<Rightarrow> 'q) \<Rightarrow> ('q \<Rightarrow> ('a \<times> string) option \<times> 'q)
     \<Rightarrow> ('q \<Rightarrow> string \<Rightarrow> 'q) \<Rightarrow> ('q \<Rightarrow> string \<Rightarrow> 'q) \<Rightarrow> 'q \<Rightarrow> 'a queue_op \<Rightarrow> 'a queue_event \<times> 'q" where
  "qstep holds enq deq ack nack q (EnqOp x) = (Arrived x, enq q x)"
| "qstep holds enq deq ack nack q DeqOp =
     (case deq q of (None, q') \<Rightarrow> (Nothing, q') | (Some (x, r), q') \<Rightarrow> (Handed x r, q'))"
| "qstep holds enq deq ack nack q (AckOp r) =
     (case holds q r of None \<Rightarrow> (Nothing, ack q r) | Some x \<Rightarrow> (Acked x r, ack q r))"
| "qstep holds enq deq ack nack q (NackOp r) =
     (case holds q r of None \<Rightarrow> (Nothing, nack q r) | Some x \<Rightarrow> (Requeued x r, nack q r))"

fun qrun :: "('q \<Rightarrow> 'p \<Rightarrow> 'e \<times> 'q) \<Rightarrow> 'q \<Rightarrow> 'p list \<Rightarrow> 'e list \<times> 'q" where
  "qrun step q [] = ([], q)"
| "qrun step q (p # ps) = (let (e, q') = step q p; (es, q'') = qrun step q' ps in (e # es, q''))"

lemma qrun_Cons:
  assumes "qrun step q (p # ps) = (es, q')"
  obtains e q1 es' where "step q p = (e, q1)" "qrun step q1 ps = (es', q')" "es = e # es'"
  using assms by (auto simp: Let_def split: prod.splits)

lemma account_trans:
  "a + e = b + c \<Longrightarrow> b + e' = d + c' \<Longrightarrow> a + (e + e') = d + (c + c' :: 'x multiset)"
proof -
  assume 1: "a + e = b + c" and 2: "b + e' = d + c'"
  have "a + (e + e') = (a + e) + e'" by (simp add: add.assoc)
  also have "\<dots> = (b + e') + c" unfolding 1 by (simp add: ac_simps)
  also have "\<dots> = d + (c + c')" unfolding 2 by (simp add: ac_simps)
  finally show ?thesis .
qed

lemma event_Cons:
  "entered (e # es) = entered [e] @ entered es" "acked (e # es) = acked [e] @ acked es"
  "arrivals (e # es) = arrivals [e] @ arrivals es" "handed (e # es) = handed [e] @ handed es"
  "issued (e # es) = issued [e] @ issued es" "settled (e # es) = settled [e] @ settled es"
  by (cases e; simp)+

text \<open>
  What is true of a queue when every operation on it keeps the account of jobs and the order of the line.
\<close>

locale accounted_queue =
  fixes waiting :: "'q \<Rightarrow> 'a list"
    and in_flight :: "'q \<Rightarrow> 'a multiset"
    and invar :: "'q \<Rightarrow> bool"
    and step :: "'q \<Rightarrow> 'a queue_op \<Rightarrow> 'a queue_event \<times> 'q"
  assumes step_invar: "invar q \<Longrightarrow> invar (snd (step q p))"
    and step_account: "invar q \<Longrightarrow> step q p = (e, q') \<Longrightarrow>
        mset (waiting q) + in_flight q + mset (entered [e]) = mset (waiting q') + in_flight q' + mset (acked [e])"
    and step_order: "invar q \<Longrightarrow> step q p = (e, q') \<Longrightarrow> waiting q @ arrivals [e] = handed [e] @ waiting q'"
begin

lemma qrun_invar: "invar q \<Longrightarrow> qrun step q ps = (es, q') \<Longrightarrow> invar q'"
proof (induction ps arbitrary: q es)
  case (Cons p ps)
  from Cons.prems(2) obtain e q1 es' where "step q p = (e, q1)" "qrun step q1 ps = (es', q')"
    by (rule qrun_Cons)
  with Cons step_invar [OF Cons.prems(1), of p] show ?case by simp
qed simp

text \<open>No job is lost or made up, over any sequence of operations.\<close>

lemma qrun_account:
  "invar q \<Longrightarrow> qrun step q ps = (es, q') \<Longrightarrow>
   mset (waiting q) + in_flight q + mset (entered es) =
   mset (waiting q') + in_flight q' + mset (acked es)"
proof (induction ps arbitrary: q es)
  case (Cons p ps)
  from Cons.prems(2) obtain e q1 es' where s: "step q p = (e, q1)"
    and r: "qrun step q1 ps = (es', q')" and es: "es = e # es'" by (rule qrun_Cons)
  have "invar q1" using step_invar [OF Cons.prems(1), of p] s by simp
  from account_trans [OF step_account [OF Cons.prems(1) s] Cons.IH [OF this r]] show ?case
    unfolding es event_Cons [of e es'] mset_append .
qed simp

text \<open>Jobs are handed out in the order in which they (re-)joined the line.\<close>

lemma qrun_order:
  "invar q \<Longrightarrow> qrun step q ps = (es, q') \<Longrightarrow> waiting q @ arrivals es = handed es @ waiting q'"
proof (induction ps arbitrary: q es)
  case (Cons p ps)
  from Cons.prems(2) obtain e q1 es' where s: "step q p = (e, q1)"
    and r: "qrun step q1 ps = (es', q')" and es: "es = e # es'" by (rule qrun_Cons)
  have "invar q1" using step_invar [OF Cons.prems(1), of p] s by simp
  from Cons.IH [OF this r] have "waiting q1 @ arrivals es' = handed es' @ waiting q'" .
  then have "(handed [e] @ waiting q1) @ arrivals es' = (handed [e] @ handed es') @ waiting q'"
    by simp
  then show ?case
    unfolding es event_Cons [of e es'] step_order [OF Cons.prems(1) s, symmetric] by simp
qed simp

end

locale work_queue =
  fixes waiting :: "'q \<Rightarrow> 'a list"
    and holds :: "'q \<Rightarrow> string \<Rightarrow> 'a option"
    and in_flight :: "'q \<Rightarrow> 'a multiset"
    and invar :: "'q \<Rightarrow> bool"
    and enq :: "'q \<Rightarrow> 'a \<Rightarrow> 'q"
    and deq :: "'q \<Rightarrow> ('a \<times> string) option \<times> 'q"
    and ack :: "'q \<Rightarrow> string \<Rightarrow> 'q"
    and nack :: "'q \<Rightarrow> string \<Rightarrow> 'q"
  assumes enq_waiting: "invar q \<Longrightarrow> waiting (enq q x) = waiting q @ [x]"
    and enq_flight: "invar q \<Longrightarrow> in_flight (enq q x) = in_flight q"
    and deq_empty: "invar q \<Longrightarrow> waiting q = [] \<Longrightarrow> deq q = (None, q)"
    and deq_some: "invar q \<Longrightarrow> waiting q = x # xs \<Longrightarrow>
        \<exists>r q'. deq q = (Some (x, r), q') \<and> waiting q' = xs \<and>
               in_flight q' = add_mset x (in_flight q) \<and> holds q' r = Some x"
    and ack_held: "invar q \<Longrightarrow> holds q r = Some x \<Longrightarrow>
        waiting (ack q r) = waiting q \<and> in_flight q = add_mset x (in_flight (ack q r))"
    and ack_unknown: "invar q \<Longrightarrow> holds q r = None \<Longrightarrow> ack q r = q"
    and nack_held: "invar q \<Longrightarrow> holds q r = Some x \<Longrightarrow>
        waiting (nack q r) = waiting q @ [x] \<and> in_flight q = add_mset x (in_flight (nack q r))"
    and nack_unknown: "invar q \<Longrightarrow> holds q r = None \<Longrightarrow> nack q r = q"
    and invar_enq: "invar q \<Longrightarrow> invar (enq q x)"
    and invar_deq: "invar q \<Longrightarrow> invar (snd (deq q))"
    and invar_ack: "invar q \<Longrightarrow> invar (ack q r)"
    and invar_nack: "invar q \<Longrightarrow> invar (nack q r)"
begin

abbreviation qstep_of :: "'q \<Rightarrow> 'a queue_op \<Rightarrow> 'a queue_event \<times> 'q" where
  "qstep_of \<equiv> qstep holds enq deq ack nack"

lemma qstep_invar: "invar q \<Longrightarrow> invar (snd (qstep_of q p))"
  by (cases p)
     (auto simp: invar_enq invar_ack invar_nack split: option.splits prod.splits dest: invar_deq)

text \<open>One step keeps the account of jobs and the order of the waiting line.\<close>

lemma qstep_account:
  assumes "invar q" "qstep_of q p = (e, q')"
  shows "mset (waiting q) + in_flight q + mset (entered [e]) =
         mset (waiting q') + in_flight q' + mset (acked [e])"
proof (cases p)
  case DeqOp
  show ?thesis
  proof (cases "waiting q")
    case Nil
    with assms DeqOp show ?thesis by (auto simp: deq_empty)
  next
    case (Cons x xs)
    with deq_some [OF assms(1)] assms DeqOp show ?thesis by fastforce
  qed
next
  case (AckOp r)
  with assms ack_held [OF assms(1), of r] ack_unknown [OF assms(1), of r] show ?thesis
    by (auto split: option.splits)
next
  case (NackOp r)
  with assms nack_held [OF assms(1), of r] nack_unknown [OF assms(1), of r] show ?thesis
    by (auto split: option.splits)
qed (use assms in \<open>auto simp: enq_waiting enq_flight\<close>)

lemma qstep_order:
  assumes "invar q" "qstep_of q p = (e, q')"
  shows "waiting q @ arrivals [e] = handed [e] @ waiting q'"
proof (cases p)
  case DeqOp
  show ?thesis
  proof (cases "waiting q")
    case Nil
    with assms DeqOp show ?thesis by (auto simp: deq_empty)
  next
    case (Cons x xs)
    with deq_some [OF assms(1)] assms DeqOp show ?thesis by fastforce
  qed
next
  case (AckOp r)
  with assms ack_held [OF assms(1), of r] ack_unknown [OF assms(1), of r] show ?thesis
    by (auto split: option.splits)
next
  case (NackOp r)
  with assms nack_held [OF assms(1), of r] nack_unknown [OF assms(1), of r] show ?thesis
    by (auto split: option.splits)
qed (use assms in \<open>auto simp: enq_waiting\<close>)

end

text \<open>A queue that keeps the contract of its operations keeps the account.\<close>

sublocale work_queue < accounted_queue waiting in_flight invar qstep_of
  by unfold_locales (auto intro: qstep_invar qstep_account qstep_order)

section \<open>The memory queue keeps the contract\<close>

definition queue_ok :: "MemoryQueue \<Rightarrow> bool" where
  "queue_ok q \<longleftrightarrow> gomap_ok (mq_processing q) \<and>
     (\<forall>r x. get (mq_processing q) r = Some x \<longrightarrow> (\<exists>n\<le>mq_nextID q. r = receipt n))"

lemma receipt_inj: "receipt m = receipt n \<longleftrightarrow> m = n"
  by (simp add: receipt_def itoa_inj)

lemma fresh_receipt: "queue_ok q \<Longrightarrow> get (mq_processing q) (receipt (mq_nextID q + 1)) = None"
proof (rule ccontr)
  assume ok: "queue_ok q" and "get (mq_processing q) (receipt (mq_nextID q + 1)) \<noteq> None"
  then obtain n where "n \<le> mq_nextID q" "receipt (mq_nextID q + 1) = receipt n"
    by (auto simp: queue_ok_def)
  then show False by (simp add: receipt_inj)
qed

definition Dequeue_opt :: "MemoryQueue \<Rightarrow> (SandboxRequest \<times> string) option \<times> MemoryQueue" where
  "Dequeue_opt q = (case Dequeue False q of
      (Delivered x r, q') \<Rightarrow> (Some (x, r), q') | (_, q') \<Rightarrow> (None, q'))"

lemma queue_ok_New: "queue_ok NewMemoryQueue"
  by (simp add: queue_ok_def NewMemoryQueue_def)

lemma queue_ok_Enqueue: "queue_ok q \<Longrightarrow> queue_ok (Enqueue q x)"
  by (simp add: queue_ok_def Enqueue_def)

lemma queue_ok_deliver:
  "queue_ok q \<Longrightarrow> queue_ok (q\<lparr>mq_items := xs, mq_nextID := mq_nextID q + 1,
     mq_processing := put (mq_processing q) (receipt (mq_nextID q + 1)) x\<rparr>)"
  by (auto simp: queue_ok_def intro: le_SucI)

lemma queue_ok_Dequeue: "queue_ok q \<Longrightarrow> queue_ok (snd (Dequeue c q))"
  using queue_ok_deliver by (auto simp: Dequeue_def Let_def split: list.splits)

lemma queue_ok_Ack: "queue_ok q \<Longrightarrow> queue_ok (Ack q r)"
  by (auto simp: queue_ok_def Ack_def split: option.splits if_splits)

lemma queue_ok_Nack: "queue_ok q \<Longrightarrow> queue_ok (Nack q r)"
  by (auto simp: queue_ok_def Nack_def split: option.splits if_splits)

lemma Dequeue_opt_Nil: "mq_items q = [] \<Longrightarrow> Dequeue_opt q = (None, q)"
  by (simp add: Dequeue_opt_def Dequeue_def)

lemma Dequeue_opt_Cons:
  "mq_items q = x # xs \<Longrightarrow> Dequeue_opt q =
     (Some (x, receipt (mq_nextID q + 1)),
      q\<lparr>mq_items := xs, mq_nextID := mq_nextID q + 1,
        mq_processing := put (mq_processing q) (receipt (mq_nextID q + 1)) x\<rparr>)"
  by (simp add: Dequeue_opt_def Dequeue_def Let_def)

interpretation mq: work_queue mq_items "\<lambda>q. get (mq_processing q)" "\<lambda>q. mvals (mq_processing q)"
    queue_ok Enqueue Dequeue_opt Ack Nack
proof
  fix q r x
  assume ok: "queue_ok q" and held: "get (mq_processing q) r = Some x"
  then have g: "gomap_ok (mq_processing q)" by (simp add: queue_ok_def)
  show "mq_items (Ack q r) = mq_items q \<and>
        mvals (mq_processing q) = add_mset x (mvals (mq_processing (Ack q r)))"
    using held mvals_del [OF g held] by (simp add: Ack_def)
  show "mq_items (Nack q r) = mq_items q @ [x] \<and>
        mvals (mq_processing q) = add_mset x (mvals (mq_processing (Nack q r)))"
    using held mvals_del [OF g held] by (simp add: Nack_def)
next
  fix q x xs
  assume "queue_ok q" "mq_items q = x # xs"
  then show "\<exists>r q'. Dequeue_opt q = (Some (x, r), q') \<and> mq_items q' = xs \<and>
      mvals (mq_processing q') = add_mset x (mvals (mq_processing q)) \<and>
      get (mq_processing q') r = Some x"
    using mvals_put_fresh [OF fresh_receipt] by (simp add: Dequeue_opt_Cons)
next
  fix q
  assume ok: "queue_ok q"
  have "snd (Dequeue_opt q) = snd (Dequeue False q)"
    by (auto simp: Dequeue_opt_def split: prod.splits dequeue_result.splits)
  with ok show "queue_ok (snd (Dequeue_opt q))"
    by (simp add: queue_ok_Dequeue)
qed (auto simp: Enqueue_def Dequeue_opt_Nil Ack_def Nack_def
      queue_ok_Enqueue [unfolded Enqueue_def] queue_ok_Ack [unfolded Ack_def]
      queue_ok_Nack [unfolded Nack_def])

subsection \<open>Receipts\<close>

definition memory_queue_step ::
    "MemoryQueue \<Rightarrow> SandboxRequest queue_op \<Rightarrow> SandboxRequest queue_event \<times> MemoryQueue" where
  "memory_queue_step = qstep (\<lambda>q. get (mq_processing q)) Enqueue Dequeue_opt Ack Nack"

abbreviation memory_queue_run ::
    "MemoryQueue \<Rightarrow> SandboxRequest queue_op list \<Rightarrow> SandboxRequest queue_event list \<times> MemoryQueue" where
  "memory_queue_run \<equiv> qrun memory_queue_step"

lemma memory_queue_step_ok: "queue_ok q \<Longrightarrow> queue_ok (snd (memory_queue_step q p))"
  unfolding memory_queue_step_def by (rule mq.step_invar)

lemma step_receipts:
  assumes "queue_ok q" "memory_queue_step q p = (e, q')"
  shows "mset (mq_processing q) + mset (issued [e]) = mset (mq_processing q') + mset (settled [e])"
    and "map fst (issued [e]) = map receipt [mq_nextID q + 1..<mq_nextID q' + 1]"
proof -
  from assms(1) have g: "gomap_ok (mq_processing q)" by (simp add: queue_ok_def)
  show "mset (mq_processing q) + mset (issued [e]) = mset (mq_processing q') + mset (settled [e])"
    using assms mset_del [OF g] mset_put_fresh [OF fresh_receipt [OF assms(1)]]
    by (cases p; cases "mq_items q")
       (auto simp: memory_queue_step_def Enqueue_def Dequeue_opt_Nil Dequeue_opt_Cons Ack_def
          Nack_def split: option.splits)
  show "map fst (issued [e]) = map receipt [mq_nextID q + 1..<mq_nextID q' + 1]"
    using assms
    by (cases p; cases "mq_items q")
       (auto simp: memory_queue_step_def Enqueue_def Dequeue_opt_Nil Dequeue_opt_Cons Ack_def
          Nack_def split: option.splits)
qed

lemma step_nextID: "memory_queue_step q p = (e, q') \<Longrightarrow> mq_nextID q \<le> mq_nextID q'"
  by (cases p; cases "mq_items q")
     (auto simp: memory_queue_step_def Enqueue_def Dequeue_opt_Nil Dequeue_opt_Cons Ack_def
        Nack_def split: option.splits)

lemma run_receipts:
  "queue_ok q \<Longrightarrow> memory_queue_run q ps = (es, q') \<Longrightarrow>
   mset (mq_processing q) + mset (issued es) = mset (mq_processing q') + mset (settled es) \<and>
   map fst (issued es) = map receipt [mq_nextID q + 1..<mq_nextID q' + 1] \<and>
   mq_nextID q \<le> mq_nextID q'"
proof (induction ps arbitrary: q es)
  case (Cons p ps)
  from Cons.prems(2) obtain e q1 es' where s: "memory_queue_step q p = (e, q1)"
    and r: "memory_queue_run q1 ps = (es', q')" and es: "es = e # es'" by (rule qrun_Cons)
  have ok: "queue_ok q1" using memory_queue_step_ok [OF Cons.prems(1), of p] s by simp
  note IH = Cons.IH [OF ok r] and le = step_nextID [OF s]
  have "[mq_nextID q + 1..<mq_nextID q' + 1] =
      [mq_nextID q + 1..<mq_nextID q1 + 1] @ [mq_nextID q1 + 1..<mq_nextID q' + 1]"
    using le IH upt_add_eq_append [of "mq_nextID q + 1" "mq_nextID q1 + 1" "mq_nextID q' - mq_nextID q1"]
    by simp
  then show ?case
    using account_trans [OF step_receipts(1) [OF Cons.prems(1) s] conjunct1 [OF IH]]
      step_receipts(2) [OF Cons.prems(1) s] IH le
    unfolding es event_Cons [of e es'] mset_append map_append by simp
qed simp

lemma distinct_receipts: "distinct (map receipt [m..<n])"
  by (auto simp: distinct_map inj_on_def receipt_inj)

section \<open>Properties\<close>

text \<open>
  C3: The queue never loses and never makes up a job. Over any interleaving of enqueue, dequeue,
  ack and nack operations from the new queue, with any receipts (unknown and stale ones included),
  the requests that entered are exactly those waiting, those in processing and those acknowledged,
  each counted as often as it entered; the reported length is the number not yet acknowledged.
\<close>

theorem queue_no_job_lost:
  assumes "memory_queue_run NewMemoryQueue ps = (es, q)"
  shows "mset (entered es) = mset (mq_items q) + mvals (mq_processing q) + mset (acked es) \<and>
         Len q + length (acked es) = length (entered es)"
proof -
  have *: "mset (entered es) = mset (mq_items q) + mvals (mq_processing q) + mset (acked es)"
    using mq.qrun_account [OF queue_ok_New assms [unfolded memory_queue_step_def]]
    by (simp add: NewMemoryQueue_def)
  from arg_cong [OF *, of size] have "Len q + length (acked es) = length (entered es)"
    by (simp add: Len_def size_mvals)
  with * show ?thesis by simp
qed

theorem queue_no_job_lost_witness:
  "Len (Nack (snd (Dequeue_opt (Enqueue NewMemoryQueue zero_SandboxRequest))) ''receipt-1'') + 0 = 1"
proof -
  let ?ps = "[EnqOp zero_SandboxRequest, DeqOp, NackOp ''receipt-1'']"
  let ?q = "Nack (snd (Dequeue_opt (Enqueue NewMemoryQueue zero_SandboxRequest))) ''receipt-1''"
  let ?es = "[Arrived zero_SandboxRequest, Handed zero_SandboxRequest ''receipt-1'',
              Requeued zero_SandboxRequest ''receipt-1'']"
  have "itoa (Suc 0) = ''1''" by code_simp
  then have "memory_queue_run NewMemoryQueue ?ps = (?es, ?q)"
    by (simp add: memory_queue_step_def NewMemoryQueue_def Enqueue_def Dequeue_opt_Cons receipt_def
        put_def)
  from queue_no_job_lost [OF this] show ?thesis by simp
qed

text \<open>
  Jobs are handed out first come, first served: the requests handed to consumers, followed by
  those still waiting, are the requests in the order in which they joined the line, by an enqueue
  or by a nack that put them back at its end.
\<close>

theorem queue_fifo:
  assumes "memory_queue_run NewMemoryQueue ps = (es, q)"
  shows "arrivals es = handed es @ mq_items q"
  using mq.qrun_order [OF queue_ok_New assms [unfolded memory_queue_step_def]]
  by (simp add: NewMemoryQueue_def)

theorem queue_fifo_witness:
  "arrivals [Arrived zero_SandboxRequest] = handed [Arrived zero_SandboxRequest] @
     mq_items (Enqueue NewMemoryQueue zero_SandboxRequest)"
proof -
  have "memory_queue_run NewMemoryQueue [EnqOp zero_SandboxRequest] =
      ([Arrived zero_SandboxRequest], Enqueue NewMemoryQueue zero_SandboxRequest)"
    by (simp add: memory_queue_step_def)
  then show ?thesis by (rule queue_fifo)
qed

text \<open>
  A receipt stands for one delivery. Receipts are never issued twice, no delivery is settled
  twice, and an ack or nack that takes effect settles exactly the request handed out under its
  receipt; the receipts issued and not settled are those of the requests in processing.
\<close>

theorem queue_receipts_unique:
  assumes "memory_queue_run NewMemoryQueue ps = (es, q)"
  shows "distinct (map fst (issued es)) \<and> distinct (map fst (settled es)) \<and>
         mset (issued es) = mset (settled es) + mset (mq_processing q)"
proof -
  have all: "mset (issued es) = mset (mq_processing q) + mset (settled es)"
      "map fst (issued es) = map receipt [1..<mq_nextID q + 1]"
    using run_receipts [OF queue_ok_New assms] by (simp_all add: NewMemoryQueue_def)
  then have dist: "distinct (map fst (issued es))" by (simp only: distinct_receipts)
  from all(1) have "mset (map fst (settled es)) \<subseteq># mset (map fst (issued es))"
    by (simp add: mset_map)
  then have "distinct (map fst (settled es))"
    using dist by (rule distinct_submset)
  with dist all show ?thesis by (simp add: add.commute)
qed

theorem queue_receipts_unique_witness:
  "distinct (map fst (issued [Arrived zero_SandboxRequest, Nothing]))"
proof -
  have "memory_queue_run NewMemoryQueue [EnqOp zero_SandboxRequest, AckOp ''receipt-9''] =
      ([Arrived zero_SandboxRequest, Nothing], Enqueue NewMemoryQueue zero_SandboxRequest)"
    by (simp add: memory_queue_step_def NewMemoryQueue_def Enqueue_def Ack_def)
  from queue_receipts_unique [OF this] show ?thesis by blast
qed

end
