(* ===== verification/Themis.thy ===== *)
theory Themis
  imports Domain
begin

text \<open>
  The policy repository (\<open>src/pkg/themis/policy.go\<close>, \<open>memory_repo.go\<close>): policies by
  template with optimistic locking on the version, and the lockdown policy for templates without
  one. The mutex makes every operation atomic, so concurrent callers are a sequence of operations.

  The code hands policies around by pointer: \<open>GetPolicy\<close> returns the stored object itself and
  \<open>UpsertPolicy\<close> increments the version in the caller's object and stores that object. The
  model therefore has an explicit heap: a policy object is an address, and the repository maps a
  template to the address of its policy. What a writer with an object of its own may rely on is
  the locale \<open>versioned_store\<close>.
\<close>

type_synonym policy_ptr = nat

record MemoryRepo =
  heap :: "policy_ptr \<Rightarrow> SandboxPolicy"
  next_ptr :: policy_ptr
  byTplID :: "(TemplateID, policy_ptr) gomap"

datatype themis_error = VersionConflict int int

definition lockdown_policy :: "TemplateID \<Rightarrow> SandboxPolicy" where
  "lockdown_policy tplID = \<lparr>pol_ID = ''lockdown-default'', pol_TemplateID = tplID,
     pol_Resources = zero_ResourceSpec\<lparr>res_CPU := 1000, res_Mem := 128\<rparr>,
     pol_NetworkPolicy = \<lparr>net_ID = ''lockdown-no-net'', net_Name = ''No Internet''\<rparr>,
     pol_Retention = \<lparr>ret_MaxAge = 0, ret_KeepOutputs = False\<rparr>,
     pol_Tags = [(''type'', ''default-lockdown'')], pol_Version = 0\<rparr>"

definition NewMemoryRepo :: MemoryRepo where
  "NewMemoryRepo = \<lparr>heap = (\<lambda>_. lockdown_policy []), next_ptr = 0, byTplID = []\<rparr>"

text \<open>A new object (\<open>&domain.SandboxPolicy{...}\<close>) and an assignment through a pointer.\<close>

definition new_policy :: "MemoryRepo \<Rightarrow> SandboxPolicy \<Rightarrow> policy_ptr \<times> MemoryRepo" where
  "new_policy r p = (next_ptr r, r\<lparr>heap := (heap r)(next_ptr r := p), next_ptr := next_ptr r + 1\<rparr>)"

definition assign :: "MemoryRepo \<Rightarrow> policy_ptr \<Rightarrow> SandboxPolicy \<Rightarrow> MemoryRepo" where
  "assign r a p = r\<lparr>heap := (heap r)(a := p)\<rparr>"

definition GetPolicy :: "MemoryRepo \<Rightarrow> TemplateID \<Rightarrow> policy_ptr \<times> MemoryRepo" where
  "GetPolicy r tplID =
     (case get (byTplID r) tplID of
        Some policy \<Rightarrow> (policy, r)
      | None \<Rightarrow> new_policy r (lockdown_policy tplID))"

definition current_version :: "MemoryRepo \<Rightarrow> TemplateID \<Rightarrow> int" where
  "current_version r t =
     (case get (byTplID r) t of Some existing \<Rightarrow> pol_Version (heap r existing) | None \<Rightarrow> 0)"

definition UpsertPolicy :: "MemoryRepo \<Rightarrow> policy_ptr \<Rightarrow> themis_error option \<times> MemoryRepo" where
  "UpsertPolicy r a =
     (let p = heap r a; currentVersion = current_version r (pol_TemplateID p)
      in if pol_Version p \<noteq> currentVersion
         then (Some (VersionConflict currentVersion (pol_Version p)), r)
         else let r' = assign r a (p\<lparr>pol_Version := wrap64 (pol_Version p + 1)\<rparr>)
              in (None, r'\<lparr>byTplID := put (byTplID r') (pol_TemplateID p) a\<rparr>))"

definition ListPolicies :: "MemoryRepo \<Rightarrow> policy_ptr list" where
  "ListPolicies r = map snd (byTplID r)"

text \<open>The policy a lookup shows its caller.\<close>

definition policy_of :: "MemoryRepo \<Rightarrow> TemplateID \<Rightarrow> SandboxPolicy" where
  "policy_of r t = (case GetPolicy r t of (a, r') \<Rightarrow> heap r' a)"

lemma policy_of_eq:
  "policy_of r t = (case get (byTplID r) t of Some a \<Rightarrow> heap r a | None \<Rightarrow> lockdown_policy t)"
  by (simp add: policy_of_def GetPolicy_def new_policy_def split: option.splits)

section \<open>Optimistic locking\<close>

locale versioned_store =
  fixes invar :: "'s \<Rightarrow> bool"
    and version :: "'s \<Rightarrow> 'k \<Rightarrow> int"
    and key :: "'p \<Rightarrow> 'k"
    and expects :: "'p \<Rightarrow> int"
    and wr :: "'s \<Rightarrow> 'p \<Rightarrow> bool \<times> 's"
  assumes accept_iff: "invar s \<Longrightarrow> fst (wr s p) \<longleftrightarrow> expects p = version s (key p)"
    and version_refused: "invar s \<Longrightarrow> \<not> fst (wr s p) \<Longrightarrow> version (snd (wr s p)) k = version s k"
    and version_accept: "invar s \<Longrightarrow> fst (wr s p) \<Longrightarrow> in_int64 (version s (key p) + 1) \<Longrightarrow>
        version (snd (wr s p)) k = version s k + (if k = key p then 1 else 0)"
    and invar_wr: "invar s \<Longrightarrow> invar (snd (wr s p))"
begin

fun writes :: "'s \<Rightarrow> 'p list \<Rightarrow> bool list \<times> 's" where
  "writes s [] = ([], s)"
| "writes s (p # ps) = (let (ok, s') = wr s p; (oks, s'') = writes s' ps in (ok # oks, s''))"

text \<open>Of two writers that read the same version, the second is refused.\<close>

lemma second_refused:
  assumes "invar s" "fst (wr s p)" "key q = key p" "expects q = expects p"
    and "in_int64 (version s (key p) + 1)"
  shows "\<not> fst (wr (snd (wr s p)) q)"
  using assms accept_iff [OF assms(1), of p] version_accept [OF assms(1,2,5), of "key p"]
    accept_iff [OF invar_wr [OF assms(1), of p], of q]
  by simp

lemma writes_version:
  assumes "invar s" "\<And>k. 0 \<le> version s k" "\<And>k. version s k + int (length ps) < 2 ^ 63"
    and "writes s ps = (oks, s')"
  shows "version s' k =
    version s k + int (length (filter (\<lambda>(p, ok). ok \<and> key p = k) (zip ps oks)))"
  using assms
proof (induction ps arbitrary: s oks)
  case Nil
  then show ?case by simp
next
  case (Cons p ps)
  obtain ok s1 where w: "wr s p = (ok, s1)" by (cases "wr s p")
  obtain oks' where r: "writes s1 ps = (oks', s')" and oks: "oks = ok # oks'"
    using Cons.prems(4) w by (auto simp: Let_def split: prod.splits)
  have i: "invar s1" using invar_wr [OF Cons.prems(1), of p] w by simp
  have "in_int64 (version s (key p) + 1)"
    using Cons.prems(2,3) [of "key p"] by (simp add: in_int64_def)
  then have v: "version s1 j = version s j + (if ok \<and> j = key p then 1 else 0)" for j
    using version_accept [OF Cons.prems(1), of p j] version_refused [OF Cons.prems(1), of p j] w
    by (cases ok) simp_all
  have "0 \<le> version s1 j" "version s1 j + int (length ps) < 2 ^ 63" for j
    using Cons.prems(2,3) [of j] v [of j] by auto
  from Cons.IH [OF i this r] v [of k] oks show ?case by auto
qed

end

text \<open>A writer with an object of its own, such as one decoded from a request body.\<close>

definition upsert_own :: "MemoryRepo \<Rightarrow> SandboxPolicy \<Rightarrow> bool \<times> MemoryRepo" where
  "upsert_own r p =
     (case new_policy r p of (a, r1) \<Rightarrow>
      case UpsertPolicy r1 a of (None, r2) \<Rightarrow> (True, r2) | (Some _, r2) \<Rightarrow> (False, r2))"

text \<open>Stored pointers are allocated ones, so a new object is never one of them.\<close>

definition repo_ok :: "MemoryRepo \<Rightarrow> bool" where
  "repo_ok r \<longleftrightarrow> (\<forall>t a. get (byTplID r) t = Some a \<longrightarrow> a < next_ptr r)"

lemma repo_ok_New: "repo_ok NewMemoryRepo"
  by (simp add: repo_ok_def NewMemoryRepo_def)

lemma repo_ok_new_policy: "repo_ok r \<Longrightarrow> repo_ok (snd (new_policy r p))"
  by (auto simp: repo_ok_def new_policy_def intro: less_SucI)

lemma repo_ok_UpsertPolicy: "repo_ok r \<Longrightarrow> a < next_ptr r \<Longrightarrow> repo_ok (snd (UpsertPolicy r a))"
  by (auto simp: repo_ok_def UpsertPolicy_def assign_def Let_def split: if_splits)

lemma repo_ok_GetPolicy: "repo_ok r \<Longrightarrow> repo_ok (snd (GetPolicy r t))"
  by (auto simp: GetPolicy_def repo_ok_new_policy split: option.splits)

lemma new_policy_version:
  "repo_ok r \<Longrightarrow> current_version (snd (new_policy r p)) t = current_version r t"
  by (auto simp: current_version_def new_policy_def repo_ok_def split: option.splits)

lemma upsert_own_eq:
  assumes "repo_ok r"
  shows "upsert_own r p =
     (if pol_Version p = current_version r (pol_TemplateID p)
      then (True, r\<lparr>heap := (heap r)(next_ptr r := p\<lparr>pol_Version := wrap64 (pol_Version p + 1)\<rparr>),
                     next_ptr := next_ptr r + 1,
                     byTplID := put (byTplID r) (pol_TemplateID p) (next_ptr r)\<rparr>)
      else (False, snd (new_policy r p)))"
  using new_policy_version [OF assms, of p]
  by (simp add: upsert_own_def UpsertPolicy_def new_policy_def assign_def Let_def)

lemma upsert_own_fst:
  "repo_ok r \<Longrightarrow> fst (upsert_own r p) \<longleftrightarrow> pol_Version p = current_version r (pol_TemplateID p)"
  by (simp add: upsert_own_eq)

lemma upsert_own_version:
  assumes ok: "repo_ok r"
  shows "current_version (snd (upsert_own r p)) t =
     (if fst (upsert_own r p) \<and> t = pol_TemplateID p then wrap64 (pol_Version p + 1)
      else current_version r t)"
proof (cases "pol_Version p = current_version r (pol_TemplateID p)")
  case True
  have "a \<noteq> next_ptr r" if "get (byTplID r) t = Some a" for a
    using ok that by (auto simp: repo_ok_def)
  then show ?thesis
    unfolding upsert_own_eq [OF ok] using True
    by (auto simp: current_version_def split: option.splits)
next
  case False
  then show ?thesis by (simp add: upsert_own_eq [OF ok] new_policy_version [OF ok])
qed

lemma repo_ok_upsert_own: "repo_ok r \<Longrightarrow> repo_ok (snd (upsert_own r p))"
proof -
  assume ok: "repo_ok r"
  have "snd (upsert_own r p) = snd (UpsertPolicy (snd (new_policy r p)) (next_ptr r))"
    by (auto simp: upsert_own_def new_policy_def split: prod.splits option.splits)
  moreover have "next_ptr r < next_ptr (snd (new_policy r p))" by (simp add: new_policy_def)
  ultimately show ?thesis using repo_ok_UpsertPolicy [OF repo_ok_new_policy [OF ok]] by simp
qed

interpretation repo: versioned_store repo_ok current_version pol_TemplateID pol_Version upsert_own
  by unfold_locales (simp_all add: upsert_own_fst upsert_own_version repo_ok_upsert_own wrap64_id)

text \<open>A sequence of writers, each with an object of its own.\<close>

definition upsert_all :: "MemoryRepo \<Rightarrow> SandboxPolicy list \<Rightarrow> bool list \<times> MemoryRepo" where
  "upsert_all = repo.writes"

section \<open>Properties\<close>

text \<open>
  The version of a policy counts the accepted writes. Starting from the empty repository, and
  for any sequence of fewer than \<open>2 ^ 63\<close> upserts by writers that each pass an object of
  their own, the stored version of a template is the number of its upserts that were accepted.
\<close>

theorem policy_version_counts:
  assumes "int (length ps) < 2 ^ 63" "upsert_all NewMemoryRepo ps = (oks, r)"
  shows "current_version r t =
     int (length (filter (\<lambda>(p, ok). ok \<and> pol_TemplateID p = t) (zip ps oks)))"
  using repo.writes_version [OF repo_ok_New _ _ assms(2) [unfolded upsert_all_def], of t] assms(1)
  by (simp add: current_version_def NewMemoryRepo_def)

theorem policy_version_counts_witness:
  "current_version (snd (upsert_all NewMemoryRepo [lockdown_policy ''py'', lockdown_policy ''py''])) ''py'' = 1"
proof -
  have "upsert_all NewMemoryRepo [lockdown_policy ''py'', lockdown_policy ''py''] =
      ([True, False], snd (upsert_all NewMemoryRepo [lockdown_policy ''py'', lockdown_policy ''py'']))"
    by (simp add: upsert_all_def upsert_own_def new_policy_def UpsertPolicy_def assign_def Let_def
        lockdown_policy_def NewMemoryRepo_def current_version_def wrap64_def
        signed_take_bit_int_eq_self)
  from policy_version_counts [OF _ this, of "''py''"] show ?thesis
    by (simp add: lockdown_policy_def)
qed

text \<open>
  C15: No lost update between writers with objects of their own. After an accepted upsert the
  policy read back is the one written, with its version incremented; another writer that prepared
  its update from the same version, in another object, is then refused with the version to expect,
  and the repository is unchanged.
\<close>

theorem policy_no_lost_update:
  assumes "UpsertPolicy r a = (None, r')" "b \<noteq> a" "in_int64 (pol_Version (heap r a) + 1)"
    and "pol_TemplateID (heap r b) = pol_TemplateID (heap r a)"
    and "pol_Version (heap r b) = pol_Version (heap r a)"
  shows "policy_of r' (pol_TemplateID (heap r a)) =
           (heap r a)\<lparr>pol_Version := pol_Version (heap r a) + 1\<rparr> \<and>
         UpsertPolicy r' b = (Some (VersionConflict (pol_Version (heap r a) + 1)
           (pol_Version (heap r a))), r')"
  using assms
  by (auto simp: UpsertPolicy_def policy_of_eq current_version_def assign_def Let_def wrap64_id
      split: if_splits)

definition demo_repo :: MemoryRepo where
  "demo_repo = snd (new_policy (snd (new_policy NewMemoryRepo (lockdown_policy ''py'')))
     (lockdown_policy ''py''))"

theorem policy_no_lost_update_witness:
  "UpsertPolicy (snd (UpsertPolicy demo_repo 0)) 1 =
     (Some (VersionConflict 1 0), snd (UpsertPolicy demo_repo 0))"
proof -
  have h: "heap demo_repo 0 = lockdown_policy ''py''" "heap demo_repo 1 = lockdown_policy ''py''"
      "byTplID demo_repo = []"
    by (simp_all add: demo_repo_def new_policy_def NewMemoryRepo_def)
  then have "UpsertPolicy demo_repo 0 = (None, snd (UpsertPolicy demo_repo 0))"
    by (simp add: UpsertPolicy_def current_version_def lockdown_policy_def Let_def)
  from policy_no_lost_update [OF this, of 1] h show ?thesis
    by (simp add: lockdown_policy_def in_int64_def)
qed

text \<open>
  The version check does not separate two readers of a stored policy. Both get the same
  object, so whatever each of them writes into it (keeping the template and the version it sees),
  the second upsert is accepted as well as the first.
\<close>

theorem shared_policy_never_conflicts:
  assumes stored: "get (byTplID r) t = Some a" "pol_TemplateID (heap r a) = t"
    and keep: "\<And>p. pol_TemplateID (f p) = pol_TemplateID p \<and> pol_Version (f p) = pol_Version p"
      "\<And>p. pol_TemplateID (g p) = pol_TemplateID p \<and> pol_Version (g p) = pol_Version p"
    and r1: "r1 = snd (UpsertPolicy (assign r a (f (heap r a))) a)"
  shows "fst (GetPolicy r t) = a \<and>
         fst (UpsertPolicy (assign r a (f (heap r a))) a) = None \<and>
         fst (UpsertPolicy (assign r1 a (g (heap r1 a))) a) = None"
  using stored keep unfolding r1
  by (auto simp: GetPolicy_def UpsertPolicy_def current_version_def assign_def Let_def)

theorem shared_policy_never_conflicts_witness:
  "fst (GetPolicy (snd (UpsertPolicy demo_repo 0)) ''py'') = 0 \<and>
   fst (UpsertPolicy (assign (snd (UpsertPolicy demo_repo 0)) 0
      (heap (snd (UpsertPolicy demo_repo 0)) 0)) 0) = None"
proof -
  have h: "heap demo_repo 0 = lockdown_policy ''py''" "byTplID demo_repo = []"
    by (simp_all add: demo_repo_def new_policy_def NewMemoryRepo_def)
  have s: "get (byTplID (snd (UpsertPolicy demo_repo 0))) ''py'' = Some 0"
      "pol_TemplateID (heap (snd (UpsertPolicy demo_repo 0)) 0) = ''py''"
    using h by (simp_all add: UpsertPolicy_def current_version_def lockdown_policy_def Let_def assign_def)
  from shared_policy_never_conflicts [OF s, of "\<lambda>p. p" "\<lambda>p. p"] show ?thesis by simp
qed

end
