(* ===== verification/Judges.thy ===== *)
theory Judges
  imports Themis
begin

text \<open>
  Admission (\<open>src/pkg/judges\<close>): verdicts, the chain of judges, the resource, network and audit
  judges, and the audit sinks. A pre-judge may change the request it is given and may emit to an
  audit sink, so it is a function of the request and of a sink state. The policy repository is
  the interface \<open>GetPolicy\<close> (an argument, which may fail); the audit identifier
  (\<open>uuid.New\<close>), the clock, its textual form and the caller's identity are the fields of
  \<open>judge_ctx\<close>.
\<close>

datatype Verdict = VerdictAccept | VerdictReject | VerdictQuarantine | VerdictOther int

datatype judge_error = PolicyLoadFailed string | JudgeFailed string

record Classification =
  cl_Verdict :: Verdict
  cl_Reason :: string
  cl_Labels :: metadata

type_synonym 's PreJudge = "SandboxRequest \<Rightarrow> 's \<Rightarrow> (judge_error + Verdict) \<times> SandboxRequest \<times> 's"
type_synonym PostJudge = "SandboxRun \<Rightarrow> judge_error + Classification option"

section \<open>The chain\<close>

text \<open>An error comes with the verdict Reject in the code, which its caller does not look at.\<close>

fun RunPre :: "'s PreJudge list \<Rightarrow> 's PreJudge" where
  "RunPre [] req s = (Inr VerdictAccept, req, s)"
| "RunPre (j # js) req s =
     (case j req s of
        (Inl err, req', s') \<Rightarrow> (Inl err, req', s')
      | (Inr v, req', s') \<Rightarrow> if v \<noteq> VerdictAccept then (Inr v, req', s') else RunPre js req' s')"

definition merge_labels :: "metadata \<Rightarrow> metadata \<Rightarrow> metadata" where
  "merge_labels out labels = foldl (\<lambda>m (k, v). put m k v) out labels"

definition merge_class :: "Classification \<Rightarrow> Classification \<Rightarrow> Classification" where
  "merge_class out cl = \<lparr>cl_Verdict = cl_Verdict cl,
     cl_Reason = cl_Reason out @ cl_Reason cl @ ''; '',
     cl_Labels = merge_labels (cl_Labels out) (cl_Labels cl)\<rparr>"

fun run_post_loop :: "PostJudge list \<Rightarrow> SandboxRun \<Rightarrow> Classification \<Rightarrow> judge_error + Classification" where
  "run_post_loop [] run out = Inr out"
| "run_post_loop (j # js) run out =
     (case j run of
        Inl err \<Rightarrow> Inl err
      | Inr None \<Rightarrow> run_post_loop js run out
      | Inr (Some cl) \<Rightarrow> run_post_loop js run (merge_class out cl))"

definition RunPost :: "PostJudge list \<Rightarrow> SandboxRun \<Rightarrow> judge_error + Classification" where
  "RunPost js run =
     run_post_loop js run \<lparr>cl_Verdict = VerdictAccept, cl_Reason = [], cl_Labels = []\<rparr>"

section \<open>The judges\<close>

type_synonym policy_lookup = "TemplateID \<Rightarrow> string + SandboxPolicy"

definition ResourceJudge_PreAdmit :: "policy_lookup \<Rightarrow> 's PreJudge" where
  "ResourceJudge_PreAdmit getPolicy req s =
     (case getPolicy (req_Template req) of
        Inl err \<Rightarrow> (Inl (PolicyLoadFailed err), req, s)
      | Inr policy \<Rightarrow>
          if res_CPU (req_Resources req) > res_CPU (pol_Resources policy) then (Inr VerdictReject, req, s)
          else if res_Mem (req_Resources req) > res_Mem (pol_Resources policy) then (Inr VerdictReject, req, s)
          else (Inr VerdictAccept, req, s))"

fun network_listed :: "string \<Rightarrow> string \<Rightarrow> string list \<Rightarrow> bool" where
  "network_listed networkID networkName [] = False"
| "network_listed networkID networkName (allowed # rest) =
     (if EqualFold networkID allowed \<or> EqualFold networkName allowed then True
      else network_listed networkID networkName rest)"

definition NetworkJudge_PreAdmit :: "string list \<Rightarrow> 's PreJudge" where
  "NetworkJudge_PreAdmit allowedNetworks req s =
     (let networkID = net_ID (req_NetworkRef req); networkName = net_Name (req_NetworkRef req)
      in if network_listed networkID networkName allowedNetworks then (Inr VerdictAccept, req, s)
         else if sublist ''no-net'' (ToLower networkID) \<or> sublist ''lockdown'' (ToLower networkID) \<or>
                 sublist ''no internet'' (ToLower networkName)
         then (Inr VerdictAccept, req, s)
         else (Inr VerdictReject, req, s))"

subsection \<open>The audit judge and its sinks\<close>

record AuditRecord =
  ar_AuditID :: string
  ar_Timestamp :: go_time
  ar_SandboxID :: SandboxID
  ar_TemplateID :: TemplateID
  ar_Event :: string
  ar_ComplianceLevel :: string
  ar_RetentionPolicy :: RetentionPolicy
  ar_Metadata :: metadata
  ar_IdentityID :: string
  ar_IdentityType :: string
  ar_TenantID :: string

type_synonym 's AuditSink = "AuditRecord \<Rightarrow> 's \<Rightarrow> string option \<times> 's"

record judge_ctx =
  jc_uuid :: string
  jc_now :: go_time
  jc_RFC3339 :: string
  jc_identity :: "(string \<times> string \<times> string) option"

definition audited :: "judge_ctx \<Rightarrow> SandboxRequest \<Rightarrow> SandboxRequest" where
  "audited ctx req =
     (let md = put (put (put (req_Metadata req) ''audit_id'' (jc_uuid ctx))
                 ''audit_timestamp'' (jc_RFC3339 ctx)) ''compliance_level'' ''standard'';
          ret = (if ret_MaxAge (req_Retention req) = 0
                 then (req_Retention req)\<lparr>ret_MaxAge := 1 * hour\<rparr> else req_Retention req)
      in req\<lparr>req_Metadata := md, req_Retention := ret\<rparr>)"

definition audit_record :: "judge_ctx \<Rightarrow> SandboxRequest \<Rightarrow> AuditRecord" where
  "audit_record ctx req =
     \<lparr>ar_AuditID = jc_uuid ctx, ar_Timestamp = jc_now ctx, ar_SandboxID = req_ID req,
      ar_TemplateID = req_Template req, ar_Event = ''sandbox_request_audit'',
      ar_ComplianceLevel = get_or [] (req_Metadata req) ''compliance_level'',
      ar_RetentionPolicy = req_Retention req, ar_Metadata = req_Metadata req,
      ar_IdentityID = (case jc_identity ctx of None \<Rightarrow> [] | Some (i, _, _) \<Rightarrow> i),
      ar_IdentityType = (case jc_identity ctx of None \<Rightarrow> [] | Some (_, ty, _) \<Rightarrow> ty),
      ar_TenantID = (case jc_identity ctx of None \<Rightarrow> [] | Some (_, _, tn) \<Rightarrow> tn)\<rparr>"

definition AeacusJudge_PreAdmit :: "judge_ctx \<Rightarrow> 's AuditSink \<Rightarrow> 's PreJudge" where
  "AeacusJudge_PreAdmit ctx emit req s =
     (let req' = audited ctx req; (err, s') = emit (audit_record ctx req') s
      in (Inr VerdictAccept, req', s'))"

definition NoopAuditSink_Emit :: "'s AuditSink" where
  "NoopAuditSink_Emit rec s = (None, s)"

text \<open>The log sink writes these fields of the record; its state is the log.\<close>

record audit_log_entry =
  al_event :: string
  al_sandbox_id :: SandboxID
  al_audit_id :: string
  al_template :: TemplateID
  al_compliance_level :: string
  al_retention_policy :: RetentionPolicy
  al_timestamp :: go_time

definition LogAuditSink_Emit :: "audit_log_entry list AuditSink" where
  "LogAuditSink_Emit rec log =
     (None, log @ [\<lparr>al_event = ar_Event rec, al_sandbox_id = ar_SandboxID rec,
        al_audit_id = ar_AuditID rec, al_template = ar_TemplateID rec,
        al_compliance_level = ar_ComplianceLevel rec, al_retention_policy = ar_RetentionPolicy rec,
        al_timestamp = ar_Timestamp rec\<rparr>])"

fun multi_emit_loop :: "'s AuditSink list \<Rightarrow> AuditRecord \<Rightarrow> string option \<Rightarrow> 's \<Rightarrow> string option \<times> 's" where
  "multi_emit_loop [] rec firstErr s = (firstErr, s)"
| "multi_emit_loop (sink # sinks) rec firstErr s =
     (let (err, s') = sink rec s
      in multi_emit_loop sinks rec (if err \<noteq> None \<and> firstErr = None then err else firstErr) s')"

definition MultiAuditSink_Emit :: "'s AuditSink list \<Rightarrow> 's AuditSink" where
  "MultiAuditSink_Emit sinks rec s = multi_emit_loop sinks rec None s"

record MockAuditSink =
  ms_Records :: "AuditRecord list"
  ms_Err :: "string option"

definition MockAuditSink_Emit :: "MockAuditSink AuditSink" where
  "MockAuditSink_Emit rec s =
     (case ms_Err s of Some e \<Rightarrow> (Some e, s) | None \<Rightarrow> (None, s\<lparr>ms_Records := ms_Records s @ [rec]\<rparr>))"

definition MockAuditSink_LastRecord :: "MockAuditSink \<Rightarrow> AuditRecord option" where
  "MockAuditSink_LastRecord s = (if ms_Records s = [] then None else Some (last (ms_Records s)))"

definition MockAuditSink_Reset :: "MockAuditSink \<Rightarrow> MockAuditSink" where
  "MockAuditSink_Reset s = s\<lparr>ms_Records := []\<rparr>"

section \<open>Lemmas\<close>

lemma RunPre_append:
  "RunPre (js @ ks) req s =
     (case RunPre js req s of
        (Inr VerdictAccept, req', s') \<Rightarrow> RunPre ks req' s'
      | out \<Rightarrow> out)"
  by (induction js arbitrary: req s) (auto split: sum.splits prod.splits Verdict.splits)

lemma network_listed_iff:
  "network_listed i n xs \<longleftrightarrow> (\<exists>x\<in>set xs. EqualFold i x \<or> EqualFold n x)"
  by (induction i n xs rule: network_listed.induct) auto

lemma get_merge_labels:
  "get (merge_labels out labels) k = (case get (rev labels) k of Some v \<Rightarrow> Some v | None \<Rightarrow> get out k)"
proof (induction labels rule: rev_induct)
  case Nil
  then show ?case by (simp add: merge_labels_def)
next
  case (snoc p labels)
  then show ?case by (cases p) (simp add: merge_labels_def)
qed

lemma RunPost_append:
  "run_post_loop (js @ ks) run out =
     (case run_post_loop js run out of Inl e \<Rightarrow> Inl e | Inr out' \<Rightarrow> run_post_loop ks run out')"
  by (induction js run out rule: run_post_loop.induct) (auto split: sum.splits option.splits)

lemma audited_simps [simp]:
  "req_Template (audited ctx req) = req_Template req"
  "req_Resources (audited ctx req) = req_Resources req"
  "req_NetworkRef (audited ctx req) = req_NetworkRef req"
  "req_ID (audited ctx req) = req_ID req"
  by (simp_all add: audited_def Let_def)

text \<open>What the emissions to several sinks do: all are reached, the first failure is reported.\<close>

fun emit_results :: "'s AuditSink list \<Rightarrow> AuditRecord \<Rightarrow> 's \<Rightarrow> string option list" where
  "emit_results [] rec s = []"
| "emit_results (k # ks) rec s = fst (k rec s) # emit_results ks rec (snd (k rec s))"

lemma multi_emit_state:
  "snd (multi_emit_loop sinks rec firstErr s) = foldl (\<lambda>s' k. snd (k rec s')) s sinks"
  by (induction sinks rec firstErr s rule: multi_emit_loop.induct)
     (simp_all add: Let_def case_prod_beta)

lemma multi_emit_error:
  "fst (multi_emit_loop sinks rec firstErr s) =
     (case firstErr of Some e \<Rightarrow> Some e
      | None \<Rightarrow> Option.bind (find (\<lambda>e. e \<noteq> None) (emit_results sinks rec s)) id)"
proof (induction sinks rec firstErr s rule: multi_emit_loop.induct)
  case (1 rec firstErr s)
  then show ?case by (simp split: option.splits)
next
  case (2 sink sinks rec firstErr s)
  then show ?case
    by (cases "sink rec s"; cases firstErr; cases "fst (sink rec s)") (simp_all add: Let_def)
qed

section \<open>The deployed chain\<close>

text \<open>The chain the API server builds (\<open>cmd/olympus-api/main.go\<close>): audit, resources, network.\<close>

definition deployed_judges ::
    "judge_ctx \<Rightarrow> 's AuditSink \<Rightarrow> policy_lookup \<Rightarrow> string list \<Rightarrow> 's PreJudge list" where
  "deployed_judges ctx emit getPolicy allowed =
     [AeacusJudge_PreAdmit ctx emit, ResourceJudge_PreAdmit getPolicy, NetworkJudge_PreAdmit allowed]"

definition network_allowed :: "string list \<Rightarrow> NetworkPolicyRef \<Rightarrow> bool" where
  "network_allowed allowed net \<longleftrightarrow>
     (\<exists>x\<in>set allowed. EqualFold (net_ID net) x \<or> EqualFold (net_Name net) x) \<or>
     sublist ''no-net'' (ToLower (net_ID net)) \<or> sublist ''lockdown'' (ToLower (net_ID net)) \<or>
     sublist ''no internet'' (ToLower (net_Name net))"

definition within_policy :: "ResourceSpec \<Rightarrow> SandboxPolicy \<Rightarrow> bool" where
  "within_policy res p \<longleftrightarrow> res_CPU res \<le> res_CPU (pol_Resources p) \<and> res_Mem res \<le> res_Mem (pol_Resources p)"

lemma ResourceJudge_eq:
  "ResourceJudge_PreAdmit getPolicy req s =
     (case getPolicy (req_Template req) of
        Inl err \<Rightarrow> (Inl (PolicyLoadFailed err), req, s)
      | Inr p \<Rightarrow> (Inr (if within_policy (req_Resources req) p then VerdictAccept else VerdictReject), req, s))"
  by (auto simp: ResourceJudge_PreAdmit_def within_policy_def split: sum.splits)

lemma NetworkJudge_eq:
  "NetworkJudge_PreAdmit allowed req s =
     (Inr (if network_allowed allowed (req_NetworkRef req) then VerdictAccept else VerdictReject), req, s)"
  by (auto simp: NetworkJudge_PreAdmit_def network_allowed_def network_listed_iff Let_def)

lemma AeacusJudge_eq:
  "AeacusJudge_PreAdmit ctx emit req s =
     (Inr VerdictAccept, audited ctx req, snd (emit (audit_record ctx (audited ctx req)) s))"
  by (simp add: AeacusJudge_PreAdmit_def Let_def case_prod_beta)

lemma deployed_chain_eq:
  "RunPre (deployed_judges ctx emit getPolicy allowed) req s =
     (case getPolicy (req_Template req) of
        Inl err \<Rightarrow> Inl (PolicyLoadFailed err)
      | Inr p \<Rightarrow> Inr (if within_policy (req_Resources req) p \<and> network_allowed allowed (req_NetworkRef req)
                     then VerdictAccept else VerdictReject),
      audited ctx req, snd (emit (audit_record ctx (audited ctx req)) s))"
  by (auto simp: deployed_judges_def AeacusJudge_eq ResourceJudge_eq NetworkJudge_eq split: sum.splits)

section \<open>Properties\<close>

text \<open>
  A chain of judges is decided by its first judge that does not accept. Running a chain made
  of two parts runs the second part exactly when the first accepted, on the request and sink state
  the first part left; a rejection, a quarantine or an error of the first part is the result.
\<close>

theorem chain_composes:
  "RunPre (js @ ks) req s =
     (case RunPre js req s of
        (Inr VerdictAccept, req', s') \<Rightarrow> RunPre ks req' s'
      | out \<Rightarrow> out)"
  by (rule RunPre_append)

text \<open>
  C18: What the deployed chain admits. It never quarantines; it fails exactly when the policy
  cannot be loaded; it accepts exactly the requests whose CPU and memory are within the template's
  policy and whose network is on the allowed list (up to case) or is one of the no-network
  defaults. Every request, accepted or not, is audited once, whether or not the audit sink fails,
  and leaves with an audit identifier and a non-zero retention.
\<close>

theorem deployed_chain_admits:
  "RunPre (deployed_judges ctx emit getPolicy allowed) req s =
     (case getPolicy (req_Template req) of
        Inl err \<Rightarrow> Inl (PolicyLoadFailed err)
      | Inr p \<Rightarrow> Inr (if within_policy (req_Resources req) p \<and> network_allowed allowed (req_NetworkRef req)
                     then VerdictAccept else VerdictReject),
      audited ctx req, snd (emit (audit_record ctx (audited ctx req)) s))
   \<and> get (req_Metadata (audited ctx req)) ''audit_id'' = Some (jc_uuid ctx)
   \<and> ret_MaxAge (req_Retention (audited ctx req)) \<noteq> 0"
  by (simp add: deployed_chain_eq) (simp add: audited_def Let_def)

text \<open>
  An audit record sent to several sinks reaches every one of them, in order and whatever the
  others answer, and the error reported is the first one.
\<close>

theorem multi_sink_reaches_all:
  "MultiAuditSink_Emit sinks rec s =
     (Option.bind (find (\<lambda>e. e \<noteq> None) (emit_results sinks rec s)) id,
      foldl (\<lambda>s' k. snd (k rec s')) s sinks)"
  using multi_emit_state [of sinks rec None s] multi_emit_error [of sinks rec None s]
  by (cases "multi_emit_loop sinks rec None s") (simp add: MultiAuditSink_Emit_def)

end
