(* ===== verification/Olympus.thy ===== *)
theory Olympus
  imports Moirai Hades Acheron Judges
begin

text \<open>
  The control plane (\<open>src/pkg/olympus/manager.go\<close>, \<open>templates.go\<close>, \<open>control.go\<close>, and
  the warm pool of \<open>scaler.go\<close>). The manager reaches every other component through an
  interface, so it is a record of operations over a world \<open>'w\<close>, each of which may fail with an
  error text; \<open>Submit\<close> and the other operations are written against that record. The locale
  \<open>control_plane\<close> states what the operations promise of the two things a submission
  changes, the persisted runs and the waiting line, and \<open>memory_manager\<close> is the manager over
  the in-memory components, on which the locale is interpreted.

  \<open>uuid\<close> is the identifier \<open>uuid.New\<close> gives, \<open>clk n\<close> the n-th reading of the clock in
  an operation. Logging and metrics are not modelled.
\<close>

section \<open>Templates\<close>

record MemoryTemplateManager =
  tm_templates :: "(TemplateID, TemplateSpec) gomap"

definition NewMemoryTemplateManager :: MemoryTemplateManager where
  "NewMemoryTemplateManager = \<lparr>tm_templates = []\<rparr>"

definition ErrTemplateNotFound :: string where
  "ErrTemplateNotFound = ''template not found''"

definition GetTemplate :: "MemoryTemplateManager \<Rightarrow> TemplateID \<Rightarrow> string + TemplateSpec" where
  "GetTemplate m i = (case get (tm_templates m) i of Some tpl \<Rightarrow> Inr tpl | None \<Rightarrow> Inl ErrTemplateNotFound)"

definition ListTemplates :: "MemoryTemplateManager \<Rightarrow> TemplateSpec list" where
  "ListTemplates m = map snd (tm_templates m)"

definition RegisterTemplate :: "MemoryTemplateManager \<Rightarrow> TemplateSpec \<Rightarrow> MemoryTemplateManager" where
  "RegisterTemplate m tpl = m\<lparr>tm_templates := put (tm_templates m) (tpl_ID tpl) tpl\<rparr>"

section \<open>The manager and its interfaces\<close>

datatype control_cmd =
    CtlKill | CtlStreamLogs bool | CtlHibernate | CtlWake | CtlSnapshot
  | CtlExec "string list" | CtlExecInteractive "string list"

record 'w Manager =
  m_Enqueue :: "'w \<Rightarrow> SandboxRequest \<Rightarrow> string option \<times> 'w"
  m_UpdateRun :: "'w \<Rightarrow> SandboxRun \<Rightarrow> string option \<times> 'w"
  m_GetRun :: "'w \<Rightarrow> SandboxID \<Rightarrow> string + SandboxRun"
  m_ListRuns :: "'w \<Rightarrow> string + SandboxRun list"
  m_ListNodes :: "'w \<Rightarrow> (string + NodeStatus list) \<times> 'w"
  m_GetTemplate :: "'w \<Rightarrow> TemplateID \<Rightarrow> string + TemplateSpec"
  m_GetPolicy :: "'w \<Rightarrow> TemplateID \<Rightarrow> string + SandboxPolicy"
  m_RunPre :: "'w PreJudge"
  m_ChooseNode :: "SandboxRequest \<Rightarrow> NodeStatus list \<Rightarrow> string + NodeID"
  m_Phlegethon :: "HeatClassifier option"
  m_Control :: "'w \<Rightarrow> NodeID \<Rightarrow> SandboxID \<Rightarrow> control_cmd \<Rightarrow> string option \<times> 'w"
  m_ListSandboxes :: "'w \<Rightarrow> NodeID \<Rightarrow> string + SandboxRun list"

datatype olympus_error =
    InvalidTemplate string
  | PolicyError string
  | JudgeError judge_error
  | ErrPolicyRejected
  | UnknownVerdict int
  | PersistFailed string
  | ListNodesFailed string
  | ScheduleFailed string
  | EnqueueFailed string
  | ErrSandboxNotFound
  | ControlFailed string
  | ListRunsFailed string

section \<open>Submit\<close>

text \<open>The heat classification step: the request mapped to the classifier's request.\<close>

definition heat_request :: "SandboxRequest \<Rightarrow> HeatRequest" where
  "heat_request req =
     \<lparr>hr_TemplateID = req_Template req,
      hr_HeatHint = get_or [] (req_Metadata req) ''heat_hint'',
      hr_MaxDuration = res_TTL (req_Resources req),
      hr_CPUCores = go_div (res_CPU (req_Resources req)) 1000,
      hr_MemoryMB = res_Mem (req_Resources req)\<rparr>"

definition classify_step :: "HeatClassifier option \<Rightarrow> SandboxRequest \<Rightarrow> SandboxRequest" where
  "classify_step ph req =
     (case ph of None \<Rightarrow> req | Some c \<Rightarrow> req\<lparr>req_HeatLevel := fst (Classify c (heat_request req))\<rparr>)"

text \<open>Steps 8 and 9: place the request, record the placement, hand it to the queue.\<close>

definition fail_run ::
    "'w Manager \<Rightarrow> go_time \<Rightarrow> 'w \<Rightarrow> SandboxRun \<Rightarrow> string \<Rightarrow> 'w" where
  "fail_run m now w run reason =
     snd (m_UpdateRun m w (run\<lparr>run_Status := RunStatusFailed, run_Error := reason, run_UpdatedAt := now\<rparr>))"

definition schedule_and_enqueue ::
    "'w Manager \<Rightarrow> (nat \<Rightarrow> go_time) \<Rightarrow> 'w \<Rightarrow> SandboxRequest \<Rightarrow> SandboxRun
     \<Rightarrow> olympus_error option \<times> SandboxRequest \<times> 'w" where
  "schedule_and_enqueue m clk w req run =
     (case m_ListNodes m w of
        (Inl err, w1) \<Rightarrow> (Some (ListNodesFailed err), req,
                         fail_run m (clk 4) w1 run (''failed to list nodes: '' @ err))
      | (Inr nodes, w1) \<Rightarrow>
        (case m_ChooseNode m req nodes of
           Inl err \<Rightarrow> (Some (ScheduleFailed err), req,
                      fail_run m (clk 4) w1 run (''failed to schedule: '' @ err))
         | Inr nodeID \<Rightarrow>
             let req = req\<lparr>req_NodeID := nodeID\<rparr>;
                 run = run\<lparr>run_NodeID := nodeID, run_Status := RunStatusScheduled, run_UpdatedAt := clk 4\<rparr>;
                 (_, w2) = m_UpdateRun m w1 run
             in (case m_Enqueue m w2 req of
                   (Some err, w3) \<Rightarrow> (Some (EnqueueFailed err), req,
                      fail_run m (clk 5) w3 run (''failed to enqueue: '' @ err))
                 | (None, w3) \<Rightarrow> (None, req, w3))))"

text \<open>Step 6: the run as it is first persisted.\<close>

definition initial_run :: "(nat \<Rightarrow> go_time) \<Rightarrow> SandboxRequest \<Rightarrow> SandboxRun" where
  "initial_run clk req = zero_SandboxRun\<lparr>run_ID := req_ID req, run_RequestID := req_ID req,
     run_Template := req_Template req, run_Status := RunStatusPending,
     run_CreatedAt := clk 2, run_UpdatedAt := clk 3\<rparr>"

definition persist_and_schedule ::
    "'w Manager \<Rightarrow> (nat \<Rightarrow> go_time) \<Rightarrow> 'w \<Rightarrow> SandboxRequest
     \<Rightarrow> olympus_error option \<times> SandboxRequest \<times> 'w" where
  "persist_and_schedule m clk w req =
     (let run = initial_run clk req
      in case m_UpdateRun m w run of
           (Some err, w1) \<Rightarrow> (Some (PersistFailed err), req, w1)
         | (None, w1) \<Rightarrow> schedule_and_enqueue m clk w1 (classify_step (m_Phlegethon m) req) run)"

text \<open>Step 1: the identifier and the creation time are filled in when missing.\<close>

definition with_identity :: "string \<Rightarrow> (nat \<Rightarrow> go_time) \<Rightarrow> SandboxRequest \<Rightarrow> SandboxRequest" where
  "with_identity uuid clk req =
     (let req = (if req_ID req = [] then req\<lparr>req_ID := uuid\<rparr> else req)
      in if req_CreatedAt req = 0 then req\<lparr>req_CreatedAt := clk 0\<rparr> else req)"

definition Submit ::
    "'w Manager \<Rightarrow> string \<Rightarrow> (nat \<Rightarrow> go_time) \<Rightarrow> 'w \<Rightarrow> SandboxRequest
     \<Rightarrow> olympus_error option \<times> SandboxRequest \<times> 'w" where
  "Submit m uuid clk w req0 =
     (let req = with_identity uuid clk req0
      in case m_GetTemplate m w (req_Template req) of
        Inl err \<Rightarrow> (Some (InvalidTemplate err), req, w)
      | Inr _ \<Rightarrow>
        (case m_GetPolicy m w (req_Template req) of
           Inl err \<Rightarrow> (Some (PolicyError err), req, w)
         | Inr _ \<Rightarrow>
           (case m_RunPre m req w of
              (Inl err, req, w1) \<Rightarrow> (Some (JudgeError err), req, w1)
            | (Inr verdict, req, w1) \<Rightarrow>
              (case verdict of
                 VerdictReject \<Rightarrow> (Some ErrPolicyRejected, req, w1)
               | VerdictQuarantine \<Rightarrow> persist_and_schedule m clk w1
                   (req\<lparr>req_Metadata := put (req_Metadata req) ''quarantine'' ''true''\<rparr>)
               | VerdictAccept \<Rightarrow> persist_and_schedule m clk w1 req
               | VerdictOther v \<Rightarrow> (Some (UnknownVerdict v), req, w1)))))"

section \<open>The other operations\<close>

definition ListSandboxes :: "'w Manager \<Rightarrow> 'w \<Rightarrow> string + SandboxRun list" where
  "ListSandboxes m w = m_ListRuns m w"

text \<open>Every command finds the node of the run on record and sends the command there.\<close>

definition send_command ::
    "'w Manager \<Rightarrow> control_cmd \<Rightarrow> 'w \<Rightarrow> SandboxID \<Rightarrow> olympus_error option \<times> 'w" where
  "send_command m cmd w i =
     (case m_GetRun m w i of
        Inl _ \<Rightarrow> (Some ErrSandboxNotFound, w)
      | Inr run \<Rightarrow>
          (case m_Control m w (run_NodeID run) i cmd of
             (Some err, w') \<Rightarrow> (Some (ControlFailed err), w')
           | (None, w') \<Rightarrow> (None, w')))"

definition KillSandbox :: "'w Manager \<Rightarrow> 'w \<Rightarrow> SandboxID \<Rightarrow> olympus_error option \<times> 'w" where
  "KillSandbox m = send_command m CtlKill"

definition HibernateSandbox :: "'w Manager \<Rightarrow> 'w \<Rightarrow> SandboxID \<Rightarrow> olympus_error option \<times> 'w" where
  "HibernateSandbox m = send_command m CtlHibernate"

definition WakeSandbox :: "'w Manager \<Rightarrow> 'w \<Rightarrow> SandboxID \<Rightarrow> olympus_error option \<times> 'w" where
  "WakeSandbox m = send_command m CtlWake"

definition StreamLogs :: "'w Manager \<Rightarrow> bool \<Rightarrow> 'w \<Rightarrow> SandboxID \<Rightarrow> olympus_error option \<times> 'w" where
  "StreamLogs m follow = send_command m (CtlStreamLogs follow)"

definition CreateSnapshot :: "'w Manager \<Rightarrow> 'w \<Rightarrow> SandboxID \<Rightarrow> olympus_error option \<times> 'w" where
  "CreateSnapshot m = send_command m CtlSnapshot"

definition Exec :: "'w Manager \<Rightarrow> string list \<Rightarrow> 'w \<Rightarrow> SandboxID \<Rightarrow> olympus_error option \<times> 'w" where
  "Exec m cmd = send_command m (CtlExec cmd)"

definition ExecInteractive :: "'w Manager \<Rightarrow> string list \<Rightarrow> 'w \<Rightarrow> SandboxID \<Rightarrow> olympus_error option \<times> 'w" where
  "ExecInteractive m cmd = send_command m (CtlExecInteractive cmd)"

fun reconcile_runs :: "'w Manager \<Rightarrow> NodeID \<Rightarrow> SandboxRun list \<Rightarrow> 'w \<Rightarrow> 'w" where
  "reconcile_runs m nodeID [] w = w"
| "reconcile_runs m nodeID (run # runs) w =
     reconcile_runs m nodeID runs (snd (m_UpdateRun m w (run\<lparr>run_NodeID := nodeID\<rparr>)))"

fun reconcile_nodes :: "'w Manager \<Rightarrow> NodeStatus list \<Rightarrow> 'w \<Rightarrow> 'w" where
  "reconcile_nodes m [] w = w"
| "reconcile_nodes m (node # nodes) w =
     (case m_ListSandboxes m w (node_ID node) of
        Inl _ \<Rightarrow> reconcile_nodes m nodes w
      | Inr runs \<Rightarrow> reconcile_nodes m nodes (reconcile_runs m (node_ID node) runs w))"

definition Reconcile :: "'w Manager \<Rightarrow> 'w \<Rightarrow> olympus_error option \<times> 'w" where
  "Reconcile m w =
     (case m_ListNodes m w of
        (Inl err, w1) \<Rightarrow> (Some (ListNodesFailed err), w1)
      | (Inr nodes, w1) \<Rightarrow> (None, reconcile_nodes m nodes w1))"

text \<open>The warm pool of the scaler: count, then submit what is missing.\<close>

definition is_warm :: "TemplateID \<Rightarrow> SandboxRun \<Rightarrow> bool" where
  "is_warm tplID run \<longleftrightarrow> run_Template run = tplID \<and> run_Status run = RunStatusRunning \<and>
     get (run_Metadata run) ''warm'' = Some ''true''"

definition warm_request :: "TemplateID \<Rightarrow> TemplateSpec \<Rightarrow> SandboxRequest" where
  "warm_request tplID tpl = zero_SandboxRequest\<lparr>req_Template := tplID,
     req_Command := (if tpl_WarmupCommand tpl = [] then [''/bin/sh'', ''-c'', ''sleep 3600'']
                     else tpl_WarmupCommand tpl),
     req_Resources := tpl_Resources tpl,
     req_Metadata := [(''warm'', ''true''), (''type'', ''prewarm'')],
     req_NetworkRef := \<lparr>net_ID = ''lockdown-no-net'', net_Name = []\<rparr>\<rparr>"

fun warm_loop ::
    "'w Manager \<Rightarrow> (nat \<Rightarrow> string) \<Rightarrow> (nat \<Rightarrow> go_time) \<Rightarrow> TemplateID \<Rightarrow> nat \<Rightarrow> 'w \<Rightarrow> 'w" where
  "warm_loop m uuids clk tplID 0 w = w"
| "warm_loop m uuids clk tplID (Suc n) w =
     (case m_GetTemplate m w tplID of
        Inl _ \<Rightarrow> warm_loop m uuids clk tplID n w
      | Inr tpl \<Rightarrow> (case Submit m (uuids n) clk w (warm_request tplID tpl) of
                     (_, _, w') \<Rightarrow> warm_loop m uuids clk tplID n w'))"

definition ensureWarmPool ::
    "'w Manager \<Rightarrow> (nat \<Rightarrow> string) \<Rightarrow> (nat \<Rightarrow> go_time) \<Rightarrow> TemplateID \<Rightarrow> int \<Rightarrow> 'w
     \<Rightarrow> olympus_error option \<times> 'w" where
  "ensureWarmPool m uuids clk tplID targetSize w =
     (case m_ListRuns m w of
        Inl err \<Rightarrow> (Some (ListRunsFailed err), w)
      | Inr runs \<Rightarrow>
          let warmCount = int (length (filter (is_warm tplID) runs))
          in if warmCount \<ge> targetSize then (None, w)
             else (None, warm_loop m uuids clk tplID (nat (targetSize - warmCount)) w))"

section \<open>What a submission changes\<close>

locale control_plane =
  fixes m :: "'w Manager"
    and runs :: "'w \<Rightarrow> SandboxID \<Rightarrow> SandboxRun option"
    and waiting :: "'w \<Rightarrow> SandboxRequest list"
  assumes upd_ok: "m_UpdateRun m w r = (None, w') \<Longrightarrow> runs w' = (runs w)(run_ID r \<mapsto> r)"
    and upd_err: "m_UpdateRun m w r = (Some e, w') \<Longrightarrow> runs w' = runs w"
    and upd_waiting: "waiting (snd (m_UpdateRun m w r)) = waiting w"
    and enq_ok: "m_Enqueue m w q = (None, w') \<Longrightarrow> waiting w' = waiting w @ [q]"
    and enq_err: "m_Enqueue m w q = (Some e, w') \<Longrightarrow> waiting w' = waiting w"
    and enq_runs: "runs (snd (m_Enqueue m w q)) = runs w"
    and list_frame: "runs (snd (m_ListNodes m w)) = runs w" "waiting (snd (m_ListNodes m w)) = waiting w"
    and pre_frame: "m_RunPre m req w = (v, req', w') \<Longrightarrow>
        runs w' = runs w \<and> waiting w' = waiting w \<and> req_ID req' = req_ID req \<and>
        req_Template req' = req_Template req \<and> req_NetworkRef req' = req_NetworkRef req"
begin

text \<open>The runs of all other sandboxes are the same in both worlds.\<close>

definition others_kept :: "SandboxID \<Rightarrow> 'w \<Rightarrow> 'w \<Rightarrow> bool" where
  "others_kept i w w' \<longleftrightarrow> (\<forall>j. j \<noteq> i \<longrightarrow> runs w' j = runs w j)"

lemma upd_others: "others_kept (run_ID r) w (snd (m_UpdateRun m w r))"
  using upd_ok [of w r] upd_err [of w r]
  by (cases "m_UpdateRun m w r"; cases "fst (m_UpdateRun m w r)") (auto simp: others_kept_def)

lemma others_trans: "others_kept i w w' \<Longrightarrow> others_kept i w' w'' \<Longrightarrow> others_kept i w w''"
  by (simp add: others_kept_def)

lemma others_same: "runs w = runs v \<Longrightarrow> others_kept i w w' = others_kept i v w'"
  by (simp add: others_kept_def)

lemma fail_run_frame:
  "waiting (fail_run m now w run e) = waiting w" "others_kept (run_ID run) w (fail_run m now w run e)"
  using upd_others [of "run\<lparr>run_Status := RunStatusFailed, run_Error := e, run_UpdatedAt := now\<rparr>" w]
  by (simp_all add: fail_run_def upd_waiting)

text \<open>The placed branch on its own: record the placement, then enqueue.\<close>

lemma enqueue_frame:
  fixes nid clk req run
  defines "req2 \<equiv> req\<lparr>req_NodeID := nid\<rparr>"
    and "run2 \<equiv> run\<lparr>run_NodeID := nid, run_Status := RunStatusScheduled, run_UpdatedAt := clk (4::nat)\<rparr>"
  assumes "m_Enqueue m (snd (m_UpdateRun m w run2)) req2 = (er, w3)"
  shows "others_kept (run_ID run) w w3"
    and "waiting w3 = waiting w @ (if er = None then [req2] else [])"
proof -
  let ?w2 = "snd (m_UpdateRun m w run2)"
  have "others_kept (run_ID run) w ?w2" using upd_others [of run2 w] by (simp add: run2_def)
  then show "others_kept (run_ID run) w w3"
    using enq_runs [of ?w2 req2] assms(3) by (simp add: others_kept_def)
  show "waiting w3 = waiting w @ (if er = None then [req2] else [])"
    using enq_ok [of ?w2 req2 w3] enq_err [of ?w2 req2 _ w3] assms(3) upd_waiting [of w run2]
    by (cases er) auto
qed

lemma schedule_cases:
  assumes "schedule_and_enqueue m clk w req run = (res, req', w')"
  obtains (fail) e t where "res \<noteq> None" "req' = req"
      "w' = fail_run m t (snd (m_ListNodes m w)) run e"
    | (placed) nodes nid run2 er w3 where "fst (m_ListNodes m w) = Inr nodes"
      "m_ChooseNode m req nodes = Inr nid" "req' = req\<lparr>req_NodeID := nid\<rparr>"
      "run2 = run\<lparr>run_NodeID := nid, run_Status := RunStatusScheduled, run_UpdatedAt := clk 4\<rparr>"
      "m_Enqueue m (snd (m_UpdateRun m (snd (m_ListNodes m w)) run2)) req' = (er, w3)"
      "(res, w') = (case er of None \<Rightarrow> (None, w3)
        | Some e \<Rightarrow> (Some (EnqueueFailed e), fail_run m (clk 5) w3 run2 (''failed to enqueue: '' @ e)))"
proof (cases "m_ListNodes m w")
  case (Pair ln w1)
  note l = this
  show ?thesis
  proof (cases ln)
    case (Inl err)
    with l assms show ?thesis by (intro fail) (auto simp: schedule_and_enqueue_def)
  next
    case (Inr nodes)
    note ns = this
    show ?thesis
    proof (cases "m_ChooseNode m req nodes")
      case (Inl err)
      with l ns assms show ?thesis by (intro fail) (auto simp: schedule_and_enqueue_def)
    next
      case (Inr nid)
      let ?run = "run\<lparr>run_NodeID := nid, run_Status := RunStatusScheduled, run_UpdatedAt := clk 4\<rparr>"
      obtain er w3 where q: "m_Enqueue m (snd (m_UpdateRun m w1 ?run)) (req\<lparr>req_NodeID := nid\<rparr>) = (er, w3)"
        by (meson surj_pair)
      show ?thesis
        by (rule placed [of nodes nid ?run er w3])
           (use l ns Inr q assms in \<open>auto simp: schedule_and_enqueue_def Let_def case_prod_beta
              split: option.splits\<close>)
    qed
  qed
qed

lemma schedule_frame:
  assumes "schedule_and_enqueue m clk w req run = (res, req', w')"
  shows "others_kept (run_ID run) w w' \<and>
    waiting w' = waiting w @ (if res = None then [req'] else []) \<and> req_ID req' = req_ID req"
  using assms
proof (cases rule: schedule_cases)
  case (fail e t)
  then show ?thesis
    using fail_run_frame list_frame [of w] by (auto simp: others_kept_def)
next
  case (placed nodes nid run2 er w3)
  let ?w1 = "snd (m_ListNodes m w)"
  have k: "others_kept (run_ID run) w w3"
    and wait: "waiting w3 = waiting w @ (if er = None then [req'] else [])"
    using enqueue_frame [where w = ?w1 and run = run and clk = clk and req = req and nid = nid] placed
      list_frame [of w] by (simp_all add: others_kept_def)
  show ?thesis
  proof (cases er)
    case None
    with placed k wait show ?thesis by simp
  next
    case (Some e)
    have "others_kept (run_ID run) w3 (fail_run m t w3 run2 e)" for t e
      using fail_run_frame(2) [where run = run2] placed(4) by simp
    with Some placed k wait fail_run_frame(1) show ?thesis by (auto intro: others_trans)
  qed
qed

lemma schedule_placed:
  assumes "schedule_and_enqueue m clk w req run = (None, req', w')"
  shows "\<exists>nodes. fst (m_ListNodes m w) = Inr nodes \<and>
    m_ChooseNode m req nodes = Inr (req_NodeID req') \<and> req' = req\<lparr>req_NodeID := req_NodeID req'\<rparr>"
  using assms by (cases rule: schedule_cases) auto

lemma initial_run_ID [simp]: "run_ID (initial_run clk req) = req_ID req"
  by (simp add: initial_run_def)

lemma classify_step_ID [simp]: "req_ID (classify_step ph req) = req_ID req"
  by (simp add: classify_step_def split: option.splits)

lemma persist_frame:
  assumes "persist_and_schedule m clk w req = (res, req', w')"
  shows "others_kept (req_ID req) w w'"
    and "waiting w' = waiting w @ (if res = None then [req'] else [])"
    and "req_ID req' = req_ID req"
proof -
  let ?run = "initial_run clk req"
  obtain er w1 where u: "m_UpdateRun m w ?run = (er, w1)" by (cases "m_UpdateRun m w ?run")
  have k1: "others_kept (req_ID req) w w1" using upd_others [of ?run w] u by simp
  have w1: "waiting w1 = waiting w" using upd_waiting [of w ?run] u by simp
  have "others_kept (req_ID req) w w' \<and>
      waiting w' = waiting w @ (if res = None then [req'] else []) \<and> req_ID req' = req_ID req"
  proof (cases er)
    case None
    with assms u have "schedule_and_enqueue m clk w1 (classify_step (m_Phlegethon m) req) ?run
        = (res, req', w')" by (simp add: persist_and_schedule_def Let_def)
    from schedule_frame [OF this] k1 w1 show ?thesis by (auto intro: others_trans)
  next
    case (Some e)
    with assms u k1 w1 show ?thesis by (auto simp: persist_and_schedule_def Let_def)
  qed
  then show "others_kept (req_ID req) w w'"
    "waiting w' = waiting w @ (if res = None then [req'] else [])" "req_ID req' = req_ID req"
    by simp_all
qed

text \<open>
  A submission appends its request to the waiting line exactly if it succeeds, touches no other
  sandbox's run, and touches none at all if it is refused before it is persisted.
\<close>

lemma Submit_frame:
  assumes "Submit m uuid clk w req0 = (res, req', w')"
  shows "others_kept (req_ID req') w w' \<and>
    waiting w' = waiting w @ (if res = None then [req'] else []) \<and>
    req_ID req' = req_ID (with_identity uuid clk req0)"
proof -
  let ?req = "with_identity uuid clk req0"
  obtain v req1 w1 where pre: "m_RunPre m ?req w = (v, req1, w1)" by (cases "m_RunPre m ?req w") auto
  from pre_frame [OF this] have f: "runs w1 = runs w" "waiting w1 = waiting w" "req_ID req1 = req_ID ?req"
    by simp_all
  have refl: "others_kept i w w" "others_kept i w w1" for i using f by (simp_all add: others_kept_def)
  have keep: "others_kept i w x = others_kept i w1 x" for i x using f by (simp add: others_kept_def)
  consider (early) "res \<noteq> None" "req' = ?req" "w' = w"
    | (judged) "res \<noteq> None" "req' = req1" "w' = w1"
    | (go) req2 where "persist_and_schedule m clk w1 req2 = (res, req', w')" "req_ID req2 = req_ID req1"
    using assms pre
    by (auto simp: Submit_def Let_def split: sum.splits Verdict.splits)
  then show ?thesis
  proof cases
    case go
    from persist_frame [OF go(1)] go(2) f keep show ?thesis by simp
  qed (use refl f in auto)
qed

text \<open>The steps a successful submission went through.\<close>

lemma Submit_success:
  assumes "Submit m uuid clk w req0 = (None, req', w')"
  obtains v req1 w1 req2 w2 nodes where
    "\<exists>tpl. m_GetTemplate m w (req_Template req0) = Inr tpl"
    "m_RunPre m (with_identity uuid clk req0) w = (Inr v, req1, w1)"
    "v = VerdictAccept \<and> req2 = classify_step (m_Phlegethon m) req1 \<or>
     v = VerdictQuarantine \<and> req2 = classify_step (m_Phlegethon m)
       (req1\<lparr>req_Metadata := put (req_Metadata req1) ''quarantine'' ''true''\<rparr>)"
    "\<exists>run. w2 = snd (m_UpdateRun m w1 run)"
    "fst (m_ListNodes m w2) = Inr nodes" "m_ChooseNode m req2 nodes = Inr (req_NodeID req')"
    "req' = req2\<lparr>req_NodeID := req_NodeID req'\<rparr>"
proof -
  let ?req = "with_identity uuid clk req0"
  have tpl: "req_Template ?req = req_Template req0" by (simp add: with_identity_def Let_def)
  obtain v req1 w1 where pre: "m_RunPre m ?req w = (v, req1, w1)" by (cases "m_RunPre m ?req w") auto
  from assms tpl have t: "\<exists>tpl. m_GetTemplate m w (req_Template req0) = Inr tpl"
    by (auto simp: Submit_def Let_def split: sum.splits)
  obtain vd req3 where v: "v = Inr vd" and p: "persist_and_schedule m clk w1 req3 = (None, req', w')"
    and r3: "vd = VerdictAccept \<and> req3 = req1 \<or> vd = VerdictQuarantine \<and>
      req3 = req1\<lparr>req_Metadata := put (req_Metadata req1) ''quarantine'' ''true''\<rparr>"
    using assms pre by (auto simp: Submit_def Let_def split: sum.splits Verdict.splits)
  let ?run = "initial_run clk req3" and ?w2 = "snd (m_UpdateRun m w1 (initial_run clk req3))"
  from p have "schedule_and_enqueue m clk ?w2 (classify_step (m_Phlegethon m) req3) ?run = (None, req', w')"
    by (auto simp: persist_and_schedule_def Let_def split: prod.splits option.splits)
  from schedule_placed [OF this] t pre v r3 show ?thesis by (auto intro: that)
qed

lemma classify_step_frame [simp]:
  "req_Template (classify_step ph req) = req_Template req"
  "req_NetworkRef (classify_step ph req) = req_NetworkRef req"
  by (simp_all add: classify_step_def split: option.splits)

lemma Submit_keeps:
  assumes "Submit m uuid clk w req0 = (None, req', w')"
  shows "req_Template req' = req_Template req0 \<and> req_NetworkRef req' = req_NetworkRef req0"
proof -
  let ?req = "with_identity uuid clk req0"
  have same: "req_Template ?req = req_Template req0" "req_NetworkRef ?req = req_NetworkRef req0"
    by (simp_all add: with_identity_def Let_def)
  from assms obtain v req1 w1 req2 where pre: "m_RunPre m ?req w = (Inr v, req1, w1)"
    and c: "v = VerdictAccept \<and> req2 = classify_step (m_Phlegethon m) req1 \<or>
     v = VerdictQuarantine \<and> req2 = classify_step (m_Phlegethon m)
       (req1\<lparr>req_Metadata := put (req_Metadata req1) ''quarantine'' ''true''\<rparr>)"
    and eq: "req' = req2\<lparr>req_NodeID := req_NodeID req'\<rparr>"
    by (rule Submit_success)
  from c have two: "req_Template req2 = req_Template req1" "req_NetworkRef req2 = req_NetworkRef req1"
    by auto
  have "req_Template req' = req_Template req2" "req_NetworkRef req' = req_NetworkRef req2"
    by (subst eq, simp)+
  with pre_frame [OF pre] two same show ?thesis by simp
qed

lemma warm_loop_frame:
  "\<exists>new. waiting (warm_loop m uuids clk t n w) = waiting w @ new \<and> length new \<le> n \<and>
     (\<forall>r\<in>set new. req_Template r = t \<and> net_ID (req_NetworkRef r) = ''lockdown-no-net'')"
proof (induction n arbitrary: w)
  case 0
  then show ?case by simp
next
  case (Suc n)
  show ?case
  proof (cases "m_GetTemplate m w t")
    case (Inl e)
    with Suc [of w] show ?thesis by (auto intro: le_SucI)
  next
    case (Inr tpl)
    obtain res req' w' where sub: "Submit m (uuids n) clk w (warm_request t tpl) = (res, req', w')"
      by (cases "Submit m (uuids n) clk w (warm_request t tpl)") auto
    obtain new where new: "waiting (warm_loop m uuids clk t n w') = waiting w' @ new" "length new \<le> n"
        "\<forall>r\<in>set new. req_Template r = t \<and> net_ID (req_NetworkRef r) = ''lockdown-no-net''"
      using Suc [of w'] by blast
    have first: "waiting w' = waiting w @ (if res = None then [req'] else [])"
      using Submit_frame [OF sub] by blast
    have "req_Template req' = t \<and> net_ID (req_NetworkRef req') = ''lockdown-no-net''" if "res = None"
      using Submit_keeps [of "uuids n" clk w "warm_request t tpl" req' w'] sub that
      by (simp add: warm_request_def)
    with new first Inr sub show ?thesis
      by (intro exI [of _ "(if res = None then [req'] else []) @ new"]) auto
  qed
qed

end

text \<open>With components that never fail, the run on record tells the outcome.\<close>

locale reliable_control_plane = control_plane +
  assumes upd_total: "fst (m_UpdateRun m w r) = None"
    and enq_total: "fst (m_Enqueue m w q) = None"
    and list_total: "\<exists>nodes. fst (m_ListNodes m w) = Inr nodes"
begin

lemma upd_eq: "runs (snd (m_UpdateRun m w r)) = (runs w)(run_ID r \<mapsto> r)"
  using upd_ok [of w r "snd (m_UpdateRun m w r)"] upd_total [of w r] by (simp add: prod_eq_iff)

lemma schedule_outcome:
  assumes "schedule_and_enqueue m clk w req run = (res, req', w')"
  shows "\<exists>r. runs w' (run_ID run) = Some r \<and> run_ID r = run_ID run \<and>
     (case res of
        None \<Rightarrow> run_Status r = RunStatusScheduled \<and> run_NodeID r = req_NodeID req'
      | Some e \<Rightarrow> (\<exists>x. e = ScheduleFailed x) \<and> run_Status r = RunStatusFailed)"
  using assms
proof (cases rule: schedule_cases)
  case (fail e t)
  from fail list_total [of w] assms have "\<exists>x. res = Some (ScheduleFailed x)"
    using enq_total
    by (fastforce simp: schedule_and_enqueue_def Let_def case_prod_beta split: sum.splits prod.splits option.splits)
  with fail show ?thesis by (auto simp: fail_run_def upd_eq)
next
  case (placed nodes nid run2 er w3)
  have "er = None" using placed(5) enq_total by (metis fst_conv)
  with placed show ?thesis
    using enq_runs [of "snd (m_UpdateRun m (snd (m_ListNodes m w)) run2)" req'] by (auto simp: upd_eq)
qed

lemma persist_outcome:
  assumes "persist_and_schedule m clk w req = (res, req', w')"
  shows "\<exists>r. runs w' (req_ID req) = Some r \<and> run_ID r = req_ID req \<and>
     (case res of
        None \<Rightarrow> run_Status r = RunStatusScheduled \<and> run_NodeID r = req_NodeID req'
      | Some e \<Rightarrow> (\<exists>x. e = ScheduleFailed x) \<and> run_Status r = RunStatusFailed)"
proof -
  let ?run = "initial_run clk req"
  have "m_UpdateRun m w ?run = (None, snd (m_UpdateRun m w ?run))"
    using upd_total [of w ?run] by (simp add: prod_eq_iff)
  with assms have "schedule_and_enqueue m clk (snd (m_UpdateRun m w ?run))
      (classify_step (m_Phlegethon m) req) ?run = (res, req', w')"
    by (simp add: persist_and_schedule_def Let_def split: prod.splits option.splits)
  from schedule_outcome [OF this] show ?thesis by simp
qed

lemma Submit_outcome:
  assumes "Submit m uuid clk w req0 = (res, req', w')"
  shows "runs w' = runs w \<and> (\<exists>e. res = Some e \<and> (\<nexists>x. e = ScheduleFailed x)) \<or>
     (\<exists>r. runs w' (req_ID req') = Some r \<and> run_ID r = req_ID req' \<and>
       (case res of
          None \<Rightarrow> run_Status r = RunStatusScheduled \<and> run_NodeID r = req_NodeID req'
        | Some e \<Rightarrow> (\<exists>x. e = ScheduleFailed x) \<and> run_Status r = RunStatusFailed))"
proof -
  let ?req = "with_identity uuid clk req0"
  obtain v req1 w1 where pre: "m_RunPre m ?req w = (v, req1, w1)" by (cases "m_RunPre m ?req w") auto
  consider (early) e where "res = Some e" "\<nexists>x. e = ScheduleFailed x" "w' = w \<or> w' = w1"
    | (go) req2 where "persist_and_schedule m clk w1 req2 = (res, req', w')"
    using assms pre by (auto simp: Submit_def Let_def split: sum.splits Verdict.splits)
  then show ?thesis
  proof cases
    case early
    with pre_frame [OF pre] show ?thesis by auto
  next
    case go
    from persist_outcome [OF go] persist_frame(3) [OF go] show ?thesis by simp
  qed
qed

end

section \<open>The manager over the in-memory components\<close>

record cluster =
  c_registry :: MemoryRegistry
  c_queue :: MemoryQueue
  c_policies :: MemoryRepo
  c_templates :: MemoryTemplateManager
  c_audit :: "audit_log_entry list"

definition sched_error_text :: "sched_error \<Rightarrow> string" where
  "sched_error_text e = (case e of
      ErrNoCapacity \<Rightarrow> ''no nodes with sufficient capacity found''
    | ErrNoTyphonNodes \<Rightarrow> ''no typhon nodes available for quarantine workload''
    | ErrNoNodes \<Rightarrow> ''no nodes available''
    | ErrUnsatisfiable \<Rightarrow> ''no nodes can satisfy resource requirements'')"

definition audit_to_log :: "cluster AuditSink" where
  "audit_to_log rec w =
     (case LogAuditSink_Emit rec (c_audit w) of (e, log) \<Rightarrow> (e, w\<lparr>c_audit := log\<rparr>))"

text \<open>The control plane used when Redis is not available: every command succeeds, nothing is listed.\<close>

definition Noop_Control :: "cluster \<Rightarrow> NodeID \<Rightarrow> SandboxID \<Rightarrow> control_cmd \<Rightarrow> string option \<times> cluster" where
  "Noop_Control w n i cmd = (None, w)"

definition Noop_ListSandboxes :: "cluster \<Rightarrow> NodeID \<Rightarrow> string + SandboxRun list" where
  "Noop_ListSandboxes w n = Inr []"

definition memory_manager ::
    "string \<Rightarrow> sorter \<Rightarrow> go_time \<Rightarrow> judge_ctx \<Rightarrow> string list \<Rightarrow> HeatClassifier option
     \<Rightarrow> (cluster \<Rightarrow> NodeID \<Rightarrow> SandboxID \<Rightarrow> control_cmd \<Rightarrow> string option \<times> cluster)
     \<Rightarrow> (cluster \<Rightarrow> NodeID \<Rightarrow> string + SandboxRun list) \<Rightarrow> cluster Manager" where
  "memory_manager strategy sortSlice now ctx allowed ph ctl listing =
     \<lparr>m_Enqueue = (\<lambda>w req. (None, w\<lparr>c_queue := Enqueue (c_queue w) req\<rparr>)),
      m_UpdateRun = (\<lambda>w run. (None, w\<lparr>c_registry := UpdateRun (c_registry w) run\<rparr>)),
      m_GetRun = (\<lambda>w i. case GetRun (c_registry w) i of Inl _ \<Rightarrow> Inl ''run not found'' | Inr r \<Rightarrow> Inr r),
      m_ListRuns = (\<lambda>w. Inr (ListRuns (c_registry w))),
      m_ListNodes = (\<lambda>w. case ListNodes now (c_registry w) of (ns, r) \<Rightarrow> (Inr ns, w\<lparr>c_registry := r\<rparr>)),
      m_GetTemplate = (\<lambda>w t. GetTemplate (c_templates w) t),
      m_GetPolicy = (\<lambda>w t. Inr (policy_of (c_policies w) t)),
      m_RunPre = (\<lambda>req w. RunPre (deployed_judges ctx audit_to_log
                     (\<lambda>t. Inr (policy_of (c_policies w) t)) allowed) req w),
      m_ChooseNode = (\<lambda>req nodes. case NewScheduler strategy sortSlice now req nodes of
                        Inl e \<Rightarrow> Inl (sched_error_text e) | Inr nid \<Rightarrow> Inr nid),
      m_Phlegethon = ph, m_Control = ctl, m_ListSandboxes = listing\<rparr>"

definition cluster_runs :: "cluster \<Rightarrow> SandboxID \<Rightarrow> SandboxRun option" where
  "cluster_runs w i = get (mr_runs (c_registry w)) i"

definition cluster_waiting :: "cluster \<Rightarrow> SandboxRequest list" where
  "cluster_waiting w = mq_items (c_queue w)"

lemma audit_to_log_frame:
  "snd (audit_to_log rec w) = w\<lparr>c_audit := snd (LogAuditSink_Emit rec (c_audit w))\<rparr>"
  by (simp add: audit_to_log_def case_prod_beta)

interpretation mem: reliable_control_plane
    "memory_manager strategy sortSlice now ctx allowed ph ctl listing" cluster_runs cluster_waiting
  for strategy sortSlice now ctx allowed ph ctl listing
  by unfold_locales
     (auto simp: memory_manager_def cluster_runs_def cluster_waiting_def UpdateRun_def Enqueue_def
        deployed_chain_eq audit_to_log_frame case_prod_beta fun_eq_iff)

text \<open>What the parts of this manager do, for the proofs below.\<close>

lemma memory_manager_simps [simp]:
  "m_GetRun (memory_manager st srt now ctx al ph ctl ls) w i =
     (case cluster_runs w i of None \<Rightarrow> Inl ''run not found'' | Some r \<Rightarrow> Inr r)"
  "m_Control (memory_manager st srt now ctx al ph ctl ls) = ctl"
  "m_ListSandboxes (memory_manager st srt now ctx al ph ctl ls) = ls"
  "m_Phlegethon (memory_manager st srt now ctx al ph ctl ls) = ph"
  "snd (m_UpdateRun (memory_manager st srt now ctx al ph ctl ls) w run) =
     w\<lparr>c_registry := UpdateRun (c_registry w) run\<rparr>"
  "m_ListNodes (memory_manager st srt now ctx al ph ctl ls) w =
     (Inr (fst (ListNodes now (c_registry w))), w\<lparr>c_registry := snd (ListNodes now (c_registry w))\<rparr>)"
  "m_ListRuns (memory_manager st srt now ctx al ph ctl ls) w = Inr (ListRuns (c_registry w))"
  "m_GetTemplate (memory_manager st srt now ctx al ph ctl ls) w t = GetTemplate (c_templates w) t"
  by (simp_all add: memory_manager_def GetRun_def cluster_runs_def case_prod_beta split: option.splits)

lemma memory_RunPre:
  "m_RunPre (memory_manager st srt now ctx al ph ctl ls) req w =
     (Inr (if within_policy (req_Resources req) (policy_of (c_policies w) (req_Template req)) \<and>
            network_allowed al (req_NetworkRef req) then VerdictAccept else VerdictReject),
      audited ctx req,
      w\<lparr>c_audit := snd (LogAuditSink_Emit (audit_record ctx (audited ctx req)) (c_audit w))\<rparr>)"
  by (simp add: memory_manager_def deployed_chain_eq audit_to_log_frame)

lemma memory_ChooseNode:
  "m_ChooseNode (memory_manager st srt now ctx al ph ctl ls) req nodes = Inr nid \<longleftrightarrow>
   NewScheduler st srt now req nodes = Inr nid"
  by (simp add: memory_manager_def split: sum.splits)

lemma ListNodes_UpdateRun: "fst (ListNodes now (UpdateRun r run)) = fst (ListNodes now r)"
  by (simp add: ListNodes_def UpdateRun_def list_loop_result)

lemma schedulable_NodeID: "schedulable now (req\<lparr>req_NodeID := x\<rparr>) n = schedulable now req n"
  by (simp add: schedulable_def quarantine_ok_def pool_ok_def IsQuarantineRequest_def)

section \<open>Properties\<close>

text \<open>
  The registry and the queue may fail: a manager whose calls of \<open>UpdateRun\<close>, \<open>ListNodes\<close> and \<open>Enqueue\<close> are
  numbered, where the call \<open>n\<close> fails with the error \<open>fl n\<close>, if there is one, and then changes nothing.
\<close>

definition with_faults :: "(nat \<Rightarrow> string option) \<Rightarrow> 'w Manager \<Rightarrow> ('w \<times> nat) Manager" where
  "with_faults fl m =
     \<lparr>m_Enqueue = (\<lambda>(w, n) req. case fl n of
        Some err \<Rightarrow> (Some err, w, Suc n) | None \<Rightarrow> (case m_Enqueue m w req of (e, w') \<Rightarrow> (e, w', Suc n))),
      m_UpdateRun = (\<lambda>(w, n) run. case fl n of
        Some err \<Rightarrow> (Some err, w, Suc n) | None \<Rightarrow> (case m_UpdateRun m w run of (e, w') \<Rightarrow> (e, w', Suc n))),
      m_GetRun = (\<lambda>(w, n). m_GetRun m w),
      m_ListRuns = (\<lambda>(w, n). m_ListRuns m w),
      m_ListNodes = (\<lambda>(w, n). case fl n of
        Some err \<Rightarrow> (Inl err, w, Suc n) | None \<Rightarrow> (case m_ListNodes m w of (ns, w') \<Rightarrow> (ns, w', Suc n))),
      m_GetTemplate = (\<lambda>(w, n). m_GetTemplate m w),
      m_GetPolicy = (\<lambda>(w, n). m_GetPolicy m w),
      m_RunPre = (\<lambda>req (w, n). case m_RunPre m req w of (v, req', w') \<Rightarrow> (v, req', w', n)),
      m_ChooseNode = m_ChooseNode m,
      m_Phlegethon = m_Phlegethon m,
      m_Control = (\<lambda>(w, n) i j c. case m_Control m w i j c of (e, w') \<Rightarrow> (e, w', n)),
      m_ListSandboxes = (\<lambda>(w, n). m_ListSandboxes m w)\<rparr>"

definition faulty_runs :: "cluster \<times> nat \<Rightarrow> SandboxID \<Rightarrow> SandboxRun option" where
  "faulty_runs w = cluster_runs (fst w)"

definition faulty_waiting :: "cluster \<times> nat \<Rightarrow> SandboxRequest list" where
  "faulty_waiting w = cluster_waiting (fst w)"

interpretation flt: control_plane
    "with_faults fl (memory_manager strategy sortSlice now ctx allowed ph ctl listing)" faulty_runs faulty_waiting
  for fl strategy sortSlice now ctx allowed ph ctl listing
  by unfold_locales
     (auto simp: with_faults_def faulty_runs_def faulty_waiting_def memory_manager_def cluster_runs_def cluster_waiting_def
        UpdateRun_def Enqueue_def deployed_chain_eq audit_to_log_frame case_prod_beta fun_eq_iff split: option.splits)

text \<open>The errors of a submission that come after its run was first persisted.\<close>

definition after_persist :: "olympus_error \<Rightarrow> bool" where
  "after_persist e \<longleftrightarrow> (case e of ListNodesFailed _ \<Rightarrow> True | ScheduleFailed _ \<Rightarrow> True | EnqueueFailed _ \<Rightarrow> True | _ \<Rightarrow> False)"

lemma memory_updates:
  "m_UpdateRun (memory_manager st srt now ctx al ph ctl ls) w run = (None, w\<lparr>c_registry := UpdateRun (c_registry w) run\<rparr>)"
  "m_Enqueue (memory_manager st srt now ctx al ph ctl ls) w req = (None, w\<lparr>c_queue := Enqueue (c_queue w) req\<rparr>)"
  by (simp_all add: memory_manager_def)

lemma cluster_runs_after [simp]:
  "cluster_runs (w\<lparr>c_registry := UpdateRun r run\<rparr>) = (get (mr_runs r))(run_ID run \<mapsto> run)"
  "cluster_runs (w\<lparr>c_queue := q\<rparr>) = cluster_runs w"
  "cluster_runs (w\<lparr>c_registry := r\<rparr>) = get (mr_runs r)"
  "cluster_runs (w\<lparr>c_audit := l\<rparr>) = cluster_runs w"
  by (simp_all add: cluster_runs_def UpdateRun_def fun_eq_iff)

lemma faulty_schedule:
  assumes "schedule_and_enqueue (with_faults fl (memory_manager st srt now ctx al ph ctl ls)) clk (w, k) req run = (res, req', w', k')"
    and "cluster_runs w (run_ID run) = Some run0" "run_Status run0 = RunStatusPending"
  shows "case res of
      None \<Rightarrow> (\<exists>r. cluster_runs w' (run_ID run) = Some r \<and>
        (if fl (k + 1) = None then run_Status r = RunStatusScheduled \<and> run_NodeID r = req_NodeID req' else run_Status r = RunStatusPending))
    | Some e \<Rightarrow> after_persist e \<and> (\<exists>r. cluster_runs w' (run_ID run) = Some r \<and>
        (if fl (k' - 1) = None then run_Status r = RunStatusFailed else run_Status r \<in> {RunStatusPending, RunStatusScheduled}))"
  using assms
  by (auto simp: schedule_and_enqueue_def with_faults_def memory_updates fail_run_def after_persist_def Let_def cluster_runs_def UpdateRun_def
      split: option.splits sum.splits if_splits)

lemma faulty_persist:
  assumes "persist_and_schedule (with_faults fl (memory_manager st srt now ctx al ph ctl ls)) clk (w, k) req = (res, req', w', k')"
  shows "case res of
      None \<Rightarrow> (\<exists>r. cluster_runs w' (req_ID req) = Some r \<and>
        (if fl (k + 2) = None then run_Status r = RunStatusScheduled \<and> run_NodeID r = req_NodeID req' else run_Status r = RunStatusPending))
    | Some e \<Rightarrow>
        if after_persist e then (\<exists>r. cluster_runs w' (req_ID req) = Some r \<and>
          (if fl (k' - 1) = None then run_Status r = RunStatusFailed else run_Status r \<in> {RunStatusPending, RunStatusScheduled}))
        else cluster_runs w' = cluster_runs w"
proof (cases "fl k")
  case None
  let ?run = "initial_run clk req" and ?w1 = "w\<lparr>c_registry := UpdateRun (c_registry w) (initial_run clk req)\<rparr>"
  have run: "cluster_runs ?w1 (run_ID ?run) = Some ?run" "run_Status ?run = RunStatusPending"
    by (simp_all add: initial_run_def)
  have "schedule_and_enqueue (with_faults fl (memory_manager st srt now ctx al ph ctl ls)) clk (?w1, Suc k) (classify_step ph req) ?run =
      (res, req', w', k')"
    using assms None by (simp add: persist_and_schedule_def with_faults_def memory_updates Let_def)
  from faulty_schedule [OF this run] show ?thesis by (auto split: option.splits)
next
  case (Some err)
  then show ?thesis using assms by (auto simp: persist_and_schedule_def with_faults_def after_persist_def Let_def)
qed

text \<open>
  C1: A submission is all or nothing, whichever calls of the registry and of the queue fail (the call \<open>n\<close> with \<open>fl n\<close>,
  without effect; \<open>k\<close> is the number of the submission's first call and \<open>k' - 1\<close> that of its last). If it succeeds, its
  request, with the chosen node filled in, is the one new entry at the end of the queue, and its run is on record as scheduled
  on that node, or still as pending when recording the placement failed. If it fails, the queue is unchanged; an error before
  the run was persisted leaves every run as it was; one after that, of listing the nodes, of the scheduler or of the queue,
  leaves the run on record as failed, unless the very call that marks it failed too. No other sandbox's run changes in any case.
\<close>

theorem submit_all_or_nothing:
  assumes "Submit (with_faults fl (memory_manager st srt now ctx allowed ph ctl ls)) uuid clk (w, k) req0 = (res, req', w', k')"
  shows "(\<forall>j. j \<noteq> req_ID req' \<longrightarrow> cluster_runs w' j = cluster_runs w j) \<and>
    (case res of
       None \<Rightarrow> cluster_waiting w' = cluster_waiting w @ [req'] \<and>
         (\<exists>r. cluster_runs w' (req_ID req') = Some r \<and>
           (if fl (k + 2) = None then run_Status r = RunStatusScheduled \<and> run_NodeID r = req_NodeID req'
            else run_Status r = RunStatusPending))
     | Some e \<Rightarrow> cluster_waiting w' = cluster_waiting w \<and>
         (if after_persist e
          then \<exists>r. cluster_runs w' (req_ID req') = Some r \<and>
            (if fl (k' - 1) = None then run_Status r = RunStatusFailed else run_Status r \<in> {RunStatusPending, RunStatusScheduled})
          else cluster_runs w' = cluster_runs w))"
proof -
  let ?m = "with_faults fl (memory_manager st srt now ctx allowed ph ctl ls)" and ?req = "with_identity uuid clk req0"
  have frame: "\<forall>j. j \<noteq> req_ID req' \<longrightarrow> cluster_runs w' j = cluster_runs w j"
      "cluster_waiting w' = cluster_waiting w @ (if res = None then [req'] else [])" "req_ID req' = req_ID ?req"
    using flt.Submit_frame [OF assms] by (simp_all add: flt.others_kept_def faulty_runs_def faulty_waiting_def)
  have pre: "m_RunPre ?m ?req (w, k) = (v, req1, w1, n) \<Longrightarrow> n = k \<and> cluster_runs w1 = cluster_runs w \<and> req_ID req1 = req_ID ?req" for v req1 w1 n
    using flt.pre_frame [of fl st srt now ctx allowed ph ctl ls ?req "(w, k)" v req1 "(w1, n)"]
    by (auto simp: with_faults_def faulty_runs_def split: prod.splits)
  consider (early) e where "res = Some e" "\<not> after_persist e" "cluster_runs w' = cluster_runs w"
    | (go) w1 req2 where "persist_and_schedule ?m clk (w1, k) req2 = (res, req', w', k')" "cluster_runs w1 = cluster_runs w" "req_ID req2 = req_ID ?req"
    using assms
    by (auto simp: Submit_def Let_def after_persist_def split: sum.splits Verdict.splits prod.splits dest!: pre)
  then show ?thesis
  proof cases
    case early
    with frame show ?thesis by simp
  next
    case go
    note outcome = faulty_persist [OF go(1), unfolded go(2,3) frame(3) [symmetric]]
    show ?thesis using outcome frame(1,2) by (cases res) simp_all
  qed
qed

text \<open>A cluster with one node and one template, and a request its default policy allows.\<close>

definition demo_template :: TemplateSpec where
  "demo_template = \<lparr>tpl_ID = ''py'', tpl_Name = [], tpl_Description = [], tpl_BaseImage = [],
     tpl_KernelImage = [], tpl_Resources = zero_ResourceSpec, tpl_DefaultEnv = [],
     tpl_WarmupCommand = []\<rparr>"

definition demo_cluster :: cluster where
  "demo_cluster = \<lparr>c_registry = UpdateHeartbeat NewMemoryRegistry (demo_heartbeat 0),
     c_queue = NewMemoryQueue, c_policies = NewMemoryRepo,
     c_templates = RegisterTemplate NewMemoryTemplateManager demo_template, c_audit = []\<rparr>"

definition demo_manager :: "cluster Manager" where
  "demo_manager = memory_manager ''least-loaded'' insertion_sort 0
     \<lparr>jc_uuid = ''u'', jc_now = 0, jc_RFC3339 = [], jc_identity = None\<rparr> [] (Some NewHeatClassifier)
     Noop_Control Noop_ListSandboxes"

definition demo_request :: SandboxRequest where
  "demo_request = zero_SandboxRequest\<lparr>req_Template := ''py'',
     req_Resources := zero_ResourceSpec\<lparr>res_CPU := 500, res_Mem := 64\<rparr>,
     req_NetworkRef := \<lparr>net_ID = ''lockdown-no-net'', net_Name = []\<rparr>\<rparr>"

definition demo_submit :: "olympus_error option \<times> SandboxRequest \<times> cluster" where
  "demo_submit = Submit demo_manager ''s1'' (\<lambda>_. 1) demo_cluster demo_request"

lemma demo_submit_result:
  "fst demo_submit = None \<and> req_ID (fst (snd demo_submit)) = ''s1'' \<and>
   req_NodeID (fst (snd demo_submit)) = ''n1''"
  by code_simp

lemma demo_submit_eq:
  "Submit (memory_manager ''least-loaded'' insertion_sort 0
     \<lparr>jc_uuid = ''u'', jc_now = 0, jc_RFC3339 = [], jc_identity = None\<rparr> [] (Some NewHeatClassifier)
     Noop_Control Noop_ListSandboxes) ''s1'' (\<lambda>_. 1) demo_cluster demo_request =
   (None, fst (snd demo_submit), snd (snd demo_submit))"
  using demo_submit_result by (simp add: demo_submit_def demo_manager_def prod_eq_iff)

text \<open>The same submission when the queue is down: the fourth call fails, and the fifth marks the run.\<close>

definition demo_outage :: "olympus_error option \<times> SandboxRequest \<times> cluster \<times> nat" where
  "demo_outage = Submit (with_faults (\<lambda>n. if n = 3 then Some ''down'' else None) demo_manager) ''s1'' (\<lambda>_. 1) (demo_cluster, 0) demo_request"

lemma demo_outage_result:
  "fst demo_outage = Some (EnqueueFailed ''down'') \<and> req_ID (fst (snd demo_outage)) = ''s1'' \<and> snd (snd (snd demo_outage)) = 5"
  by code_simp

theorem submit_all_or_nothing_witness:
  "fst demo_outage = Some (EnqueueFailed ''down'') \<and>
   cluster_waiting (fst (snd (snd demo_outage))) = cluster_waiting demo_cluster \<and>
   (\<exists>r. cluster_runs (fst (snd (snd demo_outage))) ''s1'' = Some r \<and> run_Status r = RunStatusFailed)"
proof -
  have "Submit (with_faults (\<lambda>n. if n = 3 then Some ''down'' else None) (memory_manager ''least-loaded'' insertion_sort 0
     \<lparr>jc_uuid = ''u'', jc_now = 0, jc_RFC3339 = [], jc_identity = None\<rparr> [] (Some NewHeatClassifier)
     Noop_Control Noop_ListSandboxes)) ''s1'' (\<lambda>_. 1) (demo_cluster, 0) demo_request =
    (Some (EnqueueFailed ''down''), fst (snd demo_outage), fst (snd (snd demo_outage)), 5)"
    using demo_outage_result by (simp add: demo_outage_def demo_manager_def prod_eq_iff)
  from submit_all_or_nothing [OF this] demo_outage_result show ?thesis by (simp add: after_persist_def)
qed

text \<open>
  C6: A submission that succeeds was entitled to. Its template is registered, its resources are
  within the template's policy, its network is allowed, and the node it was given is a live node
  of the registry that qualifies for the request under every placement rule.
\<close>

theorem submit_success_entitled:
  assumes sub: "Submit (memory_manager st srt now ctx allowed ph ctl ls) uuid clk w req0 = (None, req', w')"
    and sort: "sort_slice more_free (srt more_free)" "sort_slice less_free (srt less_free)"
  shows "(\<exists>tpl. GetTemplate (c_templates w) (req_Template req0) = Inr tpl) \<and>
    within_policy (req_Resources req0) (policy_of (c_policies w) (req_Template req0)) \<and>
    network_allowed allowed (req_NetworkRef req0) \<and>
    (\<exists>n\<in>set (fst (ListNodes now (c_registry w))). node_ID n = req_NodeID req' \<and> schedulable now req' n)"
proof -
  let ?m = "memory_manager st srt now ctx allowed ph ctl ls"
  let ?req = "with_identity uuid clk req0"
  have same: "req_Template ?req = req_Template req0" "req_NetworkRef ?req = req_NetworkRef req0"
      "req_Resources ?req = req_Resources req0"
    by (simp_all add: with_identity_def Let_def)
  from sub obtain v req1 w1 req2 w2 nodes where
    t: "\<exists>tpl. m_GetTemplate ?m w (req_Template req0) = Inr tpl" and
    pre: "m_RunPre ?m ?req w = (Inr v, req1, w1)" and
    v: "v = VerdictAccept \<and> req2 = classify_step (m_Phlegethon ?m) req1 \<or>
     v = VerdictQuarantine \<and> req2 = classify_step (m_Phlegethon ?m)
       (req1\<lparr>req_Metadata := put (req_Metadata req1) ''quarantine'' ''true''\<rparr>)" and
    w2: "\<exists>run. w2 = snd (m_UpdateRun ?m w1 run)" and
    ln: "fst (m_ListNodes ?m w2) = Inr nodes" and
    ch: "m_ChooseNode ?m req2 nodes = Inr (req_NodeID req')" and
    eq: "req' = req2\<lparr>req_NodeID := req_NodeID req'\<rparr>"
    by (rule mem.Submit_success)
  have acc: "within_policy (req_Resources req0) (policy_of (c_policies w) (req_Template req0))"
      "network_allowed allowed (req_NetworkRef req0)" "c_registry w1 = c_registry w"
    using pre v same by (auto simp: memory_RunPre split: if_splits)
  from w2 ln acc(3) have nodes: "nodes = fst (ListNodes now (c_registry w))"
    by (auto simp: ListNodes_UpdateRun)
  obtain lt where "placement_spec lt now req2 nodes (Inr (req_NodeID req'))"
    using ch placement.choose_first_spec [OF placement_more_free [OF sort(1)], of now req2 nodes]
      placement.choose_first_spec [OF placement_less_free [OF sort(2)], of now req2 nodes]
    by (auto simp: memory_ChooseNode NewScheduler_def LeastLoaded_ChooseNode_def
        BinPacking_ChooseNode_def split: if_splits)
  then obtain n where n: "n \<in> set nodes" "node_ID n = req_NodeID req'" "schedulable now req2 n"
    by (auto simp: placement_spec_def)
  then have "schedulable now req' n" by (subst eq) (simp add: schedulable_NodeID)
  with n nodes acc t show ?thesis by auto
qed

theorem submit_success_entitled_witness:
  "\<exists>n\<in>set (fst (ListNodes 0 (c_registry demo_cluster))). node_ID n = ''n1'' \<and>
     schedulable 0 (fst (snd demo_submit)) n"
  using submit_success_entitled [OF demo_submit_eq more_free.sort_slice_axioms less_free.sort_slice_axioms]
    demo_submit_result by simp

text \<open>
  Commands reach the node a sandbox was scheduled on. After a successful submission, killing
  the sandbox sends the kill command to the node its request carries, and to no other.
\<close>

theorem kill_reaches_scheduled_node:
  assumes "Submit (memory_manager st srt now ctx allowed ph ctl ls) uuid clk w req0 = (None, req', w')"
  shows "KillSandbox (memory_manager st srt now ctx allowed ph ctl ls) w' (req_ID req') =
     (case ctl w' (req_NodeID req') (req_ID req') CtlKill of (err, w'') \<Rightarrow> (map_option ControlFailed err, w''))"
proof -
  from mem.Submit_outcome [OF assms] obtain r where
    "cluster_runs w' (req_ID req') = Some r" "run_NodeID r = req_NodeID req'" by auto
  then show ?thesis
    by (simp add: KillSandbox_def send_command_def split: prod.splits option.splits)
qed

theorem kill_reaches_scheduled_node_witness:
  "KillSandbox demo_manager (snd (snd demo_submit)) ''s1'' = (None, snd (snd demo_submit))"
  using kill_reaches_scheduled_node [OF demo_submit_eq] demo_submit_result
  by (simp add: demo_manager_def Noop_Control_def)

subsection \<open>Reconciliation\<close>

text \<open>The runs the nodes report, in the order in which reconciliation writes them.\<close>

definition reported_runs :: "(NodeID \<Rightarrow> string + SandboxRun list) \<Rightarrow> NodeStatus list \<Rightarrow> SandboxRun list" where
  "reported_runs answer nodes = concat (map (\<lambda>n. case answer (node_ID n) of
      Inl _ \<Rightarrow> [] | Inr rs \<Rightarrow> map (\<lambda>r. r\<lparr>run_NodeID := node_ID n\<rparr>) rs) nodes)"

lemma reconcile_runs_eq:
  "reconcile_runs (memory_manager st srt now ctx al ph ctl ls) n rs w =
     w\<lparr>c_registry := foldl UpdateRun (c_registry w) (map (\<lambda>r. r\<lparr>run_NodeID := n\<rparr>) rs)\<rparr>"
  by (induction rs arbitrary: w) simp_all

lemma reconcile_nodes_eq:
  "reconcile_nodes (memory_manager st srt now ctx al ph ctl (\<lambda>_. answer)) ns w =
     w\<lparr>c_registry := foldl UpdateRun (c_registry w) (reported_runs answer ns)\<rparr>"
  by (induction ns arbitrary: w)
     (simp_all add: reported_runs_def reconcile_runs_eq split: sum.splits)

lemma GetRun_ListNodes: "GetRun (snd (ListNodes now r)) i = GetRun r i"
  by (simp add: GetRun_def)

text \<open>
  Reconciliation makes the record agree with the nodes. After it, the run of a sandbox is
  the one the live nodes report, attributed to the reporting node whatever the report says (the
  last report if there are several); a sandbox no live node reports keeps its run, and a node that
  does not answer is skipped.
\<close>

theorem reconcile_agrees:
  assumes "registry_reachable (c_registry w)"
    and "Reconcile (memory_manager st srt now ctx al ph ctl (\<lambda>_. answer)) w = (None, w')"
  shows "GetRun (c_registry w') i =
     (case find (\<lambda>r. run_ID r = i)
             (rev (reported_runs answer (fst (ListNodes now (c_registry w))))) of
        Some r \<Rightarrow> Inr r
      | None \<Rightarrow> GetRun (c_registry w) i)"
proof -
  let ?r = "snd (ListNodes now (c_registry w))"
  have "registry_ok ?r" using assms(1) by (simp add: registry_reachable_ok registry_ok_ListNodes)
  from memory_runs.get_updates [OF this] show ?thesis
    using assms(2) by (auto simp: Reconcile_def reconcile_nodes_eq GetRun_ListNodes split: option.splits)
qed

definition demo_answer :: "NodeID \<Rightarrow> string + SandboxRun list" where
  "demo_answer n = Inr [zero_SandboxRun\<lparr>run_ID := ''s7'', run_NodeID := ''other''\<rparr>]"

theorem reconcile_agrees_witness:
  "GetRun (c_registry (snd (Reconcile (memory_manager [] insertion_sort 0
      \<lparr>jc_uuid = [], jc_now = 0, jc_RFC3339 = [], jc_identity = None\<rparr> [] None Noop_Control
      (\<lambda>_. demo_answer)) demo_cluster))) ''s7''
   = Inr (zero_SandboxRun\<lparr>run_ID := ''s7'', run_NodeID := ''n1''\<rparr>)"
proof -
  let ?m = "memory_manager [] insertion_sort 0
      \<lparr>jc_uuid = [], jc_now = 0, jc_RFC3339 = [], jc_identity = None\<rparr> [] None Noop_Control (\<lambda>_. demo_answer)"
  have reach: "registry_reachable (c_registry demo_cluster)"
    by (simp add: demo_cluster_def)
       (rule registry_reachable.step [OF registry_reachable.new registry_step.heartbeat])
  have rec: "Reconcile ?m demo_cluster = (None, snd (Reconcile ?m demo_cluster))"
    by (simp add: Reconcile_def)
  have rep: "reported_runs demo_answer (fst (ListNodes 0 (c_registry demo_cluster))) =
      [zero_SandboxRun\<lparr>run_ID := ''s7'', run_NodeID := ''n1''\<rparr>]"
    by code_simp
  show ?thesis
    unfolding reconcile_agrees [OF reach rec] rep by (simp add: zero_SandboxRun_def)
qed

subsection \<open>The warm pool\<close>

text \<open>
  The warm pool is never overfilled. Ensuring a pool of a given size submits at most as many
  sandboxes as are missing from it (none if enough are running), each for the template asked for
  and on the no-network policy, and puts nothing else into the queue.
\<close>

theorem warm_pool_bounded:
  assumes "ensureWarmPool (memory_manager st srt now ctx al ph ctl ls) uuids clk t target w = (None, w')"
  shows "\<exists>new. cluster_waiting w' = cluster_waiting w @ new \<and>
    int (length new) \<le> max 0 (target - int (length (filter (is_warm t) (ListRuns (c_registry w))))) \<and>
    (\<forall>r\<in>set new. req_Template r = t \<and> net_ID (req_NetworkRef r) = ''lockdown-no-net'')"
proof -
  let ?warm = "int (length (filter (is_warm t) (ListRuns (c_registry w))))"
  show ?thesis
  proof (cases "?warm \<ge> target")
    case True
    with assms have "w' = w" by (simp add: ensureWarmPool_def Let_def)
    then show ?thesis by (intro exI [of _ "[]"]) simp
  next
    case False
    let ?m = "memory_manager st srt now ctx al ph ctl ls"
    let ?n = "nat (target - ?warm)"
    have run: "w' = warm_loop ?m uuids clk t ?n w"
      using assms False by (simp add: ensureWarmPool_def Let_def)
    obtain new where new: "cluster_waiting (warm_loop ?m uuids clk t ?n w) = cluster_waiting w @ new"
        "length new \<le> ?n"
        "\<forall>r\<in>set new. req_Template r = t \<and> net_ID (req_NetworkRef r) = ''lockdown-no-net''"
      using mem.warm_loop_frame [of st srt now ctx al ph ctl ls uuids clk t ?n w] by blast
    have "int (length new) \<le> max 0 (target - ?warm)" using new(2) False by linarith
    with new run show ?thesis by blast
  qed
qed

theorem warm_pool_bounded_witness:
  "\<exists>new. cluster_waiting (snd (ensureWarmPool demo_manager (\<lambda>_. ''u'') (\<lambda>_. 1) ''py'' 1 demo_cluster))
      = cluster_waiting demo_cluster @ new \<and> int (length new) \<le> 1"
proof -
  have "ensureWarmPool demo_manager (\<lambda>_. ''u'') (\<lambda>_. 1) ''py'' 1 demo_cluster =
      (None, snd (ensureWarmPool demo_manager (\<lambda>_. ''u'') (\<lambda>_. 1) ''py'' 1 demo_cluster))"
    by (simp add: ensureWarmPool_def demo_manager_def Let_def)
  moreover have "ListRuns (c_registry demo_cluster) = []"
    by (simp add: demo_cluster_def ListRuns_def UpdateHeartbeat_def NewMemoryRegistry_def Let_def)
  ultimately show ?thesis
    using warm_pool_bounded [of "''least-loaded''" insertion_sort 0
      "\<lparr>jc_uuid = ''u'', jc_now = 0, jc_RFC3339 = [], jc_identity = None\<rparr>" "[]"
      "Some NewHeatClassifier" Noop_Control Noop_ListSandboxes "\<lambda>_. ''u''" "\<lambda>_. 1" "''py''" 1 demo_cluster]
    unfolding demo_manager_def by auto
qed

end
