(* ===== verification/Wire.thy ===== *)
theory Wire
  imports Olympus
begin

text \<open>
  The control channel between the control plane and a node's agent: the messages the control
  plane publishes (\<open>src/pkg/olympus/redis_control.go\<close>), the listener that parses them
  (\<open>src/pkg/hecatoncheir/control.go\<close>) and what the agent's control loop makes of them
  (\<open>agent.go\<close>, \<open>controlLoop\<close> and the handlers' argument checks).

  Redis carries the text of a message unchanged from the topic it is published on to the
  subscribers of that topic; the streaming of logs and of command output is in the theory \<open>Relay\<close>.
  \<open>time.ParseDuration\<close> is
  modelled with the fraction taken exactly, where the library goes through \<open>float64\<close>.
\<close>

section \<open>Library functions\<close>

definition unit_value :: "string \<Rightarrow> nat option" where
  "unit_value u =
     (if u = ''ns'' then Some 1
      else if u = ''us'' \<or> u = [CHR 0xC2, CHR 0xB5, CHR ''s''] \<or> u = [CHR 0xCE, CHR 0xBC, CHR ''s''] then Some 1000
      else if u = ''ms'' then Some 1000000
      else if u = ''s'' then Some 1000000000
      else if u = ''m'' then Some 60000000000
      else if u = ''h'' then Some 3600000000000
      else None)"

text \<open>One \<open>number unit\<close> group: its value in nanoseconds and the rest of the text.\<close>

definition duration_fraction :: "string \<Rightarrow> string \<times> string" where
  "duration_fraction s =
     (case s of
        c # r \<Rightarrow> if c = CHR ''.'' then (takeWhile is_digit r, dropWhile is_digit r) else ([], s)
      | [] \<Rightarrow> ([], []))"

definition duration_group :: "string \<Rightarrow> (nat \<times> string) option" where
  "duration_group s =
     (let whole = takeWhile is_digit s;
          (frac, s2) = duration_fraction (dropWhile is_digit s);
          in_unit = (\<lambda>c. c \<noteq> CHR ''.'' \<and> \<not> is_digit c)
      in if whole = [] \<and> frac = [] then None
         else case unit_value (takeWhile in_unit s2) of
                None \<Rightarrow> None
              | Some unit \<Rightarrow>
                  let v = dec_value whole * unit + dec_value frac * unit div 10 ^ length frac
                  in if v > 2 ^ 63 then None else Some (v, dropWhile in_unit s2))"

lemma duration_fraction_le: "length (snd (duration_fraction s)) \<le> length s"
  using length_dropWhile_le [of is_digit "tl s"] by (cases s) (auto simp: duration_fraction_def)

lemma duration_group_shorter:
  assumes "duration_group s = Some (v, s')"
  shows "length s' < length s"
proof -
  let ?p = "\<lambda>c. c \<noteq> CHR ''.'' \<and> \<not> is_digit c"
  define s2 where "s2 = snd (duration_fraction (dropWhile is_digit s))"
  have nil: "unit_value [] = None" by (simp add: unit_value_def)
  have u: "unit_value (takeWhile ?p s2) \<noteq> None" and s': "s' = dropWhile ?p s2"
    using assms by (auto simp: duration_group_def Let_def s2_def case_prod_beta split: option.splits if_splits)
  from u nil have "takeWhile ?p s2 \<noteq> []" by metis
  moreover have "length s2 = length (takeWhile ?p s2) + length s'"
    unfolding s' by (metis length_append takeWhile_dropWhile_id)
  ultimately have "length s' < length s2" by simp
  moreover have "length s2 \<le> length (dropWhile is_digit s)" by (simp add: s2_def duration_fraction_le)
  ultimately show ?thesis using length_dropWhile_le [of is_digit s] by linarith
qed

function duration_groups :: "nat \<Rightarrow> string \<Rightarrow> nat option" where
  "duration_groups d s =
     (if s = [] then Some d
      else case duration_group s of
             None \<Rightarrow> None
           | Some (v, s') \<Rightarrow> if d + v > 2 ^ 63 then None else duration_groups (d + v) s')"
  by pat_completeness auto
termination
  by (relation "measure (\<lambda>(d, s). length s)") (auto simp: duration_group_shorter)

declare duration_groups.simps [simp del]

definition ParseDuration :: "string \<Rightarrow> duration option" where
  "ParseDuration s =
     (let (neg, t) = (case s of c # r \<Rightarrow> if c = CHR ''-'' then (True, r) else if c = CHR ''+'' then (False, r) else (False, s)
                      | [] \<Rightarrow> (False, []))
      in if t = ''0'' then Some 0
         else if t = [] then None
         else case duration_groups 0 t of
                None \<Rightarrow> None
              | Some d \<Rightarrow> if neg then Some (- int d) else if d > 2 ^ 63 - 1 then None else Some (int d))"

section \<open>What the control plane publishes\<close>

definition control_topic :: "NodeID \<Rightarrow> string" where
  "control_topic nodeID = ''tartarus:control:'' @ nodeID"

text \<open>The topic the agent's listener subscribes to is spelled out in the agent.\<close>

definition listen_topic :: "NodeID \<Rightarrow> string" where
  "listen_topic nodeID = ''tartarus:control:'' @ nodeID"

lemma topics_agree: "listen_topic nodeID = control_topic nodeID"
  by (simp add: listen_topic_def control_topic_def)

definition with_args :: "string \<Rightarrow> string list \<Rightarrow> string" where
  "with_args msg cmd = foldl (\<lambda>m arg. m @ '' '' @ arg) msg cmd"

definition msg_Kill :: "SandboxID \<Rightarrow> string" where
  "msg_Kill sandboxID = ''KILL '' @ sandboxID"

definition msg_StreamLogs :: "SandboxID \<Rightarrow> bool \<Rightarrow> string" where
  "msg_StreamLogs sandboxID follow = ''LOGS '' @ sandboxID @ '' '' @ (if follow then ''true'' else ''false'')"

definition msg_Hibernate :: "SandboxID \<Rightarrow> string" where
  "msg_Hibernate sandboxID = ''HIBERNATE '' @ sandboxID"

definition msg_Wake :: "SandboxID \<Rightarrow> string" where
  "msg_Wake sandboxID = ''WAKE '' @ sandboxID"

definition msg_Snapshot :: "SandboxID \<Rightarrow> string" where
  "msg_Snapshot sandboxID = ''SNAPSHOT '' @ sandboxID"

definition msg_Exec :: "string \<Rightarrow> SandboxID \<Rightarrow> string list \<Rightarrow> string" where
  "msg_Exec requestID sandboxID cmd = with_args (''EXEC '' @ sandboxID @ '' '' @ requestID) cmd"

definition msg_ExecInteractive :: "string \<Rightarrow> SandboxID \<Rightarrow> string list \<Rightarrow> string" where
  "msg_ExecInteractive requestID sandboxID cmd =
     with_args (''EXEC_INTERACTIVE '' @ sandboxID @ '' '' @ requestID) cmd"

definition Redis_message :: "string \<Rightarrow> SandboxID \<Rightarrow> control_cmd \<Rightarrow> string" where
  "Redis_message requestID sandboxID cmd =
     (case cmd of
        CtlKill \<Rightarrow> msg_Kill sandboxID
      | CtlStreamLogs follow \<Rightarrow> msg_StreamLogs sandboxID follow
      | CtlHibernate \<Rightarrow> msg_Hibernate sandboxID
      | CtlWake \<Rightarrow> msg_Wake sandboxID
      | CtlSnapshot \<Rightarrow> msg_Snapshot sandboxID
      | CtlExec args \<Rightarrow> msg_Exec requestID sandboxID args
      | CtlExecInteractive args \<Rightarrow> msg_ExecInteractive requestID sandboxID args)"

lemmas msg_defs = msg_Kill_def msg_StreamLogs_def msg_Hibernate_def msg_Wake_def msg_Snapshot_def
  msg_Exec_def msg_ExecInteractive_def

definition Redis_list_message :: "string \<Rightarrow> string" where
  "Redis_list_message requestID = ''LIST_SANDBOXES '' @ requestID"

section \<open>What the agent makes of it\<close>

record ControlMessage =
  cm_Type :: string
  cm_SandboxID :: SandboxID
  cm_Args :: "string list"

definition listen_parse :: "string \<Rightarrow> ControlMessage option" where
  "listen_parse payload =
     (case split_on CHR '' '' payload of
        t # i # args \<Rightarrow> Some \<lparr>cm_Type = t, cm_SandboxID = i, cm_Args = args\<rparr>
      | _ \<Rightarrow> None)"

text \<open>The operation a message makes the agent perform; \<open>Ignored\<close> when it only logs.\<close>

datatype agent_action =
    DoKill SandboxID | DoStreamLogs SandboxID bool | DoHibernate SandboxID | DoWake SandboxID
  | DoTerminate SandboxID duration bool | DoSnapshot SandboxID
  | DoExec SandboxID string "string list" | DoExecInteractive SandboxID string "string list"
  | DoListSandboxes string | Ignored

definition handleExec :: "ControlMessage \<Rightarrow> agent_action" where
  "handleExec msg =
     (case cm_Args msg of requestID # c # cmd \<Rightarrow> DoExec (cm_SandboxID msg) requestID (c # cmd) | _ \<Rightarrow> Ignored)"

definition handleExecInteractive :: "ControlMessage \<Rightarrow> agent_action" where
  "handleExecInteractive msg =
     (case cm_Args msg of requestID # c # cmd \<Rightarrow> DoExecInteractive (cm_SandboxID msg) requestID (c # cmd)
      | _ \<Rightarrow> Ignored)"

definition handleListSandboxes :: "ControlMessage \<Rightarrow> agent_action" where
  "handleListSandboxes msg = (case cm_Args msg of requestID # _ \<Rightarrow> DoListSandboxes requestID | [] \<Rightarrow> Ignored)"

definition terminate_action :: "ControlMessage \<Rightarrow> agent_action" where
  "terminate_action msg =
     (let args = cm_Args msg;
          grace = (case args of a # _ \<Rightarrow> (case ParseDuration a of Some d \<Rightarrow> d | None \<Rightarrow> 5 * second) | [] \<Rightarrow> 5 * second);
          checkpoint = (case args of _ # b # _ \<Rightarrow> b = ''true'' | _ \<Rightarrow> False)
      in DoTerminate (cm_SandboxID msg) grace checkpoint)"

definition controlLoop_step :: "bool \<Rightarrow> ControlMessage \<Rightarrow> agent_action" where
  "controlLoop_step hypnos msg =
     (let t = cm_Type msg; i = cm_SandboxID msg
      in if t = ''KILL'' then DoKill i
         else if t = ''LOGS'' then DoStreamLogs i (case cm_Args msg of a # _ \<Rightarrow> a = ''true'' | [] \<Rightarrow> False)
         else if t = ''HIBERNATE'' then (if hypnos then DoHibernate i else Ignored)
         else if t = ''WAKE'' then (if hypnos then DoWake i else Ignored)
         else if t = ''TERMINATE'' then terminate_action msg
         else if t = ''SNAPSHOT'' then DoSnapshot i
         else if t = ''EXEC'' then handleExec msg
         else if t = ''EXEC_INTERACTIVE'' then handleExecInteractive msg
         else if t = ''LIST_SANDBOXES'' then handleListSandboxes msg
         else Ignored)"

text \<open>From the text of a message to the operation.\<close>

definition agent_receives :: "bool \<Rightarrow> string \<Rightarrow> agent_action" where
  "agent_receives hypnos payload =
     (case listen_parse payload of None \<Rightarrow> Ignored | Some msg \<Rightarrow> controlLoop_step hypnos msg)"

text \<open>
  The control plane's question for the sandboxes of a node, answered by the node's agent over
  \<open>runs\<close>, what its runtime lists: only an answer on the topic of the request counts.
\<close>

definition Redis_ListSandboxes ::
    "bool \<Rightarrow> string \<Rightarrow> (NodeID \<Rightarrow> string + SandboxRun list) \<Rightarrow> NodeID \<Rightarrow> string + SandboxRun list" where
  "Redis_ListSandboxes hypnos requestID runs nodeID =
     (case agent_receives hypnos (Redis_list_message requestID) of
        DoListSandboxes rid \<Rightarrow>
          (case runs nodeID of
             Inr rs \<Rightarrow> if rid = requestID then Inr rs else Inl ''timeout waiting for agent response''
           | Inl _ \<Rightarrow> Inl ''timeout waiting for agent response'')
      | _ \<Rightarrow> Inl ''timeout waiting for agent response'')"

section \<open>Splitting and joining\<close>

lemma split_with_args: "split_on CHR '' '' (with_args msg cmd) =
    split_on CHR '' '' msg @ concat (map (split_on CHR '' '') cmd)"
  unfolding with_args_def by (induction cmd arbitrary: msg) (simp_all add: split_on_append)

section \<open>Messages arrive as they were meant\<close>

text \<open>
  The operation a command should become: the words of an executed command are its arguments split
  at their spaces.
\<close>

definition meant :: "bool \<Rightarrow> string \<Rightarrow> SandboxID \<Rightarrow> control_cmd \<Rightarrow> agent_action" where
  "meant hypnos requestID i cmd =
     (case cmd of
        CtlKill \<Rightarrow> DoKill i
      | CtlStreamLogs follow \<Rightarrow> DoStreamLogs i follow
      | CtlHibernate \<Rightarrow> if hypnos then DoHibernate i else Ignored
      | CtlWake \<Rightarrow> if hypnos then DoWake i else Ignored
      | CtlSnapshot \<Rightarrow> DoSnapshot i
      | CtlExec args \<Rightarrow> if args = [] then Ignored else DoExec i requestID (concat (map (split_on CHR '' '') args))
      | CtlExecInteractive args \<Rightarrow>
          if args = [] then Ignored else DoExecInteractive i requestID (concat (map (split_on CHR '' '') args)))"

lemma split_verb:
  "CHR '' '' \<notin> set verb \<Longrightarrow> CHR '' '' \<notin> set i \<Longrightarrow> split_on CHR '' '' (verb @ CHR '' '' # i) = [verb, i]"
  "CHR '' '' \<notin> set verb \<Longrightarrow> CHR '' '' \<notin> set i \<Longrightarrow>
     split_on CHR '' '' (verb @ CHR '' '' # i @ CHR '' '' # t) = verb # i # split_on CHR '' '' t"
  by (simp_all add: split_on_append)

lemma split_args_words: "\<forall>a \<in> set args. CHR '' '' \<notin> set a \<Longrightarrow> concat (map (split_on CHR '' '') args) = args"
  by (induction args) auto

lemma split_args_ne: "args \<noteq> [] \<Longrightarrow> \<exists>c cs. concat (map (split_on CHR '' '') args) = c # cs"
  by (cases args) (auto simp: neq_Nil_conv [symmetric])

lemma receives_simple:
  assumes "CHR '' '' \<notin> set i" "CHR '' '' \<notin> set verb"
  shows "agent_receives h (verb @ CHR '' '' # i) = controlLoop_step h \<lparr>cm_Type = verb, cm_SandboxID = i, cm_Args = []\<rparr>"
  using assms by (simp add: agent_receives_def listen_parse_def split_verb)

lemma receives_args:
  assumes "CHR '' '' \<notin> set i" "CHR '' '' \<notin> set verb" "CHR '' '' \<notin> set a"
  shows "agent_receives h (with_args (verb @ CHR '' '' # i @ CHR '' '' # a) args) =
    controlLoop_step h \<lparr>cm_Type = verb, cm_SandboxID = i, cm_Args = a # concat (map (split_on CHR '' '') args)\<rparr>"
  using assms by (simp add: agent_receives_def listen_parse_def split_with_args split_verb)

text \<open>
  The control channel is faithful. For a sandbox and a request identifier without spaces, the
  agent performs exactly the operation the control plane was asked for, with two limits that are
  part of the statement: an agent without Hypnos ignores hibernate and wake, and the arguments of
  an executed command arrive split at their spaces, so a command arrives unchanged exactly when no
  argument holds a space.
\<close>

theorem control_roundtrip:
  assumes "CHR '' '' \<notin> set i" "CHR '' '' \<notin> set requestID"
  shows "agent_receives hypnos (Redis_message requestID i cmd) = meant hypnos requestID i cmd"
proof (cases cmd)
  case (CtlStreamLogs f)
  then show ?thesis
    using assms receives_args [of i "''LOGS''" "if f then ''true'' else ''false''" hypnos "[]"]
    by (auto simp: Redis_message_def msg_defs meant_def controlLoop_step_def with_args_def)
next
  case (CtlExec args)
  then show ?thesis
    using assms receives_args [of i "''EXEC''" requestID hypnos args] split_args_ne [of args]
    by (auto simp: Redis_message_def msg_defs meant_def controlLoop_step_def handleExec_def)
next
  case (CtlExecInteractive args)
  then show ?thesis
    using assms receives_args [of i "''EXEC_INTERACTIVE''" requestID hypnos args] split_args_ne [of args]
    by (auto simp: Redis_message_def msg_defs meant_def controlLoop_step_def handleExecInteractive_def)
qed (use assms receives_simple [of i "''KILL''" hypnos] receives_simple [of i "''HIBERNATE''" hypnos]
       receives_simple [of i "''WAKE''" hypnos] receives_simple [of i "''SNAPSHOT''" hypnos]
     in \<open>simp_all add: Redis_message_def msg_defs meant_def controlLoop_step_def\<close>)

theorem control_roundtrip_witness:
  "agent_receives False (Redis_message ''r1'' ''sb-1'' (CtlExec [''sh'', ''-c'', ''ls /tmp''])) =
     DoExec ''sb-1'' ''r1'' [''sh'', ''-c'', ''ls'', ''/tmp'']"
  using control_roundtrip [of "''sb-1''" "''r1''" False "CtlExec [''sh'', ''-c'', ''ls /tmp'']"]
  by (simp add: meant_def)

lemma exec_arguments_unchanged:
  "concat (map (split_on CHR '' '') args) = args \<longleftrightarrow> (\<forall>a \<in> set args. CHR '' '' \<notin> set a)"
proof
  have words: "CHR '' '' \<notin> set w" if "w \<in> set (split_on CHR '' '' s)" for w s
    using that by (induction s arbitrary: w) (auto split: if_splits list.splits)
  assume "concat (map (split_on CHR '' '') args) = args"
  then have same: "set (concat (map (split_on CHR '' '') args)) = set args" by (rule arg_cong)
  show "\<forall>a \<in> set args. CHR '' '' \<notin> set a"
  proof
    fix a assume "a \<in> set args"
    then have "a \<in> set (concat (map (split_on CHR '' '') args))" unfolding same .
    then show "CHR '' '' \<notin> set a" using words by auto
  qed
qed (rule split_args_words)

text \<open>
  A bare number of seconds, the documented format of the grace period, has no unit and is not
  understood: the default of five seconds stays.
\<close>

lemma bare_seconds_ignored:
  assumes "a \<noteq> []" "list_all is_digit a" "a \<noteq> ''0''"
  shows "terminate_action \<lparr>cm_Type = ''TERMINATE'', cm_SandboxID = i, cm_Args = [a]\<rparr> = DoTerminate i (5 * second) False"
proof -
  have d: "\<forall>c \<in> set a. is_digit c" using assms(2) by (simp add: list_all_iff)
  have "duration_group a = None"
    using d by (simp add: duration_group_def duration_fraction_def unit_value_def Let_def dropWhile_eq_Nil_conv [THEN iffD2])
  then have "duration_groups 0 a = None" using assms(1) by (simp add: duration_groups.simps)
  moreover have "\<not> is_digit CHR ''-''" "\<not> is_digit CHR ''+''" by (simp_all add: is_digit_def)
  ultimately have "ParseDuration a = None"
    using assms d by (cases a) (auto simp: ParseDuration_def)
  then show ?thesis by (simp add: terminate_action_def)
qed

section \<open>The question nobody answers\<close>

lemma list_request_ignored:
  "CHR '' '' \<notin> set requestID \<Longrightarrow> agent_receives hypnos (Redis_list_message requestID) = Ignored"
  using receives_simple [of requestID "''LIST_SANDBOXES''" hypnos]
  by (simp add: Redis_list_message_def controlLoop_step_def handleListSandboxes_def)

text \<open>
  Over the Redis control plane, reconciliation never learns anything. The request for a node's
  sandboxes carries its identifier where the agent reads the sandbox identifier, the agent finds no
  arguments and does not answer, so every question times out and the record of every run stays as
  it is, whatever the nodes run.
\<close>

theorem redis_reconcile_void:
  assumes "CHR '' '' \<notin> set requestID"
    and "Reconcile (memory_manager st srt now ctx al ph ctl
           (\<lambda>_. Redis_ListSandboxes hypnos requestID runs)) w = (res, w')"
  shows "res = None \<and> GetRun (c_registry w') i = GetRun (c_registry w) i \<and>
    Redis_ListSandboxes hypnos requestID runs n = Inl ''timeout waiting for agent response''"
proof -
  have silent: "Redis_ListSandboxes hypnos requestID runs n = Inl ''timeout waiting for agent response''" for n
    using list_request_ignored [OF assms(1), of hypnos] by (simp add: Redis_ListSandboxes_def)
  have none: "reported_runs (Redis_ListSandboxes hypnos requestID runs) ns = []" for ns
    by (simp add: reported_runs_def silent)
  show ?thesis
    using assms(2) silent by (auto simp: Reconcile_def reconcile_nodes_eq none GetRun_ListNodes)
qed

definition silent_manager :: "cluster Manager" where
  "silent_manager = memory_manager [] insertion_sort 0
      \<lparr>jc_uuid = [], jc_now = 0, jc_RFC3339 = [], jc_identity = None\<rparr> [] None Noop_Control
      (\<lambda>_. Redis_ListSandboxes True ''4f1c'' demo_answer)"

theorem redis_reconcile_void_witness:
  "GetRun (c_registry (snd (Reconcile silent_manager demo_cluster))) ''s7'' = Inl ErrRunNotFound \<and>
   Redis_ListSandboxes True ''4f1c'' demo_answer ''n1'' = Inl ''timeout waiting for agent response''"
proof -
  have "CHR '' '' \<notin> set ''4f1c''" by simp
  note void = redis_reconcile_void [OF this surjective_pairing, where runs = demo_answer and hypnos = True
      and i = "''s7''" and n = "''n1''" and w = demo_cluster and st = "[]" and srt = insertion_sort and now = 0
      and ctx = "\<lparr>jc_uuid = [], jc_now = 0, jc_RFC3339 = [], jc_identity = None\<rparr>" and al = "[]" and ph = None
      and ctl = Noop_Control, folded silent_manager_def]
  have "GetRun (c_registry demo_cluster) ''s7'' = Inl ErrRunNotFound" by code_simp
  with void show ?thesis by simp
qed

end
