(* ===== verification/Persephone.thy ===== *)
theory Persephone
  imports Olympus
begin

text \<open>
  Seasonal scaling (\<open>src/pkg/persephone\<close>) and the scaler of the control plane (\<open>src/pkg/olympus/scaler.go\<close>):
  seasons with their schedules (\<open>seasons.go\<close>, \<open>scheduler.go\<close>), the controller that hibernates idle
  sandboxes (\<open>hibernation.go\<close>), the history of usage records (\<open>storage.go\<close>, the local store,
  \<open>ingestor.go\<close>) and the tick of the scaler, which learns, changes the season and fills the warm pools.

  A location is its offset from UTC at each time; the hour and the weekday are computed (Go's zero time
  is a Monday). A floating-point number is kept as its bits and no arithmetic is done on it here: forecasts,
  capacity recommendations and budgets are in the theory Demand, and the utilisation that a tick records
  is an argument. The text of the history file is the list of records it holds, or garbage. What can fail is an
  argument. \<open>sort.Slice\<close> is an argument too. The resource mix and the budget of a season, which only such
  arithmetic reads, are left out.
\<close>

section \<open>Seasons\<close>

type_synonym float64 = "64 word"

record TimeRange =
  tg_Start :: go_time
  tg_End :: go_time

record SeasonSchedule =
  ss_StartCron :: string
  ss_EndCron :: string
  ss_TimeRanges :: "TimeRange list"
  ss_Timezone :: string

record PrewarmConfig =
  pw_Templates :: "string list"
  pw_PoolSize :: int
  pw_LeadTime :: duration

datatype WakeTrigger = WakeTriggerDemandSpike | WakeTriggerScheduled | WakeTriggerManual | WakeTriggerQueueDepth | WakeTriggerOther string

record HibernationConfig =
  hc_Enabled :: bool
  hc_IdleTimeout :: duration
  hc_ScheduledHibernation :: bool
  hc_HibernationStart :: string
  hc_HibernationEnd :: string
  hc_MinWarmPool :: int
  hc_WakeTriggers :: "WakeTrigger list"
  hc_WakeLeadTime :: duration

record Season =
  sn_ID :: string
  sn_Name :: string
  sn_Description :: string
  sn_Schedule :: SeasonSchedule
  sn_MinNodes :: int
  sn_MaxNodes :: int
  sn_TargetUtilization :: float64
  sn_Prewarming :: PrewarmConfig
  sn_Hibernation :: HibernationConfig

record UsageRecord =
  ur_Timestamp :: go_time
  ur_ActiveVMs :: int
  ur_QueueDepth :: int
  ur_CPUUtil :: float64
  ur_MemoryUtil :: float64
  ur_LaunchCount :: int
  ur_ErrorCount :: int

definition zero_Schedule :: SeasonSchedule where
  "zero_Schedule = \<lparr>ss_StartCron = [], ss_EndCron = [], ss_TimeRanges = [], ss_Timezone = []\<rparr>"

definition zero_Hibernation :: HibernationConfig where
  "zero_Hibernation = \<lparr>hc_Enabled = False, hc_IdleTimeout = 0, hc_ScheduledHibernation = False, hc_HibernationStart = [],
     hc_HibernationEnd = [], hc_MinWarmPool = 0, hc_WakeTriggers = [], hc_WakeLeadTime = 0\<rparr>"

definition zero_Season :: Season where
  "zero_Season = \<lparr>sn_ID = [], sn_Name = [], sn_Description = [], sn_Schedule = zero_Schedule, sn_MinNodes = 0, sn_MaxNodes = 0,
     sn_TargetUtilization = 0, sn_Prewarming = \<lparr>pw_Templates = [], pw_PoolSize = 0, pw_LeadTime = 0\<rparr>, sn_Hibernation = zero_Hibernation\<rparr>"

text \<open>The seasons the server defines (0.7, 0.8 and 0.5 as bits).\<close>

definition SeasonSpring :: Season where
  "SeasonSpring = zero_Season\<lparr>sn_ID := ''spring'', sn_Name := ''Spring Growth'', sn_Description := ''Gradual scaling up as demand increases'',
     sn_Schedule := zero_Schedule\<lparr>ss_StartCron := ''0 6 * * *'', ss_EndCron := ''0 18 * * *''\<rparr>, sn_MinNodes := 5, sn_MaxNodes := 50,
     sn_TargetUtilization := 0x3FE6666666666666,
     sn_Prewarming := \<lparr>pw_Templates = [''python-ds'', ''node-18''], pw_PoolSize = 10, pw_LeadTime = 30 * minute\<rparr>\<rparr>"

definition SeasonSummer :: Season where
  "SeasonSummer = zero_Season\<lparr>sn_ID := ''summer'', sn_Name := ''Peak Summer'', sn_Description := ''Maximum capacity for peak demand'',
     sn_MinNodes := 20, sn_MaxNodes := 100, sn_TargetUtilization := 0x3FE999999999999A\<rparr>"

definition SeasonAutumn :: Season where
  "SeasonAutumn = zero_Season\<lparr>sn_ID := ''autumn'', sn_Name := ''Autumn Harvest'', sn_Description := ''Gradual wind-down from peak'',
     sn_MinNodes := 10, sn_MaxNodes := 60, sn_TargetUtilization := 0x3FE6666666666666\<rparr>"

definition SeasonWinter :: Season where
  "SeasonWinter = zero_Season\<lparr>sn_ID := ''winter'', sn_Name := ''Winter Rest'', sn_Description := ''Minimal capacity during low demand'',
     sn_MinNodes := 3, sn_MaxNodes := 20, sn_TargetUtilization := 0x3FE0000000000000\<rparr>"

text \<open>The comparison \<open>x > 0\<close> on the bits of a number: no sign, not zero, not a NaN.\<close>

definition float_positive :: "float64 \<Rightarrow> bool" where
  "float_positive x \<longleftrightarrow> 0 < x \<and> x \<le> 0x7FF0000000000000"

section \<open>The cron scheduler\<close>

type_synonym location = "go_time \<Rightarrow> duration"

definition UTC :: location where "UTC t = 0"

definition Hour :: "location \<Rightarrow> go_time \<Rightarrow> int" where
  "Hour loc t = (t + loc t) div hour mod 24"

definition Weekday :: "location \<Rightarrow> go_time \<Rightarrow> int" where
  "Weekday loc t = ((t + loc t) div (24 * hour) + 1) mod 7"

text \<open>\<open>fmt.Sscanf\<close> with \<open>%d\<close> on a word: the number it begins with; the variable stays 0 on an error.\<close>

definition scan_int :: "string \<Rightarrow> int" where
  "scan_int s =
     (let neg = (s \<noteq> [] \<and> hd s = CHR ''-'');
          digits = takeWhile is_digit (if s \<noteq> [] \<and> hd s \<in> {CHR ''-'', CHR ''+''} then tl s else s);
          v = (if neg then - int (dec_value digits) else int (dec_value digits))
      in if digits = [] \<or> \<not> in_int64 v then 0 else v)"

definition extractHour :: "string \<Rightarrow> int" where
  "extractHour cronExpr =
     (let parts = str_fields cronExpr in if length parts < 2 then 0 else scan_int (parts ! 1))"

definition dayMap :: "(string, int) gomap" where
  "dayMap = [(''SUN'', 0), (''MON'', 1), (''TUE'', 2), (''WED'', 3), (''THU'', 4), (''FRI'', 5), (''SAT'', 6)]"

definition inWeekdayRange :: "string \<Rightarrow> int \<Rightarrow> bool" where
  "inWeekdayRange pattern weekday =
     (case split_on CHR ''-'' pattern of
        [a, b] \<Rightarrow>
          (case (get dayMap (TrimSpace a), get dayMap (TrimSpace b)) of
             (Some start, Some end) \<Rightarrow>
               if start \<le> end then weekday \<ge> start \<and> weekday \<le> end else weekday \<ge> start \<or> weekday \<le> end
           | _ \<Rightarrow> False)
      | _ \<Rightarrow> False)"

definition matchesWeekday :: "string \<Rightarrow> int \<Rightarrow> bool" where
  "matchesWeekday pattern weekday =
     (let pattern = ToUpper pattern
      in if CHR ''-'' \<in> set pattern then inWeekdayRange pattern weekday
         else case get dayMap pattern of None \<Rightarrow> False | Some targetDay \<Rightarrow> weekday = targetDay)"

definition matchesCronSchedule :: "location \<Rightarrow> Season \<Rightarrow> go_time \<Rightarrow> bool" where
  "matchesCronSchedule loc season t =
     (let startHour = extractHour (ss_StartCron (sn_Schedule season));
          endHour = extractHour (ss_EndCron (sn_Schedule season));
          startParts = str_fields (ss_StartCron (sn_Schedule season));
          currentHour = Hour loc t
      in if length startParts \<ge> 5 \<and> startParts ! 4 \<noteq> ''*'' \<and> \<not> matchesWeekday (startParts ! 4) (Weekday loc t) then False
         else if startHour \<le> endHour then currentHour \<ge> startHour \<and> currentHour < endHour
         else currentHour \<ge> startHour \<or> currentHour < endHour)"

text \<open>The single instant a cron expression names; the minute, the hour and the weekday are looked at.\<close>

definition Minute :: "location \<Rightarrow> go_time \<Rightarrow> int" where
  "Minute loc t = (t + loc t) div minute mod 60"

definition matchCron :: "location \<Rightarrow> string \<Rightarrow> go_time \<Rightarrow> string + bool" where
  "matchCron loc cronExpr t =
     (let parts = str_fields cronExpr
      in if length parts \<noteq> 5 then Inl (''invalid cron expression: '' @ cronExpr)
         else if parts ! 0 \<noteq> ''*'' \<and> Minute loc t \<noteq> scan_int (parts ! 0) then Inr False
         else if parts ! 1 \<noteq> ''*'' \<and> Hour loc t \<noteq> scan_int (parts ! 1) then Inr False
         else if parts ! 4 \<noteq> ''*'' \<and> \<not> matchesWeekday (parts ! 4) (Weekday loc t) then Inr False
         else Inr True)"

definition matchesTimeRange :: "Season \<Rightarrow> go_time \<Rightarrow> bool" where
  "matchesTimeRange season t = list_ex (\<lambda>tr. t \<ge> tg_Start tr \<and> t \<le> tg_End tr) (ss_TimeRanges (sn_Schedule season))"

definition ShouldActivate :: "location \<Rightarrow> Season \<Rightarrow> go_time \<Rightarrow> bool" where
  "ShouldActivate loc season t =
     (if ss_StartCron (sn_Schedule season) \<noteq> [] \<and> ss_EndCron (sn_Schedule season) \<noteq> [] then matchesCronSchedule loc season t
      else if ss_TimeRanges (sn_Schedule season) \<noteq> [] then matchesTimeRange season t
      else False)"

section \<open>Automatic seasons\<close>

record SeasonActivator =
  sa_seasons :: "(string, Season) gomap"
  sa_current :: "Season option"

definition RegisterSeason :: "Season \<Rightarrow> SeasonActivator \<Rightarrow> SeasonActivator" where
  "RegisterSeason season a = a\<lparr>sa_seasons := put (sa_seasons a) (sn_ID season) season\<rparr>"

definition hasPriority :: "Season \<Rightarrow> Season \<Rightarrow> bool" where
  "hasPriority s1 s2 \<longleftrightarrow> ss_TimeRanges (sn_Schedule s1) \<noteq> [] \<and> ss_TimeRanges (sn_Schedule s2) = []"

fun best_season :: "location \<Rightarrow> go_time \<Rightarrow> Season list \<Rightarrow> Season option \<Rightarrow> Season option" where
  "best_season loc t [] bestMatch = bestMatch"
| "best_season loc t (season # seasons) bestMatch =
     best_season loc t seasons
       (if ShouldActivate loc season t then
          (case bestMatch of None \<Rightarrow> Some season | Some b \<Rightarrow> if hasPriority season b then Some season else bestMatch)
        else bestMatch)"

text \<open>The result, the activator, and whether the hibernation controller is started on the new season.\<close>

definition EvaluateSeasons :: "location \<Rightarrow> go_time \<Rightarrow> SeasonActivator \<Rightarrow> Season option \<times> SeasonActivator \<times> bool" where
  "EvaluateSeasons loc t a =
     (case best_season loc t (map snd (sa_seasons a)) None of
        None \<Rightarrow> (sa_current a, a, False)
      | Some best \<Rightarrow>
          if (case sa_current a of None \<Rightarrow> True | Some c \<Rightarrow> sn_ID c \<noteq> sn_ID best)
          then (Some best, a\<lparr>sa_current := Some best\<rparr>, hc_Enabled (sn_Hibernation best))
          else (sa_current a, a, False))"

section \<open>Hibernation of idle sandboxes\<close>

record SandboxActivity =
  ac_ID :: SandboxID
  ac_LastActivity :: go_time
  ac_IsIdle :: bool

text \<open>
  The hibernation manager and the lister, either of which may be nil. A record of a sleeping sandbox is
  \<open>Some i\<close> when it has the method \<open>GetSandboxID\<close>, and \<open>None\<close> otherwise.
\<close>

record 'h hypnos_ops =
  ho_Sleep :: "SandboxID \<Rightarrow> 'h \<Rightarrow> string option \<times> 'h"
  ho_Wake :: "SandboxID \<Rightarrow> 'h \<Rightarrow> string option \<times> 'h"
  ho_List :: "'h \<Rightarrow> SandboxID option list"

record 'h HibernationController =
  ctl_hypnos :: "'h hypnos_ops option"
  ctl_lister :: "('h \<Rightarrow> string + SandboxActivity list) option"
  ctl_scheduler :: "location option"

text \<open>The loop both kinds of hibernation run: the sandboxes put to sleep, the sandboxes left warm.\<close>

fun hibernate_loop ::
    "'h hypnos_ops \<Rightarrow> (SandboxActivity \<Rightarrow> bool) \<Rightarrow> int \<Rightarrow> SandboxActivity list \<Rightarrow> int \<Rightarrow> 'h \<Rightarrow> SandboxID list \<times> 'h" where
  "hibernate_loop ops due minWarm [] warm h = ([], h)"
| "hibernate_loop ops due minWarm (a # as) warm h =
     (if warm \<le> minWarm then ([], h)
      else if due a then
        (case ho_Sleep ops (ac_ID a) h of
           (Some _, h1) \<Rightarrow> hibernate_loop ops due minWarm as warm h1
         | (None, h1) \<Rightarrow> (case hibernate_loop ops due minWarm as (warm - 1) h1 of (slept, h2) \<Rightarrow> (ac_ID a # slept, h2)))
      else hibernate_loop ops due minWarm as warm h)"

definition hibernateIdle ::
    "'h HibernationController \<Rightarrow> go_time \<Rightarrow> duration \<Rightarrow> int \<Rightarrow> 'h \<Rightarrow> (string + SandboxID list) \<times> 'h" where
  "hibernateIdle c now idleThreshold minWarm h =
     (case (ctl_lister c, ctl_hypnos c) of
        (Some lister, Some ops) \<Rightarrow>
          (case lister h of
             Inl err \<Rightarrow> (Inl (''failed to list active sandboxes: '' @ err), h)
           | Inr activities \<Rightarrow>
               (case hibernate_loop ops (\<lambda>a. ac_IsIdle a \<and> now - ac_LastActivity a \<ge> idleThreshold) minWarm activities
                  (int (length (filter (\<lambda>a. \<not> ac_IsIdle a) activities))) h of
                  (slept, h') \<Rightarrow> (Inr slept, h')))
      | _ \<Rightarrow> (Inr [], h))"

definition hibernateForSchedule :: "'h HibernationController \<Rightarrow> go_time \<Rightarrow> HibernationConfig \<Rightarrow> 'h \<Rightarrow> SandboxID list \<times> 'h" where
  "hibernateForSchedule c now config h =
     (case (ctl_lister c, ctl_hypnos c) of
        (Some lister, Some ops) \<Rightarrow>
          (case lister h of
             Inl _ \<Rightarrow> ([], h)
           | Inr activities \<Rightarrow>
               hibernate_loop ops (\<lambda>a. ac_IsIdle a \<and> now - ac_LastActivity a > 10 * second) (hc_MinWarmPool config) activities
                 (int (length activities)) h)
      | _ \<Rightarrow> ([], h))"

fun wake_loop :: "'h hypnos_ops \<Rightarrow> int \<Rightarrow> SandboxID option list \<Rightarrow> 'h \<Rightarrow> SandboxID list \<times> 'h" where
  "wake_loop ops n [] h = ([], h)"
| "wake_loop ops n (record # records) h =
     (if n \<le> 0 then ([], h)
      else case record of
             None \<Rightarrow> wake_loop ops n records h
           | Some i \<Rightarrow>
               (case ho_Wake ops i h of
                  (Some _, h1) \<Rightarrow> wake_loop ops n records h1
                | (None, h1) \<Rightarrow> (case wake_loop ops (n - 1) records h1 of (woken, h2) \<Rightarrow> (i # woken, h2))))"

definition WakeForDemand :: "'h HibernationController \<Rightarrow> int \<Rightarrow> 'h \<Rightarrow> SandboxID list \<times> 'h" where
  "WakeForDemand c n h =
     (case ctl_hypnos c of
        None \<Rightarrow> ([], h)
      | Some ops \<Rightarrow> if n \<le> 0 then ([], h) else wake_loop ops n (ho_List ops h) h)"

definition IsInHibernationWindow :: "'h HibernationController \<Rightarrow> HibernationConfig \<Rightarrow> go_time \<Rightarrow> bool" where
  "IsInHibernationWindow c config t =
     (if \<not> hc_ScheduledHibernation config then False
      else if hc_HibernationStart config = [] \<or> hc_HibernationEnd config = [] then False
      else case ctl_scheduler c of
             None \<Rightarrow> False
           | Some loc \<Rightarrow>
               ShouldActivate loc (zero_Season\<lparr>sn_Schedule :=
                 zero_Schedule\<lparr>ss_StartCron := hc_HibernationStart config, ss_EndCron := hc_HibernationEnd config\<rparr>\<rparr>) t)"

text \<open>What the recommendation of the scaler lacks of nodes is an argument, \<open>None\<close> without a scaler or a season. The
  controller reads the sleeping sandboxes without asking whether it has a hibernation manager: \<open>None\<close> is the panic.\<close>

definition checkScheduledWakeTrigger ::
    "'h HibernationController \<Rightarrow> HibernationConfig \<Rightarrow> go_time \<Rightarrow> 'h \<Rightarrow> (SandboxID list \<times> 'h) option" where
  "checkScheduledWakeTrigger c config now h =
     (if hc_WakeLeadTime config \<le> 0 \<or> \<not> IsInHibernationWindow c config now then Some ([], h)
      else if \<not> IsInHibernationWindow c config (now + hc_WakeLeadTime config) then
        (case ctl_hypnos c of
           None \<Rightarrow> None
         | Some ops \<Rightarrow> Some (WakeForDemand c (int (length (ho_List ops h))) h))
      else Some ([], h))"

definition checkDemandSpikeTrigger :: "'h HibernationController \<Rightarrow> (int \<times> int) option \<Rightarrow> 'h \<Rightarrow> SandboxID list \<times> 'h" where
  "checkDemandSpikeTrigger c recommendation h =
     (case recommendation of
        None \<Rightarrow> ([], h)
      | Some (current, recommended) \<Rightarrow> if recommended > current then WakeForDemand c (recommended - current) h else ([], h))"

fun checkWakeTriggers ::
    "'h HibernationController \<Rightarrow> (int \<times> int) option \<Rightarrow> HibernationConfig \<Rightarrow> go_time \<Rightarrow> WakeTrigger list \<Rightarrow> 'h
     \<Rightarrow> (SandboxID list \<times> 'h) option" where
  "checkWakeTriggers c recommendation config now [] h = Some ([], h)"
| "checkWakeTriggers c recommendation config now (trigger # triggers) h =
     (case (case trigger of
              WakeTriggerDemandSpike \<Rightarrow> Some (checkDemandSpikeTrigger c recommendation h)
            | WakeTriggerScheduled \<Rightarrow> checkScheduledWakeTrigger c config now h
            | _ \<Rightarrow> Some ([], h)) of
        None \<Rightarrow> None
      | Some (woken, h1) \<Rightarrow>
          (case checkWakeTriggers c recommendation config now triggers h1 of
             None \<Rightarrow> None
           | Some (more_woken, h2) \<Rightarrow> Some (woken @ more_woken, h2)))"

text \<open>One evaluation: what it puts to sleep, what it wakes.\<close>

definition evaluate ::
    "'h HibernationController \<Rightarrow> (int \<times> int) option \<Rightarrow> HibernationConfig option \<Rightarrow> go_time \<Rightarrow> 'h
     \<Rightarrow> (SandboxID list \<times> SandboxID list \<times> 'h) option" where
  "evaluate c recommendation config now h =
     (case config of
        None \<Rightarrow> Some ([], [], h)
      | Some cfg \<Rightarrow>
          if \<not> hc_Enabled cfg then Some ([], [], h)
          else
            let (slept, h1) =
                  (if IsInHibernationWindow c cfg now then hibernateForSchedule c now cfg h
                   else if hc_IdleTimeout cfg > 0 then
                     (case hibernateIdle c now (hc_IdleTimeout cfg) 0 h of
                        (Inr slept, h1) \<Rightarrow> (slept, h1)
                      | (Inl _, h1) \<Rightarrow> ([], h1))
                   else ([], h))
            in case checkWakeTriggers c recommendation cfg now (hc_WakeTriggers cfg) h1 of
                 None \<Rightarrow> None
               | Some (woken, h2) \<Rightarrow> Some (slept, woken, h2))"

section \<open>The history of usage\<close>

text \<open>The file of the local store. A write that fails may leave something else behind, which is an argument.\<close>

datatype history_file = NoFile | Unreadable string | Records "UsageRecord list"

definition earlier :: "UsageRecord \<Rightarrow> UsageRecord \<Rightarrow> bool" where
  "earlier a b \<longleftrightarrow> ur_Timestamp a < ur_Timestamp b"

definition saveToFile :: "(string \<times> history_file) option \<Rightarrow> UsageRecord list \<Rightarrow> string option \<times> history_file" where
  "saveToFile failure records =
     (case failure of Some (err, left) \<Rightarrow> (Some err, left) | None \<Rightarrow> (None, Records records))"

definition history_Save ::
    "(UsageRecord list \<Rightarrow> UsageRecord list) \<Rightarrow> (string \<times> history_file) option \<Rightarrow> UsageRecord list \<Rightarrow> history_file
     \<Rightarrow> string option \<times> history_file" where
  "history_Save sortSlice failure records f =
     (case f of
        Unreadable err \<Rightarrow> (Some err, f)
      | NoFile \<Rightarrow> saveToFile failure (sortSlice records)
      | Records existing \<Rightarrow> saveToFile failure (sortSlice (existing @ records)))"

definition history_Load :: "go_time \<Rightarrow> go_time \<Rightarrow> history_file \<Rightarrow> string + UsageRecord list" where
  "history_Load start end f =
     (case f of
        NoFile \<Rightarrow> Inr []
      | Unreadable err \<Rightarrow> Inl err
      | Records all \<Rightarrow> Inr (filter (\<lambda>r. ur_Timestamp r \<ge> start \<and> ur_Timestamp r \<le> end) all))"

text \<open>A negative count slices out of range: the panic is \<open>None\<close>.\<close>

definition QueryRecent :: "int \<Rightarrow> history_file \<Rightarrow> (string + UsageRecord list) option" where
  "QueryRecent n f =
     (case f of
        NoFile \<Rightarrow> Some (Inr [])
      | Unreadable err \<Rightarrow> Some (Inl err)
      | Records all \<Rightarrow>
          if int (length all) \<le> n then Some (Inr all)
          else if n < 0 then None
          else Some (Inr (drop (length all - nat n) all)))"

definition history_Prune :: "(string \<times> history_file) option \<Rightarrow> go_time \<Rightarrow> history_file \<Rightarrow> string option \<times> history_file" where
  "history_Prune failure cutoff f =
     (case f of
        NoFile \<Rightarrow> (None, f)
      | Unreadable err \<Rightarrow> (Some err, f)
      | Records all \<Rightarrow> saveToFile failure (filter (\<lambda>r. ur_Timestamp r > cutoff) all))"

text \<open>One round of the ingestor, with what the collector answers.\<close>

definition ingest ::
    "(UsageRecord list \<Rightarrow> UsageRecord list) \<Rightarrow> (string \<times> history_file) option \<Rightarrow> string + UsageRecord list \<Rightarrow> history_file
     \<Rightarrow> string option \<times> history_file" where
  "ingest sortSlice failure collected f =
     (case collected of
        Inl err \<Rightarrow> (Some (''failed to collect metrics: '' @ err), f)
      | Inr records \<Rightarrow>
          if length records = 0 then (None, f)
          else case history_Save sortSlice failure records f of
                 (Some err, f') \<Rightarrow> (Some (''failed to save metrics: '' @ err), f')
               | (None, f') \<Rightarrow> (None, f'))"

section \<open>The seasonal scaler\<close>

record BasicSeasonalScaler =
  bs_seasons :: "(string, Season) gomap"
  bs_current :: "Season option"
  bs_history :: "UsageRecord list"
  bs_store :: "history_file option"

definition NewBasicSeasonalScaler :: "history_file option \<Rightarrow> BasicSeasonalScaler" where
  "NewBasicSeasonalScaler store = \<lparr>bs_seasons = [], bs_current = None, bs_history = [], bs_store = store\<rparr>"

definition DefineSeason :: "Season \<Rightarrow> BasicSeasonalScaler \<Rightarrow> BasicSeasonalScaler" where
  "DefineSeason season s = s\<lparr>bs_seasons := put (bs_seasons s) (sn_ID season) season\<rparr>"

definition ApplySeason :: "string \<Rightarrow> BasicSeasonalScaler \<Rightarrow> BasicSeasonalScaler" where
  "ApplySeason seasonID s =
     (case get (bs_seasons s) seasonID of Some season \<Rightarrow> s\<lparr>bs_current := Some season\<rparr> | None \<Rightarrow> s)"

definition last_10000 :: "'a list \<Rightarrow> 'a list" where
  "last_10000 xs = (if length xs > 10000 then drop (length xs - 10000) xs else xs)"

definition Learn ::
    "(UsageRecord list \<Rightarrow> UsageRecord list) \<Rightarrow> (string \<times> history_file) option \<Rightarrow> UsageRecord list \<Rightarrow> BasicSeasonalScaler
     \<Rightarrow> BasicSeasonalScaler" where
  "Learn sortSlice failure history s =
     s\<lparr>bs_store := map_option (\<lambda>f. snd (history_Save sortSlice failure history f)) (bs_store s),
       bs_history := last_10000 (bs_history s @ history)\<rparr>"

definition LoadHistory :: "go_time \<Rightarrow> go_time \<Rightarrow> BasicSeasonalScaler \<Rightarrow> string option \<times> BasicSeasonalScaler" where
  "LoadHistory start end s =
     (case bs_store s of
        None \<Rightarrow> (None, s)
      | Some f \<Rightarrow>
          (case history_Load start end f of
             Inl err \<Rightarrow> (Some err, s)
           | Inr records \<Rightarrow> (None, s\<lparr>bs_history := last_10000 records\<rparr>)))"

definition PruneHistory :: "(string \<times> history_file) option \<Rightarrow> go_time \<Rightarrow> BasicSeasonalScaler \<Rightarrow> string option \<times> BasicSeasonalScaler" where
  "PruneHistory failure cutoff s =
     (case bs_store s of
        None \<Rightarrow> (None, s)
      | Some f \<Rightarrow> (case history_Prune failure cutoff f of (err, f') \<Rightarrow> (err, s\<lparr>bs_store := Some f'\<rparr>)))"

section \<open>The tick of the control plane's scaler\<close>

record Scaler =
  sc_Persephone :: BasicSeasonalScaler
  sc_seasonActivator :: SeasonActivator

text \<open>What a tick reads of the outside: the length of the queue, the mean utilisation of the nodes, fresh
  identifiers for each warm sandbox, the clock, and a failure of the history store.\<close>

record 'w tick_env =
  tk_queueLen :: "'w \<Rightarrow> int"
  tk_util :: "NodeStatus list \<Rightarrow> float64 \<times> float64"
  tk_uuids :: "nat \<Rightarrow> nat \<Rightarrow> string"
  tk_clk :: "nat \<Rightarrow> go_time"
  tk_now :: go_time
  tk_seasonTime :: go_time
  tk_failure :: "(string \<times> history_file) option"

definition usage_record :: "'w tick_env \<Rightarrow> SandboxRun list \<Rightarrow> NodeStatus list \<Rightarrow> 'w \<Rightarrow> UsageRecord" where
  "usage_record env runs nodes w =
     \<lparr>ur_Timestamp = tk_now env,
      ur_ActiveVMs = int (length (filter (\<lambda>r. run_Status r \<in> {RunStatusRunning, RunStatusScheduled}) runs)),
      ur_QueueDepth = tk_queueLen env w, ur_CPUUtil = fst (tk_util env nodes), ur_MemoryUtil = snd (tk_util env nodes),
      ur_LaunchCount = int (length (filter (\<lambda>r. run_Status r = RunStatusPending) runs)),
      ur_ErrorCount = int (length (filter (\<lambda>r. run_Status r = RunStatusFailed) runs))\<rparr>"

fun warm_pools :: "'w Manager \<Rightarrow> 'w tick_env \<Rightarrow> string list \<Rightarrow> int \<Rightarrow> 'w \<Rightarrow> 'w" where
  "warm_pools m env [] poolSize w = w"
| "warm_pools m env (tplID # tpls) poolSize w =
     warm_pools m env tpls poolSize (snd (ensureWarmPool m (tk_uuids env (length tpls)) (tk_clk env) tplID poolSize w))"

definition change_season :: "go_time \<Rightarrow> Scaler \<Rightarrow> Scaler" where
  "change_season now s =
     (case EvaluateSeasons UTC now (sc_seasonActivator s) of
        (None, a, _) \<Rightarrow> s\<lparr>sc_seasonActivator := a\<rparr>
      | (Some season, a, _) \<Rightarrow>
          let s = s\<lparr>sc_seasonActivator := a\<rparr>
          in if (case bs_current (sc_Persephone s) of None \<Rightarrow> True | Some c \<Rightarrow> sn_ID c \<noteq> sn_ID season)
             then s\<lparr>sc_Persephone := ApplySeason (sn_ID season) (sc_Persephone s)\<rparr> else s)"

definition tick ::
    "'w Manager \<Rightarrow> 'w tick_env \<Rightarrow> (UsageRecord list \<Rightarrow> UsageRecord list) \<Rightarrow> Scaler \<Rightarrow> 'w \<Rightarrow> olympus_error option \<times> Scaler \<times> 'w" where
  "tick m env sortSlice s w =
     (case m_ListRuns m w of
        Inl err \<Rightarrow> (Some (ListRunsFailed err), s, w)
      | Inr runs \<Rightarrow>
          (case m_ListNodes m w of
             (listed, w1) \<Rightarrow>
               let nodes = (case listed of Inr ns \<Rightarrow> ns | Inl _ \<Rightarrow> []);
                   s = s\<lparr>sc_Persephone := Learn sortSlice (tk_failure env) [usage_record env runs nodes w1] (sc_Persephone s)\<rparr>;
                   s = change_season (tk_seasonTime env) s
               in case bs_current (sc_Persephone s) of
                    None \<Rightarrow> (None, s, w1)
                  | Some season \<Rightarrow>
                      let pw = sn_Prewarming season
                      in (None, s, if pw_PoolSize pw > 0 \<and> pw_Templates pw \<noteq> []
                                   then warm_pools m env (pw_Templates pw) (pw_PoolSize pw) w1 else w1)))"

section \<open>When a season is active\<close>

lemma Hour_range: "0 \<le> Hour loc t \<and> Hour loc t < 24"
  by (simp add: Hour_def)

lemma Weekday_range: "0 \<le> Weekday loc t \<and> Weekday loc t < 7"
  by (simp add: Weekday_def)

lemma cyclic_window:
  assumes "0 \<le> a" "a < n" "0 \<le> b" "b < n" "0 \<le> x" "x < (n :: int)"
  shows "(if a \<le> b then x \<ge> a \<and> x < b else x \<ge> a \<or> x < b) \<longleftrightarrow> (x - a) mod n < (b - a) mod n"
    and "(if a \<le> b then x \<ge> a \<and> x \<le> b else x \<ge> a \<or> x \<le> b) \<longleftrightarrow> (x - a) mod n \<le> (b - a) mod n"
proof -
  have red: "(y - a) mod n = (if y < a then y - a + n else y - a)" if "0 \<le> y" "y < n" for y
  proof (cases "y < a")
    case True
    have "(y - a) mod n = (y - a + n) mod n" by simp
    also have "\<dots> = y - a + n" using True that assms(1,2) by (intro mod_pos_pos_trivial) auto
    finally show ?thesis using True by simp
  next
    case False
    then show ?thesis using that assms(1) by (simp add: mod_pos_pos_trivial)
  qed
  from red [OF assms(5,6)] red [OF assms(3,4)] assms
  show "(if a \<le> b then x \<ge> a \<and> x < b else x \<ge> a \<or> x < b) \<longleftrightarrow> (x - a) mod n < (b - a) mod n"
    "(if a \<le> b then x \<ge> a \<and> x \<le> b else x \<ge> a \<or> x \<le> b) \<longleftrightarrow> (x - a) mod n \<le> (b - a) mod n"
    by auto
qed

text \<open>The weekday field of the start expression allows the day.\<close>

definition day_allowed :: "string \<Rightarrow> int \<Rightarrow> bool" where
  "day_allowed cron weekday \<longleftrightarrow>
     length (str_fields cron) < 5 \<or> str_fields cron ! 4 = ''*'' \<or> matchesWeekday (str_fields cron ! 4) weekday"

text \<open>
  A season with a cron schedule is active exactly on the allowed weekdays, from its start hour up to
  but not including its end hour, around midnight where the end is before the start: the distance from
  the start hour to the current hour on the clock is less than that to the end hour. A range of weekdays
  is read around the week in the same way.\<close>

theorem cron_window:
  assumes "ss_StartCron (sn_Schedule s) \<noteq> []" "ss_EndCron (sn_Schedule s) \<noteq> []"
    and "h1 = extractHour (ss_StartCron (sn_Schedule s))" "0 \<le> h1" "h1 < 24"
    and "h2 = extractHour (ss_EndCron (sn_Schedule s))" "0 \<le> h2" "h2 < 24"
  shows "(ShouldActivate loc s t \<longleftrightarrow>
      day_allowed (ss_StartCron (sn_Schedule s)) (Weekday loc t) \<and> (Hour loc t - h1) mod 24 < (h2 - h1) mod 24) \<and>
    (\<forall>a b d1 d2. CHR ''-'' \<notin> set a \<union> set b \<and> get dayMap (TrimSpace a) = Some d1 \<and> get dayMap (TrimSpace b) = Some d2 \<longrightarrow>
      (inWeekdayRange (a @ ''-'' @ b) (Weekday loc t) \<longleftrightarrow> (Weekday loc t - d1) mod 7 \<le> (d2 - d1) mod 7))"
proof (intro conjI allI impI)
  show "ShouldActivate loc s t \<longleftrightarrow>
      day_allowed (ss_StartCron (sn_Schedule s)) (Weekday loc t) \<and> (Hour loc t - h1) mod 24 < (h2 - h1) mod 24"
    using assms cyclic_window(1) [of h1 24 h2 "Hour loc t"] Hour_range [of loc t]
    by (auto simp: ShouldActivate_def matchesCronSchedule_def day_allowed_def Let_def)
next
  fix a b d1 d2
  assume ab: "CHR ''-'' \<notin> set a \<union> set b \<and> get dayMap (TrimSpace a) = Some d1 \<and> get dayMap (TrimSpace b) = Some d2"
  then have "0 \<le> d1 \<and> d1 < 7" "0 \<le> d2 \<and> d2 < 7"
    by (auto simp: dayMap_def split: if_splits)
  moreover have "split_on CHR ''-'' (a @ ''-'' @ b) = [a, b]" using ab by (simp add: split_on_word_append)
  ultimately show "inWeekdayRange (a @ ''-'' @ b) (Weekday loc t) \<longleftrightarrow> (Weekday loc t - d1) mod 7 \<le> (d2 - d1) mod 7"
    using ab cyclic_window(2) [of d1 7 d2 "Weekday loc t"] Weekday_range [of loc t] by (simp add: inWeekdayRange_def)
qed

definition demo_night :: Season where
  "demo_night = zero_Season\<lparr>sn_ID := ''night'', sn_Schedule :=
     zero_Schedule\<lparr>ss_StartCron := ''0 22 * * FRI'', ss_EndCron := ''0 6 * * *''\<rparr>\<rparr>"

theorem cron_window_witness:
  "ShouldActivate UTC demo_night (4 * 24 * hour + 23 * hour) \<longleftrightarrow>
     day_allowed ''0 22 * * FRI'' (Weekday UTC (4 * 24 * hour + 23 * hour)) \<and>
     (Hour UTC (4 * 24 * hour + 23 * hour) - 22) mod 24 < (6 - 22) mod 24"
proof -
  have "extractHour ''0 22 * * FRI'' = 22" "extractHour ''0 6 * * *'' = 6" by code_simp+
  then show ?thesis
    using cron_window [of demo_night 22 6 UTC "4 * 24 * hour + 23 * hour"]
    by (simp add: demo_night_def zero_Season_def zero_Schedule_def)
qed

text \<open>At the instant its start expression names, at a definite hour, a season is active, unless it ends in the same hour.\<close>

lemma matchCron_activates:
  assumes "matchCron loc (ss_StartCron (sn_Schedule season)) t = Inr True" "str_fields (ss_StartCron (sn_Schedule season)) ! 1 \<noteq> ''*''"
    and "extractHour (ss_StartCron (sn_Schedule season)) \<noteq> extractHour (ss_EndCron (sn_Schedule season))"
  shows "matchesCronSchedule loc season t"
  using assms by (auto simp: matchCron_def matchesCronSchedule_def Let_def extractHour_def split: if_splits)

text \<open>The minutes are ignored, and a window that starts on Friday night is closed after midnight, but open in
  the night before.\<close>

lemma cron_surprises:
  "ShouldActivate UTC (demo_night\<lparr>sn_Schedule := zero_Schedule\<lparr>ss_StartCron := ''30 8 * * *'', ss_EndCron := ''0 18 * * *''\<rparr>\<rparr>) (8 * hour)"
  "\<not> ShouldActivate UTC demo_night (5 * 24 * hour + 2 * hour)" "ShouldActivate UTC demo_night (4 * 24 * hour + 2 * hour)"
  by code_simp+

text \<open>A list of days or numbers for days never matches.\<close>

lemma cron_lists_unsupported: "\<not> matchesWeekday ''MON,WED'' d" "\<not> matchesWeekday ''1-5'' d"
  by (simp_all add: matchesWeekday_def ToUpper_def upper_char_def inWeekdayRange_def dayMap_def TrimSpace_def is_space_def Let_def)

subsection \<open>The choice of a season\<close>

abbreviation ranged :: "Season \<Rightarrow> bool" where
  "ranged s \<equiv> ss_TimeRanges (sn_Schedule s) \<noteq> []"

lemma best_season_None: "best_season loc t ss b = None \<longleftrightarrow> b = None \<and> (\<forall>s\<in>set ss. \<not> ShouldActivate loc s t)"
  by (induction ss arbitrary: b) (auto split: option.splits)

lemma best_season_active: "best_season loc t ss b = Some x \<Longrightarrow> b = Some x \<or> x \<in> set ss \<and> ShouldActivate loc x t"
  by (induction ss arbitrary: b) (fastforce split: option.splits if_splits)+

lemma best_season_ranged:
  "best_season loc t ss b = Some x \<Longrightarrow> \<not> ranged x \<Longrightarrow> (\<forall>y. b = Some y \<longrightarrow> \<not> ranged y) \<and> (\<forall>s\<in>set ss. ShouldActivate loc s t \<longrightarrow> \<not> ranged s)"
proof (induction ss arbitrary: b)
  case (Cons s ss)
  let ?b = "if ShouldActivate loc s t then (case b of None \<Rightarrow> Some s | Some c \<Rightarrow> if hasPriority s c then Some s else b) else b"
  have "best_season loc t ss ?b = Some x" using Cons.prems(1) by simp
  note IH = Cons.IH [OF this Cons.prems(2)]
  have one: "\<not> ranged y" if "?b = Some y" for y using IH that by blast
  have kept: "\<not> ranged y" if "b = Some y" for y
  proof (cases "ShouldActivate loc s t \<and> hasPriority s y")
    case True
    then show ?thesis by (simp add: hasPriority_def)
  next
    case False
    then show ?thesis using that by (intro one) auto
  qed
  have "\<not> ranged s" if "ShouldActivate loc s t"
  proof (cases "\<exists>y. b = Some y \<and> \<not> hasPriority s y")
    case True
    then show ?thesis using kept unfolding hasPriority_def by blast
  next
    case False
    then show ?thesis using that by (intro one) (auto split: option.split)
  qed
  with kept IH show ?case by simp
qed simp

text \<open>
  An evaluation of the seasons answers a season that is active whenever one is, and one with
  explicit time ranges whenever such a one is active, for every order in which the map is iterated; it
  becomes the current one unless that has the same identifier. When no season is active the current one
  stays.\<close>

theorem season_choice:
  assumes "EvaluateSeasons loc t a = (res, a', started)"
  shows "(if \<exists>s \<in> snd ` set (sa_seasons a). ShouldActivate loc s t
     then \<exists>best c. best \<in> snd ` set (sa_seasons a) \<and> ShouldActivate loc best t \<and>
       ((\<exists>s \<in> snd ` set (sa_seasons a). ShouldActivate loc s t \<and> ranged s) \<longrightarrow> ranged best) \<and>
       res = Some c \<and> sn_ID c = sn_ID best \<and> (c = best \<or> sa_current a = Some c)
     else res = sa_current a \<and> \<not> started) \<and>
    sa_current a' = res \<and> sa_seasons a' = sa_seasons a"
proof -
  let ?S = "snd ` set (sa_seasons a)"
  show ?thesis
  proof (cases "best_season loc t (map snd (sa_seasons a)) None")
    case None
    then have "\<forall>s \<in> ?S. \<not> ShouldActivate loc s t" by (simp add: best_season_None)
    moreover have "res = sa_current a" "a' = a" "\<not> started" using assms None by (auto simp: EvaluateSeasons_def)
    ultimately show ?thesis by auto
  next
    case (Some best)
    have best: "best \<in> ?S" "ShouldActivate loc best t" using best_season_active [OF Some] by auto
    have prio: "(\<exists>s \<in> ?S. ShouldActivate loc s t \<and> ranged s) \<longrightarrow> ranged best" using best_season_ranged [OF Some] by auto
    obtain c where c: "res = Some c" "sn_ID c = sn_ID best" "c = best \<or> sa_current a = Some c" "sa_current a' = res" "sa_seasons a' = sa_seasons a"
    proof (cases "\<exists>c. sa_current a = Some c \<and> sn_ID c = sn_ID best")
      case True
      then have "res = sa_current a" "a' = a" using assms Some by (auto simp: EvaluateSeasons_def)
      with True that show thesis by blast
    next
      case False
      then have "res = Some best" "a' = a\<lparr>sa_current := Some best\<rparr>"
        using assms Some by (auto simp: EvaluateSeasons_def split: option.splits)
      then show thesis using that [of best] by simp
    qed
    have "\<exists>s \<in> ?S. ShouldActivate loc s t" using best by blast
    with best prio c show ?thesis by (simp only: if_True) blast
  qed
qed

theorem season_choice_witness:
  "\<exists>c. fst (EvaluateSeasons UTC 428400000000000 (RegisterSeason demo_night \<lparr>sa_seasons = [], sa_current = None\<rparr>)) = Some c \<and>
     sn_ID c = ''night''"
proof -
  let ?a = "RegisterSeason demo_night \<lparr>sa_seasons = [], sa_current = None\<rparr>" and ?t = "428400000000000"
  obtain res a' st where e: "EvaluateSeasons UTC ?t ?a = (res, a', st)" by (metis prod_cases3)
  have one: "snd ` set (sa_seasons ?a) = {demo_night}" by (simp add: RegisterSeason_def put_def)
  have act: "ShouldActivate UTC demo_night ?t" by code_simp
  have "sn_ID demo_night = ''night''" by (simp add: demo_night_def)
  then show ?thesis using season_choice [OF e] e unfolding one by (auto simp: act)
qed

text \<open>A new definition of the current season is not noticed: the activator answers the old one.\<close>

lemma redefinition_ignored:
  "sa_current a = Some old \<Longrightarrow> sn_ID old = sn_ID new \<Longrightarrow> sa_seasons a = [] \<Longrightarrow>
   fst (EvaluateSeasons loc t (RegisterSeason new a)) = Some old"
  by (simp add: EvaluateSeasons_def RegisterSeason_def put_def split: option.split)

section \<open>How many sandboxes are hibernated\<close>

lemma hibernate_loop_spec:
  "hibernate_loop ops due k as warm h = (slept, h') \<Longrightarrow>
     set slept \<subseteq> ac_ID ` {a \<in> set as. due a} \<and> length slept \<le> length (filter due as) \<and> int (length slept) \<le> max 0 (warm - k)"
proof (induction as arbitrary: warm h slept h')
  case (Cons a as)
  obtain err h1 where s: "ho_Sleep ops (ac_ID a) h = (err, h1)" by fastforce
  obtain sl h2 where l: "hibernate_loop ops due k as (warm - 1) h1 = (sl, h2)" by fastforce
  consider "warm \<le> k" | "k < warm" "\<not> due a" | e where "k < warm" "due a" "err = Some e" | "k < warm" "due a" "err = None"
    by fastforce
  then show ?case
  proof cases
    case 1
    then show ?thesis using Cons.prems by auto
  next
    case 2
    then show ?thesis using Cons.prems Cons.IH [of warm h slept h'] by auto
  next
    case 3
    then show ?thesis using Cons.prems s Cons.IH [of warm h1 slept h'] by auto
  next
    case 4
    with Cons.prems s l have "slept = ac_ID a # sl" by auto
    moreover have "set sl \<subseteq> ac_ID ` {b \<in> set (a # as). due b}" using Cons.IH [OF l] by auto
    ultimately show ?thesis using 4 Cons.IH [OF l] by auto
  qed
qed simp

text \<open>
  Hibernation spares what it must. In a scheduled window only sandboxes idle for more than ten
  seconds are put to sleep, and the minimum of warm sandboxes is left. Outside, only sandboxes idle for the
  threshold are, but never more of them than there are busy sandboxes: when all are idle, none is put to
  sleep.\<close>

theorem hibernation_bounds:
  assumes "ctl_lister c = Some lister" "lister h = Inr acts"
  shows "(hibernateForSchedule c now cfg h = (slept, h') \<longrightarrow>
      set slept \<subseteq> ac_ID ` {a \<in> set acts. ac_IsIdle a \<and> now - ac_LastActivity a > 10 * second} \<and>
      min (hc_MinWarmPool cfg) (int (length acts)) \<le> int (length acts) - int (length slept)) \<and>
    (hibernateIdle c now thr 0 h = (Inr slept, h') \<longrightarrow>
      set slept \<subseteq> ac_ID ` {a \<in> set acts. ac_IsIdle a \<and> now - ac_LastActivity a \<ge> thr} \<and>
      length slept \<le> length (filter (\<lambda>a. \<not> ac_IsIdle a) acts))"
proof (cases "ctl_hypnos c")
  case None
  then show ?thesis using assms by (auto simp: hibernateForSchedule_def hibernateIdle_def)
next
  case (Some ops)
  then show ?thesis
    using assms hibernate_loop_spec [of ops _ _ acts _ h slept h']
    by (fastforce simp: hibernateForSchedule_def hibernateIdle_def split: prod.splits)
qed

definition demo_hibernator :: "SandboxID list HibernationController" where
  "demo_hibernator = \<lparr>ctl_hypnos = Some \<lparr>ho_Sleep = (\<lambda>i h. (None, i # h)), ho_Wake = (\<lambda>i h. (None, removeAll i h)), ho_List = map Some\<rparr>,
     ctl_lister = Some (\<lambda>h. Inr [\<lparr>ac_ID = ''x'', ac_LastActivity = 0, ac_IsIdle = True\<rparr>, \<lparr>ac_ID = ''y'', ac_LastActivity = 0, ac_IsIdle = True\<rparr>]),
     ctl_scheduler = Some UTC\<rparr>"

theorem hibernation_bounds_witness:
  "length (fst (hibernateForSchedule demo_hibernator (60 * second) (zero_Hibernation\<lparr>hc_MinWarmPool := 1\<rparr>) [])) \<le> 1 \<and>
   hibernateIdle demo_hibernator (60 * second) second 0 [] = (Inr [], [])"
proof -
  let ?acts = "[\<lparr>ac_ID = ''x'', ac_LastActivity = 0, ac_IsIdle = True\<rparr>, \<lparr>ac_ID = ''y'', ac_LastActivity = 0, ac_IsIdle = True\<rparr>]"
  have l: "ctl_lister demo_hibernator = Some (\<lambda>h. Inr ?acts)" by (simp add: demo_hibernator_def)
  obtain s1 h1 where sch: "hibernateForSchedule demo_hibernator (60 * second) (zero_Hibernation\<lparr>hc_MinWarmPool := 1\<rparr>) [] = (s1, h1)" by fastforce
  have "length s1 \<le> 1"
    using hibernation_bounds [OF l refl, of "60 * second" "zero_Hibernation\<lparr>hc_MinWarmPool := 1\<rparr>" "[]" s1 h1] sch by simp
  moreover have "hibernateIdle demo_hibernator (60 * second) second 0 [] = (Inr [], [])" by code_simp
  ultimately show ?thesis using sch by simp
qed

text \<open>Records without the method \<open>GetSandboxID\<close>, like those of the hibernation manager, are never woken.\<close>

lemma wake_loop_untyped: "set records \<subseteq> {None} \<Longrightarrow> wake_loop ops n records h = ([], h)"
  by (induction records) auto

lemma untyped_never_woken: "ctl_hypnos c = Some ops \<Longrightarrow> set (ho_List ops h) \<subseteq> {None} \<Longrightarrow> WakeForDemand c n h = ([], h)"
  by (simp add: WakeForDemand_def wake_loop_untyped)

section \<open>The history store\<close>

datatype history_op = HSave "UsageRecord list" | HPrune go_time

fun history_run :: "(UsageRecord list \<Rightarrow> UsageRecord list) \<Rightarrow> history_op list \<Rightarrow> history_file \<Rightarrow> history_file" where
  "history_run srt [] f = f"
| "history_run srt (HSave rs # ops) f = history_run srt ops (snd (history_Save srt None rs f))"
| "history_run srt (HPrune cutoff # ops) f = history_run srt ops (snd (history_Prune None cutoff f))"

text \<open>What the store should hold: a multiset of records.\<close>

fun history_spec :: "history_op list \<Rightarrow> UsageRecord multiset \<Rightarrow> UsageRecord multiset" where
  "history_spec [] M = M"
| "history_spec (HSave rs # ops) M = history_spec ops (M + mset rs)"
| "history_spec (HPrune cutoff # ops) M = history_spec ops (filter_mset (\<lambda>r. ur_Timestamp r > cutoff) M)"

abbreviation time_sorted :: "UsageRecord list \<Rightarrow> bool" where
  "time_sorted \<equiv> sorted_wrt (\<lambda>a b. ur_Timestamp a \<le> ur_Timestamp b)"

definition holds_history :: "history_file \<Rightarrow> UsageRecord multiset \<Rightarrow> bool" where
  "holds_history f M \<longleftrightarrow> (case f of NoFile \<Rightarrow> M = {#} | Unreadable _ \<Rightarrow> False | Records rs \<Rightarrow> mset rs = M \<and> time_sorted rs)"

lemma holds_Save:
  assumes "sort_slice earlier srt" "holds_history f M"
  shows "holds_history (snd (history_Save srt None rs f)) (M + mset rs)"
proof -
  have "mset (srt xs) = mset xs \<and> time_sorted (srt xs)" for xs
    using sort_slice.srt_perm [OF assms(1), of xs] sort_slice.srt_sorted [OF assms(1), of xs]
    by (simp add: earlier_def not_less)
  then show ?thesis using assms(2)
    by (auto simp: holds_history_def history_Save_def saveToFile_def split: history_file.splits)
qed

lemma holds_Prune: "holds_history f M \<Longrightarrow> holds_history (snd (history_Prune None cutoff f)) (filter_mset (\<lambda>r. ur_Timestamp r > cutoff) M)"
  by (auto simp: holds_history_def history_Prune_def saveToFile_def mset_filter sorted_wrt_filter split: history_file.splits)

lemma history_run_holds:
  "sort_slice earlier srt \<Longrightarrow> holds_history f M \<Longrightarrow> holds_history (history_run srt ops f) (history_spec ops M)"
  by (induction srt ops f arbitrary: M rule: history_run.induct) (auto intro: holds_Save holds_Prune)

lemma drop_recent:
  assumes "time_sorted (xs @ ys)" "r \<in> set xs" "y \<in> set ys"
  shows "ur_Timestamp r \<le> ur_Timestamp y"
  using assms by (simp add: sorted_wrt_append)

text \<open>
  The local history store is a multiset of records ordered by time. After any sequence of saves
  and prunings that do not fail, with whatever sorting routine the library has, a query for a period returns
  exactly the saved and not pruned records of that period, in the order of time, and a query for the
  \<open>n\<close> most recent returns \<open>n\<close> records, or all there are, none of which is older than one left out.\<close>

theorem history_exact:
  assumes "sort_slice earlier srt"
  shows "(\<exists>xs. history_Load a b (history_run srt ops NoFile) = Inr xs \<and> time_sorted xs \<and>
      mset xs = filter_mset (\<lambda>r. a \<le> ur_Timestamp r \<and> ur_Timestamp r \<le> b) (history_spec ops {#})) \<and>
    (0 \<le> n \<longrightarrow> (\<exists>xs ys. QueryRecent n (history_run srt ops NoFile) = Some (Inr ys) \<and> mset (xs @ ys) = history_spec ops {#} \<and>
      time_sorted ys \<and> int (length ys) = min n (int (length (xs @ ys))) \<and>
      (\<forall>x \<in> set xs. \<forall>y \<in> set ys. ur_Timestamp x \<le> ur_Timestamp y)))"
proof -
  let ?f = "history_run srt ops NoFile"
  have holds: "holds_history ?f (history_spec ops {#})"
    by (rule history_run_holds [OF assms]) (simp add: holds_history_def)
  then obtain rs where rs: "mset rs = history_spec ops {#}" "time_sorted rs" "?f = Records rs \<or> ?f = NoFile \<and> rs = []"
    by (auto simp: holds_history_def split: history_file.splits)
  have "history_Load a b ?f = Inr (filter (\<lambda>r. a \<le> ur_Timestamp r \<and> ur_Timestamp r \<le> b) rs)"
    using rs(3) by (auto simp: history_Load_def)
  moreover have "mset (filter (\<lambda>r. a \<le> ur_Timestamp r \<and> ur_Timestamp r \<le> b) rs) =
      filter_mset (\<lambda>r. a \<le> ur_Timestamp r \<and> ur_Timestamp r \<le> b) (history_spec ops {#})"
    unfolding mset_filter rs(1) by (rule refl)
  moreover have "\<exists>xs ys. QueryRecent n ?f = Some (Inr ys) \<and> mset (xs @ ys) = history_spec ops {#} \<and> time_sorted ys \<and>
      int (length ys) = min n (int (length (xs @ ys))) \<and> (\<forall>x \<in> set xs. \<forall>y \<in> set ys. ur_Timestamp x \<le> ur_Timestamp y)" if "0 \<le> n"
  proof -
    define k where "k = length rs - nat n"
    have "QueryRecent n ?f = Some (Inr (drop k rs))"
      using rs(3) that by (auto simp: QueryRecent_def k_def)
    moreover have split: "take k rs @ drop k rs = rs" by simp
    moreover have "int (length (drop k rs)) = min n (int (length rs))" using that by (auto simp: k_def)
    moreover have "\<forall>x \<in> set (take k rs). \<forall>y \<in> set (drop k rs). ur_Timestamp x \<le> ur_Timestamp y"
      using drop_recent [of "take k rs" "drop k rs"] rs(2) by simp
    moreover have "time_sorted (drop k rs)" using rs(2) by (rule sorted_wrt_drop)
    ultimately show ?thesis using rs(1) by (intro exI [of _ "take k rs"] exI [of _ "drop k rs"]) simp
  qed
  ultimately show ?thesis using rs(2) by (blast intro: sorted_wrt_filter)
qed

definition demo_usage :: "go_time \<Rightarrow> UsageRecord" where
  "demo_usage t = \<lparr>ur_Timestamp = t, ur_ActiveVMs = 1, ur_QueueDepth = 0, ur_CPUUtil = 0, ur_MemoryUtil = 0, ur_LaunchCount = 0, ur_ErrorCount = 0\<rparr>"

theorem history_exact_witness:
  "\<exists>xs. history_Load 1 9 (history_run (insertion_sort earlier) [HSave [demo_usage 7, demo_usage 3], HPrune 2] NoFile) = Inr xs \<and>
     time_sorted xs \<and> mset xs = {#demo_usage 7, demo_usage 3#}"
proof -
  have "sort_slice earlier (insertion_sort earlier)"
    using int_asc.sort_slice_axioms [of ur_Timestamp] unfolding earlier_def [abs_def] .
  from history_exact [OF this, of 1 9 "[HSave [demo_usage 7, demo_usage 3], HPrune 2]" 0]
  obtain xs where "history_Load 1 9 (history_run (insertion_sort earlier) [HSave [demo_usage 7, demo_usage 3], HPrune 2] NoFile) = Inr xs"
    "time_sorted xs" "mset xs = {#demo_usage 7, demo_usage 3#}"
    by (auto simp: demo_usage_def)
  then show ?thesis by blast
qed

text \<open>The scaler keeps the last ten thousand records it learned.\<close>

lemma last_10000: "length (last_10000 xs) \<le> 10000" "suffix (last_10000 xs) xs"
  by (simp_all add: last_10000_def suffix_drop)

lemma Learn_history:
  "length (bs_history (Learn srt failure rs s)) \<le> 10000 \<and> suffix (bs_history (Learn srt failure rs s)) (bs_history s @ rs)"
  by (simp add: Learn_def last_10000)

section \<open>Warm pools\<close>

text \<open>What the operations do to the set of runs on record.\<close>

locale run_recorder =
  fixes m :: "'w Manager" and recorded :: "'w \<Rightarrow> SandboxRun set"
  assumes upd: "recorded (snd (m_UpdateRun m w r)) \<subseteq> insert r (recorded w)"
    and enq: "recorded (snd (m_Enqueue m w q)) = recorded w"
    and nodes: "recorded (snd (m_ListNodes m w)) = recorded w"
    and pre: "m_RunPre m req w = (v, req', w') \<Longrightarrow> recorded w' = recorded w"
    and listed: "m_ListRuns m w = Inr rs \<Longrightarrow> set rs = recorded w"
begin

definition bare :: "'w \<Rightarrow> 'w \<Rightarrow> bool" where
  "bare w w' \<longleftrightarrow> recorded w' \<subseteq> recorded w \<union> {r. run_Metadata r = []}"

lemma bare_refl: "recorded w' = recorded w \<Longrightarrow> bare w w'"
  by (simp add: bare_def)

lemma bare_trans: "bare w w' \<Longrightarrow> bare w' w'' \<Longrightarrow> bare w w''"
  by (auto simp: bare_def)

lemma bare_upd: "run_Metadata r = [] \<Longrightarrow> bare w (snd (m_UpdateRun m w r))"
  using upd [of w r] by (auto simp: bare_def)

lemma bare_schedule:
  assumes "run_Metadata run = []"
  shows "bare w (snd (snd (schedule_and_enqueue m clk w req run)))"
proof -
  obtain listing w1 where l: "m_ListNodes m w = (listing, w1)" by fastforce
  have w1: "bare w w1" using nodes [of w] l by (simp add: bare_def)
  have fail: "bare v (fail_run m t v run' e)" if "run_Metadata run' = []" for v t run' e
    using that by (simp add: fail_run_def bare_upd)
  show ?thesis
  proof (cases "\<exists>ns nid. listing = Inr ns \<and> m_ChooseNode m req ns = Inr nid")
    case False
    then show ?thesis using l w1 fail [OF assms] bare_trans
      by (fastforce simp: schedule_and_enqueue_def split: sum.splits)
  next
    case True
    then obtain ns nid where c: "listing = Inr ns" "m_ChooseNode m req ns = Inr nid" by blast
    let ?run = "run\<lparr>run_NodeID := nid, run_Status := RunStatusScheduled, run_UpdatedAt := clk 4\<rparr>"
    obtain er w3 where e: "m_Enqueue m (snd (m_UpdateRun m w1 ?run)) (req\<lparr>req_NodeID := nid\<rparr>) = (er, w3)" by fastforce
    have "bare w1 w3"
      using bare_upd [of ?run w1] assms enq [of "snd (m_UpdateRun m w1 ?run)" "req\<lparr>req_NodeID := nid\<rparr>"] e by (simp add: bare_def)
    then show ?thesis using l c e w1 fail [of ?run] assms bare_trans
      by (cases er) (auto simp: schedule_and_enqueue_def Let_def case_prod_beta)
  qed
qed

lemma bare_persist: "bare w (snd (snd (persist_and_schedule m clk w req)))"
proof -
  have md: "run_Metadata (initial_run clk req) = []" by (simp add: initial_run_def zero_SandboxRun_def)
  obtain er w1 where u: "m_UpdateRun m w (initial_run clk req) = (er, w1)" by fastforce
  have "bare w w1" using bare_upd [OF md, of w] u by simp
  then show ?thesis using u bare_schedule [OF md] bare_trans
    by (cases er) (auto simp: persist_and_schedule_def Let_def)
qed

lemma bare_Submit: "bare w (snd (snd (Submit m uuid clk w req)))"
proof -
  obtain v req1 w1 where p: "m_RunPre m (with_identity uuid clk req) w = (v, req1, w1)" by (metis prod_cases3)
  have "recorded w1 = recorded w" using pre [OF p] .
  then have "bare w (snd (snd (persist_and_schedule m clk w1 r)))" "bare w w1" for r
    using bare_persist [of w1 clk r] by (auto simp: bare_def)
  then show ?thesis using p by (auto simp: Submit_def Let_def bare_refl split: sum.split Verdict.split)
qed

lemma bare_warm_loop: "bare w (warm_loop m uuids clk t n w)"
proof (induction n arbitrary: w)
  case (Suc n)
  show ?case
  proof (cases "m_GetTemplate m w t")
    case (Inr tpl)
    obtain res req' w' where s: "Submit m (uuids n) clk w (warm_request t tpl) = (res, req', w')" by (metis prod_cases3)
    have "bare w w'" using bare_Submit [of w "uuids n" clk "warm_request t tpl"] s by simp
    then show ?thesis using Suc.IH [of w'] Inr s bare_trans by auto
  qed (simp add: Suc.IH)
qed (simp add: bare_refl)

lemma bare_warm_pools: "bare w (warm_pools m env ts k w)"
proof (induction ts arbitrary: w)
  case (Cons t ts)
  have "bare w (snd (ensureWarmPool m (tk_uuids env (length ts)) (tk_clk env) t k w))"
    by (simp add: ensureWarmPool_def bare_refl bare_warm_loop Let_def split: sum.split)
  then show ?case using Cons.IH bare_trans by auto
qed (simp add: bare_refl)

lemma bare_tick: "bare w (snd (snd (tick m env srt s w)))"
proof -
  obtain listed_nodes w1 where l: "m_ListNodes m w = (listed_nodes, w1)" by fastforce
  have w1: "bare w w1" using nodes [of w] l by (simp add: bare_def)
  show ?thesis using l w1 bare_warm_pools [of w1] bare_trans
    by (auto simp: tick_def Let_def bare_refl split: sum.split option.split)
qed

text \<open>Where no run is marked as warm, a pool counts as empty.\<close>

lemma ensure_unmarked:
  assumes "\<forall>r \<in> recorded w. get (run_Metadata r) ''warm'' = None" "m_ListRuns m w = Inr rs"
  shows "snd (ensureWarmPool m uuids clk t n w) = warm_loop m uuids clk t (nat n) w"
proof -
  have "filter (is_warm t) rs = []"
    using assms listed [OF assms(2)] by (auto simp: filter_eq_Nil_iff is_warm_def)
  then show ?thesis using assms(2) by (simp add: ensureWarmPool_def Let_def)
qed

end

interpretation recorder: run_recorder "memory_manager st srt now ctx al ph ctl ls" "\<lambda>w. set (ListRuns (c_registry w))"
  for st srt now ctx al ph ctl ls
proof unfold_locales
  fix w :: cluster and r
  show "set (ListRuns (c_registry (snd (m_UpdateRun (memory_manager st srt now ctx al ph ctl ls) w r)))) \<subseteq> insert r (set (ListRuns (c_registry w)))"
    using set_put_subset [of "mr_runs (c_registry w)" "run_ID r" r] by (auto simp: ListRuns_def UpdateRun_def)
qed (auto simp: memory_manager_def ListRuns_def deployed_chain_eq audit_to_log_frame case_prod_beta)

text \<open>
  The warm pools are never seen as full. A submission records its run without metadata, so no
  sandbox the control plane starts is ever counted as warm: where none on record is marked, none is
  after a tick, and each pool is then filled again with as many sandboxes as it should have in all, at
  every tick.\<close>

theorem warm_pool_never_full:
  assumes "tick (memory_manager st srt now ctx al ph ctl ls) env sortSlice s w = (err, s', w')"
    and "\<forall>r \<in> set (ListRuns (c_registry w)). get (run_Metadata r) ''warm'' = None"
  shows "(\<forall>r \<in> set (ListRuns (c_registry w')). get (run_Metadata r) ''warm'' = None) \<and>
    snd (ensureWarmPool (memory_manager st srt now ctx al ph ctl ls) uuids clk t n w') =
      warm_loop (memory_manager st srt now ctx al ph ctl ls) uuids clk t (nat n) w'"
proof -
  have unmarked: "\<forall>r \<in> set (ListRuns (c_registry w')). get (run_Metadata r) ''warm'' = None"
    using recorder.bare_tick [of w st srt now ctx al ph ctl ls env sortSlice s] assms
    by (auto simp: recorder.bare_def)
  with recorder.ensure_unmarked [of w' st srt now ctx al ph ctl ls] show ?thesis by simp
qed

definition demo_tick :: "cluster tick_env" where
  "demo_tick = \<lparr>tk_queueLen = (\<lambda>w. int (length (cluster_waiting w))), tk_util = (\<lambda>_. (0, 0)), tk_uuids = (\<lambda>_ _. ''u''),
     tk_clk = (\<lambda>_. 1), tk_now = 8 * hour, tk_seasonTime = 8 * hour, tk_failure = None\<rparr>"

definition demo_scaler :: Scaler where
  "demo_scaler = \<lparr>sc_Persephone = DefineSeason SeasonSpring (NewBasicSeasonalScaler None),
     sc_seasonActivator = RegisterSeason SeasonSpring \<lparr>sa_seasons = [], sa_current = None\<rparr>\<rparr>"

theorem warm_pool_never_full_witness:
  "\<exists>err s' w'. tick demo_manager demo_tick (insertion_sort earlier) demo_scaler demo_cluster = (err, s', w') \<and>
     snd (ensureWarmPool demo_manager (\<lambda>_. ''u'') (\<lambda>_. 1) ''py'' 10 w') = warm_loop demo_manager (\<lambda>_. ''u'') (\<lambda>_. 1) ''py'' 10 w'"
proof -
  obtain err s' w' where t: "tick demo_manager demo_tick (insertion_sort earlier) demo_scaler demo_cluster = (err, s', w')"
    by (metis prod_cases3)
  have "ListRuns (c_registry demo_cluster) = []"
    by (simp add: demo_cluster_def ListRuns_def UpdateHeartbeat_def NewMemoryRegistry_def Let_def)
  then show ?thesis
    using warm_pool_never_full [OF t [unfolded demo_manager_def], folded demo_manager_def, of "\<lambda>_. ''u''" "\<lambda>_. 1" "''py''" 10] t by simp
qed

text \<open>Of the four seasons of the server only one has a schedule; the others are never active by themselves.\<close>

lemma only_spring_scheduled:
  "ShouldActivate UTC SeasonSpring t \<longleftrightarrow> 6 \<le> Hour UTC t \<and> Hour UTC t < 18"
  "s \<in> {SeasonSummer, SeasonAutumn, SeasonWinter} \<Longrightarrow> \<not> ShouldActivate UTC s t"
proof -
  have "extractHour ''0 6 * * *'' = 6" "extractHour ''0 18 * * *'' = 18" "str_fields ''0 6 * * *'' ! 4 = ''*''" by code_simp+
  then show "ShouldActivate UTC SeasonSpring t \<longleftrightarrow> 6 \<le> Hour UTC t \<and> Hour UTC t < 18"
    by (simp add: ShouldActivate_def matchesCronSchedule_def SeasonSpring_def zero_Season_def zero_Schedule_def Let_def)
qed (auto simp: ShouldActivate_def SeasonSummer_def SeasonAutumn_def SeasonWinter_def zero_Season_def zero_Schedule_def)

end
