(* ===== verification/Api.thy ===== *)
theory Api
  imports Cerberus Thanatos Wire Persephone
begin

text \<open>
  The HTTP API of the control plane: the routes and handlers of \<open>src/cmd/olympus-api/main.go\<close> and
  \<open>src/pkg/olympus/thanatos_handlers.go\<close> and \<open>persephone_handlers.go\<close>, behind the gate of \<open>Cerberus\<close>.

  A request's decoded body, the fresh identifiers and the clock are arguments. \<open>http.ServeMux\<close> picks the
  longest pattern that matches and redirects to a pattern that lacks only the final slash. The answers of
  the snapshot manager (Nyx) are arguments of the handlers that ask it. A forecast and a recommendation are
  answered by what was asked of the forecaster: the window, the target utilisation. The metrics route
  and the pumping of bytes on the interactive socket are not modelled.
\<close>

section \<open>Requests, responses, routes\<close>

datatype body =
    NoBody
  | Plain string
  | ErrorBody olympus_error
  | Fields "(string \<times> string) list"
  | Runs "SandboxRun list"
  | Run SandboxRun
  | Snapshots "SnapshotID list"
  | Templates "TemplateSpec list"
  | Policies "SandboxPolicy list"
  | Checkpoints "CheckpointInfo list"
  | Seasons "Season list"
  | ForecastOf duration
  | RecommendationFor float64

type_synonym response = "int \<times> body"

datatype api_route =
    RSubmit | RSandboxes | RSandbox | RLogs | RHibernate | RWake | RExecSock | RTemplates | RPolicies
  | RTerminate | RCheckpoints | RResume | RSeasons | RSeason | RForecast | RRecommendations | RMetrics | RRedirect | RNotFound

definition patterns :: "(string \<times> api_route) list" where
  "patterns = [(''/metrics'', RMetrics), (''/submit'', RSubmit), (''/sandboxes'', RSandboxes), (''/sandboxes/'', RSandbox),
     (''/sandboxes/logs/'', RLogs), (''/sandboxes/hibernate/'', RHibernate), (''/sandboxes/wake/'', RWake),
     (''/sandboxes/exec/sock/'', RExecSock), (''/templates'', RTemplates), (''/policies'', RPolicies),
     (''/persephone/seasons'', RSeasons), (''/persephone/seasons/'', RSeason), (''/persephone/forecast'', RForecast),
     (''/persephone/recommendations'', RRecommendations), (''/sandboxes/terminate/'', RTerminate),
     (''/sandboxes/checkpoints/'', RCheckpoints), (''/sandboxes/resume'', RResume)]"

definition pattern_matches :: "string \<Rightarrow> string \<Rightarrow> bool" where
  "pattern_matches path p \<longleftrightarrow> (if p \<noteq> [] \<and> last p = CHR ''/'' then prefix p path else p = path)"

fun longest_match :: "string \<Rightarrow> (string \<times> api_route) list \<Rightarrow> (string \<times> api_route) option" where
  "longest_match path [] = None"
| "longest_match path ((p, r) # ps) =
     (let best = longest_match path ps
      in if pattern_matches path p then
           (case best of
              Some (q, r') \<Rightarrow> if length q > length p then Some (q, r') else Some (p, r)
            | None \<Rightarrow> Some (p, r))
         else best)"

definition route :: "string \<Rightarrow> api_route" where
  "route path =
     (if get patterns path = None \<and> get patterns (path @ ''/'') \<noteq> None then RRedirect
      else case longest_match path patterns of None \<Rightarrow> RNotFound | Some (_, r) \<Rightarrow> r)"

definition not_allowed :: response where
  "not_allowed = (405, Plain ''Method not allowed'')"

section \<open>Handlers of the manager\<close>

definition handle_submit ::
    "'w Manager \<Rightarrow> string \<Rightarrow> (nat \<Rightarrow> go_time) \<Rightarrow> http_request \<Rightarrow> string + SandboxRequest \<Rightarrow> 'w \<Rightarrow> response \<times> 'w" where
  "handle_submit m uuid clk r decoded w =
     (if hr_Method r \<noteq> ''POST'' then (not_allowed, w)
      else case decoded of
             Inl _ \<Rightarrow> ((400, Plain ''Invalid request body''), w)
           | Inr req \<Rightarrow>
               (case Submit m uuid clk w req of
                  (Some ErrPolicyRejected, _, w') \<Rightarrow> ((403, ErrorBody ErrPolicyRejected), w')
                | (Some _, _, w') \<Rightarrow> ((500, Plain ''Internal Server Error''), w')
                | (None, req', w') \<Rightarrow> ((202, Fields [(''status'', ''accepted''), (''id'', req_ID req')]), w')))"

definition handle_list :: "'w Manager \<Rightarrow> http_request \<Rightarrow> 'w \<Rightarrow> response \<times> 'w" where
  "handle_list m r w =
     (if hr_Method r \<noteq> ''GET'' then (not_allowed, w)
      else case ListSandboxes m w of
             Inl err \<Rightarrow> ((500, Plain err), w)
           | Inr runs \<Rightarrow> ((200, Runs runs), w))"

text \<open>Nyx, the snapshot manager: what it answers.\<close>

record 'w nyx =
  nyx_ListSnapshots :: "TemplateID \<Rightarrow> 'w \<Rightarrow> string + SnapshotID list"
  nyx_DeleteSnapshot :: "TemplateID \<Rightarrow> SnapshotID \<Rightarrow> 'w \<Rightarrow> string option \<times> 'w"

definition ListSnapshots :: "'w Manager \<Rightarrow> 'w nyx \<Rightarrow> 'w \<Rightarrow> SandboxID \<Rightarrow> olympus_error + SnapshotID list" where
  "ListSnapshots m nyx w i =
     (case m_GetRun m w i of
        Inl _ \<Rightarrow> Inl ErrSandboxNotFound
      | Inr run \<Rightarrow> (case nyx_ListSnapshots nyx (run_Template run) w of Inl err \<Rightarrow> Inl (ControlFailed err) | Inr snaps \<Rightarrow> Inr snaps))"

definition DeleteSnapshot :: "'w Manager \<Rightarrow> 'w nyx \<Rightarrow> 'w \<Rightarrow> SandboxID \<Rightarrow> SnapshotID \<Rightarrow> olympus_error option \<times> 'w" where
  "DeleteSnapshot m nyx w i snapID =
     (case m_GetRun m w i of
        Inl _ \<Rightarrow> (Some ErrSandboxNotFound, w)
      | Inr run \<Rightarrow>
          (case nyx_DeleteSnapshot nyx (run_Template run) snapID w of
             (Some err, w') \<Rightarrow> (Some (ControlFailed err), w')
           | (None, w') \<Rightarrow> (None, w')))"

definition send_and_answer ::
    "(olympus_error \<Rightarrow> response) \<Rightarrow> response \<Rightarrow> olympus_error option \<times> 'w \<Rightarrow> response \<times> 'w" where
  "send_and_answer failed done res = (case res of (Some err, w) \<Rightarrow> (failed err, w) | (None, w) \<Rightarrow> (done, w))"

definition not_found_or_500 :: "olympus_error \<Rightarrow> response" where
  "not_found_or_500 err =
     (if err = ErrSandboxNotFound then (404, Plain ''Sandbox not found'') else (500, Plain ''Internal Server Error''))"

definition handle_sandbox ::
    "'w Manager \<Rightarrow> 'w nyx \<Rightarrow> http_request \<Rightarrow> string + string list \<Rightarrow> 'w \<Rightarrow> response \<times> 'w" where
  "handle_sandbox m nyx r decoded w =
     (let parts = split_on CHR ''/'' (drop (length ''/sandboxes/'') (hr_Path r)); i = hd parts
      in if i = [] then ((400, Plain ''Missing sandbox ID''), w)
         else case tl parts of
           [] \<Rightarrow>
             if hr_Method r = ''DELETE'' then
               send_and_answer not_found_or_500 (200, Fields [(''status'', ''killed''), (''id'', i)]) (KillSandbox m w i)
             else if hr_Method r = ''GET'' then
               (case m_GetRun m w i of
                  Inl err \<Rightarrow> ((if err = ''run not found'' then (404, Plain ''Sandbox not found'')
                               else (500, Plain ''Internal Server Error'')), w)
                | Inr run \<Rightarrow> ((200, Run run), w))
             else ((200, NoBody), w)
         | action # rest \<Rightarrow>
             if action = ''snapshot'' \<and> hr_Method r = ''POST'' then
               send_and_answer (\<lambda>err. (500, ErrorBody err)) (202, Fields [(''status'', ''snapshot_requested''), (''id'', i)])
                 (CreateSnapshot m w i)
             else if action = ''snapshots'' \<and> hr_Method r = ''GET'' then
               (case ListSnapshots m nyx w i of
                  Inl err \<Rightarrow> ((500, ErrorBody err), w)
                | Inr snaps \<Rightarrow> ((200, Snapshots snaps), w))
             else if action = ''snapshots'' \<and> hr_Method r = ''DELETE'' then
               (case rest of
                  [] \<Rightarrow> ((400, Plain ''Missing snapshot ID''), w)
                | snapID # _ \<Rightarrow> send_and_answer (\<lambda>err. (500, ErrorBody err)) (200, NoBody) (DeleteSnapshot m nyx w i snapID))
             else if action = ''exec'' \<and> hr_Method r = ''POST'' then
               (case decoded of
                  Inl _ \<Rightarrow> ((400, Plain ''Invalid request body''), w)
                | Inr cmd \<Rightarrow> send_and_answer (\<lambda>err. (500, ErrorBody err)) (202, NoBody) (Exec m cmd w i))
             else ((200, NoBody), w))"

definition handle_logs :: "'w Manager \<Rightarrow> bool \<Rightarrow> http_request \<Rightarrow> 'w \<Rightarrow> response \<times> 'w" where
  "handle_logs m follow r w =
     (let i = drop (length ''/sandboxes/logs/'') (hr_Path r)
      in if i = [] then ((400, Plain ''Missing sandbox ID''), w)
         else send_and_answer
                (\<lambda>err. if err = ErrSandboxNotFound then (404, Plain ''Sandbox not found'') else (200, NoBody)) (200, NoBody)
                (StreamLogs m follow w i))"

definition handle_hibernate :: "'w Manager \<Rightarrow> http_request \<Rightarrow> 'w \<Rightarrow> response \<times> 'w" where
  "handle_hibernate m r w =
     (if hr_Method r \<noteq> ''POST'' then (not_allowed, w)
      else let i = drop (length ''/sandboxes/hibernate/'') (hr_Path r)
           in if i = [] then ((400, Plain ''Missing sandbox ID''), w)
              else send_and_answer not_found_or_500 (202, Fields [(''status'', ''hibernating''), (''id'', i)]) (HibernateSandbox m w i))"

definition handle_wake :: "'w Manager \<Rightarrow> http_request \<Rightarrow> 'w \<Rightarrow> response \<times> 'w" where
  "handle_wake m r w =
     (if hr_Method r \<noteq> ''POST'' then (not_allowed, w)
      else let i = drop (length ''/sandboxes/wake/'') (hr_Path r)
           in if i = [] then ((400, Plain ''Missing sandbox ID''), w)
              else send_and_answer not_found_or_500 (202, Fields [(''status'', ''waking''), (''id'', i)]) (WakeSandbox m w i))"

text \<open>The interactive socket: the command it sends to the sandbox.\<close>

definition handle_exec_sock :: "'w Manager \<Rightarrow> bool \<Rightarrow> string \<Rightarrow> http_request \<Rightarrow> 'w \<Rightarrow> response \<times> 'w" where
  "handle_exec_sock m upgraded cmdStr r w =
     (let i = drop (length ''/sandboxes/exec/sock/'') (hr_Path r)
      in if i = [] then ((400, Plain ''Missing sandbox ID''), w)
         else if \<not> upgraded then ((400, NoBody), w)
         else send_and_answer (\<lambda>err. (101, ErrorBody err)) (101, NoBody)
                (ExecInteractive m (str_fields (if cmdStr = [] then ''sh'' else cmdStr)) w i))"

section \<open>Handlers of Thanatos\<close>

record TerminationAPIRequest =
  ta_Delay :: string
  ta_GracePeriod :: string
  ta_CreateCheckpoint :: bool
  ta_Reason :: string

definition extractSandboxID :: "string \<Rightarrow> string \<Rightarrow> string" where
  "extractSandboxID path pre = (if \<not> prefix pre path then [] else TrimSlash (drop (length pre) path))"

definition parse_optional :: "string \<Rightarrow> duration option" where
  "parse_optional s = (if s = [] then Some 0 else ParseDuration s)"

definition term_error_text :: "term_error \<Rightarrow> string" where
  "term_error_text e = (case e of
      ErrTerminationNotFound \<Rightarrow> ''termination not found''
    | ErrTerminationAlreadyCancelled \<Rightarrow> ''termination already cancelled''
    | TermError s \<Rightarrow> s)"

text \<open>An empty body is the end of file for the decoder, which the handler takes for a request without fields.\<close>

definition termination_body :: "string + TerminationAPIRequest \<Rightarrow> TerminationAPIRequest option" where
  "termination_body decoded =
     (case decoded of
        Inr q \<Rightarrow> Some q
      | Inl err \<Rightarrow>
          if err = ''EOF'' then Some \<lparr>ta_Delay = [], ta_GracePeriod = [], ta_CreateCheckpoint = False, ta_Reason = []\<rparr>
          else None)"

definition handleScheduleTermination ::
    "string \<Rightarrow> go_time \<Rightarrow> string + TerminationAPIRequest \<Rightarrow> SandboxID \<Rightarrow> DeferredScheduler \<Rightarrow> response \<times> DeferredScheduler" where
  "handleScheduleTermination uuid now decoded i s =
     (case termination_body decoded of
        None \<Rightarrow> ((400, Plain ''Invalid request body''), s)
      | Some q \<Rightarrow>
          (case parse_optional (ta_Delay q) of
             None \<Rightarrow> ((400, Plain ''Invalid delay format''), s)
           | Some delay \<Rightarrow>
               (case parse_optional (ta_GracePeriod q) of
                  None \<Rightarrow> ((400, Plain ''Invalid grace_period format''), s)
                | Some grace \<Rightarrow>
                    (case Schedule uuid now (Some \<lparr>dr_SandboxID = i, dr_TemplateID = [], dr_Delay = delay, dr_GracePeriod = grace,
                         dr_CreateCheckpoint = ta_CreateCheckpoint q, dr_Reason = ta_Reason q, dr_RequestedBy = []\<rparr>) s of
                       (Inl err, s') \<Rightarrow> ((500, Plain (term_error_text err)), s')
                     | (Inr resp, s') \<Rightarrow>
                         ((202, Fields [(''termination_id'', rp_TerminationID resp), (''sandbox_id'', rp_SandboxID resp),
                                        (''status'', ''pending''), (''message'', ''Termination scheduled'')]), s')))))"

definition status_text :: "DeferredStatus \<Rightarrow> string" where
  "status_text s = (case s of StatusPending \<Rightarrow> ''pending'' | StatusInProgress \<Rightarrow> ''in_progress'' | StatusCompleted \<Rightarrow> ''completed''
     | StatusCancelled \<Rightarrow> ''cancelled'' | StatusFailed \<Rightarrow> ''failed'')"

definition no_termination :: "term_error \<Rightarrow> response" where
  "no_termination err =
     (if err = ErrTerminationNotFound then (404, Plain ''No termination found for sandbox'') else (500, Plain (term_error_text err)))"

definition handleGetTerminationStatus :: "SandboxID \<Rightarrow> DeferredScheduler \<Rightarrow> response" where
  "handleGetTerminationStatus i s =
     (case GetBySandbox i s of
        Inl err \<Rightarrow> no_termination err
      | Inr resp \<Rightarrow> (200, Fields [(''termination_id'', rp_TerminationID resp), (''sandbox_id'', rp_SandboxID resp),
          (''status'', status_text (rp_Status resp)), (''checkpoint_id'', rp_CheckpointID resp), (''message'', rp_ErrorMessage resp)]))"

definition handleCancelTermination :: "SandboxID \<Rightarrow> DeferredScheduler \<Rightarrow> response \<times> DeferredScheduler" where
  "handleCancelTermination i s =
     (case GetBySandbox i s of
        Inl err \<Rightarrow> (no_termination err, s)
      | Inr resp \<Rightarrow>
          (case Cancel (rp_TerminationID resp) s of
             (Some ErrTerminationAlreadyCancelled, s') \<Rightarrow> ((409, Plain ''Termination already cancelled''), s')
           | (Some err, s') \<Rightarrow> ((500, Plain (term_error_text err)), s')
           | (None, s') \<Rightarrow> ((200, Fields [(''status'', ''cancelled''), (''message'', ''Termination cancelled successfully'')]), s')))"

definition HandleTerminate ::
    "string \<Rightarrow> go_time \<Rightarrow> http_request \<Rightarrow> string + TerminationAPIRequest \<Rightarrow> DeferredScheduler \<Rightarrow> response \<times> DeferredScheduler" where
  "HandleTerminate uuid now r decoded s =
     (let i = extractSandboxID (hr_Path r) ''/sandboxes/terminate/''
      in if i = [] then ((400, Plain ''Missing sandbox ID''), s)
         else if hr_Method r = ''POST'' then handleScheduleTermination uuid now decoded i s
         else if hr_Method r = ''GET'' then (handleGetTerminationStatus i s, s)
         else if hr_Method r = ''DELETE'' then handleCancelTermination i s
         else (not_allowed, s))"

definition HandleCheckpoints :: "http_request \<Rightarrow> 'r hypnos option \<Rightarrow> response" where
  "HandleCheckpoints r hypnos =
     (if hr_Method r \<noteq> ''GET'' then not_allowed
      else case ListCheckpoints hypnos (extractSandboxID (hr_Path r) ''/sandboxes/checkpoints/'') of
             Inl err \<Rightarrow> (500, Plain err)
           | Inr cs \<Rightarrow> (200, Checkpoints cs))"

definition HandleResume ::
    "'r sandbox_ops \<Rightarrow> (string \<Rightarrow> string + string) \<Rightarrow> hypnos_env \<Rightarrow> http_request \<Rightarrow> string + string \<Rightarrow> 'r hypnos option
     \<Rightarrow> response \<times> 'r hypnos option" where
  "HandleResume rt unz env r decoded hypnos =
     (if hr_Method r \<noteq> ''POST'' then (not_allowed, hypnos)
      else case decoded of
             Inl _ \<Rightarrow> ((400, Plain ''Invalid request body''), hypnos)
           | Inr key \<Rightarrow>
               if key = [] then ((400, Plain ''checkpoint_id is required''), hypnos)
               else (case sched_Resume rt unz env (Some key) hypnos of
                       (Inl ErrCheckpointNotFound, h) \<Rightarrow> ((404, Plain ''Checkpoint not found''), h)
                     | (Inl (ResumeError err), h) \<Rightarrow> ((500, Plain err), h)
                     | (Inr (i, from_key, _), h) \<Rightarrow>
                         ((202, Fields [(''sandbox_id'', i), (''status'', ''resumed''), (''resumed_from'', from_key),
                                        (''message'', ''Sandbox resumed from checkpoint'')]), h)))"

section \<open>Handlers of Persephone\<close>

record SeasonRequest =
  sq_ID :: string
  sq_Name :: string
  sq_Description :: string
  sq_Schedule :: SeasonSchedule
  sq_MinNodes :: int
  sq_MaxNodes :: int
  sq_TargetUtil :: float64
  sq_Prewarming :: PrewarmConfig

definition HandleCreateSeason :: "http_request \<Rightarrow> string + SeasonRequest \<Rightarrow> Scaler \<Rightarrow> response \<times> Scaler" where
  "HandleCreateSeason r decoded s =
     (if hr_Method r \<noteq> ''POST'' then (not_allowed, s)
      else case decoded of
             Inl _ \<Rightarrow> ((400, Plain ''Invalid request body''), s)
           | Inr q \<Rightarrow>
               let season = zero_Season\<lparr>sn_ID := sq_ID q, sn_Name := sq_Name q, sn_Description := sq_Description q,
                     sn_Schedule := sq_Schedule q, sn_MinNodes := sq_MinNodes q, sn_MaxNodes := sq_MaxNodes q,
                     sn_TargetUtilization := sq_TargetUtil q, sn_Prewarming := sq_Prewarming q\<rparr>
               in ((201, Fields [(''status'', ''created''), (''id'', sn_ID season)]),
                   s\<lparr>sc_Persephone := DefineSeason season (sc_Persephone s),
                     sc_seasonActivator := RegisterSeason season (sc_seasonActivator s)\<rparr>))"

definition HandleListSeasons :: "http_request \<Rightarrow> Scaler \<Rightarrow> response" where
  "HandleListSeasons r s =
     (if hr_Method r \<noteq> ''GET'' then not_allowed
      else (200, Seasons (case bs_current (sc_Persephone s) of None \<Rightarrow> [] | Some c \<Rightarrow> [c])))"

definition HandleActivateSeason :: "http_request \<Rightarrow> Scaler \<Rightarrow> response \<times> Scaler" where
  "HandleActivateSeason r s =
     (if hr_Method r \<noteq> ''POST'' then (not_allowed, s)
      else
        let rest = drop (length ''/persephone/seasons/'') (hr_Path r);
            idx = int (length rest) - int (length ''/activate'');
            seasonID = (if idx > 0 then take (nat idx) rest else rest)
        in ((200, Fields [(''status'', ''activated''), (''season_id'', seasonID)]),
            s\<lparr>sc_Persephone := ApplySeason seasonID (sc_Persephone s)\<rparr>))"

definition handle_season :: "http_request \<Rightarrow> Scaler \<Rightarrow> response \<times> Scaler" where
  "handle_season r s =
     (if suffix ''/activate'' (hr_Path r) then HandleActivateSeason r s else (HandleListSeasons r s, s))"

definition HandleGetForecast :: "http_request \<Rightarrow> string \<Rightarrow> response" where
  "HandleGetForecast r windowStr =
     (if hr_Method r \<noteq> ''GET'' then not_allowed
      else case ParseDuration (if windowStr = [] then ''24h'' else windowStr) of
             None \<Rightarrow> (400, Plain ''Invalid window duration'')
           | Some window \<Rightarrow> (200, ForecastOf window))"

definition HandleGetRecommendations :: "http_request \<Rightarrow> Scaler \<Rightarrow> response" where
  "HandleGetRecommendations r s =
     (if hr_Method r \<noteq> ''GET'' then not_allowed
      else (200, RecommendationFor
             (case bs_current (sc_Persephone s) of
                Some season \<Rightarrow> if float_positive (sn_TargetUtilization season) then sn_TargetUtilization season else 0x3FE6666666666666
              | None \<Rightarrow> 0x3FE6666666666666)))"

section \<open>The server\<close>

text \<open>What was decoded of a request, for the route that decodes it.\<close>

record decoded =
  bd_submit :: "string + SandboxRequest"
  bd_exec :: "string + string list"
  bd_terminate :: "string + TerminationAPIRequest"
  bd_resume :: "string + string"
  bd_season :: "string + SeasonRequest"
  bd_window :: string
  bd_follow :: bool
  bd_upgraded :: bool
  bd_cmd :: string

record server =
  srv_cluster :: cluster
  srv_terminations :: DeferredScheduler
  srv_scaler :: Scaler

definition handle_templates :: "http_request \<Rightarrow> cluster \<Rightarrow> response" where
  "handle_templates r w = (if hr_Method r \<noteq> ''GET'' then not_allowed else (200, Templates (ListTemplates (c_templates w))))"

definition handle_policies :: "http_request \<Rightarrow> cluster \<Rightarrow> response" where
  "handle_policies r w =
     (if hr_Method r \<noteq> ''GET'' then not_allowed
      else (200, Policies (map (\<lambda>(t, _). policy_of (c_policies w) t) (byTplID (c_policies w)))))"

text \<open>The controller the server starts: without runtime, hibernation, exporter and auditor.\<close>

definition api_controller :: "'r ShutdownController" where
  "api_controller = \<lparr>ct_Runtime = None, ct_Hypnos = False,
     ct_PolicyResolver = (\<lambda>i t r. Inr (ResolvePolicy (NewStaticPolicyResolver None) t r)), ct_Exporter = False, ct_Auditor = False\<rparr>"

definition on_cluster :: "server \<Rightarrow> response \<times> cluster \<Rightarrow> response \<times> server" where
  "on_cluster s res = (case res of (resp, w) \<Rightarrow> (resp, s\<lparr>srv_cluster := w\<rparr>))"

definition on_scaler :: "server \<Rightarrow> response \<times> Scaler \<Rightarrow> response \<times> server" where
  "on_scaler s res = (case res of (resp, p) \<Rightarrow> (resp, s\<lparr>srv_scaler := p\<rparr>))"

definition dispatch ::
    "cluster Manager \<Rightarrow> cluster nyx \<Rightarrow> (http_request \<Rightarrow> response) \<Rightarrow> string \<Rightarrow> (nat \<Rightarrow> go_time) \<Rightarrow> http_request \<Rightarrow> decoded \<Rightarrow> server
     \<Rightarrow> response \<times> server" where
  "dispatch m nyx other uuid clk r d s =
     (let w = srv_cluster s
      in case route (hr_Path r) of
           RSubmit \<Rightarrow> on_cluster s (handle_submit m uuid clk r (bd_submit d) w)
         | RSandboxes \<Rightarrow> on_cluster s (handle_list m r w)
         | RSandbox \<Rightarrow> on_cluster s (handle_sandbox m nyx r (bd_exec d) w)
         | RLogs \<Rightarrow> on_cluster s (handle_logs m (bd_follow d) r w)
         | RHibernate \<Rightarrow> on_cluster s (handle_hibernate m r w)
         | RWake \<Rightarrow> on_cluster s (handle_wake m r w)
         | RExecSock \<Rightarrow> on_cluster s (handle_exec_sock m (bd_upgraded d) (bd_cmd d) r w)
         | RTemplates \<Rightarrow> (handle_templates r w, s)
         | RPolicies \<Rightarrow> (handle_policies r w, s)
         | RTerminate \<Rightarrow>
             (case HandleTerminate uuid (clk 0) r (bd_terminate d) (srv_terminations s) of
                (resp, ts) \<Rightarrow> (resp, s\<lparr>srv_terminations := ts\<rparr>))
         | RCheckpoints \<Rightarrow> (HandleCheckpoints r (None :: unit hypnos option), s)
         | RResume \<Rightarrow>
             ((if hr_Method r \<noteq> ''POST'' then not_allowed
               else case bd_resume d of
                      Inl _ \<Rightarrow> (400, Plain ''Invalid request body'')
                    | Inr key \<Rightarrow> if key = [] then (400, Plain ''checkpoint_id is required'')
                                 else (500, Plain ''hypnos manager not configured'')), s)
         | RRedirect \<Rightarrow> ((301, NoBody), s)
         | RNotFound \<Rightarrow> ((404, Plain ''404 page not found''), s)
         | RSeasons \<Rightarrow> on_scaler s (HandleCreateSeason r (bd_season d) (srv_scaler s))
         | RSeason \<Rightarrow> on_scaler s (handle_season r (srv_scaler s))
         | RForecast \<Rightarrow> (HandleGetForecast r (bd_window d), s)
         | RRecommendations \<Rightarrow> (HandleGetRecommendations r (srv_scaler s), s)
         | RMetrics \<Rightarrow> (other r, s))"

text \<open>The resume route of the server is the handler without a hibernation manager.\<close>

lemma resume_unconfigured:
  "fst (HandleResume rt unz env r body None) =
     (if hr_Method r \<noteq> ''POST'' then not_allowed
      else case body of
             Inl _ \<Rightarrow> (400, Plain ''Invalid request body'')
           | Inr key \<Rightarrow> if key = [] then (400, Plain ''checkpoint_id is required'')
                        else (500, Plain ''hypnos manager not configured''))"
  by (simp add: HandleResume_def sched_Resume_def split: sum.split)

definition api_serve ::
    "api_config \<Rightarrow> 'o api_services \<Rightarrow> go_time \<Rightarrow> outside \<Rightarrow> secret_provider list \<Rightarrow> 's auditor \<Rightarrow> go_time \<Rightarrow> go_time \<Rightarrow>
     (http_request \<Rightarrow> server \<Rightarrow> response \<times> server) \<Rightarrow> http_request \<Rightarrow> server \<Rightarrow> 's \<Rightarrow> response \<times> server \<times> 's" where
  "api_serve cfg sv boot w ps audit start now mux r s a =
     (case api_gate cfg sv boot w ps audit start now r a of
        Some (Refused code msg, a') \<Rightarrow> ((code, Plain msg), s, a')
      | Some (Passed i, a') \<Rightarrow> (case mux r s of (resp, s') \<Rightarrow> (resp, s', a'))
      | None \<Rightarrow> (case mux r s of (resp, s') \<Rightarrow> (resp, s', a)))"

text \<open>
  C7: Only callers with credentials that hold, and with a permission for what the request is mapped to,
  change anything: if serving a request changes the state of the server, the caller had the API key, an
  unexpired token signed under a key of the environment, or a verified client certificate, and the
  authorizer granted the action on the resource.\<close>

theorem only_admitted_act:
  assumes "api_serve cfg sv boot w ps audit start now mux r s a = (resp, s', a')" "s' \<noteq> s"
  shows "\<exists>i action resource. MapRequest r (Some i) = (action, resource, None) \<and> api_authorize cfg sv i action resource = None \<and>
    ((\<exists>token. Bearer_Extract r = Inr (APIKeyCredential [] token) \<and>
        (token = ac_APIKey cfg \<and> token \<noteq> [] \<and> id_Roles i = [''admin''] \<or> signed_key_holder (as_jose sv) w now token i)) \<or>
     ac_TLSClientAuth cfg = ''require-verify'' \<and> ac_TLSCAFile cfg \<noteq> [] \<and>
       (\<exists>cert certs. hr_TLS r = Some (cert # certs) \<and> as_verify sv cert = None \<and> id_Roles i = [''agent'']))"
proof -
  obtain i a1 where g: "api_gate cfg sv boot w ps audit start now r a = Some (Passed i, a1)"
    using assms api_gate_closed [of cfg sv boot w ps audit start now r a]
    by (auto simp: api_serve_def split: option.splits verdict.splits)
  obtain action resource where "MapRequest r (Some i) = (action, resource, None)" "api_authorize cfg sv i action resource = None"
    using g by (auto simp: api_gate_def Wrap_Passed split: if_splits)
  moreover note gate_passed [OF disjI2 [OF g]]
  ultimately show ?thesis by blast
qed

definition demo_server :: server where
  "demo_server = \<lparr>srv_cluster = demo_cluster, srv_terminations = NewDeferredScheduler, srv_scaler =
     \<lparr>sc_Persephone = NewBasicSeasonalScaler None, sc_seasonActivator = \<lparr>sa_seasons = [], sa_current = None\<rparr>\<rparr>\<rparr>"

definition demo_decoded :: decoded where
  "demo_decoded = \<lparr>bd_submit = Inl ''EOF'', bd_exec = Inl ''EOF'',
     bd_terminate = Inr \<lparr>ta_Delay = [], ta_GracePeriod = [], ta_CreateCheckpoint = False, ta_Reason = []\<rparr>,
     bd_resume = Inl ''EOF'', bd_season = Inl ''EOF'', bd_window = [], bd_follow = False, bd_upgraded = True, bd_cmd = []\<rparr>"

definition demo_nyx :: "cluster nyx" where
  "demo_nyx = \<lparr>nyx_ListSnapshots = (\<lambda>t w. Inr []), nyx_DeleteSnapshot = (\<lambda>t i w. (None, w))\<rparr>"

definition demo_mux :: "http_request \<Rightarrow> server \<Rightarrow> response \<times> server" where
  "demo_mux r s = dispatch demo_manager demo_nyx (\<lambda>_. (200, NoBody)) ''t1'' (\<lambda>_. 5) r demo_decoded s"

definition demo_served :: "response \<times> server \<times> unit" where
  "demo_served = api_serve demo_api_config demo_services 0 demo_outside [EnvProvider] Noop_RecordAccess 1 2 demo_mux
     (Cerberus.demo_request ''POST'' ''/sandboxes/terminate/x'') demo_server ()"

theorem only_admitted_act_witness:
  "\<exists>i action resource. MapRequest (Cerberus.demo_request ''POST'' ''/sandboxes/terminate/x'') (Some i) = (action, resource, None) \<and>
     map_option dt_Status (get (ds_terminations (srv_terminations (fst (snd demo_served)))) ''t1'') = Some StatusPending"
proof -
  have t1: "map_option dt_Status (get (ds_terminations (srv_terminations (fst (snd demo_served)))) ''t1'') = Some StatusPending"
    by code_simp
  then have ne: "fst (snd demo_served) \<noteq> demo_server" by (auto simp: demo_server_def NewDeferredScheduler_def)
  have "api_serve demo_api_config demo_services 0 demo_outside [EnvProvider] Noop_RecordAccess 1 2 demo_mux
     (Cerberus.demo_request ''POST'' ''/sandboxes/terminate/x'') demo_server () =
     (fst demo_served, fst (snd demo_served), snd (snd demo_served))" unfolding demo_served_def prod.collapse by (rule refl)
  from only_admitted_act [OF this ne] t1 show ?thesis by blast
qed

section \<open>Reading changes nothing\<close>

lemma send_and_answer_snd [simp]: "snd (send_and_answer f d res) = snd res"
  by (cases res) (auto simp: send_and_answer_def split: option.splits)

lemma on_cluster_snd [simp]: "snd (on_cluster s res) = s\<lparr>srv_cluster := snd res\<rparr>"
  by (cases res) (simp add: on_cluster_def)

lemma on_scaler_snd [simp]: "snd (on_scaler s res) = s\<lparr>srv_scaler := snd res\<rparr>"
  by (cases res) (simp add: on_scaler_def)

lemma HandleTerminate_read: "hr_Method r \<notin> {''POST'', ''DELETE''} \<Longrightarrow> snd (HandleTerminate uuid now r d s) = s"
  by (simp add: HandleTerminate_def Let_def)

lemma handlers_read:
  assumes "hr_Method r \<notin> {''POST'', ''DELETE''}"
  shows "snd (handle_submit m uuid clk r b w) = w" "snd (handle_list m r w) = w" "snd (handle_sandbox m nyx r x w) = w"
    "snd (handle_hibernate m r w) = w" "snd (handle_wake m r w) = w"
    "snd (HandleCreateSeason r sb p) = p" "snd (handle_season r p) = p"
  using assms
  by (auto simp: handle_submit_def handle_list_def handle_sandbox_def handle_hibernate_def handle_wake_def
      HandleCreateSeason_def handle_season_def HandleActivateSeason_def Let_def
      split: sum.split list.split)

lemma longest_match_Some: "longest_match path ps = Some (p, r) \<Longrightarrow> (p, r) \<in> set ps \<and> pattern_matches path p"
  by (induction ps arbitrary: p r) (auto simp: Let_def split: if_splits option.splits)

lemma route_prefix:
  "route path = RLogs \<Longrightarrow> prefix ''/sandboxes/logs/'' path"
  "route path = RExecSock \<Longrightarrow> prefix ''/sandboxes/exec/sock/'' path"
proof -
  have *: "\<exists>p. (p, r) \<in> set patterns \<and> pattern_matches path p" if "route path = r" "r \<notin> {RRedirect, RNotFound}" for r
    using that by (auto simp: route_def dest: longest_match_Some split: if_splits option.splits)
  show "route path = RLogs \<Longrightarrow> prefix ''/sandboxes/logs/'' path"
    using * [of RLogs] by (auto simp: patterns_def pattern_matches_def)
  show "route path = RExecSock \<Longrightarrow> prefix ''/sandboxes/exec/sock/'' path"
    using * [of RExecSock] by (auto simp: patterns_def pattern_matches_def)
qed

text \<open>
  A request whose method is neither POST nor DELETE, which the gate takes for a read or an update,
  changes nothing on the server: no run, no queued request, no termination and no command to a node.
  The two exceptions are the log stream and the interactive shell, which any method reaches.\<close>

theorem reads_change_nothing:
  assumes "hr_Method r \<notin> {''POST'', ''DELETE''}" "\<not> prefix ''/sandboxes/logs/'' (hr_Path r)" "\<not> prefix ''/sandboxes/exec/sock/'' (hr_Path r)"
  shows "snd (dispatch m nyx other uuid clk r d s) = s"
proof -
  have "route (hr_Path r) \<noteq> RLogs" "route (hr_Path r) \<noteq> RExecSock"
    using assms(2,3) route_prefix by blast+
  moreover obtain resp where
    "HandleTerminate uuid (clk 0) r (bd_terminate d) (srv_terminations s) = (resp, srv_terminations s)"
    using HandleTerminate_read [OF assms(1)] by (metis prod.collapse)
  ultimately show ?thesis
    by (simp add: dispatch_def Let_def handlers_read [OF assms(1)] split: api_route.split)
qed

theorem reads_change_nothing_witness:
  "snd (demo_mux (Cerberus.demo_request ''PUT'' ''/sandboxes/terminate/x'') demo_server) = demo_server"
  unfolding demo_mux_def by (rule reads_change_nothing) (simp_all add: Cerberus.demo_request_def)

text \<open>A method that a sandbox route does not serve is answered with success.\<close>

lemma silent_success:
  "handle_sandbox m nyx (Cerberus.demo_request ''PUT'' ''/sandboxes/x'') d w = ((200, NoBody), w)"
  "handle_sandbox m nyx (Cerberus.demo_request ''POST'' ''/sandboxes/x/logs'') d w = ((200, NoBody), w)"
  by (simp_all add: handle_sandbox_def Cerberus.demo_request_def)

text \<open>Activating a season that does not exist is answered as done, and changes nothing.\<close>

lemma unknown_season_activated:
  "get (bs_seasons (sc_Persephone s)) ''nope'' = None \<Longrightarrow>
   HandleActivateSeason (Cerberus.demo_request ''POST'' ''/persephone/seasons/nope/activate'') s =
     ((200, Fields [(''status'', ''activated''), (''season_id'', ''nope'')]), s)"
  by (simp add: HandleActivateSeason_def ApplySeason_def Cerberus.demo_request_def)

section \<open>A termination brings the server down\<close>

lemma no_runtime_panics: "RequestTermination api_controller gz env (Some req) th = None"
  by (simp add: RequestTermination_def api_controller_def export_step_def checkpoint_step_def shutdown_step_def
      ResolvePolicy_def NewStaticPolicyResolver_def Let_def)

text \<open>
  A termination requested over the API is accepted, for any identifier, and then panics the server:
  the controller was started without a runtime, so the goroutine that runs the termination when its
  delay has passed calls a nil interface, whatever the state of anything else.\<close>

theorem termination_crashes_server:
  assumes "hr_Method r = ''POST''" "hr_Path r = ''/sandboxes/terminate/'' @ i" "i \<noteq> []" "last i \<noteq> CHR ''/''"
    and "parse_optional (ta_Delay q) \<noteq> None" "parse_optional (ta_GracePeriod q) \<noteq> None" "\<not> pending_for s i"
  shows "\<exists>fs s'. HandleTerminate uuid now r (Inr q) s = ((202, Fields fs), s') \<and>
    executeDeferred api_controller gz env uuid s' th = None"
proof -
  obtain delay grace where d: "parse_optional (ta_Delay q) = Some delay" "parse_optional (ta_GracePeriod q) = Some grace"
    using assms(5,6) by blast
  have i: "extractSandboxID (hr_Path r) ''/sandboxes/terminate/'' = i"
    using assms(2,4) by (simp add: extractSandboxID_def TrimSlash_def)
  obtain fs s' where h: "HandleTerminate uuid now r (Inr q) s = ((202, Fields fs), s')"
    and t: "map_option dt_Status (get (ds_terminations s') uuid) = Some StatusPending"
    using assms(1,3,7) i d by (auto simp: HandleTerminate_def handleScheduleTermination_def termination_body_def Schedule_def Let_def)
  from t obtain req s2 where "begin_deferred uuid s' = (Some req, s2)"
    by (auto simp: begin_deferred_def)
  then have "executeDeferred api_controller gz env uuid s' th = None"
    by (simp add: executeDeferred_def no_runtime_panics)
  with h show ?thesis by blast
qed

theorem termination_crashes_server_witness:
  "\<exists>fs s'. HandleTerminate ''t1'' 5 (Cerberus.demo_request ''POST'' ''/sandboxes/terminate/no-such-sandbox'')
      (Inr \<lparr>ta_Delay = [], ta_GracePeriod = [], ta_CreateCheckpoint = False, ta_Reason = []\<rparr>) NewDeferredScheduler = ((202, Fields fs), s') \<and>
    executeDeferred api_controller demo_gz demo_term_env ''t1'' s' \<lparr>th_hypnos = demo_awake, th_exports = [], th_events = []\<rparr> = None"
proof -
  let ?r = "Cerberus.demo_request ''POST'' ''/sandboxes/terminate/no-such-sandbox''"
  have "hr_Method ?r = ''POST''" "hr_Path ?r = ''/sandboxes/terminate/'' @ ''no-such-sandbox''"
    by (simp_all add: Cerberus.demo_request_def)
  moreover have "''no-such-sandbox'' \<noteq> []" "last ''no-such-sandbox'' \<noteq> CHR ''/''" by simp_all
  moreover have "parse_optional [] \<noteq> None" by (simp add: parse_optional_def)
  moreover have "\<not> pending_for NewDeferredScheduler ''no-such-sandbox''" by code_simp
  ultimately show ?thesis
    using termination_crashes_server [of ?r "''no-such-sandbox''"
        "\<lparr>ta_Delay = [], ta_GracePeriod = [], ta_CreateCheckpoint = False, ta_Reason = []\<rparr>" NewDeferredScheduler "''t1''" 5
        demo_gz demo_term_env "\<lparr>th_hypnos = demo_awake, th_exports = [], th_events = []\<rparr>"]
    by (simp only: TerminationAPIRequest.simps not_False_eq_True simp_thms)
qed

end
