(* ===== verification/Styx.thy ===== *)
theory Styx
  imports Domain
begin

unbundle bit_operations_syntax

text \<open>
  The host network gateway (\<open>src/pkg/styx/host_gateway.go\<close>): a bridge, an IPv4 address and a
  TAP device per sandbox, and firewall rules from the sandbox's contract.

  Addresses are 32-bit words; the invalid address that \<open>netip.Addr.Next\<close> gives past the end is
  \<open>None\<close>. The kernel is reached through netlink and iptables: every operation returns the list of
  the calls it makes that change something, in order, and the answers are an argument
  (\<open>host_env\<close>: which call fails, which links, addresses and rules exist when the operation
  starts). A slice out of range is \<open>StyxPanic\<close>.
\<close>

section \<open>Addresses\<close>

type_synonym ipv4 = "32 word"
type_synonym prefix = "ipv4 \<times> nat"

definition addr_Next :: "ipv4 option \<Rightarrow> ipv4 option" where
  "addr_Next a = (case a of None \<Rightarrow> None | Some x \<Rightarrow> if x = - 1 then None else Some (x + 1))"

definition prefix_Contains :: "prefix \<Rightarrow> ipv4 option \<Rightarrow> bool" where
  "prefix_Contains p a =
     (case a of None \<Rightarrow> False | Some x \<Rightarrow> drop_bit (32 - snd p) (fst p XOR x) = 0)"

section \<open>Contracts, calls and state\<close>

record Contract =
  ct_ID :: string
  ct_AllowedCIDRs :: "prefix list"
  ct_DenyPrivate :: bool
  ct_DenyMetadata :: bool

datatype fw_target = DROP | ACCEPT

datatype fw_rule =
    TapRule string prefix fw_target
  | Masquerade prefix
  | ForwardIn string
  | ForwardOut string

datatype host_call =
    AddBridge string | LinkSetUp string | AddrAdd string prefix
  | AddTap string | LinkDel string | LinkSetMaster string string
  | IptAppend fw_rule | IptInsert fw_rule

datatype link_kind = BridgeLink | OtherLink

record host_env =
  he_fails :: "host_call \<Rightarrow> string option"
  he_link :: "string \<Rightarrow> link_kind option"
  he_addrs :: "string \<Rightarrow> string + prefix list"
  he_exists :: "fw_rule \<Rightarrow> string + bool"

record hostGateway =
  gw_bridgeName :: string
  gw_bridgeCIDR :: prefix
  gw_allocations :: "(SandboxID, ipv4) gomap"

datatype styx_error = StyxPanic | StyxError string

definition NewHostGateway :: "string \<Rightarrow> prefix \<Rightarrow> hostGateway" where
  "NewHostGateway bridgeName cidr = \<lparr>gw_bridgeName = bridgeName, gw_bridgeCIDR = cidr, gw_allocations = []\<rparr>"

section \<open>Operations\<close>

text \<open>Make calls in order until one fails.\<close>

fun calls :: "host_env \<Rightarrow> host_call list \<Rightarrow> string option \<times> host_call list" where
  "calls env [] = (None, [])"
| "calls env (c # cs) =
     (case he_fails env c of
        Some err \<Rightarrow> (Some err, [c])
      | None \<Rightarrow> (case calls env cs of (err, made) \<Rightarrow> (err, c # made)))"

definition bridge_prefix :: "hostGateway \<Rightarrow> prefix option" where
  "bridge_prefix g =
     map_option (\<lambda>a. (a, snd (gw_bridgeCIDR g))) (addr_Next (Some (fst (gw_bridgeCIDR g))))"

definition ensureBridgeIP :: "host_env \<Rightarrow> hostGateway \<Rightarrow> string option \<times> host_call list" where
  "ensureBridgeIP env g =
     (case bridge_prefix g of
        None \<Rightarrow> (Some ''invalid bridge address'', [])
      | Some p \<Rightarrow>
          (case he_addrs env (gw_bridgeName g) of
             Inl err \<Rightarrow> (Some (''failed to list addresses: '' @ err), [])
           | Inr addrs \<Rightarrow> if p \<in> set addrs then (None, []) else calls env [AddrAdd (gw_bridgeName g) p]))"

definition ensureBridge :: "host_env \<Rightarrow> hostGateway \<Rightarrow> string option \<times> host_call list" where
  "ensureBridge env g =
     (let br = gw_bridgeName g
      in case he_link env br of
           Some OtherLink \<Rightarrow> (Some ''link exists but is not a bridge'', [])
         | Some BridgeLink \<Rightarrow>
             (case calls env [LinkSetUp br] of
                (Some err, cs) \<Rightarrow> (Some err, cs)
              | (None, cs) \<Rightarrow> (case ensureBridgeIP env g of (err, cs') \<Rightarrow> (err, cs @ cs')))
         | None \<Rightarrow>
             (case calls env [AddBridge br, LinkSetUp br] of
                (Some err, cs) \<Rightarrow> (Some err, cs)
              | (None, cs) \<Rightarrow> (case ensureBridgeIP env g of (err, cs') \<Rightarrow> (err, cs @ cs'))))"

lemma unat_next: "x \<noteq> - 1 \<Longrightarrow> unat (x + 1) = unat x + 1" for x :: ipv4
  using unatSuc [of x] by (metis Suc_eq_plus1 add.commute add_eq_0_iff)

function alloc_loop :: "prefix \<Rightarrow> ipv4 set \<Rightarrow> ipv4 option \<Rightarrow> ipv4 option" where
  "alloc_loop cidr used current =
     (case current of
        None \<Rightarrow> None
      | Some x \<Rightarrow>
          if prefix_Contains cidr (Some x)
          then if x \<notin> used then Some x else alloc_loop cidr used (addr_Next (Some x))
          else None)"
  by pat_completeness auto
termination
proof (relation "measure (\<lambda>(cidr, used, current). case current of None \<Rightarrow> 0 | Some x \<Rightarrow> 2 ^ 32 - unat x)", goal_cases)
  case (2 cidr used current x)
  have "unat x < 2 ^ 32" using unsigned_less [of x] by simp
  then show ?case using 2 unat_next [of x] by (auto simp: addr_Next_def)
qed simp

declare alloc_loop.simps [simp del]

definition allocateIP :: "SandboxID \<Rightarrow> hostGateway \<Rightarrow> (string + ipv4) \<times> hostGateway" where
  "allocateIP i g =
     (let used = snd ` set (gw_allocations g);
          start = addr_Next (addr_Next (Some (fst (gw_bridgeCIDR g))))
      in case alloc_loop (gw_bridgeCIDR g) used start of
           Some x \<Rightarrow> (Inr x, g\<lparr>gw_allocations := put (gw_allocations g) i x\<rparr>)
         | None \<Rightarrow> (Inl ''IP pool exhausted'', g))"

definition createTAP :: "host_env \<Rightarrow> string \<Rightarrow> string option \<times> host_call list" where
  "createTAP env name =
     (let old = (if he_link env name \<noteq> None then [LinkDel name] else [])
      in case calls env [AddTap name] of
           (Some err, cs) \<Rightarrow> (Some err, old @ cs)
         | (None, cs) \<Rightarrow>
             (case calls env [LinkSetUp name] of
                (Some err, cs') \<Rightarrow> (Some err, old @ cs @ cs' @ [LinkDel name])
              | (None, cs') \<Rightarrow> (None, old @ cs @ cs')))"

fun ensure_rules :: "host_env \<Rightarrow> fw_rule list \<Rightarrow> string option \<times> host_call list" where
  "ensure_rules env [] = (None, [])"
| "ensure_rules env (r # rs) =
     (case he_exists env r of
        Inl err \<Rightarrow> (Some err, [])
      | Inr present \<Rightarrow>
          (case (if present then (None, []) else calls env [IptAppend r]) of
             (Some err, cs) \<Rightarrow> (Some err, cs)
           | (None, cs) \<Rightarrow> (case ensure_rules env rs of (err, cs') \<Rightarrow> (err, cs @ cs'))))"

definition ensureIptablesRules :: "host_env \<Rightarrow> hostGateway \<Rightarrow> string option \<times> host_call list" where
  "ensureIptablesRules env g =
     ensure_rules env [Masquerade (gw_bridgeCIDR g), ForwardIn (gw_bridgeName g), ForwardOut (gw_bridgeName g)]"

definition metadata_ip :: prefix where
  "metadata_ip = (0xA9FEA9FE, 32)"

definition private_nets :: "prefix list" where
  "private_nets = [(0x0A000000, 8), (0xAC100000, 12), (0xC0A80000, 16)]"

definition contract_rules :: "string \<Rightarrow> Contract \<Rightarrow> fw_rule list" where
  "contract_rules tapName c =
     (if ct_DenyMetadata c then [TapRule tapName metadata_ip DROP] else []) @
     (if ct_DenyPrivate c then map (\<lambda>p. TapRule tapName p DROP) private_nets else []) @
     map (\<lambda>p. TapRule tapName p ACCEPT) (ct_AllowedCIDRs c)"

definition enforceContract :: "host_env \<Rightarrow> string \<Rightarrow> Contract option \<Rightarrow> string option \<times> host_call list" where
  "enforceContract env tapName contract =
     (case contract of None \<Rightarrow> (None, []) | Some c \<Rightarrow> calls env (map IptInsert (contract_rules tapName c)))"

definition tap_name :: "SandboxID \<Rightarrow> string option" where
  "tap_name i = (if length i < 8 then None else Some (''tap-'' @ take 8 i))"

definition Attach ::
    "host_env \<Rightarrow> SandboxID \<Rightarrow> Contract option \<Rightarrow> hostGateway
     \<Rightarrow> (styx_error + string \<times> ipv4 \<times> ipv4 option \<times> prefix) \<times> host_call list \<times> hostGateway" where
  "Attach env i contract g =
     (case ensureBridge env g of
        (Some err, cs) \<Rightarrow> (Inl (StyxError err), cs, g)
      | (None, cs) \<Rightarrow>
        (case allocateIP i g of
           (Inl err, g1) \<Rightarrow> (Inl (StyxError err), cs, g1)
         | (Inr ip, g1) \<Rightarrow>
           let freed = g1\<lparr>gw_allocations := del (gw_allocations g1) i\<rparr>
           in case tap_name i of
                None \<Rightarrow> (Inl StyxPanic, cs, g1)
              | Some tap \<Rightarrow>
                (case createTAP env tap of
                   (Some err, cs1) \<Rightarrow> (Inl (StyxError err), cs @ cs1, freed)
                 | (None, cs1) \<Rightarrow>
                   (case calls env [LinkSetMaster tap (gw_bridgeName g)] of
                      (Some err, cs2) \<Rightarrow> (Inl (StyxError err), cs @ cs1 @ cs2 @ [LinkDel tap], freed)
                    | (None, cs2) \<Rightarrow>
                      (case ensureIptablesRules env g of
                         (Some err, cs3) \<Rightarrow> (Inl (StyxError err), cs @ cs1 @ cs2 @ cs3, g1)
                       | (None, cs3) \<Rightarrow>
                         (case enforceContract env tap contract of
                            (Some err, cs4) \<Rightarrow>
                              (Inl (StyxError err), cs @ cs1 @ cs2 @ cs3 @ cs4 @ [LinkDel tap], freed)
                          | (None, cs4) \<Rightarrow>
                              (Inr (tap, ip, addr_Next (Some (fst (gw_bridgeCIDR g))), gw_bridgeCIDR g),
                               cs @ cs1 @ cs2 @ cs3 @ cs4, g1)))))))"

definition Detach ::
    "host_env \<Rightarrow> SandboxID \<Rightarrow> hostGateway \<Rightarrow> styx_error option \<times> host_call list \<times> hostGateway" where
  "Detach env i g =
     (if get (gw_allocations g) i = None then (None, [], g)
      else case tap_name i of
             None \<Rightarrow> (Some StyxPanic, [], g)
           | Some tap \<Rightarrow>
               let freed = g\<lparr>gw_allocations := del (gw_allocations g) i\<rparr>
               in if he_link env tap = None then (None, [], freed)
                  else (case calls env [LinkDel tap] of
                          (Some err, cs) \<Rightarrow> (Some (StyxError err), cs, g)
                        | (None, cs) \<Rightarrow> (None, cs, freed)))"

section \<open>Addresses are unique\<close>

lemma alloc_loop_Some:
  "alloc_loop cidr used (Some a) = Some x \<Longrightarrow> prefix_Contains cidr (Some x) \<and> x \<notin> used \<and> a \<le> x"
proof (induction cidr used "Some a" arbitrary: a rule: alloc_loop.induct)
  case (1 cidr used a)
  show ?case
  proof (cases "prefix_Contains cidr (Some a) \<and> a \<in> used")
    case True
    then have next_eq: "alloc_loop cidr used (addr_Next (Some a)) = Some x"
      using 1 by (subst (asm) (2) alloc_loop.simps) simp
    then have ne: "a \<noteq> - 1" by (auto simp: addr_Next_def alloc_loop.simps)
    then have "addr_Next (Some a) = Some (a + 1)" by (simp add: addr_Next_def)
    with 1 True next_eq have "prefix_Contains cidr (Some x) \<and> x \<notin> used \<and> a + 1 \<le> x" by auto
    moreover have "a \<le> a + 1" using unat_next [OF ne] by (simp add: word_le_nat_alt)
    ultimately show ?thesis by (meson order_trans)
  next
    case False
    then show ?thesis using "1.prems" by (subst (asm) alloc_loop.simps) (auto split: if_splits)
  qed
qed

lemma alloc_loop_None:
  assumes "alloc_loop cidr used (Some a) = None" "a \<le> x" "\<And>y. a \<le> y \<Longrightarrow> y \<le> x \<Longrightarrow> prefix_Contains cidr (Some y)"
  shows "x \<in> used"
  using assms
proof (induction cidr used "Some a" arbitrary: a rule: alloc_loop.induct)
  case (1 cidr used a)
  have in_a: "prefix_Contains cidr (Some a)" using "1.prems" by simp
  then have a_used: "a \<in> used" using "1.prems"(1) by (subst (asm) alloc_loop.simps) (auto split: if_splits)
  show ?case
  proof (cases "a = x")
    case False
    then have lt: "a < x" using "1.prems"(2) by simp
    then have ne: "a \<noteq> - 1" using word_order.extremum_strict by auto
    have step: "addr_Next (Some a) = Some (a + 1)" using ne by (simp add: addr_Next_def)
    have le: "a + 1 \<le> x" using lt unat_next [OF ne] by (simp add: word_le_nat_alt word_less_nat_alt)
    have "alloc_loop cidr used (Some (a + 1)) = None"
      using "1.prems"(1) in_a a_used step by (subst (asm) alloc_loop.simps) simp
    moreover have "\<And>y. a + 1 \<le> y \<Longrightarrow> y \<le> x \<Longrightarrow> prefix_Contains cidr (Some y)"
      using "1.prems"(3) unat_next [OF ne] by (simp add: word_le_nat_alt)
    moreover have nn: "\<not> a \<notin> used" using a_used by simp
    ultimately show ?thesis using "1.hyps" [OF refl in_a nn step] le by blast
  qed (use a_used in simp)
qed

definition gateway_ok :: "hostGateway \<Rightarrow> bool" where
  "gateway_ok g \<longleftrightarrow> distinct (map snd (gw_allocations g)) \<and>
     (\<forall>x \<in> snd ` set (gw_allocations g). prefix_Contains (gw_bridgeCIDR g) (Some x) \<and>
        x \<noteq> fst (gw_bridgeCIDR g) \<and> Some x \<noteq> addr_Next (Some (fst (gw_bridgeCIDR g))))"

lemma put_values: "snd ` set (put m k v) \<subseteq> insert v (snd ` set m)"
  by (induction m) (auto simp: put_def)

lemma distinct_put_values: "distinct (map snd m) \<Longrightarrow> v \<notin> snd ` set m \<Longrightarrow> distinct (map snd (put m k v))"
proof (induction m)
  case (Cons p m)
  have "snd ` set (put m k v) \<subseteq> insert v (snd ` set m)" by (rule put_values)
  then show ?case using Cons by (cases p) (auto simp: put_def)
qed (simp add: put_def)

lemma del_values: "snd ` set (del m k) \<subseteq> snd ` set m"
  by (induction m) (auto simp: del_def)

lemma distinct_del_values: "distinct (map snd m) \<Longrightarrow> distinct (map snd (del m k))"
proof (induction m)
  case (Cons p m)
  have "snd ` set (del m k) \<subseteq> snd ` set m" by (rule del_values)
  then show ?case using Cons by (cases p) (auto simp: del_def)
qed (simp add: del_def)

lemma two_past:
  assumes "addr_Next (addr_Next (Some b)) = Some a" "a \<le> x"
  shows "x \<noteq> b" "Some x \<noteq> addr_Next (Some b)"
proof -
  have b: "b \<noteq> - 1" "b + 1 \<noteq> - 1" "a = b + 1 + 1" using assms(1) by (auto simp: addr_Next_def split: if_splits)
  have "unat a = unat b + 2" using unat_next [OF b(1)] unat_next [OF b(2)] b(3) by simp
  then have "unat x \<ge> unat b + 2" using assms(2) by (simp add: word_le_nat_alt)
  then show "x \<noteq> b" "Some x \<noteq> addr_Next (Some b)"
    using unat_next [OF b(1)] b(1) by (auto simp: addr_Next_def)
qed

lemma allocateIP_ok:
  assumes ok: "gateway_ok g" and al: "allocateIP i g = (Inr x, g')"
  shows "gateway_ok g'" "get (gw_allocations g') i = Some x"
    "g' = g\<lparr>gw_allocations := put (gw_allocations g) i x\<rparr>" "x \<notin> snd ` set (gw_allocations g)"
proof -
  let ?start = "addr_Next (addr_Next (Some (fst (gw_bridgeCIDR g))))"
  have g': "g' = g\<lparr>gw_allocations := put (gw_allocations g) i x\<rparr>"
    and x: "alloc_loop (gw_bridgeCIDR g) (snd ` set (gw_allocations g)) ?start = Some x"
    using al by (auto simp: allocateIP_def Let_def split: option.splits)
  then obtain a where a: "?start = Some a" by (cases ?start) (auto simp: alloc_loop.simps)
  note s = alloc_loop_Some [OF x [unfolded a]] and t = two_past [OF a]
  show "gateway_ok g'"
    using ok s t put_values [of "gw_allocations g" i x] distinct_put_values [of "gw_allocations g" x i]
    unfolding gateway_ok_def g' by (auto dest!: subsetD)
  show "get (gw_allocations g') i = Some x" by (simp add: g')
  show "x \<notin> snd ` set (gw_allocations g)" using s by blast
qed (use al in \<open>auto simp: allocateIP_def Let_def split: option.splits\<close>)

lemma gateway_ok_freed: "gateway_ok g \<Longrightarrow> gateway_ok (g\<lparr>gw_allocations := del (gw_allocations g) i\<rparr>)"
  using set_del_subset [of "gw_allocations g" i] distinct_del_values [of "gw_allocations g" i]
  unfolding gateway_ok_def by auto

lemma Attach_gateway:
  assumes "Attach env i contract g = (res, cs, g')"
  shows "g' = g \<or> (\<exists>x g1. allocateIP i g = (Inr x, g1) \<and> (g' = g1 \<or> g' = g1\<lparr>gw_allocations := del (gw_allocations g1) i\<rparr>))"
proof (cases "ensureBridge env g")
  case (Pair err cs0)
  show ?thesis
  proof (cases err)
    case None
    show ?thesis
    proof (cases "allocateIP i g")
      case alloc: (Pair r g1)
      show ?thesis
      proof (cases r)
        case (Inl e)
        then show ?thesis using assms Pair None alloc
          by (auto simp: Attach_def allocateIP_def Let_def split: option.splits)
      next
        case (Inr x)
        then show ?thesis using assms Pair None alloc
          by (auto simp: Attach_def Let_def split: option.splits prod.splits)
      qed
    qed
  qed (use assms Pair in \<open>simp add: Attach_def\<close>)
qed

lemma gateway_ok_Attach: "gateway_ok g \<Longrightarrow> gateway_ok (snd (snd (Attach env i contract g)))"
proof -
  assume ok: "gateway_ok g"
  obtain res cs g' where at: "Attach env i contract g = (res, cs, g')" by (cases "Attach env i contract g")
  show ?thesis
    using Attach_gateway [OF at] ok allocateIP_ok(1) [OF ok] gateway_ok_freed at by auto
qed

lemma gateway_ok_Detach: "gateway_ok g \<Longrightarrow> gateway_ok (snd (snd (Detach env i g)))"
  by (auto simp: Detach_def Let_def gateway_ok_freed split: option.split prod.split)

inductive gateway_reachable :: "string \<Rightarrow> prefix \<Rightarrow> hostGateway \<Rightarrow> bool" for br cidr where
  gateway_new: "gateway_reachable br cidr (NewHostGateway br cidr)"
| gateway_attach: "gateway_reachable br cidr g \<Longrightarrow> gateway_reachable br cidr (snd (snd (Attach env i contract g)))"
| gateway_detach: "gateway_reachable br cidr g \<Longrightarrow> gateway_reachable br cidr (snd (snd (Detach env i g)))"

lemma gateway_reachable_ok: "gateway_reachable br cidr g \<Longrightarrow> gateway_ok g"
proof (induction rule: gateway_reachable.induct)
  case gateway_new
  then show ?case by (simp add: gateway_ok_def NewHostGateway_def)
qed (simp_all add: gateway_ok_Attach gateway_ok_Detach)

lemma drop_bit_le: "x \<le> y \<Longrightarrow> drop_bit k x \<le> drop_bit k y" for x y :: "'a::len word"
  unfolding word_le_nat_alt unat_drop_bit_eq by (simp add: drop_bit_eq_div div_le_mono)

lemma xor_eq_0_iff: "x XOR y = 0 \<longleftrightarrow> x = y" for x y :: "'a::len word"
  by (metis xor.assoc xor.left_neutral xor.right_neutral xor_self_eq)

lemma prefix_Contains_iff: "prefix_Contains (b, n) (Some x) \<longleftrightarrow> drop_bit (32 - n) b = drop_bit (32 - n) x"
  by (simp add: prefix_Contains_def xor_eq_0_iff)

lemma prefix_between:
  assumes "prefix_Contains p (Some x)" "fst p \<le> y" "y \<le> x"
  shows "prefix_Contains p (Some y)"
  using assms drop_bit_le [of "fst p" y "32 - snd p"] drop_bit_le [of y x "32 - snd p"]
  by (cases p) (simp add: prefix_Contains_iff)

lemma allocateIP_exhausted:
  assumes "allocateIP i g = (Inl err, g')" "prefix_Contains (gw_bridgeCIDR g) (Some x)"
    and "addr_Next (addr_Next (Some (fst (gw_bridgeCIDR g)))) = Some a" "a \<le> x"
  shows "x \<in> snd ` set (gw_allocations g)"
proof -
  let ?b = "fst (gw_bridgeCIDR g)"
  have none: "alloc_loop (gw_bridgeCIDR g) (snd ` set (gw_allocations g)) (Some a) = None"
    using assms(1,3) by (auto simp: allocateIP_def Let_def split: option.splits)
  have b: "?b \<noteq> - 1" "?b + 1 \<noteq> - 1" "a = ?b + 1 + 1" using assms(3) by (auto simp: addr_Next_def split: if_splits)
  have "?b \<le> a" using unat_next [OF b(1)] unat_next [OF b(2)] b(3) by (simp add: word_le_nat_alt)
  then have "prefix_Contains (gw_bridgeCIDR g) (Some y)" if "a \<le> y" "y \<le> x" for y
    using prefix_between [OF assms(2), of y] that by (meson order_trans)
  with alloc_loop_None [OF none assms(4)] show ?thesis by blast
qed

text \<open>
  Sandbox addresses are sound and none is wasted. In every reachable gateway two sandboxes
  never have the same address, and every address is inside the bridge's network and neither its
  network address nor the gateway's. Attaching runs out of addresses only when every address of
  the network past the gateway's is in use.
\<close>

theorem styx_addresses:
  assumes "gateway_reachable br cidr g"
  shows "(\<forall>i j x y. get (gw_allocations g) i = Some x \<longrightarrow> get (gw_allocations g) j = Some y \<longrightarrow> i \<noteq> j \<longrightarrow> x \<noteq> y) \<and>
    (\<forall>i x. get (gw_allocations g) i = Some x \<longrightarrow> prefix_Contains (gw_bridgeCIDR g) (Some x) \<and>
       x \<noteq> fst (gw_bridgeCIDR g) \<and> Some x \<noteq> addr_Next (Some (fst (gw_bridgeCIDR g)))) \<and>
    (\<forall>i err a x. fst (allocateIP i g) = Inl err \<longrightarrow> prefix_Contains (gw_bridgeCIDR g) (Some x) \<longrightarrow>
       addr_Next (addr_Next (Some (fst (gw_bridgeCIDR g)))) = Some a \<longrightarrow> a \<le> x \<longrightarrow>
       x \<in> snd ` set (gw_allocations g))"
proof (intro conjI allI impI)
  have ok: "gateway_ok g" using gateway_reachable_ok [OF assms] .
  fix i j x y
  assume x: "get (gw_allocations g) i = Some x" and y: "get (gw_allocations g) j = Some y" and ij: "i \<noteq> j"
  have "(i, x) \<in> set (gw_allocations g)" "(j, y) \<in> set (gw_allocations g)" using get_Some_in_set [OF x] get_Some_in_set [OF y] .
  then show "x \<noteq> y" using ok ij unfolding gateway_ok_def distinct_map inj_on_def by (metis prod.inject snd_conv)
next
  fix i x assume "get (gw_allocations g) i = Some x"
  then have "x \<in> snd ` set (gw_allocations g)" using get_Some_in_set by force
  then show "prefix_Contains (gw_bridgeCIDR g) (Some x)" "x \<noteq> fst (gw_bridgeCIDR g)"
    "Some x \<noteq> addr_Next (Some (fst (gw_bridgeCIDR g)))"
    using gateway_reachable_ok [OF assms] unfolding gateway_ok_def by blast+
next
  fix i err a x
  assume "fst (allocateIP i g) = Inl err" "prefix_Contains (gw_bridgeCIDR g) (Some x)"
    "addr_Next (addr_Next (Some (fst (gw_bridgeCIDR g)))) = Some a" "a \<le> x"
  then show "x \<in> snd ` set (gw_allocations g)"
    using allocateIP_exhausted [of i g err "snd (allocateIP i g)"] by (simp add: prod_eq_iff)
qed

definition quiet_host :: host_env where
  "quiet_host = \<lparr>he_fails = \<lambda>_. None, he_link = \<lambda>_. None, he_addrs = \<lambda>_. Inr [], he_exists = \<lambda>_. Inr False\<rparr>"

definition demo_gateway :: hostGateway where
  "demo_gateway = snd (snd (Attach quiet_host ''sandbox-b'' None (snd (snd (Attach quiet_host ''sandbox-a'' None
     (NewHostGateway ''br0'' (0x0AC80000, 24)))))))"

theorem styx_addresses_witness:
  "get (gw_allocations demo_gateway) ''sandbox-a'' = Some 0x0AC80002 \<and>
   get (gw_allocations demo_gateway) ''sandbox-b'' \<noteq> Some 0x0AC80002"
proof -
  have reach: "gateway_reachable ''br0'' (0x0AC80000, 24) demo_gateway"
    unfolding demo_gateway_def by (intro gateway_attach gateway_new)
  have a: "get (gw_allocations demo_gateway) ''sandbox-a'' = Some 0x0AC80002"
    by (simp add: demo_gateway_def Attach_def ensureBridge_def ensureBridgeIP_def bridge_prefix_def quiet_host_def
        allocateIP_def NewHostGateway_def addr_Next_def alloc_loop.simps prefix_Contains_def tap_name_def createTAP_def
        ensureIptablesRules_def enforceContract_def Let_def put_def)
  with styx_addresses [OF reach] show ?thesis by blast
qed

section \<open>Firewall rules\<close>

text \<open>
  The forward chain after a list of calls, and the first rule of a device that matches a
  destination. An inserted rule goes to the top, an appended one to the bottom.
\<close>

fun chain_after :: "host_call list \<Rightarrow> fw_rule list \<Rightarrow> fw_rule list" where
  "chain_after [] chain = chain"
| "chain_after (IptInsert r # cs) chain = chain_after cs (r # chain)"
| "chain_after (IptAppend r # cs) chain = chain_after cs (chain @ [r])"
| "chain_after (_ # cs) chain = chain_after cs chain"

fun tap_verdict :: "string \<Rightarrow> ipv4 \<Rightarrow> fw_rule list \<Rightarrow> fw_target option" where
  "tap_verdict tap d [] = None"
| "tap_verdict tap d (TapRule t p target # rs) =
     (if t = tap \<and> prefix_Contains p (Some d) then Some target else tap_verdict tap d rs)"
| "tap_verdict tap d (_ # rs) = tap_verdict tap d rs"

lemma tap_verdict_append:
  "tap_verdict tap d (xs @ ys) = (case tap_verdict tap d xs of Some v \<Rightarrow> Some v | None \<Rightarrow> tap_verdict tap d ys)"
  by (induction tap d xs rule: tap_verdict.induct) auto

lemma tap_verdict_rules:
  "tap_verdict tap d (map (\<lambda>p. TapRule tap p target) ps) =
     (if \<exists>p \<in> set ps. prefix_Contains p (Some d) then Some target else None)"
  by (induction ps) auto

lemma chain_after_inserts: "chain_after (map IptInsert rs) chain = rev rs @ chain"
  by (induction rs arbitrary: chain) auto

lemma calls_success: "calls env cs = (None, made) \<Longrightarrow> made = cs"
  by (induction cs arbitrary: made) (auto split: option.splits prod.splits)

text \<open>
  A contract is enforced with the right precedence. When enforcing succeeds, the first rule
  of the sandbox's device for a destination accepts it if one of the allowed networks contains it,
  otherwise drops it if private networks are denied and it is private or the metadata service is
  denied and it is that address, and otherwise there is no rule (for a device without older rules).
\<close>

theorem contract_precedence:
  assumes "enforceContract env tap (Some c) = (None, cs)" "\<forall>d. tap_verdict tap d chain = None"
  shows "tap_verdict tap d (chain_after cs chain) =
    (if \<exists>p \<in> set (ct_AllowedCIDRs c). prefix_Contains p (Some d) then Some ACCEPT
     else if (ct_DenyPrivate c \<and> (\<exists>p \<in> set private_nets. prefix_Contains p (Some d))) \<or>
             (ct_DenyMetadata c \<and> prefix_Contains metadata_ip (Some d)) then Some DROP
     else None)"
proof -
  have "cs = map IptInsert (contract_rules tap c)"
    using assms(1) calls_success by (auto simp: enforceContract_def)
  then have "chain_after cs chain = rev (contract_rules tap c) @ chain" by (simp add: chain_after_inserts)
  moreover have "rev (map (\<lambda>p. TapRule tap p t) ps) = map (\<lambda>p. TapRule tap p t) (rev ps)" for t ps
    by (simp add: rev_map)
  ultimately show ?thesis
    using assms(2) by (simp add: contract_rules_def tap_verdict_append tap_verdict_rules del: rev_map)
qed

definition demo_contract :: Contract where
  "demo_contract = \<lparr>ct_ID = ''c'', ct_AllowedCIDRs = [(0x0A010000, 16)], ct_DenyPrivate = True, ct_DenyMetadata = True\<rparr>"

theorem contract_precedence_witness:
  "tap_verdict ''tap-x'' 0x0A010203 (chain_after (snd (enforceContract quiet_host ''tap-x'' (Some demo_contract))) []) = Some ACCEPT"
proof -
  have "enforceContract quiet_host ''tap-x'' (Some demo_contract) =
      (None, snd (enforceContract quiet_host ''tap-x'' (Some demo_contract)))"
    by (simp add: enforceContract_def quiet_host_def demo_contract_def contract_rules_def private_nets_def)
  from contract_precedence [OF this, of "[]" "0x0A010203"] show ?thesis
    by (simp add: demo_contract_def prefix_Contains_def)
qed

text \<open>A sandbox identifier of fewer than eight characters makes attaching panic, with the address taken.\<close>

lemma short_id_panics:
  assumes "length i < 8" "fst (ensureBridge env g) = None" "allocateIP i g = (Inr x, g1)"
  shows "fst (Attach env i contract g) = Inl StyxPanic"
  using assms by (cases "ensureBridge env g") (simp add: Attach_def tap_name_def Let_def)

text \<open>When the global rules cannot be set up, the address and the device are not given back.\<close>

lemma iptables_failure_leaks:
  assumes "ensureBridge env g = (None, cs)" "allocateIP i g = (Inr x, g1)" "tap_name i = Some tap"
    and "createTAP env tap = (None, cs1)" "he_fails env (LinkSetMaster tap (gw_bridgeName g)) = None"
    and "ensureIptablesRules env g = (Some err, cs3)"
  shows "\<exists>made. Attach env i contract g = (Inl (StyxError err), made, g1)"
  using assms by (simp add: Attach_def Let_def)

end
