(* ===== verification/Operator.thy ===== *)
theory Operator
  imports Api Styx
begin

text \<open>
  The Kubernetes operator (\<open>pkg/kubernetes/controllers\<close>): the reconcilers of sandbox jobs, templates and
  tenants' network policies, over the custom resources of \<open>pkg/kubernetes/apis\<close>.

  The Kubernetes API is an argument (\<open>job_client\<close>, \<open>template_client\<close>, \<open>policy_client\<close>), as is the
  HTTP client, whose answer carries what decoding the body gives. \<open>meta.SetStatusCondition\<close> of the
  Kubernetes library is an argument too; its documented effect is \<open>sets_condition\<close>. Texts of networks are
  read by an argument in the place of \<open>netip.ParsePrefix\<close>, with values that are IPv4 networks as in the
  gateway.
\<close>

section \<open>Custom resources\<close>

record Condition =
  cd_Type :: string
  cd_Status :: string
  cd_Reason :: string
  cd_Message :: string

type_synonym set_condition = "Condition list \<Rightarrow> Condition \<Rightarrow> Condition list"

record k8s_ResourceSpec =
  kr_CPU :: int
  kr_Memory :: int

record k8s_RetentionPolicy =
  kt_MaxAge :: string
  kt_KeepOutputs :: bool

record SandboxJobSpec =
  jb_Template :: string
  jb_Command :: "string list"
  jb_Args :: "string list"
  jb_Env :: metadata
  jb_Resources :: k8s_ResourceSpec
  jb_Network :: NetworkPolicyRef
  jb_HeatLevel :: string
  jb_Retention :: k8s_RetentionPolicy
  jb_Metadata :: metadata
  jb_TenantRef :: string

record SandboxJobStatus =
  js_ID :: string
  js_State :: RunStatus
  js_NodeID :: string
  js_Message :: string
  js_Conditions :: "Condition list"

record SandboxJob =
  sj_Namespace :: string
  sj_Name :: string
  sj_Spec :: SandboxJobSpec
  sj_Status :: SandboxJobStatus

record SandboxTemplateSpec =
  tm_Image :: string
  tm_DefaultCommand :: "string list"
  tm_DefaultEnv :: metadata
  tm_DefaultResources :: k8s_ResourceSpec
  tm_DefaultNetwork :: NetworkPolicyRef
  tm_DefaultHeatLevel :: string
  tm_DefaultRetention :: k8s_RetentionPolicy

record SandboxTemplateStatus =
  tms_Ready :: bool
  tms_Message :: string
  tms_Conditions :: "Condition list"

record SandboxTemplate =
  st_Spec :: SandboxTemplateSpec
  st_Status :: SandboxTemplateStatus

record ContractSpec =
  kc_AllowedCIDRs :: "string list"
  kc_DenyPrivate :: bool
  kc_DenyMetadata :: bool

record PolicyReference =
  pr_Name :: string
  pr_Namespace :: string

record TenantNetworkPolicySpec =
  tp_TenantID :: string
  tp_DefaultContract :: ContractSpec
  tp_NetworkPolicyRef :: "PolicyReference option"

record TenantNetworkPolicyStatus =
  tps_Ready :: bool
  tps_Message :: string
  tps_LastApplied :: "go_time option"
  tps_Conditions :: "Condition list"

record TenantNetworkPolicy =
  tn_Namespace :: string
  tn_Spec :: TenantNetworkPolicySpec
  tn_Status :: TenantNetworkPolicyStatus

text \<open>What the operator reads of a network policy of Kubernetes: its policy types and, for each egress rule, the
  network of each peer that is an IP block.\<close>

record NetworkPolicy =
  np_PolicyTypes :: "string list"
  np_Egress :: "string option list list"

datatype 'a kube_get = Found 'a | NotFound | GetFailed string

text \<open>What a reconciler returns: when it wants to be called again (0 for not), and an error, which the controller
  retries in any case.\<close>

type_synonym ctrl_result = "duration \<times> string option"

definition IgnoreNotFound :: "'a kube_get \<Rightarrow> string option" where
  "IgnoreNotFound g = (case g of GetFailed err \<Rightarrow> Some err | _ \<Rightarrow> None)"

section \<open>Sandbox jobs\<close>

record olympusStatus =
  os_ID :: string
  os_Status :: RunStatus
  os_NodeID :: string

record http_call =
  hc_Method :: string
  hc_URL :: string
  hc_Header :: metadata
  hc_Body :: "SandboxRequest option"

text \<open>The answer to a call: an error of the transport, or the code, the text of the body and what decoding it as
  a status gives.\<close>

type_synonym http_answer = "string + nat \<times> string \<times> (string + olympusStatus)"

type_synonym 'o http_client = "http_call \<Rightarrow> 'o \<Rightarrow> http_answer \<times> 'o"

record 'k job_client =
  jc_Get :: "string \<Rightarrow> string \<Rightarrow> 'k \<Rightarrow> SandboxJob kube_get"
  jc_UpdateStatus :: "SandboxJob \<Rightarrow> 'k \<Rightarrow> string option \<times> 'k"

record SandboxJobReconciler =
  sr_OlympusAddr :: string
  sr_APIKey :: string

definition addAuth :: "SandboxJobReconciler \<Rightarrow> metadata \<Rightarrow> metadata" where
  "addAuth r header = (if sr_APIKey r \<noteq> [] then put header ''Authorization'' (''Bearer '' @ sr_APIKey r) else header)"

definition submitToOlympus ::
    "SandboxJobReconciler \<Rightarrow> 'o http_client \<Rightarrow> SandboxRequest \<Rightarrow> 'o \<Rightarrow> string option \<times> 'o" where
  "submitToOlympus r http req w =
     (case http \<lparr>hc_Method = ''POST'', hc_URL = sr_OlympusAddr r @ ''/submit'',
              hc_Header = addAuth r [(''Content-Type'', ''application/json'')], hc_Body = Some req\<rparr> w of
        (Inl err, w1) \<Rightarrow> (Some err, w1)
      | (Inr (code, text, _), w1) \<Rightarrow>
          (if code \<noteq> 202 \<and> code \<noteq> 200 then Some (''olympus returned '' @ itoa code @ '': '' @ text) else None, w1))"

definition checkStatus ::
    "SandboxJobReconciler \<Rightarrow> 'o http_client \<Rightarrow> string \<Rightarrow> 'o \<Rightarrow> (string + olympusStatus) \<times> 'o" where
  "checkStatus r http i w =
     (case http \<lparr>hc_Method = ''GET'', hc_URL = sr_OlympusAddr r @ ''/sandboxes/'' @ i, hc_Header = addAuth r [], hc_Body = None\<rparr> w of
        (Inl err, w1) \<Rightarrow> (Inl err, w1)
      | (Inr (code, _, decoded), w1) \<Rightarrow>
          (if code \<noteq> 200 then Inl (''olympus returned '' @ itoa code) else decoded, w1))"

definition job_sandbox_id :: "SandboxJob \<Rightarrow> SandboxID" where
  "job_sandbox_id job = ''k8s-'' @ sj_Namespace job @ ''-'' @ sj_Name job"

definition job_request :: "go_time \<Rightarrow> SandboxJob \<Rightarrow> SandboxRequest" where
  "job_request now job =
     (let spec = sj_Spec job;
          maxAge = (if kt_MaxAge (jb_Retention spec) \<noteq> []
                    then (case ParseDuration (kt_MaxAge (jb_Retention spec)) of Some d \<Rightarrow> d | None \<Rightarrow> 0) else 0)
      in zero_SandboxRequest\<lparr>req_ID := job_sandbox_id job, req_Template := jb_Template spec, req_Command := jb_Command spec,
           req_Args := jb_Args spec, req_Env := jb_Env spec, req_HeatLevel := jb_HeatLevel spec,
           req_Resources := zero_ResourceSpec\<lparr>res_CPU := kr_CPU (jb_Resources spec), res_Mem := kr_Memory (jb_Resources spec)\<rparr>,
           req_NetworkRef := jb_Network spec,
           req_Retention := \<lparr>ret_MaxAge = maxAge, ret_KeepOutputs = kt_KeepOutputs (jb_Retention spec)\<rparr>,
           req_Metadata := put (put (jb_Metadata spec) ''k8s_namespace'' (sj_Namespace job)) ''k8s_name'' (sj_Name job),
           req_CreatedAt := now\<rparr>)"

definition set_job_condition :: "set_condition \<Rightarrow> Condition \<Rightarrow> SandboxJobStatus \<Rightarrow> SandboxJobStatus" where
  "set_job_condition setCond c st = st\<lparr>js_Conditions := setCond (js_Conditions st) c\<rparr>"

definition condition_true :: "string \<Rightarrow> string \<Rightarrow> string \<Rightarrow> Condition" where
  "condition_true type reason message = \<lparr>cd_Type = type, cd_Status = ''True'', cd_Reason = reason, cd_Message = message\<rparr>"

definition condition_false :: "string \<Rightarrow> string \<Rightarrow> string \<Rightarrow> Condition" where
  "condition_false type reason message = \<lparr>cd_Type = type, cd_Status = ''False'', cd_Reason = reason, cd_Message = message\<rparr>"

definition submit_job ::
    "set_condition \<Rightarrow> SandboxJobReconciler \<Rightarrow> 'k job_client \<Rightarrow> 'o http_client \<Rightarrow> go_time \<Rightarrow> SandboxJob \<Rightarrow> 'k \<Rightarrow> 'o
     \<Rightarrow> ctrl_result \<times> 'k \<times> 'o" where
  "submit_job setCond r c http now job k w =
     (case submitToOlympus r http (job_request now job) w of
        (Some err, w1) \<Rightarrow>
          (let st = set_job_condition setCond (condition_true ''Failed'' ''SubmissionFailed'' err)
                 ((sj_Status job)\<lparr>js_State := RunStatusFailed, js_Message := ''Submission failed: '' @ err\<rparr>)
           in case jc_UpdateStatus c (job\<lparr>sj_Status := st\<rparr>) k of
                (Some updateErr, k1) \<Rightarrow> ((0, Some updateErr), k1, w1)
              | (None, k1) \<Rightarrow> ((10 * second, Some err), k1, w1))
      | (None, w1) \<Rightarrow>
          (let st = set_job_condition setCond (condition_true ''Submitted'' ''Submitted'' ''Job submitted to Olympus'')
                 ((sj_Status job)\<lparr>js_ID := job_sandbox_id job, js_State := RunStatusPending, js_Message := ''Submitted to Olympus''\<rparr>)
           in case jc_UpdateStatus c (job\<lparr>sj_Status := st\<rparr>) k of
                (Some err, k1) \<Rightarrow> ((0, Some err), k1, w1)
              | (None, k1) \<Rightarrow> ((2 * second, None), k1, w1)))"

definition run_status_text :: "RunStatus \<Rightarrow> string" where
  "run_status_text s =
     (case s of RunStatusPending \<Rightarrow> ''PENDING'' | RunStatusScheduled \<Rightarrow> ''SCHEDULED'' | RunStatusRunning \<Rightarrow> ''RUNNING''
      | RunStatusSucceeded \<Rightarrow> ''SUCCEEDED'' | RunStatusFailed \<Rightarrow> ''FAILED'' | RunStatusCanceled \<Rightarrow> ''CANCELED'' | RunStatusOther t \<Rightarrow> t)"

definition job_condition :: "olympusStatus \<Rightarrow> Condition option" where
  "job_condition status =
     (case os_Status status of
        RunStatusPending \<Rightarrow> Some (condition_true ''Submitted'' ''Pending'' ''Waiting for scheduling'')
      | RunStatusScheduled \<Rightarrow> Some (condition_true ''Scheduled'' ''Scheduled'' (''Scheduled to node '' @ os_NodeID status))
      | RunStatusRunning \<Rightarrow> Some (condition_true ''Running'' ''Running'' ''Sandbox is running'')
      | RunStatusSucceeded \<Rightarrow> Some (condition_true ''Completed'' ''Succeeded'' ''Sandbox completed successfully'')
      | RunStatusOther t \<Rightarrow> None
      | s \<Rightarrow> Some (condition_true ''Failed'' ''Failed'' (''Sandbox failed or canceled: '' @ run_status_text s)))"

definition follow_job ::
    "set_condition \<Rightarrow> SandboxJobReconciler \<Rightarrow> 'k job_client \<Rightarrow> 'o http_client \<Rightarrow> string \<Rightarrow> SandboxJob \<Rightarrow> 'k \<Rightarrow> 'o
     \<Rightarrow> ctrl_result \<times> 'k \<times> 'o" where
  "follow_job setCond r c http stamp job k w =
     (case checkStatus r http (js_ID (sj_Status job)) w of
        (Inl err, w1) \<Rightarrow> ((10 * second, None), k, w1)
      | (Inr status, w1) \<Rightarrow>
          (let st = (sj_Status job)\<lparr>js_State := os_Status status, js_NodeID := os_NodeID status, js_Message := ''Updated at '' @ stamp\<rparr>;
               st = (case job_condition status of None \<Rightarrow> st | Some cd \<Rightarrow> set_job_condition setCond cd st)
           in case jc_UpdateStatus c (job\<lparr>sj_Status := st\<rparr>) k of
                (Some err, k1) \<Rightarrow> ((0, Some err), k1, w1)
              | (None, k1) \<Rightarrow>
                  ((if os_Status status \<in> {RunStatusSucceeded, RunStatusFailed, RunStatusCanceled} then 0 else 5 * second, None), k1, w1)))"

definition job_Reconcile ::
    "set_condition \<Rightarrow> SandboxJobReconciler \<Rightarrow> 'k job_client \<Rightarrow> 'o http_client \<Rightarrow> go_time \<Rightarrow> string \<Rightarrow> string \<Rightarrow> string \<Rightarrow> 'k \<Rightarrow> 'o
     \<Rightarrow> ctrl_result \<times> 'k \<times> 'o" where
  "job_Reconcile setCond r c http now stamp ns name k w =
     (case jc_Get c ns name k of
        Found job \<Rightarrow>
          if js_State (sj_Status job) = RunStatusSucceeded \<or> js_State (sj_Status job) = RunStatusFailed then ((0, None), k, w)
          else if js_ID (sj_Status job) = [] then submit_job setCond r c http now job k w
          else follow_job setCond r c http stamp job k w
      | g \<Rightarrow> ((0, IgnoreNotFound g), k, w))"

section \<open>Templates\<close>

record 'k template_client =
  tc_Get :: "string \<Rightarrow> string \<Rightarrow> 'k \<Rightarrow> SandboxTemplate kube_get"
  tc_UpdateStatus :: "SandboxTemplate \<Rightarrow> 'k \<Rightarrow> string option \<times> 'k"

definition template_status :: "set_condition \<Rightarrow> SandboxTemplate \<Rightarrow> SandboxTemplate" where
  "template_status setCond t =
     (let st = st_Status t
      in if tm_Image (st_Spec t) = [] then
           t\<lparr>st_Status := st\<lparr>tms_Ready := False, tms_Message := ''Image is required'',
               tms_Conditions := setCond (tms_Conditions st) (condition_false ''Ready'' ''MissingImage'' ''Image is required'')\<rparr>\<rparr>
         else
           t\<lparr>st_Status := st\<lparr>tms_Ready := True, tms_Message := ''Template is valid'',
               tms_Conditions := setCond (tms_Conditions st) (condition_true ''Ready'' ''Valid'' ''Template is valid'')\<rparr>\<rparr>)"

definition template_Reconcile ::
    "set_condition \<Rightarrow> 'k template_client \<Rightarrow> string \<Rightarrow> string \<Rightarrow> 'k \<Rightarrow> ctrl_result \<times> 'k" where
  "template_Reconcile setCond c ns name k =
     (case tc_Get c ns name k of
        Found t \<Rightarrow> (case tc_UpdateStatus c (template_status setCond t) k of (err, k1) \<Rightarrow> ((0, err), k1))
      | g \<Rightarrow> ((0, IgnoreNotFound g), k))"

section \<open>Network policies of tenants\<close>

record 'k policy_client =
  pc_Get :: "string \<Rightarrow> string \<Rightarrow> 'k \<Rightarrow> TenantNetworkPolicy kube_get"
  pc_GetNetworkPolicy :: "string \<Rightarrow> string \<Rightarrow> 'k \<Rightarrow> NetworkPolicy kube_get"
  pc_UpdateStatus :: "TenantNetworkPolicy \<Rightarrow> 'k \<Rightarrow> string option \<times> 'k"

type_synonym contract_cache = "(string, Contract) gomap"

definition getTenantKey :: "string \<Rightarrow> string \<Rightarrow> string" where
  "getTenantKey ns tenantID = (if tenantID \<noteq> [] then tenantID else ns)"

definition GetContractForTenant :: "string \<Rightarrow> string \<Rightarrow> contract_cache \<Rightarrow> Contract option" where
  "GetContractForTenant ns tenantID cache =
     (case (if tenantID \<noteq> [] then get cache (getTenantKey ns tenantID) else None) of
        Some contract \<Rightarrow> Some contract
      | None \<Rightarrow> get cache (getTenantKey ns []))"

definition ip_blocks :: "NetworkPolicy \<Rightarrow> string list" where
  "ip_blocks np = concat (map (\<lambda>to. concat (map (\<lambda>b. case b of Some cidr \<Rightarrow> [cidr] | None \<Rightarrow> []) to)) (np_Egress np))"

definition translateNetworkPolicy :: "(string \<Rightarrow> prefix option) \<Rightarrow> NetworkPolicy \<Rightarrow> Contract \<Rightarrow> Contract" where
  "translateNetworkPolicy parse netPol contract =
     (let contract = contract\<lparr>ct_AllowedCIDRs := ct_AllowedCIDRs contract @ List.map_filter parse (ip_blocks netPol)\<rparr>
      in if ''Egress'' \<in> set (np_PolicyTypes netPol) \<and> length (np_Egress netPol) = 0
         then contract\<lparr>ct_DenyPrivate := True, ct_DenyMetadata := True\<rparr> else contract)"

text \<open>The loop over the networks of the spec: the first that does not parse, or all of them.\<close>

fun parse_cidrs :: "(string \<Rightarrow> prefix option) \<Rightarrow> string list \<Rightarrow> string + prefix list" where
  "parse_cidrs parse [] = Inr []"
| "parse_cidrs parse (cidr # cidrs) =
     (case parse cidr of
        None \<Rightarrow> Inl cidr
      | Some p \<Rightarrow> (case parse_cidrs parse cidrs of Inl bad \<Rightarrow> Inl bad | Inr ps \<Rightarrow> Inr (p # ps)))"

definition set_policy_condition :: "set_condition \<Rightarrow> Condition \<Rightarrow> TenantNetworkPolicy \<Rightarrow> TenantNetworkPolicy" where
  "set_policy_condition setCond cd p =
     p\<lparr>tn_Status := (tn_Status p)\<lparr>tps_Conditions := setCond (tps_Conditions (tn_Status p)) cd\<rparr>\<rparr>"

definition policy_not_ready :: "string \<Rightarrow> TenantNetworkPolicy \<Rightarrow> TenantNetworkPolicy" where
  "policy_not_ready message p = p\<lparr>tn_Status := (tn_Status p)\<lparr>tps_Ready := False, tps_Message := message\<rparr>\<rparr>"

definition retry_policy :: "'k policy_client \<Rightarrow> TenantNetworkPolicy \<Rightarrow> 'k \<Rightarrow> ctrl_result \<times> 'k" where
  "retry_policy c p k =
     (case pc_UpdateStatus c p k of (Some err, k1) \<Rightarrow> ((0, Some err), k1) | (None, k1) \<Rightarrow> ((30 * second, None), k1))"

definition apply_policy ::
    "set_condition \<Rightarrow> 'k policy_client \<Rightarrow> go_time \<Rightarrow> TenantNetworkPolicy \<Rightarrow> string \<Rightarrow> Contract \<Rightarrow> 'k \<Rightarrow> contract_cache
     \<Rightarrow> ctrl_result \<times> 'k \<times> contract_cache" where
  "apply_policy setCond c now p tenantID contract k cache =
     (let cache = put cache (getTenantKey (tn_Namespace p) tenantID) contract;
          p = p\<lparr>tn_Status := (tn_Status p)\<lparr>tps_Ready := True, tps_Message := ''Policy is ready'', tps_LastApplied := Some now\<rparr>\<rparr>;
          p = set_policy_condition setCond (condition_true ''Ready'' ''Valid'' ''Policy is valid and cached'') p
      in case pc_UpdateStatus c p k of (err, k1) \<Rightarrow> ((0, err), k1, cache))"

definition policy_Reconcile ::
    "set_condition \<Rightarrow> (string \<Rightarrow> prefix option) \<Rightarrow> 'k policy_client \<Rightarrow> go_time \<Rightarrow> string \<Rightarrow> string \<Rightarrow> 'k \<Rightarrow> contract_cache
     \<Rightarrow> ctrl_result \<times> 'k \<times> contract_cache" where
  "policy_Reconcile setCond parse c now ns name k cache =
     (case pc_Get c ns name k of
        Found policy \<Rightarrow>
          (let spec = tn_Spec policy;
               tenantID = (if tp_TenantID spec = [] then tn_Namespace policy else tp_TenantID spec)
           in case parse_cidrs parse (kc_AllowedCIDRs (tp_DefaultContract spec)) of
                Inl bad \<Rightarrow>
                  (case retry_policy c (set_policy_condition setCond (condition_false ''Ready'' ''InvalidCIDR'' (''Invalid CIDR: '' @ bad))
                       (policy_not_ready (''Invalid CIDR: '' @ bad) policy)) k of (res, k1) \<Rightarrow> (res, k1, cache))
              | Inr cidrs \<Rightarrow>
                  (let contract = \<lparr>ct_ID = tenantID, ct_AllowedCIDRs = cidrs, ct_DenyPrivate = kc_DenyPrivate (tp_DefaultContract spec),
                         ct_DenyMetadata = kc_DenyMetadata (tp_DefaultContract spec)\<rparr>
                   in case tp_NetworkPolicyRef spec of
                        None \<Rightarrow> apply_policy setCond c now policy tenantID contract k cache
                      | Some ref \<Rightarrow>
                          (case pc_GetNetworkPolicy c (if pr_Namespace ref = [] then tn_Namespace policy else pr_Namespace ref) (pr_Name ref) k of
                             Found netPol \<Rightarrow>
                               apply_policy setCond c now
                                 (set_policy_condition setCond (condition_true ''NetworkPolicyResolved'' ''Resolved'' ''NetworkPolicy resolved successfully'') policy)
                                 tenantID (translateNetworkPolicy parse netPol contract) k cache
                           | _ \<Rightarrow>
                               (case retry_policy c
                                    (set_policy_condition setCond (condition_false ''Ready'' ''NetworkPolicyNotFound'' ''Referenced NetworkPolicy not found'')
                                       (set_policy_condition setCond (condition_false ''NetworkPolicyResolved'' ''NotFound'' (''NetworkPolicy not found: '' @ pr_Name ref))
                                          (policy_not_ready (''NetworkPolicy not found: '' @ pr_Name ref) policy))) k of
                                  (res, k1) \<Rightarrow> (res, k1, cache)))))
      | g \<Rightarrow> ((0, IgnoreNotFound g), k, del cache (getTenantKey ns [])))"

section \<open>The life of a job\<close>

text \<open>The stored job, with failures of the API server as arguments: an update of the status replaces the status
  only. The calls a reconciler makes are logged, with whatever answers.\<close>

definition stored_client :: "string option \<Rightarrow> string option \<Rightarrow> SandboxJob option job_client" where
  "stored_client getErr updErr =
     \<lparr>jc_Get = (\<lambda>ns name k. case getErr of Some e \<Rightarrow> GetFailed e | None \<Rightarrow> (case k of None \<Rightarrow> NotFound | Some j \<Rightarrow> Found j)),
      jc_UpdateStatus = (\<lambda>j k. case updErr of Some e \<Rightarrow> (Some e, k) | None \<Rightarrow> (None, map_option (\<lambda>old. old\<lparr>sj_Status := sj_Status j\<rparr>) k))\<rparr>"

definition logging_http :: "(http_call \<Rightarrow> http_answer) \<Rightarrow> http_call list http_client" where
  "logging_http ans c w = (ans c, w @ [c])"

text \<open>The histories of a job: it is created, reconciled any number of times, its spec is edited, it is deleted. The
  number counts the reconciliations in which the API server refused updates.\<close>

inductive job_reaches ::
    "set_condition \<Rightarrow> SandboxJobReconciler \<Rightarrow> string \<Rightarrow> string \<Rightarrow> SandboxJob option \<Rightarrow> http_call list \<Rightarrow> nat \<Rightarrow> bool"
  for setCond r ns name where
  created: "\<lbrakk>sj_Namespace j = ns; sj_Name j = name; js_ID (sj_Status j) = []; js_State (sj_Status j) = RunStatusOther []\<rbrakk>
    \<Longrightarrow> job_reaches setCond r ns name (Some j) [] 0"
| reconciled: "\<lbrakk>job_reaches setCond r ns name k w n;
     job_Reconcile setCond r (stored_client ge ue) (logging_http ans) now stamp ns name k w = (res, k', w')\<rbrakk>
    \<Longrightarrow> job_reaches setCond r ns name k' w' (if ue = None then n else Suc n)"
| edited: "job_reaches setCond r ns name (Some j) w n \<Longrightarrow> job_reaches setCond r ns name (Some (j\<lparr>sj_Spec := s\<rparr>)) w n"
| deleted: "job_reaches setCond r ns name k w n \<Longrightarrow> job_reaches setCond r ns name None w n"

abbreviation posts :: "http_call list \<Rightarrow> nat" where
  "posts w \<equiv> length (filter (\<lambda>c. hc_Method c = ''POST'') w)"

abbreviation unsubmitted :: "SandboxJobStatus \<Rightarrow> bool" where
  "unsubmitted st \<equiv> js_ID st = [] \<and> js_State st \<noteq> RunStatusSucceeded \<and> js_State st \<noteq> RunStatusFailed"

text \<open>The call for a job: a submission of its request or a question for its sandbox.\<close>

definition call_for :: "SandboxJobReconciler \<Rightarrow> SandboxID \<Rightarrow> http_call \<Rightarrow> bool" where
  "call_for r i c \<longleftrightarrow>
     (hc_Method c = ''POST'' \<and> hc_URL c = sr_OlympusAddr r @ ''/submit'' \<and> map_option req_ID (hc_Body c) = Some i) \<or>
     (hc_Method c = ''GET'' \<and> hc_URL c = sr_OlympusAddr r @ ''/sandboxes/'' @ i)"

definition job_inv :: "SandboxJobReconciler \<Rightarrow> string \<Rightarrow> string \<Rightarrow> SandboxJob option \<Rightarrow> http_call list \<Rightarrow> nat \<Rightarrow> bool" where
  "job_inv r ns name k w n \<longleftrightarrow>
     (\<forall>c \<in> set w. call_for r (''k8s-'' @ ns @ ''-'' @ name) c) \<and>
     (case k of
        None \<Rightarrow> posts w \<le> Suc n
      | Some j \<Rightarrow> sj_Namespace j = ns \<and> sj_Name j = name \<and> posts w \<le> (if unsubmitted (sj_Status j) then n else Suc n) \<and>
          (js_ID (sj_Status j) \<noteq> [] \<longrightarrow> js_ID (sj_Status j) = ''k8s-'' @ ns @ ''-'' @ name \<and> 0 < posts w))"

lemma job_conditions_frame [simp]:
  "js_ID (set_job_condition setCond c st) = js_ID st" "js_State (set_job_condition setCond c st) = js_State st"
  "js_NodeID (set_job_condition setCond c st) = js_NodeID st" "js_Message (set_job_condition setCond c st) = js_Message st"
  by (simp_all add: set_job_condition_def)

lemma job_request_ID [simp]: "req_ID (job_request now job) = job_sandbox_id job"
  by (simp add: job_request_def Let_def)

lemma submit_logged:
  "submitToOlympus r (logging_http ans) req w = (err, w') \<Longrightarrow> \<exists>c. w' = w @ [c] \<and> hc_Method c = ''POST'' \<and> call_for r (req_ID req) c"
  by (auto simp: submitToOlympus_def logging_http_def call_for_def split: sum.splits prod.splits)

lemma check_logged:
  "checkStatus r (logging_http ans) i w = (res, w') \<Longrightarrow> \<exists>c. w' = w @ [c] \<and> hc_Method c = ''GET'' \<and> call_for r i c"
  by (auto simp: checkStatus_def logging_http_def call_for_def split: sum.splits prod.splits)

lemma submit_job_inv:
  assumes "submit_job setCond r (stored_client ge ue) (logging_http ans) now job (Some job) w = (res, k', w')"
    and "job_inv r ns name (Some job) w n" "unsubmitted (sj_Status job)"
  shows "job_inv r ns name k' w' (if ue = None then n else Suc n)"
proof -
  obtain err w1 where s: "submitToOlympus r (logging_http ans) (job_request now job) w = (err, w1)" by fastforce
  obtain c where c: "w1 = w @ [c]" "hc_Method c = ''POST''" "call_for r (''k8s-'' @ ns @ ''-'' @ name) c"
    using submit_logged [OF s] assms(2) by (auto simp: job_inv_def job_sandbox_id_def)
  show ?thesis
    using assms s c by (cases err; cases ue)
      (auto simp: submit_job_def stored_client_def job_inv_def job_sandbox_id_def Let_def)
qed

lemma follow_job_inv:
  assumes "follow_job setCond r (stored_client ge ue) (logging_http ans) stamp job (Some job) w = (res, k', w')"
    and "job_inv r ns name (Some job) w n" "js_ID (sj_Status job) \<noteq> []"
  shows "job_inv r ns name k' w' (if ue = None then n else Suc n)"
proof -
  obtain st w1 where s: "checkStatus r (logging_http ans) (js_ID (sj_Status job)) w = (st, w1)" by fastforce
  obtain c where c: "w1 = w @ [c]" "hc_Method c = ''GET''" "call_for r (''k8s-'' @ ns @ ''-'' @ name) c"
    using check_logged [OF s] assms(2,3) by (auto simp: job_inv_def)
  show ?thesis
    using assms s c by (cases st; cases ue)
      (auto simp: follow_job_def stored_client_def job_inv_def Let_def split: option.splits)
qed

lemma job_Reconcile_inv:
  assumes "job_Reconcile setCond r (stored_client ge ue) (logging_http ans) now stamp ns name k w = (res, k', w')" "job_inv r ns name k w n"
  shows "job_inv r ns name k' w' (if ue = None then n else Suc n)"
proof -
  have unchanged: "k' = k \<Longrightarrow> w' = w \<Longrightarrow> ?thesis" using assms(2) by (auto simp: job_inv_def split: option.splits)
  show ?thesis
  proof (cases "jc_Get (stored_client ge ue) ns name k")
    case (Found job)
    then have k: "k = Some job" by (auto simp: stored_client_def split: option.splits)
    show ?thesis
    proof (cases "js_State (sj_Status job) = RunStatusSucceeded \<or> js_State (sj_Status job) = RunStatusFailed")
      case True
      then show ?thesis using assms(1) Found unchanged by (auto simp: job_Reconcile_def)
    next
      case False
      then show ?thesis
        using assms Found k submit_job_inv follow_job_inv by (cases "js_ID (sj_Status job) = []") (auto simp: job_Reconcile_def)
    qed
  qed (use assms(1) unchanged in \<open>auto simp: job_Reconcile_def\<close>)
qed

lemma job_reaches_inv: "job_reaches setCond r ns name k w n \<Longrightarrow> job_inv r ns name k w n"
proof (induction rule: job_reaches.induct)
  case (reconciled k w n ge ue ans now stamp res k' w')
  then show ?case using job_Reconcile_inv by blast
qed (auto simp: job_inv_def split: option.splits if_splits)

text \<open>
  C29: A job is submitted once. In every history of a job the number of submissions is at most one more
  than the number of reconciliations whose status updates were refused; every call is a submission of the
  job's own sandbox or a question for it; and a job with an identifier on record has been submitted under that
  identifier.\<close>

theorem job_submitted_once:
  assumes "job_reaches setCond r ns name k w n"
  shows "posts w \<le> Suc n \<and> (\<forall>c \<in> set w. call_for r (''k8s-'' @ ns @ ''-'' @ name) c) \<and>
    (\<forall>job. k = Some job \<and> js_ID (sj_Status job) \<noteq> [] \<longrightarrow> js_ID (sj_Status job) = ''k8s-'' @ ns @ ''-'' @ name \<and> 0 < posts w)"
  using job_reaches_inv [OF assms] by (auto simp: job_inv_def split: option.splits if_splits)

definition demo_job :: SandboxJob where
  "demo_job = \<lparr>sj_Namespace = ''default'', sj_Name = ''build'',
     sj_Spec = \<lparr>jb_Template = ''py'', jb_Command = [''make''], jb_Args = [], jb_Env = [], jb_Resources = \<lparr>kr_CPU = 500, kr_Memory = 64\<rparr>,
       jb_Network = \<lparr>net_ID = ''lockdown-no-net'', net_Name = []\<rparr>, jb_HeatLevel = [], jb_Retention = \<lparr>kt_MaxAge = [], kt_KeepOutputs = False\<rparr>,
       jb_Metadata = [], jb_TenantRef = []\<rparr>,
     sj_Status = \<lparr>js_ID = [], js_State = RunStatusOther [], js_NodeID = [], js_Message = [], js_Conditions = []\<rparr>\<rparr>"

text \<open>A function that has the documented effect of \<open>meta.SetStatusCondition\<close>.\<close>

fun put_condition :: set_condition where
  "put_condition [] cd = [cd]"
| "put_condition (c # cs) cd = (if cd_Type c = cd_Type cd then cd # cs else c # put_condition cs cd)"

definition demo_reconciler :: SandboxJobReconciler where
  "demo_reconciler = \<lparr>sr_OlympusAddr = ''http://o'', sr_APIKey = ''k''\<rparr>"

definition demo_reconciled :: "ctrl_result \<times> SandboxJob option \<times> http_call list" where
  "demo_reconciled = job_Reconcile put_condition demo_reconciler (stored_client None None)
     (logging_http (\<lambda>_. Inr (202, [], Inl ''EOF''))) 5 ''now'' ''default'' ''build'' (Some demo_job) []"

theorem job_submitted_once_witness:
  "posts (snd (snd demo_reconciled)) = 1 \<and> posts (snd (snd demo_reconciled)) \<le> Suc 0 \<and>
   map_option (\<lambda>j. js_ID (sj_Status j)) (fst (snd demo_reconciled)) = Some ''k8s-default-build''"
proof -
  have start: "job_reaches put_condition demo_reconciler ''default'' ''build'' (Some demo_job) [] 0"
    by (rule job_reaches.created) (simp_all add: demo_job_def)
  have "job_Reconcile put_condition demo_reconciler (stored_client None None) (logging_http (\<lambda>_. Inr (202, [], Inl ''EOF'')))
      5 ''now'' ''default'' ''build'' (Some demo_job) [] = (fst demo_reconciled, fst (snd demo_reconciled), snd (snd demo_reconciled))"
    by (simp add: demo_reconciled_def)
  from job_reaches.reconciled [OF start this]
  have "job_reaches put_condition demo_reconciler ''default'' ''build'' (fst (snd demo_reconciled)) (snd (snd demo_reconciled)) 0" by simp
  note once = job_submitted_once [OF this, THEN conjunct1]
  have "posts (snd (snd demo_reconciled)) = 1"
    "map_option (\<lambda>j. js_ID (sj_Status j)) (fst (snd demo_reconciled)) = Some ''k8s-default-build''" by code_simp+
  with once show ?thesis by blast
qed

text \<open>
  C30: No job is forgotten and none is misreported. A reconciler that does not ask to be called again
  and reports no error found no job, or left one whose state is final. One that can read the job and
  write its status, asks about a submitted job and gets an answer records the state and the node it was told, keeps the identifier, and asks to be
  called again exactly when that state is not final.\<close>

theorem job_never_forgotten:
  assumes "job_Reconcile setCond r (stored_client ge ue) http now stamp ns name k w = (res, k', w')"
  shows "(res = (0, None) \<longrightarrow> k = None \<or>
      (\<exists>job. k' = Some job \<and> js_State (sj_Status job) \<in> {RunStatusSucceeded, RunStatusFailed, RunStatusCanceled})) \<and>
    (\<forall>job status. k = Some job \<and> js_ID (sj_Status job) \<noteq> [] \<and> js_State (sj_Status job) \<notin> {RunStatusSucceeded, RunStatusFailed} \<and>
        ge = None \<and> ue = None \<and> fst (checkStatus r http (js_ID (sj_Status job)) w) = Inr status \<longrightarrow>
      (\<exists>job'. k' = Some job' \<and> js_State (sj_Status job') = os_Status status \<and> js_NodeID (sj_Status job') = os_NodeID status \<and>
        js_ID (sj_Status job') = js_ID (sj_Status job)) \<and>
      snd res = None \<and> (fst res = 0 \<longleftrightarrow> os_Status status \<in> {RunStatusSucceeded, RunStatusFailed, RunStatusCanceled}))"
proof (intro conjI impI allI)
  show "k = None \<or> (\<exists>job. k' = Some job \<and> js_State (sj_Status job) \<in> {RunStatusSucceeded, RunStatusFailed, RunStatusCanceled})"
    if "res = (0, None)"
    using assms that
    by (auto simp: job_Reconcile_def submit_job_def follow_job_def stored_client_def IgnoreNotFound_def Let_def
        split: option.splits sum.splits prod.splits if_splits)
next
  fix job status
  assume *: "k = Some job \<and> js_ID (sj_Status job) \<noteq> [] \<and> js_State (sj_Status job) \<notin> {RunStatusSucceeded, RunStatusFailed} \<and>
        ge = None \<and> ue = None \<and> fst (checkStatus r http (js_ID (sj_Status job)) w) = Inr status"
  obtain w1 where c: "checkStatus r http (js_ID (sj_Status job)) w = (Inr status, w1)" using * by (metis prod.collapse)
  show "\<exists>job'. k' = Some job' \<and> js_State (sj_Status job') = os_Status status \<and> js_NodeID (sj_Status job') = os_NodeID status \<and>
      js_ID (sj_Status job') = js_ID (sj_Status job)"
    "snd res = None" "fst res = 0 \<longleftrightarrow> os_Status status \<in> {RunStatusSucceeded, RunStatusFailed, RunStatusCanceled}"
    using assms * c by (auto simp: job_Reconcile_def follow_job_def stored_client_def Let_def split: option.splits if_splits)
qed

definition demo_done :: "http_call \<Rightarrow> unit \<Rightarrow> http_answer \<times> unit" where
  "demo_done c w = (Inr (200, [], Inr \<lparr>os_ID = ''k8s-default-build'', os_Status = RunStatusCanceled, os_NodeID = ''n1''\<rparr>), w)"

definition demo_submitted :: SandboxJob where
  "demo_submitted = demo_job\<lparr>sj_Status := (sj_Status demo_job)\<lparr>js_ID := ''k8s-default-build'', js_State := RunStatusRunning\<rparr>\<rparr>"

theorem job_never_forgotten_witness:
  "\<exists>job'. fst (snd (job_Reconcile put_condition demo_reconciler (stored_client None None) demo_done 5 ''now'' ''default'' ''build''
      (Some demo_submitted) ())) = Some job' \<and> js_State (sj_Status job') = RunStatusCanceled \<and> js_NodeID (sj_Status job') = ''n1''"
proof -
  obtain res k' w' where j: "job_Reconcile put_condition demo_reconciler (stored_client None None) demo_done 5 ''now'' ''default'' ''build''
      (Some demo_submitted) () = (res, k', w')" by (metis prod_cases3)
  have "fst (checkStatus demo_reconciler demo_done (js_ID (sj_Status demo_submitted)) ()) =
      Inr \<lparr>os_ID = ''k8s-default-build'', os_Status = RunStatusCanceled, os_NodeID = ''n1''\<rparr>"
    by (simp add: checkStatus_def demo_done_def)
  moreover have "js_ID (sj_Status demo_submitted) \<noteq> []" "js_State (sj_Status demo_submitted) \<notin> {RunStatusSucceeded, RunStatusFailed}"
    by (simp_all add: demo_submitted_def demo_job_def)
  ultimately show ?thesis using job_never_forgotten [OF j, THEN conjunct2] j by fastforce
qed

text \<open>A submission that failed is not tried again: the reconciler asks to be called after ten seconds and then takes
  the job for finished.\<close>

lemma submission_failure_final:
  assumes "job_Reconcile setCond r (stored_client None None) http now stamp ns name (Some job) w = ((10 * second, Some err), k', w')"
  shows "job_Reconcile setCond r (stored_client None None) http now' stamp' ns name k' w' = ((0, None), k', w')"
  using assms
  by (auto simp: job_Reconcile_def submit_job_def follow_job_def stored_client_def Let_def
      split: option.splits sum.splits prod.splits if_splits)

text \<open>A submission whose record was lost is made again, under the same identifier.\<close>

lemma lost_update_resubmits:
  assumes "unsubmitted (sj_Status job)" "job_Reconcile setCond r (stored_client None (Some e)) (logging_http ans) now stamp ns name (Some job) w = (res, k', w')"
    and "job_Reconcile setCond r (stored_client None None) (logging_http ans) now' stamp' ns name k' w' = (res', k'', w'')"
  shows "posts w'' = posts w + 2"
proof -
  have one: "posts w2 = Suc (posts w1) \<and> (ue = Some e \<longrightarrow> k2 = Some job)"
    if "job_Reconcile setCond r (stored_client None ue) (logging_http ans) n s ns name (Some job) w1 = (rs, k2, w2)" for ue n s w1 rs k2 w2
  proof -
    obtain err w3 where s: "submitToOlympus r (logging_http ans) (job_request n job) w1 = (err, w3)" by fastforce
    obtain c where "w3 = w1 @ [c]" "hc_Method c = ''POST''" using submit_logged [OF s] by auto
    then show ?thesis using that s assms(1)
      by (cases err; cases ue) (auto simp: job_Reconcile_def submit_job_def stored_client_def Let_def)
  qed
  from one [OF assms(2)] have "k' = Some job" "posts w' = Suc (posts w)" by auto
  with assms(3) one [of None now' stamp' w' res' k'' w''] show ?thesis by simp
qed

text \<open>Jobs of different namespaces can share a sandbox, and the reference to a tenant is not passed on.\<close>

lemma job_id_collision:
  "job_sandbox_id (job\<lparr>sj_Namespace := ''a-b'', sj_Name := ''c''\<rparr>) = job_sandbox_id (job\<lparr>sj_Namespace := ''a'', sj_Name := ''b-c''\<rparr>)"
  by (simp add: job_sandbox_id_def)

lemma tenant_ref_ignored: "job_request now (job\<lparr>sj_Spec := (sj_Spec job)\<lparr>jb_TenantRef := t\<rparr>\<rparr>) = job_request now job"
  by (simp add: job_request_def job_sandbox_id_def Let_def)

section \<open>Conditions\<close>

text \<open>What the Kubernetes library documents: the condition of the type becomes the new one, the others stay.\<close>

definition find_condition :: "Condition list \<Rightarrow> string \<Rightarrow> Condition option" where
  "find_condition cs t = find (\<lambda>c. cd_Type c = t) cs"

definition sets_condition :: "set_condition \<Rightarrow> bool" where
  "sets_condition setCond \<longleftrightarrow>
     (\<forall>cs cd t. find_condition (setCond cs cd) t = (if t = cd_Type cd then Some cd else find_condition cs t))"

lemma sets_condition_put: "sets_condition put_condition"
proof -
  have "find_condition (put_condition cs cd) t = (if t = cd_Type cd then Some cd else find_condition cs t)" for cs cd t
    by (induction cs cd rule: put_condition.induct) (auto simp: find_condition_def)
  then show ?thesis by (simp add: sets_condition_def)
qed

text \<open>A finished job is still shown as running: no condition is ever withdrawn.\<close>

lemma running_condition_stays:
  assumes "sets_condition setCond" "find_condition (js_Conditions (sj_Status job)) ''Running'' = Some cd" "job_condition status = Some c"
    and "os_Status status = RunStatusSucceeded"
  shows "find_condition (js_Conditions (set_job_condition setCond c (sj_Status job))) ''Running'' = Some cd"
  using assms by (auto simp: sets_condition_def set_job_condition_def job_condition_def condition_true_def)

lemma template_ready:
  assumes "sets_condition setCond"
  shows "tms_Ready (st_Status (template_status setCond t)) = (tm_Image (st_Spec t) \<noteq> [])"
    and "map_option cd_Status (find_condition (tms_Conditions (st_Status (template_status setCond t))) ''Ready'') =
      Some (if tms_Ready (st_Status (template_status setCond t)) then ''True'' else ''False'')"
  using assms by (simp_all add: template_status_def sets_condition_def condition_true_def condition_false_def Let_def)

section \<open>Contracts of tenants\<close>

definition referenced :: "'k policy_client \<Rightarrow> TenantNetworkPolicy \<Rightarrow> 'k \<Rightarrow> NetworkPolicy option" where
  "referenced c policy k =
     (case tp_NetworkPolicyRef (tn_Spec policy) of
        None \<Rightarrow> None
      | Some ref \<Rightarrow>
          (case pc_GetNetworkPolicy c (if pr_Namespace ref = [] then tn_Namespace policy else pr_Namespace ref) (pr_Name ref) k of
             Found np \<Rightarrow> Some np | _ \<Rightarrow> None))"

text \<open>The networks a policy opens, its own and those of the network policy it refers to, and whether the latter
  closes everything.\<close>

definition opened :: "(string \<Rightarrow> prefix option) \<Rightarrow> 'k policy_client \<Rightarrow> TenantNetworkPolicy \<Rightarrow> 'k \<Rightarrow> prefix set" where
  "opened parse c policy k =
     {p. \<exists>t \<in> set (kc_AllowedCIDRs (tp_DefaultContract (tn_Spec policy))). parse t = Some p} \<union>
     (case referenced c policy k of None \<Rightarrow> {} | Some np \<Rightarrow> {p. \<exists>peers \<in> set (np_Egress np). \<exists>cidr. Some cidr \<in> set peers \<and> parse cidr = Some p})"

definition egress_closed :: "'k policy_client \<Rightarrow> TenantNetworkPolicy \<Rightarrow> 'k \<Rightarrow> bool" where
  "egress_closed c policy k =
     (case referenced c policy k of None \<Rightarrow> False | Some np \<Rightarrow> ''Egress'' \<in> set (np_PolicyTypes np) \<and> np_Egress np = [])"

definition tenant_of :: "TenantNetworkPolicy \<Rightarrow> string" where
  "tenant_of policy = getTenantKey (tn_Namespace policy) (tp_TenantID (tn_Spec policy))"

lemma parse_cidrs_Inr: "parse_cidrs parse cidrs = Inr ps \<Longrightarrow> set ps = {p. \<exists>t \<in> set cidrs. parse t = Some p}"
  by (induction cidrs arbitrary: ps) (auto split: option.splits sum.splits)

lemma set_map_filter: "set (List.map_filter f xs) = {y. \<exists>x \<in> set xs. f x = Some y}"
  by (force simp: List.map_filter_def)

lemma ip_blocks_set: "set (ip_blocks np) = {cidr. \<exists>peers \<in> set (np_Egress np). Some cidr \<in> set peers}"
  by (force simp: ip_blocks_def split: option.splits)

lemma translate_simps [simp]:
  "set (ct_AllowedCIDRs (translateNetworkPolicy parse np ct)) = set (ct_AllowedCIDRs ct) \<union> {p. \<exists>peers \<in> set (np_Egress np). \<exists>cidr. Some cidr \<in> set peers \<and> parse cidr = Some p}"
  "ct_DenyPrivate (translateNetworkPolicy parse np ct) = (ct_DenyPrivate ct \<or> (''Egress'' \<in> set (np_PolicyTypes np) \<and> np_Egress np = []))"
  "ct_DenyMetadata (translateNetworkPolicy parse np ct) = (ct_DenyMetadata ct \<or> (''Egress'' \<in> set (np_PolicyTypes np) \<and> np_Egress np = []))"
  by (auto simp: translateNetworkPolicy_def set_map_filter ip_blocks_set Let_def)

lemma apply_policy_cache: "apply_policy setCond c now p t ct k cache = (res, k', cache') \<Longrightarrow> cache' = put cache (getTenantKey (tn_Namespace p) t) ct"
  by (auto simp: apply_policy_def Let_def split: prod.splits)

lemma retry_policy_result: "retry_policy c p k = ((d, err), k') \<Longrightarrow> d = 30 * second \<or> err \<noteq> None"
  by (auto simp: retry_policy_def split: prod.splits option.splits)

lemma set_policy_condition_frame [simp]:
  "tn_Namespace (set_policy_condition setCond cd p) = tn_Namespace p" "tn_Spec (set_policy_condition setCond cd p) = tn_Spec p"
  by (simp_all add: set_policy_condition_def)

lemma tenant_key: "getTenantKey ns (if t = [] then ns else t) = getTenantKey ns t"
  by (simp add: getTenantKey_def)

lemma policy_Reconcile_ready:
  assumes "policy_Reconcile setCond parse c now ns name k cache = ((0, None), k', cache')" "pc_Get c ns name k = Found policy"
  shows "\<exists>ct. cache' = put cache (tenant_of policy) ct \<and> set (ct_AllowedCIDRs ct) = opened parse c policy k \<and>
    (ct_DenyPrivate ct \<longleftrightarrow> kc_DenyPrivate (tp_DefaultContract (tn_Spec policy)) \<or> egress_closed c policy k) \<and>
    (ct_DenyMetadata ct \<longleftrightarrow> kc_DenyMetadata (tp_DefaultContract (tn_Spec policy)) \<or> egress_closed c policy k)"
proof -
  let ?spec = "tn_Spec policy" and ?t = "if tp_TenantID (tn_Spec policy) = [] then tn_Namespace policy else tp_TenantID (tn_Spec policy)"
  obtain cidrs where p: "parse_cidrs parse (kc_AllowedCIDRs (tp_DefaultContract ?spec)) = Inr cidrs"
    using assms by (auto simp: policy_Reconcile_def Let_def dest: retry_policy_result split: sum.splits prod.splits)
  let ?ct = "\<lparr>ct_ID = ?t, ct_AllowedCIDRs = cidrs, ct_DenyPrivate = kc_DenyPrivate (tp_DefaultContract ?spec),
    ct_DenyMetadata = kc_DenyMetadata (tp_DefaultContract ?spec)\<rparr>"
  note sets = parse_cidrs_Inr [OF p]
  show ?thesis
  proof (cases "tp_NetworkPolicyRef ?spec")
    case None
    then have "apply_policy setCond c now policy ?t ?ct k cache = ((0, None), k', cache')"
      using assms p by (simp add: policy_Reconcile_def Let_def split: if_splits)
    from apply_policy_cache [OF this] None sets show ?thesis
      by (intro exI [of _ ?ct]) (simp add: opened_def egress_closed_def referenced_def tenant_of_def tenant_key)
  next
    case (Some ref)
    have "retry_policy c q k \<noteq> ((0, None), k1)" for q k1 using retry_policy_result [of c q k 0 None k1] by auto
    then obtain np where np: "pc_GetNetworkPolicy c (if pr_Namespace ref = [] then tn_Namespace policy else pr_Namespace ref) (pr_Name ref) k = Found np"
      using assms p Some by (auto simp: policy_Reconcile_def Let_def split: kube_get.splits prod.splits)
    then obtain q where "apply_policy setCond c now q ?t (translateNetworkPolicy parse np ?ct) k cache = ((0, None), k', cache')"
        "tn_Namespace q = tn_Namespace policy"
      using assms p Some by (auto simp: policy_Reconcile_def Let_def)
    from apply_policy_cache [OF this(1)] this(2) Some np sets show ?thesis
      by (intro exI [of _ "translateNetworkPolicy parse np ?ct"])
        (simp add: opened_def egress_closed_def referenced_def tenant_of_def tenant_key)
  qed
qed

text \<open>
  A tenant's policy that was reconciled decides where its sandboxes may connect. The contract
  on record for the tenant, enforced by the gateway on a fresh device, accepts every destination in a network
  of the policy or in an IP block of the network policy it refers to; of the others it drops private
  addresses and the metadata service where the policy denies them or the network policy allows no egress,
  and has no rule for the rest. The contracts of other tenants stay.\<close>

theorem tenant_contract:
  assumes "policy_Reconcile setCond parse c now ns name k cache = ((0, None), k', cache')" "pc_Get c ns name k = Found policy"
    and "enforceContract env tap (GetContractForTenant (tn_Namespace policy) (tp_TenantID (tn_Spec policy)) cache') = (None, cs)"
    and "\<forall>d. tap_verdict tap d chain = None"
  shows "tap_verdict tap d (chain_after cs chain) =
      (if \<exists>p \<in> opened parse c policy k. prefix_Contains p (Some d) then Some ACCEPT
       else if ((kc_DenyPrivate (tp_DefaultContract (tn_Spec policy)) \<or> egress_closed c policy k) \<and>
                  (\<exists>p \<in> set private_nets. prefix_Contains p (Some d))) \<or>
               ((kc_DenyMetadata (tp_DefaultContract (tn_Spec policy)) \<or> egress_closed c policy k) \<and> prefix_Contains metadata_ip (Some d))
            then Some DROP else None) \<and>
    (\<forall>t. t \<noteq> tenant_of policy \<longrightarrow> get cache' t = get cache t)"
proof -
  obtain ct where ct: "cache' = put cache (tenant_of policy) ct" "set (ct_AllowedCIDRs ct) = opened parse c policy k"
      "ct_DenyPrivate ct \<longleftrightarrow> kc_DenyPrivate (tp_DefaultContract (tn_Spec policy)) \<or> egress_closed c policy k"
      "ct_DenyMetadata ct \<longleftrightarrow> kc_DenyMetadata (tp_DefaultContract (tn_Spec policy)) \<or> egress_closed c policy k"
    using policy_Reconcile_ready [OF assms(1,2)] by blast
  have "GetContractForTenant (tn_Namespace policy) (tp_TenantID (tn_Spec policy)) cache' = Some ct"
    by (simp add: ct(1) GetContractForTenant_def tenant_of_def getTenantKey_def)
  with contract_precedence [of env tap ct cs chain d] assms(3,4) ct show ?thesis by simp
qed

definition demo_policy :: TenantNetworkPolicy where
  "demo_policy = \<lparr>tn_Namespace = ''team'', tn_Spec = \<lparr>tp_TenantID = ''acme'',
       tp_DefaultContract = \<lparr>kc_AllowedCIDRs = [], kc_DenyPrivate = False, kc_DenyMetadata = False\<rparr>,
       tp_NetworkPolicyRef = Some \<lparr>pr_Name = ''deny-all'', pr_Namespace = []\<rparr>\<rparr>,
     tn_Status = \<lparr>tps_Ready = False, tps_Message = [], tps_LastApplied = None, tps_Conditions = []\<rparr>\<rparr>"

definition demo_policy_client :: "unit policy_client" where
  "demo_policy_client = \<lparr>pc_Get = (\<lambda>ns name k. Found demo_policy), pc_GetNetworkPolicy = (\<lambda>ns name k. Found \<lparr>np_PolicyTypes = [''Egress''], np_Egress = []\<rparr>),
     pc_UpdateStatus = (\<lambda>p k. (None, k))\<rparr>"

lemma quiet_enforces: "fst (enforceContract quiet_host tap contract) = None"
proof -
  have "fst (calls quiet_host cs) = None" for cs
    by (induction cs) (auto simp: quiet_host_def split: prod.splits)
  then show ?thesis by (simp add: enforceContract_def split: option.split)
qed

theorem tenant_contract_witness:
  "tap_verdict ''tap-x'' 0x08080808 (chain_after (snd (enforceContract quiet_host ''tap-x'' (GetContractForTenant ''team'' ''acme''
     (snd (snd (policy_Reconcile put_condition (\<lambda>_. None) demo_policy_client 5 ''team'' ''net'' () [])))))) []) = None"
proof -
  let ?res = "policy_Reconcile put_condition (\<lambda>_. None) demo_policy_client 5 ''team'' ''net'' () []"
  let ?e = "enforceContract quiet_host ''tap-x'' (GetContractForTenant (tn_Namespace demo_policy) (tp_TenantID (tn_Spec demo_policy)) (snd (snd ?res)))"
  have r: "?res = ((0, None), (), snd (snd ?res))"
    by (simp add: policy_Reconcile_def demo_policy_client_def demo_policy_def apply_policy_def Let_def)
  have g: "pc_Get demo_policy_client ''team'' ''net'' () = Found demo_policy" by (simp add: demo_policy_client_def)
  have "fst ?e = None" by (rule quiet_enforces)
  then have e: "?e = (None, snd ?e)" by (metis prod.collapse)
  have o: "opened (\<lambda>_. None) demo_policy_client demo_policy () = {}"
    by (simp add: opened_def referenced_def demo_policy_client_def demo_policy_def ip_blocks_def)
  have "\<not> prefix_Contains metadata_ip (Some 0x08080808)" "\<not> (\<exists>p \<in> set private_nets. prefix_Contains p (Some 0x08080808))"
    by (simp_all add: prefix_Contains_def metadata_ip_def private_nets_def)
  with tenant_contract [OF r g e, of "[]" "0x08080808", THEN conjunct1] o
  show ?thesis by (simp add: demo_policy_def)
qed

text \<open>A policy that is not ready leaves the last contract in force. A policy that refers to its tenant by name is not
  forgotten when it is deleted, and one of any namespace takes the place of the contract of a tenant.\<close>

lemma invalid_policy_keeps_contract:
  assumes "policy_Reconcile setCond parse c now ns name k cache = ((d, err), k', cache')" "pc_Get c ns name k = Found policy" "d \<noteq> 0"
  shows "cache' = cache"
  using assms by (auto simp: policy_Reconcile_def apply_policy_def Let_def split: sum.splits option.splits prod.splits kube_get.splits)

lemma deleted_policy_stays:
  assumes "pc_Get c ns name k = NotFound" "t \<noteq> []" "t \<noteq> ns"
  shows "GetContractForTenant ns t (snd (snd (policy_Reconcile setCond parse c now ns name k cache))) = get cache t"
  using assms by (simp add: policy_Reconcile_def GetContractForTenant_def getTenantKey_def split: option.split)

lemma tenant_takeover:
  assumes "policy_Reconcile setCond parse c now ns name k cache = ((0, None), k', cache')" "pc_Get c ns name k = Found policy"
    and "tp_TenantID (tn_Spec policy) = victim" "victim \<noteq> []"
  shows "\<exists>ct. GetContractForTenant victim [] cache' = Some ct \<and> set (ct_AllowedCIDRs ct) = opened parse c policy k"
  using policy_Reconcile_ready [OF assms(1,2)] assms(3,4)
  by (auto simp: GetContractForTenant_def tenant_of_def getTenantKey_def)

section \<open>The operator and the server\<close>

text \<open>The operator connected to the API server behind its gate: the call is served by the routes of the server,
  with the request as the decoded body, and a run in the answer is read as a status.\<close>

definition decode_status :: "body \<Rightarrow> string + olympusStatus" where
  "decode_status b = (case b of Run run \<Rightarrow> Inr \<lparr>os_ID = run_ID run, os_Status = run_Status run, os_NodeID = run_NodeID run\<rparr> | _ \<Rightarrow> Inl ''EOF'')"

definition server_http :: "string \<Rightarrow> (http_request \<Rightarrow> string + SandboxRequest \<Rightarrow> server \<Rightarrow> response \<times> server) \<Rightarrow> server http_client" where
  "server_http addr mux c s =
     (case mux \<lparr>hr_Method = hc_Method c, hr_Path = TrimPrefix (hc_URL c) addr,
            hr_Header = (\<lambda>h. case get (hc_Header c) h of Some v \<Rightarrow> v | None \<Rightarrow> []), hr_TLS = None, hr_RemoteAddr = []\<rparr>
            (case hc_Body c of Some req \<Rightarrow> Inr req | None \<Rightarrow> Inl ''EOF'') s of
        ((code, b), s') \<Rightarrow> (Inr (nat code, [], decode_status b), s'))"

definition server_mux ::
    "cluster Manager \<Rightarrow> cluster nyx \<Rightarrow> string \<Rightarrow> (nat \<Rightarrow> go_time) \<Rightarrow> decoded
     \<Rightarrow> http_request \<Rightarrow> string + SandboxRequest \<Rightarrow> server \<Rightarrow> response \<times> server" where
  "server_mux m nyx uuid clk d r b s = dispatch m nyx (\<lambda>_. (200, NoBody)) uuid clk r (d\<lparr>bd_submit := b\<rparr>) s"

lemma route_submit: "route ''/submit'' = RSubmit" by code_simp

lemma route_job:
  assumes "CHR ''/'' \<notin> set x"
  shows "route (''/sandboxes/k8s-'' @ x) = RSandbox"
proof -
  have "get patterns (''/sandboxes/k8s-'' @ x) = None" "get patterns ((''/sandboxes/k8s-'' @ x) @ ''/'') = None"
    by (simp_all add: patterns_def)
  moreover have "longest_match (''/sandboxes/k8s-'' @ x) patterns = Some (''/sandboxes/'', RSandbox)"
    by (simp add: patterns_def pattern_matches_def)
  ultimately show ?thesis by (simp add: route_def)
qed

lemma TrimPrefix_addr [simp]: "TrimPrefix (addr @ path) addr = path"
  by (simp add: TrimPrefix_def)

lemma with_identity_ID: "req_ID req \<noteq> [] \<Longrightarrow> req_ID (with_identity uuid clk req) = req_ID req"
  by (simp add: with_identity_def Let_def)

lemma server_submits:
  assumes "submitToOlympus r (server_http (sr_OlympusAddr r) (server_mux (memory_manager st srt t ctx al ph ctl ls) nyx uuid clk d)) req s = (None, s')"
    and "req_ID req \<noteq> []"
  shows "\<exists>req' run. cluster_waiting (srv_cluster s') = cluster_waiting (srv_cluster s) @ [req'] \<and> req_ID req' = req_ID req \<and>
    cluster_runs (srv_cluster s') (req_ID req) = Some run \<and> run_Status run = RunStatusScheduled \<and> run_NodeID run = req_NodeID req'"
proof -
  let ?m = "memory_manager st srt t ctx al ph ctl ls"
  obtain res req' w' where sub: "Submit ?m uuid clk (srv_cluster s) req = (res, req', w')" by (metis prod_cases3)
  have ok: "res = None \<and> srv_cluster s' = w'"
    using assms(1) sub
    by (cases res) (auto simp: submitToOlympus_def server_http_def server_mux_def dispatch_def route_submit handle_submit_def on_cluster_def Let_def
        split: prod.splits olympus_error.splits if_splits)
  then show ?thesis
    using mem.Submit_frame [OF sub] mem.Submit_outcome [OF sub] with_identity_ID [OF assms(2)] by auto
qed

lemma server_answers:
  assumes "cluster_runs (srv_cluster s) (''k8s-'' @ x) = Some run" "CHR ''/'' \<notin> set x"
  shows "checkStatus r (server_http (sr_OlympusAddr r) (server_mux (memory_manager st srt t ctx al ph ctl ls) nyx uuid clk d)) (''k8s-'' @ x) s =
    (Inr \<lparr>os_ID = run_ID run, os_Status = run_Status run, os_NodeID = run_NodeID run\<rparr>, s)"
proof -
  have "split_on CHR ''/'' x = [x]" using assms(2) by (rule split_on_word)
  then show ?thesis
    using route_job [OF assms(2)] assms(1)
    by (simp add: checkStatus_def server_http_def server_mux_def dispatch_def handle_sandbox_def on_cluster_def decode_status_def Let_def)
qed

text \<open>
  A job that the operator has submitted runs on the control plane. When a reconciliation against the
  API server over the in-memory components reports the job as submitted, exactly its request has joined the
  queue, its run is on record as scheduled, and the next reconciliation shows the job as scheduled on the
  node that was chosen for it.\<close>

theorem job_reaches_server:
  fixes r d nyx st srt t ctx al ph ctl ls
  defines "http \<equiv> \<lambda>uuid clk. server_http (sr_OlympusAddr r) (server_mux (memory_manager st srt t ctx al ph ctl ls) nyx uuid clk d)"
  assumes "job_Reconcile setCond r (stored_client None None) (http uuid clk) now stamp ns name (Some job) s = ((2 * second, None), k', s')"
    and "sj_Namespace job = ns" "sj_Name job = name" "CHR ''/'' \<notin> set ns \<union> set name"
  shows "\<exists>req run job'. cluster_waiting (srv_cluster s') = cluster_waiting (srv_cluster s) @ [req] \<and>
    req_ID req = ''k8s-'' @ ns @ ''-'' @ name \<and> cluster_runs (srv_cluster s') (req_ID req) = Some run \<and> run_Status run = RunStatusScheduled \<and>
    fst (snd (job_Reconcile setCond r (stored_client None None) (http uuid' clk') now' stamp' ns name k' s')) = Some job' \<and>
    js_State (sj_Status job') = RunStatusScheduled \<and> js_NodeID (sj_Status job') = req_NodeID req"
proof -
  have fresh: "js_State (sj_Status job) \<notin> {RunStatusSucceeded, RunStatusFailed}" "js_ID (sj_Status job) = []"
    "submitToOlympus r (http uuid clk) (job_request now job) s = (None, s')"
    and k': "map_option (\<lambda>j. (js_ID (sj_Status j), js_State (sj_Status j))) k' = Some (job_sandbox_id job, RunStatusPending)"
    using assms(2)
    by (auto simp: job_Reconcile_def submit_job_def follow_job_def stored_client_def Let_def
        split: option.splits sum.splits prod.splits if_splits)
  have i: "job_sandbox_id job = ''k8s-'' @ ns @ ''-'' @ name" using assms(3,4) by (simp add: job_sandbox_id_def)
  obtain req run where run: "cluster_waiting (srv_cluster s') = cluster_waiting (srv_cluster s) @ [req]" "req_ID req = ''k8s-'' @ ns @ ''-'' @ name"
      "cluster_runs (srv_cluster s') (req_ID req) = Some run" "run_Status run = RunStatusScheduled" "run_NodeID run = req_NodeID req"
    using server_submits [OF fresh(3) [unfolded http_def]] i by auto
  have "checkStatus r (http uuid' clk') (''k8s-'' @ ns @ ''-'' @ name) s' =
      (Inr \<lparr>os_ID = run_ID run, os_Status = run_Status run, os_NodeID = run_NodeID run\<rparr>, s')"
    unfolding http_def by (rule server_answers) (use run assms(5) in auto)
  moreover obtain job1 where "k' = Some job1" "js_ID (sj_Status job1) = ''k8s-'' @ ns @ ''-'' @ name" "js_State (sj_Status job1) = RunStatusPending"
    using k' i by auto
  ultimately have "\<exists>job'. fst (snd (job_Reconcile setCond r (stored_client None None) (http uuid' clk') now' stamp' ns name k' s')) = Some job' \<and>
      js_State (sj_Status job') = RunStatusScheduled \<and> js_NodeID (sj_Status job') = req_NodeID req"
    using run(4,5) by (simp add: job_Reconcile_def follow_job_def stored_client_def job_condition_def Let_def)
  with run show ?thesis by blast
qed

definition demo_operator_http :: "server http_client" where
  "demo_operator_http = server_http (sr_OlympusAddr demo_reconciler) (server_mux demo_manager demo_nyx ''u'' (\<lambda>_. 7) demo_decoded)"

definition demo_first :: "ctrl_result \<times> SandboxJob option \<times> server" where
  "demo_first = job_Reconcile put_condition demo_reconciler (stored_client None None) demo_operator_http 5 ''now'' ''default'' ''build''
     (Some demo_job) demo_server"

theorem job_reaches_server_witness:
  "\<exists>req job'. cluster_waiting (srv_cluster (snd (snd demo_first))) = cluster_waiting (srv_cluster demo_server) @ [req] \<and>
     req_ID req = ''k8s-default-build'' \<and>
     fst (snd (job_Reconcile put_condition demo_reconciler (stored_client None None) demo_operator_http 9 ''later'' ''default'' ''build''
       (fst (snd demo_first)) (snd (snd demo_first)))) = Some job' \<and> js_State (sj_Status job') = RunStatusScheduled"
proof -
  have "fst demo_first = (2 * second, None)" by code_simp
  then have "job_Reconcile put_condition demo_reconciler (stored_client None None) demo_operator_http 5 ''now'' ''default'' ''build''
      (Some demo_job) demo_server = ((2 * second, None), fst (snd demo_first), snd (snd demo_first))"
    unfolding demo_first_def by (metis prod.collapse)
  from job_reaches_server [OF this [unfolded demo_operator_http_def demo_manager_def], folded demo_operator_http_def demo_manager_def,
      of "''u''" "\<lambda>_. 7" 9 "''later''"]
  show ?thesis unfolding demo_operator_http_def by (auto simp: demo_job_def)
qed

end
