(* ===== verification/Nyx.thy ===== *)
theory Nyx
  imports Hypnos
begin

text \<open>
  The snapshot manager of a node (\<open>pkg/nyx/local_manager.go\<close>): snapshots of booted templates, kept in the
  object store for all nodes and in a directory of the node, with an index in memory.

  The object store is that of \<open>Hypnos\<close>. Files are a map from clean paths to contents; the temporary files of a
  call are a map of their own, as nothing else sees them. Which call of the system or of the store fails, and how far a
  copy gets that fails, is the argument \<open>nyx_env\<close>. The virtual machine is an argument too, for the manager as
  the launcher the code has as a field, and for \<open>createPausedVM\<close>, the launcher the constructor installs, as the
  library that drives it.
\<close>

section \<open>State and surroundings\<close>

record LocalManager =
  nm_SnapshotDir :: string
  nm_byTemplate :: "(TemplateID, Snapshot list) gomap"
  nm_store :: files
  nm_files :: files

datatype file_fault = NoFault | CreateFault string | CopyFault nat string

record oci_builder =
  ob_Assemble :: "string \<Rightarrow> string option"
  ob_BuildRootFS :: "string \<Rightarrow> string option"

record nyx_env =
  ne_uuid :: string
  ne_now :: go_time
  ne_socketDir :: string
  ne_MkdirTemp :: "string \<Rightarrow> string option"
  ne_OCIBuilder :: "oci_builder option"
  ne_Put :: "string \<Rightarrow> string option"
  ne_Get :: "string \<Rightarrow> string option"
  ne_Delete :: "string \<Rightarrow> string option"
  ne_Mkdir :: "string \<Rightarrow> string option"
  ne_file :: "string \<Rightarrow> file_fault"
  ne_rename :: "string \<Rightarrow> string option"
  ne_Remove :: "string \<Rightarrow> string option"

text \<open>A machine is what \<open>CreateSnapshot\<close> makes of it: an error, or a memory and a disk image.\<close>

type_synonym vm_launcher = "TemplateSpec \<Rightarrow> string \<Rightarrow> string \<Rightarrow> string + (string + string \<times> string)"

text \<open>One step of a function that returns early on an error.\<close>

definition and_then :: "string option \<times> 'm \<Rightarrow> ('m \<Rightarrow> (string + 'a) \<times> 'm) \<Rightarrow> (string + 'a) \<times> 'm" where
  "and_then r k = (case r of (Some err, m) \<Rightarrow> (Inl err, m) | (None, m) \<Rightarrow> k m)"

definition context_of :: "string \<Rightarrow> string option \<times> 'm \<Rightarrow> string option \<times> 'm" where
  "context_of what r = (case r of (err, m) \<Rightarrow> (map_option (\<lambda>e. what @ e) err, m))"

definition NewLocalManager :: "nyx_env \<Rightarrow> string \<Rightarrow> files \<Rightarrow> files \<Rightarrow> string + LocalManager" where
  "NewLocalManager env snapshotDir store fs =
     (case ne_Mkdir env snapshotDir of
        Some err \<Rightarrow> Inl (''failed to create snapshot dir: '' @ err)
      | None \<Rightarrow> Inr \<lparr>nm_SnapshotDir = snapshotDir, nm_byTemplate = [], nm_store = store, nm_files = fs\<rparr>)"

section \<open>Keys and files\<close>

definition snapKey :: "TemplateID \<Rightarrow> SnapshotID \<Rightarrow> string \<Rightarrow> string" where
  "snapKey t i ext = ''snapshots/'' @ t @ ''/'' @ i @ ext"

definition latestKey :: "TemplateID \<Rightarrow> string" where
  "latestKey t = ''snapshots/'' @ t @ ''/latest''"

definition finalDir :: "LocalManager \<Rightarrow> TemplateID \<Rightarrow> string" where
  "finalDir m t = nm_SnapshotDir m @ ''/snapshots/'' @ t"

definition basePath :: "LocalManager \<Rightarrow> TemplateID \<Rightarrow> SnapshotID \<Rightarrow> string" where
  "basePath m t i = finalDir m t @ ''/'' @ i"

definition uploadFile :: "nyx_env \<Rightarrow> files \<Rightarrow> string \<Rightarrow> string \<Rightarrow> LocalManager \<Rightarrow> string option \<times> LocalManager" where
  "uploadFile env fs key path m =
     (case get fs path of
        None \<Rightarrow> (Some (''failed to open snapshot file '' @ path @ '': no such file or directory''), m)
      | Some bytes \<Rightarrow>
          (case LocalStore_Put (ne_Put env key) key bytes (nm_store m) of
             (Some err, st) \<Rightarrow> (Some (''failed to upload '' @ key @ '' to erebus: '' @ err), m\<lparr>nm_store := st\<rparr>)
           | (None, st) \<Rightarrow> (None, m\<lparr>nm_store := st\<rparr>)))"

definition downloadFile :: "nyx_env \<Rightarrow> string \<Rightarrow> string \<Rightarrow> LocalManager \<Rightarrow> string option \<times> LocalManager" where
  "downloadFile env key path m =
     (case LocalStore_Get (ne_Get env key) key (nm_store m) of
        Inl err \<Rightarrow> (Some (''failed to get '' @ key @ '' from erebus: '' @ err), m)
      | Inr bytes \<Rightarrow>
          (let tmpPath = path @ ''.tmp''
           in case ne_file env tmpPath of
                CreateFault err \<Rightarrow> (Some (''failed to create temp file '' @ tmpPath @ '': '' @ err), m)
              | CopyFault n err \<Rightarrow> (Some (''failed to download '' @ key @ '': '' @ err), m\<lparr>nm_files := put (nm_files m) tmpPath (take n bytes)\<rparr>)
              | NoFault \<Rightarrow>
                  (case ne_rename env path of
                     Some err \<Rightarrow> (Some (''failed to rename '' @ tmpPath @ '' to '' @ path @ '': '' @ err),
                                  m\<lparr>nm_files := put (nm_files m) tmpPath bytes\<rparr>)
                   | None \<Rightarrow> (None, m\<lparr>nm_files := put (del (nm_files m) tmpPath) path bytes\<rparr>))))"

text \<open>\<open>copyFile\<close> opens the source before it truncates the destination, in place of which it may be.\<close>

definition write_file :: "nyx_env \<Rightarrow> string \<Rightarrow> string \<Rightarrow> LocalManager \<Rightarrow> string option \<times> LocalManager" where
  "write_file env dst bytes m =
     (case ne_file env dst of
        CreateFault err \<Rightarrow> (Some err, m)
      | CopyFault n err \<Rightarrow> (Some err, m\<lparr>nm_files := put (nm_files m) dst (take n bytes)\<rparr>)
      | NoFault \<Rightarrow> (None, m\<lparr>nm_files := put (nm_files m) dst bytes\<rparr>))"

definition nyx_copyFile :: "nyx_env \<Rightarrow> files \<Rightarrow> string \<Rightarrow> string \<Rightarrow> LocalManager \<Rightarrow> string option \<times> LocalManager" where
  "nyx_copyFile env fs src dst m =
     (case get fs src of
        None \<Rightarrow> (Some ''no such file or directory'', m)
      | Some _ \<Rightarrow> write_file env dst (get_or [] (put fs dst []) src) m)"

definition MkdirAll :: "nyx_env \<Rightarrow> string \<Rightarrow> LocalManager \<Rightarrow> string option \<times> LocalManager" where
  "MkdirAll env d m = (ne_Mkdir env d, m)"

definition store_Put :: "nyx_env \<Rightarrow> string \<Rightarrow> string \<Rightarrow> LocalManager \<Rightarrow> string option \<times> LocalManager" where
  "store_Put env key bytes m = (case LocalStore_Put (ne_Put env key) key bytes (nm_store m) of (err, st) \<Rightarrow> (err, m\<lparr>nm_store := st\<rparr>))"

definition remember :: "TemplateID \<Rightarrow> Snapshot \<Rightarrow> LocalManager \<Rightarrow> LocalManager" where
  "remember t snap m = m\<lparr>nm_byTemplate := put (nm_byTemplate m) t (get_or [] (nm_byTemplate m) t @ [snap])\<rparr>"

section \<open>Preparing a snapshot\<close>

definition ScanImage :: "string \<Rightarrow> string option" where
  "ScanImage path = (if sublist ''vulnerable'' path then Some ''critical vulnerability found: CVE-2025-9999'' else None)"

definition prepare_rootfs :: "nyx_env \<Rightarrow> TemplateSpec \<Rightarrow> string + string" where
  "prepare_rootfs env tpl =
     (if CHR '':'' \<in> set (tpl_BaseImage tpl) \<or> CHR ''/'' \<in> set (tpl_BaseImage tpl) then
        (case ne_OCIBuilder env of
           None \<Rightarrow> Inl (''OCI builder not configured but base image looks like OCI ref: '' @ tpl_BaseImage tpl)
         | Some b \<Rightarrow>
             (case ne_MkdirTemp env ''oci-extract-*'' of
                Some err \<Rightarrow> Inl (''failed to create extract dir: '' @ err)
              | None \<Rightarrow>
             (case ob_Assemble b (tpl_BaseImage tpl) of
                Some err \<Rightarrow> Inl (''failed to assemble OCI image: '' @ err)
              | None \<Rightarrow>
                  (let ociRootfs = ne_socketDir env @ ''/rootfs.img''
                   in case ob_BuildRootFS b ociRootfs of
                        Some err \<Rightarrow> Inl (''failed to build rootfs from OCI: '' @ err)
                      | None \<Rightarrow>
                          (case ScanImage ociRootfs of
                             Some err \<Rightarrow> Inl (''vulnerability scan failed: '' @ err)
                           | None \<Rightarrow> Inr ociRootfs)))))
      else Inr (tpl_BaseImage tpl))"

definition vm_memory :: "TemplateSpec \<Rightarrow> int" where
  "vm_memory tpl = (let memSz = res_Mem (tpl_Resources tpl) in if memSz = 0 then 128 else memSz)"

definition vm_cpus :: "TemplateSpec \<Rightarrow> int" where
  "vm_cpus tpl = (let cpuCount = go_div (res_CPU (tpl_Resources tpl)) 1000 in if cpuCount < 1 then 1 else cpuCount)"

definition int_text :: "int \<Rightarrow> string" where
  "int_text x = (if x < 0 then ''-'' @ itoa (nat (- x)) else itoa (nat x))"

definition prepared_snapshot :: "nyx_env \<Rightarrow> TemplateSpec \<Rightarrow> LocalManager \<Rightarrow> Snapshot" where
  "prepared_snapshot env tpl m =
     \<lparr>sn_ID = ne_uuid env, sn_Template = tpl_ID tpl, sn_Path = basePath m (tpl_ID tpl) (ne_uuid env), sn_CreatedAt = ne_now env,
      sn_Metadata = [(''source_image'', tpl_BaseImage tpl), (''kernel_image'', tpl_KernelImage tpl),
                     (''cpu_count'', int_text (vm_cpus tpl)), (''mem_size_mb'', int_text (vm_memory tpl))]\<rparr>"

text \<open>The images, the description and the pointer go to the store, then the same files to the directory.\<close>

definition cache_locally ::
    "nyx_env \<Rightarrow> files \<Rightarrow> TemplateID \<Rightarrow> SnapshotID \<Rightarrow> string \<Rightarrow> string \<Rightarrow> LocalManager \<Rightarrow> (string + unit) \<times> LocalManager" where
  "cache_locally env fs t i memFile diskFile m =
     and_then (context_of ''failed to create snapshot final dir: '' (MkdirAll env (finalDir m t) m)) (\<lambda>m.
     and_then (context_of ''failed to cache mem file: '' (nyx_copyFile env fs memFile (basePath m t i @ ''.mem'') m)) (\<lambda>m.
     and_then (context_of ''failed to cache disk file: '' (nyx_copyFile env fs diskFile (basePath m t i @ ''.disk'') m)) (\<lambda>m.
     (Inr (), m))))"

definition upload_images ::
    "nyx_env \<Rightarrow> files \<Rightarrow> TemplateID \<Rightarrow> SnapshotID \<Rightarrow> string \<Rightarrow> string \<Rightarrow> LocalManager \<Rightarrow> (string + unit) \<times> LocalManager" where
  "upload_images env fs t i memFile diskFile m =
     and_then (uploadFile env fs (snapKey t i ''.mem'') memFile m) (\<lambda>m.
     and_then (uploadFile env fs (snapKey t i ''.disk'') diskFile m) (\<lambda>m. (Inr (), m)))"

definition and_also :: "(string + unit) \<times> 'm \<Rightarrow> ('m \<Rightarrow> (string + 'a) \<times> 'm) \<Rightarrow> (string + 'a) \<times> 'm" where
  "and_also r k = (case r of (Inl err, m) \<Rightarrow> (Inl err, m) | (Inr _, m) \<Rightarrow> k m)"

definition persist_prepared ::
    "nyx_env \<Rightarrow> (Snapshot, string) codec \<Rightarrow> TemplateSpec \<Rightarrow> string \<Rightarrow> string \<Rightarrow> LocalManager \<Rightarrow> (string + Snapshot) \<times> LocalManager" where
  "persist_prepared env c tpl mem disk m =
     (let memFile = ne_socketDir env @ ''/snapshot.mem''; diskFile = ne_socketDir env @ ''/snapshot.disk'';
          tmp = [(memFile, mem), (diskFile, disk)]; t = tpl_ID tpl; i = ne_uuid env; snap = prepared_snapshot env tpl m
      in and_also (upload_images env tmp t i memFile diskFile m) (\<lambda>m.
           case fst c snap of
             Inl err \<Rightarrow> (Inl (''failed to marshal snapshot metadata: '' @ err), m)
           | Inr jsonBytes \<Rightarrow>
               and_then (context_of ''failed to upload snapshot metadata: '' (store_Put env (snapKey t i ''.json'') jsonBytes m)) (\<lambda>m.
               and_then (context_of ''failed to update latest pointer: '' (store_Put env (latestKey t) i m)) (\<lambda>m.
               and_also (cache_locally env tmp t i memFile diskFile m) (\<lambda>m.
               and_then (context_of ''failed to cache json file: '' (write_file env (basePath m t i @ ''.json'') jsonBytes m)) (\<lambda>m.
               (Inr snap, remember t snap m)))))))"

definition Prepare ::
    "nyx_env \<Rightarrow> (Snapshot, string) codec \<Rightarrow> vm_launcher \<Rightarrow> TemplateSpec \<Rightarrow> LocalManager \<Rightarrow> (string + Snapshot) \<times> LocalManager" where
  "Prepare env c vmLauncher tpl m =
     (case get_or [] (nm_byTemplate m) (tpl_ID tpl) of
        s # ss \<Rightarrow> (Inr (last (s # ss)), m)
      | [] \<Rightarrow>
     (case ne_MkdirTemp env ''nyx-prepare-*'' of
        Some err \<Rightarrow> (Inl (''failed to create temp socket dir: '' @ err), m)
      | None \<Rightarrow>
     (case prepare_rootfs env tpl of
        Inl err \<Rightarrow> (Inl err, m)
      | Inr rootfsPath \<Rightarrow>
     (case vmLauncher tpl rootfsPath (ne_socketDir env @ ''/firecracker.sock'') of
        Inl err \<Rightarrow> (Inl (''failed to create paused VM: '' @ err), m)
      | Inr (Inl err) \<Rightarrow> (Inl (''failed to create snapshot: '' @ err), m)
      | Inr (Inr (mem, disk)) \<Rightarrow> persist_prepared env c tpl mem disk m))))"

section \<open>Serving, saving and removing snapshots\<close>

definition fallback :: "nyx_env \<Rightarrow> LocalManager \<Rightarrow> TemplateID \<Rightarrow> SnapshotID \<Rightarrow> Snapshot" where
  "fallback env m t i = \<lparr>sn_ID = i, sn_Template = t, sn_Path = basePath m t i, sn_CreatedAt = ne_now env, sn_Metadata = []\<rparr>"

definition blank_Snapshot :: Snapshot where
  "blank_Snapshot = \<lparr>sn_ID = [], sn_Template = [], sn_Path = [], sn_CreatedAt = 0, sn_Metadata = []\<rparr>"

definition decode_or :: "Snapshot \<Rightarrow> (Snapshot, string) codec \<Rightarrow> string \<Rightarrow> Snapshot" where
  "decode_or d c bytes = (case snd c bytes of Inl _ \<Rightarrow> d | Inr snap \<Rightarrow> snap)"

definition adopt :: "TemplateID \<Rightarrow> SnapshotID \<Rightarrow> Snapshot \<Rightarrow> LocalManager \<Rightarrow> (string + Snapshot) \<times> LocalManager" where
  "adopt t i snap m = (let snap = snap\<lparr>sn_Path := basePath m t i\<rparr> in (Inr snap, remember t snap m))"

definition load_local :: "nyx_env \<Rightarrow> (Snapshot, string) codec \<Rightarrow> TemplateID \<Rightarrow> SnapshotID \<Rightarrow> LocalManager \<Rightarrow> (string + Snapshot) \<times> LocalManager" where
  "load_local env c t i m =
     adopt t i (case get (nm_files m) (basePath m t i @ ''.json'') of
                  Some jsonBytes \<Rightarrow> decode_or (fallback env m t i) c jsonBytes
                | None \<Rightarrow> fallback env m t i) m"

text \<open>A description that does not decode is replaced, one that cannot be fetched is left blank.\<close>

definition fetch_remote :: "nyx_env \<Rightarrow> (Snapshot, string) codec \<Rightarrow> TemplateID \<Rightarrow> SnapshotID \<Rightarrow> LocalManager \<Rightarrow> (string + Snapshot) \<times> LocalManager" where
  "fetch_remote env c t i m =
     and_then (context_of ''failed to create snapshot dir: '' (MkdirAll env (finalDir m t) m)) (\<lambda>m.
     and_then (downloadFile env (snapKey t i ''.mem'') (basePath m t i @ ''.mem'') m) (\<lambda>m.
     and_then (downloadFile env (snapKey t i ''.disk'') (basePath m t i @ ''.disk'') m) (\<lambda>m.
     (case downloadFile env (snapKey t i ''.json'') (basePath m t i @ ''.json'') m of
        (Some _, m) \<Rightarrow> adopt t i blank_Snapshot m
      | (None, m) \<Rightarrow>
          adopt t i (case get (nm_files m) (basePath m t i @ ''.json'') of
                       None \<Rightarrow> blank_Snapshot | Some jsonBytes \<Rightarrow> decode_or (fallback env m t i) c jsonBytes) m))))"

definition GetSnapshot :: "nyx_env \<Rightarrow> (Snapshot, string) codec \<Rightarrow> TemplateID \<Rightarrow> LocalManager \<Rightarrow> (string + Snapshot) \<times> LocalManager" where
  "GetSnapshot env c t m =
     (case get_or [] (nm_byTemplate m) t of
        s # ss \<Rightarrow> (Inr (last (s # ss)), m)
      | [] \<Rightarrow>
          (case LocalStore_Get (ne_Get env (latestKey t)) (latestKey t) (nm_store m) of
             Inl err \<Rightarrow> (Inl (''failed to get latest snapshot pointer: '' @ err), m)
           | Inr i \<Rightarrow>
               if get (nm_files m) (basePath m t i @ ''.mem'') \<noteq> None \<and> get (nm_files m) (basePath m t i @ ''.disk'') \<noteq> None
               then load_local env c t i m else fetch_remote env c t i m))"

definition local_ListSnapshots :: "TemplateID \<Rightarrow> LocalManager \<Rightarrow> Snapshot list" where
  "local_ListSnapshots t m = get_or [] (nm_byTemplate m) t"

definition store_Delete :: "nyx_env \<Rightarrow> string \<Rightarrow> LocalManager \<Rightarrow> LocalManager" where
  "store_Delete env key m =
     (case ne_Delete env key of Some _ \<Rightarrow> m | None \<Rightarrow> m\<lparr>nm_store := snd (LocalStore_Delete key (nm_store m))\<rparr>)"

definition os_Remove :: "nyx_env \<Rightarrow> string \<Rightarrow> LocalManager \<Rightarrow> LocalManager" where
  "os_Remove env path m = (case ne_Remove env path of Some _ \<Rightarrow> m | None \<Rightarrow> m\<lparr>nm_files := del (nm_files m) path\<rparr>)"

definition remove_files :: "nyx_env \<Rightarrow> TemplateID \<Rightarrow> SnapshotID \<Rightarrow> LocalManager \<Rightarrow> LocalManager" where
  "remove_files env t i m =
     (let m = store_Delete env (snapKey t i ''.mem'') m;
          m = store_Delete env (snapKey t i ''.disk'') m;
          m = store_Delete env (snapKey t i ''.json'') m;
          m = os_Remove env (basePath m t i @ ''.mem'') m;
          m = os_Remove env (basePath m t i @ ''.disk'') m
      in os_Remove env (basePath m t i @ ''.json'') m)"

definition Invalidate :: "nyx_env \<Rightarrow> TemplateID \<Rightarrow> LocalManager \<Rightarrow> LocalManager" where
  "Invalidate env t m =
     (let m = fold (\<lambda>snap. remove_files env t (sn_ID snap)) (get_or [] (nm_byTemplate m) t) m;
          m = store_Delete env (latestKey t) m
      in m\<lparr>nm_byTemplate := del (nm_byTemplate m) t\<rparr>)"

definition local_DeleteSnapshot :: "nyx_env \<Rightarrow> TemplateID \<Rightarrow> SnapshotID \<Rightarrow> LocalManager \<Rightarrow> LocalManager" where
  "local_DeleteSnapshot env t i m =
     remove_files env t i
       (case get (nm_byTemplate m) t of
          None \<Rightarrow> m
        | Some snaps \<Rightarrow> m\<lparr>nm_byTemplate := put (nm_byTemplate m) t (filter (\<lambda>s. sn_ID s \<noteq> i) snaps)\<rparr>)"

definition SaveSnapshot ::
    "nyx_env \<Rightarrow> (Snapshot, string) codec \<Rightarrow> TemplateID \<Rightarrow> SnapshotID \<Rightarrow> string \<Rightarrow> string \<Rightarrow> LocalManager \<Rightarrow> (string + Snapshot) \<times> LocalManager" where
  "SaveSnapshot env c t i memPath diskPath m =
     and_also (upload_images env (nm_files m) t i memPath diskPath m) (\<lambda>m.
     and_then (context_of ''failed to create snapshot final dir: '' (MkdirAll env (finalDir m t) m)) (\<lambda>m.
     and_then (context_of ''failed to cache mem file: '' (nyx_copyFile env (nm_files m) memPath (basePath m t i @ ''.mem'') m)) (\<lambda>m.
     and_then (context_of ''failed to cache disk file: '' (nyx_copyFile env (nm_files m) diskPath (basePath m t i @ ''.disk'') m)) (\<lambda>m.
     let snap = \<lparr>sn_ID = i, sn_Template = t, sn_Path = basePath m t i, sn_CreatedAt = ne_now env, sn_Metadata = [(''type'', ''manual'')]\<rparr>
     in case fst c snap of
          Inl err \<Rightarrow> (Inl (''failed to marshal snapshot metadata: '' @ err), m)
        | Inr jsonBytes \<Rightarrow>
            and_then (context_of ''failed to upload snapshot metadata: '' (store_Put env (snapKey t i ''.json'') jsonBytes m)) (\<lambda>m.
            and_then (context_of ''failed to cache json file: '' (write_file env (basePath m t i @ ''.json'') jsonBytes m)) (\<lambda>m.
            (Inr snap, remember t snap m)))))))"

section \<open>Booting a template\<close>

record fc_config =
  fc_SocketPath :: string
  fc_KernelImagePath :: string
  fc_VcpuCount :: int
  fc_MemSizeMib :: int
  fc_Rootfs :: string
  fc_KernelArgs :: string

datatype console_end = ConsoleClosed | ConsoleError string | ConsoleCancelled string

record 'm fc_sdk =
  fk_NewMachine :: "fc_config \<Rightarrow> string + 'm"
  fk_Start :: "'m \<Rightarrow> string option"
  fk_console :: "'m \<Rightarrow> string list \<times> console_end"
  fk_PauseVM :: "'m \<Rightarrow> string option"

fun join_words :: "string list \<Rightarrow> string" where
  "join_words [] = []"
| "join_words [w] = w"
| "join_words (w # ws) = w @ '' '' @ join_words ws"

definition warmup_args :: "string list \<Rightarrow> string" where
  "warmup_args cmd =
     (if cmd = [] then []
      else ''console=ttyS0 reboot=k panic=1 pci=off init=/bin/sh -c '' @ [CHR 0x27] @ join_words cmd @
           '' && echo TARTARUS_READY && sleep 3600'' @ [CHR 0x27])"

definition template_config :: "TemplateSpec \<Rightarrow> string \<Rightarrow> string \<Rightarrow> fc_config" where
  "template_config tpl rootfsPath socketPath =
     \<lparr>fc_SocketPath = socketPath, fc_KernelImagePath = tpl_KernelImage tpl, fc_VcpuCount = vm_cpus tpl, fc_MemSizeMib = vm_memory tpl,
      fc_Rootfs = rootfsPath, fc_KernelArgs = warmup_args (tpl_WarmupCommand tpl)\<rparr>"

text \<open>Waiting for the signal: the lines up to the first with the marker, or how the output ended.\<close>

definition await_ready :: "string list \<times> console_end \<Rightarrow> string option" where
  "await_ready out =
     (if \<exists>line \<in> set (fst out). sublist ''TARTARUS_READY'' line then None
      else Some (case snd out of
              ConsoleCancelled err \<Rightarrow> ''context cancelled during warmup: '' @ err
            | ConsoleError err \<Rightarrow> ''error reading warmup output: '' @ err
            | ConsoleClosed \<Rightarrow> ''VM did not signal readiness during warmup''))"

text \<open>The machine, or the error; and the machine that is stopped because of it.\<close>

definition createPausedVM :: "'m fc_sdk \<Rightarrow> TemplateSpec \<Rightarrow> string \<Rightarrow> string \<Rightarrow> (string + 'm) \<times> 'm option" where
  "createPausedVM sdk tpl rootfsPath socketPath =
     (case fk_NewMachine sdk (template_config tpl rootfsPath socketPath) of
        Inl err \<Rightarrow> (Inl (''failed to create machine: '' @ err), None)
      | Inr machine \<Rightarrow>
     (case fk_Start sdk machine of
        Some err \<Rightarrow> (Inl (''failed to start machine: '' @ err), None)
      | None \<Rightarrow>
     (case (if tpl_WarmupCommand tpl \<noteq> [] then await_ready (fk_console sdk machine) else None) of
        Some err \<Rightarrow> (Inl err, Some machine)
      | None \<Rightarrow>
     (case fk_PauseVM sdk machine of
        Some err \<Rightarrow> (Inl (''failed to pause VM: '' @ err), Some machine)
      | None \<Rightarrow> (Inr machine, None)))))"

section \<open>Steps that succeed\<close>

named_theorems nyx_steps

lemma and_then_Inr [nyx_steps]: "and_then r k = (Inr x, m') \<longleftrightarrow> (\<exists>m. r = (None, m) \<and> k m = (Inr x, m'))"
  by (auto simp: and_then_def split: prod.splits option.splits)

lemma and_also_Inr [nyx_steps]: "and_also r k = (Inr x, m') \<longleftrightarrow> (\<exists>m. r = (Inr (), m) \<and> k m = (Inr x, m'))"
  by (auto simp: and_also_def split: prod.splits sum.splits)

lemma case_sum_Inr [nyx_steps]: "(case x of Inl e \<Rightarrow> (Inl (f e), m) | Inr y \<Rightarrow> g y) = (Inr z, m') \<longleftrightarrow> (\<exists>y. x = Inr y \<and> g y = (Inr z, m'))"
  by (cases x) auto

lemma context_of_None [nyx_steps]: "context_of w r = (None, m) \<longleftrightarrow> r = (None, m)"
  by (auto simp: context_of_def split: prod.splits)

lemma uploadFile_None [nyx_steps]:
  "uploadFile env fs k p m = (None, m') \<longleftrightarrow>
     (\<exists>bytes. get fs p = Some bytes \<and> ne_Put env k = None \<and> m' = m\<lparr>nm_store := put (nm_store m) k bytes\<rparr>)"
  by (auto simp: uploadFile_def LocalStore_Put_def split: option.splits)

lemma store_Put_None [nyx_steps]: "store_Put env k b m = (None, m') \<longleftrightarrow> ne_Put env k = None \<and> m' = m\<lparr>nm_store := put (nm_store m) k b\<rparr>"
  by (auto simp: store_Put_def LocalStore_Put_def split: option.splits)

lemma write_file_None [nyx_steps]: "write_file env p b m = (None, m') \<longleftrightarrow> ne_file env p = NoFault \<and> m' = m\<lparr>nm_files := put (nm_files m) p b\<rparr>"
  by (auto simp: write_file_def split: file_fault.splits)

lemma nyx_copyFile_None [nyx_steps]:
  "nyx_copyFile env fs src dst m = (None, m') \<longleftrightarrow>
     (\<exists>b. get fs src = Some b) \<and> ne_file env dst = NoFault \<and> m' = m\<lparr>nm_files := put (nm_files m) dst (get_or [] (put fs dst []) src)\<rparr>"
  by (auto simp: nyx_copyFile_def write_file_None split: option.splits)

lemma MkdirAll_None [nyx_steps]: "MkdirAll env d m = (None, m') \<longleftrightarrow> ne_Mkdir env d = None \<and> m' = m"
  by (auto simp: MkdirAll_def)

lemma downloadFile_None [nyx_steps]:
  "downloadFile env k p m = (None, m') \<longleftrightarrow>
     (\<exists>b. ne_Get env k = None \<and> get (nm_store m) k = Some b \<and> ne_file env (p @ ''.tmp'') = NoFault \<and> ne_rename env p = None \<and>
        m' = m\<lparr>nm_files := put (del (nm_files m) (p @ ''.tmp'')) p b\<rparr>)"
  by (auto simp: downloadFile_def LocalStore_Get_def Let_def split: option.splits file_fault.splits)

lemma basePath_frame [simp]:
  "basePath (m\<lparr>nm_store := st\<rparr>) = basePath m" "basePath (m\<lparr>nm_files := fs\<rparr>) = basePath m" "basePath (m\<lparr>nm_byTemplate := b\<rparr>) = basePath m"
  "finalDir (m\<lparr>nm_store := st\<rparr>) = finalDir m" "finalDir (m\<lparr>nm_files := fs\<rparr>) = finalDir m" "finalDir (m\<lparr>nm_byTemplate := b\<rparr>) = finalDir m"
  by (simp_all add: fun_eq_iff basePath_def finalDir_def)

text \<open>Keys and paths: an extension tells them apart by its last letter, the other parts by having no slash.\<close>

abbreviation exts :: "string list" where "exts \<equiv> [''.mem'', ''.disk'', ''.json'']"

lemma ext_inj: "e \<in> set exts \<Longrightarrow> e' \<in> set exts \<Longrightarrow> (xs :: string) @ e = ys @ e' \<longleftrightarrow> xs = ys \<and> e = e'"
  by (auto dest: arg_cong [where f = last])

lemma word_inj: "CHR ''/'' \<notin> set t \<Longrightarrow> CHR ''/'' \<notin> set t' \<Longrightarrow> t @ CHR ''/'' # xs = t' @ CHR ''/'' # ys \<longleftrightarrow> t = t' \<and> xs = ys"
  by (auto simp: append_eq_append_conv2 append_eq_Cons_conv Cons_eq_append_conv)


lemma path_inj:
  assumes "CHR ''/'' \<notin> set t" "CHR ''/'' \<notin> set t'" "e \<in> set exts" "e' \<in> set exts"
  shows "basePath m t i @ e = basePath m t' i' @ e' \<longleftrightarrow> t = t' \<and> i = i' \<and> e = e'"
    and "snapKey t i e = snapKey t' i' e' \<longleftrightarrow> t = t' \<and> i = i' \<and> e = e'"
  using word_inj [OF assms(1,2)] ext_inj [OF assms(3,4)] by (auto simp: basePath_def finalDir_def snapKey_def)

lemma ends_apart [simp]:
  "e \<in> set exts \<Longrightarrow> latestKey t \<noteq> snapKey t' i e" "e \<in> set exts \<Longrightarrow> snapKey t' i e \<noteq> latestKey t"
  "e \<in> set exts \<Longrightarrow> p @ e \<noteq> p' @ ''.tmp''" "e \<in> set exts \<Longrightarrow> p' @ ''.tmp'' \<noteq> p @ e"
  by (auto simp: latestKey_def snapKey_def dest: arg_cong [where f = last])

lemma latestKey_inj [simp]: "latestKey t = latestKey t' \<longleftrightarrow> t = t'"
  by (simp add: latestKey_def)

section \<open>A prepared snapshot reaches every node\<close>







text \<open>A concrete encoding of snapshots: a list of texts, each with its length in front.\<close>

definition enc_texts :: "string list \<Rightarrow> string" where
  "enc_texts xs = concat (map (\<lambda>s. replicate (length s) CHR ''1'' @ CHR ''0'' # s) xs)"

function dec_texts :: "string \<Rightarrow> string list" where
  "dec_texts s = (if s = [] then [] else
     let n = length (takeWhile (\<lambda>ch. ch = CHR ''1'') s); r = drop (Suc n) s in take n r # dec_texts (drop n r))"
  by auto
termination by (relation "measure length") auto

declare dec_texts.simps [simp del]

lemma dec_texts_enc: "dec_texts (enc_texts xs) = xs"
proof (induction xs)
  case (Cons x xs)
  let ?s = "replicate (length x) CHR ''1'' @ CHR ''0'' # x @ enc_texts xs"
  have "takeWhile (\<lambda>ch. ch = CHR ''1'') ?s = replicate (length x) CHR ''1''" by (subst takeWhile_append2) auto
  then have "dec_texts ?s = x # dec_texts (enc_texts xs)" by (subst dec_texts.simps) (simp add: Let_def)
  with Cons show ?case by (simp add: enc_texts_def)
qed (simp add: enc_texts_def dec_texts.simps)

definition enc_int :: "int \<Rightarrow> string" where
  "enc_int x = (if x < 0 then CHR ''-'' # replicate (nat (- x)) CHR ''1'' else replicate (nat x) CHR ''1'')"

definition dec_int :: "string \<Rightarrow> int" where
  "dec_int s = (if s \<noteq> [] \<and> hd s = CHR ''-'' then - int (length (tl s)) else int (length s))"

lemma dec_int_enc: "dec_int (enc_int x) = x"
proof (cases "0 < x")
  case True
  then obtain n where "nat x = Suc n" by (metis gr0_implies_Suc zero_less_nat_eq)
  with True show ?thesis by (simp add: enc_int_def dec_int_def)
qed (auto simp: enc_int_def dec_int_def)

fun pair_up :: "'a list \<Rightarrow> ('a \<times> 'a) list" where
  "pair_up (x # y # xs) = (x, y) # pair_up xs"
| "pair_up xs = []"

lemma pair_up_flat: "pair_up (concat (map (\<lambda>(k, v). [k, v]) ps)) = ps"
  by (induction ps) auto

definition snapshot_codec :: "(Snapshot, string) codec" where
  "snapshot_codec =
     (\<lambda>s. Inr (enc_texts (sn_ID s # sn_Template s # sn_Path s # enc_int (sn_CreatedAt s) # concat (map (\<lambda>(k, v). [k, v]) (sn_Metadata s)))),
      \<lambda>t. case dec_texts t of
            i # tpl # p # stamp # ms \<Rightarrow> Inr \<lparr>sn_ID = i, sn_Template = tpl, sn_Path = p, sn_CreatedAt = dec_int stamp, sn_Metadata = pair_up ms\<rparr>
          | _ \<Rightarrow> Inl ''unexpected end of input'')"

lemma snapshot_codec_faithful: "faithful snapshot_codec"
  by (simp add: faithful_def snapshot_codec_def dec_texts_enc dec_int_enc pair_up_flat)

definition demo_nyx_env :: nyx_env where
  "demo_nyx_env = \<lparr>ne_uuid = ''u1'', ne_now = 5, ne_socketDir = ''/tmp/nyx-prepare-1'', ne_MkdirTemp = (\<lambda>_. None), ne_OCIBuilder = None,
     ne_Put = (\<lambda>_. None), ne_Get = (\<lambda>_. None), ne_Delete = (\<lambda>_. None), ne_Mkdir = (\<lambda>_. None), ne_file = (\<lambda>_. NoFault),
     ne_rename = (\<lambda>_. None), ne_Remove = (\<lambda>_. None)\<rparr>"

definition demo_template :: TemplateSpec where
  "demo_template = \<lparr>tpl_ID = ''py'', tpl_Name = ''python'', tpl_Description = [], tpl_BaseImage = ''py.ext4'', tpl_KernelImage = ''vmlinux'',
     tpl_Resources = zero_ResourceSpec, tpl_DefaultEnv = [], tpl_WarmupCommand = []\<rparr>"

definition demo_launcher :: vm_launcher where
  "demo_launcher tpl rootfs sock = Inr (Inr (''memory of '' @ rootfs, ''disk of '' @ rootfs))"

definition empty_node :: "string \<Rightarrow> files \<Rightarrow> LocalManager" where
  "empty_node d store = \<lparr>nm_SnapshotDir = d, nm_byTemplate = [], nm_store = store, nm_files = []\<rparr>"

definition demo_prepared :: "(string + Snapshot) \<times> LocalManager" where
  "demo_prepared = Prepare demo_nyx_env snapshot_codec demo_launcher demo_template (empty_node ''/a'' [])"


section \<open>Every snapshot on offer has its files\<close>

definition listed :: "LocalManager \<Rightarrow> TemplateID \<Rightarrow> Snapshot list" where
  "listed m t = get_or [] (nm_byTemplate m) t"

definition offered :: "LocalManager \<Rightarrow> TemplateID \<Rightarrow> Snapshot \<Rightarrow> bool" where
  "offered m t s \<longleftrightarrow> CHR ''/'' \<notin> set t \<and> sn_Template s = t \<and> sn_Path s = basePath m t (sn_ID s) \<and>
     get (nm_files m) (sn_Path s @ ''.mem'') \<noteq> None \<and> get (nm_files m) (sn_Path s @ ''.disk'') \<noteq> None"

definition index_ok :: "LocalManager \<Rightarrow> bool" where
  "index_ok m \<longleftrightarrow> (\<forall>t. \<forall>s \<in> set (listed m t). offered m t s)"

definition names :: "(Snapshot, string) codec \<Rightarrow> TemplateID \<Rightarrow> SnapshotID \<Rightarrow> string \<Rightarrow> bool" where
  "names c t i bytes \<longleftrightarrow> (\<forall>s. snd c bytes = Inr s \<longrightarrow> sn_ID s = i \<and> sn_Template s = t)"

definition local_ok :: "(Snapshot, string) codec \<Rightarrow> LocalManager \<Rightarrow> bool" where
  "local_ok c m \<longleftrightarrow> (\<forall>t i bytes. CHR ''/'' \<notin> set t \<and> get (nm_files m) (basePath m t i @ ''.json'') = Some bytes \<longrightarrow> names c t i bytes)"

definition store_ok :: "(Snapshot, string) codec \<Rightarrow> files \<Rightarrow> bool" where
  "store_ok c st \<longleftrightarrow> (\<forall>t i. CHR ''/'' \<notin> set t \<longrightarrow>
     (\<forall>bytes. get st (snapKey t i ''.json'') = Some bytes \<longrightarrow> names c t i bytes) \<and>
     (get st (latestKey t) = Some i \<and> get st (snapKey t i ''.mem'') \<noteq> None \<and> get st (snapKey t i ''.disk'') \<noteq> None \<longrightarrow>
        get st (snapKey t i ''.json'') \<noteq> None))"

definition node_ok :: "(Snapshot, string) codec \<Rightarrow> LocalManager \<Rightarrow> bool" where
  "node_ok c m \<longleftrightarrow> index_ok m \<and> local_ok c m \<and> store_ok c (nm_store m)"

text \<open>Surroundings in which copies are all or nothing, the store deletes what it is told to, and descriptions can be fetched.
  Anything else may fail.\<close>

definition settled_env :: "nyx_env \<Rightarrow> bool" where
  "settled_env env \<longleftrightarrow> (\<forall>p n err. ne_file env p \<noteq> CopyFault n err) \<and> (\<forall>k. ne_Delete env k = None) \<and>
     (\<forall>t i. ne_Get env (snapKey t i ''.json'') = None) \<and> (\<forall>p. ne_file env (p @ ''.json.tmp'') = NoFault) \<and> (\<forall>p. ne_rename env (p @ ''.json'') = None)"

lemma listed_frame [simp]:
  "listed (m\<lparr>nm_store := st\<rparr>) = listed m" "listed (m\<lparr>nm_files := fs\<rparr>) = listed m"
  by (simp_all add: fun_eq_iff listed_def)

lemma listed_remember [simp]: "listed (remember t s m) t' = (if t' = t then listed m t @ [s] else listed m t')"
  by (simp add: listed_def remember_def get_or_def)

lemma offered_frame [simp]: "offered (m\<lparr>nm_store := st\<rparr>) = offered m" "offered (m\<lparr>nm_byTemplate := b\<rparr>) = offered m"
  by (simp_all add: fun_eq_iff offered_def)

lemma offered_put: "offered m t s \<Longrightarrow> offered (m\<lparr>nm_files := put (nm_files m) p b\<rparr>) t s"
  by (auto simp: offered_def)

lemma node_ok_image:
  assumes "node_ok c m" "CHR ''/'' \<notin> set t" "get (nm_store m) (latestKey t) \<noteq> Some i" "e \<in> {''.mem'', ''.disk''}"
  shows "node_ok c (m\<lparr>nm_store := put (nm_store m) (snapKey t i e) bytes\<rparr>)"
proof -
  have "store_ok c (put (nm_store m) (snapKey t i e) bytes)"
    using assms path_inj(2) [of _ t] by (auto simp: node_ok_def store_ok_def)
  then show ?thesis using assms(1) by (simp add: node_ok_def index_ok_def local_ok_def)
qed

lemma node_ok_describe:
  assumes "node_ok c m" "CHR ''/'' \<notin> set t" "names c t i bytes"
  shows "node_ok c (m\<lparr>nm_store := put (nm_store m) (snapKey t i ''.json'') bytes\<rparr>)"
proof -
  have "store_ok c (put (nm_store m) (snapKey t i ''.json'') bytes)"
    using assms path_inj(2) [of _ t] by (auto simp: node_ok_def store_ok_def)
  then show ?thesis using assms(1) by (simp add: node_ok_def index_ok_def local_ok_def)
qed

lemma node_ok_point:
  assumes "node_ok c m" "CHR ''/'' \<notin> set t" "get (nm_store m) (snapKey t i ''.json'') \<noteq> None"
  shows "node_ok c (m\<lparr>nm_store := put (nm_store m) (latestKey t) i\<rparr>)"
proof -
  have "store_ok c (put (nm_store m) (latestKey t) i)" using assms by (auto simp: node_ok_def store_ok_def)
  then show ?thesis using assms(1) by (simp add: node_ok_def index_ok_def local_ok_def)
qed

lemma node_ok_file:
  assumes "node_ok c m" "\<And>t i. CHR ''/'' \<notin> set t \<Longrightarrow> p = basePath m t i @ ''.json'' \<Longrightarrow> names c t i bytes"
  shows "node_ok c (m\<lparr>nm_files := put (nm_files m) p bytes\<rparr>)"
  using assms by (auto simp: node_ok_def index_ok_def local_ok_def offered_put)

lemma node_ok_remember:
  assumes "node_ok c m" "offered m t s"
  shows "node_ok c (remember t s m)"
proof -
  have frame: "nm_files (remember t s m) = nm_files m" "nm_store (remember t s m) = nm_store m" "basePath (remember t s m) = basePath m"
    "offered (remember t s m) = offered m" by (simp_all add: remember_def)
  show ?thesis using assms by (auto simp: node_ok_def index_ok_def local_ok_def frame)
qed

text \<open>Removing the files of a snapshot that is no longer listed.\<close>

lemma node_ok_unlink:
  assumes "node_ok c m" "\<And>t s. s \<in> set (listed m t) \<Longrightarrow> p \<noteq> sn_Path s @ ''.mem'' \<and> p \<noteq> sn_Path s @ ''.disk''"
  shows "node_ok c (os_Remove env p m)"
proof -
  have "offered (m\<lparr>nm_files := del (nm_files m) p\<rparr>) t s" if "s \<in> set (listed m t)" for t s
  proof -
    have "offered m t s" using assms(1) that by (simp add: node_ok_def index_ok_def)
    with assms(2) [OF that] show ?thesis by (auto simp: offered_def)
  qed
  then have "node_ok c (m\<lparr>nm_files := del (nm_files m) p\<rparr>)" using assms(1) by (simp add: node_ok_def index_ok_def local_ok_def)
  with assms(1) show ?thesis by (simp add: os_Remove_def split: option.split)
qed

lemma remove_frame:
  "listed (os_Remove env p m) = listed m" "basePath (os_Remove env p m) = basePath m"
  "listed (store_Delete env p m) = listed m" "basePath (store_Delete env p m) = basePath m"
  by (simp_all add: os_Remove_def store_Delete_def split: option.split)

lemma node_ok_remove:
  assumes "settled_env env" "CHR ''/'' \<notin> set t" "node_ok c m" "\<forall>s \<in> set (listed m t). sn_ID s \<noteq> i"
  shows "node_ok c (remove_files env t i m) \<and> listed (remove_files env t i m) = listed m"
proof -
  define m1 where "m1 = store_Delete env (snapKey t i ''.json'') (store_Delete env (snapKey t i ''.disk'') (store_Delete env (snapKey t i ''.mem'') m))"
  have del: "store_Delete env k m = m\<lparr>nm_store := del (nm_store m) k\<rparr>" for k m
    using assms(1) by (simp add: store_Delete_def LocalStore_Delete_def settled_env_def)
  have "store_ok c (del (del (del (nm_store m) (snapKey t i ''.mem'')) (snapKey t i ''.disk'')) (snapKey t i ''.json''))"
    using assms(2,3) path_inj(2) [of _ t] by (auto simp: node_ok_def store_ok_def)
  then have m1: "node_ok c m1" "listed m1 = listed m" "basePath m1 = basePath m"
    using assms(3) by (simp_all add: m1_def del node_ok_def index_ok_def local_ok_def)
  have apart: "basePath m t i @ e \<noteq> sn_Path s @ ''.mem'' \<and> basePath m t i @ e \<noteq> sn_Path s @ ''.disk''"
    if "e \<in> set exts" "s \<in> set (listed m t')" for e t' s
  proof -
    have o: "offered m t' s" using assms(3) that(2) by (simp add: node_ok_def index_ok_def)
    then show ?thesis using path_inj(1) [of t t' e _ m i "sn_ID s"] assms(2,4) that by (auto simp: offered_def)
  qed
  have rm: "node_ok c (os_Remove env (basePath m t i @ e) x) \<and> listed (os_Remove env (basePath m t i @ e) x) = listed m"
    if "node_ok c x" "listed x = listed m" "e \<in> set exts" for x e
    using node_ok_unlink [OF that(1)] apart [OF that(3)] that(2) by (simp add: remove_frame)
  show ?thesis using rm m1 by (simp add: remove_files_def m1_def [symmetric] remove_frame Let_def)
qed

lemma remove_index:
  "os_Remove env p (m\<lparr>nm_byTemplate := b\<rparr>) = (os_Remove env p m)\<lparr>nm_byTemplate := b\<rparr>" "nm_byTemplate (os_Remove env p m) = nm_byTemplate m"
  "store_Delete env p (m\<lparr>nm_byTemplate := b\<rparr>) = (store_Delete env p m)\<lparr>nm_byTemplate := b\<rparr>" "nm_byTemplate (store_Delete env p m) = nm_byTemplate m"
  by (simp_all add: os_Remove_def store_Delete_def split: option.split)

lemma remove_files_index:
  "remove_files env t i (m\<lparr>nm_byTemplate := b\<rparr>) = (remove_files env t i m)\<lparr>nm_byTemplate := b\<rparr>"
  "nm_byTemplate (remove_files env t i m) = nm_byTemplate m"
  by (simp_all add: remove_files_def remove_index Let_def)

lemma Invalidate_keeps:
  assumes "settled_env env" "CHR ''/'' \<notin> set t" "node_ok c m"
  shows "node_ok c (Invalidate env t m)"
proof -
  let ?b = "del (nm_byTemplate m) t" and ?rm = "\<lambda>snap. remove_files env t (sn_ID snap)"
  have index: "nm_byTemplate (fold ?rm ss x) = nm_byTemplate x" for ss x
    by (induction ss arbitrary: x) (simp_all add: remove_files_index)
  have swap: "(fold ?rm ss x)\<lparr>nm_byTemplate := b\<rparr> = fold ?rm ss (x\<lparr>nm_byTemplate := b\<rparr>)" for ss x b
    by (induction ss arbitrary: x) (simp_all add: remove_files_index)
  have *: "node_ok c (fold ?rm ss x)" if "node_ok c x" "listed x t = []" for ss x
    using that
  proof (induction ss arbitrary: x)
    case (Cons a ss)
    have "node_ok c (remove_files env t (sn_ID a) x) \<and> listed (remove_files env t (sn_ID a) x) = listed x"
      by (rule node_ok_remove [OF assms(1,2) Cons.prems(1)]) (simp add: Cons.prems(2))
    then show ?case using Cons by simp
  qed simp
  have "node_ok c (m\<lparr>nm_byTemplate := ?b\<rparr>)" "listed (m\<lparr>nm_byTemplate := ?b\<rparr>) t = []"
    using assms(3) by (auto simp: node_ok_def index_ok_def local_ok_def listed_def get_or_def split: if_splits)
  from * [OF this, of "listed m t"] have "node_ok c ((fold ?rm (listed m t) m)\<lparr>nm_byTemplate := ?b\<rparr>)" by (simp add: swap)
  moreover have "node_ok c (store_Delete env (latestKey t) x)" if "node_ok c x" for x
    using that by (auto simp: store_Delete_def LocalStore_Delete_def node_ok_def index_ok_def local_ok_def store_ok_def split: option.split)
  ultimately have "node_ok c (store_Delete env (latestKey t) ((fold ?rm (listed m t) m)\<lparr>nm_byTemplate := ?b\<rparr>))" by blast
  then show ?thesis by (simp add: Invalidate_def listed_def index remove_index Let_def)
qed

lemma local_DeleteSnapshot_keeps:
  assumes "settled_env env" "CHR ''/'' \<notin> set t" "node_ok c m"
  shows "node_ok c (local_DeleteSnapshot env t i m)"
proof -
  define m1 where "m1 = (case get (nm_byTemplate m) t of None \<Rightarrow> m
      | Some snaps \<Rightarrow> m\<lparr>nm_byTemplate := put (nm_byTemplate m) t (filter (\<lambda>s. sn_ID s \<noteq> i) snaps)\<rparr>)"
  have l: "listed m1 t' = (if t' = t then filter (\<lambda>s. sn_ID s \<noteq> i) (listed m t) else listed m t')" for t'
    by (simp add: m1_def listed_def get_or_def split: option.split)
  have frame: "offered m1 = offered m" "basePath m1 = basePath m" "nm_files m1 = nm_files m" "nm_store m1 = nm_store m"
    by (simp_all add: m1_def split: option.split)
  have "node_ok c m1" using assms(3) by (auto simp: node_ok_def index_ok_def local_ok_def frame l)
  from node_ok_remove [OF assms(1,2) this, of i] show ?thesis by (simp add: local_DeleteSnapshot_def m1_def [symmetric] l)
qed

text \<open>The stages of storing a snapshot, whether they succeed or not.\<close>

lemma uploadFile_keeps:
  assumes "node_ok c m" "CHR ''/'' \<notin> set t" "get (nm_store m) (latestKey t) \<noteq> Some i" "e \<in> {''.mem'', ''.disk''}"
    "uploadFile env fs (snapKey t i e) p m = (r, m')"
  shows "node_ok c m' \<and> get (nm_store m') (latestKey t) \<noteq> Some i \<and> nm_SnapshotDir m' = nm_SnapshotDir m \<and> nm_files m' = nm_files m"
  using assms node_ok_image [OF assms(1-4)]
  by (auto simp: uploadFile_def LocalStore_Put_def split: option.splits)

lemma upload_images_keeps:
  assumes "node_ok c m" "CHR ''/'' \<notin> set t" "get (nm_store m) (latestKey t) \<noteq> Some i" "upload_images env fs t i mf df m = (r, m')"
  shows "node_ok c m' \<and> get (nm_store m') (latestKey t) \<noteq> Some i \<and> nm_SnapshotDir m' = nm_SnapshotDir m \<and> nm_files m' = nm_files m"
proof -
  obtain r1 m1 where 1: "uploadFile env fs (snapKey t i ''.mem'') mf m = (r1, m1)" by fastforce
  obtain r2 m2 where 2: "uploadFile env fs (snapKey t i ''.disk'') df m1 = (r2, m2)" by fastforce
  have k1: "node_ok c m1 \<and> get (nm_store m1) (latestKey t) \<noteq> Some i \<and> nm_SnapshotDir m1 = nm_SnapshotDir m \<and> nm_files m1 = nm_files m"
    by (rule uploadFile_keeps [OF assms(1-3) _ 1]) simp
  have "node_ok c m2 \<and> get (nm_store m2) (latestKey t) \<noteq> Some i \<and> nm_SnapshotDir m2 = nm_SnapshotDir m1 \<and> nm_files m2 = nm_files m1"
    by (rule uploadFile_keeps [OF _ assms(2) _ _ 2]) (use k1 in auto)
  with k1 1 2 assms(4) show ?thesis by (auto simp: upload_images_def and_then_def split: option.splits)
qed

lemma copy_keeps:
  assumes "node_ok c m" "e \<in> {''.mem'', ''.disk''}" "nyx_copyFile env fs src (basePath m t i @ e) m = (r, m')"
  shows "node_ok c m' \<and> nm_SnapshotDir m' = nm_SnapshotDir m \<and> nm_store m' = nm_store m \<and>
    (\<forall>p. get (nm_files m) p \<noteq> None \<longrightarrow> get (nm_files m') p \<noteq> None) \<and> (r = None \<longrightarrow> get (nm_files m') (basePath m t i @ e) \<noteq> None)"
proof -
  have "node_ok c (m\<lparr>nm_files := put (nm_files m) (basePath m t i @ e) bytes\<rparr>)" for bytes
    using assms(2) by (intro node_ok_file [OF assms(1)]) (auto dest: arg_cong [where f = last])
  then show ?thesis using assms(1,3)
    by (auto simp: nyx_copyFile_def write_file_def split: option.splits file_fault.splits if_splits)
qed

lemma basePath_dir: "nm_SnapshotDir m' = nm_SnapshotDir m \<Longrightarrow> basePath m' = basePath m"
  by (simp add: fun_eq_iff basePath_def finalDir_def)

lemma describe_keeps:
  assumes "settled_env env" "node_ok c m" "CHR ''/'' \<notin> set t" "names c t i bytes"
  shows "store_Put env (snapKey t i ''.json'') bytes m = (r, m') \<Longrightarrow> node_ok c m' \<and> nm_SnapshotDir m' = nm_SnapshotDir m \<and> nm_files m' = nm_files m \<and>
      (r = None \<longrightarrow> get (nm_store m') (snapKey t i ''.json'') \<noteq> None)"
    and "write_file env (basePath m t i @ ''.json'') bytes m = (r, m') \<Longrightarrow> node_ok c m' \<and> nm_SnapshotDir m' = nm_SnapshotDir m \<and>
      (\<forall>p. get (nm_files m) p \<noteq> None \<longrightarrow> get (nm_files m') p \<noteq> None)"
proof -
  show "store_Put env (snapKey t i ''.json'') bytes m = (r, m') \<Longrightarrow> node_ok c m' \<and> nm_SnapshotDir m' = nm_SnapshotDir m \<and> nm_files m' = nm_files m \<and>
      (r = None \<longrightarrow> get (nm_store m') (snapKey t i ''.json'') \<noteq> None)"
    using assms(2) node_ok_describe [OF assms(2-4)] by (auto simp: store_Put_def LocalStore_Put_def split: option.splits)
  have "ta = t \<and> ia = i" if "CHR ''/'' \<notin> set ta" "basePath m t i @ ''.json'' = basePath m ta ia @ ''.json''" for ta ia
    using path_inj(1) [OF assms(3) that(1), of "''.json''" "''.json''" m i ia] that(2) by simp
  then have "node_ok c (m\<lparr>nm_files := put (nm_files m) (basePath m t i @ ''.json'') bytes\<rparr>)"
    using assms(4) by (intro node_ok_file [OF assms(2)]) blast
  then show "write_file env (basePath m t i @ ''.json'') bytes m = (r, m') \<Longrightarrow> node_ok c m' \<and> nm_SnapshotDir m' = nm_SnapshotDir m \<and>
      (\<forall>p. get (nm_files m) p \<noteq> None \<longrightarrow> get (nm_files m') p \<noteq> None)"
    using assms(1,2) by (auto simp: write_file_def settled_env_def split: file_fault.splits)
qed

lemma cache_keeps:
  assumes "node_ok c m" "cache_locally env fs t i mf df m = (r, m')"
  shows "node_ok c m' \<and> nm_SnapshotDir m' = nm_SnapshotDir m \<and>
    (r = Inr () \<longrightarrow> get (nm_files m') (basePath m t i @ ''.mem'') \<noteq> None \<and> get (nm_files m') (basePath m t i @ ''.disk'') \<noteq> None)"
proof -
  obtain r1 m1 where 1: "nyx_copyFile env fs mf (basePath m t i @ ''.mem'') m = (r1, m1)" by fastforce
  note k1 = copy_keeps [OF assms(1) _ 1, simplified]
  have b: "basePath m1 = basePath m" using basePath_dir k1 by blast
  obtain r2 m2 where 2: "nyx_copyFile env fs df (basePath m1 t i @ ''.disk'') m1 = (r2, m2)" by fastforce
  note k2 = copy_keeps [OF conjunct1 [OF k1] _ 2, simplified]
  show ?thesis using assms k1 k2 1 2
    by (cases "ne_Mkdir env (finalDir m t)"; cases r1; cases r2) (auto simp: cache_locally_def and_then_def context_of_def MkdirAll_def b)
qed

lemma names_encoded: "faithful c \<Longrightarrow> fst c s = Inr bytes \<Longrightarrow> names c (sn_Template s) (sn_ID s) bytes"
  by (metis faithfulE names_def sum.inject(2))

lemma persist_keeps:
  assumes env: "settled_env env" "faithful c" and m: "node_ok c m" and sep: "CHR ''/'' \<notin> set (tpl_ID tpl)"
    and new: "get (nm_store m) (latestKey (tpl_ID tpl)) \<noteq> Some (ne_uuid env)"
  shows "node_ok c (snd (persist_prepared env c tpl mem disk m))"
proof -
  let ?t = "tpl_ID tpl" and ?i = "ne_uuid env" and ?s = "prepared_snapshot env tpl m"
  define mf df tmp where d: "mf = ne_socketDir env @ ''/snapshot.mem''" "df = ne_socketDir env @ ''/snapshot.disk''" "tmp = ([(mf, mem), (df, disk)] :: files)"
  obtain json where json: "fst c ?s = Inr json" using faithfulE [OF env(2), of ?s] by metis
  have names: "names c ?t ?i json" using names_encoded [OF env(2) json] by (simp add: prepared_snapshot_def)
  obtain r1 m1 where 1: "upload_images env tmp ?t ?i mf df m = (r1, m1)" by fastforce
  note k1 = upload_images_keeps [OF m sep new 1]
  obtain r2 m2 where 2: "store_Put env (snapKey ?t ?i ''.json'') json m1 = (r2, m2)" by fastforce
  note k2 = describe_keeps(1) [OF env(1) conjunct1 [OF k1] sep names 2]
  obtain r3 m3 where 3: "store_Put env (latestKey ?t) ?i m2 = (r3, m3)" by fastforce
  have k3: "r2 = None \<longrightarrow> node_ok c m3 \<and> nm_SnapshotDir m3 = nm_SnapshotDir m2"
    using 3 k2 node_ok_point [of c m2 ?t ?i] sep by (auto simp: store_Put_def LocalStore_Put_def split: option.splits)
  obtain r4 m4 where 4: "cache_locally env tmp ?t ?i mf df m3 = (r4, m4)" by fastforce
  have k4: "r2 = None \<longrightarrow> node_ok c m4 \<and> nm_SnapshotDir m4 = nm_SnapshotDir m \<and>
      (r4 = Inr () \<longrightarrow> get (nm_files m4) (basePath m ?t ?i @ ''.mem'') \<noteq> None \<and> get (nm_files m4) (basePath m ?t ?i @ ''.disk'') \<noteq> None)"
    using cache_keeps [OF _ 4, of c] k1 k2 k3 basePath_dir [of m3 m] by auto
  obtain r5 m5 where 5: "write_file env (basePath m4 ?t ?i @ ''.json'') json m4 = (r5, m5)" by fastforce
  have k5: "r2 = None \<longrightarrow> node_ok c m5 \<and> (r4 = Inr () \<longrightarrow> offered m5 ?t ?s)"
  proof (intro impI)
    assume "r2 = None"
    with k4 have m4: "node_ok c m4" "nm_SnapshotDir m4 = nm_SnapshotDir m" by auto
    note w = describe_keeps(2) [OF env(1) m4(1) sep names 5]
    have "basePath m5 = basePath m" using w m4(2) by (intro basePath_dir) simp
    with w k4 \<open>r2 = None\<close> sep show "node_ok c m5 \<and> (r4 = Inr () \<longrightarrow> offered m5 ?t ?s)" by (simp add: offered_def prepared_snapshot_def)
  qed
  show ?thesis
    using 1 2 3 4 5 k1 k2 k3 k4 k5 node_ok_remember [of c m5 ?t ?s] json
    by (cases r1; cases r2; cases r3; cases r4; cases r5) (auto simp: persist_prepared_def d and_also_def and_then_def context_of_def Let_def)
qed

lemma Prepare_keeps:
  assumes "settled_env env" "faithful c" "node_ok c m" "CHR ''/'' \<notin> set (tpl_ID tpl)" "get (nm_store m) (latestKey (tpl_ID tpl)) \<noteq> Some (ne_uuid env)"
  shows "node_ok c (snd (Prepare env c vmLauncher tpl m))"
  using assms(3) persist_keeps [OF assms] by (auto simp: Prepare_def split: list.split option.split sum.split)

lemma SaveSnapshot_keeps:
  assumes env: "settled_env env" "faithful c" and m: "node_ok c m" and sep: "CHR ''/'' \<notin> set t" and new: "get (nm_store m) (latestKey t) \<noteq> Some i"
  shows "node_ok c (snd (SaveSnapshot env c t i mf df m))"
proof -
  obtain r1 m1 where 1: "upload_images env (nm_files m) t i mf df m = (r1, m1)" by fastforce
  note k1 = upload_images_keeps [OF m sep new 1]
  obtain r2 m2 where 2: "nyx_copyFile env (nm_files m1) mf (basePath m1 t i @ ''.mem'') m1 = (r2, m2)" by fastforce
  note k2 = copy_keeps [OF conjunct1 [OF k1] _ 2, simplified]
  have b2: "basePath m1 = basePath m" "basePath m2 = basePath m" using k1 k2 by (auto intro: basePath_dir)
  obtain r3 m3 where 3: "nyx_copyFile env (nm_files m2) df (basePath m2 t i @ ''.disk'') m2 = (r3, m3)" by fastforce
  note k3 = copy_keeps [OF conjunct1 [OF k2] _ 3, simplified]
  have b3: "basePath m3 = basePath m" using k1 k2 k3 by (intro basePath_dir) simp
  define s where "s = \<lparr>sn_ID = i, sn_Template = t, sn_Path = basePath m3 t i, sn_CreatedAt = ne_now env, sn_Metadata = [(''type'', ''manual'')]\<rparr>"
  obtain json where json: "fst c s = Inr json" using faithfulE [OF env(2), of s] by metis
  have names: "names c t i json" using names_encoded [OF env(2) json] by (simp add: s_def)
  obtain r4 m4 where 4: "store_Put env (snapKey t i ''.json'') json m3 = (r4, m4)" by fastforce
  note k4 = describe_keeps(1) [OF env(1) conjunct1 [OF k3] sep names 4]
  obtain r5 m5 where 5: "write_file env (basePath m4 t i @ ''.json'') json m4 = (r5, m5)" by fastforce
  note k5 = describe_keeps(2) [OF env(1) conjunct1 [OF k4] sep names 5]
  have b: "basePath m4 = basePath m" "basePath m5 = basePath m" using k1 k2 k3 k4 k5 by (auto intro: basePath_dir)
  have "offered m5 t s" if "r2 = None" "r3 = None" using that sep k2 k3 k4 k5 by (auto simp: offered_def s_def b b2 b3)
  then show ?thesis
    using 1 2 3 4 5 k1 k2 k3 k4 k5 node_ok_remember [of c m5 t s] json
    by (cases r1; cases "ne_Mkdir env (finalDir m1 t)"; cases r2; cases r3; cases r4; cases r5)
       (auto simp: SaveSnapshot_def s_def and_also_def and_then_def context_of_def MkdirAll_def Let_def)
qed

lemma node_ok_tmp:
  assumes "node_ok c m"
  shows "node_ok c (m\<lparr>nm_files := put (nm_files m) (p @ ''.tmp'') b\<rparr>)" "node_ok c (m\<lparr>nm_files := del (nm_files m) (p @ ''.tmp'')\<rparr>)"
proof -
  show "node_ok c (m\<lparr>nm_files := put (nm_files m) (p @ ''.tmp'') b\<rparr>)"
    by (rule node_ok_file [OF assms]) (auto dest: arg_cong [where f = last])
  have "offered (m\<lparr>nm_files := del (nm_files m) (p @ ''.tmp'')\<rparr>) t s = offered m t s" for t s by (simp add: offered_def)
  then show "node_ok c (m\<lparr>nm_files := del (nm_files m) (p @ ''.tmp'')\<rparr>)" using assms by (simp add: node_ok_def index_ok_def local_ok_def)
qed

lemma download_keeps:
  assumes m: "node_ok c m" and dl: "downloadFile env k p m = (r, m')"
    and path: "p = basePath m t i @ e" "e \<in> set exts" and sep: "CHR ''/'' \<notin> set t"
    and json: "e = ''.json'' \<Longrightarrow> (\<And>b. get (nm_store m) k = Some b \<Longrightarrow> names c t i b)"
  shows "node_ok c m' \<and> nm_SnapshotDir m' = nm_SnapshotDir m \<and> nm_store m' = nm_store m \<and>
    (\<forall>q \<in> set exts. get (nm_files m) (basePath m t i @ q) \<noteq> None \<longrightarrow> get (nm_files m') (basePath m t i @ q) \<noteq> None) \<and>
    (r = None \<longrightarrow> get (nm_files m') p = get (nm_store m) k \<and> get (nm_store m) k \<noteq> None)"
proof (cases r)
  case None
  with dl obtain b where b: "get (nm_store m) k = Some b" "m' = m\<lparr>nm_files := put (del (nm_files m) (p @ ''.tmp'')) p b\<rparr>"
    by (auto simp: downloadFile_None)
  let ?m = "m\<lparr>nm_files := del (nm_files m) (p @ ''.tmp'')\<rparr>"
  have "node_ok c (?m\<lparr>nm_files := put (nm_files ?m) p b\<rparr>)"
  proof (rule node_ok_file [OF node_ok_tmp(2) [OF m]])
    fix ta ia assume "CHR ''/'' \<notin> set ta" "p = basePath ?m ta ia @ ''.json''"
    with path_inj(1) [OF sep this(1) path(2), of "''.json''" m i ia] path(1) have "ta = t" "ia = i" "e = ''.json''" by auto
    with json b(1) show "names c ta ia b" by blast
  qed
  with b None show ?thesis using path by (auto dest: arg_cong [where f = last])
next
  case (Some err)
  then show ?thesis using dl m node_ok_tmp(1) [OF m]
    by (auto simp: downloadFile_def Let_def split: sum.splits file_fault.splits option.splits)
qed

lemma adopt_keeps:
  assumes "node_ok c m" "CHR ''/'' \<notin> set t" "get (nm_files m) (basePath m t i @ ''.mem'') \<noteq> None" "get (nm_files m) (basePath m t i @ ''.disk'') \<noteq> None"
    "sn_ID snap = i" "sn_Template snap = t"
  shows "node_ok c (snd (adopt t i snap m))"
  using assms by (auto simp: adopt_def Let_def offered_def intro!: node_ok_remember)

lemma decode_named:
  "names c t i bytes \<Longrightarrow> sn_ID (decode_or (fallback env m t i) c bytes) = i \<and> sn_Template (decode_or (fallback env m t i) c bytes) = t"
  by (auto simp: decode_or_def names_def fallback_def split: sum.splits)

lemma fetch_keeps:
  assumes env: "settled_env env" and m: "node_ok c m" and sep: "CHR ''/'' \<notin> set t" and latest: "get (nm_store m) (latestKey t) = Some i"
  shows "node_ok c (snd (fetch_remote env c t i m))"
proof -
  let ?p = "basePath m t i"
  obtain r1 m1 where 1: "downloadFile env (snapKey t i ''.mem'') (?p @ ''.mem'') m = (r1, m1)" by fastforce
  note k1 = download_keeps [OF m 1 refl _ sep, simplified]
  have b1: "basePath m1 = basePath m" using k1 by (intro basePath_dir) simp
  obtain r2 m2 where 2: "downloadFile env (snapKey t i ''.disk'') (?p @ ''.disk'') m1 = (r2, m2)" by fastforce
  have k2: "node_ok c m2 \<and> nm_SnapshotDir m2 = nm_SnapshotDir m1 \<and> nm_store m2 = nm_store m1 \<and>
    (\<forall>q \<in> set exts. get (nm_files m1) (?p @ q) \<noteq> None \<longrightarrow> get (nm_files m2) (?p @ q) \<noteq> None) \<and>
    (r2 = None \<longrightarrow> get (nm_files m2) (?p @ ''.disk'') = get (nm_store m1) (snapKey t i ''.disk'') \<and> get (nm_store m1) (snapKey t i ''.disk'') \<noteq> None)"
    using download_keeps [OF conjunct1 [OF k1] 2 _ _ sep, of i "''.disk''"] by (simp add: b1)
  have b2: "basePath m2 = basePath m" using k1 k2 by (intro basePath_dir) simp
  obtain r3 m3 where 3: "downloadFile env (snapKey t i ''.json'') (?p @ ''.json'') m2 = (r3, m3)" by fastforce
  have st: "store_ok c (nm_store m2)" using conjunct1 [OF k2] unfolding node_ok_def by blast
  have k3: "node_ok c m3 \<and> nm_SnapshotDir m3 = nm_SnapshotDir m2 \<and>
    (\<forall>q \<in> set exts. get (nm_files m2) (?p @ q) \<noteq> None \<longrightarrow> get (nm_files m3) (?p @ q) \<noteq> None) \<and>
    (r3 = None \<longrightarrow> get (nm_files m3) (?p @ ''.json'') = get (nm_store m2) (snapKey t i ''.json''))"
    using download_keeps [OF conjunct1 [OF k2] 3 _ _ sep, of i "''.json''"] st sep by (simp add: b2 store_ok_def)
  have b3: "basePath m3 = basePath m" using k1 k2 k3 by (intro basePath_dir) simp
  show ?thesis
  proof (cases "ne_Mkdir env (finalDir m t) = None \<and> r1 = None \<and> r2 = None")
    case True
    then have "get (nm_store m2) (snapKey t i ''.json'') \<noteq> None" using st sep latest k1 k2 by (simp add: store_ok_def)
    then obtain bytes where bytes: "get (nm_store m2) (snapKey t i ''.json'') = Some bytes" by blast
    have "r3 = None" using 3 bytes env by (auto simp: settled_env_def downloadFile_def LocalStore_Get_def Let_def)
    with k3 bytes have js: "get (nm_files m3) (?p @ ''.json'') = Some bytes" "names c t i bytes" using st sep by (auto simp: store_ok_def)
    then have "fetch_remote env c t i m = adopt t i (decode_or (fallback env m3 t i) c bytes) m3"
      using True 1 2 3 \<open>r3 = None\<close> by (simp add: fetch_remote_def and_then_def context_of_def MkdirAll_def b1 b2 b3)
    moreover have "node_ok c (snd (adopt t i (decode_or (fallback env m3 t i) c bytes) m3))"
      using k1 k2 k3 True decode_named [OF js(2)] sep by (intro adopt_keeps) (auto simp: b3)
    ultimately show ?thesis by simp
  next
    case False
    then show ?thesis using 1 2 k1 k2 m
      by (cases "ne_Mkdir env (finalDir m t)"; cases r1; cases r2) (auto simp: fetch_remote_def and_then_def context_of_def MkdirAll_def b1)
  qed
qed

lemma GetSnapshot_keeps:
  assumes env: "settled_env env" and m: "node_ok c m" and sep: "CHR ''/'' \<notin> set t"
  shows "node_ok c (snd (GetSnapshot env c t m))"
proof -
  have "node_ok c (snd (load_local env c t i m))"
    if "get (nm_files m) (basePath m t i @ ''.mem'') \<noteq> None" "get (nm_files m) (basePath m t i @ ''.disk'') \<noteq> None" for i
    unfolding load_local_def
  proof (rule adopt_keeps [OF m sep that])
    let ?s = "case get (nm_files m) (basePath m t i @ ''.json'') of Some jsonBytes \<Rightarrow> decode_or (fallback env m t i) c jsonBytes | None \<Rightarrow> fallback env m t i"
    have "local_ok c m" using m by (simp add: node_ok_def)
    then have "sn_ID ?s = i \<and> sn_Template ?s = t"
      using decode_named [of c t i _ env m] sep by (auto simp: local_ok_def fallback_def split: option.split)
    then show "sn_ID ?s = i" "sn_Template ?s = t" by auto
  qed
  then show ?thesis using fetch_keeps [OF env m sep] m
    by (auto simp: GetSnapshot_def LocalStore_Get_def split: list.split option.splits)
qed

text \<open>What a node goes through, one operation after the other: its own, each with its surroundings, and
  what others do to the store. An identifier that is given to a new snapshot is not the one the store
  points to.\<close>

datatype nyx_event =
    Prepared nyx_env
  | Fetched nyx_env
  | Saved nyx_env
  | Deleted nyx_env
  | Invalidated nyx_env
  | StoreChanged files

inductive nyx_reachable :: "(Snapshot, string) codec \<Rightarrow> nyx_event list \<Rightarrow> LocalManager \<Rightarrow> bool" for c where
  start: "NewLocalManager env d store [] = Inr m \<Longrightarrow> nyx_reachable c [StoreChanged store] m"
| prepare: "nyx_reachable c h m \<Longrightarrow> CHR ''/'' \<notin> set (tpl_ID tpl) \<Longrightarrow>
    get (nm_store m) (latestKey (tpl_ID tpl)) \<noteq> Some (ne_uuid env) \<Longrightarrow>
    nyx_reachable c (h @ [Prepared env]) (snd (Prepare env c vmLauncher tpl m))"
| fetch: "nyx_reachable c h m \<Longrightarrow> CHR ''/'' \<notin> set t \<Longrightarrow> nyx_reachable c (h @ [Fetched env]) (snd (GetSnapshot env c t m))"
| save: "nyx_reachable c h m \<Longrightarrow> CHR ''/'' \<notin> set t \<Longrightarrow> get (nm_store m) (latestKey t) \<noteq> Some i \<Longrightarrow>
    nyx_reachable c (h @ [Saved env]) (snd (SaveSnapshot env c t i memPath diskPath m))"
| delete: "nyx_reachable c h m \<Longrightarrow> CHR ''/'' \<notin> set t \<Longrightarrow> nyx_reachable c (h @ [Deleted env]) (local_DeleteSnapshot env t i m)"
| invalidate: "nyx_reachable c h m \<Longrightarrow> CHR ''/'' \<notin> set t \<Longrightarrow> nyx_reachable c (h @ [Invalidated env]) (Invalidate env t m)"
| others: "nyx_reachable c h m \<Longrightarrow> nyx_reachable c (h @ [StoreChanged store]) (m\<lparr>nm_store := store\<rparr>)"

text \<open>What the statement needs of each of them: settled surroundings (no copy breaks off in the middle, no
  deletion in the store fails, a description is fetched where there is one), and a store in which
  descriptions name the snapshots they are of.\<close>

definition settled :: "(Snapshot, string) codec \<Rightarrow> nyx_event \<Rightarrow> bool" where
  "settled c e \<longleftrightarrow> (case e of
      Prepared env \<Rightarrow> settled_env env | Fetched env \<Rightarrow> settled_env env | Saved env \<Rightarrow> settled_env env
    | Deleted env \<Rightarrow> settled_env env | Invalidated env \<Rightarrow> settled_env env | StoreChanged store \<Rightarrow> store_ok c store)"

lemma reachable_ok: "nyx_reachable c h m \<Longrightarrow> faithful c \<Longrightarrow> list_all (settled c) h \<Longrightarrow> node_ok c m"
proof (induction rule: nyx_reachable.induct)
  case (start env d store m)
  then show ?case
    by (auto simp: settled_def NewLocalManager_def node_ok_def index_ok_def local_ok_def listed_def get_or_def split: option.splits)
next
  case (others h m store)
  then show ?case by (simp add: settled_def node_ok_def index_ok_def local_ok_def)
qed (auto simp: settled_def intro: Prepare_keeps GetSnapshot_keeps SaveSnapshot_keeps local_DeleteSnapshot_keeps Invalidate_keeps)

text \<open>
  C34: A snapshot a node offers can be used there. Through any sequence of preparing, fetching, saving,
  deleting and invalidating, one operation after the other, and of other nodes changing the store, as long
  as no copy breaks off in the middle, no deletion in the store fails, the description of a snapshot is
  fetched where the store has one, and others leave in the store descriptions of the snapshots they name
  (downloads of images, uploads, pointers, launches, directories and removals of files may fail): every
  snapshot in the index is one of its template, lies at the path of its name, and has its memory and its
  disk image there, so an overlay can be made from it unless making it fails.\<close>

theorem offered_snapshots_usable:
  assumes "faithful c" "nyx_reachable c h m" "list_all (settled c) h" "s \<in> set (local_ListSnapshots t m)"
    and "fs_create fenv = None" "fs_copy fenv = None" "fs_sync fenv = None"
  shows "sn_Template s = t \<and> sn_Path s = basePath m t (sn_ID s) \<and> get (nm_files m) (sn_Path s @ ''.mem'') \<noteq> None \<and>
    (\<exists>ov fs. Overlay_Create fenv d uuid s (nm_files m) = (Inr ov, fs))"
proof -
  have o: "offered m t s" using reachable_ok [OF assms(2,1,3)] assms(4) by (simp add: node_ok_def index_ok_def local_ListSnapshots_def listed_def)
  then obtain b where "get (nm_files m) (sn_Path s @ ''.disk'') = Some b" by (auto simp: offered_def)
  with o assms(5-7) show ?thesis by (auto simp: offered_def Overlay_Create_def copyFile_def Let_def)
qed

theorem offered_snapshots_usable_witness:
  "\<exists>ov fs. Overlay_Create \<lparr>fs_create = None, fs_copy = None, fs_sync = None, fs_remove = None\<rparr> ''/ov'' ''o1''
     (prepared_snapshot demo_nyx_env demo_template (empty_node ''/a'' [])) (nm_files (snd demo_prepared)) = (Inr ov, fs)"
proof -
  have "nyx_reachable snapshot_codec [StoreChanged []] (empty_node ''/a'' [])"
    by (rule nyx_reachable.start [of demo_nyx_env "''/a''"]) (simp add: NewLocalManager_def demo_nyx_env_def empty_node_def)
  then have r: "nyx_reachable snapshot_codec ([StoreChanged []] @ [Prepared demo_nyx_env]) (snd demo_prepared)"
    unfolding demo_prepared_def by (rule nyx_reachable.prepare) (simp_all add: demo_template_def empty_node_def)
  have h: "list_all (settled snapshot_codec) ([StoreChanged []] @ [Prepared demo_nyx_env])"
    by (simp add: settled_def settled_env_def demo_nyx_env_def store_ok_def)
  have l: "prepared_snapshot demo_nyx_env demo_template (empty_node ''/a'' []) \<in> set (local_ListSnapshots ''py'' (snd demo_prepared))"
    by (simp add: demo_prepared_def Prepare_def empty_node_def get_or_def demo_nyx_env_def prepare_rootfs_def demo_template_def demo_launcher_def
        persist_prepared_def upload_images_def and_also_def and_then_def context_of_def uploadFile_def LocalStore_Put_def store_Put_def
        cache_locally_def nyx_copyFile_def write_file_def MkdirAll_def snapshot_codec_def local_ListSnapshots_def remember_def Let_def)
  show ?thesis using offered_snapshots_usable [OF snapshot_codec_faithful r h l] by simp
qed

section \<open>What goes wrong\<close>

text \<open>A manual snapshot becomes the one the node serves, although the pointer to the default is left alone for that reason.\<close>

theorem manual_snapshot_becomes_default:
  assumes "SaveSnapshot env c t i memPath diskPath m = (Inr snap, m')"
  shows "GetSnapshot env' c t m' = (Inr snap, m')"
proof -
  obtain x where "m' = remember t snap x"
    using assms by (auto simp: SaveSnapshot_def nyx_steps Let_def)
  then have "get_or [] (nm_byTemplate m') t = get_or [] (nm_byTemplate x) t @ [snap]" by (simp add: remember_def get_or_def)
  then show ?thesis by (cases "get_or [] (nm_byTemplate x) t") (auto simp: GetSnapshot_def)
qed

text \<open>Deleting a snapshot leaves the pointer to it: a node without it in memory can then serve none.\<close>

theorem deleted_latest_dangles:
  assumes "settled_env env" "get (nm_store m) (latestKey t) = Some i" "ne_Remove env (basePath m t i @ ''.mem'') = None" "CHR ''/'' \<notin> set t"
    and "\<forall>s \<in> set (local_ListSnapshots t m). sn_ID s = i"
  shows "\<exists>err m'. GetSnapshot env' c t (local_DeleteSnapshot env t i m) = (Inl err, m')"
proof -
  let ?m = "local_DeleteSnapshot env t i m"
  have del: "store_Delete env k x = x\<lparr>nm_store := del (nm_store x) k\<rparr>" for k x
    using assms(1) by (simp add: store_Delete_def LocalStore_Delete_def settled_env_def)
  have rm: "nm_store (os_Remove env p x) = nm_store x" "get (nm_files x) q = None \<Longrightarrow> get (nm_files (os_Remove env p x)) q = None" for p q x
    by (simp_all add: os_Remove_def split: option.split)
  have l: "get_or [] (nm_byTemplate ?m) t = []"
    using assms(5) by (auto simp: local_DeleteSnapshot_def remove_files_index(2) local_ListSnapshots_def get_or_def split: option.split)
  have st: "get (nm_store ?m) (latestKey t) = Some i" "get (nm_store ?m) (snapKey t i ''.mem'') = None"
    using assms(2) by (auto simp: local_DeleteSnapshot_def remove_files_def del rm(1) Let_def split: option.split)
  have "get (nm_files (os_Remove env (basePath m t i @ ''.mem'') x)) (basePath m t i @ ''.mem'') = None" for x
    using assms(3) by (simp add: os_Remove_def)
  then have f: "get (nm_files ?m) (basePath m t i @ ''.mem'') = None" "basePath ?m = basePath m"
    by (auto simp: local_DeleteSnapshot_def remove_files_def del rm(2) remove_frame Let_def split: option.split)
  have none: "\<exists>err. downloadFile env' (snapKey t i ''.mem'') p ?m = (Some err, ?m)" for p
    using st(2) by (auto simp: downloadFile_def LocalStore_Get_def split: option.split)
  then obtain err where err: "downloadFile env' (snapKey t i ''.mem'') (basePath ?m t i @ ''.mem'') ?m = (Some err, ?m)" by blast
  show ?thesis using l st(1) f err
    by (cases "ne_Get env' (latestKey t)"; cases "ne_Mkdir env' (finalDir ?m t)")
       (simp_all add: GetSnapshot_def LocalStore_Get_def fetch_remote_def and_then_def context_of_def MkdirAll_def)
qed

text \<open>The scan looks at the path of the image, which the manager makes up itself: whatever the image is, it passes
  unless the name of the temporary directory has the word.\<close>

theorem scan_ignores_image:
  assumes "\<not> sublist ''vulnerable'' (ne_socketDir env @ ''/rootfs.img'')" "ne_OCIBuilder env = Some b" "ne_MkdirTemp env ''oci-extract-*'' = None"
    "ob_Assemble b (tpl_BaseImage tpl) = None" "ob_BuildRootFS b (ne_socketDir env @ ''/rootfs.img'') = None" "CHR ''/'' \<in> set (tpl_BaseImage tpl)"
  shows "prepare_rootfs env tpl = Inr (ne_socketDir env @ ''/rootfs.img'')"
  using assms by (simp add: prepare_rootfs_def ScanImage_def)

text \<open>The marker of readiness is part of the kernel's command line, which a kernel prints when it boots: a console that shows
  the command line counts as ready before the command has run.\<close>

theorem echoed_command_line_is_ready:
  assumes "tpl_WarmupCommand tpl \<noteq> []"
  shows "await_ready ((''Kernel command line: '' @ fc_KernelArgs (template_config tpl rootfs sock)) # lines, ending) = None"
proof -
  have "sublist ''TARTARUS_READY'' (''Kernel command line: '' @ warmup_args (tpl_WarmupCommand tpl))"
    unfolding sublist_def
    using assms by (intro exI [of _ "''Kernel command line: console=ttyS0 reboot=k panic=1 pci=off init=/bin/sh -c '' @ [CHR 0x27] @ join_words (tpl_WarmupCommand tpl) @ '' && echo ''"]
        exI [of _ "'' && sleep 3600'' @ [CHR 0x27]"]) (simp add: warmup_args_def)
  then show ?thesis by (simp add: await_ready_def template_config_def)
qed

text \<open>A copy to the directory that breaks off leaves a part of the image behind, with the pointer already set; the next
  request finds both files and serves them.\<close>

theorem truncated_snapshot_served:
  assumes "get_or [] (nm_byTemplate m) t = []" "ne_Get env (latestKey t) = None" "get (nm_store m) (latestKey t) = Some i"
    and "get (nm_files m) (basePath m t i @ ''.mem'') = Some mem" "ne_file env' (basePath m t i @ ''.disk'') = CopyFault n err" "get fs src = Some bytes"
  shows "\<exists>m' snap. nyx_copyFile env' fs src (basePath m t i @ ''.disk'') m = (Some err, m') \<and>
    GetSnapshot env c t m' = (Inr snap, remember t snap m') \<and>
    get (nm_files (remember t snap m')) (sn_Path snap @ ''.disk'') = Some (take n (get_or [] (put fs (basePath m t i @ ''.disk'') []) src))"
proof -
  let ?d = "take n (get_or [] (put fs (basePath m t i @ ''.disk'') []) src)"
  let ?m = "m\<lparr>nm_files := put (nm_files m) (basePath m t i @ ''.disk'') ?d\<rparr>"
  have "nyx_copyFile env' fs src (basePath m t i @ ''.disk'') m = (Some err, ?m)" using assms(5,6) by (simp add: nyx_copyFile_def write_file_def)
  moreover have "GetSnapshot env c t ?m = load_local env c t i ?m" using assms(1-4) by (simp add: GetSnapshot_def LocalStore_Get_def)
  moreover obtain snap where "load_local env c t i ?m = (Inr snap, remember t snap ?m)" "sn_Path snap = basePath m t i"
    by (simp add: load_local_def adopt_def Let_def)
  moreover have "nm_files (remember t snap ?m) = nm_files ?m" for snap by (simp add: remember_def)
  ultimately show ?thesis by (intro exI [of _ ?m] exI [of _ snap]) simp
qed

text \<open>When the description cannot be fetched, the snapshot has no name, and deleting it by its name does not remove it from the index.\<close>

theorem unnamed_snapshot_stays:
  assumes "get_or [] (nm_byTemplate m) t = []" "i \<noteq> []"
  shows "local_ListSnapshots t (local_DeleteSnapshot env t i (snd (adopt t i blank_Snapshot m))) = [blank_Snapshot\<lparr>sn_Path := basePath m t i\<rparr>]"
  using assms by (simp add: local_ListSnapshots_def local_DeleteSnapshot_def remove_files_index(2) adopt_def remember_def get_or_def blank_Snapshot_def Let_def)

text \<open>Fetching looks for the files and enters the snapshot into the index without holding the lock in
  between. A deletion in that gap removes the files of the snapshot that is then entered.\<close>

theorem deletion_during_fetch:
  assumes "ne_Remove env (basePath m t i @ ''.mem'') = None"
  defines "m' \<equiv> local_DeleteSnapshot env t i m"
  shows "\<exists>snap. fst (load_local env' c t i m') = Inr snap \<and> snap \<in> set (local_ListSnapshots t (snd (load_local env' c t i m'))) \<and>
    get (nm_files (snd (load_local env' c t i m'))) (sn_Path snap @ ''.mem'') = None"
proof -
  have gone: "get (nm_files (os_Remove env (basePath m t i @ ''.mem'') x)) (basePath m t i @ ''.mem'') = None" for x
    using assms(1) by (simp add: os_Remove_def)
  have keep: "get (nm_files x) q = None \<Longrightarrow> get (nm_files (os_Remove env p x)) q = None" for p q x
    by (simp add: os_Remove_def split: option.split)
  have "get (nm_files m') (basePath m t i @ ''.mem'') = None" "basePath m' = basePath m"
    by (auto simp: m'_def local_DeleteSnapshot_def remove_files_def remove_frame gone keep Let_def split: option.split)
  then show ?thesis by (auto simp: load_local_def adopt_def remember_def local_ListSnapshots_def get_or_def Let_def)
qed

end
