(* ===== verification/Plugins.thy ===== *)
theory Plugins
  imports Complex_Main Judges Erinyes Wire
begin

text \<open>
  Plugins (\<open>pkg/plugins\<close>) and the two that come with the repository (\<open>ecosystem/plugins\<close>).

  A plugin is a record of its methods on a state shared by all of them; whether its type has the methods of a
  judge or of a fury, which the code finds out by a type assertion, is an option. The file system, the YAML
  parser and the dynamic loader are arguments. What \<open>plugin.Lookup\<close> returns for a variable is a pointer
  to it, so a symbol depends on the static type of the variable (\<open>symbol_of\<close>). Prices are exact rational
  numbers.
\<close>

section \<open>Manifests\<close>

datatype cfg_value = CfgInt int | CfgText string | CfgFloat rat | CfgOther

type_synonym plugin_config = "(string, cfg_value) gomap"

record Manifest =
  mf_APIVersion :: string
  mf_Kind :: string
  mf_Name :: string
  mf_Version :: string
  mf_Author :: string
  mf_Description :: string
  mf_Type :: string
  mf_EntryPoint :: string
  mf_Config :: plugin_config
  mf_Dependencies :: "string list"

definition quoted :: "string \<Rightarrow> string" where "quoted s = CHR 0x27 # s @ [CHR 0x27]"

definition manifest_Validate :: "Manifest \<Rightarrow> string option" where
  "manifest_Validate m =
     (if mf_APIVersion m = [] then Some ''manifest missing apiVersion''
      else if mf_Kind m \<noteq> ''TartarusPlugin'' then Some (''manifest kind must be '' @ quoted ''TartarusPlugin'' @ '', got '' @ quoted (mf_Kind m))
      else if mf_Name m = [] then Some ''manifest missing metadata.name''
      else if mf_Version m = [] then Some ''manifest missing metadata.version''
      else if mf_Type m \<noteq> ''judge'' \<and> mf_Type m \<noteq> ''fury'' then Some (''manifest spec.type must be '' @ quoted ''judge'' @ '' or '' @ quoted ''fury'' @ '', got '' @ quoted (mf_Type m))
      else if mf_EntryPoint m = [] then Some ''manifest missing spec.entryPoint''
      else None)"

definition LoadManifest :: "(string \<Rightarrow> string + string) \<Rightarrow> (string \<Rightarrow> string + Manifest) \<Rightarrow> string \<Rightarrow> string + Manifest" where
  "LoadManifest readFile yaml path =
     (case readFile path of
        Inl err \<Rightarrow> Inl (''failed to read manifest: '' @ err)
      | Inr data \<Rightarrow>
          (case yaml data of
             Inl err \<Rightarrow> Inl (''failed to parse manifest: '' @ err)
           | Inr m \<Rightarrow> (case manifest_Validate m of Some err \<Rightarrow> Inl err | None \<Rightarrow> Inr m)))"

section \<open>Plugins\<close>

record plugin_policy =
  pp_MaxRuntimeSeconds :: int
  pp_MaxCPUMillis :: int
  pp_MaxMemoryMB :: int
  pp_MaxNetworkEgressBytes :: int
  pp_MaxNetworkIngressBytes :: int
  pp_MaxBannedIPAttempts :: int
  pp_KillOnBreach :: bool

record 's judge_methods =
  jm_PreAdmit :: "SandboxRequest \<Rightarrow> 's \<Rightarrow> (string + Verdict) \<times> SandboxRequest \<times> 's"
  jm_PostHoc :: "SandboxRun \<Rightarrow> string + Classification option"

record 's fury_methods =
  fm_Arm :: "SandboxRun \<Rightarrow> plugin_policy \<Rightarrow> 's \<Rightarrow> string option \<times> 's"
  fm_Disarm :: "SandboxID \<Rightarrow> 's \<Rightarrow> string option \<times> 's"

record 's plugin =
  pg_Name :: string
  pg_Version :: string
  pg_Type :: string
  pg_Init :: "plugin_config \<Rightarrow> 's \<Rightarrow> string option \<times> 's"
  pg_Close :: "'s \<Rightarrow> string option \<times> 's"
  pg_judge :: "'s judge_methods option"
  pg_fury :: "'s fury_methods option"

text \<open>The exported variable, by its static type: a struct whose pointer has the methods of a plugin, or one of the
  three interfaces.\<close>

datatype 's exported = VarStruct "'s plugin" | VarPlugin "'s plugin" | VarJudgePlugin "'s plugin" | VarFuryPlugin "'s plugin"

datatype 's plugin_symbol = SymPlugin "'s plugin" | SymPluginPtr "'s plugin" | SymOther

fun symbol_of :: "'s exported \<Rightarrow> 's plugin_symbol" where
  "symbol_of (VarStruct p) = SymPlugin p"
| "symbol_of (VarPlugin p) = SymPluginPtr p"
| "symbol_of (VarJudgePlugin p) = SymOther"
| "symbol_of (VarFuryPlugin p) = SymOther"

section \<open>The loader\<close>

record 's LoadedPlugin =
  lp_Manifest :: Manifest
  lp_Plugin :: "'s plugin"
  lp_Path :: string

record 's Loader =
  lo_pluginsDir :: string
  lo_loaded :: "(string, 's LoadedPlugin) gomap"

record 's plugin_env =
  pe_ReadFile :: "string \<Rightarrow> string + string"
  pe_yaml :: "string \<Rightarrow> string + Manifest"
  pe_Open :: "string \<Rightarrow> string + (string \<Rightarrow> string + 's exported)"
  pe_MkdirAll :: "string \<Rightarrow> string option"
  pe_ReadDir :: "string \<Rightarrow> string + (string \<times> bool) list"
  pe_home :: string

definition NewLoader :: "'s plugin_env \<Rightarrow> string \<Rightarrow> 's Loader" where
  "NewLoader env pluginsDir =
     \<lparr>lo_pluginsDir = (if pluginsDir = [] then pe_home env @ ''/.tartarus/plugins'' else pluginsDir), lo_loaded = []\<rparr>"

definition PluginSymbol :: string where "PluginSymbol = ''TartarusPlugin''"

definition plugin_of_symbol :: "'s plugin_symbol \<Rightarrow> string + 's plugin" where
  "plugin_of_symbol sb =
     (case sb of SymPlugin p \<Rightarrow> Inr p | SymPluginPtr p \<Rightarrow> Inr p
      | SymOther \<Rightarrow> Inl (''symbol '' @ PluginSymbol @ '' does not implement Plugin interface''))"

text \<open>Opening the shared object and finding the plugin in it.\<close>

definition open_plugin :: "'s plugin_env \<Rightarrow> string \<Rightarrow> string + 's plugin" where
  "open_plugin env soPath =
     (case pe_Open env soPath of
        Inl err \<Rightarrow> Inl (''failed to open plugin: '' @ err)
      | Inr Lookup \<Rightarrow>
          (case Lookup PluginSymbol of
             Inl err \<Rightarrow> Inl (''plugin missing '' @ PluginSymbol @ '' symbol: '' @ err)
           | Inr var \<Rightarrow> plugin_of_symbol (symbol_of var)))"

definition LoadPlugin :: "'s plugin_env \<Rightarrow> string \<Rightarrow> 's Loader \<Rightarrow> 's \<Rightarrow> string option \<times> 's Loader \<times> 's" where
  "LoadPlugin env pluginDir l s =
     (case LoadManifest (pe_ReadFile env) (pe_yaml env) (pluginDir @ ''/manifest.yaml'') of
        Inl err \<Rightarrow> (Some (''failed to load manifest: '' @ err), l, s)
      | Inr manifest \<Rightarrow>
          if get (lo_loaded l) (mf_Name manifest) \<noteq> None then (Some (''plugin '' @ quoted (mf_Name manifest) @ '' already loaded''), l, s)
          else case open_plugin env (pluginDir @ ''/'' @ mf_EntryPoint manifest) of
            Inl err \<Rightarrow> (Some err, l, s)
          | Inr plug \<Rightarrow>
              if pg_Type plug \<noteq> mf_Type manifest
              then (Some (''plugin type mismatch: manifest says '' @ quoted (mf_Type manifest) @ '', plugin says '' @ quoted (pg_Type plug)), l, s)
              else case pg_Init plug (mf_Config manifest) s of
                (Some err, s') \<Rightarrow> (Some (''plugin init failed: '' @ err), l, s')
              | (None, s') \<Rightarrow>
                  (None, l\<lparr>lo_loaded := put (lo_loaded l) (mf_Name manifest) \<lparr>lp_Manifest = manifest, lp_Plugin = plug, lp_Path = pluginDir\<rparr>\<rparr>, s'))"

text \<open>The loop over the directory: what cannot be loaded is logged and passed over.\<close>

fun load_directories :: "'s plugin_env \<Rightarrow> (string \<times> bool) list \<Rightarrow> 's Loader \<Rightarrow> 's \<Rightarrow> 's Loader \<times> 's" where
  "load_directories env [] l s = (l, s)"
| "load_directories env ((name, isDir) # es) l s =
     (if \<not> isDir then load_directories env es l s
      else case LoadPlugin env (lo_pluginsDir l @ ''/'' @ name) l s of (_, l', s') \<Rightarrow> load_directories env es l' s')"

definition DiscoverAndLoad :: "'s plugin_env \<Rightarrow> 's Loader \<Rightarrow> 's \<Rightarrow> string option \<times> 's Loader \<times> 's" where
  "DiscoverAndLoad env l s =
     (case pe_MkdirAll env (lo_pluginsDir l) of
        Some err \<Rightarrow> (Some (''failed to create plugins directory: '' @ err), l, s)
      | None \<Rightarrow>
          (case pe_ReadDir env (lo_pluginsDir l) of
             Inl err \<Rightarrow> (Some (''failed to read plugins directory: '' @ err), l, s)
           | Inr entries \<Rightarrow> (case load_directories env entries l s of (l', s') \<Rightarrow> (None, l', s'))))"

definition UnloadPlugin :: "string \<Rightarrow> 's Loader \<Rightarrow> 's \<Rightarrow> string option \<times> 's Loader \<times> 's" where
  "UnloadPlugin name l s =
     (case get (lo_loaded l) name of
        None \<Rightarrow> (Some (''plugin '' @ quoted name @ '' not found''), l, s)
      | Some lp \<Rightarrow> (None, l\<lparr>lo_loaded := del (lo_loaded l) name\<rparr>, snd (pg_Close (lp_Plugin lp) s)))"

definition GetPlugin :: "string \<Rightarrow> 's Loader \<Rightarrow> 's LoadedPlugin option" where
  "GetPlugin name l = get (lo_loaded l) name"

definition loader_ListPlugins :: "'s Loader \<Rightarrow> 's LoadedPlugin list" where
  "loader_ListPlugins l = map snd (lo_loaded l)"

text \<open>Iterating over the map of plugins meets them in an order of its own each time, an argument here.\<close>

type_synonym 's map_walk = "'s LoadedPlugin list \<Rightarrow> 's LoadedPlugin list"

definition GetJudgePlugins :: "'s map_walk \<Rightarrow> 's Loader \<Rightarrow> 's judge_methods list" where
  "GetJudgePlugins it l = List.map_filter (\<lambda>lp. pg_judge (lp_Plugin lp)) (it (loader_ListPlugins l))"

definition GetFuryPlugins :: "'s map_walk \<Rightarrow> 's Loader \<Rightarrow> 's fury_methods list" where
  "GetFuryPlugins it l = List.map_filter (\<lambda>lp. pg_fury (lp_Plugin lp)) (it (loader_ListPlugins l))"

definition loader_Close :: "'s Loader \<Rightarrow> 's \<Rightarrow> 's Loader \<times> 's" where
  "loader_Close l s = (l\<lparr>lo_loaded := []\<rparr>, fold (\<lambda>lp s. snd (pg_Close (lp_Plugin lp) s)) (loader_ListPlugins l) s)"

section \<open>Adapters\<close>

definition convertVerdict :: "Verdict \<Rightarrow> Verdict" where
  "convertVerdict v =
     (case v of VerdictAccept \<Rightarrow> VerdictAccept | VerdictReject \<Rightarrow> VerdictReject | VerdictQuarantine \<Rightarrow> VerdictQuarantine | VerdictOther _ \<Rightarrow> VerdictReject)"

definition adapter_PreAdmit :: "'s judge_methods \<Rightarrow> 's PreJudge" where
  "adapter_PreAdmit p req s =
     (case jm_PreAdmit p req s of
        (Inl err, req', s') \<Rightarrow> (Inl (JudgeFailed err), req', s')
      | (Inr v, req', s') \<Rightarrow> (Inr (convertVerdict v), req', s'))"

definition adapter_PostHoc :: "'s judge_methods \<Rightarrow> PostJudge" where
  "adapter_PostHoc p run =
     (case jm_PostHoc p run of
        Inl err \<Rightarrow> Inl (JudgeFailed err)
      | Inr None \<Rightarrow> Inr None
      | Inr (Some cl) \<Rightarrow> Inr (Some (cl\<lparr>cl_Verdict := convertVerdict (cl_Verdict cl)\<rparr>)))"

definition WrapJudgePlugins :: "'s judge_methods list \<Rightarrow> 's PreJudge list \<times> PostJudge list" where
  "WrapJudgePlugins ps = (map adapter_PreAdmit ps, map adapter_PostHoc ps)"

record 's fury_ops =
  fu_Arm :: "SandboxRun \<Rightarrow> PolicySnapshot \<Rightarrow> 's \<Rightarrow> string option \<times> 's"
  fu_Disarm :: "SandboxID \<Rightarrow> 's \<Rightarrow> string option \<times> 's"

definition convert_policy :: "PolicySnapshot \<Rightarrow> plugin_policy" where
  "convert_policy p =
     \<lparr>pp_MaxRuntimeSeconds = go_div (ps_MaxRuntime p) second, pp_MaxCPUMillis = ps_MaxCPU p, pp_MaxMemoryMB = ps_MaxMemory p,
      pp_MaxNetworkEgressBytes = ps_MaxNetworkEgressBytes p, pp_MaxNetworkIngressBytes = ps_MaxNetworkIngressBytes p,
      pp_MaxBannedIPAttempts = ps_MaxBannedIPAttempts p, pp_KillOnBreach = ps_KillOnBreach p\<rparr>"

definition fury_adapter :: "'s fury_methods \<Rightarrow> 's fury_ops" where
  "fury_adapter p = \<lparr>fu_Arm = (\<lambda>run policy. fm_Arm p run (convert_policy policy)), fu_Disarm = fm_Disarm p\<rparr>"

definition WrapFuryPlugins :: "'s fury_methods list \<Rightarrow> 's fury_ops list" where
  "WrapFuryPlugins ps = map fury_adapter ps"

definition AddFury :: "'s fury_ops \<Rightarrow> 's fury_ops list \<Rightarrow> 's fury_ops list" where
  "AddFury fury furies = furies @ [fury]"

fun composite_Arm :: "'s fury_ops list \<Rightarrow> SandboxRun \<Rightarrow> PolicySnapshot \<Rightarrow> 's \<Rightarrow> string option \<times> 's" where
  "composite_Arm [] run policy s = (None, s)"
| "composite_Arm (f # fs) run policy s =
     (case fu_Arm f run policy s of (Some err, s') \<Rightarrow> (Some err, s') | (None, s') \<Rightarrow> composite_Arm fs run policy s')"

fun disarm_loop :: "'s fury_ops list \<Rightarrow> SandboxID \<Rightarrow> string option \<Rightarrow> 's \<Rightarrow> string option \<times> 's" where
  "disarm_loop [] i lastErr s = (lastErr, s)"
| "disarm_loop (f # fs) i lastErr s =
     (case fu_Disarm f i s of (Some err, s') \<Rightarrow> disarm_loop fs i (Some err) s' | (None, s') \<Rightarrow> disarm_loop fs i lastErr s')"

definition composite_Disarm :: "'s fury_ops list \<Rightarrow> SandboxID \<Rightarrow> 's \<Rightarrow> string option \<times> 's" where
  "composite_Disarm fs i s = disarm_loop fs i None s"

section \<open>The registry\<close>

record 's Registry =
  rg_loader :: "'s Loader"
  rg_judgeChain :: "'s PreJudge list \<times> PostJudge list"
  rg_compositeFury :: "'s fury_ops list"

definition NewRegistry :: "'s plugin_env \<Rightarrow> string \<Rightarrow> 's Registry" where
  "NewRegistry env pluginsDir = \<lparr>rg_loader = NewLoader env pluginsDir, rg_judgeChain = ([], []), rg_compositeFury = []\<rparr>"

definition rebuildIntegrations :: "'s map_walk \<times> 's map_walk \<Rightarrow> 's Registry \<Rightarrow> 's Registry" where
  "rebuildIntegrations its r = r\<lparr>rg_judgeChain := WrapJudgePlugins (GetJudgePlugins (fst its) (rg_loader r)),
     rg_compositeFury := WrapFuryPlugins (GetFuryPlugins (snd its) (rg_loader r))\<rparr>"

definition with_loader ::
    "'s map_walk \<times> 's map_walk \<Rightarrow> string option \<times> 's Loader \<times> 's \<Rightarrow> 's Registry \<Rightarrow> string option \<times> 's Registry \<times> 's" where
  "with_loader its res r =
     (case res of (Some err, l, s) \<Rightarrow> (Some err, r\<lparr>rg_loader := l\<rparr>, s)
      | (None, l, s) \<Rightarrow> (None, rebuildIntegrations its (r\<lparr>rg_loader := l\<rparr>), s))"

definition Initialize ::
    "'s plugin_env \<Rightarrow> 's map_walk \<times> 's map_walk \<Rightarrow> 's Registry \<Rightarrow> 's \<Rightarrow> string option \<times> 's Registry \<times> 's" where
  "Initialize env its r s = with_loader its (DiscoverAndLoad env (rg_loader r) s) r"

definition registry_LoadPlugin ::
    "'s plugin_env \<Rightarrow> 's map_walk \<times> 's map_walk \<Rightarrow> string \<Rightarrow> 's Registry \<Rightarrow> 's \<Rightarrow> string option \<times> 's Registry \<times> 's" where
  "registry_LoadPlugin env its pluginDir r s = with_loader its (LoadPlugin env pluginDir (rg_loader r) s) r"

definition registry_UnloadPlugin ::
    "'s map_walk \<times> 's map_walk \<Rightarrow> string \<Rightarrow> 's Registry \<Rightarrow> 's \<Rightarrow> string option \<times> 's Registry \<times> 's" where
  "registry_UnloadPlugin its name r s = with_loader its (UnloadPlugin name (rg_loader r) s) r"

record PluginInfo =
  pi_Name :: string
  pi_Version :: string
  pi_Type :: string
  pi_Author :: string
  pi_Description :: string
  pi_Path :: string

definition registry_ListPlugins :: "'s Registry \<Rightarrow> PluginInfo list" where
  "registry_ListPlugins r =
     map (\<lambda>lp. let m = lp_Manifest lp in
            \<lparr>pi_Name = mf_Name m, pi_Version = mf_Version m, pi_Type = mf_Type m, pi_Author = mf_Author m,
             pi_Description = mf_Description m, pi_Path = lp_Path lp\<rparr>) (loader_ListPlugins (rg_loader r))"

definition registry_Close :: "'s Registry \<Rightarrow> 's \<Rightarrow> 's Registry \<times> 's" where
  "registry_Close r s = (case loader_Close (rg_loader r) s of (l, s') \<Rightarrow> (r\<lparr>rg_loader := l\<rparr>, s'))"

section \<open>The rate limiter\<close>

record RateLimitJudge =
  rl_maxRequests :: int
  rl_burstSize :: int
  rl_lookbackWindow :: duration
  rl_requests :: "(string, go_time list) gomap"

definition cfg_int :: "int \<Rightarrow> plugin_config \<Rightarrow> string \<Rightarrow> int" where
  "cfg_int d config k = (case get config k of Some (CfgInt v) \<Rightarrow> v | _ \<Rightarrow> d)"

definition cfg_duration :: "duration \<Rightarrow> plugin_config \<Rightarrow> string \<Rightarrow> duration \<Rightarrow> duration" where
  "cfg_duration d config k current =
     (let v = (case get config k of Some (CfgText t) \<Rightarrow> (case ParseDuration t of Some x \<Rightarrow> x | None \<Rightarrow> current) | _ \<Rightarrow> current)
      in if v = 0 then d else v)"

definition RateLimitJudge_Init :: "plugin_config \<Rightarrow> RateLimitJudge \<Rightarrow> RateLimitJudge" where
  "RateLimitJudge_Init config r =
     \<lparr>rl_maxRequests = cfg_int 60 config ''maxRequestsPerMinute'', rl_burstSize = cfg_int 10 config ''burstSize'',
      rl_lookbackWindow = cfg_duration minute config ''lookbackWindow'' (rl_lookbackWindow r), rl_requests = []\<rparr>"

text \<open>The tenant is read from a field the request of this version does not have; it is an argument.\<close>

definition tenant_key :: "(SandboxRequest \<Rightarrow> string) \<Rightarrow> SandboxRequest \<Rightarrow> string" where
  "tenant_key tenantID req = (if tenantID req = [] then ''default'' else tenantID req)"

datatype rate_verdict = RateAccept | RateExceeded nat | BurstExceeded nat

definition RateLimitJudge_PreAdmit :: "(SandboxRequest \<Rightarrow> string) \<Rightarrow> go_time \<Rightarrow> SandboxRequest \<Rightarrow> RateLimitJudge \<Rightarrow> rate_verdict \<times> RateLimitJudge" where
  "RateLimitJudge_PreAdmit tenantID now req r =
     (let tenant = tenant_key tenantID req;
          filtered = filter (\<lambda>t. t > now - rl_lookbackWindow r) (get_or [] (rl_requests r) tenant);
          burstCount = length (filter (\<lambda>t. t > now - second) filtered)
      in if int (length filtered) \<ge> rl_maxRequests r then (RateExceeded (length filtered), r)
         else if int burstCount \<ge> rl_burstSize r then (BurstExceeded burstCount, r)
         else (RateAccept, r\<lparr>rl_requests := put (rl_requests r) tenant (filtered @ [now])\<rparr>))"

text \<open>The limiter as a plugin over a clock, on a state that holds it.\<close>

definition rate_error :: "rate_verdict \<Rightarrow> RateLimitJudge \<Rightarrow> (duration \<Rightarrow> string) \<Rightarrow> string" where
  "rate_error v r show_duration =
     (case v of
        RateExceeded n \<Rightarrow> ''rate limit exceeded: '' @ itoa n @ '' requests in last '' @ show_duration (rl_lookbackWindow r)
      | BurstExceeded n \<Rightarrow> ''burst limit exceeded: '' @ itoa n @ '' requests in last second''
      | RateAccept \<Rightarrow> [])"

definition rate_limit_plugin :: "(duration \<Rightarrow> string) \<Rightarrow> (SandboxRequest \<Rightarrow> string) \<Rightarrow> go_time \<Rightarrow> RateLimitJudge plugin" where
  "rate_limit_plugin show_duration tenantID now =
     \<lparr>pg_Name = ''rate-limit-judge'', pg_Version = ''1.0.0'', pg_Type = ''judge'',
      pg_Init = (\<lambda>config r. (None, RateLimitJudge_Init config r)), pg_Close = (\<lambda>r. (None, r)),
      pg_judge = Some \<lparr>jm_PreAdmit = (\<lambda>req r. case RateLimitJudge_PreAdmit tenantID now req r of
                           (RateAccept, r') \<Rightarrow> (Inr VerdictAccept, req, r') | (v, r') \<Rightarrow> (Inl (rate_error v r show_duration), req, r')),
                        jm_PostHoc = (\<lambda>run. Inr None)\<rparr>,
      pg_fury = None\<rparr>"

section \<open>The cost watcher\<close>

record CostAwareFury =
  cf_maxCostPerHour :: rat
  cf_cpuCostPerCore :: rat
  cf_memoryCostPerGB :: rat
  cf_checkInterval :: duration
  cf_watchers :: "(SandboxID, nat) gomap"
  cf_costs :: "(SandboxID, rat) gomap"
  cf_cancelled :: "nat list"
  cf_running :: "(nat, SandboxID \<times> plugin_policy \<times> go_time) gomap"
  cf_next :: nat

definition cfg_float :: "rat \<Rightarrow> plugin_config \<Rightarrow> string \<Rightarrow> rat" where
  "cfg_float d config k = (case get config k of Some (CfgFloat v) \<Rightarrow> v | _ \<Rightarrow> d)"

definition CostAwareFury_Init :: "plugin_config \<Rightarrow> CostAwareFury \<Rightarrow> CostAwareFury" where
  "CostAwareFury_Init config c =
     c\<lparr>cf_maxCostPerHour := cfg_float 10 config ''maxCostPerHour'', cf_cpuCostPerCore := cfg_float (1/20) config ''cpuCostPerCore'',
       cf_memoryCostPerGB := cfg_float (1/100) config ''memoryCostPerGB'',
       cf_checkInterval := cfg_duration (30 * second) config ''checkInterval'' (cf_checkInterval c), cf_watchers := [], cf_costs := []\<rparr>"

definition CostAwareFury_Close :: "CostAwareFury \<Rightarrow> CostAwareFury" where
  "CostAwareFury_Close c = c\<lparr>cf_cancelled := map snd (cf_watchers c) @ cf_cancelled c, cf_watchers := []\<rparr>"

text \<open>Arming starts a watcher, numbered in the order of their start; \<open>now\<close> is when it starts to count.\<close>

definition CostAwareFury_Arm :: "go_time \<Rightarrow> SandboxRun \<Rightarrow> plugin_policy \<Rightarrow> CostAwareFury \<Rightarrow> CostAwareFury" where
  "CostAwareFury_Arm now run policy c =
     c\<lparr>cf_watchers := put (cf_watchers c) (run_ID run) (cf_next c), cf_costs := put (cf_costs c) (run_ID run) 0,
       cf_running := put (cf_running c) (cf_next c) (run_ID run, policy, now), cf_next := Suc (cf_next c)\<rparr>"

definition CostAwareFury_Disarm :: "SandboxID \<Rightarrow> CostAwareFury \<Rightarrow> CostAwareFury" where
  "CostAwareFury_Disarm i c =
     (case get (cf_watchers c) i of
        None \<Rightarrow> c
      | Some w \<Rightarrow> c\<lparr>cf_cancelled := w # cf_cancelled c, cf_watchers := del (cf_watchers c) i, cf_costs := del (cf_costs c) i\<rparr>)"

definition run_cost :: "CostAwareFury \<Rightarrow> plugin_policy \<Rightarrow> duration \<Rightarrow> rat" where
  "run_cost c policy elapsed =
     (let hours = of_int elapsed / of_int hour; cpuCores = of_int (pp_MaxCPUMillis policy) / 1000; memoryGB = of_int (pp_MaxMemoryMB policy) / 1024
      in cpuCores * cf_cpuCostPerCore c * hours + memoryGB * cf_memoryCostPerGB c * hours)"

text \<open>One turn of a watcher: cancelled ones end; one that finds the limit exceeded ends too.\<close>

definition monitor_tick :: "go_time \<Rightarrow> nat \<Rightarrow> CostAwareFury \<Rightarrow> CostAwareFury" where
  "monitor_tick now w c =
     (case get (cf_running c) w of
        None \<Rightarrow> c
      | Some (i, policy, startTime) \<Rightarrow>
          if w \<in> set (cf_cancelled c) then c\<lparr>cf_running := del (cf_running c) w\<rparr>
          else let cost = run_cost c policy (now - startTime); c = c\<lparr>cf_costs := put (cf_costs c) i cost\<rparr>
               in if cost \<ge> cf_maxCostPerHour c then c\<lparr>cf_running := del (cf_running c) w\<rparr> else c)"

section \<open>The limits hold\<close>

text \<open>Times of which each has fewer than \<open>k\<close> others in the \<open>d\<close> before it: then no span of \<open>d\<close> has more than \<open>k\<close>.\<close>

inductive spaced :: "duration \<Rightarrow> nat \<Rightarrow> go_time list \<Rightarrow> bool" for d k where
  spaced_Nil: "spaced d k []"
| spaced_snoc: "spaced d k ts \<Longrightarrow> \<forall>t \<in> set ts. t \<le> now \<Longrightarrow> length (filter (\<lambda>t. t > now - d) ts) < k \<Longrightarrow> spaced d k (ts @ [now])"

lemma spaced_span: "spaced d k ts \<Longrightarrow> length (filter (\<lambda>s. u - d < s \<and> s \<le> u) ts) \<le> k"
proof (induction rule: spaced.induct)
  case (spaced_snoc ts now)
  show ?case
  proof (cases "u - d < now \<and> now \<le> u")
    case True
    then have "length (filter (\<lambda>s. u - d < s \<and> s \<le> u) ts) \<le> length (filter (\<lambda>s. s > now - d) ts)"
    proof -
      have "filter (\<lambda>s. u - d < s \<and> s \<le> u) ts = filter (\<lambda>s. u - d < s \<and> s \<le> u) (filter (\<lambda>s. s > now - d) ts)"
        using True by (auto simp: filter_filter intro: filter_cong)
      then show ?thesis by (metis length_filter_le)
    qed
    with spaced_snoc.hyps(3) True show ?thesis by simp
  qed (use spaced_snoc.IH in auto)
qed simp

fun rate_run :: "(SandboxRequest \<Rightarrow> string) \<Rightarrow> (go_time \<times> SandboxRequest) list \<Rightarrow> RateLimitJudge \<Rightarrow> rate_verdict list \<times> RateLimitJudge" where
  "rate_run tenantID [] r = ([], r)"
| "rate_run tenantID ((now, req) # rs) r =
     (case RateLimitJudge_PreAdmit tenantID now req r of (v, r') \<Rightarrow> case rate_run tenantID rs r' of (vs, r'') \<Rightarrow> (v # vs, r''))"

fun accepted_times :: "(SandboxRequest \<Rightarrow> string) \<Rightarrow> string \<Rightarrow> (go_time \<times> SandboxRequest) list \<Rightarrow> rate_verdict list \<Rightarrow> go_time list" where
  "accepted_times tenantID x ((now, req) # rs) (v # vs) =
     (if v = RateAccept \<and> tenant_key tenantID req = x then [now] else []) @ accepted_times tenantID x rs vs"
| "accepted_times tenantID x _ _ = []"

text \<open>What the limiter remembers of a tenant is what it needs of the times it has accepted.\<close>

definition remembers :: "RateLimitJudge \<Rightarrow> go_time \<Rightarrow> string \<Rightarrow> go_time list \<Rightarrow> bool" where
  "remembers r clock x ts \<longleftrightarrow> (\<forall>t \<in> set ts. t \<le> clock) \<and>
     (\<forall>now \<ge> clock. filter (\<lambda>t. t > now - rl_lookbackWindow r) (get_or [] (rl_requests r) x) = filter (\<lambda>t. t > now - rl_lookbackWindow r) ts)"

lemma PreAdmit_remembers:
  assumes "remembers r clock x ts" "clock \<le> now" "RateLimitJudge_PreAdmit tenantID now req r = (v, r')" "0 < rl_lookbackWindow r"
    and sp: "spaced (rl_lookbackWindow r) (nat (rl_maxRequests r)) ts" "spaced (min second (rl_lookbackWindow r)) (nat (rl_burstSize r)) ts"
  defines "ts' \<equiv> ts @ (if v = RateAccept \<and> tenant_key tenantID req = x then [now] else [])"
  shows "remembers r' now x ts' \<and> rl_maxRequests r' = rl_maxRequests r \<and> rl_burstSize r' = rl_burstSize r \<and> rl_lookbackWindow r' = rl_lookbackWindow r \<and>
    spaced (rl_lookbackWindow r) (nat (rl_maxRequests r)) ts' \<and> spaced (min second (rl_lookbackWindow r)) (nat (rl_burstSize r)) ts'"
proof -
  let ?w = "rl_lookbackWindow r" and ?k = "tenant_key tenantID req"
  let ?f = "filter (\<lambda>t. t > now - ?w) (get_or [] (rl_requests r) ?k)"
  have le: "\<forall>t \<in> set ts. t \<le> now" using assms(1,2) by (auto simp: remembers_def)
  have keep: "remembers r now x ts" using assms(1,2) by (auto simp: remembers_def)
  show ?thesis
  proof (cases "v = RateAccept")
    case True
    then have acc: "int (length ?f) < rl_maxRequests r" "int (length (filter (\<lambda>t. t > now - second) ?f)) < rl_burstSize r"
        "r' = r\<lparr>rl_requests := put (rl_requests r) ?k (?f @ [now])\<rparr>"
      using assms(3) by (auto simp: RateLimitJudge_PreAdmit_def Let_def split: if_splits)
    show ?thesis
    proof (cases "?k = x")
      case same: True
      then have f: "?f = filter (\<lambda>t. t > now - ?w) ts" using assms(1,2) by (auto simp: remembers_def)
      have "filter (\<lambda>t. t > now - second) ?f = filter (\<lambda>t. t > now - min second ?w) ts"
        unfolding f by (auto simp: filter_filter min_def intro: filter_cong)
      then have "spaced ?w (nat (rl_maxRequests r)) (ts @ [now])" "spaced (min second ?w) (nat (rl_burstSize r)) (ts @ [now])"
        using sp le acc(1,2) f by (auto intro!: spaced_snoc)
      moreover have "filter (\<lambda>t. t > u - ?w) (filter (\<lambda>t. t > now - ?w) ts) = filter (\<lambda>t. t > u - ?w) ts" if "now \<le> u" for u
        using that by (auto simp: filter_filter intro: filter_cong)
      ultimately show ?thesis using True same acc(3) le f by (auto simp: ts'_def remembers_def get_or_def)
    next
      case False
      then show ?thesis using True acc(3) keep sp by (simp add: ts'_def remembers_def get_or_def)
    qed
  next
    case False
    then have "r' = r" using assms(3) by (auto simp: RateLimitJudge_PreAdmit_def Let_def split: if_splits)
    with False keep sp show ?thesis by (simp add: ts'_def)
  qed
qed

lemma rate_run_spaced:
  assumes "rate_run tenantID rs r = (vs, r')" "sorted (map fst rs)" "\<forall>t \<in> set (map fst rs). clock \<le> t" "0 < rl_lookbackWindow r"
    and "remembers r clock x ts" "spaced (rl_lookbackWindow r) (nat (rl_maxRequests r)) ts"
    and "spaced (min second (rl_lookbackWindow r)) (nat (rl_burstSize r)) ts"
  shows "spaced (rl_lookbackWindow r) (nat (rl_maxRequests r)) (ts @ accepted_times tenantID x rs vs) \<and>
    spaced (min second (rl_lookbackWindow r)) (nat (rl_burstSize r)) (ts @ accepted_times tenantID x rs vs)"
  using assms
proof (induction rs arbitrary: r vs clock ts)
  case (Cons nr rs)
  obtain now req where nr: "nr = (now, req)" by fastforce
  obtain v r1 where st: "RateLimitJudge_PreAdmit tenantID now req r = (v, r1)" by fastforce
  obtain vs1 where run: "rate_run tenantID rs r1 = (vs1, r')" "vs = v # vs1" using Cons.prems(1) nr st by (auto split: prod.splits)
  have "clock \<le> now" using Cons.prems(3) nr by simp
  note one = PreAdmit_remembers [OF Cons.prems(5) this st Cons.prems(4,6,7)]
  let ?ts = "ts @ (if v = RateAccept \<and> tenant_key tenantID req = x then [now] else [])"
  have "spaced (rl_lookbackWindow r1) (nat (rl_maxRequests r1)) (?ts @ accepted_times tenantID x rs vs1) \<and>
    spaced (min second (rl_lookbackWindow r1)) (nat (rl_burstSize r1)) (?ts @ accepted_times tenantID x rs vs1)"
    by (rule Cons.IH [OF run(1), of now]) (use Cons.prems(2,4) nr one in auto)
  then show ?case using one nr run(2) by simp
qed simp

text \<open>
  C35: The rate limiter keeps its limits. Whatever requests come in, in the order of time, and however a
  tenant is read from a request (the plugin reads a field that the request of this version does not have),
  the requests of one tenant that a freshly configured limiter with a positive window admits are never more
  than the limit within any span of the window, and never more than the burst size within any span of a
  second or of the window, whichever is shorter: a burst is counted among the requests of the window.\<close>

theorem rate_limit_respected:
  assumes "rate_run tenantID rs (RateLimitJudge_Init config r0) = (vs, r)" "sorted (map fst rs)" "0 < rl_lookbackWindow (RateLimitJudge_Init config r0)"
  defines "w \<equiv> rl_lookbackWindow (RateLimitJudge_Init config r0)"
  shows "length (filter (\<lambda>t. u - w < t \<and> t \<le> u) (accepted_times tenantID x rs vs)) \<le> nat (cfg_int 60 config ''maxRequestsPerMinute'') \<and>
    length (filter (\<lambda>t. u - min second w < t \<and> t \<le> u) (accepted_times tenantID x rs vs)) \<le> nat (cfg_int 10 config ''burstSize'')"
proof (cases rs)
  case Nil
  with assms(1) show ?thesis by simp
next
  case (Cons nr rs')
  let ?r = "RateLimitJudge_Init config r0"
  have lim: "rl_maxRequests ?r = cfg_int 60 config ''maxRequestsPerMinute''" "rl_burstSize ?r = cfg_int 10 config ''burstSize''"
    by (simp_all add: RateLimitJudge_Init_def)
  have "remembers ?r (fst nr) x []" by (simp add: remembers_def RateLimitJudge_Init_def get_or_def)
  from rate_run_spaced [OF assms(1,2) _ assms(3) this spaced_Nil] assms(2) Cons
  have "spaced w (nat (rl_maxRequests ?r)) (accepted_times tenantID x rs vs)" "spaced (min second w) (nat (rl_burstSize ?r)) (accepted_times tenantID x rs vs)"
    by (auto simp: w_def intro: spaced_Nil)
  then show ?thesis unfolding lim using spaced_span by blast
qed

definition demo_limiter :: RateLimitJudge where
  "demo_limiter = RateLimitJudge_Init [(''maxRequestsPerMinute'', CfgInt 2)] \<lparr>rl_maxRequests = 0, rl_burstSize = 0, rl_lookbackWindow = 0, rl_requests = []\<rparr>"

definition demo_rate_requests :: "(go_time \<times> SandboxRequest) list" where
  "demo_rate_requests = [(1, zero_SandboxRequest), (5, zero_SandboxRequest), (9, zero_SandboxRequest)]"

theorem rate_limit_respected_witness:
  "fst (rate_run req_ID demo_rate_requests demo_limiter) = [RateAccept, RateAccept, RateExceeded 2] \<and>
   length (filter (\<lambda>t. 9 - minute < t \<and> t \<le> 9) (accepted_times req_ID ''default'' demo_rate_requests (fst (rate_run req_ID demo_rate_requests demo_limiter)))) \<le> 2"
proof -
  let ?c = "[(''maxRequestsPerMinute'', CfgInt 2)]" and ?z = "\<lparr>rl_maxRequests = 0, rl_burstSize = 0, rl_lookbackWindow = 0, rl_requests = []\<rparr> :: RateLimitJudge"
  have run: "rate_run req_ID demo_rate_requests (RateLimitJudge_Init ?c ?z) = (fst (rate_run req_ID demo_rate_requests demo_limiter), snd (rate_run req_ID demo_rate_requests demo_limiter))"
    by (simp add: demo_limiter_def)
  have w: "rl_lookbackWindow (RateLimitJudge_Init ?c ?z) = minute" by (simp add: RateLimitJudge_Init_def cfg_duration_def)
  have "length (filter (\<lambda>t. 9 - minute < t \<and> t \<le> 9) (accepted_times req_ID ''default'' demo_rate_requests (fst (rate_run req_ID demo_rate_requests demo_limiter)))) \<le> 2"
    using rate_limit_respected [OF run, of 9 "''default''"] w by (simp add: demo_rate_requests_def cfg_int_def)
  moreover have "fst (rate_run req_ID demo_rate_requests demo_limiter) = [RateAccept, RateAccept, RateExceeded 2]"
    by (simp add: demo_rate_requests_def demo_limiter_def RateLimitJudge_Init_def RateLimitJudge_PreAdmit_def cfg_int_def cfg_duration_def
        get_or_def put_def tenant_key_def zero_SandboxRequest_def Let_def)
  ultimately show ?thesis by blast
qed

text \<open>A request over the limit is an error of the chain, not a rejection.\<close>

theorem rate_limited_is_error:
  assumes "RateLimitJudge_PreAdmit tenantID now req r = (v, r')" "v \<noteq> RateAccept" "pg_judge (rate_limit_plugin show_duration tenantID now) = Some p"
  shows "\<exists>err. RunPre (adapter_PreAdmit p # js) req r = (Inl (JudgeFailed err), req, r')"
  using assms by (cases v) (auto simp: rate_limit_plugin_def adapter_PreAdmit_def)

section \<open>The registry is in step with the loader\<close>

definition plugin_wf :: "string \<Rightarrow> 's LoadedPlugin \<Rightarrow> bool" where
  "plugin_wf name lp \<longleftrightarrow> mf_Name (lp_Manifest lp) = name \<and> manifest_Validate (lp_Manifest lp) = None \<and> pg_Type (lp_Plugin lp) = mf_Type (lp_Manifest lp)"

definition loader_wf :: "'s Loader \<Rightarrow> bool" where
  "loader_wf l \<longleftrightarrow> gomap_ok (lo_loaded l) \<and> (\<forall>name lp. get (lo_loaded l) name = Some lp \<longrightarrow> plugin_wf name lp)"

text \<open>A walk through the map meets every plugin once.\<close>

definition iterates :: "'s map_walk \<times> 's map_walk \<Rightarrow> bool" where
  "iterates its \<longleftrightarrow> (\<forall>xs. mset (fst its xs) = mset xs \<and> mset (snd its xs) = mset xs)"

definition registry_wf :: "'s Registry \<Rightarrow> bool" where
  "registry_wf r \<longleftrightarrow> loader_wf (rg_loader r) \<and> (\<exists>its. iterates its \<and>
     rg_judgeChain r = WrapJudgePlugins (GetJudgePlugins (fst its) (rg_loader r)) \<and>
     rg_compositeFury r = WrapFuryPlugins (GetFuryPlugins (snd its) (rg_loader r)))"

lemma mset_map_filter: "mset xs = mset ys \<Longrightarrow> mset (List.map_filter f xs) = mset (List.map_filter f ys)"
  by (simp add: List.map_filter_def)

lemma LoadManifest_valid: "LoadManifest rd yaml p = Inr m \<Longrightarrow> manifest_Validate m = None"
  by (auto simp: LoadManifest_def split: sum.splits option.splits)

lemma LoadPlugin_wf:
  assumes "loader_wf l" "LoadPlugin env d l s = (err, l', s')"
  shows "loader_wf l' \<and> (err \<noteq> None \<longrightarrow> l' = l)"
  using assms LoadManifest_valid [of "pe_ReadFile env" "pe_yaml env" "d @ ''/manifest.yaml''"]
  by (auto simp: LoadPlugin_def loader_wf_def plugin_wf_def split: sum.splits if_splits prod.splits option.splits)

lemma load_directories_wf: "loader_wf l \<Longrightarrow> load_directories env es l s = (l', s') \<Longrightarrow> loader_wf l'"
  by (induction env es l s rule: load_directories.induct) (auto split: if_splits prod.splits dest: LoadPlugin_wf)

lemma UnloadPlugin_wf: "loader_wf l \<Longrightarrow> UnloadPlugin name l s = (err, l', s') \<Longrightarrow> loader_wf l' \<and> (err \<noteq> None \<longrightarrow> l' = l)"
  by (auto simp: UnloadPlugin_def loader_wf_def split: option.splits if_splits)

lemma DiscoverAndLoad_wf: "loader_wf l \<Longrightarrow> DiscoverAndLoad env l s = (err, l', s') \<Longrightarrow> loader_wf l' \<and> (err \<noteq> None \<longrightarrow> l' = l)"
  by (auto simp: DiscoverAndLoad_def split: option.splits sum.splits prod.splits dest: load_directories_wf)

lemma with_loader_wf:
  assumes "registry_wf r" "iterates its" "with_loader its res r = (e, r', s')"
    and "\<And>err l s. res = (err, l, s) \<Longrightarrow> loader_wf l \<and> (err \<noteq> None \<longrightarrow> l = rg_loader r)"
  shows "registry_wf r'"
proof -
  obtain err l s where res: "res = (err, l, s)" by (metis prod_cases3)
  note l = assms(4) [OF res]
  show ?thesis
  proof (cases err)
    case None
    then have "r' = rebuildIntegrations its (r\<lparr>rg_loader := l\<rparr>)" using assms(3) res by (simp add: with_loader_def)
    then show ?thesis using l assms(2) by (auto simp: registry_wf_def rebuildIntegrations_def simp del: split_paired_Ex intro!: exI [of _ its])
  next
    case (Some x)
    then have "r' = r" using assms(3) res l by (auto simp: with_loader_def)
    then show ?thesis using assms(1) by simp
  qed
qed

inductive registry_reachable :: "'s Registry \<Rightarrow> bool" where
  new: "registry_reachable (NewRegistry env d)"
| initialize: "registry_reachable r \<Longrightarrow> iterates its \<Longrightarrow> Initialize env its r s = (err, r', s') \<Longrightarrow> registry_reachable r'"
| load: "registry_reachable r \<Longrightarrow> iterates its \<Longrightarrow> registry_LoadPlugin env its d r s = (err, r', s') \<Longrightarrow> registry_reachable r'"
| unload: "registry_reachable r \<Longrightarrow> iterates its \<Longrightarrow> registry_UnloadPlugin its name r s = (err, r', s') \<Longrightarrow> registry_reachable r'"

lemma registry_reachable_wf: "registry_reachable r \<Longrightarrow> registry_wf r"
proof (induction rule: registry_reachable.induct)
  case (new env d)
  have "iterates (\<lambda>xs. xs, \<lambda>xs. xs)" by (simp add: iterates_def)
  then show ?case
    by (auto simp: NewRegistry_def NewLoader_def registry_wf_def loader_wf_def WrapJudgePlugins_def WrapFuryPlugins_def
        GetJudgePlugins_def GetFuryPlugins_def loader_ListPlugins_def List.map_filter_def intro!: exI)
next
  case (initialize r its env s err r' s')
  have "loader_wf (rg_loader r)" using initialize.IH by (simp add: registry_wf_def)
  from with_loader_wf [OF initialize.IH initialize.hyps(2) initialize.hyps(3) [unfolded Initialize_def] DiscoverAndLoad_wf [OF this]] show ?case .
next
  case (load r its env d s err r' s')
  have "loader_wf (rg_loader r)" using load.IH by (simp add: registry_wf_def)
  from with_loader_wf [OF load.IH load.hyps(2) load.hyps(3) [unfolded registry_LoadPlugin_def] LoadPlugin_wf [OF this]] show ?case .
next
  case (unload r its name s err r' s')
  have "loader_wf (rg_loader r)" using unload.IH by (simp add: registry_wf_def)
  from with_loader_wf [OF unload.IH unload.hyps(2) unload.hyps(3) [unfolded registry_UnloadPlugin_def] UnloadPlugin_wf [OF this]] show ?case .
qed

text \<open>
  C36: The registry is well formed through every sequence of initialising, loading and unloading, with
  errors in between, until it is closed. A name stands for one plugin, whose manifest has that name, a
  version of the API and of the plugin, the kind of a plugin, an entry point, and the type, judge or fury,
  that the plugin itself has. The pre-admission judges and the post-hoc judges in use are those of exactly
  the loaded plugins that are judges, each once and in one order, and the furies in use are those of
  exactly the loaded plugins that are furies, each once, whatever the order in which the map is walked.\<close>

theorem registry_well_formed:
  assumes "registry_reachable r"
  shows "gomap_ok (lo_loaded (rg_loader r)) \<and>
    (\<forall>name lp. get (lo_loaded (rg_loader r)) name = Some lp \<longrightarrow>
       mf_APIVersion (lp_Manifest lp) \<noteq> [] \<and> mf_Kind (lp_Manifest lp) = ''TartarusPlugin'' \<and>
       mf_Name (lp_Manifest lp) = name \<and> name \<noteq> [] \<and> mf_Version (lp_Manifest lp) \<noteq> [] \<and> mf_EntryPoint (lp_Manifest lp) \<noteq> [] \<and>
       pg_Type (lp_Plugin lp) = mf_Type (lp_Manifest lp) \<and> mf_Type (lp_Manifest lp) \<in> {''judge'', ''fury''}) \<and>
    (\<exists>js. mset js = mset (List.map_filter (\<lambda>lp. pg_judge (lp_Plugin lp)) (map snd (lo_loaded (rg_loader r)))) \<and>
       fst (rg_judgeChain r) = map adapter_PreAdmit js \<and> snd (rg_judgeChain r) = map adapter_PostHoc js) \<and>
    (\<exists>fs. mset fs = mset (List.map_filter (\<lambda>lp. pg_fury (lp_Plugin lp)) (map snd (lo_loaded (rg_loader r)))) \<and>
       rg_compositeFury r = map fury_adapter fs)"
proof -
  note wf = registry_reachable_wf [OF assms]
  have v: "mf_APIVersion m \<noteq> [] \<and> mf_Kind m = ''TartarusPlugin'' \<and> mf_Name m \<noteq> [] \<and> mf_Version m \<noteq> [] \<and> mf_EntryPoint m \<noteq> [] \<and>
      mf_Type m \<in> {''judge'', ''fury''}" if "manifest_Validate m = None" for m
    using that by (auto simp: manifest_Validate_def split: if_splits)
  obtain its where its: "iterates its" "rg_judgeChain r = WrapJudgePlugins (GetJudgePlugins (fst its) (rg_loader r))"
    "rg_compositeFury r = WrapFuryPlugins (GetFuryPlugins (snd its) (rg_loader r))" using wf by (auto simp: registry_wf_def)
  have "mset (GetJudgePlugins (fst its) (rg_loader r)) = mset (List.map_filter (\<lambda>lp. pg_judge (lp_Plugin lp)) (map snd (lo_loaded (rg_loader r))))"
    "mset (GetFuryPlugins (snd its) (rg_loader r)) = mset (List.map_filter (\<lambda>lp. pg_fury (lp_Plugin lp)) (map snd (lo_loaded (rg_loader r))))"
    unfolding GetJudgePlugins_def GetFuryPlugins_def loader_ListPlugins_def
    by (rule mset_map_filter, use its(1) in \<open>simp add: iterates_def\<close>)+
  then have "\<exists>js. mset js = mset (List.map_filter (\<lambda>lp. pg_judge (lp_Plugin lp)) (map snd (lo_loaded (rg_loader r)))) \<and>
      fst (rg_judgeChain r) = map adapter_PreAdmit js \<and> snd (rg_judgeChain r) = map adapter_PostHoc js"
    "\<exists>fs. mset fs = mset (List.map_filter (\<lambda>lp. pg_fury (lp_Plugin lp)) (map snd (lo_loaded (rg_loader r)))) \<and>
      rg_compositeFury r = map fury_adapter fs"
    unfolding its(2,3) WrapJudgePlugins_def WrapFuryPlugins_def by auto
  moreover have "gomap_ok (lo_loaded (rg_loader r))" "\<forall>name lp. get (lo_loaded (rg_loader r)) name = Some lp \<longrightarrow> plugin_wf name lp"
    using wf by (simp_all add: registry_wf_def loader_wf_def)
  ultimately show ?thesis using v unfolding plugin_wf_def by blast
qed

definition demo_manifest :: Manifest where
  "demo_manifest = \<lparr>mf_APIVersion = ''v1'', mf_Kind = ''TartarusPlugin'', mf_Name = ''rate-limit-judge'', mf_Version = ''1.0.0'', mf_Author = [],
     mf_Description = [], mf_Type = ''judge'', mf_EntryPoint = ''r.so'', mf_Config = [], mf_Dependencies = []\<rparr>"

definition demo_plugin_env :: "RateLimitJudge exported \<Rightarrow> RateLimitJudge plugin_env" where
  "demo_plugin_env var = \<lparr>pe_ReadFile = (\<lambda>_. Inr ''yaml''), pe_yaml = (\<lambda>_. Inr demo_manifest), pe_Open = (\<lambda>_. Inr (\<lambda>_. Inr var)), pe_MkdirAll = (\<lambda>_. None),
     pe_ReadDir = (\<lambda>_. Inr [(''r'', True)]), pe_home = ''/root''\<rparr>"

definition demo_rate_plugin :: "RateLimitJudge plugin" where
  "demo_rate_plugin = rate_limit_plugin (\<lambda>_. ''1m0s'') req_ID 5"

definition demo_registry :: "RateLimitJudge Registry" where
  "demo_registry = fst (snd (Initialize (demo_plugin_env (VarPlugin demo_rate_plugin)) (rev, rev) (NewRegistry (demo_plugin_env (VarPlugin demo_rate_plugin)) ''/p'') demo_limiter))"

theorem registry_well_formed_witness:
  "length (fst (rg_judgeChain demo_registry)) = 1 \<and> length (snd (rg_judgeChain demo_registry)) = 1 \<and> pg_Type demo_rate_plugin = ''judge''"
proof -
  let ?env = "demo_plugin_env (VarPlugin demo_rate_plugin)"
  let ?i = "Initialize ?env (rev, rev) (NewRegistry ?env ''/p'') demo_limiter"
  have it: "iterates (rev, rev)" by (simp add: iterates_def)
  have "?i = (fst ?i, demo_registry, snd (snd ?i))" by (simp add: demo_registry_def)
  then have r: "registry_reachable demo_registry" by (rule registry_reachable.initialize [OF registry_reachable.new it])
  have l: "map snd (lo_loaded (rg_loader demo_registry)) = [\<lparr>lp_Manifest = demo_manifest, lp_Plugin = demo_rate_plugin, lp_Path = ''/p/r''\<rparr>]"
    by (simp add: demo_registry_def Initialize_def NewRegistry_def NewLoader_def DiscoverAndLoad_def demo_plugin_env_def LoadPlugin_def LoadManifest_def
        manifest_Validate_def demo_manifest_def open_plugin_def plugin_of_symbol_def demo_rate_plugin_def rate_limit_plugin_def with_loader_def
        rebuildIntegrations_def put_def)
  obtain p where "pg_judge demo_rate_plugin = Some p" by (simp add: demo_rate_plugin_def rate_limit_plugin_def)
  then have one: "List.map_filter (\<lambda>lp. pg_judge (lp_Plugin lp)) (map snd (lo_loaded (rg_loader demo_registry))) = [p]"
    by (simp add: l List.map_filter_def)
  have "length (fst (rg_judgeChain demo_registry)) = 1" "length (snd (rg_judgeChain demo_registry)) = 1"
    using registry_well_formed [OF r] unfolding one by (auto dest: mset_eq_length)
  then show ?thesis by (simp add: demo_rate_plugin_def rate_limit_plugin_def)
qed

text \<open>
  A plugin that exports its symbol with the type of one of the specific interfaces cannot be loaded: whatever
  its manifest and its code, loading it is an error, it is not initialised, and the registry and the state are as before.\<close>

theorem interface_variable_refused:
  assumes "\<And>so lookup. pe_Open env so = Inr lookup \<Longrightarrow> \<exists>p. lookup PluginSymbol = Inr (VarJudgePlugin p) \<or> lookup PluginSymbol = Inr (VarFuryPlugin p)"
  shows "\<exists>err. LoadPlugin env d l s = (Some err, l, s)"
proof -
  have "\<exists>err. open_plugin env so = Inl err" for so
    using assms [of so] by (cases "pe_Open env so") (auto simp: open_plugin_def plugin_of_symbol_def)
  then obtain err where "\<And>so. open_plugin env so = Inl (err so)" by metis
  then show ?thesis by (simp add: LoadPlugin_def split: sum.split)
qed

theorem interface_variable_refused_witness:
  "\<exists>err. LoadPlugin (demo_plugin_env (VarJudgePlugin demo_rate_plugin)) ''/p/r'' \<lparr>lo_pluginsDir = ''/p'', lo_loaded = []\<rparr> demo_limiter =
     (Some err, \<lparr>lo_pluginsDir = ''/p'', lo_loaded = []\<rparr>, demo_limiter)"
  by (rule interface_variable_refused) (auto simp: demo_plugin_env_def)

text \<open>Closing the registry empties the loader and leaves the closed plugins in the chain.\<close>

theorem closed_plugins_stay_in_chain:
  assumes "registry_Close r s = (r', s')"
  shows "registry_ListPlugins r' = [] \<and> rg_judgeChain r' = rg_judgeChain r \<and> rg_compositeFury r' = rg_compositeFury r"
  using assms by (auto simp: registry_Close_def loader_Close_def registry_ListPlugins_def loader_ListPlugins_def split: prod.splits)

text \<open>When one fury cannot be armed, those armed before it stay armed.\<close>

theorem failed_arm_keeps_earlier:
  assumes "fu_Arm f run policy s = (None, s1)" "fu_Arm g run policy s1 = (Some err, s2)"
  shows "composite_Arm (f # g # fs) run policy s = (Some err, s2)"
  using assms by simp

text \<open>A watcher that finds the limit exceeded only ends: what is armed stays armed, and nothing is stopped. One that is
  replaced by arming the same run again is never cancelled.\<close>

theorem cost_limit_not_enforced:
  "cf_watchers (monitor_tick now w c) = cf_watchers c \<and> cf_cancelled (monitor_tick now w c) = cf_cancelled c"
  by (simp add: monitor_tick_def Let_def split: option.split prod.split)

theorem rearmed_watcher_leaks:
  assumes "gomap_ok (cf_watchers c)" "get (cf_watchers c) (run_ID run) = Some w" "w \<notin> set (cf_cancelled c)" "w < cf_next c"
    and "\<forall>i. get (cf_watchers c) i = Some w \<longrightarrow> i = run_ID run"
  shows "w \<notin> set (cf_cancelled (CostAwareFury_Close (CostAwareFury_Disarm (run_ID run) (CostAwareFury_Arm now run policy c))))"
proof -
  let ?m = "del (put (cf_watchers c) (run_ID run) (cf_next c)) (run_ID run)"
  have "w \<notin> snd ` set ?m"
  proof
    assume "w \<in> snd ` set ?m"
    then obtain i where "(i, w) \<in> set ?m" by auto
    moreover have "gomap_ok ?m" using assms(1) by blast
    ultimately have "get ?m i = Some w" using get_iff_in_set by metis
    then show False using assms(5) by (auto split: if_splits)
  qed
  with assms(3,4) show ?thesis by (auto simp: CostAwareFury_Arm_def CostAwareFury_Disarm_def CostAwareFury_Close_def)
qed

end
