(* ===== verification/RedisStore.thy ===== *)
theory RedisStore
  imports Hades Themis
begin

text \<open>
  The registry and the policy repository on Redis (\<open>pkg/hades/redis_registry.go\<close>,
  \<open>pkg/themis/redis_repo.go\<close>).

  The Redis server is an argument: the commands the code sends, on a state of any type, with the time of
  the command where keys expire. What the code relies on is \<open>redis_documented\<close>, stated with \<open>GET\<close> as
  the observation: the effect of \<open>SET\<close> with its time to live, of a transaction on a watched key, and that a
  \<open>SCAN\<close> visits exactly the live keys (some of them perhaps twice). \<open>redis_reliable\<close> adds that no command
  fails. JSON is an argument too, a \<open>codec\<close> for each type into texts of any type; \<open>faithful\<close> says that decoding
  gives back what was encoded.

  Both back ends implement the interfaces of their in-memory counterparts: \<open>run_store\<close> and
  \<open>versioned_store\<close> are interpreted on them.
\<close>

datatype ttl = NoTTL | KeepTTL | TTL duration

record ('s, 'v) redis_kv =
  kv_GET :: "go_time \<Rightarrow> string \<Rightarrow> 's \<Rightarrow> string + 'v option"
  kv_SET :: "go_time \<Rightarrow> string \<Rightarrow> 'v \<Rightarrow> ttl \<Rightarrow> 's \<Rightarrow> string option \<times> 's"
  kv_SCAN :: "go_time \<Rightarrow> string \<Rightarrow> 's \<Rightarrow> string list \<times> string option"
  kv_EXEC :: "go_time \<Rightarrow> 's \<Rightarrow> string \<Rightarrow> 'v \<Rightarrow> ttl \<Rightarrow> 's \<Rightarrow> string option \<times> 's"

datatype redis_error = HadesErr hades_error | RedisErr string | Wrapped string redis_error

section \<open>The registry\<close>

definition node_key :: "NodeID \<Rightarrow> string" where "node_key i = ''tartarus:node:'' @ i"

definition run_key :: "SandboxID \<Rightarrow> string" where "run_key i = ''tartarus:run:'' @ i"

text \<open>The loop over the keys of a scan: a key that is gone or does not decode is passed over.\<close>

fun list_loop :: "(string \<Rightarrow> string + 'v option) \<Rightarrow> ('v \<Rightarrow> string + 'a) \<Rightarrow> string \<Rightarrow> string list \<Rightarrow> string + 'a list" where
  "list_loop getk dec what [] = Inr []"
| "list_loop getk dec what (k # ks) =
     (case getk k of
        Inl err \<Rightarrow> Inl (''failed to get '' @ what @ '' key '' @ k @ '': '' @ err)
      | Inr None \<Rightarrow> list_loop getk dec what ks
      | Inr (Some val) \<Rightarrow>
          (case dec val of
             Inl _ \<Rightarrow> list_loop getk dec what ks
           | Inr x \<Rightarrow> (case list_loop getk dec what ks of Inl err \<Rightarrow> Inl err | Inr xs \<Rightarrow> Inr (x # xs))))"

definition redis_list ::
    "('s, 'v) redis_kv \<Rightarrow> ('v \<Rightarrow> string + 'a) \<Rightarrow> string \<Rightarrow> string \<Rightarrow> string \<Rightarrow> go_time \<Rightarrow> 's \<Rightarrow> string + 'a list" where
  "redis_list db dec what whats pre now s =
     (case kv_SCAN db now pre s of
        (ks, scanErr) \<Rightarrow>
          (case list_loop (\<lambda>k. kv_GET db now k s) dec what ks of
             Inl err \<Rightarrow> Inl err
           | Inr xs \<Rightarrow> (case scanErr of Some err \<Rightarrow> Inl (''failed to scan '' @ whats @ '': '' @ err) | None \<Rightarrow> Inr xs)))"

definition Redis_ListNodes :: "('s, 'v) redis_kv \<Rightarrow> (NodeStatus, 'v) codec \<Rightarrow> go_time \<Rightarrow> 's \<Rightarrow> string + NodeStatus list" where
  "Redis_ListNodes db c now s = redis_list db (snd c) ''node'' ''nodes'' ''tartarus:node:'' now s"

definition Redis_GetNode :: "('s, 'v) redis_kv \<Rightarrow> (NodeStatus, 'v) codec \<Rightarrow> go_time \<Rightarrow> NodeID \<Rightarrow> 's \<Rightarrow> redis_error + NodeStatus" where
  "Redis_GetNode db c now i s =
     (case kv_GET db now (node_key i) s of
        Inl err \<Rightarrow> Inl (RedisErr (''failed to get node: '' @ err))
      | Inr None \<Rightarrow> Inl (HadesErr ErrNodeNotFound)
      | Inr (Some val) \<Rightarrow>
          (case snd c val of
             Inl err \<Rightarrow> Inl (RedisErr (''failed to unmarshal node status: '' @ err))
           | Inr status \<Rightarrow> Inr status))"

definition Redis_UpdateHeartbeat ::
    "('s, 'v) redis_kv \<Rightarrow> (NodeStatus, 'v) codec \<Rightarrow> go_time \<Rightarrow> HeartbeatPayload \<Rightarrow> 's \<Rightarrow> redis_error option \<times> 's" where
  "Redis_UpdateHeartbeat db c now payload s =
     (let status = status_of_payload payload
      in case fst c status of
           Inl err \<Rightarrow> (Some (RedisErr (''failed to marshal node status: '' @ err)), s)
         | Inr data \<Rightarrow>
             (case kv_SET db now (node_key (node_ID status)) data (TTL NodeTTL) s of
                (Some err, s') \<Rightarrow> (Some (RedisErr (''failed to update heartbeat: '' @ err)), s')
              | (None, s') \<Rightarrow> (None, s')))"

text \<open>Marking a node: between the reading of the watched key and the transaction other clients may have acted.\<close>

definition Redis_MarkDraining ::
    "('s, 'v) redis_kv \<Rightarrow> (NodeStatus, 'v) codec \<Rightarrow> ('s \<Rightarrow> 's) \<Rightarrow> go_time \<Rightarrow> NodeID \<Rightarrow> 's \<Rightarrow> redis_error option \<times> 's" where
  "Redis_MarkDraining db c other now i s =
     (case kv_GET db now (node_key i) s of
        Inl err \<Rightarrow> (Some (RedisErr (''failed to mark draining: '' @ err)), s)
      | Inr None \<Rightarrow> (Some (Wrapped ''failed to mark draining: '' (HadesErr ErrNodeNotFound)), s)
      | Inr (Some val) \<Rightarrow>
          (case snd c val of
             Inl err \<Rightarrow> (Some (RedisErr (''failed to mark draining: '' @ err)), s)
           | Inr status \<Rightarrow>
               (case fst c (draining status) of
                  Inl err \<Rightarrow> (Some (RedisErr (''failed to mark draining: '' @ err)), s)
                | Inr data \<Rightarrow>
                    (case kv_EXEC db now s (node_key i) data KeepTTL (other s) of
                       (Some err, s') \<Rightarrow> (Some (RedisErr (''failed to mark draining: '' @ err)), s')
                     | (None, s') \<Rightarrow> (None, s')))))"

definition Redis_UpdateRun :: "('s, 'v) redis_kv \<Rightarrow> (SandboxRun, 'v) codec \<Rightarrow> go_time \<Rightarrow> SandboxRun \<Rightarrow> 's \<Rightarrow> redis_error option \<times> 's" where
  "Redis_UpdateRun db c now run s =
     (case fst c run of
        Inl err \<Rightarrow> (Some (RedisErr (''failed to marshal run: '' @ err)), s)
      | Inr data \<Rightarrow>
          (case kv_SET db now (run_key (run_ID run)) data (TTL (24 * hour)) s of
             (Some err, s') \<Rightarrow> (Some (RedisErr (''failed to update run: '' @ err)), s')
           | (None, s') \<Rightarrow> (None, s')))"

definition Redis_GetRun :: "('s, 'v) redis_kv \<Rightarrow> (SandboxRun, 'v) codec \<Rightarrow> go_time \<Rightarrow> SandboxID \<Rightarrow> 's \<Rightarrow> redis_error + SandboxRun" where
  "Redis_GetRun db c now i s =
     (case kv_GET db now (run_key i) s of
        Inl err \<Rightarrow> Inl (RedisErr (''failed to get run: '' @ err))
      | Inr None \<Rightarrow> Inl (HadesErr ErrRunNotFound)
      | Inr (Some val) \<Rightarrow>
          (case snd c val of Inl err \<Rightarrow> Inl (RedisErr (''failed to unmarshal run: '' @ err)) | Inr run \<Rightarrow> Inr run))"

definition Redis_ListRuns :: "('s, 'v) redis_kv \<Rightarrow> (SandboxRun, 'v) codec \<Rightarrow> go_time \<Rightarrow> 's \<Rightarrow> string + SandboxRun list" where
  "Redis_ListRuns db c now s = redis_list db (snd c) ''run'' ''runs'' ''tartarus:run:'' now s"

section \<open>The policy repository\<close>

datatype repo_error = Conflict int int | LockFailed string | UpsertFailed string

definition policy_key :: "TemplateID \<Rightarrow> string" where "policy_key t = ''themis:policy:'' @ t"

definition Redis_GetPolicy :: "('s, 'v) redis_kv \<Rightarrow> (SandboxPolicy, 'v) codec \<Rightarrow> go_time \<Rightarrow> TemplateID \<Rightarrow> 's \<Rightarrow> string + SandboxPolicy" where
  "Redis_GetPolicy db c now tplID s =
     (case kv_GET db now (policy_key tplID) s of
        Inl err \<Rightarrow> Inl (''failed to get policy: '' @ err)
      | Inr None \<Rightarrow> Inr (lockdown_policy tplID)
      | Inr (Some val) \<Rightarrow>
          (case snd c val of Inl err \<Rightarrow> Inl (''failed to unmarshal policy: '' @ err) | Inr p \<Rightarrow> Inr p))"

text \<open>An upsert, with the caller's object as it is afterwards: its version is advanced before the transaction.\<close>

definition stored_version :: "(SandboxPolicy, 'v) codec \<Rightarrow> 'v option \<Rightarrow> string + int" where
  "stored_version c val =
     (case val of None \<Rightarrow> Inr 0 | Some t \<Rightarrow> (case snd c t of Inl err \<Rightarrow> Inl err | Inr existing \<Rightarrow> Inr (pol_Version existing)))"

definition TxFailedErr :: string where "TxFailedErr = ''redis: transaction failed''"

definition Redis_UpsertPolicy ::
    "('s, 'v) redis_kv \<Rightarrow> (SandboxPolicy, 'v) codec \<Rightarrow> ('s \<Rightarrow> 's) \<Rightarrow> go_time \<Rightarrow> SandboxPolicy \<Rightarrow> 's \<Rightarrow> repo_error option \<times> SandboxPolicy \<times> 's" where
  "Redis_UpsertPolicy db c other now p s =
     (case kv_GET db now (policy_key (pol_TemplateID p)) s of
        Inl err \<Rightarrow> (Some (UpsertFailed err), p, s)
      | Inr val \<Rightarrow>
          (case stored_version c val of
             Inl err \<Rightarrow> (Some (UpsertFailed err), p, s)
           | Inr currentVersion \<Rightarrow>
               if pol_Version p \<noteq> currentVersion then (Some (Conflict currentVersion (pol_Version p)), p, s)
               else
                 let p = p\<lparr>pol_Version := wrap64 (pol_Version p + 1)\<rparr>
                 in case fst c p of
                      Inl err \<Rightarrow> (Some (UpsertFailed err), p, s)
                    | Inr data \<Rightarrow>
                        (case kv_EXEC db now s (policy_key (pol_TemplateID p)) data NoTTL (other s) of
                           (Some err, s') \<Rightarrow> (Some (if err = TxFailedErr then LockFailed err else UpsertFailed err), p, s')
                         | (None, s') \<Rightarrow> (None, p, s'))))"

definition Redis_ListPolicies :: "('s, 'v) redis_kv \<Rightarrow> (SandboxPolicy, 'v) codec \<Rightarrow> go_time \<Rightarrow> 's \<Rightarrow> string + SandboxPolicy list" where
  "Redis_ListPolicies db c now s = redis_list db (snd c) ''policy'' ''policies'' ''themis:policy:'' now s"

section \<open>What Redis documents\<close>

definition written :: "('s, 'v) redis_kv \<Rightarrow> go_time \<Rightarrow> string \<Rightarrow> 'v \<Rightarrow> ttl \<Rightarrow> 's \<Rightarrow> 's \<Rightarrow> bool" where
  "written db now k v m s s' \<longleftrightarrow>
     (\<forall>t k'. now \<le> t \<longrightarrow> kv_GET db t k' s' =
        (if k' \<noteq> k then kv_GET db t k' s
         else case m of
                NoTTL \<Rightarrow> Inr (Some v)
              | TTL d \<Rightarrow> Inr (if t < now + d then Some v else None)
              | KeepTTL \<Rightarrow> if kv_GET db now k s = Inr None \<or> kv_GET db t k s \<noteq> Inr None then Inr (Some v) else Inr None))"

text \<open>
  What is relied on: a read is answered (the first conjunct, which is about the connection and not about a
  command), a write that is answered has its effect, and one that is refused has none. Reads that fail are
  branches of the operations above, and are not covered by the statements that assume this.
\<close>

definition redis_documented :: "('s, 'v) redis_kv \<Rightarrow> bool" where
  "redis_documented db \<longleftrightarrow>
     (\<forall>t k s. \<exists>v. kv_GET db t k s = Inr v) \<and>
     (\<forall>now k v m s s'. kv_SET db now k v m s = (None, s') \<longrightarrow> written db now k v m s s') \<and>
     (\<forall>now k v m s e s'. kv_SET db now k v m s = (Some e, s') \<longrightarrow> s' = s) \<and>
     (\<forall>now s0 k v m s s'. kv_EXEC db now s0 k v m s = (None, s') \<longrightarrow>
        kv_GET db now k s0 = kv_GET db now k s \<and> written db now k v m s s') \<and>
     (\<forall>now s0 k v m s e s'. kv_EXEC db now s0 k v m s = (Some e, s') \<longrightarrow> s' = s) \<and>
     (\<forall>now p s ks. kv_SCAN db now p s = (ks, None) \<longrightarrow> set ks = {k. prefix p k \<and> kv_GET db now k s \<noteq> Inr None})"

definition redis_reliable :: "('s, 'v) redis_kv \<Rightarrow> bool" where
  "redis_reliable db \<longleftrightarrow>
     (\<forall>now k v m s. fst (kv_SET db now k v m s) = None) \<and> (\<forall>now k v m s. fst (kv_EXEC db now s k v m s) = None) \<and>
     (\<forall>now p s. snd (kv_SCAN db now p s) = None)"

lemma documentedD:
  assumes "redis_documented db"
  shows GET_total: "\<exists>v. kv_GET db t k s = Inr v"
    and SET_written: "kv_SET db now k v m s = (None, s') \<Longrightarrow> written db now k v m s s'"
    and EXEC_written: "kv_EXEC db now s0 k v m s = (None, s') \<Longrightarrow> kv_GET db now k s0 = kv_GET db now k s \<and> written db now k v m s s'"
    and EXEC_refused: "kv_EXEC db now s0 k v m s = (Some e, s') \<Longrightarrow> s' = s"
    and SCAN_keys: "kv_SCAN db now p s = (ks, None) \<Longrightarrow> set ks = {k. prefix p k \<and> kv_GET db now k s \<noteq> Inr None}"
proof -
  from assms have *: "\<forall>t k s. \<exists>v. kv_GET db t k s = Inr v"
    "\<forall>now k v m s s'. kv_SET db now k v m s = (None, s') \<longrightarrow> written db now k v m s s'"
    "\<forall>now s0 k v m s s'. kv_EXEC db now s0 k v m s = (None, s') \<longrightarrow>
        kv_GET db now k s0 = kv_GET db now k s \<and> written db now k v m s s'"
    "\<forall>now s0 k v m s e s'. kv_EXEC db now s0 k v m s = (Some e, s') \<longrightarrow> s' = s"
    "\<forall>now p s ks. kv_SCAN db now p s = (ks, None) \<longrightarrow> set ks = {k. prefix p k \<and> kv_GET db now k s \<noteq> Inr None}"
    unfolding redis_documented_def by auto
  show "\<exists>v. kv_GET db t k s = Inr v" using *(1) by blast
  show "kv_SET db now k v m s = (None, s') \<Longrightarrow> written db now k v m s s'" using *(2) by blast
  show "kv_EXEC db now s0 k v m s = (None, s') \<Longrightarrow> kv_GET db now k s0 = kv_GET db now k s \<and> written db now k v m s s'" using *(3) by blast
  show "kv_EXEC db now s0 k v m s = (Some e, s') \<Longrightarrow> s' = s" using *(4) by blast
  show "kv_SCAN db now p s = (ks, None) \<Longrightarrow> set ks = {k. prefix p k \<and> kv_GET db now k s \<noteq> Inr None}" using *(5) by blast
qed

lemma SET_succeeds: "redis_documented db \<Longrightarrow> redis_reliable db \<Longrightarrow> \<exists>s'. kv_SET db now k v m s = (None, s') \<and> written db now k v m s s'"
  using SET_written [of db now k v m s "snd (kv_SET db now k v m s)"] by (metis redis_reliable_def prod.collapse)

lemma EXEC_succeeds: "redis_documented db \<Longrightarrow> redis_reliable db \<Longrightarrow> \<exists>s'. kv_EXEC db now s k v m s = (None, s') \<and> written db now k v m s s'"
  using EXEC_written [of db now s k v m s "snd (kv_EXEC db now s k v m s)"] by (metis redis_reliable_def prod.collapse)

lemma list_loop_eq:
  assumes total: "\<And>k. \<exists>v. getk k = Inr v"
  shows "list_loop getk dec what ks =
    Inr (List.map_filter (\<lambda>k. case getk k of Inr (Some v) \<Rightarrow> (case dec v of Inr x \<Rightarrow> Some x | Inl _ \<Rightarrow> None) | _ \<Rightarrow> None) ks)"
proof (induction ks)
  case (Cons k ks)
  obtain v where v: "getk k = Inr v" using total by blast
  show ?case
  proof (cases v)
    case (Some w)
    then show ?thesis using Cons.IH v by (cases "dec w") (simp_all add: List.map_filter_def)
  qed (simp add: Cons.IH v List.map_filter_def)
qed (simp add: List.map_filter_def)

lemma list_loop_set:
  assumes "\<And>k. \<exists>v. getk k = Inr v"
  shows "\<exists>xs. list_loop getk dec what ks = Inr xs \<and> set xs = {x. \<exists>k \<in> set ks. \<exists>v. getk k = Inr (Some v) \<and> dec v = Inr x}"
proof -
  let ?f = "\<lambda>k. case getk k of Inr (Some v) \<Rightarrow> (case dec v of Inr x \<Rightarrow> Some x | Inl _ \<Rightarrow> None) | _ \<Rightarrow> None"
  have f: "?f k = Some x \<longleftrightarrow> (\<exists>v. getk k = Inr (Some v) \<and> dec v = Inr x)" for k x
    by (auto split: sum.splits option.splits)
  have "set (List.map_filter ?f ks) = {x. \<exists>k \<in> set ks. ?f k = Some x}" by (force simp: List.map_filter_def)
  also have "\<dots> = {x. \<exists>k \<in> set ks. \<exists>v. getk k = Inr (Some v) \<and> dec v = Inr x}" unfolding f by (rule refl)
  finally show ?thesis using list_loop_eq [of getk dec what ks, OF assms] by (intro exI conjI)
qed

lemma redis_list_set:
  assumes "redis_documented db" "redis_reliable db"
  shows "\<exists>xs. redis_list db dec what whats pre now s = Inr xs \<and>
    set xs = {x. \<exists>k v. prefix pre k \<and> kv_GET db now k s = Inr (Some v) \<and> dec v = Inr x}"
proof -
  obtain ks where ks: "kv_SCAN db now pre s = (ks, None)" using assms(2) by (metis redis_reliable_def prod.collapse)
  obtain xs where xs: "list_loop (\<lambda>k. kv_GET db now k s) dec what ks = Inr xs"
    "set xs = {x. \<exists>k \<in> set ks. \<exists>v. kv_GET db now k s = Inr (Some v) \<and> dec v = Inr x}"
    using list_loop_set [of "\<lambda>k. kv_GET db now k s" dec what ks, OF GET_total [OF assms(1)]] by (elim exE conjE)
  have "set xs = {x. \<exists>k v. prefix pre k \<and> kv_GET db now k s = Inr (Some v) \<and> dec v = Inr x}"
    using xs(2) SCAN_keys [OF assms(1) ks] by auto
  with ks xs(1) show ?thesis by (simp add: redis_list_def)
qed

section \<open>Records under a family of keys\<close>

text \<open>The keys of a family hold, from a time on, the values of a map until these expire.\<close>

definition represents :: "('a, 'v) codec \<Rightarrow> string + 'v option \<Rightarrow> 'a option \<Rightarrow> bool" where
  "represents c r x = (case x of None \<Rightarrow> r = Inr None | Some y \<Rightarrow> (\<exists>v. r = Inr (Some v) \<and> snd c v = Inr y))"

definition live_at :: "go_time \<Rightarrow> (string \<rightharpoonup> 'a \<times> go_time) \<Rightarrow> string \<Rightarrow> 'a option" where
  "live_at t m i = (case m i of Some (x, e) \<Rightarrow> if t < e then Some x else None | None \<Rightarrow> None)"

definition holds_map :: "('s, 'v) redis_kv \<Rightarrow> ('a, 'v) codec \<Rightarrow> (string \<Rightarrow> string) \<Rightarrow> (string \<rightharpoonup> 'a \<times> go_time) \<Rightarrow> go_time \<Rightarrow> 's \<Rightarrow> bool" where
  "holds_map db c key m now s \<longleftrightarrow> (\<forall>t i. now \<le> t \<longrightarrow> represents c (kv_GET db t (key i) s) (live_at t m i))"

lemma live_at_upd: "live_at t (m(i \<mapsto> (x, e))) j = (if j = i then if t < e then Some x else None else live_at t m j)"
  by (simp add: live_at_def)

lemma represents_simps [simp]:
  "represents c r None \<longleftrightarrow> r = Inr None" "represents c (Inr (Some v)) (Some y) \<longleftrightarrow> snd c v = Inr y" "\<not> represents c (Inr None) (Some y)"
  by (auto simp: represents_def)

lemma holds_live: "holds_map db c key m now s \<Longrightarrow> now \<le> t \<Longrightarrow> represents c (kv_GET db t (key i) s) (live_at t m i)"
  by (simp add: holds_map_def)

lemma holds_later: "holds_map db c key m now s \<Longrightarrow> now \<le> now' \<Longrightarrow> holds_map db c key m now' s"
  by (simp add: holds_map_def)

lemma holds_elsewhere:
  assumes "holds_map db c key m now s" "written db now k v w s s'" "k \<notin> range key"
  shows "holds_map db c key m now s'"
proof -
  have "kv_GET db t (key i) s' = kv_GET db t (key i) s" if "now \<le> t" for t i
    using assms(2,3) that unfolding written_def by (metis rangeI)
  with assms(1) show ?thesis by (simp add: holds_map_def)
qed

lemma holds_TTL:
  assumes "holds_map db c key m now s" "written db now (key i) v (TTL d) s s'" "snd c v = Inr x" "inj key"
  shows "holds_map db c key (m(i \<mapsto> (x, now + d))) now s'"
proof -
  have "kv_GET db t (key j) s' = (if j = i then Inr (if t < now + d then Some v else None) else kv_GET db t (key j) s)" if "now \<le> t" for t j
    using assms(2,4) that by (auto simp: written_def inj_eq)
  with assms(1,3) show ?thesis by (simp add: holds_map_def live_at_upd)
qed

lemma holds_KeepTTL:
  assumes "holds_map db c key m now s" "written db now (key i) v KeepTTL s s'" "snd c v = Inr x" "inj key" "m i = Some (y, e)" "now < e"
  shows "holds_map db c key (m(i \<mapsto> (x, e))) now s'"
proof -
  have alive: "kv_GET db t (key i) s \<noteq> Inr None \<longleftrightarrow> t < e" if "now \<le> t" for t
    using holds_live [OF assms(1) that, of i] assms(5) by (cases "t < e") (auto simp: live_at_def represents_def)
  then have "kv_GET db now (key i) s \<noteq> Inr None" using assms(6) by simp
  then have "kv_GET db t (key j) s' = (if j = i then Inr (if t < e then Some v else None) else kv_GET db t (key j) s)" if "now \<le> t" for t j
    using assms(2,4) alive [OF that] that by (auto simp: written_def inj_eq)
  with assms(1,3) show ?thesis by (simp add: holds_map_def live_at_upd)
qed

lemma keys [simp]:
  "inj node_key" "inj run_key" "node_key i \<notin> range run_key" "run_key i \<notin> range node_key"
  by (auto simp: inj_on_def node_key_def run_key_def)

lemma key_prefix: "prefix ''tartarus:node:'' k \<longleftrightarrow> (\<exists>i. k = node_key i)" "prefix ''tartarus:run:'' k \<longleftrightarrow> (\<exists>i. k = run_key i)"
  by (auto simp: node_key_def run_key_def prefix_def)

section \<open>The registry over time\<close>

text \<open>What the registry should hold: of each node and each run the last state written and when it expires.\<close>

record abs_registry =
  ab_nodes :: "NodeID \<rightharpoonup> NodeStatus \<times> go_time"
  ab_runs :: "SandboxID \<rightharpoonup> SandboxRun \<times> go_time"

datatype registry_op = Heartbeat HeartbeatPayload | Drain NodeID | RecordRun SandboxRun

fun abs_step :: "go_time \<Rightarrow> registry_op \<Rightarrow> abs_registry \<Rightarrow> abs_registry" where
  "abs_step now (Heartbeat p) a = a\<lparr>ab_nodes := (ab_nodes a)(node_ID (status_of_payload p) \<mapsto> (status_of_payload p, now + NodeTTL))\<rparr>"
| "abs_step now (Drain i) a =
     (case ab_nodes a i of
        Some (st, e) \<Rightarrow> if now < e then a\<lparr>ab_nodes := (ab_nodes a)(i \<mapsto> (draining st, e))\<rparr> else a
      | None \<Rightarrow> a)"
| "abs_step now (RecordRun r) a = a\<lparr>ab_runs := (ab_runs a)(run_ID r \<mapsto> (r, now + 24 * hour))\<rparr>"

fun redis_step ::
    "('s, 'v) redis_kv \<Rightarrow> (NodeStatus, 'v) codec \<Rightarrow> (SandboxRun, 'v) codec \<Rightarrow> go_time \<Rightarrow> registry_op \<Rightarrow> 's \<Rightarrow> 's" where
  "redis_step db cn cr now (Heartbeat p) s = snd (Redis_UpdateHeartbeat db cn now p s)"
| "redis_step db cn cr now (Drain i) s = snd (Redis_MarkDraining db cn (\<lambda>x. x) now i s)"
| "redis_step db cn cr now (RecordRun r) s = snd (Redis_UpdateRun db cr now r s)"

definition holds_registry ::
    "('s, 'v) redis_kv \<Rightarrow> (NodeStatus, 'v) codec \<Rightarrow> (SandboxRun, 'v) codec \<Rightarrow> go_time \<Rightarrow> abs_registry \<Rightarrow> 's \<Rightarrow> bool" where
  "holds_registry db cn cr now a s \<longleftrightarrow> holds_map db cn node_key (ab_nodes a) now s \<and> holds_map db cr run_key (ab_runs a) now s"

lemma step_Heartbeat:
  assumes "redis_documented db" "redis_reliable db" "faithful cn" "holds_registry db cn cr now a s"
  shows "holds_registry db cn cr now (abs_step now (Heartbeat p) a) (redis_step db cn cr now (Heartbeat p) s)"
proof -
  let ?st = "status_of_payload p"
  obtain v where v: "fst cn ?st = Inr v" "snd cn v = Inr ?st" using assms(3) unfolding faithful_def by blast
  obtain s' where s': "kv_SET db now (node_key (node_ID ?st)) v (TTL NodeTTL) s = (None, s')"
    "written db now (node_key (node_ID ?st)) v (TTL NodeTTL) s s'"
    using SET_succeeds [OF assms(1,2)] by blast
  have "redis_step db cn cr now (Heartbeat p) s = s'" using v s' by (simp add: Redis_UpdateHeartbeat_def Let_def)
  then show ?thesis
    using assms(4) holds_TTL [where key = node_key and m = "ab_nodes a", OF _ s'(2) v(2)] holds_elsewhere [where key = run_key and c = cr and m = "ab_runs a", OF _ s'(2)] by (simp add: holds_registry_def)
qed

lemma step_RecordRun:
  assumes "redis_documented db" "redis_reliable db" "faithful cr" "holds_registry db cn cr now a s"
  shows "holds_registry db cn cr now (abs_step now (RecordRun r) a) (redis_step db cn cr now (RecordRun r) s)"
proof -
  obtain v where v: "fst cr r = Inr v" "snd cr v = Inr r" using assms(3) unfolding faithful_def by blast
  obtain s' where s': "kv_SET db now (run_key (run_ID r)) v (TTL (24 * hour)) s = (None, s')"
    "written db now (run_key (run_ID r)) v (TTL (24 * hour)) s s'"
    using SET_succeeds [OF assms(1,2)] by blast
  have "redis_step db cn cr now (RecordRun r) s = s'" using v s' by (simp add: Redis_UpdateRun_def)
  then show ?thesis
    using assms(4) holds_TTL [where key = run_key and m = "ab_runs a", OF _ s'(2) v(2)] holds_elsewhere [where key = node_key and c = cn and m = "ab_nodes a", OF _ s'(2)] by (simp add: holds_registry_def)
qed

lemma step_Drain:
  assumes "redis_documented db" "redis_reliable db" "faithful cn" "holds_registry db cn cr now a s"
  shows "holds_registry db cn cr now (abs_step now (Drain i) a) (redis_step db cn cr now (Drain i) s)"
proof (cases "live_at now (ab_nodes a) i")
  case None
  then have "kv_GET db now (node_key i) s = Inr None"
    using assms(4) holds_live [of db cn node_key "ab_nodes a" now s now i] by (simp add: holds_registry_def)
  then have "redis_step db cn cr now (Drain i) s = s" by (simp add: Redis_MarkDraining_def)
  moreover have "abs_step now (Drain i) a = a" using None by (auto simp: live_at_def split: option.splits if_splits)
  ultimately show ?thesis using assms(4) by simp
next
  case (Some st)
  then obtain e where e: "ab_nodes a i = Some (st, e)" "now < e" by (auto simp: live_at_def split: option.splits if_splits)
  obtain v where v: "kv_GET db now (node_key i) s = Inr (Some v)" "snd cn v = Inr st"
    using assms(4) holds_live [of db cn node_key "ab_nodes a" now s now i] Some by (auto simp: holds_registry_def represents_def)
  obtain w where w: "fst cn (draining st) = Inr w" "snd cn w = Inr (draining st)" using assms(3) unfolding faithful_def by blast
  obtain s' where s': "kv_EXEC db now s (node_key i) w KeepTTL s = (None, s')" "written db now (node_key i) w KeepTTL s s'"
    using EXEC_succeeds [OF assms(1,2)] by blast
  have "redis_step db cn cr now (Drain i) s = s'" using v w s' by (simp add: Redis_MarkDraining_def)
  then show ?thesis
    using assms(4) e holds_KeepTTL [where key = node_key and m = "ab_nodes a", OF _ s'(2) w(2) _ e] holds_elsewhere [where key = run_key and c = cr and m = "ab_runs a", OF _ s'(2)] by (simp add: holds_registry_def)
qed

text \<open>A history is a list of operations with their times.\<close>

definition redis_history where
  "redis_history db cn cr ops s = fold (\<lambda>(t, x). redis_step db cn cr t x) ops s"

definition abs_history :: "(go_time \<times> registry_op) list \<Rightarrow> abs_registry" where
  "abs_history ops = fold (\<lambda>(t, x). abs_step t x) ops \<lparr>ab_nodes = Map.empty, ab_runs = Map.empty\<rparr>"

lemma holds_registry_later: "holds_registry db cn cr now a s \<Longrightarrow> now \<le> now' \<Longrightarrow> holds_registry db cn cr now' a s"
  by (auto simp: holds_registry_def intro: holds_later)

lemma history_holds:
  assumes "redis_documented db" "redis_reliable db" "faithful cn" "faithful cr"
    and "sorted (map fst ops)" "\<forall>t \<in> set (map fst ops). start \<le> t \<and> t \<le> now" "start \<le> now" "holds_registry db cn cr start a s"
  shows "holds_registry db cn cr now (fold (\<lambda>(t, x). abs_step t x) ops a) (redis_history db cn cr ops s)"
  using assms(5-8)
proof (induction ops arbitrary: start a s)
  case Nil
  then show ?case using holds_registry_later by (simp add: redis_history_def)
next
  case (Cons tx ops)
  obtain t x where tx: "tx = (t, x)" by (cases tx)
  have "holds_registry db cn cr t a s" using holds_registry_later [OF Cons.prems(4), of t] Cons.prems(2) tx by simp
  then have "holds_registry db cn cr t (abs_step t x a) (redis_step db cn cr t x s)"
    using step_Heartbeat [OF assms(1,2,3)] step_RecordRun [OF assms(1,2,4)] step_Drain [OF assms(1,2,3)] by (cases x) blast+
  then show ?case using Cons.IH [of t] Cons.prems tx by (simp add: redis_history_def)
qed

text \<open>
  C32: The registry on Redis shows the history. After any sequence of heartbeats, drain marks and run
  updates on a reliable server without keys of the registry, every later lookup gives what the last
  operation wrote until it expires, 30 seconds after the heartbeat or 24 hours after the update of the run,
  and an answer that it is not there afterwards; the lists have exactly the nodes and runs the lookups find.\<close>

theorem redis_registry_exact:
  assumes "redis_documented db" "redis_reliable db" "faithful cn" "faithful cr"
    and "sorted (map fst ops)" "\<forall>t \<in> set (map fst ops). start \<le> t \<and> t \<le> now" "start \<le> now"
    and "\<forall>t i. kv_GET db t (node_key i) s = Inr None \<and> kv_GET db t (run_key i) s = Inr None"
  shows "(\<forall>i. Redis_GetNode db cn now i (redis_history db cn cr ops s) =
        (case live_at now (ab_nodes (abs_history ops)) i of Some st \<Rightarrow> Inr st | None \<Rightarrow> Inl (HadesErr ErrNodeNotFound))) \<and>
    (\<forall>i. Redis_GetRun db cr now i (redis_history db cn cr ops s) =
        (case live_at now (ab_runs (abs_history ops)) i of Some r \<Rightarrow> Inr r | None \<Rightarrow> Inl (HadesErr ErrRunNotFound))) \<and>
    (\<exists>nodes runs. Redis_ListNodes db cn now (redis_history db cn cr ops s) = Inr nodes \<and>
        set nodes = {st. \<exists>i. live_at now (ab_nodes (abs_history ops)) i = Some st} \<and>
        Redis_ListRuns db cr now (redis_history db cn cr ops s) = Inr runs \<and>
        set runs = {r. \<exists>i. live_at now (ab_runs (abs_history ops)) i = Some r})"
proof -
  let ?s = "redis_history db cn cr ops s" and ?a = "abs_history ops"
  have "holds_registry db cn cr start \<lparr>ab_nodes = Map.empty, ab_runs = Map.empty\<rparr> s"
    using assms(8) by (simp add: holds_registry_def holds_map_def live_at_def)
  from history_holds [OF assms(1-7) this] have "holds_registry db cn cr now ?a ?s" by (simp add: abs_history_def)
  then have n: "represents cn (kv_GET db now (node_key i) ?s) (live_at now (ab_nodes ?a) i)"
    and r: "represents cr (kv_GET db now (run_key i) ?s) (live_at now (ab_runs ?a) i)" for i
    by (auto simp: holds_registry_def intro: holds_live)
  have iff: "(\<exists>v. kv_GET db now (node_key i) ?s = Inr (Some v) \<and> snd cn v = Inr x) \<longleftrightarrow> live_at now (ab_nodes ?a) i = Some x"
    "(\<exists>v. kv_GET db now (run_key i) ?s = Inr (Some v) \<and> snd cr v = Inr y) \<longleftrightarrow> live_at now (ab_runs ?a) i = Some y" for i x y
    using n [of i] r [of i] by (auto simp: represents_def split: option.splits)
  have sets: "{x. \<exists>k v. prefix ''tartarus:node:'' k \<and> kv_GET db now k ?s = Inr (Some v) \<and> snd cn v = Inr x} = {st. \<exists>i. live_at now (ab_nodes ?a) i = Some st}"
    "{x. \<exists>k v. prefix ''tartarus:run:'' k \<and> kv_GET db now k ?s = Inr (Some v) \<and> snd cr v = Inr x} = {r. \<exists>i. live_at now (ab_runs ?a) i = Some r}"
    unfolding iff [symmetric] key_prefix by blast+
  obtain nodes where "Redis_ListNodes db cn now ?s = Inr nodes" "set nodes = {st. \<exists>i. live_at now (ab_nodes ?a) i = Some st}"
    using redis_list_set [OF assms(1,2), of "snd cn" "''node''" "''nodes''" "''tartarus:node:''" now ?s]
    unfolding Redis_ListNodes_def sets by (elim exE conjE)
  moreover obtain runs where "Redis_ListRuns db cr now ?s = Inr runs" "set runs = {x. \<exists>i. live_at now (ab_runs ?a) i = Some x}"
    using redis_list_set [OF assms(1,2), of "snd cr" "''run''" "''runs''" "''tartarus:run:''" now ?s]
    unfolding Redis_ListRuns_def sets by (elim exE conjE)
  moreover have "Redis_GetNode db cn now i ?s =
        (case live_at now (ab_nodes ?a) i of Some st \<Rightarrow> Inr st | None \<Rightarrow> Inl (HadesErr ErrNodeNotFound))"
    "Redis_GetRun db cr now i ?s = (case live_at now (ab_runs ?a) i of Some x \<Rightarrow> Inr x | None \<Rightarrow> Inl (HadesErr ErrRunNotFound))" for i
    using n [of i] r [of i] by (auto simp: Redis_GetNode_def Redis_GetRun_def represents_def split: option.splits)
  ultimately show ?thesis by blast
qed

text \<open>A server that behaves as documented: values with the time they expire. Texts are the values themselves.\<close>

type_synonym 'v ref_store = "(string, 'v \<times> go_time option) gomap"

definition ref_get :: "go_time \<Rightarrow> string \<Rightarrow> 'v ref_store \<Rightarrow> 'v option" where
  "ref_get t k s = (case get s k of None \<Rightarrow> None | Some (v, None) \<Rightarrow> Some v | Some (v, Some e) \<Rightarrow> if t < e then Some v else None)"

definition ref_put :: "go_time \<Rightarrow> string \<Rightarrow> 'v \<Rightarrow> ttl \<Rightarrow> 'v ref_store \<Rightarrow> 'v ref_store" where
  "ref_put now k v m s =
     put s k (v, case m of NoTTL \<Rightarrow> None | TTL d \<Rightarrow> Some (now + d)
                 | KeepTTL \<Rightarrow> (case get s k of Some (_, e) \<Rightarrow> if ref_get now k s = None then None else e | None \<Rightarrow> None))"

definition ref_redis :: "('v ref_store, 'v) redis_kv" where
  "ref_redis = \<lparr>kv_GET = (\<lambda>t k s. Inr (ref_get t k s)), kv_SET = (\<lambda>now k v m s. (None, ref_put now k v m s)),
     kv_SCAN = (\<lambda>now p s. (filter (\<lambda>k. prefix p k \<and> ref_get now k s \<noteq> None) (map fst s), None)),
     kv_EXEC = (\<lambda>now s0 k v m s. if ref_get now k s0 = ref_get now k s then (None, ref_put now k v m s) else (Some TxFailedErr, s))\<rparr>"

lemma ref_redis_simps [simp]:
  "kv_GET ref_redis t k s = Inr (ref_get t k s)" "kv_SET ref_redis now k v m s = (None, ref_put now k v m s)"
  "kv_SCAN ref_redis now p s = (filter (\<lambda>k. prefix p k \<and> ref_get now k s \<noteq> None) (map fst s), None)"
  "kv_EXEC ref_redis now s0 k v m s = (if ref_get now k s0 = ref_get now k s then (None, ref_put now k v m s) else (Some TxFailedErr, s))"
  by (simp_all add: ref_redis_def)

lemma ref_written: "written ref_redis now k v m s (ref_put now k v m s)"
  unfolding written_def
proof (intro allI impI)
  fix t k' assume t: "now \<le> t"
  show "kv_GET ref_redis t k' (ref_put now k v m s) =
        (if k' \<noteq> k then kv_GET ref_redis t k' s
         else case m of
                NoTTL \<Rightarrow> Inr (Some v)
              | TTL d \<Rightarrow> Inr (if t < now + d then Some v else None)
              | KeepTTL \<Rightarrow> if kv_GET ref_redis now k s = Inr None \<or> kv_GET ref_redis t k s \<noteq> Inr None then Inr (Some v) else Inr None)"
    using t by (cases m) (auto simp: ref_put_def ref_get_def split: option.splits if_splits)
qed

lemma ref_documented: "redis_documented ref_redis"
  unfolding redis_documented_def
proof (intro conjI allI impI)
  fix now p ks and s :: "'a ref_store"
  assume "kv_SCAN ref_redis now p s = (ks, None)"
  then have "set ks = {k \<in> fst ` set s. prefix p k \<and> ref_get now k s \<noteq> None}" by force
  moreover have "ref_get now k s \<noteq> None \<Longrightarrow> k \<in> fst ` set s" for k
    using in_keys [of k s] by (cases "get s k") (auto simp: ref_get_def keys_def)
  ultimately show "set ks = {k. prefix p k \<and> kv_GET ref_redis now k s \<noteq> Inr None}" by auto
qed (auto simp: ref_written split: if_splits)

lemma ref_reliable: "redis_reliable ref_redis"
  by (simp add: redis_reliable_def)

definition node_codec :: "(NodeStatus, NodeStatus + SandboxRun) codec" where
  "node_codec = (\<lambda>st. Inr (Inl st), \<lambda>v. case v of Inl st \<Rightarrow> Inr st | Inr _ \<Rightarrow> Inl ''node'')"

definition run_codec :: "(SandboxRun, NodeStatus + SandboxRun) codec" where
  "run_codec = (\<lambda>r. Inr (Inr r), \<lambda>v. case v of Inr r \<Rightarrow> Inr r | Inl _ \<Rightarrow> Inl ''run'')"

lemma codecs_faithful [simp]: "faithful node_codec" "faithful run_codec" "faithful (Inr, Inr)"
  by (auto simp: faithful_def node_codec_def run_codec_def)

theorem redis_registry_exact_witness:
  "\<exists>st. Redis_GetNode ref_redis node_codec (29 * second) ''n1'' (redis_history ref_redis node_codec run_codec [(0, Heartbeat (demo_heartbeat 0)), (5, Drain ''n1'')] []) = Inr st \<and>
     get (node_Labels st) ''status'' = Some ''draining'' \<and>
     Redis_GetNode ref_redis node_codec (31 * second) ''n1'' (redis_history ref_redis node_codec run_codec [(0, Heartbeat (demo_heartbeat 0)), (5, Drain ''n1'')] []) = Inl (HadesErr ErrNodeNotFound)"
proof -
  let ?ops = "[(0, Heartbeat (demo_heartbeat 0)), (5, Drain ''n1'')] :: (go_time \<times> registry_op) list"
  have none: "\<forall>t i. kv_GET ref_redis t (node_key i) [] = Inr None \<and> kv_GET ref_redis t (run_key i) [] = Inr None"
    by (simp add: ref_get_def)
  have "Redis_GetNode ref_redis node_codec now ''n1'' (redis_history ref_redis node_codec run_codec ?ops []) =
      (case live_at now (ab_nodes (abs_history ?ops)) ''n1'' of Some st \<Rightarrow> Inr st | None \<Rightarrow> Inl (HadesErr ErrNodeNotFound))" if "5 \<le> now" for now
  proof -
    have "sorted (map fst ?ops)" "\<forall>t \<in> set (map fst ?ops). 0 \<le> t \<and> t \<le> now" "(0 :: int) \<le> now" using that by simp_all
    from redis_registry_exact [OF ref_documented ref_reliable codecs_faithful(1,2) this none] show ?thesis by blast
  qed
  moreover have "live_at now (ab_nodes (abs_history ?ops)) ''n1'' = (if now < 30 * second then Some (draining (status_of_payload (demo_heartbeat 0))) else None)" for now
    by (simp add: abs_history_def live_at_def demo_heartbeat_def demo_info_def status_of_payload_def NodeInfo.defs NodeTTL_def)
  ultimately show ?thesis by (simp add: draining_def)
qed

text \<open>A run that is not updated for a day is forgotten, though its sandbox may still run.\<close>

lemma run_expires:
  assumes "redis_documented db" "faithful c" "Redis_UpdateRun db c now run s = (None, s')" "now + 24 * hour \<le> t"
  shows "Redis_GetRun db c t (run_ID run) s' = Inl (HadesErr ErrRunNotFound)"
proof -
  obtain v where v: "fst c run = Inr v" using assms(2) unfolding faithful_def by blast
  then have "kv_SET db now (run_key (run_ID run)) v (TTL (24 * hour)) s = (None, s')"
    using assms(3) by (auto simp: Redis_UpdateRun_def split: prod.splits option.splits)
  from SET_written [OF assms(1) this] have "kv_GET db t (run_key (run_ID run)) s' = Inr None"
    using assms(4) by (simp add: written_def)
  then show ?thesis by (simp add: Redis_GetRun_def)
qed

section \<open>The contracts of the registry and of the repository\<close>

text \<open>At any moment the runs on a reliable Redis are a store of runs, like those in memory.\<close>

type_synonym ('s, 'v, 'a) at_redis = "('s, 'v) redis_kv \<times> ('a, 'v) codec \<times> go_time \<times> 's"

definition rg_update :: "('s, 'v, SandboxRun) at_redis \<Rightarrow> SandboxRun \<Rightarrow> ('s, 'v, SandboxRun) at_redis" where
  "rg_update q run = (case q of (db, c, now, s) \<Rightarrow> (db, c, now, snd (Redis_UpdateRun db c now run s)))"

definition rg_get :: "('s, 'v, SandboxRun) at_redis \<Rightarrow> SandboxID \<Rightarrow> hades_error + SandboxRun" where
  "rg_get q i = (case q of (db, c, now, s) \<Rightarrow> (case Redis_GetRun db c now i s of Inr run \<Rightarrow> Inr run | Inl _ \<Rightarrow> Inl ErrRunNotFound))"

definition rg_list :: "('s, 'v, SandboxRun) at_redis \<Rightarrow> SandboxRun list" where
  "rg_list q = (case q of (db, c, now, s) \<Rightarrow> (case Redis_ListRuns db c now s of Inr runs \<Rightarrow> runs | Inl _ \<Rightarrow> []))"

definition rg_ok :: "('s, 'v, SandboxRun) at_redis \<Rightarrow> bool" where
  "rg_ok q \<longleftrightarrow> (case q of (db, c, now, s) \<Rightarrow> redis_documented db \<and> redis_reliable db \<and> faithful c \<and>
     (\<forall>i v. kv_GET db now (run_key i) s = Inr (Some v) \<longrightarrow> (\<exists>run. snd c v = Inr run \<and> run_ID run = i)))"

lemma rg_update_GET:
  assumes "rg_ok (db, c, now, s)"
  shows "\<exists>v. snd c v = Inr run \<and>
    (\<forall>k. kv_GET db now k (snd (Redis_UpdateRun db c now run s)) = (if k = run_key (run_ID run) then Inr (Some v) else kv_GET db now k s))"
proof -
  obtain v where v: "fst c run = Inr v" "snd c v = Inr run" using assms faithfulE [of c run] by (auto simp: rg_ok_def)
  obtain s' where s': "kv_SET db now (run_key (run_ID run)) v (TTL (24 * hour)) s = (None, s')"
    "written db now (run_key (run_ID run)) v (TTL (24 * hour)) s s'"
    using SET_succeeds [of db now "run_key (run_ID run)" v "TTL (24 * hour)" s] assms unfolding rg_ok_def prod.case by blast
  then have "snd (Redis_UpdateRun db c now run s) = s'" using v by (simp add: Redis_UpdateRun_def)
  with s'(2) v(2) show ?thesis by (intro exI [of _ v]) (simp add: written_def)
qed

lemma rg_list_iff:
  assumes "rg_ok (db, c, now, s)"
  shows "run \<in> set (rg_list (db, c, now, s)) \<longleftrightarrow> rg_get (db, c, now, s) (run_ID run) = Inr run"
proof -
  obtain xs where xs: "Redis_ListRuns db c now s = Inr xs"
    "set xs = {x. \<exists>k v. prefix ''tartarus:run:'' k \<and> kv_GET db now k s = Inr (Some v) \<and> snd c v = Inr x}"
    using redis_list_set [of db "snd c" "''run''" "''runs''" "''tartarus:run:''" now s] assms unfolding Redis_ListRuns_def rg_ok_def by auto
  have "run \<in> set xs \<longleftrightarrow> (\<exists>v. kv_GET db now (run_key (run_ID run)) s = Inr (Some v) \<and> snd c v = Inr run)"
    unfolding xs(2) key_prefix using assms by (fastforce simp: rg_ok_def)
  moreover have "rg_get (db, c, now, s) (run_ID run) = Inr run \<longleftrightarrow> (\<exists>v. kv_GET db now (run_key (run_ID run)) s = Inr (Some v) \<and> snd c v = Inr run)"
    by (auto simp: rg_get_def Redis_GetRun_def split: sum.splits option.splits)
  ultimately show ?thesis using xs(1) by (simp add: rg_list_def)
qed

interpretation redis_runs: run_store rg_update rg_get rg_list rg_ok
proof
  fix q :: "('s, 'v, SandboxRun) at_redis" and run i
  assume ok: "rg_ok q"
  obtain db c now s where q: "q = (db, c, now, s)" by (cases q)
  obtain v where v: "snd c v = Inr run"
    "\<forall>k. kv_GET db now k (snd (Redis_UpdateRun db c now run s)) = (if k = run_key (run_ID run) then Inr (Some v) else kv_GET db now k s)"
    using rg_update_GET [OF ok [unfolded q], of run] by (elim exE conjE)
  have key: "run_key i = run_key j \<longleftrightarrow> i = j" for i j by (simp add: run_key_def)
  show "rg_get (rg_update q run) i = (if i = run_ID run then Inr run else rg_get q i)"
    using v by (simp add: q rg_get_def rg_update_def Redis_GetRun_def key)
  show "rg_ok (rg_update q run)" using ok v by (auto simp: q rg_ok_def rg_update_def key)
  show "run \<in> set (rg_list q) \<longleftrightarrow> rg_get q (run_ID run) = Inr run"
    unfolding q by (rule rg_list_iff) (use ok q in simp)
qed

text \<open>Without interference the policies on a reliable Redis are a versioned store.\<close>

definition rp_version :: "('s, 'v, SandboxPolicy) at_redis \<Rightarrow> TemplateID \<Rightarrow> int" where
  "rp_version q t = (case q of (db, c, now, s) \<Rightarrow>
     (case kv_GET db now (policy_key t) s of Inr v \<Rightarrow> (case stored_version c v of Inr n \<Rightarrow> n | Inl _ \<Rightarrow> 0) | Inl _ \<Rightarrow> 0))"

definition rp_upsert :: "('s, 'v, SandboxPolicy) at_redis \<Rightarrow> SandboxPolicy \<Rightarrow> bool \<times> ('s, 'v, SandboxPolicy) at_redis" where
  "rp_upsert q p = (case q of (db, c, now, s) \<Rightarrow>
     (case Redis_UpsertPolicy db c (\<lambda>x. x) now p s of (err, _, s') \<Rightarrow> (err = None, db, c, now, s')))"

definition rp_ok :: "('s, 'v, SandboxPolicy) at_redis \<Rightarrow> bool" where
  "rp_ok q \<longleftrightarrow> (case q of (db, c, now, s) \<Rightarrow> redis_documented db \<and> redis_reliable db \<and> faithful c \<and>
     (\<forall>t v. kv_GET db now (policy_key t) s = Inr (Some v) \<longrightarrow> (\<exists>p. snd c v = Inr p)))"

lemma policy_key_inj [simp]: "policy_key t = policy_key t' \<longleftrightarrow> t = t'"
  by (simp add: policy_key_def)

lemma rp_stored:
  assumes "rp_ok (db, c, now, s)"
  obtains v where "kv_GET db now (policy_key t) s = Inr v" "stored_version c v = Inr (rp_version (db, c, now, s) t)"
proof -
  obtain v where v: "kv_GET db now (policy_key t) s = Inr v"
    using GET_total [of db now "policy_key t" s] assms by (auto simp: rp_ok_def)
  obtain n where "stored_version c v = Inr n"
  proof (cases v)
    case (Some w)
    then obtain p where "snd c w = Inr p" using assms v by (auto simp: rp_ok_def)
    with Some show ?thesis using that by (simp add: stored_version_def)
  qed (use that in \<open>simp add: stored_version_def\<close>)
  with v that show ?thesis by (simp add: rp_version_def)
qed

lemma rp_upsert_accepted:
  assumes "rp_ok (db, c, now, s)" "pol_Version p = rp_version (db, c, now, s) (pol_TemplateID p)"
  obtains v s' where "snd c v = Inr (p\<lparr>pol_Version := wrap64 (pol_Version p + 1)\<rparr>)" "rp_upsert (db, c, now, s) p = (True, db, c, now, s')"
    "\<And>k. kv_GET db now k s' = (if k = policy_key (pol_TemplateID p) then Inr (Some v) else kv_GET db now k s)"
proof -
  let ?p = "p\<lparr>pol_Version := wrap64 (pol_Version p + 1)\<rparr>"
  obtain v where v: "fst c ?p = Inr v" "snd c v = Inr ?p" using assms(1) faithfulE [of c ?p] by (auto simp: rp_ok_def)
  obtain u where u: "kv_GET db now (policy_key (pol_TemplateID p)) s = Inr u" "stored_version c u = Inr (pol_Version p)"
    using rp_stored [OF assms(1), of "pol_TemplateID p"] assms(2) by metis
  obtain s' where s': "kv_EXEC db now s (policy_key (pol_TemplateID p)) v NoTTL s = (None, s')"
    "written db now (policy_key (pol_TemplateID p)) v NoTTL s s'"
    using EXEC_succeeds [of db now s "policy_key (pol_TemplateID p)" v NoTTL] assms(1) unfolding rp_ok_def prod.case by blast
  have "rp_upsert (db, c, now, s) p = (True, db, c, now, s')" using u v s'(1) by (simp add: rp_upsert_def Redis_UpsertPolicy_def Let_def)
  then show ?thesis using v(2) s'(2) that [of v s'] by (simp add: written_def)
qed

lemma rp_upsert_refused:
  assumes "rp_ok (db, c, now, s)" "pol_Version p \<noteq> rp_version (db, c, now, s) (pol_TemplateID p)"
  shows "rp_upsert (db, c, now, s) p = (False, db, c, now, s)"
proof -
  obtain u where "kv_GET db now (policy_key (pol_TemplateID p)) s = Inr u" "stored_version c u = Inr (rp_version (db, c, now, s) (pol_TemplateID p))"
    using rp_stored [OF assms(1), of "pol_TemplateID p"] by metis
  then show ?thesis using assms(2) by (simp add: rp_upsert_def Redis_UpsertPolicy_def)
qed

interpretation redis_policies: versioned_store rp_ok rp_version pol_TemplateID pol_Version rp_upsert
proof
  fix q :: "('s, 'v, SandboxPolicy) at_redis" and p k
  assume ok: "rp_ok q"
  obtain db c now s where q: "q = (db, c, now, s)" by (cases q)
  note ref = rp_upsert_refused [OF ok [unfolded q], of p]
  have acc: "\<exists>v s'. snd c v = Inr (p\<lparr>pol_Version := wrap64 (pol_Version p + 1)\<rparr>) \<and> rp_upsert q p = (True, db, c, now, s') \<and>
      (\<forall>k. kv_GET db now k s' = (if k = policy_key (pol_TemplateID p) then Inr (Some v) else kv_GET db now k s))"
    if "pol_Version p = rp_version q (pol_TemplateID p)"
    unfolding q by (rule rp_upsert_accepted [OF ok [unfolded q] that [unfolded q]]) blast
  show iff: "fst (rp_upsert q p) \<longleftrightarrow> pol_Version p = rp_version q (pol_TemplateID p)"
    using acc ref unfolding q by (cases "pol_Version p = rp_version (db, c, now, s) (pol_TemplateID p)") auto
  show "\<not> fst (rp_upsert q p) \<Longrightarrow> rp_version (snd (rp_upsert q p)) k = rp_version q k"
    using ref iff unfolding q by simp
  show "rp_version (snd (rp_upsert q p)) k = rp_version q k + (if k = pol_TemplateID p then 1 else 0)"
    if "fst (rp_upsert q p)" "in_int64 (rp_version q (pol_TemplateID p) + 1)"
  proof -
    have eq: "pol_Version p = rp_version q (pol_TemplateID p)" using iff that(1) by simp
    from acc [OF eq] obtain v s' where "snd c v = Inr (p\<lparr>pol_Version := wrap64 (pol_Version p + 1)\<rparr>)" "rp_upsert q p = (True, db, c, now, s')"
      "\<And>k. kv_GET db now k s' = (if k = policy_key (pol_TemplateID p) then Inr (Some v) else kv_GET db now k s)" by blast
    then show ?thesis using eq that(2) by (simp add: q rp_version_def stored_version_def wrap64_id)
  qed
  show "rp_ok (snd (rp_upsert q p))"
  proof (cases "pol_Version p = rp_version q (pol_TemplateID p)")
    case True
    from acc [OF this] obtain v s' where "snd c v = Inr (p\<lparr>pol_Version := wrap64 (pol_Version p + 1)\<rparr>)" "rp_upsert q p = (True, db, c, now, s')"
      "\<And>k. kv_GET db now k s' = (if k = policy_key (pol_TemplateID p) then Inr (Some v) else kv_GET db now k s)" by blast
    then show ?thesis using ok by (auto simp: q rp_ok_def)
  next
    case False
    then show ?thesis using ref ok unfolding q by simp
  qed
qed

section \<open>Policies under concurrent writers\<close>

lemma upsert_success:
  assumes "redis_documented db" "faithful c" "Redis_UpsertPolicy db c other now p s = (None, p', s')"
  shows "\<exists>v data. kv_GET db now (policy_key (pol_TemplateID p)) (other s) = Inr v \<and> stored_version c v = Inr (pol_Version p) \<and>
    p' = p\<lparr>pol_Version := wrap64 (pol_Version p + 1)\<rparr> \<and> snd c data = Inr p' \<and>
    written db now (policy_key (pol_TemplateID p)) data NoTTL (other s) s'"
proof -
  let ?k = "policy_key (pol_TemplateID p)" and ?p = "p\<lparr>pol_Version := wrap64 (pol_Version p + 1)\<rparr>"
  obtain v where v: "kv_GET db now ?k s = Inr v" using GET_total [OF assms(1), of now ?k s] by blast
  obtain data where data: "fst c ?p = Inr data" "snd c data = Inr ?p" by (rule faithfulE [OF assms(2)])
  have ver: "stored_version c v = Inr (pol_Version p)"
    using assms(3) v by (auto simp: Redis_UpsertPolicy_def split: sum.splits if_splits)
  obtain e s1 where x: "kv_EXEC db now s ?k data NoTTL (other s) = (e, s1)" by fastforce
  have "e = None \<and> p' = ?p \<and> s' = s1"
    using assms(3) v ver data(1) x by (auto simp: Redis_UpsertPolicy_def Let_def split: option.splits)
  with EXEC_written [OF assms(1), of now s ?k data NoTTL "other s" s1] x
  have "kv_GET db now ?k s = kv_GET db now ?k (other s)" "written db now ?k data NoTTL (other s) s'" "p' = ?p" by auto
  with v ver data(2) show ?thesis by (intro exI [of _ v] exI [of _ data]) simp
qed

lemma upsert_failure:
  assumes "redis_documented db" "Redis_UpsertPolicy db c other now p s = (Some err, p', s')"
  shows "s' = s \<or> s' = other s"
  using assms(2) EXEC_refused [OF assms(1), of now s]
  by (auto simp: Redis_UpsertPolicy_def Let_def split: sum.splits if_splits prod.splits option.splits)

text \<open>
  An upsert that succeeds replaces exactly the version its caller saw, whatever other clients did
  between its reading and its transaction: at the moment of the writing the stored version was that of
  the caller's policy, the policy is then stored with the next version, and no other key has changed. An
  upsert that fails stores nothing.\<close>

theorem redis_upsert_exclusive:
  assumes "redis_documented db" "faithful c" "Redis_UpsertPolicy db c other now p s = (err, p', s')"
  shows "(err = None \<longrightarrow>
      (\<exists>v. kv_GET db now (policy_key (pol_TemplateID p)) (other s) = Inr v \<and> stored_version c v = Inr (pol_Version p)) \<and>
      p' = p\<lparr>pol_Version := wrap64 (pol_Version p + 1)\<rparr> \<and> Redis_GetPolicy db c now (pol_TemplateID p) s' = Inr p' \<and>
      (\<forall>t k. now \<le> t \<and> k \<noteq> policy_key (pol_TemplateID p) \<longrightarrow> kv_GET db t k s' = kv_GET db t k (other s))) \<and>
    (err \<noteq> None \<longrightarrow> s' = s \<or> s' = other s)"
proof (cases err)
  case None
  from upsert_success [OF assms(1,2) assms(3) [unfolded None]] obtain v data where
    "kv_GET db now (policy_key (pol_TemplateID p)) (other s) = Inr v" "stored_version c v = Inr (pol_Version p)"
    "p' = p\<lparr>pol_Version := wrap64 (pol_Version p + 1)\<rparr>" "snd c data = Inr p'"
    "written db now (policy_key (pol_TemplateID p)) data NoTTL (other s) s'" by (elim exE conjE)
  with None show ?thesis by (simp add: written_def Redis_GetPolicy_def)
next
  case (Some e)
  then show ?thesis using upsert_failure [OF assms(1)] assms(3) by simp
qed

definition demo_redis_policy :: SandboxPolicy where
  "demo_redis_policy = (lockdown_policy ''py'')\<lparr>pol_ID := ''mine''\<rparr>"

theorem redis_upsert_exclusive_witness:
  "fst (Redis_UpsertPolicy ref_redis (Inr, Inr) (\<lambda>s. s) 5 demo_redis_policy []) = None \<and>
   Redis_GetPolicy ref_redis (Inr, Inr) 5 ''py'' (snd (snd (Redis_UpsertPolicy ref_redis (Inr, Inr) (\<lambda>s. s) 5 demo_redis_policy []))) =
     Inr (demo_redis_policy\<lparr>pol_Version := wrap64 1\<rparr>)"
proof -
  let ?r = "Redis_UpsertPolicy ref_redis (Inr, Inr) (\<lambda>s. s) 5 demo_redis_policy []"
  have eq: "?r = (fst ?r, fst (snd ?r), snd (snd ?r))" by simp
  have none: "fst ?r = None"
    by (simp add: Redis_UpsertPolicy_def demo_redis_policy_def lockdown_policy_def stored_version_def ref_get_def Let_def)
  from redis_upsert_exclusive [OF ref_documented codecs_faithful(3) eq, THEN conjunct1, rule_format, OF none] none
  show ?thesis by (simp add: demo_redis_policy_def lockdown_policy_def)
qed

text \<open>
  The version in the caller's object is advanced before the transaction. So a caller whose transaction
  failed because of one concurrent upsert, and who tries again with the same object, has the version the other
  writer stored: the second attempt succeeds and the other's update is lost.\<close>

theorem retried_upsert_loses_update:
  assumes "rp_ok (db, c, now, s)" "pol_TemplateID q = pol_TemplateID p" "pol_Version q = pol_Version p"
    and "Redis_UpsertPolicy db c (\<lambda>x. x) now q s = (None, q', s1)"
    and "Redis_UpsertPolicy db c (\<lambda>_. s1) now p s = (Some (LockFailed e), p', s1)"
  shows "\<exists>p'' s2. Redis_UpsertPolicy db c (\<lambda>x. x) now p' s1 = (None, p'', s2) \<and>
    Redis_GetPolicy db c now (pol_TemplateID p) s2 = Inr p'' \<and> pol_ID p'' = pol_ID p"
proof -
  have base: "redis_documented db" "faithful c" using assms(1) by (simp_all add: rp_ok_def)
  obtain data where q': "q' = q\<lparr>pol_Version := wrap64 (pol_Version q + 1)\<rparr>" "snd c data = Inr q'"
      "written db now (policy_key (pol_TemplateID q)) data NoTTL s s1"
    using upsert_success [OF base assms(4)] by (elim exE conjE)
  have p': "p' = p\<lparr>pol_Version := wrap64 (pol_Version p + 1)\<rparr>"
    using assms(5) by (auto simp: Redis_UpsertPolicy_def Let_def split: sum.splits if_splits prod.splits option.splits)
  have ok1: "rp_ok (db, c, now, s1)"
    using redis_policies.invar_wr [OF assms(1), of q] assms(4) by (simp add: rp_upsert_def)
  have "rp_version (db, c, now, s1) (pol_TemplateID p') = pol_Version p'"
    using q' assms(2,3) p' by (simp add: rp_version_def stored_version_def written_def)
  then have "fst (rp_upsert (db, c, now, s1) p')" using redis_policies.accept_iff [OF ok1] by simp
  then obtain p'' s2 where s2: "Redis_UpsertPolicy db c (\<lambda>x. x) now p' s1 = (None, p'', s2)"
    by (auto simp: rp_upsert_def split: prod.splits)
  obtain d where "p'' = p'\<lparr>pol_Version := wrap64 (pol_Version p' + 1)\<rparr>" "snd c d = Inr p''"
      "written db now (policy_key (pol_TemplateID p')) d NoTTL s1 s2"
    using upsert_success [OF base s2] by (elim exE conjE)
  with s2 p' show ?thesis by (simp add: written_def Redis_GetPolicy_def)
qed

end
