(* ===== verification/Streams.thy ===== *)
theory Streams
  imports Acheron RedisStore
begin

text \<open>
  The queue on Redis streams (\<open>pkg/acheron/redis_queue.go\<close>).

  The stream commands are an argument on a state of any type. The two Lua scripts of the file are modelled as
  the sequence of commands they run, which Redis runs without interleaving; a command that fails ends a
  script with the effects so far. What Redis documents is \<open>streams_documented\<close>, about three views of the
  server: the entries of a stream, those a consumer group has not been given, and those given to it and not
  acknowledged. \<open>Dequeue\<close> polls until there is a message it can read; the number of polls before the caller
  gives up is an argument.
\<close>

section \<open>Commands\<close>

type_synonym 'v message = "(string \<times> 'v) list"

datatype 'v read_result = ReadNil | ReadFailed string | ReadMessage string "'v message" | ReadNone

record ('s, 'v) redis_streams =
  rs_XADD :: "string \<Rightarrow> 'v message \<Rightarrow> 's \<Rightarrow> (string + string) \<times> 's"
  rs_XLEN :: "string \<Rightarrow> 's \<Rightarrow> string + int"
  rs_XRANGE :: "string \<Rightarrow> string \<Rightarrow> 's \<Rightarrow> string + (string \<times> 'v message) list"
  rs_XREADGROUP :: "string \<Rightarrow> string \<Rightarrow> string \<Rightarrow> 's \<Rightarrow> 'v read_result \<times> 's"
  rs_XACK :: "string \<Rightarrow> string \<Rightarrow> string \<Rightarrow> 's \<Rightarrow> string option \<times> 's"
  rs_XGROUP :: "string \<Rightarrow> string \<Rightarrow> 's \<Rightarrow> string option \<times> 's"

text \<open>The scripts: what they return, 0 for a message that is not there, or the error of a command.\<close>

definition nackScript :: "('s, 'v) redis_streams \<Rightarrow> string \<Rightarrow> string \<Rightarrow> string \<Rightarrow> 's \<Rightarrow> (string + nat) \<times> 's" where
  "nackScript db stream grp i s =
     (case rs_XRANGE db stream i s of
        Inl err \<Rightarrow> (Inl err, s)
      | Inr [] \<Rightarrow> (Inr 0, s)
      | Inr ((_, values) # _) \<Rightarrow>
          (case rs_XADD db stream values s of
             (Inl err, s1) \<Rightarrow> (Inl err, s1)
           | (Inr _, s1) \<Rightarrow>
               (case rs_XACK db stream grp i s1 of (Some err, s2) \<Rightarrow> (Inl err, s2) | (None, s2) \<Rightarrow> (Inr 1, s2))))"

definition deadLetterScript ::
    "('s, 'v) redis_streams \<Rightarrow> (string \<Rightarrow> 'v) \<Rightarrow> string \<Rightarrow> string \<Rightarrow> string \<Rightarrow> string \<Rightarrow> string \<Rightarrow> string \<Rightarrow> 's \<Rightarrow> (string + nat) \<times> 's" where
  "deadLetterScript db str stream dlq grp i error_reason timestamp s =
     (case rs_XRANGE db stream i s of
        Inl err \<Rightarrow> (Inl err, s)
      | Inr [] \<Rightarrow> (Inr 0, s)
      | Inr ((_, values) # _) \<Rightarrow>
          (case rs_XADD db dlq (values @ [(''error_reason'', str error_reason), (''original_id'', str i), (''dlq_timestamp'', str timestamp)]) s of
             (Inl err, s1) \<Rightarrow> (Inl err, s1)
           | (Inr _, s1) \<Rightarrow>
               (case rs_XACK db stream grp i s1 of (Some err, s2) \<Rightarrow> (Inl err, s2) | (None, s2) \<Rightarrow> (Inr 1, s2))))"

section \<open>The queue\<close>

text \<open>A record of the dead letters; its time of creation is left out.\<close>

record 'v cocytus_record =
  cy_RunID :: string
  cy_RequestID :: string
  cy_Reason :: string
  cy_Payload :: "'v option"

record RedisQueue =
  rq_streamKey :: string
  rq_dlqKey :: string
  rq_consumerGroup :: string
  rq_consumerName :: string
  rq_routing :: bool
  rq_sink :: bool

text \<open>The constructor creates the consumer group from the beginning of the stream and passes over every error of that,
  as the group may be there already. \<open>ping\<close> is the error of the first contact with the server.\<close>

definition NewRedisQueue ::
    "('s, 'v) redis_streams \<Rightarrow> string option \<Rightarrow> string \<Rightarrow> string \<Rightarrow> string \<Rightarrow> bool \<Rightarrow> bool \<Rightarrow> 's \<Rightarrow> (string + RedisQueue) \<times> 's" where
  "NewRedisQueue db ping streamKey consumerGroup consumerName routing sink s =
     (case ping of
        Some err \<Rightarrow> (Inl (''failed to connect to redis: '' @ err), s)
      | None \<Rightarrow>
          (let q = \<lparr>rq_streamKey = streamKey, rq_dlqKey = streamKey @ '':dlq'', rq_consumerGroup = consumerGroup,
                    rq_consumerName = consumerName, rq_routing = routing, rq_sink = sink\<rparr>
           in if consumerGroup \<noteq> [] \<and> consumerName \<noteq> [] then (Inr q, snd (rs_XGROUP db streamKey consumerGroup s)) else (Inr q, s)))"

definition target_key :: "RedisQueue \<Rightarrow> SandboxRequest \<Rightarrow> string" where
  "target_key q req = (if rq_routing q \<and> req_NodeID req \<noteq> [] then rq_streamKey q @ '':'' @ req_NodeID req else rq_streamKey q)"

definition Redis_Enqueue ::
    "('s, 'v) redis_streams \<Rightarrow> (SandboxRequest, 'v) codec \<Rightarrow> RedisQueue \<Rightarrow> SandboxRequest \<Rightarrow> 's \<Rightarrow> string option \<times> 's" where
  "Redis_Enqueue db c q req s =
     (case fst c req of
        Inl err \<Rightarrow> (Some (''failed to marshal request: '' @ err), s)
      | Inr data \<Rightarrow>
          (case rs_XADD db (target_key q req) [(''data'', data)] s of
             (Inl err, s1) \<Rightarrow> (Some (''failed to enqueue request: '' @ err), s1)
           | (Inr _, s1) \<Rightarrow> (None, s1)))"

text \<open>A message that cannot be read goes to the sink of dead letters, when there is one, and to the stream of dead
  letters. The records written to the sink are returned.\<close>

definition moveToDLQ ::
    "('s, 'v) redis_streams \<Rightarrow> (string \<Rightarrow> 'v) \<Rightarrow> RedisQueue \<Rightarrow> string \<Rightarrow> string \<Rightarrow> string \<Rightarrow> 's \<Rightarrow> 'v cocytus_record list \<times> 's" where
  "moveToDLQ db str q timestamp i errorReason s =
     (let written = (if rq_sink q then
             (case rs_XRANGE db (rq_streamKey q) i s of
                Inr ((_, values) # _) \<Rightarrow>
                  [\<lparr>cy_RunID = [], cy_RequestID = i, cy_Reason = ''poison_pill: '' @ errorReason, cy_Payload = map_of values ''data''\<rparr>]
              | _ \<Rightarrow> []) else [])
      in (written, snd (deadLetterScript db str (rq_streamKey q) (rq_dlqKey q) (rq_consumerGroup q) i errorReason timestamp s)))"

datatype redis_delivery = RDelivered SandboxRequest string | RFailed string | RCancelled

fun Redis_Dequeue ::
    "('s, 'v) redis_streams \<Rightarrow> (SandboxRequest, 'v) codec \<Rightarrow> (string \<Rightarrow> 'v) \<Rightarrow> string \<Rightarrow> RedisQueue \<Rightarrow> nat \<Rightarrow> 's
     \<Rightarrow> redis_delivery \<times> 'v cocytus_record list \<times> 's" where
  "Redis_Dequeue db c str now q 0 s =
     (if rq_consumerGroup q = [] \<or> rq_consumerName q = [] then RFailed ''consumer group/name not configured for dequeue'' else RCancelled, [], s)"
| "Redis_Dequeue db c str now q (Suc n) s =
     (if rq_consumerGroup q = [] \<or> rq_consumerName q = [] then (RFailed ''consumer group/name not configured for dequeue'', [], s)
      else case rs_XREADGROUP db (rq_consumerGroup q) (rq_consumerName q) (rq_streamKey q) s of
             (ReadNil, s1) \<Rightarrow> Redis_Dequeue db c str now q n s1
           | (ReadNone, s1) \<Rightarrow> Redis_Dequeue db c str now q n s1
           | (ReadFailed err, s1) \<Rightarrow> (RFailed (''failed to dequeue: '' @ err), [], s1)
           | (ReadMessage i values, s1) \<Rightarrow>
               (case map_of values ''data'' of
                  None \<Rightarrow>
                    (case moveToDLQ db str q now i ''invalid_payload_format'' s1 of (recs, s2) \<Rightarrow>
                     case Redis_Dequeue db c str now q n s2 of (d, recs', s3) \<Rightarrow> (d, recs @ recs', s3))
                | Some data \<Rightarrow>
                    (case snd c data of
                       Inl _ \<Rightarrow>
                         (case moveToDLQ db str q now i ''json_unmarshal_error'' s1 of (recs, s2) \<Rightarrow>
                          case Redis_Dequeue db c str now q n s2 of (d, recs', s3) \<Rightarrow> (d, recs @ recs', s3))
                     | Inr req \<Rightarrow> (RDelivered req i, [], s1))))"

definition Redis_Ack :: "('s, 'v) redis_streams \<Rightarrow> RedisQueue \<Rightarrow> string \<Rightarrow> 's \<Rightarrow> string option \<times> 's" where
  "Redis_Ack db q rcpt s =
     (case rs_XACK db (rq_streamKey q) (rq_consumerGroup q) rcpt s of
        (Some err, s1) \<Rightarrow> (Some (''failed to ack message: '' @ err), s1)
      | (None, s1) \<Rightarrow> (None, s1))"

definition Redis_Nack :: "('s, 'v) redis_streams \<Rightarrow> RedisQueue \<Rightarrow> string \<Rightarrow> 's \<Rightarrow> string option \<times> 's" where
  "Redis_Nack db q rcpt s =
     (case nackScript db (rq_streamKey q) (rq_consumerGroup q) rcpt s of
        (Inl err, s1) \<Rightarrow> (Some (''failed to nack message: '' @ err), s1)
      | (Inr _, s1) \<Rightarrow> (None, s1))"

definition Redis_Len :: "('s, 'v) redis_streams \<Rightarrow> RedisQueue \<Rightarrow> 's \<Rightarrow> int" where
  "Redis_Len db q s = (case rs_XLEN db (rq_streamKey q) s of Inl _ \<Rightarrow> 0 | Inr depth \<Rightarrow> depth)"

section \<open>What Redis documents of streams\<close>

record ('s, 'v) stream_views =
  sv_entries :: "string \<Rightarrow> 's \<Rightarrow> (string \<times> 'v message) list"
  sv_waiting :: "string \<Rightarrow> string \<Rightarrow> 's \<Rightarrow> string list"
  sv_pending :: "string \<Rightarrow> string \<Rightarrow> 's \<Rightarrow> string list"

text \<open>The state after a command, in the three views.\<close>

definition views_after ::
    "('s, 'v) stream_views \<Rightarrow> 's \<Rightarrow> 's \<Rightarrow> (string \<Rightarrow> (string \<times> 'v message) list) \<Rightarrow> (string \<Rightarrow> string \<Rightarrow> string list) \<Rightarrow> (string \<Rightarrow> string \<Rightarrow> string list) \<Rightarrow> bool" where
  "views_after v s s' es ws ps \<longleftrightarrow>
     (\<forall>k. sv_entries v k s' = es k) \<and> (\<forall>k g. sv_waiting v k g s' = ws k g) \<and> (\<forall>k g. sv_pending v k g s' = ps k g)"

abbreviation same_views :: "('s, 'v) stream_views \<Rightarrow> 's \<Rightarrow> 's \<Rightarrow> bool" where
  "same_views v s s' \<equiv> views_after v s s' (\<lambda>k. sv_entries v k s) (\<lambda>k g. sv_waiting v k g s) (\<lambda>k g. sv_pending v k g s)"

text \<open>
  What is relied on: a command that is answered with an error has no effect. After an \<open>XADD\<close> the key
  holds a stream, so an \<open>XACK\<close> on it that follows in the same script, which the server runs without
  interruption, has no error left to give: an unknown group or identifier is answered with zero.
\<close>

definition xadd_documented :: "('s, 'v) redis_streams \<Rightarrow> ('s, 'v) stream_views \<Rightarrow> bool" where
  "xadd_documented db v \<longleftrightarrow>
     (\<forall>k vals s i s'. rs_XADD db k vals s = (Inr i, s') \<longrightarrow>
        i \<notin> fst ` set (sv_entries v k s) \<and>
        views_after v s s' (\<lambda>k'. sv_entries v k' s @ (if k' = k then [(i, vals)] else []))
          (\<lambda>k' g. sv_waiting v k' g s @ (if k' = k then [i] else [])) (\<lambda>k' g. sv_pending v k' g s) \<and>
        (\<forall>g j. fst (rs_XACK db k g j s') = None)) \<and>
     (\<forall>k vals s err s'. rs_XADD db k vals s = (Inl err, s') \<longrightarrow> same_views v s s')"

definition xread_documented :: "('s, 'v) redis_streams \<Rightarrow> ('s, 'v) stream_views \<Rightarrow> bool" where
  "xread_documented db v \<longleftrightarrow>
     (\<forall>g c k s i vals s'. rs_XREADGROUP db g c k s = (ReadMessage i vals, s') \<longrightarrow>
        (\<exists>rest. sv_waiting v k g s = i # rest \<and> map_of (sv_entries v k s) i = Some vals \<and>
           views_after v s s' (\<lambda>k'. sv_entries v k' s) (\<lambda>k' g'. if k' = k \<and> g' = g then rest else sv_waiting v k' g' s)
             (\<lambda>k' g'. sv_pending v k' g' s @ (if k' = k \<and> g' = g then [i] else [])))) \<and>
     (\<forall>g c k s r s'. rs_XREADGROUP db g c k s = (r, s') \<and> (\<forall>i vals. r \<noteq> ReadMessage i vals) \<longrightarrow> same_views v s s')"

definition xack_documented :: "('s, 'v) redis_streams \<Rightarrow> ('s, 'v) stream_views \<Rightarrow> bool" where
  "xack_documented db v \<longleftrightarrow>
     (\<forall>k g i s s'. rs_XACK db k g i s = (None, s') \<longrightarrow>
        views_after v s s' (\<lambda>k'. sv_entries v k' s) (\<lambda>k' g'. sv_waiting v k' g' s)
          (\<lambda>k' g'. if k' = k \<and> g' = g then filter (\<lambda>j. j \<noteq> i) (sv_pending v k g s) else sv_pending v k' g' s)) \<and>
     (\<forall>k g i s err s'. rs_XACK db k g i s = (Some err, s') \<longrightarrow> same_views v s s')"

definition streams_documented :: "('s, 'v) redis_streams \<Rightarrow> ('s, 'v) stream_views \<Rightarrow> bool" where
  "streams_documented db v \<longleftrightarrow>
     xadd_documented db v \<and> xread_documented db v \<and> xack_documented db v \<and>
     (\<forall>k i s xs. rs_XRANGE db k i s = Inr xs \<longrightarrow> xs = filter (\<lambda>e. fst e = i) (sv_entries v k s)) \<and>
     (\<forall>k s n. rs_XLEN db k s = Inr n \<longrightarrow> n = int (length (sv_entries v k s))) \<and>
     (\<forall>k g s. same_views v s (snd (rs_XGROUP db k g s)))"

lemma documented_parts:
  assumes "streams_documented db v"
  shows "xadd_documented db v" "xread_documented db v" "xack_documented db v"
  using assms by (simp_all add: streams_documented_def)

lemmas XADD_laws = documented_parts(1) [unfolded xadd_documented_def]
  and XREAD_laws = documented_parts(2) [unfolded xread_documented_def]
  and XACK_laws = documented_parts(3) [unfolded xack_documented_def]

lemmas XADD_views = XADD_laws [THEN conjunct1, rule_format]
  and XADD_err_views = XADD_laws [THEN conjunct2, rule_format]
  and XREAD_views = XREAD_laws [THEN conjunct1, rule_format]
  and XREAD_other_views = XREAD_laws [THEN conjunct2, rule_format, OF _ conjI]
  and XACK_views = XACK_laws [THEN conjunct1, rule_format]
  and XACK_err_views = XACK_laws [THEN conjunct2, rule_format]

lemma XADD_ok:
  "streams_documented db v \<Longrightarrow> rs_XADD db k vals s = (Inr i, s') \<Longrightarrow> i \<notin> fst ` set (sv_entries v k s) \<and>
     sv_entries v k' s' = sv_entries v k' s @ (if k' = k then [(i, vals)] else []) \<and>
     sv_waiting v k' g s' = sv_waiting v k' g s @ (if k' = k then [i] else []) \<and> sv_pending v k' g s' = sv_pending v k' g s"
  using XADD_views [of db v k vals s i s'] by (simp add: views_after_def)

lemma XREAD_message:
  assumes "streams_documented db v" "rs_XREADGROUP db g c k s = (ReadMessage i vals, s')"
  shows "\<exists>rest. sv_waiting v k g s = i # rest \<and> map_of (sv_entries v k s) i = Some vals \<and> sv_entries v k s' = sv_entries v k s \<and>
     sv_waiting v k g s' = rest \<and> sv_pending v k g s' = sv_pending v k g s @ [i]"
  using XREAD_views [OF assms] by (elim exE) (auto simp: views_after_def)

lemma XRANGE_ok: "streams_documented db v \<Longrightarrow> rs_XRANGE db k i s = Inr xs \<Longrightarrow> xs = filter (\<lambda>e. fst e = i) (sv_entries v k s)"
  unfolding streams_documented_def by blast

lemma XLEN_ok: "streams_documented db v \<Longrightarrow> rs_XLEN db k s = Inr n \<Longrightarrow> n = int (length (sv_entries v k s))"
  unfolding streams_documented_def by blast

section \<open>The account of jobs\<close>

text \<open>The job an entry stands for, if it can be read; the line of the jobs waiting for a consumer group and
  the jobs in its hands.\<close>

definition job_of :: "(SandboxRequest, 'v) codec \<Rightarrow> 'v message \<Rightarrow> SandboxRequest option" where
  "job_of c vals = (case map_of vals ''data'' of None \<Rightarrow> None | Some d \<Rightarrow> (case snd c d of Inl _ \<Rightarrow> None | Inr x \<Rightarrow> Some x))"

definition job :: "(SandboxRequest, 'v) codec \<Rightarrow> (string \<times> 'v message) list \<Rightarrow> string \<Rightarrow> SandboxRequest option" where
  "job c es i = Option.bind (map_of es i) (job_of c)"

definition jobs :: "(SandboxRequest, 'v) codec \<Rightarrow> (string \<times> 'v message) list \<Rightarrow> string list \<Rightarrow> SandboxRequest list" where
  "jobs c es ids = concat (map (\<lambda>i. case job c es i of None \<Rightarrow> [] | Some x \<Rightarrow> [x]) ids)"

record ('s, 'v) stream_env =
  se_db :: "('s, 'v) redis_streams"
  se_views :: "('s, 'v) stream_views"
  se_codec :: "(SandboxRequest, 'v) codec"
  se_text :: "string \<Rightarrow> 'v"
  se_now :: string
  se_polls :: nat
  se_producer :: RedisQueue
  se_consumer :: RedisQueue

abbreviation entries_at :: "('s, 'v) stream_env \<Rightarrow> 's \<Rightarrow> (string \<times> 'v message) list" where
  "entries_at e s \<equiv> sv_entries (se_views e) (rq_streamKey (se_consumer e)) s"

abbreviation waiting_at :: "('s, 'v) stream_env \<Rightarrow> 's \<Rightarrow> string list" where
  "waiting_at e s \<equiv> sv_waiting (se_views e) (rq_streamKey (se_consumer e)) (rq_consumerGroup (se_consumer e)) s"

abbreviation pending_at :: "('s, 'v) stream_env \<Rightarrow> 's \<Rightarrow> string list" where
  "pending_at e s \<equiv> sv_pending (se_views e) (rq_streamKey (se_consumer e)) (rq_consumerGroup (se_consumer e)) s"

definition line_at :: "('s, 'v) stream_env \<Rightarrow> 's \<Rightarrow> SandboxRequest list" where
  "line_at e s = jobs (se_codec e) (entries_at e s) (waiting_at e s)"

definition flight_at :: "('s, 'v) stream_env \<Rightarrow> 's \<Rightarrow> SandboxRequest multiset" where
  "flight_at e s = mset (jobs (se_codec e) (entries_at e s) (pending_at e s))"

definition held_at :: "('s, 'v) stream_env \<Rightarrow> 's \<Rightarrow> string \<Rightarrow> SandboxRequest option" where
  "held_at e s r = (if r \<in> set (pending_at e s) then job (se_codec e) (entries_at e s) r else None)"

definition stream_ok :: "('s, 'v) stream_env \<Rightarrow> 's \<Rightarrow> bool" where
  "stream_ok e s \<longleftrightarrow> streams_documented (se_db e) (se_views e) \<and> faithful (se_codec e) \<and>
     rq_dlqKey (se_consumer e) = rq_streamKey (se_consumer e) @ '':dlq'' \<and>
     distinct (waiting_at e s @ pending_at e s) \<and> set (waiting_at e s @ pending_at e s) \<subseteq> fst ` set (entries_at e s)"

text \<open>One operation and what it did: a producer adds requests, which reach the consumer when they are meant
  for its stream; the consumers of the group take, acknowledge and return them. A receipt that is returned
  although it has been settled before makes its job enter anew.\<close>

fun stream_step :: "('s, 'v) stream_env \<Rightarrow> 's \<Rightarrow> SandboxRequest queue_op \<Rightarrow> SandboxRequest queue_event \<times> 's" where
  "stream_step e s (EnqOp x) =
     (case Redis_Enqueue (se_db e) (se_codec e) (se_producer e) x s of
        (Some _, s') \<Rightarrow> (Nothing, s')
      | (None, s') \<Rightarrow> (if target_key (se_producer e) x = rq_streamKey (se_consumer e) then Arrived x else Nothing, s'))"
| "stream_step e s DeqOp =
     (case Redis_Dequeue (se_db e) (se_codec e) (se_text e) (se_now e) (se_consumer e) (se_polls e) s of
        (RDelivered x r, _, s') \<Rightarrow> (Handed x r, s') | (_, _, s') \<Rightarrow> (Nothing, s'))"
| "stream_step e s (AckOp r) =
     (case Redis_Ack (se_db e) (se_consumer e) r s of
        (Some _, s') \<Rightarrow> (Nothing, s') | (None, s') \<Rightarrow> (case held_at e s r of None \<Rightarrow> Nothing | Some x \<Rightarrow> Acked x r, s'))"
| "stream_step e s (NackOp r) =
     (case Redis_Nack (se_db e) (se_consumer e) r s of
        (Some _, s') \<Rightarrow> (Nothing, s')
      | (None, s') \<Rightarrow>
          (case held_at e s r of
             Some x \<Rightarrow> Requeued x r
           | None \<Rightarrow> (case job (se_codec e) (entries_at e s) r of None \<Rightarrow> Nothing | Some x \<Rightarrow> Arrived x), s'))"

lemma jobs_simps [simp]:
  "jobs c es [] = []" "jobs c es (i # ids) = (case job c es i of None \<Rightarrow> [] | Some x \<Rightarrow> [x]) @ jobs c es ids"
  "jobs c es (ids @ ids') = jobs c es ids @ jobs c es ids'"
  by (simp_all add: jobs_def)

lemma job_add:
  "i \<notin> fst ` set es \<Longrightarrow> job c (es @ [(i, vals)]) j = (if j = i then job_of c vals else job c es j)"
  using map_of_eq_None_iff [of es i] by (auto simp: job_def map_add_def split: option.splits)

lemma jobs_add:
  assumes "i \<notin> fst ` set es" "set ids \<subseteq> fst ` set es"
  shows "jobs c (es @ [(i, vals)]) ids = jobs c es ids"
  unfolding jobs_def using assms by (intro arg_cong [where f = concat] map_cong) (auto simp: job_add)

lemma jobs_remove:
  "distinct ids \<Longrightarrow> mset (jobs c es ids) =
     mset (jobs c es (filter (\<lambda>j. j \<noteq> i) ids)) + (if i \<in> set ids then (case job c es i of None \<Rightarrow> {#} | Some x \<Rightarrow> {#x#}) else {#})"
  by (induction ids) (auto split: option.splits)

text \<open>The commands, on the line and on the jobs in hand.\<close>

definition line_same :: "('s, 'v) stream_env \<Rightarrow> 's \<Rightarrow> 's \<Rightarrow> bool" where
  "line_same e s s' \<longleftrightarrow> stream_ok e s' \<and> line_at e s' = line_at e s \<and> flight_at e s' = flight_at e s"

lemma line_sameI:
  "stream_ok e s \<Longrightarrow> entries_at e s' = entries_at e s \<Longrightarrow> waiting_at e s' = waiting_at e s \<Longrightarrow> pending_at e s' = pending_at e s \<Longrightarrow> line_same e s s'"
  by (simp add: line_same_def stream_ok_def line_at_def flight_at_def)

lemma XADD_line:
  assumes "stream_ok e s" "rs_XADD (se_db e) k vals s = (Inr i, s')"
  shows "stream_ok e s' \<and> flight_at e s' = flight_at e s \<and> pending_at e s' = pending_at e s \<and>
    line_at e s' = line_at e s @ (if k = rq_streamKey (se_consumer e) then (case job_of (se_codec e) vals of None \<Rightarrow> [] | Some x \<Rightarrow> [x]) else []) \<and>
    (\<forall>j \<in> fst ` set (entries_at e s). job (se_codec e) (entries_at e s') j = job (se_codec e) (entries_at e s) j)"
proof -
  have doc: "streams_documented (se_db e) (se_views e)" using assms(1) by (simp add: stream_ok_def)
  note new = XADD_ok [OF doc assms(2), of "rq_streamKey (se_consumer e)" "rq_consumerGroup (se_consumer e)"]
  show ?thesis
  proof (cases "k = rq_streamKey (se_consumer e)")
    case True
    then have fresh: "i \<notin> fst ` set (entries_at e s)" and eqs: "entries_at e s' = entries_at e s @ [(i, vals)]"
      "waiting_at e s' = waiting_at e s @ [i]" "pending_at e s' = pending_at e s" using new by simp_all
    moreover from fresh assms(1) have "i \<notin> set (waiting_at e s)" "i \<notin> set (pending_at e s)"
      "set (waiting_at e s) \<subseteq> fst ` set (entries_at e s)" "set (pending_at e s) \<subseteq> fst ` set (entries_at e s)"
      by (auto simp: stream_ok_def)
    ultimately show ?thesis using True assms(1)
      by (auto simp: stream_ok_def line_at_def flight_at_def jobs_add job_add)
  next
    case False
    with new assms(1) show ?thesis by (simp add: stream_ok_def line_at_def flight_at_def)
  qed
qed

lemma XADD_err_line: "stream_ok e s \<Longrightarrow> rs_XADD (se_db e) k vals s = (Inl err, s') \<Longrightarrow> line_same e s s'"
  by (rule line_sameI) (auto simp: stream_ok_def views_after_def dest: XADD_err_views)

lemma XACK_line:
  assumes "stream_ok e s" "rs_XACK (se_db e) (rq_streamKey (se_consumer e)) (rq_consumerGroup (se_consumer e)) i s = (None, s')"
  shows "stream_ok e s' \<and> line_at e s' = line_at e s \<and>
    flight_at e s = flight_at e s' + (case held_at e s i of None \<Rightarrow> {#} | Some x \<Rightarrow> {#x#})"
proof -
  have doc: "streams_documented (se_db e) (se_views e)" and d: "distinct (pending_at e s)" using assms(1) by (simp_all add: stream_ok_def)
  show ?thesis using assms(1) jobs_remove [OF d, of "se_codec e" "entries_at e s" i] XACK_views [OF doc assms(2)]
    by (auto simp: stream_ok_def line_at_def flight_at_def held_at_def views_after_def)
qed

lemma XACK_err_line: "stream_ok e s \<Longrightarrow> rs_XACK (se_db e) k g i s = (Some err, s') \<Longrightarrow> line_same e s s'"
  by (rule line_sameI) (auto simp: stream_ok_def views_after_def dest: XACK_err_views)

lemma line_same_refl: "stream_ok e s \<Longrightarrow> line_same e s s"
  by (simp add: line_same_def)

lemma stream_okD:
  assumes "stream_ok e s"
  shows "streams_documented (se_db e) (se_views e)" "faithful (se_codec e)" "rq_dlqKey (se_consumer e) \<noteq> rq_streamKey (se_consumer e)"
  using assms by (simp_all add: stream_ok_def)

lemma map_of_entry: "map_of (filter (\<lambda>x. fst x = i) es) i = map_of es i"
  by (induction es) auto

lemma XRANGE_first:
  assumes "stream_ok e s" "rs_XRANGE (se_db e) (rq_streamKey (se_consumer e)) i s = Inr ((i', vals) # xs)"
  shows "job (se_codec e) (entries_at e s) i = job_of (se_codec e) vals \<and> i \<in> fst ` set (entries_at e s)"
proof -
  have f: "filter (\<lambda>x. fst x = i) (entries_at e s) = (i', vals) # xs" using XRANGE_ok [OF stream_okD(1) [OF assms(1)] assms(2)] by simp
  then have "i' = i" by (metis (mono_tags, lifting) Cons_eq_filterD fst_conv)
  then have "map_of (entries_at e s) i = Some vals" using map_of_entry [of i "entries_at e s"] f by simp
  then show ?thesis by (auto simp: job_def dest: map_of_SomeD intro: rev_image_eqI)
qed

lemma XRANGE_none:
  assumes "stream_ok e s" "rs_XRANGE (se_db e) (rq_streamKey (se_consumer e)) i s = Inr []"
  shows "job (se_codec e) (entries_at e s) i = None"
  using XRANGE_ok [OF stream_okD(1) [OF assms(1)] assms(2)] map_of_entry [of i "entries_at e s"] by (simp add: job_def)

text \<open>Moving an unreadable message away changes nothing for the jobs.\<close>

lemma moveToDLQ_line:
  assumes ok: "stream_ok e s" and unreadable: "job (se_codec e) (entries_at e s) i = None"
  shows "line_same e s (snd (moveToDLQ (se_db e) str (se_consumer e) now i reason s))"
proof -
  let ?k = "rq_streamKey (se_consumer e)" and ?g = "rq_consumerGroup (se_consumer e)"
  define r where "r = deadLetterScript (se_db e) str ?k (rq_dlqKey (se_consumer e)) ?g i reason now s"
  have "line_same e s (snd r)"
  proof (cases "rs_XRANGE (se_db e) ?k i s")
    case (Inr xs)
    show ?thesis
    proof (cases xs)
      case (Cons x xs')
      let ?vals = "snd x @ [(''error_reason'', str reason), (''original_id'', str i), (''dlq_timestamp'', str now)]"
      obtain a s1 where add: "rs_XADD (se_db e) (rq_dlqKey (se_consumer e)) ?vals s = (a, s1)" by fastforce
      obtain b s2 where ack: "rs_XACK (se_db e) ?k ?g i s1 = (b, s2)" by fastforce
      show ?thesis
      proof (cases a)
        case (Inl err)
        with Inr Cons add XADD_err_line [OF ok] show ?thesis by (cases x) (auto simp: r_def deadLetterScript_def)
      next
        case (Inr m)
        note dlq = stream_okD(3) [OF ok] and new = XADD_ok [OF stream_okD(1) [OF ok] add [unfolded Inr], of ?k ?g]
        have 1: "line_same e s s1" using dlq new by (intro line_sameI [OF ok]) simp_all
        have "held_at e s1 i = None" using dlq new unreadable by (simp add: held_at_def)
        then have "line_same e s1 s2" using XACK_line [of e s1 i s2] XACK_err_line [of e s1] 1 ack
          by (cases b) (auto simp: line_same_def)
        with 1 have "line_same e s s2" by (simp add: line_same_def)
        with \<open>rs_XRANGE _ _ _ _ = _\<close> Cons add Inr ack show ?thesis
          by (cases x; cases b) (auto simp: r_def deadLetterScript_def)
      qed
    qed (use Inr in \<open>simp add: r_def deadLetterScript_def line_same_refl [OF ok]\<close>)
  qed (simp add: r_def deadLetterScript_def line_same_refl [OF ok])
  then show ?thesis by (simp add: moveToDLQ_def r_def Let_def)
qed

lemma read_line:
  assumes ok: "stream_ok e s" and rd: "rs_XREADGROUP (se_db e) (rq_consumerGroup (se_consumer e)) n (rq_streamKey (se_consumer e)) s = (ReadMessage i vals, s')"
  shows "stream_ok e s' \<and> job (se_codec e) (entries_at e s') i = job_of (se_codec e) vals \<and> i \<in> set (pending_at e s') \<and>
    line_at e s = (case job_of (se_codec e) vals of None \<Rightarrow> [] | Some x \<Rightarrow> [x]) @ line_at e s' \<and>
    flight_at e s' = flight_at e s + (case job_of (se_codec e) vals of None \<Rightarrow> {#} | Some x \<Rightarrow> {#x#})"
proof -
  from XREAD_message [OF stream_okD(1) [OF ok] rd] obtain rest where
    "waiting_at e s = i # rest" "map_of (entries_at e s) i = Some vals" "entries_at e s' = entries_at e s"
    "waiting_at e s' = rest" "pending_at e s' = pending_at e s @ [i]" by (elim exE conjE)
  then show ?thesis using ok by (auto simp: stream_ok_def line_at_def flight_at_def job_def split: option.splits)
qed

text \<open>Taking a message: what comes before it in the line and cannot be read is set aside.\<close>

definition dequeued :: "('s, 'v) stream_env \<Rightarrow> 's \<Rightarrow> redis_delivery \<Rightarrow> 's \<Rightarrow> bool" where
  "dequeued e s d s' \<longleftrightarrow> stream_ok e s' \<and>
    (case d of RDelivered x i \<Rightarrow> line_at e s = x # line_at e s' \<and> flight_at e s' = add_mset x (flight_at e s) \<and> held_at e s' i = Some x
     | _ \<Rightarrow> line_at e s' = line_at e s \<and> flight_at e s' = flight_at e s)"

lemma dequeued_after: "line_same e s s1 \<Longrightarrow> dequeued e s1 d s' \<Longrightarrow> dequeued e s d s'"
  by (cases d) (simp_all add: dequeued_def line_same_def)

lemma Dequeue_line:
  assumes "stream_ok e s" "Redis_Dequeue (se_db e) (se_codec e) str now (se_consumer e) n s = (d, recs, s')"
  shows "dequeued e s d s'"
  using assms
proof (induction n arbitrary: s d recs s')
  case 0
  then show ?case by (auto simp: dequeued_def split: if_splits)
next
  case (Suc n)
  let ?q = "se_consumer e"
  show ?case
  proof (cases "rq_consumerGroup ?q = [] \<or> rq_consumerName ?q = []")
    case False
    obtain r s1 where rd: "rs_XREADGROUP (se_db e) (rq_consumerGroup ?q) (rq_consumerName ?q) (rq_streamKey ?q) s = (r, s1)" by fastforce
    have other: "line_same e s s1" if "\<And>i vals. r \<noteq> ReadMessage i vals"
      using XREAD_other_views [OF stream_okD(1) [OF Suc.prems(1)] rd] that by (intro line_sameI [OF Suc.prems(1)]) (auto simp: views_after_def)
    show ?thesis
    proof (cases r)
      case (ReadMessage i vals)
      note msg = read_line [OF Suc.prems(1) rd [unfolded ReadMessage]]
      show ?thesis
      proof (cases "job_of (se_codec e) vals")
        case None
        then obtain reason where eq: "Redis_Dequeue (se_db e) (se_codec e) str now ?q (Suc n) s =
            (case moveToDLQ (se_db e) str ?q now i reason s1 of (recs, s2) \<Rightarrow>
             case Redis_Dequeue (se_db e) (se_codec e) str now ?q n s2 of (d, recs', s3) \<Rightarrow> (d, recs @ recs', s3))"
          using False rd ReadMessage by (auto simp: job_of_def split: option.splits sum.splits)
        obtain recs1 s2 where mv: "moveToDLQ (se_db e) str ?q now i reason s1 = (recs1, s2)" by fastforce
        then have "line_same e s s2" using moveToDLQ_line [of e s1 i str now reason] msg None by (simp add: line_same_def)
        moreover from this have "dequeued e s2 d s'"
          using Suc.prems(2) eq mv Suc.IH [of s2] by (auto simp: line_same_def split: prod.splits)
        ultimately show ?thesis by (rule dequeued_after)
      next
        case (Some x)
        then have "d = RDelivered x i \<and> s' = s1" using Suc.prems(2) False rd ReadMessage
          by (auto simp: job_of_def split: option.splits sum.splits)
        with msg Some show ?thesis by (simp add: dequeued_def held_at_def)
      qed
    next
      case (ReadFailed err)
      with Suc.prems(2) False rd other show ?thesis by (auto simp: dequeued_def line_same_def)
    qed (use Suc.prems(2) Suc.IH [of s1] other False rd in
        \<open>auto simp: line_same_def intro: dequeued_after [of e s s1]\<close>)
  qed (use Suc.prems in \<open>auto simp: dequeued_def\<close>)
qed

lemma Enqueue_line:
  assumes "stream_ok e s" "Redis_Enqueue (se_db e) (se_codec e) q x s = (r, s')"
  shows "stream_ok e s' \<and> flight_at e s' = flight_at e s \<and>
    line_at e s' = line_at e s @ (if r = None \<and> target_key q x = rq_streamKey (se_consumer e) then [x] else [])"
proof -
  obtain t where t: "fst (se_codec e) x = Inr t" "snd (se_codec e) t = Inr x" by (rule faithfulE [OF stream_okD(2) [OF assms(1)]])
  obtain a s1 where a: "rs_XADD (se_db e) (target_key q x) [(''data'', t)] s = (a, s1)" by fastforce
  have j: "job_of (se_codec e) [(''data'', t)] = Some x" using t by (simp add: job_of_def)
  show ?thesis
  proof (cases a)
    case (Inl err)
    with assms a t show ?thesis using XADD_err_line [OF assms(1)] by (auto simp: Redis_Enqueue_def line_same_def)
  next
    case (Inr i)
    with assms(2) a t have "r = None" "s' = s1" by (auto simp: Redis_Enqueue_def)
    with XADD_line [OF assms(1) a [unfolded Inr]] j show ?thesis by simp
  qed
qed

lemma Ack_line:
  assumes "stream_ok e s" "Redis_Ack (se_db e) (se_consumer e) i s = (r, s')"
  shows "stream_ok e s' \<and> line_at e s' = line_at e s \<and>
    flight_at e s = flight_at e s' + (if r = None then (case held_at e s i of None \<Rightarrow> {#} | Some x \<Rightarrow> {#x#}) else {#})"
  using assms XACK_line [OF assms(1)] XACK_err_line [OF assms(1)]
  by (cases r) (auto simp: Redis_Ack_def line_same_def split: prod.splits option.splits)

lemma Nack_line:
  assumes ok: "stream_ok e s" and n: "Redis_Nack (se_db e) (se_consumer e) i s = (r, s')"
  shows "stream_ok e s' \<and>
    line_at e s' = line_at e s @ (if r = None then (case job (se_codec e) (entries_at e s) i of None \<Rightarrow> [] | Some x \<Rightarrow> [x]) else []) \<and>
    flight_at e s = flight_at e s' + (if r = None then (case held_at e s i of None \<Rightarrow> {#} | Some x \<Rightarrow> {#x#}) else {#})"
proof (cases "rs_XRANGE (se_db e) (rq_streamKey (se_consumer e)) i s")
  case (Inl err)
  with ok n show ?thesis by (auto simp: Redis_Nack_def nackScript_def)
next
  case (Inr xs)
  let ?k = "rq_streamKey (se_consumer e)" and ?g = "rq_consumerGroup (se_consumer e)"
  show ?thesis
  proof (cases xs)
    case Nil
    then show ?thesis using ok n Inr XRANGE_none [OF ok] by (auto simp: Redis_Nack_def nackScript_def held_at_def)
  next
    case (Cons m xs')
    obtain i' vals where m: "m = (i', vals)" by fastforce
    note first = XRANGE_first [OF ok Inr [unfolded Cons m]]
    obtain a s1 where a: "rs_XADD (se_db e) ?k vals s = (a, s1)" by fastforce
    show ?thesis
    proof (cases a)
      case (Inl err)
      with n Inr Cons m a XADD_err_line [OF ok] ok show ?thesis by (auto simp: Redis_Nack_def nackScript_def line_same_def)
    next
      case (Inr new)
      note add = XADD_line [OF ok a [unfolded Inr]]
      obtain s2 where ack: "rs_XACK (se_db e) ?k ?g i s1 = (None, s2)"
        using XADD_views [OF stream_okD(1) [OF ok] a [unfolded Inr]] by (metis prod.collapse)
      have "r = None" "s' = s2" using n \<open>rs_XRANGE _ _ _ _ = _\<close> Cons m a Inr ack by (auto simp: Redis_Nack_def nackScript_def)
      moreover have "job (se_codec e) (entries_at e s1) i = job (se_codec e) (entries_at e s) i" using add first by blast
      then have "held_at e s1 i = held_at e s i" using add by (simp add: held_at_def)
      ultimately show ?thesis using XACK_line [OF conjunct1 [OF add] ack] add first by simp
    qed
  qed
qed

text \<open>Every operation keeps the account and the order of the line.\<close>

lemma stream_step_line:
  assumes ok: "stream_ok e s" and st: "stream_step e s p = (ev, s')"
  shows "stream_ok e s' \<and> line_at e s @ arrivals [ev] = handed [ev] @ line_at e s' \<and>
    mset (line_at e s) + flight_at e s + mset (entered [ev]) = mset (line_at e s') + flight_at e s' + mset (acked [ev])"
proof (cases p)
  case (EnqOp x)
  obtain r s1 where r: "Redis_Enqueue (se_db e) (se_codec e) (se_producer e) x s = (r, s1)" by fastforce
  show ?thesis using Enqueue_line [OF ok r] st r EnqOp by (cases r) (auto split: if_splits)
next
  case DeqOp
  obtain d recs s1 where d: "Redis_Dequeue (se_db e) (se_codec e) (se_text e) (se_now e) (se_consumer e) (se_polls e) s = (d, recs, s1)"
    by (metis prod_cases3)
  show ?thesis using Dequeue_line [OF ok d] st d DeqOp by (cases d) (auto simp: dequeued_def)
next
  case (AckOp i)
  obtain r s1 where r: "Redis_Ack (se_db e) (se_consumer e) i s = (r, s1)" by fastforce
  show ?thesis using Ack_line [OF ok r] st r AckOp by (cases r; cases "held_at e s i") auto
next
  case (NackOp i)
  obtain r s1 where r: "Redis_Nack (se_db e) (se_consumer e) i s = (r, s1)" by fastforce
  have held: "held_at e s i = Some x \<Longrightarrow> job (se_codec e) (entries_at e s) i = Some x" for x
    by (simp add: held_at_def split: if_splits)
  show ?thesis using Nack_line [OF ok r] st r NackOp held
    by (cases r; cases "held_at e s i"; cases "job (se_codec e) (entries_at e s) i") auto
qed

interpretation redis_stream: accounted_queue "line_at e" "flight_at e" "stream_ok e" "stream_step e" for e
proof
  fix s p ev s'
  assume ok: "stream_ok e s"
  show "stream_ok e (snd (stream_step e s p))" using stream_step_line [OF ok, of p] by (cases "stream_step e s p") simp
  assume "stream_step e s p = (ev, s')"
  from stream_step_line [OF ok this] show "line_at e s @ arrivals [ev] = handed [ev] @ line_at e s'"
    and "mset (line_at e s) + flight_at e s + mset (entered [ev]) = mset (line_at e s') + flight_at e s' + mset (acked [ev])" by auto
qed

section \<open>Properties\<close>

text \<open>
  C31: No job is lost between Redis and the consumers, and jobs leave in order. Over any sequence of
  enqueue, dequeue, ack and nack operations, with any receipts, commands that fail and messages that cannot
  be read among the others, the readable jobs that were there and those that entered are exactly those waiting, those in
  the hands of a consumer and those acknowledged; and the jobs handed out followed by those waiting are the jobs in
  the order in which they joined the line.\<close>

theorem redis_queue_account:
  assumes "stream_ok e s" "qrun (stream_step e) s ps = (es, s')"
  shows "mset (line_at e s) + flight_at e s + mset (entered es) = mset (line_at e s') + flight_at e s' + mset (acked es) \<and>
    line_at e s @ arrivals es = handed es @ line_at e s'"
  using redis_stream.qrun_account [OF assms] redis_stream.qrun_order [OF assms] by simp

text \<open>A stream server in memory: entries, what each group was given, and what it has not acknowledged.\<close>

type_synonym 'v ref_streams = "(string \<times> string \<times> 'v message) list \<times> (string \<times> string \<times> string) list \<times> (string \<times> string \<times> string) list"

definition ref_entries :: "string \<Rightarrow> 'v ref_streams \<Rightarrow> (string \<times> 'v message) list" where
  "ref_entries k s = map snd (filter (\<lambda>x. fst x = k) (fst s))"

definition ref_waiting :: "string \<Rightarrow> string \<Rightarrow> 'v ref_streams \<Rightarrow> string list" where
  "ref_waiting k g s = filter (\<lambda>i. (k, g, i) \<notin> set (fst (snd s))) (remdups (map fst (ref_entries k s)))"

definition ref_pending :: "string \<Rightarrow> string \<Rightarrow> 'v ref_streams \<Rightarrow> string list" where
  "ref_pending k g s = map (\<lambda>x. snd (snd x)) (filter (\<lambda>x. fst x = k \<and> fst (snd x) = g) (snd (snd s)))"

definition ref_fresh :: "'v ref_streams \<Rightarrow> string" where
  "ref_fresh s = replicate (Suc (sum_list (map (\<lambda>x. length (fst (snd x))) (fst s)) + sum_list (map (\<lambda>x. length (snd (snd x))) (fst (snd s))))) CHR ''1''"

definition ref_read :: "string \<Rightarrow> string \<Rightarrow> 'v ref_streams \<Rightarrow> 'v read_result \<times> 'v ref_streams" where
  "ref_read g k s = (case ref_waiting k g s of
      [] \<Rightarrow> (ReadNil, s)
    | i # _ \<Rightarrow> (case map_of (ref_entries k s) i of
         None \<Rightarrow> (ReadNone, s)
       | Some vals \<Rightarrow> (ReadMessage i vals, fst s, (k, g, i) # fst (snd s), snd (snd s) @ [(k, g, i)])))"

definition ref_server :: "('v ref_streams, 'v) redis_streams" where
  "ref_server = \<lparr>rs_XADD = (\<lambda>k vals s. (Inr (ref_fresh s), fst s @ [(k, ref_fresh s, vals)], snd s)),
     rs_XLEN = (\<lambda>k s. Inr (int (length (ref_entries k s)))),
     rs_XRANGE = (\<lambda>k i s. Inr (filter (\<lambda>x. fst x = i) (ref_entries k s))),
     rs_XREADGROUP = (\<lambda>g c k s. ref_read g k s),
     rs_XACK = (\<lambda>k g i s. (None, fst s, fst (snd s), filter (\<lambda>x. x \<noteq> (k, g, i)) (snd (snd s)))),
     rs_XGROUP = (\<lambda>k g s. (None, s))\<rparr>"

definition ref_views :: "('v ref_streams, 'v) stream_views" where
  "ref_views = \<lparr>sv_entries = ref_entries, sv_waiting = ref_waiting, sv_pending = ref_pending\<rparr>"

lemma ref_streams_simps [simp]:
  "rs_XADD ref_server k vals s = (Inr (ref_fresh s), fst s @ [(k, ref_fresh s, vals)], snd s)"
  "rs_XLEN ref_server k s = Inr (int (length (ref_entries k s)))"
  "rs_XRANGE ref_server k i s = Inr (filter (\<lambda>x. fst x = i) (ref_entries k s))"
  "rs_XREADGROUP ref_server g c k s = ref_read g k s"
  "rs_XACK ref_server k g i s = (None, fst s, fst (snd s), filter (\<lambda>x. x \<noteq> (k, g, i)) (snd (snd s)))"
  "rs_XGROUP ref_server k g s = (None, s)"
  "sv_entries ref_views = ref_entries" "sv_waiting ref_views = ref_waiting" "sv_pending ref_views = ref_pending"
  by (simp_all add: ref_server_def ref_views_def)

lemma longer_fresh: "i \<in> set ids \<Longrightarrow> i \<noteq> replicate (Suc (sum_list (map length ids) + n)) c"
proof
  assume i: "i \<in> set ids" and "i = replicate (Suc (sum_list (map length ids) + n)) c"
  then have "length i = Suc (sum_list (map length ids) + n)" by simp
  moreover have "length i \<le> sum_list (map length ids)" using i by (intro member_le_sum_list) auto
  ultimately show False by simp
qed

lemma ref_fresh_new: "(k, ref_fresh s, vals) \<notin> set (fst s)" "(k, g, ref_fresh s) \<notin> set (fst (snd s))"
proof -
  have 1: "ref_fresh s = replicate (Suc (sum_list (map length (map (\<lambda>x. fst (snd x)) (fst s))) + sum_list (map (\<lambda>x. length (snd (snd x))) (fst (snd s))))) CHR ''1''"
    and 2: "ref_fresh s = replicate (Suc (sum_list (map length (map (\<lambda>x. snd (snd x)) (fst (snd s)))) + sum_list (map (\<lambda>x. length (fst (snd x))) (fst s)))) CHR ''1''"
    by (simp_all add: ref_fresh_def comp_def add.commute)
  have "ref_fresh s \<notin> set (map (\<lambda>x. fst (snd x)) (fst s))" "ref_fresh s \<notin> set (map (\<lambda>x. snd (snd x)) (fst (snd s)))"
    using longer_fresh 1 2 by metis+
  then show "(k, ref_fresh s, vals) \<notin> set (fst s)" "(k, g, ref_fresh s) \<notin> set (fst (snd s))" by force+
qed

lemma remdups_fresh: "x \<notin> set xs \<Longrightarrow> remdups (xs @ [x]) = remdups xs @ [x]"
  by (induction xs) auto

lemma ref_streams_documented: "streams_documented ref_server ref_views"
proof -
  have fresh: "ref_fresh s \<notin> fst ` set (ref_entries k s)" for s :: "'a ref_streams" and k
    using ref_fresh_new(1) [of k s] by (auto simp: ref_entries_def)
  have ents: "ref_entries k' (fst s @ [(k, i, vals)], snd s) = ref_entries k' s @ (if k' = k then [(i, vals)] else [])"
    for s :: "'a ref_streams" and k k' i vals by (auto simp: ref_entries_def)
  have "ref_waiting k' g (fst s @ [(k, ref_fresh s, vals)], snd s) = ref_waiting k' g s @ (if k' = k then [ref_fresh s] else [])"
    for s :: "'a ref_streams" and k k' g vals
    using fresh [of s k] ref_fresh_new(2) [of k g s] by (simp add: ref_waiting_def ents remdups_fresh)
  then have add: "xadd_documented ref_server (ref_views :: ('a ref_streams, 'a) stream_views)"
    using fresh ents [of _ "(x, y, z)" for x y z]
    by (auto simp: xadd_documented_def views_after_def ref_pending_def)
  have rd: "xread_documented ref_server (ref_views :: ('a ref_streams, 'a) stream_views)"
    unfolding xread_documented_def
  proof (intro conjI allI impI)
    fix g c k i vals and s s' :: "'a ref_streams"
    assume "rs_XREADGROUP ref_server g c k s = (ReadMessage i vals, s')"
    then obtain rest where r: "ref_waiting k g s = i # rest" "map_of (ref_entries k s) i = Some vals"
        "s' = (fst s, (k, g, i) # fst (snd s), snd (snd s) @ [(k, g, i)])"
      by (auto simp: ref_read_def split: list.splits option.splits)
    have "distinct (i # rest)" using r(1) by (metis ref_waiting_def distinct_filter distinct_remdups)
    moreover have "ref_waiting k g s' = filter (\<lambda>j. j \<noteq> i) (ref_waiting k g s)"
      by (auto simp: r(3) ref_waiting_def ref_entries_def intro!: filter_cong)
    ultimately have "ref_waiting k g s' = rest" using r(1) by (auto simp: filter_id_conv)
    moreover have "ref_waiting k' g' s' = ref_waiting k' g' s" if "k' \<noteq> k \<or> g' \<noteq> g" for k' g'
      using that by (auto simp: r(3) ref_waiting_def ref_entries_def intro!: filter_cong)
    ultimately show "\<exists>rest. sv_waiting ref_views k g s = i # rest \<and> map_of (sv_entries ref_views k s) i = Some vals \<and>
        views_after ref_views s s' (\<lambda>k'. sv_entries ref_views k' s) (\<lambda>k' g'. if k' = k \<and> g' = g then rest else sv_waiting ref_views k' g' s)
          (\<lambda>k' g'. sv_pending ref_views k' g' s @ (if k' = k \<and> g' = g then [i] else []))"
      using r by (intro exI [of _ rest]) (auto simp: views_after_def ref_entries_def ref_pending_def)
  qed (auto simp: views_after_def ref_read_def split: list.splits option.splits)
  have "xack_documented ref_server (ref_views :: ('a ref_streams, 'a) stream_views)"
    by (auto simp: xack_documented_def views_after_def ref_entries_def ref_waiting_def ref_pending_def filter_map
        intro!: arg_cong [where f = "map _"] filter_cong)
  with add rd show ?thesis by (auto simp: streams_documented_def views_after_def)
qed

definition demo_queue_codec :: "(SandboxRequest, string + SandboxRequest) codec" where
  "demo_queue_codec = (\<lambda>x. Inr (Inr x), \<lambda>t. case t of Inr x \<Rightarrow> Inr x | Inl _ \<Rightarrow> Inl ''invalid character'')"

definition demo_stream_env :: "((string + SandboxRequest) ref_streams, string + SandboxRequest) stream_env" where
  "demo_stream_env = \<lparr>se_db = ref_server, se_views = ref_views, se_codec = demo_queue_codec, se_text = Inl, se_now = ''7'', se_polls = 3,
     se_producer = \<lparr>rq_streamKey = ''jobs'', rq_dlqKey = ''jobs:dlq'', rq_consumerGroup = [], rq_consumerName = [], rq_routing = True, rq_sink = False\<rparr>,
     se_consumer = \<lparr>rq_streamKey = ''jobs'', rq_dlqKey = ''jobs:dlq'', rq_consumerGroup = ''agents'', rq_consumerName = ''a1'', rq_routing = False, rq_sink = True\<rparr>\<rparr>"

definition demo_poisoned :: "(string + SandboxRequest) ref_streams" where
  "demo_poisoned = ([(''jobs'', ''0'', [(''data'', Inl ''garbage'')])], [], [])"

definition demo_stream_run :: "SandboxRequest queue_event list \<times> (string + SandboxRequest) ref_streams" where
  "demo_stream_run = qrun (stream_step demo_stream_env) demo_poisoned [EnqOp zero_SandboxRequest, DeqOp, NackOp ''11'', DeqOp, NackOp ''9'']"

theorem redis_queue_account_witness:
  "mset (entered (fst demo_stream_run)) = mset (line_at demo_stream_env (snd demo_stream_run)) +
     flight_at demo_stream_env (snd demo_stream_run) + mset (acked (fst demo_stream_run)) \<and>
   arrivals (fst demo_stream_run) = handed (fst demo_stream_run) @ line_at demo_stream_env (snd demo_stream_run) \<and>
   length (handed (fst demo_stream_run)) = 2 \<and> length (entered (fst demo_stream_run)) = 1"
proof -
  have "faithful demo_queue_codec" by (auto simp: faithful_def demo_queue_codec_def)
  then have ok: "stream_ok demo_stream_env demo_poisoned"
    by (simp add: stream_ok_def demo_stream_env_def demo_poisoned_def ref_streams_documented ref_waiting_def ref_pending_def ref_entries_def)
  have "line_at demo_stream_env demo_poisoned = []" "flight_at demo_stream_env demo_poisoned = {#}" by code_simp+
  moreover have "length (handed (fst demo_stream_run)) = 2" "length (entered (fst demo_stream_run)) = 1" by code_simp+
  moreover have "qrun (stream_step demo_stream_env) demo_poisoned [EnqOp zero_SandboxRequest, DeqOp, NackOp ''11'', DeqOp, NackOp ''9''] =
      (fst demo_stream_run, snd demo_stream_run)" by (simp only: demo_stream_run_def prod.collapse)
  from redis_queue_account [OF ok this] have "mset (line_at demo_stream_env demo_poisoned) + flight_at demo_stream_env demo_poisoned + mset (entered (fst demo_stream_run)) =
      mset (line_at demo_stream_env (snd demo_stream_run)) + flight_at demo_stream_env (snd demo_stream_run) + mset (acked (fst demo_stream_run))"
    "line_at demo_stream_env demo_poisoned @ arrivals (fst demo_stream_run) = handed (fst demo_stream_run) @ line_at demo_stream_env (snd demo_stream_run)" by auto
  ultimately show ?thesis by simp
qed

text \<open>
  Returning a receipt that has been acknowledged puts its job into the line again: the message is still in the
  stream, and the script only asks for that. The same happens to a job that is returned twice.\<close>

theorem nack_after_ack_repeats:
  assumes "stream_ok e s" "job (se_codec e) (entries_at e s) i = Some x" "i \<notin> set (pending_at e s)"
    "Redis_Nack (se_db e) (se_consumer e) i s = (None, s')"
  shows "line_at e s' = line_at e s @ [x]"
  using Nack_line [OF assms(1,4)] assms(2) by simp

text \<open>Acknowledging does not shorten the stream, so the length reported is that of all the jobs ever entered.\<close>

theorem length_counts_acknowledged:
  assumes "stream_ok e s" "Redis_Ack (se_db e) (se_consumer e) i s = (r, s')"
    and "rs_XLEN (se_db e) (rq_streamKey (se_consumer e)) s = Inr m" "rs_XLEN (se_db e) (rq_streamKey (se_consumer e)) s' = Inr m'"
  shows "Redis_Len (se_db e) (se_consumer e) s' = Redis_Len (se_db e) (se_consumer e) s"
proof -
  note doc = stream_okD(1) [OF assms(1)]
  have "entries_at e s' = entries_at e s"
    using assms(2) XACK_views [OF doc] XACK_err_views [OF doc] by (fastforce simp: Redis_Ack_def views_after_def split: prod.splits option.splits)
  then show ?thesis using XLEN_ok [OF doc assms(3)] XLEN_ok [OF doc assms(4)] assms(3,4) by (simp add: Redis_Len_def)
qed

end
