(* ===== verification/Breaker.thy ===== *)
theory Breaker
  imports Prelude
begin

text \<open>
  Circuit breakers (\<open>src/pkg/charon/circuit_breaker.go\<close>) and the wrapper that reports their
  state changes (\<open>TelemetryCircuitBreaker\<close> of \<open>load_balancer.go\<close>). Time is an argument of
  the operations that read the clock. The locale \<open>breaker_interface\<close> is
  \<open>CircuitBreakerInterface\<close> with the laws its users rely on; it is interpreted on both
  implementations. The history theorems run a breaker over an arbitrary list of events, since the
  callers of one breaker interleave freely.
\<close>

section \<open>State and operations\<close>

datatype CircuitBreakerState = StateClosed | StateOpen | StateHalfOpen

definition CircuitBreakerState_String :: "CircuitBreakerState \<Rightarrow> string" where
  "CircuitBreakerState_String s =
     (case s of StateClosed \<Rightarrow> ''closed'' | StateOpen \<Rightarrow> ''open'' | StateHalfOpen \<Rightarrow> ''half-open'')"

record CircuitBreaker =
  cb_threshold :: int
  cb_timeout :: duration
  cb_halfOpenRequests :: int
  cb_state :: CircuitBreakerState
  cb_failures :: int
  cb_successes :: int
  cb_lastFailureTime :: go_time
  cb_halfOpenAttempts :: int

definition NewCircuitBreaker :: "int \<Rightarrow> duration \<Rightarrow> int \<Rightarrow> CircuitBreaker" where
  "NewCircuitBreaker threshold timeout halfOpenRequests =
     \<lparr>cb_threshold = threshold, cb_timeout = timeout, cb_halfOpenRequests = halfOpenRequests,
      cb_state = StateClosed, cb_failures = 0, cb_successes = 0, cb_lastFailureTime = 0,
      cb_halfOpenAttempts = 0\<rparr>"

definition cb_Allow :: "go_time \<Rightarrow> CircuitBreaker \<Rightarrow> bool \<times> CircuitBreaker" where
  "cb_Allow now cb =
     (case cb_state cb of
        StateClosed \<Rightarrow> (True, cb)
      | StateOpen \<Rightarrow>
          if now - cb_lastFailureTime cb \<ge> cb_timeout cb
          then (True, cb\<lparr>cb_state := StateHalfOpen, cb_halfOpenAttempts := 1\<rparr>)
          else (False, cb)
      | StateHalfOpen \<Rightarrow>
          if cb_halfOpenAttempts cb < cb_halfOpenRequests cb
          then (True, cb\<lparr>cb_halfOpenAttempts := cb_halfOpenAttempts cb + 1\<rparr>)
          else (False, cb))"

definition cb_RecordSuccess :: "CircuitBreaker \<Rightarrow> CircuitBreaker" where
  "cb_RecordSuccess cb =
     (case cb_state cb of
        StateClosed \<Rightarrow> cb\<lparr>cb_failures := 0\<rparr>
      | StateOpen \<Rightarrow> cb
      | StateHalfOpen \<Rightarrow>
          let cb = cb\<lparr>cb_successes := cb_successes cb + 1\<rparr>
          in if cb_successes cb \<ge> cb_halfOpenRequests cb
             then cb\<lparr>cb_state := StateClosed, cb_failures := 0, cb_successes := 0, cb_halfOpenAttempts := 0\<rparr>
             else cb)"

definition cb_RecordFailure :: "go_time \<Rightarrow> CircuitBreaker \<Rightarrow> CircuitBreaker" where
  "cb_RecordFailure now cb0 =
     (let cb = cb0\<lparr>cb_lastFailureTime := now\<rparr>
      in case cb_state cb of
           StateClosed \<Rightarrow>
             let cb = cb\<lparr>cb_failures := cb_failures cb + 1\<rparr>
             in if cb_failures cb \<ge> cb_threshold cb then cb\<lparr>cb_state := StateOpen\<rparr> else cb
         | StateOpen \<Rightarrow> cb
         | StateHalfOpen \<Rightarrow> cb\<lparr>cb_state := StateOpen, cb_successes := 0, cb_halfOpenAttempts := 0\<rparr>)"

definition cb_Reset :: "CircuitBreaker \<Rightarrow> CircuitBreaker" where
  "cb_Reset cb = cb\<lparr>cb_state := StateClosed, cb_failures := 0, cb_successes := 0, cb_halfOpenAttempts := 0\<rparr>"

text \<open>The breaker that always lets requests through has no state.\<close>

definition noop_Allow :: "go_time \<Rightarrow> unit \<Rightarrow> bool \<times> unit" where "noop_Allow now cb = (True, cb)"
definition noop_RecordSuccess :: "unit \<Rightarrow> unit" where "noop_RecordSuccess cb = cb"
definition noop_RecordFailure :: "go_time \<Rightarrow> unit \<Rightarrow> unit" where "noop_RecordFailure now cb = cb"
definition noop_State :: "unit \<Rightarrow> CircuitBreakerState" where "noop_State cb = StateClosed"
definition noop_Failures :: "unit \<Rightarrow> int" where "noop_Failures cb = 0"
definition noop_Reset :: "unit \<Rightarrow> unit" where "noop_Reset cb = cb"

lemmas cb_defs = cb_Allow_def cb_RecordSuccess_def cb_RecordFailure_def cb_Reset_def Let_def
lemmas noop_defs = noop_Allow_def noop_RecordSuccess_def noop_RecordFailure_def noop_State_def
  noop_Failures_def noop_Reset_def

section \<open>The interface\<close>

locale breaker_interface =
  fixes Allow :: "go_time \<Rightarrow> 'c \<Rightarrow> bool \<times> 'c"
    and RecordSuccess :: "'c \<Rightarrow> 'c"
    and RecordFailure :: "go_time \<Rightarrow> 'c \<Rightarrow> 'c"
    and State :: "'c \<Rightarrow> CircuitBreakerState"
    and Failures :: "'c \<Rightarrow> int"
    and Reset :: "'c \<Rightarrow> 'c"
  assumes closed_allows: "State c = StateClosed \<Longrightarrow> Allow now c = (True, c)"
    and allow_stays_guarded: "State c \<noteq> StateClosed \<Longrightarrow> State (snd (Allow now c)) \<noteq> StateClosed"
    and success_keeps_closed: "State c = StateClosed \<Longrightarrow> State (RecordSuccess c) = StateClosed \<and> Failures (RecordSuccess c) = 0"
    and failure_never_closes: "State c \<noteq> StateClosed \<Longrightarrow> State (RecordFailure now c) = StateOpen"
    and reset_closes: "State (Reset c) = StateClosed \<and> Failures (Reset c) = 0"
begin

text \<open>The answers and the final breaker of a sequence of requests with no outcome recorded.\<close>

fun allows :: "go_time list \<Rightarrow> 'c \<Rightarrow> bool list \<times> 'c" where
  "allows [] c = ([], c)"
| "allows (t # ts) c =
     (let (ok, c1) = Allow t c; (oks, c2) = allows ts c1 in (ok # oks, c2))"

lemma closed_allows_all: "State c = StateClosed \<Longrightarrow> allows ts c = (replicate (length ts) True, c)"
  by (induction ts) (simp_all add: closed_allows)

lemma allows_stay_guarded: "State c \<noteq> StateClosed \<Longrightarrow> State (snd (allows ts c)) \<noteq> StateClosed"
proof (induction ts arbitrary: c)
  case (Cons t ts)
  then show ?case using allow_stays_guarded [of c t] by (simp add: case_prod_beta)
qed simp

lemma reset_allows_all: "fst (allows ts (Reset c)) = replicate (length ts) True"
  using reset_closes [of c] by (simp add: closed_allows_all)

lemma success_stays_open_to_all:
  "State c = StateClosed \<Longrightarrow> fst (allows ts (RecordSuccess c)) = replicate (length ts) True"
  using success_keeps_closed [of c] by (simp add: closed_allows_all)

end

interpretation cb: breaker_interface cb_Allow cb_RecordSuccess cb_RecordFailure cb_state cb_failures cb_Reset
  by unfold_locales (auto simp: cb_defs split: CircuitBreakerState.splits if_splits)

interpretation noop: breaker_interface noop_Allow noop_RecordSuccess noop_RecordFailure noop_State
    noop_Failures noop_Reset
  by unfold_locales (auto simp: noop_defs)

section \<open>The reporting wrapper\<close>

text \<open>
  A wrapped breaker holds one of the two implementations. \<open>Allow\<close>, \<open>State\<close> and
  \<open>Failures\<close> are those of the wrapped value; the three operations the wrapper overrides return
  the state it reports to the telemetry, if any.
\<close>

datatype breaker_impl = RealBreaker CircuitBreaker | NoOpBreaker

record TelemetryCircuitBreaker =
  tcb_inner :: breaker_impl
  tcb_shoreID :: string
  tcb_lastState :: CircuitBreakerState

definition impl_Allow :: "go_time \<Rightarrow> breaker_impl \<Rightarrow> bool \<times> breaker_impl" where
  "impl_Allow now b =
     (case b of RealBreaker cb \<Rightarrow> map_prod id RealBreaker (cb_Allow now cb)
      | NoOpBreaker \<Rightarrow> (fst (noop_Allow now ()), NoOpBreaker))"

definition impl_RecordSuccess :: "breaker_impl \<Rightarrow> breaker_impl" where
  "impl_RecordSuccess b = (case b of RealBreaker cb \<Rightarrow> RealBreaker (cb_RecordSuccess cb) | NoOpBreaker \<Rightarrow> NoOpBreaker)"

definition impl_RecordFailure :: "go_time \<Rightarrow> breaker_impl \<Rightarrow> breaker_impl" where
  "impl_RecordFailure now b = (case b of RealBreaker cb \<Rightarrow> RealBreaker (cb_RecordFailure now cb) | NoOpBreaker \<Rightarrow> NoOpBreaker)"

definition impl_State :: "breaker_impl \<Rightarrow> CircuitBreakerState" where
  "impl_State b = (case b of RealBreaker cb \<Rightarrow> cb_state cb | NoOpBreaker \<Rightarrow> noop_State ())"

definition impl_Failures :: "breaker_impl \<Rightarrow> int" where
  "impl_Failures b = (case b of RealBreaker cb \<Rightarrow> cb_failures cb | NoOpBreaker \<Rightarrow> noop_Failures ())"

definition impl_Reset :: "breaker_impl \<Rightarrow> breaker_impl" where
  "impl_Reset b = (case b of RealBreaker cb \<Rightarrow> RealBreaker (cb_Reset cb) | NoOpBreaker \<Rightarrow> NoOpBreaker)"

definition checkState :: "TelemetryCircuitBreaker \<Rightarrow> CircuitBreakerState option \<times> TelemetryCircuitBreaker" where
  "checkState tcb =
     (let currentState = impl_State (tcb_inner tcb)
      in if currentState \<noteq> tcb_lastState tcb
         then (Some currentState, tcb\<lparr>tcb_lastState := currentState\<rparr>)
         else (None, tcb))"

definition tcb_Allow :: "go_time \<Rightarrow> TelemetryCircuitBreaker \<Rightarrow> bool \<times> TelemetryCircuitBreaker" where
  "tcb_Allow now tcb = (case impl_Allow now (tcb_inner tcb) of (ok, b) \<Rightarrow> (ok, tcb\<lparr>tcb_inner := b\<rparr>))"

definition tcb_RecordSuccess :: "TelemetryCircuitBreaker \<Rightarrow> CircuitBreakerState option \<times> TelemetryCircuitBreaker" where
  "tcb_RecordSuccess tcb = checkState (tcb\<lparr>tcb_inner := impl_RecordSuccess (tcb_inner tcb)\<rparr>)"

definition tcb_RecordFailure :: "go_time \<Rightarrow> TelemetryCircuitBreaker \<Rightarrow> CircuitBreakerState option \<times> TelemetryCircuitBreaker" where
  "tcb_RecordFailure now tcb = checkState (tcb\<lparr>tcb_inner := impl_RecordFailure now (tcb_inner tcb)\<rparr>)"

definition tcb_Reset :: "TelemetryCircuitBreaker \<Rightarrow> CircuitBreakerState option \<times> TelemetryCircuitBreaker" where
  "tcb_Reset tcb = checkState (tcb\<lparr>tcb_inner := impl_Reset (tcb_inner tcb)\<rparr>)"

abbreviation tcb_State :: "TelemetryCircuitBreaker \<Rightarrow> CircuitBreakerState" where
  "tcb_State tcb \<equiv> impl_State (tcb_inner tcb)"

lemmas impl_defs = impl_Allow_def impl_RecordSuccess_def impl_RecordFailure_def impl_State_def
  impl_Failures_def impl_Reset_def
lemmas tcb_defs = tcb_Allow_def tcb_RecordSuccess_def tcb_RecordFailure_def tcb_Reset_def
  checkState_def Let_def

text \<open>The wrapper keeps the contract, whichever implementation it wraps.\<close>

interpretation tcb: breaker_interface tcb_Allow "\<lambda>c. snd (tcb_RecordSuccess c)"
    "\<lambda>now c. snd (tcb_RecordFailure now c)" tcb_State "\<lambda>c. impl_Failures (tcb_inner c)"
    "\<lambda>c. snd (tcb_Reset c)"
proof
  fix c :: TelemetryCircuitBreaker and now :: go_time
  show "tcb_State c = StateClosed \<Longrightarrow> tcb_Allow now c = (True, c)"
    by (cases c; cases "tcb_inner c")
       (auto simp: tcb_defs impl_defs noop_defs cb.closed_allows)
  show "tcb_State c \<noteq> StateClosed \<Longrightarrow> tcb_State (snd (tcb_Allow now c)) \<noteq> StateClosed"
    using cb.allow_stays_guarded
    by (cases "tcb_inner c") (auto simp: tcb_defs impl_defs noop_defs case_prod_beta)
  show "tcb_State c = StateClosed \<Longrightarrow> tcb_State (snd (tcb_RecordSuccess c)) = StateClosed \<and>
      impl_Failures (tcb_inner (snd (tcb_RecordSuccess c))) = 0"
    using cb.success_keeps_closed
    by (cases "tcb_inner c") (auto simp: tcb_defs impl_defs noop_defs)
  show "tcb_State c \<noteq> StateClosed \<Longrightarrow> tcb_State (snd (tcb_RecordFailure now c)) = StateOpen"
    using cb.failure_never_closes
    by (cases "tcb_inner c") (auto simp: tcb_defs impl_defs noop_defs)
  show "tcb_State (snd (tcb_Reset c)) = StateClosed \<and> impl_Failures (tcb_inner (snd (tcb_Reset c))) = 0"
    using cb.reset_closes
    by (cases "tcb_inner c") (auto simp: tcb_defs impl_defs noop_defs)
qed

lemma tcb_reports_latest:
  "tcb_lastState (snd (tcb_RecordSuccess c)) = tcb_State (snd (tcb_RecordSuccess c))"
  "tcb_lastState (snd (tcb_RecordFailure now c)) = tcb_State (snd (tcb_RecordFailure now c))"
  "tcb_lastState (snd (tcb_Reset c)) = tcb_State (snd (tcb_Reset c))"
  by (simp_all add: tcb_defs)

section \<open>Histories\<close>

text \<open>
  The calls a breaker receives, in the order its mutex lets them through. Outcomes may arrive
  without a matching admission in the history (requests admitted while it was closed).
\<close>

datatype breaker_event = EvAllow go_time | EvSuccess | EvFailure go_time | EvReset

fun breaker_step :: "breaker_event \<Rightarrow> CircuitBreaker \<Rightarrow> CircuitBreaker" where
  "breaker_step (EvAllow now) cb = snd (cb_Allow now cb)"
| "breaker_step EvSuccess cb = cb_RecordSuccess cb"
| "breaker_step (EvFailure now) cb = cb_RecordFailure now cb"
| "breaker_step EvReset cb = cb_Reset cb"

definition breaker_run :: "breaker_event list \<Rightarrow> CircuitBreaker \<Rightarrow> CircuitBreaker" where
  "breaker_run es cb = fold breaker_step es cb"

lemma breaker_run_simps [simp]:
  "breaker_run [] cb = cb"
  "breaker_run (es @ es') cb = breaker_run es' (breaker_run es cb)"
  "breaker_run [e] cb = breaker_step e cb"
  by (simp_all add: breaker_run_def)

lemma breaker_config_kept:
  "cb_threshold (breaker_step e cb) = cb_threshold cb"
  "cb_timeout (breaker_step e cb) = cb_timeout cb"
  "cb_halfOpenRequests (breaker_step e cb) = cb_halfOpenRequests cb"
  by (cases e; auto simp: cb_defs split: CircuitBreakerState.splits)+

lemma breaker_run_config [simp]:
  "cb_threshold (breaker_run es cb) = cb_threshold cb"
  "cb_timeout (breaker_run es cb) = cb_timeout cb"
  "cb_halfOpenRequests (breaker_run es cb) = cb_halfOpenRequests cb"
  by (induction es rule: rev_induct) (simp_all add: breaker_config_kept)

lemma NewCircuitBreaker_simps [simp]:
  "cb_threshold (NewCircuitBreaker th to h) = th" "cb_timeout (NewCircuitBreaker th to h) = to"
  "cb_halfOpenRequests (NewCircuitBreaker th to h) = h" "cb_state (NewCircuitBreaker th to h) = StateClosed"
  "cb_failures (NewCircuitBreaker th to h) = 0" "cb_successes (NewCircuitBreaker th to h) = 0"
  "cb_halfOpenAttempts (NewCircuitBreaker th to h) = 0"
  by (simp_all add: NewCircuitBreaker_def)

text \<open>
  The counters stay within the configuration: none of them can overflow, and each is meaningful
  only in its state.
\<close>

definition breaker_inv :: "CircuitBreaker \<Rightarrow> bool" where
  "breaker_inv cb \<longleftrightarrow>
     (case cb_state cb of
        StateClosed \<Rightarrow> 0 \<le> cb_failures cb \<and> cb_failures cb < max 1 (cb_threshold cb) \<and>
          cb_successes cb = 0 \<and> cb_halfOpenAttempts cb = 0
      | StateOpen \<Rightarrow> cb_successes cb = 0 \<and> cb_halfOpenAttempts cb = 0
      | StateHalfOpen \<Rightarrow> 0 \<le> cb_successes cb \<and> cb_successes cb < max 1 (cb_halfOpenRequests cb) \<and>
          1 \<le> cb_halfOpenAttempts cb \<and> cb_halfOpenAttempts cb \<le> max 1 (cb_halfOpenRequests cb))"

lemma breaker_inv_step: "breaker_inv cb \<Longrightarrow> breaker_inv (breaker_step e cb)"
  by (cases e; cases "cb_state cb") (auto simp: breaker_inv_def cb_defs max_def split: if_splits)

lemma breaker_inv_run: "breaker_inv (breaker_run es (NewCircuitBreaker th to h))"
proof (induction es rule: rev_induct)
  case Nil
  then show ?case by (simp add: breaker_inv_def)
next
  case (snoc e es)
  then show ?case using breaker_inv_step by simp
qed

text \<open>The failures since the last success or reset, admissions not counting.\<close>

fun streak_from :: "int \<Rightarrow> breaker_event list \<Rightarrow> int" where
  "streak_from n [] = n"
| "streak_from n (EvAllow _ # es) = streak_from n es"
| "streak_from n (EvSuccess # es) = streak_from 0 es"
| "streak_from n (EvFailure _ # es) = streak_from (n + 1) es"
| "streak_from n (EvReset # es) = streak_from 0 es"

abbreviation streak :: "breaker_event list \<Rightarrow> int" where
  "streak \<equiv> streak_from 0"

lemma streak_from_append: "streak_from n (es @ es') = streak_from (streak_from n es) es'"
  by (induction n es rule: streak_from.induct) simp_all

lemma closed_counts_streak:
  "cb_state (breaker_run es (NewCircuitBreaker th to h)) = StateClosed \<Longrightarrow>
   cb_failures (breaker_run es (NewCircuitBreaker th to h)) = streak es"
proof (induction es rule: rev_induct)
  case Nil
  then show ?case by simp
next
  case (snoc e es)
  then show ?case
    by (cases e)
       (auto simp: streak_from_append cb_defs split: CircuitBreakerState.splits if_splits)
qed

lemma short_streaks_stay_closed:
  assumes "\<forall>n \<le> length es. streak (take n es) < th"
  shows "cb_state (breaker_run es (NewCircuitBreaker th to h)) = StateClosed"
  using assms
proof (induction es rule: rev_induct)
  case Nil
  then show ?case by simp
next
  case (snoc e es)
  let ?cb = "breaker_run es (NewCircuitBreaker th to h)"
  have "\<forall>n \<le> length es. streak (take n es) < th"
  proof (intro allI impI)
    fix n assume "n \<le> length es"
    with snoc.prems [rule_format, of n] show "streak (take n es) < th" by simp
  qed
  then have closed: "cb_state ?cb = StateClosed" by (rule snoc.IH)
  have "streak (es @ [e]) < th"
    using snoc.prems [rule_format, of "length (es @ [e])"] by simp
  with closed closed_counts_streak [OF closed] show ?case
    by (cases e) (simp_all add: cb_defs streak_from_append)
qed

lemma long_streak_opens:
  assumes "th \<le> streak (es @ [EvFailure now])"
  shows "cb_state (breaker_run (es @ [EvFailure now]) (NewCircuitBreaker th to h)) = StateOpen"
proof (cases "cb_state (breaker_run es (NewCircuitBreaker th to h)) = StateClosed")
  case True
  then show ?thesis using assms closed_counts_streak [OF True]
    by (simp add: cb_defs streak_from_append)
next
  case False
  then show ?thesis using cb.failure_never_closes by simp
qed

lemma opens_iff:
  assumes "cb_state (breaker_run es (NewCircuitBreaker th to h)) \<noteq> StateOpen"
  shows "cb_state (breaker_run (es @ [e]) (NewCircuitBreaker th to h)) = StateOpen \<longleftrightarrow>
    (\<exists>t. e = EvFailure t) \<and>
    (cb_state (breaker_run es (NewCircuitBreaker th to h)) = StateHalfOpen \<or> th \<le> streak (es @ [e]))"
proof (cases "cb_state (breaker_run es (NewCircuitBreaker th to h))")
  case StateClosed
  then show ?thesis using closed_counts_streak [OF StateClosed]
    by (cases e) (auto simp: cb_defs streak_from_append)
next
  case StateHalfOpen
  then show ?thesis by (cases e) (auto simp: cb_defs)
qed (use assms in simp)

text \<open>
  C17: When a breaker with a threshold of at least one opens, after any history of calls. As long as no
  run of failures without a success or a reset in between has reached the threshold, it is closed; a
  failure that completes such a run leaves it open. A call opens a breaker that is not open exactly
  when it records a failure and the breaker is half-open, where one failure is enough, or the failure
  completes a run as long as the threshold. While it is closed its failure counter is the length of the
  current run, which is below the threshold.
\<close>

theorem breaker_trips:
  assumes "1 \<le> th"
  defines "run \<equiv> (\<lambda>to h es. breaker_run es (NewCircuitBreaker th to h))"
  shows "((\<forall>n \<le> length es. streak (take n es) < th) \<longrightarrow> cb_state (run to h es) = StateClosed) \<and>
    (th \<le> streak (es @ [EvFailure now]) \<longrightarrow> cb_state (run to h (es @ [EvFailure now])) = StateOpen) \<and>
    (cb_state (run to h es) \<noteq> StateOpen \<longrightarrow>
       (cb_state (run to h (es @ [e])) = StateOpen \<longleftrightarrow>
          (\<exists>t. e = EvFailure t) \<and> (cb_state (run to h es) = StateHalfOpen \<or> th \<le> streak (es @ [e])))) \<and>
    (cb_state (run to h es) = StateClosed \<longrightarrow> cb_failures (run to h es) = streak es \<and> streak es < th)"
proof -
  have "cb_state (run to h es) = StateClosed \<Longrightarrow> streak es < th"
    using breaker_inv_run [of es th to h] closed_counts_streak [of es th to h] assms
    by (simp add: breaker_inv_def run_def)
  then show ?thesis
    unfolding run_def using short_streaks_stay_closed long_streak_opens closed_counts_streak opens_iff by blast
qed

theorem breaker_trips_witness:
  "cb_state (breaker_run [EvFailure 1, EvSuccess, EvFailure 2] (NewCircuitBreaker 2 30 1)) = StateClosed \<and>
   cb_state (breaker_run ([EvFailure 1, EvSuccess, EvFailure 2] @ [EvFailure 3]) (NewCircuitBreaker 2 30 1)) = StateOpen \<and>
   cb_state (breaker_run ([EvFailure 1, EvFailure 2, EvAllow 40] @ [EvFailure 41]) (NewCircuitBreaker 2 30 1)) = StateOpen"
proof -
  have "\<forall>n \<le> length [EvFailure 1, EvSuccess, EvFailure 2].
      streak (take n [EvFailure 1, EvSuccess, EvFailure 2]) < 2"
    by (auto simp: le_Suc_eq numeral_3_eq_3)
  then show ?thesis
    using breaker_trips [where th = 2 and to = 30 and h = 1 and es = "[EvFailure 1, EvSuccess, EvFailure 2]"
      and now = 3]
      breaker_trips [where th = 2 and to = 30 and h = 1 and es = "[EvFailure 1, EvFailure 2, EvAllow 40]" and e = "EvFailure 41"]
    by (auto simp: cb_defs NewCircuitBreaker_def)
qed

section \<open>Open and half-open breakers\<close>

text \<open>How many of a sequence of requests are admitted when no outcome is recorded.\<close>

definition admitted :: "go_time list \<Rightarrow> CircuitBreaker \<Rightarrow> nat" where
  "admitted ts cb = length (filter id (fst (cb.allows ts cb)))"

lemma admitted_simps [simp]:
  "admitted [] cb = 0"
  "admitted (t # ts) cb = (if fst (cb_Allow t cb) then 1 else 0) + admitted ts (snd (cb_Allow t cb))"
  by (simp_all add: admitted_def case_prod_beta)

lemma open_refuses_early:
  "cb_state cb = StateOpen \<Longrightarrow> \<forall>t\<in>set ts. t - cb_lastFailureTime cb < cb_timeout cb \<Longrightarrow>
   cb.allows ts cb = (replicate (length ts) False, cb)"
  by (induction ts) (simp_all add: cb_Allow_def)

lemma half_open_budget:
  "breaker_inv cb \<Longrightarrow> cb_state cb = StateHalfOpen \<Longrightarrow>
   int (admitted ts cb) + cb_halfOpenAttempts cb \<le> max 1 (cb_halfOpenRequests cb)"
proof (induction ts arbitrary: cb)
  case Nil
  then show ?case by (simp add: breaker_inv_def)
next
  case (Cons t ts)
  show ?case
  proof (cases "cb_halfOpenAttempts cb < cb_halfOpenRequests cb")
    case True
    let ?cb = "cb\<lparr>cb_halfOpenAttempts := cb_halfOpenAttempts cb + 1\<rparr>"
    have step: "cb_Allow t cb = (True, ?cb)" using Cons.prems True by (simp add: cb_Allow_def)
    have "breaker_inv ?cb" using breaker_inv_step [OF Cons.prems(1), of "EvAllow t"] step by simp
    then show ?thesis using Cons.IH [of ?cb] Cons.prems step by simp
  next
    case False
    then show ?thesis using Cons by (simp add: cb_Allow_def)
  qed
qed

lemma open_budget:
  "breaker_inv cb \<Longrightarrow> cb_state cb = StateOpen \<Longrightarrow> int (admitted ts cb) \<le> max 1 (cb_halfOpenRequests cb)"
proof (induction ts)
  case (Cons t ts)
  show ?case
  proof (cases "t - cb_lastFailureTime cb \<ge> cb_timeout cb")
    case True
    let ?cb = "cb\<lparr>cb_state := StateHalfOpen, cb_halfOpenAttempts := 1\<rparr>"
    have step: "cb_Allow t cb = (True, ?cb)" using Cons.prems True by (simp add: cb_Allow_def)
    have "breaker_inv ?cb" using breaker_inv_step [OF Cons.prems(1), of "EvAllow t"] step by simp
    then show ?thesis using half_open_budget [of ?cb ts] step by simp
  next
    case False
    then show ?thesis using Cons by (simp add: cb_Allow_def)
  qed
qed simp

text \<open>
  An open breaker shields its backend. Whatever led to the open state, requests that come
  before the timeout has passed since the last recorded failure are all refused and leave the
  breaker as it is; and of any further requests, at any times, at most the configured number of
  probes (one, if less was configured) is admitted until an outcome is recorded.
\<close>

theorem open_breaker_shields:
  assumes "cb_state (breaker_run es (NewCircuitBreaker th to h)) = StateOpen"
  defines "cb \<equiv> breaker_run es (NewCircuitBreaker th to h)"
  shows "((\<forall>t\<in>set ts. t - cb_lastFailureTime cb < to) \<longrightarrow>
      cb.allows ts cb = (replicate (length ts) False, cb)) \<and>
    int (admitted ts cb) \<le> max 1 h"
  using open_refuses_early [of cb ts] open_budget [of cb ts] breaker_inv_run [of es th to h] assms
  by (simp add: cb_def)

theorem open_breaker_shields_witness:
  "int (admitted [10, 20, 40, 41, 42, 43] (breaker_run [EvFailure 5] (NewCircuitBreaker 1 30 2))) \<le> max 1 2 \<and>
   cb_state (breaker_run [EvFailure 5] (NewCircuitBreaker 1 30 2)) = StateOpen"
proof -
  have "cb_state (breaker_run [EvFailure 5] (NewCircuitBreaker 1 30 2)) = StateOpen"
    by (simp add: cb_defs)
  with open_breaker_shields [of "[EvFailure 5]" 1 30 2 "[10, 20, 40, 41, 42, 43]"] show ?thesis by simp
qed

lemma half_open_success_count:
  assumes "breaker_inv cb" "cb_state cb = StateHalfOpen"
  shows "cb_state (breaker_run (replicate n EvSuccess) cb) =
      (if int n + cb_successes cb \<ge> max 1 (cb_halfOpenRequests cb) \<and> n > 0 then StateClosed else StateHalfOpen)"
  using assms
proof (induction n arbitrary: cb)
  case 0
  then show ?case by simp
next
  case (Suc n)
  let ?cb = "cb_RecordSuccess cb"
  have run: "breaker_run (replicate (Suc n) EvSuccess) cb = breaker_run (replicate n EvSuccess) ?cb"
    by (simp add: breaker_run_def)
  show ?case
  proof (cases "cb_successes cb + 1 \<ge> cb_halfOpenRequests cb")
    case True
    have "cb_state (breaker_run (replicate n EvSuccess) c) = StateClosed" if "cb_state c = StateClosed" for c
      using that by (induction n arbitrary: c) (simp_all add: breaker_run_def cb_RecordSuccess_def)
    moreover have "cb_state ?cb = StateClosed" using Suc.prems True by (simp add: cb_defs)
    ultimately show ?thesis using run True Suc.prems by (simp add: breaker_inv_def)
  next
    case False
    have "breaker_inv ?cb" using breaker_inv_step [OF Suc.prems(1), of EvSuccess] by simp
    moreover have "cb_state ?cb = StateHalfOpen" "cb_successes ?cb = cb_successes cb + 1"
      "cb_halfOpenRequests ?cb = cb_halfOpenRequests cb"
      using Suc.prems False by (simp_all add: cb_defs)
    ultimately show ?thesis using Suc.IH [of ?cb] run False by auto
  qed
qed

text \<open>
  An open breaker recovers. Once the timeout has passed since the last failure the next
  request is admitted and the breaker is half-open; it then stays half-open while fewer than the
  configured number of successes is recorded, closes with the next one (the first, if less than
  one was configured), and a single failure before that opens it again.
\<close>

theorem open_breaker_recovers:
  assumes "cb_state (breaker_run es (NewCircuitBreaker th to h)) = StateOpen"
    and "now - cb_lastFailureTime (breaker_run es (NewCircuitBreaker th to h)) \<ge> to"
    and "int n < max 1 h"
  defines "after \<equiv> \<lambda>n. breaker_run (replicate n EvSuccess)
      (snd (cb_Allow now (breaker_run es (NewCircuitBreaker th to h))))"
  shows "fst (cb_Allow now (breaker_run es (NewCircuitBreaker th to h))) \<and>
    cb_state (after n) = StateHalfOpen \<and>
    cb_state (after (nat (max 1 h))) = StateClosed \<and>
    cb_state (cb_RecordFailure later (after n)) = StateOpen"
proof -
  let ?open = "breaker_run es (NewCircuitBreaker th to h)"
  let ?cb = "?open\<lparr>cb_state := StateHalfOpen, cb_halfOpenAttempts := 1\<rparr>"
  have step: "cb_Allow now ?open = (True, ?cb)" using assms(1,2) by (simp add: cb_Allow_def)
  have inv: "breaker_inv ?cb"
    using breaker_inv_step [OF breaker_inv_run, of "EvAllow now" es th to h] step by simp
  have succ: "cb_successes ?cb = 0"
    using breaker_inv_run [of es th to h] assms(1) by (simp add: breaker_inv_def)
  have half: "cb_state (after n) = StateHalfOpen"
    using half_open_success_count [OF inv, of n] succ step assms(3)
    by (cases "h \<le> 1") (auto simp: after_def max_def split: if_splits)
  moreover have "cb_state (after (nat (max 1 h))) = StateClosed"
    using half_open_success_count [OF inv, of "nat (max 1 h)"] succ step
    by (cases "h \<le> 1") (auto simp: after_def max_def split: if_splits)
  moreover have "cb_state (cb_RecordFailure later (after n)) = StateOpen"
    using half cb.failure_never_closes by simp
  ultimately show ?thesis using step by simp
qed

theorem open_breaker_recovers_witness:
  "cb_state (breaker_run (replicate (nat (max 1 2)) EvSuccess)
     (snd (cb_Allow 40 (breaker_run [EvFailure 5] (NewCircuitBreaker 1 30 2))))) = StateClosed"
  using open_breaker_recovers [of "[EvFailure 5]" 1 30 2 40 1 0] by (simp add: cb_defs)

text \<open>A half-open breaker whose probes are used up refuses every request until an outcome arrives.\<close>

lemma exhausted_half_open_refuses:
  "cb_state cb = StateHalfOpen \<Longrightarrow> cb_halfOpenRequests cb \<le> cb_halfOpenAttempts cb \<Longrightarrow>
   cb.allows ts cb = (replicate (length ts) False, cb)"
  by (induction ts) (simp_all add: cb_Allow_def)

end
