(* ===== verification/HashRing.thy ===== *)
theory HashRing
  imports Prelude
begin

unbundle bit_operations_syntax

text \<open>
  The consistent hash ring of the load balancer (\<open>src/pkg/charon/consistent_hash.go\<close>), with
  the library code it rests on: CRC-32 (IEEE polynomial, reflected) bit by bit, and
  \<open>sort.Search\<close>, the binary search. Hashes are 32-bit words; a string is its bytes. Sorting
  32-bit words with \<open><\<close> has one possible result, HOL's \<open>sort\<close>.

  The position of a node relative to a key is the word difference \<open>x - h\<close>, which wraps around
  and so is the clockwise distance from \<open>h\<close> to \<open>x\<close> on the ring; the specification of a
  lookup is the node at the least distance.
\<close>

section \<open>CRC-32 and binary search\<close>

definition crc32_bit :: "32 word \<Rightarrow> 32 word" where
  "crc32_bit crc = (if crc AND 1 = 1 then drop_bit 1 crc XOR 0xEDB88320 else drop_bit 1 crc)"

definition crc32_byte :: "32 word \<Rightarrow> char \<Rightarrow> 32 word" where
  "crc32_byte crc c = (crc32_bit ^^ 8) (crc XOR of_char c)"

definition ChecksumIEEE :: "string \<Rightarrow> 32 word" where
  "ChecksumIEEE bytes = foldl crc32_byte 0xFFFFFFFF bytes XOR 0xFFFFFFFF"

lemma crc32_byte_eval:
  "crc32_byte crc c = crc32_bit (crc32_bit (crc32_bit (crc32_bit (crc32_bit (crc32_bit (crc32_bit (crc32_bit
     (crc XOR of_char c))))))))"
  by (simp add: crc32_byte_def eval_nat_numeral)

lemmas crc32_eval = ChecksumIEEE_def crc32_byte_eval crc32_bit_def

lemma ChecksumIEEE_check_value: "ChecksumIEEE ''123456789'' = 0xCBF43926"
  by (simp add: crc32_eval)

function search_loop :: "(nat \<Rightarrow> bool) \<Rightarrow> nat \<Rightarrow> nat \<Rightarrow> nat" where
  "search_loop f i j =
     (if i < j then
        let h = (i + j) div 2
        in if \<not> f h then search_loop f (h + 1) j else search_loop f i h
      else i)"
  by auto
termination
  by (relation "measure (\<lambda>(f, i, j). j - i)") auto

declare search_loop.simps [simp del]

definition sort_Search :: "nat \<Rightarrow> (nat \<Rightarrow> bool) \<Rightarrow> nat" where
  "sort_Search n f = search_loop f 0 n"

lemma search_loop_spec:
  assumes "\<forall>a b. a \<le> b \<longrightarrow> b < n \<longrightarrow> f a \<longrightarrow> f b" "i \<le> j" "j \<le> n"
    and "\<forall>k < i. \<not> f k" "\<forall>k. j \<le> k \<longrightarrow> k < n \<longrightarrow> f k"
  shows "search_loop f i j \<le> n \<and> (\<forall>k < search_loop f i j. \<not> f k) \<and>
    (\<forall>k. search_loop f i j \<le> k \<longrightarrow> k < n \<longrightarrow> f k)"
  using assms
proof (induction f i j rule: search_loop.induct)
  case (1 f i j)
  show ?case
  proof (cases "i < j")
    case False
    then have "search_loop f i j = i" by (subst search_loop.simps) simp
    then show ?thesis using "1.prems" False by simp
  next
    case True
    let ?h = "(i + j) div 2"
    have h: "i \<le> ?h" "?h < j" "?h \<le> n" "?h + 1 \<le> j" using True "1.prems"(3) by auto
    show ?thesis
    proof (cases "f ?h")
      case fh: True
      have above: "\<forall>k. ?h \<le> k \<longrightarrow> k < n \<longrightarrow> f k" using "1.prems"(1) fh by blast
      have eq: "search_loop f i j = search_loop f i ?h"
        using True fh by (subst search_loop.simps) (simp add: Let_def)
      have nn: "\<not> \<not> f ?h" using fh by simp
      show ?thesis unfolding eq
        by (rule "1.IH"(2) [OF True refl nn "1.prems"(1) h(1) h(3) "1.prems"(4) above])
    next
      case fh: False
      have below: "\<forall>k < ?h + 1. \<not> f k"
      proof (intro allI impI notI)
        fix k assume "k < ?h + 1" and "f k"
        then have "k \<le> ?h" "?h < n" using h "1.prems"(3) by auto
        with \<open>f k\<close> "1.prems"(1) fh show False by blast
      qed
      have eq: "search_loop f i j = search_loop f (?h + 1) j"
        using True fh by (subst search_loop.simps) (simp add: Let_def)
      show ?thesis unfolding eq
        by (rule "1.IH"(1) [OF True refl fh "1.prems"(1) h(4) "1.prems"(3) below "1.prems"(5)])
    qed
  qed
qed

lemma sort_Search_spec:
  assumes "\<forall>a b. a \<le> b \<longrightarrow> b < n \<longrightarrow> f a \<longrightarrow> f b"
  shows "sort_Search n f \<le> n \<and> (\<forall>k < sort_Search n f. \<not> f k) \<and>
    (\<forall>k. sort_Search n f \<le> k \<longrightarrow> k < n \<longrightarrow> f k)"
  using search_loop_spec [of n f 0 n, OF assms] unfolding sort_Search_def by simp

section \<open>The ring\<close>

record ConsistentHashRing =
  ring_virtualNodes :: "(32 word, string) gomap"
  ring_sortedHashes :: "32 word list"
  ring_replicas :: int

definition NewConsistentHashRing :: "int \<Rightarrow> ConsistentHashRing" where
  "NewConsistentHashRing replicas =
     \<lparr>ring_virtualNodes = [], ring_sortedHashes = [],
      ring_replicas = (if replicas \<le> 0 then 150 else replicas)\<rparr>"

definition hashKey :: "string \<Rightarrow> 32 word" where
  "hashKey key = ChecksumIEEE key"

definition virtualKey :: "string \<Rightarrow> nat \<Rightarrow> string" where
  "virtualKey shoreID i = shoreID @ ''#'' @ itoa i"

definition add_vnode :: "string \<Rightarrow> nat \<Rightarrow> ConsistentHashRing \<Rightarrow> ConsistentHashRing" where
  "add_vnode shoreID i r =
     (let hash = hashKey (virtualKey shoreID i)
      in r\<lparr>ring_virtualNodes := put (ring_virtualNodes r) hash shoreID,
           ring_sortedHashes := ring_sortedHashes r @ [hash]\<rparr>)"

definition ring_Add :: "string \<Rightarrow> ConsistentHashRing \<Rightarrow> ConsistentHashRing" where
  "ring_Add shoreID r =
     (let r = fold (add_vnode shoreID) [0..<nat (ring_replicas r)] r
      in r\<lparr>ring_sortedHashes := sort (ring_sortedHashes r)\<rparr>)"

definition del_vnode :: "string \<Rightarrow> nat \<Rightarrow> ConsistentHashRing \<Rightarrow> ConsistentHashRing" where
  "del_vnode shoreID i r =
     r\<lparr>ring_virtualNodes := del (ring_virtualNodes r) (hashKey (virtualKey shoreID i))\<rparr>"

definition ring_Remove :: "string \<Rightarrow> ConsistentHashRing \<Rightarrow> ConsistentHashRing" where
  "ring_Remove shoreID r =
     (let r = fold (del_vnode shoreID) [0..<nat (ring_replicas r)] r
      in r\<lparr>ring_sortedHashes := sort (map fst (ring_virtualNodes r))\<rparr>)"

text \<open>The position of the first node at or after the hash of a key, wrapping around.\<close>

definition start_index :: "32 word \<Rightarrow> 32 word list \<Rightarrow> nat" where
  "start_index hash hs =
     (let idx = sort_Search (length hs) (\<lambda>i. hs ! i \<ge> hash) in if idx \<ge> length hs then 0 else idx)"

definition ring_Get :: "ConsistentHashRing \<Rightarrow> string \<Rightarrow> string" where
  "ring_Get r key =
     (if ring_sortedHashes r = [] then []
      else get_or [] (ring_virtualNodes r)
             (ring_sortedHashes r ! start_index (hashKey key) (ring_sortedHashes r)))"

fun getn_loop ::
    "ConsistentHashRing \<Rightarrow> int \<Rightarrow> nat \<Rightarrow> nat list \<Rightarrow> (string, bool) gomap \<Rightarrow> string list \<Rightarrow> string list" where
  "getn_loop r n idx [] seen result = result"
| "getn_loop r n idx (i # is) seen result =
     (if int (length result) < n then
        let pos = (idx + i) mod length (ring_sortedHashes r);
            shoreID = get_or [] (ring_virtualNodes r) (ring_sortedHashes r ! pos)
        in if \<not> get_or False seen shoreID
           then getn_loop r n idx is (put seen shoreID True) (result @ [shoreID])
           else getn_loop r n idx is seen result
      else result)"

definition ring_GetN :: "ConsistentHashRing \<Rightarrow> string \<Rightarrow> int \<Rightarrow> string list" where
  "ring_GetN r key n =
     (if ring_sortedHashes r = [] \<or> n \<le> 0 then []
      else getn_loop r n (start_index (hashKey key) (ring_sortedHashes r))
             [0..<length (ring_sortedHashes r)] [] [])"

definition ring_Size :: "ConsistentHashRing \<Rightarrow> nat" where
  "ring_Size r = length (remdups (map snd (ring_virtualNodes r)))"

section \<open>What the operations do to the virtual nodes\<close>

text \<open>The virtual nodes of a shore.\<close>

definition vnodes :: "ConsistentHashRing \<Rightarrow> string \<Rightarrow> 32 word set" where
  "vnodes r s = (\<lambda>i. hashKey (virtualKey s i)) ` {0..<nat (ring_replicas r)}"

definition owner :: "ConsistentHashRing \<Rightarrow> 32 word \<Rightarrow> string option" where
  "owner r = get (ring_virtualNodes r)"

lemma fold_add_vnode:
  "gomap_ok (ring_virtualNodes r) \<Longrightarrow>
   gomap_ok (ring_virtualNodes (fold (add_vnode s) is r)) \<and>
   get (ring_virtualNodes (fold (add_vnode s) is r)) =
     (\<lambda>h. if h \<in> (\<lambda>i. hashKey (virtualKey s i)) ` set is then Some s else get (ring_virtualNodes r) h) \<and>
   set (ring_sortedHashes (fold (add_vnode s) is r)) =
     set (ring_sortedHashes r) \<union> (\<lambda>i. hashKey (virtualKey s i)) ` set is \<and>
   ring_replicas (fold (add_vnode s) is r) = ring_replicas r"
  by (induction "is" arbitrary: r) (auto simp: add_vnode_def Let_def fun_eq_iff)

lemma fold_del_vnode:
  "gomap_ok (ring_virtualNodes r) \<Longrightarrow>
   gomap_ok (ring_virtualNodes (fold (del_vnode s) is r)) \<and>
   get (ring_virtualNodes (fold (del_vnode s) is r)) =
     (\<lambda>h. if h \<in> (\<lambda>i. hashKey (virtualKey s i)) ` set is then None else get (ring_virtualNodes r) h) \<and>
   ring_replicas (fold (del_vnode s) is r) = ring_replicas r"
  by (induction "is" arbitrary: r) (auto simp: del_vnode_def fun_eq_iff)

text \<open>
  The ring invariant: the sorted hashes are exactly the positions of the virtual nodes (a position
  may be listed twice after a collision).
\<close>

definition ring_inv :: "ConsistentHashRing \<Rightarrow> bool" where
  "ring_inv r \<longleftrightarrow> gomap_ok (ring_virtualNodes r) \<and> sorted (ring_sortedHashes r) \<and>
     set (ring_sortedHashes r) = dom (owner r)"

lemma dom_get: "dom (get m) = fst ` set m"
  by (simp add: get_def [abs_def] dom_map_of_conv_image_fst)

lemma ring_inv_New [simp]: "ring_inv (NewConsistentHashRing n)"
  by (simp add: ring_inv_def NewConsistentHashRing_def owner_def dom_get)

lemma ring_Add_effect:
  assumes "ring_inv r"
  shows "ring_inv (ring_Add s r)"
    and "owner (ring_Add s r) = (\<lambda>h. if h \<in> vnodes r s then Some s else owner r h)"
    and "ring_replicas (ring_Add s r) = ring_replicas r"
  using fold_add_vnode [of r s "[0..<nat (ring_replicas r)]"] assms
  by (auto simp: ring_inv_def ring_Add_def Let_def owner_def vnodes_def fun_eq_iff split: if_splits)

lemma ring_Remove_effect:
  assumes "ring_inv r"
  shows "ring_inv (ring_Remove s r)"
    and "owner (ring_Remove s r) = (\<lambda>h. if h \<in> vnodes r s then None else owner r h)"
    and "ring_replicas (ring_Remove s r) = ring_replicas r"
  using fold_del_vnode [of r s "[0..<nat (ring_replicas r)]"] assms
  by (auto simp: ring_inv_def ring_Remove_def Let_def owner_def vnodes_def fun_eq_iff dom_get
      simp flip: dom_get)

section \<open>Lookups\<close>

text \<open>The node at the least clockwise distance from a hash.\<close>

definition nearest :: "32 word set \<Rightarrow> 32 word \<Rightarrow> 32 word \<Rightarrow> bool" where
  "nearest S h x \<longleftrightarrow> x \<in> S \<and> (\<forall>y\<in>S. x - h \<le> y - h)"

lemma clockwise:
  fixes h x y :: "'a::len word"
  shows "h \<le> x \<Longrightarrow> x \<le> y \<Longrightarrow> x - h \<le> y - h"
    and "h \<le> x \<Longrightarrow> y < h \<Longrightarrow> x - h \<le> y - h"
    and "x \<le> y \<Longrightarrow> y < h \<Longrightarrow> x - h \<le> y - h"
proof -
  have b: "uint x < 2 ^ LENGTH('a)" "0 \<le> uint y" by simp_all
  note ord = word_le_def word_less_def uint_sub_if'
  show "h \<le> x \<Longrightarrow> x \<le> y \<Longrightarrow> x - h \<le> y - h" by (simp add: ord)
  show "h \<le> x \<Longrightarrow> y < h \<Longrightarrow> x - h \<le> y - h" by (simp add: ord) (use b in linarith)
  show "x \<le> y \<Longrightarrow> y < h \<Longrightarrow> x - h \<le> y - h" by (simp add: ord)
qed

lemma nearest_unique: "nearest S h x \<Longrightarrow> nearest S h y \<Longrightarrow> x = y"
  unfolding nearest_def by (metis antisym diff_add_cancel)

lemma nearest_Un: "nearest (S \<union> H) h x \<Longrightarrow> x \<in> H \<or> nearest S h x"
  by (auto simp: nearest_def)

lemma nearest_Diff: "nearest S h x \<Longrightarrow> x \<notin> H \<Longrightarrow> nearest (S - H) h x"
  by (auto simp: nearest_def)

lemma start_index_less: "hs \<noteq> [] \<Longrightarrow> start_index h hs < length hs"
  by (simp add: start_index_def Let_def)

lemma nearest_start_index:
  assumes "sorted hs" "hs \<noteq> []"
  shows "nearest (set hs) h (hs ! start_index h hs)"
proof -
  let ?n = "length hs" and ?f = "\<lambda>i. hs ! i \<ge> h"
  let ?i = "sort_Search ?n ?f"
  have "\<forall>a b. a \<le> b \<longrightarrow> b < ?n \<longrightarrow> ?f a \<longrightarrow> ?f b"
    using assms(1) by (meson order_trans sorted_nth_mono)
  then have srch: "\<forall>k < ?i. \<not> ?f k" "\<forall>k. ?i \<le> k \<longrightarrow> k < ?n \<longrightarrow> ?f k"
    using sort_Search_spec [of ?n ?f] by blast+
  have "hs ! start_index h hs - h \<le> hs ! k - h" if k: "k < ?n" for k
  proof (cases "?i < ?n")
    case True
    then have start: "start_index h hs = ?i" by (simp add: start_index_def Let_def)
    have ge: "h \<le> hs ! ?i" using srch(2) True by blast
    show ?thesis
    proof (cases "k < ?i")
      case True
      then have "hs ! k < h" using srch(1) by auto
      then show ?thesis using clockwise(2) [OF ge] start by simp
    next
      case False
      then have "hs ! ?i \<le> hs ! k" using assms(1) k by (simp add: sorted_nth_mono)
      then show ?thesis using clockwise(1) [OF ge] start by simp
    qed
  next
    case False
    then have "start_index h hs = 0" by (simp add: start_index_def Let_def)
    moreover have "k < ?i" using False k by simp
    then have "hs ! k < h" using srch(1) by (simp add: not_le)
    moreover have "hs ! 0 \<le> hs ! k" using assms(1) k by (simp add: sorted_nth_mono)
    ultimately show ?thesis using clockwise(3) [of "hs ! 0" "hs ! k" h] by simp
  qed
  then show ?thesis
    using start_index_less [OF assms(2)] by (auto simp: nearest_def in_set_conv_nth)
qed

text \<open>The rings the load balancer can build, with the shores that are on them.\<close>

inductive ring_reachable :: "string set \<Rightarrow> ConsistentHashRing \<Rightarrow> bool" where
  ring_new: "ring_reachable {} (NewConsistentHashRing n)"
| ring_add: "ring_reachable S r \<Longrightarrow> ring_reachable (insert s S) (ring_Add s r)"
| ring_remove: "ring_reachable S r \<Longrightarrow> ring_reachable (S - {s}) (ring_Remove s r)"

lemma vnodes_replicas: "ring_replicas r = ring_replicas r' \<Longrightarrow> vnodes r = vnodes r'"
  by (simp add: vnodes_def fun_eq_iff)

lemma ring_reachable_inv:
  "ring_reachable S r \<Longrightarrow> ring_inv r \<and> 0 < ring_replicas r \<and>
     (\<forall>h s. owner r h = Some s \<longrightarrow> s \<in> S \<and> h \<in> vnodes r s)"
proof (induction rule: ring_reachable.induct)
  case (ring_new n)
  then show ?case by (simp add: owner_def) (simp add: NewConsistentHashRing_def)
next
  case (ring_add S r s)
  then have inv: "ring_inv r" by simp
  note eff = ring_Add_effect [OF inv, of s]
  show ?case using ring_add.IH eff vnodes_replicas [OF eff(3)] by (auto split: if_splits)
next
  case (ring_remove S r s)
  then have inv: "ring_inv r" by simp
  note eff = ring_Remove_effect [OF inv, of s]
  show ?case using ring_remove.IH eff vnodes_replicas [OF eff(3)] by (auto split: if_splits)
qed

lemma ring_inv_reachable: "ring_reachable S r \<Longrightarrow> ring_inv r"
  using ring_reachable_inv by blast

lemma ring_Get_nearest:
  assumes "ring_inv r"
  shows "if owner r = Map.empty then ring_Get r k = []
    else (\<exists>h. nearest (dom (owner r)) (hashKey k) h \<and> owner r h = Some (ring_Get r k))"
proof (cases "ring_sortedHashes r = []")
  case True
  with assms have "dom (owner r) = {}" by (simp add: ring_inv_def)
  with True show ?thesis by (simp add: ring_Get_def)
next
  case False
  let ?h = "ring_sortedHashes r ! start_index (hashKey k) (ring_sortedHashes r)"
  have near: "nearest (dom (owner r)) (hashKey k) ?h"
    using nearest_start_index [of "ring_sortedHashes r"] assms False by (simp add: ring_inv_def)
  then have "owner r ?h = Some (ring_Get r k)"
    using False by (auto simp: nearest_def ring_Get_def owner_def get_or_def)
  with near show ?thesis by auto
qed

lemma ring_Get_eqI:
  assumes "ring_inv r" "nearest (dom (owner r)) (hashKey k) h" "owner r h = Some s"
  shows "ring_Get r k = s"
proof -
  have "owner r \<noteq> Map.empty" using assms(3) by auto
  then obtain h' where "nearest (dom (owner r)) (hashKey k) h'" "owner r h' = Some (ring_Get r k)"
    using ring_Get_nearest [OF assms(1), of k] by auto
  with assms nearest_unique show ?thesis by fastforce
qed

text \<open>
  A lookup walks clockwise. On every ring that additions and removals can build, looking up a
  key gives the shore that owns the virtual node at the least clockwise distance from the hash of
  the key, a shore that is on the ring; the answer is empty exactly if the ring has no node
  (for shores with non-empty identifiers).
\<close>

theorem ring_lookup:
  assumes "ring_reachable S r" "[] \<notin> S"
  shows "(ring_Get r k = [] \<longleftrightarrow> owner r = Map.empty) \<and>
    (ring_Get r k \<noteq> [] \<longrightarrow> ring_Get r k \<in> S \<and>
       (\<exists>h. nearest (dom (owner r)) (hashKey k) h \<and> owner r h = Some (ring_Get r k)))"
  using ring_Get_nearest [OF ring_inv_reachable [OF assms(1)], of k] ring_reachable_inv [OF assms(1)] assms(2)
  by (cases "owner r = Map.empty") auto

theorem ring_lookup_witness:
  "ring_Get (ring_Add ''a'' (NewConsistentHashRing 1)) ''k'' \<in> {''a''}"
proof -
  have reach: "ring_reachable {''a''} (ring_Add ''a'' (NewConsistentHashRing 1))"
    using ring_add [OF ring_new] by simp
  have "owner (ring_Add ''a'' (NewConsistentHashRing 1)) \<noteq> Map.empty"
    using ring_Add_effect(2) [OF ring_inv_New, of "''a''" 1]
    by (auto simp: vnodes_def fun_eq_iff) (auto simp: NewConsistentHashRing_def)
  then show ?thesis using ring_lookup [OF reach, of "''k''"] by simp
qed

lemma ring_Get_Add:
  assumes inv: "ring_inv r"
  shows "ring_Get (ring_Add s r) k \<in> {ring_Get r k, s}"
proof (cases "owner (ring_Add s r) = Map.empty")
  case True
  then have "owner r = Map.empty" using ring_Add_effect(2) [OF inv, of s] by (metis option.distinct(1))
  with True ring_Get_nearest [OF inv, of k] ring_Get_nearest [OF ring_Add_effect(1) [OF inv, of s], of k]
  show ?thesis by simp
next
  case False
  note add = ring_Add_effect [OF inv, of s]
  from False obtain h where h: "nearest (dom (owner (ring_Add s r))) (hashKey k) h"
      "owner (ring_Add s r) h = Some (ring_Get (ring_Add s r) k)"
    using ring_Get_nearest [OF add(1), of k] by auto
  show ?thesis
  proof (cases "h \<in> vnodes r s")
    case True
    then show ?thesis using h(2) add(2) by simp
  next
    case False
    have "dom (owner (ring_Add s r)) = dom (owner r) \<union> vnodes r s" using add(2) by (auto split: if_splits)
    then have "nearest (dom (owner r)) (hashKey k) h" using nearest_Un h(1) False by metis
    then show ?thesis using ring_Get_eqI [OF inv] h(2) add(2) False by simp
  qed
qed

lemma ring_Get_Remove:
  assumes inv: "ring_inv r" and free: "\<forall>h\<in>vnodes r s. owner r h \<in> {None, Some s}" and other: "ring_Get r k \<noteq> s"
  shows "ring_Get (ring_Remove s r) k = ring_Get r k"
proof (cases "owner r = Map.empty")
  case True
  note rem = ring_Remove_effect [OF inv, of s]
  from True have "owner (ring_Remove s r) = Map.empty" using rem(2) by (simp add: fun_eq_iff)
  with True ring_Get_nearest [OF inv, of k] ring_Get_nearest [OF rem(1), of k] show ?thesis by simp
next
  case False
  note rem = ring_Remove_effect [OF inv, of s]
  from False obtain h where h: "nearest (dom (owner r)) (hashKey k) h" "owner r h = Some (ring_Get r k)"
    using ring_Get_nearest [OF inv, of k] by auto
  have out: "h \<notin> vnodes r s" using free other h(2) by auto
  have "dom (owner (ring_Remove s r)) = dom (owner r) - vnodes r s" using rem(2) by (auto split: if_splits)
  then have "nearest (dom (owner (ring_Remove s r))) (hashKey k) h" using nearest_Diff [OF h(1) out] by simp
  then show ?thesis using ring_Get_eqI [OF rem(1)] h(2) rem(2) out by simp
qed

text \<open>
  C16: Membership changes disturb few keys. Adding a shore moves a key either nowhere or to the new
  shore. Removing a shore keeps every key that was not on it where it was, provided none of the
  removed shore's virtual nodes is owned by another shore, and leaves no key on it.
\<close>

theorem ring_minimal_disruption:
  assumes "ring_reachable S r"
  shows "ring_Get (ring_Add s r) k \<in> {ring_Get r k, s} \<and>
    ((\<forall>h\<in>vnodes r s. owner r h \<in> {None, Some s}) \<longrightarrow> ring_Get r k \<noteq> s \<longrightarrow>
       ring_Get (ring_Remove s r) k = ring_Get r k) \<and>
    (s \<noteq> [] \<longrightarrow> ring_Get (ring_Remove s r) k \<noteq> s)"
proof -
  have inv: "ring_inv r" by (rule ring_inv_reachable [OF assms])
  have "s \<notin> S - {s}" by simp
  then have "s \<noteq> [] \<longrightarrow> ring_Get (ring_Remove s r) k \<noteq> s"
    using ring_Get_nearest [OF ring_Remove_effect(1) [OF inv, of s], of k]
      ring_reachable_inv [OF ring_remove [OF assms, of s]]
    by (auto split: if_splits)
  with ring_Get_Add [OF inv] ring_Get_Remove [OF inv] show ?thesis by blast
qed

theorem ring_minimal_disruption_witness:
  "ring_Get (ring_Add ''b'' (ring_Add ''a'' (NewConsistentHashRing 3))) ''k''
     \<in> {ring_Get (ring_Add ''a'' (NewConsistentHashRing 3)) ''k'', ''b''}"
  using ring_minimal_disruption [OF ring_add [OF ring_new], of "''b''" "''a''" 3 "''k''"] by blast

section \<open>Fallback shores\<close>

text \<open>The elements of a list that are not in \<open>acc\<close>, each at its first occurrence.\<close>

fun firsts :: "'a list \<Rightarrow> 'a list \<Rightarrow> 'a list" where
  "firsts [] acc = []"
| "firsts (x # xs) acc = (if x \<in> set acc then firsts xs acc else x # firsts xs (acc @ [x]))"

lemma set_firsts: "set (firsts xs acc) = set xs - set acc"
  by (induction xs acc rule: firsts.induct) auto

lemma distinct_firsts: "distinct (firsts xs acc)"
  by (induction xs acc rule: firsts.induct) (auto simp: set_firsts)

lemma length_firsts: "length (firsts xs []) = card (set xs)"
  using distinct_card [OF distinct_firsts, of xs "[]"] by (simp add: set_firsts)

definition owners_from :: "ConsistentHashRing \<Rightarrow> nat \<Rightarrow> nat list \<Rightarrow> string list" where
  "owners_from r idx is = map (\<lambda>i. get_or [] (ring_virtualNodes r)
     (ring_sortedHashes r ! ((idx + i) mod length (ring_sortedHashes r)))) is"

lemma getn_loop_firsts:
  assumes "\<And>s. get_or False seen s \<longleftrightarrow> s \<in> set result" "int (length result) \<le> n"
  shows "getn_loop r n idx is seen result = result @ take (nat n - length result) (firsts (owners_from r idx is) result)"
  using assms
proof (induction "is" arbitrary: seen result)
  case Nil
  then show ?case by (simp add: owners_from_def)
next
  case (Cons i "is")
  let ?s = "get_or [] (ring_virtualNodes r) (ring_sortedHashes r ! ((idx + i) mod length (ring_sortedHashes r)))"
  have step: "owners_from r idx (i # is) = ?s # owners_from r idx is" by (simp add: owners_from_def)
  consider "int (length result) = n" | "int (length result) < n" "?s \<in> set result"
    | "int (length result) < n" "?s \<notin> set result" using Cons.prems(2) by linarith
  then show ?case
  proof cases
    case 1
    then show ?thesis by auto
  next
    case 2
    then show ?thesis using Cons by (simp add: step Let_def)
  next
    case 3
    then have d: "nat n - length result = Suc (nat n - Suc (length result))" by linarith
    have "getn_loop r n idx is (put seen ?s True) (result @ [?s]) =
        (result @ [?s]) @ take (nat n - length (result @ [?s])) (firsts (owners_from r idx is) (result @ [?s]))"
      by (rule Cons.IH) (use Cons.prems(1) 3 in \<open>auto simp: get_or_def split: if_splits\<close>)
    then show ?thesis using 3 Cons.prems(1) d by (simp add: step Let_def)
  qed
qed

lemma owners_from_all:
  assumes "ring_inv r" "ring_sortedHashes r \<noteq> []"
  shows "set (owners_from r idx [0..<length (ring_sortedHashes r)]) = ran (owner r)"
proof -
  let ?hs = "ring_sortedHashes r" and ?n = "length (ring_sortedHashes r)"
  have "(\<lambda>i. (idx + i) mod ?n) ` {0..<?n} = {0..<?n}"
  proof (intro equalityI subsetI)
    fix k assume k: "k \<in> {0..<?n}"
    have "(idx + (k + ?n - idx mod ?n) mod ?n) mod ?n = k"
    proof -
      have "idx mod ?n \<le> k + ?n" using assms(2) by (meson le_add2 length_greater_0_conv less_imp_le mod_less_divisor order_trans)
      then have "idx mod ?n + (k + ?n - idx mod ?n) = k + ?n" by simp
      then show ?thesis using k by (simp flip: mod_add_left_eq [of idx]) (simp add: mod_add_right_eq)
    qed
    then show "k \<in> (\<lambda>i. (idx + i) mod ?n) ` {0..<?n}"
      using assms(2) by (intro image_eqI [of _ _ "(k + ?n - idx mod ?n) mod ?n"]) auto
  qed (use assms(2) in auto)
  then have "(\<lambda>i. ?hs ! ((idx + i) mod ?n)) ` {0..<?n} = (!) ?hs ` {0..<?n}"
    by (metis image_image)
  also have "\<dots> = dom (owner r)"
    using assms(1) by (simp add: nth_image ring_inv_def)
  finally have "get_or [] (ring_virtualNodes r) ` (\<lambda>i. ?hs ! ((idx + i) mod ?n)) ` {0..<?n} =
      get_or [] (ring_virtualNodes r) ` dom (owner r)" by (rule arg_cong)
  then have "set (owners_from r idx [0..<?n]) = get_or [] (ring_virtualNodes r) ` dom (owner r)"
    by (simp only: owners_from_def image_image list.set_map set_upt)
  also have "\<dots> = ran (owner r)"
    by (force simp: owner_def get_or_def ran_def dom_def image_iff)
  finally show ?thesis .
qed

lemma ring_Size_card: "ring_inv r \<Longrightarrow> ring_Size r = card (ran (owner r))"
  by (simp add: ring_Size_def ring_inv_def owner_def get_def [abs_def] gomap_ok_def length_remdups_card_conv ran_distinct)

text \<open>
  The fallback list of a key. For a positive \<open>n\<close> it has no duplicates, holds shores of the
  ring only, as many as there are but at most \<open>n\<close>, and it starts with the shore the key is
  looked up to; for \<open>n\<close> at least the size of the ring it lists every shore that owns a node.
\<close>

theorem ring_fallbacks:
  assumes "ring_reachable S r" "0 < n" "owner r \<noteq> Map.empty"
  shows "distinct (ring_GetN r k n) \<and> set (ring_GetN r k n) \<subseteq> S \<and>
    length (ring_GetN r k n) = min (nat n) (ring_Size r) \<and> hd (ring_GetN r k n) = ring_Get r k \<and>
    (int (ring_Size r) \<le> n \<longrightarrow> set (ring_GetN r k n) = ran (owner r))"
proof -
  have inv: "ring_inv r" using ring_inv_reachable [OF assms(1)] .
  let ?hs = "ring_sortedHashes r"
  have ne: "?hs \<noteq> []" using inv assms(3) unfolding ring_inv_def by (metis dom_eq_empty_conv set_empty)
  define xs where "xs = owners_from r (start_index (hashKey k) ?hs) [0..<length ?hs]"
  have getn: "ring_GetN r k n = take (nat n) (firsts xs [])"
    using getn_loop_firsts [of "[]" "[]" n r] ne assms(2) by (simp add: ring_GetN_def xs_def get_or_def)
  have set_xs: "set xs = ran (owner r)" unfolding xs_def by (rule owners_from_all [OF inv ne])
  have len: "length (firsts xs []) = ring_Size r"
    by (simp add: length_firsts set_xs ring_Size_card [OF inv])
  have "hd xs = ring_Get r k" "xs \<noteq> []"
    using ne start_index_less [OF ne] by (simp_all add: xs_def owners_from_def ring_Get_def hd_map upt_conv_Cons)
  then have "hd (ring_GetN r k n) = ring_Get r k"
    using assms(2) by (cases xs; cases "nat n") (auto simp: getn)
  moreover have "set (ring_GetN r k n) \<subseteq> S"
    using ring_reachable_inv [OF assms(1)] set_take_subset [of "nat n" "firsts xs []"]
    by (auto simp: getn set_firsts set_xs ran_def)
  moreover have "set (ring_GetN r k n) = ran (owner r)" if "int (ring_Size r) \<le> n"
    using that len by (simp add: getn set_firsts set_xs)
  ultimately show ?thesis using len by (simp add: getn distinct_firsts)
qed

theorem ring_fallbacks_witness:
  "distinct (ring_GetN (ring_Add ''b'' (ring_Add ''a'' (NewConsistentHashRing 2))) ''k'' 3)"
proof -
  have "owner (ring_Add ''b'' (ring_Add ''a'' (NewConsistentHashRing 2))) (hashKey (virtualKey ''b'' 0)) = Some ''b''"
    using ring_Add_effect [OF ring_inv_New, of "''a''" 2]
    by (simp add: ring_Add_effect vnodes_def) (simp add: NewConsistentHashRing_def)
  then have "owner (ring_Add ''b'' (ring_Add ''a'' (NewConsistentHashRing 2))) \<noteq> Map.empty" by auto
  then show ?thesis
    using ring_fallbacks [OF ring_add [OF ring_add [OF ring_new]], of 3 "''b''" "''a''" 2 "''k''"] by simp
qed

section \<open>Identifiers with equal checksums\<close>

lemma xor_cancel: "x XOR m = y XOR m \<Longrightarrow> x = y" for x y m :: "'a::len word"
  by (metis xor.assoc xor.right_neutral xor_self_eq)

lemma ChecksumIEEE_append:
  assumes "ChecksumIEEE a = ChecksumIEEE b"
  shows "ChecksumIEEE (a @ c) = ChecksumIEEE (b @ c)"
proof -
  have "foldl crc32_byte 0xFFFFFFFF a = foldl crc32_byte 0xFFFFFFFF b"
    by (rule xor_cancel) (use assms in \<open>simp only: ChecksumIEEE_def\<close>)
  then show ?thesis by (simp only: ChecksumIEEE_def foldl_append)
qed

text \<open>
  Two shores whose identifiers have the same CRC-32 share every virtual node, because the
  replica number is appended to the identifier and the checksum of a text is a function of the
  checksum of its prefix. Adding the second takes all the nodes of the first, and removing it then
  takes the first off the ring too, although it was never removed.
\<close>

theorem colliding_shores:
  assumes "hashKey a = hashKey b" "ring_reachable S r" "a \<noteq> b" "a \<noteq> []"
  shows "vnodes r a = vnodes r b \<and>
    ring_Get (ring_Add b (ring_Add a r)) k \<noteq> a \<and>
    ring_Get (ring_Remove b (ring_Add b (ring_Add a r))) k \<noteq> a"
proof -
  have "hashKey (virtualKey a i) = hashKey (virtualKey b i)" for i
    using ChecksumIEEE_append [of a b] assms(1) by (simp only: hashKey_def virtualKey_def)
  then have same: "vnodes r' a = vnodes r' b" for r' by (simp only: vnodes_def)
  let ?ra = "ring_Add a r"
  let ?rab = "ring_Add b ?ra"
  have reach: "ring_reachable (insert a S) ?ra" using assms(2) by (rule ring_add)
  then have reach2: "ring_reachable (insert b (insert a S)) ?rab" by (rule ring_add)
  have inv: "ring_inv ?ra" using ring_inv_reachable [OF reach] .
  note eff = ring_Add_effect [OF inv, of b]
  have none: "owner ?rab h \<noteq> Some a" for h
  proof (cases "h \<in> vnodes ?ra b")
    case True
    then show ?thesis using eff(2) assms(3) by simp
  next
    case False
    then have "owner ?ra h \<noteq> Some a" using ring_reachable_inv [OF reach] same [of ?ra] by blast
    then show ?thesis using eff(2) False by simp
  qed
  have gone: "owner (ring_Remove b ?rab) h \<noteq> Some a" for h
    using ring_Remove_effect(2) [OF ring_inv_reachable [OF reach2], of b] none by auto
  have get: "ring_Get r' k \<noteq> a" if "ring_inv r'" "\<And>h. owner r' h \<noteq> Some a" for r'
    using ring_Get_nearest [OF that(1), of k] that(2) assms(4) by (auto split: if_splits)
  show ?thesis
    using same [of r] get [OF eff(1) none]
      get [OF ring_Remove_effect(1) [OF ring_inv_reachable [OF reach2], of b] gone] by blast
qed

theorem colliding_shores_witness:
  "ring_Get (ring_Remove ''buckeroo'' (ring_Add ''buckeroo'' (ring_Add ''plumless'' (NewConsistentHashRing 150)))) ''k''
     \<noteq> ''plumless''"
proof -
  have "hashKey ''plumless'' = hashKey ''buckeroo''" by (simp add: hashKey_def crc32_eval)
  then show ?thesis using colliding_shores [OF _ ring_new, of "''plumless''" "''buckeroo''" 150 "''k''"] by simp
qed

end
