(* ===== verification/Shores.thy ===== *)
theory Shores
  imports Prelude Complex_Main
begin

text \<open>
  The data types of the load balancer (\<open>src/pkg/charon/ferry.go\<close>), its errors
  (\<open>errors.go\<close>), the health checker (\<open>health.go\<close>) and the rate limiter
  (\<open>rate_limiter.go\<close>). The outcome of an HTTP probe is an argument. The token bucket itself is
  the package \<open>golang.org/x/time/rate\<close>: its state type is a type variable and its two operations
  are arguments. Error rates are exact quotients of the two counters.
\<close>

section \<open>Configuration and shores\<close>

record HealthCheck =
  hck_Path :: string
  hck_Interval :: duration
  hck_Timeout :: duration
  hck_Healthy :: int
  hck_Unhealthy :: int

record Shore =
  sh_ID :: string
  sh_Address :: string
  sh_Weight :: int
  sh_Zone :: string
  sh_Priority :: int
  sh_HealthCheck :: "HealthCheck option"
  sh_Metadata :: "(string, string) gomap"

datatype HealthStatus = HealthStatusHealthy | HealthStatusDegraded | HealthStatusUnhealthy

record ShoreHealth =
  shh_ShoreID :: string
  shh_Status :: HealthStatus
  shh_Latency :: duration
  shh_ActiveConns :: int
  shh_ErrorRate :: rat
  shh_LastCheck :: go_time

record FerryHealth =
  fh_Status :: HealthStatus
  fh_Shores :: "ShoreHealth list"
  fh_OpenBreakers :: int
  fh_QueueDepth :: int

record CircuitBreakerConfig =
  cbc_Enabled :: bool
  cbc_Threshold :: int
  cbc_Timeout :: duration
  cbc_HalfOpenRequests :: int

record RateLimitConfig =
  rlc_Enabled :: bool
  rlc_RequestsPerSecond :: int
  rlc_Burst :: int
  rlc_KeyFunc :: string
  rlc_RedisAddr :: string

record RetryConfig =
  rc_MaxRetries :: int
  rc_InitialDelay :: duration
  rc_MaxDelay :: duration
  rc_RetryOn :: "int list"

record FerryConfig =
  fc_Strategy :: string
  fc_SessionAffinityKey :: string
  fc_CircuitBreaker :: CircuitBreakerConfig
  fc_RateLimiting :: RateLimitConfig
  fc_Retry :: RetryConfig
  fc_CrossingTimeout :: duration
  fc_MaxConcurrent :: int

definition DefaultFerryConfig :: FerryConfig where
  "DefaultFerryConfig =
     \<lparr>fc_Strategy = ''round_robin'', fc_SessionAffinityKey = [],
      fc_CircuitBreaker = \<lparr>cbc_Enabled = True, cbc_Threshold = 5, cbc_Timeout = 30 * second,
        cbc_HalfOpenRequests = 3\<rparr>,
      fc_RateLimiting = \<lparr>rlc_Enabled = True, rlc_RequestsPerSecond = 100, rlc_Burst = 200,
        rlc_KeyFunc = ''tenant'', rlc_RedisAddr = []\<rparr>,
      fc_Retry = \<lparr>rc_MaxRetries = 2, rc_InitialDelay = 100000000, rc_MaxDelay = 2 * second,
        rc_RetryOn = [502, 503, 504]\<rparr>,
      fc_CrossingTimeout = 30 * second, fc_MaxConcurrent = 0\<rparr>"

definition DefaultHealthCheck :: HealthCheck where
  "DefaultHealthCheck = \<lparr>hck_Path = ''/health'', hck_Interval = 10 * second, hck_Timeout = 5 * second,
     hck_Healthy = 2, hck_Unhealthy = 3\<rparr>"

section \<open>Errors\<close>

datatype charon_error =
    ErrNoHealthyShores | ErrRateLimitExceeded | ErrCircuitOpen | ErrShoreNotFound
  | ErrShoreAlreadyExists | ErrInvalidConfig
  | InvalidAddress string | BreakerOpenFor string | RetryableStatus int | AttemptsExhausted int
  | ContextDone string
  | CrossingError int string charon_error

fun error_text :: "charon_error \<Rightarrow> string" where
  "error_text ErrNoHealthyShores = ''no healthy shores available - the river cannot be crossed''"
| "error_text ErrRateLimitExceeded = ''rate limit exceeded - the ferryman demands patience''"
| "error_text ErrCircuitOpen = ''circuit breaker open - passage denied''"
| "error_text ErrShoreNotFound = ''shore not found''"
| "error_text ErrShoreAlreadyExists = ''shore already exists''"
| "error_text ErrInvalidConfig = ''invalid configuration''"
| "error_text (InvalidAddress err) = ''invalid shore address: '' @ err"
| "error_text (BreakerOpenFor shoreID) = ''circuit breaker open for shore '' @ shoreID"
| "error_text (RetryableStatus code) = ''received retryable status code: '' @ itoa (nat code)"
| "error_text (AttemptsExhausted n) = ''request failed after '' @ itoa (nat n) @ '' attempts''"
| "error_text (ContextDone err) = err"
| "error_text (CrossingError code message err) = message @ '': '' @ error_text err"

fun ToHTTPError :: "charon_error \<Rightarrow> charon_error" where
  "ToHTTPError (CrossingError code message err) = CrossingError code message err"
| "ToHTTPError ErrNoHealthyShores = CrossingError 503 (error_text ErrNoHealthyShores) ErrNoHealthyShores"
| "ToHTTPError ErrRateLimitExceeded = CrossingError 429 (error_text ErrRateLimitExceeded) ErrRateLimitExceeded"
| "ToHTTPError ErrCircuitOpen = CrossingError 503 (error_text ErrCircuitOpen) ErrCircuitOpen"
| "ToHTTPError ErrShoreNotFound = CrossingError 404 (error_text ErrShoreNotFound) ErrShoreNotFound"
| "ToHTTPError ErrShoreAlreadyExists = CrossingError 409 (error_text ErrShoreAlreadyExists) ErrShoreAlreadyExists"
| "ToHTTPError ErrInvalidConfig = CrossingError 500 (error_text ErrInvalidConfig) ErrInvalidConfig"
| "ToHTTPError err = CrossingError 500 ''internal ferry error'' err"

lemma ToHTTPError_idem [simp]: "ToHTTPError (ToHTTPError e) = ToHTTPError e"
  by (cases e) simp_all

section \<open>The health checker\<close>

record shoreHealthState =
  hs_shore :: Shore
  hs_status :: HealthStatus
  hs_consecutiveSuccess :: int
  hs_consecutiveFailure :: int
  hs_lastCheck :: go_time
  hs_latency :: duration
  hs_errorRate :: rat
  hs_totalRequests :: int
  hs_failedRequests :: int

record HealthChecker =
  hc_shores :: "(string, shoreHealthState) gomap"

definition NewHealthChecker :: HealthChecker where
  "NewHealthChecker = \<lparr>hc_shores = []\<rparr>"

definition new_shore_state :: "Shore \<Rightarrow> shoreHealthState" where
  "new_shore_state shore =
     \<lparr>hs_shore = shore, hs_status = HealthStatusHealthy, hs_consecutiveSuccess = 0,
      hs_consecutiveFailure = 0, hs_lastCheck = 0, hs_latency = 0, hs_errorRate = 0,
      hs_totalRequests = 0, hs_failedRequests = 0\<rparr>"

definition AddShore :: "Shore \<Rightarrow> HealthChecker \<Rightarrow> HealthChecker" where
  "AddShore shore hc = hc\<lparr>hc_shores := put (hc_shores hc) (sh_ID shore) (new_shore_state shore)\<rparr>"

definition RemoveShore :: "string \<Rightarrow> HealthChecker \<Rightarrow> HealthChecker" where
  "RemoveShore shoreID hc = hc\<lparr>hc_shores := del (hc_shores hc) shoreID\<rparr>"

definition recordSuccess :: "go_time \<Rightarrow> duration \<Rightarrow> shoreHealthState \<Rightarrow> shoreHealthState" where
  "recordSuccess now latency st0 =
     (let st = st0\<lparr>hs_consecutiveSuccess := hs_consecutiveSuccess st0 + 1, hs_consecutiveFailure := 0,
                   hs_lastCheck := now, hs_latency := latency\<rparr>
      in case sh_HealthCheck (hs_shore st) of
           None \<Rightarrow> st
         | Some hk \<Rightarrow> if hs_consecutiveSuccess st \<ge> hck_Healthy hk
                      then st\<lparr>hs_status := HealthStatusHealthy\<rparr> else st)"

definition recordFailure :: "go_time \<Rightarrow> shoreHealthState \<Rightarrow> shoreHealthState" where
  "recordFailure now st0 =
     (let st = st0\<lparr>hs_consecutiveFailure := hs_consecutiveFailure st0 + 1, hs_consecutiveSuccess := 0,
                   hs_lastCheck := now\<rparr>
      in case sh_HealthCheck (hs_shore st) of
           None \<Rightarrow> st
         | Some hk \<Rightarrow> if hs_consecutiveFailure st \<ge> hck_Unhealthy hk
                      then st\<lparr>hs_status := HealthStatusUnhealthy\<rparr> else st)"

text \<open>What the probe of a shore came back with: no answer, or a status code and its latency.\<close>

datatype probe = ProbeError | ProbeStatus int duration

definition performCheck :: "go_time \<Rightarrow> probe \<Rightarrow> shoreHealthState \<Rightarrow> shoreHealthState" where
  "performCheck now p st =
     (case sh_HealthCheck (hs_shore st) of
        None \<Rightarrow> st
      | Some _ \<Rightarrow>
          (case p of
             ProbeError \<Rightarrow> recordFailure now st
           | ProbeStatus code latency \<Rightarrow>
               if code \<ge> 200 \<and> code < 300 then recordSuccess now latency st else recordFailure now st))"

text \<open>A check of a shore that is still monitored, through the state it shares with the map.\<close>

definition check_shore :: "go_time \<Rightarrow> probe \<Rightarrow> string \<Rightarrow> HealthChecker \<Rightarrow> HealthChecker" where
  "check_shore now p shoreID hc =
     (case get (hc_shores hc) shoreID of
        None \<Rightarrow> hc
      | Some st \<Rightarrow> hc\<lparr>hc_shores := put (hc_shores hc) shoreID (performCheck now p st)\<rparr>)"

definition GetShoreHealth :: "HealthChecker \<Rightarrow> string \<Rightarrow> ShoreHealth option" where
  "GetShoreHealth hc shoreID =
     (case get (hc_shores hc) shoreID of
        None \<Rightarrow> None
      | Some st \<Rightarrow> Some \<lparr>shh_ShoreID = shoreID, shh_Status = hs_status st, shh_Latency = hs_latency st,
          shh_ActiveConns = 0, shh_ErrorRate = hs_errorRate st, shh_LastCheck = hs_lastCheck st\<rparr>)"

definition GetAllShoreHealth :: "HealthChecker \<Rightarrow> ShoreHealth list" where
  "GetAllShoreHealth hc =
     map (\<lambda>(_, st). \<lparr>shh_ShoreID = sh_ID (hs_shore st), shh_Status = hs_status st, shh_Latency = hs_latency st,
          shh_ActiveConns = 0, shh_ErrorRate = hs_errorRate st, shh_LastCheck = hs_lastCheck st\<rparr>) (hc_shores hc)"

definition IsHealthy :: "HealthChecker \<Rightarrow> string \<Rightarrow> bool" where
  "IsHealthy hc shoreID =
     (case get (hc_shores hc) shoreID of None \<Rightarrow> False | Some st \<Rightarrow> hs_status st = HealthStatusHealthy)"

definition RecordRequest :: "string \<Rightarrow> bool \<Rightarrow> HealthChecker \<Rightarrow> HealthChecker" where
  "RecordRequest shoreID success hc =
     (case get (hc_shores hc) shoreID of
        None \<Rightarrow> hc
      | Some st0 \<Rightarrow>
          let st = st0\<lparr>hs_totalRequests := hs_totalRequests st0 + 1,
                       hs_failedRequests := (if success then hs_failedRequests st0 else hs_failedRequests st0 + 1)\<rparr>;
              st = (if hs_totalRequests st > 0
                    then st\<lparr>hs_errorRate := of_int (hs_failedRequests st) / of_int (hs_totalRequests st)\<rparr> else st)
          in hc\<lparr>hc_shores := put (hc_shores hc) shoreID st\<rparr>)"

lemmas health_defs = AddShore_def RemoveShore_def check_shore_def performCheck_def recordSuccess_def
  recordFailure_def RecordRequest_def IsHealthy_def

section \<open>The rate limiter\<close>

record 'l limiterEntry =
  le_limiter :: 'l
  le_lastAccess :: go_time

record 'l TokenBucketLimiter =
  tb_requestsPerSecond :: int
  tb_burst :: int
  tb_limiters :: "(string, 'l limiterEntry) gomap"
  tb_cleanupInterval :: duration

definition NewTokenBucketLimiter :: "int \<Rightarrow> int \<Rightarrow> 'l TokenBucketLimiter" where
  "NewTokenBucketLimiter requestsPerSecond burst =
     \<lparr>tb_requestsPerSecond = requestsPerSecond, tb_burst = burst, tb_limiters = [],
      tb_cleanupInterval = 5 * minute\<rparr>"

text \<open>The bucket of a key, made on first use, with its access time set.\<close>

definition getLimiter ::
    "(int \<Rightarrow> int \<Rightarrow> 'l) \<Rightarrow> go_time \<Rightarrow> string \<Rightarrow> 'l TokenBucketLimiter \<Rightarrow> 'l \<times> 'l TokenBucketLimiter" where
  "getLimiter newLimiter now key l =
     (let limiter = (case get (tb_limiters l) key of
                       Some entry \<Rightarrow> le_limiter entry
                     | None \<Rightarrow> newLimiter (tb_requestsPerSecond l) (tb_burst l))
      in (limiter, l\<lparr>tb_limiters := put (tb_limiters l) key \<lparr>le_limiter = limiter, le_lastAccess = now\<rparr>\<rparr>))"

definition limiter_key :: "string \<Rightarrow> string" where
  "limiter_key key = (if key = [] then ''default'' else key)"

definition TokenBucket_Allow ::
    "(int \<Rightarrow> int \<Rightarrow> 'l) \<Rightarrow> (go_time \<Rightarrow> 'l \<Rightarrow> bool \<times> 'l) \<Rightarrow> go_time \<Rightarrow> string \<Rightarrow> 'l TokenBucketLimiter
     \<Rightarrow> charon_error option \<times> 'l TokenBucketLimiter" where
  "TokenBucket_Allow newLimiter bucketAllow now key0 l0 =
     (let key = limiter_key key0;
          (limiter, l) = getLimiter newLimiter now key l0;
          (ok, limiter') = bucketAllow now limiter;
          l' = l\<lparr>tb_limiters := put (tb_limiters l) key \<lparr>le_limiter = limiter', le_lastAccess = now\<rparr>\<rparr>
      in (if \<not> ok then Some ErrRateLimitExceeded else None, l'))"

definition limiter_cleanup :: "go_time \<Rightarrow> 'l TokenBucketLimiter \<Rightarrow> 'l TokenBucketLimiter" where
  "limiter_cleanup now l =
     (let idleThreshold = now + (-2) * tb_cleanupInterval l
      in l\<lparr>tb_limiters := filter (\<lambda>(_, entry). \<not> le_lastAccess entry < idleThreshold) (tb_limiters l)\<rparr>)"

text \<open>The context values the key functions read.\<close>

record request_ctx =
  rx_tenant_id :: "string option"
  rx_remote_ip :: "string option"
  rx_identity_id :: "string option"

definition TenantKeyFunc :: "request_ctx \<Rightarrow> string" where
  "TenantKeyFunc ctx = (case rx_tenant_id ctx of Some t \<Rightarrow> ''tenant:'' @ t | None \<Rightarrow> ''tenant:unknown'')"

definition IPKeyFunc :: "request_ctx \<Rightarrow> string" where
  "IPKeyFunc ctx = (case rx_remote_ip ctx of Some ip \<Rightarrow> ''ip:'' @ ip | None \<Rightarrow> ''ip:unknown'')"

definition IdentityKeyFunc :: "request_ctx \<Rightarrow> string" where
  "IdentityKeyFunc ctx = (case rx_identity_id ctx of Some i \<Rightarrow> ''identity:'' @ i | None \<Rightarrow> ''identity:unknown'')"

definition GetKeyFunc :: "string \<Rightarrow> request_ctx \<Rightarrow> string" where
  "GetKeyFunc name =
     (if name = ''tenant'' then TenantKeyFunc
      else if name = ''ip'' then IPKeyFunc
      else if name = ''identity'' then IdentityKeyFunc
      else (\<lambda>_. ''default''))"

section \<open>Health by streaks\<close>

text \<open>The results of the checks of a shore, oldest first, and what they leave.\<close>

definition check_run :: "(go_time \<times> probe) list \<Rightarrow> shoreHealthState \<Rightarrow> shoreHealthState" where
  "check_run cs st = fold (\<lambda>(now, p). performCheck now p) cs st"

lemma check_run_simps [simp]:
  "check_run [] st = st"
  "check_run (cs @ cs') st = check_run cs' (check_run cs st)"
  "check_run [(now, p)] st = performCheck now p st"
  by (simp_all add: check_run_def)

definition probe_ok :: "probe \<Rightarrow> bool" where
  "probe_ok p = (case p of ProbeError \<Rightarrow> False | ProbeStatus code _ \<Rightarrow> 200 \<le> code \<and> code < 300)"

text \<open>The length of the final run of checks that went the given way.\<close>

definition tail_run :: "bool \<Rightarrow> (go_time \<times> probe) list \<Rightarrow> int" where
  "tail_run ok cs = int (length (takeWhile (\<lambda>(_, p). probe_ok p = ok) (rev cs)))"

lemma tail_run_simps [simp]:
  "tail_run ok [] = 0"
  "tail_run ok (cs @ [(now, p)]) = (if probe_ok p = ok then tail_run ok cs + 1 else 0)"
  by (simp_all add: tail_run_def)

lemma performCheck_cases:
  assumes "sh_HealthCheck (hs_shore st) = Some hk"
  shows "hs_shore (performCheck now p st) = hs_shore st"
    and "hs_consecutiveSuccess (performCheck now p st) = (if probe_ok p then hs_consecutiveSuccess st + 1 else 0)"
    and "hs_consecutiveFailure (performCheck now p st) = (if probe_ok p then 0 else hs_consecutiveFailure st + 1)"
    and "hs_status (performCheck now p st) =
      (if probe_ok p then (if hs_consecutiveSuccess st + 1 \<ge> hck_Healthy hk then HealthStatusHealthy else hs_status st)
       else (if hs_consecutiveFailure st + 1 \<ge> hck_Unhealthy hk then HealthStatusUnhealthy else hs_status st))"
  using assms by (cases p; simp add: performCheck_def recordSuccess_def recordFailure_def probe_ok_def Let_def)+

lemma check_run_counters:
  assumes "sh_HealthCheck shore = Some hk"
  shows "hs_shore (check_run cs (new_shore_state shore)) = shore \<and>
    hs_consecutiveSuccess (check_run cs (new_shore_state shore)) = tail_run True cs \<and>
    hs_consecutiveFailure (check_run cs (new_shore_state shore)) = tail_run False cs"
proof (induction cs rule: rev_induct)
  case Nil
  then show ?case by (simp add: new_shore_state_def)
next
  case (snoc c cs)
  obtain now p where c: "c = (now, p)" by (cases c)
  have "sh_HealthCheck (hs_shore (check_run cs (new_shore_state shore))) = Some hk" using snoc assms by simp
  from performCheck_cases [OF this, of now p] snoc show ?case by (simp add: c)
qed

lemma status_after_check:
  assumes "sh_HealthCheck shore = Some hk"
  shows "hs_status (check_run (cs @ [(now, p)]) (new_shore_state shore)) =
    (if tail_run True (cs @ [(now, p)]) \<ge> max 1 (hck_Healthy hk) then HealthStatusHealthy
     else if tail_run False (cs @ [(now, p)]) \<ge> max 1 (hck_Unhealthy hk) then HealthStatusUnhealthy
     else hs_status (check_run cs (new_shore_state shore)))"
proof -
  have counters: "hs_shore (check_run cs (new_shore_state shore)) = shore"
    "hs_consecutiveSuccess (check_run cs (new_shore_state shore)) = tail_run True cs"
    "hs_consecutiveFailure (check_run cs (new_shore_state shore)) = tail_run False cs"
    using check_run_counters [OF assms, of cs] by simp_all
  have "0 \<le> tail_run True cs" "0 \<le> tail_run False cs" by (simp_all add: tail_run_def)
  then show ?thesis
    using performCheck_cases(4) [of "check_run cs (new_shore_state shore)" hk now p] assms counters
    by (auto simp: max_def)
qed

text \<open>
  Health has hysteresis. A shore is reported healthy until as many consecutive checks as
  configured have failed; such a run of failures makes it unhealthy, a run of successes of the
  configured length makes it healthy again, and no shorter run changes the status. (A configured
  length below one counts as one.)
\<close>

theorem health_hysteresis:
  assumes "sh_HealthCheck shore = Some hk"
  defines "status \<equiv> \<lambda>cs. hs_status (check_run cs (new_shore_state shore))"
  shows "((\<forall>n \<le> length cs. tail_run False (take n cs) < max 1 (hck_Unhealthy hk)) \<longrightarrow>
      status cs = HealthStatusHealthy) \<and>
    (tail_run False cs \<ge> max 1 (hck_Unhealthy hk) \<longrightarrow> status cs = HealthStatusUnhealthy) \<and>
    (tail_run True cs \<ge> max 1 (hck_Healthy hk) \<longrightarrow> status cs = HealthStatusHealthy) \<and>
    (status (cs @ [(now, p)]) \<noteq> status cs \<longrightarrow>
       tail_run True (cs @ [(now, p)]) \<ge> max 1 (hck_Healthy hk) \<or>
       tail_run False (cs @ [(now, p)]) \<ge> max 1 (hck_Unhealthy hk))"
proof (intro conjI)
  note after = status_after_check [OF assms(1)]
  show "(\<forall>n \<le> length cs. tail_run False (take n cs) < max 1 (hck_Unhealthy hk)) \<longrightarrow> status cs = HealthStatusHealthy"
  proof (induction cs rule: rev_induct)
    case Nil
    then show ?case by (simp add: status_def new_shore_state_def)
  next
    case (snoc c cs)
    obtain now p where c: "c = (now, p)" by (cases c)
    show ?case
    proof
      assume short: "\<forall>n \<le> length (cs @ [c]). tail_run False (take n (cs @ [c])) < max 1 (hck_Unhealthy hk)"
      have "tail_run False (take n cs) < max 1 (hck_Unhealthy hk)" if "n \<le> length cs" for n
        using short [rule_format, of n] that by simp
      with snoc have "status cs = HealthStatusHealthy" by blast
      moreover have "\<not> max 1 (hck_Unhealthy hk) \<le> tail_run False (cs @ [(now, p)])"
        using short [rule_format, of "length (cs @ [c])"] by (simp only: c take_all order_refl not_le)
      ultimately show "status (cs @ [c]) = HealthStatusHealthy"
        unfolding status_def c after by presburger
    qed
  qed
  have one_way: "tail_run True cs = 0 \<or> tail_run False cs = 0"
    by (cases cs rule: rev_cases) (auto split: if_splits)
  show "tail_run False cs \<ge> max 1 (hck_Unhealthy hk) \<longrightarrow> status cs = HealthStatusUnhealthy"
    using after one_way by (cases cs rule: rev_cases) (auto simp: status_def simp del: check_run_simps(2) tail_run_simps(2))
  show "tail_run True cs \<ge> max 1 (hck_Healthy hk) \<longrightarrow> status cs = HealthStatusHealthy"
    using after by (cases cs rule: rev_cases) (auto simp: status_def simp del: check_run_simps(2) tail_run_simps(2))
  show "status (cs @ [(now, p)]) \<noteq> status cs \<longrightarrow>
       tail_run True (cs @ [(now, p)]) \<ge> max 1 (hck_Healthy hk) \<or>
       tail_run False (cs @ [(now, p)]) \<ge> max 1 (hck_Unhealthy hk)"
    using after [of cs now p] by (simp add: status_def del: check_run_simps(2) tail_run_simps(2))
qed

definition demo_shore :: "string \<Rightarrow> Shore" where
  "demo_shore i = \<lparr>sh_ID = i, sh_Address = ''http://'' @ i, sh_Weight = 1, sh_Zone = [], sh_Priority = 0,
     sh_HealthCheck = Some DefaultHealthCheck, sh_Metadata = []\<rparr>"

theorem health_hysteresis_witness:
  "hs_status (check_run [(1, ProbeError), (2, ProbeStatus 500 7), (3, ProbeError)] (new_shore_state (demo_shore ''a'')))
     = HealthStatusUnhealthy"
proof -
  have "tail_run False [(1, ProbeError), (2, ProbeStatus 500 7), (3, ProbeError)] = 3"
    by (simp add: tail_run_def probe_ok_def)
  moreover have "sh_HealthCheck (demo_shore ''a'') = Some DefaultHealthCheck" by (simp add: demo_shore_def)
  ultimately show ?thesis
    using health_hysteresis [of "demo_shore ''a''" DefaultHealthCheck
      "[(1, ProbeError), (2, ProbeStatus 500 7), (3, ProbeError)]"] by (simp add: DefaultHealthCheck_def)
qed

section \<open>Buckets per key\<close>

text \<open>A sequence of requests, each with its time and key, and the bucket of one key run alone.\<close>

fun limiter_run ::
    "(int \<Rightarrow> int \<Rightarrow> 'l) \<Rightarrow> (go_time \<Rightarrow> 'l \<Rightarrow> bool \<times> 'l) \<Rightarrow> (go_time \<times> string) list \<Rightarrow> 'l TokenBucketLimiter
     \<Rightarrow> (string \<times> bool) list" where
  "limiter_run new allow [] l = []"
| "limiter_run new allow ((now, key) # rs) l =
     (case TokenBucket_Allow new allow now key l of
        (err, l') \<Rightarrow> (limiter_key key, err = None) # limiter_run new allow rs l')"

fun bucket_run :: "(go_time \<Rightarrow> 'l \<Rightarrow> bool \<times> 'l) \<Rightarrow> go_time list \<Rightarrow> 'l \<Rightarrow> bool list" where
  "bucket_run allow [] b = []"
| "bucket_run allow (now # ts) b = (case allow now b of (ok, b') \<Rightarrow> ok # bucket_run allow ts b')"

definition bucket_of :: "(int \<Rightarrow> int \<Rightarrow> 'l) \<Rightarrow> 'l TokenBucketLimiter \<Rightarrow> string \<Rightarrow> 'l" where
  "bucket_of new l key = (case get (tb_limiters l) key of
     Some e \<Rightarrow> le_limiter e | None \<Rightarrow> new (tb_requestsPerSecond l) (tb_burst l))"

lemma TokenBucket_Allow_effect:
  assumes "TokenBucket_Allow new allow now key l = (err, l')"
  shows "(err = None) = fst (allow now (bucket_of new l (limiter_key key)))"
    and "bucket_of new l' k = (if k = limiter_key key then snd (allow now (bucket_of new l k)) else bucket_of new l k)"
  using assms
  by (auto simp: TokenBucket_Allow_def getLimiter_def bucket_of_def Let_def case_prod_beta split: option.splits if_splits)

text \<open>
  Rate limits are per key. In any interleaving of requests, the answers for one key are those
  its own token bucket would give to that key's requests alone, whatever the bucket implementation:
  no tenant can use up or refill the tokens of another.
\<close>

theorem limiter_isolates_keys:
  "map snd (filter (\<lambda>(k, _). k = key) (limiter_run new allow rs l)) =
     bucket_run allow (map fst (filter (\<lambda>(_, k). limiter_key k = key) rs)) (bucket_of new l key)"
proof (induction rs arbitrary: l)
  case Nil
  then show ?case by simp
next
  case (Cons r rs)
  obtain now k where r: "r = (now, k)" by (cases r)
  obtain err l' where step: "TokenBucket_Allow new allow now k l = (err, l')"
    by (cases "TokenBucket_Allow new allow now k l")
  note eff = TokenBucket_Allow_effect [OF step]
  show ?case using Cons [of l'] eff(1) eff(2) [of key] by (auto simp: r step case_prod_beta)
qed

text \<open>Forgetting idle buckets touches no bucket used within twice the cleanup interval.\<close>

lemma cleanup_keeps_recent:
  assumes "get (tb_limiters l) key = Some e" "le_lastAccess e \<ge> now - 2 * tb_cleanupInterval l"
    and "gomap_ok (tb_limiters l)"
  shows "bucket_of new (limiter_cleanup now l) key = bucket_of new l key"
proof -
  let ?keep = "filter (\<lambda>(_, entry). \<not> le_lastAccess entry < now + (-2) * tb_cleanupInterval l) (tb_limiters l)"
  have "gomap_ok ?keep" using assms(3) by (simp add: gomap_ok_def distinct_map_filter)
  moreover have "(key, e) \<in> set ?keep" using assms(1,2) by (simp add: get_Some_in_set)
  ultimately have "get ?keep key = Some e" by (simp add: get_iff_in_set del: set_filter)
  then show ?thesis using assms(1) by (simp add: bucket_of_def limiter_cleanup_def Let_def)
qed

end
