(* ===== verification/Charon.thy ===== *)
theory Charon
  imports Breaker HashRing Shores
begin

text \<open>
  The load balancer (\<open>src/pkg/charon/load_balancer.go\<close>): registration of shores, the selection
  strategies, and \<open>Cross\<close>, which ferries a request with retries, circuit breakers and health
  bookkeeping.

  One call of \<open>Cross\<close> is a function of the ferry and of its environment: clock readings, what the
  reverse proxy of a shore recorded at each attempt, cancellation during a backoff, the random
  number, the digest of the IP strategy and the token bucket implementation. It returns, beside
  the Go result and the new ferry, the log of the forwarded requests (shore and status). A nil
  dereference or a panicking library call is the fault \<open>GoPanic\<close>. The counters of requests in
  flight are 32-bit. Telemetry is not modelled.
\<close>

section \<open>State\<close>

datatype fault = GoPanic | GoError charon_error

record 'l BoatFerry =
  bf_config :: FerryConfig
  bf_shores :: "Shore list"
  bf_shoreMap :: "(string, Shore) gomap"
  bf_healthChecker :: HealthChecker
  bf_rateLimiter :: "'l TokenBucketLimiter option"
  bf_breakers :: "(string, TelemetryCircuitBreaker) gomap"
  bf_rrCounter :: "64 word"
  bf_activeConns :: "(string, int) gomap"
  bf_reverseProxies :: "(string, string) gomap"
  bf_hashRing :: ConsistentHashRing

definition NewBoatFerry :: "FerryConfig option \<Rightarrow> 'l BoatFerry" where
  "NewBoatFerry config0 =
     (let config = (case config0 of None \<Rightarrow> DefaultFerryConfig | Some c \<Rightarrow> c);
          rl = fc_RateLimiting config
      in \<lparr>bf_config = config, bf_shores = [], bf_shoreMap = [], bf_healthChecker = NewHealthChecker,
          bf_rateLimiter = (if rlc_Enabled rl then Some (NewTokenBucketLimiter (rlc_RequestsPerSecond rl) (rlc_Burst rl))
                            else None),
          bf_breakers = [], bf_rrCounter = 0, bf_activeConns = [], bf_reverseProxies = [],
          bf_hashRing = NewConsistentHashRing 150\<rparr>)"

definition new_breaker :: "CircuitBreakerConfig \<Rightarrow> string \<Rightarrow> TelemetryCircuitBreaker" where
  "new_breaker cbc shoreID =
     (let inner = (if cbc_Enabled cbc
                   then RealBreaker (NewCircuitBreaker (cbc_Threshold cbc) (cbc_Timeout cbc) (cbc_HalfOpenRequests cbc))
                   else NoOpBreaker)
      in \<lparr>tcb_inner = inner, tcb_shoreID = shoreID, tcb_lastState = impl_State inner\<rparr>)"

text \<open>The defaults a shore is given when it is registered.\<close>

definition with_defaults :: "Shore \<Rightarrow> Shore" where
  "with_defaults shore0 =
     (let shore = (case sh_HealthCheck shore0 of None \<Rightarrow> shore0\<lparr>sh_HealthCheck := Some DefaultHealthCheck\<rparr> | Some _ \<Rightarrow> shore0)
      in if sh_Weight shore = 0 then shore\<lparr>sh_Weight := 1\<rparr> else shore)"

text \<open>A new shore enters every collection; a removed one leaves every collection.\<close>

definition enlist :: "Shore \<Rightarrow> 'l BoatFerry \<Rightarrow> 'l BoatFerry" where
  "enlist shore f =
     (let i = sh_ID shore
      in f\<lparr>bf_shores := bf_shores f @ [shore],
           bf_shoreMap := put (bf_shoreMap f) i shore,
           bf_reverseProxies := put (bf_reverseProxies f) i (sh_Address shore),
           bf_breakers := put (bf_breakers f) i (new_breaker (fc_CircuitBreaker (bf_config f)) i),
           bf_activeConns := put (bf_activeConns f) i 0,
           bf_healthChecker := AddShore shore (bf_healthChecker f),
           bf_hashRing := ring_Add i (bf_hashRing f)\<rparr>)"

fun remove_first :: "string \<Rightarrow> Shore list \<Rightarrow> Shore list" where
  "remove_first shoreID [] = []"
| "remove_first shoreID (s # ss) = (if sh_ID s = shoreID then ss else s # remove_first shoreID ss)"

definition delist :: "string \<Rightarrow> 'l BoatFerry \<Rightarrow> 'l BoatFerry" where
  "delist shoreID f =
     f\<lparr>bf_healthChecker := RemoveShore shoreID (bf_healthChecker f),
       bf_hashRing := ring_Remove shoreID (bf_hashRing f),
       bf_shoreMap := del (bf_shoreMap f) shoreID,
       bf_breakers := del (bf_breakers f) shoreID,
       bf_activeConns := del (bf_activeConns f) shoreID,
       bf_reverseProxies := del (bf_reverseProxies f) shoreID,
       bf_shores := remove_first shoreID (bf_shores f)\<rparr>"

text \<open>\<open>urlErr\<close> is the error \<open>url.Parse\<close> gives for an address, if any.\<close>

definition RegisterShore ::
    "(string \<Rightarrow> string option) \<Rightarrow> Shore option \<Rightarrow> 'l BoatFerry \<Rightarrow> charon_error option \<times> 'l BoatFerry" where
  "RegisterShore urlErr shore0 f =
     (case shore0 of
        None \<Rightarrow> (Some ErrInvalidConfig, f)
      | Some s0 \<Rightarrow>
          if get (bf_shoreMap f) (sh_ID s0) \<noteq> None then (Some ErrShoreAlreadyExists, f)
          else
            let shore = with_defaults s0
            in (case urlErr (sh_Address shore) of
                  Some err \<Rightarrow> (Some (InvalidAddress err), f)
                | None \<Rightarrow> (None, enlist shore f)))"

definition DeregisterShore :: "string \<Rightarrow> 'l BoatFerry \<Rightarrow> charon_error option \<times> 'l BoatFerry" where
  "DeregisterShore shoreID f =
     (if get (bf_shoreMap f) shoreID = None then (Some ErrShoreNotFound, f)
      else (None, delist shoreID f))"

section \<open>Requests and the environment of a crossing\<close>

record http_request =
  hq_RemoteAddr :: string
  hq_Header :: "(string, string) gomap"
  hq_session_cookie :: "string option"
  hq_ctx :: request_ctx

record http_response =
  rp_StatusCode :: int
  rp_Header :: "(string, string) gomap"
  rp_Body :: string

record 'l cross_env =
  ev_newLimiter :: "int \<Rightarrow> int \<Rightarrow> 'l"
  ev_bucketAllow :: "go_time \<Rightarrow> 'l \<Rightarrow> bool \<times> 'l"
  ev_limit_time :: go_time
  ev_scan_time :: "nat \<Rightarrow> string \<Rightarrow> go_time"
  ev_allow_time :: "nat \<Rightarrow> go_time"
  ev_fail_time :: "nat \<Rightarrow> go_time"
  ev_cancelled :: "nat \<Rightarrow> duration \<Rightarrow> string option"
  ev_serve :: "nat \<Rightarrow> string \<Rightarrow> http_response"
  ev_rand :: "int \<Rightarrow> int"
  ev_sha256_u64 :: "string \<Rightarrow> 64 word"

section \<open>Selection\<close>

definition selectRoundRobin :: "64 word \<Rightarrow> Shore list \<Rightarrow> Shore \<times> 64 word" where
  "selectRoundRobin counter shores =
     (let c = counter + 1 in (shores ! unat (c mod of_nat (length shores)), c))"

fun least_conn_loop ::
    "(string, int) gomap \<Rightarrow> Shore list \<Rightarrow> int \<Rightarrow> Shore option \<Rightarrow> fault + Shore" where
  "least_conn_loop conns [] minConns selected =
     (case selected of None \<Rightarrow> Inl GoPanic | Some shore \<Rightarrow> Inr shore)"
| "least_conn_loop conns (shore # shores) minConns selected =
     (case get conns (sh_ID shore) of
        None \<Rightarrow> Inl GoPanic
      | Some c \<Rightarrow> if c < minConns then least_conn_loop conns shores c (Some shore)
                  else least_conn_loop conns shores minConns selected)"

definition selectLeastConn :: "(string, int) gomap \<Rightarrow> Shore list \<Rightarrow> fault + Shore" where
  "selectLeastConn conns shores = least_conn_loop conns shores 2147483647 None"

definition total_weight :: "Shore list \<Rightarrow> int" where
  "total_weight shores = foldl (\<lambda>t shore. wrap64 (t + sh_Weight shore)) 0 shores"

fun weighted_loop :: "int \<Rightarrow> Shore list \<Rightarrow> Shore option" where
  "weighted_loop r [] = None"
| "weighted_loop r (shore # shores) =
     (let r = wrap64 (r - sh_Weight shore) in if r < 0 then Some shore else weighted_loop r shores)"

definition selectWeighted :: "(int \<Rightarrow> int) \<Rightarrow> Shore list \<Rightarrow> fault + Shore" where
  "selectWeighted rand shores =
     (let totalWeight = total_weight shores
      in if totalWeight \<le> 0 then Inl GoPanic
         else case weighted_loop (rand totalWeight) shores of
                Some shore \<Rightarrow> Inr shore | None \<Rightarrow> Inr (shores ! 0))"

definition client_ip :: "http_request \<Rightarrow> string" where
  "client_ip req =
     (let forwarded = get_or [] (hq_Header req) ''X-Forwarded-For''
      in if forwarded \<noteq> [] then forwarded else hq_RemoteAddr req)"

definition selectIPHash :: "(string \<Rightarrow> 64 word) \<Rightarrow> Shore list \<Rightarrow> http_request \<Rightarrow> Shore" where
  "selectIPHash sha shores req = shores ! unat (sha (client_ip req) mod of_nat (length shores))"

definition extractSessionKey :: "string \<Rightarrow> http_request \<Rightarrow> string" where
  "extractSessionKey affinity req =
     (let key = (if affinity = [] then ''ip'' else affinity);
          hdr = (\<lambda>h. get_or [] (hq_Header req) h);
          ip = ''ip:'' @ client_ip req
      in if key = ''tenant'' then
           (case rx_tenant_id (hq_ctx req) of
              Some t \<Rightarrow> ''tenant:'' @ t
            | None \<Rightarrow> if hdr ''X-Tenant-ID'' \<noteq> [] then ''tenant:'' @ hdr ''X-Tenant-ID'' else ip)
         else if key = ''session'' then
           (case hq_session_cookie req of
              Some v \<Rightarrow> ''session:'' @ v
            | None \<Rightarrow> if hdr ''X-Session-ID'' \<noteq> [] then ''session:'' @ hdr ''X-Session-ID'' else ip)
         else if key = ''custom'' then
           (if hdr ''X-Affinity-Key'' \<noteq> [] then hdr ''X-Affinity-Key'' else ip)
         else ip)"

fun first_listed :: "string list \<Rightarrow> Shore list \<Rightarrow> Shore option" where
  "first_listed [] shores = None"
| "first_listed (i # is) shores =
     (case find (\<lambda>s. sh_ID s = i) shores of Some s \<Rightarrow> Some s | None \<Rightarrow> first_listed is shores)"

definition selectConsistentHash ::
    "(int \<Rightarrow> int) \<Rightarrow> ConsistentHashRing \<Rightarrow> string \<Rightarrow> Shore list \<Rightarrow> http_request \<Rightarrow> Shore" where
  "selectConsistentHash rand ring affinity shores req =
     (let key = extractSessionKey affinity req; primaryID = ring_Get ring key
      in if primaryID = [] then shores ! nat (rand (int (length shores)))
         else case find (\<lambda>s. sh_ID s = primaryID) shores of
                Some shore \<Rightarrow> shore
              | None \<Rightarrow> (case first_listed (ring_GetN ring key 3) shores of
                           Some shore \<Rightarrow> shore | None \<Rightarrow> shores ! 0))"

definition healthy_shores :: "'l BoatFerry \<Rightarrow> Shore list" where
  "healthy_shores f = filter (\<lambda>s. IsHealthy (bf_healthChecker f) (sh_ID s)) (bf_shores f)"

definition selectShore ::
    "'l cross_env \<Rightarrow> http_request \<Rightarrow> 'l BoatFerry \<Rightarrow> (fault + Shore) \<times> 'l BoatFerry" where
  "selectShore env req f =
     (let healthy = healthy_shores f; strategy = fc_Strategy (bf_config f)
      in if healthy = [] then (Inl (GoError ErrNoHealthyShores), f)
         else if strategy = ''round_robin'' then
           (case selectRoundRobin (bf_rrCounter f) healthy of (s, c) \<Rightarrow> (Inr s, f\<lparr>bf_rrCounter := c\<rparr>))
         else if strategy = ''least_conn'' then (selectLeastConn (bf_activeConns f) healthy, f)
         else if strategy = ''weighted'' then (selectWeighted (ev_rand env) healthy, f)
         else if strategy = ''ip_hash'' then (Inr (selectIPHash (ev_sha256_u64 env) healthy req), f)
         else if strategy = ''consistent_hash'' then
           (Inr (selectConsistentHash (ev_rand env) (bf_hashRing f)
                   (fc_SessionAffinityKey (bf_config f)) healthy req), f)
         else (Inr (healthy ! nat (ev_rand env (int (length healthy)))), f))"

section \<open>Forwarding and retrying\<close>

definition wrap32 :: "int \<Rightarrow> int" where
  "wrap32 x = signed_take_bit 31 x"

definition forwardRequest ::
    "'l cross_env \<Rightarrow> nat \<Rightarrow> Shore \<Rightarrow> 'l BoatFerry \<Rightarrow> (fault + http_response) \<times> 'l BoatFerry" where
  "forwardRequest env attempt shore f =
     (let i = sh_ID shore
      in case get (bf_activeConns f) i of
           None \<Rightarrow> (Inl GoPanic, f)
         | Some c \<Rightarrow>
             let c1 = wrap32 (c + 1); f1 = f\<lparr>bf_activeConns := put (bf_activeConns f) i c1\<rparr>;
                 f2 = f1\<lparr>bf_activeConns := put (bf_activeConns f1) i (wrap32 (c1 - 1))\<rparr>
             in case get (bf_reverseProxies f1) i of
                  None \<Rightarrow> (Inl GoPanic, f2)
                | Some addr \<Rightarrow>
                    let recorder = ev_serve env attempt addr;
                        resp = (if rp_StatusCode recorder = 0 then recorder\<lparr>rp_StatusCode := 200\<rparr> else recorder)
                    in (Inr resp, f2))"

fun fallback_loop ::
    "(string \<Rightarrow> go_time) \<Rightarrow> HealthChecker \<Rightarrow> string list \<Rightarrow> Shore list \<Rightarrow> (string, TelemetryCircuitBreaker) gomap
     \<Rightarrow> (fault + Shore) \<times> (string, TelemetryCircuitBreaker) gomap" where
  "fallback_loop now hc tried [] breakers = (Inl (GoError ErrNoHealthyShores), breakers)"
| "fallback_loop now hc tried (shore # shores) breakers =
     (let i = sh_ID shore
      in if i \<in> set tried then fallback_loop now hc tried shores breakers
         else if \<not> IsHealthy hc i then fallback_loop now hc tried shores breakers
         else case get breakers i of
                None \<Rightarrow> (Inl GoPanic, breakers)
              | Some b \<Rightarrow>
                  (case tcb_Allow (now i) b of
                     (ok, b') \<Rightarrow>
                       if \<not> ok then fallback_loop now hc tried shores (put breakers i b')
                       else (Inr shore, put breakers i b')))"

definition retryWithFallback ::
    "'l cross_env \<Rightarrow> nat \<Rightarrow> string list \<Rightarrow> 'l BoatFerry \<Rightarrow> (fault + Shore) \<times> 'l BoatFerry" where
  "retryWithFallback env attempt tried f =
     (case fallback_loop (ev_scan_time env attempt) (bf_healthChecker f) tried (bf_shores f) (bf_breakers f) of
        (res, bs) \<Rightarrow> (res, f\<lparr>bf_breakers := bs\<rparr>))"

text \<open>The delay before a retry; the shift is a 64-bit one.\<close>

definition backoff :: "RetryConfig \<Rightarrow> nat \<Rightarrow> duration" where
  "backoff rc attempt =
     (let delay = wrap64 (rc_InitialDelay rc * wrap64 (2 ^ (attempt - 1)))
      in if delay > rc_MaxDelay rc then rc_MaxDelay rc else delay)"

definition next_shore ::
    "'l cross_env \<Rightarrow> nat \<Rightarrow> string list \<Rightarrow> charon_error option \<Rightarrow> 'l BoatFerry \<Rightarrow> (fault + Shore) \<times> 'l BoatFerry" where
  "next_shore env attempt tried lastErr f =
     (case ev_cancelled env attempt (backoff (fc_Retry (bf_config f)) attempt) of
        Some err \<Rightarrow> (Inl (GoError (ContextDone err)), f)
      | None \<Rightarrow>
          (case retryWithFallback env attempt tried f of
             (Inl (GoError err), f1) \<Rightarrow>
               (Inl (GoError (ToHTTPError (case lastErr of Some e \<Rightarrow> e | None \<Rightarrow> err))), f1)
           | (Inl GoPanic, f1) \<Rightarrow> (Inl GoPanic, f1)
           | (Inr shore, f1) \<Rightarrow> (Inr shore, f1)))"

datatype attempt_outcome = AttemptPanic | AttemptDone http_response | AttemptRetry charon_error

definition record_outcome ::
    "Shore \<Rightarrow> bool \<Rightarrow> TelemetryCircuitBreaker \<Rightarrow> 'l BoatFerry \<Rightarrow> 'l BoatFerry" where
  "record_outcome shore success b f =
     f\<lparr>bf_breakers := put (bf_breakers f) (sh_ID shore) b,
       bf_healthChecker := RecordRequest (sh_ID shore) success (bf_healthChecker f)\<rparr>"

definition cross_attempt ::
    "'l cross_env \<Rightarrow> nat \<Rightarrow> Shore \<Rightarrow> 'l BoatFerry \<Rightarrow> attempt_outcome \<times> (string \<times> int) list \<times> 'l BoatFerry" where
  "cross_attempt env attempt shore f =
     (case get (bf_breakers f) (sh_ID shore) of
        None \<Rightarrow> (AttemptPanic, [], f)
      | Some breaker \<Rightarrow>
          (case tcb_Allow (ev_allow_time env attempt) breaker of
             (ok, b1) \<Rightarrow>
               let f1 = f\<lparr>bf_breakers := put (bf_breakers f) (sh_ID shore) b1\<rparr>
               in if \<not> ok then (AttemptRetry (BreakerOpenFor (sh_ID shore)), [], f1)
                  else case forwardRequest env attempt shore f1 of
                    (Inl GoPanic, f2) \<Rightarrow> (AttemptPanic, [], f2)
                  | (Inl (GoError err), f2) \<Rightarrow>
                      (AttemptRetry err, [],
                       record_outcome shore False (snd (tcb_RecordFailure (ev_fail_time env attempt) b1)) f2)
                  | (Inr resp, f2) \<Rightarrow>
                      let fwd = [(sh_ID shore, rp_StatusCode resp)]
                      in if rp_StatusCode resp \<in> set (rc_RetryOn (fc_Retry (bf_config f))) then
                           (AttemptRetry (RetryableStatus (rp_StatusCode resp)), fwd,
                            record_outcome shore False (snd (tcb_RecordFailure (ev_fail_time env attempt) b1)) f2)
                         else (AttemptDone resp, fwd,
                               record_outcome shore True (snd (tcb_RecordSuccess b1)) f2)))"

fun cross_loop ::
    "'l cross_env \<Rightarrow> nat \<Rightarrow> nat \<Rightarrow> Shore \<Rightarrow> string list \<Rightarrow> charon_error option \<Rightarrow> 'l BoatFerry
     \<Rightarrow> (fault + http_response) \<times> (string \<times> int) list \<times> 'l BoatFerry" where
  "cross_loop env 0 attempt shore tried lastErr f =
     (Inl (GoError (ToHTTPError (case lastErr of Some e \<Rightarrow> e | None \<Rightarrow> AttemptsExhausted (int attempt)))), [], f)"
| "cross_loop env (Suc n) attempt shore tried lastErr f =
     (case (if attempt > 0 then next_shore env attempt tried lastErr f else (Inr shore, f)) of
        (Inl err, f1) \<Rightarrow> (Inl err, [], f1)
      | (Inr current, f1) \<Rightarrow>
          (case cross_attempt env attempt current f1 of
             (AttemptPanic, fwd, f2) \<Rightarrow> (Inl GoPanic, fwd, f2)
           | (AttemptDone resp, fwd, f2) \<Rightarrow> (Inr resp, fwd, f2)
           | (AttemptRetry err, fwd, f2) \<Rightarrow>
               (case cross_loop env n (attempt + 1) current (sh_ID current # tried) (Some err) f2 of
                  (res, fwd', f3) \<Rightarrow> (res, fwd @ fwd', f3))))"

definition rate_limit :: "'l cross_env \<Rightarrow> http_request \<Rightarrow> 'l BoatFerry \<Rightarrow> charon_error option \<times> 'l BoatFerry" where
  "rate_limit env req f =
     (case bf_rateLimiter f of
        None \<Rightarrow> (None, f)
      | Some tbl \<Rightarrow>
          let key = GetKeyFunc (rlc_KeyFunc (fc_RateLimiting (bf_config f))) (hq_ctx req)
          in case TokenBucket_Allow (ev_newLimiter env) (ev_bucketAllow env) (ev_limit_time env) key tbl of
               (err, tbl') \<Rightarrow> (err, f\<lparr>bf_rateLimiter := Some tbl'\<rparr>))"

definition maxAttempts :: "RetryConfig \<Rightarrow> nat" where
  "maxAttempts rc = (if rc_MaxRetries rc > 0 then nat (1 + rc_MaxRetries rc) else 1)"

definition Cross ::
    "'l cross_env \<Rightarrow> http_request \<Rightarrow> 'l BoatFerry \<Rightarrow> (fault + http_response) \<times> (string \<times> int) list \<times> 'l BoatFerry" where
  "Cross env req f0 =
     (case rate_limit env req f0 of
        (Some err, f) \<Rightarrow> (Inl (GoError (ToHTTPError err)), [], f)
      | (None, f) \<Rightarrow>
          (case selectShore env req f of
             (Inl GoPanic, f1) \<Rightarrow> (Inl GoPanic, [], f1)
           | (Inl (GoError err), f1) \<Rightarrow> (Inl (GoError (ToHTTPError err)), [], f1)
           | (Inr shore, f1) \<Rightarrow>
               cross_loop env (maxAttempts (fc_Retry (bf_config f1))) 0 shore [sh_ID shore] None f1))"

text \<open>The health report of the ferry.\<close>

definition ferry_Health :: "'l BoatFerry \<Rightarrow> fault + FerryHealth" where
  "ferry_Health f =
     (let shoreHealth = GetAllShoreHealth (bf_healthChecker f);
          openBreakers = length (filter (\<lambda>(_, b). tcb_State b = StateOpen) (bf_breakers f));
          healthyCount = length (filter (\<lambda>sh. shh_Status sh = HealthStatusHealthy) shoreHealth);
          status = (if healthyCount = 0 then HealthStatusUnhealthy
                    else if healthyCount < length shoreHealth then HealthStatusDegraded
                    else HealthStatusHealthy)
      in if (\<exists>sh \<in> set shoreHealth. get (bf_activeConns f) (shh_ShoreID sh) = None) then Inl GoPanic
         else Inr \<lparr>fh_Status = status,
                fh_Shores = map (\<lambda>sh. sh\<lparr>shh_ActiveConns := get_or 0 (bf_activeConns f) (shh_ShoreID sh)\<rparr>) shoreHealth,
                fh_OpenBreakers = int openBreakers, fh_QueueDepth = 0\<rparr>)"

end
