(* ===== verification/Ferry.thy ===== *)
theory Ferry
  imports Charon
begin

text \<open>
  What the load balancer guarantees: the consistency of its collections in every reachable state,
  the discipline of its retries, the fairness of the round-robin and weighted strategies, and what
  asking a circuit breaker twice does to a half-open one.
\<close>

section \<open>Consistency of the collections\<close>

abbreviation shore_ids :: "'l BoatFerry \<Rightarrow> string set" where
  "shore_ids f \<equiv> sh_ID ` set (bf_shores f)"

definition health_ok :: "HealthChecker \<Rightarrow> bool" where
  "health_ok hc \<longleftrightarrow> (\<forall>(i, st) \<in> set (hc_shores hc). sh_ID (hs_shore st) = i)"

definition ferry_ok :: "'l BoatFerry \<Rightarrow> bool" where
  "ferry_ok f \<longleftrightarrow>
     distinct (map sh_ID (bf_shores f)) \<and>
     (\<forall>s\<in>set (bf_shores f). get (bf_shoreMap f) (sh_ID s) = Some s) \<and>
     dom (get (bf_shoreMap f)) = shore_ids f \<and>
     dom (get (bf_breakers f)) = shore_ids f \<and>
     dom (get (bf_reverseProxies f)) = shore_ids f \<and>
     dom (get (hc_shores (bf_healthChecker f))) = shore_ids f \<and> health_ok (bf_healthChecker f) \<and>
     dom (get (bf_activeConns f)) = shore_ids f \<and>
     (\<forall>i c. get (bf_activeConns f) i = Some c \<longrightarrow> 0 \<le> c \<and> c < 2147483647) \<and>
     ring_reachable (shore_ids f) (bf_hashRing f)"

lemma health_ok_put: "health_ok hc \<Longrightarrow> sh_ID (hs_shore st) = i \<Longrightarrow> health_ok (hc\<lparr>hc_shores := put (hc_shores hc) i st\<rparr>)"
  using set_put_subset [of "hc_shores hc" i st] by (auto simp: health_ok_def)

lemma health_ok_del: "health_ok hc \<Longrightarrow> health_ok (hc\<lparr>hc_shores := del (hc_shores hc) i\<rparr>)"
  using set_del_subset [of "hc_shores hc" i] by (auto simp: health_ok_def)

lemma health_ok_get: "health_ok hc \<Longrightarrow> get (hc_shores hc) i = Some st \<Longrightarrow> sh_ID (hs_shore st) = i"
  by (auto simp: health_ok_def dest: get_Some_in_set)

lemma ferry_ok_New: "ferry_ok (NewBoatFerry cfg)"
  by (simp add: ferry_ok_def NewBoatFerry_def Let_def NewHealthChecker_def health_ok_def dom_get ring_new)

lemma with_defaults_ID [simp]: "sh_ID (with_defaults s) = sh_ID s"
  by (simp add: with_defaults_def Let_def split: option.split)

lemma ferry_ok_enlist:
  assumes ok: "ferry_ok f" and s: "get (bf_shoreMap f) (sh_ID s) = None"
  shows "ferry_ok (enlist s f)"
proof -
  have fresh: "sh_ID s \<notin> shore_ids f" "\<forall>t\<in>set (bf_shores f). sh_ID t \<noteq> sh_ID s"
    using ok s by (auto simp: ferry_ok_def)
  have "health_ok (AddShore s (bf_healthChecker f))"
    unfolding AddShore_def by (rule health_ok_put) (use ok in \<open>simp_all add: ferry_ok_def new_shore_state_def\<close>)
  moreover have "ring_reachable (insert (sh_ID s) (shore_ids f)) (ring_Add (sh_ID s) (bf_hashRing f))"
    by (rule ring_add) (use ok in \<open>simp add: ferry_ok_def\<close>)
  ultimately show ?thesis
    using ok fresh unfolding ferry_ok_def enlist_def
    by (simp add: get_put_fun AddShore_def Let_def)
qed

lemma remove_first_ids:
  "distinct (map sh_ID ss) \<Longrightarrow>
   distinct (map sh_ID (remove_first i ss)) \<and> set (remove_first i ss) = {s \<in> set ss. sh_ID s \<noteq> i}"
  by (induction ss) (auto simp: image_iff)

lemma ferry_ok_delist:
  assumes ok: "ferry_ok f"
  shows "ferry_ok (delist i f)"
proof -
  have dist: "distinct (map sh_ID (bf_shores f))" using ok by (simp add: ferry_ok_def)
  have rest: "set (bf_shores (delist i f)) = {s \<in> set (bf_shores f). sh_ID s \<noteq> i}"
      "distinct (map sh_ID (bf_shores (delist i f)))"
    using remove_first_ids [OF dist, of i] by (simp_all add: delist_def)
  have ids: "shore_ids (delist i f) = shore_ids f - {i}" using rest(1) by auto
  have "ring_reachable (shore_ids f - {i}) (ring_Remove i (bf_hashRing f))"
    by (rule ring_remove) (use ok in \<open>simp add: ferry_ok_def\<close>)
  moreover have "health_ok (RemoveShore i (bf_healthChecker f))"
    unfolding RemoveShore_def by (rule health_ok_del) (use ok in \<open>simp add: ferry_ok_def\<close>)
  ultimately show ?thesis
    using ok rest unfolding ferry_ok_def ids
    by (simp add: delist_def RemoveShore_def get_del_fun)
qed

lemma ferry_ok_Register: "ferry_ok f \<Longrightarrow> ferry_ok (snd (RegisterShore urlErr s f))"
  by (auto simp: RegisterShore_def Let_def ferry_ok_enlist split: option.split)

lemma ferry_ok_Deregister: "ferry_ok f \<Longrightarrow> ferry_ok (snd (DeregisterShore i f))"
  by (simp add: DeregisterShore_def ferry_ok_delist)

lemma check_shore_ok:
  assumes "health_ok hc"
  shows "health_ok (check_shore now p i hc) \<and> dom (get (hc_shores (check_shore now p i hc))) = dom (get (hc_shores hc))"
proof (cases "get (hc_shores hc) i")
  case (Some st)
  have "hs_shore (performCheck now p st) = hs_shore st"
    by (simp add: performCheck_def recordSuccess_def recordFailure_def Let_def split: option.split probe.split)
  then show ?thesis
    using health_ok_put [OF assms, of "performCheck now p st" i] health_ok_get [OF assms Some] Some
    by (auto simp: check_shore_def get_put_fun)
qed (use assms in \<open>simp add: check_shore_def\<close>)

section \<open>What a crossing changes\<close>

definition ferry_frame :: "'l BoatFerry \<Rightarrow> 'l BoatFerry \<Rightarrow> bool" where
  "ferry_frame f f' \<longleftrightarrow>
     bf_config f' = bf_config f \<and> bf_shores f' = bf_shores f \<and> bf_shoreMap f' = bf_shoreMap f \<and>
     bf_reverseProxies f' = bf_reverseProxies f \<and> bf_hashRing f' = bf_hashRing f \<and>
     get (bf_activeConns f') = get (bf_activeConns f) \<and>
     dom (get (bf_breakers f')) = dom (get (bf_breakers f)) \<and>
     dom (get (hc_shores (bf_healthChecker f'))) = dom (get (hc_shores (bf_healthChecker f))) \<and>
     IsHealthy (bf_healthChecker f') = IsHealthy (bf_healthChecker f) \<and>
     (health_ok (bf_healthChecker f) \<longrightarrow> health_ok (bf_healthChecker f'))"

lemma ferry_frame_refl [simp]: "ferry_frame f f"
  by (simp add: ferry_frame_def)

lemma ferry_frame_trans: "ferry_frame f f' \<Longrightarrow> ferry_frame f' f'' \<Longrightarrow> ferry_frame f f''"
  by (simp add: ferry_frame_def)

lemma ferry_frame_ok: "ferry_frame f f' \<Longrightarrow> ferry_ok f \<Longrightarrow> ferry_ok f'"
  unfolding ferry_frame_def ferry_ok_def by (elim conjE) simp

lemma RecordRequest_frame:
  "IsHealthy (RecordRequest i ok hc) = IsHealthy hc"
  "dom (get (hc_shores (RecordRequest i ok hc))) = dom (get (hc_shores hc))"
  "health_ok hc \<Longrightarrow> health_ok (RecordRequest i ok hc)"
proof -
  show "IsHealthy (RecordRequest i ok hc) = IsHealthy hc"
    by (auto simp: RecordRequest_def IsHealthy_def Let_def fun_eq_iff split: option.splits)
  show "dom (get (hc_shores (RecordRequest i ok hc))) = dom (get (hc_shores hc))"
    by (auto simp: RecordRequest_def Let_def get_put_fun split: option.splits)
  assume h: "health_ok hc"
  then show "health_ok (RecordRequest i ok hc)"
    using health_ok_get [OF h, of i] by (auto simp: RecordRequest_def Let_def intro!: health_ok_put split: option.splits)
qed

lemma wrap32_id: "- 2147483648 \<le> x \<Longrightarrow> x \<le> 2147483647 \<Longrightarrow> wrap32 x = x"
  by (simp add: wrap32_def signed_take_bit_int_eq_self)

lemma forwardRequest_ok:
  assumes ok: "ferry_ok f" and s: "s \<in> set (bf_shores f)"
  obtains resp f' where "forwardRequest env n s f = (Inr resp, f')" "ferry_frame f f'"
    "bf_breakers f' = bf_breakers f" "bf_healthChecker f' = bf_healthChecker f"
proof -
  have "sh_ID s \<in> dom (get (bf_activeConns f))" "sh_ID s \<in> dom (get (bf_reverseProxies f))"
    using ok s by (auto simp: ferry_ok_def)
  then obtain c addr where c: "get (bf_activeConns f) (sh_ID s) = Some c"
    and addr: "get (bf_reverseProxies f) (sh_ID s) = Some addr" by blast
  have "0 \<le> c" "c < 2147483647" using ok c by (auto simp: ferry_ok_def)
  then have w: "wrap32 (c + 1) = c + 1" "wrap32 c = c" by (simp_all add: wrap32_id)
  let ?f = "f\<lparr>bf_activeConns := put (put (bf_activeConns f) (sh_ID s) (c + 1)) (sh_ID s) c\<rparr>"
  let ?rec = "ev_serve env n addr"
  have "forwardRequest env n s f =
      (Inr (if rp_StatusCode ?rec = 0 then ?rec\<lparr>rp_StatusCode := 200\<rparr> else ?rec), ?f)"
    using c addr w by (simp add: forwardRequest_def Let_def)
  moreover have "ferry_frame f ?f" using c by (simp add: ferry_frame_def get_put_fun fun_upd_idem)
  ultimately show thesis by (rule that) simp_all
qed

lemma tcb_put_frame:
  "get (bf_breakers f) i = Some b \<Longrightarrow> ferry_frame f (f\<lparr>bf_breakers := put (bf_breakers f) i b'\<rparr>)"
  by (auto simp: ferry_frame_def get_put_fun)

lemma record_outcome_frame:
  "get (bf_breakers f) (sh_ID s) = Some b \<Longrightarrow> ferry_frame f (record_outcome s ok b' f)"
  by (auto simp: ferry_frame_def record_outcome_def RecordRequest_frame get_put_fun)

lemma cross_attempt_ok:
  assumes ok: "ferry_ok f" and s: "s \<in> set (bf_shores f)"
    and run: "cross_attempt env n s f = (out, fwd, f')"
  shows "ferry_frame f f' \<and>
    (case out of
       AttemptPanic \<Rightarrow> False
     | AttemptDone r \<Rightarrow> fwd = [(sh_ID s, rp_StatusCode r)] \<and> rp_StatusCode r \<notin> set (rc_RetryOn (fc_Retry (bf_config f)))
     | AttemptRetry e \<Rightarrow> fwd = [] \<or> (\<exists>st \<in> set (rc_RetryOn (fc_Retry (bf_config f))). fwd = [(sh_ID s, st)]))"
proof -
  have "sh_ID s \<in> dom (get (bf_breakers f))" using ok s by (auto simp: ferry_ok_def)
  then obtain b where b: "get (bf_breakers f) (sh_ID s) = Some b" by blast
  obtain admit b1 where allow: "tcb_Allow (ev_allow_time env n) b = (admit, b1)"
    by (cases "tcb_Allow (ev_allow_time env n) b")
  define f1 where "f1 = f\<lparr>bf_breakers := put (bf_breakers f) (sh_ID s) b1\<rparr>"
  have fr1: "ferry_frame f f1" unfolding f1_def using b by (rule tcb_put_frame)
  show ?thesis
  proof (cases admit)
    case False
    then show ?thesis using run b allow fr1 by (auto simp: cross_attempt_def f1_def Let_def)
  next
    case True
    have "ferry_ok f1" "s \<in> set (bf_shores f1)" using fr1 ok s ferry_frame_ok by (auto simp: ferry_frame_def)
    then obtain resp f2 where fw: "forwardRequest env n s f1 = (Inr resp, f2)" and fr2: "ferry_frame f1 f2"
      and br: "bf_breakers f2 = bf_breakers f1" by (rule forwardRequest_ok)
    have "get (bf_breakers f2) (sh_ID s) = Some b1" by (simp add: br f1_def)
    then have fr3: "ferry_frame f2 (record_outcome s good b' f2)" for good b' by (rule record_outcome_frame)
    have fr: "ferry_frame f (record_outcome s good b' f2)" for good b'
      using ferry_frame_trans [OF ferry_frame_trans [OF fr1 fr2] fr3] .
    let ?retry = "rp_StatusCode resp \<in> set (rc_RetryOn (fc_Retry (bf_config f)))"
    have "cross_attempt env n s f =
        (if ?retry
         then (AttemptRetry (RetryableStatus (rp_StatusCode resp)), [(sh_ID s, rp_StatusCode resp)],
               record_outcome s False (snd (tcb_RecordFailure (ev_fail_time env n) b1)) f2)
         else (AttemptDone resp, [(sh_ID s, rp_StatusCode resp)],
               record_outcome s True (snd (tcb_RecordSuccess b1)) f2))"
      using b allow True fw by (simp add: cross_attempt_def f1_def Let_def)
    then show ?thesis using run fr by (cases ?retry) auto
  qed
qed

lemma fallback_loop_ok:
  assumes "sh_ID ` set ss \<subseteq> dom (get bs)"
    and "fallback_loop now hc tried ss bs = (res, bs')"
  shows "dom (get bs') = dom (get bs) \<and>
    (case res of
       Inl e \<Rightarrow> e = GoError ErrNoHealthyShores
     | Inr s \<Rightarrow> s \<in> set ss \<and> sh_ID s \<notin> set tried \<and> IsHealthy hc (sh_ID s))"
  using assms
proof (induction now hc tried ss bs rule: fallback_loop.induct)
  case (1 now hc tried breakers)
  then show ?case by auto
next
  case (2 now hc tried s ss bs)
  let ?i = "sh_ID s"
  obtain b where b: "get bs ?i = Some b" using "2.prems"(1) by auto
  obtain ok b' where allow: "tcb_Allow (now ?i) b = (ok, b')" by (cases "tcb_Allow (now ?i) b")
  have dom: "dom (get (put bs ?i b')) = dom (get bs)" using b by (auto simp: get_put_fun)
  consider (tried) "?i \<in> set tried" | (sick) "?i \<notin> set tried" "\<not> IsHealthy hc ?i"
    | (refused) "?i \<notin> set tried" "IsHealthy hc ?i" "\<not> ok" | (found) "?i \<notin> set tried" "IsHealthy hc ?i" "ok" by blast
  then show ?case
  proof cases
    case tried
    then show ?thesis using "2.IH"(1) [OF refl tried] "2.prems" by (auto split: sum.split)
  next
    case sick
    then show ?thesis using "2.IH"(2) [OF refl sick] "2.prems" by (auto split: sum.split)
  next
    case refused
    have loop: "fallback_loop now hc tried ss (put bs ?i b') = (res, bs')"
      using refused "2.prems"(2) b allow by simp
    have sub: "sh_ID ` set ss \<subseteq> dom (get (put bs ?i b'))" using "2.prems"(1) dom by simp
    have nn: "\<not> \<not> IsHealthy hc ?i" using refused by simp
    show ?thesis
      using "2.IH"(3) [OF refl refused(1) nn b allow [symmetric] refused(3) sub loop] unfolding dom
      by (auto split: sum.splits)
  next
    case found
    then show ?thesis using "2.prems"(2) b allow dom by auto
  qed
qed

lemma next_shore_ok:
  assumes ok: "ferry_ok f" and run: "next_shore env n tried lastErr f = (res, f')"
  shows "ferry_frame f f' \<and> res \<noteq> Inl GoPanic \<and>
    (\<forall>s. res = Inr s \<longrightarrow> s \<in> set (bf_shores f) \<and> sh_ID s \<notin> set tried \<and> IsHealthy (bf_healthChecker f) (sh_ID s))"
proof (cases "ev_cancelled env n (backoff (fc_Retry (bf_config f)) n)")
  case (Some err)
  then show ?thesis using run by (auto simp: next_shore_def)
next
  case None
  obtain r bs where loop: "fallback_loop (ev_scan_time env n) (bf_healthChecker f) tried (bf_shores f) (bf_breakers f) = (r, bs)"
    by (cases "fallback_loop (ev_scan_time env n) (bf_healthChecker f) tried (bf_shores f) (bf_breakers f)")
  have "sh_ID ` set (bf_shores f) \<subseteq> dom (get (bf_breakers f))" using ok by (simp add: ferry_ok_def)
  note facts = fallback_loop_ok [OF this loop]
  have "ferry_frame f (f\<lparr>bf_breakers := bs\<rparr>)" using facts by (simp add: ferry_frame_def)
  then show ?thesis
    using run None loop facts by (cases r) (auto simp: next_shore_def retryWithFallback_def)
qed

text \<open>
  The log of a crossing: what was forwarded where. \<open>log_ok\<close> says that a log can come from a
  crossing with the given retryable codes and the given result.
\<close>

definition log_ok :: "int set \<Rightarrow> fault + http_response \<Rightarrow> (string \<times> int) list \<Rightarrow> bool" where
  "log_ok codes res fwd \<longleftrightarrow>
     (case res of
        Inr r \<Rightarrow> fwd \<noteq> [] \<and> snd (last fwd) = rp_StatusCode r \<and> rp_StatusCode r \<notin> codes \<and>
                 (\<forall>e \<in> set (butlast fwd). snd e \<in> codes)
      | Inl _ \<Rightarrow> \<forall>e \<in> set fwd. snd e \<in> codes)"

lemma log_ok_prepend:
  "log_ok codes res fwd' \<Longrightarrow> \<forall>e \<in> set fwd. snd e \<in> codes \<Longrightarrow> log_ok codes res (fwd @ fwd')"
  by (auto simp: log_ok_def butlast_append split: sum.splits if_splits)

definition healthy_ids :: "'l BoatFerry \<Rightarrow> string set" where
  "healthy_ids f = sh_ID ` set (healthy_shores f)"

lemma healthy_ids_frame: "ferry_frame f f' \<Longrightarrow> healthy_ids f' = healthy_ids f"
  by (simp add: healthy_ids_def healthy_shores_def ferry_frame_def)

abbreviation retry_codes :: "'l BoatFerry \<Rightarrow> int set" where
  "retry_codes f \<equiv> set (rc_RetryOn (fc_Retry (bf_config f)))"

lemma retry_codes_frame: "ferry_frame f f' \<Longrightarrow> retry_codes f' = retry_codes f"
  by (simp add: ferry_frame_def)

lemma disjoint_singleton: "X \<subseteq> {a} \<Longrightarrow> a \<notin> Y \<Longrightarrow> X \<inter> Y = {}"
  by blast

text \<open>An attempt, followed by what the rest of the loop does.\<close>

lemma attempt_then:
  assumes ok: "ferry_ok f" and s: "s \<in> set (bf_shores f)"
    and run: "(case cross_attempt env n s f of
           (AttemptPanic, fwd, f2) \<Rightarrow> (Inl GoPanic, fwd, f2)
         | (AttemptDone resp, fwd, f2) \<Rightarrow> (Inr resp, fwd, f2)
         | (AttemptRetry err, fwd, f2) \<Rightarrow>
             (case rest err f2 of (res, fwd', f3) \<Rightarrow> (res, fwd @ fwd', f3))) = (res, fwd, f')"
    and rest: "\<And>err f2 r fwd3 f3. ferry_frame f f2 \<Longrightarrow> rest err f2 = (r, fwd3, f3) \<Longrightarrow>
       ferry_frame f2 f3 \<and> r \<noteq> Inl GoPanic \<and> length fwd3 \<le> k \<and> log_ok (retry_codes f) r fwd3 \<and>
       distinct (map fst fwd3) \<and> sh_ID s \<notin> fst ` set fwd3 \<and> fst ` set fwd3 \<subseteq> A"
    and A: "sh_ID s \<in> A"
  shows "ferry_frame f f' \<and> res \<noteq> Inl GoPanic \<and> length fwd \<le> Suc k \<and> log_ok (retry_codes f) res fwd \<and>
    distinct (map fst fwd) \<and> fst ` set fwd \<subseteq> A"
proof -
  obtain out fwd1 f2 where att: "cross_attempt env n s f = (out, fwd1, f2)"
    by (cases "cross_attempt env n s f")
  note a = cross_attempt_ok [OF ok s att]
  show ?thesis
  proof (cases out)
    case AttemptPanic
    then show ?thesis using a by simp
  next
    case (AttemptDone r)
    then show ?thesis using a run att A by (auto simp: log_ok_def)
  next
    case (AttemptRetry e)
    obtain r fwd3 f3 where more: "rest e f2 = (r, fwd3, f3)" by (cases "rest e f2")
    have fr: "ferry_frame f f2" using a by simp
    have b: "ferry_frame f2 f3" "r \<noteq> Inl GoPanic" "length fwd3 \<le> k" "log_ok (retry_codes f) r fwd3"
      "distinct (map fst fwd3)" "sh_ID s \<notin> fst ` set fwd3" "fst ` set fwd3 \<subseteq> A"
      using rest [OF fr more] by blast+
    have eq: "res = r" "fwd = fwd1 @ fwd3" "f' = f3" using run att AttemptRetry more by auto
    have one: "fwd1 = [] \<or> (\<exists>st \<in> retry_codes f. fwd1 = [(sh_ID s, st)])" using a AttemptRetry by simp
    then have codes: "\<forall>e \<in> set fwd1. snd e \<in> retry_codes f" and ids: "fst ` set fwd1 \<subseteq> {sh_ID s}"
      and len: "length fwd1 \<le> 1" and dist: "distinct (map fst fwd1)" by auto
    have "log_ok (retry_codes f) r (fwd1 @ fwd3)" by (rule log_ok_prepend [OF b(4) codes])
    moreover have "fst ` set fwd1 \<inter> fst ` set fwd3 = {}" by (rule disjoint_singleton [OF ids b(6)])
    then have "distinct (map fst (fwd1 @ fwd3))" using b(5) dist by simp
    moreover have "fst ` set (fwd1 @ fwd3) \<subseteq> A" using b(7) ids A by auto
    moreover have "ferry_frame f f3" by (rule ferry_frame_trans [OF fr b(1)])
    moreover have "length (fwd1 @ fwd3) \<le> Suc k" using b(3) len by simp
    ultimately show ?thesis using b(2) unfolding eq by blast
  qed
qed

lemma retry_loop_ok:
  assumes "ferry_ok f" "0 < n" "cross_loop env k n s tried lastErr f = (res, fwd, f')"
  shows "ferry_frame f f' \<and> res \<noteq> Inl GoPanic \<and> length fwd \<le> k \<and> log_ok (retry_codes f) res fwd \<and>
    distinct (map fst fwd) \<and> fst ` set fwd \<subseteq> healthy_ids f - set tried"
  using assms
proof (induction k arbitrary: n s tried lastErr f res fwd f')
  case 0
  then show ?case by (auto simp: log_ok_def)
next
  case (Suc k)
  obtain r f1 where nxt: "next_shore env n tried lastErr f = (r, f1)"
    by (cases "next_shore env n tried lastErr f")
  note facts = next_shore_ok [OF Suc.prems(1) nxt]
  show ?case
  proof (cases r)
    case (Inl e)
    then show ?thesis using Suc.prems facts nxt by (auto simp: log_ok_def)
  next
    case (Inr t)
    have fr: "ferry_frame f f1" and ok1: "ferry_ok f1" using facts Suc.prems(1) ferry_frame_ok by auto
    have t: "t \<in> set (bf_shores f1)" "sh_ID t \<in> healthy_ids f1 - set tried"
      using facts Inr by (auto simp: ferry_frame_def healthy_ids_def healthy_shores_def)
    have "ferry_frame f1 f' \<and> res \<noteq> Inl GoPanic \<and> length fwd \<le> Suc k \<and> log_ok (retry_codes f1) res fwd \<and>
        distinct (map fst fwd) \<and> fst ` set fwd \<subseteq> healthy_ids f1 - set tried"
    proof (rule attempt_then [OF ok1 t(1) _ _ t(2)])
      show "(case cross_attempt env n t f1 of
           (AttemptPanic, fwd, f2) \<Rightarrow> (Inl GoPanic, fwd, f2)
         | (AttemptDone resp, fwd, f2) \<Rightarrow> (Inr resp, fwd, f2)
         | (AttemptRetry err, fwd, f2) \<Rightarrow>
             (case cross_loop env k (n + 1) t (sh_ID t # tried) (Some err) f2 of (res, fwd', f3) \<Rightarrow> (res, fwd @ fwd', f3)))
         = (res, fwd, f')"
        using Suc.prems(2,3) nxt Inr by simp
    next
      fix err f2 r fwd3 f3
      assume fr2: "ferry_frame f1 f2" and run: "cross_loop env k (n + 1) t (sh_ID t # tried) (Some err) f2 = (r, fwd3, f3)"
      have "ferry_ok f2" using fr2 ok1 ferry_frame_ok by blast
      from Suc.IH [OF this _ run] show "ferry_frame f2 f3 \<and> r \<noteq> Inl GoPanic \<and> length fwd3 \<le> k \<and>
          log_ok (retry_codes f1) r fwd3 \<and> distinct (map fst fwd3) \<and> sh_ID t \<notin> fst ` set fwd3 \<and>
          fst ` set fwd3 \<subseteq> healthy_ids f1 - set tried"
        using healthy_ids_frame [OF fr2] retry_codes_frame [OF fr2] by auto
    qed
    then show ?thesis
      using ferry_frame_trans [OF fr] healthy_ids_frame [OF fr] retry_codes_frame [OF fr] by auto
  qed
qed

lemma first_loop_ok:
  assumes ok: "ferry_ok f" and s: "s \<in> set (healthy_shores f)"
    and run: "cross_loop env (Suc k) 0 s [sh_ID s] None f = (res, fwd, f')"
  shows "ferry_frame f f' \<and> res \<noteq> Inl GoPanic \<and> length fwd \<le> Suc k \<and> log_ok (retry_codes f) res fwd \<and>
    distinct (map fst fwd) \<and> fst ` set fwd \<subseteq> healthy_ids f"
proof -
  have s': "s \<in> set (bf_shores f)" "sh_ID s \<in> healthy_ids f"
    using s by (auto simp: healthy_shores_def healthy_ids_def)
  show ?thesis
  proof (rule attempt_then [OF ok s'(1) _ _ s'(2)])
    show "(case cross_attempt env 0 s f of
         (AttemptPanic, fwd, f2) \<Rightarrow> (Inl GoPanic, fwd, f2)
       | (AttemptDone resp, fwd, f2) \<Rightarrow> (Inr resp, fwd, f2)
       | (AttemptRetry err, fwd, f2) \<Rightarrow>
           (case cross_loop env k (0 + 1) s (sh_ID s # [sh_ID s]) (Some err) f2 of (res, fwd', f3) \<Rightarrow> (res, fwd @ fwd', f3)))
       = (res, fwd, f')"
      using run by simp
  next
    fix err f2 r fwd3 f3
    assume fr2: "ferry_frame f f2" and run: "cross_loop env k (0 + 1) s (sh_ID s # [sh_ID s]) (Some err) f2 = (r, fwd3, f3)"
    have "ferry_ok f2" using fr2 ok ferry_frame_ok by blast
    from retry_loop_ok [OF this _ run] show "ferry_frame f2 f3 \<and> r \<noteq> Inl GoPanic \<and> length fwd3 \<le> k \<and>
        log_ok (retry_codes f) r fwd3 \<and> distinct (map fst fwd3) \<and> sh_ID s \<notin> fst ` set fwd3 \<and>
        fst ` set fwd3 \<subseteq> healthy_ids f"
      using healthy_ids_frame [OF fr2] retry_codes_frame [OF fr2] by auto
  qed
qed

section \<open>Selection\<close>

text \<open>
  What the strategies need of the environment and of the configuration: a random number in range,
  and positive weights whose sum is a 64-bit integer (registration turns the weight 0 into 1).
\<close>

definition weights_ok :: "Shore list \<Rightarrow> bool" where
  "weights_ok ss \<longleftrightarrow> (\<forall>s\<in>set ss. 1 \<le> sh_Weight s) \<and> sum_list (map sh_Weight ss) < 2 ^ 63"

definition selection_safe :: "'l cross_env \<Rightarrow> 'l BoatFerry \<Rightarrow> bool" where
  "selection_safe env f \<longleftrightarrow>
     int (length (bf_shores f)) < 2 ^ 63 \<and> (\<forall>n > 0. 0 \<le> ev_rand env n \<and> ev_rand env n < n) \<and>
     (fc_Strategy (bf_config f) = ''weighted'' \<longrightarrow> weights_ok (healthy_shores f))"

lemma word_mod_index:
  assumes "ss \<noteq> []" "int (length ss) < 2 ^ 63"
  shows "unat ((w :: 64 word) mod of_nat (length ss)) < length ss"
proof -
  have "unat (of_nat (length ss) :: 64 word) = length ss"
    using assms(2) by (simp add: unat_of_nat take_bit_nat_eq_self_iff)
  then show ?thesis using assms(1) by (simp add: unat_mod_distrib)
qed

lemma nat_rand_index:
  assumes "\<forall>n > 0. 0 \<le> rand n \<and> rand n < (n :: int)" "ss \<noteq> []"
  shows "nat (rand (int (length ss))) < length ss"
proof -
  have "0 < int (length ss)" using assms(2) by simp
  with assms(1) have "0 \<le> rand (int (length ss))" "rand (int (length ss)) < int (length ss)" by blast+
  then show ?thesis by linarith
qed

lemma least_conn_loop_ok:
  assumes "\<forall>s \<in> set ss. \<exists>c. get conns (sh_ID s) = Some c \<and> 0 \<le> c \<and> c < 2147483647"
    and "ss \<noteq> [] \<or> sel \<noteq> None" "minc = 2147483647 \<or> sel \<noteq> None"
  shows "\<exists>s. least_conn_loop conns ss minc sel = Inr s \<and> s \<in> set ss \<union> set_option sel"
  using assms
proof (induction ss arbitrary: minc sel)
  case Nil
  then show ?case by auto
next
  case (Cons s ss)
  then obtain c where c: "get conns (sh_ID s) = Some c" "c < 2147483647" by auto
  show ?case
  proof (cases "c < minc")
    case True
    have "\<exists>t. least_conn_loop conns ss c (Some s) = Inr t \<and> t \<in> set ss \<union> set_option (Some s)"
      by (rule Cons.IH) (use Cons.prems in auto)
    then show ?thesis using True c by auto
  next
    case False
    have "\<exists>t. least_conn_loop conns ss minc sel = Inr t \<and> t \<in> set ss \<union> set_option sel"
      by (rule Cons.IH) (use Cons.prems False c in auto)
    then show ?thesis using False c by auto
  qed
qed

lemma weighted_loop_mem: "weighted_loop r ss = Some s \<Longrightarrow> s \<in> set ss"
  by (induction r ss rule: weighted_loop.induct) (auto simp: Let_def split: if_splits)

lemma foldl_weight:
  assumes "\<forall>s\<in>set ss. 0 \<le> sh_Weight s" "0 \<le> t" "t + sum_list (map sh_Weight ss) < 2 ^ 63"
  shows "foldl (\<lambda>t shore. wrap64 (t + sh_Weight shore)) t ss = t + sum_list (map sh_Weight ss)"
  using assms
proof (induction ss arbitrary: t)
  case Nil
  then show ?case by simp
next
  case (Cons s ss)
  have pos: "0 \<le> sum_list (map sh_Weight ss)" by (rule sum_list_nonneg) (use Cons.prems in auto)
  then have "wrap64 (t + sh_Weight s) = t + sh_Weight s"
    using Cons.prems by (intro wrap64_id) (simp add: in_int64_def)
  then show ?case using Cons by simp
qed

lemma total_weight_sum: "weights_ok ss \<Longrightarrow> total_weight ss = sum_list (map sh_Weight ss)"
  using foldl_weight [of ss 0] by (force simp: total_weight_def weights_ok_def)

lemma weights_positive: "weights_ok ss \<Longrightarrow> ss \<noteq> [] \<Longrightarrow> 0 < sum_list (map sh_Weight ss)"
proof (cases ss)
  case (Cons s ss')
  assume w: "weights_ok ss"
  have "0 \<le> sum_list (map sh_Weight ss')" by (rule sum_list_nonneg) (use w Cons in \<open>auto simp: weights_ok_def\<close>)
  then show ?thesis using w Cons by (simp add: weights_ok_def)
qed simp

lemma first_listed_mem: "first_listed is ss = Some s \<Longrightarrow> s \<in> set ss"
  by (induction "is" ss rule: first_listed.induct) (auto split: option.splits simp: find_Some_iff)

lemma selectConsistentHash_mem:
  assumes "ss \<noteq> []" "\<forall>n > 0. 0 \<le> rand n \<and> rand n < (n :: int)"
  shows "selectConsistentHash rand ring aff ss req \<in> set ss"
  using assms nat_rand_index [OF assms(2,1)]
  by (auto simp: selectConsistentHash_def Let_def find_Some_iff dest: first_listed_mem split: option.split)

lemma selectLeastConn_mem:
  assumes ok: "ferry_ok f" and ne: "healthy_shores f \<noteq> []"
  shows "\<exists>s. selectLeastConn (bf_activeConns f) (healthy_shores f) = Inr s \<and> s \<in> set (healthy_shores f)"
proof -
  have "\<forall>s \<in> set (healthy_shores f). \<exists>c. get (bf_activeConns f) (sh_ID s) = Some c \<and> 0 \<le> c \<and> c < 2147483647"
  proof
    fix s assume "s \<in> set (healthy_shores f)"
    then have "sh_ID s \<in> dom (get (bf_activeConns f))" using ok by (auto simp: ferry_ok_def healthy_shores_def)
    moreover have "\<forall>i c. get (bf_activeConns f) i = Some c \<longrightarrow> 0 \<le> c \<and> c < 2147483647"
      using ok by (simp add: ferry_ok_def)
    ultimately show "\<exists>c. get (bf_activeConns f) (sh_ID s) = Some c \<and> 0 \<le> c \<and> c < 2147483647" by blast
  qed
  from least_conn_loop_ok [OF this, of None 2147483647] ne show ?thesis by (simp add: selectLeastConn_def)
qed

lemma selectWeighted_mem:
  assumes "weights_ok hs" "hs \<noteq> []"
  shows "\<exists>s. selectWeighted rand hs = Inr s \<and> s \<in> set hs"
  using total_weight_sum [OF assms(1)] weights_positive [OF assms] weighted_loop_mem assms(2)
  by (auto simp: selectWeighted_def Let_def split: option.split)

lemma selectShore_ok:
  assumes ok: "ferry_ok f" and safe: "selection_safe env f"
    and run: "selectShore env req f = (res, f')"
  shows "ferry_frame f f' \<and>
    (if healthy_shores f = [] then res = Inl (GoError ErrNoHealthyShores)
     else \<exists>s \<in> set (healthy_shores f). res = Inr s)"
proof (cases "healthy_shores f = []")
  case True
  then show ?thesis using run by (simp add: selectShore_def)
next
  case ne: False
  let ?hs = "healthy_shores f"
  have len: "int (length ?hs) < 2 ^ 63"
    using safe length_filter_le [of "\<lambda>s. IsHealthy (bf_healthChecker f) (sh_ID s)" "bf_shores f"]
    unfolding selection_safe_def healthy_shores_def by linarith
  have rand: "\<forall>n > 0. 0 \<le> ev_rand env n \<and> ev_rand env n < n" using safe by (simp add: selection_safe_def)
  have idx: "?hs ! unat (w mod of_nat (length ?hs)) \<in> set ?hs" for w :: "64 word"
    using word_mod_index [OF ne len] by simp
  have rr: "\<exists>s \<in> set ?hs. selectRoundRobin c ?hs = (s, c + 1)" for c
    using idx by (simp add: selectRoundRobin_def Let_def)
  note conns = selectLeastConn_mem [OF ok ne] and weighted = selectWeighted_mem [OF _ ne, of "ev_rand env"]
  have frame: "ferry_frame f (f\<lparr>bf_rrCounter := c\<rparr>)" for c by (simp add: ferry_frame_def)
  let ?st = "fc_Strategy (bf_config f)"
  consider "?st = ''round_robin''" | "?st = ''least_conn''" | "?st = ''weighted''" | "?st = ''ip_hash''"
    | "?st = ''consistent_hash''"
    | "?st \<noteq> ''round_robin''" "?st \<noteq> ''least_conn''" "?st \<noteq> ''weighted''" "?st \<noteq> ''ip_hash''" "?st \<noteq> ''consistent_hash''"
    by blast
  then show ?thesis
  proof cases
    case 1
    then show ?thesis using run ne rr [of "bf_rrCounter f"] frame by (auto simp: selectShore_def Let_def)
  next
    case 2
    then show ?thesis using run ne conns by (auto simp: selectShore_def Let_def)
  next
    case 3
    then show ?thesis using run ne weighted safe by (auto simp: selectShore_def Let_def selection_safe_def)
  next
    case 4
    then show ?thesis using run ne idx by (auto simp: selectShore_def Let_def selectIPHash_def)
  next
    case 5
    then show ?thesis
      using run ne selectConsistentHash_mem [OF ne rand] by (auto simp: selectShore_def Let_def)
  next
    case 6
    then show ?thesis
      using run ne nat_rand_index [OF rand ne] by (auto simp: selectShore_def Let_def)
  qed
qed

lemma rate_limit_frame: "rate_limit env req f = (err, f') \<Longrightarrow> ferry_frame f f' \<and> (err = None \<or> err = Some ErrRateLimitExceeded)"
  by (auto simp: rate_limit_def Let_def ferry_frame_def TokenBucket_Allow_def case_prod_beta split: option.splits if_splits)

lemma maxAttempts_pos: "\<exists>k. maxAttempts rc = Suc k"
  by (cases "maxAttempts rc") (auto simp: maxAttempts_def split: if_splits)

lemma Cross_ok:
  assumes ok: "ferry_ok f" and safe: "selection_safe env f" and run: "Cross env req f = (res, fwd, f')"
  shows "ferry_frame f f' \<and> res \<noteq> Inl GoPanic \<and> length fwd \<le> maxAttempts (fc_Retry (bf_config f)) \<and>
    log_ok (retry_codes f) res fwd \<and> distinct (map fst fwd) \<and> fst ` set fwd \<subseteq> healthy_ids f"
proof -
  obtain err f1 where rl: "rate_limit env req f = (err, f1)" by (cases "rate_limit env req f")
  note fr1 = rate_limit_frame [OF rl]
  show ?thesis
  proof (cases err)
    case (Some e)
    then show ?thesis using run rl fr1 by (auto simp: Cross_def log_ok_def)
  next
    case None
    obtain sel f2 where sel: "selectShore env req f1 = (sel, f2)" by (cases "selectShore env req f1")
    have ok1: "ferry_ok f1" and safe1: "selection_safe env f1"
      using fr1 ok safe ferry_frame_ok by (auto simp: selection_safe_def ferry_frame_def healthy_shores_def)
    note s = selectShore_ok [OF ok1 safe1 sel]
    have fr2: "ferry_frame f f2" using fr1 s ferry_frame_trans by blast
    then have ok2: "ferry_ok f2" using ok ferry_frame_ok by blast
    show ?thesis
    proof (cases sel)
      case (Inl e)
      then show ?thesis using run rl None sel s fr2 by (auto simp: Cross_def log_ok_def split: if_splits)
    next
      case (Inr t)
      then have t: "t \<in> set (healthy_shores f2)"
        using s by (auto simp: ferry_frame_def healthy_shores_def split: if_splits)
      obtain k where k: "maxAttempts (fc_Retry (bf_config f2)) = Suc k" using maxAttempts_pos by blast
      have "cross_loop env (Suc k) 0 t [sh_ID t] None f2 = (res, fwd, f')"
        using run rl None sel Inr k by (simp add: Cross_def)
      note r = first_loop_ok [OF ok2 t this, unfolded healthy_ids_frame [OF fr2] retry_codes_frame [OF fr2]]
      have "ferry_frame f f'" using ferry_frame_trans [OF fr2] r by blast
      moreover have "maxAttempts (fc_Retry (bf_config f)) = Suc k" using k fr2 by (simp add: ferry_frame_def)
      ultimately show ?thesis using r by simp
    qed
  qed
qed

section \<open>Reachable ferries\<close>

text \<open>
  Everything that happens to a ferry: registrations, health checks, crossings, and other requests
  in flight, which other goroutines add to and take from the counters of a shore.
\<close>

inductive ferry_reachable :: "FerryConfig option \<Rightarrow> 'l BoatFerry \<Rightarrow> bool" for cfg where
  ferry_new: "ferry_reachable cfg (NewBoatFerry cfg)"
| ferry_register: "ferry_reachable cfg f \<Longrightarrow> ferry_reachable cfg (snd (RegisterShore urlErr s f))"
| ferry_deregister: "ferry_reachable cfg f \<Longrightarrow> ferry_reachable cfg (snd (DeregisterShore i f))"
| ferry_check: "ferry_reachable cfg f \<Longrightarrow>
    ferry_reachable cfg (f\<lparr>bf_healthChecker := check_shore now p i (bf_healthChecker f)\<rparr>)"
| ferry_in_flight: "ferry_reachable cfg f \<Longrightarrow> get (bf_activeConns f) i = Some c0 \<Longrightarrow> 0 \<le> c \<Longrightarrow> c < 2147483647 \<Longrightarrow>
    ferry_reachable cfg (f\<lparr>bf_activeConns := put (bf_activeConns f) i c\<rparr>)"
| ferry_cross: "ferry_reachable cfg f \<Longrightarrow> selection_safe env f \<Longrightarrow>
    ferry_reachable cfg (snd (snd (Cross env req f)))"

lemma ferry_reachable_ok: "ferry_reachable cfg f \<Longrightarrow> ferry_ok f"
proof (induction rule: ferry_reachable.induct)
  case ferry_new
  then show ?case by (rule ferry_ok_New)
next
  case (ferry_check f now p i)
  then have "health_ok (bf_healthChecker f)" by (simp add: ferry_ok_def)
  from check_shore_ok [OF this, of now p i] ferry_check.IH show ?case by (simp add: ferry_ok_def)
next
  case (ferry_in_flight f i c0 c)
  have "dom (get (put (bf_activeConns f) i c)) = dom (get (bf_activeConns f))"
    using ferry_in_flight.hyps(2) by (auto simp: get_put_fun)
  then show ?case using ferry_in_flight by (simp add: ferry_ok_def)
next
  case (ferry_cross f env req)
  obtain res fwd f' where run: "Cross env req f = (res, fwd, f')" by (cases "Cross env req f")
  from Cross_ok [OF ferry_cross.IH ferry_cross.hyps(2) run] ferry_cross.IH ferry_frame_ok run show ?case by auto
qed (simp_all add: ferry_ok_Register ferry_ok_Deregister)

lemma ferry_Health_ok:
  assumes ok: "ferry_ok f"
  shows "ferry_Health f \<noteq> Inl GoPanic"
proof -
  have "get (bf_activeConns f) (shh_ShoreID sh) \<noteq> None" if sh: "sh \<in> set (GetAllShoreHealth (bf_healthChecker f))" for sh
  proof -
    obtain i st where st: "(i, st) \<in> set (hc_shores (bf_healthChecker f))" "shh_ShoreID sh = sh_ID (hs_shore st)"
      using sh by (auto simp: GetAllShoreHealth_def)
    then have "shh_ShoreID sh = i" using ok by (auto simp: ferry_ok_def health_ok_def)
    moreover have "i \<in> dom (get (hc_shores (bf_healthChecker f)))" using st(1) unfolding dom_get by (metis fst_conv image_eqI)
    ultimately show ?thesis using ok by (auto simp: ferry_ok_def)
  qed
  then show ?thesis by (auto simp: ferry_Health_def Let_def)
qed

text \<open>Uninterrupted, a crossing does not fail on the ferry's own bookkeeping; the theory \<open>Crossings\<close>
  interleaves them.\<close>

theorem cross_never_panics:
  assumes "ferry_reachable cfg f" "selection_safe env f"
  shows "fst (Cross env req f) \<noteq> Inl GoPanic"
proof -
  obtain res fwd f' where run: "Cross env req f = (res, fwd, f')" by (cases "Cross env req f")
  from Cross_ok [OF ferry_reachable_ok [OF assms(1)] assms(2) run] run show ?thesis by simp
qed

definition demo_ferry_config :: FerryConfig where
  "demo_ferry_config = DefaultFerryConfig\<lparr>
     fc_CircuitBreaker := \<lparr>cbc_Enabled = True, cbc_Threshold = 1, cbc_Timeout = 30, cbc_HalfOpenRequests = 1\<rparr>,
     fc_RateLimiting := (fc_RateLimiting DefaultFerryConfig)\<lparr>rlc_Enabled := False\<rparr>\<rparr>"

definition demo_ferry :: "unit BoatFerry" where
  "demo_ferry = enlist (demo_shore ''b'') (enlist (demo_shore ''a'') (NewBoatFerry (Some demo_ferry_config)))"

definition demo_env :: "unit cross_env" where
  "demo_env = \<lparr>ev_newLimiter = \<lambda>_ _. (), ev_bucketAllow = \<lambda>_ b. (True, b), ev_limit_time = 0,
     ev_scan_time = \<lambda>_ _. 100, ev_allow_time = \<lambda>_. 100, ev_fail_time = \<lambda>_. 100, ev_cancelled = \<lambda>_ _. None,
     ev_serve = \<lambda>_ addr. \<lparr>rp_StatusCode = (if addr = ''http://a'' then 200 else 503), rp_Header = [], rp_Body = []\<rparr>,
     ev_rand = \<lambda>_. 0, ev_sha256_u64 = \<lambda>_. 0\<rparr>"

definition demo_http :: http_request where
  "demo_http = \<lparr>hq_RemoteAddr = ''10.0.0.1'', hq_Header = [], hq_session_cookie = None,
     hq_ctx = \<lparr>rx_tenant_id = None, rx_remote_ip = None, rx_identity_id = None\<rparr>\<rparr>"

lemma ferry_reachable_enlist:
  assumes "ferry_reachable cfg f" "get (bf_shoreMap f) (sh_ID s) = None" "with_defaults s = s"
  shows "ferry_reachable cfg (enlist s f)"
  using ferry_register [OF assms(1), of "\<lambda>_. None" "Some s"] assms(2,3) by (simp add: RegisterShore_def)

lemma enlist_simps [simp]:
  "bf_shores (enlist s f) = bf_shores f @ [s]" "bf_config (enlist s f) = bf_config f"
  "bf_shoreMap (enlist s f) = put (bf_shoreMap f) (sh_ID s) s"
  by (simp_all add: enlist_def Let_def)

lemma NewBoatFerry_simps [simp]:
  "bf_shores (NewBoatFerry (Some cfg)) = []" "bf_config (NewBoatFerry (Some cfg)) = cfg"
  "bf_shoreMap (NewBoatFerry (Some cfg)) = []"
  by (simp_all add: NewBoatFerry_def Let_def)

lemma demo_shore_simps [simp]: "sh_ID (demo_shore i) = i" "with_defaults (demo_shore i) = demo_shore i"
  by (simp_all add: demo_shore_def with_defaults_def Let_def)

lemma demo_ferry_reachable: "ferry_reachable (Some demo_ferry_config) demo_ferry"
  unfolding demo_ferry_def by (intro ferry_reachable_enlist ferry_new) simp_all

lemma demo_ferry_shores: "bf_shores demo_ferry = [demo_shore ''a'', demo_shore ''b'']"
  by (simp add: demo_ferry_def)

lemma demo_ferry_config_of: "bf_config demo_ferry = demo_ferry_config"
  by (simp add: demo_ferry_def)

lemma demo_selection_safe: "selection_safe demo_env demo_ferry"
  by (simp add: selection_safe_def demo_ferry_shores demo_ferry_config_of demo_env_def
      demo_ferry_config_def DefaultFerryConfig_def)

text \<open>
  C4: The discipline of a crossing. A request is forwarded to healthy registered shores only,
  never twice to the same one, and at most once more than the configured number of retries. If
  it succeeds, the answer is that of the last shore it was forwarded to, its status is not a
  retryable one, and every earlier shore answered with a retryable status; if it fails, every
  shore it was forwarded to did. Afterwards no connection counter has changed.
\<close>

theorem cross_discipline:
  assumes "ferry_reachable cfg f" "selection_safe env f" "Cross env req f = (res, fwd, f')"
  shows "distinct (map fst fwd) \<and>
    int (length fwd) \<le> 1 + max 0 (rc_MaxRetries (fc_Retry (bf_config f))) \<and>
    (\<forall>i \<in> fst ` set fwd. i \<in> shore_ids f \<and> IsHealthy (bf_healthChecker f) i) \<and>
    (case res of
       Inr r \<Rightarrow> fwd \<noteq> [] \<and> snd (last fwd) = rp_StatusCode r \<and> rp_StatusCode r \<notin> retry_codes f \<and>
                (\<forall>e \<in> set (butlast fwd). snd e \<in> retry_codes f)
     | Inl _ \<Rightarrow> \<forall>e \<in> set fwd. snd e \<in> retry_codes f) \<and>
    get (bf_activeConns f') = get (bf_activeConns f)"
proof -
  note r = Cross_ok [OF ferry_reachable_ok [OF assms(1)] assms(2,3)]
  have "int (maxAttempts rc) = 1 + max 0 (rc_MaxRetries rc)" for rc by (simp add: maxAttempts_def)
  moreover have "healthy_ids f = {i \<in> shore_ids f. IsHealthy (bf_healthChecker f) i}"
    by (auto simp: healthy_ids_def healthy_shores_def)
  ultimately show ?thesis
    using r unfolding log_ok_def ferry_frame_def by (metis (no_types, lifting) mem_Collect_eq of_nat_mono subsetD)
qed

theorem cross_discipline_witness:
  "distinct (map fst (fst (snd (Cross demo_env demo_http demo_ferry)))) \<and>
   int (length (fst (snd (Cross demo_env demo_http demo_ferry)))) \<le> 3"
  using cross_discipline [OF demo_ferry_reachable demo_selection_safe, of demo_http,
      of "fst (Cross demo_env demo_http demo_ferry)" "fst (snd (Cross demo_env demo_http demo_ferry))"
        "snd (snd (Cross demo_env demo_http demo_ferry))"]
  by (simp add: demo_ferry_config_of demo_ferry_config_def DefaultFerryConfig_def)

section \<open>A breaker that is asked twice\<close>

lemma fallback_loop_mem: "fallback_loop now hc tried ss bs = (Inr s, bs') \<Longrightarrow> s \<in> set ss"
  by (induction ss arbitrary: bs) (auto simp: Let_def split: if_splits option.splits prod.splits)

lemma fallback_loop_breaker:
  assumes "distinct (map sh_ID ss)" "fallback_loop now hc tried ss bs = (Inr s, bs')"
    and "get bs (sh_ID s) = Some b"
  shows "get bs' (sh_ID s) = Some (snd (tcb_Allow (now (sh_ID s)) b)) \<and> fst (tcb_Allow (now (sh_ID s)) b)"
  using assms
proof (induction ss arbitrary: bs)
  case Nil
  then show ?case by simp
next
  case (Cons t ts)
  show ?case
  proof (cases "sh_ID t \<in> set tried \<or> \<not> IsHealthy hc (sh_ID t)")
    case True
    then have "fallback_loop now hc tried ts bs = (Inr s, bs')" using Cons.prems(2)
      by (cases "sh_ID t \<in> set tried") (simp_all add: Let_def)
    from Cons.IH [OF _ this Cons.prems(3)] Cons.prems(1) show ?thesis by simp
  next
    case False
    then obtain c where c: "get bs (sh_ID t) = Some c" using Cons.prems(2) by (auto simp: Let_def split: option.splits)
    obtain ok c' where allow: "tcb_Allow (now (sh_ID t)) c = (ok, c')" by (cases "tcb_Allow (now (sh_ID t)) c")
    show ?thesis
    proof (cases ok)
      case True
      then show ?thesis using Cons.prems False c allow by (auto simp: Let_def)
    next
      case refused: False
      have loop: "fallback_loop now hc tried ts (put bs (sh_ID t) c') = (Inr s, bs')"
        using Cons.prems(2) False c allow refused by (simp add: Let_def)
      then have "sh_ID s \<noteq> sh_ID t" using fallback_loop_mem [OF loop] Cons.prems(1) by (auto simp: image_iff)
      then have "get (put bs (sh_ID t) c') (sh_ID s) = Some b" using Cons.prems(3) by simp
      from Cons.IH [OF _ loop this] Cons.prems(1) show ?thesis by simp
    qed
  qed
qed

lemma exhausted_tcb_refuses:
  assumes "tcb_inner b = RealBreaker cb" "cb_state cb = StateHalfOpen" "cb_halfOpenRequests cb \<le> cb_halfOpenAttempts cb"
  shows "tcb.allows ts b = (replicate (length ts) False, b)"
proof (induction ts)
  case (Cons t ts)
  have "tcb_Allow t b = (False, b)" using assms by (simp add: tcb_Allow_def impl_Allow_def cb_Allow_def)
  then show ?case using Cons by simp
qed simp

text \<open>
  With one half-open request configured, a retry wastes the only probe of a recovering
  shore. Looking for a fallback asks the open breaker of the shore and so uses up the probe; the
  attempt then asks the same breaker again and is refused, nothing is forwarded, so no outcome is
  ever recorded, and from then on the breaker refuses every request, at whatever time it comes.
\<close>

theorem retry_loses_probe:
  assumes "ferry_reachable cfg f" "retryWithFallback env n tried f = (Inr s, f')"
    and "get (bf_breakers f) (sh_ID s) = Some b" "tcb_inner b = RealBreaker cb" "cb_state cb = StateOpen"
    and "cb_halfOpenRequests cb \<le> 1"
  shows "(\<exists>f''. cross_attempt env n s f' = (AttemptRetry (BreakerOpenFor (sh_ID s)), [], f'')) \<and>
    (\<exists>b'. get (bf_breakers f') (sh_ID s) = Some b' \<and> (\<forall>ts. fst (tcb.allows ts b') = replicate (length ts) False))"
proof -
  let ?now = "ev_scan_time env n (sh_ID s)"
  have "distinct (map sh_ID (bf_shores f))" using ferry_reachable_ok [OF assms(1)] by (simp add: ferry_ok_def)
  moreover have "fallback_loop (ev_scan_time env n) (bf_healthChecker f) tried (bf_shores f) (bf_breakers f) =
      (Inr s, bf_breakers f')" using assms(2) by (auto simp: retryWithFallback_def split: prod.splits)
  ultimately have b': "get (bf_breakers f') (sh_ID s) = Some (snd (tcb_Allow ?now b))" and ok: "fst (tcb_Allow ?now b)"
    using fallback_loop_breaker [OF _ _ assms(3)] by blast+
  let ?cb = "cb\<lparr>cb_state := StateHalfOpen, cb_halfOpenAttempts := 1\<rparr>"
  let ?b = "b\<lparr>tcb_inner := RealBreaker ?cb\<rparr>"
  have step: "tcb_Allow ?now b = (True, ?b)"
    using ok assms(4,5) by (auto simp: tcb_Allow_def impl_Allow_def cb_Allow_def split: if_splits)
  have all: "tcb.allows ts ?b = (replicate (length ts) False, ?b)" for ts
    by (rule exhausted_tcb_refuses [where cb = ?cb]) (use assms(6) in simp_all)
  have "tcb_Allow t ?b = (False, ?b)" for t using all [of "[t]"] by (simp add: case_prod_beta prod_eq_iff)
  then have "\<exists>f''. cross_attempt env n s f' = (AttemptRetry (BreakerOpenFor (sh_ID s)), [], f'')"
    using b' step by (simp add: cross_attempt_def Let_def)
  moreover have "\<forall>ts. fst (tcb.allows ts ?b) = replicate (length ts) False" using all by simp
  ultimately show ?thesis using b' step by auto
qed

text \<open>The demo ferry after its shore \<open>b\<close> has answered a request with 503 and tripped its breaker.\<close>

definition tripped_ferry :: "unit BoatFerry" where
  "tripped_ferry = snd (snd (Cross demo_env demo_http demo_ferry))"

lemma demo_ferry_parts:
  "bf_rateLimiter demo_ferry = None"
  "bf_rrCounter demo_ferry = 0"
  "bf_breakers demo_ferry = [(''a'', new_breaker (fc_CircuitBreaker demo_ferry_config) ''a''),
     (''b'', new_breaker (fc_CircuitBreaker demo_ferry_config) ''b'')]"
  "bf_activeConns demo_ferry = [(''a'', 0), (''b'', 0)]"
  "bf_reverseProxies demo_ferry = [(''a'', ''http://a''), (''b'', ''http://b'')]"
  "hc_shores (bf_healthChecker demo_ferry) =
     [(''a'', new_shore_state (demo_shore ''a'')), (''b'', new_shore_state (demo_shore ''b''))]"
  by (simp_all add: demo_ferry_def enlist_def NewBoatFerry_def demo_ferry_config_def Let_def put_def
      NewHealthChecker_def AddShore_def) (simp_all add: demo_shore_def)

lemma tripped_ferry_parts:
  "bf_shores tripped_ferry = [demo_shore ''a'', demo_shore ''b'']"
  "get (bf_breakers tripped_ferry) ''b'' = Some \<lparr>tcb_inner = RealBreaker
      \<lparr>cb_threshold = 1, cb_timeout = 30, cb_halfOpenRequests = 1, cb_state = StateOpen, cb_failures = 1,
       cb_successes = 0, cb_lastFailureTime = 100, cb_halfOpenAttempts = 0\<rparr>,
      tcb_shoreID = ''b'', tcb_lastState = StateOpen\<rparr>"
  "IsHealthy (bf_healthChecker tripped_ferry) ''b''"
  unfolding tripped_ferry_def
  by (simp_all add: Cross_def rate_limit_def demo_ferry_parts demo_ferry_shores demo_ferry_config_of
      selectShore_def healthy_shores_def IsHealthy_def new_shore_state_def demo_ferry_config_def DefaultFerryConfig_def
      selectRoundRobin_def Let_def maxAttempts_def eval_nat_numeral cross_attempt_def new_breaker_def impl_defs tcb_defs
      cb_defs NewCircuitBreaker_def forwardRequest_def wrap32_def demo_env_def record_outcome_def RecordRequest_def
      next_shore_def retryWithFallback_def)

theorem retry_loses_probe_witness:
  "\<exists>f''. cross_attempt (demo_env\<lparr>ev_scan_time := \<lambda>_ _. 200\<rparr>) 1 (demo_shore ''b'')
      (snd (retryWithFallback (demo_env\<lparr>ev_scan_time := \<lambda>_ _. 200\<rparr>) 1 [''a''] tripped_ferry)) =
      (AttemptRetry (BreakerOpenFor ''b''), [], f'')"
proof -
  let ?env = "demo_env\<lparr>ev_scan_time := \<lambda>_ _. 200\<rparr>"
  have reach: "ferry_reachable (Some demo_ferry_config) tripped_ferry"
    unfolding tripped_ferry_def by (rule ferry_cross [OF demo_ferry_reachable demo_selection_safe])
  have "fst (retryWithFallback ?env 1 [''a''] tripped_ferry) = Inr (demo_shore ''b'')"
    by (simp add: retryWithFallback_def tripped_ferry_parts Let_def tcb_Allow_def impl_Allow_def cb_Allow_def)
  then have retry: "retryWithFallback ?env 1 [''a''] tripped_ferry =
      (Inr (demo_shore ''b''), snd (retryWithFallback ?env 1 [''a''] tripped_ferry))" by (simp add: prod_eq_iff)
  show ?thesis
    using retry_loses_probe [OF reach retry] tripped_ferry_parts(2) by simp
qed

section \<open>Fair strategies\<close>

fun rr_picks :: "nat \<Rightarrow> 64 word \<Rightarrow> Shore list \<Rightarrow> Shore list" where
  "rr_picks 0 c ss = []"
| "rr_picks (Suc n) c ss = (case selectRoundRobin c ss of (s, c') \<Rightarrow> s # rr_picks n c' ss)"

lemma rr_picks_nth:
  assumes "ss \<noteq> []" "int (length ss) < 2 ^ 63" "unat c + n < 2 ^ 64"
  shows "rr_picks n c ss = map (\<lambda>k. ss ! ((unat c + 1 + k) mod length ss)) [0..<n]"
  using assms
proof (induction n arbitrary: c)
  case 0
  then show ?case by simp
next
  case (Suc n)
  have next_c: "unat (c + 1) = unat c + 1"
    using Suc.prems(3) by (simp add: unat_plus_simple [THEN iffD1] no_olen_add_nat unat_word_ariths)
  have "unat (of_nat (length ss) :: 64 word) = length ss"
    using Suc.prems(2) by (simp add: unat_of_nat take_bit_nat_eq_self_iff)
  then have idx: "unat ((c + 1) mod of_nat (length ss)) = (unat c + 1) mod length ss"
    by (simp add: unat_mod_distrib next_c)
  have "rr_picks n (c + 1) ss = map (\<lambda>k. ss ! ((unat (c + 1) + 1 + k) mod length ss)) [0..<n]"
    by (rule Suc.IH) (use Suc.prems next_c in auto)
  then show ?case
    by (simp add: selectRoundRobin_def Let_def idx next_c upt_conv_Cons map_Suc_upt [symmetric] del: upt_Suc)
qed

lemma mset_rotate: "mset (rotate n xs) = mset xs"
proof (induction n)
  case (Suc n)
  have "mset (rotate1 ys) = mset ys" for ys :: "'a list" by (cases ys) simp_all
  then show ?case using Suc by simp
qed simp

text \<open>
  Round robin is fair. As long as its 64-bit counter does not wrap around, any \<open>n\<close>
  successive selections among the same \<open>n\<close> healthy shores pick each of them exactly once.
\<close>

theorem round_robin_fair:
  assumes "ss \<noteq> []" "int (length ss) < 2 ^ 63" "unat c + length ss < 2 ^ 64"
  shows "mset (rr_picks (length ss) c ss) = mset ss"
proof -
  obtain m where m: "m = unat c + 1" by blast
  have "rr_picks (length ss) c ss = rotate m ss"
    by (rule nth_equalityI) (simp_all add: rr_picks_nth [OF assms, folded m] nth_rotate)
  then show ?thesis by (simp add: mset_rotate)
qed

theorem round_robin_fair_witness:
  "mset (rr_picks (length [demo_shore ''a'', demo_shore ''b'']) 41 [demo_shore ''a'', demo_shore ''b'']) =
     mset [demo_shore ''a'', demo_shore ''b'']"
  by (rule round_robin_fair) simp_all

lemma weighted_loop_step:
  assumes "1 \<le> sh_Weight s" "0 \<le> r" "r < 2 ^ 63" "sh_Weight s < 2 ^ 63"
  shows "weighted_loop r (s # ss) = (if r < sh_Weight s then Some s else weighted_loop (r - sh_Weight s) ss)"
proof -
  have "wrap64 (r - sh_Weight s) = r - sh_Weight s" using assms by (intro wrap64_id) (simp add: in_int64_def)
  then show ?thesis by (simp add: Let_def)
qed

lemma weights_ok_Cons:
  assumes "weights_ok (s # ss)"
  shows "weights_ok ss" "1 \<le> sh_Weight s" "sh_Weight s < 2 ^ 63"
    "sh_Weight s + sum_list (map sh_Weight ss) < 2 ^ 63" "0 \<le> sum_list (map sh_Weight ss)"
proof -
  show "0 \<le> sum_list (map sh_Weight ss)"
    by (rule sum_list_nonneg) (use assms in \<open>auto simp: weights_ok_def\<close>)
  with assms show "weights_ok ss" "1 \<le> sh_Weight s" "sh_Weight s < 2 ^ 63"
    "sh_Weight s + sum_list (map sh_Weight ss) < 2 ^ 63" by (auto simp: weights_ok_def)
qed

lemma weighted_loop_total:
  "weights_ok ss \<Longrightarrow> 0 \<le> r \<Longrightarrow> r < sum_list (map sh_Weight ss) \<Longrightarrow> \<exists>s \<in> set ss. weighted_loop r ss = Some s"
proof (induction ss arbitrary: r)
  case (Cons s ss)
  note w = weights_ok_Cons [OF Cons.prems(1)]
  have "r < 2 ^ 63" using Cons.prems(3) w(4) by simp
  note step = weighted_loop_step [OF w(2) Cons.prems(2) this w(3), of ss]
  show ?case
  proof (cases "r < sh_Weight s")
    case False
    then have "\<exists>t \<in> set ss. weighted_loop (r - sh_Weight s) ss = Some t"
      by (intro Cons.IH) (use w Cons.prems in auto)
    then show ?thesis using step False by auto
  qed (use step in simp)
qed simp

lemma weighted_loop_share:
  assumes "weights_ok ss" "distinct ss" "t \<in> set ss"
  shows "card {r. 0 \<le> r \<and> r < sum_list (map sh_Weight ss) \<and> weighted_loop r ss = Some t} = nat (sh_Weight t)"
  using assms
proof (induction ss)
  case (Cons s ss)
  note w = weights_ok_Cons [OF Cons.prems(1)]
  let ?W = "sum_list (map sh_Weight ss)"
  have step: "weighted_loop r (s # ss) = (if r < sh_Weight s then Some s else weighted_loop (r - sh_Weight s) ss)"
    if "0 \<le> r" "r < sh_Weight s + ?W" for r
    using weighted_loop_step [OF w(2) that(1) _ w(3)] that w(4) by simp
  show ?case
  proof (cases "t = s")
    case True
    have "weighted_loop r ss \<noteq> Some s" for r using weighted_loop_mem [of r ss s] Cons.prems(2) by auto
    then have "{r. 0 \<le> r \<and> r < sh_Weight s + ?W \<and> weighted_loop r (s # ss) = Some t} = {0..<sh_Weight s}"
      using True w(5) step by (auto split: if_splits)
    then show ?thesis using True by simp
  next
    case False
    let ?R = "{r. 0 \<le> r \<and> r < ?W \<and> weighted_loop r ss = Some t}"
    have "{r. 0 \<le> r \<and> r < sh_Weight s + ?W \<and> weighted_loop r (s # ss) = Some t} = (\<lambda>r. r + sh_Weight s) ` ?R"
    proof (intro equalityI subsetI)
      fix r assume "r \<in> {r. 0 \<le> r \<and> r < sh_Weight s + ?W \<and> weighted_loop r (s # ss) = Some t}"
      then have "r - sh_Weight s \<in> ?R" using False step [of r] by (auto split: if_splits)
      then show "r \<in> (\<lambda>r. r + sh_Weight s) ` ?R" by (intro image_eqI [of _ _ "r - sh_Weight s"]) simp_all
    next
      fix r assume "r \<in> (\<lambda>r. r + sh_Weight s) ` ?R"
      then have "r - sh_Weight s \<in> ?R" by auto
      then show "r \<in> {r. 0 \<le> r \<and> r < sh_Weight s + ?W \<and> weighted_loop r (s # ss) = Some t}"
        using step [of r] w(2) by (simp del: weighted_loop.simps)
    qed
    then show ?thesis using Cons.IH w(1) Cons.prems False by (simp add: card_image inj_on_def)
  qed
qed simp

text \<open>
  Weighted selection is exact. Of the equally likely outcomes of the random draw, each shore
  is chosen for exactly as many as its weight, and one of the shores is chosen for every outcome.
\<close>

theorem weighted_shares:
  assumes "weights_ok ss" "distinct ss" "t \<in> set ss"
  shows "card {r. 0 \<le> r \<and> r < total_weight ss \<and> selectWeighted (\<lambda>_. r) ss = Inr t} = nat (sh_Weight t) \<and>
    total_weight ss = sum_list (map sh_Weight ss)"
proof -
  have tot: "total_weight ss = sum_list (map sh_Weight ss)" by (rule total_weight_sum [OF assms(1)])
  have "ss \<noteq> []" using assms(3) by auto
  from weights_positive [OF assms(1) this]
  have "selectWeighted (\<lambda>_. r) ss = Inr t \<longleftrightarrow> weighted_loop r ss = Some t"
    if "0 \<le> r" "r < sum_list (map sh_Weight ss)" for r
    using weighted_loop_total [OF assms(1) that] by (auto simp: selectWeighted_def Let_def tot)
  then have "{r. 0 \<le> r \<and> r < total_weight ss \<and> selectWeighted (\<lambda>_. r) ss = Inr t} =
      {r. 0 \<le> r \<and> r < sum_list (map sh_Weight ss) \<and> weighted_loop r ss = Some t}"
    unfolding tot by blast
  then show ?thesis using weighted_loop_share [OF assms] tot by simp
qed

theorem weighted_shares_witness:
  "card {r. 0 \<le> r \<and> r < total_weight [demo_shore ''a''\<lparr>sh_Weight := 3\<rparr>, demo_shore ''b''] \<and>
     selectWeighted (\<lambda>_. r) [demo_shore ''a''\<lparr>sh_Weight := 3\<rparr>, demo_shore ''b''] = Inr (demo_shore ''a''\<lparr>sh_Weight := 3\<rparr>)} = 3"
proof -
  let ?a = "demo_shore ''a''\<lparr>sh_Weight := 3\<rparr>"
  have "weights_ok [?a, demo_shore ''b'']" "distinct [?a, demo_shore ''b'']" "?a \<in> set [?a, demo_shore ''b'']"
    by (simp_all add: weights_ok_def demo_shore_def)
  from conjunct1 [OF weighted_shares [OF this]] show ?thesis by simp
qed

end
