(* ===== verification/Crossings.thy ===== *)
theory Crossings
  imports Ferry
begin

text \<open>
  Crossings that overlap. \<open>Cross\<close> of the theory \<open>Charon\<close> runs a crossing from its arrival to its answer
  in one go; in the program every request has its own goroutine, and \<open>Cross\<close> takes the ferry's lock only
  while it selects a shore (\<open>src/pkg/charon/load_balancer.go\<close>, \<open>selectShore\<close> and \<open>retryWithFallback\<close>).
  Here a crossing is a sequence of steps, one for each access to what the crossings share, and the
  steps of any number of crossings, the health checks and the registrations interleave. A crossing
  whose steps are not interrupted is \<open>Cross\<close>.

  The breakers, the connection counters and the proxies are looked up in Go maps without the lock
  (lines 310, 539, 542 and 547). A registration or a deregistration writes these maps: at the same
  time as a lookup that is a data race, and a lookup after the deregistration finds nothing. The
  interleavings below are those where shores come and go only while no crossing is between the choice
  of its shore and the record of its outcome; \<open>charon-proxy\<close> registers its shores before it serves.
\<close>

section \<open>A crossing in steps\<close>

datatype stage =
    Arrived
  | Limited
  | Chosen nat Shore "string list"
  | Admitted nat Shore "string list"
  | Counted nat Shore "string list"
  | Served nat Shore "string list" http_response
  | Answered nat Shore "string list" http_response
  | Waiting nat "string list" "charon_error option"
  | Finished "fault + http_response"

definition ok_status :: "http_response \<Rightarrow> http_response" where
  "ok_status recorder = (if rp_StatusCode recorder = 0 then recorder\<lparr>rp_StatusCode := 200\<rparr> else recorder)"

definition count_up :: "int \<Rightarrow> string \<Rightarrow> int \<Rightarrow> 'l BoatFerry \<Rightarrow> 'l BoatFerry" where
  "count_up d i c f = f\<lparr>bf_activeConns := put (bf_activeConns f) i (wrap32 (c + d))\<rparr>"

fun crossing_step :: "'l cross_env \<Rightarrow> http_request \<Rightarrow> stage \<Rightarrow> 'l BoatFerry \<Rightarrow> stage \<times> 'l BoatFerry" where
  "crossing_step env req Arrived f =
     (case rate_limit env req f of
        (Some err, f1) \<Rightarrow> (Finished (Inl (GoError (ToHTTPError err))), f1)
      | (None, f1) \<Rightarrow> (Limited, f1))"
| "crossing_step env req Limited f =
     (case selectShore env req f of
        (Inl GoPanic, f1) \<Rightarrow> (Finished (Inl GoPanic), f1)
      | (Inl (GoError err), f1) \<Rightarrow> (Finished (Inl (GoError (ToHTTPError err))), f1)
      | (Inr shore, f1) \<Rightarrow> (Chosen 0 shore [sh_ID shore], f1))"
| "crossing_step env req (Chosen n shore tried) f =
     (case get (bf_breakers f) (sh_ID shore) of
        None \<Rightarrow> (Finished (Inl GoPanic), f)
      | Some breaker \<Rightarrow>
          (case tcb_Allow (ev_allow_time env n) breaker of
             (ok, b1) \<Rightarrow>
               let f1 = f\<lparr>bf_breakers := put (bf_breakers f) (sh_ID shore) b1\<rparr>
               in if \<not> ok then (Waiting (n + 1) (sh_ID shore # tried) (Some (BreakerOpenFor (sh_ID shore))), f1)
                  else (Admitted n shore tried, f1)))"
| "crossing_step env req (Admitted n shore tried) f =
     (case get (bf_activeConns f) (sh_ID shore) of
        None \<Rightarrow> (Finished (Inl GoPanic), f)
      | Some c \<Rightarrow> (Counted n shore tried, count_up 1 (sh_ID shore) c f))"
| "crossing_step env req (Counted n shore tried) f =
     (case get (bf_reverseProxies f) (sh_ID shore) of
        None \<Rightarrow> (Finished (Inl GoPanic),
                 case get (bf_activeConns f) (sh_ID shore) of None \<Rightarrow> f | Some c \<Rightarrow> count_up (- 1) (sh_ID shore) c f)
      | Some addr \<Rightarrow> (Served n shore tried (ok_status (ev_serve env n addr)), f))"
| "crossing_step env req (Served n shore tried resp) f =
     (case get (bf_activeConns f) (sh_ID shore) of
        None \<Rightarrow> (Finished (Inl GoPanic), f)
      | Some c \<Rightarrow> (Answered n shore tried resp, count_up (- 1) (sh_ID shore) c f))"
| "crossing_step env req (Answered n shore tried resp) f =
     (let good = (rp_StatusCode resp \<notin> set (rc_RetryOn (fc_Retry (bf_config f))));
          note_it = (\<lambda>b. snd (if good then tcb_RecordSuccess b else tcb_RecordFailure (ev_fail_time env n) b));
          f1 = (case get (bf_breakers f) (sh_ID shore) of
                  None \<Rightarrow> f\<lparr>bf_healthChecker := RecordRequest (sh_ID shore) good (bf_healthChecker f)\<rparr>
                | Some b \<Rightarrow> record_outcome shore good (note_it b) f)
      in (if good then Finished (Inr resp)
          else Waiting (n + 1) (sh_ID shore # tried) (Some (RetryableStatus (rp_StatusCode resp))), f1))"
| "crossing_step env req (Waiting n tried lastErr) f =
     (if n \<ge> maxAttempts (fc_Retry (bf_config f)) then
        (Finished (Inl (GoError (ToHTTPError (case lastErr of Some e \<Rightarrow> e | None \<Rightarrow> AttemptsExhausted (int n))))), f)
      else case next_shore env n tried lastErr f of
             (Inl err, f1) \<Rightarrow> (Finished (Inl err), f1)
           | (Inr shore, f1) \<Rightarrow> (Chosen n shore tried, f1))"
| "crossing_step env req (Finished res) f = (Finished res, f)"

section \<open>Uninterrupted, the steps are Cross\<close>

inductive crosses :: "'l cross_env \<Rightarrow> http_request \<Rightarrow> stage \<times> 'l BoatFerry \<Rightarrow> stage \<times> 'l BoatFerry \<Rightarrow> bool" for env req where
  crosses_refl: "crosses env req x x"
| crosses_step: "crosses env req (crossing_step env req st f) y \<Longrightarrow> crosses env req (st, f) y"

lemma crosses_trans: "crosses env req x y \<Longrightarrow> crosses env req y z \<Longrightarrow> crosses env req x z"
  by (induction rule: crosses.induct) (auto intro: crosses.intros)

lemma crosses_one: "crossing_step env req st f = y \<Longrightarrow> crosses env req (st, f) y"
  by (metis crosses.intros)

definition after_attempt :: "nat \<Rightarrow> Shore \<Rightarrow> string list \<Rightarrow> attempt_outcome \<Rightarrow> stage" where
  "after_attempt n s tried out =
     (case out of
        AttemptPanic \<Rightarrow> Finished (Inl GoPanic)
      | AttemptDone r \<Rightarrow> Finished (Inr r)
      | AttemptRetry e \<Rightarrow> Waiting (n + 1) (sh_ID s # tried) (Some e))"

lemma forward_crosses:
  assumes b: "get (bf_breakers f) (sh_ID s) = Some b" and cfg: "bf_config f = bf_config f0"
    and run: "(case forwardRequest env n s f of
        (Inl GoPanic, f2) \<Rightarrow> (AttemptPanic, [], f2)
      | (Inl (GoError err), f2) \<Rightarrow>
          (AttemptRetry err, [], record_outcome s False (snd (tcb_RecordFailure (ev_fail_time env n) b)) f2)
      | (Inr resp, f2) \<Rightarrow>
          let fwd = [(sh_ID s, rp_StatusCode resp)]
          in if rp_StatusCode resp \<in> set (rc_RetryOn (fc_Retry (bf_config f0))) then
               (AttemptRetry (RetryableStatus (rp_StatusCode resp)), fwd,
                record_outcome s False (snd (tcb_RecordFailure (ev_fail_time env n) b)) f2)
             else (AttemptDone resp, fwd, record_outcome s True (snd (tcb_RecordSuccess b)) f2)) = (out, fwd, f')"
  shows "crosses env req (Admitted n s tried, f) (after_attempt n s tried out, f')"
proof (cases "get (bf_activeConns f) (sh_ID s)")
  case None
  then show ?thesis using run by (intro crosses_one) (auto simp: forwardRequest_def after_attempt_def)
next
  case (Some c)
  let ?f1 = "count_up 1 (sh_ID s) c f" and ?f2 = "count_up (- 1) (sh_ID s) (wrap32 (c + 1)) (count_up 1 (sh_ID s) c f)"
  have one: "crosses env req (Admitted n s tried, f) (Counted n s tried, ?f1)"
    by (rule crosses_one) (simp add: Some)
  have conns: "get (bf_activeConns ?f1) (sh_ID s) = Some (wrap32 (c + 1))" by (simp add: count_up_def)
  have same: "bf_breakers ?f2 = bf_breakers f" "bf_config ?f2 = bf_config f0" "bf_reverseProxies ?f1 = bf_reverseProxies f"
    by (simp_all add: count_up_def cfg)
  show ?thesis
  proof (cases "get (bf_reverseProxies f) (sh_ID s)")
    case None
    then have "crosses env req (Counted n s tried, ?f1) (after_attempt n s tried out, f')"
      using run Some conns same
      by (intro crosses_one) (auto simp: forwardRequest_def Let_def after_attempt_def count_up_def)
    then show ?thesis using crosses_trans [OF one] by blast
  next
    case proxy: (Some addr)
    let ?resp = "ok_status (ev_serve env n addr)"
    have "crosses env req (Served n s tried ?resp, ?f1) (Answered n s tried ?resp, ?f2)"
      by (rule crosses_one) (use conns in simp)
    moreover have "crosses env req (Counted n s tried, ?f1) (Served n s tried ?resp, ?f1)"
      by (rule crosses_one) (use proxy same in simp)
    ultimately have two: "crosses env req (Counted n s tried, ?f1) (Answered n s tried ?resp, ?f2)"
      using crosses_trans by blast
    have "forwardRequest env n s f = (Inr ?resp, ?f2)"
      using Some proxy by (simp add: forwardRequest_def Let_def count_up_def ok_status_def)
    then have "crossing_step env req (Answered n s tried ?resp) ?f2 = (after_attempt n s tried out, f')"
      using run b same by (auto simp: Let_def after_attempt_def split: if_splits)
    from crosses_trans [OF one crosses_trans [OF two crosses_one [OF this]]] show ?thesis .
  qed
qed

lemma attempt_crosses:
  assumes "cross_attempt env n s f = (out, fwd, f')"
  shows "crosses env req (Chosen n s tried, f) (after_attempt n s tried out, f')"
proof (cases "get (bf_breakers f) (sh_ID s)")
  case None
  then show ?thesis using assms by (intro crosses_one) (auto simp: cross_attempt_def after_attempt_def)
next
  case (Some b)
  obtain ok b1 where allow: "tcb_Allow (ev_allow_time env n) b = (ok, b1)" by fastforce
  define f1 where "f1 = f\<lparr>bf_breakers := put (bf_breakers f) (sh_ID s) b1\<rparr>"
  show ?thesis
  proof (cases ok)
    case False
    then show ?thesis using assms Some allow
      by (intro crosses_one) (auto simp: cross_attempt_def after_attempt_def Let_def)
  next
    case True
    have one: "crosses env req (Chosen n s tried, f) (Admitted n s tried, f1)"
      by (rule crosses_one) (simp add: Some allow True f1_def Let_def)
    have "crosses env req (Admitted n s tried, f1) (after_attempt n s tried out, f')"
    proof (rule forward_crosses [of f1 s b1 f])
      show "get (bf_breakers f1) (sh_ID s) = Some b1" "bf_config f1 = bf_config f" by (simp_all add: f1_def)
    qed (use assms Some allow True in \<open>simp add: cross_attempt_def f1_def [symmetric] Let_def\<close>)
    then show ?thesis using crosses_trans [OF one] by blast
  qed
qed

lemma attempt_config: "cross_attempt env n s f = (out, fwd, f') \<Longrightarrow> bf_config f' = bf_config f"
  by (auto simp: cross_attempt_def forwardRequest_def record_outcome_def Let_def split: option.splits prod.splits if_splits sum.splits)

lemma next_shore_config: "next_shore env n tried lastErr f = (res, f') \<Longrightarrow> bf_config f' = bf_config f"
  by (auto simp: next_shore_def retryWithFallback_def split: option.splits prod.splits sum.splits fault.splits)

lemma waiting_crosses:
  assumes "cross_loop env k n s tried lastErr f = (res, fwd, f')" "n + k = maxAttempts (fc_Retry (bf_config f))" "0 < n"
  shows "crosses env req (Waiting n tried lastErr, f) (Finished res, f')"
  using assms
proof (induction k arbitrary: n s tried lastErr f res fwd f')
  case 0
  then show ?case by (intro crosses_one) auto
next
  case (Suc k)
  obtain r f1 where nxt: "next_shore env n tried lastErr f = (r, f1)" by fastforce
  note cfg1 = next_shore_config [OF nxt]
  show ?case
  proof (cases r)
    case (Inl e)
    then show ?thesis using Suc.prems nxt by (intro crosses_one) auto
  next
    case (Inr t)
    obtain out fwd1 f2 where att: "cross_attempt env n t f1 = (out, fwd1, f2)" by (metis prod_cases3)
    note cfg2 = attempt_config [OF att]
    have one: "crosses env req (Waiting n tried lastErr, f) (Chosen n t tried, f1)"
      by (rule crosses_one) (use Suc.prems(2) nxt Inr in simp)
    have "crosses env req (after_attempt n t tried out, f2) (Finished res, f')"
    proof (cases out)
      case (AttemptRetry e)
      obtain fwd3 where "cross_loop env k (n + 1) t (sh_ID t # tried) (Some e) f2 = (res, fwd3, f')"
        using Suc.prems(1,3) nxt Inr att AttemptRetry by (auto split: prod.splits)
      from Suc.IH [OF this] Suc.prems(2) cfg1 cfg2 show ?thesis by (simp add: after_attempt_def AttemptRetry)
    qed (use Suc.prems(1,3) nxt Inr att in \<open>auto simp: after_attempt_def intro: crosses_refl\<close>)
    then show ?thesis using crosses_trans [OF one crosses_trans [OF attempt_crosses [OF att]]] by blast
  qed
qed

lemma first_crosses:
  assumes "cross_loop env (maxAttempts (fc_Retry (bf_config f))) 0 s [sh_ID s] None f = (res, fwd, f')"
  shows "crosses env req (Chosen 0 s [sh_ID s], f) (Finished res, f')"
proof -
  obtain k where k: "maxAttempts (fc_Retry (bf_config f)) = Suc k" using maxAttempts_pos by blast
  obtain out fwd1 f2 where att: "cross_attempt env 0 s f = (out, fwd1, f2)" by (metis prod_cases3)
  have "crosses env req (after_attempt 0 s [sh_ID s] out, f2) (Finished res, f')"
  proof (cases out)
    case (AttemptRetry e)
    obtain fwd3 where "cross_loop env k 1 s (sh_ID s # [sh_ID s]) (Some e) f2 = (res, fwd3, f')"
      using assms k att AttemptRetry by (auto split: prod.splits)
    from waiting_crosses [OF this] k attempt_config [OF att] show ?thesis by (simp add: after_attempt_def AttemptRetry)
  qed (use assms k att in \<open>auto simp: after_attempt_def intro: crosses_refl\<close>)
  then show ?thesis using crosses_trans [OF attempt_crosses [OF att]] by blast
qed

text \<open>The steps of a crossing that nothing interrupts give the answer and the ferry of \<open>Cross\<close>.\<close>

theorem steps_are_Cross:
  assumes "Cross env req f = (res, fwd, f')"
  shows "crosses env req (Arrived, f) (Finished res, f')"
proof -
  obtain err f1 where rl: "rate_limit env req f = (err, f1)" by fastforce
  show ?thesis
  proof (cases err)
    case (Some e)
    then show ?thesis using assms rl by (intro crosses_one) (auto simp: Cross_def)
  next
    case None
    obtain sel f2 where sel: "selectShore env req f1 = (sel, f2)" by fastforce
    have one: "crosses env req (Arrived, f) (Limited, f1)" by (rule crosses_one) (simp add: rl None)
    have "crosses env req (Limited, f1) (Finished res, f')"
    proof (cases sel)
      case (Inl e)
      then show ?thesis using assms rl None sel by (intro crosses_one) (auto simp: Cross_def split: fault.splits)
    next
      case (Inr t)
      then have "crosses env req (Chosen 0 t [sh_ID t], f2) (Finished res, f')"
        using assms rl None sel by (intro first_crosses) (simp add: Cross_def)
      moreover have "crosses env req (Limited, f1) (Chosen 0 t [sh_ID t], f2)"
        by (rule crosses_one) (simp add: sel Inr)
      ultimately show ?thesis using crosses_trans by blast
    qed
    then show ?thesis using crosses_trans [OF one] by blast
  qed
qed

section \<open>Crossings side by side\<close>

text \<open>A crossing in flight, the shore it has looked up without the lock or is about to, and the shore
  whose connection counter it holds up.\<close>

type_synonym 'l crossing = "'l cross_env \<times> http_request \<times> stage"


fun holds :: "stage \<Rightarrow> string option" where
  "holds (Counted n s tried) = Some (sh_ID s)"
| "holds (Served n s tried resp) = Some (sh_ID s)"
| "holds _ = None"


definition held :: "string \<Rightarrow> 'l crossing list \<Rightarrow> nat" where
  "held i cs = length (filter (\<lambda>(env, req, st). holds st = Some i) cs)"









section \<open>No interleaving panics\<close>



lemma held_simps [simp]:
  "held i [] = 0" "held i (as @ bs) = held i as + held i bs"
  "held i ((env, req, st) # cs) = (if holds st = Some i then 1 else 0) + held i cs"
  by (simp_all add: held_def)


















section \<open>A shore that leaves too early\<close>

text \<open>Why shores must not leave while they are used: after the deregistration the next lookup of a
  crossing that chose the shore, is about to count itself, was counted or was served, panics.\<close>

theorem early_deregistration_panics:
  assumes "ferry_ok f" "s \<in> set (bf_shores f)"
  defines "f' \<equiv> snd (DeregisterShore (sh_ID s) f)"
  shows "fst (crossing_step env req (Chosen n s tried) f') = Finished (Inl GoPanic) \<and>
    fst (crossing_step env req (Admitted n s tried) f') = Finished (Inl GoPanic) \<and>
    fst (crossing_step env req (Counted n s tried) f') = Finished (Inl GoPanic) \<and>
    fst (crossing_step env req (Served n s tried resp) f') = Finished (Inl GoPanic)"
proof -
  have "f' = delist (sh_ID s) f" using assms by (simp add: DeregisterShore_def ferry_ok_def)
  then show ?thesis by (simp add: delist_def get_del_fun)
qed

end
