(* ===== verification/Hecatoncheir.thy ===== *)
theory Hecatoncheir
  imports Acheron Hades Erinyes Styx Lethe
begin

text \<open>
  The agent of a node (\<open>src/pkg/hecatoncheir/agent.go\<close>): it takes jobs from the queue, prepares
  an overlay and a network for each, launches it, and cleans up when it has ended.

  The agent is a record of the operations of its collaborators over a world \<open>'w\<close>. One turn of its
  main loop is \<open>run_iteration\<close>; the goroutine a launch leaves behind is a value (\<open>waiter\<close>) and
  what it does once the sandbox has ended is \<open>wait_and_cleanup\<close>. Logs, metrics and the delay after
  a failed dequeue are not modelled, and the JSON text of a dead letter is the request itself.

  The locale \<open>node_services\<close> says what the operations do to the things a job holds (its
  \<open>ledger\<close>); the outcome of an iteration and of a clean-up is proved there once. It is interpreted
  on a node made of the queue, registry, watchdog, gateway, overlay pool and runtime of the other
  theories.
\<close>

section \<open>The agent\<close>

record dead_letter =
  dl_RequestID :: SandboxID
  dl_Reason :: string
  dl_Payload :: SandboxRequest

type_synonym attachment = "string \<times> ipv4 \<times> ipv4 option \<times> prefix"

record 'w Agent =
  a_Dequeue :: "'w \<Rightarrow> dequeue_result \<times> 'w"
  a_Ack :: "string \<Rightarrow> 'w \<Rightarrow> 'w"
  a_Nack :: "string \<Rightarrow> 'w \<Rightarrow> 'w"
  a_GetSnapshot :: "TemplateID \<Rightarrow> 'w \<Rightarrow> (string + Snapshot) \<times> 'w"
  a_Create :: "Snapshot \<Rightarrow> 'w \<Rightarrow> (string + Overlay) \<times> 'w"
  a_Destroy :: "Overlay \<Rightarrow> 'w \<Rightarrow> string option \<times> 'w"
  a_Attach :: "SandboxID \<Rightarrow> Contract option \<Rightarrow> 'w \<Rightarrow> (styx_error + attachment) \<times> 'w"
  a_Detach :: "SandboxID \<Rightarrow> 'w \<Rightarrow> styx_error option \<times> 'w"
  a_Secrets :: "(string \<Rightarrow> 'w \<Rightarrow> (string + string) \<times> 'w) option"
  a_Launch :: "SandboxRequest \<Rightarrow> VMConfig \<Rightarrow> 'w \<Rightarrow> (string + SandboxRun) \<times> 'w"
  a_Inspect :: "SandboxID \<Rightarrow> 'w \<Rightarrow> (string + SandboxRun) \<times> 'w"
  a_UpdateRun :: "SandboxRun \<Rightarrow> 'w \<Rightarrow> string option \<times> 'w"
  a_Arm :: "SandboxRun \<Rightarrow> PolicySnapshot \<Rightarrow> 'w \<Rightarrow> 'w"
  a_Disarm :: "SandboxID \<Rightarrow> 'w \<Rightarrow> 'w"
  a_DeadLetter :: "dead_letter \<Rightarrow> 'w \<Rightarrow> string option \<times> 'w"

text \<open>What the clean-up goroutine of a launched job keeps.\<close>

record waiter =
  wt_runID :: SandboxID
  wt_reqID :: SandboxID
  wt_overlay :: Overlay
  wt_receipt :: string

datatype iteration = Idle | DequeueFailed | Nacked string | Crashed | Launched waiter

definition agent_contract :: "SandboxRequest \<Rightarrow> Contract" where
  "agent_contract req =
     \<lparr>ct_ID = net_ID (req_NetworkRef req), ct_AllowedCIDRs = [], ct_DenyPrivate = False, ct_DenyMetadata = False\<rparr>"

text \<open>
  The secrets loop, in the order in which the map is iterated. A secret that does not resolve
  releases everything and returns the job, and the \<open>continue\<close> goes on with the next secret.
\<close>

fun resolve_secrets ::
    "'w Agent \<Rightarrow> (string \<Rightarrow> 'w \<Rightarrow> (string + string) \<times> 'w) \<Rightarrow> SandboxID \<Rightarrow> Overlay \<Rightarrow> string
     \<Rightarrow> (string \<times> string) list \<Rightarrow> metadata \<Rightarrow> 'w \<Rightarrow> metadata \<times> 'w" where
  "resolve_secrets a resolve i ov rcpt [] env w = (env, w)"
| "resolve_secrets a resolve i ov rcpt ((key, ref) # secrets) env w =
     (case resolve ref w of
        (Inl _, w1) \<Rightarrow>
          resolve_secrets a resolve i ov rcpt secrets env
            (a_Nack a rcpt (snd (a_Detach a i (snd (a_Destroy a ov w1)))))
      | (Inr val, w1) \<Rightarrow> resolve_secrets a resolve i ov rcpt secrets (put env key val) w1)"

definition with_secrets :: "'w Agent \<Rightarrow> SandboxRequest \<Rightarrow> Overlay \<Rightarrow> string \<Rightarrow> 'w \<Rightarrow> SandboxRequest \<times> 'w" where
  "with_secrets a req ov rcpt w =
     (case a_Secrets a of
        None \<Rightarrow> (req, w)
      | Some resolve \<Rightarrow>
          (case resolve_secrets a resolve (req_ID req) ov rcpt (req_Secrets req) (req_Env req) w of
             (env, w') \<Rightarrow> (req\<lparr>req_Env := env\<rparr>, w')))"

definition vm_config :: "SandboxRequest \<Rightarrow> Snapshot \<Rightarrow> Overlay \<Rightarrow> attachment \<Rightarrow> VMConfig" where
  "vm_config req snap ov att =
     (case att of (tapName, ip, gateway, cidr) \<Rightarrow>
        \<lparr>vm_Snapshot = \<lparr>snap_ID = sn_ID snap, snap_Template = sn_Template snap, snap_CreatedAt = 0, snap_Path = sn_Path snap\<rparr>,
         vm_OverlayFS = ov_MountPath ov, vm_TapDevice = tapName, vm_IP = Some ip, vm_Gateway = gateway, vm_CIDR = cidr,
         vm_CPUs = res_CPU (req_Resources req), vm_MemoryMB = res_Mem (req_Resources req)\<rparr>)"

definition watch_policy :: "SandboxRequest \<Rightarrow> PolicySnapshot" where
  "watch_policy req =
     \<lparr>ps_MaxRuntime = res_TTL (req_Resources req), ps_MaxCPU = 0, ps_MaxMemory = 0, ps_MaxNetworkEgressBytes = 0,
      ps_MaxNetworkIngressBytes = 0, ps_MaxBannedIPAttempts = 0, ps_KillOnBreach = True\<rparr>"

text \<open>Steps 4 and 5: launch, record, arm the watchdog, leave the clean-up behind.\<close>

definition launch_job ::
    "'w Agent \<Rightarrow> SandboxRequest \<Rightarrow> Snapshot \<Rightarrow> Overlay \<Rightarrow> attachment \<Rightarrow> string \<Rightarrow> 'w \<Rightarrow> iteration \<times> 'w" where
  "launch_job a req snap ov att rcpt w =
     (case a_Launch a req (vm_config req snap ov att) w of
        (Inl err, w1) \<Rightarrow>
          let w2 = snd (a_DeadLetter a \<lparr>dl_RequestID = req_ID req, dl_Reason = err, dl_Payload = req\<rparr> w1);
              w3 = snd (a_Detach a (req_ID req) w2);
              w4 = snd (a_Destroy a ov w3)
          in (Nacked ''failed to launch'', a_Nack a rcpt w4)
      | (Inr run, w1) \<Rightarrow>
          let w2 = snd (a_UpdateRun a run w1);
              w3 = a_Arm a run (watch_policy req) w2
          in (Launched \<lparr>wt_runID = run_ID run, wt_reqID = req_ID req, wt_overlay = ov, wt_receipt = rcpt\<rparr>, w3))"

definition process_job :: "'w Agent \<Rightarrow> SandboxRequest \<Rightarrow> string \<Rightarrow> 'w \<Rightarrow> iteration \<times> 'w" where
  "process_job a req rcpt w =
     (case a_GetSnapshot a (req_Template req) w of
        (Inl _, w1) \<Rightarrow> (Nacked ''failed to get snapshot'', a_Nack a rcpt w1)
      | (Inr snap, w1) \<Rightarrow>
        (case a_Create a snap w1 of
           (Inl _, w2) \<Rightarrow> (Nacked ''failed to create overlay'', a_Nack a rcpt w2)
         | (Inr ov, w2) \<Rightarrow>
           (case a_Attach a (req_ID req) (Some (agent_contract req)) w2 of
              (Inl StyxPanic, w3) \<Rightarrow> (Crashed, w3)
            | (Inl (StyxError _), w3) \<Rightarrow>
                (Nacked ''failed to attach network'', a_Nack a rcpt (snd (a_Destroy a ov w3)))
            | (Inr att, w3) \<Rightarrow>
                (case with_secrets a req ov rcpt w3 of
                   (req', w4) \<Rightarrow> launch_job a req' snap ov att rcpt w4))))"

definition run_iteration :: "'w Agent \<Rightarrow> 'w \<Rightarrow> iteration \<times> 'w" where
  "run_iteration a w =
     (case a_Dequeue a w of
        (Blocked, w1) \<Rightarrow> (Idle, w1)
      | (Cancelled, w1) \<Rightarrow> (DequeueFailed, w1)
      | (Delivered req rcpt, w1) \<Rightarrow> process_job a req rcpt w1)"

text \<open>The goroutine of a launched job, from the moment its sandbox has ended.\<close>

definition wait_and_cleanup :: "'w Agent \<Rightarrow> waiter \<Rightarrow> 'w \<Rightarrow> 'w" where
  "wait_and_cleanup a wt w =
     (let w1 = a_Disarm a (wt_runID wt) w;
          w2 = (case a_Inspect a (wt_runID wt) w1 of
                  (Inr finalRun, w') \<Rightarrow> snd (a_UpdateRun a finalRun w')
                | (Inl _, w') \<Rightarrow> w');
          w3 = snd (a_Detach a (wt_reqID wt) w2);
          w4 = snd (a_Destroy a (wt_overlay wt) w3)
      in a_Ack a (wt_receipt wt) w4)"

text \<open>
  The clean-up at start: network devices by name, then processes by name and command line. A call
  that fails is logged and passed over.
\<close>

record host_process =
  hp_pid :: int
  hp_name :: "string + string"
  hp_cmdline :: "string + string"

datatype zombie_call = DelLink string | KillPid int

definition zombie_link :: "string \<Rightarrow> bool" where
  "zombie_link name \<longleftrightarrow> prefix ''tap-tartarus-'' name"

definition zombie_process :: "host_process \<Rightarrow> bool" where
  "zombie_process p =
     (case hp_name p of
        Inl _ \<Rightarrow> False
      | Inr name \<Rightarrow> name = ''firecracker'' \<and>
          (case hp_cmdline p of Inl _ \<Rightarrow> False | Inr cmdline \<Rightarrow> sublist ''tartarus'' cmdline))"

definition Agent_Reconcile ::
    "(string + string list) \<Rightarrow> (string + host_process list) \<Rightarrow> string option \<times> zombie_call list" where
  "Agent_Reconcile links procs =
     (case links of
        Inl err \<Rightarrow> (Some err, [])
      | Inr names \<Rightarrow>
          let dels = map DelLink (filter zombie_link names)
          in case procs of
               Inl err \<Rightarrow> (Some err, dels)
             | Inr ps \<Rightarrow> (None, dels @ map (KillPid \<circ> hp_pid) (filter zombie_process ps)))"

text \<open>No device the gateway creates has a name the clean-up looks for: the names are too short.\<close>

lemma reconcile_misses_taps:
  assumes "tap_name i = Some t"
  shows "DelLink t \<notin> set (snd (Agent_Reconcile links procs))"
proof -
  have "length t = 12" using assms by (auto simp: tap_name_def split: if_splits)
  then have "\<not> zombie_link t" using prefix_length_le [of "''tap-tartarus-''" t] by (auto simp: zombie_link_def)
  then show ?thesis by (auto simp: Agent_Reconcile_def Let_def split: sum.splits)
qed

section \<open>What a job holds\<close>

text \<open>
  The ledger of a node: the jobs waiting, the jobs in processing by receipt, the overlay files, the
  sandboxes with a network address, the sandboxes under watch, the number of receipts issued and the
  firewall rules inserted for sandboxes.
\<close>

record ledger =
  ld_waiting :: "SandboxRequest list"
  ld_held :: "string \<Rightarrow> SandboxRequest option"
  ld_files :: "string set"
  ld_leases :: "SandboxID set"
  ld_watched :: "SandboxID set"
  ld_last :: nat
  ld_rules :: "fw_rule set"

definition released :: "SandboxID \<Rightarrow> string \<Rightarrow> ledger \<Rightarrow> ledger" where
  "released i path l = l\<lparr>ld_files := ld_files l - {path}, ld_leases := ld_leases l - {i}\<rparr>"

definition returned :: "string \<Rightarrow> ledger \<Rightarrow> ledger" where
  "returned rcpt l = (case ld_held l rcpt of
      None \<Rightarrow> l
    | Some x \<Rightarrow> l\<lparr>ld_waiting := ld_waiting l @ [x], ld_held := (ld_held l)(rcpt := None)\<rparr>)"

definition equipped :: "SandboxID \<Rightarrow> string \<Rightarrow> ledger \<Rightarrow> ledger" where
  "equipped i path l = l\<lparr>ld_files := insert path (ld_files l), ld_leases := insert i (ld_leases l)\<rparr>"

text \<open>
  The contract of the collaborators. \<open>calm\<close> stands for clean-up calls that succeed, \<open>ident\<close> for the
  identifiers the gateway can name a device after.
\<close>

locale node_services =
  fixes a :: "'w Agent"
    and ledger :: "'w \<Rightarrow> ledger"
    and calm :: bool
    and ident :: "SandboxID \<Rightarrow> bool"
  assumes nack_ledger: "ledger (a_Nack a r w) = returned r (ledger w)"
    and ack_ledger: "ledger (a_Ack a r w) = (ledger w)\<lparr>ld_held := (ld_held (ledger w))(r := None)\<rparr>"
    and snapshot_ledger: "ledger (snd (a_GetSnapshot a t w)) = ledger w"
    and create_ledger: "a_Create a s w = (Inr ov, w') \<Longrightarrow>
      ledger w' = (ledger w)\<lparr>ld_files := insert (ov_MountPath ov) (ld_files (ledger w))\<rparr>"
    and create_error: "calm \<Longrightarrow> a_Create a s w = (Inl e, w') \<Longrightarrow> ledger w' = ledger w"
    and destroy_ledger: "calm \<Longrightarrow> ledger (snd (a_Destroy a ov w)) =
      (ledger w)\<lparr>ld_files := ld_files (ledger w) - {ov_MountPath ov}\<rparr>"
    and attach_ledger: "a_Attach a i (Some (agent_contract req)) w = (Inr att, w') \<Longrightarrow>
      ident i \<and> ledger w' = (ledger w)\<lparr>ld_leases := insert i (ld_leases (ledger w))\<rparr>"
    and attach_error: "calm \<Longrightarrow> i \<notin> ld_leases (ledger w) \<Longrightarrow> 
      a_Attach a i (Some (agent_contract req)) w = (Inl (StyxError e), w') \<Longrightarrow>
      ledger w' = ledger w"
    and detach_ledger: "calm \<Longrightarrow> ident i \<Longrightarrow> ledger (snd (a_Detach a i w)) =
      (ledger w)\<lparr>ld_leases := ld_leases (ledger w) - {i}\<rparr>"
    and secrets_ledger: "a_Secrets a = Some f \<Longrightarrow> ledger (snd (f ref w)) = ledger w"
    and launch_ledger: "ledger (snd (a_Launch a req cfg w)) = ledger w"
    and launch_run: "a_Launch a req cfg w = (Inr run, w') \<Longrightarrow> run_ID run = req_ID req"
    and inspect_ledger: "ledger (snd (a_Inspect a i w)) = ledger w"
    and update_ledger: "ledger (snd (a_UpdateRun a run w)) = ledger w"
    and letter_ledger: "ledger (snd (a_DeadLetter a d w)) = ledger w"
    and arm_ledger: "ps_KillOnBreach p \<Longrightarrow>
      ledger (a_Arm a run p w) = (ledger w)\<lparr>ld_watched := insert (run_ID run) (ld_watched (ledger w))\<rparr>"
    and disarm_ledger: "ledger (a_Disarm a i w) = (ledger w)\<lparr>ld_watched := ld_watched (ledger w) - {i}\<rparr>"
begin

lemmas quiet = snapshot_ledger secrets_ledger launch_ledger inspect_ledger update_ledger letter_ledger

text \<open>The secrets loop: nothing happens to the ledger unless a secret fails.\<close>

lemma secrets_fine:
  assumes "a_Secrets a = Some f" "\<forall>(key, ref) \<in> set secrets. \<forall>w. \<exists>v. fst (f ref w) = Inr v"
  shows "ledger (snd (resolve_secrets a f i ov rcpt secrets env w)) = ledger w"
  using assms(2)
proof (induction secrets arbitrary: env w)
  case (Cons s secrets)
  obtain key ref where s: "s = (key, ref)" by fastforce
  obtain v w1 where r: "f ref w = (Inr v, w1)" using Cons.prems s by (auto) (metis prod.collapse)
  have "ledger w1 = ledger w" using secrets_ledger [OF assms(1), of ref w] r by simp
  then show ?case using Cons s r by simp
qed simp

lemma release_ledger:
  assumes calm "ident i"
  shows "ledger (a_Nack a rcpt (snd (a_Detach a i (snd (a_Destroy a ov w))))) =
    returned rcpt (released i (ov_MountPath ov) (ledger w))"
  using assms by (simp add: nack_ledger detach_ledger destroy_ledger released_def)

lemma released_idem: "released i p (returned r (released i p l)) = returned r (released i p l)"
  by (cases "ld_held l r") (simp_all add: released_def returned_def)

lemma returned_idem: "returned r (returned r l) = returned r l"
  by (cases "ld_held l r") (simp_all add: returned_def)

text \<open>One secret that fails has given everything back before the launch.\<close>

lemma secrets_failing:
  assumes f: "a_Secrets a = Some f" and calm "ident i"
    and fixed: "\<And>ref w w'. fst (f ref w) = fst (f ref w')"
  shows "ledger (snd (resolve_secrets a f i ov rcpt secrets env w)) =
    (if \<exists>(key, ref) \<in> set secrets. \<exists>e. fst (f ref w) = Inl e
     then returned rcpt (released i (ov_MountPath ov) (ledger w)) else ledger w)"
proof (induction secrets arbitrary: env w)
  case (Cons s secrets)
  obtain key ref where s: "s = (key, ref)" by fastforce
  obtain res w1 where r: "f ref w = (res, w1)" by fastforce
  have w1: "ledger w1 = ledger w" using secrets_ledger [OF f, of ref w] r by simp
  have bad: "(\<exists>e. fst (f ref' w) = Inl e) = (\<exists>e. fst (f ref' w') = Inl e)" for ref' w w'
    using fixed [of ref' w w'] by simp
  show ?case
  proof (cases res)
    case (Inl e)
    let ?w2 = "a_Nack a rcpt (snd (a_Detach a i (snd (a_Destroy a ov w1))))"
    have w2: "ledger ?w2 = returned rcpt (released i (ov_MountPath ov) (ledger w))"
      using release_ledger [OF assms(2,3)] w1 by simp
    have "ledger (snd (resolve_secrets a f i ov rcpt secrets env ?w2)) = ledger ?w2"
      unfolding Cons.IH w2 by (simp add: released_idem returned_idem)
    then show ?thesis using s r Inl w2 by auto
  next
    case (Inr v)
    have "(\<exists>(key, ref) \<in> set secrets. \<exists>e. fst (f ref w1) = Inl e) = (\<exists>(key, ref) \<in> set secrets. \<exists>e. fst (f ref w) = Inl e)"
      using bad by blast
    then show ?thesis using s r Inr w1 Cons.IH [of "put env key v" w1] by simp
  qed
qed simp

lemma released_swap: "l\<lparr>ld_leases := ld_leases l - {i}, ld_files := ld_files l - {p}\<rparr> = released i p l"
  by (cases l) (simp add: released_def)

lemma launch_outcome:
  assumes calm "ident (req_ID req)" and launch: "launch_job a req snap ov att rcpt w = (out, w')"
  shows "(\<exists>why. out = Nacked why \<and> ledger w' = returned rcpt (released (req_ID req) (ov_MountPath ov) (ledger w))) \<or>
    (out = Launched \<lparr>wt_runID = req_ID req, wt_reqID = req_ID req, wt_overlay = ov, wt_receipt = rcpt\<rparr> \<and>
     ledger w' = (ledger w)\<lparr>ld_watched := insert (req_ID req) (ld_watched (ledger w))\<rparr>)"
proof -
  obtain res w1 where l: "a_Launch a req (vm_config req snap ov att) w = (res, w1)" by fastforce
  have w1: "ledger w1 = ledger w" using launch_ledger [of req "vm_config req snap ov att" w] l by simp
  have kill: "ps_KillOnBreach (watch_policy req)" by (simp add: watch_policy_def)
  show ?thesis
  proof (cases res)
    case (Inl err)
    then show ?thesis
      using launch l w1 assms(1,2)
      by (auto simp: launch_job_def Let_def nack_ledger destroy_ledger detach_ledger letter_ledger released_swap)
  next
    case (Inr run)
    then show ?thesis
      using launch l w1 launch_run [of req] arm_ledger [OF kill] by (auto simp: launch_job_def Let_def update_ledger)
  qed
qed

lemma released_equipped: "i \<notin> ld_leases l \<Longrightarrow> p \<notin> ld_files l \<Longrightarrow> released i p (equipped i p l) = l"
  by (simp add: released_def equipped_def)

text \<open>
  The outcome of a job, on the way to its launch: it is returned with nothing left behind, or the
  gateway panicked, or it has its overlay and its address and goes on to its secrets.
\<close>

lemma process_cases:
  assumes calm and free: "req_ID req \<notin> ld_leases (ledger w)"
    and fresh: "\<forall>t s ov v. a_Create a s (snd (a_GetSnapshot a t w)) = (Inr ov, v) \<longrightarrow> ov_MountPath ov \<notin> ld_files (ledger w)"
    and job: "process_job a req rcpt w = (out, w')"
  obtains (returned) why where "out = Nacked why" "ledger w' = returned rcpt (ledger w)"
  | (crashed) "out = Crashed"
  | (ready) snap ov att w3 where "ident (req_ID req)" "ov_MountPath ov \<notin> ld_files (ledger w)"
      "ledger w3 = equipped (req_ID req) (ov_MountPath ov) (ledger w)"
      "(case with_secrets a req ov rcpt w3 of (req', w4) \<Rightarrow> launch_job a req' snap ov att rcpt w4) = (out, w')"
proof -
  obtain res1 w1 where s: "a_GetSnapshot a (req_Template req) w = (res1, w1)" by fastforce
  have w1: "ledger w1 = ledger w" using snapshot_ledger [of "req_Template req" w] s by simp
  show thesis
  proof (cases res1)
    case (Inl e)
    then show thesis using job s w1 by (intro returned) (auto simp: process_job_def nack_ledger)
  next
    case snap: (Inr snap)
    obtain res2 w2 where c: "a_Create a snap w1 = (res2, w2)" by fastforce
    show thesis
    proof (cases res2)
      case (Inl e)
      then have "ledger w2 = ledger w" using create_error [OF assms(1)] c w1 by metis
      then show thesis using job s c snap Inl by (intro returned) (auto simp: process_job_def nack_ledger)
    next
      case ov: (Inr ov)
      have w2: "ledger w2 = (ledger w)\<lparr>ld_files := insert (ov_MountPath ov) (ld_files (ledger w))\<rparr>"
        using create_ledger c ov w1 by metis
      have new: "ov_MountPath ov \<notin> ld_files (ledger w)" using fresh c ov s by (metis snd_conv)
      obtain res3 w3 where at: "a_Attach a (req_ID req) (Some (agent_contract req)) w2 = (res3, w3)" by fastforce
      consider "res3 = Inl StyxPanic" | e where "res3 = Inl (StyxError e)" | att where "res3 = Inr att"
        by (metis sum.exhaust styx_error.exhaust)
      then show thesis
      proof cases
        case 1
        then show thesis using job s c snap ov at by (intro crashed) (auto simp: process_job_def)
      next
        case (2 e)
        have "ledger w3 = ledger w2" using attach_error [OF assms(1)] at 2 free w2 by (metis ledger.ext_inject ledger.surjective ledger.update_convs(3))
        then show thesis using job s c snap ov at 2 w2 new assms(1)
          by (intro returned) (auto simp: process_job_def nack_ledger destroy_ledger)
      next
        case (3 att)
        have "ident (req_ID req)" "ledger w3 = equipped (req_ID req) (ov_MountPath ov) (ledger w)"
          using attach_ledger at 3 w2 by (auto simp: equipped_def)
        then show thesis using job s c snap ov at 3 new by (intro ready) (auto simp: process_job_def)
      qed
    qed
  qed
qed

lemma with_secrets_ID: "req_ID (fst (with_secrets a req ov rcpt w)) = req_ID req"
  by (auto simp: with_secrets_def split: option.splits prod.splits)

text \<open>A job whose secrets all resolve is returned with nothing left behind, or runs with what it holds.\<close>

lemma job_outcome:
  assumes calm and free: "req_ID req \<notin> ld_leases (ledger w)"
    and fresh: "\<forall>t s ov v. a_Create a s (snd (a_GetSnapshot a t w)) = (Inr ov, v) \<longrightarrow> ov_MountPath ov \<notin> ld_files (ledger w)"
    and secrets: "\<forall>f. a_Secrets a = Some f \<longrightarrow> (\<forall>(key, ref) \<in> set (req_Secrets req). \<forall>w. \<exists>v. fst (f ref w) = Inr v)"
    and job: "process_job a req rcpt w = (out, w')"
  shows "out = Crashed \<or> (\<exists>why. out = Nacked why \<and> ledger w' = returned rcpt (ledger w)) \<or>
    (\<exists>ov. out = Launched \<lparr>wt_runID = req_ID req, wt_reqID = req_ID req, wt_overlay = ov, wt_receipt = rcpt\<rparr> \<and>
       ident (req_ID req) \<and> ov_MountPath ov \<notin> ld_files (ledger w) \<and>
       ledger w' = (equipped (req_ID req) (ov_MountPath ov) (ledger w))\<lparr>ld_watched := insert (req_ID req) (ld_watched (ledger w))\<rparr>)"
proof (rule process_cases [OF assms(1) free fresh job], goal_cases)
  case ready: (3 snap ov att w3)
  obtain req' w4 where ws: "with_secrets a req ov rcpt w3 = (req', w4)" by fastforce
  have i: "req_ID req' = req_ID req" using with_secrets_ID [of req ov rcpt w3] ws by simp
  have "ledger w4 = ledger w3"
    using ws secrets_fine [OF _ secrets [THEN spec, THEN mp]] by (auto simp: with_secrets_def split: option.splits prod.splits) (metis snd_conv)
  then show ?thesis
    using launch_outcome [OF assms(1), of req' snap ov att rcpt w4 out w'] ready ws i free
    by (auto simp: released_equipped) (simp_all add: equipped_def)
qed blast+

text \<open>A job with a secret that fails is launched all the same, after everything was given back.\<close>

lemma job_without_secret:
  assumes calm and free: "req_ID req \<notin> ld_leases (ledger w)"
    and fresh: "\<forall>t s ov v. a_Create a s (snd (a_GetSnapshot a t w)) = (Inr ov, v) \<longrightarrow> ov_MountPath ov \<notin> ld_files (ledger w)"
    and f: "a_Secrets a = Some f" and fixed: "\<And>ref w w'. fst (f ref w) = fst (f ref w')"
    and bad: "(key, ref) \<in> set (req_Secrets req)" "fst (f ref w) = Inl e"
    and job: "process_job a req rcpt w = (Launched wt, w')"
  shows "wt_reqID wt = req_ID req \<and> wt_receipt wt = rcpt \<and> ov_MountPath (wt_overlay wt) \<notin> ld_files (ledger w') \<and>
    ledger w' = (returned rcpt (ledger w))\<lparr>ld_watched := insert (req_ID req) (ld_watched (returned rcpt (ledger w)))\<rparr>"
proof (rule process_cases [OF assms(1) free fresh job], goal_cases)
  case ready: (3 snap ov att w3)
  obtain req' w4 where ws: "with_secrets a req ov rcpt w3 = (req', w4)" by fastforce
  have i: "req_ID req' = req_ID req" using with_secrets_ID [of req ov rcpt w3] ws by simp
  have "w4 = snd (resolve_secrets a f (req_ID req) ov rcpt (req_Secrets req) (req_Env req) w3)"
    using ws f by (auto simp: with_secrets_def split: prod.splits)
  moreover have "\<exists>(key, ref) \<in> set (req_Secrets req). \<exists>e. fst (f ref w3) = Inl e"
    using bad fixed [of ref w3 w] by auto
  ultimately have "ledger w4 = returned rcpt (ledger w)"
    using secrets_failing [OF f assms(1) ready(1) fixed, of ov rcpt "req_Secrets req" "req_Env req" w3] ready(2,3) free
    by (simp add: released_equipped)
  moreover have "ld_files (returned rcpt (ledger w)) = ld_files (ledger w)"
    by (simp add: returned_def split: option.splits)
  ultimately show ?thesis
    using launch_outcome [OF assms(1), of req' snap ov att rcpt w4 "Launched wt" w'] ready ws i by auto
qed simp_all

lemma cleanup_ledger:
  assumes calm "ident (wt_reqID wt)"
  shows "ledger (wait_and_cleanup a wt w) =
    (released (wt_reqID wt) (ov_MountPath (wt_overlay wt)) (ledger w))
      \<lparr>ld_held := (ld_held (ledger w))(wt_receipt wt := None), ld_watched := ld_watched (ledger w) - {wt_runID wt}\<rparr>"
proof -
  let ?w1 = "a_Disarm a (wt_runID wt) w"
  have "ledger (case a_Inspect a (wt_runID wt) ?w1 of
      (Inr finalRun, w') \<Rightarrow> snd (a_UpdateRun a finalRun w') | (Inl _, w') \<Rightarrow> w') = ledger ?w1"
    using inspect_ledger [of "wt_runID wt" ?w1] by (auto simp: update_ledger split: prod.splits sum.splits)
  then show ?thesis
    using assms by (simp add: wait_and_cleanup_def Let_def ack_ledger destroy_ledger detach_ledger disarm_ledger released_def)
qed

end

section \<open>A node\<close>

text \<open>
  A node made of the components of the other theories. What the outside world answers during a
  turn is a \<open>node_env\<close>: the snapshot store, the secret provider, the host and file system calls,
  a fresh identifier and the time. The queue hands out requests by value, as the Redis queue does.
\<close>

record node_env =
  ne_host :: host_env
  ne_fs :: fs_env
  ne_uuid :: string
  ne_snapshots :: "TemplateID \<Rightarrow> string + Snapshot"
  ne_secrets :: "(string \<Rightarrow> string + string) option"
  ne_ctxErr :: "string option"
  ne_cancelled :: bool
  ne_now :: go_time
  ne_letterErr :: "string option"

record node =
  n_queue :: MemoryQueue
  n_registry :: MemoryRegistry
  n_fury :: PollFury
  n_gateway :: hostGateway
  n_calls :: "host_call list"
  n_base :: string
  n_files :: files
  n_runtime :: MockRuntime
  n_letters :: "dead_letter list"

definition node_agent :: "node_env \<Rightarrow> node Agent" where
  "node_agent env =
     \<lparr>a_Dequeue = (\<lambda>n. case Dequeue (ne_cancelled env) (n_queue n) of (r, q) \<Rightarrow> (r, n\<lparr>n_queue := q\<rparr>)),
      a_Ack = (\<lambda>r n. n\<lparr>n_queue := Ack (n_queue n) r\<rparr>),
      a_Nack = (\<lambda>r n. n\<lparr>n_queue := Nack (n_queue n) r\<rparr>),
      a_GetSnapshot = (\<lambda>t n. (ne_snapshots env t, n)),
      a_Create = (\<lambda>s n. case Overlay_Create (ne_fs env) (n_base n) (ne_uuid env) s (n_files n) of
                   (r, fs) \<Rightarrow> (r, n\<lparr>n_files := fs\<rparr>)),
      a_Destroy = (\<lambda>ov n. case Overlay_Destroy (ne_fs env) ov (n_files n) of (r, fs) \<Rightarrow> (r, n\<lparr>n_files := fs\<rparr>)),
      a_Attach = (\<lambda>i c n. case Attach (ne_host env) i c (n_gateway n) of
                   (r, cs, g) \<Rightarrow> (r, n\<lparr>n_gateway := g, n_calls := n_calls n @ cs\<rparr>)),
      a_Detach = (\<lambda>i n. case Detach (ne_host env) i (n_gateway n) of
                   (r, cs, g) \<Rightarrow> (r, n\<lparr>n_gateway := g, n_calls := n_calls n @ cs\<rparr>)),
      a_Secrets = map_option (\<lambda>f ref n. (f ref, n)) (ne_secrets env),
      a_Launch = (\<lambda>req cfg n. case Mock_Launch (ne_ctxErr env) (ne_now env) req cfg (n_runtime n) of
                   (r, rt) \<Rightarrow> (r, n\<lparr>n_runtime := rt\<rparr>)),
      a_Inspect = (\<lambda>i n. case Mock_Inspect i (n_runtime n) of (r, rt) \<Rightarrow> (r, n\<lparr>n_runtime := rt\<rparr>)),
      a_UpdateRun = (\<lambda>run n. (None, n\<lparr>n_registry := UpdateRun (n_registry n) run\<rparr>)),
      a_Arm = (\<lambda>run p n. n\<lparr>n_fury := Arm run p (n_fury n)\<rparr>),
      a_Disarm = (\<lambda>i n. n\<lparr>n_fury := Disarm i (n_fury n)\<rparr>),
      a_DeadLetter = (\<lambda>d n. (ne_letterErr env, n\<lparr>n_letters := n_letters n @ [d]\<rparr>))\<rparr>"

definition overlay_files :: "node \<Rightarrow> string set" where
  "overlay_files n = {p. get (n_files n) p \<noteq> None \<and> (\<exists>u. p = overlay_path (n_base n) u)}"

definition node_ledger :: "node \<Rightarrow> ledger" where
  "node_ledger n =
     \<lparr>ld_waiting = mq_items (n_queue n), ld_held = get (mq_processing (n_queue n)), ld_files = overlay_files n,
      ld_leases = keys (gw_allocations (n_gateway n)), ld_watched = keys (pf_active (n_fury n)),
      ld_last = mq_nextID (n_queue n), ld_rules = {r. IptInsert r \<in> set (n_calls n)}\<rparr>"

text \<open>The calls a clean-up depends on succeed.\<close>

definition cooperative :: "node_env \<Rightarrow> bool" where
  "cooperative env \<longleftrightarrow>
     (\<forall>r. \<exists>b. he_exists (ne_host env) r = Inr b) \<and> (\<forall>r. he_fails (ne_host env) (IptAppend r) = None) \<and>
     (\<forall>t. he_fails (ne_host env) (LinkDel t) = None) \<and>
     fs_copy (ne_fs env) = None \<and> fs_sync (ne_fs env) = None \<and> fs_remove (ne_fs env) = None"

lemma ensure_rules_ok:
  "\<forall>r. \<exists>b. he_exists h r = Inr b \<Longrightarrow> \<forall>r. he_fails h (IptAppend r) = None \<Longrightarrow> fst (ensure_rules h rs) = None"
proof (induction rs)
  case (Cons r rs)
  obtain b where "he_exists h r = Inr b" using Cons.prems by blast
  then show ?case using Cons by (auto split: prod.splits)
qed simp

lemma Attach_success:
  "Attach env i c g = (Inr att, cs, g') \<Longrightarrow>
     8 \<le> length i \<and> (\<exists>x. g' = g\<lparr>gw_allocations := put (gw_allocations g) i x\<rparr>)"
  by (auto simp: Attach_def allocateIP_def Let_def tap_name_def split: prod.splits option.splits sum.splits if_splits)

lemma Attach_failure:
  assumes "fst (ensureIptablesRules env g) = None" "Attach env i c g = (Inl (StyxError e), cs, g')"
  shows "g' = g \<or> (\<exists>x. g' = g\<lparr>gw_allocations := del (put (gw_allocations g) i x) i\<rparr>)"
  using assms
  by (auto simp: Attach_def allocateIP_def Let_def tap_name_def split: prod.splits option.splits sum.splits if_splits)

lemma calls_made: "set (snd (calls env cs)) \<subseteq> set cs"
  by (induction cs) (auto split: option.splits prod.splits)

lemma ensure_rules_inserts: "IptInsert r \<notin> set (snd (ensure_rules env rs))"
  by (induction rs) (auto split: sum.splits option.splits prod.splits if_splits)

lemma ensureBridge_inserts: "IptInsert r \<notin> set (snd (ensureBridge env g))"
  by (auto simp: ensureBridge_def ensureBridgeIP_def Let_def split: option.splits link_kind.splits sum.splits prod.splits if_splits)

lemma createTAP_inserts: "IptInsert r \<notin> set (snd (createTAP env tap))"
  by (auto simp: createTAP_def Let_def split: option.splits prod.splits if_splits)

text \<open>
  The agent's contract names the request's network policy and asks for no rule, so attaching a
  sandbox inserts none.
\<close>

lemma enforce_nothing: "enforceContract env tap (Some (agent_contract req)) = (None, [])"
  by (simp add: enforceContract_def contract_rules_def agent_contract_def)

lemma Attach_inserts:
  assumes "Attach env i (Some (agent_contract req)) g = (res, cs, g')"
  shows "IptInsert r \<notin> set cs"
proof -
  have "IptInsert r \<notin> set c" if "ensureBridge env g = (x, c)" for x c
    using that ensureBridge_inserts [of r env g] by simp
  moreover have "IptInsert r \<notin> set c" if "createTAP env tap = (x, c)" for x c tap
    using that createTAP_inserts [of r env tap] by simp
  moreover have "IptInsert r \<notin> set c" if "ensureIptablesRules env g = (x, c)" for x c
    using that ensure_rules_inserts [of r env] unfolding ensureIptablesRules_def by (metis snd_conv)
  moreover have "IptInsert r \<notin> set c" if "calls env [LinkSetMaster t b] = (x, c)" for x c t b
    using that calls_made [of env "[LinkSetMaster t b]"] by auto
  ultimately show ?thesis
    using assms
    by (auto simp del: calls.simps simp: Attach_def Let_def enforce_nothing split: prod.splits option.splits sum.splits)
qed

lemma node_attach:
  assumes "cooperative env" "i \<notin> ld_leases (node_ledger n)"
    "a_Attach (node_agent env) i (Some (agent_contract req)) n = (Inl (StyxError e), n')"
  shows "node_ledger n' = node_ledger n"
proof -
  have ipt: "fst (ensureIptablesRules (ne_host env) (n_gateway n)) = None"
    unfolding ensureIptablesRules_def by (rule ensure_rules_ok) (use assms(1) in \<open>auto simp: cooperative_def\<close>)
  from Attach_failure [OF ipt, of i "Some (agent_contract req)" e] show ?thesis
    using assms(2,3)
    by (auto simp: node_agent_def node_ledger_def overlay_files_def split: prod.splits dest: Attach_inserts)
qed

lemma node_dequeue:
  "a_Dequeue (node_agent env) n = (case Dequeue (ne_cancelled env) (n_queue n) of (r, q) \<Rightarrow> (r, n\<lparr>n_queue := q\<rparr>))"
  by (simp add: node_agent_def)

lemma node_queue_ledger:
  "node_ledger (a_Nack (node_agent env) r n) = returned r (node_ledger n)"
  "node_ledger (a_Ack (node_agent env) r n) = (node_ledger n)\<lparr>ld_held := (ld_held (node_ledger n))(r := None)\<rparr>"
  by (auto simp: node_agent_def node_ledger_def overlay_files_def returned_def Nack_def Ack_def get_del_fun fun_eq_iff split: option.splits)

lemma node_create:
  assumes "a_Create (node_agent env) s n = (Inr ov, n')"
  shows "node_ledger n' = (node_ledger n)\<lparr>ld_files := insert (ov_MountPath ov) (ld_files (node_ledger n))\<rparr>"
    "ov_MountPath ov = overlay_path (n_base n) (ne_uuid env)"
proof -
  obtain fs where c: "Overlay_Create (ne_fs env) (n_base n) (ne_uuid env) s (n_files n) = (Inr ov, fs)"
    and n': "n' = n\<lparr>n_files := fs\<rparr>"
    using assms by (auto simp: node_agent_def split: prod.splits)
  show path: "ov_MountPath ov = overlay_path (n_base n) (ne_uuid env)" by (rule Create_ok(1) [OF c])
  obtain bytes where "get fs = (get (n_files n))(overlay_path (n_base n) (ne_uuid env) \<mapsto> bytes)"
    using Create_files [OF c] by metis
  then show "node_ledger n' = (node_ledger n)\<lparr>ld_files := insert (ov_MountPath ov) (ld_files (node_ledger n))\<rparr>"
    using path by (auto simp: n' node_ledger_def overlay_files_def)
qed

lemma node_destroy:
  assumes "cooperative env"
  shows "node_ledger (snd (a_Destroy (node_agent env) ov n)) =
    (node_ledger n)\<lparr>ld_files := ld_files (node_ledger n) - {ov_MountPath ov}\<rparr>"
proof -
  have "fs_remove (ne_fs env) = None" using assms by (simp add: cooperative_def)
  from Destroy_files(1) [OF this, of ov "n_files n"] show ?thesis
    by (auto simp: node_agent_def node_ledger_def overlay_files_def split: prod.splits if_splits)
qed

lemma node_detach:
  assumes "cooperative env" "8 \<le> length i"
  shows "node_ledger (snd (a_Detach (node_agent env) i n)) =
    (node_ledger n)\<lparr>ld_leases := ld_leases (node_ledger n) - {i}\<rparr>"
proof -
  have "he_fails (ne_host env) (LinkDel t) = None" for t using assms(1) by (simp add: cooperative_def)
  then show ?thesis
    using assms(2)
    by (auto simp: node_agent_def node_ledger_def overlay_files_def Detach_def tap_name_def Let_def in_keys split: prod.splits)
qed

interpretation nd: node_services "node_agent env" node_ledger "cooperative env" "\<lambda>i. 8 \<le> length i" for env
proof (unfold_locales, goal_cases)
  case (4 s w ov w')
  then show ?case by (rule node_create)
next
  case (5 s w e w')
  then show ?case
    using Create_error_files [of "ne_fs env" "n_base w" "ne_uuid env" s "n_files w" e]
    by (auto simp: node_agent_def cooperative_def node_ledger_def overlay_files_def split: prod.splits)
next
  case (7 i req w att w')
  then show ?case
    using Attach_success [of "ne_host env" i "Some (agent_contract req)" "n_gateway w" att]
    by (auto simp: node_agent_def node_ledger_def overlay_files_def split: prod.splits dest: Attach_inserts)
next
  case (12 req cfg w run w')
  then show ?case by (auto simp: node_agent_def Mock_Launch_def mock_run_def Let_def split: option.splits)
next
  case (1 r w)
  then show ?case by (rule node_queue_ledger)
next
  case (2 r w)
  then show ?case by (rule node_queue_ledger)
next
  case (6 ov w)
  then show ?case by (rule node_destroy)
next
  case (8 i w req e w')
  then show ?case using node_attach by blast
next
  case (9 i w)
  then show ?case by (rule node_detach)
qed (auto simp: node_agent_def node_ledger_def overlay_files_def Arm_def Disarm_def stopWatching_def in_keys
       split: prod.splits option.splits)

section \<open>A node holds what its jobs need, and nothing else\<close>

definition new_node :: "string \<Rightarrow> prefix \<Rightarrow> string \<Rightarrow> files \<Rightarrow> node" where
  "new_node bridge cidr base fs =
     \<lparr>n_queue = NewMemoryQueue, n_registry = NewMemoryRegistry, n_fury = NewPollFury,
      n_gateway = NewHostGateway bridge cidr, n_calls = [], n_base = base, n_files = fs,
      n_runtime = NewMockRuntime, n_letters = []\<rparr>"

definition waiters_after :: "iteration \<Rightarrow> waiter set \<Rightarrow> waiter set" where
  "waiters_after out W = (case out of Launched wt \<Rightarrow> insert wt W | _ \<Rightarrow> W)"

definition secrets_resolve :: "node_env \<Rightarrow> SandboxRequest \<Rightarrow> bool" where
  "secrets_resolve env req =
     (case ne_secrets env of None \<Rightarrow> True | Some f \<Rightarrow> \<forall>(key, ref) \<in> set (req_Secrets req). \<exists>v. f ref = Inr v)"

definition overlay_of :: "waiter \<Rightarrow> string" where
  "overlay_of wt = ov_MountPath (wt_overlay wt)"

text \<open>
  The life of a node with the clean-up goroutines it has pending: it boots with no overlay files, jobs
  arrive, the main loop takes a turn, a sandbox ends and is cleaned up, the watchdog ticks, and the
  runtime and the registry change in any way. Anything may fail; the history says which environment a
  turn or a clean-up met, and what arrived. A panic of the gateway ends the process.
\<close>

datatype node_event = Arrival SandboxRequest node "waiter set" | Turn node_env node | Cleanup node_env

inductive node_reachable :: "node_event list \<Rightarrow> node \<Rightarrow> waiter set \<Rightarrow> bool" where
  boot: "overlay_files (new_node bridge cidr base fs) = {} \<Longrightarrow> node_reachable [] (new_node bridge cidr base fs) {}"
| submit: "node_reachable h n W \<Longrightarrow> node_reachable (Arrival req n W # h) (n\<lparr>n_queue := Enqueue (n_queue n) req\<rparr>) W"
| serve: "node_reachable h n W \<Longrightarrow> run_iteration (node_agent env) n = (out, n') \<Longrightarrow> out \<noteq> Crashed \<Longrightarrow>
    node_reachable (Turn env n # h) n' (waiters_after out W)"
| ended: "node_reachable h n W \<Longrightarrow> wt \<in> W \<Longrightarrow> node_reachable (Cleanup env # h) (wait_and_cleanup (node_agent env) wt n) (W - {wt})"
| watched: "node_reachable h n W \<Longrightarrow> node_reachable h (n\<lparr>n_fury := snd (watch_tick fenv k (n_fury n))\<rparr>) W"
| outside: "node_reachable h n W \<Longrightarrow> node_reachable h (n\<lparr>n_runtime := rt, n_registry := reg\<rparr>) W"

text \<open>
  What the account of a node's resources needs of its history: the identifiers of jobs and overlays are fresh, the
  secrets of the jobs resolve, and the calls a clean-up depends on succeed. Snapshots may be missing, and the overlay
  file, the bridge, the device, its address and the launch may fail.
\<close>

fun undisturbed :: "node_event \<Rightarrow> bool" where
  "undisturbed (Arrival req n W) \<longleftrightarrow> req_ID req \<notin> req_ID ` set (mq_items (n_queue n)) \<and> req_ID req \<notin> wt_reqID ` W"
| "undisturbed (Turn env n) \<longleftrightarrow> cooperative env \<and> overlay_path (n_base n) (ne_uuid env) \<notin> overlay_files n \<and>
     (\<forall>req \<in> set (mq_items (n_queue n)). secrets_resolve env req)"
| "undisturbed (Cleanup env) \<longleftrightarrow> cooperative env"

definition ledger_ok :: "ledger \<Rightarrow> waiter set \<Rightarrow> bool" where
  "ledger_ok l W \<longleftrightarrow>
     inj_on wt_reqID W \<and> inj_on wt_receipt W \<and> inj_on overlay_of W \<and>
     dom (ld_held l) = wt_receipt ` W \<and> ld_leases l = wt_reqID ` W \<and> ld_files l = overlay_of ` W \<and>
     ld_watched l \<subseteq> wt_reqID ` W \<and> (\<forall>wt \<in> W. 8 \<le> length (wt_reqID wt) \<and> wt_runID wt = wt_reqID wt) \<and>
     distinct (map req_ID (ld_waiting l)) \<and> req_ID ` set (ld_waiting l) \<inter> wt_reqID ` W = {} \<and>
     (\<forall>r \<in> dom (ld_held l). \<exists>k \<le> ld_last l. r = receipt k) \<and> ld_rules l = {}"

lemma ledger_ok_enqueue:
  assumes "ledger_ok l W" "req_ID req \<notin> req_ID ` set (ld_waiting l)" "req_ID req \<notin> wt_reqID ` W"
  shows "ledger_ok (l\<lparr>ld_waiting := ld_waiting l @ [req]\<rparr>) W"
  using assms unfolding ledger_ok_def by auto

lemma ledger_ok_rotate:
  assumes "ledger_ok l W" "ld_waiting l = req # rest"
  shows "ledger_ok (l\<lparr>ld_waiting := rest @ [req], ld_last := Suc (ld_last l)\<rparr>) W"
  using assms unfolding ledger_ok_def by (auto) (meson le_SucI)

lemma ledger_ok_fresh: "ledger_ok l W \<Longrightarrow> ld_held l (receipt (Suc (ld_last l))) = None"
  unfolding ledger_ok_def by (metis Suc_n_not_le_n domIff receipt_inj)

lemma ledger_ok_launch:
  assumes ok: "ledger_ok l W" and wait: "ld_waiting l = req # rest" and r: "r = receipt (Suc (ld_last l))"
    and wt: "wt_reqID wt = req_ID req" "wt_runID wt = req_ID req" "wt_receipt wt = r" "8 \<le> length (req_ID req)"
      "overlay_of wt \<notin> ld_files l"
  shows "ledger_ok ((equipped (req_ID req) (overlay_of wt)
        (l\<lparr>ld_waiting := rest, ld_held := (ld_held l)(r \<mapsto> req), ld_last := Suc (ld_last l)\<rparr>))
      \<lparr>ld_watched := insert (req_ID req) (ld_watched l)\<rparr>) (insert wt W)"
proof -
  have "ld_held l r = None" using ledger_ok_fresh [OF ok] r by simp
  then have i: "req_ID req \<notin> wt_reqID ` W" and r': "r \<notin> wt_receipt ` W" and o: "overlay_of wt \<notin> overlay_of ` W"
    using ok wait wt(5) unfolding ledger_ok_def by (auto simp: domIff)
  have "wt \<notin> W" using i wt(1) by (metis image_eqI)
  then show ?thesis
    using ok wait wt i r' o r unfolding ledger_ok_def equipped_def by (auto simp: inj_on_insert) (meson le_SucI)
qed

lemma ledger_ok_ended:
  assumes ok: "ledger_ok l W" and wt: "wt \<in> W"
  shows "ledger_ok ((released (wt_reqID wt) (overlay_of wt) l)
      \<lparr>ld_held := (ld_held l)(wt_receipt wt := None), ld_watched := ld_watched l - {wt_runID wt}\<rparr>) (W - {wt})"
proof -
  have im: "f ` (W - {wt}) = f ` W - {f wt}" if "inj_on f W" for f :: "waiter \<Rightarrow> string"
    using that wt inj_on_image_set_diff [of f W W "{wt}"] by auto
  have run: "wt_runID wt = wt_reqID wt" using ok wt by (simp add: ledger_ok_def)
  have inj: "inj_on wt_reqID W" "inj_on wt_receipt W" "inj_on overlay_of W"
    using ok by (simp_all add: ledger_ok_def)
  show ?thesis
    using ok run inj_on_diff [OF inj(1), of "{wt}"] inj_on_diff [OF inj(2), of "{wt}"] inj_on_diff [OF inj(3), of "{wt}"]
    unfolding ledger_ok_def released_def by (simp add: im inj) blast
qed

lemma ledger_ok_watch:
  "ledger_ok l W \<Longrightarrow> S \<subseteq> ld_watched l \<Longrightarrow> ledger_ok (l\<lparr>ld_watched := S\<rparr>) W"
  unfolding ledger_ok_def by auto

lemma ledger_ok_serve:
  assumes ok: "ledger_ok (node_ledger n) W" and coop: "cooperative env"
    and fresh: "overlay_path (n_base n) (ne_uuid env) \<notin> overlay_files n"
    and secrets: "\<forall>req \<in> set (mq_items (n_queue n)). secrets_resolve env req"
    and run: "run_iteration (node_agent env) n = (out, n')" and nc: "out \<noteq> Crashed"
  shows "ledger_ok (node_ledger n') (waiters_after out W)"
proof (cases "ne_cancelled env \<or> mq_items (n_queue n) = []")
  case True
  then have "n' = n" "out = Idle \<or> out = DequeueFailed"
    using run by (auto simp: run_iteration_def node_dequeue Dequeue_def split: list.splits if_splits)
  then show ?thesis using ok by (auto simp: waiters_after_def)
next
  case False
  then obtain req rest where wait: "mq_items (n_queue n) = req # rest" by (cases "mq_items (n_queue n)") auto
  let ?l = "node_ledger n" and ?r = "receipt (Suc (mq_nextID (n_queue n)))"
  define n1 where "n1 = n\<lparr>n_queue := snd (Dequeue False (n_queue n))\<rparr>"
  have job: "process_job (node_agent env) req ?r n1 = (out, n')"
    using run False wait by (simp add: run_iteration_def node_dequeue Dequeue_def Let_def n1_def)
  have l1: "node_ledger n1 = ?l\<lparr>ld_waiting := rest, ld_held := (ld_held ?l)(?r \<mapsto> req), ld_last := Suc (ld_last ?l)\<rparr>"
    using wait by (simp add: n1_def node_ledger_def overlay_files_def Dequeue_def Let_def get_put_fun)
  have lw: "ld_waiting ?l = req # rest" "ld_last ?l = mq_nextID (n_queue n)" "ld_files ?l = overlay_files n"
    using wait by (simp_all add: node_ledger_def)
  have free: "req_ID req \<notin> ld_leases (node_ledger n1)" using ok lw by (auto simp: l1 ledger_ok_def)
  have new: "\<forall>t s ov v. a_Create (node_agent env) s (snd (a_GetSnapshot (node_agent env) t n1)) = (Inr ov, v) \<longrightarrow>
      ov_MountPath ov \<notin> ld_files (node_ledger n1)"
  proof (intro allI impI)
    fix t s ov v
    assume "a_Create (node_agent env) s (snd (a_GetSnapshot (node_agent env) t n1)) = (Inr ov, v)"
    from node_create(2) [OF this] show "ov_MountPath ov \<notin> ld_files (node_ledger n1)"
      using fresh lw(3) by (simp add: l1) (simp add: n1_def node_agent_def)
  qed
  have sec: "\<forall>f. a_Secrets (node_agent env) = Some f \<longrightarrow>
      (\<forall>(key, ref) \<in> set (req_Secrets req). \<forall>w. \<exists>v. fst (f ref w) = Inr v)"
    using secrets wait by (auto simp: node_agent_def secrets_resolve_def split: option.splits)
  have ret: "returned ?r (node_ledger n1) = ?l\<lparr>ld_waiting := rest @ [req], ld_last := Suc (ld_last ?l)\<rparr>"
    using ledger_ok_fresh [OF ok] lw(2) by (auto simp: l1 returned_def fun_upd_idem)
  from nd.job_outcome [OF coop free new sec job] nc
  consider why where "out = Nacked why" "node_ledger n' = returned ?r (node_ledger n1)"
    | ov where "out = Launched \<lparr>wt_runID = req_ID req, wt_reqID = req_ID req, wt_overlay = ov, wt_receipt = ?r\<rparr>"
        "8 \<le> length (req_ID req)" "ov_MountPath ov \<notin> ld_files (node_ledger n1)"
        "node_ledger n' = (equipped (req_ID req) (ov_MountPath ov) (node_ledger n1))
           \<lparr>ld_watched := insert (req_ID req) (ld_watched (node_ledger n1))\<rparr>"
    by blast
  then show ?thesis
  proof cases
    case 1
    then show ?thesis using ledger_ok_rotate [OF ok lw(1)] ret by (simp add: waiters_after_def)
  next
    case (2 ov)
    let ?wt = "\<lparr>wt_runID = req_ID req, wt_reqID = req_ID req, wt_overlay = ov, wt_receipt = ?r\<rparr>"
    show ?thesis
      using ledger_ok_launch [OF ok lw(1), of ?r ?wt] 2 lw(2) by (simp add: waiters_after_def overlay_of_def l1)
  qed
qed

lemma active_shrinks: "keys (pf_active (snd (watch_tick fenv k p))) \<subseteq> keys (pf_active p)"
proof -
  have stop: "keys (pf_active (stopWatching i p)) \<subseteq> keys (pf_active p)" for i
    by (auto simp: stopWatching_def split: option.splits)
  then have "keys (pf_active (snd (killForViolation fenv i reason p))) \<subseteq> keys (pf_active p)" for i reason
    by (auto simp: killForViolation_def split: option.splits dest: subsetD)
  with stop have "keys (pf_active (snd (checkAndEnforce fenv i policy p))) \<subseteq> keys (pf_active p)" for i policy
    by (simp add: checkAndEnforce_def split: sum.splits option.splits)
  then show ?thesis by (simp add: watch_tick_def split: option.splits prod.splits)
qed

lemma node_reachable_ok: "node_reachable h n W \<Longrightarrow> list_all undisturbed h \<Longrightarrow> ledger_ok (node_ledger n) W"
proof (induction rule: node_reachable.induct)
  case (boot bridge cidr base fs)
  then show ?case
    by (simp add: ledger_ok_def node_ledger_def new_node_def NewMemoryQueue_def NewHostGateway_def NewPollFury_def
        overlay_files_def keys_def dom_def fun_eq_iff)
next
  case (submit h n W req)
  have "node_ledger (n\<lparr>n_queue := Enqueue (n_queue n) req\<rparr>) =
      (node_ledger n)\<lparr>ld_waiting := ld_waiting (node_ledger n) @ [req]\<rparr>"
    by (simp add: node_ledger_def overlay_files_def Enqueue_def)
  moreover have "ld_waiting (node_ledger n) = mq_items (n_queue n)" by (simp add: node_ledger_def)
  ultimately show ?case using ledger_ok_enqueue [of "node_ledger n" W req] submit by simp
next
  case (serve h n W env out n')
  then show ?case by (intro ledger_ok_serve [of n W env]) auto
next
  case (ended h n W wt env)
  then have ok: "ledger_ok (node_ledger n) W" and env: "cooperative env" by simp_all
  then have "8 \<le> length (wt_reqID wt)" using ended.hyps(2) by (auto simp: ledger_ok_def)
  then show ?case
    using nd.cleanup_ledger [OF env, of wt n] ledger_ok_ended [OF ok ended.hyps(2)] by (simp add: overlay_of_def)
next
  case (watched h n W fenv k)
  have "node_ledger (n\<lparr>n_fury := snd (watch_tick fenv k (n_fury n))\<rparr>) =
      (node_ledger n)\<lparr>ld_watched := keys (pf_active (snd (watch_tick fenv k (n_fury n))))\<rparr>"
    by (simp add: node_ledger_def overlay_files_def)
  moreover have "ld_watched (node_ledger n) = keys (pf_active (n_fury n))" by (simp add: node_ledger_def)
  ultimately show ?case using ledger_ok_watch [OF watched.IH [OF watched.prems]] active_shrinks by metis
next
  case (outside h n W rt reg)
  then show ?case by (simp add: node_ledger_def overlay_files_def)
qed


definition demo_host :: host_env where
  "demo_host = \<lparr>he_fails = (\<lambda>_. None), he_link = (\<lambda>_. None), he_addrs = (\<lambda>_. Inr []), he_exists = (\<lambda>_. Inr False)\<rparr>"

definition demo_env :: node_env where
  "demo_env = \<lparr>ne_host = demo_host, ne_fs = good_fs, ne_uuid = ''u'', ne_snapshots = (\<lambda>_. Inr demo_snapshot),
     ne_secrets = None, ne_ctxErr = None, ne_cancelled = False, ne_now = 0, ne_letterErr = None\<rparr>"

definition demo_job :: SandboxRequest where
  "demo_job = zero_SandboxRequest\<lparr>req_ID := ''sandbox-1'', req_Template := ''py'',
     req_NetworkRef := \<lparr>net_ID = ''lockdown-no-net'', net_Name = []\<rparr>, req_Secrets := [(''KEY'', ''env:KEY'')]\<rparr>"

definition demo_node :: node where
  "demo_node = new_node ''br0'' (0x0A000000, 24) ''/o'' [(''/s/a.disk'', ''disk'')]"

definition demo_loaded :: node where
  "demo_loaded = demo_node\<lparr>n_queue := Enqueue (n_queue demo_node) demo_job\<rparr>"

definition demo_waiter :: waiter where
  "demo_waiter = \<lparr>wt_runID = ''sandbox-1'', wt_reqID = ''sandbox-1'',
     wt_overlay = \<lparr>ov_ID = ''u'', ov_MountPath = ''/o/u.img'', ov_BackingSnapshot = ''snap1''\<rparr>, wt_receipt = ''receipt-1''\<rparr>"

lemma demo_serves: "fst (run_iteration (node_agent demo_env) demo_loaded) = Launched demo_waiter"
  by code_simp

lemma demo_no_overlays: "overlay_files demo_node = {}" "overlay_files demo_loaded = {}"
  by (auto simp: demo_loaded_def demo_node_def new_node_def overlay_files_def overlay_path_def split: if_splits)

lemma demo_cooperative: "cooperative demo_env"
  by (simp add: cooperative_def demo_env_def demo_host_def good_fs_def) blast

definition demo_history :: "node_event list" where
  "demo_history = [Turn demo_env demo_loaded, Arrival demo_job demo_node {}]"

lemma demo_undisturbed: "list_all undisturbed demo_history"
  using demo_cooperative demo_no_overlays
  by (simp add: demo_history_def secrets_resolve_def demo_env_def demo_node_def new_node_def NewMemoryQueue_def)

lemma demo_running: "node_reachable demo_history (snd (run_iteration (node_agent demo_env) demo_loaded)) {demo_waiter}"
proof -
  let ?n = "snd (run_iteration (node_agent demo_env) demo_loaded)"
  have "node_reachable [] demo_node {}" unfolding demo_node_def
    by (rule node_reachable.boot) (use demo_no_overlays in \<open>simp add: demo_node_def\<close>)
  then have "node_reachable [Arrival demo_job demo_node {}] demo_loaded {}" unfolding demo_loaded_def by (rule node_reachable.submit)
  then have "node_reachable demo_history ?n (waiters_after (fst (run_iteration (node_agent demo_env) demo_loaded)) {})"
    unfolding demo_history_def by (rule node_reachable.serve [OF _ surjective_pairing]) (simp add: demo_serves)
  then show ?thesis by (simp add: demo_serves waiters_after_def)
qed


section \<open>A secret that does not resolve\<close>

lemma process_Launched:
  "process_job a req rcpt w = (Launched wt, w') \<Longrightarrow>
   \<exists>snap w1 ov w2 att w3. a_GetSnapshot a (req_Template req) w = (Inr snap, w1) \<and> a_Create a snap w1 = (Inr ov, w2) \<and>
     a_Attach a (req_ID req) (Some (agent_contract req)) w2 = (Inr att, w3) \<and>
     launch_job a (fst (with_secrets a req ov rcpt w3)) snap ov att rcpt (snd (with_secrets a req ov rcpt w3)) = (Launched wt, w')"
  by (auto simp: process_job_def split: sum.splits prod.splits styx_error.splits)

lemma node_launch:
  "launch_job (node_agent env) req snap ov att rcpt w = (Launched wt, w') \<Longrightarrow> ne_ctxErr env = None"
  "ne_ctxErr env = None \<Longrightarrow> launch_job (node_agent env) req snap ov att rcpt w =
     (Launched \<lparr>wt_runID = req_ID req, wt_reqID = req_ID req, wt_overlay = ov, wt_receipt = rcpt\<rparr>,
      w\<lparr>n_runtime := snd (Mock_Launch None (ne_now env) req (vm_config req snap ov att) (n_runtime w)),
        n_registry := UpdateRun (n_registry w) (mock_run (ne_now env) req),
        n_fury := Arm (mock_run (ne_now env) req) (watch_policy req) (n_fury w)\<rparr>)"
  by (auto simp: launch_job_def node_agent_def Mock_Launch_def Let_def mock_run_def split: option.splits)

lemma node_agent_parts:
  "a_Dequeue (node_agent (env\<lparr>ne_secrets := x\<rparr>)) = a_Dequeue (node_agent env)"
  "a_GetSnapshot (node_agent (env\<lparr>ne_secrets := x\<rparr>)) = a_GetSnapshot (node_agent env)"
  "a_Create (node_agent (env\<lparr>ne_secrets := x\<rparr>)) = a_Create (node_agent env)"
  "a_Attach (node_agent (env\<lparr>ne_secrets := x\<rparr>)) = a_Attach (node_agent env)"
  by (simp_all add: node_agent_def)

text \<open>Whether a job is launched does not depend on its secrets.\<close>

lemma launch_whatever_secrets:
  assumes "process_job (node_agent (env\<lparr>ne_secrets := x\<rparr>)) req rcpt n = (Launched wt, n0)"
  shows "\<exists>n'. process_job (node_agent env) req rcpt n = (Launched wt, n') \<and>
    get (mk_runs (n_runtime n')) (req_ID req) \<noteq> None \<and>
    (\<exists>cfg. get (mk_configs (n_runtime n')) (req_ID req) = Some cfg \<and> vm_OverlayFS cfg = overlay_of wt)"
proof -
  let ?a' = "node_agent (env\<lparr>ne_secrets := x\<rparr>)" and ?a = "node_agent env"
  obtain snap w1 ov w2 att w3 where prep: "a_GetSnapshot ?a (req_Template req) n = (Inr snap, w1)"
      "a_Create ?a snap w1 = (Inr ov, w2)" "a_Attach ?a (req_ID req) (Some (agent_contract req)) w2 = (Inr att, w3)"
    and l: "launch_job ?a' (fst (with_secrets ?a' req ov rcpt w3)) snap ov att rcpt (snd (with_secrets ?a' req ov rcpt w3))
        = (Launched wt, n0)"
    using process_Launched [OF assms] by (auto simp: node_agent_parts)
  have ctx: "ne_ctxErr env = None" using node_launch(1) [OF l] by simp
  obtain req' w4 where ws: "with_secrets ?a req ov rcpt w3 = (req', w4)" by fastforce
  have i: "req_ID req' = req_ID req" using nd.with_secrets_ID [of env req ov rcpt w3] ws by simp
  have wt: "wt = \<lparr>wt_runID = req_ID req, wt_reqID = req_ID req, wt_overlay = ov, wt_receipt = rcpt\<rparr>"
    using node_launch(2) [of "env\<lparr>ne_secrets := x\<rparr>"] l ctx nd.with_secrets_ID [of "env\<lparr>ne_secrets := x\<rparr>" req ov rcpt w3]
    by simp
  show ?thesis
    using prep ws node_launch(2) [OF ctx, of req' snap ov att rcpt w4] i wt
    by (auto simp: process_job_def Mock_Launch_def Let_def mock_run_def vm_config_def overlay_of_def split: prod.splits)
qed

text \<open>
  A secret that does not resolve does not stop its job. The agent gives the overlay and the
  address back and returns the job to the queue, as it should, but then goes on: if the job would
  have been launched with no secrets at all, the sandbox is launched, on an overlay that no longer
  exists and without the secret, while the same job waits to be run again.
\<close>

theorem failed_secret_still_launches:
  assumes coop: "cooperative env" and wait: "mq_items (n_queue n) = req # rest"
    and fresh: "overlay_path (n_base n) (ne_uuid env) \<notin> overlay_files n"
    and free: "req_ID req \<notin> keys (gw_allocations (n_gateway n))"
    and bad: "ne_secrets env = Some f" "(key, ref) \<in> set (req_Secrets req)" "f ref = Inl e"
    and without: "run_iteration (node_agent (env\<lparr>ne_secrets := None\<rparr>)) n = (Launched wt, n0)"
  shows "\<exists>n'. run_iteration (node_agent env) n = (Launched wt, n') \<and>
    get (mk_runs (n_runtime n')) (req_ID req) \<noteq> None \<and>
    (\<exists>cfg. get (mk_configs (n_runtime n')) (req_ID req) = Some cfg \<and> vm_OverlayFS cfg = overlay_of wt \<and>
       overlay_of wt \<notin> overlay_files n') \<and>
    req_ID req \<notin> keys (gw_allocations (n_gateway n')) \<and>
    mq_items (n_queue n') = rest @ [req] \<and> get (mq_processing (n_queue n')) (wt_receipt wt) = None"
proof -
  let ?r = "receipt (Suc (mq_nextID (n_queue n)))"
  define n1 where "n1 = n\<lparr>n_queue := snd (Dequeue False (n_queue n))\<rparr>"
  have nc: "\<not> ne_cancelled env"
    using without wait by (auto simp: run_iteration_def node_dequeue Dequeue_def split: if_splits)
  have deq: "run_iteration (node_agent (env\<lparr>ne_secrets := x\<rparr>)) n = process_job (node_agent (env\<lparr>ne_secrets := x\<rparr>)) req ?r n1" for x
    using nc wait by (simp add: run_iteration_def node_agent_parts node_dequeue Dequeue_def Let_def n1_def)
  obtain n' where job: "process_job (node_agent env) req ?r n1 = (Launched wt, n')"
    and rt: "get (mk_runs (n_runtime n')) (req_ID req) \<noteq> None"
      "\<exists>cfg. get (mk_configs (n_runtime n')) (req_ID req) = Some cfg \<and> vm_OverlayFS cfg = overlay_of wt"
    using launch_whatever_secrets [OF without [unfolded deq]] by blast
  have l1: "ld_leases (node_ledger n1) = keys (gw_allocations (n_gateway n))" "ld_files (node_ledger n1) = overlay_files n"
    by (simp_all add: node_ledger_def overlay_files_def n1_def)
  have new: "\<forall>t s ov v. a_Create (node_agent env) s (snd (a_GetSnapshot (node_agent env) t n1)) = (Inr ov, v) \<longrightarrow>
      ov_MountPath ov \<notin> ld_files (node_ledger n1)"
    using node_create(2) fresh by (auto simp: l1) (auto simp: n1_def node_agent_def)
  have sec: "a_Secrets (node_agent env) = Some (\<lambda>ref n. (f ref, n))" by (simp add: node_agent_def bad(1))
  have "req_ID req \<notin> ld_leases (node_ledger n1)" using free l1 by simp
  from nd.job_without_secret [OF coop this new sec _ bad(2) _ job] bad(3)
  have out: "wt_receipt wt = ?r" "overlay_of wt \<notin> overlay_files n'"
      "node_ledger n' = (returned ?r (node_ledger n1))\<lparr>ld_watched := insert (req_ID req) (ld_watched (returned ?r (node_ledger n1)))\<rparr>"
    by (auto simp: overlay_of_def node_ledger_def)
  have held: "ld_held (node_ledger n1) ?r = Some req" "ld_waiting (node_ledger n1) = rest"
    using wait by (simp_all add: n1_def node_ledger_def Dequeue_def Let_def)
  have "mq_items (n_queue n') = rest @ [req]" "get (mq_processing (n_queue n')) ?r = None"
      "keys (gw_allocations (n_gateway n')) = keys (gw_allocations (n_gateway n))"
    using arg_cong [OF out(3), of ld_waiting] arg_cong [OF out(3), of ld_held] arg_cong [OF out(3), of ld_leases] held l1(1)
    by (simp_all add: returned_def) (simp_all add: node_ledger_def)
  then show ?thesis using job rt out deq [of "ne_secrets env"] free by simp
qed

theorem failed_secret_still_launches_witness:
  "\<exists>n'. run_iteration (node_agent (demo_env\<lparr>ne_secrets := Some (\<lambda>_. Inl ''no such key'')\<rparr>)) demo_loaded = (Launched demo_waiter, n') \<and>
     get (mk_runs (n_runtime n')) ''sandbox-1'' \<noteq> None \<and> mq_items (n_queue n') = [demo_job]"
proof -
  let ?env = "demo_env\<lparr>ne_secrets := Some (\<lambda>_. Inl ''no such key'')\<rparr>"
  have env: "?env\<lparr>ne_secrets := None\<rparr> = demo_env" by (simp add: demo_env_def)
  have coop: "cooperative ?env" using demo_cooperative by (simp add: cooperative_def)
  have fresh: "overlay_path (n_base demo_loaded) (ne_uuid ?env) \<notin> overlay_files demo_loaded"
    by (simp add: demo_no_overlays)
  have wait: "mq_items (n_queue demo_loaded) = demo_job # []" by code_simp
  have free: "req_ID demo_job \<notin> keys (gw_allocations (n_gateway demo_loaded))"
    by (simp add: demo_loaded_def demo_node_def new_node_def NewHostGateway_def keys_def)
  have bad: "(''KEY'', ''env:KEY'') \<in> set (req_Secrets demo_job)" by (simp add: demo_job_def)
  have out: "run_iteration (node_agent (?env\<lparr>ne_secrets := None\<rparr>)) demo_loaded =
      (Launched demo_waiter, snd (run_iteration (node_agent demo_env) demo_loaded))"
    unfolding env by (simp add: prod_eq_iff demo_serves)
  have "req_ID demo_job = ''sandbox-1''" by (simp add: demo_job_def)
  then show ?thesis
    using failed_secret_still_launches [OF coop wait fresh free _ bad _ out, of "\<lambda>_. Inl ''no such key''" "''no such key''"]
    by auto
qed

section \<open>What a launch leaves undone\<close>

text \<open>
  The network policy of a request has no effect on its sandbox's traffic. Whatever policies
  the requests name, in every state a node reaches undisturbed no firewall rule has been inserted for any
  sandbox: the agent passes the gateway a contract with the policy's identifier and no terms.
\<close>

theorem no_policy_enforced:
  assumes "node_reachable h n W" "list_all undisturbed h"
  shows "IptInsert r \<notin> set (n_calls n)"
  using node_reachable_ok [OF assms] by (simp add: ledger_ok_def node_ledger_def)

theorem no_policy_enforced_witness:
  "net_ID (req_NetworkRef demo_job) = ''lockdown-no-net'' \<and>
   IptInsert (TapRule ''tap-sandbox-'' metadata_ip DROP) \<notin>
     set (n_calls (snd (run_iteration (node_agent demo_env) demo_loaded)))"
  using no_policy_enforced [OF demo_running demo_undisturbed] by (simp add: demo_job_def)

text \<open>
  The record of a launched run is the one the runtime returns. The microVM runtime leaves the node
  out of it, so commands for the sandbox go to no node until its node is recorded again.
\<close>

definition firecracker_run :: "go_time \<Rightarrow> go_time \<Rightarrow> SandboxRequest \<Rightarrow> SandboxRun" where
  "firecracker_run startedAt now req = zero_SandboxRun\<lparr>run_ID := req_ID req, run_RequestID := req_ID req,
     run_Status := RunStatusRunning, run_StartedAt := startedAt, run_CreatedAt := now, run_UpdatedAt := now\<rparr>"

lemma launch_forgets_node:
  "GetRun (UpdateRun reg (firecracker_run t now req)) (req_ID req) = Inr (firecracker_run t now req)"
  "run_NodeID (firecracker_run t now req) = []"
  by (simp_all add: GetRun_def UpdateRun_def firecracker_run_def zero_SandboxRun_def)

text \<open>
  Processors are asked for in thousandths and given to the runtime in whole units, which reports
  them in thousandths again: a node that runs one job reports a thousand times its request.
\<close>

lemma allocation_inflated:
  "ne_ctxErr env = None \<Longrightarrow> mk_configs (n_runtime w) = [] \<Longrightarrow>
   launch_job (node_agent env) req snap ov att rcpt w = (out, w') \<Longrightarrow>
   cap_CPU (Mock_Allocation (n_runtime w')) = 1000 * res_CPU (req_Resources req)"
  by (auto simp: node_launch(2) Mock_Launch_def Let_def Mock_Allocation_def put_def vm_config_def mock_run_def split: prod.splits)

end
