(* ===== verification/Drivers.thy ===== *)
theory Drivers
  imports Runtimes
begin

text \<open>
  Two of the three backends a node runs (\<open>src/pkg/tartarus\<close>): gVisor containers started by the
  \<open>runsc\<close> program (\<open>gvisor_runtime.go\<close>) and WASM modules run by an embedded engine
  (\<open>wasm_runtime.go\<close>). Both keep a \<open>sync.Map\<close> from sandbox identifiers to pointers, and
  hand the pointer to goroutines that outlive the map's entry; a runtime is therefore a heap of
  objects with an index into it (\<open>objects\<close>), which this theory shares with the microVM backend
  and the legacy adapters.

  The operating system is a parameter: a function from a call and the system's state to an error,
  if any, and the next state. Joined paths are clean, and one reading of the clock serves a call.
  Blocking loops take the sequence of what their \<open>select\<close> wakes up for, with the steps other
  goroutines make in between; running out of that sequence is still waiting (\<open>None\<close>).
\<close>

named_theorems objects_simps "reading and writing a heap of objects"

section \<open>A map of pointers\<close>

record ('o, 'h) objects =
  ob_heap :: "'o list"
  ob_index :: "(SandboxID, nat) gomap"
  ob_host :: 'h

definition obj :: "('o, 'h, 'm) objects_scheme \<Rightarrow> nat \<Rightarrow> 'o" where
  "obj s p = ob_heap s ! p"

definition Load :: "('o, 'h, 'm) objects_scheme \<Rightarrow> SandboxID \<Rightarrow> nat option" where
  "Load s i = get (ob_index s) i"

definition Store :: "SandboxID \<Rightarrow> 'o \<Rightarrow> ('o, 'h, 'm) objects_scheme \<Rightarrow> ('o, 'h, 'm) objects_scheme" where
  "Store i x s = s\<lparr>ob_heap := ob_heap s @ [x], ob_index := put (ob_index s) i (length (ob_heap s))\<rparr>"

definition Assign :: "nat \<Rightarrow> ('o \<Rightarrow> 'o) \<Rightarrow> ('o, 'h, 'm) objects_scheme \<Rightarrow> ('o, 'h, 'm) objects_scheme" where
  "Assign p f s = s\<lparr>ob_heap := (ob_heap s)[p := f (obj s p)]\<rparr>"

definition Delete :: "SandboxID \<Rightarrow> ('o, 'h, 'm) objects_scheme \<Rightarrow> ('o, 'h, 'm) objects_scheme" where
  "Delete i s = s\<lparr>ob_index := del (ob_index s) i\<rparr>"

text \<open>The objects a \<open>Range\<close> over the map visits, and whether the map has an entry.\<close>

definition entries :: "('o, 'h, 'm) objects_scheme \<Rightarrow> 'o list" where
  "entries s = map (\<lambda>(i, p). obj s p) (ob_index s)"

definition tracks :: "('o, 'h, 'm) objects_scheme \<Rightarrow> SandboxID \<Rightarrow> bool" where
  "tracks s i \<longleftrightarrow> Load s i \<noteq> None"

text \<open>A call to the system whose error ends the operation, and one whose error is ignored.\<close>

definition syscall :: "('c \<Rightarrow> 'h \<Rightarrow> 'a \<times> 'h) \<Rightarrow> 'c \<Rightarrow> ('o, 'h, 'm) objects_scheme \<Rightarrow> 'a \<times> ('o, 'h, 'm) objects_scheme" where
  "syscall sys c s = (case sys c (ob_host s) of (a, h) \<Rightarrow> (a, s\<lparr>ob_host := h\<rparr>))"

definition ignoring :: "('c \<Rightarrow> 'h \<Rightarrow> 'a \<times> 'h) \<Rightarrow> 'c \<Rightarrow> ('o, 'h, 'm) objects_scheme \<Rightarrow> ('o, 'h, 'm) objects_scheme" where
  "ignoring sys c s = snd (syscall sys c s)"

definition attempt ::
    "('c \<Rightarrow> 'h \<Rightarrow> string option \<times> 'h) \<Rightarrow> 'c \<Rightarrow> string
     \<Rightarrow> (('o, 'h, 'm) objects_scheme \<Rightarrow> (string + 'b) \<times> ('o, 'h, 'm) objects_scheme)
     \<Rightarrow> ('o, 'h, 'm) objects_scheme \<Rightarrow> (string + 'b) \<times> ('o, 'h, 'm) objects_scheme" where
  "attempt sys c wrapped k s =
     (case syscall sys c s of
        (Some err, s') \<Rightarrow> (Inl (wrapped @ err), s')
      | (None, s') \<Rightarrow> k s')"

definition command ::
    "('c \<Rightarrow> 'h \<Rightarrow> string option \<times> 'h) \<Rightarrow> 'c \<Rightarrow> string \<Rightarrow> ('o, 'h, 'm) objects_scheme
     \<Rightarrow> string option \<times> ('o, 'h, 'm) objects_scheme" where
  "command sys c wrapped s =
     (case syscall sys c s of
        (Some err, s') \<Rightarrow> (Some (wrapped @ err), s')
      | (None, s') \<Rightarrow> (None, s'))"

text \<open>
  Every pointer of the index is in the heap, and the object it leads to is the one stored under
  that key (\<open>ident\<close> reads its identifier).
\<close>

definition objects_ok :: "('o \<Rightarrow> SandboxID) \<Rightarrow> ('o, 'h, 'm) objects_scheme \<Rightarrow> bool" where
  "objects_ok ident s \<longleftrightarrow> gomap_ok (ob_index s) \<and>
     (\<forall>(i, p) \<in> set (ob_index s). p < length (ob_heap s) \<and> ident (obj s p) = i)"

lemma Load_Store [objects_simps]: "Load (Store i x s) j = (if j = i then Some (length (ob_heap s)) else Load s j)"
  by (simp add: Load_def Store_def)

lemma Load_Assign [objects_simps]: "Load (Assign p f s) j = Load s j"
  by (simp add: Load_def Assign_def)

lemma Load_Delete [objects_simps]: "Load (Delete i s) j = (if j = i then None else Load s j)"
  by (simp add: Load_def Delete_def)

lemma obj_Store [objects_simps]:
  "obj (Store i x s) (length (ob_heap s)) = x" "p < length (ob_heap s) \<Longrightarrow> obj (Store i x s) p = obj s p"
  by (simp_all add: obj_def Store_def nth_append)

lemma obj_Assign [objects_simps]: "p < length (ob_heap s) \<Longrightarrow> obj (Assign p f s) q = (if q = p then f (obj s p) else obj s q)"
  by (auto simp: obj_def Assign_def)

lemma heap_length [objects_simps]:
  "length (ob_heap (Store i x s)) = Suc (length (ob_heap s))" "length (ob_heap (Assign p f s)) = length (ob_heap s)"
  "ob_heap (Delete i s) = ob_heap s"
  by (simp_all add: Store_def Assign_def Delete_def)

lemma syscall_frame:
  assumes "syscall sys c s = (a, s')"
  shows "ob_heap s' = ob_heap s" "ob_index s' = ob_index s"
  using assms by (auto simp: syscall_def split: prod.splits)

lemma ignoring_frame [objects_simps]: "ob_heap (ignoring sys c s) = ob_heap s" "ob_index (ignoring sys c s) = ob_index s"
  by (simp_all add: ignoring_def syscall_def split: prod.splits)

lemma command_frame:
  assumes "command sys c wrapped s = (r, s')"
  shows "ob_heap s' = ob_heap s" "ob_index s' = ob_index s"
  using assms by (auto simp: command_def dest: syscall_frame split: prod.splits option.splits)

lemma objects_okI:
  "gomap_ok (ob_index s) \<Longrightarrow> (\<And>i p. Load s i = Some p \<Longrightarrow> p < length (ob_heap s) \<and> ident (obj s p) = i) \<Longrightarrow> objects_ok ident s"
  by (auto simp: objects_ok_def Load_def get_iff_in_set)

lemma objects_okD:
  assumes "objects_ok ident s" "Load s i = Some p"
  shows "p < length (ob_heap s)" "ident (obj s p) = i"
  using assms by (auto simp: objects_ok_def Load_def dest!: get_Some_in_set)

lemma objects_ok_gomap: "objects_ok ident s \<Longrightarrow> gomap_ok (ob_index s)"
  by (simp add: objects_ok_def)

lemma objects_ok_Store: "objects_ok ident s \<Longrightarrow> ident x = i \<Longrightarrow> objects_ok ident (Store i x s)"
  by (rule objects_okI)
     (auto simp: objects_simps Store_def objects_ok_gomap obj_def nth_append Load_def
       dest: objects_okD [unfolded Load_def obj_def] split: if_splits)

lemma objects_ok_Delete: "objects_ok ident s \<Longrightarrow> objects_ok ident (Delete i s)"
  by (rule objects_okI)
     (auto simp: Delete_def objects_ok_gomap obj_def Load_def dest: objects_okD [unfolded Load_def obj_def] split: if_splits)

lemma objects_ok_Assign:
  assumes "objects_ok ident s" "\<And>x. ident (f x) = ident x"
  shows "objects_ok ident (Assign p f s)"
proof (rule objects_okI)
  show "gomap_ok (ob_index (Assign p f s))" using assms(1) by (simp add: Assign_def objects_ok_gomap)
  fix i q
  assume "Load (Assign p f s) i = Some q"
  then have "q < length (ob_heap s)" "ident (obj s q) = i"
    using objects_okD [OF assms(1)] by (simp_all add: objects_simps)
  then show "q < length (ob_heap (Assign p f s)) \<and> ident (obj (Assign p f s) q) = i"
    using assms(2) by (cases "q = p") (simp_all add: Assign_def obj_def)
qed

lemma objects_ok_frame:
  "ob_heap s' = ob_heap s \<Longrightarrow> ob_index s' = ob_index s \<Longrightarrow> objects_ok ident s' = objects_ok ident s"
  by (simp add: objects_ok_def obj_def)

section \<open>gVisor\<close>

record OCISpec =
  oci_Version :: string
  oci_RootPath :: string
  oci_Readonly :: bool
  oci_Terminal :: bool
  oci_User :: "nat \<times> nat"
  oci_Args :: "string list"
  oci_Cwd :: string
  oci_Env :: "string list"
  oci_Namespaces :: "string list"
  oci_MemoryLimit :: "int option"
  oci_CPUQuota :: "int option"
  oci_CPUPeriod :: "int option"

text \<open>
  The calls the runtimes make to the system. A started process belongs to the object whose pointer
  the call carries; \<open>Signal\<close> is the direct kill of that process.
\<close>

datatype os_call =
    MkdirAll string
  | WriteSpec string OCISpec
  | WriteFile string string
  | CreateFile string
  | OpenFile string
  | CloseFile string
  | StatPath string
  | RemoveAll string
  | StartProc "string list" string nat
  | RunProc "string list"
  | Signal nat
  | CancelContext nat

type_synonym 'h os = "os_call \<Rightarrow> 'h \<Rightarrow> string option \<times> 'h"

record gvisorContainer =
  gc_ID :: SandboxID
  gc_SandboxID :: string
  gc_BundlePath :: string
  gc_Request :: SandboxRequest
  gc_Config :: VMConfig
  gc_StartedAt :: go_time
  gc_ExitCode :: "int option"

record 'h GVisorRuntime = "(gvisorContainer, 'h) objects" +
  gv_RunscPath :: string
  gv_RootDir :: string
  gv_Platform :: string

definition NewGVisorRuntime :: "'h os \<Rightarrow> string \<Rightarrow> string \<Rightarrow> 'h \<Rightarrow> 'h GVisorRuntime" where
  "NewGVisorRuntime os runscPath rootDir h =
     (case os (StatPath ''/dev/kvm'') h of
        (err, h') \<Rightarrow>
          \<lparr>ob_heap = [], ob_index = [], ob_host = h',
           gv_RunscPath = (if runscPath = [] then ''/usr/local/bin/runsc'' else runscPath),
           gv_RootDir = (if rootDir = [] then ''/var/lib/tartarus/gvisor'' else rootDir),
           gv_Platform = (if err = None then ''kvm'' else ''ptrace'')\<rparr>)"

definition createOCISpec :: "SandboxRequest \<Rightarrow> OCISpec" where
  "createOCISpec req =
     \<lparr>oci_Version = ''1.0.2'', oci_RootPath = ''rootfs'', oci_Readonly = False, oci_Terminal = False, oci_User = (0, 0),
      oci_Args = req_Command req @ req_Args req, oci_Cwd = ''/'',
      oci_Env = ''PATH=/usr/local/sbin:/usr/local/bin:/usr/sbin:/usr/bin:/sbin:/bin'' # map (\<lambda>(k, v). k @ ''='' @ v) (req_Env req),
      oci_Namespaces = [''pid'', ''network'', ''ipc'', ''uts'', ''mount''],
      oci_MemoryLimit = (if res_Mem (req_Resources req) > 0 then Some (wrap64 (res_Mem (req_Resources req) * 1024 * 1024)) else None),
      oci_CPUQuota = (if res_CPU (req_Resources req) > 0 then Some (wrap64 (res_CPU (req_Resources req) * 100)) else None),
      oci_CPUPeriod = (if res_CPU (req_Resources req) > 0 then Some 100000 else None)\<rparr>"

definition launched_run :: "go_time \<Rightarrow> SandboxRequest \<Rightarrow> SandboxRun" where
  "launched_run now req = zero_SandboxRun\<lparr>run_ID := req_ID req, run_RequestID := req_ID req, run_NodeID := req_NodeID req,
     run_Template := req_Template req, run_Status := RunStatusRunning, run_StartedAt := now, run_CreatedAt := now,
     run_UpdatedAt := now, run_Metadata := req_Metadata req\<rparr>"

definition runsc_run :: "'h GVisorRuntime \<Rightarrow> string \<Rightarrow> string \<Rightarrow> string list" where
  "runsc_run g bundlePath sandboxID = [gv_RunscPath g, ''--platform='' @ gv_Platform g, ''--rootless=false'', ''--network=sandbox'',
     ''run'', ''--bundle'', bundlePath, sandboxID]"

text \<open>
  Starting a container: the bundle with its specification and its console file, then the process,
  whose bundle is removed when it does not start.
\<close>

definition in_bundle ::
    "'h os \<Rightarrow> string \<Rightarrow> OCISpec \<Rightarrow> (('o, 'h, 'm) objects_scheme \<Rightarrow> (string + 'b) \<times> ('o, 'h, 'm) objects_scheme)
     \<Rightarrow> ('o, 'h, 'm) objects_scheme \<Rightarrow> (string + 'b) \<times> ('o, 'h, 'm) objects_scheme" where
  "in_bundle os bundlePath spec k =
     attempt os (MkdirAll bundlePath) ''failed to create bundle dir: ''
       (attempt os (MkdirAll (bundlePath @ ''/rootfs'')) ''failed to create rootfs dir: ''
         (attempt os (WriteSpec (bundlePath @ ''/config.json'') spec) ''failed to write config: ''
           (attempt os (CreateFile (bundlePath @ ''/console.log'')) ''failed to create console file: '' k)))"

definition start_runsc ::
    "'h os \<Rightarrow> string list \<Rightarrow> string \<Rightarrow> (('o, 'h, 'm) objects_scheme \<Rightarrow> (string + 'b) \<times> ('o, 'h, 'm) objects_scheme)
     \<Rightarrow> ('o, 'h, 'm) objects_scheme \<Rightarrow> (string + 'b) \<times> ('o, 'h, 'm) objects_scheme" where
  "start_runsc os args bundlePath k s =
     (case syscall os (StartProc args bundlePath (length (ob_heap s))) s of
        (Some err, s1) \<Rightarrow>
          (Inl (''failed to start runsc: '' @ err),
           ignoring os (RemoveAll bundlePath) (ignoring os (CloseFile (bundlePath @ ''/console.log'')) s1))
      | (None, s1) \<Rightarrow> k s1)"

definition rootfs_of :: "VMConfig \<Rightarrow> string \<Rightarrow> string" where
  "rootfs_of cfg bundlePath = (if vm_OverlayFS cfg \<noteq> [] then vm_OverlayFS cfg else bundlePath @ ''/rootfs'')"

definition GVisor_Launch ::
    "'h os \<Rightarrow> go_time \<Rightarrow> SandboxRequest \<Rightarrow> VMConfig \<Rightarrow> 'h GVisorRuntime \<Rightarrow> (string + SandboxRun) \<times> 'h GVisorRuntime" where
  "GVisor_Launch os now req cfg g =
     (let bundlePath = gv_RootDir g @ ''/'' @ req_ID req;
          spec = (createOCISpec req)\<lparr>oci_RootPath := rootfs_of cfg bundlePath\<rparr>
      in in_bundle os bundlePath spec (start_runsc os (runsc_run g bundlePath (req_ID req)) bundlePath
           (\<lambda>g. (Inr (launched_run now req),
                  Store (req_ID req) \<lparr>gc_ID = req_ID req, gc_SandboxID = req_ID req, gc_BundlePath = bundlePath, gc_Request = req,
                    gc_Config = cfg, gc_StartedAt = now, gc_ExitCode = None\<rparr> g))) g)"

text \<open>The goroutine that waits for the process: it holds the pointer and records how it ended.\<close>

datatype process_end = Clean | ExitStatus int | WaitFailure string

definition exit_code_of :: "process_end \<Rightarrow> int" where
  "exit_code_of e = (case e of Clean \<Rightarrow> 0 | ExitStatus code \<Rightarrow> code | WaitFailure _ \<Rightarrow> -1)"

definition gvisor_exited :: "'h os \<Rightarrow> nat \<Rightarrow> process_end \<Rightarrow> 'h GVisorRuntime \<Rightarrow> 'h GVisorRuntime" where
  "gvisor_exited os p e g =
     Assign p (\<lambda>c. c\<lparr>gc_ExitCode := Some (exit_code_of e)\<rparr>) (ignoring os (CloseFile (gc_BundlePath (obj g p) @ ''/console.log'')) g)"

definition status_of_exit :: "int option \<Rightarrow> RunStatus" where
  "status_of_exit code = (case code of None \<Rightarrow> RunStatusRunning | Some c \<Rightarrow> if c = 0 then RunStatusSucceeded else RunStatusFailed)"

definition container_not_found :: "SandboxID \<Rightarrow> string" where
  "container_not_found i = ''container not found: '' @ i"

definition gvisor_view :: "go_time \<Rightarrow> gvisorContainer \<Rightarrow> SandboxRun" where
  "gvisor_view now c = zero_SandboxRun\<lparr>run_ID := gc_ID c, run_RequestID := req_ID (gc_Request c), run_NodeID := req_NodeID (gc_Request c),
     run_Template := req_Template (gc_Request c), run_Status := status_of_exit (gc_ExitCode c), run_ExitCode := gc_ExitCode c,
     run_StartedAt := gc_StartedAt c, run_FinishedAt := (if gc_ExitCode c = None then run_FinishedAt zero_SandboxRun else now),
     run_UpdatedAt := now, run_Metadata := req_Metadata (gc_Request c)\<rparr>"

definition GVisor_Inspect :: "go_time \<Rightarrow> SandboxID \<Rightarrow> 'h GVisorRuntime \<Rightarrow> string + SandboxRun" where
  "GVisor_Inspect now i g =
     (case Load g i of None \<Rightarrow> Inl (container_not_found i) | Some p \<Rightarrow> Inr (gvisor_view now (obj g p)))"

definition GVisor_List :: "go_time \<Rightarrow> 'h GVisorRuntime \<Rightarrow> SandboxRun list" where
  "GVisor_List now g = concat (map (\<lambda>(i, p). case GVisor_Inspect now i g of Inl _ \<Rightarrow> [] | Inr run \<Rightarrow> [run]) (ob_index g))"

text \<open>Stopping a container with \<open>runsc\<close>, or its process directly, and removing what it left.\<close>

definition runsc_kill ::
    "'h os \<Rightarrow> string \<Rightarrow> string \<Rightarrow> string \<Rightarrow> nat \<Rightarrow> ('o, 'h, 'm) objects_scheme \<Rightarrow> ('o, 'h, 'm) objects_scheme" where
  "runsc_kill os runscPath sandboxID bundlePath p s =
     (let s1 = (case syscall os (RunProc [runscPath, ''kill'', sandboxID, ''KILL'']) s of
                  (Some _, s') \<Rightarrow> ignoring os (Signal p) s'
                | (None, s') \<Rightarrow> s');
          s2 = ignoring os (RunProc [runscPath, ''delete'', ''--force'', sandboxID]) s1
      in ignoring os (RemoveAll bundlePath) s2)"

definition GVisor_Kill :: "'h os \<Rightarrow> SandboxID \<Rightarrow> 'h GVisorRuntime \<Rightarrow> string option \<times> 'h GVisorRuntime" where
  "GVisor_Kill os i g =
     (case Load g i of
        None \<Rightarrow> (None, g)
      | Some p \<Rightarrow> (None, Delete i (runsc_kill os (gv_RunscPath g) (gc_SandboxID (obj g p)) (gc_BundlePath (obj g p)) p g)))"

definition with_container ::
    "SandboxID \<Rightarrow> (gvisorContainer \<Rightarrow> 'h GVisorRuntime \<Rightarrow> string option \<times> 'h GVisorRuntime)
     \<Rightarrow> 'h GVisorRuntime \<Rightarrow> string option \<times> 'h GVisorRuntime" where
  "with_container i k g = (case Load g i of None \<Rightarrow> (Some (container_not_found i), g) | Some p \<Rightarrow> k (obj g p) g)"

definition GVisor_Pause :: "'h os \<Rightarrow> SandboxID \<Rightarrow> 'h GVisorRuntime \<Rightarrow> string option \<times> 'h GVisorRuntime" where
  "GVisor_Pause os i g = with_container i (\<lambda>c. command os (RunProc [gv_RunscPath g, ''pause'', gc_SandboxID c]) ''failed to pause sandbox: '') g"

definition GVisor_Resume :: "'h os \<Rightarrow> SandboxID \<Rightarrow> 'h GVisorRuntime \<Rightarrow> string option \<times> 'h GVisorRuntime" where
  "GVisor_Resume os i g = with_container i (\<lambda>c. command os (RunProc [gv_RunscPath g, ''resume'', gc_SandboxID c]) ''failed to resume sandbox: '') g"

text \<open>\<open>filepath.Dir\<close> of a clean path.\<close>

definition path_Dir :: "string \<Rightarrow> string" where
  "path_Dir path =
     (let dir = rev (dropWhile (\<lambda>c. c \<noteq> CHR ''/'') (rev path))
      in if dir = [] then ''.'' else if dir = ''/'' then ''/'' else butlast dir)"

definition GVisor_CreateSnapshot :: "'h os \<Rightarrow> SandboxID \<Rightarrow> string \<Rightarrow> string \<Rightarrow> 'h GVisorRuntime \<Rightarrow> string option \<times> 'h GVisorRuntime" where
  "GVisor_CreateSnapshot os i memPath diskPath g =
     with_container i (\<lambda>c g.
       case command os (MkdirAll (path_Dir memPath)) ''failed to create snapshot directory: '' g of
         (Some err, g1) \<Rightarrow> (Some err, g1)
       | (None, g1) \<Rightarrow> command os (RunProc [gv_RunscPath g, ''checkpoint'', ''--image-path'', path_Dir memPath, gc_SandboxID c])
                         ''failed to checkpoint sandbox: '' g1) g"

definition GVisor_GetConfig :: "SandboxID \<Rightarrow> 'h GVisorRuntime \<Rightarrow> string + VMConfig \<times> SandboxRequest" where
  "GVisor_GetConfig i g =
     (case Load g i of None \<Rightarrow> Inl (container_not_found i) | Some p \<Rightarrow> Inr (gc_Config (obj g p), gc_Request (obj g p)))"

definition GVisor_Allocation :: "'h GVisorRuntime \<Rightarrow> ResourceCapacity" where
  "GVisor_Allocation g =
     foldl (\<lambda>total c. if gc_ExitCode c = None
                      then total\<lparr>cap_CPU := cap_CPU total + res_CPU (req_Resources (gc_Request c)),
                                 cap_Mem := cap_Mem total + res_Mem (req_Resources (gc_Request c))\<rparr>
                      else total) zero_ResourceCapacity (entries g)"

definition GVisor_Exec :: "'h os \<Rightarrow> SandboxID \<Rightarrow> string list \<Rightarrow> 'h GVisorRuntime \<Rightarrow> string option \<times> 'h GVisorRuntime" where
  "GVisor_Exec os i cmd g =
     with_container i (\<lambda>c. command os (RunProc ([gv_RunscPath g, ''exec'', gc_SandboxID c, ''--''] @ cmd)) ''failed to exec: '') g"

definition GVisor_ExecInteractive :: "'h os \<Rightarrow> SandboxID \<Rightarrow> string list \<Rightarrow> 'h GVisorRuntime \<Rightarrow> string option \<times> 'h GVisorRuntime" where
  "GVisor_ExecInteractive os i cmd g =
     with_container i (\<lambda>c. command os (RunProc ([gv_RunscPath g, ''exec'', gc_SandboxID c, ''--''] @ cmd)) ''failed to exec interactive: '') g"

subsection \<open>Waiting\<close>

text \<open>What other goroutines do to the runtime while one is blocked. A process ends once.\<close>

datatype gv_event =
    GV_Launch go_time SandboxRequest VMConfig
  | GV_Kill SandboxID
  | GV_Exit nat process_end

fun gv_step :: "'h os \<Rightarrow> gv_event \<Rightarrow> 'h GVisorRuntime \<Rightarrow> 'h GVisorRuntime" where
  "gv_step os (GV_Launch now req cfg) g = snd (GVisor_Launch os now req cfg g)"
| "gv_step os (GV_Kill i) g = snd (GVisor_Kill os i g)"
| "gv_step os (GV_Exit p e) g =
     (if p < length (ob_heap g) \<and> gc_ExitCode (obj g p) = None then gvisor_exited os p e g else g)"

definition gv_steps :: "'h os \<Rightarrow> gv_event list \<Rightarrow> 'h GVisorRuntime \<Rightarrow> 'h GVisorRuntime" where
  "gv_steps os es g = foldl (\<lambda>g e. gv_step os e g) g es"

datatype wake = Cancelled string | TimedOut | Ticked

fun shutdown_loop ::
    "'h os \<Rightarrow> SandboxID \<Rightarrow> nat \<Rightarrow> (gv_event list \<times> wake) list \<Rightarrow> 'h GVisorRuntime \<Rightarrow> string option option \<times> 'h GVisorRuntime" where
  "shutdown_loop os i p [] g = (None, g)"
| "shutdown_loop os i p ((es, w) # ws) g =
     (let g1 = gv_steps os es g
      in case w of
           Cancelled err \<Rightarrow> (Some (Some err), g1)
         | TimedOut \<Rightarrow> (case GVisor_Kill os i g1 of (err, g2) \<Rightarrow> (Some err, g2))
         | Ticked \<Rightarrow> if gc_ExitCode (obj g1 p) \<noteq> None then (Some None, g1) else shutdown_loop os i p ws g1)"

definition GVisor_Shutdown ::
    "'h os \<Rightarrow> (gv_event list \<times> wake) list \<Rightarrow> SandboxID \<Rightarrow> 'h GVisorRuntime \<Rightarrow> string option option \<times> 'h GVisorRuntime" where
  "GVisor_Shutdown os ws i g =
     (case Load g i of
        None \<Rightarrow> (Some (Some (container_not_found i)), g)
      | Some p \<Rightarrow>
          (case command os (RunProc [gv_RunscPath g, ''kill'', gc_SandboxID (obj g p), ''TERM'']) ''failed to send SIGTERM: '' g of
             (Some err, g1) \<Rightarrow> (Some (Some err), g1)
           | (None, g1) \<Rightarrow> shutdown_loop os i p ws g1))"

text \<open>
  A wait has no time-out: it wakes for its context's error or for a tick (\<open>None\<close>), and asks
  whether the object has ended.
\<close>

fun wait_loop :: "('e \<Rightarrow> 's \<Rightarrow> 's) \<Rightarrow> ('s \<Rightarrow> bool) \<Rightarrow> ('e list \<times> string option) list \<Rightarrow> 's \<Rightarrow> string option option \<times> 's" where
  "wait_loop step ended [] s = (None, s)"
| "wait_loop step ended ((es, w) # ws) s =
     (let s1 = foldl (\<lambda>s e. step e s) s es
      in case w of
           Some err \<Rightarrow> (Some (Some err), s1)
         | None \<Rightarrow> if ended s1 then (Some None, s1) else wait_loop step ended ws s1)"

definition GVisor_Wait ::
    "'h os \<Rightarrow> (gv_event list \<times> string option) list \<Rightarrow> SandboxID \<Rightarrow> 'h GVisorRuntime \<Rightarrow> string option option \<times> 'h GVisorRuntime" where
  "GVisor_Wait os ws i g =
     (case Load g i of
        None \<Rightarrow> (Some (Some (container_not_found i)), g)
      | Some p \<Rightarrow> wait_loop (gv_step os) (\<lambda>g. gc_ExitCode (obj g p) \<noteq> None) ws g)"

subsection \<open>Following a log\<close>

text \<open>
  One turn of a loop that follows a log file: what has been written when the file is read, what is
  written between that read and the look at the exit code, the error of the read, and whether the
  exit code was there. A read returns at most one buffer, and \<open>io.EOF\<close> when nothing is left.
\<close>

record log_tick =
  tk_before :: string
  tk_between :: string
  tk_error :: "string option"
  tk_exited :: bool

fun follow_loop ::
    "nat \<Rightarrow> (string \<Rightarrow> string option) \<Rightarrow> (string + log_tick) list \<Rightarrow> string \<Rightarrow> string \<Rightarrow> string option option \<times> string" where
  "follow_loop buf w [] pending out = (None, out)"
| "follow_loop buf w (Inl err # ts) pending out = (Some (Some err), out)"
| "follow_loop buf w (Inr t # ts) pending out =
     (let avail = pending @ tk_before t
      in case tk_error t of
           Some err \<Rightarrow> (Some (Some err), out)
         | None \<Rightarrow>
             if avail \<noteq> [] then
               (case w (take buf avail) of
                  Some err \<Rightarrow> (Some (Some err), out)
                | None \<Rightarrow> follow_loop buf w ts (drop buf avail @ tk_between t) (out @ take buf avail))
             else if tk_exited t then (Some None, out)
             else follow_loop buf w ts (tk_between t) out)"

definition copy_or_follow ::
    "nat \<Rightarrow> (string \<Rightarrow> string option) \<Rightarrow> bool \<Rightarrow> (string + log_tick) list \<Rightarrow> string \<Rightarrow> string option option \<times> string" where
  "copy_or_follow buf w follow ts content =
     (if \<not> follow then (case w content of Some err \<Rightarrow> (Some (Some err), []) | None \<Rightarrow> (Some None, content))
      else follow_loop buf w ts content [])"


section \<open>WASM\<close>

text \<open>
  The engine is a parameter with a state of its own: reading a module's file, instantiating WASI
  into the engine, and instantiating the module, which runs it (with its bytes, arguments and
  environment).
\<close>

record 'w wazero =
  wz_ReadFile :: "string \<Rightarrow> string + string"
  wz_Instantiate :: "'w \<Rightarrow> string option \<times> 'w"
  wz_InstantiateWithConfig :: "string \<Rightarrow> string list \<Rightarrow> metadata \<Rightarrow> 'w \<Rightarrow> string option \<times> 'w"

record wasmInstance =
  wi_ID :: SandboxID
  wi_Request :: SandboxRequest
  wi_Config :: VMConfig
  wi_StartedAt :: go_time
  wi_FinishedAt :: go_time
  wi_ExitCode :: "int option"
  wi_LogPath :: string
  wi_ModulePath :: string

record ('h, 'w) WasmRuntime = "(wasmInstance, 'h) objects" +
  wa_WorkDir :: string
  wa_runtime :: 'w

definition NewWasmRuntime :: "string \<Rightarrow> 'w \<Rightarrow> 'h \<Rightarrow> ('h, 'w) WasmRuntime" where
  "NewWasmRuntime workDir rt h = \<lparr>ob_heap = [], ob_index = [], ob_host = h, wa_WorkDir = workDir, wa_runtime = rt\<rparr>"

definition runWasmModule :: "'w wazero \<Rightarrow> wasmInstance \<Rightarrow> 'w \<Rightarrow> int \<times> 'w" where
  "runWasmModule z inst w =
     (case wz_ReadFile z (wi_ModulePath inst) of
        Inl _ \<Rightarrow> (1, w)
      | Inr wasmBytes \<Rightarrow>
          (case wz_Instantiate z w of
             (Some _, w1) \<Rightarrow> (1, w1)
           | (None, w1) \<Rightarrow>
               (case wz_InstantiateWithConfig z wasmBytes (wi_ModulePath inst # req_Args (wi_Request inst)) (req_Env (wi_Request inst)) w1 of
                  (Some _, w2) \<Rightarrow> (1, w2)
                | (None, w2) \<Rightarrow> (0, w2))))"

text \<open>The goroutine of a launch: it runs the module and records how it ended.\<close>

definition wasm_finish :: "'w wazero \<Rightarrow> go_time \<Rightarrow> nat \<Rightarrow> ('h, 'w) WasmRuntime \<Rightarrow> ('h, 'w) WasmRuntime" where
  "wasm_finish z now p r =
     (case runWasmModule z (obj r p) (wa_runtime r) of
        (code, w) \<Rightarrow> Assign p (\<lambda>inst. inst\<lparr>wi_ExitCode := Some code, wi_FinishedAt := now\<rparr>) (r\<lparr>wa_runtime := w\<rparr>))"

text \<open>\<open>early\<close>: whether the module has ended when the launch looks again, 50 ms later.\<close>

definition wasm_start ::
    "'h os \<Rightarrow> 'w wazero \<Rightarrow> go_time \<Rightarrow> bool \<Rightarrow> SandboxRequest \<Rightarrow> VMConfig \<Rightarrow> string \<Rightarrow> ('h, 'w) WasmRuntime
     \<Rightarrow> (string + SandboxRun) \<times> ('h, 'w) WasmRuntime" where
  "wasm_start os z now early req cfg logPath r =
     (let p = length (ob_heap r);
          r1 = Store (req_ID req) \<lparr>wi_ID = req_ID req, wi_Request = req, wi_Config = cfg, wi_StartedAt = now, wi_FinishedAt = 0,
                 wi_ExitCode = None, wi_LogPath = logPath, wi_ModulePath = snap_Path (vm_Snapshot cfg)\<rparr> r;
          r2 = (if early then wasm_finish z now p r1 else r1);
          r3 = ignoring os (CloseFile logPath) r2
      in case wi_ExitCode (obj r3 p) of
           Some code \<Rightarrow> if code \<noteq> 0 then (Inl (''WASM module failed immediately with exit code '' @ itoa (nat code)), r3)
                        else (Inr (launched_run now req), r3)
         | None \<Rightarrow> (Inr (launched_run now req), r3))"

definition Wasm_Launch ::
    "'h os \<Rightarrow> 'w wazero \<Rightarrow> go_time \<Rightarrow> bool \<Rightarrow> SandboxRequest \<Rightarrow> VMConfig \<Rightarrow> ('h, 'w) WasmRuntime
     \<Rightarrow> (string + SandboxRun) \<times> ('h, 'w) WasmRuntime" where
  "Wasm_Launch os z now early req cfg r =
     (let instanceDir = wa_WorkDir r @ ''/wasm/'' @ req_ID req;
          modulePath = snap_Path (vm_Snapshot cfg);
          logPath = instanceDir @ ''/console.log''
      in attempt os (MkdirAll instanceDir) ''failed to create instance directory: ''
           (\<lambda>r. if modulePath = [] then (Inl ''no WASM module path specified in snapshot'', r)
                 else attempt os (StatPath modulePath) (''WASM module not found at '' @ modulePath @ '': '')
                        (attempt os (CreateFile logPath) ''failed to create log file: ''
                          (wasm_start os z now early req cfg logPath)) r) r)"

definition wasm_view :: "go_time \<Rightarrow> wasmInstance \<Rightarrow> SandboxRun" where
  "wasm_view now inst = zero_SandboxRun\<lparr>run_ID := wi_ID inst, run_RequestID := req_ID (wi_Request inst),
     run_NodeID := req_NodeID (wi_Request inst), run_Template := req_Template (wi_Request inst),
     run_Status := status_of_exit (wi_ExitCode inst), run_ExitCode := wi_ExitCode inst, run_StartedAt := wi_StartedAt inst,
     run_FinishedAt := wi_FinishedAt inst, run_CreatedAt := wi_StartedAt inst, run_UpdatedAt := now,
     run_Metadata := req_Metadata (wi_Request inst)\<rparr>"

definition unknown_sandbox :: "SandboxID \<Rightarrow> string" where
  "unknown_sandbox i = ''sandbox not found: '' @ i"

definition Wasm_Inspect :: "go_time \<Rightarrow> SandboxID \<Rightarrow> ('h, 'w) WasmRuntime \<Rightarrow> string + SandboxRun" where
  "Wasm_Inspect now i r = (case Load r i of None \<Rightarrow> Inl (unknown_sandbox i) | Some p \<Rightarrow> Inr (wasm_view now (obj r p)))"

definition Wasm_List :: "go_time \<Rightarrow> ('h, 'w) WasmRuntime \<Rightarrow> SandboxRun list" where
  "Wasm_List now r = map (wasm_view now) (entries r)"

definition Wasm_Kill :: "'h os \<Rightarrow> SandboxID \<Rightarrow> ('h, 'w) WasmRuntime \<Rightarrow> string option \<times> ('h, 'w) WasmRuntime" where
  "Wasm_Kill os i r =
     (case Load r i of
        None \<Rightarrow> (Some (unknown_sandbox i), r)
      | Some p \<Rightarrow> (None, Delete i (ignoring os (CancelContext p) r)))"

definition Wasm_ExecInteractive :: "SandboxID \<Rightarrow> string option" where
  "Wasm_ExecInteractive i = None"

definition Wasm_Pause :: "SandboxID \<Rightarrow> string option" where
  "Wasm_Pause i = Some ''pause not supported for WASM runtime''"

definition Wasm_Resume :: "SandboxID \<Rightarrow> string option" where
  "Wasm_Resume i = Some ''resume not supported for WASM runtime''"

definition Wasm_CreateSnapshot :: "SandboxID \<Rightarrow> string \<Rightarrow> string \<Rightarrow> string option" where
  "Wasm_CreateSnapshot i memPath diskPath = Some ''snapshots not supported for WASM runtime''"

definition Wasm_Shutdown :: "'h os \<Rightarrow> SandboxID \<Rightarrow> ('h, 'w) WasmRuntime \<Rightarrow> string option \<times> ('h, 'w) WasmRuntime" where
  "Wasm_Shutdown os i r = Wasm_Kill os i r"

definition Wasm_GetConfig :: "SandboxID \<Rightarrow> ('h, 'w) WasmRuntime \<Rightarrow> string + VMConfig \<times> SandboxRequest" where
  "Wasm_GetConfig i r = (case Load r i of None \<Rightarrow> Inl (unknown_sandbox i) | Some p \<Rightarrow> Inr (wi_Config (obj r p), wi_Request (obj r p)))"

definition Wasm_StreamLogs ::
    "'h os \<Rightarrow> (string \<Rightarrow> string option) \<Rightarrow> bool \<Rightarrow> (string + log_tick) list \<Rightarrow> string \<Rightarrow> SandboxID \<Rightarrow> ('h, 'w) WasmRuntime
     \<Rightarrow> (string option option \<times> string) \<times> ('h, 'w) WasmRuntime" where
  "Wasm_StreamLogs os w follow ts content i r =
     (case Load r i of
        None \<Rightarrow> ((Some (Some (unknown_sandbox i)), []), r)
      | Some p \<Rightarrow>
          (case command os (OpenFile (wi_LogPath (obj r p))) ''failed to open log file: '' r of
             (Some err, r1) \<Rightarrow> ((Some (Some err), []), r1)
           | (None, r1) \<Rightarrow> (copy_or_follow 4096 w follow ts content, r1)))"

definition Wasm_Allocation :: "('h, 'w) WasmRuntime \<Rightarrow> ResourceCapacity" where
  "Wasm_Allocation r = (let cnt = int (length (entries r)) in \<lparr>cap_CPU = cnt * 100, cap_Mem = cnt * 10, cap_GPU = 0\<rparr>)"

datatype wa_event =
    WA_Launch bool go_time SandboxRequest VMConfig
  | WA_Kill SandboxID
  | WA_Finish nat go_time

fun wa_step :: "'h os \<Rightarrow> 'w wazero \<Rightarrow> wa_event \<Rightarrow> ('h, 'w) WasmRuntime \<Rightarrow> ('h, 'w) WasmRuntime" where
  "wa_step os z (WA_Launch early now req cfg) r = snd (Wasm_Launch os z now early req cfg r)"
| "wa_step os z (WA_Kill i) r = snd (Wasm_Kill os i r)"
| "wa_step os z (WA_Finish p now) r =
     (if p < length (ob_heap r) \<and> wi_ExitCode (obj r p) = None then wasm_finish z now p r else r)"

definition Wasm_Wait ::
    "'h os \<Rightarrow> 'w wazero \<Rightarrow> (wa_event list \<times> string option) list \<Rightarrow> SandboxID \<Rightarrow> ('h, 'w) WasmRuntime
     \<Rightarrow> string option option \<times> ('h, 'w) WasmRuntime" where
  "Wasm_Wait os z ws i r =
     (case Load r i of
        None \<Rightarrow> (Some (Some (unknown_sandbox i)), r)
      | Some p \<Rightarrow> wait_loop (wa_step os z) (\<lambda>r. wi_ExitCode (obj r p) \<noteq> None) ws r)"

definition Wasm_Exec :: "SandboxID \<Rightarrow> string list \<Rightarrow> string option" where
  "Wasm_Exec i cmd = Some ''exec not supported for WASM runtime''"

section \<open>What each operation changes\<close>

lemma syscall_host: "syscall sys c s = (a, s') \<Longrightarrow> \<exists>h. s' = s\<lparr>ob_host := h\<rparr>"
  by (auto simp: syscall_def split: prod.splits)

lemma ignoring_host: "\<exists>h. ignoring sys c s = s\<lparr>ob_host := h\<rparr>"
  by (auto simp: ignoring_def syscall_def split: prod.splits)

lemma ignoring_hostE: obtains h where "ignoring sys c s = s\<lparr>ob_host := h\<rparr>"
  using ignoring_host [of sys c s] by (elim exE)

lemma command_host: "command sys c wrapped s = (r, s') \<Longrightarrow> \<exists>h. s' = s\<lparr>ob_host := h\<rparr>"
  by (auto simp: command_def split: prod.splits option.splits dest: syscall_host)

lemma attempt_cases:
  assumes "attempt sys c wrapped k s = (r, s')"
  obtains (failed) err h where "r = Inl err" "s' = s\<lparr>ob_host := h\<rparr>"
    | (went_on) h where "k (s\<lparr>ob_host := h\<rparr>) = (r, s')"
proof (cases "syscall sys c s")
  case (Pair a s1)
  then obtain h where "s1 = s\<lparr>ob_host := h\<rparr>" using syscall_host [OF Pair] by blast
  then show thesis using assms Pair failed went_on by (cases a) (auto simp: attempt_def)
qed

lemma start_runsc_cases:
  assumes "start_runsc os args bundlePath k s = (r, s')"
  obtains (failed) err h where "r = Inl err" "s' = s\<lparr>ob_host := h\<rparr>" | (went_on) h where "k (s\<lparr>ob_host := h\<rparr>) = (r, s')"
proof (cases "syscall os (StartProc args bundlePath (length (ob_heap s))) s")
  case (Pair a s1)
  then obtain h where s1: "s1 = s\<lparr>ob_host := h\<rparr>" using syscall_host [OF Pair] by blast
  show thesis
  proof (cases a)
    case None
    then show ?thesis using assms Pair s1 went_on by (simp add: start_runsc_def)
  next
    case (Some err)
    obtain h2 where h2: "ignoring os (CloseFile (bundlePath @ ''/console.log'')) s1 = s1\<lparr>ob_host := h2\<rparr>" by (rule ignoring_hostE)
    obtain h3 where h3: "ignoring os (RemoveAll bundlePath) (s1\<lparr>ob_host := h2\<rparr>) = s1\<lparr>ob_host := h2\<rparr>\<lparr>ob_host := h3\<rparr>"
      by (rule ignoring_hostE)
    have "r = Inl (''failed to start runsc: '' @ err)" "s' = s\<lparr>ob_host := h3\<rparr>"
      using assms Pair Some s1 h2 h3 by (auto simp: start_runsc_def)
    then show ?thesis by (rule failed)
  qed
qed

lemma launch_runsc_cases:
  assumes "in_bundle os bundlePath spec (start_runsc os args bundlePath k) s = (r, s')"
  obtains (failed) err h where "r = Inl err" "s' = s\<lparr>ob_host := h\<rparr>" | (started) h where "k (s\<lparr>ob_host := h\<rparr>) = (r, s')"
  using assms unfolding in_bundle_def by (elim attempt_cases start_runsc_cases) (auto intro: failed started)

lemma GVisor_Launch_cases:
  assumes "GVisor_Launch os now req cfg g = (r, g')"
  obtains (failed) err h where "r = Inl err" "g' = g\<lparr>ob_host := h\<rparr>"
    | (started) c h where "r = Inr (launched_run now req)" "g' = Store (req_ID req) c (g\<lparr>ob_host := h\<rparr>)"
        "gc_ID c = req_ID req" "gc_Request c = req" "gc_Config c = cfg" "gc_ExitCode c = None"
  using assms unfolding GVisor_Launch_def Let_def by (elim launch_runsc_cases) (auto intro: failed started)

lemma runsc_kill_hostE:
  obtains h where "runsc_kill os runscPath sandboxID bundlePath p s = s\<lparr>ob_host := h\<rparr>"
proof -
  let ?kill = "RunProc [runscPath, ''kill'', sandboxID, ''KILL'']"
  obtain a s0 where kill: "syscall os ?kill s = (a, s0)" by (cases "syscall os ?kill s")
  obtain h0 where s0: "s0 = s\<lparr>ob_host := h0\<rparr>" using syscall_host [OF kill] by blast
  have more: "\<exists>h. ignoring os c (s\<lparr>ob_host := k\<rparr>) = s\<lparr>ob_host := h\<rparr>" for c k
    using ignoring_host [of os c "s\<lparr>ob_host := k\<rparr>"] by auto
  obtain h1 where h1: "(case syscall os ?kill s of (Some _, s') \<Rightarrow> ignoring os (Signal p) s' | (None, s') \<Rightarrow> s') = s\<lparr>ob_host := h1\<rparr>"
    using kill s0 more [of "Signal p" h0] by (cases a) auto
  obtain h2 where h2: "ignoring os (RunProc [runscPath, ''delete'', ''--force'', sandboxID]) (s\<lparr>ob_host := h1\<rparr>) = s\<lparr>ob_host := h2\<rparr>"
    using more by blast
  obtain h3 where "ignoring os (RemoveAll bundlePath) (s\<lparr>ob_host := h2\<rparr>) = s\<lparr>ob_host := h3\<rparr>" using more by blast
  then have "runsc_kill os runscPath sandboxID bundlePath p s = s\<lparr>ob_host := h3\<rparr>" using h1 h2 by (simp add: runsc_kill_def Let_def)
  then show thesis by (rule that)
qed

lemma GVisor_Kill_result:
  obtains h where "GVisor_Kill os i g = (None, if tracks g i then Delete i (g\<lparr>ob_host := h\<rparr>) else g)"
proof (cases "Load g i")
  case None
  then show thesis using that by (simp add: GVisor_Kill_def tracks_def)
next
  case (Some p)
  obtain h where "runsc_kill os (gv_RunscPath g) (gc_SandboxID (obj g p)) (gc_BundlePath (obj g p)) p g = g\<lparr>ob_host := h\<rparr>"
    by (rule runsc_kill_hostE)
  then show thesis using that [of h] Some by (simp add: GVisor_Kill_def tracks_def)
qed

text \<open>The host's state does not matter to the objects.\<close>

lemma host_irrelevant [objects_simps]:
  "Load (s\<lparr>ob_host := h\<rparr>) i = Load s i" "obj (s\<lparr>ob_host := h\<rparr>) p = obj s p" "tracks (s\<lparr>ob_host := h\<rparr>) i = tracks s i"
  "objects_ok ident (s\<lparr>ob_host := h\<rparr>) = objects_ok ident s" "entries (s\<lparr>ob_host := h\<rparr>) = entries s"
  by (simp_all add: Load_def obj_def tracks_def objects_ok_def entries_def)

lemma tracks_updates [objects_simps]:
  "tracks (Store i x s) j \<longleftrightarrow> j = i \<or> tracks s j" "tracks (Delete i s) j \<longleftrightarrow> j \<noteq> i \<and> tracks s j"
  "tracks (Assign p f s) j \<longleftrightarrow> tracks s j"
  by (auto simp: tracks_def objects_simps)

lemma obj_Delete [objects_simps]: "obj (Delete i s) p = obj s p"
  by (simp add: obj_def Delete_def)

text \<open>How the heap evolves: no object goes away, and only an open exit code is written.\<close>

definition evolves :: "('o \<Rightarrow> 'e option) \<Rightarrow> ('o, 'h, 'm) objects_scheme \<Rightarrow> ('o, 'h, 'm) objects_scheme \<Rightarrow> bool" where
  "evolves exit s s' \<longleftrightarrow> length (ob_heap s) \<le> length (ob_heap s') \<and>
     (\<forall>p < length (ob_heap s). exit (obj s p) \<noteq> None \<longrightarrow> obj s' p = obj s p)"

lemma evolves_refl [simp]: "evolves exit s s"
  by (simp add: evolves_def)

lemma evolves_trans: "evolves exit s s' \<Longrightarrow> evolves exit s' s'' \<Longrightarrow> evolves exit s s''"
  unfolding evolves_def by (metis order_less_le_trans order_trans)

lemma evolves_Store: "evolves exit s (Store i x (s\<lparr>ob_host := h\<rparr>))"
  by (simp add: evolves_def Store_def obj_def nth_append)

lemma evolves_Delete: "evolves exit s (Delete i (s\<lparr>ob_host := h\<rparr>))"
  by (simp add: evolves_def Delete_def obj_def)

lemma evolves_host: "evolves exit s (s\<lparr>ob_host := h\<rparr>)"
  by (simp add: evolves_def obj_def)

lemma evolves_Assign: "p < length (ob_heap s) \<Longrightarrow> exit (obj s p) = None \<Longrightarrow> evolves exit s (Assign p f (s\<lparr>ob_host := h\<rparr>))"
  by (auto simp: evolves_def Assign_def obj_def nth_list_update)

lemma gv_step_invariant:
  assumes "objects_ok gc_ID g"
  shows "objects_ok gc_ID (gv_step os e g) \<and> evolves gc_ExitCode g (gv_step os e g)"
proof (cases e)
  case (GV_Launch now req cfg)
  obtain r g' where launch: "GVisor_Launch os now req cfg g = (r, g')" by (cases "GVisor_Launch os now req cfg g")
  then show ?thesis
    by (cases rule: GVisor_Launch_cases)
       (use GV_Launch launch assms in \<open>auto simp: objects_simps intro!: objects_ok_Store evolves_Store evolves_host\<close>)
next
  case (GV_Kill i)
  obtain h where "GVisor_Kill os i g = (None, if tracks g i then Delete i (g\<lparr>ob_host := h\<rparr>) else g)" by (rule GVisor_Kill_result)
  then show ?thesis using GV_Kill assms by (auto simp: objects_simps intro!: objects_ok_Delete evolves_Delete)
next
  case (GV_Exit p en)
  obtain h where "ignoring os (CloseFile (gc_BundlePath (obj g p) @ ''/console.log'')) g = g\<lparr>ob_host := h\<rparr>" by (rule ignoring_hostE)
  then show ?thesis using GV_Exit assms
    by (auto simp: gvisor_exited_def objects_simps intro!: objects_ok_Assign evolves_Assign)
qed

lemma gv_steps_invariant:
  "objects_ok gc_ID g \<Longrightarrow> objects_ok gc_ID (gv_steps os es g) \<and> evolves gc_ExitCode g (gv_steps os es g)"
proof (induction es arbitrary: g)
  case Nil
  then show ?case by (simp add: gv_steps_def)
next
  case (Cons e es)
  have "gv_steps os (e # es) g = gv_steps os es (gv_step os e g)" by (simp add: gv_steps_def)
  then show ?case using gv_step_invariant [OF Cons.prems] Cons.IH evolves_trans by metis
qed

lemma gv_steps_append: "gv_steps os (es @ es') g = gv_steps os es' (gv_steps os es g)"
  by (simp add: gv_steps_def)

lemma NewGVisorRuntime_ok: "objects_ok ident (NewGVisorRuntime os runscPath rootDir h)"
  by (simp add: NewGVisorRuntime_def objects_ok_def split: prod.splits)

text \<open>
  Shutting down always comes to an end: the loop returns at the latest when its timer fires, and
  it reports success only when the process it was watching has ended or the runtime has let go
  of the sandbox.
\<close>

lemma shutdown_loop_returns:
  assumes "TimedOut \<in> snd ` set ws"
  shows "\<exists>r g'. shutdown_loop os i p ws g = (Some r, g') \<and> (r = None \<longrightarrow> gc_ExitCode (obj g' p) \<noteq> None \<or> \<not> tracks g' i)"
  using assms
proof (induction ws arbitrary: g)
  case Nil
  then show ?case by simp
next
  case (Cons x ws)
  obtain es w where x: "x = (es, w)" by (cases x)
  let ?g = "gv_steps os es g"
  show ?case
  proof (cases w)
    case TimedOut
    obtain h where "GVisor_Kill os i ?g = (None, if tracks ?g i then Delete i (?g\<lparr>ob_host := h\<rparr>) else ?g)" by (rule GVisor_Kill_result)
    then show ?thesis using x TimedOut by (auto simp: objects_simps)
  next
    case Ticked
    then have "TimedOut \<in> snd ` set ws" using Cons.prems x by auto
    then show ?thesis using x Ticked Cons.IH by (auto simp: Let_def)
  qed (simp add: x)
qed

text \<open>A wait ends with the process: at the first tick after the exit code is known, and not before.\<close>

lemma wait_loop_exact:
  "wait_loop step ended ws s = (Some None, s') \<Longrightarrow> ended s'"
  by (induction step ended ws s rule: wait_loop.induct) (auto simp: Let_def split: option.splits if_splits)

section \<open>Followed logs are complete\<close>











text \<open>
  Two looks in one turn are not atomic: what the process writes after the read and before it ends,
  when both fall between the read and the look at the exit code, is never sent.
\<close>

lemma follow_loses_tail:
  assumes "w = (\<lambda>chunk. None)"
  shows "follow_loop buf w [Inr \<lparr>tk_before = [], tk_between = tail, tk_error = None, tk_exited = True\<rparr>] [] out = (Some None, out)"
  by simp

section \<open>The backends behind the routing interface\<close>

lemma Wasm_finish_tracks: "tracks (wasm_finish z now p r) = tracks r"
  by (auto simp: wasm_finish_def tracks_def Assign_def Load_def split: prod.splits)

lemma Load_ignoring [objects_simps]: "Load (ignoring sys c s) i = Load s i"
  by (simp add: Load_def objects_simps)

lemma ignoring_tracks: "tracks (ignoring sys c s) = tracks s"
  by (auto simp: tracks_def Load_def objects_simps)

lemma wasm_start_tracks:
  "tracks (snd (wasm_start os z now early req cfg logPath r)) j \<longleftrightarrow> j = req_ID req \<or> tracks r j"
proof -
  have "tracks (snd (wasm_start os z now early req cfg logPath r)) j =
    tracks (Store (req_ID req) \<lparr>wi_ID = req_ID req, wi_Request = req, wi_Config = cfg, wi_StartedAt = now, wi_FinishedAt = 0,
                 wi_ExitCode = None, wi_LogPath = logPath, wi_ModulePath = snap_Path (vm_Snapshot cfg)\<rparr> r) j"
    by (simp add: wasm_start_def Let_def ignoring_tracks Wasm_finish_tracks split: option.split)
  then show ?thesis by (simp add: objects_simps)
qed

lemma Wasm_Launch_tracks:
  assumes "Wasm_Launch os z now early req cfg r = (Inr run, r')"
  shows "tracks r' j \<longleftrightarrow> tracks r j \<or> j = req_ID req"
proof -
  let ?log = "wa_WorkDir r @ ''/wasm/'' @ req_ID req @ ''/console.log''"
  obtain h where "wasm_start os z now early req cfg ?log (r\<lparr>ob_host := h\<rparr>) = (Inr run, r')"
    using assms unfolding Wasm_Launch_def Let_def append.assoc
    by (elim attempt_cases) (auto split: if_splits elim!: attempt_cases)
  then have "r' = snd (wasm_start os z now early req cfg ?log (r\<lparr>ob_host := h\<rparr>))" by simp
  then show ?thesis by (auto simp: wasm_start_tracks objects_simps)
qed

text \<open>
  A shutdown's timer fires in the end, whatever else wakes it before: its loop returns, and the
  interface sees the answer.
\<close>

definition gvisor_ops :: "'h os \<Rightarrow> go_time \<Rightarrow> (gv_event list \<times> wake) list \<Rightarrow> 'h GVisorRuntime SandboxRuntime" where
  "gvisor_ops os now ws =
     \<lparr>rt_Launch = GVisor_Launch os now, rt_Inspect = (\<lambda>i g. (GVisor_Inspect now i g, g)), rt_List = \<lambda>g. Inr (GVisor_List now g),
      rt_Kill = GVisor_Kill os, rt_Pause = GVisor_Pause os, rt_Resume = GVisor_Resume os,
      rt_Shutdown = (\<lambda>i g. case GVisor_Shutdown os (ws @ [([], TimedOut)]) i g of (r, g') \<Rightarrow> (Option.bind r id, g')),
      rt_GetConfig = GVisor_GetConfig, rt_Allocation = \<lambda>g. Inr (GVisor_Allocation g)\<rparr>"

definition wasm_ops :: "'h os \<Rightarrow> 'w wazero \<Rightarrow> go_time \<Rightarrow> bool \<Rightarrow> ('h, 'w) WasmRuntime SandboxRuntime" where
  "wasm_ops os z now early =
     \<lparr>rt_Launch = Wasm_Launch os z now early, rt_Inspect = (\<lambda>i r. (Wasm_Inspect now i r, r)), rt_List = \<lambda>r. Inr (Wasm_List now r),
      rt_Kill = Wasm_Kill os, rt_Pause = (\<lambda>i r. (Wasm_Pause i, r)), rt_Resume = (\<lambda>i r. (Wasm_Resume i, r)),
      rt_Shutdown = Wasm_Shutdown os, rt_GetConfig = Wasm_GetConfig, rt_Allocation = \<lambda>r. Inr (Wasm_Allocation r)\<rparr>"

interpretation gvisor: sandbox_runtime "gvisor_ops os now ws" tracks for os :: "'h os" and now ws
proof
  fix g g' :: "'h GVisorRuntime" and i j :: SandboxID and req cfg run err
  show "tracks g i \<Longrightarrow> \<exists>run r'. rt_Inspect (gvisor_ops os now ws) i g = (Inr run, r')"
    by (auto simp: gvisor_ops_def GVisor_Inspect_def tracks_def)
  show "\<not> tracks g i \<Longrightarrow> \<exists>err r'. rt_Inspect (gvisor_ops os now ws) i g = (Inl err, r')"
    by (simp add: gvisor_ops_def GVisor_Inspect_def tracks_def)
  show "tracks (snd (rt_Inspect (gvisor_ops os now ws) i g)) = tracks g" by (simp add: gvisor_ops_def)
  show "rt_Launch (gvisor_ops os now ws) req cfg g = (Inr run, g') \<Longrightarrow> tracks g' j = (tracks g j \<or> j = req_ID req)"
    by (auto simp: gvisor_ops_def objects_simps elim: GVisor_Launch_cases)
  show "rt_Launch (gvisor_ops os now ws) req cfg g = (Inl err, g') \<Longrightarrow> tracks g' = tracks g"
    by (auto simp: gvisor_ops_def objects_simps fun_eq_iff elim: GVisor_Launch_cases)
  obtain h where kill: "GVisor_Kill os i g = (None, if tracks g i then Delete i (g\<lparr>ob_host := h\<rparr>) else g)" by (rule GVisor_Kill_result)
  show "tracks g i \<Longrightarrow> fst (rt_Kill (gvisor_ops os now ws) i g) = None" using kill by (simp add: gvisor_ops_def)
  show "tracks (snd (rt_Kill (gvisor_ops os now ws) i g)) j = (tracks g j \<and> (j = i \<longrightarrow> fst (rt_Kill (gvisor_ops os now ws) i g) \<noteq> None))"
    using kill by (auto simp: gvisor_ops_def objects_simps)
qed

interpretation wasm: sandbox_routing "wasm_ops os z now early" tracks for os :: "'h os" and z :: "'w wazero" and now early
proof
  fix r r' :: "('h, 'w) WasmRuntime" and i j :: SandboxID and req cfg run
  show "tracks r i \<Longrightarrow> \<exists>run r'. rt_Inspect (wasm_ops os z now early) i r = (Inr run, r')"
    by (auto simp: wasm_ops_def Wasm_Inspect_def tracks_def)
  show "\<not> tracks r i \<Longrightarrow> \<exists>err r'. rt_Inspect (wasm_ops os z now early) i r = (Inl err, r')"
    by (simp add: wasm_ops_def Wasm_Inspect_def tracks_def)
  show "tracks (snd (rt_Inspect (wasm_ops os z now early) i r)) = tracks r" by (simp add: wasm_ops_def)
  show "rt_Launch (wasm_ops os z now early) req cfg r = (Inr run, r') \<Longrightarrow> tracks r' j = (tracks r j \<or> j = req_ID req)"
    by (simp add: wasm_ops_def Wasm_Launch_tracks)
  show "tracks r i \<Longrightarrow> fst (rt_Kill (wasm_ops os z now early) i r) = None"
    by (auto simp: wasm_ops_def Wasm_Kill_def tracks_def split: option.split)
  show "tracks (snd (rt_Kill (wasm_ops os z now early) i r)) j =
      (tracks r j \<and> (j = i \<longrightarrow> fst (rt_Kill (wasm_ops os z now early) i r) \<noteq> None))"
    by (auto simp: wasm_ops_def Wasm_Kill_def objects_simps ignoring_tracks tracks_def split: option.split)
qed

text \<open>
  C21: Waiting operations of the gVisor runtime end, and what they report is true. A graceful
  shutdown, whatever other goroutines launch, kill or see exit in between and whichever wake-ups
  come first, returns at the latest when its 30-second timer fires; if it then reports success,
  the process it was asked to stop has exited or the runtime no longer has the sandbox. A wait
  that reports success does so with the exit code known.
\<close>

theorem shutdown_returns:
  assumes "TimedOut \<in> snd ` set ws"
  shows "(\<exists>r g'. GVisor_Shutdown os ws i g = (Some r, g') \<and>
      (r = None \<longrightarrow> (\<exists>p. Load g i = Some p \<and> (gc_ExitCode (obj g' p) \<noteq> None \<or> \<not> tracks g' i)))) \<and>
    (\<forall>vs g'. GVisor_Wait os vs i g = (Some None, g') \<longrightarrow> (\<exists>p. Load g i = Some p \<and> gc_ExitCode (obj g' p) \<noteq> None))"
proof
  show "\<exists>r g'. GVisor_Shutdown os ws i g = (Some r, g') \<and>
      (r = None \<longrightarrow> (\<exists>p. Load g i = Some p \<and> (gc_ExitCode (obj g' p) \<noteq> None \<or> \<not> tracks g' i)))"
  proof (cases "Load g i")
    case (Some p)
    let ?signal = "command os (RunProc [gv_RunscPath g, ''kill'', gc_SandboxID (obj g p), ''TERM'']) ''failed to send SIGTERM: '' g"
    obtain err g1 where sig: "?signal = (err, g1)" by (cases ?signal)
    show ?thesis
    proof (cases err)
      case None
      then show ?thesis using shutdown_loop_returns [OF assms, of os i p g1] Some sig by (auto simp: GVisor_Shutdown_def)
    qed (simp add: GVisor_Shutdown_def Some sig)
  qed (simp add: GVisor_Shutdown_def)
  show "\<forall>vs g'. GVisor_Wait os vs i g = (Some None, g') \<longrightarrow> (\<exists>p. Load g i = Some p \<and> gc_ExitCode (obj g' p) \<noteq> None)"
    by (auto simp: GVisor_Wait_def dest: wait_loop_exact split: option.splits)
qed

text \<open>A system that records the calls made to it, and a gVisor runtime with one sandbox on it.\<close>

definition recording :: "os_call list os" where
  "recording c h = (None, h @ [c])"

definition demo_gvisor :: "os_call list GVisorRuntime" where
  "demo_gvisor = snd (GVisor_Launch recording 7 (zero_SandboxRequest\<lparr>req_ID := ''x''\<rparr>) demo_config
     (NewGVisorRuntime recording [] [] []))"

theorem shutdown_returns_witness:
  "\<exists>r g'. GVisor_Shutdown recording [([], Ticked), ([GV_Exit 0 Clean], TimedOut)] ''x'' demo_gvisor = (Some r, g')"
  using shutdown_returns [of "[([], Ticked), ([GV_Exit 0 Clean], TimedOut)]" recording "''x''" demo_gvisor] by auto






text \<open>
  What the gVisor runtime knows stays consistent under every interleaving of launches, kills
  and exits: each entry of the map leads to the container launched under that identifier, and an
  exit code, once recorded, is never changed or lost, even when the sandbox has been killed and
  its identifier launched again, so a wait that holds the old container is not misled.
\<close>

theorem exit_codes_final:
  assumes "g = gv_steps os es (NewGVisorRuntime os runscPath rootDir h)"
  shows "(\<forall>i p. Load g i = Some p \<longrightarrow> p < length (ob_heap g) \<and> gc_ID (obj g p) = i) \<and>
    (\<forall>p code es'. p < length (ob_heap g) \<longrightarrow> gc_ExitCode (obj g p) = Some code \<longrightarrow> gc_ExitCode (obj (gv_steps os es' g) p) = Some code)"
proof -
  have ok: "objects_ok gc_ID g" unfolding assms by (rule conjunct1 [OF gv_steps_invariant [OF NewGVisorRuntime_ok]])
  have "gc_ExitCode (obj (gv_steps os es' g) p) = Some code"
    if "p < length (ob_heap g)" "gc_ExitCode (obj g p) = Some code" for p code es'
    using gv_steps_invariant [OF ok, of os es'] that by (auto simp: evolves_def)
  with objects_okD [OF ok] show ?thesis by blast
qed

lemma demo_gvisor_steps:
  "demo_gvisor = gv_steps recording [GV_Launch 7 (zero_SandboxRequest\<lparr>req_ID := ''x''\<rparr>) demo_config] (NewGVisorRuntime recording [] [] [])"
  by (simp add: demo_gvisor_def gv_steps_def)

lemma demo_gvisor_shape: "length (ob_heap demo_gvisor) = 1" "gc_ExitCode (obj demo_gvisor 0) = None"
  by (simp_all add: demo_gvisor_def GVisor_Launch_def NewGVisorRuntime_def recording_def attempt_def syscall_def start_runsc_def in_bundle_def
      Store_def obj_def Let_def)

theorem exit_codes_final_witness:
  "gc_ExitCode (obj (gv_steps recording [GV_Kill ''x'', GV_Launch 8 (zero_SandboxRequest\<lparr>req_ID := ''x''\<rparr>) demo_config]
     (gv_steps recording [GV_Exit 0 (ExitStatus 3)] demo_gvisor)) 0) = Some 3"
proof -
  let ?g = "gv_steps recording [GV_Exit 0 (ExitStatus 3)] demo_gvisor"
  have "0 < length (ob_heap ?g) \<and> gc_ExitCode (obj ?g 0) = Some 3"
    by (simp add: gv_steps_def demo_gvisor_shape gvisor_exited_def objects_simps exit_code_of_def)
  moreover have "?g = gv_steps recording ([GV_Launch 7 (zero_SandboxRequest\<lparr>req_ID := ''x''\<rparr>) demo_config] @ [GV_Exit 0 (ExitStatus 3)])
      (NewGVisorRuntime recording [] [] [])"
    unfolding gv_steps_append demo_gvisor_steps ..
  ultimately show ?thesis using exit_codes_final [of ?g] by blast
qed

section \<open>Behaviours worth knowing\<close>

text \<open>A kill succeeds and forgets the sandbox even when nothing could be killed or deleted.\<close>

lemma kill_forgets_unkilled:
  assumes "tracks g i"
  shows "fst (GVisor_Kill (\<lambda>c h. (Some ''refused'', h)) i g) = None"
    "\<not> tracks (snd (GVisor_Kill (\<lambda>c h. (Some ''refused'', h)) i g)) i"
proof -
  obtain h where "GVisor_Kill (\<lambda>c h. (Some ''refused'', h)) i g = (None, if tracks g i then Delete i (g\<lparr>ob_host := h\<rparr>) else g)"
    by (rule GVisor_Kill_result)
  then show "fst (GVisor_Kill (\<lambda>c h. (Some ''refused'', h)) i g) = None"
    "\<not> tracks (snd (GVisor_Kill (\<lambda>c h. (Some ''refused'', h)) i g)) i"
    using assms by (simp_all add: objects_simps)
qed

text \<open>
  A second launch under an identifier in use shares the bundle directory of the first; when its
  process cannot be started the directory is removed under the running sandbox.
\<close>

lemma failed_relaunch_removes_bundle:
  "\<exists>g'. GVisor_Launch (\<lambda>c h. (case c of StartProc _ _ _ \<Rightarrow> Some ''in use'' | _ \<Rightarrow> None, h @ [c])) 8
        (zero_SandboxRequest\<lparr>req_ID := ''x''\<rparr>) demo_config demo_gvisor = (Inl ''failed to start runsc: in use'', g') \<and>
     tracks g' ''x'' \<and> RemoveAll (gc_BundlePath (obj g' 0)) \<in> set (ob_host g')"
  by (simp add: demo_gvisor_def GVisor_Launch_def NewGVisorRuntime_def recording_def attempt_def syscall_def start_runsc_def in_bundle_def
      objects_simps zero_SandboxRequest_def Let_def ignoring_def obj_def Store_def tracks_def Load_def)

lemma itoa_one: "itoa (Suc 0) = ''1''"
  by code_simp

text \<open>A WASM launch that fails at once leaves its instance in the map, where the allocation goes on counting it.\<close>

lemma wasm_failed_launch_leaks:
  "\<exists>r. Wasm_Launch recording \<lparr>wz_ReadFile = (\<lambda>_. Inl ''gone''), wz_Instantiate = Pair None, wz_InstantiateWithConfig = (\<lambda>_ _ _. Pair None)\<rparr>
         7 True (zero_SandboxRequest\<lparr>req_ID := ''x''\<rparr>) demo_config (NewWasmRuntime ''/w'' () []) =
       (Inl ''WASM module failed immediately with exit code 1'', r) \<and> tracks r ''x'' \<and> cap_Mem (Wasm_Allocation r) = 10"
  by (simp add: Wasm_Launch_def wasm_start_def wasm_finish_def runWasmModule_def NewWasmRuntime_def recording_def attempt_def syscall_def
      ignoring_def demo_config_def zero_SandboxRequest_def Let_def tracks_def Load_def Store_def Assign_def obj_def entries_def
      Wasm_Allocation_def put_def itoa_one)

text \<open>
  Every module instantiates WASI into the one engine again. The engine's documentation says that
  a module name in use is refused; then, once one module has reached the engine, every later
  one is recorded as failed with exit code 1 without having run.
\<close>

lemma later_modules_fail:
  assumes "\<And>w w'. wz_Instantiate z w = (None, w') \<Longrightarrow> in_use w'"
    and "\<And>w. in_use w \<Longrightarrow> fst (wz_Instantiate z w) \<noteq> None"
    and "\<And>bytes args env w. in_use w \<Longrightarrow> in_use (snd (wz_InstantiateWithConfig z bytes args env w))"
    and "runWasmModule z inst w = (0, w')"
  shows "fst (runWasmModule z inst' w') = 1"
proof -
  let ?run = "\<lambda>bytes. wz_InstantiateWithConfig z bytes (wi_ModulePath inst # req_Args (wi_Request inst)) (req_Env (wi_Request inst))"
  obtain bytes w1 where first: "wz_Instantiate z w = (None, w1)" "?run bytes w1 = (None, w')"
    using assms(4) by (auto simp: runWasmModule_def split: sum.splits prod.splits option.splits)
  then have "in_use (snd (?run bytes w1))" using assms(1) by (intro assms(3))
  then have "in_use w'" using first by simp
  then have "fst (wz_Instantiate z w') \<noteq> None" by (rule assms(2))
  then show ?thesis by (auto simp: runWasmModule_def split: sum.splits prod.splits option.splits)
qed

end
