(* ===== verification/Typhon.thy ===== *)
theory Typhon
  imports Domain "HOL-Library.Char_ord" "HOL-Library.List_Lexorder"
begin

text \<open>
  Isolation of risky workloads (\<open>src/pkg/typhon\<close>): the quarantine managers (\<open>quarantine.go\<close>,
  \<open>hardened_manager.go\<close>), the classifier that quarantines by rules (\<open>classifier.go\<close>), the seccomp
  profiles and their generator (\<open>seccomp.go\<close>, \<open>seccomp_gen.go\<close>) and the analysis of a system call trace
  (\<open>strace.go\<close>).

  The hardened manager wraps any manager, so the managers are records of operations and the locale
  \<open>quarantine_manager\<close> says what they promise. Its log of security events is part of its state. Reading a
  pointer that is nil is a panic, the result \<open>None\<close>. Conditions are evaluated by the CEL library, an
  argument. The files of the directory \<open>profiles\<close>, which the build embeds, are transcribed. Metrics and
  the other log lines are left out.
\<close>

section \<open>Requests, records, policies\<close>

record Evidence =
  evd_Type :: string
  evd_Description :: string
  evd_Data :: string
  evd_Timestamp :: go_time

record QuarantineRequest =
  qr_SandboxID :: string
  qr_Reason :: string
  qr_Evidence :: "Evidence list"
  qr_RequestedBy :: string
  qr_AutoQuarantine :: bool
  qr_Hardened :: bool

datatype QuarantineStatus = QStatusActive | QStatusExamining | QStatusReleased | QStatusDestroyed

record QuarantineRecord =
  qc_SandboxID :: string
  qc_Reason :: string
  qc_QuarantinedAt :: go_time
  qc_QuarantinedBy :: string
  qc_Evidence :: "Evidence list"
  qc_Node :: string
  qc_Status :: QuarantineStatus
  qc_ExaminationCount :: int

record NetworkOverride =
  no_NetworkMode :: string
  no_AllowedEgress :: "string list"
  no_Justification :: string

record SecurityOverride =
  so_SeccompProfile :: string
  so_Justification :: string

record ReleaseApproval =
  ra_ApprovedBy :: string
  ra_Reason :: string
  ra_Conditions :: "string list"
  ra_ExpiresAt :: "go_time option"
  ra_NetworkOverride :: "NetworkOverride option"
  ra_SecurityOverride :: "SecurityOverride option"

record AutoQuarantineTrigger =
  at_Condition :: string
  at_Reason :: string
  at_Enabled :: bool

record QuarantineStorageConfig =
  st_IsolatedDir :: string
  st_UseSnapshotIsolation :: bool
  st_SnapshotPrefix :: string

record QuarantineIsolation =
  qi_NetworkMode :: string
  qi_AllowedEgress :: "string list"
  qi_SeccompProfile :: string
  qi_StorageBackend :: string
  qi_StorageConfig :: "QuarantineStorageConfig option"
  qi_EnableStrace :: bool
  qi_EnableAuditd :: bool
  qi_RecordNetwork :: bool

record QuarantinePolicy =
  qp_AutoTriggers :: "AutoQuarantineTrigger list"
  qp_QuarantineNodes :: "string list"
  qp_Isolation :: QuarantineIsolation
  qp_DefaultNetworkMode :: string
  qp_MaxQuarantineDuration :: duration

record QuarantineFilter =
  qf_Status :: "QuarantineStatus option"
  qf_Reason :: string
  qf_From :: go_time
  qf_To :: go_time
  qf_SandboxID :: string

record ExaminationReport =
  xr_SandboxID :: string
  xr_ExaminedAt :: go_time
  xr_Recommendation :: string

section \<open>The interface and the in-memory manager\<close>

record 'q QuarantineManager =
  qo_Quarantine :: "go_time \<Rightarrow> QuarantineRequest \<Rightarrow> 'q \<Rightarrow> (string + QuarantineRecord) \<times> 'q"
  qo_Release :: "string \<Rightarrow> ReleaseApproval option \<Rightarrow> 'q \<Rightarrow> string option \<times> 'q"
  qo_Examine :: "go_time \<Rightarrow> string \<Rightarrow> 'q \<Rightarrow> string + ExaminationReport"
  qo_ListQuarantined :: "QuarantineFilter option \<Rightarrow> 'q \<Rightarrow> string + QuarantineRecord list"
  qo_SetPolicy :: "QuarantinePolicy \<Rightarrow> 'q \<Rightarrow> string option \<times> 'q"

record InMemoryQuarantineManager =
  qm_records :: "(string, QuarantineRecord) gomap"
  qm_policy :: QuarantinePolicy

definition zero_QuarantinePolicy :: QuarantinePolicy where
  "zero_QuarantinePolicy = \<lparr>qp_AutoTriggers = [], qp_QuarantineNodes = [], qp_Isolation =
     \<lparr>qi_NetworkMode = [], qi_AllowedEgress = [], qi_SeccompProfile = [], qi_StorageBackend = [], qi_StorageConfig = None,
      qi_EnableStrace = False, qi_EnableAuditd = False, qi_RecordNetwork = False\<rparr>,
     qp_DefaultNetworkMode = [], qp_MaxQuarantineDuration = 0\<rparr>"

definition NewInMemoryQuarantineManager :: InMemoryQuarantineManager where
  "NewInMemoryQuarantineManager = \<lparr>qm_records = [], qm_policy = zero_QuarantinePolicy\<rparr>"

definition mem_Quarantine ::
    "go_time \<Rightarrow> QuarantineRequest \<Rightarrow> InMemoryQuarantineManager \<Rightarrow> (string + QuarantineRecord) \<times> InMemoryQuarantineManager" where
  "mem_Quarantine now req m =
     (let record = \<lparr>qc_SandboxID = qr_SandboxID req, qc_Reason = qr_Reason req, qc_QuarantinedAt = now,
            qc_QuarantinedBy = qr_RequestedBy req, qc_Evidence = qr_Evidence req, qc_Node = [], qc_Status = QStatusActive,
            qc_ExaminationCount = 0\<rparr>
      in (Inr record, m\<lparr>qm_records := put (qm_records m) (qr_SandboxID req) record\<rparr>))"

definition mem_Release ::
    "string \<Rightarrow> ReleaseApproval option \<Rightarrow> InMemoryQuarantineManager \<Rightarrow> string option \<times> InMemoryQuarantineManager" where
  "mem_Release i approval m =
     (case get (qm_records m) i of
        Some record \<Rightarrow> (None, m\<lparr>qm_records := put (qm_records m) i (record\<lparr>qc_Status := QStatusReleased\<rparr>)\<rparr>)
      | None \<Rightarrow> (None, m))"

definition mem_Examine :: "go_time \<Rightarrow> string \<Rightarrow> InMemoryQuarantineManager \<Rightarrow> string + ExaminationReport" where
  "mem_Examine now i m = Inr \<lparr>xr_SandboxID = i, xr_ExaminedAt = now, xr_Recommendation = ''monitor''\<rparr>"

definition mem_ListQuarantined ::
    "QuarantineFilter option \<Rightarrow> InMemoryQuarantineManager \<Rightarrow> string + QuarantineRecord list" where
  "mem_ListQuarantined flt m =
     Inr (filter (\<lambda>r. case flt of
                        None \<Rightarrow> True
                      | Some f \<Rightarrow> (qf_SandboxID f = [] \<or> qc_SandboxID r = qf_SandboxID f) \<and>
                                  (case qf_Status f of None \<Rightarrow> True | Some s \<Rightarrow> qc_Status r = s))
            (map snd (qm_records m)))"

definition mem_SetPolicy :: "QuarantinePolicy \<Rightarrow> InMemoryQuarantineManager \<Rightarrow> string option \<times> InMemoryQuarantineManager" where
  "mem_SetPolicy policy m = (None, m\<lparr>qm_policy := policy\<rparr>)"

definition mem_quarantine :: "InMemoryQuarantineManager QuarantineManager" where
  "mem_quarantine = \<lparr>qo_Quarantine = mem_Quarantine, qo_Release = mem_Release, qo_Examine = mem_Examine,
     qo_ListQuarantined = mem_ListQuarantined, qo_SetPolicy = mem_SetPolicy\<rparr>"

section \<open>The hardened manager\<close>

datatype detail = DText string | DBool bool | DList "string list"

record security_event =
  se_Type :: string
  se_SandboxID :: string
  se_Details :: "(string, detail) gomap"

record 'q HardenedQuarantineManager =
  hq_base :: 'q
  hq_policy :: QuarantinePolicy
  hq_events :: "security_event list"

text \<open>The two defaults that both the constructor and \<open>SetPolicy\<close> fill in.\<close>

definition security_defaults :: "QuarantinePolicy \<Rightarrow> QuarantinePolicy" where
  "security_defaults p =
     (let p = (if qp_DefaultNetworkMode p = [] then p\<lparr>qp_DefaultNetworkMode := ''none''\<rparr> else p)
      in if qi_SeccompProfile (qp_Isolation p) = []
         then p\<lparr>qp_Isolation := (qp_Isolation p)\<lparr>qi_SeccompProfile := ''quarantine''\<rparr>\<rparr> else p)"

definition NewHardenedQuarantineManager :: "'q \<Rightarrow> QuarantinePolicy \<Rightarrow> 'q HardenedQuarantineManager" where
  "NewHardenedQuarantineManager base policy =
     (let p = security_defaults policy;
          p = (if qi_NetworkMode (qp_Isolation p) = []
               then p\<lparr>qp_Isolation := (qp_Isolation p)\<lparr>qi_NetworkMode := qp_DefaultNetworkMode p\<rparr>\<rparr> else p);
          p = (if qi_StorageConfig (qp_Isolation p) = None
               then p\<lparr>qp_Isolation := (qp_Isolation p)\<lparr>qi_StorageConfig :=
                      Some \<lparr>st_IsolatedDir = ''/var/lib/tartarus/quarantine'', st_UseSnapshotIsolation = True,
                            st_SnapshotPrefix = ''quarantine:''\<rparr>\<rparr>\<rparr> else p)
      in \<lparr>hq_base = base, hq_policy = p, hq_events = []\<rparr>)"

definition logSecurityEvent ::
    "string \<Rightarrow> string \<Rightarrow> (string, detail) gomap \<Rightarrow> 'q HardenedQuarantineManager \<Rightarrow> 'q HardenedQuarantineManager" where
  "logSecurityEvent event i details h =
     h\<lparr>hq_events := hq_events h @ [\<lparr>se_Type = event, se_SandboxID = i, se_Details = details\<rparr>]\<rparr>"

definition enforceIsolation :: "QuarantineRequest \<Rightarrow> string option" where
  "enforceIsolation req =
     (if qr_AutoQuarantine req \<and> length (qr_Evidence req) = 0 then Some ''auto-quarantine requires evidence'' else None)"

definition hardened_Quarantine ::
    "'q QuarantineManager \<Rightarrow> go_time \<Rightarrow> QuarantineRequest \<Rightarrow> 'q HardenedQuarantineManager
     \<Rightarrow> (string + QuarantineRecord) option \<times> 'q HardenedQuarantineManager" where
  "hardened_Quarantine ops now req h =
     (case enforceIsolation req of
        Some err \<Rightarrow> (Some (Inl (''isolation enforcement failed: '' @ err)), h)
      | None \<Rightarrow>
          (case qo_Quarantine ops now (req\<lparr>qr_Hardened := True\<rparr>) (hq_base h) of
             (Inl err, b) \<Rightarrow> (Some (Inl err), h\<lparr>hq_base := b\<rparr>)
           | (Inr record, b) \<Rightarrow>
               (case qi_StorageConfig (qp_Isolation (hq_policy h)) of
                  None \<Rightarrow> (None, h\<lparr>hq_base := b\<rparr>)
                | Some storage \<Rightarrow>
                    (Some (Inr record),
                     logSecurityEvent ''quarantine'' (qr_SandboxID req)
                       [(''reason'', DText (qr_Reason req)), (''auto_quarantine'', DBool (qr_AutoQuarantine req)),
                        (''network_mode'', DText (qp_DefaultNetworkMode (hq_policy h))),
                        (''seccomp'', DText (qi_SeccompProfile (qp_Isolation (hq_policy h)))),
                        (''storage_dir'', DText (st_IsolatedDir storage))] (h\<lparr>hq_base := b\<rparr>)))))"

definition log_overrides :: "string \<Rightarrow> ReleaseApproval \<Rightarrow> 'q HardenedQuarantineManager \<Rightarrow> 'q HardenedQuarantineManager" where
  "log_overrides i approval h =
     (let h = (case ra_NetworkOverride approval of
                 None \<Rightarrow> h
               | Some ov \<Rightarrow> logSecurityEvent ''network_override'' i
                   [(''network_mode'', DText (no_NetworkMode ov)), (''allowed_egress'', DList (no_AllowedEgress ov)),
                    (''justification'', DText (no_Justification ov)), (''approved_by'', DText (ra_ApprovedBy approval))] h)
      in case ra_SecurityOverride approval of
           None \<Rightarrow> h
         | Some ov \<Rightarrow> logSecurityEvent ''security_override'' i
             [(''seccomp_profile'', DText (so_SeccompProfile ov)), (''justification'', DText (so_Justification ov)),
              (''approved_by'', DText (ra_ApprovedBy approval))] h)"

definition hardened_Release ::
    "'q QuarantineManager \<Rightarrow> string \<Rightarrow> ReleaseApproval option \<Rightarrow> 'q HardenedQuarantineManager
     \<Rightarrow> string option option \<times> 'q HardenedQuarantineManager" where
  "hardened_Release ops i approval h =
     (case approval of
        None \<Rightarrow> (None, h)
      | Some a \<Rightarrow>
          let h = log_overrides i a h
          in case qo_Release ops i (Some a) (hq_base h) of
               (Some err, b) \<Rightarrow> (Some (Some err), h\<lparr>hq_base := b\<rparr>)
             | (None, b) \<Rightarrow>
                 (Some None, logSecurityEvent ''release'' i
                    [(''approved_by'', DText (ra_ApprovedBy a)), (''reason'', DText (ra_Reason a))] (h\<lparr>hq_base := b\<rparr>)))"

definition hardened_SetPolicy ::
    "'q QuarantineManager \<Rightarrow> QuarantinePolicy \<Rightarrow> 'q HardenedQuarantineManager \<Rightarrow> string option \<times> 'q HardenedQuarantineManager" where
  "hardened_SetPolicy ops policy h =
     (let p = security_defaults policy
      in case qo_SetPolicy ops p (hq_base h) of (err, b) \<Rightarrow> (err, h\<lparr>hq_policy := p, hq_base := b\<rparr>))"

definition GetIsolationConfig :: "'q HardenedQuarantineManager \<Rightarrow> QuarantineIsolation" where
  "GetIsolationConfig h = qp_Isolation (hq_policy h)"

section \<open>The classifier\<close>

record cel_vars =
  cv_cpu :: int
  cv_mem :: int
  cv_template :: string
  cv_metadata :: metadata
  cv_network_egress :: int
  cv_network_ingress :: int

text \<open>What the library makes of a condition: an expression that does not compile, a run-time error, a truth
  value, or another value.\<close>

datatype cel_result = CelInvalid | CelError | CelBool bool | CelOther

type_synonym cel = "string \<Rightarrow> cel_vars \<Rightarrow> cel_result"

definition evaluateTrigger ::
    "cel \<Rightarrow> go_time \<Rightarrow> SandboxRequest \<Rightarrow> AutoQuarantineTrigger \<Rightarrow> bool \<times> Evidence list" where
  "evaluateTrigger cel now sandbox trigger =
     (let vars = \<lparr>cv_cpu = res_CPU (req_Resources sandbox), cv_mem = res_Mem (req_Resources sandbox),
            cv_template = req_Template sandbox, cv_metadata = req_Metadata sandbox, cv_network_egress = 0, cv_network_ingress = 0\<rparr>
      in case cel (at_Condition trigger) vars of
           CelBool True \<Rightarrow> (True, [\<lparr>evd_Type = ''syscall_trace'',
             evd_Description = ''Auto-classification trigger: '' @ at_Condition trigger, evd_Data = [], evd_Timestamp = now\<rparr>])
         | _ \<Rightarrow> (False, []))"

fun ShouldQuarantine ::
    "cel \<Rightarrow> go_time \<Rightarrow> AutoQuarantineTrigger list \<Rightarrow> SandboxRequest \<Rightarrow> bool \<times> string \<times> Evidence list" where
  "ShouldQuarantine cel now [] sandbox = (False, [], [])"
| "ShouldQuarantine cel now (trigger # triggers) sandbox =
     (if \<not> at_Enabled trigger then ShouldQuarantine cel now triggers sandbox
      else case evaluateTrigger cel now sandbox trigger of
             (True, evidence) \<Rightarrow> (True, at_Reason trigger, evidence)
           | (False, _) \<Rightarrow> ShouldQuarantine cel now triggers sandbox)"

definition GetDefaultTriggers :: "AutoQuarantineTrigger list" where
  "GetDefaultTriggers =
     [\<lparr>at_Condition = ''cpu > 8000'', at_Reason = ''resource_abuse'', at_Enabled = True\<rparr>,
      \<lparr>at_Condition = ''mem > 16384'', at_Reason = ''resource_abuse'', at_Enabled = True\<rparr>,
      \<lparr>at_Condition = ''metadata[\"untrusted\"] == \"true\"'', at_Reason = ''untrusted_source'', at_Enabled = True\<rparr>,
      \<lparr>at_Condition = ''network_egress > 1000000000'', at_Reason = ''network_anomaly'', at_Enabled = True\<rparr>,
      \<lparr>at_Condition = ''metadata[\"security_scan_failed\"] == \"true\"'', at_Reason = ''security_scan'', at_Enabled = True\<rparr>]"

definition Noop_ShouldQuarantine :: "SandboxRequest \<Rightarrow> bool \<times> string \<times> Evidence list" where
  "Noop_ShouldQuarantine sandbox = (False, [], [])"

section \<open>Seccomp profiles\<close>

record Syscall =
  sy_Names :: "string list"
  sy_Action :: string

record SeccompProfile =
  sp_DefaultAction :: string
  sp_Syscalls :: "Syscall list"

text \<open>The embedded profiles.\<close>

definition ember_profile :: SeccompProfile where
  "ember_profile = \<lparr>sp_DefaultAction = ''SCMP_ACT_ALLOW'', sp_Syscalls =
    [\<lparr>sy_Names = [''socket'', ''bind'', ''connect'', ''listen'', ''accept'', ''accept4'', ''sendto'', ''sendmsg'',
        ''recvfrom'', ''recvmsg''], sy_Action = ''SCMP_ACT_ERRNO''\<rparr>,
     \<lparr>sy_Names = [''ptrace'', ''process_vm_readv'', ''process_vm_writev''], sy_Action = ''SCMP_ACT_ERRNO''\<rparr>,
     \<lparr>sy_Names = [''init_module'', ''finit_module'', ''delete_module''], sy_Action = ''SCMP_ACT_ERRNO''\<rparr>,
     \<lparr>sy_Names = [''reboot'', ''swapon'', ''swapoff'', ''mount'', ''umount'', ''umount2'', ''pivot_root'',
        ''chroot''], sy_Action = ''SCMP_ACT_ERRNO''\<rparr>,
     \<lparr>sy_Names = [''chmod'', ''fchmod'', ''fchmodat'', ''chown'', ''fchown'', ''lchown'', ''fchownat''], sy_Action = ''SCMP_ACT_ERRNO''\<rparr>,
     \<lparr>sy_Names = [''msgget'', ''msgsnd'', ''msgrcv'', ''msgctl'', ''semget'', ''semop'', ''semctl'', ''shmget'',
        ''shmat'', ''shmdt'', ''shmctl''], sy_Action = ''SCMP_ACT_ERRNO''\<rparr>,
     \<lparr>sy_Names = [''capset'', ''setuid'', ''setgid'', ''setreuid'', ''setregid'', ''setresuid'', ''setresgid'',
        ''setfsuid'', ''setfsgid''], sy_Action = ''SCMP_ACT_ERRNO''\<rparr>]\<rparr>"

definition flame_profile :: SeccompProfile where
  "flame_profile = \<lparr>sp_DefaultAction = ''SCMP_ACT_ALLOW'', sp_Syscalls =
    [\<lparr>sy_Names = [''socket'', ''bind'', ''connect'', ''listen'', ''accept'', ''accept4'', ''sendto'', ''sendmsg'',
        ''recvfrom'', ''recvmsg''], sy_Action = ''SCMP_ACT_ERRNO''\<rparr>,
     \<lparr>sy_Names = [''ptrace'', ''process_vm_readv'', ''process_vm_writev''], sy_Action = ''SCMP_ACT_ERRNO''\<rparr>,
     \<lparr>sy_Names = [''init_module'', ''finit_module'', ''delete_module''], sy_Action = ''SCMP_ACT_ERRNO''\<rparr>,
     \<lparr>sy_Names = [''reboot'', ''swapon'', ''swapoff'', ''mount'', ''umount'', ''umount2'', ''pivot_root'',
        ''chroot''], sy_Action = ''SCMP_ACT_ERRNO''\<rparr>]\<rparr>"

definition default_profile :: SeccompProfile where
  "default_profile = \<lparr>sp_DefaultAction = ''SCMP_ACT_ALLOW'', sp_Syscalls =
    [\<lparr>sy_Names = [''reboot'', ''init_module'', ''finit_module'', ''delete_module''], sy_Action = ''SCMP_ACT_ERRNO''\<rparr>]\<rparr>"

definition profileFS :: "(string, SeccompProfile) gomap" where
  "profileFS = [(''profiles/default.json'', default_profile), (''profiles/ember.json'', ember_profile),
     (''profiles/flame.json'', flame_profile)]"

type_synonym profile_cache = "(string, SeccompProfile) gomap"

definition loadProfile :: "string \<Rightarrow> profile_cache \<Rightarrow> (string + SeccompProfile) \<times> profile_cache" where
  "loadProfile name cache =
     (case get cache name of
        Some p \<Rightarrow> (Inr p, cache)
      | None \<Rightarrow>
          (case get profileFS (''profiles/'' @ name @ ''.json'') of
             None \<Rightarrow> (Inl (''failed to read profile '' @ name), cache)
           | Some p \<Rightarrow> (Inr p, put cache name p)))"

definition GetQuarantineProfile :: "profile_cache \<Rightarrow> (string + SeccompProfile) \<times> profile_cache" where
  "GetQuarantineProfile = loadProfile ''flame''"

definition GetQuarantineStrictProfile :: "profile_cache \<Rightarrow> (string + SeccompProfile) \<times> profile_cache" where
  "GetQuarantineStrictProfile = loadProfile ''ember''"

definition GetDefaultProfile :: "profile_cache \<Rightarrow> (string + SeccompProfile) \<times> profile_cache" where
  "GetDefaultProfile = loadProfile ''default''"

definition GetProfileByName :: "string \<Rightarrow> profile_cache \<Rightarrow> (string + SeccompProfile) \<times> profile_cache" where
  "GetProfileByName name =
     (if name = ''quarantine'' then GetQuarantineProfile
      else if name = ''quarantine-strict'' then GetQuarantineStrictProfile
      else GetDefaultProfile)"

definition GetProfileForClass :: "string \<Rightarrow> profile_cache \<Rightarrow> (string + SeccompProfile) \<times> profile_cache" where
  "GetProfileForClass class =
     (if class = ''ember'' then GetQuarantineStrictProfile
      else if class = ''flame'' then GetQuarantineProfile
      else if class = ''blaze'' \<or> class = ''inferno'' then GetDefaultProfile
      else GetQuarantineProfile)"

subsection \<open>The generator\<close>

record SeccompProfileGenerator =
  sg_baseSyscalls :: "string list"
  sg_templateSyscalls :: "(string, string list) gomap"

definition NewSeccompProfileGenerator :: SeccompProfileGenerator where
  "NewSeccompProfileGenerator = \<lparr>sg_baseSyscalls =
    [''read'', ''write'', ''open'', ''openat'', ''close'', ''stat'', ''fstat'', ''lstat'', ''poll'',
     ''lseek'', ''mmap'', ''mprotect'', ''munmap'', ''brk'', ''rt_sigaction'', ''rt_sigprocmask'',
     ''rt_sigreturn'', ''ioctl'', ''pread64'', ''pwrite64'', ''readv'', ''writev'', ''access'',
     ''pipe'', ''select'', ''sched_yield'', ''mremap'', ''msync'', ''mincore'', ''madvise'', ''shmget'',
     ''shmat'', ''shmctl'', ''dup'', ''dup2'', ''dup3'', ''fcntl'', ''flock'', ''fsync'', ''fdatasync'',
     ''truncate'', ''ftruncate'', ''getdents'', ''getcwd'', ''chdir'', ''fchdir'', ''rename'',
     ''mkdir'', ''rmdir'', ''creat'', ''link'', ''unlink'', ''symlink'', ''readlink'', ''chmod'',
     ''fchmod'', ''chown'', ''fchown'', ''lchown'', ''umask'', ''gettimeofday'', ''getrlimit'',
     ''getrusage'', ''sysinfo'', ''times'', ''ptrace'', ''getuid'', ''syslog'', ''getgid'', ''setuid'',
     ''setgid'', ''geteuid'', ''getegid'', ''setpgid'', ''getppid'', ''getpgrp'', ''setsid'',
     ''setreuid'', ''setregid'', ''getgroups'', ''setgroups'', ''setresuid'', ''getresuid'',
     ''setresgid'', ''getresgid'', ''getpgid'', ''setfsuid'', ''setfsgid'', ''getsid'', ''capget'',
     ''capset'', ''rt_sigpending'', ''rt_sigtimedwait'', ''rt_sigqueueinfo'', ''rt_sigsuspend'',
     ''sigaltstack'', ''utime'', ''mknod'', ''uselib'', ''personality'', ''ustat'', ''statfs'',
     ''fstatfs'', ''sysfs'', ''getpriority'', ''setpriority'', ''sched_setparam'', ''sched_getparam'',
     ''sched_setscheduler'', ''sched_getscheduler'', ''sched_get_priority_max'',
     ''sched_get_priority_min'', ''sched_rr_get_interval'', ''mlock'', ''munlock'', ''mlockall'',
     ''munlockall'', ''vhangup'', ''modify_ldt'', ''pivot_root'', ''_sysctl'', ''prctl'',
     ''arch_prctl'', ''adjtimex'', ''setrlimit'', ''chroot'', ''sync'', ''acct'', ''settimeofday'',
     ''mount'', ''umount2'', ''swapon'', ''swapoff'', ''reboot'', ''sethostname'', ''setdomainname'',
     ''iopl'', ''ioperm'', ''create_module'', ''init_module'', ''delete_module'', ''get_kernel_syms'',
     ''query_module'', ''quotactl'', ''nfsservctl'', ''getpmsg'', ''putpmsg'', ''afs_syscall'',
     ''tuxcall'', ''security'', ''gettid'', ''readahead'', ''setxattr'', ''lsetxattr'', ''fsetxattr'',
     ''getxattr'', ''lgetxattr'', ''fgetxattr'', ''listxattr'', ''llistxattr'', ''flistxattr'',
     ''removexattr'', ''lremovexattr'', ''fremovexattr'', ''tkill'', ''time'', ''futex'',
     ''sched_setaffinity'', ''sched_getaffinity'', ''set_thread_area'', ''io_setup'', ''io_destroy'',
     ''io_getevents'', ''io_submit'', ''io_cancel'', ''get_thread_area'', ''lookup_dcookie'',
     ''epoll_create'', ''epoll_ctl_old'', ''epoll_wait_old'', ''remap_file_pages'', ''getdents64'',
     ''set_tid_address'', ''restart_syscall'', ''semtimedop'', ''fadvise64'', ''timer_create'',
     ''timer_settime'', ''timer_gettime'', ''timer_getoverrun'', ''timer_delete'', ''clock_settime'',
     ''clock_gettime'', ''clock_getres'', ''clock_nanosleep'', ''exit'', ''exit_group'', ''wait4'',
     ''waitid'', ''set_robust_list'', ''get_robust_list'', ''splice'', ''tee'', ''sync_file_range'',
     ''vmsplice'', ''move_pages'', ''utimensat'', ''epoll_pwait'', ''signalfd'', ''timerfd_create'',
     ''eventfd'', ''fallocate'', ''timerfd_settime'', ''timerfd_gettime'', ''accept'', ''accept4'',
     ''bind'', ''connect'', ''listen'', ''recvfrom'', ''recvmsg'', ''sendto'', ''sendmsg'',
     ''setsockopt'', ''getsockopt'', ''socket'', ''socketpair'', ''shutdown''],
    sg_templateSyscalls =
     [(''python-ds'', [''epoll_create1'', ''getrandom'', ''memfd_create'', ''eventfd2'']),
      (''nodejs'', [''epoll_create1'', ''getrandom'', ''eventfd2'', ''pipe2'']), (''static'', []), (''minimal'', [])]\<rparr>"

definition mark_all :: "string list \<Rightarrow> (string, bool) gomap \<Rightarrow> (string, bool) gomap" where
  "mark_all names m = fold (\<lambda>s m. put m s True) names m"

definition GenerateProfile :: "SeccompProfileGenerator \<Rightarrow> string \<Rightarrow> string list \<Rightarrow> SeccompProfile" where
  "GenerateProfile g templateID extraSyscalls =
     (let allowed = mark_all (sg_baseSyscalls g) [];
          allowed = (case get (sg_templateSyscalls g) templateID of Some extras \<Rightarrow> mark_all extras allowed | None \<Rightarrow> allowed);
          allowed = mark_all extraSyscalls allowed
      in \<lparr>sp_DefaultAction = ''Errno'', sp_Syscalls = [\<lparr>sy_Names = sort (map fst allowed), sy_Action = ''Allow''\<rparr>]\<rparr>)"

definition GenerateProfileForTemplate :: "string \<Rightarrow> SeccompProfile" where
  "GenerateProfileForTemplate templateID = GenerateProfile NewSeccompProfileGenerator templateID []"

subsection \<open>Traces\<close>

text \<open>\<open>bufio.Scanner\<close> on lines: the lines without their ends, up to one that does not fit the buffer of
  64 KiB, and the error that ends the scan (of the reader, when no line was too long).\<close>

definition drop_CR :: "string \<Rightarrow> string" where
  "drop_CR l = (if l \<noteq> [] \<and> last l = CHR 0x0D then butlast l else l)"

definition scan_lines :: "string \<Rightarrow> string option \<Rightarrow> string list \<times> string option" where
  "scan_lines content readErr =
     (let raw = split_on CHR 0x0A content;
          raw = (if last raw = [] then butlast raw else raw);
          good = takeWhile (\<lambda>l. length l < 65536) raw
      in (map drop_CR good, if length good < length raw then Some ''bufio.Scanner: token too long'' else readErr))"

text \<open>The regular expression of a line: letters, digits and underscores, then an opening parenthesis.\<close>

definition word_char :: "char \<Rightarrow> bool" where
  "word_char c \<longleftrightarrow> (let n = of_char c :: nat in 97 \<le> n \<and> n \<le> 122 \<or> 65 \<le> n \<and> n \<le> 90 \<or> n = 95 \<or> 48 \<le> n \<and> n \<le> 57)"

definition syscall_name :: "string \<Rightarrow> string option" where
  "syscall_name line =
     (let w = takeWhile word_char line; rest = dropWhile word_char line
      in if w \<noteq> [] \<and> rest \<noteq> [] \<and> hd rest = CHR ''('' then Some w else None)"

definition ignoredSyscalls :: "(string, bool) gomap" where
  "ignoredSyscalls = [(''+++'', True), (''---'', True)]"

definition note_line :: "string \<Rightarrow> (string, bool) gomap \<Rightarrow> (string, bool) gomap" where
  "note_line text syscalls =
     (let line = TrimSpace text
      in if line = [] then syscalls
         else if prefix ''+++'' line \<or> prefix ''---'' line then syscalls
         else case syscall_name line of
                None \<Rightarrow> syscalls
              | Some name \<Rightarrow> if get_or False ignoredSyscalls name then syscalls else put syscalls name True)"

definition AnalyzeStrace :: "string \<Rightarrow> string option \<Rightarrow> string + string list" where
  "AnalyzeStrace content readErr =
     (case scan_lines content readErr of
        (lines, Some err) \<Rightarrow> Inl err
      | (lines, None) \<Rightarrow> Inr (sort (map fst (fold note_line lines []))))"

section \<open>The log of the hardened manager\<close>

locale quarantine_manager =
  fixes ops :: "'q QuarantineManager" and status :: "'q \<Rightarrow> string \<Rightarrow> QuarantineStatus option"
  assumes quarantine_ok:
      "qo_Quarantine ops now req q = (Inr rec, q') \<Longrightarrow> status q' = (status q)(qr_SandboxID req \<mapsto> QStatusActive)"
    and quarantine_error: "qo_Quarantine ops now req q = (Inl err, q') \<Longrightarrow> status q' = status q"
    and release_ok:
      "qo_Release ops i a q = (None, q') \<Longrightarrow> status q' = (status q)(i := map_option (\<lambda>_. QStatusReleased) (status q i))"
    and release_error: "qo_Release ops i a q = (Some err, q') \<Longrightarrow> status q' = status q"
    and policy_status: "status (snd (qo_SetPolicy ops p q)) = status q"

definition mem_status :: "InMemoryQuarantineManager \<Rightarrow> string \<Rightarrow> QuarantineStatus option" where
  "mem_status m i = map_option qc_Status (get (qm_records m) i)"

interpretation memq: quarantine_manager mem_quarantine mem_status
  by unfold_locales
    (auto simp: mem_quarantine_def mem_Quarantine_def mem_Release_def mem_SetPolicy_def mem_status_def fun_eq_iff Let_def
      split: option.splits)

text \<open>What the security events say of the sandboxes.\<close>

definition replay_event :: "security_event \<Rightarrow> (string \<Rightarrow> QuarantineStatus option) \<Rightarrow> string \<Rightarrow> QuarantineStatus option" where
  "replay_event e m =
     (if se_Type e = ''quarantine'' then m(se_SandboxID e \<mapsto> QStatusActive)
      else if se_Type e = ''release'' then m(se_SandboxID e := map_option (\<lambda>_. QStatusReleased) (m (se_SandboxID e)))
      else m)"

definition replay :: "security_event list \<Rightarrow> string \<Rightarrow> QuarantineStatus option" where
  "replay es = fold replay_event es (\<lambda>_. None)"

lemma replay_snoc: "replay (es @ [e]) = replay_event e (replay es)"
  by (simp add: replay_def)

datatype q_call = CallQuarantine go_time QuarantineRequest | CallRelease string "ReleaseApproval option" | CallSetPolicy QuarantinePolicy

fun hardened_call :: "'q QuarantineManager \<Rightarrow> q_call \<Rightarrow> 'q HardenedQuarantineManager \<Rightarrow> 'q HardenedQuarantineManager option" where
  "hardened_call ops (CallQuarantine now req) h = (case hardened_Quarantine ops now req h of (None, _) \<Rightarrow> None | (Some _, h') \<Rightarrow> Some h')"
| "hardened_call ops (CallRelease i a) h = (case hardened_Release ops i a h of (None, _) \<Rightarrow> None | (Some _, h') \<Rightarrow> Some h')"
| "hardened_call ops (CallSetPolicy p) h = Some (snd (hardened_SetPolicy ops p h))"

fun hardened_calls :: "'q QuarantineManager \<Rightarrow> q_call list \<Rightarrow> 'q HardenedQuarantineManager \<Rightarrow> 'q HardenedQuarantineManager option" where
  "hardened_calls ops [] h = Some h"
| "hardened_calls ops (c # cs) h = (case hardened_call ops c h of None \<Rightarrow> None | Some h' \<Rightarrow> hardened_calls ops cs h')"

text \<open>The calls that cannot panic: a release has an approval, a policy has a storage configuration.\<close>

fun call_safe :: "q_call \<Rightarrow> bool" where
  "call_safe (CallQuarantine _ _) \<longleftrightarrow> True"
| "call_safe (CallRelease _ a) \<longleftrightarrow> a \<noteq> None"
| "call_safe (CallSetPolicy p) \<longleftrightarrow> qi_StorageConfig (qp_Isolation p) \<noteq> None"

abbreviation has_storage :: "'q HardenedQuarantineManager \<Rightarrow> bool" where
  "has_storage h \<equiv> qi_StorageConfig (qp_Isolation (hq_policy h)) \<noteq> None"

lemma log_overrides_simps [simp]:
  "hq_base (log_overrides i a h) = hq_base h" "hq_policy (log_overrides i a h) = hq_policy h"
  "replay (hq_events (log_overrides i a h)) = replay (hq_events h)"
  by (auto simp: log_overrides_def logSecurityEvent_def replay_def replay_event_def Let_def split: option.split)

lemma security_defaults_storage [simp]:
  "qi_StorageConfig (qp_Isolation (security_defaults p)) = qi_StorageConfig (qp_Isolation p)"
  by (simp add: security_defaults_def Let_def)

lemma security_defaults_set:
  "qp_DefaultNetworkMode (security_defaults p) \<noteq> []" "qi_SeccompProfile (qp_Isolation (security_defaults p)) \<noteq> []"
  by (simp_all add: security_defaults_def Let_def)

lemma New_has_storage: "has_storage (NewHardenedQuarantineManager b p)"
  by (simp add: NewHardenedQuarantineManager_def Let_def)

context quarantine_manager
begin

text \<open>A call keeps the agreement of the log with the base manager.\<close>

lemma call_truthful:
  assumes "has_storage h" "call_safe c" "status (hq_base h) = replay (hq_events h)"
  shows "\<exists>h'. hardened_call ops c h = Some h' \<and> has_storage h' \<and> status (hq_base h') = replay (hq_events h')"
proof (cases c)
  case (CallQuarantine now req)
  obtain res b where b: "qo_Quarantine ops now (req\<lparr>qr_Hardened := True\<rparr>) (hq_base h) = (res, b)" by fastforce
  show ?thesis
    using assms CallQuarantine b quarantine_ok [of now "req\<lparr>qr_Hardened := True\<rparr>" "hq_base h"] quarantine_error [of now "req\<lparr>qr_Hardened := True\<rparr>" "hq_base h"]
    by (cases res) (auto simp: hardened_Quarantine_def enforceIsolation_def logSecurityEvent_def replay_snoc replay_event_def split: option.split)
next
  case (CallRelease i a)
  then obtain ap where a: "a = Some ap" using assms(2) by auto
  obtain err b where b: "qo_Release ops i (Some ap) (hq_base h) = (err, b)" by fastforce
  show ?thesis
    using assms CallRelease a b release_ok [of i "Some ap" "hq_base h"] release_error [of i "Some ap" "hq_base h"]
    by (cases err) (auto simp: hardened_Release_def logSecurityEvent_def replay_snoc replay_event_def Let_def)
next
  case (CallSetPolicy p)
  then show ?thesis
    using assms policy_status [of "security_defaults p" "hq_base h"]
    by (auto simp: hardened_SetPolicy_def Let_def split: prod.split)
qed

lemma calls_truthful:
  "has_storage h \<Longrightarrow> \<forall>c \<in> set cs. call_safe c \<Longrightarrow> status (hq_base h) = replay (hq_events h) \<Longrightarrow>
   \<exists>h'. hardened_calls ops cs h = Some h' \<and> status (hq_base h') = replay (hq_events h')"
proof (induction cs arbitrary: h)
  case (Cons c cs)
  then show ?case using call_truthful [of h c] by fastforce
qed simp

end

text \<open>
  C27: The security log of the hardened manager tells the truth. After any sequence of quarantines,
  releases with an approval and policies with a storage configuration, nothing has panicked, and the
  status the in-memory manager has of every sandbox is the one that replaying the logged quarantine and
  release events gives.\<close>

theorem quarantine_log_truthful:
  assumes "\<forall>c \<in> set cs. call_safe c"
  shows "\<exists>h. hardened_calls mem_quarantine cs (NewHardenedQuarantineManager NewInMemoryQuarantineManager policy) = Some h \<and>
    (\<forall>i. map_option qc_Status (get (qm_records (hq_base h)) i) = replay (hq_events h) i)"
proof -
  let ?h = "NewHardenedQuarantineManager NewInMemoryQuarantineManager policy"
  have "mem_status (hq_base ?h) = replay (hq_events ?h)"
    by (simp add: NewHardenedQuarantineManager_def NewInMemoryQuarantineManager_def mem_status_def replay_def fun_eq_iff Let_def)
  from memq.calls_truthful [OF New_has_storage assms this] show ?thesis by (auto simp: mem_status_def [abs_def] fun_eq_iff)
qed

definition demo_quarantine :: QuarantineRequest where
  "demo_quarantine = \<lparr>qr_SandboxID = ''x'', qr_Reason = ''manual_flag'', qr_Evidence = [], qr_RequestedBy = ''ops'',
     qr_AutoQuarantine = False, qr_Hardened = False\<rparr>"

theorem quarantine_log_truthful_witness:
  "\<exists>h. hardened_calls mem_quarantine [CallQuarantine 3 demo_quarantine]
       (NewHardenedQuarantineManager NewInMemoryQuarantineManager zero_QuarantinePolicy) = Some h \<and>
     map_option qc_Status (get (qm_records (hq_base h)) ''x'') = replay (hq_events h) ''x''"
  using quarantine_log_truthful [of "[CallQuarantine 3 demo_quarantine]" zero_QuarantinePolicy] by auto

text \<open>
  A policy set later without a storage configuration disarms the manager: every quarantine that its
  base accepts panics, after the sandbox was recorded as quarantined and without a security event.\<close>

theorem set_policy_disarms:
  assumes "qi_StorageConfig (qp_Isolation policy) = None" "enforceIsolation req = None"
  shows "\<exists>h'. hardened_Quarantine mem_quarantine now req (snd (hardened_SetPolicy mem_quarantine policy h)) = (None, h') \<and>
    map_option qc_Status (get (qm_records (hq_base h')) (qr_SandboxID req)) = Some QStatusActive \<and> hq_events h' = hq_events h"
  using assms
  by (auto simp: hardened_Quarantine_def hardened_SetPolicy_def mem_quarantine_def mem_Quarantine_def mem_SetPolicy_def Let_def)

theorem set_policy_disarms_witness:
  "\<exists>h'. hardened_Quarantine mem_quarantine 3 demo_quarantine
       (snd (hardened_SetPolicy mem_quarantine zero_QuarantinePolicy (NewHardenedQuarantineManager NewInMemoryQuarantineManager zero_QuarantinePolicy))) =
     (None, h') \<and> hq_events h' = []"
proof -
  have "hq_events (NewHardenedQuarantineManager NewInMemoryQuarantineManager zero_QuarantinePolicy) = []"
    by (simp add: NewHardenedQuarantineManager_def Let_def)
  moreover have "qi_StorageConfig (qp_Isolation zero_QuarantinePolicy) = None" by (simp add: zero_QuarantinePolicy_def)
  moreover have "enforceIsolation demo_quarantine = None" by (simp add: enforceIsolation_def demo_quarantine_def)
  ultimately show ?thesis using set_policy_disarms [of zero_QuarantinePolicy demo_quarantine 3] by metis
qed

text \<open>\<open>SetPolicy\<close> fills in the default network mode but does not pass it on to the isolation settings.\<close>

lemma set_policy_leaves_mode_empty:
  "qi_NetworkMode (GetIsolationConfig (NewHardenedQuarantineManager b zero_QuarantinePolicy)) = ''none''"
  "qi_NetworkMode (GetIsolationConfig (snd (hardened_SetPolicy ops zero_QuarantinePolicy h))) = []"
  by (simp_all add: GetIsolationConfig_def NewHardenedQuarantineManager_def hardened_SetPolicy_def security_defaults_def
      zero_QuarantinePolicy_def Let_def split: prod.split)

section \<open>What the default rules quarantine\<close>

text \<open>What the documentation of CEL says of the five conditions.\<close>

definition cel_standard :: "cel \<Rightarrow> bool" where
  "cel_standard cel \<longleftrightarrow> (\<forall>v.
     cel ''cpu > 8000'' v = CelBool (cv_cpu v > 8000) \<and>
     cel ''mem > 16384'' v = CelBool (cv_mem v > 16384) \<and>
     cel ''network_egress > 1000000000'' v = CelBool (cv_network_egress v > 1000000000) \<and>
     (\<forall>key \<in> {''untrusted'', ''security_scan_failed''}.
        cel (''metadata[\"'' @ key @ ''\"] == \"true\"'') v =
          (case get (cv_metadata v) key of None \<Rightarrow> CelError | Some x \<Rightarrow> CelBool (x = ''true''))))"

lemma ShouldQuarantine_Cons:
  "ShouldQuarantine cel now (t # ts) sandbox =
     (if at_Enabled t \<and> fst (evaluateTrigger cel now sandbox t)
      then (True, at_Reason t, snd (evaluateTrigger cel now sandbox t)) else ShouldQuarantine cel now ts sandbox)"
  by (auto split: prod.split bool.split)

lemma evaluateTrigger_fst:
  "fst (evaluateTrigger cel now sandbox t) \<longleftrightarrow> cel (at_Condition t)
     \<lparr>cv_cpu = res_CPU (req_Resources sandbox), cv_mem = res_Mem (req_Resources sandbox), cv_template = req_Template sandbox,
      cv_metadata = req_Metadata sandbox, cv_network_egress = 0, cv_network_ingress = 0\<rparr> = CelBool True"
  by (simp add: evaluateTrigger_def Let_def split: cel_result.split bool.split)

lemma evaluateTrigger_snd:
  "snd (evaluateTrigger cel now sandbox t) = [] \<longleftrightarrow> \<not> fst (evaluateTrigger cel now sandbox t)"
  by (simp add: evaluateTrigger_def Let_def split: cel_result.split bool.split)

text \<open>
  Where conditions are evaluated as CEL documents it, the default rules quarantine exactly the
  requests that ask for more than 8000 milli-CPUs or 16384 MB or that are marked as untrusted or as failing
  the security scan, with the reason of the first of these, and with evidence that the hardened manager
  accepts for an automatic quarantine. The rule on network traffic never applies.\<close>

theorem default_classification:
  assumes "cel_standard cel"
  shows "ShouldQuarantine cel now GetDefaultTriggers sandbox = (quarantined, reason, evidence) \<Longrightarrow>
    reason =
      (if res_CPU (req_Resources sandbox) > 8000 \<or> res_Mem (req_Resources sandbox) > 16384 then ''resource_abuse''
       else if get (req_Metadata sandbox) ''untrusted'' = Some ''true'' then ''untrusted_source''
       else if get (req_Metadata sandbox) ''security_scan_failed'' = Some ''true'' then ''security_scan''
       else []) \<and>
    (quarantined \<longleftrightarrow> reason \<noteq> []) \<and>
    (quarantined \<longrightarrow> enforceIsolation \<lparr>qr_SandboxID = req_ID sandbox, qr_Reason = reason, qr_Evidence = evidence,
       qr_RequestedBy = by, qr_AutoQuarantine = True, qr_Hardened = False\<rparr> = None)"
proof -
  have lookup: "cel ''metadata[\"untrusted\"] == \"true\"'' v = CelBool True \<longleftrightarrow> get (cv_metadata v) ''untrusted'' = Some ''true''"
      "cel ''metadata[\"security_scan_failed\"] == \"true\"'' v = CelBool True \<longleftrightarrow> get (cv_metadata v) ''security_scan_failed'' = Some ''true''" for v
    using assms by (auto simp: cel_standard_def split: option.split)
  have "cel ''cpu > 8000'' v = CelBool (cv_cpu v > 8000)" "cel ''mem > 16384'' v = CelBool (cv_mem v > 16384)"
      "cel ''network_egress > 1000000000'' v = CelBool (cv_network_egress v > 1000000000)" for v
    using assms by (simp_all add: cel_standard_def)
  note conditions = lookup this
  assume "ShouldQuarantine cel now GetDefaultTriggers sandbox = (quarantined, reason, evidence)"
  then show ?thesis
    by (auto simp: GetDefaultTriggers_def ShouldQuarantine_Cons evaluateTrigger_fst conditions enforceIsolation_def
        evaluateTrigger_snd simp del: ShouldQuarantine.simps(2) split: if_splits)
qed

definition demo_cel :: cel where
  "demo_cel c v =
     (if c = ''cpu > 8000'' then CelBool (cv_cpu v > 8000)
      else if c = ''mem > 16384'' then CelBool (cv_mem v > 16384)
      else if c = ''network_egress > 1000000000'' then CelBool (cv_network_egress v > 1000000000)
      else if c = ''metadata[\"untrusted\"] == \"true\"'' then
        (case get (cv_metadata v) ''untrusted'' of None \<Rightarrow> CelError | Some x \<Rightarrow> CelBool (x = ''true''))
      else if c = ''metadata[\"security_scan_failed\"] == \"true\"'' then
        (case get (cv_metadata v) ''security_scan_failed'' of None \<Rightarrow> CelError | Some x \<Rightarrow> CelBool (x = ''true''))
      else CelInvalid)"

theorem default_classification_witness:
  "cel_standard demo_cel \<and>
   fst (ShouldQuarantine demo_cel 3 GetDefaultTriggers (zero_SandboxRequest\<lparr>req_Metadata := [(''untrusted'', ''true'')]\<rparr>))"
proof -
  let ?r = "zero_SandboxRequest\<lparr>req_Metadata := [(''untrusted'', ''true'')]\<rparr>"
  have std: "cel_standard demo_cel" by (simp add: cel_standard_def demo_cel_def)
  obtain q why evs where sq: "ShouldQuarantine demo_cel 3 GetDefaultTriggers ?r = (q, why, evs)" by (metis prod.collapse)
  have "why = ''untrusted_source''" "q \<longleftrightarrow> why \<noteq> []"
    using default_classification [OF std sq] by (simp_all add: zero_SandboxRequest_def zero_ResourceSpec_def)
  with std sq show ?thesis by simp
qed

section \<open>Profiles\<close>

definition allow_action :: "string \<Rightarrow> bool" where
  "allow_action a \<longleftrightarrow> a = ''Allow'' \<or> a = ''SCMP_ACT_ALLOW''"

text \<open>The meaning of a profile: the first rule that names the call, or else the default.\<close>

definition permits :: "SeccompProfile \<Rightarrow> string \<Rightarrow> bool" where
  "permits p s = (case find (\<lambda>r. s \<in> set (sy_Names r)) (sp_Syscalls p) of
     Some r \<Rightarrow> allow_action (sy_Action r) | None \<Rightarrow> allow_action (sp_DefaultAction p))"

lemma permits_deny_list:
  assumes "allow_action (sp_DefaultAction p)" "\<forall>r \<in> set (sp_Syscalls p). \<not> allow_action (sy_Action r)"
  shows "permits p s \<longleftrightarrow> s \<notin> set (concat (map sy_Names (sp_Syscalls p)))"
  using assms by (auto simp: permits_def find_Some_iff find_None_iff split: option.splits)

definition cache_ok :: "profile_cache \<Rightarrow> bool" where
  "cache_ok cache \<longleftrightarrow> (\<forall>n p. get cache n = Some p \<longrightarrow> get profileFS (''profiles/'' @ n @ ''.json'') = Some p)"

lemma loadProfile_ok:
  assumes "cache_ok cache"
  shows "fst (loadProfile n cache) = (case get profileFS (''profiles/'' @ n @ ''.json'') of
      None \<Rightarrow> Inl (''failed to read profile '' @ n) | Some p \<Rightarrow> Inr p)"
    "cache_ok (snd (loadProfile n cache))"
  using assms by (auto simp: loadProfile_def cache_ok_def split: option.splits)

lemma cache_empty: "cache_ok []"
  by (simp add: cache_ok_def)

lemma embedded_denies:
  "permits ember_profile s \<longleftrightarrow> s \<notin> set (concat (map sy_Names (sp_Syscalls ember_profile)))"
  "permits flame_profile s \<longleftrightarrow> s \<notin> set (concat (map sy_Names (sp_Syscalls flame_profile)))"
  "permits default_profile s \<longleftrightarrow> s \<notin> set (concat (map sy_Names (sp_Syscalls default_profile)))"
  by (rule permits_deny_list; simp add: ember_profile_def flame_profile_def default_profile_def allow_action_def)+

lemma embedded_graduated:
  "set (concat (map sy_Names (sp_Syscalls default_profile))) \<subseteq> set (concat (map sy_Names (sp_Syscalls flame_profile)))"
  "set (concat (map sy_Names (sp_Syscalls flame_profile))) \<subseteq> set (concat (map sy_Names (sp_Syscalls ember_profile)))"
  by code_simp+

text \<open>
  The profiles of the resource classes are graduated. Whatever the cache holds of them, loading
  never fails, and a call that the ember profile permits is permitted by the flame profile, and one that
  the flame profile permits by those of blaze and inferno; an unknown class gets the flame profile.\<close>

theorem profiles_graduated:
  assumes "cache_ok cache"
  shows "\<exists>cold warm hot.
    fst (GetProfileForClass ''ember'' cache) = Inr cold \<and> fst (GetProfileForClass ''flame'' cache) = Inr warm \<and>
    fst (GetProfileForClass ''blaze'' cache) = Inr hot \<and> fst (GetProfileForClass ''inferno'' cache) = Inr hot \<and>
    (\<forall>class. class \<notin> {''ember'', ''blaze'', ''inferno''} \<longrightarrow> fst (GetProfileForClass class cache) = Inr warm) \<and>
    (\<forall>s. permits cold s \<longrightarrow> permits warm s) \<and> (\<forall>s. permits warm s \<longrightarrow> permits hot s)"
proof -
  have load: "fst (loadProfile ''ember'' cache) = Inr ember_profile" "fst (loadProfile ''flame'' cache) = Inr flame_profile"
      "fst (loadProfile ''default'' cache) = Inr default_profile"
    using loadProfile_ok(1) [OF assms] by (simp_all add: profileFS_def)
  have "permits ember_profile s \<longrightarrow> permits flame_profile s" "permits flame_profile s \<longrightarrow> permits default_profile s" for s
    unfolding embedded_denies using embedded_graduated by blast+
  with load show ?thesis
    unfolding GetProfileForClass_def GetQuarantineProfile_def GetQuarantineStrictProfile_def GetDefaultProfile_def
    by (simp add: load)
qed

theorem profiles_graduated_witness:
  "\<exists>warm. fst (GetProfileForClass ''flame'' (snd (GetProfileForClass ''flame'' []))) = Inr warm \<and> \<not> permits warm ''socket''"
proof -
  have "cache_ok (snd (GetProfileForClass ''flame'' []))"
    unfolding GetProfileForClass_def GetQuarantineProfile_def by (simp add: loadProfile_ok cache_empty)
  from profiles_graduated [OF this]
  obtain warm where "fst (GetProfileForClass ''flame'' (snd (GetProfileForClass ''flame'' []))) = Inr warm" by blast
  moreover have "fst (GetProfileForClass ''flame'' (snd (GetProfileForClass ''flame'' []))) = Inr flame_profile" by code_simp
  moreover have "\<not> permits flame_profile ''socket''" by code_simp
  ultimately show ?thesis by auto
qed

section \<open>Learned profiles\<close>

lemma keys_mark_all [simp]: "fst ` set (mark_all names m) = set names \<union> fst ` set m"
  by (induction names arbitrary: m) (simp_all add: mark_all_def keys_put [unfolded keys_def])

lemma gomap_ok_mark_all [simp]: "gomap_ok m \<Longrightarrow> gomap_ok (mark_all names m)"
  by (induction names arbitrary: m) (simp_all add: mark_all_def)

lemma sorted_keys: "gomap_ok m \<Longrightarrow> sorted_wrt (<) (sort (map fst m))"
  by (simp add: gomap_ok_def strict_sorted_iff)

lemma permits_generated:
  "permits (GenerateProfile g t extra) s \<longleftrightarrow>
     s \<in> set (sg_baseSyscalls g) \<union> set (case get (sg_templateSyscalls g) t of Some xs \<Rightarrow> xs | None \<Rightarrow> []) \<union> set extra"
  by (auto simp: permits_def GenerateProfile_def allow_action_def Let_def split: option.split)

lemma syscall_name_word: "syscall_name line = Some w \<Longrightarrow> w \<noteq> [] \<and> (\<forall>c \<in> set w. word_char c) \<and> prefix w line"
  by (auto simp: syscall_name_def Let_def takeWhile_is_prefix dest: set_takeWhileD split: if_splits)

lemma note_line_eq:
  "note_line text m = (case syscall_name (TrimSpace text) of None \<Rightarrow> m | Some w \<Rightarrow> put m w True)"
proof (cases "syscall_name (TrimSpace text)")
  case None
  then show ?thesis by (simp add: note_line_def Let_def)
next
  case (Some w)
  note w = syscall_name_word [OF Some]
  have "\<not> prefix ''+++'' (TrimSpace text)" "\<not> prefix ''---'' (TrimSpace text)" "TrimSpace text \<noteq> []"
    using w by (cases w; auto simp: prefix_def word_char_def Let_def)+
  moreover have "w \<noteq> ''+++''" "w \<noteq> ''---''" using w by (auto simp: word_char_def)
  ultimately show ?thesis using Some by (simp add: note_line_def ignoredSyscalls_def get_or_def Let_def)
qed

lemma keys_note_lines:
  "fst ` set (fold note_line ls m) = {w. \<exists>l \<in> set ls. syscall_name (TrimSpace l) = Some w} \<union> fst ` set m"
  by (induction ls arbitrary: m) (auto simp: note_line_eq keys_put [unfolded keys_def] split: option.split)

lemma gomap_ok_note_lines: "gomap_ok m \<Longrightarrow> gomap_ok (fold note_line ls m)"
  by (induction ls arbitrary: m) (auto simp: note_line_eq split: option.split)

text \<open>
  A profile learned from a trace permits what the trace shows and nothing else beyond the base. The
  analysis fails exactly when the reading failed or a line is too long; otherwise it lists, in order and
  once each, the names with which lines of the trace begin, and the profile generated from them permits
  exactly the base calls, those of the template and those of the trace.\<close>

theorem learned_profile_exact:
  "(case snd (scan_lines content readErr) of
      Some err \<Rightarrow> AnalyzeStrace content readErr = Inl err
    | None \<Rightarrow> \<exists>names. AnalyzeStrace content readErr = Inr names \<and> sorted_wrt (<) names \<and>
        set names = {w. \<exists>l \<in> set (fst (scan_lines content readErr)). syscall_name (TrimSpace l) = Some w} \<and>
        (\<forall>s. permits (GenerateProfile g t names) s \<longleftrightarrow>
           s \<in> set (sg_baseSyscalls g) \<or> (\<exists>xs. get (sg_templateSyscalls g) t = Some xs \<and> s \<in> set xs) \<or>
           (\<exists>l \<in> set (fst (scan_lines content readErr)). syscall_name (TrimSpace l) = Some s)))"
proof (cases "scan_lines content readErr")
  case (Pair ls err)
  have "sorted_wrt (<) (sort (map fst (fold note_line ls [])))" by (simp add: sorted_keys gomap_ok_note_lines)
  moreover have "set (sort (map fst (fold note_line ls []))) = {w. \<exists>l \<in> set ls. syscall_name (TrimSpace l) = Some w}"
    by (simp add: keys_note_lines)
  ultimately show ?thesis using Pair
    by (auto simp: AnalyzeStrace_def permits_generated split: option.split)
qed

text \<open>Lines of a trace of several processes begin with a process number and are passed over.\<close>

lemma strace_f_ignored: "AnalyzeStrace (''[pid 7] openat(3)'' @ [CHR 0x0A]) None = Inr []"
  by (simp add: AnalyzeStrace_def scan_lines_def drop_CR_def note_line_eq TrimSpace_def is_space_def syscall_name_def word_char_def Let_def)

text \<open>The generated profiles permit what every embedded profile denies, the minimal one too.\<close>

lemma generated_permits_reboot:
  "permits (GenerateProfileForTemplate ''minimal'') ''reboot'' \<and> \<not> permits default_profile ''reboot''"
proof
  have "''reboot'' \<in> set (sg_baseSyscalls NewSeccompProfileGenerator)" by code_simp
  then show "permits (GenerateProfileForTemplate ''minimal'') ''reboot''"
    unfolding GenerateProfileForTemplate_def permits_generated by blast
  show "\<not> permits default_profile ''reboot''" by code_simp
qed

end
