(* ===== verification/Firecracker.thy ===== *)
theory Firecracker
  imports Drivers Typhon Cerberus
begin

text \<open>
  The microVM backend (\<open>src/pkg/tartarus/firecracker_runtime.go\<close>) and the node's three backends
  together. A launch writes the shell script the virtual machine boots into and passes it on the
  kernel's command line; the rest drives a machine through the Firecracker SDK, which is a
  parameter here: a function from a call and the outside's state to an error, if any, and the next
  state. The machine of a stored state is there, since only a started machine is stored.

  What the boot script means is stated against the quoting rules of the POSIX shell (XCU 2.2.1,
  2.2.2 and 2.3), written out in \<open>sh_read\<close> as far as these scripts use them.
\<close>

section \<open>The boot script\<close>

definition standardKernelArgs :: string where
  "standardKernelArgs = ''console=ttyS0 reboot=k panic=1 pci=off '' @ ''randomize_kstack_offset=on audit=1 '' @
     ''init_on_alloc=0 init_on_free=0 '' @ ''oops=panic''"

definition hardenedKernelArgs :: string where
  "hardenedKernelArgs = ''console=ttyS0 reboot=k panic=1 pci=off '' @ ''randomize_kstack_offset=on nosmt mitigations=auto audit=1 '' @
     ''slub_debug=P page_poison=1 pti=on slab_nomerge '' @ ''init_on_alloc=1 init_on_free=1 '' @
     ''mds=full,nosmt l1tf=full,force spec_store_bypass_disable=on '' @ ''tsx=off vsyscall=none debugfs=off oops=panic '' @
     ''lockdown=confidentiality module.sig_enforce=1''"

abbreviation quote :: char where "quote \<equiv> CHR 0x27"
abbreviation backslash :: char where "backslash \<equiv> CHR 0x5C"
abbreviation dquote :: char where "dquote \<equiv> CHR 0x22"

text \<open>\<open>strings.ReplaceAll\<close> for one character.\<close>

definition replace_char :: "char \<Rightarrow> string \<Rightarrow> string \<Rightarrow> string" where
  "replace_char c new s = concat (map (\<lambda>d. if d = c then new else [d]) s)"

definition sh_quoted :: "string \<Rightarrow> string" where
  "sh_quoted s = [quote] @ replace_char quote [quote, backslash, quote, quote] s @ [quote]"

text \<open>\<open>netip.Addr.String\<close> of an IPv4 address.\<close>

definition ip_String :: "32 word \<Rightarrow> string" where
  "ip_String a = itoa (unat (drop_bit 24 a)) @ ''.'' @ itoa (unat (take_bit 8 (drop_bit 16 a))) @ ''.'' @
     itoa (unat (take_bit 8 (drop_bit 8 a))) @ ''.'' @ itoa (unat (take_bit 8 a))"

definition network_script :: "VMConfig \<Rightarrow> string" where
  "network_script cfg =
     (case vm_IP cfg of
        None \<Rightarrow> []
      | Some ip \<Rightarrow>
          ''ip addr add '' @ ip_String ip @ ''/'' @ itoa (snd (vm_CIDR cfg)) @ '' dev eth0; '' @ ''ip link set eth0 up; '' @
          (case vm_Gateway cfg of None \<Rightarrow> [] | Some gw \<Rightarrow> ''ip route add default via '' @ ip_String gw @ ''; ''))"

text \<open>References are resolved through the providers of the node; an unresolved one is kept as it is.\<close>

definition resolve_env :: "outside \<Rightarrow> go_time \<Rightarrow> string \<Rightarrow> secret_provider list option \<Rightarrow> string \<times> secret_provider list option" where
  "resolve_env w now v secrets =
     (if prefix ''env:'' v \<or> prefix ''vault:'' v then
        (case secrets of
           None \<Rightarrow> (case Env_Resolve w v of Inr val \<Rightarrow> (val, None) | Inl _ \<Rightarrow> (v, None))
         | Some ps \<Rightarrow> (case Composite_Resolve w now v ps of (Inr val, ps') \<Rightarrow> (val, Some ps') | (Inl _, ps') \<Rightarrow> (v, Some ps')))
      else (v, secrets))"

fun resolve_envs :: "outside \<Rightarrow> go_time \<Rightarrow> metadata \<Rightarrow> secret_provider list option \<Rightarrow> metadata \<times> secret_provider list option" where
  "resolve_envs w now [] secrets = ([], secrets)"
| "resolve_envs w now ((k, v) # env) secrets =
     (let (val, secrets1) = resolve_env w now v secrets;
          (vals, secrets2) = resolve_envs w now env secrets1
      in ((k, val) # vals, secrets2))"

definition export_script :: "metadata \<Rightarrow> string" where
  "export_script env = concat (map (\<lambda>(k, val). ''export '' @ k @ ''='' @ sh_quoted val @ ''; '') env)"

definition exec_script :: "string list \<Rightarrow> string" where
  "exec_script fullCmd = ''exec'' @ concat (map (\<lambda>part. '' '' @ sh_quoted part) fullCmd)"

definition boot_script :: "VMConfig \<Rightarrow> metadata \<Rightarrow> SandboxRequest \<Rightarrow> string" where
  "boot_script cfg env req = network_script cfg @ export_script env @ exec_script (req_Command req @ req_Args req)"

definition kernel_args ::
    "outside \<Rightarrow> go_time \<Rightarrow> SandboxRequest \<Rightarrow> VMConfig \<Rightarrow> secret_provider list option \<Rightarrow> string \<times> secret_provider list option" where
  "kernel_args w now req cfg secrets =
     (let args = (if req_Hardened req then hardenedKernelArgs else standardKernelArgs)
      in if req_Command req = [] then (args, secrets)
         else let (env, secrets') = resolve_envs w now (req_Env req) secrets;
                  script = boot_script cfg env req
              in (args @ '' init=/bin/sh -- -c '' @ [dquote] @ replace_char dquote [backslash, dquote] script @ [dquote], secrets'))"

section \<open>How a shell reads it\<close>

text \<open>
  The commands of a script, each a list of words: quotes preserve every character up to the next
  quote, a backslash preserves the next character, blanks separate words and a semicolon ends a
  command. A character with any other meaning to the shell is not read, nor is an open quote.
\<close>

definition sh_special :: "char \<Rightarrow> bool" where
  "sh_special c \<longleftrightarrow> c \<in> set ''|&<>()$*?[#~'' \<or> c \<in> {CHR 0x60, dquote, CHR 0x09, CHR 0x0A}"

definition add_char :: "char \<Rightarrow> string option \<Rightarrow> string option" where
  "add_char c cur = Some (case cur of None \<Rightarrow> [c] | Some s \<Rightarrow> s @ [c])"

definition end_word :: "string option \<Rightarrow> string list \<Rightarrow> string list" where
  "end_word cur ws = (case cur of None \<Rightarrow> ws | Some s \<Rightarrow> ws @ [s])"

fun sh_read :: "bool \<Rightarrow> string option \<Rightarrow> string list \<Rightarrow> string list list \<Rightarrow> string \<Rightarrow> string list list option" where
  "sh_read True cur ws cs [] = None"
| "sh_read True cur ws cs (c # s) = (if c = quote then sh_read False cur ws cs s else sh_read True (add_char c cur) ws cs s)"
| "sh_read False cur ws cs [] = Some (cs @ [end_word cur ws])"
| "sh_read False cur ws cs (c # s) =
     (if c = quote then sh_read True (Some (case cur of None \<Rightarrow> [] | Some w \<Rightarrow> w)) ws cs s
      else if c = backslash then (case s of [] \<Rightarrow> None | d # s' \<Rightarrow> sh_read False (add_char d cur) ws cs s')
      else if c = CHR '' '' then sh_read False None (end_word cur ws) cs s
      else if c = CHR '';'' then sh_read False None [] (cs @ [end_word cur ws]) s
      else if sh_special c then None
      else sh_read False (add_char c cur) ws cs s)"

definition sh_commands :: "string \<Rightarrow> string list list option" where
  "sh_commands s = sh_read False None [] [] s"






lemma read_blank: "sh_read False cur ws cs (CHR '' '' # rest) = sh_read False None (end_word cur ws) cs rest"
  by (simp add: sh_special_def)

lemma read_end: "sh_read False cur ws cs ('';'' @ rest) = sh_read False None [] (cs @ [end_word cur ws]) rest"
  by simp

lemma itoa_not_empty [simp]: "itoa n \<noteq> []"
  by (subst itoa.simps) simp














section \<open>How the kernel passes it on\<close>

text \<open>
  The rules of the kernel's command line (\<open>kernel-parameters\<close> and \<open>bootparam(7)\<close>): blanks separate the
  parameters, double quotes protect blanks and are taken off around a parameter or around its value,
  and there is no escape. The parameters after \<open>--\<close> are the arguments of the first program, the one
  that \<open>init=\<close> names.
\<close>

definition kernel_space :: "char \<Rightarrow> bool" where
  "kernel_space c \<longleftrightarrow> c \<in> {CHR '' '', CHR 0x09, CHR 0x0A, CHR 0x0B, CHR 0x0C, CHR 0x0D, CHR 0xA0}"

text \<open>The characters of the next parameter, and what is left of the line.\<close>

fun kernel_split :: "bool \<Rightarrow> string \<Rightarrow> string \<times> string" where
  "kernel_split q [] = ([], [])"
| "kernel_split q (c # s) =
     (if kernel_space c \<and> \<not> q then ([], s)
      else let (w, rest) = kernel_split (if c = dquote then \<not> q else q) s in (c # w, rest))"

definition unquote :: "string \<Rightarrow> string" where
  "unquote w =
     (if w \<noteq> [] \<and> hd w = dquote then (if tl w \<noteq> [] \<and> last w = dquote then butlast (tl w) else tl w) else w)"

definition kernel_param :: "string \<Rightarrow> string" where
  "kernel_param w =
     (let p = unquote w; name = takeWhile (\<lambda>c. c \<noteq> CHR ''='') p; val = dropWhile (\<lambda>c. c \<noteq> CHR ''='') p
      in if name = [] \<or> val = [] then p else name @ ''='' @ unquote (tl val))"

lemma kernel_split_length: "length (snd (kernel_split q s)) \<le> length s"
  by (induction q s rule: kernel_split.induct) (auto simp: case_prod_beta le_SucI)

lemma kernel_split_shorter: "s \<noteq> [] \<Longrightarrow> length (snd (kernel_split q s)) < length s"
  using kernel_split_length by (cases s) (auto simp: case_prod_beta less_Suc_eq_le)

function kernel_words :: "string \<Rightarrow> string list" where
  "kernel_words s =
     (let s1 = dropWhile kernel_space s
      in if s1 = [] then [] else kernel_param (fst (kernel_split False s1)) # kernel_words (snd (kernel_split False s1)))"
  by auto
termination
proof (relation "measure length")
  fix s s1 :: string assume "s1 = dropWhile kernel_space s" "s1 \<noteq> []"
  then show "(snd (kernel_split False s1), s) \<in> measure length"
    using kernel_split_shorter [of s1 False] length_dropWhile_le [of kernel_space s] by simp
qed simp

declare kernel_words.simps [simp del]

definition init_args :: "string \<Rightarrow> string list" where
  "init_args line = tl (dropWhile (\<lambda>p. p \<noteq> ''--'') (kernel_words line))"


lemma kernel_words_Nil [simp]: "kernel_words [] = []"
  by (simp add: kernel_words.simps)














text \<open>A double quote in an argument: the backslash before it escapes nothing, the argument ends at the
  quote, and the shell is given a script with an open quote and a further argument.\<close>

lemma double_quote_cuts_script:
  "let req = zero_SandboxRequest\<lparr>req_Command := [''echo'', [CHR ''a'', dquote, CHR '' '', CHR ''b'']]\<rparr>;
       args = init_args (fst (kernel_args demo_outside 0 req demo_config None))
   in length args = 3 \<and> sh_commands (args ! 1) = None"
  by code_simp

text \<open>A variable's name is not quoted: one with a semicolon in it runs a command in the booting machine.\<close>

lemma name_injects_command:
  "sh_commands (boot_script demo_config [(''A=;reboot;B'', ''v'')] (zero_SandboxRequest\<lparr>req_Command := [''true'']\<rparr>)) =
     Some [[''export'', ''A=''], [''reboot''], [''B=v''], [''exec'', ''true'']]"
  by code_simp

text \<open>A reference to a KMS secret is passed on as it stands, though the node may have a provider for it.\<close>

lemma kms_reference_unresolved: "resolve_env w now (''kms:'' @ name) secrets = (''kms:'' @ name, secrets)"
  by (simp add: resolve_env_def)

section \<open>The microVM runtime\<close>

record fc_machine =
  fc_SocketPath :: string
  fc_KernelImagePath :: string
  fc_KernelArgs :: string
  fc_LogPath :: string
  fc_VcpuCount :: int
  fc_MemSizeMib :: int
  fc_Smt :: bool
  fc_Drive :: string
  fc_Tap :: "string option"
  fc_Snapshot :: "(string \<times> string) option"

text \<open>
  Calls to the SDK and to the system. A machine is known by the pointer its state is stored at;
  \<open>NewMachine\<close> and \<open>StartMachine\<close> carry the pointer it will get, and the arguments
  appended to the VMM's command.
\<close>

datatype fc_call =
    OS os_call
  | WriteSeccomp string SeccompProfile
  | RemoveSocket string
  | NewMachine fc_machine "string list" nat
  | StartMachine nat
  | StopVMM nat
  | PauseVM nat
  | ResumeVM nat
  | SnapshotVM nat string string
  | ShutdownVM nat
  | WaitVM nat

type_synonym 'h fc_sdk = "fc_call \<Rightarrow> 'h \<Rightarrow> string option \<times> 'h"

record vmState =
  fv_SocketPath :: string
  fv_LogPath :: string
  fv_ConsolePath :: string
  fv_StartedAt :: go_time
  fv_Request :: SandboxRequest
  fv_Config :: VMConfig
  fv_ExitCode :: "int option"

record 'h FirecrackerRuntime = "(vmState, 'h) objects" +
  fc_SocketDir :: string
  fc_KernelImage :: string
  fc_RootFSBase :: string
  fc_Secrets :: "secret_provider list option"
  fc_profiles :: profile_cache

definition NewFirecrackerRuntime :: "string \<Rightarrow> string \<Rightarrow> string \<Rightarrow> secret_provider list option \<Rightarrow> 'h \<Rightarrow> 'h FirecrackerRuntime" where
  "NewFirecrackerRuntime socketDir kernelImage rootFSBase secrets h =
     \<lparr>ob_heap = [], ob_index = [], ob_host = h, fc_SocketDir = socketDir, fc_KernelImage = kernelImage, fc_RootFSBase = rootFSBase,
      fc_Secrets = secrets, fc_profiles = []\<rparr>"

definition memSz :: "SandboxRequest \<Rightarrow> int" where
  "memSz req = (if res_Mem (req_Resources req) = 0 then 128 else res_Mem (req_Resources req))"

definition cpuCount :: "SandboxRequest \<Rightarrow> int" where
  "cpuCount req = (let n = go_div (res_CPU (req_Resources req)) 1000 in if n < 1 then 1 else n)"

definition seccomp_class :: "SandboxRequest \<Rightarrow> string" where
  "seccomp_class req = (if memSz req \<le> 128 then ''ember'' else ''default'')"

definition machine_config :: "'h FirecrackerRuntime \<Rightarrow> SandboxRequest \<Rightarrow> VMConfig \<Rightarrow> string \<Rightarrow> fc_machine" where
  "machine_config r req cfg kernelArgs =
     (let restoring = snap_Path (vm_Snapshot cfg) \<noteq> []
      in \<lparr>fc_SocketPath = fc_SocketDir r @ ''/fc-'' @ req_ID req @ ''.sock'',
          fc_KernelImagePath = (if restoring then [] else fc_KernelImage r), fc_KernelArgs = kernelArgs,
          fc_LogPath = fc_SocketDir r @ ''/fc-'' @ req_ID req @ ''.log'',
          fc_VcpuCount = cpuCount req, fc_MemSizeMib = memSz req, fc_Smt = False,
          fc_Drive = (if vm_OverlayFS cfg \<noteq> [] then vm_OverlayFS cfg else fc_RootFSBase r),
          fc_Tap = (if vm_TapDevice cfg \<noteq> [] then Some (vm_TapDevice cfg) else None),
          fc_Snapshot = (if restoring then Some (snap_Path (vm_Snapshot cfg) @ ''.mem'', snap_Path (vm_Snapshot cfg) @ ''.disk'') else None)\<rparr>)"

definition fc_run :: "go_time \<Rightarrow> SandboxRequest \<Rightarrow> SandboxRun" where
  "fc_run now req = zero_SandboxRun\<lparr>run_ID := req_ID req, run_RequestID := req_ID req, run_Status := RunStatusRunning,
     run_StartedAt := now, run_CreatedAt := now, run_UpdatedAt := now\<rparr>"

text \<open>The console file is closed on every path once it has been created.\<close>

definition closing ::
    "'h fc_sdk \<Rightarrow> string \<Rightarrow> fc_call \<Rightarrow> string \<Rightarrow> ('h FirecrackerRuntime \<Rightarrow> (string + 'b) \<times> 'h FirecrackerRuntime)
     \<Rightarrow> 'h FirecrackerRuntime \<Rightarrow> (string + 'b) \<times> 'h FirecrackerRuntime" where
  "closing sdk consolePath c wrapped k r =
     (case attempt sdk c wrapped (\<lambda>r. (Inr (), r)) r of
        (Inl err, r1) \<Rightarrow> (Inl err, ignoring sdk (OS (CloseFile consolePath)) r1)
      | (Inr _, r1) \<Rightarrow> k r1)"

definition start_machine ::
    "'h fc_sdk \<Rightarrow> go_time \<Rightarrow> SandboxRequest \<Rightarrow> VMConfig \<Rightarrow> fc_machine \<Rightarrow> string \<Rightarrow> 'h FirecrackerRuntime
     \<Rightarrow> (string + SandboxRun) \<times> 'h FirecrackerRuntime" where
  "start_machine sdk now req cfg fcCfg seccompPath r =
     (let p = length (ob_heap r); consolePath = fc_SocketDir r @ ''/fc-'' @ req_ID req @ ''.console''
      in closing sdk consolePath (NewMachine fcCfg [''--seccomp-filter'', seccompPath] p) ''failed to create machine: ''
           (closing sdk consolePath (StartMachine p) ''failed to start machine: ''
             (\<lambda>r. (Inr (fc_run now req),
                    Store (req_ID req) \<lparr>fv_SocketPath = fc_SocketPath fcCfg, fv_LogPath = fc_LogPath fcCfg, fv_ConsolePath = consolePath,
                       fv_StartedAt = now, fv_Request = req, fv_Config = cfg, fv_ExitCode = None\<rparr>
                      (ignoring sdk (OS (CloseFile consolePath)) r)))) r)"

definition Firecracker_Launch ::
    "'h fc_sdk \<Rightarrow> outside \<Rightarrow> go_time \<Rightarrow> SandboxRequest \<Rightarrow> VMConfig \<Rightarrow> 'h FirecrackerRuntime
     \<Rightarrow> (string + SandboxRun) \<times> 'h FirecrackerRuntime" where
  "Firecracker_Launch sdk w now req cfg r0 =
     attempt sdk (OS (MkdirAll (fc_SocketDir r0))) ''failed to create socket dir: ''
       (\<lambda>r1. let (kernelArgs, secrets) = kernel_args w now req cfg (fc_Secrets r1);
                  (loaded, profiles) = GetProfileForClass (seccomp_class req) (fc_profiles r1);
                  r2 = r1\<lparr>fc_Secrets := secrets, fc_profiles := profiles\<rparr>;
                  seccompPath = fc_SocketDir r2 @ ''/seccomp-'' @ req_ID req @ ''.json'';
                  consolePath = fc_SocketDir r2 @ ''/fc-'' @ req_ID req @ ''.console''
              in case loaded of
                   Inl err \<Rightarrow> (Inl (''failed to load seccomp profile for class '' @ seccomp_class req @ '': '' @ err), r2)
                 | Inr profile \<Rightarrow>
                     attempt sdk (WriteSeccomp seccompPath profile) ''failed to write seccomp profile: ''
                       (attempt sdk (OS (CreateFile consolePath)) ''failed to create console log: ''
                         (start_machine sdk now req cfg (machine_config r2 req cfg kernelArgs) seccompPath)) r2) r0"

text \<open>The resident pages of a VMM, the second field of its \<open>statm\<close>, where that can be read.\<close>

definition scan_digits :: "string \<Rightarrow> int" where
  "scan_digits s =
     (case s of
        [] \<Rightarrow> 0
      | c # ds \<Rightarrow> if c = CHR ''-'' then - int (dec_value (takeWhile is_digit ds))
                   else if c = CHR ''+'' then int (dec_value (takeWhile is_digit ds))
                   else int (dec_value (takeWhile is_digit s)))"

definition statm_memory :: "string + string \<Rightarrow> int" where
  "statm_memory statm =
     (case statm of
        Inl _ \<Rightarrow> 0
      | Inr content \<Rightarrow> (case str_fields content of _ # pages # _ \<Rightarrow> go_div (scan_digits pages * 4) 1024 | _ \<Rightarrow> 0))"

definition fc_view :: "go_time \<Rightarrow> int \<Rightarrow> vmState \<Rightarrow> SandboxRun" where
  "fc_view now memUsage st = zero_SandboxRun\<lparr>run_ID := req_ID (fv_Request st), run_RequestID := req_ID (fv_Request st),
     run_Status := status_of_exit (fv_ExitCode st), run_ExitCode := fv_ExitCode st, run_StartedAt := fv_StartedAt st,
     run_UpdatedAt := now, run_MemoryUsage := memUsage\<rparr>"

definition Firecracker_Inspect :: "(nat \<Rightarrow> string + string) \<Rightarrow> go_time \<Rightarrow> SandboxID \<Rightarrow> 'h FirecrackerRuntime \<Rightarrow> string + SandboxRun" where
  "Firecracker_Inspect statm now i r =
     (case Load r i of
        None \<Rightarrow> Inl (unknown_sandbox i)
      | Some p \<Rightarrow>
          let st = obj r p
          in Inr (fc_view now (if status_of_exit (fv_ExitCode st) = RunStatusRunning then statm_memory (statm p) else 0) st))"

definition Firecracker_List :: "go_time \<Rightarrow> 'h FirecrackerRuntime \<Rightarrow> SandboxRun list" where
  "Firecracker_List now r = map (fc_view now 0) (entries r)"

definition Firecracker_Kill :: "'h fc_sdk \<Rightarrow> SandboxID \<Rightarrow> 'h FirecrackerRuntime \<Rightarrow> string option \<times> 'h FirecrackerRuntime" where
  "Firecracker_Kill sdk i r =
     (case Load r i of
        None \<Rightarrow> (None, r)
      | Some p \<Rightarrow> (None, ignoring sdk (RemoveSocket (fv_SocketPath (obj r p))) (Delete i (ignoring sdk (StopVMM p) r))))"

definition Firecracker_StreamLogs ::
    "'h fc_sdk \<Rightarrow> (string \<Rightarrow> string option) \<Rightarrow> bool \<Rightarrow> (string + log_tick) list \<Rightarrow> string \<Rightarrow> SandboxID \<Rightarrow> 'h FirecrackerRuntime
     \<Rightarrow> (string option option \<times> string) \<times> 'h FirecrackerRuntime" where
  "Firecracker_StreamLogs sdk w follow ts content i r =
     (case Load r i of
        None \<Rightarrow> ((Some (Some (unknown_sandbox i)), []), r)
      | Some p \<Rightarrow>
          (case command sdk (OS (OpenFile (fv_ConsolePath (obj r p)))) ''failed to open log file: '' r of
             (Some err, r1) \<Rightarrow> ((Some (Some err), []), r1)
           | (None, r1) \<Rightarrow> (copy_or_follow 1024 w follow ts content, r1)))"

definition Firecracker_Allocation :: "'h FirecrackerRuntime \<Rightarrow> ResourceCapacity" where
  "Firecracker_Allocation r =
     foldl (\<lambda>total st. if fv_ExitCode st = None
                       then total\<lparr>cap_CPU := cap_CPU total + vm_CPUs (fv_Config st) * 1000, cap_Mem := cap_Mem total + vm_MemoryMB (fv_Config st)\<rparr>
                       else total) zero_ResourceCapacity (entries r)"

text \<open>A wait blocks in the SDK; afterwards the process's exit code is recorded, or -1 when there is none.\<close>

definition Firecracker_Wait ::
    "'h fc_sdk \<Rightarrow> int option \<Rightarrow> SandboxID \<Rightarrow> 'h FirecrackerRuntime \<Rightarrow> string option \<times> 'h FirecrackerRuntime" where
  "Firecracker_Wait sdk processState i r =
     (case Load r i of
        None \<Rightarrow> (Some (unknown_sandbox i), r)
      | Some p \<Rightarrow>
          (case syscall sdk (WaitVM p) r of
             (err, r1) \<Rightarrow> (err, Assign p (\<lambda>st. st\<lparr>fv_ExitCode := Some (case processState of Some code \<Rightarrow> code | None \<Rightarrow> -1)\<rparr>) r1)))"

definition with_machine ::
    "'h fc_sdk \<Rightarrow> (nat \<Rightarrow> fc_call) \<Rightarrow> SandboxID \<Rightarrow> 'h FirecrackerRuntime \<Rightarrow> string option \<times> 'h FirecrackerRuntime" where
  "with_machine sdk c i r = (case Load r i of None \<Rightarrow> (Some (unknown_sandbox i), r) | Some p \<Rightarrow> syscall sdk (c p) r)"

definition Firecracker_Pause :: "'h fc_sdk \<Rightarrow> SandboxID \<Rightarrow> 'h FirecrackerRuntime \<Rightarrow> string option \<times> 'h FirecrackerRuntime" where
  "Firecracker_Pause sdk = with_machine sdk PauseVM"

definition Firecracker_Resume :: "'h fc_sdk \<Rightarrow> SandboxID \<Rightarrow> 'h FirecrackerRuntime \<Rightarrow> string option \<times> 'h FirecrackerRuntime" where
  "Firecracker_Resume sdk = with_machine sdk ResumeVM"

definition Firecracker_Shutdown :: "'h fc_sdk \<Rightarrow> SandboxID \<Rightarrow> 'h FirecrackerRuntime \<Rightarrow> string option \<times> 'h FirecrackerRuntime" where
  "Firecracker_Shutdown sdk = with_machine sdk ShutdownVM"

definition Firecracker_CreateSnapshot ::
    "'h fc_sdk \<Rightarrow> SandboxID \<Rightarrow> string \<Rightarrow> string \<Rightarrow> 'h FirecrackerRuntime \<Rightarrow> string option \<times> 'h FirecrackerRuntime" where
  "Firecracker_CreateSnapshot sdk i memPath diskPath r =
     (case command sdk (OS (MkdirAll (path_Dir memPath))) ''failed to create snapshot dir: '' r of
        (Some err, r1) \<Rightarrow> (Some err, r1)
      | (None, r1) \<Rightarrow>
          (case command sdk (OS (MkdirAll (path_Dir diskPath))) ''failed to create snapshot dir: '' r1 of
             (Some err, r2) \<Rightarrow> (Some err, r2)
           | (None, r2) \<Rightarrow> with_machine sdk (\<lambda>p. SnapshotVM p memPath diskPath) i r2))"

definition Firecracker_GetConfig :: "SandboxID \<Rightarrow> 'h FirecrackerRuntime \<Rightarrow> string + VMConfig \<times> SandboxRequest" where
  "Firecracker_GetConfig i r =
     (case Load r i of None \<Rightarrow> Inl (unknown_sandbox i) | Some p \<Rightarrow> Inr (fv_Config (obj r p), fv_Request (obj r p)))"

definition Firecracker_Exec :: "SandboxID \<Rightarrow> string list \<Rightarrow> string option" where
  "Firecracker_Exec i cmd = Some ''exec not implemented for Firecracker runtime''"

definition Firecracker_ExecInteractive :: "SandboxID \<Rightarrow> string list \<Rightarrow> string option" where
  "Firecracker_ExecInteractive i cmd = Some ''exec interactive not implemented for Firecracker runtime''"

subsection \<open>What a launch changes\<close>

text \<open>What is left of a runtime when its host, its secrets and its profiles are disregarded.\<close>

definition same_vms :: "'h FirecrackerRuntime \<Rightarrow> 'h FirecrackerRuntime \<Rightarrow> bool" where
  "same_vms r r' \<longleftrightarrow> ob_heap r' = ob_heap r \<and> ob_index r' = ob_index r"

lemma same_vms_simps [simp]:
  "same_vms r (r'\<lparr>ob_host := h\<rparr>) = same_vms r r'" "same_vms r (r'\<lparr>fc_Secrets := x\<rparr>) = same_vms r r'"
  "same_vms r (r'\<lparr>fc_profiles := y\<rparr>) = same_vms r r'" "same_vms r (ignoring sdk c r') = same_vms r r'" "same_vms r r"
  "same_vms (r\<lparr>ob_host := h\<rparr>) r' = same_vms r r'" "same_vms (r\<lparr>fc_Secrets := x\<rparr>) r' = same_vms r r'"
  "same_vms (r\<lparr>fc_profiles := y\<rparr>) r' = same_vms r r'"
  by (simp_all add: same_vms_def objects_simps)

lemma same_vms_tracks: "same_vms r r' \<Longrightarrow> tracks r' i = tracks r i"
  by (simp add: same_vms_def tracks_def Load_def)

lemma closing_cases:
  assumes "closing sdk consolePath c wrapped k r = (x, r')"
  obtains (failed) err where "x = Inl err" "same_vms r r'" | (went_on) h where "k (r\<lparr>ob_host := h\<rparr>) = (x, r')"
proof (cases "attempt sdk c wrapped (\<lambda>r. (Inr (), r)) r")
  case (Pair y r1)
  then show thesis
    by (cases rule: attempt_cases) (use assms Pair failed went_on in \<open>auto simp: closing_def\<close>)
qed

lemma start_machine_cases:
  assumes "start_machine sdk now req cfg fcCfg seccompPath r = (x, r')"
  obtains (failed) err where "x = Inl err" "same_vms r r'"
    | (started) st r1 where "x = Inr (fc_run now req)" "r' = Store (req_ID req) st r1" "same_vms r r1"
        "fv_Request st = req" "fv_Config st = cfg" "fv_ExitCode st = None"
  using assms unfolding start_machine_def Let_def
  by (elim closing_cases) (auto intro: failed started)

lemma Firecracker_Launch_cases:
  assumes "Firecracker_Launch sdk w now req cfg r = (x, r')"
  obtains (failed) err where "x = Inl err" "same_vms r r'"
    | (started) st r1 where "x = Inr (fc_run now req)" "r' = Store (req_ID req) st r1" "same_vms r r1"
        "fv_Request st = req" "fv_Config st = cfg" "fv_ExitCode st = None"
  using assms unfolding Firecracker_Launch_def
  by (elim attempt_cases)
     (auto simp: Let_def split: prod.splits sum.splits elim!: attempt_cases start_machine_cases intro: failed started)

definition firecracker_ops ::
    "'h fc_sdk \<Rightarrow> outside \<Rightarrow> (nat \<Rightarrow> string + string) \<Rightarrow> go_time \<Rightarrow> 'h FirecrackerRuntime SandboxRuntime" where
  "firecracker_ops sdk w statm now =
     \<lparr>rt_Launch = Firecracker_Launch sdk w now, rt_Inspect = (\<lambda>i r. (Firecracker_Inspect statm now i r, r)),
      rt_List = \<lambda>r. Inr (Firecracker_List now r), rt_Kill = Firecracker_Kill sdk, rt_Pause = Firecracker_Pause sdk,
      rt_Resume = Firecracker_Resume sdk, rt_Shutdown = Firecracker_Shutdown sdk, rt_GetConfig = Firecracker_GetConfig,
      rt_Allocation = \<lambda>r. Inr (Firecracker_Allocation r)\<rparr>"

interpretation firecracker: sandbox_runtime "firecracker_ops sdk w statm now" tracks for sdk :: "'h fc_sdk" and w statm now
proof
  fix r r' :: "'h FirecrackerRuntime" and i j :: SandboxID and req cfg run err
  show "tracks r i \<Longrightarrow> \<exists>run r'. rt_Inspect (firecracker_ops sdk w statm now) i r = (Inr run, r')"
    by (auto simp: firecracker_ops_def Firecracker_Inspect_def tracks_def Let_def)
  show "\<not> tracks r i \<Longrightarrow> \<exists>err r'. rt_Inspect (firecracker_ops sdk w statm now) i r = (Inl err, r')"
    by (simp add: firecracker_ops_def Firecracker_Inspect_def tracks_def)
  show "tracks (snd (rt_Inspect (firecracker_ops sdk w statm now) i r)) = tracks r" by (simp add: firecracker_ops_def)
  show "rt_Launch (firecracker_ops sdk w statm now) req cfg r = (Inr run, r') \<Longrightarrow> tracks r' j = (tracks r j \<or> j = req_ID req)"
    by (auto simp: firecracker_ops_def objects_simps same_vms_tracks elim: Firecracker_Launch_cases)
  show "rt_Launch (firecracker_ops sdk w statm now) req cfg r = (Inl err, r') \<Longrightarrow> tracks r' = tracks r"
    by (auto simp: firecracker_ops_def objects_simps same_vms_tracks fun_eq_iff elim: Firecracker_Launch_cases)
  show "tracks r i \<Longrightarrow> fst (rt_Kill (firecracker_ops sdk w statm now) i r) = None"
    by (simp add: firecracker_ops_def Firecracker_Kill_def split: option.split)
  show "tracks (snd (rt_Kill (firecracker_ops sdk w statm now) i r)) j =
      (tracks r j \<and> (j = i \<longrightarrow> fst (rt_Kill (firecracker_ops sdk w statm now) i r) \<noteq> None))"
    by (auto simp: firecracker_ops_def Firecracker_Kill_def ignoring_tracks objects_simps split: option.split) (simp add: tracks_def)
qed

section \<open>The three backends of a node\<close>

text \<open>Two kinds of backend behind one interface: a backend is of the one kind or of the other.\<close>

definition on_sum :: "('x \<Rightarrow> 'a \<Rightarrow> 'y \<times> 'a) \<Rightarrow> ('x \<Rightarrow> 'b \<Rightarrow> 'y \<times> 'b) \<Rightarrow> 'x \<Rightarrow> 'a + 'b \<Rightarrow> 'y \<times> ('a + 'b)" where
  "on_sum f g x = case_sum (\<lambda>a. map_prod id Inl (f x a)) (\<lambda>b. map_prod id Inr (g x b))"

definition sum_ops :: "'a SandboxRuntime \<Rightarrow> 'b SandboxRuntime \<Rightarrow> ('a + 'b) SandboxRuntime" where
  "sum_ops p q =
     \<lparr>rt_Launch = (\<lambda>req. on_sum (rt_Launch p req) (rt_Launch q req)), rt_Inspect = on_sum (rt_Inspect p) (rt_Inspect q),
      rt_List = case_sum (rt_List p) (rt_List q), rt_Kill = on_sum (rt_Kill p) (rt_Kill q),
      rt_Pause = on_sum (rt_Pause p) (rt_Pause q), rt_Resume = on_sum (rt_Resume p) (rt_Resume q),
      rt_Shutdown = on_sum (rt_Shutdown p) (rt_Shutdown q),
      rt_GetConfig = (\<lambda>i. case_sum (rt_GetConfig p i) (rt_GetConfig q i)),
      rt_Allocation = case_sum (rt_Allocation p) (rt_Allocation q)\<rparr>"

lemma sum_routing:
  assumes "sandbox_routing p hasp" "sandbox_routing q hasq"
  shows "sandbox_routing (sum_ops p q) (case_sum hasp hasq)"
proof -
  note laws = sandbox_routing.inspect_known sandbox_routing.inspect_unknown sandbox_routing.inspect_keeps
    sandbox_routing.launch_ok sandbox_routing.kill_known sandbox_routing.kill_removes
  note p = laws [OF assms(1)] and q = laws [OF assms(2)]
  show ?thesis
  proof
    fix x x' :: "'a + 'b" and i j :: SandboxID and req cfg run
    show "case_sum hasp hasq x i \<Longrightarrow> \<exists>run r'. rt_Inspect (sum_ops p q) i x = (Inr run, r')"
      using p(1) q(1) by (cases x) (fastforce simp: sum_ops_def on_sum_def)+
    show "\<not> case_sum hasp hasq x i \<Longrightarrow> \<exists>err r'. rt_Inspect (sum_ops p q) i x = (Inl err, r')"
      using p(2) q(2) by (cases x) (fastforce simp: sum_ops_def on_sum_def)+
    show "case_sum hasp hasq (snd (rt_Inspect (sum_ops p q) i x)) = case_sum hasp hasq x"
      using p(3) q(3) by (cases x) (simp_all add: sum_ops_def on_sum_def)
    show "rt_Launch (sum_ops p q) req cfg x = (Inr run, x') \<Longrightarrow> case_sum hasp hasq x' j = (case_sum hasp hasq x j \<or> j = req_ID req)"
      using p(4) q(4) by (cases x) (auto simp: sum_ops_def on_sum_def map_prod_def split: prod.splits)
    show "case_sum hasp hasq x i \<Longrightarrow> fst (rt_Kill (sum_ops p q) i x) = None"
      using p(5) q(5) by (cases x) (simp_all add: sum_ops_def on_sum_def)
    show "case_sum hasp hasq (snd (rt_Kill (sum_ops p q) i x)) j =
        (case_sum hasp hasq x j \<and> (j = i \<longrightarrow> fst (rt_Kill (sum_ops p q) i x) \<noteq> None))"
      using p(6) q(6) by (cases x) (simp_all add: sum_ops_def on_sum_def)
  qed
qed

text \<open>A launch followed by a kill of the new sandbox leaves every backend with the sandboxes it had.\<close>

context sandbox_routing
begin

lemma launch_then_kill:
  assumes "Unified_Launch rt req cfg u = (Inr run, u1)" "\<And>b. \<not> knows u b (req_ID req)"
  shows "\<exists>b u2. selectRuntime u req = Inr b \<and> get (run_Metadata run) ''runtime_type'' = Some (backend_name b) \<and>
    (\<forall>c j. knows u1 c j \<longleftrightarrow> knows u c j \<or> (c = b \<and> j = req_ID req)) \<and>
    Unified_Kill rt (req_ID req) u1 = (None, u2) \<and> (\<forall>c j. knows u2 c j \<longleftrightarrow> knows u c j)"
proof -
  obtain b where b: "selectRuntime u req = Inr b" "get (run_Metadata run) ''runtime_type'' = Some (backend_name b)"
      "\<forall>c j. knows u1 c j \<longleftrightarrow> knows u c j \<or> (c = b \<and> j = req_ID req)"
    using launch_routed [OF assms(1)] by blast
  have "knows u1 b (req_ID req)" "\<And>c. knows u1 c (req_ID req) \<Longrightarrow> c = b" using b(3) assms(2) by auto
  from kill_routed [OF this] obtain u2 where
    "Unified_Kill rt (req_ID req) u1 = (None, u2)" "\<forall>c j. knows u2 c j \<longleftrightarrow> knows u1 c j \<and> j \<noteq> req_ID req" by blast
  with b assms(2) show ?thesis by blast
qed

end

type_synonym ('h, 'w) node_backend = "'h FirecrackerRuntime + (('h, 'w) WasmRuntime + 'h GVisorRuntime)"

text \<open>
  What the node's operations are parametric in: the SDK (whose calls to the system are the
  system's), the WASM engine, the outside of the secret providers, the \<open>statm\<close> files, the
  clock, whether a module ends at once, and what wakes a shutdown.
\<close>

record ('h, 'w) node_world =
  nw_sdk :: "'h fc_sdk"
  nw_engine :: "'w wazero"
  nw_outside :: outside
  nw_statm :: "nat \<Rightarrow> string + string"
  nw_now :: go_time
  nw_early :: bool
  nw_wakes :: "(gv_event list \<times> wake) list"

definition nw_os :: "('h, 'w) node_world \<Rightarrow> 'h os" where
  "nw_os n c = nw_sdk n (OS c)"

definition node_ops :: "('h, 'w) node_world \<Rightarrow> ('h, 'w) node_backend SandboxRuntime" where
  "node_ops n = sum_ops (firecracker_ops (nw_sdk n) (nw_outside n) (nw_statm n) (nw_now n))
     (sum_ops (wasm_ops (nw_os n) (nw_engine n) (nw_now n) (nw_early n)) (gvisor_ops (nw_os n) (nw_now n) (nw_wakes n)))"

definition backend_tracks :: "('h, 'w) node_backend \<Rightarrow> SandboxID \<Rightarrow> bool" where
  "backend_tracks = case_sum tracks (case_sum tracks tracks)"

interpretation node: sandbox_routing "node_ops n" backend_tracks for n :: "('h, 'w) node_world"
  unfolding node_ops_def backend_tracks_def
  by (intro sum_routing firecracker.sandbox_routing_axioms wasm.sandbox_routing_axioms gvisor.sandbox_routing_axioms)

definition node_has :: "('h, 'w) node_backend UnifiedRuntime \<Rightarrow> backend \<Rightarrow> SandboxID \<Rightarrow> bool" where
  "node_has u b i \<longleftrightarrow> (\<exists>r. at u b = Some r \<and> backend_tracks r i)"

text \<open>
  C20: The unified runtime routes over the backends a node really has (microVM, WASM and gVisor).
  A successful launch puts the sandbox on the backend the selection names and on no other, and
  records that backend in the run; if no backend had the identifier before, a kill reaches that
  same backend, reports success, and leaves every backend with exactly the sandboxes it had.
\<close>

theorem node_routes:
  assumes "Unified_Launch (node_ops n) req cfg u = (Inr run, u1)" and "\<And>b. \<not> node_has u b (req_ID req)"
  shows "\<exists>b u2. selectRuntime u req = Inr b \<and> get (run_Metadata run) ''runtime_type'' = Some (backend_name b) \<and>
    (\<forall>c j. node_has u1 c j \<longleftrightarrow> node_has u c j \<or> (c = b \<and> j = req_ID req)) \<and>
    Unified_Kill (node_ops n) (req_ID req) u1 = (None, u2) \<and> (\<forall>c j. node_has u2 c j \<longleftrightarrow> node_has u c j)"
proof -
  have knows: "node.knows u b i \<longleftrightarrow> node_has u b i" for u b i by (simp add: node.knows_def node_has_def)
  show ?thesis using node.launch_then_kill [OF assms(1)] assms(2) unfolding knows by blast
qed

definition demo_outside :: outside where
  "demo_outside = \<lparr>os_Getenv = (\<lambda>_. []), vault_NewRequest = (\<lambda>_. None), vault_Do = (\<lambda>_. Inl []), vault_Decode = (\<lambda>_. Inl []),
     ssm_GetParameter = (\<lambda>_. Inl [])\<rparr>"

definition demo_world :: "(unit, unit) node_world" where
  "demo_world = \<lparr>nw_sdk = (\<lambda>c. Pair None),
     nw_engine = \<lparr>wz_ReadFile = Inr, wz_Instantiate = Pair None, wz_InstantiateWithConfig = (\<lambda>_ _ _. Pair None)\<rparr>,
     nw_outside = demo_outside, nw_statm = (\<lambda>_. Inl []), nw_now = 5, nw_early = False, nw_wakes = []\<rparr>"

definition demo_node :: "(unit, unit) node_backend UnifiedRuntime" where
  "demo_node = \<lparr>un_microVM = Some (Inl (NewFirecrackerRuntime ''/run'' ''/vmlinux'' ''/rootfs'' None ())),
     un_wasm = Some (Inr (Inl (NewWasmRuntime ''/w'' () ()))), un_gvisor = None, un_defaultRuntime = IsolationMicroVM, un_autoSelect = False\<rparr>"

lemma willing_simps:
  "attempt (\<lambda>c. Pair None) c wrapped k s = k s" "ignoring (\<lambda>c. Pair None) c s = s" "closing (\<lambda>c. Pair None) path c wrapped k r = k r"
  by (simp_all add: attempt_def ignoring_def syscall_def closing_def)

lemma willing_launch:
  "fst (Firecracker_Launch (\<lambda>c. Pair None) w now (zero_SandboxRequest\<lparr>req_ID := i\<rparr>) cfg (NewFirecrackerRuntime a b c None h)) =
     Inr (fc_run now (zero_SandboxRequest\<lparr>req_ID := i\<rparr>))"
  by (simp add: Firecracker_Launch_def willing_simps start_machine_def kernel_args_def Let_def NewFirecrackerRuntime_def
      GetProfileForClass_def GetQuarantineStrictProfile_def loadProfile_def profileFS_def seccomp_class_def memSz_def
      zero_SandboxRequest_def zero_ResourceSpec_def)

theorem node_routes_witness:
  "\<exists>u2. Unified_Kill (node_ops demo_world) ''x'' (snd (Unified_Launch (node_ops demo_world)
       (zero_SandboxRequest\<lparr>req_ID := ''x''\<rparr>) demo_config demo_node)) = (None, u2)"
proof -
  let ?req = "zero_SandboxRequest\<lparr>req_ID := ''x''\<rparr>"
  have empty: "\<not> node_has demo_node b i" for b i
    by (cases b) (simp_all add: node_has_def at_def demo_node_def NewFirecrackerRuntime_def NewWasmRuntime_def backend_tracks_def
        tracks_def Load_def)
  let ?fc = "Firecracker_Launch (\<lambda>c. Pair None) demo_outside 5 ?req demo_config (NewFirecrackerRuntime ''/run'' ''/vmlinux'' ''/rootfs'' None ())"
  obtain r where "?fc = (Inr (fc_run 5 ?req), r)" using willing_launch by (metis prod.collapse)
  then obtain run u1 where launch: "Unified_Launch (node_ops demo_world) ?req demo_config demo_node = (Inr run, u1)"
    by (simp add: Unified_Launch_def selectRuntime_def getRuntimeByType_def at_def demo_node_def node_ops_def sum_ops_def on_sum_def
        firecracker_ops_def demo_world_def zero_SandboxRequest_def)
  with node_routes [OF this] empty show ?thesis by auto
qed

end
