(* ===== verification/Kampe.thy ===== *)
theory Kampe
  imports Hypnos
begin

text \<open>
  Migration of legacy containers to microVMs (\<open>src/pkg/kampe\<close>): the state and the plans of
  \<open>legacy.go\<close>, the migration helpers of the Docker, containerd and gVisor adapters, and the migration
  manager (\<open>migration.go\<close>).

  The adapters are clients of external programs; what a container is inspected to be is an argument of
  their helpers, and the operations that act on it (pause, resume, kill) are those of a runtime, with a
  state of its own. Durations are left out, except the estimate of a plan, and so are the files and
  processes of a container's state, which no adapter fills in.
\<close>

section \<open>Plans and states\<close>

datatype RiskLevel = RiskLevelLow | RiskLevelMedium | RiskLevelHigh

record MigrationChange =
  mc_Type :: string
  mc_Description :: string
  mc_Required :: bool
  mc_AutoFix :: bool

record MigrationPlan =
  mp_ContainerID :: string
  mp_TargetTemplate :: string
  mp_RequiredChanges :: "MigrationChange list"
  mp_EstimatedDowntime :: duration
  mp_RiskLevel :: RiskLevel
  mp_Recommendations :: "string list"

record PortMapping =
  pm_ContainerPort :: int
  pm_HostPort :: int
  pm_Protocol :: string

record ContainerConfig =
  cn_Entrypoint :: "string list"
  cn_Cmd :: "string list"
  cn_WorkingDir :: string
  cn_User :: string
  cn_Env :: "string list"
  cn_Volumes :: "string list"
  cn_Ports :: "PortMapping list"

record ContainerState =
  cs_ID :: string
  cs_Image :: string
  cs_Config :: ContainerConfig
  cs_Environment :: metadata

definition zero_ContainerConfig :: ContainerConfig where
  "zero_ContainerConfig = \<lparr>cn_Entrypoint = [], cn_Cmd = [], cn_WorkingDir = [], cn_User = [], cn_Env = [], cn_Volumes = [], cn_Ports = []\<rparr>"

text \<open>\<open>strings.SplitN(e, "=", 2)\<close>, and the loop over the environment.\<close>

definition env_pair :: "string \<Rightarrow> (string \<times> string) option" where
  "env_pair e = (if CHR ''='' \<in> set e then Some (takeWhile (\<lambda>c. c \<noteq> CHR ''='') e, tl (dropWhile (\<lambda>c. c \<noteq> CHR ''='') e)) else None)"

definition parse_env :: "string list \<Rightarrow> metadata" where
  "parse_env es = fold (\<lambda>e m. case env_pair e of Some (k, v) \<Rightarrow> put m k v | None \<Rightarrow> m) es []"

section \<open>Docker\<close>

text \<open>The parts of a container's description the adapter reads; a port binding with its number and its
  protocol as the library splits them.\<close>

record docker_info =
  di_NetworkMode :: string
  di_Devices :: nat
  di_Privileged :: bool
  di_ImageSize :: "int option"
  di_Mounts :: nat
  di_Image :: string
  di_Entrypoint :: "string list"
  di_Cmd :: "string list"
  di_WorkingDir :: string
  di_User :: string
  di_Env :: "string list"
  di_Volumes :: "string list"
  di_PortBindings :: "(string \<times> string \<times> string list) list"

definition docker_CanMigrate :: "string + docker_info \<Rightarrow> string + bool" where
  "docker_CanMigrate inspected =
     (case inspected of
        Inl err \<Rightarrow> Inl (''failed to inspect container: '' @ err)
      | Inr info \<Rightarrow>
          if di_NetworkMode info = ''host'' then Inr False
          else if di_Devices info > 0 then Inr False
          else Inr True)"

text \<open>The plan of an inspected container, built in the order of the checks.\<close>

definition require_change :: "RiskLevel \<Rightarrow> MigrationChange \<Rightarrow> MigrationPlan \<Rightarrow> MigrationPlan" where
  "require_change risk change plan = plan\<lparr>mp_RiskLevel := risk, mp_RequiredChanges := mp_RequiredChanges plan @ [change]\<rparr>"

definition docker_plan_changes :: "docker_info \<Rightarrow> MigrationPlan \<Rightarrow> MigrationPlan" where
  "docker_plan_changes info plan =
     (let plan = (if di_NetworkMode info = ''host'' then require_change RiskLevelHigh
            \<lparr>mc_Type = ''network'', mc_Description = ''Host network mode not supported in microVM'',
              mc_Required = True, mc_AutoFix = False\<rparr> plan else plan);
          plan = (if di_Devices info > 0 then require_change RiskLevelHigh
            \<lparr>mc_Type = ''resources'', mc_Description = itoa (di_Devices info) @ '' device mounts not supported'',
              mc_Required = True, mc_AutoFix = False\<rparr> plan else plan)
      in if di_Privileged info then require_change RiskLevelMedium
            \<lparr>mc_Type = ''resources'', mc_Description = ''Privileged mode will be disabled (microVM provides isolation)'',
              mc_Required = False, mc_AutoFix = True\<rparr> plan else plan)"

definition docker_plan_advice :: "docker_info \<Rightarrow> MigrationPlan \<Rightarrow> MigrationPlan" where
  "docker_plan_advice info plan =
     (let downtime = (case di_ImageSize info of
                None \<Rightarrow> mp_EstimatedDowntime plan
              | Some bytes \<Rightarrow> max (5 * second) (go_div (go_div bytes (1024 * 1024)) 100 * second))
      in plan\<lparr>mp_EstimatedDowntime := downtime,
           mp_Recommendations := [''Test the migrated workload in staging before production'',
             ''Verify all environment variables are correctly passed''] @
             (if di_Mounts info > 0 then [''Review '' @ itoa (di_Mounts info) @ '' volume mounts for overlay filesystem compatibility'']
              else [])\<rparr>)"

definition docker_MigrateToMicroVM :: "string \<Rightarrow> string + docker_info \<Rightarrow> string + MigrationPlan" where
  "docker_MigrateToMicroVM containerID inspected =
     (case inspected of
        Inl err \<Rightarrow> Inl (''failed to inspect container: '' @ err)
      | Inr info \<Rightarrow> Inr (docker_plan_advice info (docker_plan_changes info
          \<lparr>mp_ContainerID = containerID, mp_TargetTemplate = ''microvm-docker-compatible'', mp_RequiredChanges = [],
            mp_EstimatedDowntime = 0, mp_RiskLevel = RiskLevelLow, mp_Recommendations = []\<rparr>)))"

text \<open>\<open>strconv.Atoi\<close> with its error dropped: the value it returns beside an error is 0, or the nearest
  64-bit number when the text is a number out of range.\<close>

definition atoi :: "string \<Rightarrow> int" where
  "atoi s =
     (let neg = (s \<noteq> [] \<and> hd s = CHR ''-'');
          digits = (if s \<noteq> [] \<and> hd s \<in> {CHR ''-'', CHR ''+''} then tl s else s);
          v = (if neg then - int (dec_value digits) else int (dec_value digits))
      in if digits = [] \<or> \<not> list_all is_digit digits then 0
         else max (- (2 ^ 63)) (min (2 ^ 63 - 1) v))"

definition docker_ExportState :: "string \<Rightarrow> string + docker_info \<Rightarrow> string + ContainerState" where
  "docker_ExportState containerID inspected =
     (case inspected of
        Inl err \<Rightarrow> Inl (''failed to inspect container: '' @ err)
      | Inr info \<Rightarrow>
          Inr \<lparr>cs_ID = containerID, cs_Image = di_Image info,
               cs_Config = \<lparr>cn_Entrypoint = di_Entrypoint info, cn_Cmd = di_Cmd info, cn_WorkingDir = di_WorkingDir info,
                 cn_User = di_User info, cn_Env = di_Env info, cn_Volumes = di_Volumes info,
                 cn_Ports = concat (map (\<lambda>(port, proto, hostPorts).
                   map (\<lambda>hp. \<lparr>pm_ContainerPort = atoi port, pm_HostPort = atoi hp, pm_Protocol = proto\<rparr>) hostPorts) (di_PortBindings info))\<rparr>,
               cs_Environment = parse_env (di_Env info)\<rparr>)"

section \<open>containerd\<close>

record containerd_spec =
  ct_Namespaces :: "(string \<times> string) list option"
  ct_Cwd :: string
  ct_Username :: string
  ct_Env :: "string list"
  ct_Args :: "string list"

record containerd_info =
  ci_Image :: string
  ci_Labels :: metadata

definition containerd_CanMigrate :: "string + (string + containerd_spec) \<Rightarrow> string + bool" where
  "containerd_CanMigrate loaded =
     (case loaded of
        Inl err \<Rightarrow> Inl (''failed to load container: '' @ err)
      | Inr (Inl err) \<Rightarrow> Inl (''failed to get spec: '' @ err)
      | Inr (Inr spec) \<Rightarrow>
          (case ct_Namespaces spec of
             None \<Rightarrow> Inr True
           | Some ns \<Rightarrow> Inr (\<not> list_ex (\<lambda>(typ, path). typ = ''network'' \<and> path \<noteq> []) ns)))"

definition containerd_MigrateToMicroVM :: "string \<Rightarrow> string + (string + containerd_info) \<Rightarrow> string + MigrationPlan" where
  "containerd_MigrateToMicroVM containerID loaded =
     (case loaded of
        Inl err \<Rightarrow> Inl (''failed to load container: '' @ err)
      | Inr (Inl err) \<Rightarrow> Inl (''failed to get container info: '' @ err)
      | Inr (Inr info) \<Rightarrow>
          let plan = \<lparr>mp_ContainerID = containerID, mp_TargetTemplate = ''microvm-containerd-compatible'', mp_RequiredChanges = [],
                mp_EstimatedDowntime = 10 * second, mp_RiskLevel = RiskLevelLow,
                mp_Recommendations = [''Test the migrated workload in staging'', ''Verify environment configuration'']\<rparr>
          in Inr (if get_or [] (ci_Labels info) ''io.containerd.runc.v2.group'' \<noteq> [] then
                    plan\<lparr>mp_Recommendations := mp_Recommendations plan @ [''Container uses cgroup settings that may need adjustment'']\<rparr>
                  else plan))"

text \<open>The state, from the description and the specification, either of which may fail to load.\<close>

definition containerd_ExportState ::
    "string \<Rightarrow> string + ((string + containerd_info) \<times> (string + containerd_spec)) \<Rightarrow> string + ContainerState" where
  "containerd_ExportState containerID loaded =
     (case loaded of
        Inl err \<Rightarrow> Inl (''failed to load container: '' @ err)
      | Inr (Inl err, _) \<Rightarrow> Inl (''failed to get container info: '' @ err)
      | Inr (Inr info, Inl err) \<Rightarrow> Inl (''failed to get spec: '' @ err)
      | Inr (Inr info, Inr spec) \<Rightarrow>
          Inr \<lparr>cs_ID = containerID, cs_Image = ci_Image info,
               cs_Config = zero_ContainerConfig\<lparr>cn_WorkingDir := ct_Cwd spec, cn_User := ct_Username spec, cn_Env := ct_Env spec,
                 cn_Entrypoint := take 1 (ct_Args spec), cn_Cmd := drop 1 (ct_Args spec)\<rparr>,
               cs_Environment = parse_env (ct_Env spec)\<rparr>)"

section \<open>gVisor\<close>

definition gvisor_MigrateToMicroVM :: "string \<Rightarrow> MigrationPlan" where
  "gvisor_MigrateToMicroVM containerID =
     \<lparr>mp_ContainerID = containerID, mp_TargetTemplate = ''microvm-gvisor-compatible'', mp_RequiredChanges = [],
      mp_EstimatedDowntime = 5 * second, mp_RiskLevel = RiskLevelLow,
      mp_Recommendations = [''gVisor workloads are already sandboxed, migration is low risk'',
        ''Verify syscall compatibility between gVisor and microVM'']\<rparr>"

text \<open>A sandbox that the adapter tracks, or else the specification in its bundle.\<close>

definition gvisor_ExportState :: "string \<Rightarrow> SandboxRequest option \<Rightarrow> string + (string + containerd_spec) \<Rightarrow> string + ContainerState" where
  "gvisor_ExportState containerID tracked bundle =
     (case tracked of
        Some req \<Rightarrow>
          Inr \<lparr>cs_ID = containerID, cs_Image = req_Template req,
               cs_Config = zero_ContainerConfig\<lparr>cn_Cmd := req_Command req, cn_WorkingDir := ''/''\<rparr>, cs_Environment = req_Env req\<rparr>
      | None \<Rightarrow>
          (case bundle of
             Inl _ \<Rightarrow> Inl (''sandbox not found: '' @ containerID)
           | Inr (Inl err) \<Rightarrow> Inl (''failed to parse config: '' @ err)
           | Inr (Inr spec) \<Rightarrow>
               Inr \<lparr>cs_ID = containerID, cs_Image = ''gvisor-sandbox'',
                    cs_Config = zero_ContainerConfig\<lparr>cn_WorkingDir := ct_Cwd spec, cn_Env := ct_Env spec,
                      cn_Entrypoint := take 1 (ct_Args spec), cn_Cmd := drop 1 (ct_Args spec)\<rparr>,
                    cs_Environment = parse_env (ct_Env spec)\<rparr>))"

section \<open>The migration manager\<close>

record 's LegacyRuntime =
  lg_runtime :: "'s sandbox_ops"
  lg_MigrateToMicroVM :: "string \<Rightarrow> 's \<Rightarrow> string + MigrationPlan"
  lg_ExportState :: "string \<Rightarrow> 's \<Rightarrow> string + ContainerState"

datatype migration_error =
    AssessmentFailed string
  | RiskTooHigh "MigrationChange list"
  | PauseFailed string
  | ExportFailed string
  | LaunchFailed string
  | VerifyFailed string
  | NotRunning RunStatus
  | RollbackFailed migration_error string

record MigrationResult =
  mg_OriginalID :: string
  mg_NewID :: SandboxID
  mg_Plan :: "MigrationPlan option"
  mg_Error :: "migration_error option"
  mg_RollbackStatus :: string

definition zero_VMConfig :: VMConfig where
  "zero_VMConfig = \<lparr>vm_Snapshot = \<lparr>snap_ID = [], snap_Template = [], snap_CreatedAt = 0, snap_Path = []\<rparr>, vm_OverlayFS = [],
     vm_TapDevice = [], vm_IP = None, vm_Gateway = None, vm_CIDR = (0, 0), vm_CPUs = 0, vm_MemoryMB = 0\<rparr>"

definition translateState :: "nat \<Rightarrow> ContainerState \<Rightarrow> SandboxRequest \<times> VMConfig" where
  "translateState unix state =
     (let req = zero_SandboxRequest\<lparr>req_ID := cs_ID state @ ''-vm-'' @ itoa unix, req_Template := cs_Image state,
            req_Command := cn_Cmd (cs_Config state), req_Env := cs_Environment state,
            req_Resources := zero_ResourceSpec\<lparr>res_CPU := 1000, res_Mem := 512\<rparr>\<rparr>;
          req = (if length (cn_Entrypoint (cs_Config state)) > 0
                 then req\<lparr>req_Command := cn_Entrypoint (cs_Config state), req_Args := cn_Cmd (cs_Config state)\<rparr>
                 else req\<lparr>req_Command := cn_Cmd (cs_Config state)\<rparr>)
      in (req, zero_VMConfig\<lparr>vm_CPUs := 1, vm_MemoryMB := 512\<rparr>))"

text \<open>Launching the target and looking whether it runs: the identifier it got, the error, the target's state.\<close>

definition launch_target ::
    "'t sandbox_ops \<Rightarrow> SandboxRequest \<Rightarrow> VMConfig \<Rightarrow> 't \<Rightarrow> SandboxID \<times> migration_error option \<times> 't" where
  "launch_target tgt req cfg t =
     (case so_Launch tgt [] req cfg t of
        (Inl err, t1) \<Rightarrow> ([], Some (LaunchFailed err), t1)
      | (Inr run, t1) \<Rightarrow>
          (case so_Inspect tgt (run_ID run) t1 of
             Inl err \<Rightarrow> (run_ID run, Some (VerifyFailed err), snd (so_Kill tgt (run_ID run) t1))
           | Inr runState \<Rightarrow>
               if run_Status runState \<noteq> RunStatusRunning
               then (run_ID run, Some (NotRunning (run_Status runState)), snd (so_Kill tgt (run_ID run) t1))
               else (run_ID run, None, t1)))"

text \<open>The deferred end of a migration after the source was paused.\<close>

definition rollback :: "'s LegacyRuntime \<Rightarrow> string \<Rightarrow> MigrationResult \<Rightarrow> 's \<Rightarrow> MigrationResult \<times> 's" where
  "rollback src containerID result s =
     (case mg_Error result of
        None \<Rightarrow> (result\<lparr>mg_RollbackStatus := ''none''\<rparr>, s)
      | Some err \<Rightarrow>
          (case so_Resume (lg_runtime src) containerID s of
             (Some resumeErr, s') \<Rightarrow> (result\<lparr>mg_RollbackStatus := ''failed'', mg_Error := Some (RollbackFailed err resumeErr)\<rparr>, s')
           | (None, s') \<Rightarrow> (result\<lparr>mg_RollbackStatus := ''success''\<rparr>, s')))"

definition Migrate ::
    "'s LegacyRuntime \<Rightarrow> 't sandbox_ops \<Rightarrow> nat \<Rightarrow> string \<Rightarrow> 's \<Rightarrow> 't \<Rightarrow> MigrationResult \<times> 's \<times> 't" where
  "Migrate src tgt unix containerID s t =
     (let result = \<lparr>mg_OriginalID = containerID, mg_NewID = [], mg_Plan = None, mg_Error = None, mg_RollbackStatus = []\<rparr>
      in case lg_MigrateToMicroVM src containerID s of
           Inl err \<Rightarrow> (result\<lparr>mg_Error := Some (AssessmentFailed err)\<rparr>, s, t)
         | Inr plan \<Rightarrow>
             let result = result\<lparr>mg_Plan := Some plan\<rparr>
             in if mp_RiskLevel plan = RiskLevelHigh then (result\<lparr>mg_Error := Some (RiskTooHigh (mp_RequiredChanges plan))\<rparr>, s, t)
                else case so_Pause (lg_runtime src) containerID s of
                  (Some err, s1) \<Rightarrow> (result\<lparr>mg_Error := Some (PauseFailed err)\<rparr>, s1, t)
                | (None, s1) \<Rightarrow>
                    (case lg_ExportState src containerID s1 of
                       Inl err \<Rightarrow> (case rollback src containerID (result\<lparr>mg_Error := Some (ExportFailed err)\<rparr>) s1 of (r, s2) \<Rightarrow> (r, s2, t))
                     | Inr state \<Rightarrow>
                         (case translateState unix state of
                            (req, cfg) \<Rightarrow>
                              (case launch_target tgt req cfg t of
                                 (newID, Some err, t1) \<Rightarrow>
                                   (case rollback src containerID (result\<lparr>mg_NewID := newID, mg_Error := Some err\<rparr>) s1 of (r, s2) \<Rightarrow> (r, s2, t1))
                               | (newID, None, t1) \<Rightarrow>
                                   (case rollback src containerID (result\<lparr>mg_NewID := newID\<rparr>) (snd (so_Kill (lg_runtime src) containerID s1)) of
                                      (r, s2) \<Rightarrow> (r, s2, t1))))))"

section \<open>Assessment\<close>

text \<open>The two fields of a Docker plan the decision rests on.\<close>

lemma docker_plan_risk:
  assumes "docker_MigrateToMicroVM cid (Inr info) = Inr plan"
  shows "mp_RiskLevel plan = (if di_Privileged info then RiskLevelMedium
      else if di_NetworkMode info = ''host'' \<or> di_Devices info > 0 then RiskLevelHigh else RiskLevelLow)"
  using assms by (auto simp: docker_MigrateToMicroVM_def docker_plan_advice_def docker_plan_changes_def require_change_def Let_def)

lemma docker_plan_required:
  assumes "docker_MigrateToMicroVM cid (Inr info) = Inr plan"
  shows "map (\<lambda>c. (mc_Required c, mc_AutoFix c)) (mp_RequiredChanges plan) =
    (if di_NetworkMode info = ''host'' then [(True, False)] else []) @ (if di_Devices info > 0 then [(True, False)] else []) @
    (if di_Privileged info then [(False, True)] else [])"
  using assms by (auto simp: docker_MigrateToMicroVM_def docker_plan_advice_def docker_plan_changes_def require_change_def Let_def)

text \<open>
  The risk of a Docker container is high, and its migration refused, exactly when it cannot be
  migrated and is not privileged. A change that is required and cannot be made automatically is listed
  exactly when the container cannot be migrated, so the plan of a privileged container on the host's network
  lists such a change and is still carried out.\<close>

theorem docker_risk:
  assumes "docker_MigrateToMicroVM cid (Inr info) = Inr plan" "docker_CanMigrate (Inr info) = Inr can"
  shows "(mp_RiskLevel plan = RiskLevelHigh \<longleftrightarrow> \<not> can \<and> \<not> di_Privileged info) \<and>
    (\<not> can \<longleftrightarrow> (\<exists>c \<in> set (mp_RequiredChanges plan). mc_Required c \<and> \<not> mc_AutoFix c))"
proof -
  have "can \<longleftrightarrow> di_NetworkMode info \<noteq> ''host'' \<and> di_Devices info = 0"
    using assms(2) by (auto simp: docker_CanMigrate_def split: if_splits)
  moreover have "(\<exists>c \<in> set (mp_RequiredChanges plan). mc_Required c \<and> \<not> mc_AutoFix c) \<longleftrightarrow>
      (True, False) \<in> set (map (\<lambda>c. (mc_Required c, mc_AutoFix c)) (mp_RequiredChanges plan))" by force
  ultimately show ?thesis
    unfolding docker_plan_risk [OF assms(1)] docker_plan_required [OF assms(1)] by auto
qed

definition demo_info :: docker_info where
  "demo_info = \<lparr>di_NetworkMode = ''host'', di_Devices = 0, di_Privileged = True, di_ImageSize = None, di_Mounts = 0, di_Image = ''alpine'',
     di_Entrypoint = [''/bin/sh''], di_Cmd = [''-c'', ''true''], di_WorkingDir = ''/'', di_User = [], di_Env = [''A=1''], di_Volumes = [],
     di_PortBindings = []\<rparr>"

theorem docker_risk_witness:
  "\<exists>plan. docker_MigrateToMicroVM ''c'' (Inr demo_info) = Inr plan \<and> docker_CanMigrate (Inr demo_info) = Inr False \<and>
     mp_RiskLevel plan \<noteq> RiskLevelHigh"
proof -
  obtain plan where p: "docker_MigrateToMicroVM ''c'' (Inr demo_info) = Inr plan"
    by (simp add: docker_MigrateToMicroVM_def Let_def)
  have c: "docker_CanMigrate (Inr demo_info) = Inr False" by (simp add: docker_CanMigrate_def demo_info_def)
  have "di_Privileged demo_info" by (simp add: demo_info_def)
  with docker_risk [OF p c] p c show ?thesis by blast
qed

text \<open>The containerd adapter answers that a container on another network namespace cannot be migrated, but its
  plan never has a high risk.\<close>

lemma containerd_never_high: "containerd_MigrateToMicroVM cid loaded = Inr plan \<Longrightarrow> mp_RiskLevel plan = RiskLevelLow"
  by (auto simp: containerd_MigrateToMicroVM_def Let_def split: sum.splits if_splits)

section \<open>Translation\<close>

lemma env_pair_append [simp]: "CHR ''='' \<notin> set k \<Longrightarrow> env_pair (k @ ''='' @ v) = Some (k, v)"
proof -
  have "takeWhile (\<lambda>c. c \<noteq> CHR ''='') (k @ CHR ''='' # v) = k \<and> dropWhile (\<lambda>c. c \<noteq> CHR ''='') (k @ CHR ''='' # v) = CHR ''='' # v"
    if "CHR ''='' \<notin> set k"
    using that by (induction k) auto
  then show "CHR ''='' \<notin> set k \<Longrightarrow> ?thesis" by (simp add: env_pair_def)
qed

lemma get_parse_env:
  "get (parse_env (es @ [e])) k = (case env_pair e of Some (k', v) \<Rightarrow> if k = k' then Some v else get (parse_env es) k | None \<Rightarrow> get (parse_env es) k)"
  by (auto simp: parse_env_def split: option.split)

text \<open>The environment as the last setting of each variable.\<close>

lemma parse_env_settings:
  assumes "\<forall>(k, v) \<in> set kvs. CHR ''='' \<notin> set k"
  shows "get (parse_env (map (\<lambda>(k, v). k @ ''='' @ v) kvs)) = map_of (rev kvs)"
  using assms
proof (induction kvs rule: rev_induct)
  case Nil
  then show ?case by (simp add: parse_env_def fun_eq_iff)
next
  case (snoc kv kvs)
  obtain k v where kv: "kv = (k, v)" by (cases kv)
  have "get (parse_env (map (\<lambda>(k, v). k @ ''='' @ v) kvs)) = map_of (rev kvs)" using snoc by simp
  moreover have "CHR ''='' \<notin> set k" using snoc.prems kv by auto
  ultimately show ?case using kv env_pair_append [of k v] by (simp add: fun_eq_iff get_parse_env)
qed

text \<open>
  A migrated Docker or containerd workload is started with the command line and the environment
  it had: the command and the arguments of the request are together the entry point and the command of
  the container, or the arguments of its process, and every variable has the value of its last setting.\<close>

theorem workload_preserved:
  assumes "\<forall>(k, v) \<in> set kvs. CHR ''='' \<notin> set k"
  shows "(di_Env info = map (\<lambda>(k, v). k @ ''='' @ v) kvs \<longrightarrow>
      (\<exists>state. docker_ExportState cid (Inr info) = Inr state \<and>
        req_Command (fst (translateState unix state)) @ req_Args (fst (translateState unix state)) = di_Entrypoint info @ di_Cmd info \<and>
        get (req_Env (fst (translateState unix state))) = map_of (rev kvs))) \<and>
    (ct_Env spec = map (\<lambda>(k, v). k @ ''='' @ v) kvs \<longrightarrow>
      (\<exists>state. containerd_ExportState cid (Inr (Inr i, Inr spec)) = Inr state \<and>
        req_Command (fst (translateState unix state)) @ req_Args (fst (translateState unix state)) = ct_Args spec \<and>
        get (req_Env (fst (translateState unix state))) = map_of (rev kvs)))"
  using parse_env_settings [OF assms]
  by (auto simp: docker_ExportState_def containerd_ExportState_def translateState_def zero_SandboxRequest_def zero_ContainerConfig_def Let_def)

theorem workload_preserved_witness:
  "\<exists>state. docker_ExportState ''c'' (Inr demo_info) = Inr state \<and>
     req_Command (fst (translateState 7 state)) @ req_Args (fst (translateState 7 state)) = [''/bin/sh'', ''-c'', ''true''] \<and>
     get (req_Env (fst (translateState 7 state))) ''A'' = Some ''1''"
proof -
  have "di_Env demo_info = map (\<lambda>(k, v). k @ ''='' @ v) [(''A'', ''1'')]"
    "di_Entrypoint demo_info @ di_Cmd demo_info = [''/bin/sh'', ''-c'', ''true'']" by (simp_all add: demo_info_def)
  moreover have "map_of (rev [(''A'', ''1'')]) ''A'' = Some ''1''" by simp
  ultimately show ?thesis
    using workload_preserved [of "[(''A'', ''1'')]" demo_info "''c''" 7 undefined undefined, THEN conjunct1] by fastforce
qed

text \<open>A tracked gVisor sandbox loses its arguments, and every container its working directory and user.\<close>

lemma gvisor_drops_arguments:
  "\<exists>state. gvisor_ExportState cid (Some req) bundle = Inr state \<and>
     req_Command (fst (translateState unix state)) = req_Command req \<and> req_Args (fst (translateState unix state)) = []"
  by (simp add: gvisor_ExportState_def translateState_def zero_ContainerConfig_def zero_SandboxRequest_def Let_def)

section \<open>Outcome of a migration\<close>

text \<open>What became of the target: a sandbox that is seen running, a launch that failed, or one that did not
  run, on which \<open>Kill\<close> was called, whose own error is dropped.\<close>

definition target_running :: "'t sandbox_ops \<Rightarrow> SandboxRequest \<Rightarrow> VMConfig \<Rightarrow> SandboxID \<Rightarrow> 't \<Rightarrow> 't \<Rightarrow> bool" where
  "target_running tgt req cfg new t t' \<longleftrightarrow> (\<exists>run seen. so_Launch tgt [] req cfg t = (Inr run, t') \<and> new = run_ID run \<and>
     so_Inspect tgt new t' = Inr seen \<and> run_Status seen = RunStatusRunning)"

definition target_dropped :: "'t sandbox_ops \<Rightarrow> SandboxRequest \<Rightarrow> VMConfig \<Rightarrow> SandboxID \<Rightarrow> 't \<Rightarrow> 't \<Rightarrow> bool" where
  "target_dropped tgt req cfg new t t' \<longleftrightarrow> (\<exists>run t1 killErr. so_Launch tgt [] req cfg t = (Inr run, t1) \<and> new = run_ID run \<and>
     (\<forall>seen. so_Inspect tgt new t1 = Inr seen \<longrightarrow> run_Status seen \<noteq> RunStatusRunning) \<and> so_Kill tgt new t1 = (killErr, t'))"

lemma launch_target_cases:
  assumes "launch_target tgt req cfg t = (new, err, t')"
  shows "(err = None \<longrightarrow> target_running tgt req cfg new t t') \<and>
    (err \<noteq> None \<longrightarrow> (\<exists>e. so_Launch tgt [] req cfg t = (Inl e, t')) \<or> target_dropped tgt req cfg new t t')"
proof (cases "so_Launch tgt [] req cfg t")
  case (Pair res t1)
  show ?thesis
  proof (cases res)
    case (Inr run)
    obtain ke t2 where k: "so_Kill tgt (run_ID run) t1 = (ke, t2)" by fastforce
    show ?thesis using assms Pair Inr k
      by (auto simp: launch_target_def target_running_def target_dropped_def split: sum.splits if_splits)
  qed (use assms Pair in \<open>auto simp: launch_target_def\<close>)
qed

lemma rollback_cases:
  assumes "rollback src cid result s = (r, s')"
  shows "mg_Error result = None \<and> r = result\<lparr>mg_RollbackStatus := ''none''\<rparr> \<and> s' = s \<or>
    mg_Error result \<noteq> None \<and> mg_Error r \<noteq> None \<and> s' = snd (so_Resume (lg_runtime src) cid s) \<and>
    mg_RollbackStatus r = (if fst (so_Resume (lg_runtime src) cid s) = None then ''success'' else ''failed'') \<and> mg_NewID r = mg_NewID result"
  using assms by (auto simp: rollback_def split: option.splits prod.splits)

text \<open>
  C28: What a migration has done, given what the runtimes answered. When it succeeds, the sandbox that the
  exported state was translated to is launched and seen running, and \<open>Kill\<close> was called on the paused
  container; an error of that call is dropped, so the container may still be there, paused. When it fails
  before the container is paused, nothing has changed but for a failed attempt to pause it. When it fails
  later, \<open>Resume\<close> was called on the container, and the result says \<open>success\<close> exactly when that call did not
  fail; and of the new sandbox, nothing was launched, or the launch failed, or it was launched, not seen
  running, and \<open>Kill\<close> was called on it, an error of which is dropped.\<close>

theorem migration_outcome:
  assumes "Migrate src tgt unix cid s t = (r, s', t')"
  shows "(mg_Error r = None \<longrightarrow> mg_RollbackStatus r = ''none'' \<and>
      (\<exists>s1 state killErr. so_Pause (lg_runtime src) cid s = (None, s1) \<and> lg_ExportState src cid s1 = Inr state \<and>
        target_running tgt (fst (translateState unix state)) (snd (translateState unix state)) (mg_NewID r) t t' \<and>
        so_Kill (lg_runtime src) cid s1 = (killErr, s'))) \<and>
    (mg_Error r \<noteq> None \<and> mg_RollbackStatus r = [] \<longrightarrow>
      t' = t \<and> (s' = s \<or> (\<exists>e. so_Pause (lg_runtime src) cid s = (Some e, s')))) \<and>
    (mg_Error r \<noteq> None \<and> mg_RollbackStatus r \<noteq> [] \<longrightarrow>
      (\<exists>s1 resumeErr. so_Pause (lg_runtime src) cid s = (None, s1) \<and> so_Resume (lg_runtime src) cid s1 = (resumeErr, s') \<and>
        mg_RollbackStatus r = (if resumeErr = None then ''success'' else ''failed'') \<and>
        ((\<exists>e. lg_ExportState src cid s1 = Inl e) \<and> t' = t \<or>
         (\<exists>state req cfg. lg_ExportState src cid s1 = Inr state \<and> translateState unix state = (req, cfg) \<and>
            ((\<exists>e. so_Launch tgt [] req cfg t = (Inl e, t')) \<or> target_dropped tgt req cfg (mg_NewID r) t t')))))"
proof (cases "\<exists>plan s1. lg_MigrateToMicroVM src cid s = Inr plan \<and> mp_RiskLevel plan \<noteq> RiskLevelHigh \<and>
    so_Pause (lg_runtime src) cid s = (None, s1)")
  case False
  then show ?thesis using assms by (auto simp: Migrate_def Let_def split: sum.splits prod.splits if_splits option.splits)
next
  case True
  then obtain plan s1 where p: "lg_MigrateToMicroVM src cid s = Inr plan" "mp_RiskLevel plan \<noteq> RiskLevelHigh"
    "so_Pause (lg_runtime src) cid s = (None, s1)" by blast
  let ?r = "\<lparr>mg_OriginalID = cid, mg_NewID = [], mg_Plan = Some plan, mg_Error = None, mg_RollbackStatus = []\<rparr>"
  show ?thesis
  proof (cases "lg_ExportState src cid s1")
    case (Inl e)
    then have "rollback src cid (?r\<lparr>mg_Error := Some (ExportFailed e)\<rparr>) s1 = (r, s')" "t' = t"
      using assms p by (auto simp: Migrate_def Let_def split: prod.splits)
    with rollback_cases [OF this(1)] p(3) Inl show ?thesis by (auto simp: prod_eq_iff split: if_splits)
  next
    case (Inr state)
    obtain req cfg where tr: "translateState unix state = (req, cfg)" by fastforce
    obtain new err t1 where l: "launch_target tgt req cfg t = (new, err, t1)" by (metis prod_cases3)
    note lc = launch_target_cases [OF l]
    show ?thesis
    proof (cases err)
      case None
      then have "rollback src cid (?r\<lparr>mg_NewID := new\<rparr>) (snd (so_Kill (lg_runtime src) cid s1)) = (r, s')" "t' = t1"
        using assms p Inr tr l by (auto simp: Migrate_def Let_def split: prod.splits)
      with rollback_cases [OF this(1)] lc None p(3) Inr tr show ?thesis by (auto simp: prod_eq_iff)
    next
      case (Some e)
      then have "rollback src cid (?r\<lparr>mg_NewID := new, mg_Error := Some e\<rparr>) s1 = (r, s')" "t' = t1"
        using assms p Inr tr l by (auto simp: Migrate_def Let_def split: prod.splits)
      with rollback_cases [OF this(1)] lc Some p(3) Inr tr show ?thesis by (auto simp: prod_eq_iff split: if_splits)
    qed
  qed
qed

definition demo_legacy :: "MockRuntime LegacyRuntime" where
  "demo_legacy = \<lparr>lg_runtime = mock_sandbox_ops 5, lg_MigrateToMicroVM = (\<lambda>i s. docker_MigrateToMicroVM i (Inr (demo_info\<lparr>di_NetworkMode := ''bridge''\<rparr>))),
     lg_ExportState = (\<lambda>i s. docker_ExportState i (Inr demo_info))\<rparr>"

definition demo_container :: MockRuntime where
  "demo_container = snd (Mock_Launch None 1 (zero_SandboxRequest\<lparr>req_ID := ''c''\<rparr>) demo_config NewMockRuntime)"

theorem migration_outcome_witness:
  "\<exists>r s' t'. Migrate demo_legacy (mock_sandbox_ops 6) 7 ''c'' demo_container NewMockRuntime = (r, s', t') \<and>
     mg_Error r = None \<and> mg_RollbackStatus r = ''none'' \<and>
     (\<exists>run. so_Inspect (mock_sandbox_ops 6) (mg_NewID r) t' = Inr run \<and> run_Status run = RunStatusRunning)"
proof -
  obtain r s' t' where m: "Migrate demo_legacy (mock_sandbox_ops 6) 7 ''c'' demo_container NewMockRuntime = (r, s', t')"
    by (metis prod_cases3)
  have "mg_Error (fst (Migrate demo_legacy (mock_sandbox_ops 6) 7 ''c'' demo_container NewMockRuntime)) = None" by code_simp
  then show ?thesis using m migration_outcome [OF m] by (auto simp: target_running_def)
qed

end
