(* ===== verification/Adapters.thy ===== *)
theory Adapters
  imports Kampe Drivers
begin

text \<open>
  The sandbox operations of the legacy adapters (\<open>src/pkg/kampe\<close>: \<open>docker_runtime.go\<close>,
  \<open>containerd_runtime.go\<close>, \<open>gvisor_runtime.go\<close>) and the harness that compares runtimes
  (\<open>parity_harness.go\<close>). An adapter keeps a map from sandbox identifiers to pointers, as the
  node's backends do (\<open>objects\<close> of theory Drivers); the engine it drives is a parameter: a
  function from a call and the engine's state to the answer and the next state.

  Copying the streams of an executed command is not modelled. The migration helpers of the
  adapters are in theory Kampe.
\<close>

section \<open>Docker\<close>

record docker_config =
  dc_Image :: string
  dc_Cmd :: "string list"
  dc_Env :: "string list"
  dc_WorkingDir :: string
  dc_Labels :: metadata
  dc_Memory :: int
  dc_NanoCPUs :: int
  dc_Binds :: "string list"
  dc_AutoRemove :: bool

datatype image_answer = ImageFound | ImageMissing | ImageError string

text \<open>What an inspection says of a container's state: running, exit code and the time it finished, as text.\<close>

record docker_state =
  dt_Running :: bool
  dt_ExitCode :: int
  dt_FinishedAt :: string

datatype docker_call =
    ContainerStart string
  | ContainerRemove string
  | ContainerStop string int
  | ContainerPause string
  | ContainerUnpause string
  | CheckpointCreate string string string
  | ImagePull string
  | DrainPull string
  | ContainerExecCreate string "string list" bool
  | ContainerExecAttach string bool

text \<open>The client: every call may change the engine. \<open>docker_ask\<close> answers with an error, if any.\<close>

record 'h docker_client =
  docker_ask :: "docker_call \<Rightarrow> 'h \<Rightarrow> string option \<times> 'h"
  ImageInspect :: "string \<Rightarrow> 'h \<Rightarrow> image_answer"
  ContainerCreate :: "docker_config \<Rightarrow> string \<Rightarrow> 'h \<Rightarrow> (string + string) \<times> 'h"
  ContainerInspect :: "string \<Rightarrow> 'h \<Rightarrow> string + docker_state"
  ContainerLogs :: "string \<Rightarrow> bool \<Rightarrow> 'h \<Rightarrow> string + string"
  parse_RFC3339 :: "string \<Rightarrow> go_time"

record dockerState =
  ds_ContainerID :: string
  ds_Request :: SandboxRequest
  ds_Config :: VMConfig
  ds_StartedAt :: go_time
  ds_ExitCode :: "int option"

type_synonym 'h DockerAdapter = "(dockerState, 'h) objects"

text \<open>A connection is an adapter without containers; creating the client and the ping may fail.\<close>

definition NewDockerAdapter :: "string option \<Rightarrow> string option \<Rightarrow> 'h \<Rightarrow> string + 'h DockerAdapter" where
  "NewDockerAdapter created pinged h =
     (case created of
        Some err \<Rightarrow> Inl (''failed to create docker client: '' @ err)
      | None \<Rightarrow>
          (case pinged of
             Some err \<Rightarrow> Inl (''failed to connect to docker: '' @ err)
           | None \<Rightarrow> Inr \<lparr>ob_heap = [], ob_index = [], ob_host = h\<rparr>))"

definition env_list :: "metadata \<Rightarrow> string list" where
  "env_list env = map (\<lambda>(k, v). k @ ''='' @ v) env"

definition docker_config_of :: "SandboxRequest \<Rightarrow> VMConfig \<Rightarrow> docker_config" where
  "docker_config_of req cfg =
     \<lparr>dc_Image = req_Template req, dc_Cmd = req_Command req @ req_Args req, dc_Env = env_list (req_Env req), dc_WorkingDir = ''/'',
      dc_Labels = [(''tartarus.sandbox.id'', req_ID req)],
      dc_Memory = wrap64 (res_Mem (req_Resources req) * 1024 * 1024), dc_NanoCPUs = wrap64 (res_CPU (req_Resources req) * 1000000),
      dc_Binds = (if vm_OverlayFS cfg \<noteq> [] then [vm_OverlayFS cfg @ '':/overlay:rw''] else []), dc_AutoRemove = False\<rparr>"

definition ensureImage :: "'h docker_client \<Rightarrow> string \<Rightarrow> 'h DockerAdapter \<Rightarrow> string option \<times> 'h DockerAdapter" where
  "ensureImage cl imageName d =
     (case ImageInspect cl imageName (ob_host d) of
        ImageFound \<Rightarrow> (None, d)
      | ImageError err \<Rightarrow> (Some (''failed to inspect image: '' @ err), d)
      | ImageMissing \<Rightarrow>
          (case command (docker_ask cl) (ImagePull imageName) ''failed to pull image: '' d of
             (Some err, d1) \<Rightarrow> (Some err, d1)
           | (None, d1) \<Rightarrow> syscall (docker_ask cl) (DrainPull imageName) d1))"

definition legacy_run :: "go_time \<Rightarrow> SandboxRequest \<Rightarrow> SandboxRun" where
  "legacy_run now req = zero_SandboxRun\<lparr>run_ID := req_ID req, run_RequestID := req_ID req, run_Status := RunStatusRunning,
     run_StartedAt := now, run_CreatedAt := now, run_UpdatedAt := now\<rparr>"

definition docker_create ::
    "'h docker_client \<Rightarrow> SandboxRequest \<Rightarrow> VMConfig \<Rightarrow> 'h DockerAdapter \<Rightarrow> (string + string) \<times> 'h DockerAdapter" where
  "docker_create cl req cfg d =
     (case ContainerCreate cl (docker_config_of req cfg) (''tartarus-'' @ req_ID req) (ob_host d) of
        (Inl err, h) \<Rightarrow> (Inl (''failed to create container: '' @ err), d\<lparr>ob_host := h\<rparr>)
      | (Inr containerID, h) \<Rightarrow> (Inr containerID, d\<lparr>ob_host := h\<rparr>))"

definition Docker_Launch ::
    "'h docker_client \<Rightarrow> go_time \<Rightarrow> SandboxRequest \<Rightarrow> VMConfig \<Rightarrow> 'h DockerAdapter \<Rightarrow> (string + SandboxRun) \<times> 'h DockerAdapter" where
  "Docker_Launch cl now req cfg d =
     (case ensureImage cl (req_Template req) d of
        (Some err, d1) \<Rightarrow> (Inl (''failed to ensure image: '' @ err), d1)
      | (None, d1) \<Rightarrow>
          (case docker_create cl req cfg d1 of
             (Inl err, d2) \<Rightarrow> (Inl err, d2)
           | (Inr containerID, d2) \<Rightarrow>
               (case command (docker_ask cl) (ContainerStart containerID) ''failed to start container: '' d2 of
                  (Some err, d3) \<Rightarrow> (Inl err, ignoring (docker_ask cl) (ContainerRemove containerID) d3)
                | (None, d3) \<Rightarrow>
                    (Inr (legacy_run now req),
                     Store (req_ID req) \<lparr>ds_ContainerID = containerID, ds_Request = req, ds_Config = cfg, ds_StartedAt = now,
                       ds_ExitCode = None\<rparr> d3))))"

definition docker_view :: "'h docker_client \<Rightarrow> go_time \<Rightarrow> SandboxID \<Rightarrow> docker_state \<Rightarrow> dockerState \<Rightarrow> SandboxRun" where
  "docker_view cl now i info st =
     (let exitCode = (if dt_Running info then None else Some (dt_ExitCode info))
      in zero_SandboxRun\<lparr>run_ID := i, run_RequestID := req_ID (ds_Request st), run_Status := status_of_exit exitCode, run_ExitCode := exitCode,
           run_StartedAt := ds_StartedAt st,
           run_FinishedAt := (if \<not> dt_Running info \<and> dt_FinishedAt info \<noteq> [] then parse_RFC3339 cl (dt_FinishedAt info)
                              else run_FinishedAt zero_SandboxRun),
           run_UpdatedAt := now\<rparr>)"

definition Docker_Inspect ::
    "'h docker_client \<Rightarrow> go_time \<Rightarrow> SandboxID \<Rightarrow> 'h DockerAdapter \<Rightarrow> (string + SandboxRun) \<times> 'h DockerAdapter" where
  "Docker_Inspect cl now i d =
     (case Load d i of
        None \<Rightarrow> (Inl (unknown_sandbox i), d)
      | Some p \<Rightarrow>
          (case ContainerInspect cl (ds_ContainerID (obj d p)) (ob_host d) of
             Inl err \<Rightarrow> (Inl (''failed to inspect container: '' @ err), d)
           | Inr info \<Rightarrow>
               (Inr (docker_view cl now i info (obj d p)),
                if dt_Running info then d else Assign p (\<lambda>st. st\<lparr>ds_ExitCode := Some (dt_ExitCode info)\<rparr>) d)))"

text \<open>A listing inspects every entry in turn and keeps those that answer.\<close>

fun list_runs :: "(SandboxID \<Rightarrow> 's \<Rightarrow> (string + SandboxRun) \<times> 's) \<Rightarrow> SandboxID list \<Rightarrow> 's \<Rightarrow> SandboxRun list \<times> 's" where
  "list_runs inspect [] s = ([], s)"
| "list_runs inspect (i # is) s =
     (case inspect i s of
        (Inl _, s1) \<Rightarrow> list_runs inspect is s1
      | (Inr run, s1) \<Rightarrow> (case list_runs inspect is s1 of (runs, s2) \<Rightarrow> (run # runs, s2)))"

definition Docker_List :: "'h docker_client \<Rightarrow> go_time \<Rightarrow> 'h DockerAdapter \<Rightarrow> SandboxRun list \<times> 'h DockerAdapter" where
  "Docker_List cl now d = list_runs (Docker_Inspect cl now) (map fst (ob_index d)) d"

definition Docker_Kill :: "'h docker_client \<Rightarrow> SandboxID \<Rightarrow> 'h DockerAdapter \<Rightarrow> string option \<times> 'h DockerAdapter" where
  "Docker_Kill cl i d =
     (case Load d i of
        None \<Rightarrow> (None, d)
      | Some p \<Rightarrow>
          let cid = ds_ContainerID (obj d p); d1 = ignoring (docker_ask cl) (ContainerStop cid 0) d
          in case command (docker_ask cl) (ContainerRemove cid) ''failed to remove container: '' d1 of
               (Some err, d2) \<Rightarrow> (Some err, d2)
             | (None, d2) \<Rightarrow> (None, Delete i d2))"

definition with_state ::
    "SandboxID \<Rightarrow> ('o \<Rightarrow> ('o, 'h, 'm) objects_scheme \<Rightarrow> string option \<times> ('o, 'h, 'm) objects_scheme)
     \<Rightarrow> ('o, 'h, 'm) objects_scheme \<Rightarrow> string option \<times> ('o, 'h, 'm) objects_scheme" where
  "with_state i k s = (case Load s i of None \<Rightarrow> (Some (unknown_sandbox i), s) | Some p \<Rightarrow> k (obj s p) s)"

definition Docker_Pause :: "'h docker_client \<Rightarrow> SandboxID \<Rightarrow> 'h DockerAdapter \<Rightarrow> string option \<times> 'h DockerAdapter" where
  "Docker_Pause cl i = with_state i (\<lambda>st. command (docker_ask cl) (ContainerPause (ds_ContainerID st)) ''failed to pause container: '')"

definition Docker_Resume :: "'h docker_client \<Rightarrow> SandboxID \<Rightarrow> 'h DockerAdapter \<Rightarrow> string option \<times> 'h DockerAdapter" where
  "Docker_Resume cl i = with_state i (\<lambda>st. command (docker_ask cl) (ContainerUnpause (ds_ContainerID st)) ''failed to unpause container: '')"

definition Docker_CreateSnapshot ::
    "'h docker_client \<Rightarrow> nat \<Rightarrow> SandboxID \<Rightarrow> string \<Rightarrow> string \<Rightarrow> 'h DockerAdapter \<Rightarrow> string option \<times> 'h DockerAdapter" where
  "Docker_CreateSnapshot cl unix i memPath diskPath =
     with_state i (\<lambda>st. command (docker_ask cl) (CheckpointCreate (ds_ContainerID st) (''snapshot-'' @ i @ ''-'' @ itoa unix) memPath)
       ''failed to create checkpoint (requires CRIU): '')"

definition Docker_Shutdown :: "'h docker_client \<Rightarrow> SandboxID \<Rightarrow> 'h DockerAdapter \<Rightarrow> string option \<times> 'h DockerAdapter" where
  "Docker_Shutdown cl i = with_state i (\<lambda>st. command (docker_ask cl) (ContainerStop (ds_ContainerID st) 30) ''failed to stop container: '')"

definition Docker_GetConfig :: "SandboxID \<Rightarrow> 'h DockerAdapter \<Rightarrow> string + VMConfig \<times> SandboxRequest" where
  "Docker_GetConfig i d = (case Load d i of None \<Rightarrow> Inl (unknown_sandbox i) | Some p \<Rightarrow> Inr (ds_Config (obj d p), ds_Request (obj d p)))"

definition Docker_StreamLogs ::
    "'h docker_client \<Rightarrow> (string \<Rightarrow> string option) \<Rightarrow> bool \<Rightarrow> SandboxID \<Rightarrow> 'h DockerAdapter \<Rightarrow> string option \<times> string" where
  "Docker_StreamLogs cl w follow i d =
     (case Load d i of
        None \<Rightarrow> (Some (unknown_sandbox i), [])
      | Some p \<Rightarrow>
          (case ContainerLogs cl (ds_ContainerID (obj d p)) follow (ob_host d) of
             Inl err \<Rightarrow> (Some (''failed to get container logs: '' @ err), [])
           | Inr stream \<Rightarrow> (case w stream of Some err \<Rightarrow> (Some err, []) | None \<Rightarrow> (None, stream))))"

text \<open>The resources of the entries that have not ended; the three adapters count alike.\<close>

definition allocated :: "('o \<Rightarrow> int option) \<Rightarrow> ('o \<Rightarrow> SandboxRequest) \<Rightarrow> ('o, 'h, 'm) objects_scheme \<Rightarrow> ResourceCapacity" where
  "allocated exit request s =
     foldl (\<lambda>total st. if exit st = None
                       then total\<lparr>cap_CPU := cap_CPU total + res_CPU (req_Resources (request st)),
                                  cap_Mem := cap_Mem total + res_Mem (req_Resources (request st))\<rparr>
                       else total) zero_ResourceCapacity (entries s)"

definition Docker_Allocation :: "'h DockerAdapter \<Rightarrow> ResourceCapacity" where
  "Docker_Allocation d = allocated ds_ExitCode ds_Request d"

text \<open>What a wait is woken by: the engine's error, the container's exit code, or the context.\<close>

datatype docker_wait = WaitErr "string option" | WaitStatus int | WaitCtx string

definition Docker_Wait :: "docker_wait \<Rightarrow> SandboxID \<Rightarrow> 'h DockerAdapter \<Rightarrow> string option \<times> 'h DockerAdapter" where
  "Docker_Wait wk i d =
     (case Load d i of
        None \<Rightarrow> (Some (unknown_sandbox i), d)
      | Some p \<Rightarrow>
          (case wk of
             WaitErr err \<Rightarrow> (err, d)
           | WaitStatus code \<Rightarrow> (None, Assign p (\<lambda>st. st\<lparr>ds_ExitCode := Some code\<rparr>) d)
           | WaitCtx err \<Rightarrow> (Some err, d)))"

definition docker_exec :: "'h docker_client \<Rightarrow> bool \<Rightarrow> string list \<Rightarrow> dockerState \<Rightarrow> 'h DockerAdapter \<Rightarrow> string option \<times> 'h DockerAdapter" where
  "docker_exec cl tty cmd st d =
     (case command (docker_ask cl) (ContainerExecCreate (ds_ContainerID st) cmd tty) ''failed to create exec: '' d of
        (Some err, d1) \<Rightarrow> (Some err, d1)
      | (None, d1) \<Rightarrow> command (docker_ask cl) (ContainerExecAttach (ds_ContainerID st) tty) ''failed to attach exec: '' d1)"

definition Docker_Exec :: "'h docker_client \<Rightarrow> SandboxID \<Rightarrow> string list \<Rightarrow> 'h DockerAdapter \<Rightarrow> string option \<times> 'h DockerAdapter" where
  "Docker_Exec cl i cmd = with_state i (docker_exec cl False cmd)"

definition Docker_ExecInteractive :: "'h docker_client \<Rightarrow> SandboxID \<Rightarrow> string list \<Rightarrow> 'h DockerAdapter \<Rightarrow> string option \<times> 'h DockerAdapter" where
  "Docker_ExecInteractive cl i cmd = with_state i (docker_exec cl True cmd)"

section \<open>containerd\<close>

record cd_container =
  cc_Image :: string
  cc_Args :: "string list"
  cc_Env :: "string list option"
  cc_MemoryLimit :: "int option"
  cc_CPUCFS :: "(int \<times> int) option"
  cc_Snapshot :: string
  cc_Labels :: metadata

datatype cd_signal = SIGTERM | SIGKILL

text \<open>Calls to containerd. A task is known by the pointer its state is, or will be, stored at.\<close>

datatype cd_call =
    GetImage string
  | PullImage string
  | NewContainer string cd_container
  | NewTask nat
  | WaitTask nat
  | StartTask nat
  | DeleteTask nat
  | DeleteContainer nat
  | KillTask nat cd_signal
  | PauseTask nat
  | ResumeTask nat
  | CheckpointTask nat string
  | CdMkdirAll string
  | ExecTask nat "string list" bool
  | ExecStart nat
  | ExecWait nat
  | ExecDelete nat

type_synonym 'h containerd = "cd_call \<Rightarrow> 'h \<Rightarrow> string option \<times> 'h"

text \<open>
  The channel the exit status comes through: what was sent and not yet received, and whether it is
  closed. A receive from an empty closed channel gives the zero value; from an open one it blocks.
\<close>

record exit_channel =
  ch_values :: "int list"
  ch_closed :: bool

definition chan_receive :: "exit_channel \<Rightarrow> (int \<times> exit_channel) option" where
  "chan_receive ch =
     (case ch_values ch of
        v # vs \<Rightarrow> Some (v, ch\<lparr>ch_values := vs\<rparr>)
      | [] \<Rightarrow> if ch_closed ch then Some (0, ch) else None)"

record containerdState =
  cd_Request :: SandboxRequest
  cd_Config :: VMConfig
  cd_StartedAt :: go_time
  cd_ExitCode :: "int option"
  cd_ExitChannel :: exit_channel

type_synonym 'h ContainerdAdapter = "(containerdState, 'h) objects"

definition NewContainerdAdapter :: "string option \<Rightarrow> string option \<Rightarrow> 'h \<Rightarrow> string + 'h ContainerdAdapter" where
  "NewContainerdAdapter connected version h =
     (case connected of
        Some err \<Rightarrow> Inl (''failed to connect to containerd: '' @ err)
      | None \<Rightarrow>
          (case version of
             Some err \<Rightarrow> Inl (''failed to get containerd version: '' @ err)
           | None \<Rightarrow> Inr \<lparr>ob_heap = [], ob_index = [], ob_host = h\<rparr>))"

text \<open>The memory limit is passed on as an unsigned number.\<close>

definition cd_container_of :: "SandboxRequest \<Rightarrow> cd_container" where
  "cd_container_of req =
     \<lparr>cc_Image = req_Template req, cc_Args = req_Command req @ req_Args req,
      cc_Env = (if req_Env req \<noteq> [] then Some (env_list (req_Env req)) else None),
      cc_MemoryLimit = (if res_Mem (req_Resources req) > 0 then Some (wrap64 (res_Mem (req_Resources req) * 1024 * 1024) mod 2 ^ 64) else None),
      cc_CPUCFS = (if res_CPU (req_Resources req) > 0 then Some (wrap64 (res_CPU (req_Resources req) * 100), 100000) else None),
      cc_Snapshot = req_ID req @ ''-snapshot'', cc_Labels = [(''tartarus.sandbox.id'', req_ID req)]\<rparr>"

definition get_or_pull :: "'h containerd \<Rightarrow> string \<Rightarrow> 'h ContainerdAdapter \<Rightarrow> string option \<times> 'h ContainerdAdapter" where
  "get_or_pull cd img c =
     (case syscall cd (GetImage img) c of
        (None, c1) \<Rightarrow> (None, c1)
      | (Some _, c1) \<Rightarrow> command cd (PullImage img) (''failed to get or pull image '' @ img @ '': '') c1)"

text \<open>A step of the launch that undoes what came before it when it fails.\<close>

definition undoing ::
    "'h containerd \<Rightarrow> cd_call list \<Rightarrow> cd_call \<Rightarrow> string \<Rightarrow> ('h ContainerdAdapter \<Rightarrow> (string + 'b) \<times> 'h ContainerdAdapter)
     \<Rightarrow> 'h ContainerdAdapter \<Rightarrow> (string + 'b) \<times> 'h ContainerdAdapter" where
  "undoing cd undo step wrapped k c =
     (case command cd step wrapped c of
        (Some err, c1) \<Rightarrow> (Inl err, foldl (\<lambda>c u. ignoring cd u c) c1 undo)
      | (None, c1) \<Rightarrow> k c1)"

definition Containerd_Launch ::
    "'h containerd \<Rightarrow> go_time \<Rightarrow> SandboxRequest \<Rightarrow> VMConfig \<Rightarrow> 'h ContainerdAdapter \<Rightarrow> (string + SandboxRun) \<times> 'h ContainerdAdapter" where
  "Containerd_Launch cd now req cfg c =
     (case get_or_pull cd (req_Template req) c of
        (Some err, c1) \<Rightarrow> (Inl err, c1)
      | (None, c1) \<Rightarrow>
          let p = length (ob_heap c1)
          in undoing cd [] (NewContainer (req_ID req) (cd_container_of req)) ''failed to create container: ''
              (undoing cd [DeleteContainer p] (NewTask p) ''failed to create task: ''
                (undoing cd [DeleteTask p, DeleteContainer p] (WaitTask p) ''failed to wait on task: ''
                  (undoing cd [DeleteTask p, DeleteContainer p] (StartTask p) ''failed to start task: ''
                    (\<lambda>c. (Inr (legacy_run now req),
                           Store (req_ID req) \<lparr>cd_Request = req, cd_Config = cfg, cd_StartedAt = now, cd_ExitCode = None,
                             cd_ExitChannel = \<lparr>ch_values = [], ch_closed = False\<rparr>\<rparr> c))))) c1)"

text \<open>The engine's side of a task's end, and the two readers of the channel: the launch's goroutine and a wait.\<close>

definition containerd_sends :: "nat \<Rightarrow> int \<Rightarrow> 'h ContainerdAdapter \<Rightarrow> 'h ContainerdAdapter" where
  "containerd_sends p code c = Assign p (\<lambda>st. st\<lparr>cd_ExitChannel := \<lparr>ch_values = [code], ch_closed = True\<rparr>\<rparr>) c"

definition containerd_receives :: "nat \<Rightarrow> 'h ContainerdAdapter \<Rightarrow> 'h ContainerdAdapter option" where
  "containerd_receives p c =
     (case chan_receive (cd_ExitChannel (obj c p)) of
        None \<Rightarrow> None
      | Some (code, ch) \<Rightarrow> Some (Assign p (\<lambda>st. st\<lparr>cd_ExitChannel := ch, cd_ExitCode := Some code\<rparr>) c))"

datatype cd_status = CdRunning | CdStopped | CdPaused | CdOther

definition containerd_view :: "go_time \<Rightarrow> string + cd_status \<times> go_time \<Rightarrow> SandboxID \<Rightarrow> containerdState \<Rightarrow> SandboxRun" where
  "containerd_view now task i st =
     (let (exitCode, finishedAt) =
        (case task of
           Inr (CdStopped, exitTime) \<Rightarrow> if cd_ExitCode st = None then (None, run_FinishedAt zero_SandboxRun) else (cd_ExitCode st, exitTime)
         | _ \<Rightarrow> (None, run_FinishedAt zero_SandboxRun))
      in zero_SandboxRun\<lparr>run_ID := i, run_RequestID := req_ID (cd_Request st), run_Status := status_of_exit exitCode,
           run_ExitCode := exitCode, run_StartedAt := cd_StartedAt st, run_FinishedAt := finishedAt, run_UpdatedAt := now\<rparr>)"

definition Containerd_Inspect ::
    "(nat \<Rightarrow> string + cd_status \<times> go_time) \<Rightarrow> go_time \<Rightarrow> SandboxID \<Rightarrow> 'h ContainerdAdapter \<Rightarrow> (string + SandboxRun) \<times> 'h ContainerdAdapter" where
  "Containerd_Inspect tasks now i c =
     (case Load c i of None \<Rightarrow> (Inl (unknown_sandbox i), c) | Some p \<Rightarrow> (Inr (containerd_view now (tasks p) i (obj c p)), c))"

definition Containerd_List ::
    "(nat \<Rightarrow> string + cd_status \<times> go_time) \<Rightarrow> go_time \<Rightarrow> 'h ContainerdAdapter \<Rightarrow> SandboxRun list \<times> 'h ContainerdAdapter" where
  "Containerd_List tasks now c = list_runs (Containerd_Inspect tasks now) (map fst (ob_index c)) c"

definition Containerd_Kill :: "'h containerd \<Rightarrow> SandboxID \<Rightarrow> 'h ContainerdAdapter \<Rightarrow> string option \<times> 'h ContainerdAdapter" where
  "Containerd_Kill cd i c =
     (case Load c i of
        None \<Rightarrow> (None, c)
      | Some p \<Rightarrow>
          let c2 = ignoring cd (DeleteTask p) (ignoring cd (KillTask p SIGKILL) c)
          in case command cd (DeleteContainer p) ''failed to delete container: '' c2 of
               (Some err, c3) \<Rightarrow> (Some err, c3)
             | (None, c3) \<Rightarrow> (None, Delete i c3))"

definition with_task ::
    "SandboxID \<Rightarrow> (nat \<Rightarrow> 'h ContainerdAdapter \<Rightarrow> string option \<times> 'h ContainerdAdapter) \<Rightarrow> 'h ContainerdAdapter \<Rightarrow> string option \<times> 'h ContainerdAdapter" where
  "with_task i k c = (case Load c i of None \<Rightarrow> (Some (unknown_sandbox i), c) | Some p \<Rightarrow> k p c)"

definition Containerd_Pause :: "'h containerd \<Rightarrow> SandboxID \<Rightarrow> 'h ContainerdAdapter \<Rightarrow> string option \<times> 'h ContainerdAdapter" where
  "Containerd_Pause cd i = with_task i (\<lambda>p. command cd (PauseTask p) ''failed to pause task: '')"

definition Containerd_Resume :: "'h containerd \<Rightarrow> SandboxID \<Rightarrow> 'h ContainerdAdapter \<Rightarrow> string option \<times> 'h ContainerdAdapter" where
  "Containerd_Resume cd i = with_task i (\<lambda>p. command cd (ResumeTask p) ''failed to resume task: '')"

definition Containerd_CreateSnapshot ::
    "'h containerd \<Rightarrow> SandboxID \<Rightarrow> string \<Rightarrow> string \<Rightarrow> 'h ContainerdAdapter \<Rightarrow> string option \<times> 'h ContainerdAdapter" where
  "Containerd_CreateSnapshot cd i memPath diskPath =
     with_task i (\<lambda>p c.
       case command cd (CdMkdirAll (path_Dir memPath)) ''failed to create snapshot directory: '' c of
         (Some err, c1) \<Rightarrow> (Some err, c1)
       | (None, c1) \<Rightarrow> command cd (CheckpointTask p (path_Dir memPath)) ''failed to checkpoint task: '' c1)"

text \<open>
  A shutdown receives from the exit channel, without recording what it gets, or times out and kills
  the task (\<open>exited\<close>: which of the two its \<open>select\<close> takes).
\<close>

definition Containerd_Shutdown ::
    "'h containerd \<Rightarrow> bool \<Rightarrow> SandboxID \<Rightarrow> 'h ContainerdAdapter \<Rightarrow> string option \<times> 'h ContainerdAdapter" where
  "Containerd_Shutdown cd exited i =
     with_task i (\<lambda>p c.
       case command cd (KillTask p SIGTERM) ''failed to send SIGTERM: '' c of
         (Some err, c1) \<Rightarrow> (Some err, c1)
       | (None, c1) \<Rightarrow>
           (case (exited, chan_receive (cd_ExitChannel (obj c1 p))) of
              (True, Some (_, ch)) \<Rightarrow> (None, Assign p (\<lambda>st. st\<lparr>cd_ExitChannel := ch\<rparr>) c1)
            | _ \<Rightarrow> syscall cd (KillTask p SIGKILL) c1))"

definition Containerd_GetConfig :: "SandboxID \<Rightarrow> 'h ContainerdAdapter \<Rightarrow> string + VMConfig \<times> SandboxRequest" where
  "Containerd_GetConfig i c = (case Load c i of None \<Rightarrow> Inl (unknown_sandbox i) | Some p \<Rightarrow> Inr (cd_Config (obj c p), cd_Request (obj c p)))"

definition Containerd_StreamLogs :: "SandboxID \<Rightarrow> string option" where
  "Containerd_StreamLogs i = Some ''log streaming requires custom log driver configuration''"

definition Containerd_Allocation :: "'h ContainerdAdapter \<Rightarrow> ResourceCapacity" where
  "Containerd_Allocation c = allocated cd_ExitCode cd_Request c"

text \<open>A wait receives from the channel, or ends with its context's error; otherwise it is still waiting.\<close>

definition Containerd_Wait :: "string option \<Rightarrow> SandboxID \<Rightarrow> 'h ContainerdAdapter \<Rightarrow> string option option \<times> 'h ContainerdAdapter" where
  "Containerd_Wait ctx i c =
     (case Load c i of
        None \<Rightarrow> (Some (Some (unknown_sandbox i)), c)
      | Some p \<Rightarrow>
          (case ctx of
             Some err \<Rightarrow> (Some (Some err), c)
           | None \<Rightarrow> (case containerd_receives p c of None \<Rightarrow> (None, c) | Some c1 \<Rightarrow> (Some None, c1))))"

definition containerd_exec ::
    "'h containerd \<Rightarrow> bool \<Rightarrow> string list \<Rightarrow> nat \<Rightarrow> 'h ContainerdAdapter \<Rightarrow> string option \<times> 'h ContainerdAdapter" where
  "containerd_exec cd tty cmd p c =
     (case command cd (ExecTask p cmd tty) ''failed to exec: '' c of
        (Some err, c1) \<Rightarrow> (Some err, c1)
      | (None, c1) \<Rightarrow>
          (case command cd (ExecStart p) ''failed to start exec: '' c1 of
             (Some err, c2) \<Rightarrow> (Some err, ignoring cd (ExecDelete p) c2)
           | (None, c2) \<Rightarrow> (case syscall cd (ExecWait p) c2 of (err, c3) \<Rightarrow> (err, ignoring cd (ExecDelete p) c3))))"

definition Containerd_Exec :: "'h containerd \<Rightarrow> SandboxID \<Rightarrow> string list \<Rightarrow> 'h ContainerdAdapter \<Rightarrow> string option \<times> 'h ContainerdAdapter" where
  "Containerd_Exec cd i cmd = with_task i (containerd_exec cd False cmd)"

definition Containerd_ExecInteractive ::
    "'h containerd \<Rightarrow> SandboxID \<Rightarrow> string list \<Rightarrow> 'h ContainerdAdapter \<Rightarrow> string option \<times> 'h ContainerdAdapter" where
  "Containerd_ExecInteractive cd i cmd = with_task i (containerd_exec cd True cmd)"

section \<open>The gVisor adapter\<close>

record gvisorState =
  gs_SandboxID :: string
  gs_BundlePath :: string
  gs_Request :: SandboxRequest
  gs_Config :: VMConfig
  gs_StartedAt :: go_time
  gs_ExitCode :: "int option"

record 'h GVisorAdapter = "(gvisorState, 'h) objects" +
  ga_runscPath :: string
  ga_bundleRoot :: string
  ga_platform :: string

text \<open>\<open>lookPath\<close>: the errors of looking up the given path and \<open>runsc\<close>, or the path found.\<close>

definition NewGVisorAdapter :: "'h os \<Rightarrow> (string \<Rightarrow> string + string) \<Rightarrow> string \<Rightarrow> 'h \<Rightarrow> string + 'h GVisorAdapter" where
  "NewGVisorAdapter os lookPath socketPath h =
     (let runscPath = (if socketPath = [] then ''/usr/local/bin/runsc'' else socketPath);
          found = (case lookPath runscPath of
                     Inr _ \<Rightarrow> Inr runscPath
                   | Inl err \<Rightarrow> (case lookPath ''runsc'' of Inr path \<Rightarrow> Inr path | Inl _ \<Rightarrow> Inl (''runsc not found: '' @ err)))
      in case found of
           Inl err \<Rightarrow> Inl err
         | Inr path \<Rightarrow>
             (case os (MkdirAll ''/var/lib/tartarus/gvisor'') h of
                (Some err, h1) \<Rightarrow> Inl (''failed to create bundle root: '' @ err)
              | (None, h1) \<Rightarrow>
                  (case os (StatPath ''/dev/kvm'') h1 of
                     (kvm, h2) \<Rightarrow> Inr \<lparr>ob_heap = [], ob_index = [], ob_host = h2, ga_runscPath = path,
                        ga_bundleRoot = ''/var/lib/tartarus/gvisor'', ga_platform = (if kvm = None then ''kvm'' else ''ptrace'')\<rparr>)))"

text \<open>The adapter builds a specification of its own, as the node's runtime does.\<close>

definition adapter_createOCISpec :: "SandboxRequest \<Rightarrow> OCISpec" where
  "adapter_createOCISpec req =
     (let spec = \<lparr>oci_Version = ''1.0.2'', oci_RootPath = ''rootfs'', oci_Readonly = False, oci_Terminal = False, oci_User = (0, 0),
            oci_Args = req_Command req @ req_Args req, oci_Cwd = ''/'', oci_Env = [],
            oci_Namespaces = [''pid'', ''network'', ''ipc'', ''uts'', ''mount''],
            oci_MemoryLimit = None, oci_CPUQuota = None, oci_CPUPeriod = None\<rparr>;
          spec = spec\<lparr>oci_Env := ''PATH=/usr/local/sbin:/usr/local/bin:/usr/sbin:/usr/bin:/sbin:/bin'' # env_list (req_Env req)\<rparr>;
          spec = (if res_Mem (req_Resources req) > 0
                  then spec\<lparr>oci_MemoryLimit := Some (wrap64 (res_Mem (req_Resources req) * 1024 * 1024))\<rparr> else spec)
      in if res_CPU (req_Resources req) > 0
         then spec\<lparr>oci_CPUQuota := Some (wrap64 (res_CPU (req_Resources req) * 100)), oci_CPUPeriod := Some 100000\<rparr> else spec)"

text \<open>The two specifications agree.\<close>

lemma specs_agree: "adapter_createOCISpec req = createOCISpec req"
  by (simp add: adapter_createOCISpec_def createOCISpec_def env_list_def Let_def)

definition GAdapter_Launch ::
    "'h os \<Rightarrow> go_time \<Rightarrow> SandboxRequest \<Rightarrow> VMConfig \<Rightarrow> 'h GVisorAdapter \<Rightarrow> (string + SandboxRun) \<times> 'h GVisorAdapter" where
  "GAdapter_Launch os now req cfg g =
     (let bundlePath = ga_bundleRoot g @ ''/'' @ req_ID req;
          spec = (adapter_createOCISpec req)\<lparr>oci_RootPath := rootfs_of cfg bundlePath\<rparr>;
          args = [ga_runscPath g, ''--platform='' @ ga_platform g, ''--rootless=false'', ''--network=sandbox'', ''run'', ''--bundle'',
            bundlePath, req_ID req]
      in in_bundle os bundlePath spec (start_runsc os args bundlePath
           (\<lambda>g. (Inr (legacy_run now req),
                  Store (req_ID req) \<lparr>gs_SandboxID = req_ID req, gs_BundlePath = bundlePath, gs_Request = req, gs_Config = cfg,
                    gs_StartedAt = now, gs_ExitCode = None\<rparr> g))) g)"

definition gadapter_exited :: "'h os \<Rightarrow> nat \<Rightarrow> process_end \<Rightarrow> 'h GVisorAdapter \<Rightarrow> 'h GVisorAdapter" where
  "gadapter_exited os p e g =
     Assign p (\<lambda>st. st\<lparr>gs_ExitCode := Some (exit_code_of e)\<rparr>) (ignoring os (CloseFile (gs_BundlePath (obj g p) @ ''/console.log'')) g)"

definition gadapter_view :: "go_time \<Rightarrow> SandboxID \<Rightarrow> gvisorState \<Rightarrow> SandboxRun" where
  "gadapter_view now i st = zero_SandboxRun\<lparr>run_ID := i, run_RequestID := req_ID (gs_Request st), run_Status := status_of_exit (gs_ExitCode st),
     run_ExitCode := gs_ExitCode st, run_StartedAt := gs_StartedAt st,
     run_FinishedAt := (if gs_ExitCode st = None then run_FinishedAt zero_SandboxRun else now), run_UpdatedAt := now\<rparr>"

definition GAdapter_Inspect :: "go_time \<Rightarrow> SandboxID \<Rightarrow> 'h GVisorAdapter \<Rightarrow> (string + SandboxRun) \<times> 'h GVisorAdapter" where
  "GAdapter_Inspect now i g = (case Load g i of None \<Rightarrow> (Inl (unknown_sandbox i), g) | Some p \<Rightarrow> (Inr (gadapter_view now i (obj g p)), g))"

definition GAdapter_List :: "go_time \<Rightarrow> 'h GVisorAdapter \<Rightarrow> SandboxRun list \<times> 'h GVisorAdapter" where
  "GAdapter_List now g = list_runs (GAdapter_Inspect now) (map fst (ob_index g)) g"

definition GAdapter_Kill :: "'h os \<Rightarrow> SandboxID \<Rightarrow> 'h GVisorAdapter \<Rightarrow> string option \<times> 'h GVisorAdapter" where
  "GAdapter_Kill os i g =
     (case Load g i of
        None \<Rightarrow> (None, g)
      | Some p \<Rightarrow> (None, Delete i (runsc_kill os (ga_runscPath g) (gs_SandboxID (obj g p)) (gs_BundlePath (obj g p)) p g)))"

definition GAdapter_Pause :: "'h os \<Rightarrow> SandboxID \<Rightarrow> 'h GVisorAdapter \<Rightarrow> string option \<times> 'h GVisorAdapter" where
  "GAdapter_Pause os i g = with_state i (\<lambda>st. command os (RunProc [ga_runscPath g, ''pause'', gs_SandboxID st]) ''failed to pause sandbox: '') g"

definition GAdapter_Resume :: "'h os \<Rightarrow> SandboxID \<Rightarrow> 'h GVisorAdapter \<Rightarrow> string option \<times> 'h GVisorAdapter" where
  "GAdapter_Resume os i g = with_state i (\<lambda>st. command os (RunProc [ga_runscPath g, ''resume'', gs_SandboxID st]) ''failed to resume sandbox: '') g"

definition GAdapter_CreateSnapshot ::
    "'h os \<Rightarrow> SandboxID \<Rightarrow> string \<Rightarrow> string \<Rightarrow> 'h GVisorAdapter \<Rightarrow> string option \<times> 'h GVisorAdapter" where
  "GAdapter_CreateSnapshot os i memPath diskPath g =
     with_state i (\<lambda>st g.
       case command os (MkdirAll (path_Dir memPath)) ''failed to create snapshot directory: '' g of
         (Some err, g1) \<Rightarrow> (Some err, g1)
       | (None, g1) \<Rightarrow> command os (RunProc [ga_runscPath g, ''checkpoint'', ''--image-path'', path_Dir memPath, gs_SandboxID st])
                         ''failed to checkpoint sandbox: '' g1) g"

text \<open>What the shutdown's \<open>select\<close> takes: the process has ended, the timer, or the context.\<close>

datatype stop_wake = ProcessDone | StopTimer | StopCtx string

definition GAdapter_Shutdown :: "'h os \<Rightarrow> stop_wake \<Rightarrow> SandboxID \<Rightarrow> 'h GVisorAdapter \<Rightarrow> string option \<times> 'h GVisorAdapter" where
  "GAdapter_Shutdown os wk i g =
     with_state i (\<lambda>st g.
       case command os (RunProc [ga_runscPath g, ''kill'', gs_SandboxID st, ''TERM'']) ''failed to send SIGTERM: '' g of
         (Some err, g1) \<Rightarrow> (Some err, g1)
       | (None, g1) \<Rightarrow> (case wk of ProcessDone \<Rightarrow> (None, g1) | StopTimer \<Rightarrow> GAdapter_Kill os i g1 | StopCtx err \<Rightarrow> (Some err, g1))) g"

definition GAdapter_GetConfig :: "SandboxID \<Rightarrow> 'h GVisorAdapter \<Rightarrow> string + VMConfig \<times> SandboxRequest" where
  "GAdapter_GetConfig i g = (case Load g i of None \<Rightarrow> Inl (unknown_sandbox i) | Some p \<Rightarrow> Inr (gs_Config (obj g p), gs_Request (obj g p)))"

definition GAdapter_StreamLogs ::
    "'h os \<Rightarrow> (string \<Rightarrow> string option) \<Rightarrow> bool \<Rightarrow> (string + log_tick) list \<Rightarrow> string \<Rightarrow> SandboxID \<Rightarrow> 'h GVisorAdapter
     \<Rightarrow> (string option option \<times> string) \<times> 'h GVisorAdapter" where
  "GAdapter_StreamLogs os w follow ts content i g =
     (case Load g i of
        None \<Rightarrow> ((Some (Some (unknown_sandbox i)), []), g)
      | Some p \<Rightarrow>
          (case command os (OpenFile (gs_BundlePath (obj g p) @ ''/console.log'')) ''failed to open console log: '' g of
             (Some err, g1) \<Rightarrow> ((Some (Some err), []), g1)
           | (None, g1) \<Rightarrow> (copy_or_follow 1024 w follow ts content, g1)))"

definition GAdapter_Allocation :: "'h GVisorAdapter \<Rightarrow> ResourceCapacity" where
  "GAdapter_Allocation g = allocated gs_ExitCode gs_Request g"

datatype ga_event =
    GA_Launch go_time SandboxRequest VMConfig
  | GA_Kill SandboxID
  | GA_Exit nat process_end

fun ga_step :: "'h os \<Rightarrow> ga_event \<Rightarrow> 'h GVisorAdapter \<Rightarrow> 'h GVisorAdapter" where
  "ga_step os (GA_Launch now req cfg) g = snd (GAdapter_Launch os now req cfg g)"
| "ga_step os (GA_Kill i) g = snd (GAdapter_Kill os i g)"
| "ga_step os (GA_Exit p e) g = (if p < length (ob_heap g) \<and> gs_ExitCode (obj g p) = None then gadapter_exited os p e g else g)"

definition GAdapter_Wait ::
    "'h os \<Rightarrow> (ga_event list \<times> string option) list \<Rightarrow> SandboxID \<Rightarrow> 'h GVisorAdapter \<Rightarrow> string option option \<times> 'h GVisorAdapter" where
  "GAdapter_Wait os ws i g =
     (case Load g i of
        None \<Rightarrow> (Some (Some (unknown_sandbox i)), g)
      | Some p \<Rightarrow> wait_loop (ga_step os) (\<lambda>g. gs_ExitCode (obj g p) \<noteq> None) ws g)"

definition GAdapter_Exec :: "'h os \<Rightarrow> SandboxID \<Rightarrow> string list \<Rightarrow> 'h GVisorAdapter \<Rightarrow> string option \<times> 'h GVisorAdapter" where
  "GAdapter_Exec os i cmd g =
     with_state i (\<lambda>st. command os (RunProc ([ga_runscPath g, ''exec'', gs_SandboxID st, ''--''] @ cmd)) ''failed to exec: '') g"

definition GAdapter_ExecInteractive :: "'h os \<Rightarrow> SandboxID \<Rightarrow> string list \<Rightarrow> 'h GVisorAdapter \<Rightarrow> string option \<times> 'h GVisorAdapter" where
  "GAdapter_ExecInteractive os i cmd g =
     with_state i (\<lambda>st. command os (RunProc ([ga_runscPath g, ''exec'', ''--console-socket'', ''-'', gs_SandboxID st, ''--''] @ cmd)) ''failed to exec: '') g"

definition GAdapter_CanMigrate :: "string \<Rightarrow> string + bool" where
  "GAdapter_CanMigrate containerID = Inr True"

section \<open>The parity harness\<close>

record ExpectedBehavior =
  ex_ExitCode :: "int option"
  ex_StdoutContains :: "string list"
  ex_StderrContains :: "string list"
  ex_MaxDuration :: duration

record ParityTestCase =
  pt_Name :: string
  pt_Request :: SandboxRequest
  pt_Config :: VMConfig
  pt_Expected :: ExpectedBehavior
  pt_SkipRuntimes :: "string list"

record RuntimeResult =
  rr_RuntimeName :: string
  rr_Run :: "SandboxRun option"
  rr_Stdout :: string
  rr_Stderr :: string
  rr_Duration :: duration
  rr_Error :: "string option"

record 'r ParityHarness =
  ph_Runtimes :: "(string, 'r sandbox_ops \<times> 'r) gomap"
  ph_Timeout :: duration

definition NewParityHarness :: "'r ParityHarness" where
  "NewParityHarness = \<lparr>ph_Runtimes = [], ph_Timeout = 60 * second\<rparr>"

definition AddRuntime :: "string \<Rightarrow> 'r sandbox_ops \<times> 'r \<Rightarrow> 'r ParityHarness \<Rightarrow> 'r ParityHarness" where
  "AddRuntime name runtime h = h\<lparr>ph_Runtimes := put (ph_Runtimes h) name runtime\<rparr>"

definition wait_error :: "wait_outcome \<Rightarrow> string option" where
  "wait_error w = (case w of WaitDone \<Rightarrow> None | WaitDeadline \<Rightarrow> Some ''wait failed: context deadline exceeded''
     | WaitError err \<Rightarrow> Some (''wait failed: '' @ err))"

text \<open>One run: the clock in the identifier and the time it took are arguments.\<close>

definition runOnRuntime ::
    "duration \<Rightarrow> nat \<Rightarrow> duration \<Rightarrow> ParityTestCase \<Rightarrow> string \<Rightarrow> 'r sandbox_ops \<Rightarrow> 'r \<Rightarrow> RuntimeResult \<times> 'r" where
  "runOnRuntime timeout nano elapsed tc name rt r =
     (let req = (pt_Request tc)\<lparr>req_ID := pt_Name tc @ ''-'' @ name @ ''-'' @ itoa nano\<rparr>;
          result = \<lparr>rr_RuntimeName = name, rr_Run = None, rr_Stdout = [], rr_Stderr = [], rr_Duration = elapsed, rr_Error = None\<rparr>
      in case so_Launch rt [] req (pt_Config tc) r of
           (Inl err, r1) \<Rightarrow> (result\<lparr>rr_Error := Some (''launch failed: '' @ err)\<rparr>, r1)
         | (Inr run, r1) \<Rightarrow>
             (case so_Wait rt timeout (req_ID req) r1 of
                (waited, r2) \<Rightarrow>
                  (result\<lparr>rr_Run := Some (case so_Inspect rt (req_ID req) r2 of Inr finalRun \<Rightarrow> finalRun | Inl _ \<Rightarrow> run),
                     rr_Stdout := (case so_StreamLogs rt (req_ID req) r2 of Inr out \<Rightarrow> out | Inl _ \<Rightarrow> []),
                     rr_Error := wait_error waited\<rparr>,
                   snd (so_Kill rt (req_ID req) r2))))"

fun run_all ::
    "duration \<Rightarrow> (string \<Rightarrow> nat \<times> duration) \<Rightarrow> ParityTestCase \<Rightarrow> (string, 'r sandbox_ops \<times> 'r) gomap \<Rightarrow> (string, RuntimeResult) gomap" where
  "run_all timeout clock tc [] = []"
| "run_all timeout clock tc ((name, (rt, r)) # rts) =
     (if name \<in> set (pt_SkipRuntimes tc) then run_all timeout clock tc rts
      else (name, fst (runOnRuntime timeout (fst (clock name)) (snd (clock name)) tc name rt r)) # run_all timeout clock tc rts)"

definition RunTest :: "(string \<Rightarrow> nat \<times> duration) \<Rightarrow> ParityTestCase \<Rightarrow> 'r ParityHarness \<Rightarrow> (string, RuntimeResult) gomap" where
  "RunTest clock tc h = run_all (ph_Timeout h) clock tc (ph_Runtimes h)"

definition equalExitCodes :: "int option \<Rightarrow> int option \<Rightarrow> bool" where
  "equalExitCodes a b =
     (case (a, b) of (None, None) \<Rightarrow> True | (None, Some _) \<Rightarrow> False | (Some _, None) \<Rightarrow> False | (Some x, Some y) \<Rightarrow> x = y)"

text \<open>What a comparison reports. A result without an error has a run.\<close>

datatype parity_report =
    NoExitCode string int
  | WrongExitCode string int int
  | ExitCodeMismatch string "int option" string "int option"
  | StdoutMissing string string
  | StderrMissing string string
  | DurationExceeded string duration

datatype parity_verdict = SkippedComparison | Reported "parity_report list"

definition result_exit :: "RuntimeResult \<Rightarrow> int option" where
  "result_exit r = Option.bind (rr_Run r) run_ExitCode"

definition successful :: "(string, RuntimeResult) gomap \<Rightarrow> RuntimeResult list" where
  "successful results = filter (\<lambda>r. rr_Error r = None) (map snd results)"

definition exit_reports :: "ExpectedBehavior \<Rightarrow> RuntimeResult list \<Rightarrow> parity_report list" where
  "exit_reports expected rs =
     (case ex_ExitCode expected of
        None \<Rightarrow> []
      | Some e \<Rightarrow>
          concat (map (\<lambda>r. case result_exit r of
             None \<Rightarrow> [NoExitCode (rr_RuntimeName r) e]
           | Some c \<Rightarrow> if c \<noteq> e then [WrongExitCode (rr_RuntimeName r) e c] else []) rs))"

definition mismatch_reports :: "RuntimeResult list \<Rightarrow> parity_report list" where
  "mismatch_reports rs =
     (case rs of
        [] \<Rightarrow> []
      | ref # others \<Rightarrow>
          concat (map (\<lambda>r. if \<not> equalExitCodes (result_exit ref) (result_exit r)
             then [ExitCodeMismatch (rr_RuntimeName ref) (result_exit ref) (rr_RuntimeName r) (result_exit r)] else []) others))"

definition contains_reports ::
    "(string \<Rightarrow> string \<Rightarrow> parity_report) \<Rightarrow> (RuntimeResult \<Rightarrow> string) \<Rightarrow> string list \<Rightarrow> RuntimeResult list \<Rightarrow> parity_report list" where
  "contains_reports report stream wanted rs =
     concat (map (\<lambda>w. concat (map (\<lambda>r. if \<not> sublist w (stream r) then [report (rr_RuntimeName r) w] else []) rs)) wanted)"

definition duration_reports :: "ExpectedBehavior \<Rightarrow> RuntimeResult list \<Rightarrow> parity_report list" where
  "duration_reports expected rs =
     (if ex_MaxDuration expected > 0
      then concat (map (\<lambda>r. if rr_Duration r > ex_MaxDuration expected then [DurationExceeded (rr_RuntimeName r) (rr_Duration r)] else []) rs)
      else [])"

definition Compare :: "(string, RuntimeResult) gomap \<Rightarrow> ExpectedBehavior \<Rightarrow> parity_verdict" where
  "Compare results expected =
     (let rs = successful results
      in if length rs < 2 then SkippedComparison
         else Reported (exit_reports expected rs @ mismatch_reports rs @
                contains_reports StdoutMissing rr_Stdout (ex_StdoutContains expected) rs @
                contains_reports StderrMissing rr_Stderr (ex_StderrContains expected) rs @ duration_reports expected rs))"

definition parity_case :: "string \<Rightarrow> string list \<Rightarrow> metadata \<Rightarrow> int \<Rightarrow> int \<Rightarrow> string list \<Rightarrow> ParityTestCase" where
  "parity_case name cmd env mem code out =
     \<lparr>pt_Name = name,
      pt_Request = zero_SandboxRequest\<lparr>req_Template := ''alpine:latest'', req_Command := cmd, req_Args := [], req_Env := env,
        req_Resources := zero_ResourceSpec\<lparr>res_CPU := 1000, res_Mem := mem\<rparr>\<rparr>,
      pt_Config = zero_VMConfig,
      pt_Expected = \<lparr>ex_ExitCode = Some code, ex_StdoutContains = out, ex_StderrContains = [], ex_MaxDuration = 30 * second\<rparr>,
      pt_SkipRuntimes = []\<rparr>"

definition StandardParityTests :: "ParityTestCase list" where
  "StandardParityTests =
     [parity_case ''basic-exit-0'' [''true''] [] 128 0 [],
      parity_case ''custom-exit-code'' [''sh'', ''-c'', ''exit 42''] [] 128 42 [],
      parity_case ''echo-stdout'' [''echo'', ''hello-parity-test''] [] 128 0 [''hello-parity-test''],
      parity_case ''environment-variables'' [''sh'', ''-c'', ''echo $TEST_VAR''] [(''TEST_VAR'', ''parity-env-value'')] 128 0 [''parity-env-value''],
      parity_case ''working-directory'' [''pwd''] [] 128 0 [''/''],
      parity_case ''resource-limits'' [''sh'', ''-c'', ''cat /sys/fs/cgroup/memory/memory.limit_in_bytes 2>/dev/null || '' @
        ''cat /sys/fs/cgroup/memory.max 2>/dev/null || echo '' @ [CHR 0x27] @ ''no-cgroup'' @ [CHR 0x27]] [] 256 0 []]"

section \<open>Properties\<close>

lemma equalExitCodes_eq: "equalExitCodes a b \<longleftrightarrow> a = b"
  by (auto simp: equalExitCodes_def split: option.splits)

text \<open>What a clean comparison vouches for, of one result.\<close>

definition as_expected :: "ExpectedBehavior \<Rightarrow> RuntimeResult \<Rightarrow> bool" where
  "as_expected expected r \<longleftrightarrow> (ex_ExitCode expected \<noteq> None \<longrightarrow> result_exit r = ex_ExitCode expected) \<and>
     (\<forall>w \<in> set (ex_StdoutContains expected). sublist w (rr_Stdout r)) \<and>
     (\<forall>w \<in> set (ex_StderrContains expected). sublist w (rr_Stderr r)) \<and>
     (0 < ex_MaxDuration expected \<longrightarrow> rr_Duration r \<le> ex_MaxDuration expected)"

lemma reports_Nil: "concat (map (\<lambda>r. if P r then [f r] else []) rs) = [] \<longleftrightarrow> (\<forall>r \<in> set rs. \<not> P r)"
  by (induction rs) auto

lemma exit_report_Nil: "(case x of None \<Rightarrow> [a] | Some c \<Rightarrow> if c \<noteq> e then [f c] else []) = [] \<longleftrightarrow> x = Some e"
  by (auto split: option.split)

lemma exit_reports_Nil: "exit_reports expected rs = [] \<longleftrightarrow> (ex_ExitCode expected \<noteq> None \<longrightarrow> (\<forall>r \<in> set rs. result_exit r = ex_ExitCode expected))"
  by (cases "ex_ExitCode expected") (simp_all add: exit_reports_def exit_report_Nil)

lemma mismatch_reports_Nil: "mismatch_reports rs = [] \<longleftrightarrow> (\<forall>r \<in> set rs. \<forall>q \<in> set rs. result_exit r = result_exit q)"
proof (cases rs)
  case (Cons a list)
  have "mismatch_reports rs = [] \<longleftrightarrow> (\<forall>r \<in> set list. result_exit a = result_exit r)"
    unfolding mismatch_reports_def Cons list.case reports_Nil equalExitCodes_eq by simp
  then show ?thesis unfolding Cons by (metis list.set_intros(1,2) set_ConsD)
qed (simp add: mismatch_reports_def)

lemma contains_reports_Nil: "contains_reports report stream wanted rs = [] \<longleftrightarrow> (\<forall>r \<in> set rs. \<forall>w \<in> set wanted. sublist w (stream r))"
  by (induction wanted) (auto simp: contains_reports_def reports_Nil)

lemma duration_reports_Nil:
  "duration_reports expected rs = [] \<longleftrightarrow> (0 < ex_MaxDuration expected \<longrightarrow> (\<forall>r \<in> set rs. rr_Duration r \<le> ex_MaxDuration expected))"
proof (cases "0 < ex_MaxDuration expected")
  case True
  then show ?thesis by (simp only: duration_reports_def if_True reports_Nil not_less simp_thms)
qed (simp add: duration_reports_def)

text \<open>
  A comparison of runtimes reports nothing exactly when there is something to compare and
  nothing to report: at least two runtimes ran the workload without an error, each of them
  behaved as expected (exit code, output, duration), and all of them ended with the same exit code.
\<close>

theorem parity_exact:
  "Compare results expected = Reported [] \<longleftrightarrow>
     2 \<le> length (successful results) \<and> (\<forall>r \<in> set (successful results). as_expected expected r) \<and>
     (\<forall>r \<in> set (successful results). \<forall>q \<in> set (successful results). result_exit r = result_exit q)"
  by (auto simp: Compare_def Let_def exit_reports_Nil mismatch_reports_Nil contains_reports_Nil duration_reports_Nil as_expected_def not_less)

text \<open>Standard error is never collected: an expectation of it fails on every runtime.\<close>

lemma stderr_never_collected: "rr_Stderr (fst (runOnRuntime timeout nano elapsed tc name rt r)) = []"
  by (auto simp: runOnRuntime_def Let_def split: prod.splits sum.splits)

definition demo_result :: "string \<Rightarrow> RuntimeResult" where
  "demo_result name = \<lparr>rr_RuntimeName = name, rr_Run = Some (zero_SandboxRun\<lparr>run_ExitCode := Some 0\<rparr>), rr_Stdout = ''hello'', rr_Stderr = [],
     rr_Duration = 1, rr_Error = None\<rparr>"

definition demo_expected :: ExpectedBehavior where
  "demo_expected = \<lparr>ex_ExitCode = Some 0, ex_StdoutContains = [''ell''], ex_StderrContains = [], ex_MaxDuration = 30\<rparr>"

theorem parity_exact_witness:
  "Compare [(''docker'', demo_result ''docker''), (''gvisor'', demo_result ''gvisor'')] demo_expected = Reported []"
proof -
  have "sublist ''ell'' ''hello''" by code_simp
  then show ?thesis
    unfolding parity_exact by (simp add: successful_def demo_result_def demo_expected_def as_expected_def result_exit_def)
qed




lemma GAdapter_Launch_cases:
  assumes "GAdapter_Launch os now req cfg g = (r, g')"
  obtains (failed) err h where "r = Inl err" "g' = g\<lparr>ob_host := h\<rparr>"
    | (started) st h where "r = Inr (legacy_run now req)" "g' = Store (req_ID req) st (g\<lparr>ob_host := h\<rparr>)" "gs_Request st = req"
  using assms unfolding GAdapter_Launch_def Let_def by (elim launch_runsc_cases) (auto intro: failed started)

lemma GAdapter_Kill_result:
  obtains h where "GAdapter_Kill os i g = (None, if tracks g i then Delete i (g\<lparr>ob_host := h\<rparr>) else g)"
proof (cases "Load g i")
  case None
  then show thesis using that by (simp add: GAdapter_Kill_def tracks_def)
next
  case (Some p)
  obtain h where "runsc_kill os (ga_runscPath g) (gs_SandboxID (obj g p)) (gs_BundlePath (obj g p)) p g = g\<lparr>ob_host := h\<rparr>"
    by (rule runsc_kill_hostE)
  then show thesis using that [of h] Some by (simp add: GAdapter_Kill_def tracks_def)
qed

definition gadapter_ops :: "'h os \<Rightarrow> go_time \<Rightarrow> stop_wake \<Rightarrow> 'h GVisorAdapter SandboxRuntime" where
  "gadapter_ops os now wk =
     \<lparr>rt_Launch = GAdapter_Launch os now, rt_Inspect = GAdapter_Inspect now, rt_List = \<lambda>g. Inr (fst (GAdapter_List now g)),
      rt_Kill = GAdapter_Kill os, rt_Pause = GAdapter_Pause os, rt_Resume = GAdapter_Resume os, rt_Shutdown = GAdapter_Shutdown os wk,
      rt_GetConfig = GAdapter_GetConfig, rt_Allocation = \<lambda>g. Inr (GAdapter_Allocation g)\<rparr>"

interpretation gadapter: sandbox_runtime "gadapter_ops os now wk" tracks for os :: "'h os" and now wk
proof
  fix g g' :: "'h GVisorAdapter" and i j :: SandboxID and req cfg run err
  show "tracks g i \<Longrightarrow> \<exists>run r'. rt_Inspect (gadapter_ops os now wk) i g = (Inr run, r')"
    by (auto simp: gadapter_ops_def GAdapter_Inspect_def tracks_def)
  show "\<not> tracks g i \<Longrightarrow> \<exists>err r'. rt_Inspect (gadapter_ops os now wk) i g = (Inl err, r')"
    by (simp add: gadapter_ops_def GAdapter_Inspect_def tracks_def)
  show "tracks (snd (rt_Inspect (gadapter_ops os now wk) i g)) = tracks g"
    by (simp add: gadapter_ops_def GAdapter_Inspect_def split: option.split)
  show "rt_Launch (gadapter_ops os now wk) req cfg g = (Inr run, g') \<Longrightarrow> tracks g' j = (tracks g j \<or> j = req_ID req)"
    by (auto simp: gadapter_ops_def objects_simps elim: GAdapter_Launch_cases)
  show "rt_Launch (gadapter_ops os now wk) req cfg g = (Inl err, g') \<Longrightarrow> tracks g' = tracks g"
    by (auto simp: gadapter_ops_def objects_simps fun_eq_iff elim: GAdapter_Launch_cases)
  obtain h where kill: "GAdapter_Kill os i g = (None, if tracks g i then Delete i (g\<lparr>ob_host := h\<rparr>) else g)" by (rule GAdapter_Kill_result)
  show "tracks g i \<Longrightarrow> fst (rt_Kill (gadapter_ops os now wk) i g) = None" using kill by (simp add: gadapter_ops_def)
  show "tracks (snd (rt_Kill (gadapter_ops os now wk) i g)) j = (tracks g j \<and> (j = i \<longrightarrow> fst (rt_Kill (gadapter_ops os now wk) i g) \<noteq> None))"
    using kill by (auto simp: gadapter_ops_def objects_simps)
qed

section \<open>Behaviours worth knowing\<close>

text \<open>
  Two readers share the channel of a containerd task, which carries one value: the goroutine of
  the launch takes it, and a wait then receives the zero value of the closed channel and records
  it. A container that failed is reported as succeeded.
\<close>

lemma containerd_exit_code_lost:
  assumes "Load c i = Some p" "p < length (ob_heap c)"
  shows "\<exists>c1 c2. containerd_receives p (containerd_sends p code c) = Some c1 \<and> cd_ExitCode (obj c1 p) = Some code \<and>
    Containerd_Wait None i c1 = (Some None, c2) \<and> cd_ExitCode (obj c2 p) = Some 0 \<and>
    run_Status (containerd_view now (Inr (CdStopped, t)) i (obj c2 p)) = RunStatusSucceeded"
proof -
  let ?c1 = "Assign p (\<lambda>st. st\<lparr>cd_ExitChannel := \<lparr>ch_values = [], ch_closed = True\<rparr>, cd_ExitCode := Some code\<rparr>) (containerd_sends p code c)"
  let ?c2 = "Assign p (\<lambda>st. st\<lparr>cd_ExitChannel := \<lparr>ch_values = [], ch_closed = True\<rparr>, cd_ExitCode := Some 0\<rparr>) ?c1"
  have "containerd_receives p (containerd_sends p code c) = Some ?c1" "cd_ExitCode (obj ?c1 p) = Some code"
    "containerd_receives p ?c1 = Some ?c2" "Load ?c1 i = Some p" "cd_ExitCode (obj ?c2 p) = Some 0"
    using assms by (simp_all add: containerd_receives_def containerd_sends_def chan_receive_def objects_simps)
  then show ?thesis by (auto simp: Containerd_Wait_def containerd_view_def status_of_exit_def)
qed

text \<open>
  The assessment of a Docker migration looks the container up in Docker, the pause in the adapter's
  map of sandboxes. Docker's identifier of a container is not a sandbox of the adapter, so the
  migration of a container by that identifier ends when it cannot be paused.
\<close>

definition docker_legacy :: "'h docker_client \<Rightarrow> (string \<Rightarrow> string + docker_info) \<Rightarrow> 'h DockerAdapter sandbox_ops \<Rightarrow> 'h DockerAdapter LegacyRuntime" where
  "docker_legacy cl info rest =
     \<lparr>lg_runtime = rest\<lparr>so_Pause := Docker_Pause cl, so_Resume := Docker_Resume cl, so_Kill := Docker_Kill cl\<rparr>,
      lg_MigrateToMicroVM = (\<lambda>cid d. docker_MigrateToMicroVM cid (info cid)), lg_ExportState = (\<lambda>cid d. docker_ExportState cid (info cid))\<rparr>"

lemma docker_migration_not_paused:
  assumes "\<not> tracks d cid" "docker_MigrateToMicroVM cid (info cid) = Inr plan" "mp_RiskLevel plan \<noteq> RiskLevelHigh"
  shows "mg_Error (fst (Migrate (docker_legacy cl info rest) tgt unix cid d t)) = Some (PauseFailed (unknown_sandbox cid))"
  using assms by (simp add: Migrate_def docker_legacy_def Docker_Pause_def with_state_def tracks_def Let_def)

end
