(* ===== verification/Erebus.thy ===== *)
theory Erebus
  imports Hypnos
begin

text \<open>
  Images and remote objects (\<open>src/pkg/erebus\<close>): unpacking the layers of an OCI image into a
  directory, injecting the init program and building a disk image (\<open>oci.go\<close>), the vulnerability
  scanner (\<open>scanner.go\<close>) and the S3 store with its local cache (\<open>s3_store.go\<close>).

  A file system is a map from absolute paths, lists of names, to directories, files and symbolic
  links; the root directory is always there. The destination of an image is an absolute, clean
  path other than the root. The registry, the store of layers, decompression, the external
  programs and S3 are parameters.
\<close>

named_theorems fs_simps "looking things up in a file system"

section \<open>File systems\<close>

datatype node = NDir | NFile string | NLink string

type_synonym path = "string list"
type_synonym filesystem = "(path, node) gomap"

definition lookup :: "filesystem \<Rightarrow> path \<Rightarrow> node option" where
  "lookup fs p = (if p = [] then Some NDir else get fs p)"

definition path_components :: "string \<Rightarrow> path" where
  "path_components s = filter (\<lambda>c. c \<noteq> []) (split_on CHR ''/'' s)"

text \<open>\<open>filepath.Clean\<close> of an absolute path, component by component; \<open>acc\<close> is reversed.\<close>

fun clean_onto :: "path \<Rightarrow> path \<Rightarrow> path" where
  "clean_onto acc [] = rev acc"
| "clean_onto acc (c # cs) =
     (if c = [] \<or> c = ''.'' then clean_onto acc cs
      else if c = ''..'' then clean_onto (tl acc) cs
      else clean_onto (c # acc) cs)"

definition path_Join :: "path \<Rightarrow> string \<Rightarrow> path" where
  "path_Join dest name = clean_onto (rev dest) (split_on CHR ''/'' name)"

text \<open>
  Following a path: names are looked up from a directory that has been reached, \<open>..\<close> goes back,
  and a symbolic link is followed, at most \<open>n\<close> times.
\<close>

function follow :: "nat \<Rightarrow> filesystem \<Rightarrow> path \<Rightarrow> path \<Rightarrow> path option" where
  "follow n fs cur [] = Some cur"
| "follow n fs cur (c # cs) =
     (if c = [] \<or> c = ''.'' then follow n fs cur cs
      else if c = ''..'' then follow n fs (butlast cur) cs
      else case lookup fs (cur @ [c]) of
        Some (NLink t) \<Rightarrow>
          (case n of
             0 \<Rightarrow> None
           | Suc m \<Rightarrow> follow m fs (if prefix ''/'' t then [] else cur) (path_components t @ cs))
      | _ \<Rightarrow> follow n fs (cur @ [c]) cs)"
  by pat_completeness auto
termination by (relation "measures [\<lambda>(n, fs, cur, cs). n, \<lambda>(n, fs, cur, cs). length cs]") auto

abbreviation max_links :: nat where "max_links \<equiv> 40"

fun mkdir_from :: "path \<Rightarrow> path \<Rightarrow> filesystem \<Rightarrow> string option \<times> filesystem" where
  "mkdir_from cur [] fs = (None, fs)"
| "mkdir_from cur (c # cs) fs =
     (let p = cur @ [c]
      in case lookup fs p of
           None \<Rightarrow> mkdir_from p cs (put fs p NDir)
         | Some NDir \<Rightarrow> mkdir_from p cs fs
         | Some (NFile _) \<Rightarrow> (Some ''not a directory'', fs)
         | Some (NLink t) \<Rightarrow>
             (case follow max_links fs cur [c] of
                None \<Rightarrow> (Some ''too many levels of symbolic links'', fs)
              | Some q \<Rightarrow> if lookup fs q = Some NDir then mkdir_from q cs fs else (Some ''file exists'', fs)))"

definition os_MkdirAll :: "path \<Rightarrow> filesystem \<Rightarrow> string option \<times> filesystem" where
  "os_MkdirAll p fs = mkdir_from [] p fs"

text \<open>The place a path leads to when its last name is not followed.\<close>

definition parent_of :: "filesystem \<Rightarrow> path \<Rightarrow> string + path" where
  "parent_of fs p =
     (case follow max_links fs [] (butlast p) of
        None \<Rightarrow> Inl ''too many levels of symbolic links''
      | Some d \<Rightarrow> if lookup fs d = Some NDir then Inr d
                  else if lookup fs d = None then Inl ''no such file or directory'' else Inl ''not a directory'')"

text \<open>
  \<open>os.OpenFile\<close> with \<open>O_CREATE|O_RDWR\<close> follows the last name too, and copying writes over
  what is there from the start, without shortening it; a failing copy has written a part.
\<close>

definition write_over :: "string \<Rightarrow> string \<Rightarrow> string" where
  "write_over new old = new @ drop (length new) old"

definition open_target :: "filesystem \<Rightarrow> path \<Rightarrow> string + path" where
  "open_target fs p =
     (case follow max_links fs [] p of
        None \<Rightarrow> Inl ''too many levels of symbolic links''
      | Some q \<Rightarrow>
          (case lookup fs q of
             Some NDir \<Rightarrow> Inl ''is a directory''
           | Some (NFile _) \<Rightarrow> Inr q
           | _ \<Rightarrow> (case parent_of fs q of Inl err \<Rightarrow> Inl err | Inr d \<Rightarrow> Inr (d @ [last q]))))"

definition contents :: "filesystem \<Rightarrow> path \<Rightarrow> string" where
  "contents fs p = (case lookup fs p of Some (NFile s) \<Rightarrow> s | _ \<Rightarrow> [])"

definition write_contents :: "path \<Rightarrow> string \<Rightarrow> (nat \<times> string) option \<Rightarrow> filesystem \<Rightarrow> string option \<times> filesystem" where
  "write_contents p content fails fs =
     (case open_target fs p of
        Inl err \<Rightarrow> (Some err, fs)
      | Inr q \<Rightarrow>
          (case fails of
             Some (n, err) \<Rightarrow> (Some err, put fs q (NFile (write_over (take n content) (contents fs q))))
           | None \<Rightarrow> (None, put fs q (NFile (write_over content (contents fs q))))))"

definition os_Symlink :: "string \<Rightarrow> path \<Rightarrow> filesystem \<Rightarrow> string option \<times> filesystem" where
  "os_Symlink linkname p fs =
     (case parent_of fs p of
        Inl err \<Rightarrow> (Some err, fs)
      | Inr d \<Rightarrow> if lookup fs (d @ [last p]) \<noteq> None then (Some ''file exists'', fs) else (None, put fs (d @ [last p]) (NLink linkname)))"

text \<open>\<open>os.Remove\<close>: a file, a link, or an empty directory.\<close>

definition os_Remove :: "path \<Rightarrow> filesystem \<Rightarrow> string option \<times> filesystem" where
  "os_Remove p fs =
     (case parent_of fs p of
        Inl err \<Rightarrow> (Some err, fs)
      | Inr d \<Rightarrow>
          (let q = d @ [last p]
           in case lookup fs q of
                None \<Rightarrow> (Some ''no such file or directory'', fs)
              | Some NDir \<Rightarrow> if list_ex (\<lambda>(r, _). strict_prefix q r) fs then (Some ''directory not empty'', fs) else (None, del fs q)
              | Some _ \<Rightarrow> (None, del fs q)))"

section \<open>Unpacking a layer\<close>

datatype tar_type = TypeDir | TypeReg | TypeSymlink | TypeOther

record tar_header =
  th_Name :: string
  th_Typeflag :: tar_type
  th_Linkname :: string
  th_Content :: string
  th_CopyFails :: "(nat \<times> string) option"

text \<open>\<open>ensure_dir\<close>: a directory is made unless the cache of made directories has it.\<close>

definition ensure_dir :: "path \<Rightarrow> path list \<Rightarrow> filesystem \<Rightarrow> string option \<times> path list \<times> filesystem" where
  "ensure_dir dir created fs =
     (if dir \<in> set created then (None, created, fs)
      else case os_MkdirAll dir fs of
             (Some err, fs1) \<Rightarrow> (Some err, created, fs1)
           | (None, fs1) \<Rightarrow> (None, dir # created, fs1))"

definition relink :: "string \<Rightarrow> path \<Rightarrow> filesystem \<Rightarrow> string option \<times> filesystem" where
  "relink linkname target fs =
     (case os_Symlink linkname target fs of
        (None, fs1) \<Rightarrow> (None, fs1)
      | (Some _, fs1) \<Rightarrow> os_Symlink linkname target (snd (os_Remove target fs1)))"

definition untar_entry :: "tar_header \<Rightarrow> path \<Rightarrow> path list \<Rightarrow> filesystem \<Rightarrow> string option \<times> path list \<times> filesystem" where
  "untar_entry h target created fs =
     (case th_Typeflag h of
        TypeDir \<Rightarrow> ensure_dir target created fs
      | TypeReg \<Rightarrow>
          (case ensure_dir (butlast target) created fs of
             (Some err, c1, fs1) \<Rightarrow> (Some err, c1, fs1)
           | (None, c1, fs1) \<Rightarrow> (case write_contents target (th_Content h) (th_CopyFails h) fs1 of (err, fs2) \<Rightarrow> (err, c1, fs2)))
      | TypeSymlink \<Rightarrow>
          (case ensure_dir (butlast target) created fs of
             (Some err, c1, fs1) \<Rightarrow> (Some err, c1, fs1)
           | (None, c1, fs1) \<Rightarrow> (case relink (th_Linkname h) target fs1 of (err, fs2) \<Rightarrow> (err, c1, fs2)))
      | TypeOther \<Rightarrow> (None, created, fs))"

fun untar_loop :: "path \<Rightarrow> (string + tar_header) list \<Rightarrow> path list \<Rightarrow> filesystem \<Rightarrow> string option \<times> filesystem" where
  "untar_loop dest [] created fs = (None, fs)"
| "untar_loop dest (Inl err # es) created fs = (Some err, fs)"
| "untar_loop dest (Inr h # es) created fs =
     (let target = path_Join dest (th_Name h)
      in if target \<noteq> dest \<and> \<not> strict_prefix dest target then (Some (''illegal file path: '' @ concat (map (\<lambda>c. ''/'' @ c) target)), fs)
         else case untar_entry h target created fs of
                (Some err, _, fs1) \<Rightarrow> (Some err, fs1)
              | (None, created1, fs1) \<Rightarrow> untar_loop dest es created1 fs1)"

definition untar :: "(string + tar_header) list \<Rightarrow> path \<Rightarrow> filesystem \<Rightarrow> string option \<times> filesystem" where
  "untar es dest fs = untar_loop dest es [dest, dest] fs"

section \<open>Assembling an image\<close>

text \<open>
  A layer is its digest and what reading it from the registry gives. The store of layers answers
  by key; decompressing and reading the archive give its entries.
\<close>

record layer =
  ly_Digest :: "string + string"
  ly_Compressed :: "string + string"

record 's layer_store =
  ls_Exists :: "string \<Rightarrow> 's \<Rightarrow> string + bool"
  ls_Put :: "string \<Rightarrow> string \<Rightarrow> 's \<Rightarrow> string option \<times> 's"
  ls_Get :: "string \<Rightarrow> 's \<Rightarrow> (string + string) \<times> 's"

definition layer_key :: "string \<Rightarrow> string" where
  "layer_key digest = ''layers/'' @ digest"

definition download :: "'s layer_store \<Rightarrow> layer \<Rightarrow> 's \<Rightarrow> string option \<times> 's" where
  "download st ly cache =
     (case ly_Digest ly of
        Inl err \<Rightarrow> (Some err, cache)
      | Inr digest \<Rightarrow>
          (case ls_Exists st (layer_key digest) cache of
             Inl err \<Rightarrow> (Some err, cache)
           | Inr True \<Rightarrow> (None, cache)
           | Inr False \<Rightarrow>
               (case ly_Compressed ly of
                  Inl err \<Rightarrow> (Some err, cache)
                | Inr bytes \<Rightarrow> ls_Put st (layer_key digest) bytes cache)))"

definition extract_layer ::
    "'s layer_store \<Rightarrow> (string \<Rightarrow> string + (string + tar_header) list) \<Rightarrow> path \<Rightarrow> layer \<Rightarrow> 's \<Rightarrow> filesystem
     \<Rightarrow> string option \<times> 's \<times> filesystem" where
  "extract_layer st gunzip outputDir ly cache fs =
     (let digest = (case ly_Digest ly of Inr d \<Rightarrow> d | Inl _ \<Rightarrow> [])
      in case ls_Get st (layer_key digest) cache of
           (Inl err, cache1) \<Rightarrow> (Some (''getting cached layer '' @ digest @ '': '' @ err), cache1, fs)
         | (Inr bytes, cache1) \<Rightarrow>
             (case gunzip bytes of
                Inl err \<Rightarrow> (Some (''creating gzip reader: '' @ err), cache1, fs)
              | Inr es \<Rightarrow>
                  (case untar es outputDir fs of
                     (Some err, fs1) \<Rightarrow> (Some (''extracting layer '' @ digest @ '': '' @ err), cache1, fs1)
                   | (None, fs1) \<Rightarrow> (None, cache1, fs1))))"

text \<open>
  The downloads run side by side and each layer is extracted, in order, once its own has ended;
  they are modelled in the order in which their results are waited for. An error of a download
  ends the extraction.
\<close>

fun extract_layers ::
    "'s layer_store \<Rightarrow> (string \<Rightarrow> string + (string + tar_header) list) \<Rightarrow> path \<Rightarrow> nat \<Rightarrow> layer list \<Rightarrow> 's \<Rightarrow> filesystem
     \<Rightarrow> string option \<times> 's \<times> filesystem" where
  "extract_layers st gunzip outputDir i [] cache fs = (None, cache, fs)"
| "extract_layers st gunzip outputDir i (ly # lys) cache fs =
     (case download st ly cache of
        (Some err, cache1) \<Rightarrow> (Some (''layer '' @ itoa i @ '' download failed: '' @ err), cache1, fs)
      | (None, cache1) \<Rightarrow>
          (case extract_layer st gunzip outputDir ly cache1 fs of
             (Some err, cache2, fs1) \<Rightarrow> (Some err, cache2, fs1)
           | (None, cache2, fs1) \<Rightarrow> extract_layers st gunzip outputDir (Suc i) lys cache2 fs1))"

text \<open>The places the init program is looked for: configured, beside the executable, usual, on the path.\<close>

definition init_candidates :: "string \<Rightarrow> string option \<Rightarrow> string option \<Rightarrow> string list" where
  "init_candidates initPath exeDir lookedUp =
     [if initPath \<noteq> [] then initPath else ''init''] @
     (case exeDir of None \<Rightarrow> [] | Some d \<Rightarrow> [d @ ''/init'', d @ ''/tartarus-init'']) @
     [''/usr/local/bin/tartarus-init'', ''/opt/tartarus/bin/init''] @
     (case lookedUp of None \<Rightarrow> [] | Some p \<Rightarrow> [p])"

text \<open>\<open>stat\<close> is the program found at a path of the host, if there is one and it can be read.\<close>

definition InjectInit ::
    "string \<Rightarrow> string option \<Rightarrow> string option \<Rightarrow> (string \<Rightarrow> (string + string) option) \<Rightarrow> path \<Rightarrow> filesystem \<Rightarrow> string option \<times> filesystem" where
  "InjectInit initPath exeDir lookedUp stat outputDir fs =
     (case List.find (\<lambda>p. stat p \<noteq> None) (init_candidates initPath exeDir lookedUp) of
        None \<Rightarrow> (None, fs)
      | Some found \<Rightarrow>
          (case stat found of
             Some (Inr program) \<Rightarrow>
               (case open_target fs (outputDir @ [''init'']) of
                  Inl err \<Rightarrow> (Some err, fs)
                | Inr q \<Rightarrow> (None, put fs q (NFile program)))
           | Some (Inl err) \<Rightarrow> (Some err, fs)
           | None \<Rightarrow> (None, fs)))"

record 's image_builder =
  ib_Fetcher :: "string \<Rightarrow> string + (string + layer list)"
  ib_Store :: "'s layer_store"
  ib_gunzip :: "string \<Rightarrow> string + (string + tar_header) list"
  ib_Scanner :: "(bool \<Rightarrow> path \<Rightarrow> filesystem \<Rightarrow> string option) option"
  ib_InitPath :: string
  ib_exeDir :: "string option"
  ib_LookPath :: "string option"
  ib_stat :: "string \<Rightarrow> (string + string) option"

text \<open>
  Waiting for the downloads cancels the context that was derived for them, and that context
  is the one the scanner is given: its first argument is whether the context is cancelled.
\<close>

definition Assemble :: "'s image_builder \<Rightarrow> string \<Rightarrow> path \<Rightarrow> 's \<Rightarrow> filesystem \<Rightarrow> string option \<times> 's \<times> filesystem" where
  "Assemble b ref outputDir cache fs =
     (case ib_Fetcher b ref of
        Inl err \<Rightarrow> (Some err, cache, fs)
      | Inr img \<Rightarrow>
          (case os_MkdirAll outputDir fs of
             (Some err, fs1) \<Rightarrow> (Some (''creating output directory: '' @ err), cache, fs1)
           | (None, fs1) \<Rightarrow>
               (case img of
                  Inl err \<Rightarrow> (Some (''getting layers: '' @ err), cache, fs1)
                | Inr layers \<Rightarrow>
                    (case extract_layers (ib_Store b) (ib_gunzip b) outputDir 0 layers cache fs1 of
                       (Some err, cache2, fs2) \<Rightarrow> (Some err, cache2, fs2)
                     | (None, cache2, fs2) \<Rightarrow>
                         (case InjectInit (ib_InitPath b) (ib_exeDir b) (ib_LookPath b) (ib_stat b) outputDir fs2 of
                            (Some err, fs3) \<Rightarrow> (Some (''injecting init: '' @ err), cache2, fs3)
                          | (None, fs3) \<Rightarrow>
                              (case ib_Scanner b of
                                 None \<Rightarrow> (None, cache2, fs3)
                               | Some scan \<Rightarrow>
                                   (case scan True outputDir fs3 of
                                      Some err \<Rightarrow> (Some (''scanning extracted image: '' @ err), cache2, fs3)
                                    | None \<Rightarrow> (None, cache2, fs3))))))))"

text \<open>The sizes of the files below a directory, and the disk image made of it: its size in kilobytes.\<close>

definition calculateDirSize :: "path \<Rightarrow> filesystem \<Rightarrow> int" where
  "calculateDirSize dir fs =
     sum_list (map (\<lambda>(p, nd). case nd of NFile s \<Rightarrow> if prefix dir p then int (length s) else 0
        | NLink t \<Rightarrow> if prefix dir p then int (length t) else 0 | NDir \<Rightarrow> 0) fs)"

definition image_sizeKB :: "int \<Rightarrow> int" where
  "image_sizeKB dirSize = go_div (go_div (wrap64 (dirSize * 11)) 10) 1024 + 10240"

definition BuildRootFS ::
    "string option \<Rightarrow> (string list \<Rightarrow> string option) \<Rightarrow> path \<Rightarrow> string \<Rightarrow> string \<Rightarrow> filesystem \<Rightarrow> string option" where
  "BuildRootFS lookPath runTool srcDir srcName dstFile fs =
     (case lookPath of
        None \<Rightarrow> Some ''tool not found: genext2fs''
      | Some tool \<Rightarrow>
          (case runTool [tool, ''-b'', itoa (nat (image_sizeKB (calculateDirSize srcDir fs))), ''-d'', srcName, dstFile] of
             Some err \<Rightarrow> Some (''genext2fs failed: '' @ err)
           | None \<Rightarrow> None))"

section \<open>The scanner\<close>

record VulnerabilityDetails =
  vd_VulnerabilityID :: string
  vd_PkgName :: string
  vd_InstalledVersion :: string
  vd_FixedVersion :: string
  vd_Severity :: string
  vd_Title :: string

record ScanResult =
  sr_Target :: string
  sr_Vulnerabilities :: "VulnerabilityDetails list"

record TrivyScanner =
  tv_BinaryPath :: string
  tv_MinSeverity :: string
  tv_Severities :: "string list"
  tv_ExitCodeOnFail :: bool
  tv_OutputFormat :: string

definition NewTrivyScanner :: TrivyScanner where
  "NewTrivyScanner = \<lparr>tv_BinaryPath = ''trivy'', tv_MinSeverity = ''CRITICAL'', tv_Severities = [''CRITICAL''], tv_ExitCodeOnFail = True,
     tv_OutputFormat = ''json''\<rparr>"

definition NewTrivyScannerWithSeverities :: "string list \<Rightarrow> TrivyScanner" where
  "NewTrivyScannerWithSeverities severities = \<lparr>tv_BinaryPath = ''trivy'', tv_MinSeverity = [], tv_Severities = severities,
     tv_ExitCodeOnFail = True, tv_OutputFormat = ''json''\<rparr>"

fun join_with :: "string \<Rightarrow> string list \<Rightarrow> string" where
  "join_with sep [] = []"
| "join_with sep [s] = s"
| "join_with sep (s # t # ss) = s @ sep @ join_with sep (t # ss)"

definition trivy_args :: "TrivyScanner \<Rightarrow> string \<Rightarrow> string list" where
  "trivy_args sc target =
     (if tv_ExitCodeOnFail sc then [''fs'', ''--exit-code'', ''1''] else [''fs'']) @
     [''--severity'', join_with '','' (tv_Severities sc), ''--format'', tv_OutputFormat sc, ''--no-progress'', ''--quiet'', target]"

text \<open>
  Running a program under a context: a cancelled context refuses to start it, with the context's
  error and no output; otherwise the program answers with its error, if any, and its output.
\<close>

type_synonym runner = "string list \<Rightarrow> string option \<times> string"

definition run_under :: "bool \<Rightarrow> runner \<Rightarrow> runner" where
  "run_under cancelled run args = (if cancelled then (Some ''context canceled'', []) else run args)"

definition vulnerability_count :: "ScanResult list \<Rightarrow> nat" where
  "vulnerability_count rs = sum_list (map (\<lambda>r. length (sr_Vulnerabilities r)) rs)"

definition Trivy_Scan ::
    "(string \<Rightarrow> string + ScanResult list) \<Rightarrow> runner \<Rightarrow> TrivyScanner \<Rightarrow> bool \<Rightarrow> string \<Rightarrow> string option" where
  "Trivy_Scan unmarshal run sc cancelled target =
     (case run_under cancelled run (tv_BinaryPath sc # trivy_args sc target) of
        (None, _) \<Rightarrow> None
      | (Some err, output) \<Rightarrow>
          let plain = Some (''vulnerability scan failed: '' @ err @ [CHR 0x0A] @ ''Output: '' @ output)
          in if tv_OutputFormat sc = ''json'' \<and> output \<noteq> [] then
               (case unmarshal output of
                  Inr results \<Rightarrow> Some (''vulnerability scan failed: found '' @ itoa (vulnerability_count results) @ '' vulnerabilities in '' @ target
                    @ [CHR 0x0A] @ ''Output: '' @ output)
                | Inl _ \<Rightarrow> plain)
             else plain)"

text \<open>The scan that returns what was found, next to the error there may have been.\<close>

definition ScanWithResults ::
    "(string \<Rightarrow> string + ScanResult list) \<Rightarrow> runner \<Rightarrow> TrivyScanner \<Rightarrow> bool \<Rightarrow> string \<Rightarrow> ScanResult list \<times> string option" where
  "ScanWithResults unmarshal run sc cancelled target =
     (let args = [tv_BinaryPath sc, ''fs'', ''--severity'', join_with '','' (tv_Severities sc), ''--format'', ''json'', ''--no-progress'', ''--quiet'', target]
      in case run_under cancelled run args of
           (err, output) \<Rightarrow>
             (case (if output = [] then Inr [] else unmarshal output) of
                Inl parseErr \<Rightarrow> ([], Some (''failed to parse scan results: '' @ parseErr))
              | Inr results \<Rightarrow> (results, case err of None \<Rightarrow> None | Some e \<Rightarrow> Some (''scan completed with errors: '' @ e))))"

definition MockScanner_Scan :: "bool \<Rightarrow> string option" where
  "MockScanner_Scan shouldFail = (if shouldFail then Some ''mock scan failed'' else None)"

section \<open>The S3 store\<close>

text \<open>
  The bucket and the cache directory, both by key, and the answers of the service and of the
  disk: a call may fail for reasons of its own.
\<close>

record s3_store =
  s3_bucket :: files
  s3_localCache :: files

record s3_env =
  se_Upload :: "string option"
  se_Download :: "string option"
  se_Head :: "string option"
  se_Delete :: "string option"
  se_MkdirAll :: "string option"
  se_CreateTemp :: "string option"
  se_Rename :: "string option"
  se_Open :: "string option"

definition S3_Put :: "s3_env \<Rightarrow> string \<Rightarrow> string \<Rightarrow> s3_store \<Rightarrow> string option \<times> s3_store" where
  "S3_Put env key bytes s =
     (case se_Upload env of
        Some err \<Rightarrow> (Some (''failed to upload to s3: '' @ err), s)
      | None \<Rightarrow> (None, s\<lparr>s3_bucket := put (s3_bucket s) key bytes\<rparr>))"

datatype get_error = NotExist | GetFailed string

definition open_cached :: "s3_env \<Rightarrow> string \<Rightarrow> s3_store \<Rightarrow> (get_error + string) \<times> s3_store" where
  "open_cached env key s =
     (case se_Open env of
        Some err \<Rightarrow> (Inl (GetFailed err), s)
      | None \<Rightarrow> (case get (s3_localCache s) key of None \<Rightarrow> (Inl NotExist, s) | Some bytes \<Rightarrow> (Inr bytes, s)))"

definition S3_Get :: "s3_env \<Rightarrow> string \<Rightarrow> s3_store \<Rightarrow> (get_error + string) \<times> s3_store" where
  "S3_Get env key s =
     (if get (s3_localCache s) key \<noteq> None then open_cached env key s
      else case se_MkdirAll env of
        Some err \<Rightarrow> (Inl (GetFailed (''failed to create parent dir: '' @ err)), s)
      | None \<Rightarrow>
          (case se_CreateTemp env of
             Some err \<Rightarrow> (Inl (GetFailed (''failed to create temp file: '' @ err)), s)
           | None \<Rightarrow>
               (case se_Download env of
                  Some err \<Rightarrow> (Inl (GetFailed (''failed to download from s3: '' @ err)), s)
                | None \<Rightarrow>
                    (case get (s3_bucket s) key of
                       None \<Rightarrow> (Inl NotExist, s)
                     | Some bytes \<Rightarrow>
                         (case se_Rename env of
                            Some err \<Rightarrow> (Inl (GetFailed (''failed to rename temp file to local cache: '' @ err)), s)
                          | None \<Rightarrow> open_cached env key (s\<lparr>s3_localCache := put (s3_localCache s) key bytes\<rparr>))))))"

definition S3_Exists :: "s3_env \<Rightarrow> string \<Rightarrow> s3_store \<Rightarrow> string + bool" where
  "S3_Exists env key s = (case se_Head env of Some _ \<Rightarrow> Inr False | None \<Rightarrow> Inr (get (s3_bucket s) key \<noteq> None))"

definition S3_Delete :: "s3_env \<Rightarrow> string \<Rightarrow> s3_store \<Rightarrow> string option \<times> s3_store" where
  "S3_Delete env key s =
     (case se_Delete env of
        Some err \<Rightarrow> (Some (''failed to delete from s3: '' @ err), s)
      | None \<Rightarrow> (None, s\<lparr>s3_bucket := del (s3_bucket s) key, s3_localCache := del (s3_localCache s) key\<rparr>))"

section \<open>Unpacking stays inside the destination\<close>

definition no_links :: "filesystem \<Rightarrow> bool" where
  "no_links fs \<longleftrightarrow> (\<forall>p t. lookup fs p \<noteq> Some (NLink t))"

definition clean_path :: "path \<Rightarrow> bool" where
  "clean_path p \<longleftrightarrow> (\<forall>c \<in> set p. c \<noteq> [] \<and> c \<noteq> ''.'' \<and> c \<noteq> ''..'')"

definition directory_at :: "path \<Rightarrow> filesystem \<Rightarrow> bool" where
  "directory_at dest fs \<longleftrightarrow> (\<forall>p. prefix p dest \<longrightarrow> lookup fs p = Some NDir)"

definition outside_kept :: "path \<Rightarrow> filesystem \<Rightarrow> filesystem \<Rightarrow> bool" where
  "outside_kept dest fs fs' \<longleftrightarrow> (\<forall>p. \<not> prefix dest p \<longrightarrow> lookup fs' p = lookup fs p)"

lemma lookup_put [fs_simps]: "q \<noteq> [] \<Longrightarrow> lookup (put fs q nd) p = (if p = q then Some nd else lookup fs p)"
  by (simp add: lookup_def)

lemma lookup_root [simp]: "lookup fs [] = Some NDir"
  by (simp add: lookup_def)

lemma clean_path_simps [simp]:
  "clean_path []" "clean_path (c # p) \<longleftrightarrow> c \<noteq> [] \<and> c \<noteq> ''.'' \<and> c \<noteq> ''..'' \<and> clean_path p" "clean_path (p @ q) \<longleftrightarrow> clean_path p \<and> clean_path q"
  by (auto simp: clean_path_def)

lemma clean_path_butlast: "clean_path p \<Longrightarrow> clean_path (butlast p)"
  by (auto simp: clean_path_def dest: in_set_butlastD)

lemma clean_onto_clean: "clean_path acc \<Longrightarrow> clean_path (clean_onto acc cs)"
proof (induction acc cs rule: clean_onto.induct)
  case (1 acc)
  then show ?case by (simp add: clean_path_def)
next
  case (2 acc c cs)
  moreover have "clean_path (tl acc)" using "2.prems" by (cases acc) simp_all
  ultimately show ?case by simp
qed

lemma path_Join_clean: "clean_path dest \<Longrightarrow> clean_path (path_Join dest name)"
  unfolding path_Join_def by (rule clean_onto_clean) (simp add: clean_path_def)

lemma follow_clean: "no_links fs \<Longrightarrow> clean_path cs \<Longrightarrow> follow n fs cur cs = Some (cur @ cs)"
  by (induction cs arbitrary: cur) (auto simp: no_links_def split: option.splits node.splits)

lemma parent_of_clean:
  "no_links fs \<Longrightarrow> clean_path p \<Longrightarrow> parent_of fs p = Inr d \<Longrightarrow> d = butlast p"
  by (auto simp: parent_of_def follow_clean clean_path_butlast split: if_splits)

lemma mkdir_from_frame:
  assumes "mkdir_from cur cs fs = (r, fs')" "no_links fs"
  shows "no_links fs' \<and> (\<forall>p. lookup fs p \<noteq> None \<longrightarrow> lookup fs' p = lookup fs p) \<and>
    (\<forall>p. lookup fs' p \<noteq> lookup fs p \<longrightarrow> prefix p (cur @ cs))"
  using assms
proof (induction cur cs fs rule: mkdir_from.induct)
  case (1 cur fs)
  then show ?case by simp
next
  case (2 cur c cs fs)
  show ?case
  proof (cases "lookup fs (cur @ [c])")
    case None
    let ?fs = "put fs (cur @ [c]) NDir"
    have "no_links ?fs" using "2.prems"(2) by (auto simp: no_links_def fs_simps)
    moreover have "mkdir_from (cur @ [c]) cs ?fs = (r, fs')" using "2.prems"(1) None by (simp add: Let_def)
    ultimately have ih: "no_links fs'" "\<forall>p. lookup ?fs p \<noteq> None \<longrightarrow> lookup fs' p = lookup ?fs p"
        "\<forall>p. lookup fs' p \<noteq> lookup ?fs p \<longrightarrow> prefix p (cur @ c # cs)"
      using "2.IH"(1) [OF refl None] by simp_all
    have "prefix p (cur @ c # cs)" if "lookup fs' p \<noteq> lookup fs p" for p
      using that ih(3) by (cases "p = cur @ [c]") (auto simp: fs_simps)
    then show ?thesis using ih(1,2) None by (auto simp: fs_simps split: if_splits)
  next
    case (Some nd)
    then show ?thesis using "2.IH"(2) [OF refl Some] "2.prems" by (cases nd) (auto simp: no_links_def)
  qed
qed

lemma write_file_frame:
  assumes "write_contents p content fails fs = (r, fs')" "no_links fs" "clean_path p" "p \<noteq> []"
  shows "fs' = fs \<or> (\<exists>s. fs' = put fs p (NFile s)) \<and> lookup fs p \<noteq> Some NDir"
proof (cases "open_target fs p")
  case (Inr q)
  have "q = p \<and> lookup fs p \<noteq> Some NDir"
    using Inr assms(2-4) parent_of_clean [OF assms(2,3)]
    by (auto simp: open_target_def follow_clean no_links_def split: option.splits node.splits sum.splits)
  then show ?thesis using Inr assms(1) by (auto simp: write_contents_def split: option.splits)
qed (use assms(1) in \<open>auto simp: write_contents_def\<close>)

text \<open>What one step leaves: still no links, still a directory at the destination, nothing outside touched.\<close>

definition confined :: "path \<Rightarrow> filesystem \<Rightarrow> filesystem \<Rightarrow> bool" where
  "confined dest fs fs' \<longleftrightarrow> no_links fs' \<and> directory_at dest fs' \<and> outside_kept dest fs fs'"

lemma confined_trans: "confined dest fs fs1 \<Longrightarrow> confined dest fs1 fs2 \<Longrightarrow> confined dest fs fs2"
  by (simp add: confined_def outside_kept_def)

lemma confined_refl: "no_links fs \<Longrightarrow> directory_at dest fs \<Longrightarrow> confined dest fs fs"
  by (simp add: confined_def outside_kept_def)

lemma prefix_either: "prefix p (dest @ rest) \<Longrightarrow> prefix p dest \<or> prefix dest p"
  by (metis append_eq_append_conv2 prefix_def)

lemma ensure_dir_confined:
  assumes "ensure_dir dir created fs = (r, c1, fs')" "no_links fs" "directory_at dest fs" "prefix dir dest \<or> prefix dest dir"
  shows "confined dest fs fs'"
proof (cases "dir \<in> set created")
  case True
  then show ?thesis using assms confined_refl by (simp add: ensure_dir_def)
next
  case False
  then obtain r1 where mk: "mkdir_from [] dir fs = (r1, fs')"
    using assms(1) by (auto simp: ensure_dir_def os_MkdirAll_def split: prod.splits option.splits)
  note frame = mkdir_from_frame [OF mk assms(2)]
  have "lookup fs' p = lookup fs p" if "\<not> prefix dest p" for p
  proof (cases "prefix p dest")
    case True
    then show ?thesis using frame assms(3) by (auto simp: directory_at_def)
  next
    case False
    have "\<not> prefix p dir" using assms(4) that False prefix_either prefix_order.trans by (metis prefix_def)
    then show ?thesis using frame by auto
  qed
  then show ?thesis using frame assms(3) by (auto simp: confined_def outside_kept_def directory_at_def)
qed

lemma write_file_confined:
  assumes "write_contents p content fails fs = (r, fs')" "no_links fs" "directory_at dest fs" "clean_path p" "prefix dest p" "dest \<noteq> []"
  shows "confined dest fs fs'"
proof -
  have "p \<noteq> []" using assms(5,6) by auto
  from write_file_frame [OF assms(1,2,4) this] consider "fs' = fs" | s where "fs' = put fs p (NFile s)" "lookup fs p \<noteq> Some NDir" by blast
  then show ?thesis
  proof cases
    case 1
    then show ?thesis using assms(2,3) confined_refl by simp
  next
    case 2
    have "\<not> prefix p dest" using 2(2) assms(3) by (auto simp: directory_at_def)
    then show ?thesis using 2 assms(2,3,5) \<open>p \<noteq> []\<close>
      by (auto simp: confined_def no_links_def directory_at_def outside_kept_def fs_simps)
  qed
qed

lemma untar_entry_confined:
  assumes "untar_entry h target created fs = (r, c1, fs')" "no_links fs" "directory_at dest fs" "dest \<noteq> []"
    and "clean_path target" "prefix dest target" "th_Typeflag h \<noteq> TypeSymlink"
  shows "confined dest fs fs'"
proof (cases "th_Typeflag h")
  case TypeDir
  then show ?thesis using assms ensure_dir_confined [of target created fs r c1 fs' dest] by (simp add: untar_entry_def)
next
  case TypeReg
  have parent: "prefix (butlast target) dest \<or> prefix dest (butlast target)"
    using assms(6) prefix_either by (metis append_butlast_last_id prefix_bot.extremum butlast.simps(1) prefix_def prefixeq_butlast prefix_same_cases)
  obtain e c2 fs1 where dir: "ensure_dir (butlast target) created fs = (e, c2, fs1)" by (metis prod_cases3)
  have first: "confined dest fs fs1" by (rule ensure_dir_confined [OF dir assms(2,3) parent])
  show ?thesis
  proof (cases e)
    case (Some err)
    then show ?thesis using assms(1) TypeReg dir first by (simp add: untar_entry_def)
  next
    case None
    then have "write_contents target (th_Content h) (th_CopyFails h) fs1 = (r, fs')"
      using assms(1) TypeReg dir by (auto simp: untar_entry_def split: prod.splits)
    then have "confined dest fs1 fs'"
      using first assms(4-6) by (intro write_file_confined) (simp_all add: confined_def)
    with first show ?thesis by (rule confined_trans)
  qed
qed (use assms confined_refl in \<open>simp_all add: untar_entry_def\<close>)

lemma untar_loop_confined:
  assumes "untar_loop dest es created fs = (r, fs')" "no_links fs" "directory_at dest fs" "dest \<noteq> []" "clean_path dest"
    and "\<forall>h. Inr h \<in> set es \<longrightarrow> th_Typeflag h \<noteq> TypeSymlink"
  shows "confined dest fs fs'"
  using assms
proof (induction dest es created fs rule: untar_loop.induct)
  case (3 dest h es created fs)
  let ?target = "path_Join dest (th_Name h)"
  show ?case
  proof (cases "?target \<noteq> dest \<and> \<not> strict_prefix dest ?target")
    case True
    then show ?thesis using "3.prems" confined_refl by (simp add: Let_def)
  next
    case False
    then have inside: "prefix dest ?target" by (auto simp: strict_prefix_def)
    obtain e c1 fs1 where entry: "untar_entry h ?target created fs = (e, c1, fs1)" by (metis prod_cases3)
    have step: "confined dest fs fs1"
      using untar_entry_confined [OF entry] "3.prems" inside path_Join_clean by simp
    show ?thesis
    proof (cases e)
      case (Some err)
      then show ?thesis using "3.prems"(1) False entry step by (simp add: Let_def)
    next
      case None
      have "untar_loop dest es c1 fs1 = (r, fs')" using "3.prems"(1) False entry None by (simp add: Let_def)
      then have "confined dest fs1 fs'"
        using "3.IH" [OF refl False entry [symmetric]] None step "3.prems"(4-6) by (simp add: confined_def)
      with step show ?thesis by (rule confined_trans)
    qed
  qed
qed (use confined_refl in auto)

text \<open>
  C22: Unpacking an archive cannot touch anything outside the destination. In a file system without
  symbolic links, whatever names the archive of directories and files has (absolute ones, ones
  that go up with \<open>..\<close>, empty ones) and wherever unpacking stops, every path that is not below
  the destination is as it was.
\<close>

theorem untar_confined:
  assumes "no_links fs" "directory_at dest fs" "dest \<noteq> []" "clean_path dest"
    and "\<forall>h. Inr h \<in> set es \<longrightarrow> th_Typeflag h \<noteq> TypeSymlink"
    and "\<not> prefix dest p"
  shows "lookup (snd (untar es dest fs)) p = lookup fs p"
proof -
  obtain r fs' where run: "untar_loop dest es [dest, dest] fs = (r, fs')" by (cases "untar_loop dest es [dest, dest] fs")
  have "confined dest fs fs'" by (rule untar_loop_confined [OF run assms(1-5)])
  then show ?thesis using run assms(6) by (simp add: untar_def confined_def outside_kept_def)
qed

definition tar_file :: "string \<Rightarrow> string \<Rightarrow> string + tar_header" where
  "tar_file name content = Inr \<lparr>th_Name = name, th_Typeflag = TypeReg, th_Linkname = [], th_Content = content, th_CopyFails = None\<rparr>"

definition tar_link :: "string \<Rightarrow> string \<Rightarrow> string + tar_header" where
  "tar_link name target = Inr \<lparr>th_Name = name, th_Typeflag = TypeSymlink, th_Linkname = target, th_Content = [], th_CopyFails = None\<rparr>"

definition demo_fs :: filesystem where
  "demo_fs = [([''out''], NDir), ([''etc''], NDir), ([''etc'', ''passwd''], NFile ''root'')]"

theorem untar_confined_witness:
  "lookup (snd (untar [tar_file ''a/../../etc/passwd'' ''evil''] [''out''] demo_fs)) [''etc'', ''passwd''] = Some (NFile ''root'')"
proof -
  have "no_links demo_fs" by (auto simp: no_links_def demo_fs_def lookup_def)
  moreover have "directory_at [''out''] demo_fs" by (auto simp: directory_at_def demo_fs_def lookup_def prefix_Cons)
  moreover have "\<forall>h. Inr h \<in> set [tar_file ''a/../../etc/passwd'' ''evil''] \<longrightarrow> th_Typeflag h \<noteq> TypeSymlink"
    by (auto simp: tar_file_def)
  ultimately have "lookup (snd (untar [tar_file ''a/../../etc/passwd'' ''evil''] [''out''] demo_fs)) [''etc'', ''passwd''] =
      lookup demo_fs [''etc'', ''passwd'']"
    by (intro untar_confined) simp_all
  then show ?thesis by (simp add: demo_fs_def lookup_def)
qed

text \<open>The check looks at names only: an archive that first makes a link leads out of the destination.\<close>

lemma link_escapes:
  "lookup (snd (untar [tar_link ''a'' ''/etc'', tar_file ''a/passwd'' ''evil''] [''out''] demo_fs)) [''etc'', ''passwd''] = Some (NFile ''evil'')"
  by code_simp

text \<open>A file of a later layer does not shorten the one it replaces: the end of the old contents stays.\<close>

lemma shorter_file_keeps_tail:
  "lookup (snd (untar [tar_file ''f'' ''new''] [''out''] (snd (untar [tar_file ''f'' ''old contents''] [''out''] demo_fs)))) [''out'', ''f''] =
     Some (NFile ''new contents'')"
  by code_simp

text \<open>Entries of another kind, such as hard links, are passed over, and so are the markers by which a layer deletes files.\<close>

lemma whiteout_ignored:
  "lookup (snd (untar [tar_file ''.wh.f'' []] [''out''] (snd (untar [tar_file ''f'' ''x''] [''out''] demo_fs)))) [''out'', ''f''] = Some (NFile ''x'')"
  by code_simp

text \<open>
  The scanner is given the context that waiting for the downloads has cancelled, so the external
  scanner is never started and no image is ever assembled with it.
\<close>

lemma cancelled_scan:
  "Trivy_Scan unmarshal run sc True target = Some (''vulnerability scan failed: context canceled'' @ [CHR 0x0A] @ ''Output: '')"
  by (simp add: Trivy_Scan_def run_under_def)

lemma scan_never_runs:
  assumes "ib_Scanner b = Some (\<lambda>cancelled out fs. Trivy_Scan unmarshal run sc cancelled (concat (map (\<lambda>c. ''/'' @ c) out)))"
  shows "fst (Assemble b ref outputDir cache fs) \<noteq> None"
  using assms by (auto simp: Assemble_def cancelled_scan split: sum.split prod.split option.split)

section \<open>The S3 store keeps what it is given\<close>

definition calm_s3 :: s3_env where
  "calm_s3 = \<lparr>se_Upload = None, se_Download = None, se_Head = None, se_Delete = None, se_MkdirAll = None, se_CreateTemp = None,
     se_Rename = None, se_Open = None\<rparr>"

text \<open>Every cached object is the one in the bucket.\<close>

definition cache_fresh :: "s3_store \<Rightarrow> bool" where
  "cache_fresh s \<longleftrightarrow> (\<forall>k bytes. get (s3_localCache s) k = Some bytes \<longrightarrow> get (s3_bucket s) k = Some bytes)"

lemma S3_Get_bucket:
  assumes "S3_Get env key s = (r, s')"
  shows "s3_bucket s' = s3_bucket s \<and> (cache_fresh s \<longrightarrow> cache_fresh s')"
  using assms by (auto simp: S3_Get_def open_cached_def cache_fresh_def split: if_splits option.splits)

lemma s3_store_reads:
  assumes "cache_fresh s"
  shows "fst (S3_Get calm_s3 key s) = (case get (s3_bucket s) key of None \<Rightarrow> Inl NotExist | Some bytes \<Rightarrow> Inr bytes)"
  using assms by (auto simp: S3_Get_def open_cached_def calm_s3_def cache_fresh_def split: option.splits)

text \<open>
  The S3 store behaves as a store as long as no object is written twice. While every cached
  object is the one in the bucket, reading returns exactly the bucket's object, or says that there
  is none, whether it is served from the cache or downloaded; reading, deleting, and writing an
  object that is not cached keep the cache like that; what was written is what is read; and an
  object deleted is gone.
\<close>

theorem s3_store_faithful:
  assumes "cache_fresh s"
  shows "fst (S3_Get calm_s3 key s) = (case get (s3_bucket s) key of None \<Rightarrow> Inl NotExist | Some bytes \<Rightarrow> Inr bytes) \<and>
    cache_fresh (snd (S3_Get calm_s3 key s)) \<and> s3_bucket (snd (S3_Get calm_s3 key s)) = s3_bucket s \<and>
    (get (s3_localCache s) key = None \<longrightarrow>
      cache_fresh (snd (S3_Put calm_s3 key bytes s)) \<and> fst (S3_Get calm_s3 key (snd (S3_Put calm_s3 key bytes s))) = Inr bytes) \<and>
    cache_fresh (snd (S3_Delete calm_s3 key s)) \<and> fst (S3_Get calm_s3 key (snd (S3_Delete calm_s3 key s))) = Inl NotExist"
proof -
  obtain r s' where "S3_Get calm_s3 key s = (r, s')" by (cases "S3_Get calm_s3 key s")
  moreover note s3_store_reads [OF assms, of key]
  moreover have "cache_fresh (snd (S3_Delete calm_s3 key s))" "fst (S3_Get calm_s3 key (snd (S3_Delete calm_s3 key s))) = Inl NotExist"
    using assms by (auto simp: S3_Delete_def S3_Get_def open_cached_def calm_s3_def cache_fresh_def)
  moreover have "cache_fresh (snd (S3_Put calm_s3 key bytes s))" "fst (S3_Get calm_s3 key (snd (S3_Put calm_s3 key bytes s))) = Inr bytes"
    if "get (s3_localCache s) key = None"
    using assms that by (auto simp: S3_Put_def S3_Get_def open_cached_def calm_s3_def cache_fresh_def)
  ultimately show ?thesis using S3_Get_bucket [of calm_s3 key s r s'] assms by simp
qed

theorem s3_store_faithful_witness:
  "fst (S3_Get calm_s3 ''k'' (snd (S3_Put calm_s3 ''k'' ''v'' \<lparr>s3_bucket = [(''k'', ''u'')], s3_localCache = []\<rparr>))) = Inr ''v''"
proof -
  have "cache_fresh \<lparr>s3_bucket = [(''k'', ''u'')], s3_localCache = []\<rparr>" by (simp add: cache_fresh_def)
  from s3_store_faithful [OF this, of "''k''" "''v''"] show ?thesis by simp
qed

text \<open>Writing does not renew the cache: an object that has been read and is written again is read as it was.\<close>

lemma rewritten_object_stale:
  assumes "get (s3_localCache s) key = Some old"
  shows "fst (S3_Get calm_s3 key (snd (S3_Put calm_s3 key new s))) = Inr old"
  using assms by (simp add: S3_Put_def S3_Get_def open_cached_def calm_s3_def)

text \<open>An error of the service is told as the absence of the object.\<close>

lemma head_error_is_absence: "se_Head env = Some err \<Longrightarrow> S3_Exists env key s = Inr False"
  by (simp add: S3_Exists_def)

section \<open>Images do not depend on what is cached\<close>

text \<open>
  What assembling relies on in a store of layers, which are named by their digests and so always
  written with the same bytes: an object that is said to exist is there, a write leaves the other
  objects alone and, unless it fails, the object in place, and reading gives what is held or fails.
  \<open>holds\<close> is the store's contents. Any operation may fail; \<open>steady k\<close> says that those on \<open>k\<close> do not.
\<close>

locale write_once_store =
  fixes st :: "'s layer_store" and valid :: "'s \<Rightarrow> bool" and holds :: "'s \<Rightarrow> string \<Rightarrow> string option" and steady :: "string \<Rightarrow> bool"
  assumes exists_held: "valid s \<Longrightarrow> ls_Exists st k s = Inr True \<Longrightarrow> holds s k \<noteq> None"
    and put_again: "valid s \<Longrightarrow> holds s k \<in> {None, Some bytes} \<Longrightarrow> ls_Put st k bytes s = (r, s') \<Longrightarrow>
      valid s' \<and> (holds s' = holds s \<or> holds s' = (holds s)(k \<mapsto> bytes)) \<and> (r = None \<longrightarrow> holds s' k = Some bytes)"
    and get_held: "valid s \<Longrightarrow> ls_Get st k s = (g, s') \<Longrightarrow> valid s' \<and> holds s' = holds s \<and> (\<forall>bytes. g = Inr bytes \<longrightarrow> holds s k = Some bytes)"
    and calm_exists: "steady k \<Longrightarrow> valid s \<Longrightarrow> ls_Exists st k s = Inr (holds s k \<noteq> None)"
    and calm_put: "steady k \<Longrightarrow> valid s \<Longrightarrow> fst (ls_Put st k bytes s) = None"
    and calm_get: "steady k \<Longrightarrow> valid s \<Longrightarrow> holds s k = Some bytes \<Longrightarrow> fst (ls_Get st k s) = Inr bytes"

text \<open>The layers of an image applied one after the other, from their contents.\<close>

fun apply_contents ::
    "(string \<Rightarrow> string + (string + tar_header) list) \<Rightarrow> path \<Rightarrow> string list \<Rightarrow> filesystem \<Rightarrow> bool \<times> filesystem" where
  "apply_contents gunzip outputDir [] fs = (True, fs)"
| "apply_contents gunzip outputDir (bytes # bs) fs =
     (case gunzip bytes of
        Inl _ \<Rightarrow> (False, fs)
      | Inr es \<Rightarrow> (case untar es outputDir fs of (Some _, fs1) \<Rightarrow> (False, fs1) | (None, fs1) \<Rightarrow> apply_contents gunzip outputDir bs fs1))"

text \<open>
  Layers named by their contents: what the registry gives for a digest, if it gives anything, and what
  a store holds under it, if it holds anything, are the bytes the digest stands for.
\<close>

definition layer_bytes :: "(string \<Rightarrow> string) \<Rightarrow> layer \<Rightarrow> string" where
  "layer_bytes bytes_of ly = (case ly_Digest ly of Inl _ \<Rightarrow> [] | Inr d \<Rightarrow> bytes_of d)"

definition content_addressed :: "(string \<Rightarrow> string) \<Rightarrow> (string \<Rightarrow> string option) \<Rightarrow> layer list \<Rightarrow> bool" where
  "content_addressed bytes_of held lys \<longleftrightarrow> list_all (\<lambda>ly. case ly_Digest ly of
      Inl _ \<Rightarrow> True
    | Inr d \<Rightarrow> (case ly_Compressed ly of Inl _ \<Rightarrow> True | Inr bytes \<Rightarrow> bytes = bytes_of d) \<and>
              held (layer_key d) \<in> {None, Some (bytes_of d)}) lys"

text \<open>A layer that is there for sure: its digest is known, nothing done on it in the store fails, and
  the store holds it or the registry gives it.\<close>

definition obtainable :: "(string \<Rightarrow> bool) \<Rightarrow> (string \<Rightarrow> string option) \<Rightarrow> layer \<Rightarrow> bool" where
  "obtainable steady held ly \<longleftrightarrow> (case ly_Digest ly of
      Inl _ \<Rightarrow> False
    | Inr d \<Rightarrow> steady (layer_key d) \<and> (held (layer_key d) \<noteq> None \<or> \<not> isl (ly_Compressed ly)))"

text \<open>
  What an extraction may come to: when it succeeds, the files are those of all layers; when it stops,
  they are those of some first layers, the last of them perhaps in part; and when every layer is there
  for sure, it succeeds exactly when applying the layers does.
\<close>

definition extracted ::
    "(string \<Rightarrow> string + (string + tar_header) list) \<Rightarrow> path \<Rightarrow> string list \<Rightarrow> bool \<Rightarrow> filesystem \<Rightarrow> string option \<Rightarrow> filesystem \<Rightarrow> bool" where
  "extracted gunzip outputDir bs sure fs r fs' \<longleftrightarrow>
     (r = None \<longrightarrow> apply_contents gunzip outputDir bs fs = (True, fs')) \<and>
     (\<exists>n \<le> length bs. fs' = snd (apply_contents gunzip outputDir (take n bs) fs)) \<and>
     (sure \<longrightarrow> apply_contents gunzip outputDir bs fs = (r = None, fs'))"

lemma extracted_stop: "\<not> sure \<Longrightarrow> extracted gunzip outputDir bs sure fs (Some err) fs"
  by (auto simp: extracted_def intro: exI [of _ 0])

lemma extracted_more:
  assumes "gunzip bytes = Inr es" "untar es outputDir fs = (None, fs1)" "extracted gunzip outputDir bs sure1 fs1 r fs'" "sure \<longrightarrow> sure1"
  shows "extracted gunzip outputDir (bytes # bs) sure fs r fs'"
proof -
  obtain n where "n \<le> length bs" "fs' = snd (apply_contents gunzip outputDir (take n bs) fs1)" using assms(3) by (auto simp: extracted_def)
  then have "\<exists>n \<le> length (bytes # bs). fs' = snd (apply_contents gunzip outputDir (take n (bytes # bs)) fs)"
    using assms(1,2) by (intro exI [of _ "Suc n"]) simp
  then show ?thesis using assms by (auto simp: extracted_def)
qed

lemma extracted_failed:
  assumes "apply_contents gunzip outputDir [bytes] fs = (False, fs1)"
  shows "extracted gunzip outputDir (bytes # bs) sure fs (Some err) fs1"
proof -
  have "apply_contents gunzip outputDir (bytes # bs) fs = (False, fs1)" using assms by (auto split: sum.splits prod.splits option.splits)
  then show ?thesis using assms unfolding extracted_def by (auto intro!: exI [of _ 1])
qed

lemma layer_key_inj: "layer_key d = layer_key e \<longleftrightarrow> d = e"
  by (simp add: layer_key_def)

context write_once_store
begin

lemma download_held:
  assumes "valid s" "content_addressed bytes_of (holds s) (ly # lys)" "download st ly s = (r, s')"
  shows "valid s' \<and> content_addressed bytes_of (holds s') lys \<and>
    (\<forall>k. holds s k \<noteq> None \<longrightarrow> holds s' k \<noteq> None) \<and>
    (r = None \<longrightarrow> (\<exists>d. ly_Digest ly = Inr d \<and> holds s' (layer_key d) = Some (bytes_of d))) \<and>
    (obtainable steady (holds s) ly \<longrightarrow> r = None)"
proof (cases "ly_Digest ly")
  case (Inl err)
  then show ?thesis using assms by (auto simp: download_def obtainable_def content_addressed_def)
next
  case d: (Inr d)
  let ?k = "layer_key d"
  have held: "holds s ?k \<in> {None, Some (bytes_of d)}" using assms(2) d by (simp add: content_addressed_def)
  have rest: "content_addressed bytes_of (holds s) lys" using assms(2) by (simp add: content_addressed_def)
  show ?thesis
  proof (cases "ls_Exists st ?k s = Inr False \<and> \<not> isl (ly_Compressed ly)")
    case True
    then have "ly_Compressed ly = Inr (bytes_of d)" using assms(2) d by (cases "ly_Compressed ly") (auto simp: content_addressed_def)
    then have p: "ls_Put st ?k (bytes_of d) s = (r, s')" using assms(3) True d by (simp add: download_def)
    note q = put_again [OF assms(1) held p]
    then have "content_addressed bytes_of (holds s') lys"
      using rest by (fastforce simp: content_addressed_def list_all_iff layer_key_inj split: sum.splits)
    then show ?thesis using q d p calm_put [OF _ assms(1), of ?k "bytes_of d"] by (auto simp: obtainable_def)
  next
    case False
    then have "s' = s \<and> (r = None \<longrightarrow> ls_Exists st ?k s = Inr True)"
      using assms(3) d by (auto simp: download_def split: sum.splits bool.splits)
    moreover have "obtainable steady (holds s) ly \<longrightarrow> ls_Exists st ?k s = Inr True"
      using False d calm_exists [OF _ assms(1), of ?k] by (auto simp: obtainable_def)
    moreover have "ls_Exists st ?k s = Inr True \<longrightarrow> r = None" using assms(3) d by (auto simp: download_def)
    ultimately show ?thesis using rest assms(1) held d exists_held [OF assms(1), of ?k] by auto
  qed
qed

lemma obtainable_mono: "obtainable steady held ly \<Longrightarrow> \<forall>k. held k \<noteq> None \<longrightarrow> held' k \<noteq> None \<Longrightarrow> obtainable steady held' ly"
  by (auto simp: obtainable_def split: sum.splits)

lemma extract_layers_faithful:
  assumes "valid s" "content_addressed bytes_of (holds s) lys" "extract_layers st gunzip outputDir i lys s fs = (r, s', fs')"
  shows "valid s' \<and>
    extracted gunzip outputDir (map (layer_bytes bytes_of) lys) (list_all (obtainable steady (holds s)) lys) fs r fs'"
  using assms
proof (induction lys arbitrary: i s fs)
  case Nil
  then show ?case by (auto simp: extracted_def)
next
  case (Cons ly lys)
  obtain r1 s1 where dl: "download st ly s = (r1, s1)" by fastforce
  note d1 = download_held [OF Cons.prems(1,2) dl]
  show ?case
  proof (cases r1)
    case (Some err)
    then show ?thesis using Cons.prems(3) dl d1 extracted_stop by auto
  next
    case None
    then obtain d where d: "ly_Digest ly = Inr d" "holds s1 (layer_key d) = Some (bytes_of d)" using d1 by blast
    have bytes: "layer_bytes bytes_of ly = bytes_of d" by (simp add: layer_bytes_def d)
    obtain g s2 where get: "ls_Get st (layer_key d) s1 = (g, s2)" by fastforce
    note d2 = get_held [OF d1 [THEN conjunct1] get]
    show ?thesis
    proof (cases g)
      case (Inl err)
      then have "\<not> steady (layer_key d)" using calm_get [of "layer_key d" s1] d1 d(2) get by auto
      then have "\<not> obtainable steady (holds s) ly" by (simp add: obtainable_def d)
      then show ?thesis using Cons.prems(3) dl None d get Inl d2 extracted_stop by (auto simp: extract_layer_def)
    next
      case (Inr b)
      then have b: "b = bytes_of d" using d2 d(2) by auto
      show ?thesis
      proof (cases "apply_contents gunzip outputDir [bytes_of d] fs")
        case (Pair good fs1)
        show ?thesis
        proof (cases good)
          case False
          then have "\<exists>err. r = Some err \<and> s' = s2 \<and> fs' = fs1"
            using Cons.prems(3) dl None d get Inr b Pair by (auto simp: extract_layer_def split: sum.splits prod.splits option.splits)
          then show ?thesis using extracted_failed [of gunzip outputDir "bytes_of d" fs fs1] Pair False d2 by (auto simp: bytes)
        next
          case True
          then obtain es where es: "gunzip (bytes_of d) = Inr es" "untar es outputDir fs = (None, fs1)"
            using Pair by (auto split: sum.splits prod.splits option.splits)
          then have run: "extract_layers st gunzip outputDir (Suc i) lys s2 fs1 = (r, s', fs')"
            using Cons.prems(3) dl None d get Inr b by (simp add: extract_layer_def)
          have "content_addressed bytes_of (holds s2) lys" "valid s2" using d1 d2 by auto
          note IH = Cons.IH [OF this(2,1) run]
          have "list_all (obtainable steady (holds s)) (ly # lys) \<longrightarrow> list_all (obtainable steady (holds s2)) lys"
            using d1 d2 obtainable_mono by (auto simp: list_all_iff)
          then show ?thesis using extracted_more [where gunzip = gunzip and outputDir = outputDir, OF es IH [THEN conjunct2]] IH by (simp add: bytes)
        qed
      qed
    qed
  qed
qed

end

text \<open>The stores of a builder, with what fails of the operations on each object.\<close>

record local_faults =
  lf_Stat :: "string \<Rightarrow> string option"
  lf_Write :: "string \<Rightarrow> string option"
  lf_Open :: "string \<Rightarrow> string option"

definition local_layers :: "local_faults \<Rightarrow> files layer_store" where
  "local_layers w = \<lparr>ls_Exists = (\<lambda>k. LocalStore_Exists (lf_Stat w k) k), ls_Put = (\<lambda>k. LocalStore_Put (lf_Write w k) k),
     ls_Get = (\<lambda>k s. (LocalStore_Get (lf_Open w k) k s, s))\<rparr>"

definition s3_layers :: "(string \<Rightarrow> s3_env) \<Rightarrow> s3_store layer_store" where
  "s3_layers w = \<lparr>ls_Exists = (\<lambda>k. S3_Exists (w k) k), ls_Put = (\<lambda>k. S3_Put (w k) k),
     ls_Get = (\<lambda>k s. case S3_Get (w k) k s of (Inl NotExist, s') \<Rightarrow> (Inl ''file does not exist'', s') | (Inl (GetFailed err), s') \<Rightarrow> (Inl err, s')
                | (Inr bytes, s') \<Rightarrow> (Inr bytes, s'))\<rparr>"

definition local_calm :: "local_faults \<Rightarrow> string \<Rightarrow> bool" where
  "local_calm w k \<longleftrightarrow> lf_Stat w k = None \<and> lf_Write w k = None \<and> lf_Open w k = None"

definition s3_calm :: "(string \<Rightarrow> s3_env) \<Rightarrow> string \<Rightarrow> bool" where
  "s3_calm w k \<longleftrightarrow> w k = calm_s3"

interpretation local_disk: write_once_store "local_layers w" "\<lambda>s. True" get "local_calm w" for w
  by unfold_locales
     (auto simp: local_layers_def local_calm_def LocalStore_Exists_def LocalStore_Put_def LocalStore_Get_def get_put_fun split: option.splits)

lemma S3_Put_again:
  assumes "cache_fresh s" "get (s3_bucket s) k \<in> {None, Some bytes}" "S3_Put env k bytes s = (r, s')"
  shows "cache_fresh s' \<and> (get (s3_bucket s') = get (s3_bucket s) \<or> get (s3_bucket s') = (get (s3_bucket s))(k \<mapsto> bytes)) \<and>
    (r = None \<longrightarrow> get (s3_bucket s') k = Some bytes)"
  using assms by (auto simp: S3_Put_def cache_fresh_def get_put_fun split: option.splits)

interpretation s3: write_once_store "s3_layers w" cache_fresh "\<lambda>s. get (s3_bucket s)" "s3_calm w" for w
proof
  fix s s' :: s3_store and k bytes :: string and r :: "string option" and g :: "string + string"
  show "cache_fresh s \<Longrightarrow> ls_Exists (s3_layers w) k s = Inr True \<Longrightarrow> get (s3_bucket s) k \<noteq> None"
    by (auto simp: s3_layers_def S3_Exists_def split: option.splits)
  show "cache_fresh s \<Longrightarrow> get (s3_bucket s) k \<in> {None, Some bytes} \<Longrightarrow> ls_Put (s3_layers w) k bytes s = (r, s') \<Longrightarrow>
      cache_fresh s' \<and> (get (s3_bucket s') = get (s3_bucket s) \<or> get (s3_bucket s') = (get (s3_bucket s))(k \<mapsto> bytes)) \<and>
      (r = None \<longrightarrow> get (s3_bucket s') k = Some bytes)"
    using S3_Put_again [of s k bytes "w k" r s'] unfolding s3_layers_def layer_store.simps by blast
  show "cache_fresh s' \<and> get (s3_bucket s') = get (s3_bucket s) \<and> (\<forall>bytes. g = Inr bytes \<longrightarrow> get (s3_bucket s) k = Some bytes)"
    if fresh: "cache_fresh s" and run: "ls_Get (s3_layers w) k s = (g, s')"
  proof -
    obtain q s1 where got: "S3_Get (w k) k s = (q, s1)" by fastforce
    then have "\<forall>bytes. q = Inr bytes \<longrightarrow> get (s3_bucket s) k = Some bytes"
      using fresh by (auto simp: S3_Get_def open_cached_def cache_fresh_def split: option.splits if_splits)
    then show ?thesis using got run S3_Get_bucket [OF got] fresh by (auto simp: s3_layers_def split: sum.splits get_error.splits)
  qed
  show "s3_calm w k \<Longrightarrow> cache_fresh s \<Longrightarrow> ls_Exists (s3_layers w) k s = Inr (get (s3_bucket s) k \<noteq> None)"
    "s3_calm w k \<Longrightarrow> cache_fresh s \<Longrightarrow> fst (ls_Put (s3_layers w) k bytes s) = None"
    by (simp_all add: s3_layers_def s3_calm_def S3_Exists_def S3_Put_def calm_s3_def)
  show "s3_calm w k \<Longrightarrow> cache_fresh s \<Longrightarrow> get (s3_bucket s) k = Some bytes \<Longrightarrow> fst (ls_Get (s3_layers w) k s) = Inr bytes"
    using s3_store_reads [of s k] by (auto simp: s3_layers_def s3_calm_def split: prod.splits)
qed

text \<open>
  C23: An assembled image is its layers, whatever was cached and whatever fails. Let the layers be named
  by their contents, in the registry and in the store, let every object in the cache of an S3 store be
  the one in the bucket, and let any of the operations on the store and any read of the registry fail,
  for the store on the local disk and for S3 with its cache. When extracting the layers succeeds, the
  files are exactly those of applying the archives of all layers, in order; when it stops, they are
  those of some first layers, the last perhaps in part. When each layer is held by the store or given by
  the registry and no store operation on it fails, the extraction succeeds exactly when applying the
  archives does.
\<close>

theorem layers_cached_transparently:
  assumes "content_addressed bytes_of (get s) lys" "cache_fresh t" "content_addressed bytes_of (get (s3_bucket t)) lys"
  shows "(case extract_layers (local_layers v) gunzip outputDir 0 lys s fs of (r, s', fs') \<Rightarrow>
      extracted gunzip outputDir (map (layer_bytes bytes_of) lys) (list_all (obtainable (local_calm v) (get s)) lys) fs r fs') \<and>
    (case extract_layers (s3_layers w) gunzip outputDir 0 lys t fs of (r, t', fs') \<Rightarrow> cache_fresh t' \<and>
      extracted gunzip outputDir (map (layer_bytes bytes_of) lys) (list_all (obtainable (s3_calm w) (get (s3_bucket t))) lys) fs r fs')"
  using local_disk.extract_layers_faithful [OF TrueI assms(1)] s3.extract_layers_faithful [OF assms(2,3)] by (auto split: prod.split)

definition demo_layer :: "string \<Rightarrow> string \<Rightarrow> layer" where
  "demo_layer digest bytes = \<lparr>ly_Digest = Inr digest, ly_Compressed = Inr bytes\<rparr>"

definition demo_gunzip :: "string \<Rightarrow> string + (string + tar_header) list" where
  "demo_gunzip bytes = Inr [tar_file bytes bytes]"

text \<open>Two layers, one on the disk; the other is not in the registry today.\<close>

theorem layers_cached_transparently_witness:
  "let lys = [demo_layer ''1'' ''a'', (demo_layer ''2'' ''b'')\<lparr>ly_Compressed := Inl ''503''\<rparr>];
       (r, s', fs') = extract_layers (local_layers \<lparr>lf_Stat = (\<lambda>k. None), lf_Write = (\<lambda>k. None), lf_Open = (\<lambda>k. None)\<rparr>)
         demo_gunzip [''out''] 0 lys [(''layers/1'', ''a'')] demo_fs
   in r \<noteq> None \<and> (\<exists>n \<le> 2. fs' = snd (apply_contents demo_gunzip [''out''] (take n [''a'', ''b'']) demo_fs)) \<and>
      lookup fs' [''out'', ''a''] = Some (NFile ''a'')"
proof -
  let ?lys = "[demo_layer ''1'' ''a'', (demo_layer ''2'' ''b'')\<lparr>ly_Compressed := Inl ''503''\<rparr>]"
  let ?v = "\<lparr>lf_Stat = (\<lambda>k. None), lf_Write = (\<lambda>k. None), lf_Open = (\<lambda>k. None)\<rparr>" and ?b = "\<lambda>d. if d = ''1'' then ''a'' else ''b''"
  let ?x = "extract_layers (local_layers ?v) demo_gunzip [''out''] 0 ?lys [(''layers/1'', ''a'')] demo_fs"
  have "content_addressed ?b (get [(''layers/1'', ''a'')]) ?lys"
    "content_addressed ?b (get (s3_bucket \<lparr>s3_bucket = [], s3_localCache = []\<rparr>)) ?lys"
    "cache_fresh \<lparr>s3_bucket = [], s3_localCache = []\<rparr>"
    by (simp_all add: content_addressed_def demo_layer_def layer_key_def cache_fresh_def)
  from layers_cached_transparently [where v = ?v and gunzip = demo_gunzip and outputDir = "[''out'']" and fs = demo_fs, OF this(1,3,2)]
  have "\<exists>n \<le> 2. snd (snd ?x) = snd (apply_contents demo_gunzip [''out''] (take n [''a'', ''b'']) demo_fs)"
    by (auto simp: extracted_def layer_bytes_def demo_layer_def case_prod_beta numeral_2_eq_2)
  moreover have "fst ?x \<noteq> None \<and> lookup (snd (snd ?x)) [''out'', ''a''] = Some (NFile ''a'')" by code_simp
  ultimately show ?thesis by (simp add: case_prod_beta)
qed

end
