(* ===== verification/Relay.thy ===== *)
theory Relay
  imports Wire Drivers Nyx
begin

text \<open>
  The streams between a client and a sandbox: the logs and the output of commands, which the agent
  publishes piece by piece (\<open>src/pkg/hecatoncheir/agent.go\<close>, \<open>control.go\<close>, \<open>control_exec.go\<close>) and the
  control plane writes to the client (\<open>src/pkg/olympus/redis_control.go\<close>), the input of a command,
  which goes the other way, and the snapshot an agent takes of a sandbox.

  Redis hands a publication to those who are subscribed to its topic at that time, in order; the
  channel of the client library keeps what has not been taken yet, up to its size, and drops a message
  that finds it full for too long. A publication may fail. What happens while the control plane waits is
  a list of events: publications by anybody, in the order in which the library has dealt with them, and
  what its \<open>select\<close> finds.
\<close>

section \<open>Topics\<close>

definition logs_topic :: "SandboxID \<Rightarrow> string" where
  "logs_topic sandboxID = ''tartarus:logs:'' @ sandboxID"

definition exec_topic :: "SandboxID \<Rightarrow> string \<Rightarrow> string" where
  "exec_topic sandboxID requestID = ''tartarus:exec:'' @ sandboxID @ '':'' @ requestID"

definition stdin_topic :: "string \<Rightarrow> string" where
  "stdin_topic requestID = ''tartarus:exec:stdin:'' @ requestID"

section \<open>The agent\<close>

text \<open>
  A write to an \<open>io.Pipe\<close> is taken by as many reads as it needs with the reader's buffer; an empty
  write gives an empty read, which is not published.
\<close>

function pipe_reads :: "nat \<Rightarrow> string \<Rightarrow> string list" where
  "pipe_reads buf bytes =
     (if bytes = [] then [] else if buf = 0 then [bytes] else take buf bytes # pipe_reads buf (drop buf bytes))"
  by pat_completeness auto
termination by (relation "measure (\<lambda>(buf, bytes). length bytes)") auto

declare pipe_reads.simps [simp del]

text \<open>The publications of a reader: \<open>fails n\<close> is the error of the \<open>n\<close>-th one, which is only logged.\<close>

fun publish_reads :: "(nat \<Rightarrow> string option) \<Rightarrow> nat \<Rightarrow> string \<Rightarrow> string list \<Rightarrow> (string \<times> string) list" where
  "publish_reads fails n topic [] = []"
| "publish_reads fails n topic (chunk # chunks) =
     (case fails n of
        Some _ \<Rightarrow> publish_reads fails (Suc n) topic chunks
      | None \<Rightarrow> (topic, chunk) # publish_reads fails (Suc n) topic chunks)"

definition relay_writes :: "(nat \<Rightarrow> string option) \<Rightarrow> string \<Rightarrow> string list \<Rightarrow> (string \<times> string) list" where
  "relay_writes fails topic writes = publish_reads fails 0 topic (concat (map (pipe_reads 4096) writes))"

text \<open>
  What the runtime does with its writer: its error, if any, and what it writes. An error of the
  log stream is only logged; that of a command is written after its output.
\<close>

type_synonym streamed = "string option \<times> string list"

definition agent_streamLogs :: "(nat \<Rightarrow> string option) \<Rightarrow> SandboxID \<Rightarrow> streamed \<Rightarrow> (string \<times> string) list" where
  "agent_streamLogs fails i out = relay_writes fails (logs_topic i) (snd out)"

definition exec_error :: "string \<Rightarrow> string" where
  "exec_error err = ''Error executing command: '' @ err @ [CHR 0x0A]"

definition exec_writes :: "streamed \<Rightarrow> string list" where
  "exec_writes out = snd out @ (case fst out of None \<Rightarrow> [] | Some err \<Rightarrow> [exec_error err])"


text \<open>
  The input of an interactive command is every payload of the topic of the request, from the time
  the agent has subscribed until its context ends; \<open>subscribed\<close> is the error of subscribing.
\<close>

definition SubscribeStdin :: "string \<Rightarrow> (string \<times> string) list \<Rightarrow> string list" where
  "SubscribeStdin requestID pubs = map snd (filter (\<lambda>(t, p). t = stdin_topic requestID) pubs)"

definition agent_execInteractive ::
    "(nat \<Rightarrow> string option) \<Rightarrow> string option \<Rightarrow> (string \<times> string) list \<Rightarrow> (string \<Rightarrow> streamed) \<Rightarrow> SandboxID \<Rightarrow> string \<Rightarrow> (string \<times> string) list" where
  "agent_execInteractive fails subscribed later run_it i requestID =
     (case subscribed of
        Some _ \<Rightarrow> []
      | None \<Rightarrow> relay_writes fails (exec_topic i requestID) (exec_writes (run_it (concat (SubscribeStdin requestID later)))))"

section \<open>The control plane\<close>

datatype relay_event =
    Published string string
  | Received
  | ChannelClosed
  | Deadline
  | ClientGone string

text \<open>The size of the client library's channel, its default.\<close>

definition channel_size :: nat where
  "channel_size = 100"

text \<open>
  The loop that copies messages to the client's writer: what it returns, if it does before the events
  end, what the client was given, and the messages waiting. The deadline is that of the logs; a
  command has none, and the error of a writer is passed on as it is.
\<close>

fun copy_loop ::
    "bool \<Rightarrow> (string \<Rightarrow> string option) \<Rightarrow> string \<Rightarrow> relay_event list \<Rightarrow> string list \<Rightarrow> string \<Rightarrow> string option option \<times> string \<times> string list" where
  "copy_loop logs w topic [] inbox out = (None, out, inbox)"
| "copy_loop logs w topic (Published t p # es) inbox out =
     copy_loop logs w topic es (if t = topic \<and> length inbox < channel_size then inbox @ [p] else inbox) out"
| "copy_loop logs w topic (Received # es) inbox out =
     (case inbox of
        [] \<Rightarrow> copy_loop logs w topic es [] out
      | p # ps \<Rightarrow>
          (case w p of
             Some err \<Rightarrow> (Some (Some (if logs then ''failed to write logs: '' @ err else err)), out, ps)
           | None \<Rightarrow> copy_loop logs w topic es ps (out @ p)))"
| "copy_loop logs w topic (ChannelClosed # es) inbox out = (Some None, out, inbox)"
| "copy_loop logs w topic (Deadline # es) inbox out =
     (if logs then (Some (Some ''log streaming timeout after 5 minutes''), out, inbox) else copy_loop logs w topic es inbox out)"
| "copy_loop logs w topic (ClientGone err # es) inbox out = (Some (Some err), out, inbox)"

text \<open>
  The operations: subscribe first, then ask the agent, then copy. The messages they publish on the
  control topic are those of \<open>Wire\<close>; \<open>after\<close> is what happens once the request is out.
\<close>

definition ask_and_copy ::
    "bool \<Rightarrow> string \<Rightarrow> string \<Rightarrow> string option \<Rightarrow> string option \<Rightarrow> (string \<Rightarrow> string option) \<Rightarrow> string \<Rightarrow> relay_event list
     \<Rightarrow> string option option \<times> string \<times> string list" where
  "ask_and_copy logs unsubscribed unsent subscribe publish w topic after =
     (case subscribe of
        Some err \<Rightarrow> (Some (Some (unsubscribed @ err)), [], [])
      | None \<Rightarrow>
          (case publish of
             Some err \<Rightarrow> (Some (Some (unsent @ err)), [], [])
           | None \<Rightarrow> copy_loop logs w topic after [] []))"

definition Redis_StreamLogs ::
    "string option \<Rightarrow> string option \<Rightarrow> (string \<Rightarrow> string option) \<Rightarrow> SandboxID \<Rightarrow> relay_event list \<Rightarrow> string option option \<times> string \<times> string list" where
  "Redis_StreamLogs subscribe publish w sandboxID =
     ask_and_copy True ''failed to subscribe to logs: '' ''failed to trigger log streaming: '' subscribe publish w (logs_topic sandboxID)"

definition Redis_Exec ::
    "string option \<Rightarrow> string option \<Rightarrow> (string \<Rightarrow> string option) \<Rightarrow> string \<Rightarrow> SandboxID \<Rightarrow> relay_event list
     \<Rightarrow> string option option \<times> string \<times> string list" where
  "Redis_Exec subscribe publish w requestID sandboxID =
     ask_and_copy False ''failed to subscribe to exec output: '' ''failed to send exec command: '' subscribe publish w
       (exec_topic sandboxID requestID)"

text \<open>The input is published by a goroutine that ends at the first error of a publication or at the end of the input.\<close>

fun publish_stdin :: "(nat \<Rightarrow> string option) \<Rightarrow> nat \<Rightarrow> string \<Rightarrow> string list \<Rightarrow> (string \<times> string) list" where
  "publish_stdin fails n requestID [] = []"
| "publish_stdin fails n requestID (chunk # chunks) =
     (if chunk = [] then publish_stdin fails n requestID chunks
      else case fails n of
        Some _ \<Rightarrow> []
      | None \<Rightarrow> (stdin_topic requestID, chunk) # publish_stdin fails (Suc n) requestID chunks)"

definition Redis_ExecInteractive ::
    "string option \<Rightarrow> string option \<Rightarrow> (string \<Rightarrow> string option) \<Rightarrow> (nat \<Rightarrow> string option) \<Rightarrow> string list \<Rightarrow> string \<Rightarrow> SandboxID \<Rightarrow> relay_event list
     \<Rightarrow> (string option option \<times> string \<times> string list) \<times> (string \<times> string) list" where
  "Redis_ExecInteractive subscribe publish w fails stdin requestID sandboxID after =
     (Redis_Exec subscribe publish w requestID sandboxID after,
      if subscribe = None \<and> publish = None then publish_stdin fails 0 requestID stdin else [])"

section \<open>Snapshots\<close>

text \<open>
  The agent's snapshot of a sandbox: the configuration, a temporary directory, the runtime's files in
  it, and the manager of snapshots. Whatever happens after the directory is made, it is removed.
\<close>

record 'w snapshot_services =
  sv_GetConfig :: "SandboxID \<Rightarrow> 'w \<Rightarrow> (string + SandboxRequest) \<times> 'w"
  sv_MkdirTemp :: "'w \<Rightarrow> (string + string) \<times> 'w"
  sv_CreateSnapshot :: "SandboxID \<Rightarrow> string \<Rightarrow> string \<Rightarrow> 'w \<Rightarrow> string option \<times> 'w"
  sv_SaveSnapshot :: "TemplateID \<Rightarrow> SnapshotID \<Rightarrow> string \<Rightarrow> string \<Rightarrow> 'w \<Rightarrow> (string + Snapshot) \<times> 'w"
  sv_RemoveAll :: "string \<Rightarrow> 'w \<Rightarrow> 'w"

definition handleSnapshot :: "'w snapshot_services \<Rightarrow> SnapshotID \<Rightarrow> SandboxID \<Rightarrow> 'w \<Rightarrow> string option \<times> 'w" where
  "handleSnapshot sv snapID i w =
     (case sv_GetConfig sv i w of
        (Inl err, w1) \<Rightarrow> (Some err, w1)
      | (Inr req, w1) \<Rightarrow>
          (case sv_MkdirTemp sv w1 of
             (Inl err, w2) \<Rightarrow> (Some err, w2)
           | (Inr tmpDir, w2) \<Rightarrow>
               let memPath = tmpDir @ ''/snap.mem''; diskPath = tmpDir @ ''/snap.disk''
               in case sv_CreateSnapshot sv i memPath diskPath w2 of
                    (Some err, w3) \<Rightarrow> (Some err, sv_RemoveAll sv tmpDir w3)
                  | (None, w3) \<Rightarrow>
                      (case sv_SaveSnapshot sv (req_Template req) snapID memPath diskPath w3 of
                         (Inl err, w4) \<Rightarrow> (Some err, sv_RemoveAll sv tmpDir w4)
                       | (Inr _, w4) \<Rightarrow> (None, sv_RemoveAll sv tmpDir w4))))"

section \<open>What is written arrives\<close>

lemma concat_pipe_reads [simp]: "concat (pipe_reads buf bytes) = bytes"
  by (induction buf bytes rule: pipe_reads.induct) (subst pipe_reads.simps, auto)

lemma concat_relayed [simp]: "concat (concat (map (pipe_reads buf) writes)) = concat writes"
  by (induction writes) simp_all

text \<open>The pieces whose publication did not fail.\<close>

definition kept_pieces :: "(nat \<Rightarrow> string option) \<Rightarrow> string list \<Rightarrow> string list" where
  "kept_pieces fails pieces = map snd (filter (\<lambda>(n, piece). fails n = None) (enumerate 0 pieces))"

lemma publish_reads_kept:
  "map snd (publish_reads fails n topic chunks) = map snd (filter (\<lambda>(n, piece). fails n = None) (enumerate n chunks))"
  by (induction chunks arbitrary: n) (auto split: option.split)

lemma relay_writes_kept: "map snd (relay_writes fails topic writes) = kept_pieces fails (concat (map (pipe_reads 4096) writes))"
  by (simp add: relay_writes_def kept_pieces_def publish_reads_kept)

lemma all_kept: "\<forall>n. fails n = None \<Longrightarrow> kept_pieces fails pieces = pieces"
  by (simp add: kept_pieces_def case_prod_beta)

text \<open>The payloads published on a topic among the events.\<close>

fun payloads :: "string \<Rightarrow> relay_event list \<Rightarrow> string list" where
  "payloads topic [] = []"
| "payloads topic (Published t p # es) = (if t = topic then p # payloads topic es else payloads topic es)"
| "payloads topic (_ # es) = payloads topic es"

text \<open>Nothing ends the loop, and the client keeps up: with \<open>k\<close> messages waiting at first, no message of the
  topic finds the channel full.\<close>

definition keeps_going :: "bool \<Rightarrow> relay_event \<Rightarrow> bool" where
  "keeps_going logs e = (case e of Published _ _ \<Rightarrow> True | Received \<Rightarrow> True | Deadline \<Rightarrow> \<not> logs | _ \<Rightarrow> False)"

fun keeps_up :: "string \<Rightarrow> nat \<Rightarrow> relay_event list \<Rightarrow> bool" where
  "keeps_up topic k [] \<longleftrightarrow> True"
| "keeps_up topic k (Published t p # es) \<longleftrightarrow> (if t = topic then k < channel_size \<and> keeps_up topic (Suc k) es else keeps_up topic k es)"
| "keeps_up topic k (Received # es) \<longleftrightarrow> keeps_up topic (k - 1) es"
| "keeps_up topic k (_ # es) \<longleftrightarrow> keeps_up topic k es"

text \<open>Then what the client has and what is waiting are what was published on the topic, cut in two.\<close>

lemma copy_loop_account:
  assumes "list_all (keeps_going logs) es" "\<forall>chunk. w chunk = None" "keeps_up topic (length inbox) es"
  shows "\<exists>n \<le> length (inbox @ payloads topic es). copy_loop logs w topic (es @ es') inbox out =
    copy_loop logs w topic es' (drop n (inbox @ payloads topic es)) (out @ concat (take n (inbox @ payloads topic es)))"
  using assms(1,3)
proof (induction es arbitrary: inbox out)
  case Nil
  then show ?case by (auto intro: exI [of _ 0])
next
  case (Cons e es)
  show ?case
  proof (cases e)
    case (Published t p)
    then show ?thesis using Cons.IH [of "if t = topic then inbox @ [p] else inbox" out] Cons.prems by (cases "t = topic") simp_all
  next
    case Received
    show ?thesis
    proof (cases inbox)
      case Nil
      then show ?thesis using Cons.IH [of "[]" out] Cons.prems Received by simp
    next
      case (Cons p ps)
      obtain n where "n \<le> length (ps @ payloads topic es)" "copy_loop logs w topic (es @ es') ps (out @ p) =
          copy_loop logs w topic es' (drop n (ps @ payloads topic es)) ((out @ p) @ concat (take n (ps @ payloads topic es)))"
        using Cons.IH [of ps "out @ p"] Cons.prems Received Cons by auto
      moreover have "w p = None" using assms(2) by blast
      ultimately show ?thesis using Received Cons by (intro exI [of _ "Suc n"]) simp
    qed
  next
    case Deadline
    moreover have "\<not> logs" using Cons.prems(1) by (simp add: keeps_going_def Deadline)
    ultimately show ?thesis using Cons.prems Cons.IH [of inbox out] by simp
  qed (use Cons.prems in \<open>auto simp: keeps_going_def\<close>)
qed






section \<open>Behaviours worth knowing\<close>

text \<open>The agent has no way to tell that a command has ended: without a client that goes away, the call never returns.\<close>

lemma copy_loop_runs_on: "list_all (keeps_going logs) es \<Longrightarrow> fst (copy_loop logs (\<lambda>chunk. None) topic es inbox out) = None"
proof (induction es arbitrary: inbox out)
  case (Cons e es)
  then show ?case by (cases e) (auto simp: keeps_going_def split: list.split)
qed simp

lemma exec_never_returns:
  assumes "list_all (keeps_going False) es"
  shows "fst (Redis_Exec None None (\<lambda>chunk. None) requestID i es) = None"
  using copy_loop_runs_on [OF assms] by (simp add: Redis_Exec_def ask_and_copy_def)

text \<open>A client that does not read loses what comes after the first hundred messages.\<close>

lemma slow_client_loses:
  "Redis_StreamLogs None None w i (map (Published (logs_topic i)) ps) = (None, [], take channel_size ps)"
proof -
  have "copy_loop logs w topic (map (Published topic) ps) inbox out = (None, out, inbox @ take (channel_size - length inbox) ps)"
    if "length inbox \<le> channel_size" for logs topic inbox out
    using that by (induction ps arbitrary: inbox) (auto simp: take_Cons')
  from this [of "[]"] show ?thesis by (simp add: Redis_StreamLogs_def ask_and_copy_def)
qed

text \<open>The topic of a log is that of the sandbox: a second request for the same log makes every client receive it twice.\<close>

lemma second_request_duplicates:
  assumes "list_all (keeps_going True) es" "keeps_up (logs_topic i) 0 es"
    and "payloads (logs_topic i) es = map snd (agent_streamLogs (\<lambda>n. None) i (None, ws) @ agent_streamLogs (\<lambda>n. None) i (None, ws))"
  shows "\<exists>out waiting. Redis_StreamLogs None None (\<lambda>chunk. None) i es = (None, out, waiting) \<and> out @ concat waiting = concat ws @ concat ws"
proof -
  have p: "concat (payloads (logs_topic i) es) = concat ws @ concat ws"
    unfolding assms(3) map_append agent_streamLogs_def relay_writes_kept by (simp add: all_kept)
  obtain n where "copy_loop True (\<lambda>chunk. None) (logs_topic i) es [] [] = (None, concat (take n (payloads (logs_topic i) es)), drop n (payloads (logs_topic i) es))"
    using copy_loop_account [OF assms(1), of "\<lambda>chunk. None" "logs_topic i" "[]" "[]" "[]"] assms(2) by auto
  moreover have "concat (take n (payloads (logs_topic i) es)) @ concat (drop n (payloads (logs_topic i) es)) = concat ws @ concat ws"
    using p by (simp flip: concat_append)
  ultimately show ?thesis by (auto simp: Redis_StreamLogs_def ask_and_copy_def)
qed

text \<open>The output of a command in a sandbox called \<open>stdin\<close> is published on the topic of its own input.\<close>

lemma output_topic_is_input_topic: "exec_topic ''stdin'' requestID = stdin_topic requestID"
  by (simp add: exec_topic_def stdin_topic_def)

text \<open>The input arrives as it was read, if it was published after the agent had subscribed; the end of the input is not told.\<close>

lemma stdin_arrives: "concat (SubscribeStdin requestID (publish_stdin (\<lambda>n. None) n requestID chunks)) = concat chunks"
  by (induction chunks arbitrary: n) (simp_all add: SubscribeStdin_def)

text \<open>The temporary directory of a snapshot is removed last, on every path that made it.\<close>

lemma snapshot_cleans_up:
  assumes "sv_GetConfig sv i w = (Inr req, w1)" "sv_MkdirTemp sv w1 = (Inr tmpDir, w2)"
  shows "\<exists>w3. snd (handleSnapshot sv snapID i w) = sv_RemoveAll sv tmpDir w3"
  using assms by (auto simp: handleSnapshot_def Let_def split: prod.split option.split sum.split)

end
