(* ===== verification/Doubles.thy ===== *)
theory Doubles
  imports Complex_Main Prelude
begin

text \<open>
  The arithmetic of Go's \<open>float64\<close>: a number is the real it stands for, and every operation gives
  the nearest number with 53 significant bits (ties to even, no finer than \<open>2\<^sup>-\<^sup>1\<^sup>0\<^sup>7\<^sup>4\<close>) to the exact
  result. The sign of zero is not told apart. Sums and products are used where they stay far below
  the largest number; a quotient by a number that comes from outside can overflow or be undefined,
  so it is a value with infinities and NaN. Converting to \<open>int\<close> truncates; what Go leaves to the
  implementation, a value that does not fit, is the least 64-bit integer, as on x86-64.

  The laws that the client proofs use are an interface, \<open>rounding\<close>.
\<close>

section \<open>Rounding\<close>

definition rne :: "real \<Rightarrow> int" where
  "rne y = (let d = y - of_int \<lfloor>y\<rfloor>
            in if d < 1 / 2 then \<lfloor>y\<rfloor> else if 1 / 2 < d then \<lfloor>y\<rfloor> + 1 else if even \<lfloor>y\<rfloor> then \<lfloor>y\<rfloor> else \<lfloor>y\<rfloor> + 1)"

definition quantum :: "real \<Rightarrow> int" where
  "quantum x = max \<lfloor>log 2 \<bar>x\<bar>\<rfloor> (- 1022) - 52"

definition rnd :: "real \<Rightarrow> real" where
  "rnd x = of_int (rne (x / 2 powr of_int (quantum x))) * 2 powr of_int (quantum x)"

lemma rne_of_int [simp]: "rne (of_int n) = n"
  by (simp add: rne_def)

lemma rne_bounds: "\<lfloor>y\<rfloor> \<le> rne y" "rne y \<le> \<lfloor>y\<rfloor> + 1"
  by (simp_all add: rne_def Let_def)

lemma rne_error: "\<bar>of_int (rne y) - y\<bar> \<le> 1 / 2"
  unfolding rne_def Let_def using floor_correct [of y] by (auto simp: abs_if) linarith+

lemma rne_mono:
  assumes "x \<le> y"
  shows "rne x \<le> rne y"
proof (cases "\<lfloor>x\<rfloor> = \<lfloor>y\<rfloor>")
  case True
  then show ?thesis using assms by (auto simp: rne_def Let_def)
next
  case False
  then have "\<lfloor>x\<rfloor> + 1 \<le> \<lfloor>y\<rfloor>" using floor_mono [OF assms] by simp
  then show ?thesis using rne_bounds [of x] rne_bounds [of y] by linarith
qed

lemma rne_minus: "rne (- y) = - rne y"
proof (cases "of_int \<lfloor>y\<rfloor> = y")
  case True
  then show ?thesis by (metis of_int_minus rne_of_int)
next
  case False
  then have "\<lfloor>- y\<rfloor> = - \<lfloor>y\<rfloor> - 1" by linarith
  then show ?thesis by (auto simp: rne_def Let_def)
qed

lemma quantum_minus [simp]: "quantum (- x) = quantum x"
  by (simp add: quantum_def)

lemma rnd_minus: "rnd (- x) = - rnd x"
  by (simp add: rnd_def rne_minus)

lemma rnd_0 [simp]: "rnd 0 = 0"
  using rne_of_int [of 0] by (simp add: rnd_def)

text \<open>A number lies between two powers, unless it is below the smallest normal one.\<close>

lemma quantum_ge: "- 1074 \<le> quantum x"
  by (simp add: quantum_def)

lemma quantum_above:
  assumes "x \<noteq> 0"
  shows "\<bar>x\<bar> < 2 powr of_int (quantum x + 53)"
proof -
  have "\<bar>x\<bar> < 2 powr (\<lfloor>log 2 \<bar>x\<bar>\<rfloor> + 1)" using floor_log_eq_powr_iff [of "\<bar>x\<bar>" 2] assms by auto
  also have "\<dots> \<le> 2 powr of_int (quantum x + 53)" by (intro powr_mono) (auto simp: quantum_def)
  finally show ?thesis .
qed

lemma quantum_below:
  assumes "x \<noteq> 0" "- 1074 < quantum x"
  shows "2 powr of_int (quantum x + 52) \<le> \<bar>x\<bar>"
proof -
  have "quantum x + 52 = \<lfloor>log 2 \<bar>x\<bar>\<rfloor>" using assms(2) by (auto simp: quantum_def max_def split: if_splits)
  then show ?thesis using floor_log_eq_powr_iff [of "\<bar>x\<bar>" 2] assms(1) by auto
qed

lemma quantum_le:
  assumes "\<bar>x\<bar> < 2 powr of_int (q + 53)" "- 1074 \<le> q"
  shows "quantum x \<le> q \<or> x = 0"
proof (rule ccontr)
  assume "\<not> ?thesis"
  then have "x \<noteq> 0" "q < quantum x" by auto
  with assms(2) have "2 powr of_int (quantum x + 52) \<le> \<bar>x\<bar>" by (intro quantum_below) auto
  moreover have "(2::real) powr of_int (q + 53) \<le> 2 powr of_int (quantum x + 52)"
    using \<open>q < quantum x\<close> by (intro powr_mono) auto
  ultimately show False using assms(1) by linarith
qed

lemma rnd_nonneg: "0 \<le> x \<Longrightarrow> 0 \<le> rnd x"
  using rne_mono [of 0 "x / 2 powr of_int (quantum x)"] rne_of_int [of 0] by (simp add: rnd_def)

text \<open>What has a short mantissa is a number itself.\<close>

lemma rnd_representable':
  assumes "x = of_int m * 2 powr of_int q" "\<bar>m\<bar> < 2 ^ 53" "- 1074 \<le> q"
  shows "rnd x = x"
proof (cases "x = 0")
  case False
  have "of_int \<bar>m\<bar> < (of_int (2 ^ 53) :: real)" using assms(2) by (simp only: of_int_less_iff)
  moreover have "\<bar>x\<bar> = of_int \<bar>m\<bar> * 2 powr of_int q" by (simp add: assms(1) abs_mult)
  ultimately have "\<bar>x\<bar> < 2 ^ 53 * 2 powr of_int q" by (simp add: mult_strict_right_mono)
  also have "\<dots> = 2 powr of_int (q + 53)" by (simp add: powr_add flip: powr_realpow)
  finally have "quantum x \<le> q" using quantum_le [of x q] assms(3) False by blast
  then have int: "x / 2 powr of_int (quantum x) = of_int (m * 2 ^ nat (q - quantum x))"
    by (simp add: assms(1) powr_realpow [symmetric] powr_diff of_nat_nat)
  show ?thesis unfolding rnd_def int rne_of_int by (simp only: int [symmetric]) simp
qed simp

lemma rnd_representable:
  assumes "x = of_int m * 2 powr of_int q" "\<bar>m\<bar> \<le> 2 ^ 53" "- 1074 \<le> q"
  shows "rnd x = x"
proof (cases "\<bar>m\<bar> = 2 ^ 53")
  case True
  then have "x = of_int (sgn m * 2 ^ 52) * 2 powr of_int (q + 1)"
    using assms(1) by (auto simp: powr_add sgn_if abs_if split: if_splits)
  from rnd_representable' [OF this] assms(3) show ?thesis by (auto simp: sgn_if)
next
  case False
  then show ?thesis using assms by (intro rnd_representable' [of x m q]) auto
qed

lemma rnd_of_int: "\<bar>n\<bar> \<le> 2 ^ 53 \<Longrightarrow> rnd (of_int n) = of_int n"
  by (rule rnd_representable [of _ n 0]) auto

lemma mantissa_le:
  assumes "x \<noteq> 0"
  shows "\<bar>rne (x / 2 powr of_int (quantum x))\<bar> \<le> 2 ^ 53"
proof -
  let ?y = "x / 2 powr of_int (quantum x)"
  have "\<bar>?y\<bar> \<le> of_int (2 ^ 53)"
    using quantum_above [OF assms] by (simp add: abs_div field_simps powr_add flip: powr_realpow)
  then have "- of_int (2 ^ 53) \<le> ?y" "?y \<le> of_int (2 ^ 53)" by (simp_all only: abs_le_iff minus_le_iff)
  from this [THEN rne_mono] show ?thesis by (simp only: rne_minus rne_of_int abs_le_iff minus_le_iff)
qed

lemma rnd_idem [simp]: "rnd (rnd x) = rnd x"
proof (cases "x = 0")
  case False
  then show ?thesis
    by (intro rnd_representable [OF _ mantissa_le quantum_ge]) (auto simp: rnd_def)
qed simp

lemma rnd_mono_pos:
  assumes "0 < x" "x \<le> y"
  shows "rnd x \<le> rnd y"
proof (cases "quantum x = quantum y")
  case True
  then show ?thesis using assms by (auto simp: rnd_def intro!: mult_right_mono rne_mono divide_right_mono)
next
  case False
  have "quantum x \<le> quantum y"
    using assms floor_mono [of "log 2 x" "log 2 y"] by (auto simp: quantum_def)
  with False have less: "quantum x < quantum y" by simp
  have "rnd x \<le> 2 ^ 53 * 2 powr of_int (quantum x)"
    using mantissa_le [of x] assms(1) by (auto simp: rnd_def abs_le_iff intro!: mult_right_mono simp flip: of_int_le_numeral_power_cancel_iff)
  also have "\<dots> = 2 powr of_int (quantum x + 53)" by (simp add: powr_add flip: powr_realpow)
  also have "\<dots> \<le> 2 powr of_int (quantum y + 52)" using less by (intro powr_mono) auto
  also have "\<dots> = of_int (2 ^ 52) * 2 powr of_int (quantum y)" by (simp add: powr_add flip: powr_realpow)
  also have "\<dots> \<le> rnd y"
  proof -
    have "2 powr of_int (quantum y + 52) \<le> y" using quantum_below [of y] less quantum_ge [of x] assms by auto
    then have "of_int (2 ^ 52) \<le> y / 2 powr of_int (quantum y)" by (simp add: field_simps powr_add flip: powr_realpow)
    then have "2 ^ 52 \<le> rne (y / 2 powr of_int (quantum y))" using rne_mono rne_of_int by metis
    then show ?thesis unfolding rnd_def by (intro mult_right_mono) (simp_all only: of_int_le_iff powr_ge_zero)
  qed
  finally show ?thesis .
qed

lemma rnd_mono:
  assumes "x \<le> y"
  shows "rnd x \<le> rnd y"
proof -
  consider "0 < x" | "x \<le> 0" "0 \<le> y" | "y < 0" by linarith
  then show ?thesis
  proof cases
    case 1
    then show ?thesis using assms by (rule rnd_mono_pos)
  next
    case 2
    then show ?thesis using rnd_nonneg [of y] rnd_nonneg [of "- x"] by (simp add: rnd_minus)
  next
    case 3
    then show ?thesis using rnd_mono_pos [of "- y" "- x"] assms by (simp add: rnd_minus)
  qed
qed

lemma rnd_error: "\<bar>rnd x - x\<bar> \<le> max \<bar>x\<bar> (2 powr - 1022) / 2 ^ 53"
proof (cases "x = 0")
  case False
  let ?u = "2 powr of_int (quantum x) :: real"
  have "rnd x - x = (of_int (rne (x / ?u)) - x / ?u) * ?u" by (simp add: rnd_def left_diff_distrib)
  then have "\<bar>rnd x - x\<bar> = \<bar>of_int (rne (x / ?u)) - x / ?u\<bar> * ?u" by (simp add: abs_mult)
  also have "\<dots> \<le> 1 / 2 * ?u" by (intro mult_right_mono rne_error) simp
  also have "\<dots> = 2 powr of_int (quantum x + 52) / 2 ^ 53" by (simp add: powr_add flip: powr_realpow)
  also have "\<dots> \<le> max \<bar>x\<bar> (2 powr - 1022) / 2 ^ 53"
  proof (cases "- 1074 < quantum x")
    case True
    then show ?thesis using quantum_below [OF False] by (simp add: divide_right_mono max.coboundedI1)
  next
    case False
    then have "quantum x = - 1074" using quantum_ge [of x] by simp
    then show ?thesis by (simp add: divide_right_mono)
  qed
  finally show ?thesis .
qed simp

text \<open>What clients know of rounding, and what follows from it.\<close>

locale rounding =
  fixes r :: "real \<Rightarrow> real"
  assumes mono: "x \<le> y \<Longrightarrow> r x \<le> r y"
    and idem: "r (r x) = r x"
    and of_int: "\<bar>n\<bar> \<le> 2 ^ 53 \<Longrightarrow> r (of_int n) = of_int n"
    and error: "\<bar>r x - x\<bar> \<le> max \<bar>x\<bar> (2 powr - 1022) / 2 ^ 53"
begin

lemma le_int: "x \<le> of_int n \<Longrightarrow> \<bar>n\<bar> \<le> 2 ^ 53 \<Longrightarrow> r x \<le> of_int n"
  using mono [of x "of_int n"] of_int [of n] by simp

lemma ge_int: "of_int n \<le> x \<Longrightarrow> \<bar>n\<bar> \<le> 2 ^ 53 \<Longrightarrow> of_int n \<le> r x"
  using mono [of "of_int n" x] of_int [of n] by simp

lemma nonneg: "0 \<le> x \<Longrightarrow> 0 \<le> r x"
  using ge_int [of 0 x] by simp

lemma near:
  assumes "\<bar>x\<bar> \<le> b" "1 \<le> b"
  shows "r x \<le> x + b / 2 ^ 53" "x \<le> r x + b / 2 ^ 53"
proof -
  have "(2::real) powr - 1022 \<le> 2 powr 0" by (intro powr_mono) auto
  then have "max \<bar>x\<bar> (2 powr - 1022) \<le> b" using assms by simp
  then have "max \<bar>x\<bar> (2 powr - 1022) / 2 ^ 53 \<le> b / 2 ^ 53" by (rule divide_right_mono) simp
  with error [of x] have "\<bar>r x - x\<bar> \<le> b / 2 ^ 53" by (rule order_trans)
  then show "r x \<le> x + b / 2 ^ 53" "x \<le> r x + b / 2 ^ 53" by linarith+
qed

lemma below: "r x = x \<Longrightarrow> 0 \<le> y \<Longrightarrow> r (x - y) \<le> x"
  using mono [of "x - y" x] by simp

lemma above: "r x = x \<Longrightarrow> 0 \<le> y \<Longrightarrow> x \<le> r (x + y)"
  using mono [of x "x + y"] by simp

end

interpretation double: rounding rnd
  by unfold_locales (fact rnd_mono rnd_idem rnd_of_int rnd_error)+

section \<open>Conversions and quotients\<close>

definition float_of_int :: "int \<Rightarrow> real" where
  "float_of_int n = rnd (of_int n)"

definition go_trunc :: "real \<Rightarrow> int" where
  "go_trunc x = (if 0 \<le> x then \<lfloor>x\<rfloor> else \<lceil>x\<rceil>)"

definition to_int64 :: "int \<Rightarrow> int" where
  "to_int64 n = (if in_int64 n then n else - (2 ^ 63))"

text \<open>\<open>math.Round\<close>: to the nearest integer, halves away from zero.\<close>

definition math_Round :: "real \<Rightarrow> int" where
  "math_Round x = (if 0 \<le> x then \<lfloor>x + 1 / 2\<rfloor> else \<lceil>x - 1 / 2\<rceil>)"

datatype f64 = Finite real | Infinite bool | NaN

definition fdiv :: "real \<Rightarrow> real \<Rightarrow> f64" where
  "fdiv x y =
     (if y = 0 then (if x = 0 then NaN else Infinite (x < 0))
      else let q = rnd (x / y) in if 2 powr 1024 \<le> \<bar>q\<bar> then Infinite (q < 0) else Finite q)"

text \<open>Comparisons with a NaN are false.\<close>

fun f_less :: "f64 \<Rightarrow> f64 \<Rightarrow> bool" where
  "f_less NaN _ = False"
| "f_less _ NaN = False"
| "f_less (Finite x) (Finite y) = (x < y)"
| "f_less (Infinite neg) (Finite _) = neg"
| "f_less (Finite _) (Infinite neg) = (\<not> neg)"
| "f_less (Infinite neg) (Infinite neg') = (neg \<and> \<not> neg')"

fun f_to_int :: "(real \<Rightarrow> int) \<Rightarrow> f64 \<Rightarrow> int" where
  "f_to_int conv (Finite x) = to_int64 (conv x)"
| "f_to_int conv _ = - (2 ^ 63)"

end
