(* ===== verification/Demand.thy ===== *)
theory Demand
  imports Doubles Persephone
begin

text \<open>
  Forecasts, capacity and budgets (\<open>src/pkg/persephone/forecast.go\<close>, \<open>capacity.go\<close>, \<open>budget.go\<close> and
  the two operations of \<open>seasons.go\<close> that compute with them), in the arithmetic of \<open>Doubles\<close>, every
  operation rounded as the compiled code rounds it (the compiler for x86-64 does not fuse
  multiplications and additions). A square root is rounded correctly, as \<open>math.Sqrt\<close> is. The records
  of a history are in one location. The times at which the code asks for the present are arguments,
  and so is the text of a duration.
\<close>

section \<open>Patterns\<close>

definition mul :: "real \<Rightarrow> real \<Rightarrow> real" where "mul x y = rnd (x * y)"
definition add :: "real \<Rightarrow> real \<Rightarrow> real" where "add x y = rnd (x + y)"
definition minus_f :: "real \<Rightarrow> real \<Rightarrow> real" where "minus_f x y = rnd (x - y)"
definition div_f :: "real \<Rightarrow> real \<Rightarrow> real" where "div_f x y = rnd (x / y)"
definition math_Sqrt :: "real \<Rightarrow> real" where "math_Sqrt x = rnd (sqrt x)"

text \<open>A literal of the source is the number nearest to it.\<close>

abbreviation lit :: "real \<Rightarrow> real" where "lit \<equiv> rnd"

record PatternDetector =
  pd_hourlyBuckets :: "real list"
  pd_dailyBuckets :: "real list"
  pd_weeklyBaseline :: real
  pd_hourlyMSE :: "real list"

record PatternAnalysis =
  pa_HourlyPattern :: "real list"
  pa_DailyPattern :: "real list"
  pa_Baseline :: real
  pa_PeakHours :: "nat list"
  pa_Confidence :: real

definition NewPatternDetector :: PatternDetector where
  "NewPatternDetector = \<lparr>pd_hourlyBuckets = replicate 24 0, pd_dailyBuckets = replicate 7 0, pd_weeklyBaseline = 0, pd_hourlyMSE = replicate 24 0\<rparr>"

definition hour_of :: "location \<Rightarrow> go_time \<Rightarrow> nat" where "hour_of loc t = nat (Hour loc t)"
definition weekday_of :: "location \<Rightarrow> go_time \<Rightarrow> nat" where "weekday_of loc t = nat (Weekday loc t)"

definition demand_of :: "UsageRecord \<Rightarrow> real" where "demand_of r = float_of_int (ur_ActiveVMs r)"

text \<open>The sums and counts of the first loop over the history.\<close>

record tally =
  ty_hourly :: "real list"
  ty_hourlyCounts :: "nat list"
  ty_daily :: "real list"
  ty_dailyCounts :: "nat list"
  ty_totalDemand :: real
  ty_count :: nat

definition add_at :: "nat \<Rightarrow> real \<Rightarrow> real list \<Rightarrow> real list" where
  "add_at i v xs = xs[i := add (xs ! i) v]"

definition count_at :: "nat \<Rightarrow> nat list \<Rightarrow> nat list" where
  "count_at i xs = xs[i := Suc (xs ! i)]"

definition tally_record :: "location \<Rightarrow> tally \<Rightarrow> UsageRecord \<Rightarrow> tally" where
  "tally_record loc ty r =
     (let h = hour_of loc (ur_Timestamp r); w = weekday_of loc (ur_Timestamp r); demand = demand_of r
      in \<lparr>ty_hourly = add_at h demand (ty_hourly ty), ty_hourlyCounts = count_at h (ty_hourlyCounts ty),
          ty_daily = add_at w demand (ty_daily ty), ty_dailyCounts = count_at w (ty_dailyCounts ty),
          ty_totalDemand = add (ty_totalDemand ty) demand, ty_count = Suc (ty_count ty)\<rparr>)"

definition tally_of :: "location \<Rightarrow> UsageRecord list \<Rightarrow> tally" where
  "tally_of loc history =
     foldl (tally_record loc) \<lparr>ty_hourly = replicate 24 0, ty_hourlyCounts = replicate 24 0, ty_daily = replicate 7 0,
       ty_dailyCounts = replicate 7 0, ty_totalDemand = 0, ty_count = 0\<rparr> history"

definition average :: "real \<Rightarrow> nat \<Rightarrow> real" where
  "average s n = (if 0 < n then div_f s (float_of_int (int n)) else s)"

definition averages :: "real list \<Rightarrow> nat list \<Rightarrow> real list" where
  "averages = map2 average"

text \<open>The prediction of the patterns for a time, with the baseline where they are weak.\<close>

definition blend :: "PatternDetector \<Rightarrow> nat \<Rightarrow> nat \<Rightarrow> real" where
  "blend p h w =
     (let predicted = add (mul (pd_hourlyBuckets p ! h) (lit (7 / 10))) (mul (pd_dailyBuckets p ! w) (lit (3 / 10)))
      in if predicted < mul (pd_weeklyBaseline p) (lit (1 / 2)) then pd_weeklyBaseline p else predicted)"

definition squared_error :: "real \<Rightarrow> real \<Rightarrow> real" where
  "squared_error actual predicted = (let err = minus_f actual predicted in mul err err)"

definition hourly_errors :: "location \<Rightarrow> PatternDetector \<Rightarrow> UsageRecord list \<Rightarrow> real list" where
  "hourly_errors loc p history =
     foldl (\<lambda>errs r. add_at (hour_of loc (ur_Timestamp r))
        (squared_error (demand_of r) (blend p (hour_of loc (ur_Timestamp r)) (weekday_of loc (ur_Timestamp r)))) errs) (replicate 24 0) history"

definition confidence_of :: "real \<Rightarrow> real" where
  "confidence_of mse = min (div_f 1 (add 1 (math_Sqrt mse))) (lit (95 / 100))"

definition calculateConfidence :: "location \<Rightarrow> PatternDetector \<Rightarrow> UsageRecord list \<Rightarrow> real" where
  "calculateConfidence loc p history =
     (if length history < 10 then lit (3 / 10)
      else let squaredErrors = foldl (\<lambda>acc r. add acc (squared_error (demand_of r)
                 (div_f (add (pd_hourlyBuckets p ! hour_of loc (ur_Timestamp r)) (pd_dailyBuckets p ! weekday_of loc (ur_Timestamp r))) 2))) 0 history
           in confidence_of (div_f squaredErrors (float_of_int (int (length history)))))"

definition learn_patterns :: "location \<Rightarrow> UsageRecord list \<Rightarrow> PatternDetector" where
  "learn_patterns loc history =
     (let ty = tally_of loc history;
          p = \<lparr>pd_hourlyBuckets = averages (ty_hourly ty) (ty_hourlyCounts ty), pd_dailyBuckets = averages (ty_daily ty) (ty_dailyCounts ty),
               pd_weeklyBaseline = average (ty_totalDemand ty) (ty_count ty), pd_hourlyMSE = replicate 24 0\<rparr>
      in p\<lparr>pd_hourlyMSE := map2 (\<lambda>e n. if 0 < n then div_f e (float_of_int (int n)) else 0) (hourly_errors loc p history) (ty_hourlyCounts ty)\<rparr>)"

definition AnalyzePatterns :: "location \<Rightarrow> UsageRecord list \<Rightarrow> PatternDetector \<Rightarrow> PatternAnalysis \<times> PatternDetector" where
  "AnalyzePatterns loc history p0 =
     (if history = [] then (\<lparr>pa_HourlyPattern = [], pa_DailyPattern = [], pa_Baseline = 0, pa_PeakHours = [], pa_Confidence = 0\<rparr>, p0)
      else let p = learn_patterns loc history; threshold = mul (pd_weeklyBaseline p) (lit (12 / 10))
           in (\<lparr>pa_HourlyPattern = pd_hourlyBuckets p, pa_DailyPattern = pd_dailyBuckets p, pa_Baseline = pd_weeklyBaseline p,
                pa_PeakHours = filter (\<lambda>h. threshold \<le> pd_hourlyBuckets p ! h) [0..<24], pa_Confidence = calculateConfidence loc p history\<rparr>, p))"

definition PredictDemand :: "location \<Rightarrow> PatternDetector \<Rightarrow> go_time \<Rightarrow> real \<times> real" where
  "PredictDemand loc p t = (blend p (hour_of loc t) (weekday_of loc t), confidence_of (pd_hourlyMSE p ! hour_of loc t))"

section \<open>Smoothing and intervals\<close>

record ExponentialSmoothingPredictor =
  es_alpha :: real
  es_level :: real

definition NewExponentialSmoothingPredictor :: "real \<Rightarrow> ExponentialSmoothingPredictor" where
  "NewExponentialSmoothingPredictor alpha = \<lparr>es_alpha = (if alpha \<le> 0 \<or> 1 \<le> alpha then lit (3 / 10) else alpha), es_level = 0\<rparr>"

definition smooth_Update :: "real \<Rightarrow> ExponentialSmoothingPredictor \<Rightarrow> ExponentialSmoothingPredictor" where
  "smooth_Update actual p = p\<lparr>es_level := add (mul (es_alpha p) actual) (mul (minus_f 1 (es_alpha p)) (es_level p))\<rparr>"

definition smooth_Train :: "UsageRecord list \<Rightarrow> ExponentialSmoothingPredictor \<Rightarrow> ExponentialSmoothingPredictor" where
  "smooth_Train history p =
     (case history of [] \<Rightarrow> p
      | r # rs \<Rightarrow> foldl (\<lambda>q r. smooth_Update (demand_of r) q) (p\<lparr>es_level := demand_of r\<rparr>) rs)"

definition standardDeviation :: "real list \<Rightarrow> real" where
  "standardDeviation values =
     (if values = [] then 0
      else let n = float_of_int (int (length values));
               mean = div_f (foldl add 0 values) n;
               variance = div_f (foldl (\<lambda>acc v. add acc (mul (minus_f v mean) (minus_f v mean))) 0 values) n
           in math_Sqrt variance)"

definition CalculateInterval :: "UsageRecord list \<Rightarrow> real \<Rightarrow> real \<times> real" where
  "CalculateInterval history prediction =
     (if length history < 2 then (mul prediction (lit (1 / 2)), mul prediction (lit (3 / 2)))
      else let margin = mul 2 (standardDeviation (map demand_of history))
           in (max 0 (minus_f prediction margin), add prediction margin))"

section \<open>The forecaster\<close>

record Prediction =
  pr_Time :: go_time
  pr_PredictedDemand :: int
  pr_UpperBound :: int
  pr_LowerBound :: int
  pr_Confidence :: real

record Forecast =
  fo_GeneratedAt :: go_time
  fo_Window :: duration
  fo_Predictions :: "Prediction list"
  fo_Confidence :: real

record HybridForecaster =
  hf_patternDetector :: PatternDetector
  hf_smoothing :: ExponentialSmoothingPredictor

definition NewHybridForecaster :: HybridForecaster where
  "NewHybridForecaster = \<lparr>hf_patternDetector = NewPatternDetector, hf_smoothing = NewExponentialSmoothingPredictor (lit (3 / 10))\<rparr>"

definition hybrid_Train :: "location \<Rightarrow> UsageRecord list \<Rightarrow> HybridForecaster \<Rightarrow> HybridForecaster" where
  "hybrid_Train loc history f =
     (if history = [] then f
      else f\<lparr>hf_patternDetector := snd (AnalyzePatterns loc history (hf_patternDetector f)), hf_smoothing := smooth_Train history (hf_smoothing f)\<rparr>)"

definition predict_at :: "location \<Rightarrow> UsageRecord list \<Rightarrow> HybridForecaster \<Rightarrow> go_time \<Rightarrow> Prediction" where
  "predict_at loc history f t =
     (case PredictDemand loc (hf_patternDetector f) t of
        (patternDemand, patternConf) \<Rightarrow>
          let combined = add (mul patternDemand (lit (6 / 10))) (mul (es_level (hf_smoothing f)) (lit (4 / 10)))
          in case CalculateInterval history combined of
               (lower, upper) \<Rightarrow>
                 \<lparr>pr_Time = t, pr_PredictedDemand = to_int64 (math_Round combined), pr_UpperBound = to_int64 \<lceil>upper\<rceil>,
                  pr_LowerBound = to_int64 \<lfloor>lower\<rfloor>, pr_Confidence = patternConf\<rparr>)"

definition hybrid_Forecast ::
    "location \<Rightarrow> go_time \<Rightarrow> UsageRecord list \<Rightarrow> go_time \<Rightarrow> duration \<Rightarrow> duration \<Rightarrow> HybridForecaster \<Rightarrow> Forecast \<times> HybridForecaster" where
  "hybrid_Forecast loc now history startTime window stepInterval f =
     (if history = [] then (\<lparr>fo_GeneratedAt = now, fo_Window = window, fo_Predictions = [], fo_Confidence = 0\<rparr>, f)
      else let f1 = hybrid_Train loc history f;
               steps = nat (go_div window stepInterval);
               predictions = map (\<lambda>i. predict_at loc history f1 (startTime + int i * stepInterval)) [0..<steps];
               (analysis, pd) = AnalyzePatterns loc history (hf_patternDetector f1)
           in (\<lparr>fo_GeneratedAt = now, fo_Window = window, fo_Predictions = predictions, fo_Confidence = pa_Confidence analysis\<rparr>,
               f1\<lparr>hf_patternDetector := pd\<rparr>))"

section \<open>Capacity\<close>

record CapacityRecommendation =
  cr_CurrentNodes :: int
  cr_RecommendedNodes :: int
  cr_Reason :: string
  cr_CostDelta :: real
  cr_ConfidenceLevel :: real

text \<open>\<open>%d\<close> of an integer.\<close>

definition fmt_int :: "int \<Rightarrow> string" where
  "fmt_int n = (if n < 0 then ''-'' @ itoa (nat (- n)) else itoa (nat n))"

definition peak_demand :: "Prediction list \<Rightarrow> int" where
  "peak_demand ps = foldl (\<lambda>peak p. if peak < pr_PredictedDemand p then pr_PredictedDemand p else peak) 0 ps"

definition CalculateRecommendation ::
    "location \<Rightarrow> go_time \<Rightarrow> UsageRecord list \<Rightarrow> real \<Rightarrow> Season option \<Rightarrow> HybridForecaster \<Rightarrow> CapacityRecommendation \<times> HybridForecaster" where
  "CalculateRecommendation loc now history targetUtil currentSeason f =
     (if history = [] then
        (\<lparr>cr_CurrentNodes = 0, cr_RecommendedNodes = 1, cr_Reason = ''No historical data available'', cr_CostDelta = 0,
          cr_ConfidenceLevel = lit (3 / 10)\<rparr>, f)
      else case hybrid_Forecast loc now history now hour (15 * minute) f of
        (forecast, f') \<Rightarrow>
          let currentActive = ur_ActiveVMs (last history);
              wanted = f_to_int ceiling (fdiv (float_of_int (peak_demand (fo_Predictions forecast))) targetUtil);
              (recommended, reason) =
                (case currentSeason of
                   None \<Rightarrow> (wanted, ''Based on forecasted demand and target utilization'')
                 | Some season \<Rightarrow>
                     if wanted < sn_MinNodes season then (sn_MinNodes season, ''Increased to season minimum'')
                     else if sn_MaxNodes season < wanted then (sn_MaxNodes season, ''Capped at season maximum'')
                     else (wanted, ''Based on forecasted demand and target utilization''));
              nodes = (if recommended < 1 then 1 else recommended)
          in (\<lparr>cr_CurrentNodes = currentActive, cr_RecommendedNodes = nodes, cr_Reason = reason,
               cr_CostDelta = mul (float_of_int (wrap64 (nodes - currentActive))) 10, cr_ConfidenceLevel = fo_Confidence forecast\<rparr>, f'))"

definition scaler_Forecast :: "location \<Rightarrow> go_time \<Rightarrow> duration \<Rightarrow> BasicSeasonalScaler \<Rightarrow> Forecast" where
  "scaler_Forecast loc now window s =
     fst (hybrid_Forecast loc now (bs_history s) now window (if window < hour then minute else 5 * minute) NewHybridForecaster)"

text \<open>The first prediction that is not before the target, or else the last one.\<close>

fun prediction_at :: "go_time \<Rightarrow> int \<Rightarrow> Prediction list \<Rightarrow> int" where
  "prediction_at targetTime d [] = d"
| "prediction_at targetTime d (p # ps) =
     (if targetTime \<le> pr_Time p then pr_PredictedDemand p else prediction_at targetTime (pr_PredictedDemand p) ps)"

text \<open>
  The larger of what the present usage and what the forecast asks for, before the limits of the
  season; \<open>now'\<close> is the second time the code asks for the present.
\<close>

definition wanted_capacity ::
    "(duration \<Rightarrow> string) \<Rightarrow> location \<Rightarrow> go_time \<Rightarrow> go_time \<Rightarrow> real \<Rightarrow> BasicSeasonalScaler \<Rightarrow> f64 \<times> string" where
  "wanted_capacity dur loc now now' targetUtil s =
     (let currentActive = (if bs_history s = [] then 0 else ur_ActiveVMs (last (bs_history s)));
          quotient = fdiv (float_of_int currentActive) targetUtil;
          reactive = (if f_less quotient (Finite 1) then Finite 1 else quotient)
      in case bs_current s of
           None \<Rightarrow> (reactive, ''Based on current usage'')
         | Some season \<Rightarrow>
             let leadTime = pw_LeadTime (sn_Prewarming season)
             in if leadTime \<le> 0 then (reactive, ''Based on current usage'')
                else let ps = fo_Predictions (scaler_Forecast loc now (wrap64 (leadTime + 5 * minute)) s)
                     in if ps = [] then (reactive, ''Based on current usage'')
                        else let d = prediction_at (now' + leadTime) 0 ps; predictive = fdiv (float_of_int d) targetUtil
                             in if f_less reactive predictive
                                then (predictive, ''Pre-warming for predicted demand of '' @ fmt_int d @ '' in '' @ dur leadTime)
                                else (reactive, ''Based on current usage''))"

definition season_limits :: "Season \<Rightarrow> f64 \<times> string \<Rightarrow> f64 \<times> string" where
  "season_limits season = (\<lambda>(v, reason).
     let (v1, reason1) = (if f_less v (Finite (float_of_int (sn_MinNodes season)))
                          then (Finite (float_of_int (sn_MinNodes season)), reason @ '' (clamped to season min)'') else (v, reason))
     in if f_less (Finite (float_of_int (sn_MaxNodes season))) v1
        then (Finite (float_of_int (sn_MaxNodes season)), reason1 @ '' (clamped to season max)'') else (v1, reason1))"

definition RecommendCapacity ::
    "(duration \<Rightarrow> string) \<Rightarrow> location \<Rightarrow> go_time \<Rightarrow> go_time \<Rightarrow> real \<Rightarrow> BasicSeasonalScaler \<Rightarrow> CapacityRecommendation" where
  "RecommendCapacity dur loc now now' targetUtil s =
     (case (case bs_current s of
              None \<Rightarrow> wanted_capacity dur loc now now' targetUtil s
            | Some season \<Rightarrow> season_limits season (wanted_capacity dur loc now now' targetUtil s)) of
        (v, reason) \<Rightarrow>
          \<lparr>cr_CurrentNodes = (if bs_history s = [] then 0 else ur_ActiveVMs (last (bs_history s))), cr_RecommendedNodes = f_to_int go_trunc v,
           cr_Reason = reason, cr_CostDelta = 0, cr_ConfidenceLevel = lit (9 / 10)\<rparr>)"

section \<open>Budgets\<close>

record BudgetConfig =
  bc_DailyLimit :: real
  bc_MonthlyLimit :: real
  bc_AlertThreshold :: real
  bc_HardCap :: bool
  bc_CostPerNodeHour :: real

record BudgetStatus =
  bt_DailySpent :: real
  bt_DailyRemaining :: real
  bt_DailyLimit :: real
  bt_MonthlySpent :: real
  bt_MonthlyRemaining :: real
  bt_MonthlyLimit :: real
  bt_AlertTriggered :: bool
  bt_OverBudget :: bool

record BudgetTracker =
  bk_dailySpending :: "(string, real) gomap"
  bk_monthlySpending :: "(string, real) gomap"

definition NewBudgetTracker :: BudgetTracker where
  "NewBudgetTracker = \<lparr>bk_dailySpending = [], bk_monthlySpending = []\<rparr>"

text \<open>
  The calendar: the day a time falls on, counted from the first of January of year 1, and that day's
  year, month and day of the month in the Gregorian calendar; \<open>time.Format\<close> of a day and of a month.
\<close>

definition day_number :: "location \<Rightarrow> go_time \<Rightarrow> int" where
  "day_number loc t = (t + loc t) div (24 * hour)"

definition civil :: "int \<Rightarrow> int \<times> int \<times> int" where
  "civil n =
     (let z = n + 306; era = z div 146097; doe = z mod 146097;
          yoe = (doe - doe div 1460 + doe div 36524 - doe div 146096) div 365;
          doy = doe - (365 * yoe + yoe div 4 - yoe div 100);
          mp = (5 * doy + 2) div 153;
          d = doy - (153 * mp + 2) div 5 + 1;
          m = (if mp < 10 then mp + 3 else mp - 9)
      in (yoe + era * 400 + (if m \<le> 2 then 1 else 0), m, d))"

definition padded :: "nat \<Rightarrow> int \<Rightarrow> string" where
  "padded k n = (let s = itoa (nat n) in replicate (k - length s) CHR ''0'' @ s)"

definition month_key :: "int \<Rightarrow> string" where
  "month_key n = (case civil n of (y, m, d) \<Rightarrow> padded 4 y @ ''-'' @ padded 2 m)"

definition day_key :: "int \<Rightarrow> string" where
  "day_key n = (case civil n of (y, m, d) \<Rightarrow> padded 4 y @ ''-'' @ padded 2 m @ ''-'' @ padded 2 d)"

definition spent :: "(string, real) gomap \<Rightarrow> string \<Rightarrow> real" where
  "spent m k = (case get m k of None \<Rightarrow> 0 | Some v \<Rightarrow> v)"

definition RecordSpend :: "location \<Rightarrow> go_time \<Rightarrow> real \<Rightarrow> BudgetTracker \<Rightarrow> BudgetTracker" where
  "RecordSpend loc now amount b =
     (let dayKey = day_key (day_number loc now); monthKey = month_key (day_number loc now)
      in \<lparr>bk_dailySpending = put (bk_dailySpending b) dayKey (add (spent (bk_dailySpending b) dayKey) amount),
          bk_monthlySpending = put (bk_monthlySpending b) monthKey (add (spent (bk_monthlySpending b) monthKey) amount)\<rparr>)"

definition GetDailySpend :: "location \<Rightarrow> go_time \<Rightarrow> BudgetTracker \<Rightarrow> real" where
  "GetDailySpend loc now b = spent (bk_dailySpending b) (day_key (day_number loc now))"

definition GetMonthlySpend :: "location \<Rightarrow> go_time \<Rightarrow> BudgetTracker \<Rightarrow> real" where
  "GetMonthlySpend loc now b = spent (bk_monthlySpending b) (month_key (day_number loc now))"

text \<open>The metric of an alert is left out. The code asks for the present at each question.\<close>

definition CheckBudget :: "location \<Rightarrow> go_time \<Rightarrow> go_time \<Rightarrow> BudgetConfig \<Rightarrow> BudgetTracker \<Rightarrow> BudgetStatus" where
  "CheckBudget loc now now' config b =
     (let dailySpent = GetDailySpend loc now b; monthlySpent = GetMonthlySpend loc now' b
      in \<lparr>bt_DailySpent = dailySpent, bt_DailyRemaining = minus_f (bc_DailyLimit config) dailySpent, bt_DailyLimit = bc_DailyLimit config,
          bt_MonthlySpent = monthlySpent, bt_MonthlyRemaining = minus_f (bc_MonthlyLimit config) monthlySpent,
          bt_MonthlyLimit = bc_MonthlyLimit config,
          bt_AlertTriggered = (0 < bc_AlertThreshold config \<and>
            (0 < bc_DailyLimit config \<and> mul (bc_DailyLimit config) (bc_AlertThreshold config) \<le> dailySpent \<or>
             0 < bc_MonthlyLimit config \<and> mul (bc_MonthlyLimit config) (bc_AlertThreshold config) \<le> monthlySpent)),
          bt_OverBudget = (0 < bc_DailyLimit config \<and> bc_DailyLimit config \<le> dailySpent \<or>
            0 < bc_MonthlyLimit config \<and> bc_MonthlyLimit config \<le> monthlySpent)\<rparr>)"

definition CalculateMaxAffordableNodes :: "location \<Rightarrow> go_time \<Rightarrow> go_time \<Rightarrow> BudgetConfig \<Rightarrow> real \<Rightarrow> BudgetTracker \<Rightarrow> int" where
  "CalculateMaxAffordableNodes loc now now' config hours b =
     (let status = CheckBudget loc now now' config b
      in if bc_CostPerNodeHour config \<le> 0 \<or> hours \<le> 0 then 0
         else let remaining = (if 0 < bc_MonthlyLimit config \<and> bt_MonthlyRemaining status < bt_DailyRemaining status
                               then bt_MonthlyRemaining status else bt_DailyRemaining status)
              in if remaining \<le> 0 then 0
                 else f_to_int go_trunc (fdiv remaining (mul (bc_CostPerNodeHour config) hours)))"

definition RemainingDailyBudget :: "location \<Rightarrow> go_time \<Rightarrow> BudgetConfig \<Rightarrow> BudgetTracker \<Rightarrow> real" where
  "RemainingDailyBudget loc now config b = minus_f (bc_DailyLimit config) (GetDailySpend loc now b)"

definition RemainingMonthlyBudget :: "location \<Rightarrow> go_time \<Rightarrow> BudgetConfig \<Rightarrow> BudgetTracker \<Rightarrow> real" where
  "RemainingMonthlyBudget loc now config b = minus_f (bc_MonthlyLimit config) (GetMonthlySpend loc now b)"

text \<open>Go compares strings byte by byte.\<close>

fun key_less :: "string \<Rightarrow> string \<Rightarrow> bool" where
  "key_less _ [] = False"
| "key_less [] (_ # _) = True"
| "key_less (a # as) (b # bs) = (if a = b then key_less as bs else (of_char a :: nat) < of_char b)"

definition PruneOldRecords :: "location \<Rightarrow> go_time \<Rightarrow> int \<Rightarrow> BudgetTracker \<Rightarrow> BudgetTracker" where
  "PruneOldRecords loc now retentionDays b =
     (let cutoff = day_number loc now - retentionDays
      in \<lparr>bk_dailySpending = filter (\<lambda>(k, v). \<not> key_less k (day_key cutoff)) (bk_dailySpending b),
          bk_monthlySpending = filter (\<lambda>(k, v). \<not> key_less k (month_key cutoff)) (bk_monthlySpending b)\<rparr>)"

text \<open>\<open>%.2f\<close>: the nearest number of hundredths.\<close>

definition fmt_cents :: "real \<Rightarrow> string" where
  "fmt_cents x = (let n = nat (rne (\<bar>x\<bar> * 100)) in (if x < 0 then ''-'' else []) @ itoa (n div 100) @ ''.'' @ padded 2 (int (n mod 100)))"

text \<open>\<open>base\<close> is what the seasonal scaler recommends, or its error.\<close>

definition RecommendCapacityWithBudget ::
    "location \<Rightarrow> go_time \<Rightarrow> go_time \<Rightarrow> BudgetConfig \<Rightarrow> BudgetTracker \<Rightarrow> string + CapacityRecommendation \<Rightarrow> string + CapacityRecommendation" where
  "RecommendCapacityWithBudget loc now now' budget b base =
     (case base of
        Inl err \<Rightarrow> Inl err
      | Inr rec \<Rightarrow>
          if \<not> bc_HardCap budget then Inr rec
          else let status = CheckBudget loc now now' budget b
               in if bt_OverBudget status
                  then Inr (rec\<lparr>cr_RecommendedNodes := cr_CurrentNodes rec,
                         cr_Reason := cr_Reason rec @ '' (blocked by budget: daily $'' @ fmt_cents (bt_DailySpent status) @ ''/$'' @
                           fmt_cents (bt_DailyLimit status) @ '', monthly $'' @ fmt_cents (bt_MonthlySpent status) @ ''/$'' @
                           fmt_cents (bt_MonthlyLimit status) @ '')''\<rparr>)
                  else let maxAffordable = CalculateMaxAffordableNodes loc now now' budget 1 b
                       in if 0 < maxAffordable \<and> maxAffordable < cr_RecommendedNodes rec
                          then Inr (rec\<lparr>cr_RecommendedNodes := maxAffordable,
                                 cr_Reason := cr_Reason rec @ '' (reduced from '' @ fmt_int (cr_RecommendedNodes rec) @ '' to '' @
                                   fmt_int maxAffordable @ '' by budget)''\<rparr>)
                          else Inr rec)"

section \<open>Forecasts stay within what was seen\<close>

lemmas op_defs = mul_def add_def minus_f_def div_f_def math_Sqrt_def

lemma op_rnd [simp]:
  "rnd (mul x y) = mul x y" "rnd (add x y) = add x y" "rnd (minus_f x y) = minus_f x y" "rnd (div_f x y) = div_f x y"
  by (simp_all add: op_defs)

lemma op_nonneg [intro, simp]:
  "0 \<le> x \<Longrightarrow> 0 \<le> y \<Longrightarrow> 0 \<le> mul x y" "0 \<le> x \<Longrightarrow> 0 \<le> y \<Longrightarrow> 0 \<le> add x y" "0 \<le> x \<Longrightarrow> 0 \<le> y \<Longrightarrow> 0 \<le> div_f x y"
  "0 \<le> x \<Longrightarrow> 0 \<le> math_Sqrt x" "0 \<le> squared_error x y"
  by (simp_all add: op_defs squared_error_def Let_def double.nonneg)

lemma float_of_int_exact: "\<bar>n\<bar> \<le> 2 ^ 53 \<Longrightarrow> float_of_int n = of_int n"
  by (simp add: float_of_int_def double.of_int)

lemma lit_near: "\<bar>x\<bar> \<le> 1 \<Longrightarrow> lit x \<le> x + 1 / 2 ^ 53"
  using double.near [of x 1] by simp

lemma hour_of_less: "hour_of loc t < 24" "weekday_of loc t < 7"
  by (simp_all add: hour_of_def weekday_of_def Hour_def Weekday_def nat_less_iff)

text \<open>A history that the scaler may keep: at most its 10000 records, with a demand of up to \<open>D\<close>.\<close>

definition plausible :: "int \<Rightarrow> UsageRecord list \<Rightarrow> bool" where
  "plausible D history \<longleftrightarrow> length history \<le> 10000 \<and> 0 \<le> D \<and> D \<le> 2 ^ 19 \<and>
     list_all (\<lambda>r. 0 \<le> ur_ActiveVMs r \<and> ur_ActiveVMs r \<le> D) history"

lemma plausible_append: "plausible D (xs @ [x]) \<Longrightarrow> plausible D xs \<and> 0 \<le> demand_of x \<and> demand_of x \<le> of_int D"
  by (auto simp: plausible_def demand_of_def float_of_int_exact)

lemma add_bounded:
  assumes "0 \<le> s" "s \<le> of_int (int k * D)" "0 \<le> v" "v \<le> of_int D" "int (Suc k) * D \<le> 2 ^ 53" "0 \<le> D"
  shows "0 \<le> add s v" "add s v \<le> of_int (int (Suc k) * D)"
proof -
  have "s + v \<le> of_int (int (Suc k) * D)" using assms(2,4) by (simp add: algebra_simps)
  then show "add s v \<le> of_int (int (Suc k) * D)" unfolding add_def using assms(5,6) by (intro double.le_int) auto
qed (use assms in auto)

lemma foldl_add_bounded:
  assumes "\<forall>v \<in> set vs. 0 \<le> v \<and> v \<le> of_int D" "int (length vs) * D \<le> 2 ^ 53" "0 \<le> D"
  shows "0 \<le> foldl add 0 vs \<and> foldl add 0 vs \<le> of_int (int (length vs) * D)"
  using assms
proof (induction vs rule: rev_induct)
  case (snoc v vs)
  have "int (length vs) * D \<le> int (Suc (length vs)) * D" using snoc.prems(3) by (simp add: algebra_simps)
  then have "0 \<le> foldl add 0 vs" "foldl add 0 vs \<le> of_int (int (length vs) * D)" using snoc by auto
  from add_bounded [OF this, of v] show ?case using snoc.prems by simp
qed simp

lemma average_bounded:
  assumes "0 \<le> s" "s \<le> of_int (int n * D)" "0 \<le> D" "D \<le> 2 ^ 53" "n \<le> 10000"
  shows "0 \<le> average s n \<and> average s n \<le> of_int D"
proof (cases "n = 0")
  case False
  then have "s / of_int (int n) \<le> of_int D" using assms(2) by (simp add: field_simps)
  then have "rnd (s / of_int (int n)) \<le> of_int D" using assms(3,4) by (intro double.le_int) auto
  then show ?thesis using False assms(1,5) by (simp add: average_def div_f_def float_of_int_exact double.nonneg)
qed (use assms in \<open>simp add: average_def\<close>)

definition bounded_buckets :: "int \<Rightarrow> nat \<Rightarrow> real list \<Rightarrow> nat list \<Rightarrow> bool" where
  "bounded_buckets D k b c \<longleftrightarrow> length b = length c \<and> (\<forall>i < length c. c ! i \<le> k \<and> 0 \<le> b ! i \<and> b ! i \<le> of_int (int (c ! i) * D))"

lemma bounded_buckets_step:
  assumes "bounded_buckets D k b c" "0 \<le> v" "v \<le> of_int D" "int (Suc k) * D \<le> 2 ^ 53" "0 \<le> D"
  shows "bounded_buckets D (Suc k) (add_at i v b) (count_at i c)"
proof -
  have "0 \<le> add (b ! i) v \<and> add (b ! i) v \<le> of_int (int (Suc (c ! i)) * D)" if "i < length c"
  proof -
    have "int (Suc (c ! i)) * D \<le> int (Suc k) * D" using that assms(1,5) by (intro mult_right_mono) (auto simp: bounded_buckets_def)
    then have "int (Suc (c ! i)) * D \<le> 2 ^ 53" using assms(4) by linarith
    then show ?thesis
      using that assms by (intro conjI add_bounded [of "b ! i" "c ! i" D v]) (auto simp: bounded_buckets_def)
  qed
  then show ?thesis
    using assms(1) by (cases "i < length c") (auto simp: bounded_buckets_def add_at_def count_at_def nth_list_update le_SucI)
qed

lemma averages_bounded:
  assumes "bounded_buckets D k b c" "k \<le> 10000" "0 \<le> D" "D \<le> 2 ^ 53" "i < length c"
  shows "0 \<le> averages b c ! i \<and> averages b c ! i \<le> of_int D"
proof -
  have i: "c ! i \<le> k" "0 \<le> b ! i" "b ! i \<le> of_int (int (c ! i) * D)" "length b = length c"
    using assms(1,5) by (auto simp: bounded_buckets_def)
  then show ?thesis using average_bounded [of "b ! i" "c ! i" D] assms(2-5) by (simp add: averages_def)
qed

lemma tally_bounded:
  assumes "plausible D history" "ty = tally_of loc history"
  shows "bounded_buckets D (length history) (ty_hourly ty) (ty_hourlyCounts ty) \<and> length (ty_hourlyCounts ty) = 24 \<and>
    bounded_buckets D (length history) (ty_daily ty) (ty_dailyCounts ty) \<and> length (ty_dailyCounts ty) = 7 \<and>
    0 \<le> ty_totalDemand ty \<and> ty_totalDemand ty \<le> of_int (int (ty_count ty) * D) \<and> ty_count ty = length history"
  using assms
proof (induction history arbitrary: ty rule: rev_induct)
  case Nil
  then show ?case by (simp add: tally_of_def bounded_buckets_def)
next
  case (snoc r rs)
  note r = plausible_append [OF snoc.prems(1)]
  have "int (Suc (length rs)) * D \<le> 10000 * 2 ^ 19" using snoc.prems(1) by (intro mult_mono) (auto simp: plausible_def)
  then have room: "int (Suc (length rs)) * D \<le> 2 ^ 53" "0 \<le> D" using snoc.prems(1) by (auto simp: plausible_def)
  have ty: "ty = tally_record loc (tally_of loc rs) r" by (simp add: snoc.prems(2) tally_of_def)
  show ?case
    using snoc.IH [OF conjunct1 [OF r] refl] r room add_bounded [of _ "length rs" D]
    by (auto simp: ty tally_record_def Let_def count_at_def [THEN arg_cong, of length] intro!: bounded_buckets_step)
qed

text \<open>What the detector has learned: averages within the demand seen, and errors that are not negative.\<close>

definition sound_patterns :: "int \<Rightarrow> PatternDetector \<Rightarrow> bool" where
  "sound_patterns D p \<longleftrightarrow>
     (\<forall>h < 24. 0 \<le> pd_hourlyBuckets p ! h \<and> pd_hourlyBuckets p ! h \<le> of_int D \<and> 0 \<le> pd_hourlyMSE p ! h) \<and>
     (\<forall>w < 7. 0 \<le> pd_dailyBuckets p ! w \<and> pd_dailyBuckets p ! w \<le> of_int D) \<and>
     0 \<le> pd_weeklyBaseline p \<and> pd_weeklyBaseline p \<le> of_int D"

lemma add_at_nonneg: "list_all ((\<le>) 0) xs \<Longrightarrow> 0 \<le> v \<Longrightarrow> list_all ((\<le>) 0) (add_at i v xs)"
  by (cases "i < length xs") (auto simp: list_all_length add_at_def nth_list_update)

lemma hourly_errors_nonneg: "list_all ((\<le>) 0) (hourly_errors loc p history) \<and> length (hourly_errors loc p history) = 24"
proof (induction history rule: rev_induct)
  case (snoc r rs)
  then show ?case by (auto simp: hourly_errors_def intro!: add_at_nonneg) (simp add: add_at_def)
qed (simp add: hourly_errors_def list_all_length)

lemma learn_patterns_sound:
  assumes "plausible D history"
  shows "sound_patterns D (learn_patterns loc history)"
proof -
  let ?ty = "tally_of loc history"
  note ty = tally_bounded [OF assms, of ?ty loc, OF refl]
  have D: "length history \<le> 10000" "0 \<le> D" "D \<le> 2 ^ 53" using assms by (auto simp: plausible_def)
  have "0 \<le> average (ty_totalDemand ?ty) (ty_count ?ty) \<and> average (ty_totalDemand ?ty) (ty_count ?ty) \<le> of_int D"
    using ty D by (intro average_bounded) auto
  moreover have "\<forall>h < 24. 0 \<le> averages (ty_hourly ?ty) (ty_hourlyCounts ?ty) ! h \<and> averages (ty_hourly ?ty) (ty_hourlyCounts ?ty) ! h \<le> of_int D"
    using averages_bounded [of D "length history"] ty D by auto
  moreover have "\<forall>w < 7. 0 \<le> averages (ty_daily ?ty) (ty_dailyCounts ?ty) ! w \<and> averages (ty_daily ?ty) (ty_dailyCounts ?ty) ! w \<le> of_int D"
    using averages_bounded [of D "length history"] ty D by auto
  moreover have "0 \<le> hourly_errors loc p history ! h" "length (hourly_errors loc p history) = 24" if "h < 24" for h p
    using hourly_errors_nonneg [of loc p history] that by (auto simp: list_all_length)
  moreover have "0 \<le> float_of_int (int n)" for n by (simp add: float_of_int_def double.nonneg)
  ultimately show ?thesis
    using ty by (auto simp: sound_patterns_def learn_patterns_def Let_def)
qed

text \<open>A weighted mean, rounded three times, exceeds the larger number by next to nothing.\<close>

lemma weighted_le:
  assumes "0 \<le> x" "x \<le> m" "0 \<le> y" "y \<le> m" "m \<le> 2 ^ 20" "0 \<le> a" "0 \<le> b" "a + b \<le> 1 + 1 / 2 ^ 52"
  shows "add (mul x a) (mul y b) \<le> m + 1 / 2 ^ 28"
proof -
  have "x * a + y * b \<le> m * a + m * b" using assms by (intro add_mono mult_right_mono)
  also have "\<dots> = m * (a + b)" by (simp add: algebra_simps)
  also have "\<dots> \<le> m * (1 + 1 / 2 ^ 52)" using assms by (intro mult_left_mono) auto
  finally have sum: "x * a + y * b \<le> m + 1 / 2 ^ 32" using assms(5) by (simp add: algebra_simps)
  have "x * a \<le> m * 2" "y * b \<le> m * 2" using assms by (intro mult_mono; simp)+
  then have "mul x a \<le> x * a + 2 ^ 21 / 2 ^ 53" "mul y b \<le> y * b + 2 ^ 21 / 2 ^ 53"
    unfolding mul_def using assms by (intro double.near; simp)+
  then have "mul x a + mul y b \<le> m + 3 / 2 ^ 32" using sum by (simp add: field_simps)
  moreover have "0 \<le> mul x a + mul y b" using assms by simp
  ultimately have "add (mul x a) (mul y b) \<le> mul x a + mul y b + 2 ^ 22 / 2 ^ 53"
    unfolding add_def using assms(5) by (intro double.near) auto
  then show ?thesis using \<open>mul x a + mul y b \<le> m + 3 / 2 ^ 32\<close> by (simp add: field_simps)
qed

lemma lits_le:
  assumes "0 \<le> u" "0 \<le> v" "u + v = 1"
  shows "0 \<le> lit u" "0 \<le> lit v" "lit u + lit v \<le> 1 + 1 / 2 ^ 52"
proof -
  have "lit u \<le> u + 1 / 2 ^ 53" "lit v \<le> v + 1 / 2 ^ 53" using assms by (intro lit_near; simp)+
  then show "lit u + lit v \<le> 1 + 1 / 2 ^ 52" using assms(3) by (simp add: field_simps)
qed (use assms in \<open>simp_all add: double.nonneg\<close>)

lemma blend_bounded:
  assumes "sound_patterns D p" "h < 24" "w < 7" "0 \<le> D" "D \<le> 2 ^ 19"
  shows "0 \<le> blend p h w" "blend p h w \<le> of_int D + 1 / 2 ^ 28"
proof -
  have "of_int D \<le> (of_int (2 ^ 19) :: real)" using assms(5) by (simp only: of_int_le_iff)
  then have "add (mul (pd_hourlyBuckets p ! h) (lit (7 / 10))) (mul (pd_dailyBuckets p ! w) (lit (3 / 10))) \<le> of_int D + 1 / 2 ^ 28"
    using assms lits_le [of "7 / 10" "3 / 10"] by (intro weighted_le) (auto simp: sound_patterns_def)
  then show "blend p h w \<le> of_int D + 1 / 2 ^ 28"
    using assms(1) unfolding blend_def Let_def sound_patterns_def by (auto intro: order_trans)
  show "0 \<le> blend p h w"
    using assms lits_le [of "7 / 10" "3 / 10"] by (simp add: blend_def sound_patterns_def Let_def)
qed

text \<open>Smoothing forgets rounding errors as fast as it makes them.\<close>

lemma smoothing_factor:
  assumes "alpha = lit (3 / 10)"
  shows "0 \<le> minus_f 1 alpha" "minus_f 1 alpha \<le> 71 / 100" "alpha + minus_f 1 alpha \<le> 1 + 1 / 2 ^ 52" "0 \<le> alpha"
proof -
  have a: "3 / 10 - 1 / 2 ^ 53 \<le> alpha" "alpha \<le> 3 / 10 + 1 / 2 ^ 53" using double.near [of "3 / 10" 1] by (simp_all add: assms)
  then have "\<bar>1 - alpha\<bar> \<le> 1" by simp
  from double.near [OF this] have "minus_f 1 alpha \<le> 1 - alpha + 1 / 2 ^ 53" by (simp add: minus_f_def)
  then show "minus_f 1 alpha \<le> 71 / 100" "alpha + minus_f 1 alpha \<le> 1 + 1 / 2 ^ 52" using a by simp_all
  show "0 \<le> minus_f 1 alpha" "0 \<le> alpha" using a by (simp_all add: minus_f_def double.nonneg)
qed

lemma smooth_step_bounded:
  assumes "0 \<le> v" "v \<le> of_int D" "0 \<le> l" "l \<le> of_int D + 1 / 2 ^ 26" "0 \<le> D" "D \<le> 2 ^ 19" "alpha = lit (3 / 10)"
  shows "0 \<le> add (mul alpha v) (mul (minus_f 1 alpha) l)" "add (mul alpha v) (mul (minus_f 1 alpha) l) \<le> of_int D + 1 / 2 ^ 26"
proof -
  let ?beta = "minus_f 1 alpha"
  note f = smoothing_factor [OF assms(7)]
  have D: "of_int D \<le> (2 ^ 19 :: real)" using assms(6) by simp
  have "alpha * v + ?beta * l \<le> alpha * of_int D + ?beta * (of_int D + 1 / 2 ^ 26)"
    using assms f by (intro add_mono mult_left_mono)
  also have "\<dots> = (alpha + ?beta) * of_int D + ?beta / 2 ^ 26" by (simp add: algebra_simps)
  also have "\<dots> \<le> (1 + 1 / 2 ^ 52) * of_int D + 71 / 100 / 2 ^ 26"
    using f assms(5) by (intro add_mono [OF mult_right_mono divide_right_mono]) auto
  finally have sum: "alpha * v + ?beta * l \<le> of_int D + 1 / 2 ^ 33 + 71 / 100 / 2 ^ 26" using D by (simp add: algebra_simps)
  have "0 \<le> alpha * v" "0 \<le> ?beta * l" using assms f by simp_all
  moreover from this sum D have "alpha * v \<le> 2 ^ 20" "?beta * l \<le> 2 ^ 20" by simp_all
  ultimately have "mul alpha v \<le> alpha * v + 2 ^ 20 / 2 ^ 53" "mul ?beta l \<le> ?beta * l + 2 ^ 20 / 2 ^ 53"
    unfolding mul_def by (intro double.near; simp)+
  then have both: "mul alpha v + mul ?beta l \<le> of_int D + 3 / 2 ^ 33 + 71 / 100 / 2 ^ 26" using sum by (simp add: field_simps)
  moreover have pos: "0 \<le> mul alpha v" "0 \<le> mul ?beta l" using assms f by simp_all
  ultimately have "add (mul alpha v) (mul ?beta l) \<le> mul alpha v + mul ?beta l + 2 ^ 20 / 2 ^ 53"
    unfolding add_def using D by (intro double.near) auto
  then show "add (mul alpha v) (mul ?beta l) \<le> of_int D + 1 / 2 ^ 26" using both by (simp add: field_simps)
  show "0 \<le> add (mul alpha v) (mul ?beta l)" using pos by simp
qed

lemma smooth_Train_bounded:
  assumes "plausible D history" "history \<noteq> []" "es_alpha p = lit (3 / 10)"
  shows "es_alpha (smooth_Train history p) = lit (3 / 10) \<and> 0 \<le> es_level (smooth_Train history p) \<and>
    es_level (smooth_Train history p) \<le> of_int D + 1 / 2 ^ 26"
  using assms(1,2)
proof (induction history rule: rev_induct)
  case (snoc r rs)
  note r = plausible_append [OF snoc.prems(1)]
  have D: "0 \<le> D" "D \<le> 2 ^ 19" using snoc.prems(1) by (auto simp: plausible_def)
  show ?case
  proof (cases "rs = []")
    case True
    then show ?thesis using r assms(3) by (simp add: smooth_Train_def add_increasing2)
  next
    case False
    then have step: "smooth_Train (rs @ [r]) p = smooth_Update (demand_of r) (smooth_Train rs p)"
      by (cases rs) (simp_all add: smooth_Train_def)
    show ?thesis
      using snoc.IH [OF conjunct1 [OF r] False] r D smooth_step_bounded [of "demand_of r" D] by (simp add: step smooth_Update_def)
  qed
qed simp

lemma confidence_bounded: "0 \<le> mse \<Longrightarrow> 0 \<le> confidence_of mse \<and> confidence_of mse \<le> lit (95 / 100)"
  by (simp add: confidence_of_def double.nonneg)

lemma square_bounded:
  assumes "0 \<le> v" "v \<le> of_int D" "0 \<le> mean" "mean \<le> of_int D" "D \<le> 2 ^ 19"
  shows "0 \<le> squared_error v mean \<and> squared_error v mean \<le> of_int (D * D)"
proof -
  have D: "0 \<le> D" using assms(1,2) by simp
  then have "D * D \<le> 2 ^ 19 * 2 ^ 19" using assms(5) by (intro mult_mono) auto
  have "v - mean \<le> of_int D" "of_int (- D) \<le> v - mean" using assms by simp_all
  then have "minus_f v mean \<le> of_int D" "of_int (- D) \<le> minus_f v mean"
    unfolding minus_f_def using D assms(5) by (intro double.le_int double.ge_int; simp)+
  then have "\<bar>minus_f v mean\<bar> \<le> of_int D" by simp
  then have "minus_f v mean * minus_f v mean \<le> of_int (D * D)"
    using abs_le_square_iff [of "minus_f v mean" "of_int D"] D by (simp add: power2_eq_square)
  then show ?thesis
    unfolding squared_error_def Let_def mul_def using \<open>D * D \<le> _\<close> D by (intro conjI double.le_int double.nonneg) auto
qed

lemma deviation_bounded:
  assumes "plausible D history" "history \<noteq> []"
  shows "0 \<le> standardDeviation (map demand_of history)" "standardDeviation (map demand_of history) \<le> of_int D"
proof -
  let ?vs = "map demand_of history"
  define n where "n = length history"
  have D: "0 \<le> D" "D \<le> 2 ^ 19" and n: "0 < n" "n \<le> 10000"
    using assms by (auto simp: plausible_def n_def)
  have v: "\<forall>v \<in> set ?vs. 0 \<le> v \<and> v \<le> of_int D"
    using assms(1) by (auto simp: plausible_def list_all_iff demand_of_def float_of_int_exact)
  define mean where "mean = average (foldl add 0 ?vs) n"
  have "int n * D \<le> 10000 * 2 ^ 19" using n D by (intro mult_mono) auto
  then have "0 \<le> foldl add 0 ?vs \<and> foldl add 0 ?vs \<le> of_int (int n * D)"
    using foldl_add_bounded [OF v] D by (simp add: n_def)
  then have mean: "0 \<le> mean" "mean \<le> of_int D" using average_bounded [of _ n D] n D by (auto simp: mean_def)
  define sq where "sq = (\<lambda>v. squared_error v mean)"
  have sq: "0 \<le> sq v \<and> sq v \<le> of_int (D * D)" if "v \<in> set ?vs" for v
    unfolding sq_def using v that mean D by (intro square_bounded) auto
  have "D * D \<le> 2 ^ 19 * 2 ^ 19" using D by (intro mult_mono) auto
  have "int n * (D * D) \<le> 10000 * (2 ^ 19 * 2 ^ 19)" using n D \<open>D * D \<le> _\<close> by (intro mult_mono) auto
  then have "0 \<le> foldl add 0 (map sq ?vs) \<and> foldl add 0 (map sq ?vs) \<le> of_int (int n * (D * D))"
    using foldl_add_bounded [of "map sq ?vs" "D * D"] sq D by (auto simp: n_def)
  then have var: "0 \<le> average (foldl add 0 (map sq ?vs)) n" "average (foldl add 0 (map sq ?vs)) n \<le> of_int (D * D)"
    using average_bounded [of _ n "D * D"] n D \<open>D * D \<le> _\<close> by auto
  have dev: "standardDeviation ?vs = math_Sqrt (average (foldl add 0 (map sq ?vs)) n)"
    using n assms(2) by (simp add: standardDeviation_def average_def mean_def sq_def squared_error_def n_def foldl_map Let_def)
  have "sqrt (average (foldl add 0 (map sq ?vs)) n) \<le> of_int D" using var(2) D by (intro real_le_lsqrt) (auto simp: power2_eq_square)
  then show "standardDeviation ?vs \<le> of_int D" unfolding dev math_Sqrt_def using D by (intro double.le_int) auto
  show "0 \<le> standardDeviation ?vs" unfolding dev using var(1) by simp
qed

lemma lit_halves: "lit (1 / 2) = 1 / 2" "lit (3 / 2) = 3 / 2"
  using rnd_representable [of "1 / 2" 1 "- 1"] rnd_representable [of "3 / 2" 3 "- 1"] by (simp_all add: powr_minus)

lemma interval_contains:
  assumes "plausible D history" "history \<noteq> []" "0 \<le> v" "v \<le> 2 ^ 20" "rnd v = v" "CalculateInterval history v = (lower, upper)"
  shows "0 \<le> lower" "lower \<le> v" "v \<le> upper" "upper \<le> 2 ^ 22"
proof -
  have D: "of_int D \<le> (2 ^ 19 :: real)" using assms(1) by (simp add: plausible_def)
  define margin where "margin = mul 2 (standardDeviation (map demand_of history))"
  note dev = deviation_bounded [OF assms(1,2)]
  have "mul 2 (standardDeviation (map demand_of history)) \<le> of_int (2 ^ 20)"
    unfolding mul_def using dev D by (intro double.le_int) auto
  then have margin: "0 \<le> margin" "margin \<le> 2 ^ 20" using dev by (simp_all add: margin_def)
  have half: "mul v (lit (1 / 2)) = rnd (v / 2)" "mul v (lit (3 / 2)) = rnd (v * 3 / 2)"
    unfolding mul_def lit_halves by simp_all
  have "rnd (v / 2) \<le> v" "v \<le> rnd (v * 3 / 2)"
    using double.below [OF assms(5), of "v / 2"] double.above [OF assms(5), of "v / 2"] assms(3) by (simp_all add: field_simps)
  moreover have "rnd (v * 3 / 2) \<le> of_int (2 ^ 22)" "add v margin \<le> of_int (2 ^ 22)"
    unfolding add_def using assms(4) margin by (intro double.le_int; simp)+
  moreover have "minus_f v margin \<le> v" "v \<le> add v margin"
    unfolding minus_f_def add_def using assms(5) margin by (intro double.below double.above; simp)+
  ultimately show "0 \<le> lower" "lower \<le> v" "v \<le> upper" "upper \<le> 2 ^ 22"
    using assms(3,6) by (auto simp: CalculateInterval_def Let_def half margin_def [symmetric] double.nonneg split: if_splits)
qed

lemma small_in_int64: "0 \<le> n \<Longrightarrow> n \<le> 2 ^ 22 \<Longrightarrow> in_int64 n"
  by (simp add: in_int64_def)

lemma round_between:
  assumes "0 \<le> lower" "lower \<le> v" "v \<le> upper"
  shows "0 \<le> \<lfloor>lower\<rfloor>" "\<lfloor>lower\<rfloor> \<le> math_Round v" "math_Round v \<le> \<lceil>upper\<rceil>"
  using assms unfolding math_Round_def by simp_all linarith+

lemma predict_at_sound:
  assumes "plausible D history" "history \<noteq> []" "sound_patterns D (hf_patternDetector f)"
    and "0 \<le> es_level (hf_smoothing f)" "es_level (hf_smoothing f) \<le> of_int D + 1 / 2 ^ 26" "p = predict_at loc history f t"
  shows "0 \<le> pr_LowerBound p \<and> pr_LowerBound p \<le> pr_PredictedDemand p \<and> pr_PredictedDemand p \<le> pr_UpperBound p \<and>
    pr_PredictedDemand p \<le> D \<and> 0 \<le> pr_Confidence p \<and> pr_Confidence p \<le> lit (95 / 100) \<and> pr_Time p = t"
proof -
  let ?d = "blend (hf_patternDetector f) (hour_of loc t) (weekday_of loc t)"
  have D: "0 \<le> D" "D \<le> 2 ^ 19" using assms(1) by (auto simp: plausible_def)
  note d = blend_bounded [OF assms(3) hour_of_less [of loc t] D]
  define v where "v = add (mul ?d (lit (6 / 10))) (mul (es_level (hf_smoothing f)) (lit (4 / 10)))"
  have "v \<le> of_int D + 1 / 2 ^ 26 + 1 / 2 ^ 28"
    unfolding v_def using d assms(4,5) D lits_le [of "6 / 10" "4 / 10"] by (intro weighted_le) (auto simp: field_simps)
  moreover have "of_int D \<le> (2 ^ 19 :: real)" using D by simp
  ultimately have v: "v < of_int D + 1 / 2" "v \<le> 2 ^ 20" by simp_all
  have "0 \<le> v" unfolding v_def using d assms(4) lits_le [of "6 / 10" "4 / 10"] by simp
  moreover have "rnd v = v" by (simp add: v_def)
  moreover obtain lower upper where I: "CalculateInterval history v = (lower, upper)" by fastforce
  ultimately have c: "0 \<le> lower" "lower \<le> v" "v \<le> upper" "upper \<le> 2 ^ 22" using interval_contains [OF assms(1,2) _ v(2)] by blast+
  note b = round_between [OF c(1-3)]
  have "\<lceil>upper\<rceil> \<le> 2 ^ 22" using c(4) by (simp add: ceiling_le_iff)
  with b have "in_int64 \<lfloor>lower\<rfloor>" "in_int64 (math_Round v)" "in_int64 \<lceil>upper\<rceil>" by (intro small_in_int64; linarith)+
  moreover have "math_Round v \<le> D" using v(1) \<open>0 \<le> v\<close> by (simp add: math_Round_def) linarith
  moreover have "0 \<le> pd_hourlyMSE (hf_patternDetector f) ! hour_of loc t"
    using assms(3) hour_of_less [of loc t] by (simp add: sound_patterns_def)
  moreover have "p = \<lparr>pr_Time = t, pr_PredictedDemand = to_int64 (math_Round v), pr_UpperBound = to_int64 \<lceil>upper\<rceil>,
      pr_LowerBound = to_int64 \<lfloor>lower\<rfloor>, pr_Confidence = confidence_of (pd_hourlyMSE (hf_patternDetector f) ! hour_of loc t)\<rparr>"
    unfolding assms(6) predict_at_def PredictDemand_def prod.case Let_def v_def [symmetric] I ..
  ultimately show ?thesis using b confidence_bounded by (simp add: to_int64_def)
qed

lemma hybrid_Train_sound:
  assumes "plausible D history" "history \<noteq> []" "es_alpha (hf_smoothing f) = lit (3 / 10)" "f1 = hybrid_Train loc history f"
  shows "sound_patterns D (hf_patternDetector f1)" "0 \<le> es_level (hf_smoothing f1)" "es_level (hf_smoothing f1) \<le> of_int D + 1 / 2 ^ 26"
    "es_alpha (hf_smoothing f1) = lit (3 / 10)"
  using assms(2) learn_patterns_sound [OF assms(1), of loc] smooth_Train_bounded [OF assms(1-3)]
  by (simp_all add: assms(4) hybrid_Train_def AnalyzePatterns_def Let_def)

lemma new_forecaster: "es_alpha (hf_smoothing NewHybridForecaster) = lit (3 / 10)"
  by (simp add: NewHybridForecaster_def NewExponentialSmoothingPredictor_def)

lemma hybrid_Forecast_sound:
  assumes "plausible D history" "es_alpha (hf_smoothing f) = lit (3 / 10)"
    and "p \<in> set (fo_Predictions (fst (hybrid_Forecast loc now history start window step f)))"
  shows "0 \<le> pr_LowerBound p \<and> pr_LowerBound p \<le> pr_PredictedDemand p \<and> pr_PredictedDemand p \<le> pr_UpperBound p \<and>
    pr_PredictedDemand p \<le> D \<and> 0 \<le> pr_Confidence p \<and> pr_Confidence p \<le> lit (95 / 100)"
proof -
  have ne: "history \<noteq> []" using assms(3) by (auto simp: hybrid_Forecast_def)
  then obtain t where "p = predict_at loc history (hybrid_Train loc history f) t"
    using assms(3) by (auto simp: hybrid_Forecast_def Let_def split: prod.splits)
  then show ?thesis using predict_at_sound [OF assms(1) ne hybrid_Train_sound(1-3) [OF assms(1) ne assms(2) refl]] by blast
qed

lemma hybrid_Forecast_times:
  assumes "history \<noteq> []"
  shows "map pr_Time (fo_Predictions (fst (hybrid_Forecast loc now history start window step f))) =
    map (\<lambda>i. start + int i * step) [0..<nat (go_div window step)]"
  using assms by (simp add: hybrid_Forecast_def Let_def predict_at_def PredictDemand_def split: prod.splits)

lemma learned_plausible:
  assumes "s = foldl (\<lambda>s (failure, h). Learn sortSlice failure h s) (NewBasicSeasonalScaler store) hs"
    and "\<forall>r \<in> set (concat (map snd hs)). 0 \<le> ur_ActiveVMs r \<and> ur_ActiveVMs r \<le> D" "0 \<le> D" "D \<le> 2 ^ 19"
  shows "plausible D (bs_history s)"
  using assms(1,2)
proof (induction hs arbitrary: s rule: rev_induct)
  case Nil
  then show ?case using assms(3,4) by (simp add: plausible_def NewBasicSeasonalScaler_def)
next
  case (snoc h hs)
  then have "plausible D (bs_history (foldl (\<lambda>s (failure, h). Learn sortSlice failure h s) (NewBasicSeasonalScaler store) hs))" by simp
  then show ?case
    using snoc.prems last_10000(1) subsetD [OF set_mono_suffix [OF last_10000(2)]]
    by (cases h) (fastforce simp: plausible_def list_all_iff Learn_def)
qed

text \<open>
  C24: Forecasts stay within what was seen. Whatever the scaler has learned, with demands between 0
  and \<open>D\<close> (up to 524288 machines), every prediction of a forecast lies between its bounds, which are
  not negative, and is not above \<open>D\<close>, and its confidence is between 0 and 0.95, all of this with
  the rounding of every floating-point operation; there is one prediction for each step of the
  window, at its time, as soon as anything has been learned.
\<close>

theorem forecast_bounds:
  assumes "s = foldl (\<lambda>s (failure, h). Learn sortSlice failure h s) (NewBasicSeasonalScaler store) hs"
    and "\<forall>r \<in> set (concat (map snd hs)). 0 \<le> ur_ActiveVMs r \<and> ur_ActiveVMs r \<le> D" "0 \<le> D" "D \<le> 2 ^ 19"
    and "forecast = scaler_Forecast loc now window s"
  shows "(\<forall>p \<in> set (fo_Predictions forecast). 0 \<le> pr_LowerBound p \<and> pr_LowerBound p \<le> pr_PredictedDemand p \<and>
      pr_PredictedDemand p \<le> pr_UpperBound p \<and> pr_PredictedDemand p \<le> D \<and> 0 \<le> pr_Confidence p \<and> pr_Confidence p \<le> lit (95 / 100)) \<and>
    (bs_history s \<noteq> [] \<longrightarrow> map pr_Time (fo_Predictions forecast) =
      (let step = if window < hour then minute else 5 * minute in map (\<lambda>i. now + int i * step) [0..<nat (go_div window step)]))"
  using hybrid_Forecast_sound [OF learned_plausible [OF assms(1-4)] new_forecaster] hybrid_Forecast_times
  by (auto simp: assms(5) scaler_Forecast_def Let_def)

definition demo_record :: "go_time \<Rightarrow> int \<Rightarrow> UsageRecord" where
  "demo_record t vms = \<lparr>ur_Timestamp = t, ur_ActiveVMs = vms, ur_QueueDepth = 0, ur_CPUUtil = 0, ur_MemoryUtil = 0, ur_LaunchCount = 0, ur_ErrorCount = 0\<rparr>"

definition demo_learned :: BasicSeasonalScaler where
  "demo_learned = Learn id None [demo_record 0 4, demo_record hour 10] (NewBasicSeasonalScaler None)"

theorem forecast_bounds_witness:
  "list_all (\<lambda>p. 0 \<le> pr_PredictedDemand p \<and> pr_PredictedDemand p \<le> 10) (fo_Predictions (scaler_Forecast UTC (2 * hour) (2 * minute) demo_learned)) \<and>
    map pr_Time (fo_Predictions (scaler_Forecast UTC (2 * hour) (2 * minute) demo_learned)) = [2 * hour, 2 * hour + minute]"
proof -
  have s: "demo_learned = foldl (\<lambda>s (failure, h). Learn id failure h s) (NewBasicSeasonalScaler None) [(None, [demo_record 0 4, demo_record hour 10])]"
    by (simp add: demo_learned_def)
  have r: "\<forall>r \<in> set (concat (map snd [(None :: (string \<times> history_file) option, [demo_record 0 4, demo_record hour 10])])).
      0 \<le> ur_ActiveVMs r \<and> ur_ActiveVMs r \<le> 10"
    by (simp add: demo_record_def)
  note bounds = forecast_bounds [OF s r _ _ refl, of UTC "2 * hour" "2 * minute"]
  have "bs_history demo_learned \<noteq> []" by (simp add: demo_learned_def Learn_def NewBasicSeasonalScaler_def last_10000_def)
  moreover have "go_div (2 * minute) minute = 2" by code_simp
  moreover have "2 * minute < hour" by code_simp
  ultimately have "map pr_Time (fo_Predictions (scaler_Forecast UTC (2 * hour) (2 * minute) demo_learned)) = [2 * hour, 2 * hour + minute]"
    using bounds by (simp add: numeral_2_eq_2)
  then show ?thesis using bounds by (fastforce simp: list_all_iff)
qed

section \<open>Capacity stays within the limits\<close>

lemma fdiv_target:
  assumes "0 \<le> x" "x \<le> 2 ^ 19" "1 / 1000 \<le> u"
  shows "fdiv x u = Finite (rnd (x / u))" "0 \<le> rnd (x / u)" "rnd (x / u) \<le> 2 ^ 30"
proof -
  have "x / u \<le> 2 ^ 19 / (1 / 1000)" using assms by (intro frac_le) auto
  then have "rnd (x / u) \<le> of_int (2 ^ 30)" by (intro double.le_int) auto
  then show le: "rnd (x / u) \<le> 2 ^ 30" by simp
  show pos: "0 \<le> rnd (x / u)" using assms by (intro double.nonneg) auto
  have "(2 :: real) powr 30 < 2 powr 1024" by (intro powr_less_mono) auto
  then show "fdiv x u = Finite (rnd (x / u))" using assms(3) le pos by (simp add: fdiv_def Let_def powr_numeral)
qed

lemma prediction_at_in: "ps \<noteq> [] \<Longrightarrow> prediction_at t d ps \<in> pr_PredictedDemand ` set ps"
proof (induction ps arbitrary: d)
  case (Cons p ps)
  then show ?case by (cases ps) auto
qed simp

lemma trunc_small: "0 \<le> v \<Longrightarrow> v \<le> 2 ^ 53 \<Longrightarrow> f_to_int go_trunc (Finite v) = \<lfloor>v\<rfloor>"
  by (simp add: to_int64_def go_trunc_def in_int64_def le_floor_iff floor_less_iff)

text \<open>The capacity wanted is at least one node and at least what the usage of the moment asks for.\<close>

lemma wanted_capacity_bounded:
  assumes "plausible D (bs_history s)" "1 / 1000 \<le> u"
    and "active = (if bs_history s = [] then 0 else ur_ActiveVMs (last (bs_history s)))"
  shows "\<exists>v reason. wanted_capacity dur loc now now' u s = (Finite v, reason) \<and> 1 \<le> v \<and> v \<le> 2 ^ 30 \<and> rnd (of_int active / u) \<le> v"
proof -
  have D: "D \<le> 2 ^ 19" using assms(1) by (simp add: plausible_def)
  have demand: "0 \<le> d \<and> d \<le> 2 ^ 19" if ps: "ps = fo_Predictions (scaler_Forecast loc now w s)" "ps \<noteq> []" "d = prediction_at t 0 ps" for ps w t d
  proof -
    obtain p where "p \<in> set ps" "d = pr_PredictedDemand p" using prediction_at_in [OF ps(2), of t 0] ps(3) by auto
    then show ?thesis
      using hybrid_Forecast_sound [OF assms(1) new_forecaster, of p] ps(1) D by (fastforce simp: scaler_Forecast_def)
  qed
  have quotient: "fdiv (float_of_int n) u = Finite (rnd (of_int n / u)) \<and> 0 \<le> rnd (of_int n / u) \<and> rnd (of_int n / u) \<le> 2 ^ 30"
    if "0 \<le> n \<and> n \<le> 2 ^ 19" for n
    using that fdiv_target [of "of_int n" u] assms(2) by (simp add: float_of_int_exact)
  have "0 \<le> active \<and> active \<le> 2 ^ 19"
    using assms(1) D by (auto simp: assms(3) plausible_def list_all_iff) (meson last_in_set order_trans)+
  note a = quotient [OF this]
  show ?thesis
    unfolding wanted_capacity_def Let_def assms(3) [symmetric]
    using a quotient [OF demand [OF refl _ refl]] by (auto split: option.split)
qed

lemma season_limits_bounded:
  assumes "0 \<le> sn_MinNodes season" "sn_MinNodes season \<le> sn_MaxNodes season" "sn_MaxNodes season \<le> 2 ^ 53"
  shows "\<exists>w reason'. season_limits season (Finite v, reason) = (Finite w, reason') \<and>
    of_int (sn_MinNodes season) \<le> w \<and> w \<le> of_int (sn_MaxNodes season)"
  using assms by (auto simp: season_limits_def Let_def float_of_int_exact)

lemma recommended_in_season:
  assumes "plausible D (bs_history s)" "1 / 1000 \<le> u" "bs_current s = Some season"
    and "0 \<le> sn_MinNodes season" "sn_MinNodes season \<le> sn_MaxNodes season" "sn_MaxNodes season \<le> 2 ^ 53"
    and "n = cr_RecommendedNodes (RecommendCapacity dur loc now now' u s)"
  shows "sn_MinNodes season \<le> n \<and> n \<le> sn_MaxNodes season"
proof -
  obtain v reason where v: "wanted_capacity dur loc now now' u s = (Finite v, reason)"
    using wanted_capacity_bounded [OF assms(1,2) refl] by blast
  obtain w reason' where w: "season_limits season (Finite v, reason) = (Finite w, reason')"
      "of_int (sn_MinNodes season) \<le> w" "w \<le> of_int (sn_MaxNodes season)"
    using season_limits_bounded [OF assms(4-6)] by blast
  have "of_int (sn_MaxNodes season) \<le> (2 ^ 53 :: real)" "0 \<le> (of_int (sn_MinNodes season) :: real)" using assms(4,6) by simp_all
  then have "0 \<le> w" "w \<le> 2 ^ 53" using w(2,3) by linarith+
  then have "n = \<lfloor>w\<rfloor>" using trunc_small [of w] by (simp add: assms(3,7) RecommendCapacity_def v w(1) del: f_to_int.simps)
  then show ?thesis using w(2,3) by (simp add: le_floor_iff floor_le_iff)
qed

lemma recommended_without_season:
  assumes "plausible D (bs_history s)" "1 / 1000 \<le> u" "bs_current s = None"
    and "rec = RecommendCapacity dur loc now now' u s"
  shows "1 \<le> cr_RecommendedNodes rec \<and> of_int (cr_CurrentNodes rec) \<le> of_int (cr_RecommendedNodes rec + 1) * u"
proof -
  have current: "cr_CurrentNodes rec = (if bs_history s = [] then 0 else ur_ActiveVMs (last (bs_history s)))"
    by (simp add: assms(4) RecommendCapacity_def split: prod.split)
  obtain v reason where v: "wanted_capacity dur loc now now' u s = (Finite v, reason)" "1 \<le> v" "v \<le> 2 ^ 30"
      "rnd (of_int (cr_CurrentNodes rec) / u) \<le> v"
    using wanted_capacity_bounded [OF assms(1,2) current] by blast
  then have n: "cr_RecommendedNodes rec = \<lfloor>v\<rfloor>" using trunc_small [of v] by (simp add: assms(3,4) RecommendCapacity_def del: f_to_int.simps)
  have "\<lfloor>v\<rfloor> \<le> 2 ^ 30" "1 \<le> \<lfloor>v\<rfloor>" using v(2,3) by (simp_all add: floor_le_iff)
  then have "of_int (\<lfloor>v\<rfloor> + 1) \<le> rnd (of_int (cr_CurrentNodes rec) / u)" if "of_int (\<lfloor>v\<rfloor> + 1) < of_int (cr_CurrentNodes rec) / u"
    using that by (intro double.ge_int) auto
  moreover have "v < of_int (\<lfloor>v\<rfloor> + 1)" using floor_correct [of v] by simp
  ultimately have "of_int (cr_CurrentNodes rec) / u \<le> of_int (\<lfloor>v\<rfloor> + 1)" using v(4) by (meson le_less_trans not_le order_trans)
  then show ?thesis using assms(2) \<open>1 \<le> \<lfloor>v\<rfloor>\<close> by (simp add: n field_simps)
qed

text \<open>What remains of the day, or of the month if that has a limit and is less.\<close>

definition remaining :: "BudgetConfig \<Rightarrow> BudgetStatus \<Rightarrow> real" where
  "remaining config status =
     (if 0 < bc_MonthlyLimit config \<and> bt_MonthlyRemaining status < bt_DailyRemaining status then bt_MonthlyRemaining status
      else bt_DailyRemaining status)"

lemma affordable_bounded:
  assumes "status = CheckBudget loc now now' config b" "0 < bc_CostPerNodeHour config" "rnd (bc_CostPerNodeHour config) = bc_CostPerNodeHour config"
    and "bc_CostPerNodeHour config \<le> remaining config status" "remaining config status \<le> 2 ^ 53 * bc_CostPerNodeHour config"
    and "n = CalculateMaxAffordableNodes loc now now' config 1 b"
  shows "1 \<le> n" "of_int n * bc_CostPerNodeHour config \<le> remaining config status * (1 + 1 / 2 ^ 53)"
proof -
  let ?c = "bc_CostPerNodeHour config" and ?r = "remaining config status"
  have q: "1 \<le> ?r / ?c" "?r / ?c \<le> 2 ^ 53" using assms(2,4,5) by (simp_all add: field_simps)
  then have "of_int 1 \<le> rnd (?r / ?c)" "rnd (?r / ?c) \<le> of_int (2 ^ 53)" by (intro double.ge_int double.le_int; simp)+
  then have k: "1 \<le> rnd (?r / ?c)" "rnd (?r / ?c) \<le> 2 ^ 53" by simp_all
  have "(2 :: real) powr 53 < 2 powr 1024" by (intro powr_less_mono) auto
  then have "fdiv ?r ?c = Finite (rnd (?r / ?c))" using k assms(2) by (simp add: fdiv_def Let_def powr_numeral)
  then have n: "n = \<lfloor>rnd (?r / ?c)\<rfloor>"
    using assms(2-4) k trunc_small [of "rnd (?r / ?c)"]
    by (simp add: assms(6) CalculateMaxAffordableNodes_def Let_def remaining_def [symmetric] assms(1) [symmetric] mul_def del: f_to_int.simps)
  then show "1 \<le> n" using k by simp
  have "of_int n \<le> rnd (?r / ?c)" by (simp add: n)
  also have "\<dots> \<le> ?r / ?c + ?r / ?c / 2 ^ 53" using double.near(1) [of "?r / ?c" "?r / ?c"] q by simp
  finally show "of_int n * ?c \<le> ?r * (1 + 1 / 2 ^ 53)" using assms(2) by (simp add: field_simps)
qed

lemma budget_no_error: "\<exists>rec. RecommendCapacityWithBudget loc t t' budget b (Inr base) = Inr rec"
  by (simp add: RecommendCapacityWithBudget_def Let_def)

lemma recommendation_kept:
  assumes "RecommendCapacityWithBudget loc t t' budget b (Inr base) = Inr rec" "status = CheckBudget loc t t' budget b"
  shows "\<not> bc_HardCap budget \<Longrightarrow> rec = base"
    and "bc_HardCap budget \<Longrightarrow> bt_OverBudget status \<Longrightarrow> cr_RecommendedNodes rec = cr_CurrentNodes base"
    and "bc_HardCap budget \<Longrightarrow> \<not> bt_OverBudget status \<Longrightarrow> 1 \<le> CalculateMaxAffordableNodes loc t t' budget 1 b \<Longrightarrow>
      cr_RecommendedNodes rec = min (cr_RecommendedNodes base) (CalculateMaxAffordableNodes loc t t' budget 1 b)"
  using assms by (auto simp: RecommendCapacityWithBudget_def Let_def min_def split: if_splits)

text \<open>
  A recommendation of capacity respects the season and the budget. For a history the scaler may
  hold and a target utilisation of at least a thousandth: in a season the number of nodes is within
  its limits; without one it is at least one, and one node more than recommended always suffices to
  run the present machines at the target. With a hard cap, a budget that is used up freezes the
  number of nodes, and while a node is affordable the recommended ones cost, for an hour, no more than
  what remains of the day and of the month, but for the last bit of a quotient; without a hard cap
  the recommendation stands.
\<close>

theorem capacity_within_limits:
  assumes "plausible D (bs_history s)" "1 / 1000 \<le> u" "base = RecommendCapacity dur loc now now' u s"
    and "RecommendCapacityWithBudget loc t t' budget b (Inr base) = Inr rec" "status = CheckBudget loc t t' budget b"
  shows "(\<forall>season. bs_current s = Some season \<and> 0 \<le> sn_MinNodes season \<and> sn_MinNodes season \<le> sn_MaxNodes season \<and> sn_MaxNodes season \<le> 2 ^ 53 \<longrightarrow>
      sn_MinNodes season \<le> cr_RecommendedNodes base \<and> cr_RecommendedNodes base \<le> sn_MaxNodes season) \<and>
    (bs_current s = None \<longrightarrow> 1 \<le> cr_RecommendedNodes base \<and> of_int (cr_CurrentNodes base) \<le> of_int (cr_RecommendedNodes base + 1) * u) \<and>
    (\<not> bc_HardCap budget \<longrightarrow> rec = base) \<and>
    (bc_HardCap budget \<and> bt_OverBudget status \<longrightarrow> cr_RecommendedNodes rec = cr_CurrentNodes base) \<and>
    (bc_HardCap budget \<and> \<not> bt_OverBudget status \<and> 0 < bc_CostPerNodeHour budget \<and> rnd (bc_CostPerNodeHour budget) = bc_CostPerNodeHour budget \<and>
       bc_CostPerNodeHour budget \<le> remaining budget status \<and> remaining budget status \<le> 2 ^ 53 * bc_CostPerNodeHour budget \<longrightarrow>
      cr_RecommendedNodes rec \<le> cr_RecommendedNodes base \<and>
      of_int (cr_RecommendedNodes rec) * bc_CostPerNodeHour budget \<le> remaining budget status * (1 + 1 / 2 ^ 53))"
proof (intro conjI impI allI; (elim conjE)?)
  assume "bc_HardCap budget" "\<not> bt_OverBudget status" and cost: "0 < bc_CostPerNodeHour budget" "rnd (bc_CostPerNodeHour budget) = bc_CostPerNodeHour budget"
    "bc_CostPerNodeHour budget \<le> remaining budget status" "remaining budget status \<le> 2 ^ 53 * bc_CostPerNodeHour budget"
  note a = affordable_bounded [OF assms(5) cost refl]
  note n = recommendation_kept(3) [OF assms(4,5) \<open>bc_HardCap budget\<close> \<open>\<not> bt_OverBudget status\<close> a(1)]
  show "cr_RecommendedNodes rec \<le> cr_RecommendedNodes base" by (simp add: n)
  have "of_int (cr_RecommendedNodes rec) * bc_CostPerNodeHour budget \<le>
      of_int (CalculateMaxAffordableNodes loc t t' budget 1 b) * bc_CostPerNodeHour budget"
    using cost(1) by (intro mult_right_mono) (simp_all add: n)
  with a(2) show "of_int (cr_RecommendedNodes rec) * bc_CostPerNodeHour budget \<le> remaining budget status * (1 + 1 / 2 ^ 53)"
    by (rule order_trans [rotated])
qed (use recommended_in_season [OF assms(1,2) _ _ _ _ refl] recommended_without_season [OF assms(1,2) _ assms(3)]
    recommendation_kept(1,2) [OF assms(4,5)] in \<open>auto simp: assms(3)\<close>)

definition demo_budget :: BudgetConfig where
  "demo_budget = \<lparr>bc_DailyLimit = 100, bc_MonthlyLimit = 0, bc_AlertThreshold = 0, bc_HardCap = True, bc_CostPerNodeHour = 8\<rparr>"

lemma demo_status:
  "remaining demo_budget (CheckBudget UTC 0 0 demo_budget NewBudgetTracker) = 100"
  "\<not> bt_OverBudget (CheckBudget UTC 0 0 demo_budget NewBudgetTracker)"
  using double.of_int [of 100]
  by (simp_all add: demo_budget_def remaining_def CheckBudget_def Let_def GetDailySpend_def GetMonthlySpend_def spent_def NewBudgetTracker_def
      minus_f_def)

theorem capacity_within_limits_witness:
  "\<exists>base rec. base = RecommendCapacity (\<lambda>d. []) UTC (2 * hour) (2 * hour) (1 / 2) demo_learned \<and> 1 \<le> cr_RecommendedNodes base \<and>
     of_int (cr_CurrentNodes base) \<le> of_int (cr_RecommendedNodes base + 1) * (1 / 2 :: real) \<and>
     RecommendCapacityWithBudget UTC 0 0 demo_budget NewBudgetTracker (Inr base) = Inr rec \<and>
     of_int (cr_RecommendedNodes rec) * 8 \<le> (100 :: real) * (1 + 1 / 2 ^ 53)"
proof -
  let ?base = "RecommendCapacity (\<lambda>d. []) UTC (2 * hour) (2 * hour) (1 / 2) demo_learned"
  have p: "plausible 10 (bs_history demo_learned)" and s: "bs_current demo_learned = None"
    by (simp_all add: demo_learned_def Learn_def NewBasicSeasonalScaler_def last_10000_def plausible_def demo_record_def)
  obtain rec where rec: "RecommendCapacityWithBudget UTC 0 0 demo_budget NewBudgetTracker (Inr ?base) = Inr rec"
    using budget_no_error by blast
  have cost: "bc_CostPerNodeHour demo_budget = 8" "bc_HardCap demo_budget" "rnd 8 = 8"
    using double.of_int [of 8] by (simp_all add: demo_budget_def)
  have "1 \<le> cr_RecommendedNodes ?base" "of_int (cr_CurrentNodes ?base) \<le> of_int (cr_RecommendedNodes ?base + 1) * (1 / 2 :: real)"
    "of_int (cr_RecommendedNodes rec) * 8 \<le> (100 :: real) * (1 + 1 / 2 ^ 53)"
    using capacity_within_limits [OF p _ refl rec refl] by (simp_all add: s demo_status cost)
  then show ?thesis using rec by blast
qed

section \<open>Spending\<close>

text \<open>What was spent on a day, or in a month, is what was recorded on it, added up in order.\<close>

lemma spends_accounted:
  assumes "b = foldl (\<lambda>b (t, amount). RecordSpend loc t amount b) NewBudgetTracker spends"
  shows "GetDailySpend loc now b = foldl add 0 (map snd (filter (\<lambda>(t, a). day_key (day_number loc t) = day_key (day_number loc now)) spends))"
    and "GetMonthlySpend loc now b = foldl add 0 (map snd (filter (\<lambda>(t, a). month_key (day_number loc t) = month_key (day_number loc now)) spends))"
  using assms
  by (induction spends arbitrary: b rule: rev_induct)
    (auto simp: GetDailySpend_def GetMonthlySpend_def NewBudgetTracker_def RecordSpend_def Let_def spent_def gomap_simps split: prod.splits)

section \<open>Behaviours worth knowing\<close>

text \<open>The hard cap is not applied when not even one node is affordable: the recommendation stands.\<close>

lemma hard_cap_lost:
  assumes "\<not> bt_OverBudget (CheckBudget loc t t' budget b)" "CalculateMaxAffordableNodes loc t t' budget 1 b \<le> 0"
  shows "RecommendCapacityWithBudget loc t t' budget b (Inr base) = Inr base"
  using assms by (simp add: RecommendCapacityWithBudget_def Let_def)

text \<open>With a monthly limit only, the day's limit of 0 leaves nothing, so the hard cap is never applied before the month is used up.\<close>

lemma monthly_limit_alone_lost:
  assumes "bc_DailyLimit budget = 0" "0 \<le> GetDailySpend loc t b"
  shows "CalculateMaxAffordableNodes loc t t' budget h b = 0"
proof -
  have "minus_f 0 (GetDailySpend loc t b) \<le> 0" using double.mono [of "- GetDailySpend loc t b" 0] assms(2) by (simp add: minus_f_def)
  then show ?thesis using assms(1) by (simp add: CalculateMaxAffordableNodes_def CheckBudget_def Let_def)
qed

text \<open>A budget that is used up also keeps nodes that are no longer needed.\<close>

lemma over_budget_keeps_nodes:
  assumes "bc_HardCap budget" "bt_OverBudget (CheckBudget loc t t' budget b)" "cr_RecommendedNodes base < cr_CurrentNodes base"
  shows "\<exists>rec. RecommendCapacityWithBudget loc t t' budget b (Inr base) = Inr rec \<and> cr_RecommendedNodes base < cr_RecommendedNodes rec"
  using assms by (simp add: RecommendCapacityWithBudget_def Let_def)

text \<open>A target utilisation of 0 on an idle cluster: 0 divided by 0, which no limit of a season catches.\<close>

lemma zero_target_least_int:
  assumes "bs_history s = []"
  shows "cr_RecommendedNodes (RecommendCapacity dur loc now now' 0 s) = - (2 ^ 63)"
  using assms
  by (auto simp: RecommendCapacity_def wanted_capacity_def season_limits_def fdiv_def float_of_int_def scaler_Forecast_def hybrid_Forecast_def Let_def
      split: option.split)

text \<open>The quotient is cut, not rounded up: one machine at a target of 0.7 is given one node, which it uses more than that.\<close>

lemma capacity_cut:
  "cr_RecommendedNodes (RecommendCapacity dur loc now now' (lit (7 / 10)) (NewBasicSeasonalScaler None\<lparr>bs_history := [demo_record 0 1]\<rparr>)) = 1"
proof -
  let ?u = "lit (7 / 10)"
  have u: "69 / 100 \<le> ?u" "?u \<le> 71 / 100" using double.near [of "7 / 10" 1] by simp_all
  then have q: "1 \<le> 1 / ?u" "1 / ?u \<le> 3 / 2" by (simp_all add: field_simps)
  then have r: "1 \<le> rnd (1 / ?u)" "rnd (1 / ?u) \<le> 3 / 2" using double.mono [OF q(1)] double.mono [OF q(2)] double.of_int [of 1] lit_halves by simp_all
  then have "\<lfloor>rnd (1 / ?u)\<rfloor> = 1" by (simp add: floor_eq_iff)
  moreover have "fdiv (float_of_int 1) ?u = Finite (rnd (1 / ?u))" using fdiv_target [of 1 ?u] u by (simp add: float_of_int_exact)
  ultimately show ?thesis
    using r trunc_small [of "rnd (1 / ?u)"]
    by (simp add: RecommendCapacity_def wanted_capacity_def NewBasicSeasonalScaler_def demo_record_def Let_def del: f_to_int.simps)
qed

end
