(* ===== verification/Backtest.thy ===== *)
theory Backtest
  imports Demand
begin

text \<open>
  The evaluation of forecasts on recorded usage (\<open>src/pkg/persephone/evaluator\<close>): the backtest
  (\<open>backtest.go\<close>), its report (\<open>report.go\<close>) and the error metrics (\<open>metrics.go\<close>).

  The store is asked once and is an argument, as is \<open>sort.Slice\<close>. The loop over the window moves by
  the step it is given, which nothing checks: it is a partial function, undefined where the code does
  not return.
\<close>

section \<open>Metrics\<close>

record MetricResult =
  mr_MAE :: real
  mr_RMSE :: real
  mr_MAPE :: real
  mr_Coverage :: real

definition zero_MetricResult :: MetricResult where
  "zero_MetricResult = \<lparr>mr_MAE = 0, mr_RMSE = 0, mr_MAPE = 0, mr_Coverage = 0\<rparr>"

text \<open>The sums of the loop: absolute, squared and relative errors, and the actual values within bounds.\<close>

record metric_sums =
  ms_abs :: real
  ms_sq :: real
  ms_pct :: real
  ms_covered :: nat

definition within_bounds :: "real list \<Rightarrow> real list \<Rightarrow> nat \<Rightarrow> real \<Rightarrow> bool" where
  "within_bounds lowerBounds upperBounds i act \<longleftrightarrow>
     i < length lowerBounds \<and> i < length upperBounds \<and> lowerBounds ! i \<le> act \<and> act \<le> upperBounds ! i"

definition metric_step :: "real list \<Rightarrow> real list \<Rightarrow> real list \<Rightarrow> real list \<Rightarrow> metric_sums \<Rightarrow> nat \<Rightarrow> metric_sums" where
  "metric_step predictions actuals lowerBounds upperBounds m i =
     (let act = actuals ! i; err = minus_f act (predictions ! i); absErr = \<bar>err\<bar>
      in \<lparr>ms_abs = add (ms_abs m) absErr, ms_sq = add (ms_sq m) (mul err err),
          ms_pct = (if act \<noteq> 0 then add (ms_pct m) (div_f absErr act) else ms_pct m),
          ms_covered = (if within_bounds lowerBounds upperBounds i act then Suc (ms_covered m) else ms_covered m)\<rparr>)"

definition CalculateMetrics :: "real list \<Rightarrow> real list \<Rightarrow> real list \<Rightarrow> real list \<Rightarrow> MetricResult" where
  "CalculateMetrics predictions actuals lowerBounds upperBounds =
     (if length predictions \<noteq> length actuals \<or> predictions = [] then zero_MetricResult
      else let n = float_of_int (int (length predictions));
               m = foldl (metric_step predictions actuals lowerBounds upperBounds)
                     \<lparr>ms_abs = 0, ms_sq = 0, ms_pct = 0, ms_covered = 0\<rparr> [0..<length predictions]
           in \<lparr>mr_MAE = div_f (ms_abs m) n, mr_RMSE = math_Sqrt (div_f (ms_sq m) n), mr_MAPE = mul (div_f (ms_pct m) n) 100,
               mr_Coverage = (if lowerBounds \<noteq> [] then mul (div_f (float_of_int (int (ms_covered m))) n) 100 else 0)\<rparr>)"

section \<open>The backtest\<close>

record EvaluationReport =
  er_WindowStart :: go_time
  er_WindowEnd :: go_time
  er_OverallMetrics :: MetricResult
  er_Timestamps :: "go_time list"
  er_Actuals :: "int list"
  er_Predictions :: "Prediction list"

definition extractRange :: "UsageRecord list \<Rightarrow> go_time \<Rightarrow> go_time \<Rightarrow> UsageRecord list" where
  "extractRange records start end = filter (\<lambda>r. start \<le> ur_Timestamp r \<and> ur_Timestamp r < end) records"

text \<open>\<open>Truncate\<close> rounds down to a multiple since the zero time.\<close>

definition truncate_minute :: "go_time \<Rightarrow> go_time" where
  "truncate_minute t = t - t mod minute"

definition findRecord :: "UsageRecord list \<Rightarrow> go_time \<Rightarrow> UsageRecord option" where
  "findRecord records t = List.find (\<lambda>r. truncate_minute (ur_Timestamp r) = truncate_minute t) records"

definition match_predictions :: "UsageRecord list \<Rightarrow> Prediction list \<Rightarrow> (Prediction \<times> UsageRecord) list" where
  "match_predictions records ps =
     concat (map (\<lambda>p. case findRecord records (pr_Time p) of None \<Rightarrow> [] | Some actual \<Rightarrow> [(p, actual)]) ps)"

definition backtest_step ::
    "location \<Rightarrow> go_time \<Rightarrow> UsageRecord list \<Rightarrow> duration \<Rightarrow> duration \<Rightarrow> go_time \<Rightarrow> HybridForecaster \<times> (Prediction \<times> UsageRecord) list
     \<Rightarrow> HybridForecaster \<times> (Prediction \<times> UsageRecord) list" where
  "backtest_step loc now records trainWindow stepSize current = (\<lambda>(f, rows).
     let trainingData = extractRange records (current - trainWindow) current
     in case hybrid_Forecast loc now trainingData current stepSize (15 * minute) (hybrid_Train loc trainingData f) of
          (forecast, f') \<Rightarrow> (f', rows @ match_predictions records (fo_Predictions forecast)))"

partial_function (option) backtest_loop ::
    "location \<Rightarrow> go_time \<Rightarrow> UsageRecord list \<Rightarrow> duration \<Rightarrow> duration \<Rightarrow> go_time \<Rightarrow> go_time \<Rightarrow> HybridForecaster \<times> (Prediction \<times> UsageRecord) list
     \<Rightarrow> (HybridForecaster \<times> (Prediction \<times> UsageRecord) list) option" where
  "backtest_loop loc now records trainWindow stepSize end current st =
     (if current < end
      then backtest_loop loc now records trainWindow stepSize end (current + stepSize) (backtest_step loc now records trainWindow stepSize current st)
      else Some st)"

definition report_of :: "go_time \<Rightarrow> go_time \<Rightarrow> (Prediction \<times> UsageRecord) list \<Rightarrow> EvaluationReport" where
  "report_of start end rows =
     \<lparr>er_WindowStart = start, er_WindowEnd = end,
      er_OverallMetrics = CalculateMetrics (map (\<lambda>(p, r). float_of_int (pr_PredictedDemand p)) rows) (map (\<lambda>(p, r). float_of_int (ur_ActiveVMs r)) rows)
        (map (\<lambda>(p, r). float_of_int (pr_LowerBound p)) rows) (map (\<lambda>(p, r). float_of_int (pr_UpperBound p)) rows),
      er_Timestamps = map (\<lambda>(p, r). pr_Time p) rows, er_Actuals = map (\<lambda>(p, r). ur_ActiveVMs r) rows, er_Predictions = map fst rows\<rparr>"

definition Backtester_Run ::
    "(go_time \<Rightarrow> go_time \<Rightarrow> string + UsageRecord list) \<Rightarrow> (UsageRecord list \<Rightarrow> UsageRecord list) \<Rightarrow> location \<Rightarrow> go_time \<Rightarrow> go_time \<Rightarrow> go_time
     \<Rightarrow> duration \<Rightarrow> duration \<Rightarrow> (string + EvaluationReport) option" where
  "Backtester_Run load sortSlice loc now start end trainWindow stepSize =
     (case load (start - trainWindow) end of
        Inl err \<Rightarrow> Some (Inl (''failed to load history: '' @ err))
      | Inr loaded \<Rightarrow>
          (case backtest_loop loc now (sortSlice loaded) trainWindow stepSize end start (NewHybridForecaster, []) of
             None \<Rightarrow> None
           | Some (f, rows) \<Rightarrow> Some (Inr (report_of start end rows))))"

section \<open>A forecast depends on its training data only\<close>

lemma smoother_eq: "es_alpha p = es_alpha q \<Longrightarrow> (p :: ExponentialSmoothingPredictor)\<lparr>es_level := x\<rparr> = q\<lparr>es_level := x\<rparr>"
  by (cases p; cases q) simp

lemma smooth_Train_alpha: "es_alpha (smooth_Train history p) = es_alpha p"
proof -
  have "es_alpha (foldl (\<lambda>q r. smooth_Update (demand_of r) q) q rs) = es_alpha q" for q rs
    by (induction rs arbitrary: q) (simp_all add: smooth_Update_def)
  then show ?thesis by (simp add: smooth_Train_def split: list.split)
qed

lemma hybrid_Train_fresh:
  assumes "history \<noteq> []" "es_alpha (hf_smoothing f) = es_alpha (hf_smoothing g)"
  shows "hybrid_Train loc history f = hybrid_Train loc history g"
proof -
  have "smooth_Train history (hf_smoothing f) = smooth_Train history (hf_smoothing g)"
    using assms by (cases history) (simp_all add: smooth_Train_def smoother_eq [OF assms(2)])
  then show ?thesis using assms(1) by (cases f; cases g) (simp add: hybrid_Train_def AnalyzePatterns_def Let_def)
qed

lemma hybrid_Train_alpha [simp]: "es_alpha (hf_smoothing (hybrid_Train loc history f)) = es_alpha (hf_smoothing f)"
  by (simp add: hybrid_Train_def smooth_Train_alpha)

lemma hybrid_Forecast_fresh:
  assumes "es_alpha (hf_smoothing f) = es_alpha (hf_smoothing g)"
  shows "fst (hybrid_Forecast loc now history start window step f) = fst (hybrid_Forecast loc now history start window step g)"
    and "es_alpha (hf_smoothing (snd (hybrid_Forecast loc now history start window step f))) = es_alpha (hf_smoothing f)"
proof -
  show "fst (hybrid_Forecast loc now history start window step f) = fst (hybrid_Forecast loc now history start window step g)"
    by (cases "history = []") (simp_all add: hybrid_Forecast_def hybrid_Train_fresh [OF _ assms] Let_def)
  show "es_alpha (hf_smoothing (snd (hybrid_Forecast loc now history start window step f))) = es_alpha (hf_smoothing f)"
    by (cases "history = []") (simp_all add: hybrid_Forecast_def Let_def split: prod.split)
qed

section \<open>The backtest ends, and is honest\<close>

text \<open>The prediction a fresh forecaster makes from the records of the training window before \<open>current\<close>.\<close>

definition predicted_before :: "location \<Rightarrow> go_time \<Rightarrow> UsageRecord list \<Rightarrow> duration \<Rightarrow> duration \<Rightarrow> go_time \<Rightarrow> Prediction \<Rightarrow> bool" where
  "predicted_before loc now records trainWindow stepSize current p \<longleftrightarrow> current \<le> pr_Time p \<and> pr_Time p < current + stepSize \<and>
     p \<in> set (fo_Predictions (fst (hybrid_Forecast loc now
       (filter (\<lambda>r. current - trainWindow \<le> ur_Timestamp r \<and> ur_Timestamp r < current) records) current stepSize (15 * minute)
       NewHybridForecaster)))"

definition honest_row :: "location \<Rightarrow> go_time \<Rightarrow> UsageRecord list \<Rightarrow> duration \<Rightarrow> duration \<Rightarrow> go_time \<Rightarrow> go_time \<Rightarrow> Prediction \<times> UsageRecord \<Rightarrow> bool" where
  "honest_row loc now records trainWindow stepSize start end = (\<lambda>(p, r).
     r \<in> set records \<and> truncate_minute (ur_Timestamp r) = truncate_minute (pr_Time p) \<and>
     (\<exists>current. start \<le> current \<and> current < end \<and> predicted_before loc now records trainWindow stepSize current p))"

lemma forecast_times_within:
  assumes "p \<in> set (fo_Predictions (fst (hybrid_Forecast loc now history start window step f)))" "0 < step" "0 < window"
  shows "start \<le> pr_Time p \<and> pr_Time p < start + window"
proof -
  have "history \<noteq> []" using assms(1) by (auto simp: hybrid_Forecast_def)
  from hybrid_Forecast_times [OF this] assms(1) obtain i where i: "pr_Time p = start + int i * step" "i < nat (go_div window step)"
    by (metis (no_types, lifting) atLeast_upt image_eqI imageE lessThan_iff set_map)
  then have "int i + 1 \<le> window div step" using assms(2,3) by (simp add: go_div_nonneg)
  then have "(int i + 1) * step \<le> window div step * step" using assms(2) by (intro mult_right_mono) auto
  also have "\<dots> \<le> window" using assms(2) by (simp add: minus_mod_eq_div_mult [symmetric])
  finally show ?thesis using i(1) assms(2) by (simp add: algebra_simps)
qed

lemma matched: "(p, r) \<in> set (match_predictions records ps) \<Longrightarrow>
    p \<in> set ps \<and> r \<in> set records \<and> truncate_minute (ur_Timestamp r) = truncate_minute (pr_Time p)"
  by (auto simp: match_predictions_def findRecord_def find_Some_iff2 split: option.splits)

lemma backtest_step_honest:
  assumes "es_alpha (hf_smoothing f) = lit (3 / 10)" "list_all (honest_row loc now records tw step start end) rows"
    and "start \<le> current" "current < end" "0 < step" "backtest_step loc now records tw step current (f, rows) = (f', rows')"
  shows "es_alpha (hf_smoothing f') = lit (3 / 10) \<and> list_all (honest_row loc now records tw step start end) rows'"
proof -
  let ?data = "extractRange records (current - tw) current"
  let ?forecast = "hybrid_Forecast loc now ?data current step (15 * minute)"
  have past: "?data = filter (\<lambda>r. current - tw \<le> ur_Timestamp r \<and> ur_Timestamp r < current) records" by (simp add: extractRange_def)
  have fresh: "fst (?forecast (hybrid_Train loc ?data f)) = fst (?forecast NewHybridForecaster)"
    by (rule hybrid_Forecast_fresh(1)) (simp add: assms(1) new_forecaster)
  have row: "honest_row loc now records tw step start end x" if "x \<in> set (match_predictions records (fo_Predictions (fst (?forecast NewHybridForecaster))))" for x
    using matched [of "fst x" "snd x"] that forecast_times_within [where window = step and step = "15 * minute"] assms(3-5)
    by (fastforce simp: honest_row_def predicted_before_def past split: prod.split)
  show ?thesis
    using assms(1,2,6) fresh row hybrid_Forecast_fresh(2) [OF refl, of loc now ?data current step "15 * minute" "hybrid_Train loc ?data f"]
    by (auto simp: backtest_step_def Let_def list_all_iff split: prod.splits)
qed

lemma backtest_loop_honest:
  assumes "es_alpha (hf_smoothing f) = lit (3 / 10)" "list_all (honest_row loc now records tw step start end) rows" "start \<le> current" "0 < step"
  shows "\<exists>f' rows'. backtest_loop loc now records tw step end current (f, rows) = Some (f', rows') \<and>
    list_all (honest_row loc now records tw step start end) rows'"
  using assms
proof (induction "nat (end - current)" arbitrary: current f rows rule: less_induct)
  case less
  show ?case
  proof (cases "current < end")
    case True
    obtain f1 rows1 where s: "backtest_step loc now records tw step current (f, rows) = (f1, rows1)" by fastforce
    note b = backtest_step_honest [OF less.prems(1-3) True less.prems(4) s]
    have "nat (end - (current + step)) < nat (end - current)" using True less.prems(4) by simp
    from less.hyps [OF this, of f1 rows1] b less.prems(3,4) show ?thesis
      using True by (simp add: backtest_loop.simps [of _ _ _ _ _ _ current] s)
  next
    case False
    then show ?thesis using less.prems(2) by (simp add: backtest_loop.simps)
  qed
qed

lemma covered_le: "ms_covered (foldl (metric_step ps as ls us) m js) \<le> ms_covered m + length js"
proof (induction js arbitrary: m)
  case (Cons i js)
  have "ms_covered (metric_step ps as ls us m i) \<le> Suc (ms_covered m)" by (simp add: metric_step_def Let_def)
  then show ?case using Cons.IH [of "metric_step ps as ls us m i"] by simp
qed simp

lemma coverage_percentage: "0 \<le> mr_Coverage (CalculateMetrics ps as ls us) \<and> mr_Coverage (CalculateMetrics ps as ls us) \<le> 100"
proof -
  have share: "0 \<le> mul (div_f (float_of_int (int c)) (float_of_int (int n))) 100 \<and>
      mul (div_f (float_of_int (int c)) (float_of_int (int n))) 100 \<le> 100" if "c \<le> n" "0 < n" for c n
  proof -
    have "1 \<le> float_of_int (int n)" unfolding float_of_int_def using double.ge_int [of 1 "of_int (int n)"] that(2) by simp
    moreover have "float_of_int (int c) \<le> float_of_int (int n)" "0 \<le> float_of_int (int c)"
      using that(1) by (simp_all add: float_of_int_def double.mono double.nonneg)
    ultimately have q: "0 \<le> div_f (float_of_int (int c)) (float_of_int (int n))" "div_f (float_of_int (int c)) (float_of_int (int n)) \<le> 1"
      unfolding div_f_def using double.le_int [of _ 1] by (auto intro: double.nonneg)
    then have "mul (div_f (float_of_int (int c)) (float_of_int (int n))) 100 \<le> of_int 100" unfolding mul_def by (intro double.le_int) auto
    then show ?thesis using q by simp
  qed
  show ?thesis
    using share [OF covered_le [where m = "\<lparr>ms_abs = 0, ms_sq = 0, ms_pct = 0, ms_covered = 0\<rparr>" and js = "[0..<length ps]", simplified]]
    by (auto simp: CalculateMetrics_def zero_MetricResult_def Let_def)
qed

text \<open>
  C40: A backtest ends and does not look ahead. With a positive step it returns a report; each
  prediction in it is the one that a fresh forecaster makes from the records of the training window that
  lie before a time in the tested window, for a time from then on within the step; it is compared with
  a record of the same minute; and the coverage is a percentage.
\<close>

theorem backtest_honest:
  assumes "0 < stepSize" "sort_slice earlier sortSlice" "load (start - trainWindow) end = Inr loaded"
  shows "\<exists>report. Backtester_Run load sortSlice loc now start end trainWindow stepSize = Some (Inr report) \<and>
    list_all (\<lambda>p. \<exists>current. start \<le> current \<and> current < end \<and> predicted_before loc now (sortSlice loaded) trainWindow stepSize current p)
      (er_Predictions report) \<and>
    list_all2 (\<lambda>p vms. \<exists>r. r \<in> set loaded \<and> ur_ActiveVMs r = vms \<and> truncate_minute (ur_Timestamp r) = truncate_minute (pr_Time p))
      (er_Predictions report) (er_Actuals report) \<and>
    er_Timestamps report = map pr_Time (er_Predictions report) \<and>
    0 \<le> mr_Coverage (er_OverallMetrics report) \<and> mr_Coverage (er_OverallMetrics report) \<le> 100"
proof -
  have "es_alpha (hf_smoothing NewHybridForecaster) = lit (3 / 10)" by (rule new_forecaster)
  from backtest_loop_honest [OF this _ order_refl assms(1), of loc now "sortSlice loaded" trainWindow start "end" "[]"]
  obtain f rows where l: "backtest_loop loc now (sortSlice loaded) trainWindow stepSize end start (NewHybridForecaster, []) = Some (f, rows)"
      "list_all (honest_row loc now (sortSlice loaded) trainWindow stepSize start end) rows"
    by auto
  have "Backtester_Run load sortSlice loc now start end trainWindow stepSize = Some (Inr (report_of start end rows))"
    by (simp add: Backtester_Run_def assms(3) l(1))
  moreover have "set (sortSlice loaded) = set loaded" using assms(2) by (rule sort_slice.set_srt)
  then have row: "(\<exists>current. start \<le> current \<and> current < end \<and> predicted_before loc now (sortSlice loaded) trainWindow stepSize current p) \<and>
      r \<in> set loaded \<and> truncate_minute (ur_Timestamp r) = truncate_minute (pr_Time p)" if "(p, r) \<in> set rows" for p r
    using l(2) that by (auto simp: list_all_iff honest_row_def)
  moreover have "list_all2 (\<lambda>p vms. \<exists>r. r \<in> set loaded \<and> ur_ActiveVMs r = vms \<and> truncate_minute (ur_Timestamp r) = truncate_minute (pr_Time p))
      (er_Predictions (report_of start end rows)) (er_Actuals (report_of start end rows))"
    using row by (fastforce simp: report_of_def list_all2_map1 list_all2_map2 list_all2_same)
  ultimately show ?thesis
    using coverage_percentage by (auto simp: report_of_def list_all_iff)
qed

theorem backtest_honest_witness:
  "\<exists>report. Backtester_Run (\<lambda>a b. Inr [demo_record 0 4, demo_record hour 10]) (insertion_sort earlier) UTC 0 hour (2 * hour) hour hour =
     Some (Inr report) \<and> 0 \<le> mr_Coverage (er_OverallMetrics report) \<and> mr_Coverage (er_OverallMetrics report) \<le> 100"
proof -
  have pos: "0 < hour" by code_simp
  have "sort_slice earlier (insertion_sort earlier)"
    using int_asc.sort_slice_axioms [of ur_Timestamp] unfolding earlier_def [abs_def] .
  from backtest_honest [OF pos this, of "\<lambda>a b. Inr [demo_record 0 4, demo_record hour 10]" hour hour "2 * hour" _ UTC 0]
  show ?thesis by blast
qed

text \<open>A step that is not positive: the loop never reaches the end of the window.\<close>

lemma endless_backtest:
  assumes "stepSize \<le> 0" "current < end"
  shows "backtest_loop loc now records trainWindow stepSize end current st = None"
proof (rule ccontr)
  assume "backtest_loop loc now records trainWindow stepSize end current st \<noteq> None"
  then obtain y where "backtest_loop loc now records trainWindow stepSize end current st = Some y" by auto
  then have "stepSize \<le> 0 \<longrightarrow> \<not> current < end"
    by (rule backtest_loop.raw_induct [where P = "\<lambda>loc now records tw step e c st y. step \<le> 0 \<longrightarrow> \<not> c < e", rotated])
      (fastforce split: if_splits)
  then show False using assms by blast
qed

end
