(* ===== verification/Settings.thy ===== *)
theory Settings
  imports Prelude
begin

text \<open>
  The configuration of the servers (\<open>src/pkg/config/config.go\<close>): the environment of a process, the
  functions that read a variable with a default, and the settings they make up.

  An environment is a map from names to values; a name that is set to the empty string differs from one
  that is not set, for \<open>os.LookupEnv\<close> though not for \<open>os.Getenv\<close>.
\<close>

section \<open>Reading variables\<close>

type_synonym environment = "(string, string) gomap"

definition Getenv :: "environment \<Rightarrow> string \<Rightarrow> string" where
  "Getenv env name = get_or [] env name"

definition getEnv :: "environment \<Rightarrow> string \<Rightarrow> string \<Rightarrow> string" where
  "getEnv env key fallback = (case get env key of Some v \<Rightarrow> v | None \<Rightarrow> fallback)"

text \<open>\<open>strconv.Atoi\<close>: an optional sign and at least one digit, within 64 bits.\<close>

definition Atoi :: "string \<Rightarrow> int option" where
  "Atoi s =
     (let digits = (if s \<noteq> [] \<and> hd s \<in> {CHR ''-'', CHR ''+''} then tl s else s);
          v = (if s \<noteq> [] \<and> hd s = CHR ''-'' then - int (dec_value digits) else int (dec_value digits))
      in if digits = [] \<or> \<not> list_all is_digit digits \<or> \<not> in_int64 v then None else Some v)"

definition GetEnvInt :: "environment \<Rightarrow> string \<Rightarrow> int \<Rightarrow> int" where
  "GetEnvInt env key fallback =
     (case get env key of
        Some v \<Rightarrow> (case Atoi v of Some i \<Rightarrow> i | None \<Rightarrow> fallback)
      | None \<Rightarrow> fallback)"

definition GetEnvBool :: "environment \<Rightarrow> string \<Rightarrow> bool \<Rightarrow> bool" where
  "GetEnvBool env key fallback =
     (case get env key of
        Some v \<Rightarrow> (let lowerValue = ToLower v in lowerValue = ''true'' \<or> lowerValue = ''1'' \<or> lowerValue = ''yes'')
      | None \<Rightarrow> fallback)"

section \<open>The settings\<close>

record Config =
  cf_Port :: string
  cf_Region :: string
  cf_SnapshotPath :: string
  cf_LogLevel :: string
  cf_SchedulerStrategy :: string
  cf_RedisAddress :: string
  cf_RedisDB :: int
  cf_RedisPass :: string
  cf_S3Endpoint :: string
  cf_S3Region :: string
  cf_S3Bucket :: string
  cf_S3AccessKey :: string
  cf_S3SecretKey :: string
  cf_AllowedNetworks :: "string list"
  cf_EnableHypnos :: bool
  cf_OIDCClientID :: string
  cf_OIDCIssuerURL :: string
  cf_RBACPolicyPath :: string
  cf_TLSCertFile :: string
  cf_TLSKeyFile :: string
  cf_TLSClientAuth :: string
  cf_TLSCAFile :: string
  cf_VaultAddress :: string
  cf_VaultToken :: string
  cf_VaultNamespace :: string
  cf_KMSRegion :: string
  cf_RuntimeType :: string
  cf_RuntimeAutoSelect :: bool
  cf_WasmEngine :: string
  cf_GVisorRunscPath :: string
  cf_InitBinaryPath :: string

definition config_Load :: "environment \<Rightarrow> Config" where
  "config_Load env =
     \<lparr>cf_Port = getEnv env ''PORT'' ''8080'',
      cf_Region = getEnv env ''REGION'' ''local'',
      cf_SnapshotPath = getEnv env ''SNAPSHOT_PATH'' ''/tmp/tartarus/snapshots'',
      cf_LogLevel = getEnv env ''LOG_LEVEL'' ''INFO'',
      cf_SchedulerStrategy = getEnv env ''SCHEDULER_STRATEGY'' ''least-loaded'',
      cf_RedisAddress = getEnv env ''REDIS_ADDR'' ''localhost:6379'',
      cf_RedisDB = GetEnvInt env ''REDIS_DB'' 0,
      cf_RedisPass = getEnv env ''REDIS_PASSWORD'' [],
      cf_S3Endpoint = getEnv env ''S3_ENDPOINT'' [],
      cf_S3Region = getEnv env ''S3_REGION'' ''us-east-1'',
      cf_S3Bucket = getEnv env ''S3_BUCKET'' ''tartarus-snapshots'',
      cf_S3AccessKey = getEnv env ''AWS_ACCESS_KEY_ID'' [],
      cf_S3SecretKey = getEnv env ''AWS_SECRET_ACCESS_KEY'' [],
      cf_AllowedNetworks = split_on CHR '','' (getEnv env ''ALLOWED_NETWORKS'' ''no-net,lockdown''),
      cf_EnableHypnos = GetEnvBool env ''ENABLE_HYPNOS'' True,
      cf_OIDCClientID = getEnv env ''OIDC_CLIENT_ID'' [],
      cf_OIDCIssuerURL = getEnv env ''OIDC_ISSUER_URL'' [],
      cf_RBACPolicyPath = getEnv env ''RBAC_POLICY_PATH'' [],
      cf_TLSCertFile = getEnv env ''TLS_CERT_FILE'' [],
      cf_TLSKeyFile = getEnv env ''TLS_KEY_FILE'' [],
      cf_TLSClientAuth = getEnv env ''TLS_CLIENT_AUTH'' ''none'',
      cf_TLSCAFile = getEnv env ''TLS_CA_FILE'' [],
      cf_VaultAddress = getEnv env ''VAULT_ADDR'' [],
      cf_VaultToken = getEnv env ''VAULT_TOKEN'' [],
      cf_VaultNamespace = getEnv env ''VAULT_NAMESPACE'' [],
      cf_KMSRegion = getEnv env ''AWS_REGION'' (getEnv env ''S3_REGION'' ''us-east-1''),
      cf_RuntimeType = getEnv env ''RUNTIME_TYPE'' ''firecracker'',
      cf_RuntimeAutoSelect = GetEnvBool env ''RUNTIME_AUTO_SELECT'' False,
      cf_WasmEngine = getEnv env ''WASM_ENGINE'' ''wazero'',
      cf_GVisorRunscPath = getEnv env ''GVISOR_RUNSC_PATH'' ''/usr/local/bin/runsc'',
      cf_InitBinaryPath = getEnv env ''INIT_BINARY_PATH'' ''init''\<rparr>"

section \<open>Facts about variables\<close>

lemma getEnv_set: "get env key = Some v \<Longrightarrow> getEnv env key fallback = v \<and> Getenv env key = v"
  by (simp add: getEnv_def Getenv_def get_or_def)

lemma getEnv_unset: "get env key = None \<Longrightarrow> getEnv env key fallback = fallback \<and> Getenv env key = []"
  by (simp add: getEnv_def Getenv_def get_or_def)

lemma getEnv_empty_iff: "getEnv env key fallback = [] \<longleftrightarrow> get env key = Some [] \<or> get env key = None \<and> fallback = []"
  by (auto simp: getEnv_def split: option.splits)

lemma getEnv_nonempty: "Getenv env key \<noteq> [] \<Longrightarrow> getEnv env key fallback = Getenv env key"
  by (auto simp: getEnv_def Getenv_def get_or_def split: option.splits)

text \<open>Numbers written in decimal are read back, and what is read fits 64 bits.\<close>

lemma Atoi_bounds: "Atoi s = Some v \<Longrightarrow> in_int64 v"
  by (auto simp: Atoi_def Let_def split: if_splits)

lemma itoa_all_digits: "itoa n \<noteq> [] \<and> list_all is_digit (itoa n)"
proof (induction n rule: itoa.induct)
  case (1 n)
  have digit: "is_digit (digit_char d)" if "d < 10" for d
    using that by (simp add: is_digit_def of_digit_char)
  show ?case
    using 1 digit by (cases "n < 10") (simp_all add: itoa.simps [of n])
qed

lemma Atoi_itoa:
  assumes "n < 2 ^ 63"
  shows "Atoi (itoa n) = Some (int n)" and "0 < n \<Longrightarrow> Atoi (CHR ''-'' # itoa n) = Some (- int n)"
proof -
  have sign: "\<not> is_digit CHR ''-''" "\<not> is_digit CHR ''+''" by (simp_all add: is_digit_def)
  obtain c cs where cs: "itoa n = c # cs" "is_digit c" using itoa_all_digits [of n] by (cases "itoa n") auto
  with sign have "hd (itoa n) \<noteq> CHR ''-''" "hd (itoa n) \<noteq> CHR ''+''" by auto
  moreover have "int n < 2 ^ 63" using assms by (metis of_nat_less_iff of_nat_numeral of_nat_power)
  then have "in_int64 (int n)" "in_int64 (- int n)" by (simp_all add: in_int64_def)
  ultimately show "Atoi (itoa n) = Some (int n)" "0 < n \<Longrightarrow> Atoi (CHR ''-'' # itoa n) = Some (- int n)"
    using itoa_all_digits [of n] by (simp_all add: Atoi_def Let_def dec_value_itoa)
qed

text \<open>A flag that is set to anything but \<open>true\<close>, \<open>1\<close> or \<open>yes\<close> is off, also one that is on by default.\<close>

lemma misspelt_flag_is_off: "\<not> GetEnvBool [(''ENABLE_HYPNOS'', ''on'')] ''ENABLE_HYPNOS'' True"
  by (simp add: GetEnvBool_def get_def ToLower_def lower_char_def Let_def)

text \<open>The networks are not trimmed: a blank after a comma is part of the name.\<close>

lemma blank_in_network:
  "cf_AllowedNetworks (config_Load [(''ALLOWED_NETWORKS'', ''lab, office'')]) = [''lab'', '' office'']"
  by (simp add: config_Load_def getEnv_def get_def)

end
