(* ===== verification/Proxy.thy ===== *)
theory Proxy
  imports Ferry Settings
begin

text \<open>
  The proxy in front of the API servers (\<open>src/cmd/charon-proxy/main.go\<close>) and the HTTP handlers around
  the load balancer (\<open>src/pkg/charon/middleware.go\<close>): how a configuration is found, how the server starts,
  and what a client is answered.

  The configuration file is what the file system and the JSON decoder make of it. An answer is what a
  handler has written when it returns; a handler that panics has none, as the HTTP server then drops the
  connection. Metrics are left out.
\<close>

section \<open>Configuration\<close>

record ProxyConfig =
  pc_ListenAddr :: string
  pc_Ferry :: "FerryConfig option"
  pc_Shores :: "Shore option list"

datatype config_file = NoFile | Unreadable string | Unparsable string | Parsed ProxyConfig

fun parse_env_loop :: "string \<Rightarrow> string \<Rightarrow> string list" where
  "parse_env_loop seen [] = [seen]"
| "parse_env_loop seen (c # cs) = (if c = CHR ''='' then [seen, cs] else parse_env_loop (seen @ [c]) cs)"

definition parseEnvVar :: "string \<Rightarrow> string list" where
  "parseEnvVar entry = parse_env_loop [] entry"

definition Environ :: "environment \<Rightarrow> string list" where
  "Environ env = map (\<lambda>(k, v). k @ ''='' @ v) env"

definition proxy_shore :: "string \<Rightarrow> string \<Rightarrow> Shore" where
  "proxy_shore shoreID address =
     \<lparr>sh_ID = shoreID, sh_Address = address, sh_Weight = 1, sh_Zone = [], sh_Priority = 0,
      sh_HealthCheck = Some DefaultHealthCheck, sh_Metadata = []\<rparr>"

definition env_shore :: "string \<Rightarrow> Shore list" where
  "env_shore entry =
     (if length entry > 13 \<and> take 13 entry = ''CHARON_SHORE_'' then
        (case parseEnvVar entry of
           [key, address] \<Rightarrow> [proxy_shore (drop 13 key) address]
         | _ \<Rightarrow> [])
      else [])"

definition env_shores :: "environment \<Rightarrow> Shore list" where
  "env_shores env =
     (case concat (map env_shore (Environ env)) of
        [] \<Rightarrow> [proxy_shore ''olympus-default'' (let a = Getenv env ''OLYMPUS_ADDR'' in if a = [] then ''http://localhost:8080'' else a)]
      | shores \<Rightarrow> shores)"

definition env_ferry :: "environment \<Rightarrow> FerryConfig" where
  "env_ferry env =
     (let redisAddr = Getenv env ''REDIS_ADDR''
      in if redisAddr \<noteq> []
         then DefaultFerryConfig\<lparr>fc_RateLimiting := (fc_RateLimiting DefaultFerryConfig)\<lparr>rlc_RedisAddr := redisAddr\<rparr>\<rparr>
         else DefaultFerryConfig)"

definition loadConfig :: "config_file \<Rightarrow> environment \<Rightarrow> string \<Rightarrow> string + ProxyConfig" where
  "loadConfig file env listenAddr =
     (case file of
        Unreadable err \<Rightarrow> Inl (''failed to read config file: '' @ err)
      | Unparsable err \<Rightarrow> Inl (''failed to parse config file: '' @ err)
      | Parsed config \<Rightarrow> Inr config
      | NoFile \<Rightarrow> Inr \<lparr>pc_ListenAddr = listenAddr, pc_Ferry = Some (env_ferry env), pc_Shores = map Some (env_shores env)\<rparr>)"

section \<open>The start of the server\<close>

datatype 'l proxy_start = ProxyExit string | ProxyPanic | Serving string "'l BoatFerry"

text \<open>A shore that is null in the file is refused, and the message about it reads its identifier.\<close>

fun register_shores :: "(string \<Rightarrow> string option) \<Rightarrow> string \<Rightarrow> Shore option list \<Rightarrow> 'l BoatFerry \<Rightarrow> 'l proxy_start" where
  "register_shores urlErr addr [] f = Serving addr f"
| "register_shores urlErr addr (s # ss) f =
     (case RegisterShore urlErr s f of
        (Some err, f1) \<Rightarrow> (case s of None \<Rightarrow> ProxyPanic | Some _ \<Rightarrow> ProxyExit (error_text err))
      | (None, f1) \<Rightarrow> register_shores urlErr addr ss f1)"

definition proxy_main :: "(string \<Rightarrow> string option) \<Rightarrow> config_file \<Rightarrow> environment \<Rightarrow> string \<Rightarrow> 'l proxy_start" where
  "proxy_main urlErr file env listenAddr =
     (case loadConfig file env listenAddr of
        Inl err \<Rightarrow> ProxyExit err
      | Inr config \<Rightarrow>
          (case pc_Ferry config of
             None \<Rightarrow> ProxyPanic
           | Some ferry \<Rightarrow> register_shores urlErr (pc_ListenAddr config) (pc_Shores config) (NewBoatFerry (Some ferry))))"

section \<open>Handlers\<close>

record answer =
  an_Status :: int
  an_Header :: "(string, string) gomap"
  an_Body :: string

definition http_Error :: "string \<Rightarrow> int \<Rightarrow> answer" where
  "http_Error message code =
     \<lparr>an_Status = code, an_Header = [(''Content-Type'', ''text/plain; charset=utf-8''), (''X-Content-Type-Options'', ''nosniff'')],
      an_Body = message @ [CHR 0x0A]\<rparr>"

definition error_answer :: "charon_error \<Rightarrow> answer" where
  "error_answer err = (case ToHTTPError err of CrossingError code message _ \<Rightarrow> http_Error message code | e \<Rightarrow> http_Error (error_text e) 500)"

text \<open>The request as the HTTP server hands it over: its context has none of the values the load balancer looks for.\<close>

definition no_values :: request_ctx where
  "no_values = \<lparr>rx_tenant_id = None, rx_remote_ip = None, rx_identity_id = None\<rparr>"

definition arriving :: "http_request \<Rightarrow> http_request" where
  "arriving req = req\<lparr>hq_ctx := no_values\<rparr>"

definition answer_with ::
    "(http_response \<Rightarrow> answer) \<Rightarrow> (fault + http_response) \<times> (string \<times> int) list \<times> 'l BoatFerry
     \<Rightarrow> answer option \<times> (string \<times> int) list \<times> 'l BoatFerry" where
  "answer_with ok crossed =
     (case crossed of
        (Inl GoPanic, fwd, f) \<Rightarrow> (None, fwd, f)
      | (Inl (GoError err), fwd, f) \<Rightarrow> (Some (error_answer err), fwd, f)
      | (Inr resp, fwd, f) \<Rightarrow> (Some (ok resp), fwd, f))"

text \<open>The handler of the proxy: it copies the headers and the status, and closes the body without reading it.\<close>

definition proxy_handle :: "'l cross_env \<Rightarrow> http_request \<Rightarrow> 'l BoatFerry \<Rightarrow> answer option \<times> (string \<times> int) list \<times> 'l BoatFerry" where
  "proxy_handle env req f =
     answer_with (\<lambda>resp. \<lparr>an_Status = rp_StatusCode resp, an_Header = rp_Header resp, an_Body = []\<rparr>) (Cross env (arriving req) f)"

text \<open>The handler of the middleware, which nothing in the repository installs.\<close>

definition ferry_context :: "http_request \<Rightarrow> request_ctx" where
  "ferry_context req =
     (let tenantID = get_or [] (hq_Header req) ''X-Tenant-ID''; identityID = get_or [] (hq_Header req) ''X-Identity-ID''
      in \<lparr>rx_tenant_id = (if tenantID \<noteq> [] then Some tenantID else None), rx_remote_ip = Some (hq_RemoteAddr req),
          rx_identity_id = (if identityID \<noteq> [] then Some identityID else None)\<rparr>)"

definition middleware_handle ::
    "'l cross_env \<Rightarrow> string \<Rightarrow> http_request \<Rightarrow> 'l BoatFerry \<Rightarrow> answer option \<times> (string \<times> int) list \<times> 'l BoatFerry" where
  "middleware_handle env duration req f =
     answer_with (\<lambda>resp. \<lparr>an_Status = rp_StatusCode resp, an_Header = put (rp_Header resp) ''X-Ferry-Duration'' duration, an_Body = []\<rparr>)
       (Cross env (req\<lparr>hq_ctx := ferry_context req\<rparr>) f)"

text \<open>The health report: status code, and the fields of the document.\<close>

datatype health_answer = HealthPanic | HealthFailed answer | HealthReport int HealthStatus nat int

definition HealthHandler :: "'l BoatFerry \<Rightarrow> health_answer" where
  "HealthHandler f =
     (case ferry_Health f of
        Inl GoPanic \<Rightarrow> HealthPanic
      | Inl (GoError _) \<Rightarrow> HealthFailed (http_Error ''Health check failed'' 500)
      | Inr health \<Rightarrow>
          HealthReport (case fh_Status health of HealthStatusUnhealthy \<Rightarrow> 503 | HealthStatusDegraded \<Rightarrow> 200 | HealthStatusHealthy \<Rightarrow> 200)
            (fh_Status health) (length (fh_Shores health)) (fh_OpenBreakers health))"

section \<open>Reading the environment\<close>

lemma parse_env_loop_split: "CHR ''='' \<notin> set k \<Longrightarrow> parse_env_loop seen (k @ CHR ''='' # v) = [seen @ k, v]"
  by (induction k arbitrary: seen) auto

lemma parseEnvVar_entry: "CHR ''='' \<notin> set k \<Longrightarrow> parseEnvVar (k @ ''='' @ v) = [k, v]"
  by (simp add: parseEnvVar_def parse_env_loop_split)

text \<open>A variable gives the shore it is written for, and no other variable gives one.\<close>

lemma env_shore_entry:
  assumes "CHR ''='' \<notin> set k"
  shows "env_shore (k @ ''='' @ v) = (if prefix ''CHARON_SHORE_'' k then [proxy_shore (drop 13 k) v] else [])"
proof -
  have "take 13 (k @ ''='' @ v) = ''CHARON_SHORE_'' \<longleftrightarrow> prefix ''CHARON_SHORE_'' k"
  proof
    assume t: "take 13 (k @ ''='' @ v) = ''CHARON_SHORE_''"
    have "13 \<le> length k"
    proof (rule ccontr)
      assume "\<not> 13 \<le> length k"
      then have "CHR ''='' \<in> set (take 13 (k @ ''='' @ v))" by (simp add: take_Cons')
      then show False unfolding t by simp
    qed
    with t show "prefix ''CHARON_SHORE_'' k" by (metis append_eq_conv_conj take_append take_is_prefix diff_is_0_eq' take0 append_Nil2)
  next
    assume "prefix ''CHARON_SHORE_'' k"
    then show "take 13 (k @ ''='' @ v) = ''CHARON_SHORE_''" by (auto elim!: prefixE)
  qed
  moreover have "length (k @ ''='' @ v) > 13" if "prefix ''CHARON_SHORE_'' k"
    using prefix_length_le [OF that] by simp
  ultimately show ?thesis unfolding env_shore_def parseEnvVar_entry [OF assms] by auto
qed

lemma env_shores_ne: "env_shores env \<noteq> []"
  by (simp add: env_shores_def split: list.split)

section \<open>What a client is answered\<close>

lemma ToHTTPError_crossing: "\<exists>code message e. ToHTTPError err = CrossingError code message e"
  by (cases err) auto

text \<open>The errors of a crossing, and the status codes they have.\<close>

definition error_codes :: "int set" where "error_codes = {429, 500, 503}"

definition mild :: "charon_error \<Rightarrow> bool" where
  "mild err \<longleftrightarrow> (case ToHTTPError err of CrossingError code _ _ \<Rightarrow> code \<in> error_codes | _ \<Rightarrow> False)"

lemma mild_simps [simp]:
  "mild ErrNoHealthyShores" "mild ErrRateLimitExceeded" "mild (BreakerOpenFor i)" "mild (RetryableStatus c)"
  "mild (AttemptsExhausted n)" "mild (ContextDone e)" "mild (ToHTTPError err) = mild err"
  "mild (CrossingError code message inner) \<longleftrightarrow> code = 429 \<or> code = 500 \<or> code = 503"
  by (simp_all add: mild_def error_codes_def)

lemma fallback_loop_mild: "fallback_loop now hc tried ss bs = (Inl (GoError err), bs') \<Longrightarrow> mild err"
  by (induction ss arbitrary: bs) (auto simp: Let_def split: if_splits option.splits prod.splits)

lemma next_shore_mild:
  assumes "next_shore env n tried lastErr f = (Inl (GoError err), f')" "\<And>e. lastErr = Some e \<Longrightarrow> mild e"
  shows "mild err"
  using assms
  by (auto simp: next_shore_def retryWithFallback_def dest: fallback_loop_mild split: option.splits prod.splits sum.splits fault.splits)

lemma cross_attempt_mild: "cross_attempt env n s f = (AttemptRetry err, fwd, f') \<Longrightarrow> mild err"
  by (auto simp: cross_attempt_def forwardRequest_def Let_def split: option.splits prod.splits if_splits)

lemma cross_loop_mild:
  assumes "cross_loop env n k s tried lastErr f = (Inl (GoError err), fwd, f')" "\<And>e. lastErr = Some e \<Longrightarrow> mild e"
  shows "mild err"
  using assms
proof (induction n arbitrary: k s tried lastErr f fwd f')
  case 0
  then show ?case by (auto split: option.splits)
next
  case (Suc n)
  consider (stop) f1 where "k > 0" "next_shore env k tried lastErr f = (Inl (GoError err), f1)"
    | (again) t g e w g1 v where "cross_attempt env k t g = (AttemptRetry e, w, g1)"
        "cross_loop env n (k + 1) t (sh_ID t # tried) (Some e) g1 = (Inl (GoError err), v, f')"
    using Suc.prems(1) by (auto split: if_splits prod.splits sum.splits attempt_outcome.splits)
  then show ?case
  proof cases
    case stop
    then show ?thesis using next_shore_mild Suc.prems(2) by blast
  next
    case again
    then show ?thesis using Suc.IH cross_attempt_mild by blast
  qed
qed

lemma least_conn_loop_error: "least_conn_loop conns ss m sel \<noteq> Inl (GoError err)"
  by (induction conns ss m sel rule: least_conn_loop.induct) (auto split: option.splits)

lemma selectShore_mild: "selectShore env req f = (Inl (GoError err), f') \<Longrightarrow> mild err"
  by (auto simp: selectShore_def selectLeastConn_def least_conn_loop_error selectWeighted_def Let_def
      split: prod.splits if_splits option.splits)

lemma rate_limit_mild: "rate_limit env req f = (Some err, f') \<Longrightarrow> mild err"
  by (auto simp: rate_limit_def TokenBucket_Allow_def Let_def split: option.splits prod.splits if_splits)

lemma Cross_mild: "Cross env req f = (Inl (GoError err), fwd, f') \<Longrightarrow> mild err"
  by (auto simp: Cross_def split: option.splits prod.splits sum.splits fault.splits
      dest: rate_limit_mild selectShore_mild cross_loop_mild)

lemma error_answer_mild: "mild err \<Longrightarrow> an_Status (error_answer err) \<in> error_codes"
  using ToHTTPError_crossing [of err] by (auto simp: mild_def error_answer_def http_Error_def)

section \<open>The server\<close>

lemma register_shores_serving:
  assumes "register_shores urlErr addr ss f = Serving addr' f'" "ferry_reachable cfg f"
  shows "ferry_reachable cfg f' \<and> addr' = addr \<and> bf_config f' = bf_config f \<and>
    map Some (bf_shores f') = map Some (bf_shores f) @ map (map_option with_defaults) ss"
  using assms
proof (induction ss arbitrary: f)
  case (Cons s ss)
  then obtain f1 where f1: "RegisterShore urlErr s f = (None, f1)" "register_shores urlErr addr ss f1 = Serving addr' f'"
    by (auto split: prod.splits option.splits)
  have "ferry_reachable cfg f1" using ferry_register [OF Cons.prems(2), of urlErr s] f1(1) by simp
  note IH = Cons.IH [OF f1(2) this]
  moreover obtain s0 where "s = Some s0" "f1 = enlist (with_defaults s0) f"
    using f1(1) by (auto simp: RegisterShore_def Let_def split: option.splits if_splits)
  ultimately show ?case by simp
qed simp

text \<open>
  A proxy that has started serves. It has exactly the configured shores, in their order and with their
  defaults, and no two with the same identifier. Whatever has happened to its load balancer since, every
  request is answered: with the status and the headers of the last shore it was forwarded to, which is a
  healthy one, or with 429, 500 or 503 when it reached none that gave an answer that is not to be retried.
  A health report is always made.
\<close>

theorem proxy_serves:
  assumes "proxy_main urlErr file env listenAddr = Serving addr f0"
    and "ferry_reachable (Some (bf_config f0)) f" "selection_safe cenv f"
  shows "(\<exists>config. loadConfig file env listenAddr = Inr config \<and> addr = pc_ListenAddr config \<and> pc_Ferry config = Some (bf_config f0) \<and>
      map Some (bf_shores f0) = map (map_option with_defaults) (pc_Shores config)) \<and>
    distinct (map sh_ID (bf_shores f0)) \<and> ferry_reachable (Some (bf_config f0)) f0 \<and>
    (\<exists>a fwd f'. proxy_handle cenv req f = (Some a, fwd, f') \<and>
      (an_Status a \<in> error_codes \<or>
       fwd \<noteq> [] \<and> an_Status a = snd (last fwd) \<and> fst (last fwd) \<in> healthy_ids f \<and> an_Status a \<notin> retry_codes f)) \<and>
    HealthHandler f \<noteq> HealthPanic"
proof -
  obtain config cfg where c: "loadConfig file env listenAddr = Inr config" "pc_Ferry config = Some cfg"
      "register_shores urlErr (pc_ListenAddr config) (pc_Shores config) (NewBoatFerry (Some cfg)) = Serving addr f0"
    using assms(1) by (auto simp: proxy_main_def split: sum.splits option.splits)
  note r = register_shores_serving [OF c(3) ferry_new, simplified]
  have ok: "ferry_ok f" "ferry_ok f0" using assms(2) r by (auto intro: ferry_reachable_ok)
  obtain res fwd f' where x: "Cross cenv (arriving req) f = (res, fwd, f')" by (cases "Cross cenv (arriving req) f")
  note k = Cross_ok [OF ok(1) assms(3) x]
  have "\<exists>a. proxy_handle cenv req f = (Some a, fwd, f') \<and> (an_Status a \<in> error_codes \<or>
      fwd \<noteq> [] \<and> an_Status a = snd (last fwd) \<and> fst (last fwd) \<in> healthy_ids f \<and> an_Status a \<notin> retry_codes f)"
  proof (cases res)
    case (Inl e)
    then obtain err where "res = Inl (GoError err)" using k by (cases e) auto
    then show ?thesis using x Cross_mild [of cenv _ f err] by (simp add: proxy_handle_def answer_with_def error_answer_mild)
  next
    case (Inr resp)
    then show ?thesis using x k by (auto simp: proxy_handle_def answer_with_def log_ok_def dest: last_in_set)
  qed
  moreover have "HealthHandler f \<noteq> HealthPanic"
    using ferry_Health_ok [OF ok(1)] by (auto simp: HealthHandler_def split: sum.split fault.split)
  ultimately show ?thesis using c r ok(2) by (auto simp: ferry_ok_def)
qed

text \<open>Without a file and a variable the proxy starts with the one shore it makes up.\<close>

lemma default_proxy:
  "\<exists>f. proxy_main (\<lambda>_. None) NoFile [] '':8000'' = Serving '':8000'' f \<and> map sh_Address (bf_shores f) = [''http://localhost:8080'']"
  by (simp add: proxy_main_def loadConfig_def env_ferry_def env_shores_def Environ_def Getenv_def get_or_def get_def
      RegisterShore_def with_defaults_def proxy_shore_def Let_def)

section \<open>Behaviours worth knowing\<close>

text \<open>No body ever reaches a client: what the shore answered is recorded, and the handler does not copy it.\<close>

lemma body_dropped:
  assumes "Cross env (arriving req) f = (Inr resp, fwd, f')"
  shows "proxy_handle env req f = (Some \<lparr>an_Status = rp_StatusCode resp, an_Header = rp_Header resp, an_Body = []\<rparr>, fwd, f')"
  using assms by (simp add: proxy_handle_def answer_with_def)

text \<open>The proxy puts no tenant, address or identity into the context: all clients draw on one bucket.\<close>

lemma one_bucket: "rate_limit env (arriving req) f = rate_limit env (arriving req') f"
  by (cases "bf_rateLimiter f") (simp_all add: rate_limit_def arriving_def)

text \<open>The middleware takes the remote address with its port, so a client has a bucket for each connection.\<close>

lemma bucket_per_port:
  assumes "p \<noteq> p'"
  shows "IPKeyFunc (ferry_context (req\<lparr>hq_RemoteAddr := host @ '':'' @ p\<rparr>)) \<noteq> IPKeyFunc (ferry_context (req\<lparr>hq_RemoteAddr := host @ '':'' @ p'\<rparr>))"
  using assms by (simp add: IPKeyFunc_def ferry_context_def Let_def)

text \<open>A file without a section for the load balancer is not given the defaults; it ends the process with a nil dereference.\<close>

lemma file_without_ferry: "pc_Ferry config = None \<Longrightarrow> proxy_main urlErr (Parsed config) env listenAddr = ProxyPanic"
  by (simp add: proxy_main_def loadConfig_def)

text \<open>With a file the address given on the command line and the environment are ignored.\<close>

lemma file_ignores_flag: "proxy_main urlErr (Parsed config) env listenAddr = proxy_main urlErr (Parsed config) env' listenAddr'"
  by (simp add: proxy_main_def loadConfig_def)

end
