(* ===== verification/Tls.thy ===== *)
theory Tls
  imports Settings
begin

text \<open>
  Transport security of the API server: the watcher that reloads certificates
  (\<open>src/pkg/cerberus/cert_watcher.go\<close>) and the part of \<open>src/cmd/olympus-api/main.go\<close> that decides whether and
  how the server speaks TLS.

  Certificates and pools are values of any type. What the files hold at the time of a reload is an argument:
  the key pair of two files, the bytes of a file, and the pool a text gives, if it holds a certificate.
\<close>

section \<open>The watcher\<close>

datatype ClientAuthType = NoClientCert | RequestClientCert | RequireAnyClientCert | VerifyClientCertIfGiven | RequireAndVerifyClientCert

record ('c, 'p) tls_files =
  tf_LoadX509KeyPair :: "string \<Rightarrow> string \<Rightarrow> string + 'c"
  tf_ReadFile :: "string \<Rightarrow> string + string"
  tf_AppendCertsFromPEM :: "string \<Rightarrow> 'p option"

record ('c, 'p) CertWatcher =
  cw_CertFile :: string
  cw_KeyFile :: string
  cw_CAFile :: string
  cw_ClientAuth :: ClientAuthType
  cw_cert :: "'c option"
  cw_clientCAs :: "'p option"

definition load_pair :: "('c, 'p) tls_files \<Rightarrow> ('c, 'p) CertWatcher \<Rightarrow> string + 'c option" where
  "load_pair files w =
     (if cw_CertFile w \<noteq> [] \<and> cw_KeyFile w \<noteq> [] then
        (case tf_LoadX509KeyPair files (cw_CertFile w) (cw_KeyFile w) of
           Inl err \<Rightarrow> Inl (''failed to load key pair: '' @ err)
         | Inr c \<Rightarrow> Inr (Some c))
      else Inr None)"

definition load_pool :: "('c, 'p) tls_files \<Rightarrow> ('c, 'p) CertWatcher \<Rightarrow> string + 'p option" where
  "load_pool files w =
     (if cw_CAFile w \<noteq> [] then
        (case tf_ReadFile files (cw_CAFile w) of
           Inl err \<Rightarrow> Inl (''failed to read CA file: '' @ err)
         | Inr caBytes \<Rightarrow>
             (case tf_AppendCertsFromPEM files caBytes of
                None \<Rightarrow> Inl ''failed to append CA certs''
              | Some pool \<Rightarrow> Inr (Some pool)))
      else Inr None)"

definition cert_reload :: "('c, 'p) tls_files \<Rightarrow> ('c, 'p) CertWatcher \<Rightarrow> string option \<times> ('c, 'p) CertWatcher" where
  "cert_reload files w =
     (case load_pair files w of
        Inl err \<Rightarrow> (Some err, w)
      | Inr cert \<Rightarrow>
          (case load_pool files w of
             Inl err \<Rightarrow> (Some err, w)
           | Inr clientCAs \<Rightarrow> (None, w\<lparr>cw_cert := cert, cw_clientCAs := clientCAs\<rparr>)))"

definition NewCertWatcher :: "('c, 'p) tls_files \<Rightarrow> string \<Rightarrow> string \<Rightarrow> string \<Rightarrow> ClientAuthType \<Rightarrow> string + ('c, 'p) CertWatcher" where
  "NewCertWatcher files certFile keyFile caFile clientAuth =
     (case cert_reload files \<lparr>cw_CertFile = certFile, cw_KeyFile = keyFile, cw_CAFile = caFile, cw_ClientAuth = clientAuth,
             cw_cert = None, cw_clientCAs = None\<rparr> of
        (Some err, w) \<Rightarrow> Inl err
      | (None, w) \<Rightarrow> Inr w)"

text \<open>The loop of the watcher over what the files hold at each tick; an error is only logged.\<close>

fun watch_ticks :: "('c, 'p) tls_files list \<Rightarrow> ('c, 'p) CertWatcher \<Rightarrow> ('c, 'p) CertWatcher" where
  "watch_ticks [] w = w"
| "watch_ticks (files # ticks) w = watch_ticks ticks (snd (cert_reload files w))"

definition GetCertificate :: "('c, 'p) CertWatcher \<Rightarrow> 'c option" where
  "GetCertificate w = cw_cert w"

record ('c, 'p) tls_config =
  tc_Certificates :: "'c list"
  tc_ClientCAs :: "'p option"
  tc_ClientAuth :: ClientAuthType

text \<open>The settings of a handshake; \<open>None\<close> is the nil dereference of a watcher without a certificate.\<close>

definition GetConfigForClient :: "('c, 'p) CertWatcher \<Rightarrow> ('c, 'p) tls_config option" where
  "GetConfigForClient w =
     (case cw_cert w of
        None \<Rightarrow> None
      | Some cert \<Rightarrow> Some \<lparr>tc_Certificates = [cert], tc_ClientCAs = cw_clientCAs w, tc_ClientAuth = cw_ClientAuth w\<rparr>)"

section \<open>The choice of the API server\<close>

definition client_auth_of :: "string \<Rightarrow> ClientAuthType" where
  "client_auth_of mode =
     (if mode = ''request'' then RequestClientCert
      else if mode = ''require'' then RequireAnyClientCert
      else if mode = ''verify-if-given'' then VerifyClientCertIfGiven
      else if mode = ''require-verify'' then RequireAndVerifyClientCert
      else NoClientCert)"

text \<open>A server without TLS has no watcher.\<close>

definition api_tls :: "('c, 'p) tls_files \<Rightarrow> Config \<Rightarrow> string + ('c, 'p) CertWatcher option" where
  "api_tls files cfg =
     (if cf_TLSCertFile cfg \<noteq> [] \<and> cf_TLSKeyFile cfg \<noteq> [] then
        let clientAuth = (if cf_TLSClientAuth cfg \<noteq> ''none'' \<and> cf_TLSCAFile cfg \<noteq> [] then client_auth_of (cf_TLSClientAuth cfg) else NoClientCert)
        in (case NewCertWatcher files (cf_TLSCertFile cfg) (cf_TLSKeyFile cfg) (cf_TLSCAFile cfg) clientAuth of
              Inl err \<Rightarrow> Inl ''Failed to initialize certificate watcher''
            | Inr w \<Rightarrow> Inr (Some w))
      else Inr None)"

section \<open>Rotation\<close>

text \<open>The last files of a list that loaded completely.\<close>

definition complete :: "string \<Rightarrow> string \<Rightarrow> string \<Rightarrow> ('c, 'p) tls_files \<Rightarrow> bool" where
  "complete certFile keyFile caFile files \<longleftrightarrow>
     (\<exists>c. tf_LoadX509KeyPair files certFile keyFile = Inr c) \<and>
     (caFile \<noteq> [] \<longrightarrow> (\<exists>b p. tf_ReadFile files caFile = Inr b \<and> tf_AppendCertsFromPEM files b = Some p))"

definition served :: "string \<Rightarrow> string \<Rightarrow> string \<Rightarrow> ClientAuthType \<Rightarrow> ('c, 'p) tls_files \<Rightarrow> ('c, 'p) CertWatcher" where
  "served certFile keyFile caFile auth files =
     \<lparr>cw_CertFile = certFile, cw_KeyFile = keyFile, cw_CAFile = caFile, cw_ClientAuth = auth,
      cw_cert = (case tf_LoadX509KeyPair files certFile keyFile of Inr c \<Rightarrow> Some c | Inl _ \<Rightarrow> None),
      cw_clientCAs = (if caFile = [] then None else case tf_ReadFile files caFile of Inr b \<Rightarrow> tf_AppendCertsFromPEM files b | Inl _ \<Rightarrow> None)\<rparr>"

lemma cert_reload_served:
  assumes "cw_CertFile w = certFile" "cw_KeyFile w = keyFile" "cw_CAFile w = caFile" "cw_ClientAuth w = auth" "certFile \<noteq> []" "keyFile \<noteq> []"
  shows "snd (cert_reload files w) = (if complete certFile keyFile caFile files then served certFile keyFile caFile auth files else w)"
    and "fst (cert_reload files w) = None \<longleftrightarrow> complete certFile keyFile caFile files"
  using assms
  by (cases w; auto simp: cert_reload_def load_pair_def load_pool_def complete_def served_def split: sum.splits option.splits)+

lemma served_simps [simp]:
  "cw_CertFile (served a b c d f) = a" "cw_KeyFile (served a b c d f) = b" "cw_CAFile (served a b c d f) = c" "cw_ClientAuth (served a b c d f) = d"
  by (simp_all add: served_def)

lemma watch_ticks_served:
  assumes "certFile \<noteq> []" "keyFile \<noteq> []"
  shows "watch_ticks ticks (served certFile keyFile caFile auth f0) =
    served certFile keyFile caFile auth (last (f0 # filter (complete certFile keyFile caFile) ticks))"
proof (induction ticks arbitrary: f0)
  case (Cons files ticks)
  then show ?case using cert_reload_served(1) [of "served certFile keyFile caFile auth f0"] assms by (simp add: last_ConsR)
qed simp

text \<open>
  Rotation is atomic and never takes the server down. Whatever the files hold at the ticks, the watcher serves the
  certificate and the pool of one and the same reload, the last that found both in order; a handshake always has a
  certificate, and asks of clients what was configured at the start.
\<close>

theorem rotation_atomic:
  assumes "NewCertWatcher f0 certFile keyFile caFile auth = Inr w" "certFile \<noteq> []" "keyFile \<noteq> []"
  shows "\<exists>good \<in> set (f0 # ticks). complete certFile keyFile caFile good \<and>
    good = last (f0 # filter (complete certFile keyFile caFile) ticks) \<and>
    watch_ticks ticks w = served certFile keyFile caFile auth good \<and>
    (\<exists>cert. tf_LoadX509KeyPair good certFile keyFile = Inr cert \<and>
      GetConfigForClient (watch_ticks ticks w) =
        Some \<lparr>tc_Certificates = [cert], tc_ClientCAs = cw_clientCAs (served certFile keyFile caFile auth good), tc_ClientAuth = auth\<rparr>)"
proof -
  let ?good = "last (f0 # filter (complete certFile keyFile caFile) ticks)"
  have w: "complete certFile keyFile caFile f0 \<and> w = served certFile keyFile caFile auth f0"
    using assms(1) cert_reload_served [of "\<lparr>cw_CertFile = certFile, cw_KeyFile = keyFile, cw_CAFile = caFile, cw_ClientAuth = auth,
             cw_cert = None, cw_clientCAs = None\<rparr>" certFile keyFile caFile auth f0] assms(2,3)
    by (auto simp: NewCertWatcher_def split: prod.splits option.splits)
  have "?good \<in> set (f0 # filter (complete certFile keyFile caFile) ticks)" by (rule last_in_set) simp
  then have good: "?good \<in> set (f0 # ticks)" "complete certFile keyFile caFile ?good" using w by (simp_all del: last.simps) auto
  then obtain cert where "tf_LoadX509KeyPair ?good certFile keyFile = Inr cert" by (auto simp: complete_def)
  moreover have "watch_ticks ticks w = served certFile keyFile caFile auth ?good" using watch_ticks_served assms(2,3) w by blast
  ultimately show ?thesis using good by (intro bexI [of _ ?good]) (simp_all add: GetConfigForClient_def served_def)
qed

text \<open>When the server asks every client for a certificate it verifies.\<close>

theorem mutual_tls_iff:
  assumes "api_tls files cfg = Inr tls"
  shows "(\<exists>w. tls = Some w \<and> cw_ClientAuth w = RequireAndVerifyClientCert) \<longleftrightarrow>
    cf_TLSCertFile cfg \<noteq> [] \<and> cf_TLSKeyFile cfg \<noteq> [] \<and> cf_TLSClientAuth cfg = ''require-verify'' \<and> cf_TLSCAFile cfg \<noteq> []"
proof -
  have "cw_ClientAuth w = auth" if "NewCertWatcher files a b c auth = Inr w" for a b c auth w
    using that by (auto simp: NewCertWatcher_def cert_reload_def split: sum.splits prod.splits option.splits)
  then show ?thesis using assms by (auto simp: api_tls_def Let_def client_auth_of_def split: sum.splits if_splits)
qed

text \<open>A certificate without a key, or a key without a certificate, is passed over: the server speaks plain HTTP.\<close>

lemma half_configured_is_plain:
  "cf_TLSCertFile cfg = [] \<or> cf_TLSKeyFile cfg = [] \<Longrightarrow> api_tls files cfg = Inr None"
  by (auto simp: api_tls_def)

text \<open>A mode that is misspelt asks for no certificate at all.\<close>

lemma misspelt_mode: "client_auth_of ''required'' = NoClientCert"
  by (simp add: client_auth_of_def)

end
