(* ===== verification/Deployment.thy ===== *)
theory Deployment
  imports Streams Wire Firecracker Styx Tls
begin

text \<open>
  How the processes of a deployment are put together: the start of a node's agent
  (\<open>src/cmd/hecatoncheir-agent/main.go\<close>) and of the API server (\<open>src/cmd/olympus-api/main.go\<close>) from their
  environments, the heartbeat of an agent and its shutdown.

  What a start finds outside is a record: the answer of Redis at an address, a database and a password, the errors of
  the other clients and directories, and the reading of a network prefix. The state of the queue's Redis is threaded
  through, as connecting a consumer creates its group. A start ends with the parts it has chosen, or with the message of
  the error it exits with.
\<close>

section \<open>What a start chooses\<close>

datatype queue_setup = QueueAt string int RedisQueue | QueueInMemory

datatype registry_setup = RegistryAt string int string | RegistryInMemory

datatype store_setup = StoreS3 string string string string string string | StoreLocal string

datatype driver =
    FirecrackerDriver string string string "secret_provider list"
  | MockDriver
  | WasmDriver string
  | GVisorDriver string string

datatype runtime_setup = OneRuntime driver | UnifiedSetup "driver UnifiedRuntime"

record start_world =
  sw_Geteuid :: int
  sw_Ping :: "string \<Rightarrow> int \<Rightarrow> string \<Rightarrow> string option"
  sw_S3 :: "string option"
  sw_LocalStore :: "string \<Rightarrow> string option"
  sw_KMS :: "string option"
  sw_ParsePrefix :: "string \<Rightarrow> string + prefix"
  sw_iptables :: "string option"
  sw_Lethe :: "string option"
  sw_Nyx :: "string option"
  sw_OIDC :: "string option"
  sw_CA :: "string option"
  sw_PEM :: bool
  sw_RBAC :: "string option"

definition demand :: "string option \<Rightarrow> string \<Rightarrow> (string + 'a) \<Rightarrow> string + 'a" where
  "demand err message k = (case err of Some _ \<Rightarrow> Inl message | None \<Rightarrow> k)"

text \<open>The number of the database and the key of the queue, which both programs read for themselves.\<close>

definition queue_db :: "environment \<Rightarrow> int" where
  "queue_db env =
     (let dbStr = Getenv env ''REDIS_DB''
      in if dbStr \<noteq> [] then (case Atoi dbStr of Some db \<Rightarrow> db | None \<Rightarrow> 0) else 0)"

definition queue_key :: "environment \<Rightarrow> string" where
  "queue_key env = (let k = Getenv env ''REDIS_QUEUE_KEY'' in if k = [] then ''tartarus:queue'' else k)"

definition open_store :: "start_world \<Rightarrow> Config \<Rightarrow> string + store_setup" where
  "open_store w cfg =
     (if cf_S3Endpoint cfg \<noteq> [] \<or> cf_S3Region cfg \<noteq> []
      then demand (sw_S3 w) ''Failed to initialize S3 store''
             (Inr (StoreS3 (cf_S3Endpoint cfg) (cf_S3Region cfg) (cf_S3Bucket cfg) (cf_S3AccessKey cfg) (cf_S3SecretKey cfg) (cf_SnapshotPath cfg)))
      else demand (sw_LocalStore w (cf_SnapshotPath cfg)) ''Failed to initialize local store'' (Inr (StoreLocal (cf_SnapshotPath cfg))))"

section \<open>The agent\<close>

definition agent_node_id :: "Config \<Rightarrow> NodeID" where
  "agent_node_id cfg = ''node-'' @ cf_Region cfg @ ''-1''"

definition agent_registry :: "start_world \<Rightarrow> Config \<Rightarrow> string + registry_setup" where
  "agent_registry w cfg =
     (if cf_RedisAddress cfg \<noteq> []
      then demand (sw_Ping w (cf_RedisAddress cfg) (cf_RedisDB cfg) (cf_RedisPass cfg)) ''Failed to initialize Redis registry''
             (Inr (RegistryAt (cf_RedisAddress cfg) (cf_RedisDB cfg) (cf_RedisPass cfg)))
      else Inr RegistryInMemory)"

definition agent_providers :: "start_world \<Rightarrow> Config \<Rightarrow> secret_provider list" where
  "agent_providers w cfg =
     [EnvProvider] @
     (if cf_VaultAddress cfg \<noteq> [] then
        [case_prod VaultProvider (NewRealVaultSecretProvider
           \<lparr>vc_Address = cf_VaultAddress cfg, vc_Token = cf_VaultToken cfg, vc_Namespace = cf_VaultNamespace cfg, vc_Timeout = 10 * second\<rparr>)]
      else []) @
     (if cf_KMSRegion cfg \<noteq> [] \<and> sw_KMS w = None then [KMSProvider \<lparr>sc_cache = [], sc_ttl = 15 * minute\<rparr>] else [])"

definition or_default :: "string \<Rightarrow> string \<Rightarrow> string" where
  "or_default v fallback = (if v = [] then fallback else v)"

definition firecracker_driver :: "environment \<Rightarrow> secret_provider list \<Rightarrow> driver" where
  "firecracker_driver env secrets =
     (let fcKernel = Getenv env ''FC_KERNEL_IMAGE''; fcRootFS = Getenv env ''FC_ROOTFS_BASE'';
          fcSocketDir = or_default (Getenv env ''FC_SOCKET_DIR'') ''/run/firecracker''
      in if fcKernel \<noteq> [] \<and> fcRootFS \<noteq> [] then FirecrackerDriver fcSocketDir fcKernel fcRootFS secrets else MockDriver)"

definition wasm_driver :: "environment \<Rightarrow> Config \<Rightarrow> driver option" where
  "wasm_driver env cfg =
     (if cf_RuntimeType cfg = ''wasm'' \<or> cf_RuntimeAutoSelect cfg
      then Some (WasmDriver (or_default (Getenv env ''WASM_WORK_DIR'') ''/var/run/tartarus/wasm'')) else None)"

definition gvisor_driver :: "environment \<Rightarrow> Config \<Rightarrow> driver option" where
  "gvisor_driver env cfg =
     (if cf_RuntimeType cfg = ''gvisor'' \<or> cf_RuntimeAutoSelect cfg
      then Some (GVisorDriver (cf_GVisorRunscPath cfg) (or_default (Getenv env ''GVISOR_ROOT_DIR'') ''/var/run/gvisor'')) else None)"

definition agent_runtime :: "environment \<Rightarrow> Config \<Rightarrow> secret_provider list \<Rightarrow> string + runtime_setup" where
  "agent_runtime env cfg secrets =
     (let firecrackerRuntime = firecracker_driver env secrets; wasmRuntime = wasm_driver env cfg; gvisorRuntime = gvisor_driver env cfg
      in if cf_RuntimeType cfg = ''auto'' \<or> cf_RuntimeAutoSelect cfg then
           Inr (UnifiedSetup \<lparr>un_microVM = Some firecrackerRuntime, un_wasm = wasmRuntime, un_gvisor = gvisorRuntime,
                  un_defaultRuntime = IsolationMicroVM, un_autoSelect = True\<rparr>)
         else if cf_RuntimeType cfg = ''wasm'' then
           (case wasmRuntime of Some r \<Rightarrow> Inr (OneRuntime r) | None \<Rightarrow> Inl ''WASM runtime not initialized'')
         else if cf_RuntimeType cfg = ''gvisor'' then
           (case gvisorRuntime of Some r \<Rightarrow> Inr (OneRuntime r) | None \<Rightarrow> Inl ''gVisor runtime not initialized'')
         else Inr (OneRuntime firecrackerRuntime))"

definition agent_gateway :: "start_world \<Rightarrow> environment \<Rightarrow> string + hostGateway" where
  "agent_gateway w env =
     (case sw_ParsePrefix w (or_default (Getenv env ''NETWORK_CIDR'') ''10.200.0.0/16'') of
        Inl _ \<Rightarrow> Inl ''Invalid network CIDR''
      | Inr p \<Rightarrow> demand (sw_iptables w) ''Failed to initialize Styx Host Gateway'' (Inr (NewHostGateway ''tartarus0'' p)))"

definition agent_queue :: "('s, 'v) redis_streams \<Rightarrow> environment \<Rightarrow> start_world \<Rightarrow> NodeID \<Rightarrow> 's \<Rightarrow> (string + queue_setup) \<times> 's" where
  "agent_queue db env w nodeID s =
     (let redisAddr = Getenv env ''REDIS_ADDR''
      in if redisAddr \<noteq> [] then
           (case NewRedisQueue db (sw_Ping w redisAddr (queue_db env) []) (queue_key env @ '':'' @ nodeID) ''acheron-workers'' nodeID False True s of
              (Inl err, s1) \<Rightarrow> (Inl ''Failed to initialize Redis queue'', s1)
            | (Inr q, s1) \<Rightarrow> (Inr (QueueAt redisAddr (queue_db env) q), s1))
         else (Inr QueueInMemory, s))"

record agent_setup =
  ag_NodeID :: NodeID
  ag_registry :: registry_setup
  ag_store :: store_setup
  ag_runtime :: runtime_setup
  ag_gateway :: hostGateway
  ag_queue :: queue_setup
  ag_hypnos :: bool
  ag_control :: "(string \<times> string) option"

text \<open>The control listener is connected to the address of the queue and listens on the topic of the node.\<close>

definition agent_main :: "('s, 'v) redis_streams \<Rightarrow> environment \<Rightarrow> start_world \<Rightarrow> 's \<Rightarrow> (string + agent_setup) \<times> 's" where
  "agent_main db env w s =
     (let cfg = config_Load env; nodeID = agent_node_id cfg; redisAddr = Getenv env ''REDIS_ADDR''
      in if sw_Geteuid w \<noteq> 0 then (Inl ''Fatal: Hecatoncheir Agent must run as root to access /dev/kvm and networking'', s)
         else case agent_registry w cfg of Inl err \<Rightarrow> (Inl err, s)
       | Inr registry \<Rightarrow> (case open_store w cfg of Inl err \<Rightarrow> (Inl err, s)
       | Inr store \<Rightarrow> (case agent_runtime env cfg (agent_providers w cfg) of Inl err \<Rightarrow> (Inl err, s)
       | Inr runtime \<Rightarrow> (case agent_gateway w env of Inl err \<Rightarrow> (Inl err, s)
       | Inr gateway \<Rightarrow>
           (case demand (sw_Lethe w) ''Failed to initialize Lethe File Overlay Pool'' (demand (sw_Nyx w) ''Failed to initialize Nyx Local Manager'' (Inr ())) of
              Inl err \<Rightarrow> (Inl err, s)
            | Inr _ \<Rightarrow>
                (case agent_queue db env w nodeID s of
                   (Inl err, s1) \<Rightarrow> (Inl err, s1)
                 | (Inr q, s1) \<Rightarrow>
                     (Inr \<lparr>ag_NodeID = nodeID, ag_registry = registry, ag_store = store, ag_runtime = runtime, ag_gateway = gateway,
                           ag_queue = q, ag_hypnos = cf_EnableHypnos cfg,
                           ag_control = (if redisAddr \<noteq> [] then Some (redisAddr, listen_topic nodeID) else None)\<rparr>, s1)))))))"

text \<open>
  One beat: nothing is sent when the memory or the number of processors cannot be read; sandboxes that cannot be
  listed are none, and an allocation that cannot be read is zero.
\<close>

definition heartbeat :: "NodeID \<Rightarrow> Config \<Rightarrow> string + nat \<Rightarrow> string + int \<Rightarrow> string + SandboxRun list \<Rightarrow> string + ResourceCapacity \<Rightarrow> go_time
    \<Rightarrow> HeartbeatPayload option" where
  "heartbeat nodeID cfg vmStat cpus active allocated now =
     (case vmStat of Inl _ \<Rightarrow> None
      | Inr bytes \<Rightarrow> (case cpus of Inl _ \<Rightarrow> None
      | Inr n \<Rightarrow>
          Some \<lparr>hb_Node = \<lparr>node_ID = nodeID, node_Address = ''localhost'', node_Labels = [(''region'', cf_Region cfg)],
                   node_Capacity = \<lparr>cap_CPU = wrap64 (n * 1000), cap_Mem = int (bytes div 1024 div 1024), cap_GPU = 0\<rparr>\<rparr>,
                hb_Load = (case allocated of Inr a \<Rightarrow> a | Inl _ \<Rightarrow> zero_ResourceCapacity),
                hb_ActiveSandboxes = (case active of Inr runs \<Rightarrow> runs | Inl _ \<Rightarrow> []), hb_Time = now\<rparr>))"

text \<open>The shutdown: the terminations that are started, each on its own, and the time they are given.\<close>

definition agent_shutdown :: "string + SandboxRun list \<Rightarrow> (SandboxID \<times> duration \<times> string) list \<times> duration" where
  "agent_shutdown active =
     (case active of
        Inl _ \<Rightarrow> ([], 0)
      | Inr runs \<Rightarrow> if runs = [] then ([], 0) else (map (\<lambda>r. (run_ID r, 10 * second, ''agent_shutdown'')) runs, 12 * second))"

section \<open>The API server\<close>

definition production :: "environment \<Rightarrow> bool" where
  "production env \<longleftrightarrow> Getenv env ''TARTARUS_ENV'' = ''production''"

definition api_queue :: "('s, 'v) redis_streams \<Rightarrow> environment \<Rightarrow> start_world \<Rightarrow> Config \<Rightarrow> 's \<Rightarrow> (string + queue_setup) \<times> 's" where
  "api_queue db env w cfg s =
     (let redisAddr = cf_RedisAddress cfg
      in if redisAddr \<noteq> [] then
           (case NewRedisQueue db (sw_Ping w redisAddr (queue_db env) []) (queue_key env) [] [] True False s of
              (Inl err, s1) \<Rightarrow> (Inl ''Failed to initialize Redis queue'', s1)
            | (Inr q, s1) \<Rightarrow> (Inr (QueueAt redisAddr (queue_db env) q), s1))
         else if production env then (Inl ''Redis queue is required in production mode (TARTARUS_ENV=production)'', s)
         else (Inr QueueInMemory, s))"

definition api_registry :: "string \<Rightarrow> string \<Rightarrow> environment \<Rightarrow> start_world \<Rightarrow> Config \<Rightarrow> string + registry_setup" where
  "api_registry failed required env w cfg =
     (if cf_RedisAddress cfg \<noteq> []
      then demand (sw_Ping w (cf_RedisAddress cfg) (cf_RedisDB cfg) (cf_RedisPass cfg)) failed
             (Inr (RegistryAt (cf_RedisAddress cfg) (cf_RedisDB cfg) (cf_RedisPass cfg)))
      else if production env then Inl required
      else Inr RegistryInMemory)"

text \<open>The address of the Redis control plane; without one the commands go nowhere.\<close>

definition api_control :: "environment \<Rightarrow> Config \<Rightarrow> string + string option" where
  "api_control env cfg =
     (if cf_RedisAddress cfg \<noteq> [] then Inr (Some (cf_RedisAddress cfg))
      else if production env then Inl ''Redis control plane is required in production mode (TARTARUS_ENV=production)''
      else Inr None)"

text \<open>Without Redis the registry starts with a node for development, which nobody renews.\<close>

definition dev_registry :: "go_time \<Rightarrow> MemoryRegistry" where
  "dev_registry now =
     UpdateHeartbeat NewMemoryRegistry
       \<lparr>hb_Node = \<lparr>node_ID = ''test-node'', node_Address = ''127.0.0.1'', node_Labels = [],
          node_Capacity = \<lparr>cap_CPU = 8000, cap_Mem = 8192, cap_GPU = 0\<rparr>\<rparr>,
        hb_Load = zero_ResourceCapacity, hb_ActiveSandboxes = [], hb_Time = now\<rparr>"

definition shipped_template :: "string \<Rightarrow> string \<Rightarrow> string \<Rightarrow> int \<Rightarrow> int \<Rightarrow> int \<times> string \<Rightarrow> string list \<Rightarrow> TemplateSpec" where
  "shipped_template i name description cpu mem gpu warmup =
     \<lparr>tpl_ID = i, tpl_Name = name, tpl_Description = description,
      tpl_BaseImage = ''/var/lib/tartarus/images/'' @ i @ ''.ext4'', tpl_KernelImage = ''/var/lib/firecracker/vmlinux'',
      tpl_Resources = zero_ResourceSpec\<lparr>res_CPU := cpu, res_Mem := mem, res_GPU := \<lparr>gpu_Count = fst gpu, gpu_Type = snd gpu\<rparr>\<rparr>,
      tpl_DefaultEnv = [], tpl_WarmupCommand = warmup\<rparr>"

definition shipped_templates :: "TemplateSpec list" where
  "shipped_templates =
     [shipped_template ''hello-world'' ''Hello World'' ''A simple hello world template'' 1000 128 (0, []) [],
      shipped_template ''python-ds'' ''Python Data Science'' ''Python environment with NumPy, Pandas, Scikit-learn preloaded'' 2000 2048 (0, [])
        [''python3'', ''-c'', ''import numpy; import pandas; import sklearn''],
      shipped_template ''pytorch-ml'' ''PyTorch ML'' ''PyTorch environment preloaded'' 4000 8192 (1, ''nvidia'')
        [''python3'', ''-c'', ''import torch; import torchvision''],
      shipped_template ''r-analytics'' ''R Analytics'' ''R environment with Tidyverse preloaded'' 2000 4096 (0, [])
        [''R'', ''-e'', ''library(dplyr); library(ggplot2)''],
      shipped_template ''julia-sci'' ''Julia Science'' ''Julia environment preloaded'' 2000 4096 (0, []) [''julia'', ''-e'', ''using DataFrames'']]"

definition api_templates :: MemoryTemplateManager where
  "api_templates = foldl RegisterTemplate NewMemoryTemplateManager shipped_templates"

definition hello_policy :: SandboxPolicy where
  "hello_policy =
     \<lparr>pol_ID = ''default-hello-world'', pol_TemplateID = ''hello-world'', pol_Resources = zero_ResourceSpec\<lparr>res_CPU := 1000, res_Mem := 128\<rparr>,
      pol_NetworkPolicy = \<lparr>net_ID = ''lockdown-no-net'', net_Name = ''No Internet''\<rparr>,
      pol_Retention = \<lparr>ret_MaxAge = 30 * minute, ret_KeepOutputs = True\<rparr>, pol_Tags = [], pol_Version = 0\<rparr>"

text \<open>The repository in memory after the start; the result of the upsert is ignored.\<close>

definition api_policies :: MemoryRepo where
  "api_policies = (case new_policy NewMemoryRepo hello_policy of (a, r) \<Rightarrow> snd (UpsertPolicy r a))"

definition api_config_of :: "environment \<Rightarrow> api_config" where
  "api_config_of env =
     (let cfg = config_Load env
      in \<lparr>ac_APIKey = Getenv env ''TARTARUS_API_KEY'', ac_VaultAddress = cf_VaultAddress cfg, ac_VaultToken = cf_VaultToken cfg,
          ac_VaultNamespace = cf_VaultNamespace cfg, ac_KMSRegion = cf_KMSRegion cfg, ac_OIDCIssuerURL = cf_OIDCIssuerURL cfg,
          ac_OIDCClientID = cf_OIDCClientID cfg, ac_TLSClientAuth = cf_TLSClientAuth cfg, ac_TLSCAFile = cf_TLSCAFile cfg,
          ac_RBACPolicyPath = cf_RBACPolicyPath cfg\<rparr>)"

definition api_gate_checks :: "start_world \<Rightarrow> Config \<Rightarrow> string + unit" where
  "api_gate_checks w cfg =
     demand (if cf_OIDCIssuerURL cfg \<noteq> [] \<and> cf_OIDCClientID cfg \<noteq> [] then sw_OIDC w else None) ''Failed to initialize OIDC authenticator''
       (demand (if cf_TLSClientAuth cfg = ''require-verify'' \<and> cf_TLSCAFile cfg \<noteq> [] then sw_CA w else None) ''Failed to read CA file for mTLS''
         (if cf_TLSClientAuth cfg = ''require-verify'' \<and> cf_TLSCAFile cfg \<noteq> [] \<and> \<not> sw_PEM w then Inl ''Failed to append CA certificates for mTLS''
          else demand (if cf_RBACPolicyPath cfg \<noteq> [] then sw_RBAC w else None) ''Failed to load RBAC policies'' (Inr ())))"

record ('c, 'p) api_setup =
  ap_queue :: queue_setup
  ap_registry :: registry_setup
  ap_store :: store_setup
  ap_policies :: registry_setup
  ap_control :: "string option"
  ap_strategy :: string
  ap_networks :: "string list"
  ap_gate :: api_config
  ap_tls :: "('c, 'p) CertWatcher option"
  ap_address :: string

definition api_main :: "('s, 'v) redis_streams \<Rightarrow> ('c, 'p) tls_files \<Rightarrow> environment \<Rightarrow> start_world \<Rightarrow> 's
    \<Rightarrow> (string + ('c, 'p) api_setup) \<times> 's" where
  "api_main db files env w s =
     (let cfg = config_Load env
      in case api_queue db env w cfg s of (Inl err, s1) \<Rightarrow> (Inl err, s1)
       | (Inr q, s1) \<Rightarrow>
           (case api_registry ''Failed to initialize Redis registry'' ''Redis registry is required in production mode (TARTARUS_ENV=production)'' env w cfg of
              Inl err \<Rightarrow> (Inl err, s1)
       | Inr registry \<Rightarrow> (case open_store w cfg of Inl err \<Rightarrow> (Inl err, s1)
       | Inr store \<Rightarrow> (case demand (sw_Nyx w) ''Failed to initialize Nyx manager'' (Inr ()) of Inl err \<Rightarrow> (Inl err, s1)
       | Inr _ \<Rightarrow>
           (case api_registry ''Failed to initialize Redis policy repo'' ''Redis policy repo is required in production mode (TARTARUS_ENV=production)'' env w cfg of
              Inl err \<Rightarrow> (Inl err, s1)
       | Inr policies \<Rightarrow>
           (case api_control env cfg of Inl err \<Rightarrow> (Inl err, s1)
       | Inr control \<Rightarrow> (case api_gate_checks w cfg of Inl err \<Rightarrow> (Inl err, s1)
       | Inr _ \<Rightarrow> (case api_tls files cfg of Inl err \<Rightarrow> (Inl err, s1)
       | Inr tls \<Rightarrow>
           (Inr \<lparr>ap_queue = q, ap_registry = registry, ap_store = store, ap_policies = policies, ap_control = control,
                 ap_strategy = cf_SchedulerStrategy cfg, ap_networks = cf_AllowedNetworks cfg, ap_gate = api_config_of env,
                 ap_tls = tls, ap_address = '':'' @ cf_Port cfg\<rparr>, s1)))))))))"

section \<open>What every start that succeeds has chosen\<close>

text \<open>The two readings of the database number agree.\<close>

lemma queue_db_eq: "queue_db env = cf_RedisDB (config_Load env)"
proof -
  have "Atoi [] = None" by (simp add: Atoi_def)
  then show ?thesis by (auto simp: queue_db_def config_Load_def GetEnvInt_def Getenv_def get_or_def Let_def split: option.splits)
qed

lemma agent_runtime_ok: "\<exists>r. agent_runtime env cfg secrets = Inr r"
  by (auto simp: agent_runtime_def wasm_driver_def gvisor_driver_def Let_def)

lemma NewRedisQueue_Inr:
  "NewRedisQueue db ping key grp name routing sink s = (Inr q, s') \<Longrightarrow>
     q = \<lparr>rq_streamKey = key, rq_dlqKey = key @ '':dlq'', rq_consumerGroup = grp, rq_consumerName = name, rq_routing = routing, rq_sink = sink\<rparr>"
  by (auto simp: NewRedisQueue_def Let_def split: option.splits if_splits)

definition worker_queue :: "environment \<Rightarrow> NodeID \<Rightarrow> RedisQueue" where
  "worker_queue env nodeID =
     \<lparr>rq_streamKey = queue_key env @ '':'' @ nodeID, rq_dlqKey = queue_key env @ '':'' @ nodeID @ '':dlq'',
      rq_consumerGroup = ''acheron-workers'', rq_consumerName = nodeID, rq_routing = False, rq_sink = True\<rparr>"

definition router_queue :: "environment \<Rightarrow> RedisQueue" where
  "router_queue env =
     \<lparr>rq_streamKey = queue_key env, rq_dlqKey = queue_key env @ '':dlq'', rq_consumerGroup = [], rq_consumerName = [],
      rq_routing = True, rq_sink = False\<rparr>"

lemma agent_started:
  assumes "agent_main db env w s = (Inr ag, s')"
  shows "ag_NodeID ag = agent_node_id (config_Load env) \<and>
    ag_registry ag = (if cf_RedisAddress (config_Load env) = [] then RegistryInMemory
       else RegistryAt (cf_RedisAddress (config_Load env)) (queue_db env) (cf_RedisPass (config_Load env))) \<and>
    ag_queue ag = (if Getenv env ''REDIS_ADDR'' = [] then QueueInMemory
       else QueueAt (Getenv env ''REDIS_ADDR'') (queue_db env) (worker_queue env (ag_NodeID ag))) \<and>
    ag_control ag = (if Getenv env ''REDIS_ADDR'' = [] then None else Some (Getenv env ''REDIS_ADDR'', control_topic (ag_NodeID ag))) \<and>
    agent_runtime env (config_Load env) (agent_providers w (config_Load env)) = Inr (ag_runtime ag)"
  using assms
  by (auto simp: agent_main_def agent_registry_def agent_queue_def demand_def queue_db_eq worker_queue_def topics_agree Let_def
      split: if_splits sum.splits option.splits prod.splits dest!: NewRedisQueue_Inr)

lemma api_started:
  assumes "api_main db files env w s = (Inr api, s')"
  shows "ap_queue api = (if cf_RedisAddress (config_Load env) = [] then QueueInMemory
       else QueueAt (cf_RedisAddress (config_Load env)) (queue_db env) (router_queue env)) \<and>
    ap_registry api = (if cf_RedisAddress (config_Load env) = [] then RegistryInMemory
       else RegistryAt (cf_RedisAddress (config_Load env)) (queue_db env) (cf_RedisPass (config_Load env))) \<and>
    ap_policies api = ap_registry api \<and>
    ap_control api = (if cf_RedisAddress (config_Load env) = [] then None else Some (cf_RedisAddress (config_Load env))) \<and>
    (production env \<longrightarrow> cf_RedisAddress (config_Load env) \<noteq> []) \<and> api_tls files (config_Load env) = Inr (ap_tls api) \<and>
    ap_gate api = api_config_of env"
  using assms
  by (auto simp: api_main_def api_control_def api_registry_def api_queue_def demand_def queue_db_eq router_queue_def Let_def
      split: if_splits sum.splits option.splits prod.splits dest!: NewRedisQueue_Inr)

section \<open>The deployment as a whole\<close>

lemma router_targets:
  assumes "queue_key envA = queue_key envB" "nodeID \<noteq> []"
  shows "target_key (router_queue envA) req = rq_streamKey (worker_queue envB nodeID) \<longleftrightarrow> req_NodeID req = nodeID"
  using assms by (auto simp: target_key_def router_queue_def worker_queue_def)

lemma queue_settings_agree:
  assumes "list_all (\<lambda>k. Getenv envA k = Getenv envB k) [''REDIS_ADDR'', ''REDIS_DB'', ''REDIS_QUEUE_KEY'']"
  shows "queue_db envA = queue_db envB" "queue_key envA = queue_key envB" "Getenv envA ''REDIS_ADDR'' = Getenv envB ''REDIS_ADDR''"
  using assms by (simp_all add: queue_db_def queue_key_def)

lemma redis_address: "Getenv env ''REDIS_ADDR'' \<noteq> [] \<Longrightarrow> cf_RedisAddress (config_Load env) = Getenv env ''REDIS_ADDR''"
  by (simp add: config_Load_def getEnv_nonempty)

text \<open>
  C8: The processes of a deployment find each other. When the API server and an agent have started, and their environments
  agree on the address of Redis, which is set, on the database and on the key of the queue, then both use the same queue,
  registry and control channel: the API server's requests for the agent's node, and no others, go to the stream the agent
  reads; a request that was accepted is the last of those waiting there, what the agent takes is the first of them, and the
  agent listens where the API server publishes commands for its node.
\<close>

theorem deployment_connects:
  fixes db db' :: "('s, 'v) redis_streams"
  assumes "api_main db files envA wA s0 = (Inr api, s1)" "agent_main db' envB wB t0 = (Inr ag, t1)"
    and "Getenv envA ''REDIS_ADDR'' \<noteq> []"
    and "list_all (\<lambda>k. Getenv envA k = Getenv envB k) [''REDIS_ADDR'', ''REDIS_DB'', ''REDIS_QUEUE_KEY'']"
  shows "\<exists>addr n qa qb p p'. ap_queue api = QueueAt addr n qa \<and> ag_queue ag = QueueAt addr n qb \<and>
    ap_registry api = RegistryAt addr n p \<and> ag_registry ag = RegistryAt addr n p' \<and>
    ap_control api = Some addr \<and> ag_control ag = Some (addr, control_topic (ag_NodeID ag)) \<and>
    (\<forall>req. target_key qa req = rq_streamKey qb \<longleftrightarrow> req_NodeID req = ag_NodeID ag) \<and>
    (\<forall>(e :: ('s, 'v) stream_env) x s s'. se_consumer e = qb \<and> stream_ok e s \<and> req_NodeID x = ag_NodeID ag \<and>
        Redis_Enqueue (se_db e) (se_codec e) qa x s = (None, s') \<longrightarrow>
        stream_ok e s' \<and> line_at e s' = line_at e s @ [x] \<and>
        (\<forall>str now polls y r recs s2. Redis_Dequeue (se_db e) (se_codec e) str now qb polls s' = (RDelivered y r, recs, s2) \<longrightarrow>
           line_at e s @ [x] = y # line_at e s2))"
proof -
  note agree = queue_settings_agree [OF assms(4)]
  let ?addr = "Getenv envA ''REDIS_ADDR''" and ?qa = "router_queue envA" and ?qb = "worker_queue envB (ag_NodeID ag)"
  note api = api_started [OF assms(1)] and ag = agent_started [OF assms(2)]
  have addr: "cf_RedisAddress (config_Load envA) = ?addr" "cf_RedisAddress (config_Load envB) = ?addr"
    using redis_address [of envA] redis_address [of envB] assms(3) agree(3) by simp_all
  have node: "ag_NodeID ag \<noteq> []" using ag by (simp add: agent_node_id_def)
  note target = router_targets [OF agree(2) node]
  have line: "stream_ok e s' \<and> line_at e s' = line_at e s @ [x] \<and>
      (\<forall>str now polls y r recs s2. Redis_Dequeue (se_db e) (se_codec e) str now ?qb polls s' = (RDelivered y r, recs, s2) \<longrightarrow>
         line_at e s @ [x] = y # line_at e s2)"
    if "se_consumer e = ?qb" "stream_ok e s" "req_NodeID x = ag_NodeID ag" "Redis_Enqueue (se_db e) (se_codec e) ?qa x s = (None, s')"
    for e :: "('s, 'v) stream_env" and x s s'
  proof -
    have enq: "stream_ok e s'" "line_at e s' = line_at e s @ [x]"
      using Enqueue_line [OF that(2,4)] target that(1,3) by simp_all
    then show ?thesis using Dequeue_line [OF enq(1)] that(1) by (fastforce simp: dequeued_def)
  qed
  have "ap_queue api = QueueAt ?addr (queue_db envA) ?qa" "ag_queue ag = QueueAt ?addr (queue_db envA) ?qb"
      "ap_registry api = RegistryAt ?addr (queue_db envA) (cf_RedisPass (config_Load envA))"
      "ag_registry ag = RegistryAt ?addr (queue_db envA) (cf_RedisPass (config_Load envB))"
      "ap_control api = Some ?addr" "ag_control ag = Some (?addr, control_topic (ag_NodeID ag))"
    using api ag addr agree assms(3) by simp_all
  then show ?thesis using target line by blast
qed

definition demo_files :: "(unit, unit) tls_files" where
  "demo_files = \<lparr>tf_LoadX509KeyPair = (\<lambda>a b. Inl []), tf_ReadFile = (\<lambda>_. Inl []), tf_AppendCertsFromPEM = (\<lambda>_. None)\<rparr>"

definition demo_start :: start_world where
  "demo_start = \<lparr>sw_Geteuid = 0, sw_Ping = (\<lambda>a d p. None), sw_S3 = None, sw_LocalStore = (\<lambda>_. None), sw_KMS = None,
     sw_ParsePrefix = (\<lambda>_. Inr (0, 16)), sw_iptables = None, sw_Lethe = None, sw_Nyx = None, sw_OIDC = None, sw_CA = None, sw_PEM = True,
     sw_RBAC = None\<rparr>"

definition demo_settings :: environment where
  "demo_settings = [(''REDIS_ADDR'', ''redis:6379''), (''REGION'', ''eu'')]"

definition demo_server :: "(unit ref_streams, unit) redis_streams" where
  "demo_server = ref_server"

lemma demo_settings_simps [simp]:
  "Getenv demo_settings k = (if k = ''REDIS_ADDR'' then ''redis:6379'' else if k = ''REGION'' then ''eu'' else [])"
  "getEnv demo_settings k d = (if k = ''REDIS_ADDR'' then ''redis:6379'' else if k = ''REGION'' then ''eu'' else d)"
  "get demo_settings k = (if k = ''REDIS_ADDR'' then Some ''redis:6379'' else if k = ''REGION'' then Some ''eu'' else None)"
  by (simp_all add: demo_settings_def Getenv_def getEnv_def get_or_def get_def)

lemma demo_agent_starts: "\<exists>ag t. agent_main demo_server demo_settings demo_start s = (Inr ag, t) \<and> ag_NodeID ag = ''node-eu-1''"
  by (simp add: agent_main_def agent_registry_def open_store_def agent_runtime_def agent_gateway_def agent_queue_def demand_def demo_start_def
      config_Load_def agent_node_id_def NewRedisQueue_def or_default_def GetEnvBool_def Let_def del: split_paired_Ex)

lemma demo_api_starts: "\<exists>api t. api_main demo_server demo_files demo_settings demo_start s = (Inr api, t)"
  by (simp add: api_main_def api_control_def api_registry_def open_store_def api_queue_def demand_def demo_start_def api_gate_checks_def api_tls_def
      config_Load_def NewRedisQueue_def Let_def del: split_paired_Ex)

theorem deployment_connects_witness:
  "\<exists>api ag qa qb. fst (api_main demo_server demo_files demo_settings demo_start ([], [], [])) = Inr api \<and>
    fst (agent_main demo_server demo_settings demo_start ([], [], [])) = Inr ag \<and>
    ap_queue api = QueueAt ''redis:6379'' 0 qa \<and> ag_queue ag = QueueAt ''redis:6379'' 0 qb \<and>
    target_key qa (zero_SandboxRequest\<lparr>req_NodeID := ''node-eu-1''\<rparr>) = rq_streamKey qb"
proof -
  obtain api t where a: "api_main demo_server demo_files demo_settings demo_start ([], [], []) = (Inr api, t)"
    using demo_api_starts by blast
  obtain ag u where g: "agent_main demo_server demo_settings demo_start ([], [], []) = (Inr ag, u)" "ag_NodeID ag = ''node-eu-1''"
    using demo_agent_starts by blast
  obtain addr n qa qb where q: "ap_queue api = QueueAt addr n qa" "ag_queue ag = QueueAt addr n qb"
      "\<forall>req. target_key qa req = rq_streamKey qb \<longleftrightarrow> req_NodeID req = ag_NodeID ag"
    using deployment_connects [OF a g(1)] by auto
  moreover have "addr = ''redis:6379'' \<and> n = 0" using api_started [OF a] q(1) by (simp add: config_Load_def queue_db_def)
  ultimately show ?thesis using a g by auto
qed

section \<open>Production\<close>

text \<open>
  In every start that succeeds the queue, the registry, the policies and the control channel of the API server are all in
  Redis or all in memory; in production mode they are in Redis.
\<close>

theorem production_is_durable:
  assumes "api_main db files env w s = (Inr api, s')"
  shows "(ap_queue api = QueueInMemory \<and> ap_registry api = RegistryInMemory \<and> ap_policies api = RegistryInMemory \<and> ap_control api = None \<and>
      \<not> production env) \<or>
    (\<exists>addr n q p. ap_queue api = QueueAt addr n q \<and> ap_registry api = RegistryAt addr n p \<and> ap_policies api = RegistryAt addr n p \<and>
      ap_control api = Some addr \<and> addr \<noteq> [])"
  using api_started [OF assms] by (cases "cf_RedisAddress (config_Load env) = []") auto

section \<open>Behaviours worth knowing\<close>

text \<open>
  Without \<open>REDIS_ADDR\<close> the settings have a default address, which the agent uses for the registry only: its node is known to
  the API server, which sends it requests through Redis, and the agent waits at a queue in its own memory and hears no
  command.
\<close>

lemma unset_address_disconnects:
  assumes "api_main db files env w s = (Inr api, s')" "agent_main db' env w' t = (Inr ag, t')" "get env ''REDIS_ADDR'' = None"
  shows "ap_queue api = QueueAt ''localhost:6379'' (queue_db env) (router_queue env) \<and> ap_registry api = ag_registry ag \<and>
    (\<exists>n p. ag_registry ag = RegistryAt ''localhost:6379'' n p) \<and> ag_queue ag = QueueInMemory \<and> ag_control ag = None"
  using api_started [OF assms(1)] agent_started [OF assms(2)] getEnv_unset [OF assms(3)] by (simp add: config_Load_def)

text \<open>All agents of a region have one name: they read one stream under one consumer's name and hear the same commands.\<close>

lemma region_shares_name:
  assumes "agent_main db env w s = (Inr ag, s')" "agent_main db' env' w' t = (Inr ag', t')"
    and "cf_Region (config_Load env) = cf_Region (config_Load env')"
  shows "ag_NodeID ag = ag_NodeID ag'"
  using agent_started [OF assms(1)] agent_started [OF assms(2)] assms(3) by (simp add: agent_node_id_def)

text \<open>The queue is opened without the password of Redis: with a server that asks for one, neither program starts.\<close>

lemma password_not_used_for_queue:
  assumes "sw_Ping w (cf_RedisAddress (config_Load env)) (queue_db env) [] = Some err" "Getenv env ''REDIS_ADDR'' \<noteq> []"
  shows "fst (api_main db files env w s) = Inl ''Failed to initialize Redis queue''" "agent_main db env w s \<noteq> (Inr ag, s')"
  using assms redis_address [OF assms(2)]
  by (auto simp: api_main_def api_queue_def agent_main_def agent_queue_def NewRedisQueue_def Let_def split: sum.splits if_splits)

text \<open>The local store is chosen only when the region of S3 is set to the empty string.\<close>

lemma local_store_iff:
  assumes "open_store w (config_Load env) = Inr store"
  shows "(\<exists>path. store = StoreLocal path) \<longleftrightarrow> get env ''S3_REGION'' = Some [] \<and> Getenv env ''S3_ENDPOINT'' = []"
proof -
  have "getEnv env ''S3_ENDPOINT'' [] = [] \<longleftrightarrow> Getenv env ''S3_ENDPOINT'' = []"
    by (auto simp: getEnv_def Getenv_def get_or_def split: option.splits)
  then show ?thesis
    using assms getEnv_empty_iff [of env "''S3_REGION''" "''us-east-1''"]
    by (auto simp: open_store_def demand_def config_Load_def split: option.splits if_splits)
qed

text \<open>
  \<open>RUNTIME_TYPE=auto\<close> without the flag selects automatically among one runtime: a small request is sent to WASM, which is not
  there, and fails.
\<close>

lemma auto_without_flag:
  assumes "cf_RuntimeType cfg = ''auto''" "\<not> cf_RuntimeAutoSelect cfg"
  shows "\<exists>u. agent_runtime env cfg secrets = Inr (UnifiedSetup u) \<and>
    selectRuntime u zero_SandboxRequest = Inl ''WASM runtime not available''"
  using assms
  by (simp add: agent_runtime_def wasm_driver_def gvisor_driver_def selectRuntime_def SelectRuntime_def isLightweight_def getRuntimeByType_def
      zero_SandboxRequest_def zero_ResourceSpec_def Let_def)

text \<open>The node for development is gone thirty seconds after the start.\<close>

lemma dev_node_expires: "now + NodeTTL < later \<Longrightarrow> fst (ListNodes later (dev_registry now)) = []"
  by (simp add: ListNodes_def dev_registry_def UpdateHeartbeat_def NewMemoryRegistry_def status_of_payload_def NodeInfo.defs put_def Hades.expired_def Let_def)

text \<open>
  Of the templates the server ships only the first has a policy; the others fall under the lockdown policy, which refuses
  the resources they declare themselves.
\<close>

lemma shipped_templates_refused:
  "list_all (\<lambda>tpl. fst (ResourceJudge_PreAdmit (\<lambda>t. Inr (policy_of api_policies t))
      (zero_SandboxRequest\<lparr>req_Template := tpl_ID tpl, req_Resources := tpl_Resources tpl\<rparr>) s) =
        Inr (if tpl_ID tpl = ''hello-world'' then VerdictAccept else VerdictReject)) (ListTemplates api_templates)"
  by (simp add: api_templates_def shipped_templates_def shipped_template_def RegisterTemplate_def NewMemoryTemplateManager_def put_def ListTemplates_def
      ResourceJudge_PreAdmit_def policy_of_eq api_policies_def new_policy_def NewMemoryRepo_def UpsertPolicy_def hello_policy_def assign_def
      lockdown_policy_def zero_SandboxRequest_def zero_ResourceSpec_def current_version_def get_def Let_def)

text \<open>A heartbeat carries what the runtime reports, and keeps the node alive for the time to live.\<close>

lemma heartbeat_registers:
  assumes "heartbeat nodeID cfg (Inr bytes) (Inr n) active allocated now = Some p" "later \<le> now + NodeTTL"
  shows "\<exists>st. fst (GetNode later (UpdateHeartbeat r p) nodeID) = Inr st \<and> node_ID st = nodeID \<and>
    (\<forall>a. allocated = Inr a \<longrightarrow> node_Allocated st = a) \<and> (\<forall>runs. active = Inr runs \<longrightarrow> node_ActiveSandboxes st = runs)"
  using assms
  by (auto simp: heartbeat_def UpdateHeartbeat_def status_of_payload_def NodeInfo.defs GetNode_def Hades.expired_def Let_def)

end
